(* ===== verification/Prelude.thy ===== *)
theory Prelude
  imports Complex_Main "HOL-Library.AList"
begin

text \<open>
  Shared ground of the development: Python dictionaries (insertion ordered, as association
  lists), the first-minimum selection used by the schedulers, and the generic facts about
  running a step function over a sequence of inputs. The three locales state the interfaces
  the components rely on; each is interpreted on the model's own operations.
\<close>

named_theorems dict_simps \<open>look-ups, keys and values after a dictionary operation\<close>
named_theorems wf_intros \<open>well-formedness of a component after one of its operations\<close>

section \<open>Dictionaries\<close>

text \<open>
  A Python \<open>dict\<close> keeps its insertion order, and assigning to an existing key keeps the key's
  place. Several components depend on that order (the first pending run is offered, the oldest
  finished runs are dropped), so a dictionary is an association list with distinct keys.
\<close>

type_synonym ('k, 'v) dict = "('k \<times> 'v) list"

definition dget :: "('k, 'v) dict \<Rightarrow> 'k \<Rightarrow> 'v option" where
  "dget d k = map_of d k"

fun dput :: "'k \<Rightarrow> 'v \<Rightarrow> ('k, 'v) dict \<Rightarrow> ('k, 'v) dict" where
  "dput k v [] = [(k, v)]"
| "dput k v ((k', v') # d) = (if k = k' then (k, v) # d else (k', v') # dput k v d)"

definition ddel :: "'k \<Rightarrow> ('k, 'v) dict \<Rightarrow> ('k, 'v) dict" where
  "ddel k d = filter (\<lambda>p. fst p \<noteq> k) d"

definition dkeys :: "('k, 'v) dict \<Rightarrow> 'k list" where
  "dkeys d = map fst d"

definition dvals :: "('k, 'v) dict \<Rightarrow> 'v list" where
  "dvals d = map snd d"

definition dmap :: "('v \<Rightarrow> 'w) \<Rightarrow> ('k, 'v) dict \<Rightarrow> ('k, 'w) dict" where
  "dmap f d = map (\<lambda>p. (fst p, f (snd p))) d"

definition dwf :: "('k, 'v) dict \<Rightarrow> bool" where
  "dwf d \<longleftrightarrow> distinct (map fst d)"

lemma dput_keys: "map fst (dput k v d) = (if k \<in> set (map fst d) then map fst d else map fst d @ [k])"
  by (induction k v d rule: dput.induct) auto

lemma dget_dput [simp, dict_simps]: "dget (dput k v d) j = (if j = k then Some v else dget d j)"
  unfolding dget_def by (induction k v d rule: dput.induct) auto

lemma dget_ddel [simp, dict_simps]: "dget (ddel k d) j = (if j = k then None else dget d j)"
  unfolding dget_def ddel_def by (induction d) auto

lemma dget_dmap [simp, dict_simps]: "dget (dmap f d) k = map_option f (dget d k)"
  unfolding dget_def dmap_def by (induction d) auto

lemma dget_Nil [simp]: "dget [] k = None"
  by (simp add: dget_def)

lemma dget_Cons [simp]: "dget ((k, v) # d) j = (if j = k then Some v else dget d j)"
  by (simp add: dget_def)

lemma dwf_Nil [simp]: "dwf []"
  by (simp add: dwf_def)

lemma dwf_dput [simp, intro]: "dwf d \<Longrightarrow> dwf (dput k v d)"
  by (auto simp: dwf_def dput_keys)

lemma dwf_ddel [simp, intro]: "dwf d \<Longrightarrow> dwf (ddel k d)"
  by (simp add: dwf_def ddel_def distinct_map_filter)

lemma dwf_dmap [simp]: "dwf (dmap f d) = dwf d"
  by (simp add: dwf_def dmap_def comp_def)

lemma dwf_filter [simp, intro]: "dwf d \<Longrightarrow> dwf (filter P d)"
  by (simp add: dwf_def distinct_map_filter)

lemma dget_None_iff: "dget d k = None \<longleftrightarrow> k \<notin> set (dkeys d)"
  by (simp add: dget_def dkeys_def map_of_eq_None_iff)

lemma dget_Some_in: "dget d k = Some v \<Longrightarrow> (k, v) \<in> set d"
  by (simp add: dget_def map_of_SomeD)

lemma dget_iff: "dwf d \<Longrightarrow> dget d k = Some v \<longleftrightarrow> (k, v) \<in> set d"
  by (simp add: dget_def dwf_def)

lemma dkeys_dput [dict_simps]: "set (dkeys (dput k v d)) = insert k (set (dkeys d))"
  by (auto simp: dkeys_def dput_keys)

lemma dkeys_ddel [dict_simps]: "set (dkeys (ddel k d)) = set (dkeys d) - {k}"
  by (auto simp: dkeys_def ddel_def)

lemma dkeys_dmap [simp, dict_simps]: "dkeys (dmap f d) = dkeys d"
  by (simp add: dkeys_def dmap_def comp_def)

lemma dvals_dmap [simp, dict_simps]: "dvals (dmap f d) = map f (dvals d)"
  by (simp add: dvals_def dmap_def comp_def)

lemma dvals_Nil [simp]: "dvals [] = []"
  by (simp add: dvals_def)

lemma dvals_Cons [simp]: "dvals ((k, v) # d) = v # dvals d"
  by (simp add: dvals_def)

lemma dput_new: "k \<notin> set (dkeys d) \<Longrightarrow> dput k v d = d @ [(k, v)]"
  unfolding dkeys_def by (induction k v d rule: dput.induct) auto

lemma dput_same: "dget d k = Some v \<Longrightarrow> dput k v d = d"
  unfolding dget_def by (induction k v d rule: dput.induct) (auto split: if_splits)

lemma dput_dput [simp]: "dput k v (dput k w d) = dput k v d"
  by (induction k w d rule: dput.induct) auto

lemma ddel_dput_new: "dwf d \<Longrightarrow> dget d k = None \<Longrightarrow> ddel k (dput k v d) = d"
  by (simp add: dput_new dget_None_iff) (auto simp: ddel_def dkeys_def filter_id_conv)

lemma set_dput_subset: "set (dput k v d) \<subseteq> insert (k, v) (set d)"
  by (induction k v d rule: dput.induct) auto

lemma set_dput:
  assumes "dwf d"
  shows "set (dput k v d) = insert (k, v) {p \<in> set d. fst p \<noteq> k}"
  using assms unfolding dwf_def
  by (induction k v d rule: dput.induct) (auto intro: rev_image_eqI)

lemma length_dput: "length (dput k v d) = (if k \<in> set (dkeys d) then length d else Suc (length d))"
  unfolding dkeys_def by (induction k v d rule: dput.induct) auto

lemma length_ddel_le: "length (ddel k d) \<le> length d"
  by (simp add: ddel_def)

lemma set_ddel [simp]: "set (ddel k d) = {p \<in> set d. fst p \<noteq> k}"
  by (auto simp: ddel_def)

lemma dict_eq_iff: "dget a = dget b \<Longrightarrow> dget a k = dget b k"
  by simp

text \<open>The interface the stores rely on, and what holds of every dictionary with these laws.\<close>

locale dictionary =
  fixes get :: "'d \<Rightarrow> 'k \<Rightarrow> 'v option"
    and put :: "'k \<Rightarrow> 'v \<Rightarrow> 'd \<Rightarrow> 'd"
    and del :: "'k \<Rightarrow> 'd \<Rightarrow> 'd"
    and ok :: "'d \<Rightarrow> bool"
  assumes get_put: "get (put k v d) j = (if j = k then Some v else get d j)"
    and get_del: "get (del k d) j = (if j = k then None else get d j)"
    and ok_put: "ok d \<Longrightarrow> ok (put k v d)"
    and ok_del: "ok d \<Longrightarrow> ok (del k d)"
begin

lemma put_restores: "get d k = Some w \<Longrightarrow> get (put k w (put k v d)) = get d"
  by (rule ext) (simp add: get_put)

lemma del_undoes_put: "get d k = None \<Longrightarrow> get (del k (put k v d)) = get d"
  by (rule ext) (simp add: get_put get_del)

lemma put_undoes_del: "get d k = Some v \<Longrightarrow> get (put k v (del k d)) = get d"
  by (rule ext) (simp add: get_put get_del)

lemma put_other: "j \<noteq> k \<Longrightarrow> get (put k v d) j = get d j"
  by (simp add: get_put)

lemma del_other: "j \<noteq> k \<Longrightarrow> get (del k d) j = get d j"
  by (simp add: get_del)

lemma put_commute: "k \<noteq> j \<Longrightarrow> get (put k v (put j w d)) = get (put j w (put k v d))"
  by (rule ext) (simp add: get_put)

end

interpretation pd: dictionary dget dput ddel dwf
  by unfold_locales auto

section \<open>First minimum\<close>

text \<open>
  \<open>min(candidates, key=...)\<close> of Python returns the first candidate with the least key. The
  result is a position of the list of candidates.
\<close>

fun min_pos :: "('a \<Rightarrow> 'b::linorder) \<Rightarrow> 'a list \<Rightarrow> nat option" where
  "min_pos key [] = None"
| "min_pos key (x # xs) =
     (case min_pos key xs of
        None \<Rightarrow> Some 0
      | Some i \<Rightarrow> if key x \<le> key (xs ! i) then Some 0 else Some (Suc i))"

lemma min_pos_None [simp]: "min_pos key xs = None \<longleftrightarrow> xs = []"
  by (cases xs) (auto split: option.splits)

lemma min_pos_bound: "min_pos key xs = Some i \<Longrightarrow> i < length xs"
  by (induction xs arbitrary: i) (auto split: option.splits if_splits)

lemma min_pos_least:
  "min_pos key xs = Some i \<Longrightarrow> j < length xs \<Longrightarrow> key (xs ! i) \<le> key (xs ! j)"
proof (induction xs arbitrary: i j)
  case Nil
  then show ?case by simp
next
  case (Cons x xs)
  show ?case
  proof (cases "min_pos key xs")
    case None
    with Cons.prems show ?thesis by simp
  next
    case (Some m)
    note m = Some
    have rest: "k < length xs \<Longrightarrow> key (xs ! m) \<le> key (xs ! k)" for k
      using Cons.IH [OF m] by simp
    show ?thesis
    proof (cases "key x \<le> key (xs ! m)")
      case True
      with Cons.prems m have "i = 0" by simp
      then show ?thesis using True rest Cons.prems(2) by (cases j) (auto intro: order_trans)
    next
      case False
      with Cons.prems m have "i = Suc m" by simp
      then show ?thesis using False rest Cons.prems(2) by (cases j) auto
    qed
  qed
qed

lemma min_pos_first:
  "min_pos key xs = Some i \<Longrightarrow> j < i \<Longrightarrow> key (xs ! i) < key (xs ! j)"
proof (induction xs arbitrary: i j)
  case Nil
  then show ?case by simp
next
  case (Cons x xs)
  from Cons.prems obtain m where m: "min_pos key xs = Some m" "i = Suc m" "\<not> key x \<le> key (xs ! m)"
    by (auto split: option.splits if_splits)
  show ?case
  proof (cases j)
    case 0
    with m show ?thesis by simp
  next
    case (Suc k)
    with Cons.prems m have "k < m" by simp
    with Cons.IH [OF m(1)] have "key (xs ! m) < key (xs ! k)" by simp
    with m Suc show ?thesis by simp
  qed
qed

definition remove_nth :: "nat \<Rightarrow> 'a list \<Rightarrow> 'a list" where
  "remove_nth i xs = take i xs @ drop (Suc i) xs"

lemma length_remove_nth: "i < length xs \<Longrightarrow> length (remove_nth i xs) = length xs - 1"
  by (simp add: remove_nth_def)

lemma set_remove_nth_subset: "set (remove_nth i xs) \<subseteq> set xs"
  by (auto simp: remove_nth_def dest: in_set_takeD in_set_dropD)

lemma set_remove_nth: "i < length xs \<Longrightarrow> set xs = insert (xs ! i) (set (remove_nth i xs))"
  by (subst id_take_nth_drop [of i xs]) (auto simp: remove_nth_def)

section \<open>Runs of a step function\<close>

text \<open>
  A component is driven by a sequence of inputs. \<open>all_ok\<close> says that every input of the sequence
  satisfies what the environment promises in the state where it arrives.
\<close>

primrec all_ok :: "('s \<Rightarrow> 'i \<Rightarrow> bool) \<Rightarrow> ('s \<Rightarrow> 'i \<Rightarrow> 's) \<Rightarrow> 's \<Rightarrow> 'i list \<Rightarrow> bool" where
  "all_ok ok step s [] = True"
| "all_ok ok step s (i # is) = (ok s i \<and> all_ok ok step (step s i) is)"

lemma all_ok_True [simp]: "all_ok (\<lambda>s i. True) step s is"
  by (induction "is" arbitrary: s) auto

locale stepper =
  fixes step :: "'s \<Rightarrow> 'i \<Rightarrow> 's" and ok :: "'s \<Rightarrow> 'i \<Rightarrow> bool" and inv :: "'s \<Rightarrow> bool"
  assumes inv_step: "inv s \<Longrightarrow> ok s i \<Longrightarrow> inv (step s i)"
begin

lemma inv_run: "inv s \<Longrightarrow> all_ok ok step s is \<Longrightarrow> inv (foldl step s is)"
  by (induction "is" arbitrary: s) (auto intro: inv_step)

end

text \<open>A stepper with a relation that every step respects: it relates the ends of every run.\<close>

locale stepper_rel = stepper step ok inv
  for step :: "'s \<Rightarrow> 'i \<Rightarrow> 's" and ok inv +
  fixes rel :: "'s \<Rightarrow> 's \<Rightarrow> bool"
  assumes rel_refl: "rel s s"
    and rel_trans: "rel s t \<Longrightarrow> rel t r \<Longrightarrow> rel s r"
    and rel_step: "inv s \<Longrightarrow> ok s i \<Longrightarrow> rel s (step s i)"
begin

lemma rel_run: "inv s \<Longrightarrow> all_ok ok step s is \<Longrightarrow> rel s (foldl step s is)"
proof (induction "is" arbitrary: s)
  case Nil
  then show ?case by (simp add: rel_refl)
next
  case (Cons i "is")
  then have "rel s (step s i)" and "rel (step s i) (foldl step (step s i) is)"
    by (auto intro: rel_step inv_step)
  then show ?case by (auto intro: rel_trans)
qed

end

end
