(* ===== verification/Text.thy ===== *)
theory Text
  imports Prelude "HOL-Library.List_Lexorder"
begin

text \<open>
  Python's \<open>str\<close> as a list of code points, with the operations of the standard library the
  sources call: \<open>strip\<close>, \<open>lower\<close>, \<open>upper\<close>, \<open>splitlines\<close>, \<open>split\<close>, \<open>partition\<close>, \<open>startswith\<close>,
  decimal output and the numeric parsers \<open>int\<close> and \<open>float\<close>. White space and line boundaries are
  the full Unicode lists of Python. Case mapping covers ASCII, Latin-1, the basic Cyrillic block
  and the characters whose mapping lands in ASCII, and is the identity elsewhere.
  A \<open>float\<close> is an exact rational, an infinity or a NaN: rounding, overflow and underflow of
  binary floating point are not modelled. Decimal digits are the ASCII ones.
\<close>

section \<open>Code points and literals\<close>

type_synonym str = "nat list"

definition u :: "string \<Rightarrow> str" where
  "u s = map of_char s"

lemma u_inject [simp]: "u a = u b \<longleftrightarrow> a = b"
  by (simp add: u_def inj_map_eq_map inj_on_def)

lemma u_Nil [simp]: "u [] = []"
  by (simp add: u_def)

lemma u_eq_Nil [simp]: "u a = [] \<longleftrightarrow> a = []" "[] = u a \<longleftrightarrow> a = []"
  by (auto simp: u_def)

lemma u_append: "u (a @ b) = u a @ u b"
  by (simp add: u_def)

lemma length_u [simp]: "length (u a) = length a"
  by (simp add: u_def)

definition is_space :: "nat \<Rightarrow> bool" where
  "is_space c \<longleftrightarrow> (9 \<le> c \<and> c \<le> 13) \<or> (28 \<le> c \<and> c \<le> 32) \<or> c = 0x85 \<or> c = 0xA0 \<or> c = 0x1680
     \<or> (0x2000 \<le> c \<and> c \<le> 0x200A) \<or> c = 0x2028 \<or> c = 0x2029 \<or> c = 0x202F \<or> c = 0x205F \<or> c = 0x3000"

definition is_line_break :: "nat \<Rightarrow> bool" where
  "is_line_break c \<longleftrightarrow> (10 \<le> c \<and> c \<le> 13) \<or> (28 \<le> c \<and> c \<le> 30) \<or> c = 0x85 \<or> c = 0x2028 \<or> c = 0x2029"

definition is_digit :: "nat \<Rightarrow> bool" where
  "is_digit c \<longleftrightarrow> 48 \<le> c \<and> c \<le> 57"

definition is_lower :: "nat \<Rightarrow> bool" where
  "is_lower c \<longleftrightarrow> 97 \<le> c \<and> c \<le> 122"

definition is_upper :: "nat \<Rightarrow> bool" where
  "is_upper c \<longleftrightarrow> 65 \<le> c \<and> c \<le> 90"

definition is_alnum :: "nat \<Rightarrow> bool" where
  "is_alnum c \<longleftrightarrow> is_digit c \<or> is_lower c \<or> is_upper c"

section \<open>Stripping\<close>

definition lstrip :: "str \<Rightarrow> str" where
  "lstrip s = dropWhile is_space s"

definition strip :: "str \<Rightarrow> str" where
  "strip s = rev (lstrip (rev (lstrip s)))"

lemma strip_Nil [simp]: "strip [] = []"
  by (simp add: strip_def lstrip_def)

lemma lstrip_id: "s = [] \<or> \<not> is_space (hd s) \<Longrightarrow> lstrip s = s"
  by (cases s) (auto simp: lstrip_def)

lemma lstrip_hd: "lstrip s = [] \<or> \<not> is_space (hd (lstrip s))"
  unfolding lstrip_def using hd_dropWhile by blast

lemma strip_edges:
  assumes "strip s \<noteq> []"
  shows "\<not> is_space (hd (strip s))" and "\<not> is_space (last (strip s))"
proof -
  let ?t = "lstrip s"
  have last: "\<not> is_space (hd (lstrip (rev ?t)))" and ne: "lstrip (rev ?t) \<noteq> []"
    using assms lstrip_hd [of "rev ?t"] by (auto simp: strip_def)
  show "\<not> is_space (last (strip s))"
    using last ne by (simp add: strip_def last_rev)
  obtain p where p: "rev ?t = p @ lstrip (rev ?t)"
    unfolding lstrip_def by (metis takeWhile_dropWhile_id)
  then have "?t = rev (lstrip (rev ?t)) @ rev p"
    by (metis rev_append rev_rev_ident)
  then have "?t = strip s @ rev p"
    by (simp add: strip_def)
  then have "hd ?t = hd (strip s)" and "?t \<noteq> []"
    using assms by (auto simp: hd_append)
  then show "\<not> is_space (hd (strip s))"
    using lstrip_hd [of s] by auto
qed

lemma strip_id:
  assumes "s = [] \<or> \<not> is_space (hd s) \<and> \<not> is_space (last s)"
  shows "strip s = s"
  using assms by (auto simp: strip_def lstrip_id hd_rev)

lemma strip_strip [simp]: "strip (strip s) = strip s"
  using strip_edges [of s] by (auto intro: strip_id)

lemma set_strip: "set (strip s) \<subseteq> set s"
  by (auto simp: strip_def lstrip_def dest!: set_dropWhileD)

lemma strip_no_space: "list_all (\<lambda>c. \<not> is_space c) s \<Longrightarrow> strip s = s"
  by (rule strip_id) (cases s; auto simp: list_all_iff)

lemma strip_all_space: "list_all is_space s \<Longrightarrow> strip s = []"
  by (simp add: strip_def lstrip_def list_all_iff dropWhile_eq_Nil_conv [THEN iffD2])

lemma length_strip: "length (strip s) \<le> length s"
  unfolding strip_def lstrip_def
  by (metis length_dropWhile_le length_rev order_trans)

section \<open>Case mapping\<close>

definition lower_char :: "nat \<Rightarrow> str" where
  "lower_char c =
     (if is_upper c \<or> (0xC0 \<le> c \<and> c \<le> 0xDE \<and> c \<noteq> 0xD7) \<or> (0x410 \<le> c \<and> c \<le> 0x42F) then [c + 32]
      else if 0x400 \<le> c \<and> c \<le> 0x40F then [c + 80]
      else if c = 0x212A then [0x6B]
      else if c = 0x130 then [0x69, 0x307]
      else [c])"

definition lower :: "str \<Rightarrow> str" where
  "lower s = concat (map lower_char s)"

definition upper_char :: "nat \<Rightarrow> str" where
  "upper_char c =
     (if is_lower c \<or> (0xE0 \<le> c \<and> c \<le> 0xFE \<and> c \<noteq> 0xF7) \<or> (0x430 \<le> c \<and> c \<le> 0x44F) then [c - 32]
      else if 0x450 \<le> c \<and> c \<le> 0x45F then [c - 80]
      else if c = 0xDF then [0x53, 0x53]
      else if c = 0xFF then [0x178]
      else if c = 0xB5 then [0x39C]
      else if c = 0x131 then [0x49]
      else if c = 0x17F then [0x53]
      else if c = 0xFB00 then [0x46, 0x46]
      else if c = 0xFB01 then [0x46, 0x49]
      else if c = 0xFB02 then [0x46, 0x4C]
      else if c = 0xFB03 then [0x46, 0x46, 0x49]
      else if c = 0xFB04 then [0x46, 0x46, 0x4C]
      else if c = 0xFB05 \<or> c = 0xFB06 then [0x53, 0x54]
      else [c])"

definition upper :: "str \<Rightarrow> str" where
  "upper s = concat (map upper_char s)"

lemma lower_char_lower: "concat (map lower_char (lower_char c)) = lower_char c"
  by (auto simp: lower_char_def is_upper_def)

lemma lower_lower [simp]: "lower (lower s) = lower s"
  unfolding lower_def by (induction s) (auto simp: lower_char_lower)

lemma shifted_not_space:
  "65 \<le> c \<Longrightarrow> c \<le> 90 \<Longrightarrow> \<not> is_space (c + 32)"
  "0xC0 \<le> c \<Longrightarrow> c \<le> 0xDE \<Longrightarrow> \<not> is_space (c + 32)"
  "0x410 \<le> c \<Longrightarrow> c \<le> 0x42F \<Longrightarrow> \<not> is_space (c + 32)"
  "0x400 \<le> c \<Longrightarrow> c \<le> 0x40F \<Longrightarrow> \<not> is_space (c + 80)"
  "\<not> is_space 0x6B" "\<not> is_space 0x69" "\<not> is_space 0x307"
  by (simp_all add: is_space_def)

lemma lower_char_edges:
  assumes "\<not> is_space c"
  shows "lower_char c \<noteq> [] \<and> \<not> is_space (hd (lower_char c)) \<and> \<not> is_space (last (lower_char c))"
proof -
  have "(65 \<le> c \<and> c \<le> 90) \<or> (0xC0 \<le> c \<and> c \<le> 0xDE \<and> c \<noteq> 0xD7) \<or> (0x410 \<le> c \<and> c \<le> 0x42F)
    \<or> (0x400 \<le> c \<and> c \<le> 0x40F) \<or> c = 0x212A \<or> c = 0x130 \<or> lower_char c = [c]"
    unfolding lower_char_def is_upper_def by (simp only: split: if_split) blast
  then show ?thesis
    by (elim disjE) (use assms shifted_not_space in \<open>simp_all add: lower_char_def is_upper_def\<close>)
qed

lemma lower_append: "lower (a @ b) = lower a @ lower b"
  by (simp add: lower_def)

text \<open>Lowering a stripped text leaves it stripped.\<close>

lemma strip_lower_strip [simp]: "strip (lower (strip s)) = lower (strip s)"
proof (cases "strip s")
  case Nil
  then show ?thesis by (simp add: lower_def)
next
  case (Cons c cs)
  have e: "\<not> is_space c" "\<not> is_space (last (strip s))" "strip s \<noteq> []"
    using strip_edges [of s] Cons by auto
  have first: "lower (strip s) = lower_char c @ lower cs"
    using Cons by (simp add: lower_def)
  have last: "lower (strip s) = lower (butlast (strip s)) @ lower_char (last (strip s))"
    using lower_append [of "butlast (strip s)" "[last (strip s)]"] e(3) by (simp add: lower_def)
  have "\<not> is_space (hd (lower (strip s)))"
    using lower_char_edges [OF e(1)] unfolding first by simp
  moreover have "\<not> is_space (last (lower (strip s)))"
    using lower_char_edges [OF e(2)] unfolding last by simp
  ultimately show ?thesis by (intro strip_id) simp
qed

lemma lower_Nil [simp]: "lower [] = []"
  by (simp add: lower_def)

section \<open>Splitting\<close>

definition startswith :: "str \<Rightarrow> str \<Rightarrow> bool" where
  "startswith s p \<longleftrightarrow> take (length p) s = p"

definition endswith :: "str \<Rightarrow> str \<Rightarrow> bool" where
  "endswith s p \<longleftrightarrow> startswith (rev s) (rev p)"

lemma startswith_iff: "startswith s p \<longleftrightarrow> (\<exists>r. s = p @ r)"
  unfolding startswith_def by (metis append_eq_conv_conj append_take_drop_id)

text \<open>\<open>s.split(c)\<close> for a one-character separator; the result is never empty.\<close>

fun split_on :: "nat \<Rightarrow> str \<Rightarrow> str list" where
  "split_on c [] = [[]]"
| "split_on c (x # xs) =
     (if x = c then [] # split_on c xs
      else (case split_on c xs of [] \<Rightarrow> [[x]] | w # ws \<Rightarrow> (x # w) # ws))"

lemma split_on_ne [simp]: "split_on c s \<noteq> []"
  by (induction s) (auto split: list.splits)

lemma split_on_no_sep: "w \<in> set (split_on c s) \<Longrightarrow> c \<notin> set w"
  by (induction s arbitrary: w) (auto split: list.splits if_splits)

lemma split_on_none: "c \<notin> set s \<Longrightarrow> split_on c s = [s]"
  by (induction s) auto

lemma split_on_append: "c \<notin> set s \<Longrightarrow> split_on c (s @ c # t) = s # split_on c t"
  by (induction s) auto

text \<open>\<open>sep.join(parts)\<close> for a one-character separator.\<close>

fun join_on :: "nat \<Rightarrow> str list \<Rightarrow> str" where
  "join_on c [] = []"
| "join_on c [w] = w"
| "join_on c (w # ws) = w @ c # join_on c ws"

lemma split_join:
  "ws \<noteq> [] \<Longrightarrow> (\<And>w. w \<in> set ws \<Longrightarrow> c \<notin> set w) \<Longrightarrow> split_on c (join_on c ws) = ws"
  by (induction c ws rule: join_on.induct) (auto simp: split_on_none split_on_append)

text \<open>\<open>s.partition(c)\<close>: the part before the first separator, whether there is one, the rest.\<close>

definition partition_on :: "nat \<Rightarrow> str \<Rightarrow> str \<times> bool \<times> str" where
  "partition_on c s =
     (let a = takeWhile (\<lambda>x. x \<noteq> c) s; r = dropWhile (\<lambda>x. x \<noteq> c) s
      in case r of [] \<Rightarrow> (a, False, []) | _ # t \<Rightarrow> (a, True, t))"

lemma partition_on_sep: "c \<notin> set a \<Longrightarrow> partition_on c (a @ c # t) = (a, True, t)"
  unfolding partition_on_def
  by (subst takeWhile_append2, force, subst dropWhile_append2, force) simp

text \<open>\<open>s.splitlines()\<close>; the pair \<open>\r\n\<close> is one boundary, a final boundary ends the last line.\<close>

fun splitlines_acc :: "str \<Rightarrow> str \<Rightarrow> str list" where
  "splitlines_acc acc [] = (if acc = [] then [] else [rev acc])"
| "splitlines_acc acc (c # cs) =
     (if c = 13 \<and> cs \<noteq> [] \<and> hd cs = 10 then rev acc # splitlines_acc [] (tl cs)
      else if is_line_break c then rev acc # splitlines_acc [] cs
      else splitlines_acc (c # acc) cs)"

definition splitlines :: "str \<Rightarrow> str list" where
  "splitlines s = splitlines_acc [] s"

lemma splitlines_acc_none:
  "list_all (\<lambda>c. \<not> is_line_break c) s \<Longrightarrow>
   splitlines_acc acc s = (if acc = [] \<and> s = [] then [] else [rev acc @ s])"
  by (induction s arbitrary: acc) (auto simp: is_line_break_def)

section \<open>Numbers\<close>

fun show_nat :: "nat \<Rightarrow> str" where
  "show_nat n = (if n < 10 then [48 + n] else show_nat (n div 10) @ [48 + n mod 10])"

declare show_nat.simps [simp del]

definition show_int :: "int \<Rightarrow> str" where
  "show_int i = (if i < 0 then 45 # show_nat (nat (- i)) else show_nat (nat i))"

text \<open>
  A run of decimal digits with single underscores between digits: the value read so far, the
  number of digits, the rest of the text.
\<close>

fun scan_digits :: "nat \<Rightarrow> nat \<Rightarrow> str \<Rightarrow> nat \<times> nat \<times> str" where
  "scan_digits v n [] = (v, n, [])"
| "scan_digits v n (c # cs) =
     (if is_digit c then scan_digits (10 * v + (c - 48)) (Suc n) cs
      else if c = 95 \<and> 0 < n \<and> cs \<noteq> [] \<and> is_digit (hd cs) then scan_digits v n cs
      else (v, n, c # cs))"

definition scan_sign :: "str \<Rightarrow> bool \<times> str" where
  "scan_sign s = (case s of [] \<Rightarrow> (False, [])
     | c # cs \<Rightarrow> if c = 45 then (True, cs) else if c = 43 then (False, cs) else (False, c # cs))"

text \<open>\<open>int(s)\<close>; \<open>None\<close> is the ValueError.\<close>

definition parse_int :: "str \<Rightarrow> int option" where
  "parse_int s =
     (let (neg, r) = scan_sign (strip s); (v, n, rest) = scan_digits 0 0 r
      in if n = 0 \<or> rest \<noteq> [] then None else Some (if neg then - int v else int v))"

datatype pyfloat = Fin rat | PosInf | NegInf | NaN

definition fneg :: "pyfloat \<Rightarrow> pyfloat" where
  "fneg x = (case x of Fin r \<Rightarrow> Fin (- r) | PosInf \<Rightarrow> NegInf | NegInf \<Rightarrow> PosInf | NaN \<Rightarrow> NaN)"

definition is_finite :: "pyfloat \<Rightarrow> bool" where
  "is_finite x = (case x of Fin _ \<Rightarrow> True | _ \<Rightarrow> False)"

text \<open>\<open>x > 0\<close> of Python; every comparison with a NaN is false.\<close>

definition fpos :: "pyfloat \<Rightarrow> bool" where
  "fpos x = (case x of Fin r \<Rightarrow> 0 < r | PosInf \<Rightarrow> True | NegInf \<Rightarrow> False | NaN \<Rightarrow> False)"

text \<open>The exponent part: \<open>None\<close> when the text after the mantissa is not one.\<close>

definition scan_exponent :: "str \<Rightarrow> int option" where
  "scan_exponent s =
     (case s of [] \<Rightarrow> Some 0
      | c # cs \<Rightarrow>
          if c = 101 \<or> c = 69 then
            (let (neg, r) = scan_sign cs; (v, n, rest) = scan_digits 0 0 r
             in if n = 0 \<or> rest \<noteq> [] then None else Some (if neg then - int v else int v))
          else None)"

definition scale10 :: "rat \<Rightarrow> int \<Rightarrow> rat" where
  "scale10 m e = (if 0 \<le> e then m * 10 ^ nat e else m / 10 ^ nat (- e))"

text \<open>\<open>float(s)\<close>; \<open>None\<close> is the ValueError.\<close>

definition parse_float :: "str \<Rightarrow> pyfloat option" where
  "parse_float s =
     (let (neg, r) = scan_sign (strip s); w = lower r; sg = (\<lambda>x. if neg then fneg x else x)
      in if w = u ''inf'' \<or> w = u ''infinity'' then Some (sg PosInf)
         else if w = u ''nan'' then Some NaN
         else
           (let (iv, ic, r1) = scan_digits 0 0 r;
                (fv, fc, r2) = (case r1 of [] \<Rightarrow> (0, 0, [])
                                | c # t \<Rightarrow> if c = 46 then scan_digits 0 0 t else (0, 0, r1))
            in if ic + fc = 0 then None
               else (case scan_exponent r2 of None \<Rightarrow> None
                     | Some e \<Rightarrow> Some (sg (Fin (scale10 (of_nat (iv * 10 ^ fc + fv) / 10 ^ fc) e))))))"

lemma show_nat_ne [simp]: "show_nat n \<noteq> []"
  by (subst show_nat.simps) auto

lemma show_nat_digits: "c \<in> set (show_nat n) \<Longrightarrow> is_digit c"
proof (induction n rule: show_nat.induct)
  case (1 n)
  show ?case
  proof (cases "n < 10")
    case True
    with 1 show ?thesis by (simp add: show_nat.simps [of n] is_digit_def)
  next
    case False
    with 1 show ?thesis by (auto simp: show_nat.simps [of n] is_digit_def)
  qed
qed

lemma scan_digits_append:
  "(\<And>c. c \<in> set a \<Longrightarrow> is_digit c) \<Longrightarrow>
   scan_digits v n (a @ b) = scan_digits (fold (\<lambda>c v. 10 * v + (c - 48)) a v) (n + length a) b"
  by (induction a arbitrary: v n) auto

lemma fold_show_nat: "fold (\<lambda>c v. 10 * v + (c - 48)) (show_nat n) v = v * 10 ^ length (show_nat n) + n"
proof (induction n arbitrary: v rule: show_nat.induct)
  case (1 n)
  show ?case
  proof (cases "n < 10")
    case True
    then show ?thesis by (simp add: show_nat.simps [of n])
  next
    case False
    then have step: "show_nat n = show_nat (n div 10) @ [48 + n mod 10]"
      by (simp add: show_nat.simps [of n])
    have "fold (\<lambda>c v. 10 * v + (c - 48)) (show_nat (n div 10)) v
        = v * 10 ^ length (show_nat (n div 10)) + n div 10"
      using 1 False by simp
    then show ?thesis
      by (simp add: step algebra_simps)
  qed
qed

lemma scan_show_nat: "scan_digits 0 0 (show_nat n) = (n, length (show_nat n), [])"
  using scan_digits_append [of "show_nat n" 0 0 "[]"] fold_show_nat [of n 0]
  by (simp add: show_nat_digits)

lemma digit_not_space: "is_digit c \<Longrightarrow> \<not> is_space c"
  by (auto simp: is_digit_def is_space_def)

lemma show_int_not_space: "c \<in> set (show_int i) \<Longrightarrow> \<not> is_space c"
  by (auto simp: show_int_def is_space_def split: if_splits dest!: show_nat_digits digit_not_space)

lemma strip_show_int [simp]: "strip (show_int i) = show_int i"
  by (rule strip_no_space) (auto simp: list_all_iff show_int_not_space)

lemma show_int_ne [simp]: "show_int i \<noteq> []"
  by (simp add: show_int_def)

text \<open>Printing an integer and parsing it back.\<close>

lemma parse_show_int [simp]: "parse_int (show_int i) = Some i"
proof -
  have sign: "scan_sign (show_nat n) = (False, show_nat n)" for n
  proof -
    obtain c cs where c: "show_nat n = c # cs" by (cases "show_nat n") auto
    then have "is_digit c" using show_nat_digits [of c n] by simp
    then show ?thesis using c by (auto simp: scan_sign_def is_digit_def)
  qed
  show ?thesis
  proof (cases "i < 0")
    case True
    then show ?thesis
      using strip_show_int [of i]
      by (simp add: parse_int_def show_int_def scan_sign_def scan_show_nat)
  next
    case False
    then show ?thesis
      using strip_show_int [of i]
      by (simp add: parse_int_def show_int_def sign scan_show_nat)
  qed
qed

lemma show_int_inject [simp]: "show_int i = show_int j \<longleftrightarrow> i = j"
  by (metis option.inject parse_show_int)

text \<open>The definitions that evaluate a text operation on a literal.\<close>

lemmas text_eval = u_def strip_def lstrip_def is_space_def lower_def lower_char_def upper_def
  upper_char_def is_upper_def is_lower_def is_digit_def is_alnum_def startswith_def endswith_def

end
