(* ===== verification/Json.thy ===== *)
theory Json
  imports Text
begin

text \<open>
  JSON values and the Python conversions applied to them. A file or a message is modelled at the
  level of the values \<open>json.loads\<close> returns and \<open>json.dumps\<close> receives; an object is a dictionary.
  \<open>str\<close> of a float, a list or an object (Python's \<open>repr\<close>) is the parameter \<open>rp\<close>.
\<close>

datatype json =
    JNull
  | JBool bool
  | JInt int
  | JFloat pyfloat
  | JStr str
  | JList "json list"
  | JObj "(str \<times> json) list"

datatype py_exc = ValueErr | TypeErr | KeyErr | OverflowErr

fun truthy :: "json \<Rightarrow> bool" where
  "truthy JNull = False"
| "truthy (JBool b) = b"
| "truthy (JInt i) = (i \<noteq> 0)"
| "truthy (JFloat (Fin r)) = (r \<noteq> 0)"
| "truthy (JFloat _) = True"
| "truthy (JStr s) = (s \<noteq> [])"
| "truthy (JList xs) = (xs \<noteq> [])"
| "truthy (JObj ps) = (ps \<noteq> [])"

fun py_str :: "(json \<Rightarrow> str) \<Rightarrow> json \<Rightarrow> str" where
  "py_str rp JNull = u ''None''"
| "py_str rp (JBool b) = (if b then u ''True'' else u ''False'')"
| "py_str rp (JInt i) = show_int i"
| "py_str rp (JStr s) = s"
| "py_str rp (JFloat x) = rp (JFloat x)"
| "py_str rp (JList xs) = rp (JList xs)"
| "py_str rp (JObj ps) = rp (JObj ps)"

definition truncate :: "rat \<Rightarrow> int" where
  "truncate r = (if 0 \<le> r then \<lfloor>r\<rfloor> else \<lceil>r\<rceil>)"

fun py_int :: "json \<Rightarrow> py_exc + int" where
  "py_int (JInt i) = Inr i"
| "py_int (JBool b) = Inr (if b then 1 else 0)"
| "py_int (JFloat (Fin r)) = Inr (truncate r)"
| "py_int (JFloat NaN) = Inl ValueErr"
| "py_int (JFloat _) = Inl OverflowErr"
| "py_int (JStr s) = (case parse_int s of None \<Rightarrow> Inl ValueErr | Some i \<Rightarrow> Inr i)"
| "py_int JNull = Inl TypeErr"
| "py_int (JList _) = Inl TypeErr"
| "py_int (JObj _) = Inl TypeErr"

fun py_float :: "json \<Rightarrow> py_exc + pyfloat" where
  "py_float (JInt i) = Inr (Fin (of_int i))"
| "py_float (JBool b) = Inr (Fin (if b then 1 else 0))"
| "py_float (JFloat x) = Inr x"
| "py_float (JStr s) = (case parse_float s of None \<Rightarrow> Inl ValueErr | Some x \<Rightarrow> Inr x)"
| "py_float JNull = Inl TypeErr"
| "py_float (JList _) = Inl TypeErr"
| "py_float (JObj _) = Inl TypeErr"

text \<open>\<open>item[key]\<close> and \<open>item.get(key, default)\<close> on an object.\<close>

definition jget :: "(str \<times> json) list \<Rightarrow> string \<Rightarrow> json \<Rightarrow> json" where
  "jget ps k d = (case dget ps (u k) of None \<Rightarrow> d | Some v \<Rightarrow> v)"

definition jitem :: "(str \<times> json) list \<Rightarrow> string \<Rightarrow> py_exc + json" where
  "jitem ps k = (case dget ps (u k) of None \<Rightarrow> Inl KeyErr | Some v \<Rightarrow> Inr v)"

definition jopt :: "('a \<Rightarrow> json) \<Rightarrow> 'a option \<Rightarrow> json" where
  "jopt f x = (case x of None \<Rightarrow> JNull | Some v \<Rightarrow> f v)"

section \<open>Errors in sequence\<close>

text \<open>A raised exception ends the function: sequencing of fallible computations.\<close>

definition try_bind :: "'e + 'a \<Rightarrow> ('a \<Rightarrow> 'e + 'b) \<Rightarrow> 'e + 'b" where
  "try_bind x f = (case x of Inl e \<Rightarrow> Inl e | Inr v \<Rightarrow> f v)"

lemma try_bind_simps [simp]: "try_bind (Inl e) f = Inl e" "try_bind (Inr v) f = f v"
  by (simp_all add: try_bind_def)

lemma try_bind_Inr [simp]: "try_bind x f = Inr b \<longleftrightarrow> (\<exists>a. x = Inr a \<and> f a = Inr b)"
  by (cases x) auto

text \<open>\<open>if bad: raise e\<close>.\<close>

definition guard_not :: "bool \<Rightarrow> 'e \<Rightarrow> 'e + 'a \<Rightarrow> 'e + 'a" where
  "guard_not bad e k = (if bad then Inl e else k)"

lemma guard_not_simps [simp]: "guard_not True e k = Inl e" "guard_not False e k = k"
  by (simp_all add: guard_not_def)

lemma guard_not_Inr [simp]: "guard_not bad e k = Inr v \<longleftrightarrow> \<not> bad \<and> k = Inr v"
  by (simp add: guard_not_def)

text \<open>Continue after success; an error leaves the state as the failed operation left it.\<close>

definition then_do :: "('e + 'a) \<times> 's \<Rightarrow> ('a \<Rightarrow> 's \<Rightarrow> ('e + 'b) \<times> 's) \<Rightarrow> ('e + 'b) \<times> 's" where
  "then_do r k = (case r of (Inl e, s) \<Rightarrow> (Inl e, s) | (Inr v, s) \<Rightarrow> k v s)"

lemma then_do_simps [simp]:
  "then_do (Inl e, s) k = (Inl e, s)" "then_do (Inr v, s) k = k v s"
  by (simp_all add: then_do_def)

end
