(* ===== verification/Tasks.thy ===== *)
theory Tasks
  imports Json
begin

text \<open>
  The task registry, \<open>src/src/orchestration/tasks.py\<close>: records, validation, the six operations
  that change the store, saving with roll-back and reloading. A generated identifier
  (\<open>uuid.uuid4().hex\<close>) is an argument of the operation that draws it. The file is modelled by the
  JSON value of each of its lines.
\<close>

section \<open>Records\<close>

record task =
  t_id :: int
  t_description :: str
  t_text :: str
  t_method :: str
  t_skills :: "str list"
  t_period :: "rat option"
  t_enabled :: bool
  t_generation :: str
  t_executor :: str
  t_agent :: "str option"

datatype task_error =
    BadExecutor
  | IdOutOfRange int
  | EmptyDescription
  | EmptyText
  | BadMethod str
  | EmptySkill
  | DuplicateSkill
  | BadAgentId
  | BadPeriod
  | TaskLimit int
  | UnknownTask int
  | BadRecord
  | DuplicateId int
  | AtLine nat task_error
  | CannotRead
  | SaveFailed
  | PeriodValueError
  | RecordOverflow

datatype file_line = BlankLine | MalformedLine | JsonLine json

datatype task_file = NoFile | UnreadableFile | FileLines "file_line list"

record task_store =
  ts_max :: int
  ts_tasks :: "(int, task) dict"
  ts_file :: task_file

text \<open>
  \<open>OwnedTasks._save\<close> does nothing (the engine commits everything at once); the plain store
  replaces its file, which may fail.
\<close>

datatype save_mode = Owned | Disk bool

record task_args =
  a_description :: str
  a_text :: str
  a_method :: str
  a_skills :: "str list"
  a_period :: "pyfloat option"
  a_enabled :: bool
  a_executor :: str
  a_agent :: json

section \<open>Validation\<close>

definition task_methods :: "str list" where
  "task_methods = [u ''task'', u ''query'']"

definition executors :: "str list" where
  "executors = [u ''auto'', u ''litert'', u ''openai'']"

definition validate_executor :: "str \<Rightarrow> task_error + unit" where
  "validate_executor e = (if e \<in> set executors then Inr () else Inl BadExecutor)"

text \<open>The regular expression \<open>agent_[1-9][0-9]*\<close>, as a full match.\<close>

definition agent_name_ok :: "str \<Rightarrow> bool" where
  "agent_name_ok s \<longleftrightarrow> startswith s (u ''agent_'') \<and>
     (case drop 6 s of [] \<Rightarrow> False | c # cs \<Rightarrow> 49 \<le> c \<and> c \<le> 57 \<and> list_all is_digit cs)"

definition valid_agent :: "json \<Rightarrow> (str option) option" where
  "valid_agent a = (case a of JNull \<Rightarrow> Some None
     | JStr s \<Rightarrow> if agent_name_ok s then Some (Some s) else None
     | _ \<Rightarrow> None)"

definition valid_period :: "pyfloat option \<Rightarrow> (rat option) option" where
  "valid_period p = (case p of None \<Rightarrow> Some None
     | Some (Fin r) \<Rightarrow> if r \<le> 0 then None else Some (Some r)
     | Some _ \<Rightarrow> None)"

text \<open>
  \<open>_validate_record\<close>: the identifier is checked only when the record comes from the file
  (\<open>Some\<close> identifier). The result carries the period and agent in their validated types.
\<close>

definition validate_record ::
  "int \<Rightarrow> int option \<Rightarrow> str \<Rightarrow> str \<Rightarrow> str \<Rightarrow> str list \<Rightarrow> pyfloat option \<Rightarrow> json
     \<Rightarrow> task_error + (rat option \<times> str option)" where
  "validate_record mx ident description txt method skills period agent =
     guard_not (case ident of None \<Rightarrow> False | Some i \<Rightarrow> i < 1 \<or> mx < i)
       (IdOutOfRange (case ident of None \<Rightarrow> 1 | Some i \<Rightarrow> i))
     (guard_not (description = []) EmptyDescription
     (guard_not (txt = []) EmptyText
     (guard_not (method \<notin> set task_methods) (BadMethod method)
     (guard_not ([] \<in> set skills) EmptySkill
     (guard_not (\<not> distinct skills) DuplicateSkill
     (case valid_agent agent of None \<Rightarrow> Inl BadAgentId
      | Some ag \<Rightarrow> (case valid_period period of None \<Rightarrow> Inl BadPeriod
                    | Some pe \<Rightarrow> Inr (pe, ag))))))))"

section \<open>Saving\<close>

definition task_json :: "task \<Rightarrow> json" where
  "task_json t = JObj
     [(u ''task'', JInt (t_id t)),
      (u ''description'', JStr (t_description t)),
      (u ''text'', JStr (t_text t)),
      (u ''method'', JStr (t_method t)),
      (u ''skills'', JList (map JStr (t_skills t))),
      (u ''timer_period_seconds'', jopt (\<lambda>r. JFloat (Fin r)) (t_period t)),
      (u ''enabled'', JBool (t_enabled t)),
      (u ''generation'', JStr (t_generation t)),
      (u ''executor'', JStr (t_executor t)),
      (u ''agent_id'', jopt JStr (t_agent t))]"

definition list_tasks :: "task_store \<Rightarrow> task list" where
  "list_tasks st = map (\<lambda>k. the (dget (ts_tasks st) k)) (sort (dkeys (ts_tasks st)))"

definition save_tasks :: "save_mode \<Rightarrow> task_store \<Rightarrow> task_store option" where
  "save_tasks m st =
     (case m of Owned \<Rightarrow> Some st
      | Disk ok \<Rightarrow> if ok then Some (st\<lparr>ts_file := FileLines (map (\<lambda>t. JsonLine (task_json t)) (list_tasks st))\<rparr>)
                   else None)"

section \<open>Operations\<close>

definition get_task :: "task_store \<Rightarrow> int \<Rightarrow> task option" where
  "get_task st i = dget (ts_tasks st) i"

definition require_task :: "task_store \<Rightarrow> int \<Rightarrow> task_error + task" where
  "require_task st i = (case get_task st i of None \<Rightarrow> Inl (UnknownTask i) | Some t \<Rightarrow> Inr t)"

definition first_free_id :: "task_store \<Rightarrow> int option" where
  "first_free_id st = find (\<lambda>i. get_task st i = None) [1..ts_max st]"

definition create_task ::
  "save_mode \<Rightarrow> str \<Rightarrow> task_args \<Rightarrow> task_store \<Rightarrow> (task_error + task) \<times> task_store" where
  "create_task m gen a st =
     (let description = strip (a_description a); txt = strip (a_text a);
          method = lower (strip (a_method a)); skills = map strip (a_skills a)
      in case validate_executor (a_executor a) of Inl e \<Rightarrow> (Inl e, st)
         | Inr _ \<Rightarrow>
        (case validate_record (ts_max st) None description txt method skills (a_period a) (a_agent a) of
           Inl e \<Rightarrow> (Inl e, st)
         | Inr (pe, ag) \<Rightarrow>
        (case first_free_id st of None \<Rightarrow> (Inl (TaskLimit (ts_max st)), st)
         | Some i \<Rightarrow>
           (let t = \<lparr>t_id = i, t_description = description, t_text = txt, t_method = method,
                     t_skills = skills, t_period = pe, t_enabled = a_enabled a, t_generation = gen,
                     t_executor = a_executor a, t_agent = ag\<rparr>;
                added = st\<lparr>ts_tasks := dput i t (ts_tasks st)\<rparr>
            in case save_tasks m added of Some st' \<Rightarrow> (Inr t, st')
               | None \<Rightarrow> (Inl SaveFailed, added\<lparr>ts_tasks := ddel i (ts_tasks added)\<rparr>)))))"

definition replace_task :: "save_mode \<Rightarrow> task \<Rightarrow> task_store \<Rightarrow> (task_error + unit) \<times> task_store" where
  "replace_task m t st =
     (case require_task st (t_id t) of Inl e \<Rightarrow> (Inl e, st)
      | Inr previous \<Rightarrow>
        (let changed = st\<lparr>ts_tasks := dput (t_id t) t (ts_tasks st)\<rparr>
         in case save_tasks m changed of Some st' \<Rightarrow> (Inr (), st')
            | None \<Rightarrow> (Inl SaveFailed, changed\<lparr>ts_tasks := dput (t_id t) previous (ts_tasks changed)\<rparr>)))"

text \<open>The common end of the three setters: \<open>self._replace(updated); return updated\<close>.\<close>

definition return_updated :: "save_mode \<Rightarrow> task \<Rightarrow> task_store \<Rightarrow> (task_error + task) \<times> task_store" where
  "return_updated m t st = (case replace_task m t st of (Inl e, st') \<Rightarrow> (Inl e, st') | (Inr _, st') \<Rightarrow> (Inr t, st'))"

definition set_enabled ::
  "save_mode \<Rightarrow> str \<Rightarrow> int \<Rightarrow> bool \<Rightarrow> bool \<Rightarrow> task_store \<Rightarrow> (task_error + task) \<times> task_store" where
  "set_enabled m gen i on preserve st =
     (case require_task st i of Inl e \<Rightarrow> (Inl e, st)
      | Inr cur \<Rightarrow> return_updated m
          (cur\<lparr>t_enabled := on, t_generation := (if preserve then t_generation cur else gen)\<rparr>) st)"

definition set_timer_period ::
  "save_mode \<Rightarrow> str \<Rightarrow> int \<Rightarrow> pyfloat \<Rightarrow> task_store \<Rightarrow> (task_error + task) \<times> task_store" where
  "set_timer_period m gen i p st =
     (case valid_period (Some p) of None \<Rightarrow> (Inl PeriodValueError, st)
      | Some pe \<Rightarrow>
        (case require_task st i of Inl e \<Rightarrow> (Inl e, st)
         | Inr cur \<Rightarrow> return_updated m (cur\<lparr>t_period := pe, t_generation := gen\<rparr>) st))"

definition set_executor ::
  "save_mode \<Rightarrow> str \<Rightarrow> int \<Rightarrow> str \<Rightarrow> task_store \<Rightarrow> (task_error + task) \<times> task_store" where
  "set_executor m gen i e st =
     (case validate_executor e of Inl err \<Rightarrow> (Inl err, st)
      | Inr _ \<Rightarrow>
        (case require_task st i of Inl err \<Rightarrow> (Inl err, st)
         | Inr cur \<Rightarrow> return_updated m (cur\<lparr>t_executor := e, t_generation := gen\<rparr>) st))"

definition delete_task :: "save_mode \<Rightarrow> int \<Rightarrow> task_store \<Rightarrow> (task_error + bool) \<times> task_store" where
  "delete_task m i st =
     (case get_task st i of None \<Rightarrow> (Inr False, st)
      | Some t \<Rightarrow>
        (let removed = st\<lparr>ts_tasks := ddel i (ts_tasks st)\<rparr>
         in case save_tasks m removed of Some st' \<Rightarrow> (Inr True, st')
            | None \<Rightarrow> (Inl SaveFailed, removed\<lparr>ts_tasks := dput i t (ts_tasks removed)\<rparr>)))"

definition tasks_text :: "task_store \<Rightarrow> str" where
  "tasks_text st =
     (if list_tasks st = [] then u ''no tasks''
      else join_on 10 (map (\<lambda>t. u ''TASK '' @ show_int (t_id t) @ u '' '' @ t_description t) (list_tasks st)))"

section \<open>Reloading\<close>

text \<open>The conversions of one line; any \<open>ValueError\<close>, \<open>TypeError\<close> or \<open>KeyError\<close> is a bad record.\<close>

definition convert_exc :: "py_exc + 'a \<Rightarrow> task_error + 'a" where
  "convert_exc x = (case x of Inr v \<Rightarrow> Inr v
     | Inl e \<Rightarrow> Inl (if e = OverflowErr then RecordOverflow else BadRecord))"

definition json_skills :: "(json \<Rightarrow> str) \<Rightarrow> json \<Rightarrow> py_exc + str list" where
  "json_skills rp j = (case j of JList xs \<Rightarrow> Inr (map (\<lambda>x. strip (py_str rp x)) xs) | _ \<Rightarrow> Inl TypeErr)"

definition json_period :: "json \<Rightarrow> py_exc + pyfloat option" where
  "json_period j = (if j = JNull then Inr None
     else (case py_float j of Inl e \<Rightarrow> Inl e | Inr x \<Rightarrow> Inr (Some x)))"

definition load_task :: "(json \<Rightarrow> str) \<Rightarrow> int \<Rightarrow> str \<Rightarrow> json \<Rightarrow> task_error + task" where
  "load_task rp mx fresh j =
     (case j of
        JObj item \<Rightarrow>
          try_bind (convert_exc (try_bind (jitem item ''task'') py_int)) (\<lambda>i.
          try_bind (convert_exc (jitem item ''description'')) (\<lambda>d.
          try_bind (convert_exc (jitem item ''text'')) (\<lambda>x.
          try_bind (convert_exc (json_skills rp (jget item ''skills'' (JList [])))) (\<lambda>skills.
          try_bind (convert_exc (json_period (jget item ''timer_period_seconds'' JNull))) (\<lambda>period.
          (let description = strip (py_str rp d); txt = strip (py_str rp x);
               method = lower (strip (py_str rp (jget item ''method'' (JStr (u ''task'')))));
               on = truthy (jget item ''enabled'' (JBool True));
               executor = py_str rp (jget item ''executor'' (JStr (u ''litert'')));
               agent = jget item ''agent_id'' JNull;
               g = jget item ''generation'' JNull
           in try_bind (validate_executor executor) (\<lambda>_.
              try_bind (validate_record mx (Some i) description txt method skills period agent) (\<lambda>(pe, ag).
              Inr \<lparr>t_id = i, t_description = description, t_text = txt, t_method = method,
                   t_skills = skills, t_period = pe, t_enabled = on,
                   t_generation = (if truthy g then py_str rp g else fresh),
                   t_executor = executor, t_agent = ag\<rparr>))))))))
      | _ \<Rightarrow> Inl BadRecord)"

text \<open>The loop over the lines, \<open>n\<close> the number of the line; \<open>fresh n\<close> the identifier drawn for it.\<close>

fun load_lines ::
  "(json \<Rightarrow> str) \<Rightarrow> int \<Rightarrow> (nat \<Rightarrow> str) \<Rightarrow> nat \<Rightarrow> file_line list \<Rightarrow> (int, task) dict \<Rightarrow> task_error + (int, task) dict" where
  "load_lines rp mx fresh n [] acc = Inr acc"
| "load_lines rp mx fresh n (BlankLine # ls) acc = load_lines rp mx fresh (Suc n) ls acc"
| "load_lines rp mx fresh n (MalformedLine # ls) acc = Inl (AtLine n BadRecord)"
| "load_lines rp mx fresh n (JsonLine j # ls) acc =
     (case load_task rp mx (fresh n) j of
        Inl e \<Rightarrow> Inl (AtLine n e)
      | Inr t \<Rightarrow>
          if dget acc (t_id t) \<noteq> None then Inl (AtLine n (DuplicateId (t_id t)))
          else load_lines rp mx fresh (Suc n) ls (dput (t_id t) t acc))"

definition reload_tasks :: "(json \<Rightarrow> str) \<Rightarrow> (nat \<Rightarrow> str) \<Rightarrow> task_store \<Rightarrow> (task_error + unit) \<times> task_store" where
  "reload_tasks rp fresh st =
     (case ts_file st of
        NoFile \<Rightarrow> (Inr (), st\<lparr>ts_tasks := []\<rparr>)
      | UnreadableFile \<Rightarrow> (Inl CannotRead, st)
      | FileLines ls \<Rightarrow>
          (case load_lines rp (ts_max st) fresh 1 ls [] of
             Inl e \<Rightarrow> (Inl e, st)
           | Inr ts \<Rightarrow> (Inr (), st\<lparr>ts_tasks := ts\<rparr>)))"

text \<open>\<open>TaskStore.__init__\<close>: the store is filled from its file; \<open>None\<close> is the ValueError.\<close>

definition open_store :: "(json \<Rightarrow> str) \<Rightarrow> (nat \<Rightarrow> str) \<Rightarrow> int \<Rightarrow> task_file \<Rightarrow> (task_error + task_store) option" where
  "open_store rp fresh mx file =
     (if mx < 1 then None
      else Some (case reload_tasks rp fresh \<lparr>ts_max = mx, ts_tasks = [], ts_file = file\<rparr> of
                   (Inl e, _) \<Rightarrow> Inl e | (Inr _, st) \<Rightarrow> Inr st))"

section \<open>The invariant of a store\<close>

definition task_ok :: "int \<Rightarrow> task \<Rightarrow> bool" where
  "task_ok mx t \<longleftrightarrow>
     1 \<le> t_id t \<and> t_id t \<le> mx \<and> t_description t \<noteq> [] \<and> strip (t_description t) = t_description t
     \<and> t_text t \<noteq> [] \<and> strip (t_text t) = t_text t \<and> t_method t \<in> set task_methods
     \<and> [] \<notin> set (t_skills t) \<and> distinct (t_skills t) \<and> list_all (\<lambda>s. strip s = s) (t_skills t)
     \<and> (case t_period t of None \<Rightarrow> True | Some p \<Rightarrow> 0 < p)
     \<and> (case t_agent t of None \<Rightarrow> True | Some a \<Rightarrow> agent_name_ok a)
     \<and> t_executor t \<in> set executors"

definition tasks_ok :: "int \<Rightarrow> (int, task) dict \<Rightarrow> bool" where
  "tasks_ok mx d \<longleftrightarrow> dwf d \<and> (\<forall>i t. dget d i = Some t \<longrightarrow> t_id t = i \<and> task_ok mx t)"

definition store_ok :: "task_store \<Rightarrow> bool" where
  "store_ok st \<longleftrightarrow> tasks_ok (ts_max st) (ts_tasks st)"

text \<open>Two stores that answer every look-up alike and have the same file.\<close>

definition same_store :: "task_store \<Rightarrow> task_store \<Rightarrow> bool" where
  "same_store a b \<longleftrightarrow> dget (ts_tasks a) = dget (ts_tasks b) \<and> ts_file a = ts_file b \<and> ts_max a = ts_max b"

lemma same_store_refl [simp, intro]: "same_store s s"
  by (simp add: same_store_def)

lemma tasks_ok_Nil [simp]: "tasks_ok mx []"
  by (simp add: tasks_ok_def)

lemma tasks_ok_dput: "tasks_ok mx d \<Longrightarrow> task_ok mx t \<Longrightarrow> tasks_ok mx (dput (t_id t) t d)"
  by (auto simp: tasks_ok_def split: if_splits)

lemma tasks_ok_ddel: "tasks_ok mx d \<Longrightarrow> tasks_ok mx (ddel i d)"
  by (auto simp: tasks_ok_def split: if_splits)

lemma tasks_okD: "tasks_ok mx d \<Longrightarrow> dget d i = Some t \<Longrightarrow> t_id t = i \<and> task_ok mx t"
  by (simp add: tasks_ok_def)

lemma valid_agent_ok: "valid_agent a = Some ag \<Longrightarrow> case ag of None \<Rightarrow> True | Some s \<Rightarrow> agent_name_ok s"
  by (auto simp: valid_agent_def split: json.splits if_splits)

lemma valid_period_ok: "valid_period p = Some pe \<Longrightarrow> case pe of None \<Rightarrow> True | Some r \<Rightarrow> 0 < r"
  by (auto simp: valid_period_def split: option.splits pyfloat.splits if_splits)

lemma validate_record_Inr:
  "validate_record mx ident d x m sk p a = Inr (pe, ag) \<longleftrightarrow>
     (case ident of None \<Rightarrow> True | Some i \<Rightarrow> 1 \<le> i \<and> i \<le> mx) \<and> d \<noteq> [] \<and> x \<noteq> [] \<and> m \<in> set task_methods
     \<and> [] \<notin> set sk \<and> distinct sk \<and> valid_agent a = Some ag \<and> valid_period p = Some pe"
  by (auto simp: validate_record_def split: option.splits)

lemma validate_executor_Inr [simp]: "validate_executor e = Inr x \<longleftrightarrow> e \<in> set executors"
  by (auto simp: validate_executor_def)

lemma save_tasks_Some:
  "save_tasks m st = Some st' \<Longrightarrow> ts_tasks st' = ts_tasks st \<and> ts_max st' = ts_max st"
  by (auto simp: save_tasks_def split: save_mode.splits if_splits)

lemma first_free_Some:
  "first_free_id st = Some i \<longleftrightarrow>
     1 \<le> i \<and> i \<le> ts_max st \<and> get_task st i = None \<and> (\<forall>j. 1 \<le> j \<longrightarrow> j < i \<longrightarrow> get_task st j \<noteq> None)"
proof -
  have "find P [m..n] = Some i \<longleftrightarrow> m \<le> i \<and> i \<le> n \<and> P i \<and> (\<forall>j. m \<le> j \<longrightarrow> j < i \<longrightarrow> \<not> P j)" for P m n and i :: int
  proof (induction m n rule: upto.induct)
    case (1 m n)
    show ?case
    proof (cases "m \<le> n")
      case True
      have up: "[m..n] = m # [m + 1..n]" using True by (rule upto_rec1)
      show ?thesis
      proof (cases "P m")
        case True
        then show ?thesis using \<open>m \<le> n\<close> unfolding up by (auto; force)
      next
        case False
        have "find P [m..n] = find P [m + 1..n]" using False unfolding up by simp
        also have "\<dots> = Some i \<longleftrightarrow> m + 1 \<le> i \<and> i \<le> n \<and> P i \<and> (\<forall>j. m + 1 \<le> j \<longrightarrow> j < i \<longrightarrow> \<not> P j)"
          using 1 True by simp
        also have "\<dots> \<longleftrightarrow> m \<le> i \<and> i \<le> n \<and> P i \<and> (\<forall>j. m \<le> j \<longrightarrow> j < i \<longrightarrow> \<not> P j)"
          using False by (metis dual_order.strict_iff_order zle_iff_zadd zless_iff_Suc_zadd zless_add1_eq
              add1_zle_eq less_le)
        finally show ?thesis .
      qed
    next
      case False
      then show ?thesis by simp
    qed
  qed
  then show ?thesis by (simp add: first_free_id_def)
qed

lemma first_free_None:
  "first_free_id st = None \<longleftrightarrow> (\<forall>j. 1 \<le> j \<longrightarrow> j \<le> ts_max st \<longrightarrow> get_task st j \<noteq> None)"
  by (auto simp: first_free_id_def find_None_iff)

section \<open>Every operation keeps the invariant, and a failed one changes nothing\<close>

lemma store_ok_save: "save_tasks m st = Some st' \<Longrightarrow> store_ok st' = store_ok st"
  by (auto dest!: save_tasks_Some simp: store_ok_def)

lemma create_task_Inl:
  assumes "create_task m gen a st = (Inl e, st')"
  shows "same_store st' st"
  using assms
  by (auto simp: create_task_def same_store_def Let_def first_free_Some get_task_def fun_eq_iff
      split: sum.splits option.splits prod.splits)

lemma create_task_Inr:
  assumes "create_task m gen a st = (Inr t, st')"
  shows "first_free_id st = Some (t_id t)"
    and "t_generation t = gen" and "t_description t = strip (a_description a)"
    and "t_text t = strip (a_text a)" and "t_method t = lower (strip (a_method a))"
    and "t_skills t = map strip (a_skills a)" and "t_enabled t = a_enabled a"
    and "t_executor t = a_executor a"
    and "valid_period (a_period a) = Some (t_period t)" and "valid_agent (a_agent a) = Some (t_agent t)"
    and "task_ok (ts_max st) t"
    and "save_tasks m (st\<lparr>ts_tasks := dput (t_id t) t (ts_tasks st)\<rparr>) = Some st'"
  using assms
  by (auto simp: create_task_def Let_def validate_record_Inr task_ok_def first_free_Some list_all_iff
      split: sum.splits option.splits prod.splits dest: valid_agent_ok valid_period_ok)

lemma create_task_ok: "store_ok st \<Longrightarrow> create_task m gen a st = (Inr t, st') \<Longrightarrow> store_ok st'"
  using create_task_Inr(11,12) [of m gen a st t st']
  by (auto simp: store_ok_def dest!: save_tasks_Some intro: tasks_ok_dput)

lemma return_updated_Inl: "return_updated m t st = (Inl e, st') \<Longrightarrow> same_store st' st"
  by (auto simp: return_updated_def replace_task_def require_task_def get_task_def same_store_def fun_eq_iff Let_def
      split: sum.splits option.splits prod.splits)

lemma return_updated_Inr:
  "return_updated m t st = (Inr t', st') \<Longrightarrow>
     t' = t \<and> save_tasks m (st\<lparr>ts_tasks := dput (t_id t) t (ts_tasks st)\<rparr>) = Some st'"
  by (auto simp: return_updated_def replace_task_def Let_def
      split: sum.splits option.splits prod.splits)

lemma return_updated_ok:
  "store_ok st \<Longrightarrow> task_ok (ts_max st) t \<Longrightarrow> return_updated m t st = (Inr t', st') \<Longrightarrow> store_ok st'"
  by (auto dest!: return_updated_Inr save_tasks_Some simp: store_ok_def intro: tasks_ok_dput)

lemma require_task_Inr: "require_task st i = Inr t \<longleftrightarrow> get_task st i = Some t"
  by (auto simp: require_task_def split: option.splits)

lemma get_task_id: "get_task st i = Some t \<Longrightarrow> store_ok st \<Longrightarrow> t_id t = i"
  by (auto simp: get_task_def store_ok_def dest: tasks_okD)

lemma get_task_ok: "get_task st i = Some t \<Longrightarrow> store_ok st \<Longrightarrow> task_ok (ts_max st) t"
  by (auto simp: get_task_def store_ok_def dest: tasks_okD)

lemma set_enabled_Inl: "set_enabled m gen i on pr st = (Inl e, st') \<Longrightarrow> same_store st' st"
  by (auto simp: set_enabled_def split: sum.splits dest: return_updated_Inl)

lemma set_enabled_Inr:
  assumes "set_enabled m gen i on pr st = (Inr t, st')" and "store_ok st"
  shows "\<exists>cur. get_task st i = Some cur
       \<and> t = cur\<lparr>t_enabled := on, t_generation := (if pr then t_generation cur else gen)\<rparr>
       \<and> save_tasks m (st\<lparr>ts_tasks := dput i t (ts_tasks st)\<rparr>) = Some st'"
proof -
  obtain cur where c: "get_task st i = Some cur"
    and r: "return_updated m (cur\<lparr>t_enabled := on, t_generation := (if pr then t_generation cur else gen)\<rparr>) st = (Inr t, st')"
    using assms(1) by (auto simp: set_enabled_def require_task_Inr split: sum.splits)
  have "t_id cur = i" using c assms(2) by (rule get_task_id)
  then show ?thesis using c return_updated_Inr [OF r] by simp
qed

lemma set_timer_period_Inl: "set_timer_period m gen i p st = (Inl e, st') \<Longrightarrow> same_store st' st"
  by (auto simp: set_timer_period_def split: sum.splits option.splits dest: return_updated_Inl)

lemma set_timer_period_Inr:
  assumes "set_timer_period m gen i p st = (Inr t, st')" and "store_ok st"
  shows "\<exists>cur r. get_task st i = Some cur \<and> p = Fin r \<and> 0 < r
       \<and> t = cur\<lparr>t_period := Some r, t_generation := gen\<rparr>
       \<and> save_tasks m (st\<lparr>ts_tasks := dput i t (ts_tasks st)\<rparr>) = Some st'"
proof -
  obtain cur r where c: "get_task st i = Some cur" and p: "p = Fin r" "0 < r"
    and u: "return_updated m (cur\<lparr>t_period := Some r, t_generation := gen\<rparr>) st = (Inr t, st')"
    using assms(1) by (auto simp: set_timer_period_def require_task_Inr valid_period_def
        split: sum.splits option.splits pyfloat.splits if_splits)
  have "t_id cur = i" using c assms(2) by (rule get_task_id)
  then show ?thesis using c p return_updated_Inr [OF u] by simp
qed

lemma set_executor_Inl: "set_executor m gen i x st = (Inl e, st') \<Longrightarrow> same_store st' st"
  by (auto simp: set_executor_def split: sum.splits option.splits dest: return_updated_Inl)

lemma set_executor_Inr:
  assumes "set_executor m gen i x st = (Inr t, st')" and "store_ok st"
  shows "\<exists>cur. get_task st i = Some cur \<and> x \<in> set executors \<and> t = cur\<lparr>t_executor := x, t_generation := gen\<rparr>
       \<and> save_tasks m (st\<lparr>ts_tasks := dput i t (ts_tasks st)\<rparr>) = Some st'"
proof -
  obtain cur where c: "get_task st i = Some cur" and x: "x \<in> set executors"
    and r: "return_updated m (cur\<lparr>t_executor := x, t_generation := gen\<rparr>) st = (Inr t, st')"
    using assms(1) by (auto simp: set_executor_def require_task_Inr split: sum.splits)
  have "t_id cur = i" using c assms(2) by (rule get_task_id)
  then show ?thesis using c x return_updated_Inr [OF r] by simp
qed

lemma delete_task_Inl: "delete_task m i st = (Inl e, st') \<Longrightarrow> same_store st' st"
  by (auto simp: delete_task_def get_task_def same_store_def fun_eq_iff Let_def split: option.splits)

lemma delete_task_Inr:
  "delete_task m i st = (Inr b, st') \<Longrightarrow>
     (b \<longleftrightarrow> get_task st i \<noteq> None) \<and>
     (if b then save_tasks m (st\<lparr>ts_tasks := ddel i (ts_tasks st)\<rparr>) = Some st' else st' = st)"
  by (auto simp: delete_task_def Let_def split: option.splits)

lemma store_ok_replace:
  "save_tasks m (st\<lparr>ts_tasks := dput i t (ts_tasks st)\<rparr>) = Some st' \<Longrightarrow> store_ok st \<Longrightarrow>
     task_ok (ts_max st) t \<Longrightarrow> t_id t = i \<Longrightarrow> store_ok st'"
  by (auto simp: store_ok_def dest!: save_tasks_Some intro: tasks_ok_dput)

lemma same_store_ok: "same_store st' st \<Longrightarrow> dwf (ts_tasks st') \<Longrightarrow> store_ok st \<Longrightarrow> store_ok st'"
  by (auto simp: same_store_def store_ok_def tasks_ok_def)

lemma task_ok_update [simp]:
  "task_ok mx (t\<lparr>t_enabled := on\<rparr>) = task_ok mx t"
  "task_ok mx (t\<lparr>t_generation := g\<rparr>) = task_ok mx t"
  "task_ok mx t \<Longrightarrow> 0 < r \<Longrightarrow> task_ok mx (t\<lparr>t_period := Some r\<rparr>)"
  "task_ok mx t \<Longrightarrow> task_ok mx (t\<lparr>t_executor := x\<rparr>) = (x \<in> set executors)"
  by (auto simp: task_ok_def)

section \<open>Sequences of operations\<close>

datatype task_op =
    OpCreate save_mode str task_args
  | OpEnable save_mode str int bool bool
  | OpPeriod save_mode str int pyfloat
  | OpExecutor save_mode str int str
  | OpDelete save_mode int
  | OpReload "nat \<Rightarrow> str"

fun task_step :: "(json \<Rightarrow> str) \<Rightarrow> task_store \<Rightarrow> task_op \<Rightarrow> task_store" where
  "task_step rp st (OpCreate m g a) = snd (create_task m g a st)"
| "task_step rp st (OpEnable m g i on pr) = snd (set_enabled m g i on pr st)"
| "task_step rp st (OpPeriod m g i p) = snd (set_timer_period m g i p st)"
| "task_step rp st (OpExecutor m g i x) = snd (set_executor m g i x st)"
| "task_step rp st (OpDelete m i) = snd (delete_task m i st)"
| "task_step rp st (OpReload fresh) = snd (reload_tasks rp fresh st)"

lemma dwf_ops:
  assumes "dwf (ts_tasks st)"
  shows "dwf (ts_tasks (snd (create_task m g a st)))"
    and "dwf (ts_tasks (snd (set_enabled m g i on pr st)))"
    and "dwf (ts_tasks (snd (set_timer_period m g i p st)))"
    and "dwf (ts_tasks (snd (set_executor m g i x st)))"
    and "dwf (ts_tasks (snd (delete_task m i st)))"
  using assms
  by (auto simp: create_task_def set_enabled_def set_timer_period_def set_executor_def delete_task_def
      return_updated_def replace_task_def Let_def
      split: sum.splits option.splits prod.splits dest!: save_tasks_Some)

lemma json_skills_strip: "convert_exc (json_skills rp j) = Inr sk \<Longrightarrow> list_all (\<lambda>s. strip s = s) sk"
  by (cases j) (auto simp: json_skills_def convert_exc_def list_all_iff)

lemma load_task_valid:
  "load_task rp mx g j = Inr t \<Longrightarrow>
     \<exists>p a. validate_record mx (Some (t_id t)) (t_description t) (t_text t) (t_method t) (t_skills t) p a
              = Inr (t_period t, t_agent t)
        \<and> t_executor t \<in> set executors \<and> strip (t_description t) = t_description t
        \<and> strip (t_text t) = t_text t \<and> list_all (\<lambda>s. strip s = s) (t_skills t)"
  by (cases j) (auto simp: load_task_def Let_def dest!: json_skills_strip, blast)

lemma load_task_ok: "load_task rp mx g j = Inr t \<Longrightarrow> task_ok mx t"
  by (drule load_task_valid) (auto simp: task_ok_def validate_record_Inr dest: valid_agent_ok valid_period_ok)

lemma load_lines_ok: "load_lines rp mx fresh n ls acc = Inr d \<Longrightarrow> tasks_ok mx acc \<Longrightarrow> tasks_ok mx d"
  by (induction rp mx fresh n ls acc rule: load_lines.induct)
    (auto split: sum.splits if_splits dest: load_task_ok intro: tasks_ok_dput)

lemma reload_tasks_ok: "store_ok st \<Longrightarrow> store_ok (snd (reload_tasks rp fresh st))"
  by (auto simp: reload_tasks_def store_ok_def split: task_file.splits sum.splits dest: load_lines_ok)

lemma op_ok_cases:
  assumes "store_ok st" and "dwf (ts_tasks (snd r))"
    and "\<And>e st'. r = (Inl e, st') \<Longrightarrow> same_store st' st"
    and "\<And>t st'. r = (Inr t, st') \<Longrightarrow> store_ok st'"
  shows "store_ok (snd r)"
proof (cases r)
  case (Pair v st')
  then show ?thesis
    using assms by (cases v) (auto intro: same_store_ok)
qed

lemma set_enabled_ok: "store_ok st \<Longrightarrow> set_enabled m g i on pr st = (Inr t, st') \<Longrightarrow> store_ok st'"
  by (drule (1) set_enabled_Inr) (auto elim!: store_ok_replace simp: get_task_id get_task_ok)

lemma set_timer_period_ok: "store_ok st \<Longrightarrow> set_timer_period m g i p st = (Inr t, st') \<Longrightarrow> store_ok st'"
  by (drule (1) set_timer_period_Inr) (auto elim!: store_ok_replace simp: get_task_id get_task_ok)

lemma set_executor_ok: "store_ok st \<Longrightarrow> set_executor m g i x st = (Inr t, st') \<Longrightarrow> store_ok st'"
  by (drule (1) set_executor_Inr) (auto elim!: store_ok_replace simp: get_task_id get_task_ok)

lemma delete_task_ok: "store_ok st \<Longrightarrow> delete_task m i st = (Inr b, st') \<Longrightarrow> store_ok st'"
  by (drule delete_task_Inr) (auto simp: store_ok_def dest!: save_tasks_Some intro: tasks_ok_ddel split: if_splits)

lemma ops_ok [wf_intros]:
  assumes "store_ok st"
  shows "store_ok (snd (create_task m g a st))"
    and "store_ok (snd (set_enabled m g i on pr st))"
    and "store_ok (snd (set_timer_period m g i p st))"
    and "store_ok (snd (set_executor m g i x st))"
    and "store_ok (snd (delete_task m i st))"
    and "store_ok (snd (reload_tasks rp fresh st))"
proof -
  have wf: "dwf (ts_tasks st)" using assms by (simp add: store_ok_def tasks_ok_def)
  show "store_ok (snd (create_task m g a st))"
    by (rule op_ok_cases [OF assms dwf_ops(1) [OF wf] create_task_Inl create_task_ok [OF assms]])
  show "store_ok (snd (set_enabled m g i on pr st))"
    by (rule op_ok_cases [OF assms dwf_ops(2) [OF wf] set_enabled_Inl set_enabled_ok [OF assms]])
  show "store_ok (snd (set_timer_period m g i p st))"
    by (rule op_ok_cases [OF assms dwf_ops(3) [OF wf] set_timer_period_Inl set_timer_period_ok [OF assms]])
  show "store_ok (snd (set_executor m g i x st))"
    by (rule op_ok_cases [OF assms dwf_ops(4) [OF wf] set_executor_Inl set_executor_ok [OF assms]])
  show "store_ok (snd (delete_task m i st))"
    by (rule op_ok_cases [OF assms dwf_ops(5) [OF wf] delete_task_Inl delete_task_ok [OF assms]])
  show "store_ok (snd (reload_tasks rp fresh st))"
    using assms by (rule reload_tasks_ok)
qed

lemma store_ops_max [simp]:
  "ts_max (snd (create_task m g a st)) = ts_max st"
  "ts_max (snd (set_enabled m g i on pr st)) = ts_max st"
  "ts_max (snd (set_timer_period m g i p st)) = ts_max st"
  "ts_max (snd (set_executor m g i x st)) = ts_max st"
  "ts_max (snd (delete_task m i st)) = ts_max st"
  by (auto simp: create_task_def set_enabled_def set_timer_period_def set_executor_def delete_task_def
      return_updated_def replace_task_def Let_def split: sum.splits option.splits prod.splits dest!: save_tasks_Some)

lemma task_step_max [simp]: "ts_max (task_step rp st op) = ts_max st"
  by (cases op) (simp_all add: reload_tasks_def split: task_file.split sum.split)

lemma task_run_max [simp]: "ts_max (foldl (task_step rp) st ops) = ts_max st"
  by (induction ops arbitrary: st) simp_all

interpretation task_runs: stepper "task_step rp" "\<lambda>_ _. True" store_ok
proof
  fix s i
  assume "store_ok s"
  then show "store_ok (task_step rp s i)"
    by (cases i) (auto intro: wf_intros)
qed

section \<open>Saving and reloading\<close>

lemma agent_json: "(case a of None \<Rightarrow> True | Some s \<Rightarrow> agent_name_ok s) \<Longrightarrow> valid_agent (jopt JStr a) = Some a"
  by (auto simp: valid_agent_def jopt_def split: option.splits)

lemma period_json:
  assumes "case p of None \<Rightarrow> True | Some r \<Rightarrow> 0 < r"
  shows "\<exists>q. json_period (jopt (\<lambda>r. JFloat (Fin r)) p) = Inr q \<and> valid_period q = Some p"
  using assms by (auto simp: json_period_def jopt_def valid_period_def split: option.splits)

lemma lower_method: "m \<in> set task_methods \<Longrightarrow> lower (strip m) = m"
  by (auto simp: task_methods_def text_eval)

text \<open>One record: what \<open>_save\<close> writes is what \<open>reload\<close> reads back.\<close>

lemma load_task_json:
  assumes "task_ok mx t" and "t_generation t \<noteq> []"
  shows "load_task rp mx g (task_json t) = Inr t"
proof -
  obtain q where q: "json_period (jopt (\<lambda>r. JFloat (Fin r)) (t_period t)) = Inr q" "valid_period q = Some (t_period t)"
    using period_json assms(1) unfolding task_ok_def by blast
  have sk: "map (\<lambda>x. strip (py_str rp x)) (map JStr (t_skills t)) = t_skills t"
    using assms(1) by (simp add: task_ok_def list_all_iff map_idI)
  have ag: "valid_agent (jopt JStr (t_agent t)) = Some (t_agent t)"
    using assms(1) by (intro agent_json) (simp add: task_ok_def)
  have m: "lower (strip (t_method t)) = t_method t"
    using assms(1) by (intro lower_method) (simp add: task_ok_def)
  have v: "validate_record mx (Some (t_id t)) (t_description t) (t_text t) (t_method t) (t_skills t) q (jopt JStr (t_agent t))
      = Inr (t_period t, t_agent t)"
    using assms(1) q ag by (simp add: validate_record_Inr task_ok_def)
  show ?thesis
    using assms q sk m v
    by (simp add: load_task_def task_json_def jitem_def jget_def convert_exc_def json_skills_def task_ok_def
        Let_def validate_executor_def)
qed

lemma load_lines_json:
  assumes "\<And>t. t \<in> set ts \<Longrightarrow> task_ok mx t \<and> t_generation t \<noteq> []"
    and "distinct (map t_id ts)" and "\<And>t. t \<in> set ts \<Longrightarrow> dget acc (t_id t) = None"
  shows "load_lines rp mx fresh n (map (\<lambda>t. JsonLine (task_json t)) ts) acc = Inr (acc @ map (\<lambda>t. (t_id t, t)) ts)"
  using assms
proof (induction ts arbitrary: n acc)
  case Nil
  then show ?case by simp
next
  case (Cons t ts)
  have "load_task rp mx (fresh n) (task_json t) = Inr t"
    using Cons.prems(1) by (intro load_task_json) auto
  moreover have "dput (t_id t) t acc = acc @ [(t_id t, t)]"
    using Cons.prems(3) by (intro dput_new) (simp add: dget_None_iff)
  moreover have "load_lines rp mx fresh (Suc n) (map (\<lambda>t. JsonLine (task_json t)) ts) (acc @ [(t_id t, t)])
      = Inr ((acc @ [(t_id t, t)]) @ map (\<lambda>t. (t_id t, t)) ts)"
  proof (rule Cons.IH)
    show "dget (acc @ [(t_id t, t)]) (t_id s) = None" if "s \<in> set ts" for s
      using that Cons.prems(2) Cons.prems(3) [of s] by (auto simp: dget_def map_add_def image_iff split: option.splits)
  qed (use Cons.prems in auto)
  ultimately show ?case
    using Cons.prems(3) by simp
qed

lemma list_tasks_set: "store_ok st \<Longrightarrow> set (list_tasks st) = {t. \<exists>i. get_task st i = Some t}"
  unfolding list_tasks_def get_task_def
  by (auto simp: image_def) (metis dget_None_iff option.collapse, metis dget_None_iff option.distinct(1) option.sel)

lemma list_tasks_ids: "store_ok st \<Longrightarrow> map t_id (list_tasks st) = sort (dkeys (ts_tasks st))"
proof -
  assume ok: "store_ok st"
  have "t_id (the (dget (ts_tasks st) k)) = k" if "k \<in> set (dkeys (ts_tasks st))" for k
  proof -
    from that obtain t where "dget (ts_tasks st) k = Some t"
      using dget_None_iff [of "ts_tasks st" k] by blast
    then show ?thesis using ok by (auto simp: store_ok_def dest: tasks_okD)
  qed
  then show ?thesis by (auto simp: list_tasks_def comp_def intro!: map_idI)
qed

lemma list_tasks_distinct: "store_ok st \<Longrightarrow> distinct (map t_id (list_tasks st))"
  by (simp add: list_tasks_ids) (simp add: store_ok_def tasks_ok_def dwf_def dkeys_def)

lemma dget_list_tasks:
  assumes "store_ok st"
  shows "dget (map (\<lambda>t. (t_id t, t)) (list_tasks st)) = dget (ts_tasks st)"
proof
  fix i
  let ?d = "map (\<lambda>t. (t_id t, t)) (list_tasks st)"
  have wf: "dwf ?d" using list_tasks_distinct [OF assms] by (simp add: dwf_def comp_def)
  show "dget ?d i = dget (ts_tasks st) i"
  proof (cases "dget (ts_tasks st) i")
    case None
    then have "i \<notin> set (dkeys ?d)"
      using list_tasks_ids [OF assms] by (auto simp: dkeys_def comp_def dget_None_iff simp flip: set_map)
    then show ?thesis using None dget_None_iff by metis
  next
    case (Some t)
    then have "t \<in> set (list_tasks st)" and "t_id t = i"
      using assms by (auto simp: list_tasks_set get_task_def store_ok_def dest: tasks_okD)
    then have "(i, t) \<in> set ?d" by auto
    then show ?thesis using Some wf by (simp add: dget_iff)
  qed
qed

lemma reload_saved:
  assumes ok: "store_ok st" and gen: "\<And>i t. get_task st i = Some t \<Longrightarrow> t_generation t \<noteq> []"
    and saved: "save_tasks (Disk True) st = Some st'"
  shows "\<exists>st''. reload_tasks rp fresh st' = (Inr (), st'') \<and> same_store st'' st'"
proof -
  let ?ts = "list_tasks st"
  have st': "st' = st\<lparr>ts_file := FileLines (map (\<lambda>t. JsonLine (task_json t)) ?ts)\<rparr>"
    using saved by (simp add: save_tasks_def)
  have "load_lines rp (ts_max st) fresh 1 (map (\<lambda>t. JsonLine (task_json t)) ?ts) [] = Inr ([] @ map (\<lambda>t. (t_id t, t)) ?ts)"
  proof (rule load_lines_json)
    show "task_ok (ts_max st) t \<and> t_generation t \<noteq> []" if "t \<in> set ?ts" for t
      using that list_tasks_set [OF ok] get_task_ok [OF _ ok] gen by blast
  qed (simp_all add: list_tasks_distinct [OF ok])
  then show ?thesis
    using dget_list_tasks [OF ok] by (simp add: reload_tasks_def st' same_store_def)
qed

end
