(* ===== verification/Shlex.thy ===== *)
theory Shlex
  imports Json
begin

text \<open>
  \<open>shlex.split\<close> of the standard library in its POSIX mode, as the sources call it: the state
  machine of \<open>shlex.read_token\<close> with white space splitting and no comment characters.
\<close>

datatype sh_error = NoClosingQuotation | NoEscapedCharacter

text \<open>\<open>ShEscape None\<close> is an escape outside quotes, \<open>ShEscape (Some q)\<close> inside the quote \<open>q\<close>.\<close>

datatype sh_state = ShSpace | ShWord | ShQuote nat | ShEscape "nat option"

definition sh_white :: "nat \<Rightarrow> bool" where
  "sh_white c \<longleftrightarrow> c = 32 \<or> c = 9 \<or> c = 13 \<or> c = 10"

definition sh_quote :: "nat \<Rightarrow> bool" where
  "sh_quote c \<longleftrightarrow> c = 34 \<or> c = 39"

text \<open>\<open>quoted\<close> records that the current token contained a quote, so that it counts even when empty.\<close>

fun sh_scan :: "sh_state \<Rightarrow> bool \<Rightarrow> str \<Rightarrow> str \<Rightarrow> sh_error + str list" where
  "sh_scan ShSpace quoted tok [] = Inr []"
| "sh_scan ShSpace quoted tok (c # cs) =
     (if sh_white c then sh_scan ShSpace False [] cs
      else if c = 92 then sh_scan (ShEscape None) False [] cs
      else if sh_quote c then sh_scan (ShQuote c) False [] cs
      else sh_scan ShWord False [c] cs)"
| "sh_scan ShWord quoted tok [] = Inr (if tok = [] \<and> \<not> quoted then [] else [tok])"
| "sh_scan ShWord quoted tok (c # cs) =
     (if sh_white c then
        (if tok \<noteq> [] \<or> quoted then try_bind (sh_scan ShSpace False [] cs) (\<lambda>r. Inr (tok # r))
         else sh_scan ShSpace False [] cs)
      else if sh_quote c then sh_scan (ShQuote c) quoted tok cs
      else if c = 92 then sh_scan (ShEscape None) quoted tok cs
      else sh_scan ShWord quoted (tok @ [c]) cs)"
| "sh_scan (ShQuote q) quoted tok [] = Inl NoClosingQuotation"
| "sh_scan (ShQuote q) quoted tok (c # cs) =
     (if c = q then sh_scan ShWord True tok cs
      else if c = 92 \<and> q = 34 then sh_scan (ShEscape (Some q)) True tok cs
      else sh_scan (ShQuote q) True (tok @ [c]) cs)"
| "sh_scan (ShEscape from) quoted tok [] = Inl NoEscapedCharacter"
| "sh_scan (ShEscape None) quoted tok (c # cs) = sh_scan ShWord quoted (tok @ [c]) cs"
| "sh_scan (ShEscape (Some q)) quoted tok (c # cs) =
     sh_scan (ShQuote q) quoted (tok @ (if c \<noteq> 92 \<and> c \<noteq> q then [92, c] else [c])) cs"

definition shlex_split :: "str \<Rightarrow> sh_error + str list" where
  "shlex_split s = sh_scan ShSpace False [] s"

text \<open>A character that has no meaning to the scanner outside quotes.\<close>

definition sh_plain :: "nat \<Rightarrow> bool" where
  "sh_plain c \<longleftrightarrow> \<not> sh_white c \<and> \<not> sh_quote c \<and> c \<noteq> 92"

definition sh_word :: "str \<Rightarrow> bool" where
  "sh_word w \<longleftrightarrow> w \<noteq> [] \<and> list_all sh_plain w"

lemma sh_scan_plain:
  "list_all sh_plain w \<Longrightarrow> sh_scan ShWord q tok (w @ r) = sh_scan ShWord q (tok @ w) r"
  by (induction w arbitrary: tok) (auto simp: sh_plain_def)

lemma sh_scan_word:
  assumes "sh_word w"
  shows "sh_scan ShSpace q tok (w @ r) = sh_scan ShWord False w r"
proof -
  obtain c cs where "w = c # cs" using assms by (cases w) (auto simp: sh_word_def)
  with assms show ?thesis
    using sh_scan_plain [of cs False "[c]" r] by (simp add: sh_word_def sh_plain_def)
qed

text \<open>Plain words joined by single spaces split into exactly these words.\<close>

lemma shlex_join: "list_all sh_word ws \<Longrightarrow> shlex_split (join_on 32 ws) = Inr ws"
proof (induction "32::nat" ws rule: join_on.induct)
  case 1
  then show ?case by (simp add: shlex_split_def)
next
  case (2 w)
  then show ?case
    using sh_scan_word [of w False "[]" "[]"] by (simp add: shlex_split_def sh_word_def)
next
  case (3 w v ws)
  then have "sh_scan ShSpace False [] (join_on 32 (v # ws)) = Inr (v # ws)"
    by (simp add: shlex_split_def)
  then show ?case
    using 3 sh_scan_word [of w False "[]" "32 # join_on 32 (v # ws)"]
    by (simp add: shlex_split_def sh_word_def sh_white_def)
qed

text \<open>A text in double quotes without quotes or backslashes is one token, spaces included.\<close>

lemma sh_scan_quoted:
  "list_all (\<lambda>c. c \<noteq> 34 \<and> c \<noteq> 92) s \<Longrightarrow> sh_scan (ShQuote 34) q tok (s @ 34 # r) = sh_scan ShWord True (tok @ s) r"
  by (induction s arbitrary: q tok) auto

end
