(* ===== verification/SysRuntime.thy ===== *)
theory SysRuntime
  imports Tasks Shlex
begin

text \<open>
  The system runtime, \<open>src/src/orchestration/system_events.py\<close>: named timers and task timers,
  their polling, the task operations that keep timers and registry together, and the legacy
  TIMER commands. The clock (\<open>time.monotonic()\<close>) is an argument of every operation that reads it.
  Replies of the legacy commands are constructors instead of rendered text.
\<close>

section \<open>State\<close>

record sys_event =
  ev_source :: str
  ev_name :: str
  ev_task :: str
  ev_created :: rat
  ev_task_id :: "int option"
  ev_generation :: str
  ev_run_id :: str
  ev_offer_id :: str

definition manager_text :: "sys_event \<Rightarrow> str" where
  "manager_text e =
     (case ev_task_id e of
        Some i \<Rightarrow> u ''[SYSTEM_EVENT]'' @ 10 # u ''source: '' @ ev_source e @ 10 # u ''task_id: '' @ show_int i
                  @ 10 # u ''[/SYSTEM_EVENT]''
      | None \<Rightarrow> u ''[SYSTEM_EVENT]'' @ 10 # u ''source: '' @ ev_source e @ 10 # u ''name: '' @ ev_name e
                  @ 10 # u ''task:'' @ 10 # strip (ev_task e) @ 10 # u ''[/SYSTEM_EVENT]'')"

record 'k timer =
  tm_key :: 'k
  tm_period :: rat
  tm_task :: str
  tm_enabled :: bool
  tm_next :: "rat option"
  tm_sequence :: nat
  tm_fired :: nat
  tm_skipped :: nat

text \<open>
  \<open>TimerSpec\<close> is a \<open>str timer\<close>; \<open>TaskTimerSpec\<close> is an \<open>int timer\<close> whose \<open>tm_task\<close> is not used.
\<close>

type_synonym named_timer = "str timer"
type_synonym task_timer = "int timer"

record sys_runtime =
  sr_timers :: "(str, named_timer) dict"
  sr_task_timers :: "(int, task_timer) dict"
  sr_store :: "task_store option"

datatype sys_error =
    NoTaskStore
  | StoreError task_error
  | PeriodicNeedsTarget
  | PeriodNotPositive
  | NotTimerDriven int

definition new_timer :: "'k \<Rightarrow> rat \<Rightarrow> str \<Rightarrow> bool \<Rightarrow> rat option \<Rightarrow> 'k timer" where
  "new_timer k p task on nxt = \<lparr>tm_key = k, tm_period = p, tm_task = task, tm_enabled = on, tm_next = nxt,
     tm_sequence = 0, tm_fired = 0, tm_skipped = 0\<rparr>"

section \<open>Construction\<close>

definition restore_task_timers :: "task_store \<Rightarrow> (int, task_timer) dict" where
  "restore_task_timers st =
     foldl (\<lambda>d t. case t_period t of None \<Rightarrow> d
                  | Some p \<Rightarrow> dput (t_id t) (new_timer (t_id t) p [] (t_enabled t) None) d) [] (list_tasks st)"

definition new_runtime :: "task_store option \<Rightarrow> sys_runtime" where
  "new_runtime store = \<lparr>sr_timers = [],
     sr_task_timers = (case store of None \<Rightarrow> [] | Some st \<Rightarrow> restore_task_timers st), sr_store = store\<rparr>"

definition arm_timer :: "rat \<Rightarrow> 'k timer \<Rightarrow> 'k timer" where
  "arm_timer now t = t\<lparr>tm_next := (if tm_enabled t then Some (now + tm_period t) else None)\<rparr>"

definition arm_task_timers :: "rat \<Rightarrow> sys_runtime \<Rightarrow> sys_runtime" where
  "arm_task_timers now s = s\<lparr>sr_task_timers :=
dmap (arm_timer now) (sr_task_timers s)\<rparr>"

section \<open>Task operations\<close>

text \<open>Run a store operation; its error is the runtime's error.\<close>

definition with_store ::
  "sys_runtime \<Rightarrow> (task_store \<Rightarrow> (task_error + 'a) \<times> task_store) \<Rightarrow> (sys_error + 'a) \<times> sys_runtime" where
  "with_store s f =
     (case sr_store s of None \<Rightarrow> (Inl NoTaskStore, s)
      | Some st \<Rightarrow> (case f st of (Inl e, st') \<Rightarrow> (Inl (StoreError e), s\<lparr>sr_store := Some st'\<rparr>)
                    | (Inr v, st') \<Rightarrow> (Inr v, s\<lparr>sr_store := Some st'\<rparr>)))"

definition sys_create_task ::
  "save_mode \<Rightarrow> str \<Rightarrow> str \<Rightarrow> str \<Rightarrow> str list \<Rightarrow> str \<Rightarrow> sys_runtime \<Rightarrow> (sys_error + task) \<times> sys_runtime" where
  "sys_create_task m gen description txt skills executor s =
     with_store s (create_task m gen \<lparr>a_description = description, a_text = txt, a_method = u ''task'',
       a_skills = skills, a_period = None, a_enabled = True, a_executor = executor, a_agent = JNull\<rparr>)"

definition create_periodic_task ::
  "save_mode \<Rightarrow> rat \<Rightarrow> str \<Rightarrow> str \<Rightarrow> str \<Rightarrow> str list \<Rightarrow> pyfloat \<Rightarrow> str \<Rightarrow> str \<Rightarrow> json \<Rightarrow> sys_runtime
     \<Rightarrow> (sys_error + task) \<times> sys_runtime" where
  "create_periodic_task m now gen description txt skills period method executor agent s =
     (if skills = [] \<and> agent = JNull then (Inl PeriodicNeedsTarget, s)
      else case valid_period (Some period) of
        Some (Some p) \<Rightarrow>
          then_do (with_store s (create_task m gen \<lparr>a_description = description, a_text = txt,
              a_method = method, a_skills = skills, a_period = Some period, a_enabled = True,
              a_executor = executor, a_agent = agent\<rparr>))
            (\<lambda>t s'. (Inr t, s'\<lparr>sr_task_timers :=
               dput (t_id t) (new_timer (t_id t) p [] True (Some (now + p))) (sr_task_timers s')\<rparr>))
      | _ \<Rightarrow> (Inl PeriodNotPositive, s))"

definition sys_delete_task :: "save_mode \<Rightarrow> int \<Rightarrow> sys_runtime \<Rightarrow> (sys_error + bool) \<times> sys_runtime" where
  "sys_delete_task m i s =
     then_do (with_store s (delete_task m i))
       (\<lambda>b s'. (Inr b, s'\<lparr>sr_task_timers := ddel i (sr_task_timers s')\<rparr>))"

text \<open>The timer of task \<open>i\<close> gets a period, a state and a deadline; it is created when missing.\<close>

definition put_timer :: "int \<Rightarrow> rat \<Rightarrow> bool \<Rightarrow> rat option \<Rightarrow> sys_runtime \<Rightarrow> sys_runtime" where
  "put_timer i p on nxt s = s\<lparr>sr_task_timers := dput i
     (case dget (sr_task_timers s) i of None \<Rightarrow> new_timer i p [] on nxt
      | Some t \<Rightarrow> t\<lparr>tm_period := p, tm_enabled := on, tm_next := nxt\<rparr>) (sr_task_timers s)\<rparr>"

definition start_task ::
  "save_mode \<Rightarrow> rat \<Rightarrow> str \<Rightarrow> int \<Rightarrow> bool \<Rightarrow> sys_runtime \<Rightarrow> (sys_error + task) \<times> sys_runtime" where
  "start_task m now gen i preserve s =
     then_do (with_store s (set_enabled m gen i True preserve))
       (\<lambda>t s'. (Inr t, case t_period t of None \<Rightarrow> s' | Some p \<Rightarrow> put_timer i p True (Some (now + p)) s'))"

definition stop_task ::
  "save_mode \<Rightarrow> str \<Rightarrow> int \<Rightarrow> bool \<Rightarrow> sys_runtime \<Rightarrow> (sys_error + task) \<times> sys_runtime" where
  "stop_task m gen i preserve s =
     then_do (with_store s (set_enabled m gen i False preserve))
       (\<lambda>t s'. (Inr t,
          case t_period t of None \<Rightarrow> s'
          | Some p \<Rightarrow>
             (case dget (sr_task_timers s') i of None \<Rightarrow> s'
              | Some tm \<Rightarrow> s'\<lparr>sr_task_timers :=
                   dput i (tm\<lparr>tm_enabled := False, tm_next := None\<rparr>) (sr_task_timers s')\<rparr>)))"

definition set_task_period ::
  "save_mode \<Rightarrow> rat \<Rightarrow> str \<Rightarrow> int \<Rightarrow> pyfloat \<Rightarrow> sys_runtime \<Rightarrow> (sys_error + task) \<times> sys_runtime" where
  "set_task_period m now gen i period s =
     then_do (with_store s (\<lambda>st. (require_task st i, st)))
       (\<lambda>cur s'. if t_period cur = None then (Inl (NotTimerDriven i), s')
         else then_do (with_store s' (set_timer_period m gen i period))
           (\<lambda>t s''. (Inr t, case t_period t of None \<Rightarrow> s''
              | Some p \<Rightarrow> put_timer i p (t_enabled t) (if t_enabled t then Some (now + p) else None) s'')))"

record activation =
  ac_source :: str
  ac_name :: str
  ac_task :: task
  ac_created :: rat

definition activate_task ::
  "(activation \<Rightarrow> str option) option \<Rightarrow> rat \<Rightarrow> int \<Rightarrow> str \<Rightarrow> str \<Rightarrow> sys_runtime \<Rightarrow> sys_error + str option" where
  "activate_task handler now i source name s =
     (case sr_store s of None \<Rightarrow> Inl NoTaskStore
      | Some st \<Rightarrow>
        (case require_task st i of Inl e \<Rightarrow> Inl (StoreError e)
         | Inr t \<Rightarrow>
             if \<not> t_enabled t then Inr None
             else (let ac = \<lparr>ac_source = (if strip source = [] then u ''system'' else strip source),
                            ac_name = strip name, ac_task = t, ac_created = now\<rparr>
                   in case handler of None \<Rightarrow> Inr None | Some h \<Rightarrow> Inr (h ac))))"

section \<open>Polling\<close>

definition timer_due :: "rat \<Rightarrow> 'k timer \<Rightarrow> bool" where
  "timer_due now t \<longleftrightarrow> tm_enabled t \<and> (case tm_next t of None \<Rightarrow> False | Some n \<Rightarrow> n \<le> now)"

text \<open>The deadline moves by whole periods to the first one after \<open>now\<close>.\<close>

definition next_fire :: "rat \<Rightarrow> rat \<Rightarrow> rat \<Rightarrow> rat" where
  "next_fire now p n = n + of_int (\<lfloor>(now - n) / p\<rfloor> + 1) * p"

definition count_tick :: "bool \<Rightarrow> 'k timer \<Rightarrow> 'k timer" where
  "count_tick busy t =
     (let t' = t\<lparr>tm_sequence := Suc (tm_sequence t)\<rparr>
      in if busy then t'\<lparr>tm_skipped := Suc (tm_skipped t)\<rparr> else t'\<lparr>tm_fired := Suc (tm_fired t)\<rparr>)"

definition rearm :: "rat \<Rightarrow> 'k timer \<Rightarrow> 'k timer" where
  "rearm now t = t\<lparr>tm_next := map_option (next_fire now (tm_period t)) (tm_next t)\<rparr>"

definition named_event :: "rat \<Rightarrow> named_timer \<Rightarrow> sys_event" where
  "named_event now t = \<lparr>ev_source = u ''timer'', ev_name = tm_key t, ev_task = tm_task t, ev_created = now,
     ev_task_id = None, ev_generation = [], ev_run_id = [], ev_offer_id = []\<rparr>"

definition task_event :: "rat \<Rightarrow> task_timer \<Rightarrow> str \<Rightarrow> sys_event" where
  "task_event now t gen = \<lparr>ev_source = u ''timer'', ev_name = u ''task:'' @ show_int (tm_key t), ev_task = [],
     ev_created = now, ev_task_id = Some (tm_key t), ev_generation = gen, ev_run_id = [], ev_offer_id = []\<rparr>"

text \<open>The first loop of \<open>poll_due\<close>.\<close>

fun poll_named :: "rat \<Rightarrow> bool \<Rightarrow> (str, named_timer) dict \<Rightarrow> sys_event list \<times> (str, named_timer) dict" where
  "poll_named now busy [] = ([], [])"
| "poll_named now busy ((k, t) # d) =
     (let (es, d') = poll_named now busy d
      in if \<not> timer_due now t then (es, (k, t) # d')
         else ((if busy then es else named_event now t # es), (k, rearm now (count_tick busy t)) # d'))"

text \<open>
  The second loop; looking the task up may raise, which leaves the timer counted but not rearmed
  and the later timers untouched.
\<close>

fun poll_tasks ::
  "rat \<Rightarrow> bool \<Rightarrow> task_store option \<Rightarrow> (int, task_timer) dict
     \<Rightarrow> (sys_error + sys_event list) \<times> (int, task_timer) dict" where
  "poll_tasks now busy store [] = (Inr [], [])"
| "poll_tasks now busy store ((k, t) # d) =
     (if \<not> timer_due now t then
        (case poll_tasks now busy store d of (r, d') \<Rightarrow> (r, (k, t) # d'))
      else if busy then
        (case poll_tasks now busy store d of (r, d') \<Rightarrow> (r, (k, rearm now (count_tick True t)) # d'))
      else
        (case (case store of None \<Rightarrow> Inl NoTaskStore
               | Some st \<Rightarrow> (case require_task st (tm_key t) of Inl e \<Rightarrow> Inl (StoreError e) | Inr task \<Rightarrow> Inr task)) of
           Inl e \<Rightarrow> (Inl e, (k, count_tick False t) # d)
         | Inr task \<Rightarrow>
            (case poll_tasks now busy store d of (r, d') \<Rightarrow>
               (try_bind r (\<lambda>es. Inr (task_event now t (t_generation task) # es)),
                (k, rearm now (count_tick False t)) # d'))))"

definition poll_due :: "rat \<Rightarrow> bool \<Rightarrow> sys_runtime \<Rightarrow> (sys_error + sys_event list) \<times> sys_runtime" where
  "poll_due now busy s =
     (case poll_named now busy (sr_timers s) of (es, tms) \<Rightarrow>
      (case poll_tasks now busy (sr_store s) (sr_task_timers s) of (r, tts) \<Rightarrow>
        (try_bind r (\<lambda>es'. Inr (es @ es')), s\<lparr>sr_timers := tms, sr_task_timers := tts\<rparr>)))"

section \<open>Queries\<close>

definition timer_enabled :: "str \<Rightarrow> sys_runtime \<Rightarrow> bool" where
  "timer_enabled name s =
     (if startswith name (u ''task:'') then
        (case parse_int (drop 5 name) of None \<Rightarrow> False
         | Some i \<Rightarrow> (case dget (sr_task_timers s) i of None \<Rightarrow> False | Some t \<Rightarrow> tm_enabled t))
      else (case dget (sr_timers s) name of None \<Rightarrow> False | Some t \<Rightarrow> tm_enabled t))"

text \<open>
  \<open>timer_status_text\<close>: one row per named timer, by name; \<open>None\<close> for a stopped one, otherwise the
  seconds to the next tick. An empty list is the text \<open>no timers\<close>.
\<close>

definition timer_status :: "rat \<Rightarrow> sys_runtime \<Rightarrow> (str \<times> rat \<times> rat option \<times> nat \<times> nat \<times> str) list" where
  "timer_status now s =
     map (\<lambda>t. (tm_key t, tm_period t,
               (if tm_enabled t then map_option (\<lambda>n. max 0 (n - now)) (tm_next t) else None),
               tm_fired t, tm_skipped t, tm_task t))
       (sort_key tm_key (dvals (sr_timers s)))"

section \<open>Legacy TIMER commands\<close>

datatype sys_reply =
    OkSet str rat
  | OkStarted str
  | OkStopped str
  | OkPeriod str rat
  | OkDeleted str
  | OkList "(str \<times> rat \<times> rat option \<times> nat \<times> nat \<times> str) list"
  | ErrSyntax sh_error
  | ErrEmptyCommand
  | ErrReservedSource str
  | ErrUnknownSource str
  | ErrNoOperation
  | ErrUsage str
  | ErrPeriod
  | ErrNoTask
  | ErrUnknownTimer str
  | ErrUnknownOperation str

definition positive_seconds :: "str \<Rightarrow> rat option" where
  "positive_seconds raw =
     (case parse_float raw of Some (Fin r) \<Rightarrow> if r \<le> 0 then None else Some r | _ \<Rightarrow> None)"

definition set_timers :: "sys_runtime \<Rightarrow> (str, named_timer) dict \<Rightarrow> sys_runtime" where
  "set_timers s d = s\<lparr>sr_timers := d\<rparr>"

definition execute_timer :: "rat \<Rightarrow> str list \<Rightarrow> str \<Rightarrow> sys_runtime \<Rightarrow> sys_reply \<times> sys_runtime" where
  "execute_timer now argv body s =
     (case argv of [] \<Rightarrow> (ErrNoOperation, s)
      | op0 # args \<Rightarrow>
       (let op = upper op0; tms = sr_timers s in
        if op = u ''SET'' then
          (case args of [name, raw] \<Rightarrow>
             (case positive_seconds raw of None \<Rightarrow> (ErrPeriod, s)
              | Some p \<Rightarrow>
                 if strip body = [] then (ErrNoTask, s)
                 else (OkSet name p, set_timers s (dput name (new_timer name p (strip body) True (Some (now + p))) tms)))
           | _ \<Rightarrow> (ErrUsage op, s))
        else if op = u ''START'' then
          (case args of [name] \<Rightarrow>
             (case dget tms name of None \<Rightarrow> (ErrUnknownTimer name, s)
              | Some t \<Rightarrow> (OkStarted name, set_timers s
                   (dput name (t\<lparr>tm_enabled := True, tm_next := Some (now + tm_period t)\<rparr>) tms)))
           | _ \<Rightarrow> (ErrUsage op, s))
        else if op = u ''STOP'' then
          (case args of [name] \<Rightarrow>
             (case dget tms name of None \<Rightarrow> (ErrUnknownTimer name, s)
              | Some t \<Rightarrow> (OkStopped name, set_timers s
                   (dput name (t\<lparr>tm_enabled := False, tm_next := None\<rparr>) tms)))
           | _ \<Rightarrow> (ErrUsage op, s))
        else if op = u ''PERIOD'' then
          (case args of [name, raw] \<Rightarrow>
             (case positive_seconds raw of None \<Rightarrow> (ErrPeriod, s)
              | Some p \<Rightarrow>
                (case dget tms name of None \<Rightarrow> (ErrUnknownTimer name, s)
                 | Some t \<Rightarrow> (OkPeriod name p, set_timers s (dput name
                     (let t' = t\<lparr>tm_period := p\<rparr>
                      in if tm_enabled t' then t'\<lparr>tm_next := Some (now + p)\<rparr> else t') tms))))
           | _ \<Rightarrow> (ErrUsage op, s))
        else if op = u ''DELETE'' then
          (case args of [name] \<Rightarrow>
             (case dget tms name of None \<Rightarrow> (ErrUnknownTimer name, s)
              | Some t \<Rightarrow> (OkDeleted name, set_timers s (ddel name tms)))
           | _ \<Rightarrow> (ErrUsage op, s))
        else if op = u ''LIST'' then
          (case args of [] \<Rightarrow> (OkList (timer_status now s), s) | _ \<Rightarrow> (ErrUsage op, s))
        else (ErrUnknownOperation op, s)))"

text \<open>The sources \<open>gpio\<close> and \<open>mqtt\<close> are stubs, \<open>timer\<close> is ready.\<close>

definition execute :: "rat \<Rightarrow> str \<Rightarrow> str \<Rightarrow> sys_runtime \<Rightarrow> sys_reply \<times> sys_runtime" where
  "execute now command body s =
     (case shlex_split command of
        Inl e \<Rightarrow> (ErrSyntax e, s)
      | Inr [] \<Rightarrow> (ErrEmptyCommand, s)
      | Inr (a # argv) \<Rightarrow>
          if upper a \<noteq> u ''TIMER'' then
            (if lower a \<in> {u ''gpio'', u ''mqtt''} then (ErrReservedSource (lower a), s)
             else (ErrUnknownSource a, s))
          else execute_timer now argv body s)"

section \<open>The invariant of the runtime\<close>

text \<open>
  Every timer is filed under its own key, has a positive period, counts each tick as fired or
  skipped, and is armed only while it is enabled.
\<close>

definition timer_ok :: "'k timer \<Rightarrow> bool" where
  "timer_ok t \<longleftrightarrow> 0 < tm_period t \<and> tm_sequence t = tm_fired t + tm_skipped t
     \<and> (tm_next t \<noteq> None \<longrightarrow> tm_enabled t)"

definition timers_ok :: "('k, 'k timer) dict \<Rightarrow> bool" where
  "timers_ok d \<longleftrightarrow> dwf d \<and> (\<forall>k t. dget d k = Some t \<longrightarrow> tm_key t = k \<and> timer_ok t)"

definition runtime_ok :: "sys_runtime \<Rightarrow> bool" where
  "runtime_ok s \<longleftrightarrow> timers_ok (sr_timers s) \<and> timers_ok (sr_task_timers s)
     \<and> (case sr_store s of None \<Rightarrow> True | Some st \<Rightarrow> store_ok st)"

lemma timers_ok_Nil [simp]: "timers_ok []"
  by (simp add: timers_ok_def)

lemma timers_ok_dput: "timers_ok d \<Longrightarrow> tm_key t = k \<Longrightarrow> timer_ok t \<Longrightarrow> timers_ok (dput k t d)"
  by (auto simp: timers_ok_def)

lemma timers_ok_ddel: "timers_ok d \<Longrightarrow> timers_ok (ddel k d)"
  by (auto simp: timers_ok_def)

lemma timers_okD: "timers_ok d \<Longrightarrow> dget d k = Some t \<Longrightarrow> tm_key t = k \<and> timer_ok t"
  by (simp add: timers_ok_def)

lemma timer_ok_new [simp]: "timer_ok (new_timer k p task on nxt) \<longleftrightarrow> 0 < p \<and> (nxt \<noteq> None \<longrightarrow> on)"
  by (simp add: timer_ok_def new_timer_def)

lemma tm_key_new [simp]: "tm_key (new_timer k p task on nxt) = k"
  by (simp add: new_timer_def)

lemma timer_ok_tick [simp]: "timer_ok (count_tick busy t) = timer_ok t"
  by (auto simp: timer_ok_def count_tick_def Let_def)

lemma timer_ok_rearm [simp]: "timer_ok (rearm now t) = timer_ok t"
  by (auto simp: timer_ok_def rearm_def)

lemma tick_fields [simp]:
  "tm_key (count_tick busy t) = tm_key t" "tm_period (count_tick busy t) = tm_period t"
  "tm_next (count_tick busy t) = tm_next t" "tm_enabled (count_tick busy t) = tm_enabled t"
  "tm_key (rearm now t) = tm_key t" "tm_period (rearm now t) = tm_period t"
  "tm_enabled (rearm now t) = tm_enabled t" "tm_sequence (rearm now t) = tm_sequence t"
  "tm_sequence (count_tick busy t) = Suc (tm_sequence t)"
  by (auto simp: count_tick_def rearm_def Let_def)

section \<open>Polling: deadlines and events\<close>

lemma next_fire_after:
  assumes "0 < p" and "n \<le> now"
  shows "now < next_fire now p n" and "next_fire now p n \<le> now + p"
proof -
  let ?k = "\<lfloor>(now - n) / p\<rfloor>"
  have "of_int ?k * p \<le> now - n"
    using assms(1) of_int_floor_le by (rule pos_le_divide_eq [THEN iffD1])
  moreover have "(now - n) / p < of_int ?k + 1"
    by linarith
  then have "now - n < (of_int ?k + 1) * p"
    using assms(1) by (simp add: pos_divide_less_eq)
  ultimately show "now < next_fire now p n" and "next_fire now p n \<le> now + p"
    by (simp_all add: next_fire_def algebra_simps)
qed

lemma next_fire_grid: "next_fire now p n = n + of_int (\<lfloor>(now - n) / p\<rfloor> + 1) * p"
  by (simp add: next_fire_def)

definition polled :: "rat \<Rightarrow> bool \<Rightarrow> 'k timer \<Rightarrow> 'k timer" where
  "polled now busy t = (if timer_due now t then rearm now (count_tick busy t) else t)"

lemma polled_fields [simp]:
  "tm_key (polled now busy t) = tm_key t" "tm_period (polled now busy t) = tm_period t"
  "tm_enabled (polled now busy t) = tm_enabled t" "timer_ok (polled now busy t) = timer_ok t"
  by (simp_all add: polled_def)

lemma poll_named_eq:
  "poll_named now busy d =
     ((if busy then [] else map (named_event now) (filter (timer_due now) (dvals d))), dmap (polled now busy) d)"
  by (induction now busy d rule: poll_named.induct) (auto simp: dmap_def dvals_def polled_def)

lemma poll_tasks_busy: "poll_tasks now True store d = (Inr [], dmap (polled now True) d)"
  by (induction now True store d rule: poll_tasks.induct) (auto simp: dmap_def polled_def)

lemma poll_tasks_eq:
  assumes "\<And>k t. (k, t) \<in> set d \<Longrightarrow> get_task st (tm_key t) \<noteq> None"
  shows "poll_tasks now False (Some st) d =
     (Inr (map (\<lambda>t. task_event now t (t_generation (the (get_task st (tm_key t))))) (filter (timer_due now) (dvals d))),
      dmap (polled now False) d)"
  using assms
proof (induction d)
  case Nil
  then show ?case by (simp add: dmap_def)
next
  case (Cons p d)
  obtain k t where p: "p = (k, t)" by fastforce
  obtain x where x: "get_task st (tm_key t) = Some x" using Cons.prems p by force
  from Cons.IH Cons.prems have IH: "poll_tasks now False (Some st) d =
     (Inr (map (\<lambda>t. task_event now t (t_generation (the (get_task st (tm_key t))))) (filter (timer_due now) (dvals d))),
      dmap (polled now False) d)" by (metis list.set_intros(2))
  show ?case
    using IH x by (simp add: p require_task_def polled_def dmap_def)
qed

lemma polled_not_due: "timer_ok t \<Longrightarrow> \<not> timer_due now (polled now busy t)"
  using next_fire_after(1) [of "tm_period t"]
  by (auto simp: polled_def timer_due_def rearm_def count_tick_def Let_def timer_ok_def not_le
      split: option.splits)

section \<open>Timers and registry stay in step\<close>

definition want_timer :: "task option \<Rightarrow> (rat \<times> bool) option" where
  "want_timer x = (case x of None \<Rightarrow> None | Some t \<Rightarrow> map_option (\<lambda>p. (p, t_enabled t)) (t_period t))"

definition have_timer :: "task_timer option \<Rightarrow> (rat \<times> bool) option" where
  "have_timer x = map_option (\<lambda>t. (tm_period t, tm_enabled t)) x"

definition in_sync :: "task_store \<Rightarrow> (int, task_timer) dict \<Rightarrow> bool" where
  "in_sync st d \<longleftrightarrow> (\<forall>i. want_timer (get_task st i) = have_timer (dget d i))"

text \<open>
  The full invariant: exactly the periodic tasks have a task timer, with the period and the state
  of the task.
\<close>

definition sys_ok :: "sys_runtime \<Rightarrow> bool" where
  "sys_ok s \<longleftrightarrow> runtime_ok s \<and> (case sr_store s of None \<Rightarrow> False | Some st \<Rightarrow> in_sync st (sr_task_timers s))"

lemma sys_okI:
  "sr_store s = Some st \<Longrightarrow> store_ok st \<Longrightarrow> timers_ok (sr_timers s) \<Longrightarrow> timers_ok (sr_task_timers s) \<Longrightarrow>
     in_sync st (sr_task_timers s) \<Longrightarrow> sys_ok s"
  by (simp add: sys_ok_def runtime_ok_def)

lemma sys_okE:
  assumes "sys_ok s"
  obtains st where "sr_store s = Some st" "store_ok st" "timers_ok (sr_timers s)" "timers_ok (sr_task_timers s)"
    "in_sync st (sr_task_timers s)"
  using assms by (auto simp: sys_ok_def runtime_ok_def split: option.splits)

lemma want_timer_simps [simp]:
  "want_timer None = None" "want_timer (Some t) = map_option (\<lambda>p. (p, t_enabled t)) (t_period t)"
  by (simp_all add: want_timer_def)

lemma have_timer_simps [simp]:
  "have_timer None = None" "have_timer (Some t) = Some (tm_period t, tm_enabled t)"
  by (simp_all add: have_timer_def)

lemma in_syncD: "in_sync st d \<Longrightarrow> want_timer (get_task st i) = have_timer (dget d i)"
  by (simp add: in_sync_def)

lemma in_sync_timer: "in_sync st d \<Longrightarrow> dget d i = Some tm \<Longrightarrow> \<exists>t. get_task st i = Some t \<and> t_period t = Some (tm_period tm) \<and> t_enabled t = tm_enabled tm"
  using in_syncD [of st d i] by (cases "get_task st i") auto

lemma in_sync_same: "same_store st' st \<Longrightarrow> in_sync st' d = in_sync st d"
  by (simp add: in_sync_def same_store_def get_task_def)

lemma get_task_put:
  "save_tasks m (st\<lparr>ts_tasks := dput i t (ts_tasks st)\<rparr>) = Some st' \<Longrightarrow>
     get_task st' j = (if j = i then Some t else get_task st j)"
  by (auto dest!: save_tasks_Some simp: get_task_def)

lemma get_task_del:
  "save_tasks m (st\<lparr>ts_tasks := ddel i (ts_tasks st)\<rparr>) = Some st' \<Longrightarrow>
     get_task st' j = (if j = i then None else get_task st j)"
  by (auto dest!: save_tasks_Some simp: get_task_def)

lemma with_store_Some:
  "sr_store s = Some st \<Longrightarrow> f st = (r, st') \<Longrightarrow>
     with_store s f = (case r of Inl e \<Rightarrow> Inl (StoreError e) | Inr v \<Rightarrow> Inr v, s\<lparr>sr_store := Some st'\<rparr>)"
  by (auto simp: with_store_def split: sum.splits)

text \<open>A failed store operation keeps the invariant.\<close>

lemma sys_ok_failed:
  assumes "sys_ok s" and "sr_store s = Some st" and "same_store st' st" and "store_ok st'"
  shows "sys_ok (s\<lparr>sr_store := Some st'\<rparr>)"
  using assms by (auto elim!: sys_okE intro!: sys_okI simp: in_sync_same)

lemma put_timer_ok:
  assumes "timers_ok (sr_task_timers s)" and "0 < p" and "nxt \<noteq> None \<longrightarrow> on"
  shows "timers_ok (sr_task_timers (put_timer i p on nxt s))"
  using assms
  by (auto simp: put_timer_def intro!: timers_ok_dput split: option.splits dest: timers_okD)
    (auto simp: timer_ok_def dest!: timers_okD)

lemma put_timer_simps [simp]:
  "sr_store (put_timer i p on nxt s) = sr_store s" "sr_timers (put_timer i p on nxt s) = sr_timers s"
  "have_timer (dget (sr_task_timers (put_timer i p on nxt s)) j)
     = (if j = i then Some (p, on) else have_timer (dget (sr_task_timers s) j))"
  by (auto simp: put_timer_def new_timer_def split: option.splits)

section \<open>Every operation keeps the invariant\<close>

text \<open>The four shapes of a store operation inside the runtime.\<close>

lemma store_set_enabled:
  assumes "sys_ok s" and "sr_store s = Some st" and "set_enabled m gen i on pr st = (r, st')"
  obtains e where "r = Inl e" "same_store st' st" "store_ok st'"
    | t cur where "r = Inr t" "get_task st i = Some cur" "store_ok st'" "t_period t = t_period cur" "t_enabled t = on"
        "t_generation t = (if pr then t_generation cur else gen)" "task_ok (ts_max st) t"
        "\<And>j. get_task st' j = (if j = i then Some t else get_task st j)"
proof (cases r)
  case (Inl e)
  then show ?thesis
    using that(1) assms set_enabled_Inl [of m gen i on pr st e st'] ops_ok(2) [of st m gen i on pr]
    by (auto elim!: sys_okE)
next
  case (Inr t)
  have ok: "store_ok st" using assms by (auto elim: sys_okE)
  then show ?thesis
    using that(2) [of t] Inr assms(3) set_enabled_Inr [of m gen i on pr st t st'] ops_ok(2) [OF ok, of m gen i on pr]
      get_task_put [of m i t st st'] get_task_ok [OF _ ok, of i]
    by fastforce
qed

lemma start_task_ok [wf_intros]: "sys_ok s \<Longrightarrow> sys_ok (snd (start_task m now gen i pr s))"
proof (elim sys_okE)
  fix st
  assume st: "sr_store s = Some st" and ok: "store_ok st" "timers_ok (sr_timers s)" "timers_ok (sr_task_timers s)"
    and sync: "in_sync st (sr_task_timers s)"
  then have sys: "sys_ok s" by (rule sys_okI)
  obtain r st' where r: "set_enabled m gen i True pr st = (r, st')" by fastforce
  note w = with_store_Some [OF st, of "set_enabled m gen i True pr", OF r]
  from sys st r show ?thesis
  proof (cases rule: store_set_enabled)
    case (1 e)
    with sys st show ?thesis by (simp add: start_task_def w sys_ok_failed)
  next
    case (2 t cur)
    show ?thesis
    proof (cases "t_period t")
      case None
      with 2 st ok sync show ?thesis
        by (auto simp: start_task_def w in_sync_def intro!: sys_okI) (metis want_timer_simps(2) option.simps(8))
    next
      case (Some p)
      then have "0 < p" using 2 by (simp add: task_ok_def)
      with 2(1-3,5,8) st ok sync Some show ?thesis
        by (auto simp: start_task_def w in_sync_def intro!: sys_okI put_timer_ok)
    qed
  qed
qed

lemma stop_task_ok [wf_intros]: "sys_ok s \<Longrightarrow> sys_ok (snd (stop_task m gen i pr s))"
proof (elim sys_okE)
  fix st
  assume st: "sr_store s = Some st" and ok: "store_ok st" "timers_ok (sr_timers s)" "timers_ok (sr_task_timers s)"
    and sync: "in_sync st (sr_task_timers s)"
  then have sys: "sys_ok s" by (rule sys_okI)
  obtain r st' where r: "set_enabled m gen i False pr st = (r, st')" by fastforce
  note w = with_store_Some [OF st, of "set_enabled m gen i False pr", OF r]
  from sys st r show ?thesis
  proof (cases rule: store_set_enabled)
    case (1 e)
    with sys st show ?thesis by (simp add: stop_task_def w sys_ok_failed)
  next
    case (2 t cur)
    show ?thesis
    proof (cases "t_period t")
      case None
      with 2 st ok sync show ?thesis
        by (auto simp: stop_task_def w in_sync_def intro!: sys_okI) (metis want_timer_simps(2) option.simps(8))
    next
      case (Some p)
      then obtain tm where tm: "dget (sr_task_timers s) i = Some tm" "tm_period tm = p"
        using 2 in_syncD [OF sync, of i] by (cases "dget (sr_task_timers s) i") auto
      let ?d = "dput i (tm\<lparr>tm_enabled := False, tm_next := None\<rparr>) (sr_task_timers s)"
      have "timers_ok ?d"
        using ok(3) timers_okD [OF ok(3) tm(1)] by (intro timers_ok_dput) (auto simp: timer_ok_def)
      moreover have "in_sync st' ?d"
        using sync 2 Some tm by (simp add: in_sync_def)
      ultimately show ?thesis
        using 2(1-3,5,8) ok Some tm by (auto simp: stop_task_def w intro!: sys_okI)
    qed
  qed
qed

lemma set_task_period_ok [wf_intros]: "sys_ok s \<Longrightarrow> sys_ok (snd (set_task_period m now gen i period s))"
proof (elim sys_okE)
  fix st
  assume st: "sr_store s = Some st" and ok: "store_ok st" "timers_ok (sr_timers s)" "timers_ok (sr_task_timers s)"
    and sync: "in_sync st (sr_task_timers s)"
  then have sys: "sys_ok s" by (rule sys_okI)
  have [simp]: "s\<lparr>sr_store := Some st\<rparr> = s" using st by simp
  obtain r st' where r: "set_timer_period m gen i period st = (r, st')" by fastforce
  note w = with_store_Some [OF st, of "set_timer_period m gen i period", OF r]
  note w' = with_store_Some [OF st, of "\<lambda>st. (require_task st i, st)", OF refl]
  have ok': "store_ok st'" using ops_ok(3) [OF ok(1), of m gen i period] r by simp
  have failed: "sys_ok (snd (set_task_period m now gen i period s))"
    if "require_task st i = Inl e" for e
    using that sys by (simp add: set_task_period_def w')
  show ?thesis
  proof (cases r)
    case (Inl e)
    then have "sys_ok (s\<lparr>sr_store := Some st'\<rparr>)"
      using set_timer_period_Inl r st sys ok' by (auto intro: sys_ok_failed)
    with Inl failed sys show ?thesis
      by (cases "require_task st i") (auto simp: set_task_period_def w w')
  next
    case (Inr t)
    obtain cur p where c: "get_task st i = Some cur" "period = Fin p" "0 < p"
      and t: "t = cur\<lparr>t_period := Some p, t_generation := gen\<rparr>"
      and sv: "save_tasks m (st\<lparr>ts_tasks := dput i t (ts_tasks st)\<rparr>) = Some st'"
      using set_timer_period_Inr [of m gen i period st t st'] r Inr ok(1) by blast
    have "sys_ok (put_timer i p (t_enabled t) (if t_enabled t then Some (now + p) else None) (s\<lparr>sr_store := Some st'\<rparr>))"
      using ok ok' sync c t get_task_put [OF sv]
      by (intro sys_okI [of _ st'] put_timer_ok) (auto simp: in_sync_def)
    then show ?thesis
      using c(1) sys t Inr require_task_Inr [of st i cur] by (auto simp: set_task_period_def w w')
  qed
qed

lemma sys_delete_task_ok [wf_intros]: "sys_ok s \<Longrightarrow> sys_ok (snd (sys_delete_task m i s))"
proof (elim sys_okE)
  fix st
  assume st: "sr_store s = Some st" and ok: "store_ok st" "timers_ok (sr_timers s)" "timers_ok (sr_task_timers s)"
    and sync: "in_sync st (sr_task_timers s)"
  then have sys: "sys_ok s" by (rule sys_okI)
  obtain r st' where r: "delete_task m i st = (r, st')" by fastforce
  note w = with_store_Some [OF st, of "delete_task m i", OF r]
  have ok': "store_ok st'" using ops_ok(5) [OF ok(1), of m i] r by simp
  show ?thesis
  proof (cases r)
    case (Inl e)
    then show ?thesis
      using delete_task_Inl [of m i st e st'] r st sys ok' by (simp add: sys_delete_task_def w sys_ok_failed)
  next
    case (Inr b)
    have g: "get_task st' j = (if j = i then None else get_task st j)" for j
      using delete_task_Inr [of m i st b st'] r Inr get_task_del [of m i st st'] by (cases b) (auto simp: get_task_def)
    show ?thesis
      using Inr ok ok' sync g
      by (auto simp: sys_delete_task_def w in_sync_def intro!: sys_okI timers_ok_ddel)
  qed
qed

text \<open>Creation: the new identifier was free, so no stale timer can belong to it.\<close>

lemma store_create:
  assumes "sys_ok s" and "sr_store s = Some st" and "create_task m gen a st = (r, st')"
  obtains e where "r = Inl e" "same_store st' st" "store_ok st'"
    | t where "r = Inr t" "store_ok st'" "get_task st (t_id t) = None" "dget (sr_task_timers s) (t_id t) = None"
        "valid_period (a_period a) = Some (t_period t)" "t_enabled t = a_enabled a" "task_ok (ts_max st) t"
        "\<And>j. get_task st' j = (if j = t_id t then Some t else get_task st j)"
proof (cases r)
  case (Inl e)
  then show ?thesis
    using that(1) assms create_task_Inl [of m gen a st e st'] ops_ok(1) [of st m gen a]
    by (auto elim!: sys_okE)
next
  case (Inr t)
  note f = create_task_Inr [OF assms(3) [unfolded Inr]]
  have free: "get_task st (t_id t) = None" using f(1) by (simp add: first_free_Some)
  then have "have_timer (dget (sr_task_timers s) (t_id t)) = None"
    using assms(1,2) by (auto elim!: sys_okE dest: in_syncD [where i = "t_id t"])
  then have "dget (sr_task_timers s) (t_id t) = None" by (simp add: have_timer_def)
  then show ?thesis
    using that(2) [of t] Inr free f assms get_task_put [OF f(12)] ops_ok(1) [of st m gen a]
    by (auto elim!: sys_okE)
qed

lemma sys_create_task_ok [wf_intros]:
  "sys_ok s \<Longrightarrow> sys_ok (snd (sys_create_task m gen description txt skills executor s))"
proof (elim sys_okE)
  fix st
  assume st: "sr_store s = Some st" and ok: "store_ok st" "timers_ok (sr_timers s)" "timers_ok (sr_task_timers s)"
    and sync: "in_sync st (sr_task_timers s)"
  then have sys: "sys_ok s" by (rule sys_okI)
  let ?a = "\<lparr>a_description = description, a_text = txt, a_method = u ''task'', a_skills = skills,
    a_period = None, a_enabled = True, a_executor = executor, a_agent = JNull\<rparr>"
  obtain r st' where r: "create_task m gen ?a st = (r, st')" by fastforce
  note w = with_store_Some [OF st, of "create_task m gen ?a", OF r]
  from sys st r show ?thesis
  proof (cases rule: store_create)
    case (1 e)
    with sys st show ?thesis by (simp add: sys_create_task_def w sys_ok_failed)
  next
    case (2 t)
    then have "t_period t = None" by (simp add: valid_period_def)
    with 2 ok sync show ?thesis
      by (auto simp: sys_create_task_def w in_sync_def intro!: sys_okI)
  qed
qed

lemma create_periodic_task_ok [wf_intros]:
  "sys_ok s \<Longrightarrow> sys_ok (snd (create_periodic_task m now gen description txt skills period method executor agent s))"
proof (elim sys_okE)
  fix st
  assume st: "sr_store s = Some st" and ok: "store_ok st" "timers_ok (sr_timers s)" "timers_ok (sr_task_timers s)"
    and sync: "in_sync st (sr_task_timers s)"
  then have sys: "sys_ok s" by (rule sys_okI)
  let ?a = "\<lparr>a_description = description, a_text = txt, a_method = method, a_skills = skills,
    a_period = Some period, a_enabled = True, a_executor = executor, a_agent = agent\<rparr>"
  obtain r st' where r: "create_task m gen ?a st = (r, st')" by fastforce
  note w = with_store_Some [OF st, of "create_task m gen ?a", OF r]
  show ?thesis
  proof (cases "(skills = [] \<and> agent = JNull) \<or> (\<nexists>p. valid_period (Some period) = Some (Some p))")
    case True
    with sys show ?thesis by (auto simp: create_periodic_task_def split: option.splits)
  next
    case False
    then obtain p where p: "valid_period (Some period) = Some (Some p)" by blast
    then have pos: "0 < p" using valid_period_ok [OF p] by simp
    from sys st r show ?thesis
    proof (cases rule: store_create)
      case (1 e)
      with sys st p False show ?thesis by (simp add: create_periodic_task_def w sys_ok_failed)
    next
      case (2 t)
      then have "t_period t = Some p" using p by simp
      with 2 ok sync pos p False show ?thesis
        by (auto simp: create_periodic_task_def w in_sync_def new_timer_def intro!: sys_okI timers_ok_dput)
          (simp_all add: timer_ok_def)
    qed
  qed
qed

section \<open>Polling keeps the invariant and cannot fail\<close>

lemma timers_ok_polled: "timers_ok d \<Longrightarrow> timers_ok (dmap (polled now busy) d)"
  by (auto simp: timers_ok_def)

lemma in_sync_polled: "in_sync st (dmap (polled now busy) d) = in_sync st d"
  by (auto simp: in_sync_def have_timer_def option.map_comp comp_def)

lemma sync_known:
  assumes "sys_ok s" and "sr_store s = Some st" and "(k, t) \<in> set (sr_task_timers s)"
  shows "get_task st (tm_key t) \<noteq> None"
proof -
  have "dget (sr_task_timers s) k = Some t" "tm_key t = k"
    using assms dget_iff [of "sr_task_timers s" k t] by (auto elim!: sys_okE simp: timers_ok_def)
  then show ?thesis
    using assms(1,2) in_sync_timer [of st "sr_task_timers s" k t] by (auto elim!: sys_okE)
qed

lemma poll_due_eq:
  assumes "sys_ok s" and "sr_store s = Some st"
  shows "poll_due now busy s =
    (Inr (if busy then [] else
        map (named_event now) (filter (timer_due now) (dvals (sr_timers s)))
      @ map (\<lambda>t. task_event now t (t_generation (the (get_task st (tm_key t))))) (filter (timer_due now) (dvals (sr_task_timers s)))),
     s\<lparr>sr_timers := dmap (polled now busy) (sr_timers s), sr_task_timers := dmap (polled now busy) (sr_task_timers s)\<rparr>)"
proof (cases busy)
  case True
  then show ?thesis by (simp add: poll_due_def poll_named_eq poll_tasks_busy)
next
  case False
  then show ?thesis
    using poll_tasks_eq [of "sr_task_timers s" st now] sync_known [OF assms] assms(2)
    by (simp add: poll_due_def poll_named_eq)
qed

lemma poll_due_ok [wf_intros]: "sys_ok s \<Longrightarrow> sys_ok (snd (poll_due now busy s))"
proof (elim sys_okE)
  fix st
  assume st: "sr_store s = Some st" and ok: "store_ok st" "timers_ok (sr_timers s)" "timers_ok (sr_task_timers s)"
    and sync: "in_sync st (sr_task_timers s)"
  then have sys: "sys_ok s" by (rule sys_okI)
  show ?thesis
    using st ok sync by (auto simp: poll_due_eq [OF sys st] in_sync_polled timers_ok_polled intro!: sys_okI)
qed

section \<open>Legacy commands, arming and construction\<close>

lemma positive_seconds_pos: "positive_seconds raw = Some p \<Longrightarrow> 0 < p"
  by (auto simp: positive_seconds_def split: option.splits pyfloat.splits if_splits)

lemma execute_timer_frame:
  "sr_task_timers (snd (execute_timer now argv body s)) = sr_task_timers s
   \<and> sr_store (snd (execute_timer now argv body s)) = sr_store s"
  by (simp add: execute_timer_def Let_def set_timers_def split: list.split option.split)

lemma execute_timer_timers:
  assumes "timers_ok (sr_timers s)"
  shows "timers_ok (sr_timers (snd (execute_timer now argv body s)))"
proof -
  have known: "dget (sr_timers s) name = Some t \<Longrightarrow> tm_key t = name \<and> timer_ok t" for name t
    using assms by (rule timers_okD)
  have flds [simp]: "timer_ok t \<Longrightarrow> timer_ok (t\<lparr>tm_enabled := True, tm_next := n\<rparr>)"
    "timer_ok t \<Longrightarrow> timer_ok (t\<lparr>tm_enabled := False, tm_next := None\<rparr>)"
    "timer_ok t \<Longrightarrow> 0 < p \<Longrightarrow> timer_ok (t\<lparr>tm_period := p\<rparr>)"
    "timer_ok t \<Longrightarrow> tm_enabled t \<Longrightarrow> 0 < p \<Longrightarrow> timer_ok (t\<lparr>tm_period := p, tm_next := n\<rparr>)"
    for t :: named_timer and n p by (auto simp: timer_ok_def)
  show ?thesis
    using assms
    by (simp add: execute_timer_def Let_def set_timers_def split: list.split option.split)
      (auto intro!: timers_ok_dput timers_ok_ddel dest!: known dest: positive_seconds_pos)
qed

lemma execute_ok [wf_intros]: "sys_ok s \<Longrightarrow> sys_ok (snd (execute now command body s))"
proof (elim sys_okE)
  fix st
  assume st: "sr_store s = Some st" and ok: "store_ok st" "timers_ok (sr_timers s)" "timers_ok (sr_task_timers s)"
    and sync: "in_sync st (sr_task_timers s)"
  then have "sys_ok s" by (rule sys_okI)
  moreover have "sys_ok (snd (execute_timer now argv body s))" for argv
    using st ok sync execute_timer_frame [of now argv body s] execute_timer_timers [OF ok(2), of now argv body]
    by (intro sys_okI) auto
  ultimately show ?thesis
    by (simp add: execute_def split: sum.split list.split)
qed

lemma arm_timer_simps [simp]:
  "timer_ok t \<Longrightarrow> timer_ok (arm_timer now t)" "tm_key (arm_timer now t) = tm_key t"
  "tm_period (arm_timer now t) = tm_period t" "tm_enabled (arm_timer now t) = tm_enabled t"
  by (simp_all add: timer_ok_def arm_timer_def)

lemma arm_task_timers_ok [wf_intros]: "sys_ok s \<Longrightarrow> sys_ok (arm_task_timers now s)"
proof (elim sys_okE)
  fix st
  assume st: "sr_store s = Some st" and ok: "store_ok st" "timers_ok (sr_timers s)" "timers_ok (sr_task_timers s)"
    and sync: "in_sync st (sr_task_timers s)"
  have "in_sync st (sr_task_timers (arm_task_timers now s))"
    using sync by (auto simp: in_sync_def arm_task_timers_def have_timer_def option.map_comp comp_def)
  moreover have "timers_ok (sr_task_timers (arm_task_timers now s))"
    using ok(3) by (auto simp: timers_ok_def arm_task_timers_def)
  ultimately show ?thesis
    using st ok by (auto simp: arm_task_timers_def intro!: sys_okI)
qed

lemma restore_fold:
  assumes "distinct (map t_id ts)"
  shows "dget (foldl (\<lambda>d t. case t_period t of None \<Rightarrow> d
           | Some p \<Rightarrow> dput (t_id t) (new_timer (t_id t) p [] (t_enabled t) None) d) d0 ts) i =
         (case dget (map (\<lambda>t. (t_id t, t)) ts) i of
            None \<Rightarrow> dget d0 i
          | Some t \<Rightarrow> (case t_period t of None \<Rightarrow> dget d0 i
                      | Some p \<Rightarrow> Some (new_timer i p [] (t_enabled t) None)))"
  using assms
proof (induction ts arbitrary: d0)
  case Nil
  then show ?case by simp
next
  case (Cons t ts)
  then have new: "dget (map (\<lambda>t. (t_id t, t)) ts) (t_id t) = None"
    by (auto simp: dget_None_iff dkeys_def)
  let ?d1 = "case t_period t of None \<Rightarrow> d0 | Some p \<Rightarrow> dput (t_id t) (new_timer (t_id t) p [] (t_enabled t) None) d0"
  show ?case
    using Cons.IH [of ?d1] Cons.prems new by (auto split: option.splits)
qed

lemma dwf_restore: "dwf d0 \<Longrightarrow> dwf (foldl (\<lambda>d t. case t_period t of None \<Rightarrow> d
    | Some p \<Rightarrow> dput (t_id t) (new_timer (t_id t) p [] (t_enabled t) None) d) d0 ts)"
  by (induction ts arbitrary: d0) (auto split: option.splits)

lemma dget_restore:
  assumes "store_ok st"
  shows "dget (restore_task_timers st) i =
    (case get_task st i of None \<Rightarrow> None
     | Some t \<Rightarrow> map_option (\<lambda>p. new_timer i p [] (t_enabled t) None) (t_period t))"
  using restore_fold [OF list_tasks_distinct [OF assms], of "[]" i] dget_list_tasks [OF assms]
  by (auto simp: restore_task_timers_def get_task_def split: option.splits)

lemma new_runtime_ok: "store_ok st \<Longrightarrow> sys_ok (new_runtime (Some st))"
proof -
  assume ok: "store_ok st"
  have "dwf (restore_task_timers st)"
    by (simp add: restore_task_timers_def dwf_restore)
  moreover have "timer_ok tm \<and> tm_key tm = i" if "dget (restore_task_timers st) i = Some tm" for i tm
    using that ok get_task_ok [OF _ ok, of i]
    by (auto simp: dget_restore task_ok_def split: option.splits)
  ultimately have "timers_ok (restore_task_timers st)"
    by (simp add: timers_ok_def)
  then show ?thesis
    using ok by (intro sys_okI [of _ st])
      (auto simp: new_runtime_def in_sync_def dget_restore new_timer_def have_timer_def option.map_comp comp_def
        split: option.splits)
qed

section \<open>Sequences of operations\<close>

datatype sys_op =
    SysCreate save_mode str str str "str list" str
  | SysCreatePeriodic save_mode rat str str str "str list" pyfloat str str json
  | SysDelete save_mode int
  | SysStart save_mode rat str int bool
  | SysStop save_mode str int bool
  | SysPeriod save_mode rat str int pyfloat
  | SysPoll rat bool
  | SysExecute rat str str
  | SysArm rat

fun sys_step :: "sys_runtime \<Rightarrow> sys_op \<Rightarrow> sys_runtime" where
  "sys_step s (SysCreate m g d x sk e) = snd (sys_create_task m g d x sk e s)"
| "sys_step s (SysCreatePeriodic m now g d x sk p me e a) = snd (create_periodic_task m now g d x sk p me e a s)"
| "sys_step s (SysDelete m i) = snd (sys_delete_task m i s)"
| "sys_step s (SysStart m now g i pr) = snd (start_task m now g i pr s)"
| "sys_step s (SysStop m g i pr) = snd (stop_task m g i pr s)"
| "sys_step s (SysPeriod m now g i p) = snd (set_task_period m now g i p s)"
| "sys_step s (SysPoll now busy) = snd (poll_due now busy s)"
| "sys_step s (SysExecute now c b) = snd (execute now c b s)"
| "sys_step s (SysArm now) = arm_task_timers now s"

interpretation sys_runs: stepper sys_step "\<lambda>_ _. True" sys_ok
proof
  fix s i
  assume "sys_ok s"
  then show "sys_ok (sys_step s i)"
    by (cases i) (auto intro: wf_intros)
qed

end
