(* ===== verification/Events.thy ===== *)
theory Events
  imports Tasks
begin

text \<open>
  The registry of external events, \<open>src/src/orchestration/event_store.py\<close>: bindings from an
  event name to a saved task, their validation, registration, resolution and removal, saving
  with roll-back and reloading.
\<close>

section \<open>Bindings\<close>

record binding =
  b_name :: str
  b_source :: str
  b_task :: int
  b_description :: str
  b_topic :: str
  b_field :: str
  b_value_type :: str
  b_values :: "str list"
  b_command :: str

datatype event_error =
    BadEventName str
  | BadEventSource str
  | BadEventTask
  | EmptyEventDescription
  | EmptyTopic
  | BadField str
  | EmptyValueType
  | EmptyValues
  | DuplicateValues
  | EmptyCommand
  | AlreadyBound str int
  | EventSaveFailed
  | EventFileUnreadable
  | EventRootNotObject
  | BadEventRecord
  | EventOverflow

datatype event_file = NoEventFile | UnreadableEvents | EventJson json

record event_store =
  es_bindings :: "(str, binding) dict"
  es_file :: event_file

record binding_args =
  ba_source :: str
  ba_name :: "str option"
  ba_topic :: str
  ba_field :: str
  ba_value_type :: str
  ba_values :: "str list"
  ba_command :: str

text \<open>The regular expressions \<open>[A-Za-z0-9_.:-]+\<close> and \<open>[A-Za-z_][A-Za-z0-9_]*\<close>, as full matches.\<close>

definition event_name_ok :: "str \<Rightarrow> bool" where
  "event_name_ok s \<longleftrightarrow> s \<noteq> [] \<and> list_all (\<lambda>c. is_alnum c \<or> c = 95 \<or> c = 46 \<or> c = 58 \<or> c = 45) s"

definition field_ok :: "str \<Rightarrow> bool" where
  "field_ok s \<longleftrightarrow> (case s of [] \<Rightarrow> False
     | c # cs \<Rightarrow> (is_lower c \<or> is_upper c \<or> c = 95) \<and> list_all (\<lambda>c. is_alnum c \<or> c = 95) cs)"

lemma field_ok_Nil [simp]: "\<not> field_ok []"
  by (simp add: field_ok_def)

definition validated_binding ::
  "str \<Rightarrow> str \<Rightarrow> int \<Rightarrow> str \<Rightarrow> str \<Rightarrow> str \<Rightarrow> str \<Rightarrow> str list \<Rightarrow> str \<Rightarrow> event_error + binding" where
  "validated_binding name0 source0 i description0 topic0 field0 value_type0 values0 command0 =
     (let name = strip name0; source = lower (strip source0); description = strip description0;
          topic = strip topic0; field = strip field0; value_type = lower (strip value_type0);
          values = map strip values0; command = strip command0; mqtt = (source = u ''mqtt'')
      in guard_not (name = [] \<or> \<not> event_name_ok name) (BadEventName name)
        (guard_not (source = [] \<or> \<not> event_name_ok source) (BadEventSource source)
        (guard_not (i \<le> 0) BadEventTask
        (guard_not (description = []) EmptyEventDescription
        (guard_not (mqtt \<and> topic = []) EmptyTopic
        (guard_not (mqtt \<and> (field = [] \<or> \<not> field_ok field)) (BadField field)
        (guard_not (mqtt \<and> value_type = []) EmptyValueType
        (guard_not (mqtt \<and> (values = [] \<or> [] \<in> set values)) EmptyValues
        (guard_not (mqtt \<and> \<not> distinct values) DuplicateValues
        (guard_not (mqtt \<and> command = []) EmptyCommand
        (Inr \<lparr>b_name = name, b_source = source, b_task = i, b_description = description,
              b_topic = topic, b_field = field, b_value_type = value_type,
              b_values = values, b_command = command\<rparr>)))))))))))"

section \<open>Saving\<close>

text \<open>\<open>sorted(self._bindings)\<close> orders the names by code point (the order of \<open>List_Lexorder\<close>).\<close>

definition list_bindings :: "event_store \<Rightarrow> binding list" where
  "list_bindings st = map (\<lambda>k. the (dget (es_bindings st) k)) (sort (dkeys (es_bindings st)))"

definition opt_field :: "string \<Rightarrow> str \<Rightarrow> (str \<times> json) list" where
  "opt_field k s = (if s = [] then [] else [(u k, JStr s)])"

definition binding_json :: "binding \<Rightarrow> json" where
  "binding_json b = JObj
     ([(u ''source'', JStr (b_source b)), (u ''task_id'', JInt (b_task b)),
       (u ''description'', JStr (b_description b))]
      @ opt_field ''topic'' (b_topic b) @ opt_field ''field'' (b_field b)
      @ opt_field ''value_type'' (b_value_type b)
      @ (if b_values b = [] then [] else [(u ''values'', JList (map JStr (b_values b)))])
      @ opt_field ''command'' (b_command b))"

definition save_events :: "save_mode \<Rightarrow> event_store \<Rightarrow> event_store option" where
  "save_events m st =
     (case m of Owned \<Rightarrow> Some st
      | Disk ok \<Rightarrow> if ok then Some (st\<lparr>es_file :=
            EventJson (JObj (map (\<lambda>b. (b_name b, binding_json b)) (list_bindings st)))\<rparr>)
                   else None)"

section \<open>Operations\<close>

definition register ::
  "save_mode \<Rightarrow> int \<Rightarrow> str \<Rightarrow> binding_args \<Rightarrow> event_store \<Rightarrow> (event_error + binding) \<times> event_store" where
  "register m i description a st =
     (let source = lower (strip (ba_source a));
          given = (case ba_name a of None \<Rightarrow> [] | Some n \<Rightarrow> n);
          event_name = strip (if given = [] then u ''task_'' @ source @ show_int i else given)
      in case validated_binding event_name source i description (ba_topic a) (ba_field a)
                (ba_value_type a) (ba_values a) (ba_command a) of
           Inl e \<Rightarrow> (Inl e, st)
         | Inr b \<Rightarrow>
             (let previous = dget (es_bindings st) (b_name b)
              in case previous of
                   Some cur \<Rightarrow>
                     if b_task cur \<noteq> b_task b then (Inl (AlreadyBound (b_name b) (b_task cur)), st)
                     else
                       (let added = st\<lparr>es_bindings := dput (b_name b) b (es_bindings st)\<rparr>
                        in case save_events m added of Some st' \<Rightarrow> (Inr b, st')
                           | None \<Rightarrow> (Inl EventSaveFailed, added\<lparr>es_bindings := dput (b_name b) cur (es_bindings added)\<rparr>))
                 | None \<Rightarrow>
                     (let added = st\<lparr>es_bindings := dput (b_name b) b (es_bindings st)\<rparr>
                      in case save_events m added of Some st' \<Rightarrow> (Inr b, st')
                         | None \<Rightarrow> (Inl EventSaveFailed, added\<lparr>es_bindings := ddel (b_name b) (es_bindings added)\<rparr>))))"

definition resolve :: "str \<Rightarrow> str \<Rightarrow> event_store \<Rightarrow> binding option" where
  "resolve source0 name0 st =
     (let source = lower (strip source0); name = strip name0
      in case dget (es_bindings st) name of
           None \<Rightarrow> None
         | Some b \<Rightarrow> if b_source b \<noteq> source then None else Some b)"

text \<open>
  \<open>unregister_task\<close>; when saving fails the removed bindings are put back
  (\<open>self._bindings.update(removed)\<close>).
\<close>

definition unregister_task :: "save_mode \<Rightarrow> int \<Rightarrow> event_store \<Rightarrow> (event_error + unit) \<times> event_store" where
  "unregister_task m i st =
     (let removed = filter (\<lambda>p. b_task (snd p) = i) (es_bindings st)
      in if removed = [] then (Inr (), st)
         else
           (let kept = st\<lparr>es_bindings := filter (\<lambda>p. b_task (snd p) \<noteq> i) (es_bindings st)\<rparr>
            in case save_events m kept of Some st' \<Rightarrow> (Inr (), st')
               | None \<Rightarrow> (Inl EventSaveFailed,
                   kept\<lparr>es_bindings := foldl (\<lambda>d (k, b). dput k b d) (es_bindings kept) removed\<rparr>)))"

section \<open>Reloading\<close>

definition event_exc :: "py_exc + 'a \<Rightarrow> event_error + 'a" where
  "event_exc x = (case x of Inl e \<Rightarrow> Inl (if e = OverflowErr then EventOverflow else BadEventRecord) | Inr v \<Rightarrow> Inr v)"

definition load_values :: "(json \<Rightarrow> str) \<Rightarrow> json \<Rightarrow> event_error + str list" where
  "load_values rp j = (case j of JList xs \<Rightarrow> Inr (map (py_str rp) xs) | _ \<Rightarrow> Inl BadEventRecord)"

definition load_binding :: "(json \<Rightarrow> str) \<Rightarrow> str \<Rightarrow> json \<Rightarrow> event_error + binding" where
  "load_binding rp name j =
     (case j of
        JObj item \<Rightarrow>
          try_bind (load_values rp (jget item ''values'' (JList []))) (\<lambda>vs.
          try_bind (event_exc (jitem item ''source'')) (\<lambda>source.
          try_bind (event_exc (try_bind (jitem item ''task_id'') py_int)) (\<lambda>i.
          try_bind (event_exc (jitem item ''description'')) (\<lambda>d.
            validated_binding name (py_str rp source) i (py_str rp d)
              (py_str rp (jget item ''topic'' (JStr []))) (py_str rp (jget item ''field'' (JStr [])))
              (py_str rp (jget item ''value_type'' (JStr []))) vs
              (py_str rp (jget item ''command'' (JStr [])))))))
      | _ \<Rightarrow> Inl BadEventRecord)"

fun load_bindings :: "(json \<Rightarrow> str) \<Rightarrow> (str \<times> json) list \<Rightarrow> (str, binding) dict \<Rightarrow> event_error + (str, binding) dict" where
  "load_bindings rp [] acc = Inr acc"
| "load_bindings rp ((name, j) # ps) acc =
     (case load_binding rp name j of
        Inl e \<Rightarrow> Inl e
      | Inr b \<Rightarrow> load_bindings rp ps (dput (b_name b) b acc))"

definition reload_events :: "(json \<Rightarrow> str) \<Rightarrow> event_store \<Rightarrow> (event_error + unit) \<times> event_store" where
  "reload_events rp st =
     (case es_file st of
        NoEventFile \<Rightarrow> (Inr (), st\<lparr>es_bindings := []\<rparr>)
      | UnreadableEvents \<Rightarrow> (Inl EventFileUnreadable, st)
      | EventJson (JObj ps) \<Rightarrow>
          (case load_bindings rp ps [] of Inl e \<Rightarrow> (Inl e, st)
           | Inr d \<Rightarrow> (Inr (), st\<lparr>es_bindings := d\<rparr>))
      | EventJson _ \<Rightarrow> (Inl EventRootNotObject, st))"

section \<open>The invariant of the registry\<close>

definition binding_ok :: "binding \<Rightarrow> bool" where
  "binding_ok b \<longleftrightarrow> event_name_ok (b_name b) \<and> event_name_ok (b_source b) \<and> 0 < b_task b
     \<and> b_description b \<noteq> [] \<and> strip (b_name b) = b_name b \<and> lower (strip (b_source b)) = b_source b
     \<and> strip (b_description b) = b_description b \<and> strip (b_topic b) = b_topic b
     \<and> strip (b_field b) = b_field b \<and> lower (strip (b_value_type b)) = b_value_type b
     \<and> map strip (b_values b) = b_values b \<and> strip (b_command b) = b_command b
     \<and> (b_source b = u ''mqtt'' \<longrightarrow> b_topic b \<noteq> [] \<and> field_ok (b_field b) \<and> b_value_type b \<noteq> []
          \<and> b_values b \<noteq> [] \<and> [] \<notin> set (b_values b) \<and> distinct (b_values b) \<and> b_command b \<noteq> [])"

definition events_ok :: "event_store \<Rightarrow> bool" where
  "events_ok st \<longleftrightarrow> dwf (es_bindings st) \<and>
     (\<forall>n b. dget (es_bindings st) n = Some b \<longrightarrow> b_name b = n \<and> binding_ok b)"

definition same_events :: "event_store \<Rightarrow> event_store \<Rightarrow> bool" where
  "same_events a b \<longleftrightarrow> dget (es_bindings a) = dget (es_bindings b) \<and> es_file a = es_file b"

section \<open>Every operation keeps the invariant, and a failed one changes nothing\<close>

lemma same_events_refl [simp, intro]: "same_events st st"
  by (simp add: same_events_def)

lemma events_ok_Nil [simp]: "events_ok \<lparr>es_bindings = [], es_file = f\<rparr>"
  by (simp add: events_ok_def)

lemma event_char_not_space:
  "is_alnum c \<or> c = 95 \<or> c = 46 \<or> c = 58 \<or> c = 45 \<Longrightarrow> \<not> is_space c"
  by (auto simp: is_alnum_def is_digit_def is_lower_def is_upper_def is_space_def)

lemma event_name_strip: "event_name_ok s \<Longrightarrow> strip s = s"
  unfolding event_name_ok_def list_all_iff
  by (rule strip_no_space) (use event_char_not_space in \<open>auto simp: list_all_iff\<close>)

lemma validated_binding_Inr:
  "validated_binding n s i d tp f vt vs c = Inr b \<Longrightarrow>
     b = \<lparr>b_name = strip n, b_source = lower (strip s), b_task = i, b_description = strip d,
          b_topic = strip tp, b_field = strip f, b_value_type = lower (strip vt),
          b_values = map strip vs, b_command = strip c\<rparr> \<and> binding_ok b"
  by (simp add: validated_binding_def binding_ok_def Let_def) (elim conjE, hypsubst, simp add: event_name_strip)

lemma validated_binding_ok:
  "binding_ok b \<Longrightarrow> validated_binding (b_name b) (b_source b) (b_task b) (b_description b) (b_topic b)
     (b_field b) (b_value_type b) (b_values b) (b_command b) = Inr b"
  by (auto simp: validated_binding_def binding_ok_def Let_def event_name_ok_def)

lemma save_events_Some: "save_events m st = Some st' \<Longrightarrow> es_bindings st' = es_bindings st"
  by (auto simp: save_events_def split: save_mode.splits if_splits)

lemma register_Inl: "register m i d a st = (Inl e, st') \<Longrightarrow> same_events st' st"
  by (auto simp: register_def same_events_def Let_def fun_eq_iff
      split: sum.splits option.splits if_splits)

lemma register_Inr:
  "register m i d a st = (Inr b, st') \<Longrightarrow>
     binding_ok b \<and> b_task b = i \<and> b_description b = strip d
     \<and> (\<forall>c. dget (es_bindings st) (b_name b) = Some c \<longrightarrow> b_task c = i)
     \<and> save_events m (st\<lparr>es_bindings := dput (b_name b) b (es_bindings st)\<rparr>) = Some st'"
  by (auto simp: register_def Let_def split: sum.splits option.splits if_splits dest!: validated_binding_Inr)

lemma events_ok_dput:
  "dwf d \<Longrightarrow> (\<And>n b. dget d n = Some b \<Longrightarrow> b_name b = n \<and> binding_ok b) \<Longrightarrow> binding_ok b \<Longrightarrow>
     events_ok \<lparr>es_bindings = dput (b_name b) b d, es_file = f\<rparr>"
  by (auto simp: events_ok_def)

lemma events_ok_same:
  "es_bindings st' = es_bindings st \<Longrightarrow> events_ok st' = events_ok st"
  by (simp add: events_ok_def)

lemma dwf_register: "dwf (es_bindings st) \<Longrightarrow> dwf (es_bindings (snd (register m i d a st)))"
  by (auto simp: register_def Let_def split: sum.splits option.splits dest!: save_events_Some)

lemma events_ok_lookup:
  "dwf (es_bindings st') \<Longrightarrow> dget (es_bindings st') = dget (es_bindings st) \<Longrightarrow> events_ok st \<Longrightarrow> events_ok st'"
  by (simp add: events_ok_def)

lemma register_ok [wf_intros]: "events_ok st \<Longrightarrow> events_ok (snd (register m i d a st))"
proof -
  assume ok: "events_ok st"
  obtain v st' where r: "register m i d a st = (v, st')" by fastforce
  have wf: "dwf (es_bindings st')"
    using dwf_register [of st m i d a] ok r by (simp add: events_ok_def)
  show ?thesis
  proof (cases v)
    case (Inl e)
    with r ok wf show ?thesis
      using register_Inl [of m i d a st e st'] by (auto simp: same_events_def intro: events_ok_lookup)
  next
    case (Inr b)
    with r have "binding_ok b" and "es_bindings st' = dput (b_name b) b (es_bindings st)"
      using register_Inr [of m i d a st b st'] by (auto dest: save_events_Some)
    with ok r wf show ?thesis by (auto simp: events_ok_def)
  qed
qed

lemma dget_filter_other:
  assumes "dwf d"
  shows "dget (filter P d) k = (case dget d k of None \<Rightarrow> None | Some v \<Rightarrow> if P (k, v) then Some v else None)"
proof (cases "dget (filter P d) k")
  case None
  then show ?thesis
    using dget_iff [OF dwf_filter [OF assms], of P k] dget_iff [OF assms, of k]
    by (auto split: option.splits)
next
  case (Some v)
  then show ?thesis
    using dget_iff [OF dwf_filter [OF assms], of P k v] dget_iff [OF assms, of k v] by auto
qed

lemma dwf_foldl_dput: "dwf d \<Longrightarrow> dwf (foldl (\<lambda>d (k, b). dput k b d) d ps)"
  by (induction ps arbitrary: d) (auto split: prod.splits)

lemma dget_foldl_dput:
  "distinct (map fst ps) \<Longrightarrow>
     dget (foldl (\<lambda>d (k, b). dput k b d) d ps) k = (case dget ps k of None \<Rightarrow> dget d k | Some v \<Rightarrow> Some v)"
proof (induction ps arbitrary: d)
  case Nil
  then show ?case by simp
next
  case (Cons p ps)
  obtain j b where p: "p = (j, b)" by fastforce
  have "dget ps j = None" using Cons.prems p by (simp add: dget_None_iff dkeys_def)
  then show ?case
    using Cons.IH [of "dput j b d"] Cons.prems p by (auto split: option.splits)
qed

lemma unregister_Inr:
  "unregister_task m i st = (Inr v, st') \<Longrightarrow> es_bindings st' = filter (\<lambda>p. b_task (snd p) \<noteq> i) (es_bindings st)"
  by (auto simp: unregister_task_def Let_def filter_empty_conv filter_id_conv split: if_splits option.splits dest: save_events_Some)

lemma unregister_Inl: "unregister_task m i st = (Inl e, st') \<Longrightarrow> dwf (es_bindings st) \<Longrightarrow> same_events st' st"
  by (auto simp: unregister_task_def Let_def same_events_def fun_eq_iff dget_foldl_dput dget_filter_other
      distinct_map_filter dwf_def split: if_splits option.splits)

lemma unregister_ok [wf_intros]: "events_ok st \<Longrightarrow> events_ok (snd (unregister_task m i st))"
proof -
  assume ok: "events_ok st"
  then have wf: "dwf (es_bindings st)" by (simp add: events_ok_def)
  obtain v st' where r: "unregister_task m i st = (v, st')" by fastforce
  show ?thesis
  proof (cases v)
    case (Inl e)
    have "dwf (es_bindings st')"
      using r wf by (auto simp: unregister_task_def Let_def split: if_splits option.splits dest!: save_events_Some intro!: dwf_foldl_dput dwf_filter)
    with Inl r ok wf show ?thesis
      using unregister_Inl [of m i st e st'] by (auto simp: same_events_def intro: events_ok_lookup)
  next
    case (Inr x)
    with r have "es_bindings st' = filter (\<lambda>p. b_task (snd p) \<noteq> i) (es_bindings st)"
      by (auto dest: unregister_Inr)
    with ok r wf show ?thesis
      by (auto simp: events_ok_def dget_filter_other split: option.splits if_splits)
  qed
qed

lemma load_binding_ok: "load_binding rp name j = Inr b \<Longrightarrow> binding_ok b"
  by (cases j) (simp_all add: load_binding_def, blast dest: validated_binding_Inr)

lemma load_bindings_ok:
  "load_bindings rp ps acc = Inr d \<Longrightarrow> events_ok \<lparr>es_bindings = acc, es_file = f\<rparr> \<Longrightarrow>
     events_ok \<lparr>es_bindings = d, es_file = f\<rparr>"
proof (induction rp ps acc rule: load_bindings.induct)
  case (2 rp name j ps acc)
  then obtain b where b: "load_binding rp name j = Inr b" "load_bindings rp ps (dput (b_name b) b acc) = Inr d"
    by (auto split: sum.splits)
  have "events_ok \<lparr>es_bindings = dput (b_name b) b acc, es_file = f\<rparr>"
    using 2(3) load_binding_ok [OF b(1)] by (simp add: events_ok_def)
  then show ?case using 2(1) [OF b(1)] b(2) by simp
qed simp

lemma reload_events_ok [wf_intros]:
  assumes "events_ok st"
  shows "events_ok (snd (reload_events rp st))"
proof -
  have empty: "events_ok (st\<lparr>es_bindings := []\<rparr>)" by (simp add: events_ok_def)
  have loaded: "events_ok (st\<lparr>es_bindings := d\<rparr>)" if "load_bindings rp ps [] = Inr d" for ps d
    using load_bindings_ok [OF that, of "es_file st"] by (simp add: events_ok_def)
  show ?thesis
    unfolding reload_events_def using assms empty loaded
    by (simp split: event_file.split json.split sum.split)
qed

lemma resolve_Some:
  "resolve s n st = Some b \<longleftrightarrow> dget (es_bindings st) (strip n) = Some b \<and> b_source b = lower (strip s)"
  by (auto simp: resolve_def Let_def split: option.splits)

end
