(* ===== verification/Engine.thy ===== *)
theory Engine
  imports SysRuntime Events
begin

text \<open>
  The shared task service, \<open>src/src/task_system/engine.py\<close>: the queue of runs, the leases of the
  worker processes, the offer / begin / finish protocol, query results, and the transaction around
  every call. What a call reads from its surroundings (the clock, which processes are alive, the
  identifiers drawn by \<open>uuid4\<close>, the wall clock offset, whether SQLite commits) is the record
  \<open>env\<close>. One call reads the clock once. A request carries typed arguments; a JSON value stands
  where the code itself checks the type.
\<close>

section \<open>Data\<close>

datatype run_state = Pending | Offered | Running | Done | Errored | Cancelled | Interrupted

definition terminal :: "run_state \<Rightarrow> bool" where
  "terminal s \<longleftrightarrow> s \<in> {Done, Errored, Cancelled, Interrupted}"

record run =
  r_event :: sys_event
  r_policy :: "str option"
  r_executor :: "str option"
  r_state :: run_state
  r_owner :: str
  r_peer :: str
  r_outcome :: str
  r_status :: "int option"

record worker =
  w_owner :: str
  w_peer :: str
  w_executor :: str
  w_ready :: bool
  w_reason :: str
  w_last_seen :: rat

record payload =
  p_run_id :: str
  p_task_id :: int
  p_source :: str
  p_agent_id :: str
  p_agent_ok :: bool
  p_text :: str

record query_result =
  q_owner :: str
  q_peer :: str
  q_offer :: str
  q_payload :: payload
  q_acked :: bool

text \<open>The row saved in SQLite; the deadlines of its timers are on the wall clock.\<close>

record snapshot =
  sn_tasks :: "task list"
  sn_events :: "binding list"
  sn_timers :: "task_timer list"
  sn_legacy :: "named_timer list"
  sn_runs :: "(str, run) dict"
  sn_results :: "(str, query_result) dict"

record engine =
  en_sys :: sys_runtime
  en_events :: event_store
  en_runs :: "(str, run) dict"
  en_results :: "(str, query_result) dict"
  en_workers :: "(str \<times> str, worker) dict"
  en_disk :: "snapshot option"

record env =
  e_now :: rat
  e_alive :: "str \<Rightarrow> bool"
  e_uuid :: str
  e_offset :: rat
  e_offset_later :: rat
  e_commit :: bool

definition lease_seconds :: rat where "lease_seconds = 20"
definition max_query_text :: nat where "max_query_text = 4096"
definition max_pending_results :: nat where "max_pending_results = 1024"
definition max_acked_results :: nat where "max_acked_results = 128"
definition max_live_runs :: nat where "max_live_runs = 1024"
definition kept_finished_runs :: nat where "kept_finished_runs = 100"

datatype engine_error =
    SysError sys_error
  | EventError event_error
  | NeedsSavedTask
  | QueueIsFull
  | NoWorkerIdentity
  | InvalidHeartbeat
  | InvalidWorkerExecutor
  | InvalidStatusCode
  | PublishNeedsIds
  | InvalidResultFields
  | InvalidResultPayload
  | InvalidResultUnicode
  | ConflictingResult
  | ResultStoreFull
  | InvalidListLimit
  | AckNeedsRunId
  | UnsupportedOperation
  | CommitFailed

datatype worker_request =
    Heartbeat str json str
  | Offline
  | PublishResult json json json
  | Pull str "str list" "str list"
  | Begin str str
  | Valid str str
  | Finish str str str "json option"
  | OtherWorkerCall str str

datatype request =
    TasksGet int
  | TasksRequire int
  | TasksList
  | StatusText
  | TasksCreate task_args
  | TasksDelete int
  | TasksSetEnabled int bool
  | TasksSetPeriod int pyfloat
  | TasksSetExecutor int str
  | EventsResolve str str
  | EventsSnapshot
  | EventsUnregister int
  | EventsRegister int str binding_args
  | PauseTask int
  | ResumeTask int
  | CreateExternal task_args binding_args
  | CreateTask str str "str list" str
  | CreatePeriodic str str "str list" pyfloat str str json
  | StartTask int bool
  | StopTask int bool
  | TaskTimers
  | NamedTimers
  | TimerEnabled str
  | TimerStatus
  | Ping
  | RunTask int
  | Cores
  | Runs
  | ExternalEvent str str "str option"
  | SubmitEvent sys_event
  | NotificationsList json
  | NotificationsAck json
  | WorkerCall str str worker_request
  | OtherCall

record task_row =
  tr_id :: int
  tr_executor :: str
  tr_enabled :: bool
  tr_period :: "rat option"
  tr_states :: "run_state list"
  tr_description :: str

record core_row =
  cr_executor :: str
  cr_ready :: bool
  cr_reason :: str

datatype reply =
    RNone
  | RBool bool
  | RTask task
  | RTasks "task list"
  | RRows "task_row list"
  | RBinding binding
  | RBindings "binding list"
  | RTaskTimers "task_timer list"
  | RNamedTimers "named_timer list"
  | RReady
  | RRunId str
  | RCores "core_row list"
  | RRuns "run list"
  | REvent sys_event
  | RTimerStatus "(str \<times> rat \<times> rat option \<times> nat \<times> nat \<times> str) list"
  | RPayloads "payload list"

section \<open>Saving and restoring\<close>

definition en_store :: "engine \<Rightarrow> task_store" where
  "en_store en = (case sr_store (en_sys en) of Some st \<Rightarrow> st
     | None \<Rightarrow> \<lparr>ts_max = 5, ts_tasks = [], ts_file = NoFile\<rparr>)"

definition shift_timer :: "rat \<Rightarrow> 'k timer \<Rightarrow> 'k timer" where
  "shift_timer off t = t\<lparr>tm_next := map_option (\<lambda>d. d + off) (tm_next t)\<rparr>"

definition take_snapshot :: "rat \<Rightarrow> engine \<Rightarrow> snapshot" where
  "take_snapshot off en = \<lparr>
     sn_tasks = list_tasks (en_store en),
     sn_events = list_bindings (en_events en),
     sn_timers = map (shift_timer off) (dvals (sr_task_timers (en_sys en))),
     sn_legacy = map (shift_timer off) (dvals (sr_timers (en_sys en))),
     sn_runs = en_runs en,
     sn_results = en_results en\<rparr>"

definition key_by :: "('v \<Rightarrow> 'k) \<Rightarrow> 'v list \<Rightarrow> ('k, 'v) dict" where
  "key_by f vs = foldl (\<lambda>d v. dput (f v) v d) [] vs"

definition restore_snapshot :: "rat \<Rightarrow> snapshot \<Rightarrow> engine \<Rightarrow> engine" where
  "restore_snapshot off sn en = en\<lparr>
     en_sys := (en_sys en)\<lparr>
       sr_store := Some ((en_store en)\<lparr>ts_tasks := key_by t_id (sn_tasks sn)\<rparr>),
       sr_task_timers := key_by tm_key (map (shift_timer (- off)) (sn_timers sn)),
       sr_timers := key_by tm_key (map (shift_timer (- off)) (sn_legacy sn))\<rparr>,
     en_events := (en_events en)\<lparr>es_bindings := key_by b_name (sn_events sn)\<rparr>,
     en_runs := sn_runs sn,
     en_results := sn_results sn\<rparr>"

section \<open>The queue of runs\<close>

definition run_task_id :: "run \<Rightarrow> int option" where
  "run_task_id r = ev_task_id (r_event r)"

definition current :: "engine \<Rightarrow> run \<Rightarrow> bool" where
  "current en r =
     (case run_task_id r of None \<Rightarrow> False
      | Some i \<Rightarrow> (case get_task (en_store en) i of None \<Rightarrow> False
                  | Some t \<Rightarrow> t_enabled t \<and> t_generation t = ev_generation (r_event r)))"

definition live_count :: "engine \<Rightarrow> nat" where
  "live_count en = length (filter (\<lambda>r. \<not> terminal (r_state r)) (dvals (en_runs en)))"

definition same_activation :: "task \<Rightarrow> run \<Rightarrow> bool" where
  "same_activation t r \<longleftrightarrow> run_task_id r = Some (t_id t) \<and> ev_generation (r_event r) = t_generation t
     \<and> \<not> terminal (r_state r)"

definition new_run :: "str \<Rightarrow> task \<Rightarrow> sys_event \<Rightarrow> run" where
  "new_run ident t ev = \<lparr>r_event = ev\<lparr>ev_run_id := ident\<rparr>, r_policy = Some (t_executor t),
     r_executor = (if t_executor t = u ''auto'' then None else Some (t_executor t)),
     r_state = Pending, r_owner = [], r_peer = [], r_outcome = [], r_status = None\<rparr>"

definition queue_event :: "str \<Rightarrow> sys_event \<Rightarrow> engine \<Rightarrow> (engine_error + str option) \<times> engine" where
  "queue_event ident ev en =
     (case ev_task_id ev of None \<Rightarrow> (Inl NeedsSavedTask, en)
      | Some i \<Rightarrow>
        (case get_task (en_store en) i of None \<Rightarrow> (Inr None, en)
         | Some t \<Rightarrow>
            if \<not> t_enabled t \<or> t_generation t \<noteq> ev_generation ev then (Inr None, en)
            else if ev_source ev = u ''timer'' \<and> list_ex (same_activation t) (dvals (en_runs en)) then (Inr None, en)
            else if max_live_runs \<le> live_count en then (Inl QueueIsFull, en)
            else (Inr (Some ident), en\<lparr>en_runs := dput ident (new_run ident t ev) (en_runs en)\<rparr>)))"

definition policy :: "run \<Rightarrow> str option" where
  "policy r = (case r_policy r of Some p \<Rightarrow> Some p | None \<Rightarrow> r_executor r)"

definition lease_live :: "env \<Rightarrow> worker \<Rightarrow> bool" where
  "lease_live e w \<longleftrightarrow> e_alive e (w_peer w) \<and> e_now e - w_last_seen w < lease_seconds"

definition worker_ready :: "env \<Rightarrow> engine \<Rightarrow> str \<Rightarrow> str \<Rightarrow> bool" where
  "worker_ready e en owner peer =
     (case dget (en_workers en) (owner, peer) of None \<Rightarrow> False | Some w \<Rightarrow> lease_live e w \<and> w_ready w)"

definition executor_ready :: "env \<Rightarrow> engine \<Rightarrow> str \<Rightarrow> bool" where
  "executor_ready e en x = list_ex (\<lambda>w. w_executor w = x \<and> lease_live e w \<and> w_ready w) (dvals (en_workers en))"

definition best_ready :: "env \<Rightarrow> engine \<Rightarrow> str option" where
  "best_ready e en = find (executor_ready e en) [u ''openai'', u ''litert'']"

definition offer_lost :: "env \<Rightarrow> engine \<Rightarrow> run \<Rightarrow> bool" where
  "offer_lost e en r =
     (if \<not> e_alive e (r_peer r) then True
      else if policy r = Some (u ''auto'') then \<not> worker_ready e en (r_owner r) (r_peer r)
      else (case dget (en_workers en) (r_owner r, r_peer r) of None \<Rightarrow> False | Some w \<Rightarrow> \<not> lease_live e w))"

definition return_pending :: "run \<Rightarrow> run" where
  "return_pending r =
     (let r' = r\<lparr>r_state := Pending, r_owner := [], r_peer := [], r_event := (r_event r)\<lparr>ev_offer_id := []\<rparr>\<rparr>
      in if policy r' = Some (u ''auto'') then r'\<lparr>r_executor := None\<rparr> else r')"

definition reconcile_run :: "env \<Rightarrow> engine \<Rightarrow> run \<Rightarrow> run" where
  "reconcile_run e en r =
     (if (r_state r = Pending \<or> r_state r = Offered) \<and> \<not> current en r then r\<lparr>r_state := Cancelled\<rparr>
      else if r_state r = Offered \<and> offer_lost e en r then return_pending r
      else if r_state r = Running \<and> \<not> e_alive e (r_peer r)
           then r\<lparr>r_state := Interrupted, r_owner := [], r_peer := []\<rparr>
      else r)"

text \<open>\<open>for key in keys[:-n]: del d[key]\<close>, the keys being those that satisfy \<open>P\<close>, oldest first.\<close>

definition drop_oldest :: "nat \<Rightarrow> ('v \<Rightarrow> bool) \<Rightarrow> ('k, 'v) dict \<Rightarrow> ('k, 'v) dict" where
  "drop_oldest n P d =
     (let ks = map fst (filter (\<lambda>p. P (snd p)) d); old = take (length ks - n) ks
      in filter (\<lambda>p. fst p \<notin> set old) d)"

definition reconcile :: "env \<Rightarrow> engine \<Rightarrow> engine" where
  "reconcile e en = en\<lparr>en_runs :=
     drop_oldest kept_finished_runs (\<lambda>r. terminal (r_state r)) (dmap (reconcile_run e en) (en_runs en))\<rparr>"

section \<open>Query results\<close>

definition prune_results :: "engine \<Rightarrow> engine" where
  "prune_results en = en\<lparr>en_results := drop_oldest max_acked_results q_acked (en_results en)\<rparr>"

definition has_surrogate :: "str \<Rightarrow> bool" where
  "has_surrogate s \<longleftrightarrow> list_ex (\<lambda>c. 0xD800 \<le> c \<and> c \<le> 0xDFFF) s"

text \<open>The checks on the fields of a published result, in the order of the code.\<close>

definition check_payload :: "str \<Rightarrow> json \<Rightarrow> engine_error + payload" where
  "check_payload run_id j =
     (case j of
        JObj ps \<Rightarrow>
          if set (dkeys ps) \<noteq> {u ''type'', u ''run_id'', u ''task_id'', u ''source'', u ''agent_id'', u ''agent_ok'', u ''text''}
          then Inl InvalidResultFields
          else (case (jget ps ''task_id'' JNull, jget ps ''source'' JNull, jget ps ''agent_id'' JNull,
                      jget ps ''agent_ok'' JNull, jget ps ''text'' JNull) of
                  (JInt i, JStr source, JStr agent, JBool ok, JStr txt) \<Rightarrow>
                    if jget ps ''type'' JNull \<noteq> JStr (u ''task_query_result'')
                       \<or> jget ps ''run_id'' JNull \<noteq> JStr run_id \<or> agent = [] \<or> strip txt = []
                       \<or> max_query_text < length txt
                    then Inl InvalidResultPayload
                    else if has_surrogate txt \<or> has_surrogate source \<or> has_surrogate agent
                    then Inl InvalidResultUnicode
                    else Inr \<lparr>p_run_id = run_id, p_task_id = i, p_source = source, p_agent_id = agent,
                              p_agent_ok = ok, p_text = txt\<rparr>
                | _ \<Rightarrow> Inl InvalidResultPayload)
      | _ \<Rightarrow> Inl InvalidResultFields)"

definition unacked_count :: "engine \<Rightarrow> nat" where
  "unacked_count en = length (filter (\<lambda>q. \<not> q_acked q) (dvals (en_results en)))"

definition publish_result ::
  "str \<Rightarrow> str \<Rightarrow> json \<Rightarrow> json \<Rightarrow> json \<Rightarrow> engine \<Rightarrow> (engine_error + reply) \<times> engine" where
  "publish_result owner peer run offer result en =
     (case (run, offer) of
        (JStr run_id, JStr offer_id) \<Rightarrow>
          if run_id = [] then (Inl PublishNeedsIds, en)
          else
            (case check_payload run_id result of Inl e \<Rightarrow> (Inl e, en)
             | Inr p \<Rightarrow>
               (case dget (en_results en) run_id of
                  Some q \<Rightarrow>
                    if q_owner q \<noteq> owner \<or> q_peer q \<noteq> peer \<or> q_offer q \<noteq> offer_id then (Inr (RBool False), en)
                    else if q_payload q \<noteq> p then (Inl ConflictingResult, en)
                    else (Inr (RBool True), en)
                | None \<Rightarrow>
                   (case dget (en_runs en) run_id of None \<Rightarrow> (Inr (RBool False), en)
                    | Some r \<Rightarrow>
                        if r_owner r \<noteq> owner \<or> r_peer r \<noteq> peer \<or> ev_offer_id (r_event r) \<noteq> offer_id
                           \<or> r_state r \<noteq> Running \<or> \<not> current en r \<or> Some (p_task_id p) \<noteq> run_task_id r
                           \<or> p_source p \<noteq> ev_source (r_event r)
                        then (Inr (RBool False), en)
                        else (case get_task (en_store en) (p_task_id p) of None \<Rightarrow> (Inr (RBool False), en)
                              | Some t \<Rightarrow>
                                  if t_method t \<noteq> u ''query'' then (Inr (RBool False), en)
                                  else if max_pending_results \<le> unacked_count en then (Inl ResultStoreFull, en)
                                  else (Inr (RBool True), en\<lparr>en_results := dput run_id
                                     \<lparr>q_owner = owner, q_peer = peer, q_offer = offer_id, q_payload = p, q_acked = False\<rparr>
                                     (en_results en)\<rparr>)))))
      | _ \<Rightarrow> (Inl PublishNeedsIds, en))"

definition list_notifications :: "json \<Rightarrow> engine \<Rightarrow> engine_error + reply" where
  "list_notifications limit en =
     (case limit of
        JInt n \<Rightarrow>
          if 1 \<le> n \<and> n \<le> 100
          then Inr (RPayloads (take (nat n) (map q_payload (filter (\<lambda>q. \<not> q_acked q) (dvals (en_results en))))))
          else Inl InvalidListLimit
      | _ \<Rightarrow> Inl InvalidListLimit)"

definition ack_notification :: "json \<Rightarrow> engine \<Rightarrow> (engine_error + reply) \<times> engine" where
  "ack_notification arg en =
     (case arg of
        JStr run_id \<Rightarrow>
          (case dget (en_results en) run_id of None \<Rightarrow> (Inr (RBool False), en)
           | Some q \<Rightarrow> (Inr (RBool True),
               prune_results (en\<lparr>en_results := dput run_id (q\<lparr>q_acked := True\<rparr>) (en_results en)\<rparr>)))
      | _ \<Rightarrow> (Inl AckNeedsRunId, en))"

section \<open>The worker protocol\<close>

definition reasons :: "str list" where
  "reasons = [[], u ''initializing'', u ''stopping'', u ''runtime_unavailable'', u ''readiness_unknown'',
     u ''missing_api_key'', u ''credentials_invalid'', u ''quota_exhausted'', u ''usage_api_error'',
     u ''usage_invalid_response'', u ''usage_network_error'', u ''ollama_unavailable'',
     u ''ollama_invalid_response'', u ''openai_unavailable'', u ''openai_invalid_response'',
     u ''openai_model_unavailable'']"

definition worker_executors :: "str list" where
  "worker_executors = [u ''litert'', u ''openai'']"

definition heartbeat ::
  "env \<Rightarrow> str \<Rightarrow> str \<Rightarrow> str \<Rightarrow> json \<Rightarrow> str \<Rightarrow> engine \<Rightarrow> (engine_error + reply) \<times> engine" where
  "heartbeat e owner peer executor ready reason0 en =
     (case ready of
        JBool b \<Rightarrow>
          if executor \<notin> set worker_executors then (Inl InvalidHeartbeat, en)
          else
            (let reason = (if reason0 \<in> set reasons then reason0 else u ''readiness_unknown'')
             in (Inr (RBool True), en\<lparr>en_workers := dput (owner, peer)
                  \<lparr>w_owner = owner, w_peer = peer, w_executor = executor, w_ready = b,
                   w_reason = (if b then [] else if reason = [] then u ''readiness_unknown'' else reason),
                   w_last_seen = e_now e\<rparr> (en_workers en)\<rparr>))
      | _ \<Rightarrow> (Inl InvalidHeartbeat, en))"

definition offline :: "env \<Rightarrow> str \<Rightarrow> str \<Rightarrow> engine \<Rightarrow> engine" where
  "offline e owner peer en =
     reconcile e
       (case dget (en_workers en) (owner, peer) of None \<Rightarrow> en
        | Some w \<Rightarrow> en\<lparr>en_workers := dput (owner, peer)
            (w\<lparr>w_ready := False, w_reason := u ''stopping'', w_last_seen := e_now e - lease_seconds\<rparr>)
            (en_workers en)\<rparr>)"

text \<open>An offer this worker already holds and has not acknowledged yet is sent again.\<close>

definition resend :: "str \<Rightarrow> str \<Rightarrow> str list \<Rightarrow> str list \<Rightarrow> run \<Rightarrow> bool" where
  "resend owner peer seen skip r \<longleftrightarrow>
     r_state r = Offered \<and> r_owner r = owner \<and> r_peer r = peer
     \<and> (if ev_offer_id (r_event r) = [] then ev_run_id (r_event r) else ev_offer_id (r_event r)) \<notin> set seen
     \<and> ev_run_id (r_event r) \<notin> set skip"

definition occupies :: "run \<Rightarrow> bool" where
  "occupies r \<longleftrightarrow> r_state r = Offered \<or> r_state r = Running"

definition occupied :: "engine \<Rightarrow> int option list" where
  "occupied en = map run_task_id (filter occupies (dvals (en_runs en)))"

definition offerable :: "env \<Rightarrow> engine \<Rightarrow> str \<Rightarrow> str \<Rightarrow> str \<Rightarrow> str list \<Rightarrow> run \<Rightarrow> bool" where
  "offerable e en owner peer executor skip r \<longleftrightarrow>
     r_state r = Pending \<and> run_task_id r \<notin> set (occupied en) \<and> ev_run_id (r_event r) \<notin> set skip
     \<and> (let p = policy r; auto = (p = Some (u ''auto''));
            selected = (if auto then best_ready e en else p); w = dget (en_workers en) (owner, peer)
        in selected = Some executor
           \<and> (auto \<longrightarrow> worker_ready e en owner peer \<and> map_option w_executor w = Some executor)
           \<and> (case w of None \<Rightarrow> True | Some x \<Rightarrow> lease_live e x))"

definition offer :: "str \<Rightarrow> str \<Rightarrow> str \<Rightarrow> str \<Rightarrow> run \<Rightarrow> run" where
  "offer ident owner peer executor r = r\<lparr>r_state := Offered, r_owner := owner, r_peer := peer,
     r_executor := Some executor, r_event := (r_event r)\<lparr>ev_offer_id := ident\<rparr>\<rparr>"

definition pull ::
  "env \<Rightarrow> str \<Rightarrow> str \<Rightarrow> str \<Rightarrow> str list \<Rightarrow> str list \<Rightarrow> engine \<Rightarrow> (engine_error + reply) \<times> engine" where
  "pull e owner peer executor seen skip en =
     (if executor \<notin> set worker_executors then (Inl InvalidWorkerExecutor, en)
      else
        (case find (\<lambda>p. resend owner peer seen skip (snd p)) (en_runs en) of
           Some (k, r) \<Rightarrow> (Inr (REvent (r_event r)), en)
         | None \<Rightarrow>
            (case find (\<lambda>p. offerable e en owner peer executor skip (snd p)) (en_runs en) of
               None \<Rightarrow> (Inr RNone, en)
             | Some (k, r) \<Rightarrow>
                 (let r' = offer (e_uuid e) owner peer executor r
                  in (Inr (REvent (r_event r')), en\<lparr>en_runs := dput k r' (en_runs en)\<rparr>)))))"

definition outcome_state :: "str \<Rightarrow> run_state" where
  "outcome_state out =
     (if out = u ''error'' then Errored else if out = u ''cancelled'' then Cancelled
      else if out = u ''interrupted'' then Interrupted else Done)"

definition status_code :: "str \<Rightarrow> json option \<Rightarrow> engine_error + int" where
  "status_code outcome given =
     (case given of
        None \<Rightarrow> Inr (if outcome = u ''done'' then 0 else 1)
      | Some (JInt i) \<Rightarrow> if i < 0 then Inl InvalidStatusCode else Inr i
      | Some _ \<Rightarrow> Inl InvalidStatusCode)"

text \<open>The run addressed by \<open>begin\<close>, \<open>valid\<close> and \<open>finish\<close>: same owner, process and offer.\<close>

definition addressed :: "str \<Rightarrow> str \<Rightarrow> str \<Rightarrow> str \<Rightarrow> engine \<Rightarrow> run option" where
  "addressed owner peer run_id offer_id en =
     (case dget (en_runs en) run_id of None \<Rightarrow> None
      | Some r \<Rightarrow> if r_owner r \<noteq> owner \<or> r_peer r \<noteq> peer \<or> ev_offer_id (r_event r) \<noteq> offer_id then None else Some r)"

definition set_run :: "str \<Rightarrow> run \<Rightarrow> engine \<Rightarrow> engine" where
  "set_run k r en = en\<lparr>en_runs := dput k r (en_runs en)\<rparr>"

definition begin_run :: "str \<Rightarrow> run \<Rightarrow> engine \<Rightarrow> reply \<times> engine" where
  "begin_run k r en =
     (if (r_state r \<noteq> Offered \<and> r_state r \<noteq> Running) \<or> \<not> current en r then (RBool False, en)
      else (RBool True, set_run k (r\<lparr>r_state := Running\<rparr>) en))"

definition valid_run :: "run \<Rightarrow> engine \<Rightarrow> reply" where
  "valid_run r en = RBool ((r_state r = Offered \<or> r_state r = Running) \<and> current en r)"

definition finish_run :: "str \<Rightarrow> run \<Rightarrow> str \<Rightarrow> json option \<Rightarrow> engine \<Rightarrow> (engine_error + reply) \<times> engine" where
  "finish_run k r outcome given en =
     (if terminal (r_state r) then (Inr (RBool True), en)
      else (case status_code outcome given of Inl e \<Rightarrow> (Inl e, en)
            | Inr code \<Rightarrow> (Inr (RBool True), set_run k
                (if r_state r = Offered \<and> current en r then return_pending r
                 else r\<lparr>r_state := outcome_state outcome, r_outcome := outcome, r_status := Some code\<rparr>) en)))"

definition worker_call ::
  "env \<Rightarrow> str \<Rightarrow> str \<Rightarrow> worker_request \<Rightarrow> engine \<Rightarrow> (engine_error + reply) \<times> engine" where
  "worker_call e owner peer req en0 =
     (if peer = [] \<or> owner = [] then (Inl NoWorkerIdentity, en0)
      else
        (let en = reconcile e en0 in
         case req of
           Heartbeat executor ready reason \<Rightarrow> heartbeat e owner peer executor ready reason en
         | Offline \<Rightarrow> (Inr (RBool True), offline e owner peer en)
         | PublishResult run off result \<Rightarrow> publish_result owner peer run off result en
         | Pull executor seen skip \<Rightarrow> pull e owner peer executor seen skip en
         | Begin run off \<Rightarrow>
             (case addressed owner peer run off en of None \<Rightarrow> (Inr (RBool False), en)
              | Some r \<Rightarrow> (case begin_run run r en of (v, en') \<Rightarrow> (Inr v, en')))
         | Valid run off \<Rightarrow>
             (case addressed owner peer run off en of None \<Rightarrow> (Inr (RBool False), en)
              | Some r \<Rightarrow> (Inr (valid_run r en), en))
         | Finish run off outcome given \<Rightarrow>
             (case addressed owner peer run off en of None \<Rightarrow> (Inr (RBool False), en)
              | Some r \<Rightarrow> finish_run run r outcome given en)
         | OtherWorkerCall run off \<Rightarrow>
             (case addressed owner peer run off en of None \<Rightarrow> (Inr (RBool False), en)
              | Some r \<Rightarrow> (Inl UnsupportedOperation, en))))"

end
