(* ===== verification/EngineCalls.thy ===== *)
theory EngineCalls
  imports Engine
begin

text \<open>
  The rest of \<open>src/src/task_system/engine.py\<close>: the status reports, the dispatcher over the client
  operations, and the transaction around a call and around a clock tick. The request
  \<open>OtherCall\<close> stands for every pair of target and method the dispatcher does not know. Methods
  that only return a constant text (\<open>capabilities_text\<close>) are left out.
\<close>

section \<open>Reports\<close>

text \<open>\<open>sorted({states})\<close> of the live runs: the three live states in the order of their names.\<close>

definition live_states :: "engine \<Rightarrow> int \<Rightarrow> run_state list" where
  "live_states en i =
     filter (\<lambda>s. list_ex (\<lambda>r. run_task_id r = Some i \<and> r_state r = s) (dvals (en_runs en)))
       [Offered, Pending, Running]"

definition status_rows :: "engine \<Rightarrow> task_row list" where
  "status_rows en = map (\<lambda>t. \<lparr>tr_id = t_id t, tr_executor = t_executor t, tr_enabled = t_enabled t,
     tr_period = t_period t, tr_states = live_states en (t_id t), tr_description = t_description t\<rparr>)
     (list_tasks (en_store en))"

text \<open>\<open>max(fresh, key=last_seen)\<close>: the first worker seen most recently.\<close>

definition latest_worker :: "worker list \<Rightarrow> worker option" where
  "latest_worker ws = map_option ((!) ws) (min_pos (\<lambda>w. - w_last_seen w) ws)"

definition core_reason :: "env \<Rightarrow> worker list \<Rightarrow> str" where
  "core_reason e ws =
     (let fresh = filter (lease_live e) ws
      in if list_ex w_ready fresh then []
         else (case latest_worker fresh of
                 Some w \<Rightarrow> w_reason w
               | None \<Rightarrow> if ws = [] then u ''not_registered''
                         else if list_ex (\<lambda>w. e_alive e (w_peer w)) ws then u ''heartbeat_expired''
                         else u ''process_unavailable''))"

definition core_status :: "env \<Rightarrow> engine \<Rightarrow> core_row list" where
  "core_status e en = map (\<lambda>x.
     (let ws = filter (\<lambda>w. w_executor w = x) (dvals (en_workers en))
      in \<lparr>cr_executor = x, cr_ready = list_ex w_ready (filter (lease_live e) ws), cr_reason = core_reason e ws\<rparr>))
     [u ''openai'', u ''litert'']"

section \<open>The dispatcher\<close>

text \<open>An operation of the runtime or of the binding registry, run on the engine's part.\<close>

definition on_sys ::
  "(sys_runtime \<Rightarrow> (sys_error + 'a) \<times> sys_runtime) \<Rightarrow> engine \<Rightarrow> (engine_error + 'a) \<times> engine" where
  "on_sys f en = (case f (en_sys en) of (Inl e, s) \<Rightarrow> (Inl (SysError e), en\<lparr>en_sys := s\<rparr>)
                  | (Inr v, s) \<Rightarrow> (Inr v, en\<lparr>en_sys := s\<rparr>))"

definition on_events ::
  "(event_store \<Rightarrow> (event_error + 'a) \<times> event_store) \<Rightarrow> engine \<Rightarrow> (engine_error + 'a) \<times> engine" where
  "on_events f en = (case f (en_events en) of (Inl e, s) \<Rightarrow> (Inl (EventError e), en\<lparr>en_events := s\<rparr>)
                     | (Inr v, s) \<Rightarrow> (Inr v, en\<lparr>en_events := s\<rparr>))"

definition replying :: "('a \<Rightarrow> reply) \<Rightarrow> ('e + 'a) \<times> engine \<Rightarrow> ('e + reply) \<times> engine" where
  "replying f r = then_do r (\<lambda>v en. (Inr (f v), en))"

definition engine_require :: "int \<Rightarrow> engine \<Rightarrow> (engine_error + task) \<times> engine" where
  "engine_require i = on_sys (\<lambda>s. with_store s (\<lambda>st. (require_task st i, st)))"

definition create_with_timer :: "env \<Rightarrow> task_args \<Rightarrow> engine \<Rightarrow> (engine_error + task) \<times> engine" where
  "create_with_timer e a =
     on_sys (\<lambda>s. then_do (with_store s (create_task Owned (e_uuid e) a))
       (\<lambda>t s'. (Inr t, case t_period t of None \<Rightarrow> s'
          | Some p \<Rightarrow> s'\<lparr>sr_task_timers := dput (t_id t)
              (new_timer (t_id t) p [] (t_enabled t) (if t_enabled t then Some (e_now e + p) else None))
              (sr_task_timers s')\<rparr>)))"

definition engine_delete :: "int \<Rightarrow> engine \<Rightarrow> (engine_error + reply) \<times> engine" where
  "engine_delete i en =
     then_do (on_sys (sys_delete_task Owned i) en)
       (\<lambda>deleted en'. replying (\<lambda>_. RBool deleted) (on_events (unregister_task Owned i) en'))"

definition engine_start :: "env \<Rightarrow> int \<Rightarrow> bool \<Rightarrow> engine \<Rightarrow> (engine_error + reply) \<times> engine" where
  "engine_start e i preserve en = replying RTask (on_sys (start_task Owned (e_now e) (e_uuid e) i preserve) en)"

definition engine_stop :: "env \<Rightarrow> int \<Rightarrow> bool \<Rightarrow> engine \<Rightarrow> (engine_error + reply) \<times> engine" where
  "engine_stop e i preserve en = replying RTask (on_sys (stop_task Owned (e_uuid e) i preserve) en)"

definition queued_reply :: "str option \<Rightarrow> reply" where
  "queued_reply x = (case x of None \<Rightarrow> RNone | Some k \<Rightarrow> RRunId k)"

definition plain_event :: "env \<Rightarrow> str \<Rightarrow> str \<Rightarrow> str \<Rightarrow> task \<Rightarrow> sys_event" where
  "plain_event e source name txt t = \<lparr>ev_source = source, ev_name = name, ev_task = txt, ev_created = e_now e,
     ev_task_id = Some (t_id t), ev_generation = t_generation t, ev_run_id = [], ev_offer_id = []\<rparr>"

definition external_event :: "env \<Rightarrow> str \<Rightarrow> str \<Rightarrow> str option \<Rightarrow> engine \<Rightarrow> (engine_error + reply) \<times> engine" where
  "external_event e source name value en =
     (case resolve source name (en_events en) of None \<Rightarrow> (Inr RNone, en)
      | Some b \<Rightarrow>
        (case get_task (en_store en) (b_task b) of None \<Rightarrow> (Inr RNone, en)
         | Some t \<Rightarrow> replying queued_reply (queue_event (e_uuid e)
             (plain_event e source name (case value of None \<Rightarrow> [] | Some v \<Rightarrow> v) t) en)))"

definition create_external :: "env \<Rightarrow> task_args \<Rightarrow> binding_args \<Rightarrow> engine \<Rightarrow> (engine_error + reply) \<times> engine" where
  "create_external e a ba en =
     then_do (on_sys (\<lambda>s. with_store s (create_task Owned (e_uuid e) a)) en)
       (\<lambda>t en'. replying (\<lambda>_. RTask t) (on_events (register Owned (t_id t) (t_description t) ba) en'))"

definition dispatch :: "env \<Rightarrow> request \<Rightarrow> engine \<Rightarrow> (engine_error + reply) \<times> engine" where
  "dispatch e req en =
     (case req of
        TasksGet i \<Rightarrow> (Inr (case get_task (en_store en) i of None \<Rightarrow> RNone | Some t \<Rightarrow> RTask t), en)
      | TasksRequire i \<Rightarrow> replying RTask (engine_require i en)
      | TasksList \<Rightarrow> (Inr (RTasks (list_tasks (en_store en))), en)
      | StatusText \<Rightarrow> (Inr (RRows (status_rows en)), en)
      | TasksCreate a \<Rightarrow> replying RTask (create_with_timer e a en)
      | TasksDelete i \<Rightarrow> engine_delete i en
      | TasksSetEnabled i on \<Rightarrow> if on then engine_start e i False en else engine_stop e i False en
      | TasksSetPeriod i p \<Rightarrow> replying RTask (on_sys (set_task_period Owned (e_now e) (e_uuid e) i p) en)
      | TasksSetExecutor i x \<Rightarrow>
          replying RTask (on_sys (\<lambda>s. with_store s (set_executor Owned (e_uuid e) i x)) en)
      | EventsResolve source name \<Rightarrow>
          (Inr (case resolve source name (en_events en) of None \<Rightarrow> RNone | Some b \<Rightarrow> RBinding b), en)
      | EventsSnapshot \<Rightarrow> (Inr (RBindings (list_bindings (en_events en))), en)
      | EventsUnregister i \<Rightarrow> replying (\<lambda>_. RNone) (on_events (unregister_task Owned i) en)
      | EventsRegister i description ba \<Rightarrow>
          then_do (engine_require i en)
            (\<lambda>_ en'. replying RBinding (on_events (register Owned i description ba) en'))
      | PauseTask i \<Rightarrow> then_do (engine_stop e i True en) (\<lambda>v en'. (Inr v, reconcile e en'))
      | ResumeTask i \<Rightarrow> engine_start e i True en
      | CreateExternal a ba \<Rightarrow> create_external e a ba en
      | CreateTask description txt skills x \<Rightarrow>
          replying RTask (on_sys (sys_create_task Owned (e_uuid e) description txt skills x) en)
      | CreatePeriodic description txt skills p method x agent \<Rightarrow>
          replying RTask (on_sys (create_periodic_task Owned (e_now e) (e_uuid e) description txt skills p method x agent) en)
      | StartTask i preserve \<Rightarrow> engine_start e i preserve en
      | StopTask i preserve \<Rightarrow> engine_stop e i preserve en
      | TaskTimers \<Rightarrow> (Inr (RTaskTimers (dvals (sr_task_timers (en_sys en)))), en)
      | NamedTimers \<Rightarrow> (Inr (RNamedTimers (dvals (sr_timers (en_sys en)))), en)
      | TimerEnabled name \<Rightarrow> (Inr (RBool (timer_enabled name (en_sys en))), en)
      | TimerStatus \<Rightarrow> (Inr (RTimerStatus (timer_status (e_now e) (en_sys en))), en)
      | Ping \<Rightarrow> (Inr RReady, en)
      | RunTask i \<Rightarrow>
          then_do (engine_require i en)
            (\<lambda>t en'. replying queued_reply (queue_event (e_uuid e)
               (plain_event e (u ''manual'') (u ''task:'' @ show_int (t_id t)) [] t) en'))
      | Cores \<Rightarrow> (Inr (RCores (core_status e en)), en)
      | Runs \<Rightarrow> (Inr (RRuns (dvals (en_runs en))), en)
      | ExternalEvent source name value \<Rightarrow> external_event e source name value en
      | SubmitEvent ev \<Rightarrow> replying queued_reply (queue_event (e_uuid e) ev en)
      | NotificationsList limit \<Rightarrow> (list_notifications limit en, en)
      | NotificationsAck arg \<Rightarrow> ack_notification arg en
      | WorkerCall owner peer wr \<Rightarrow> worker_call e owner peer wr en
      | OtherCall \<Rightarrow> (Inl UnsupportedOperation, en))"

section \<open>Transactions\<close>

text \<open>
  A successful step is saved when it changed the durable state (compared with the deadlines on the
  monotonic clock); an error, the save included, restores the state from the copy taken before.
  The workers are not part of the copy. SQLite keeps the previous row when the commit fails.
\<close>

definition conclude ::
  "env \<Rightarrow> engine \<Rightarrow> (engine_error + 'a) \<times> engine \<Rightarrow> (engine_error + 'a) \<times> engine" where
  "conclude e en r =
     (let before = take_snapshot (e_offset e) en; back = restore_snapshot (e_offset_later e) before
      in case r of
           (Inl err, en') \<Rightarrow> (Inl err, back en')
         | (Inr v, en') \<Rightarrow>
             if take_snapshot 0 en' = take_snapshot 0 en then (Inr v, en')
             else if e_commit e then (Inr v, en'\<lparr>en_disk := Some (take_snapshot (e_offset_later e) en')\<rparr>)
             else (Inl CommitFailed, back en'))"

definition engine_call :: "env \<Rightarrow> request \<Rightarrow> engine \<Rightarrow> (engine_error + reply) \<times> engine" where
  "engine_call e req en = conclude e en (dispatch e req en)"

text \<open>\<open>for event in due: self._queue(event)\<close>, the identifiers drawn from \<open>us\<close> in order.\<close>

fun queue_all :: "(nat \<Rightarrow> str) \<Rightarrow> sys_event list \<Rightarrow> engine \<Rightarrow> (engine_error + unit) \<times> engine" where
  "queue_all us [] en = (Inr (), en)"
| "queue_all us (ev # evs) en =
     then_do (queue_event (us 0) ev en) (\<lambda>_ en'. queue_all (\<lambda>n. us (Suc n)) evs en')"

definition tick_body :: "env \<Rightarrow> (nat \<Rightarrow> str) \<Rightarrow> rat \<Rightarrow> engine \<Rightarrow> (engine_error + unit) \<times> engine" where
  "tick_body e us now en =
     then_do (on_sys (poll_due now False) (reconcile e en)) (\<lambda>evs en'. queue_all us evs en')"

definition tick :: "env \<Rightarrow> (nat \<Rightarrow> str) \<Rightarrow> rat \<Rightarrow> engine \<Rightarrow> (engine_error + unit) \<times> engine" where
  "tick e us now en = conclude e en (tick_body e us now en)"

section \<open>Opening\<close>

text \<open>
  \<open>__init__\<close>: with a saved row the registries start empty and are restored; without one the
  legacy files are imported, the timers armed and the first row saved.
\<close>

definition open_engine ::
  "env \<Rightarrow> (json \<Rightarrow> str) \<Rightarrow> (nat \<Rightarrow> str) \<Rightarrow> task_file \<Rightarrow> event_file \<Rightarrow> snapshot option \<Rightarrow> engine_error + engine" where
  "open_engine e rp fresh tf ef row =
     (case row of
        Some sn \<Rightarrow>
          Inr (restore_snapshot (e_offset e) sn
            \<lparr>en_sys = new_runtime (Some \<lparr>ts_max = 5, ts_tasks = [], ts_file = tf\<rparr>),
             en_events = \<lparr>es_bindings = [], es_file = ef\<rparr>, en_runs = [], en_results = [], en_workers = [],
             en_disk = row\<rparr>)
      | None \<Rightarrow>
         (case reload_tasks rp fresh \<lparr>ts_max = 5, ts_tasks = [], ts_file = tf\<rparr> of
            (Inl err, _) \<Rightarrow> Inl (SysError (StoreError err))
          | (Inr _, st) \<Rightarrow>
             (case reload_events rp \<lparr>es_bindings = [], es_file = ef\<rparr> of
                (Inl err, _) \<Rightarrow> Inl (EventError err)
              | (Inr _, es) \<Rightarrow>
                 (let en = \<lparr>en_sys = arm_task_timers (e_now e) (new_runtime (Some st)), en_events = es,
                            en_runs = [], en_results = [], en_workers = [], en_disk = None\<rparr>
                  in if e_commit e then Inr (en\<lparr>en_disk := Some (take_snapshot (e_offset e) en)\<rparr>)
                     else Inl CommitFailed))))"

end
