(* ===== verification/EngineRuns.thy ===== *)
theory EngineRuns
  imports EngineCalls
begin

text \<open>
  The queue of runs of the shared service: its invariant, and that reconciling, queueing, offering,
  beginning and finishing keep it. The invariant is stated through look-ups: what an operation
  leaves of a run is compared with what was stored under the same identifier.
\<close>

section \<open>The invariant\<close>

definition live :: "run \<Rightarrow> bool" where
  "live r \<longleftrightarrow> \<not> terminal (r_state r)"

text \<open>Pending runs belong to nobody; offered and running ones name a worker process of the policy.\<close>

definition run_ok :: "str \<Rightarrow> run \<Rightarrow> bool" where
  "run_ok k r \<longleftrightarrow> ev_run_id (r_event r) = k \<and> run_task_id r \<noteq> None \<and> r_policy r \<noteq> None
     \<and> (r_state r = Pending \<longrightarrow> r_owner r = [] \<and> r_peer r = []
          \<and> r_executor r = (if policy r = Some (u ''auto'') then None else policy r))
     \<and> (occupies r \<longrightarrow> r_owner r \<noteq> [] \<and> r_peer r \<noteq> [] \<and> r_executor r \<in> Some ` set worker_executors
          \<and> (policy r \<noteq> Some (u ''auto'') \<longrightarrow> r_executor r = policy r))"

definition from_timer :: "run \<Rightarrow> bool" where
  "from_timer r \<longleftrightarrow> live r \<and> ev_source (r_event r) = u ''timer''"

definition activation_of :: "run \<Rightarrow> int option \<times> str" where
  "activation_of r = (run_task_id r, ev_generation (r_event r))"

text \<open>No two runs with \<open>P\<close> agree on \<open>f\<close>.\<close>

definition unique_by :: "(run \<Rightarrow> bool) \<Rightarrow> (run \<Rightarrow> 'a) \<Rightarrow> (str, run) dict \<Rightarrow> bool" where
  "unique_by P f rs \<longleftrightarrow> (\<forall>k r k' r'. dget rs k = Some r \<longrightarrow> dget rs k' = Some r' \<longrightarrow> P r \<longrightarrow> P r'
     \<longrightarrow> f r = f r' \<longrightarrow> k = k')"

definition count_vals :: "('v \<Rightarrow> bool) \<Rightarrow> ('k, 'v) dict \<Rightarrow> nat" where
  "count_vals P rs = length (filter P (dvals rs))"

definition runs_ok :: "(str, run) dict \<Rightarrow> bool" where
  "runs_ok rs \<longleftrightarrow> dwf rs \<and> (\<forall>k r. dget rs k = Some r \<longrightarrow> run_ok k r)
     \<and> unique_by occupies run_task_id rs \<and> unique_by from_timer activation_of rs
     \<and> count_vals live rs \<le> max_live_runs"

lemma runs_ok_Nil [simp]: "runs_ok []"
  by (simp add: runs_ok_def unique_by_def count_vals_def)

lemma live_count_eq: "live_count en = count_vals live (en_runs en)"
  by (simp add: live_count_def count_vals_def live_def [abs_def])

lemma occupies_live: "occupies r \<Longrightarrow> live r"
  by (auto simp: occupies_def live_def terminal_def)

lemma dvals_filter: "filter P (dvals d) = dvals (filter (\<lambda>p. P (snd p)) d)"
  by (simp add: dvals_def filter_map comp_def)

lemma count_vals_card:
  assumes "dwf rs"
  shows "count_vals P rs = card {k. \<exists>r. dget rs k = Some r \<and> P r}"
proof -
  have "{k. \<exists>r. dget rs k = Some r \<and> P r} = set (map fst (filter (\<lambda>p. P (snd p)) rs))"
    using assms by (auto simp: dget_iff image_iff)
  moreover have "distinct (map fst (filter (\<lambda>p. P (snd p)) rs))"
    using assms by (simp add: dwf_def distinct_map_filter)
  ultimately have "card {k. \<exists>r. dget rs k = Some r \<and> P r} = length (filter (\<lambda>p. P (snd p)) rs)"
    using distinct_card by fastforce
  then show ?thesis
    by (simp add: count_vals_def dvals_def filter_map comp_def)
qed

lemma finite_lookup: "finite {k. \<exists>r. dget rs k = Some r \<and> P r}"
  by (rule finite_subset [of _ "set (dkeys rs)"]) (auto, metis dget_None_iff option.distinct(1))

section \<open>Changes that keep a run or take it back\<close>

text \<open>
  \<open>r'\<close> may replace \<open>r\<close>: the activation is the same, and \<open>r'\<close> occupies its task or counts as live
  only if \<open>r\<close> did.
\<close>

definition weaker :: "run \<Rightarrow> run \<Rightarrow> bool" where
  "weaker r r' \<longleftrightarrow> activation_of r' = activation_of r \<and> ev_source (r_event r') = ev_source (r_event r)
     \<and> (occupies r' \<longrightarrow> occupies r) \<and> (live r' \<longrightarrow> live r)"

lemma weaker_refl [simp]: "weaker r r"
  by (simp add: weaker_def)

lemma unique_by_mono:
  assumes "unique_by P f rs"
    and "\<And>k r'. dget rs' k = Some r' \<Longrightarrow> P r' \<Longrightarrow> \<exists>r. dget rs k = Some r \<and> P r \<and> f r' = f r"
  shows "unique_by P f rs'"
  unfolding unique_by_def
proof (intro allI impI)
  fix k r k' r'
  assume a: "dget rs' k = Some r" "dget rs' k' = Some r'" "P r" "P r'" "f r = f r'"
  from assms(2) [OF a(1,3)] assms(2) [OF a(2,4)] a(5) assms(1) show "k = k'"
    unfolding unique_by_def by metis
qed

lemma runs_ok_weaker:
  assumes ok: "runs_ok rs" and wf: "dwf rs'"
    and old: "\<And>k r'. dget rs' k = Some r' \<Longrightarrow> \<exists>r. dget rs k = Some r \<and> run_ok k r' \<and> weaker r r'"
  shows "runs_ok rs'"
proof -
  have f: "from_timer r'" if "from_timer r" "weaker r' r" for r r'
    using that by (auto simp: from_timer_def weaker_def)
  have "count_vals live rs' \<le> count_vals live rs"
    using ok wf old unfolding runs_ok_def
    by (auto simp: count_vals_card weaker_def intro!: card_mono finite_lookup) metis
  moreover have "unique_by occupies run_task_id rs'"
    using ok unfolding runs_ok_def
    by (elim conjE, elim unique_by_mono) (auto simp: weaker_def activation_of_def dest!: old)
  moreover have "unique_by from_timer activation_of rs'"
    using ok unfolding runs_ok_def
    by (elim conjE, elim unique_by_mono) (drule old, auto simp: weaker_def from_timer_def)
  ultimately show ?thesis
    using ok wf old unfolding runs_ok_def by (metis (no_types, lifting) order_trans)
qed

lemma runs_okD: "runs_ok rs \<Longrightarrow> dget rs k = Some r \<Longrightarrow> run_ok k r"
  by (simp add: runs_ok_def)

lemma runs_ok_put:
  assumes "runs_ok rs" and "dget rs k = Some r" and "run_ok k r'" and "weaker r r'"
  shows "runs_ok (dput k r' rs)"
proof (rule runs_ok_weaker [OF assms(1)])
  show "dwf (dput k r' rs)" using assms(1) by (simp add: runs_ok_def)
  show "\<exists>r. dget rs j = Some r \<and> run_ok j s \<and> weaker r s" if "dget (dput k r' rs) j = Some s" for j s
    using that assms runs_okD [OF assms(1), of j s] by (cases "j = k") auto
qed

section \<open>Reconciling and pruning\<close>

lemma dwf_drop_oldest [simp]: "dwf d \<Longrightarrow> dwf (drop_oldest n P d)"
  by (simp add: drop_oldest_def Let_def)

lemma dget_drop_oldest:
  assumes "dwf d"
  shows "dget (drop_oldest n P d) k = Some v \<Longrightarrow> dget d k = Some v"
    and "dget d k = Some v \<Longrightarrow> \<not> P v \<Longrightarrow> dget (drop_oldest n P d) k = Some v"
proof -
  let ?ks = "map fst (filter (\<lambda>p. P (snd p)) d)"
  have eq: "dget (drop_oldest n P d) k =
      (case dget d k of None \<Rightarrow> None | Some v \<Rightarrow> if k \<in> set (take (length ?ks - n) ?ks) then None else Some v)"
    by (simp add: drop_oldest_def Let_def dget_filter_other [OF assms] split: option.splits)
  show "dget (drop_oldest n P d) k = Some v \<Longrightarrow> dget d k = Some v"
    by (auto simp: eq split: option.splits if_splits)
  show "dget (drop_oldest n P d) k = Some v" if "dget d k = Some v" "\<not> P v"
  proof -
    have "P w \<Longrightarrow> (k, w) \<notin> set d" for w using that dget_iff [OF assms, of k w] by auto
    then have "k \<notin> set ?ks" by auto
    then show ?thesis using that(1) by (auto simp: eq dest: in_set_takeD)
  qed
qed

lemma filter_not_taken: "distinct xs \<Longrightarrow> filter (\<lambda>x. x \<notin> set (take n xs)) xs = drop n xs"
proof (induction xs arbitrary: n)
  case (Cons x xs)
  show ?case
  proof (cases n)
    case (Suc m)
    have "filter (\<lambda>y. y \<noteq> x \<and> y \<notin> set (take m xs)) xs = filter (\<lambda>y. y \<notin> set (take m xs)) xs"
      using Cons.prems by (intro filter_cong) auto
    with Suc Cons show ?thesis by simp
  qed simp
qed simp

lemma drop_oldest_few: "length (filter (\<lambda>p. P (snd p)) (drop_oldest n P d)) \<le> n" if "dwf d"
proof -
  let ?ks = "map fst (filter (\<lambda>p. P (snd p)) d)"
  let ?old = "take (length ?ks - n) ?ks"
  have "filter (\<lambda>p. P (snd p)) (drop_oldest n P d) = filter (\<lambda>p. fst p \<notin> set ?old) (filter (\<lambda>p. P (snd p)) d)"
    by (simp add: drop_oldest_def Let_def conj_commute)
  also have "map fst \<dots> = filter (\<lambda>k. k \<notin> set ?old) ?ks"
    by (simp add: filter_map comp_def)
  also have "\<dots> = drop (length ?ks - n) ?ks"
    using that by (intro filter_not_taken) (simp add: dwf_def distinct_map_filter)
  finally have "length (filter (\<lambda>p. P (snd p)) (drop_oldest n P d)) = length (drop (length ?ks - n) ?ks)"
    by (metis length_map)
  then show ?thesis by simp
qed

section \<open>One run as a state machine\<close>

text \<open>
  The life of a run: pending, offered (and possibly taken back), running, one of the four final
  states. Every operation of the service moves each run it keeps along this relation.
\<close>

inductive run_move :: "run \<Rightarrow> run \<Rightarrow> bool" where
  cancel: "r_state r = Pending \<or> r_state r = Offered \<Longrightarrow> run_move r (r\<lparr>r_state := Cancelled\<rparr>)"
| revoke: "r_state r = Offered \<Longrightarrow> run_move r (return_pending r)"
| interrupt: "r_state r = Running \<Longrightarrow> run_move r (r\<lparr>r_state := Interrupted, r_owner := [], r_peer := []\<rparr>)"
| grant: "r_state r = Pending \<Longrightarrow> owner \<noteq> [] \<Longrightarrow> peer \<noteq> [] \<Longrightarrow> x \<in> set worker_executors \<Longrightarrow>
    (policy r \<noteq> Some (u ''auto'') \<longrightarrow> policy r = Some x) \<Longrightarrow> run_move r (offer ident owner peer x r)"
| start: "r_state r = Offered \<or> r_state r = Running \<Longrightarrow> run_move r (r\<lparr>r_state := Running\<rparr>)"
| close: "\<not> terminal (r_state r) \<Longrightarrow> terminal s \<Longrightarrow>
    run_move r (r\<lparr>r_state := s, r_outcome := out, r_status := Some code\<rparr>)"

inductive_cases run_moveE: "run_move r r'"

abbreviation run_moves :: "run \<Rightarrow> run \<Rightarrow> bool" where
  "run_moves \<equiv> run_move\<^sup>*\<^sup>*"

lemma return_pending_fields [simp]:
  "r_state (return_pending r) = Pending" "r_policy (return_pending r) = r_policy r"
  "r_owner (return_pending r) = []" "r_peer (return_pending r) = []"
  "ev_run_id (r_event (return_pending r)) = ev_run_id (r_event r)"
  "ev_source (r_event (return_pending r)) = ev_source (r_event r)"
  "ev_generation (r_event (return_pending r)) = ev_generation (r_event r)"
  "run_task_id (return_pending r) = run_task_id r"
  by (simp_all add: return_pending_def Let_def run_task_id_def)

lemma offer_fields [simp]:
  "r_state (offer i w p x r) = Offered" "r_policy (offer i w p x r) = r_policy r"
  "r_owner (offer i w p x r) = w" "r_peer (offer i w p x r) = p" "r_executor (offer i w p x r) = Some x"
  "ev_run_id (r_event (offer i w p x r)) = ev_run_id (r_event r)"
  "ev_source (r_event (offer i w p x r)) = ev_source (r_event r)"
  "ev_generation (r_event (offer i w p x r)) = ev_generation (r_event r)"
  "run_task_id (offer i w p x r) = run_task_id r"
  by (simp_all add: offer_def run_task_id_def)

lemma terminal_simps [simp]:
  "terminal Done" "terminal Errored" "terminal Cancelled" "terminal Interrupted"
  "\<not> terminal Pending" "\<not> terminal Offered" "\<not> terminal Running"
  by (simp_all add: terminal_def)

lemma terminal_not_occupied: "terminal s \<Longrightarrow> s \<noteq> Pending \<and> s \<noteq> Offered \<and> s \<noteq> Running"
  by (auto simp: terminal_def)

lemma outcome_terminal [simp]: "terminal (outcome_state out)"
  by (simp add: outcome_state_def)

lemma return_pending_executor:
  "run_ok k r \<Longrightarrow> occupies r \<Longrightarrow>
     r_executor (return_pending r) = (if policy r = Some (u ''auto'') then None else policy r)"
  by (auto simp: run_ok_def return_pending_def Let_def policy_def split: option.splits)

lemma policy_simps [simp]:
  "r_policy r \<noteq> None \<Longrightarrow> policy r = r_policy r"
  by (auto simp: policy_def)

text \<open>The facts that decide whether a replaced run is still well formed.\<close>

lemmas run_facts = run_ok_def occupies_def live_def weaker_def activation_of_def run_task_id_def

lemma run_move_ok: "run_move r r' \<Longrightarrow> run_ok k r \<Longrightarrow> run_ok k r'"
proof (induction rule: run_move.induct)
  case (cancel r)
  then show ?case by (simp add: run_facts)
next
  case (revoke r)
  then show ?case
    using return_pending_executor [of k r] by (simp add: run_facts) (simp add: return_pending_def Let_def)
next
  case (interrupt r)
  then show ?case by (simp add: run_facts)
next
  case (grant r owner peer x ident)
  then show ?case by (auto simp: run_facts offer_def)
next
  case (start r)
  then show ?case by (auto simp: run_facts)
next
  case (close r s out code)
  then show ?case using terminal_not_occupied [of s] by (simp add: run_facts)
qed

text \<open>Once a run has left the states pending and offered it never comes back to them.\<close>

definition settled :: "run \<Rightarrow> bool" where
  "settled r \<longleftrightarrow> r_state r \<noteq> Pending \<and> r_state r \<noteq> Offered"

definition kept :: "run \<Rightarrow> run \<Rightarrow> bool" where
  "kept r r' \<longleftrightarrow> settled r' \<and> r_event r' = r_event r \<and> r_executor r' = r_executor r \<and> r_policy r' = r_policy r
     \<and> (terminal (r_state r) \<longrightarrow> r' = r)"

lemma run_move_kept: "run_move r r' \<Longrightarrow> settled r \<Longrightarrow> kept r r'"
  by (induction rule: run_move.induct) (auto simp: settled_def kept_def terminal_def)

lemma run_moves_kept: "run_moves r r' \<Longrightarrow> settled r \<Longrightarrow> kept r r'"
proof (induction rule: rtranclp_induct)
  case base
  then show ?case by (simp add: kept_def)
next
  case (step a b)
  then show ?case
    using run_move_kept [of a b] by (cases "terminal (r_state a)") (auto simp: kept_def terminal_def)
qed

lemma run_move_event: "run_move r r' \<Longrightarrow> activation_of r' = activation_of r \<and> ev_run_id (r_event r') = ev_run_id (r_event r)
    \<and> ev_source (r_event r') = ev_source (r_event r) \<and> r_policy r' = r_policy r"
  by (induction rule: run_move.induct) (auto simp: activation_of_def run_task_id_def offer_def return_pending_def Let_def)

text \<open>
  \<open>rs'\<close> comes from \<open>rs\<close>: apart from the identifiers in \<open>ks\<close>, every run it holds was there before and
  has only moved.
\<close>

definition follows :: "str set \<Rightarrow> (str, run) dict \<Rightarrow> (str, run) dict \<Rightarrow> bool" where
  "follows ks rs rs' \<longleftrightarrow>
     (\<forall>k r'. k \<notin> ks \<longrightarrow> dget rs' k = Some r' \<longrightarrow> (\<exists>r. dget rs k = Some r \<and> run_moves r r'))"

lemma follows_refl [simp, intro]: "follows ks rs rs"
  by (auto simp: follows_def)

lemma follows_mono: "follows ks rs rs' \<Longrightarrow> ks \<subseteq> js \<Longrightarrow> follows js rs rs'"
  by (auto simp: follows_def)

lemma follows_trans: "follows ks rs rs' \<Longrightarrow> follows ks rs' rs'' \<Longrightarrow> follows ks rs rs''"
  unfolding follows_def by (meson rtranclp_trans)

lemma follows_put: "dget rs k = Some r \<Longrightarrow> run_move r r' \<Longrightarrow> follows ks rs (dput k r' rs)"
  by (auto simp: follows_def)

section \<open>Reconciling\<close>

lemma reconcile_run_move: "reconcile_run e en r = r \<or> run_move r (reconcile_run e en r)"
  by (auto simp: reconcile_run_def intro: run_move.intros)

lemma reconcile_run_weaker: "weaker r (reconcile_run e en r)"
  by (auto simp: reconcile_run_def weaker_def activation_of_def occupies_def live_def run_task_id_def return_pending_def Let_def)

lemma dget_reconcile:
  assumes "dwf (en_runs en)" and "dget (en_runs (reconcile e en)) k = Some r'"
  shows "\<exists>r. dget (en_runs en) k = Some r \<and> r' = reconcile_run e en r"
  using dget_drop_oldest(1) [of "dmap (reconcile_run e en) (en_runs en)" _ _ k r'] assms
  by (auto simp: reconcile_def)

lemma reconcile_other [simp]:
  "en_sys (reconcile e en) = en_sys en" "en_events (reconcile e en) = en_events en"
  "en_results (reconcile e en) = en_results en" "en_workers (reconcile e en) = en_workers en"
  "en_disk (reconcile e en) = en_disk en" "en_store (reconcile e en) = en_store en"
  by (simp_all add: reconcile_def en_store_def)

lemma reconcile_runs_ok:
  assumes ok: "runs_ok (en_runs en)"
  shows "runs_ok (en_runs (reconcile e en))"
proof (rule runs_ok_weaker [OF ok])
  from ok have wf: "dwf (en_runs en)" by (simp add: runs_ok_def)
  then show "dwf (en_runs (reconcile e en))" by (simp add: reconcile_def)
  show "\<exists>r. dget (en_runs en) k = Some r \<and> run_ok k r' \<and> weaker r r'"
    if "dget (en_runs (reconcile e en)) k = Some r'" for k r'
    using dget_reconcile [OF wf that] runs_okD [OF ok, of k] reconcile_run_weaker reconcile_run_move run_move_ok
    by metis
qed

lemma reconcile_follows:
  assumes "dwf (en_runs en)"
  shows "follows ks (en_runs en) (en_runs (reconcile e en))"
  using dget_reconcile [OF assms] reconcile_run_move
  by (auto simp: follows_def) (metis r_into_rtranclp rtranclp.rtrancl_refl)

lemma dwf_runs: "runs_ok (en_runs en) \<Longrightarrow> dwf (en_runs en)"
  by (simp add: runs_ok_def)

section \<open>Queueing\<close>

lemma dvals_dget: "dget d k = Some v \<Longrightarrow> v \<in> set (dvals d)"
  by (auto simp: dvals_def dest!: dget_Some_in intro: rev_image_eqI)

lemma count_dput_le:
  assumes "dwf rs"
  shows "count_vals P (dput k r rs) \<le> Suc (count_vals P rs)"
proof -
  have "{j. \<exists>s. dget (dput k r rs) j = Some s \<and> P s} \<subseteq> insert k {j. \<exists>s. dget rs j = Some s \<and> P s}"
    by (auto split: if_splits)
  then have "count_vals P (dput k r rs) \<le> card (insert k {j. \<exists>s. dget rs j = Some s \<and> P s})"
    using assms by (simp add: count_vals_card card_mono finite_lookup)
  also have "\<dots> \<le> Suc (count_vals P rs)"
    using assms by (simp add: count_vals_card card_insert_le_m1 card_insert_if finite_lookup)
  finally show ?thesis .
qed

lemma unique_by_dput:
  assumes "unique_by P f rs" and "P r \<Longrightarrow> \<forall>j s. dget rs j = Some s \<longrightarrow> j \<noteq> k \<longrightarrow> P s \<longrightarrow> f s \<noteq> f r"
  shows "unique_by P f (dput k r rs)"
  unfolding unique_by_def
proof (intro allI impI)
  fix i r1 j r2
  assume a: "dget (dput k r rs) i = Some r1" "dget (dput k r rs) j = Some r2" "P r1" "P r2" "f r1 = f r2"
  show "i = j"
  proof (cases "i = k \<or> j = k")
    case True
    with a assms(2) show ?thesis by (simp split: if_splits) metis+
  next
    case False
    with a assms(1) show ?thesis by (auto simp: unique_by_def)
  qed
qed

lemma runs_ok_add:
  assumes ok: "runs_ok rs" and r: "run_ok k r" "\<not> occupies r" and room: "count_vals live rs < max_live_runs"
    and fresh: "from_timer r \<Longrightarrow> \<forall>s \<in> set (dvals rs). live s \<longrightarrow> activation_of s \<noteq> activation_of r"
  shows "runs_ok (dput k r rs)"
proof -
  have "unique_by from_timer activation_of (dput k r rs)"
    using ok fresh by (intro unique_by_dput) (auto simp: runs_ok_def from_timer_def dest: dvals_dget)
  moreover have "unique_by occupies run_task_id (dput k r rs)"
    using ok r(2) by (intro unique_by_dput) (auto simp: runs_ok_def)
  moreover have "count_vals live (dput k r rs) \<le> max_live_runs"
    using room count_dput_le [of rs live k r] ok by (simp add: runs_ok_def)
  moreover have "run_ok j s" if "dget (dput k r rs) j = Some s" for j s
    using that r(1) runs_okD [OF ok, of j s] by (simp split: if_splits)
  ultimately show ?thesis using ok by (auto simp: runs_ok_def)
qed

lemma queue_event_Inr:
  "queue_event ident ev en = (Inr (Some k), en') \<longleftrightarrow>
     k = ident \<and> (\<exists>i t. ev_task_id ev = Some i \<and> get_task (en_store en) i = Some t \<and> t_enabled t
       \<and> t_generation t = ev_generation ev
       \<and> \<not> (ev_source ev = u ''timer'' \<and> list_ex (same_activation t) (dvals (en_runs en)))
       \<and> live_count en < max_live_runs
       \<and> en' = en\<lparr>en_runs := dput ident (new_run ident t ev) (en_runs en)\<rparr>)"
  by (auto simp: queue_event_def split: option.splits if_splits)

lemma queue_event_other:
  "queue_event ident ev en = (v, en') \<Longrightarrow> (\<nexists>k. v = Inr (Some k)) \<Longrightarrow> en' = en"
  by (auto simp: queue_event_def split: option.splits if_splits)

lemma new_run_ok: "ev_task_id ev \<noteq> None \<Longrightarrow> run_ok k (new_run k t ev)"
  by (simp add: run_ok_def new_run_def run_task_id_def occupies_def policy_def)

lemma queue_event_runs_ok:
  assumes "runs_ok (en_runs en)" and "store_ok (en_store en)"
  shows "runs_ok (en_runs (snd (queue_event ident ev en)))"
proof -
  obtain v en' where q: "queue_event ident ev en = (v, en')" by fastforce
  show ?thesis
  proof (cases "\<exists>k. v = Inr (Some k)")
    case False
    then show ?thesis using queue_event_other [OF q] q assms(1) by auto
  next
    case True
    then obtain i t where f: "ev_task_id ev = Some i" "get_task (en_store en) i = Some t"
      "t_generation t = ev_generation ev" "live_count en < max_live_runs"
      "\<not> (ev_source ev = u ''timer'' \<and> list_ex (same_activation t) (dvals (en_runs en)))"
      and en': "en' = en\<lparr>en_runs := dput ident (new_run ident t ev) (en_runs en)\<rparr>"
      using q queue_event_Inr [of ident ev en _ en'] by blast
    have "t_id t = i" using f(2) assms(2) by (auto simp: get_task_def store_ok_def dest: tasks_okD)
    then have "\<forall>s \<in> set (dvals (en_runs en)). live s \<longrightarrow> activation_of s \<noteq> activation_of (new_run ident t ev)"
      if "from_timer (new_run ident t ev)"
      using that f by (auto simp: from_timer_def new_run_def list_ex_iff same_activation_def live_def
          activation_of_def run_task_id_def)
    moreover have "run_ok ident (new_run ident t ev)" using f(1) by (simp add: new_run_ok)
    moreover have "\<not> occupies (new_run ident t ev)" by (simp add: occupies_def new_run_def)
    ultimately have "runs_ok (dput ident (new_run ident t ev) (en_runs en))"
      using assms(1) f(4) by (intro runs_ok_add) (simp_all add: live_count_eq)
    then show ?thesis using q en' by simp
  qed
qed

lemma queue_event_follows: "ident \<in> ks \<Longrightarrow> follows ks (en_runs en) (en_runs (snd (queue_event ident ev en)))"
  by (auto simp: queue_event_def follows_def split: option.splits if_splits)

lemma queue_event_frame:
  "en_sys (snd (queue_event ident ev en)) = en_sys en \<and> en_events (snd (queue_event ident ev en)) = en_events en
   \<and> en_results (snd (queue_event ident ev en)) = en_results en \<and> en_disk (snd (queue_event ident ev en)) = en_disk en
   \<and> en_workers (snd (queue_event ident ev en)) = en_workers en"
  by (simp add: queue_event_def split: option.split)

section \<open>The worker protocol\<close>

lemma set_run_fields [simp]:
  "en_runs (set_run k r en) = dput k r (en_runs en)" "en_sys (set_run k r en) = en_sys en"
  "en_events (set_run k r en) = en_events en" "en_results (set_run k r en) = en_results en"
  "en_disk (set_run k r en) = en_disk en" "en_workers (set_run k r en) = en_workers en"
  by (simp_all add: set_run_def)

lemma find_dget:
  assumes "dwf d" and "find (\<lambda>p. P (snd p)) d = Some (k, r)"
  shows "dget d k = Some r \<and> P r"
proof -
  from assms(2) obtain i where "i < length d" "P (snd (d ! i))" "(k, r) = d ! i"
    by (auto simp: find_Some_iff)
  then have "(k, r) \<in> set d" "P (snd (k, r))" by simp_all
  then show ?thesis using assms(1) by (simp add: dget_iff)
qed

lemma pull_cases:
  assumes wf: "dwf (en_runs en)" and p: "pull e owner peer x seen skip en = (v, en')"
  obtains (same) "en' = en"
    | (granted) k r where "x \<in> set worker_executors" "dget (en_runs en) k = Some r"
        "offerable e en owner peer x skip r" "v = Inr (REvent (r_event (offer (e_uuid e) owner peer x r)))"
        "en' = en\<lparr>en_runs := dput k (offer (e_uuid e) owner peer x r) (en_runs en)\<rparr>"
        "find (\<lambda>p. resend owner peer seen skip (snd p)) (en_runs en) = None"
proof (cases "x \<in> set worker_executors \<and> find (\<lambda>p. resend owner peer seen skip (snd p)) (en_runs en) = None
    \<and> find (\<lambda>p. offerable e en owner peer x skip (snd p)) (en_runs en) \<noteq> None")
  case True
  then obtain k r where f: "find (\<lambda>p. offerable e en owner peer x skip (snd p)) (en_runs en) = Some (k, r)"
    by fastforce
  with find_dget [OF wf f] True p that(2) [of k r] show ?thesis
    by (auto simp: pull_def Let_def)
next
  case False
  with p that(1) show ?thesis
    by (auto simp: pull_def Let_def split: option.splits if_splits prod.splits)
qed

lemma offerable_move:
  "offerable e en owner peer x skip r \<Longrightarrow> x \<in> set worker_executors \<Longrightarrow> owner \<noteq> [] \<Longrightarrow> peer \<noteq> [] \<Longrightarrow>
     run_move r (offer ident owner peer x r)"
  by (rule grant) (auto simp: offerable_def Let_def split: if_splits)

lemma pull_runs_ok:
  assumes ok: "runs_ok (en_runs en)" and who: "owner \<noteq> []" "peer \<noteq> []"
  shows "runs_ok (en_runs (snd (pull e owner peer x seen skip en)))"
proof -
  obtain v en' where p: "pull e owner peer x seen skip en = (v, en')" by fastforce
  from dwf_runs [OF ok] p show ?thesis
  proof (cases rule: pull_cases)
    case same
    with p ok show ?thesis by simp
  next
    case (granted k r)
    let ?r = "offer (e_uuid e) owner peer x r"
    have ok': "run_ok k ?r"
      using run_move_ok [OF offerable_move [OF granted(3,1) who]] runs_okD [OF ok granted(2)] by blast
    have pend: "r_state r = Pending" and free: "run_task_id r \<notin> set (occupied en)"
      using granted(3) by (simp_all add: offerable_def)
    have others: "run_task_id s \<noteq> run_task_id r" if "dget (en_runs en) j = Some s" "occupies s" for j s
    proof -
      have "run_task_id s \<in> set (occupied en)"
        using that(2) dvals_dget [OF that(1)] by (simp add: occupied_def)
      then show ?thesis using free by metis
    qed
    have "unique_by occupies run_task_id (dput k ?r (en_runs en))"
      using ok others by (intro unique_by_dput) (auto simp: runs_ok_def)
    moreover have "unique_by from_timer activation_of (dput k ?r (en_runs en))"
      using ok granted(2) pend unfolding runs_ok_def
      by (elim conjE, elim unique_by_mono)
        (auto simp: from_timer_def live_def activation_of_def split: if_splits)
    moreover have "count_vals live (dput k ?r (en_runs en)) \<le> count_vals live (en_runs en)"
      using dwf_runs [OF ok] granted(2) pend
      by (auto simp: count_vals_card live_def intro!: card_mono finite_lookup split: if_splits)
    moreover have "run_ok j s" if "dget (dput k ?r (en_runs en)) j = Some s" for j s
      using that ok' runs_okD [OF ok, of j s] by (simp split: if_splits)
    ultimately show ?thesis
      using p ok granted(5) by (auto simp: runs_ok_def)
  qed
qed

lemma pull_follows:
  assumes "dwf (en_runs en)" and "owner \<noteq> []" "peer \<noteq> []"
  shows "follows ks (en_runs en) (en_runs (snd (pull e owner peer x seen skip en)))"
proof -
  obtain v en' where p: "pull e owner peer x seen skip en = (v, en')" by fastforce
  from assms(1) p show ?thesis
    by (cases rule: pull_cases) (auto simp: p intro!: follows_put offerable_move assms)
qed

lemma addressed_Some:
  "addressed owner peer k off en = Some r \<longleftrightarrow>
     dget (en_runs en) k = Some r \<and> r_owner r = owner \<and> r_peer r = peer \<and> ev_offer_id (r_event r) = off"
  by (auto simp: addressed_def split: option.splits)

lemma begin_run_move:
  "snd (begin_run k r en) = en \<or> (\<exists>r'. run_move r r' \<and> weaker r r' \<and> snd (begin_run k r en) = set_run k r' en)"
  by (auto simp: begin_run_def weaker_def activation_of_def run_task_id_def occupies_def live_def intro!: run_move.intros)

lemma finish_run_move:
  "snd (finish_run k r out given en) = en
   \<or> (\<exists>r'. run_move r r' \<and> weaker r r' \<and> snd (finish_run k r out given en) = set_run k r' en)"
proof (cases "terminal (r_state r) \<or> (\<exists>e. status_code out given = Inl e)")
  case True
  then show ?thesis by (auto simp: finish_run_def)
next
  case False
  then obtain code where c: "status_code out given = Inr code" by (cases "status_code out given") auto
  show ?thesis
  proof (cases "r_state r = Offered \<and> current en r")
    case True
    then show ?thesis
      using c by (auto simp: finish_run_def weaker_def activation_of_def occupies_def live_def intro!: run_move.intros)
  next
    case ended: False
    let ?r = "r\<lparr>r_state := outcome_state out, r_outcome := out, r_status := Some code\<rparr>"
    have "run_move r ?r" using False by (intro run_move.close) auto
    moreover have "weaker r ?r"
      using terminal_not_occupied [OF outcome_terminal, of out]
      by (simp add: weaker_def activation_of_def run_task_id_def occupies_def live_def)
    ultimately show ?thesis using False c ended by (auto simp: finish_run_def)
  qed
qed

lemma set_run_ok:
  "runs_ok (en_runs en) \<Longrightarrow> dget (en_runs en) k = Some r \<Longrightarrow> run_move r r' \<Longrightarrow> weaker r r' \<Longrightarrow>
     runs_ok (en_runs (set_run k r' en))"
  by (auto intro!: runs_ok_put dest: runs_okD run_move_ok)

end
