(* ===== verification/EngineInv.thy ===== *)
theory EngineInv
  imports EngineRuns
begin

text \<open>
  The invariant of the whole shared service, kept by every call and every clock tick: registry,
  timers and bindings are well formed and in step, the queue of runs satisfies its rules, and the
  stored query results are the ones promised to the readers.
\<close>

section \<open>The limit of the registry never changes\<close>

definition sys_max :: "sys_runtime \<Rightarrow> int option" where
  "sys_max s = map_option ts_max (sr_store s)"

lemma sys_max_with_store: "(\<And>st. ts_max (snd (f st)) = ts_max st) \<Longrightarrow> sys_max (snd (with_store s f)) = sys_max s"
  by (simp add: with_store_def sys_max_def split: option.split prod.split sum.split) (metis snd_conv)

lemma sys_max_then:
  "sys_max (snd r) = m \<Longrightarrow> (\<And>v s. sys_max (snd (k v s)) = sys_max s) \<Longrightarrow> sys_max (snd (then_do r k)) = m"
  by (simp add: then_do_def split: prod.split sum.split) (metis snd_conv)

lemma sys_max_simps [simp]:
  "sys_max (s\<lparr>sr_task_timers := d\<rparr>) = sys_max s" "sys_max (s\<lparr>sr_timers := d'\<rparr>) = sys_max s"
  "sys_max (put_timer i p on nxt s) = sys_max s"
  by (simp_all add: sys_max_def put_timer_def)

lemma sys_max_poll [simp]: "sys_max (snd (poll_due now busy s)) = sys_max s"
  by (simp add: poll_due_def split: prod.split)

text \<open>An operation of the runtime that the service may use.\<close>

definition keeps :: "(sys_runtime \<Rightarrow> 'a \<times> sys_runtime) \<Rightarrow> bool" where
  "keeps f \<longleftrightarrow> (\<forall>s. sys_ok s \<longrightarrow> sys_ok (snd (f s)) \<and> sys_max (snd (f s)) = sys_max s)"

lemma keepsI: "(\<And>s. sys_ok s \<Longrightarrow> sys_ok (snd (f s))) \<Longrightarrow> (\<And>s. sys_max (snd (f s)) = sys_max s) \<Longrightarrow> keeps f"
  by (simp add: keeps_def)

named_theorems kept_ops \<open>the runtime operations the service uses keep the invariant\<close>

lemma keeps_require [kept_ops]: "keeps (\<lambda>s. with_store s (\<lambda>st. (require_task st i, st)))"
proof (rule keepsI)
  show "sys_ok (snd (with_store s (\<lambda>st. (require_task st i, st))))" if "sys_ok s" for s
    using that by (auto simp: with_store_def elim!: sys_okE intro!: sys_okI split: sum.split)
qed (rule sys_max_with_store, simp)

lemma keeps_start [kept_ops]: "keeps (start_task m now g i pr)"
  by (rule keepsI, erule start_task_ok)
    (auto simp: start_task_def intro!: sys_max_then sys_max_with_store split: option.split)

lemma keeps_stop [kept_ops]: "keeps (stop_task m g i pr)"
  by (rule keepsI, erule stop_task_ok)
    (auto simp: stop_task_def intro!: sys_max_then sys_max_with_store split: option.split)

lemma keeps_period [kept_ops]: "keeps (set_task_period m now g i p)"
proof (rule keepsI, erule set_task_period_ok)
  have "sys_max (snd (with_store s (\<lambda>st. (require_task st i, st)))) = sys_max s" for s
    by (rule sys_max_with_store) simp
  then show "sys_max (snd (set_task_period m now g i p s)) = sys_max s" for s
    by (auto simp: set_task_period_def intro!: sys_max_then sys_max_with_store split: option.split)
qed

lemma keeps_delete [kept_ops]: "keeps (sys_delete_task m i)"
  by (rule keepsI, erule sys_delete_task_ok) (auto simp: sys_delete_task_def intro!: sys_max_then sys_max_with_store)

lemma keeps_create [kept_ops]: "keeps (sys_create_task m g d x sk e)"
  by (rule keepsI, erule sys_create_task_ok) (auto simp: sys_create_task_def intro!: sys_max_with_store)

lemma keeps_periodic [kept_ops]: "keeps (create_periodic_task m now g d x sk p me e a)"
  by (rule keepsI, erule create_periodic_task_ok)
    (auto simp: create_periodic_task_def intro!: sys_max_then sys_max_with_store split: option.split)

lemma keeps_poll [kept_ops]: "keeps (poll_due now busy)"
  by (rule keepsI, erule poll_due_ok) simp

lemma keeps_executor [kept_ops]: "keeps (\<lambda>s. with_store s (set_executor m g i x))"
proof (rule keepsI)
  fix s
  assume sys: "sys_ok s"
  then obtain st where st: "sr_store s = Some st" and ok: "store_ok st" "timers_ok (sr_timers s)"
      "timers_ok (sr_task_timers s)" and sync: "in_sync st (sr_task_timers s)" by (rule sys_okE)
  obtain r st' where r: "set_executor m g i x st = (r, st')" by fastforce
  note w = with_store_Some [OF st, of "set_executor m g i x", OF r]
  have ok': "store_ok st'" using ops_ok(4) [OF ok(1), of m g i x] r by simp
  show "sys_ok (snd (with_store s (set_executor m g i x)))"
  proof (cases r)
    case (Inl e)
    then show ?thesis using set_executor_Inl [of m g i x st e st'] r st sys ok' by (simp add: w sys_ok_failed)
  next
    case (Inr t)
    obtain cur where c: "get_task st i = Some cur" and t: "t = cur\<lparr>t_executor := x, t_generation := g\<rparr>"
      and sv: "save_tasks m (st\<lparr>ts_tasks := dput i t (ts_tasks st)\<rparr>) = Some st'"
      using set_executor_Inr [of m g i x st t st'] r Inr ok(1) by blast
    have "want_timer (get_task st' j) = want_timer (get_task st j)" for j
      using get_task_put [OF sv] c t by (simp add: want_timer_def)
    then show ?thesis using Inr ok ok' sync by (auto simp: w in_sync_def intro!: sys_okI)
  qed
qed (rule sys_max_with_store, simp)

text \<open>Creation with its timer, as the service does it, and without a period.\<close>

lemma keeps_create_timer [kept_ops]:
  "keeps (\<lambda>s. then_do (with_store s (create_task m g a))
     (\<lambda>t s'. (Inr t, case t_period t of None \<Rightarrow> s'
        | Some p \<Rightarrow> s'\<lparr>sr_task_timers := dput (t_id t)
            (new_timer (t_id t) p [] (t_enabled t) (if t_enabled t then Some (now + p) else None))
            (sr_task_timers s')\<rparr>)))"
proof (rule keepsI)
  fix s
  assume sys: "sys_ok s"
  then obtain st where st: "sr_store s = Some st" and ok: "store_ok st" "timers_ok (sr_timers s)"
      "timers_ok (sr_task_timers s)" and sync: "in_sync st (sr_task_timers s)" by (rule sys_okE)
  obtain r st' where r: "create_task m g a st = (r, st')" by fastforce
  note w = with_store_Some [OF st, of "create_task m g a", OF r]
  let ?f = "\<lambda>t s'. (Inr t, case t_period t of None \<Rightarrow> s'
        | Some p \<Rightarrow> s'\<lparr>sr_task_timers := dput (t_id t)
            (new_timer (t_id t) p [] (t_enabled t) (if t_enabled t then Some (now + p) else None))
            (sr_task_timers s')\<rparr>)"
  from sys st r show "sys_ok (snd (then_do (with_store s (create_task m g a)) ?f))"
  proof (cases rule: store_create)
    case (1 e)
    with sys st show ?thesis by (simp add: w sys_ok_failed)
  next
    case (2 t)
    show ?thesis
    proof (cases "t_period t")
      case None
      with 2 ok sync show ?thesis by (auto simp: w in_sync_def intro!: sys_okI)
    next
      case (Some p)
      then have "0 < p" using 2(7) by (simp add: task_ok_def)
      with Some 2 ok sync show ?thesis
        by (auto simp: w in_sync_def new_timer_def intro!: sys_okI timers_ok_dput) (simp_all add: timer_ok_def)
    qed
  qed
qed (auto intro!: sys_max_then sys_max_with_store split: option.split)

lemma keeps_create_plain [kept_ops]:
  assumes "a_period a = None"
  shows "keeps (\<lambda>s. with_store s (create_task m g a))"
proof (rule keepsI)
  fix s
  assume sys: "sys_ok s"
  then obtain st where st: "sr_store s = Some st" and ok: "store_ok st" "timers_ok (sr_timers s)"
      "timers_ok (sr_task_timers s)" and sync: "in_sync st (sr_task_timers s)" by (rule sys_okE)
  obtain r st' where r: "create_task m g a st = (r, st')" by fastforce
  note w = with_store_Some [OF st, of "create_task m g a", OF r]
  from sys st r show "sys_ok (snd (with_store s (create_task m g a)))"
  proof (cases rule: store_create)
    case (1 e)
    with sys st show ?thesis by (simp add: w sys_ok_failed)
  next
    case (2 t)
    then have "t_period t = None" using assms by (simp add: valid_period_def)
    with 2 ok sync show ?thesis by (auto simp: w in_sync_def intro!: sys_okI)
  qed
qed (rule sys_max_with_store, simp)

section \<open>The invariant\<close>

definition result_ok :: "str \<Rightarrow> query_result \<Rightarrow> bool" where
  "result_ok k q \<longleftrightarrow> p_run_id (q_payload q) = k \<and> p_agent_id (q_payload q) \<noteq> [] \<and> strip (p_text (q_payload q)) \<noteq> []
     \<and> length (p_text (q_payload q)) \<le> max_query_text \<and> \<not> has_surrogate (p_text (q_payload q))"

definition unacked :: "query_result \<Rightarrow> bool" where
  "unacked q \<longleftrightarrow> \<not> q_acked q"

definition results_ok :: "(str, query_result) dict \<Rightarrow> bool" where
  "results_ok d \<longleftrightarrow> dwf d \<and> (\<forall>k q. dget d k = Some q \<longrightarrow> result_ok k q) \<and> count_vals unacked d \<le> max_pending_results"

definition engine_ok :: "engine \<Rightarrow> bool" where
  "engine_ok en \<longleftrightarrow> sys_ok (en_sys en) \<and> sys_max (en_sys en) = Some 5 \<and> events_ok (en_events en)
     \<and> runs_ok (en_runs en) \<and> results_ok (en_results en)"

lemma engine_okD:
  assumes "engine_ok en"
  shows "sys_ok (en_sys en)" "sys_max (en_sys en) = Some 5" "events_ok (en_events en)" "runs_ok (en_runs en)"
    "results_ok (en_results en)" "dwf (en_runs en)" "dwf (en_results en)"
    "sr_store (en_sys en) = Some (en_store en)" "store_ok (en_store en)" "ts_max (en_store en) = 5"
    "timers_ok (sr_timers (en_sys en))" "timers_ok (sr_task_timers (en_sys en))"
    "in_sync (en_store en) (sr_task_timers (en_sys en))"
  using assms by (auto simp: engine_ok_def runs_ok_def results_ok_def sys_max_def en_store_def elim!: sys_okE)

text \<open>
  What an operation may do to the engine: keep the invariant and the saved row, and move runs
  along their life; only the identifiers in \<open>ks\<close> may be new.
\<close>

definition reaches :: "str set \<Rightarrow> engine \<Rightarrow> engine \<Rightarrow> bool" where
  "reaches ks en en' \<longleftrightarrow> engine_ok en' \<and> en_disk en' = en_disk en \<and> follows ks (en_runs en) (en_runs en')"

lemma reaches_refl: "engine_ok en \<Longrightarrow> reaches ks en en"
  by (simp add: reaches_def)

lemma reaches_mono: "reaches ks en en' \<Longrightarrow> ks \<subseteq> js \<Longrightarrow> reaches js en en'"
  by (auto simp: reaches_def intro: follows_mono)

lemma reaches_trans: "reaches ks en en' \<Longrightarrow> reaches ks en' en'' \<Longrightarrow> reaches ks en en''"
  by (auto simp: reaches_def intro: follows_trans)

named_theorems reaching \<open>the operations of the service reach well-formed states\<close>

lemma then_do_inv:
  "P (snd r) \<Longrightarrow> (\<And>v s. P s \<Longrightarrow> P (snd (k v s))) \<Longrightarrow> P (snd (then_do r k))"
  by (auto simp: then_do_def split: prod.split sum.split)

lemma replying_snd [simp]: "snd (replying f r) = snd r"
  by (simp add: replying_def then_do_def split: prod.split sum.split)

text \<open>A following step is asked to keep \<open>reaches\<close> from wherever it starts.\<close>

lemma reaches_then:
  "reaches ks en (snd r) \<Longrightarrow> (\<And>v s. engine_ok s \<Longrightarrow> reaches ks s (snd (k v s))) \<Longrightarrow> reaches ks en (snd (then_do r k))"
  by (rule then_do_inv, assumption) (meson reaches_def reaches_trans)

lemma on_sys_reaches [reaching]: "engine_ok en \<Longrightarrow> keeps f \<Longrightarrow> reaches ks en (snd (on_sys f en))"
  by (simp add: on_sys_def reaches_def engine_ok_def keeps_def split: prod.split sum.split) (metis snd_conv)

lemma on_events_reaches [reaching]:
  "engine_ok en \<Longrightarrow> (\<And>st. events_ok st \<Longrightarrow> events_ok (snd (f st))) \<Longrightarrow> reaches ks en (snd (on_events f en))"
  by (simp add: on_events_def reaches_def engine_ok_def split: prod.split sum.split) (metis snd_conv)

lemma reconcile_reaches [reaching]: "engine_ok en \<Longrightarrow> reaches ks en (reconcile e en)"
  by (simp add: reaches_def engine_ok_def reconcile_runs_ok reconcile_follows dwf_runs)

lemma queue_reaches [reaching]:
  "engine_ok en \<Longrightarrow> ident \<in> ks \<Longrightarrow> reaches ks en (snd (queue_event ident ev en))"
  using queue_event_runs_ok [of en ident ev] queue_event_follows [of ident ks en ev] queue_event_frame [of ident ev en]
  by (simp add: reaches_def) (simp add: engine_ok_def engine_okD(9) [unfolded engine_ok_def])

section \<open>Query results\<close>

lemma unacked_count_eq: "unacked_count en = count_vals unacked (en_results en)"
  by (simp add: unacked_count_def count_vals_def unacked_def [abs_def])

lemma check_payload_ok: "check_payload k j = Inr p \<Longrightarrow> result_ok k \<lparr>q_owner = w, q_peer = pe, q_offer = off, q_payload = p, q_acked = a\<rparr>"
  by (auto simp: check_payload_def result_ok_def split: json.splits prod.splits if_splits)

lemma results_ok_dput:
  assumes "results_ok d" and "result_ok k q"
    and "unacked q \<Longrightarrow> (\<exists>q'. dget d k = Some q' \<and> unacked q') \<or> count_vals unacked d < max_pending_results"
  shows "results_ok (dput k q d)"
proof -
  have wf: "dwf d" using assms(1) by (simp add: results_ok_def)
  have "count_vals unacked (dput k q d) \<le> max_pending_results"
  proof (cases "unacked q \<longrightarrow> (\<exists>q'. dget d k = Some q' \<and> unacked q')")
    case True
    have "count_vals unacked (dput k q d) \<le> count_vals unacked d"
      using wf True by (auto simp: count_vals_card intro!: card_mono finite_lookup split: if_splits)
    then show ?thesis using assms(1) by (simp add: results_ok_def)
  next
    case False
    then show ?thesis using assms(3) count_dput_le [OF wf, of unacked k q] by fastforce
  qed
  then show ?thesis using assms by (simp add: results_ok_def split: if_splits)
qed

lemma results_ok_drop: "results_ok d \<Longrightarrow> results_ok (drop_oldest n P d)"
proof -
  assume ok: "results_ok d"
  then have wf: "dwf d" by (simp add: results_ok_def)
  note kept_old = dget_drop_oldest(1) [OF wf, of n P]
  have "count_vals unacked (drop_oldest n P d) \<le> count_vals unacked d"
    using wf kept_old by (auto simp: count_vals_card intro!: card_mono finite_lookup)
  then show ?thesis using ok kept_old by (auto simp: results_ok_def)
qed

lemma publish_effect:
  "snd (publish_result owner peer run off result en) = en
   \<or> (\<exists>k p ident. run = JStr k \<and> off = JStr ident \<and> check_payload k result = Inr p \<and> dget (en_results en) k = None
        \<and> unacked_count en < max_pending_results
        \<and> publish_result owner peer run off result en = (Inr (RBool True), en\<lparr>en_results := dput k
            \<lparr>q_owner = owner, q_peer = peer, q_offer = ident, q_payload = p, q_acked = False\<rparr> (en_results en)\<rparr>))"
  by (auto simp: publish_result_def split: json.splits sum.splits option.splits if_splits)

lemma publish_reaches [reaching]:
  assumes ok: "engine_ok en"
  shows "reaches ks en (snd (publish_result owner peer run off result en))"
proof (cases "snd (publish_result owner peer run off result en) = en")
  case True
  with ok show ?thesis by (simp add: reaches_refl)
next
  case False
  then obtain k p ident where new: "check_payload k result = Inr p" "unacked_count en < max_pending_results"
      "publish_result owner peer run off result en = (Inr (RBool True), en\<lparr>en_results := dput k
         \<lparr>q_owner = owner, q_peer = peer, q_offer = ident, q_payload = p, q_acked = False\<rparr> (en_results en)\<rparr>)"
    using publish_effect [of owner peer run off result en] by blast
  then have "results_ok (dput k \<lparr>q_owner = owner, q_peer = peer, q_offer = ident, q_payload = p, q_acked = False\<rparr> (en_results en))"
    using engine_okD(5) [OF ok] check_payload_ok [OF new(1)]
    by (intro results_ok_dput) (simp_all add: unacked_count_eq)
  with ok new show ?thesis by (simp add: reaches_def engine_ok_def)
qed

lemma ack_reaches [reaching]:
  assumes ok: "engine_ok en"
  shows "reaches ks en (snd (ack_notification arg en))"
proof (cases "\<exists>k q. arg = JStr k \<and> dget (en_results en) k = Some q")
  case True
  then obtain k q where a: "arg = JStr k" "dget (en_results en) k = Some q" by blast
  have "result_ok k (q\<lparr>q_acked := True\<rparr>)"
    using engine_okD(5) [OF ok] a(2) by (auto simp: results_ok_def result_ok_def)
  then have "results_ok (drop_oldest max_acked_results q_acked (dput k (q\<lparr>q_acked := True\<rparr>) (en_results en)))"
    using engine_okD(5) [OF ok] by (intro results_ok_drop results_ok_dput) (simp_all add: unacked_def)
  with ok a show ?thesis by (simp add: ack_notification_def prune_results_def reaches_def engine_ok_def)
next
  case False
  then have "snd (ack_notification arg en) = en"
    by (auto simp: ack_notification_def split: json.splits option.splits)
  with ok show ?thesis by (simp add: reaches_refl)
qed

section \<open>Calls of a worker\<close>

lemma heartbeat_reaches [reaching]: "engine_ok en \<Longrightarrow> reaches ks en (snd (heartbeat e owner peer x ready reason en))"
  by (auto simp: heartbeat_def Let_def reaches_def engine_ok_def split: json.split)

lemma offline_reaches [reaching]: "engine_ok en \<Longrightarrow> reaches ks en (offline e owner peer en)"
proof -
  assume ok: "engine_ok en"
  let ?en = "case dget (en_workers en) (owner, peer) of None \<Rightarrow> en
        | Some w \<Rightarrow> en\<lparr>en_workers := dput (owner, peer)
            (w\<lparr>w_ready := False, w_reason := u ''stopping'', w_last_seen := e_now e - lease_seconds\<rparr>) (en_workers en)\<rparr>"
  have "engine_ok ?en" "en_runs ?en = en_runs en" "en_disk ?en = en_disk en"
    using ok by (auto simp: engine_ok_def split: option.split)
  then show ?thesis
    using reconcile_reaches [of ?en ks e] by (simp add: offline_def reaches_def)
qed

lemma pull_reaches [reaching]:
  assumes ok: "engine_ok en" and who: "owner \<noteq> []" "peer \<noteq> []"
  shows "reaches ks en (snd (pull e owner peer x seen skip en))"
proof -
  obtain v en' where p: "pull e owner peer x seen skip en = (v, en')" by fastforce
  have "runs_ok (en_runs en')" "follows ks (en_runs en) (en_runs en')"
    using pull_runs_ok [OF engine_okD(4) [OF ok] who, of e x seen skip]
      pull_follows [OF engine_okD(6) [OF ok] who, of ks e x seen skip] p by simp_all
  moreover have "en_sys en' = en_sys en \<and> en_events en' = en_events en \<and> en_results en' = en_results en
      \<and> en_disk en' = en_disk en"
    using engine_okD(6) [OF ok] p by (cases rule: pull_cases) simp_all
  ultimately show ?thesis using p ok by (simp add: reaches_def engine_ok_def)
qed

lemma set_run_reaches:
  "engine_ok en \<Longrightarrow> dget (en_runs en) k = Some r \<Longrightarrow> run_move r r' \<Longrightarrow> weaker r r' \<Longrightarrow> reaches ks en (set_run k r' en)"
  using set_run_ok [of en k r r'] follows_put [of "en_runs en" k r r' ks]
  by (simp add: reaches_def engine_ok_def)

lemma begin_reaches [reaching]:
  "engine_ok en \<Longrightarrow> dget (en_runs en) k = Some r \<Longrightarrow> reaches ks en (snd (begin_run k r en))"
  using begin_run_move [of k r en] by (auto intro: reaches_refl set_run_reaches)

lemma finish_reaches [reaching]:
  "engine_ok en \<Longrightarrow> dget (en_runs en) k = Some r \<Longrightarrow> reaches ks en (snd (finish_run k r out given en))"
  using finish_run_move [of k r out given en] by (auto intro: reaches_refl set_run_reaches)

lemma worker_reaches [reaching]:
  assumes ok: "engine_ok en"
  shows "reaches ks en (snd (worker_call e owner peer req en))"
proof (cases "peer = [] \<or> owner = []")
  case True
  then show ?thesis using ok by (simp add: worker_call_def reaches_refl)
next
  case False
  let ?en = "reconcile e en"
  have r: "reaches ks en ?en" and ok': "engine_ok ?en" using ok reconcile_reaches reaches_def by blast+
  have b: "reaches ks ?en en'" if "dget (en_runs ?en) k = Some x" "begin_run k x ?en = (v, en')" for k x v en'
    using begin_reaches [OF ok' that(1), of ks] that(2) by simp
  have "reaches ks ?en (snd (worker_call e owner peer req en))"
    using False ok'
    by (cases req)
      (auto simp: worker_call_def Let_def addressed_Some split: option.split prod.split
        intro: reaching reaches_refl b)
  with r show ?thesis by (rule reaches_trans)
qed

end
