(* ===== verification/Registries.thy ===== *)
theory Registries
  imports Events
begin

text \<open>
  The two registries as a whole: the round trip of the event file, sequences of operations on the
  event registry, and the properties of both stores.
\<close>

section \<open>Dictionaries rebuilt from a sorted listing\<close>

lemma foldl_dput_distinct:
  "distinct (map f vs) \<Longrightarrow> set (dkeys d) \<inter> f ` set vs = {} \<Longrightarrow>
     foldl (\<lambda>d v. dput (f v) v d) d vs = d @ map (\<lambda>v. (f v, v)) vs"
proof (induction vs arbitrary: d)
  case (Cons v vs)
  have "dput (f v) v d = d @ [(f v, v)]" using Cons.prems by (intro dput_new) auto
  then show ?case using Cons.IH [of "d @ [(f v, v)]"] Cons.prems by (auto simp: dkeys_def)
qed simp

text \<open>A listing sorted by key depends on the look-ups only.\<close>

lemma sorted_keys_cong:
  fixes a b :: "('k::linorder, 'v) dict"
  shows "dget a = dget b \<Longrightarrow> dwf a \<Longrightarrow> dwf b \<Longrightarrow> sort (dkeys a) = sort (dkeys b)"
proof (rule sorted_distinct_set_unique)
  assume e: "dget a = dget b" and wf: "dwf a" "dwf b"
  have "k \<in> set (dkeys d) \<longleftrightarrow> dget d k \<noteq> None" for k and d :: "('k, 'v) dict"
    using dget_None_iff [of d k] by simp
  then show "set (sort (dkeys a)) = set (sort (dkeys b))" using e by auto
  show "distinct (sort (dkeys a))" "distinct (sort (dkeys b))"
    using wf by (simp_all add: dwf_def dkeys_def)
qed simp_all

lemma dget_tabulate: "dget (map (\<lambda>k. (k, g k)) ks) n = (if n \<in> set ks then Some (g n) else None)"
  by (induction ks) auto

lemma list_bindings_names:
  assumes "events_ok es"
  shows "map b_name (list_bindings es) = sort (dkeys (es_bindings es))"
proof -
  have "b_name (the (dget (es_bindings es) k)) = k" if "k \<in> set (dkeys (es_bindings es))" for k
    using that assms dget_None_iff [of "es_bindings es" k] by (auto simp: events_ok_def)
  then show ?thesis by (auto simp: list_bindings_def comp_def intro!: map_idI)
qed

lemma bindings_rebuilt:
  fixes es :: event_store
  assumes ok: "events_ok es"
  defines "d \<equiv> foldl (\<lambda>d b. dput (b_name b) b d) [] (list_bindings es)"
  shows "dget d = dget (es_bindings es)" and "dwf d"
proof -
  have dist: "distinct (map b_name (list_bindings es))"
    using ok by (simp add: list_bindings_names) (simp add: events_ok_def dwf_def dkeys_def)
  then have k: "d = map (\<lambda>b. (b_name b, b)) (list_bindings es)"
    by (simp add: d_def foldl_dput_distinct dkeys_def)
  also have "\<dots> = map (\<lambda>n. (n, the (dget (es_bindings es) n))) (sort (dkeys (es_bindings es)))"
  proof -
    have "b_name (the (dget (es_bindings es) n)) = n" if "n \<in> set (dkeys (es_bindings es))" for n
      using that ok dget_None_iff [of "es_bindings es" n] by (auto simp: events_ok_def)
    then show ?thesis by (simp add: list_bindings_def)
  qed
  finally have eq: "d = map (\<lambda>n. (n, the (dget (es_bindings es) n))) (sort (dkeys (es_bindings es)))" .
  show "dwf d" using dist k by (simp add: dwf_def comp_def)
  show "dget d = dget (es_bindings es)"
  proof
    fix n
    show "dget d n = dget (es_bindings es) n"
      unfolding eq dget_tabulate using dget_None_iff [of "es_bindings es" n]
      by (cases "dget (es_bindings es) n") simp_all
  qed
qed

section \<open>The event file\<close>

lemma dget_append: "dget (a @ b) k = (case dget a k of None \<Rightarrow> dget b k | Some v \<Rightarrow> Some v)"
  by (auto simp: dget_def map_add_def split: option.splits)

lemma dget_opt_field: "dget (opt_field k s) j = (if s \<noteq> [] \<and> j = u k then Some (JStr s) else None)"
  by (simp add: opt_field_def)

lemma binding_items:
  fixes b :: binding
  defines "item \<equiv> [(u ''source'', JStr (b_source b)), (u ''task_id'', JInt (b_task b)),
       (u ''description'', JStr (b_description b))]
      @ opt_field ''topic'' (b_topic b) @ opt_field ''field'' (b_field b)
      @ opt_field ''value_type'' (b_value_type b)
      @ (if b_values b = [] then [] else [(u ''values'', JList (map JStr (b_values b)))])
      @ opt_field ''command'' (b_command b)"
  shows "jitem item ''source'' = Inr (JStr (b_source b))" "jitem item ''task_id'' = Inr (JInt (b_task b))"
    "jitem item ''description'' = Inr (JStr (b_description b))"
    "jget item ''topic'' (JStr []) = JStr (b_topic b)" "jget item ''field'' (JStr []) = JStr (b_field b)"
    "jget item ''value_type'' (JStr []) = JStr (b_value_type b)" "jget item ''command'' (JStr []) = JStr (b_command b)"
    "jget item ''values'' (JList []) = JList (map JStr (b_values b))"
  unfolding item_def jitem_def jget_def
  by (simp_all add: dget_append dget_opt_field)

lemma load_binding_json:
  assumes "binding_ok b"
  shows "load_binding rp (b_name b) (binding_json b) = Inr b"
proof -
  have v: "validated_binding (b_name b) (b_source b) (b_task b) (b_description b) (b_topic b) (b_field b)
      (b_value_type b) (b_values b) (b_command b) = Inr b"
    using assms by (cases b) (auto simp: validated_binding_def Let_def binding_ok_def event_name_ok_def)
  have "map (py_str rp \<circ> JStr) vs = vs" for vs by (simp add: comp_def)
  then show ?thesis
    using v by (simp add: load_binding_def binding_json_def binding_items [of b, simplified] load_values_def event_exc_def)
qed

lemma load_bindings_json:
  assumes "\<And>b. b \<in> set bs \<Longrightarrow> binding_ok b"
  shows "load_bindings rp (map (\<lambda>b. (b_name b, binding_json b)) bs) acc = Inr (foldl (\<lambda>d b. dput (b_name b) b d) acc bs)"
  using assms by (induction bs arbitrary: acc) (simp_all add: load_binding_json)

section \<open>Sequences of operations on the event registry\<close>

datatype event_op =
    OpRegister save_mode int str binding_args
  | OpUnregister save_mode int
  | OpReloadEvents

fun event_step :: "(json \<Rightarrow> str) \<Rightarrow> event_store \<Rightarrow> event_op \<Rightarrow> event_store" where
  "event_step rp st (OpRegister m i d a) = snd (register m i d a st)"
| "event_step rp st (OpUnregister m i) = snd (unregister_task m i st)"
| "event_step rp st OpReloadEvents = snd (reload_events rp st)"

interpretation event_runs: stepper "event_step rp" "\<lambda>_ _. True" events_ok
proof
  fix s i
  assume "events_ok s"
  then show "events_ok (event_step rp s i)"
    by (cases i) (auto intro: wf_intros)
qed

section \<open>Properties of the task registry\<close>

text \<open>Creating a task gives it the least free identifier of the range, stores exactly the
  normalised arguments under it and leaves every other task alone.\<close>

theorem create_takes_least_free_id:
  assumes "create_task m gen a st = (Inr t, st')"
  shows "1 \<le> t_id t \<and> t_id t \<le> ts_max st \<and> get_task st (t_id t) = None
    \<and> (\<forall>j \<in> {1..<t_id t}. get_task st j \<noteq> None)
    \<and> get_task st' = (get_task st)(t_id t \<mapsto> t)
    \<and> t_description t = strip (a_description a) \<and> t_text t = strip (a_text a)
    \<and> t_method t = lower (strip (a_method a)) \<and> t_skills t = map strip (a_skills a)
    \<and> t_enabled t = a_enabled a \<and> t_executor t = a_executor a \<and> t_generation t = gen"
proof -
  note f = create_task_Inr [OF assms]
  have "get_task st' = (get_task st)(t_id t \<mapsto> t)"
    using save_tasks_Some [OF f(12)] by (auto simp: get_task_def fun_eq_iff)
  then show ?thesis using f(1-8) by (auto simp: first_free_Some)
qed

definition sample_args :: task_args where
  "sample_args = \<lparr>a_description = u '' lamp '', a_text = u ''turn the lamp on'', a_method = u '' Task '',
     a_skills = [u '' mqtt''], a_period = Some (Fin 60), a_enabled = True, a_executor = u ''auto'', a_agent = JNull\<rparr>"

definition empty_store :: task_store where
  "empty_store = \<lparr>ts_max = 5, ts_tasks = [], ts_file = NoFile\<rparr>"

definition sample_task :: "str \<Rightarrow> task" where
  "sample_task gen = \<lparr>t_id = 1, t_description = u ''lamp'', t_text = u ''turn the lamp on'', t_method = u ''task'',
     t_skills = [u ''mqtt''], t_period = Some 60, t_enabled = True, t_generation = gen,
     t_executor = u ''auto'', t_agent = None\<rparr>"

lemma sample_task_id [simp]: "t_id (sample_task gen) = 1"
  by (simp add: sample_task_def)

lemma upto_five: "[1..5] = [1, 2, 3, 4, 5::int]"
  by code_simp

lemma sample_create:
  "create_task Owned gen sample_args empty_store = (Inr (sample_task gen), empty_store\<lparr>ts_tasks := [(1, sample_task gen)]\<rparr>)"
  by (simp add: create_task_def sample_args_def empty_store_def sample_task_def validate_executor_def executors_def
      validate_record_def task_methods_def valid_agent_def valid_period_def first_free_id_def get_task_def
      save_tasks_def upto_five Let_def text_eval)

theorem create_takes_least_free_id_witness:
  "get_task (empty_store\<lparr>ts_tasks := [(1, sample_task (u ''g''))]\<rparr>) = (get_task empty_store)(1 \<mapsto> sample_task (u ''g''))
   \<and> get_task empty_store 1 = None"
  using create_takes_least_free_id [OF sample_create [of "u ''g''"]] by simp

text \<open>An operation of the registry that fails, an unsuccessful save included, leaves every task and
  the file as they were.\<close>

theorem failed_task_operation_changes_nothing:
  "(fst (create_task m gen a st) = Inl e \<longrightarrow> same_store (snd (create_task m gen a st)) st)
   \<and> (fst (set_enabled m gen i on pr st) = Inl e \<longrightarrow> same_store (snd (set_enabled m gen i on pr st)) st)
   \<and> (fst (set_timer_period m gen i p st) = Inl e \<longrightarrow> same_store (snd (set_timer_period m gen i p st)) st)
   \<and> (fst (set_executor m gen i x st) = Inl e \<longrightarrow> same_store (snd (set_executor m gen i x st)) st)
   \<and> (fst (delete_task m i st) = Inl e \<longrightarrow> same_store (snd (delete_task m i st)) st)"
  by (intro conjI impI) (metis prod.collapse create_task_Inl, metis prod.collapse set_enabled_Inl,
      metis prod.collapse set_timer_period_Inl, metis prod.collapse set_executor_Inl, metis prod.collapse delete_task_Inl)

lemma sample_failed: "fst (create_task (Disk False) gen sample_args empty_store) = Inl SaveFailed"
  by (simp add: create_task_def sample_args_def empty_store_def validate_executor_def executors_def
      validate_record_def task_methods_def valid_agent_def valid_period_def first_free_id_def get_task_def
      save_tasks_def upto_five Let_def text_eval)

theorem failed_task_operation_changes_nothing_witness:
  "same_store (snd (create_task (Disk False) (u ''g'') sample_args empty_store)) empty_store"
  using failed_task_operation_changes_nothing [of "Disk False" "u ''g''" sample_args empty_store SaveFailed] sample_failed
  by blast

text \<open>After any sequence of operations on a new registry, failed ones, failed saves and reloads of
  the file included, the identifiers are distinct and within the limit and every record satisfies the
  constraints of the format.\<close>

theorem registry_stays_well_formed:
  "list_all (task_ok mx) (list_tasks (foldl (task_step rp) \<lparr>ts_max = mx, ts_tasks = [], ts_file = file\<rparr> ops))
   \<and> distinct (map t_id (list_tasks (foldl (task_step rp) \<lparr>ts_max = mx, ts_tasks = [], ts_file = file\<rparr> ops)))
   \<and> length (list_tasks (foldl (task_step rp) \<lparr>ts_max = mx, ts_tasks = [], ts_file = file\<rparr> ops)) \<le> nat mx"
proof -
  let ?st = "foldl (task_step rp) \<lparr>ts_max = mx, ts_tasks = [], ts_file = file\<rparr> ops"
  have ok: "store_ok ?st"
    by (rule task_runs.inv_run) (simp_all add: store_ok_def)
  then have t: "list_all (task_ok mx) (list_tasks ?st)"
    using list_tasks_set [of ?st] get_task_ok [of ?st] by (auto simp: list_all_iff)
  then have "set (map t_id (list_tasks ?st)) \<subseteq> {1..mx}" by (auto simp: list_all_iff task_ok_def)
  then have "card (set (map t_id (list_tasks ?st))) \<le> card {1..mx}" by (intro card_mono) auto
  then have "length (list_tasks ?st) \<le> nat mx"
    using distinct_card [OF list_tasks_distinct [OF ok]] by simp
  with t ok show ?thesis by (simp add: list_tasks_distinct)
qed


definition no_repr :: "json \<Rightarrow> str" where
  "no_repr j = []"

definition sample_store :: task_store where
  "sample_store = empty_store\<lparr>ts_tasks := [(1, sample_task (u ''g''))]\<rparr>"

lemma sample_store_ok: "store_ok sample_store"
proof -
  have "sample_store = snd (create_task Owned (u ''g'') sample_args empty_store)"
    by (simp add: sample_create sample_store_def)
  moreover have "store_ok empty_store" by (simp add: empty_store_def store_ok_def)
  ultimately show ?thesis using ops_ok(1) by metis
qed


section \<open>Properties of the event registry\<close>

text \<open>Registering a binding never takes a name that belongs to another task, changes no other
  name, and the binding is then found under its normalised source and name.\<close>

theorem register_is_exclusive:
  assumes "register m i description a st = (Inr b, st')"
  shows "(\<forall>c. dget (es_bindings st) (b_name b) = Some c \<longrightarrow> b_task c = i) \<and> b_task b = i
    \<and> (\<forall>n. n \<noteq> b_name b \<longrightarrow> dget (es_bindings st') n = dget (es_bindings st) n)
    \<and> resolve (ba_source a) (b_name b) st' = Some b"
proof -
  note r = register_Inr [OF assms]
  have "es_bindings st' = dput (b_name b) b (es_bindings st)" using r save_events_Some by fastforce
  moreover have "b_task b = i \<and> b_source b = lower (strip (ba_source a))"
    using assms by (auto simp: register_def Let_def split: sum.splits option.splits if_splits dest!: validated_binding_Inr)
  moreover have "strip (b_name b) = b_name b" using r by (simp add: binding_ok_def)
  ultimately show ?thesis using r by (simp add: resolve_Some)
qed

definition sample_binding_args :: binding_args where
  "sample_binding_args = \<lparr>ba_source = u ''MQTT'', ba_name = None, ba_topic = u ''home/lamp'', ba_field = u ''state'',
     ba_value_type = u ''String'', ba_values = [u ''ON''], ba_command = u ''mosquitto_sub -t home/lamp''\<rparr>"

definition sample_binding :: binding where
  "sample_binding = \<lparr>b_name = u ''task_mqtt1'', b_source = u ''mqtt'', b_task = 1, b_description = u ''lamp'',
     b_topic = u ''home/lamp'', b_field = u ''state'', b_value_type = u ''string'', b_values = [u ''ON''],
     b_command = u ''mosquitto_sub -t home/lamp''\<rparr>"

definition empty_events :: event_store where
  "empty_events = \<lparr>es_bindings = [], es_file = NoEventFile\<rparr>"

lemma show_int_1: "show_int 1 = [49]"
  by code_simp

lemma sample_register:
  "register Owned 1 (u ''lamp'') sample_binding_args empty_events =
     (Inr sample_binding, empty_events\<lparr>es_bindings := [(u ''task_mqtt1'', sample_binding)]\<rparr>)"
  by (simp add: register_def sample_binding_args_def sample_binding_def empty_events_def validated_binding_def Let_def
      save_events_def event_name_ok_def field_ok_def is_alnum_def is_digit_def is_lower_def is_upper_def show_int_1 text_eval)

theorem register_is_exclusive_witness:
  "resolve (u ''MQTT'') (u ''task_mqtt1'') (empty_events\<lparr>es_bindings := [(u ''task_mqtt1'', sample_binding)]\<rparr>)
     = Some sample_binding"
  using register_is_exclusive [OF sample_register] by (simp add: sample_binding_def sample_binding_args_def)

text \<open>Unregistering a task removes exactly its bindings; when saving fails, none.\<close>

theorem unregister_removes_exactly:
  assumes "events_ok st"
  shows "dget (es_bindings (snd (unregister_task m i st))) n =
    (case dget (es_bindings st) n of None \<Rightarrow> None
     | Some b \<Rightarrow> if b_task b = i \<and> isl (fst (unregister_task m i st)) = False then None else Some b)"
proof -
  have wf: "dwf (es_bindings st)" using assms by (simp add: events_ok_def)
  obtain v st' where r: "unregister_task m i st = (v, st')" by fastforce
  show ?thesis
  proof (cases v)
    case (Inl e)
    with r show ?thesis
      using unregister_Inl [of m i st e st'] wf by (simp add: same_events_def split: option.split)
  next
    case (Inr x)
    with r show ?thesis
      using unregister_Inr [of m i st x st'] wf by (simp add: dget_filter_other split: option.split)
  qed
qed

theorem unregister_removes_exactly_witness:
  "dget (es_bindings (snd (unregister_task Owned 1 (empty_events\<lparr>es_bindings := [(u ''task_mqtt1'', sample_binding)]\<rparr>))))
     (u ''task_mqtt1'') = None"
proof -
  have "events_ok (snd (register Owned 1 (u ''lamp'') sample_binding_args empty_events))"
    by (rule register_ok) (simp add: empty_events_def)
  then show ?thesis
    using unregister_removes_exactly [of "empty_events\<lparr>es_bindings := [(u ''task_mqtt1'', sample_binding)]\<rparr>" Owned 1
        "u ''task_mqtt1''"]
    by (simp add: sample_register unregister_task_def save_events_def sample_binding_def)
qed

text \<open>After any sequence of registrations, removals and reloads, failed saves included, saving the
  event registry and loading the file again gives back the same bindings.\<close>

theorem saved_events_reload:
  assumes "st = foldl (event_step rp) \<lparr>es_bindings = [], es_file = f\<rparr> ops" and "save_events (Disk True) st = Some st'"
  shows "\<exists>st''. reload_events rp st' = (Inr (), st'') \<and> dget (es_bindings st'') = dget (es_bindings st)"
proof -
  have ok: "events_ok st"
    unfolding assms(1) by (rule event_runs.inv_run) simp_all
  have st': "st' = st\<lparr>es_file := EventJson (JObj (map (\<lambda>b. (b_name b, binding_json b)) (list_bindings st)))\<rparr>"
    using assms(2) by (simp add: save_events_def)
  have "binding_ok b" if "b \<in> set (list_bindings st)" for b
    using that ok dget_None_iff [of "es_bindings st"] by (auto simp: list_bindings_def events_ok_def)
  then show ?thesis
    using bindings_rebuilt(1) [OF ok] by (simp add: reload_events_def st' load_bindings_json)
qed

theorem saved_events_reload_witness:
  "\<exists>st''. reload_events no_repr (the (save_events (Disk True) (foldl (event_step no_repr) empty_events
       [OpRegister Owned 1 (u ''lamp'') sample_binding_args]))) = (Inr (), st'')
     \<and> dget (es_bindings st'') = dget [(u ''task_mqtt1'', sample_binding)]"
proof -
  let ?st = "foldl (event_step no_repr) empty_events [OpRegister Owned 1 (u ''lamp'') sample_binding_args]"
  have "save_events (Disk True) ?st = Some (the (save_events (Disk True) ?st))" by (simp add: save_events_def)
  from saved_events_reload [OF _ this, where rp = no_repr and f = NoEventFile and ops = "[OpRegister Owned 1 (u ''lamp'') sample_binding_args]"]
  show ?thesis by (simp add: empty_events_def) (simp add: sample_register [unfolded empty_events_def])
qed

end
