(* ===== verification/EngineTx.thy ===== *)
theory EngineTx
  imports EngineInv Registries
begin

text \<open>
  The transactions of the shared service: what restoring a copy gives back, that a failed call is
  undone, that the saved row follows the state, and that the invariant holds along every sequence
  of calls and clock ticks.
\<close>

section \<open>Dispatching keeps the invariant\<close>

text \<open>The clients create external tasks without a timer period.\<close>

definition request_ok :: "request \<Rightarrow> bool" where
  "request_ok req = (case req of CreateExternal a ba \<Rightarrow> a_period a = None | _ \<Rightarrow> True)"

lemma register_reaches [reaching]: "engine_ok en \<Longrightarrow> reaches ks en (snd (on_events (register m i d ba) en))"
  by (erule on_events_reaches) (rule register_ok)

lemma delete_reaches [reaching]: "engine_ok en \<Longrightarrow> reaches ks en (snd (engine_delete i en))"
  unfolding engine_delete_def
  by (rule reaches_then) (auto intro: reaching kept_ops wf_intros)

lemma start_reaches [reaching]: "engine_ok en \<Longrightarrow> reaches ks en (snd (engine_start e i pr en))"
  by (auto simp: engine_start_def intro: reaching kept_ops)

lemma stop_reaches [reaching]: "engine_ok en \<Longrightarrow> reaches ks en (snd (engine_stop e i pr en))"
  by (auto simp: engine_stop_def intro: reaching kept_ops)

lemma external_event_reaches [reaching]:
  "engine_ok en \<Longrightarrow> e_uuid e \<in> ks \<Longrightarrow> reaches ks en (snd (external_event e source name v en))"
  by (auto simp: external_event_def intro: reaching reaches_refl split: option.split)

lemma create_external_reaches [reaching]:
  "engine_ok en \<Longrightarrow> a_period a = None \<Longrightarrow> reaches ks en (snd (create_external e a ba en))"
  unfolding create_external_def
  by (rule reaches_then) (auto intro: reaching kept_ops wf_intros)

lemma require_reaches [reaching]: "engine_ok en \<Longrightarrow> reaches ks en (snd (engine_require i en))"
  by (auto simp: engine_require_def intro: reaching kept_ops)

lemma create_reaches [reaching]: "engine_ok en \<Longrightarrow> reaches ks en (snd (create_with_timer e a en))"
  by (auto simp: create_with_timer_def intro: reaching kept_ops)

lemma dispatch_reaches:
  assumes ok: "engine_ok en" and req: "request_ok req" and k: "e_uuid e \<in> ks"
  shows "reaches ks en (snd (dispatch e req en))"
proof (cases req)
  case (EventsRegister i d ba)
  then show ?thesis
    using ok by (auto simp: dispatch_def intro!: reaches_then intro: reaching wf_intros)
next
  case (PauseTask i)
  then show ?thesis
    using ok by (auto simp: dispatch_def intro!: reaches_then intro: reaching)
next
  case (RunTask i)
  then show ?thesis
    using ok k by (auto simp: dispatch_def intro!: reaches_then intro: reaching)
qed (use ok req k in \<open>auto simp: dispatch_def request_ok_def intro: reaching reaches_refl kept_ops wf_intros\<close>)

section \<open>Restoring a copy\<close>

lemma key_by_distinct: "distinct (map f vs) \<Longrightarrow> key_by f vs = map (\<lambda>v. (f v, v)) vs"
  by (simp add: key_by_def foldl_dput_distinct dkeys_def)

lemma key_by_tasks:
  assumes "store_ok st"
  shows "dget (key_by t_id (list_tasks st)) = dget (ts_tasks st)" and "dwf (key_by t_id (list_tasks st))"
  using list_tasks_distinct [OF assms] dget_list_tasks [OF assms]
  by (simp_all add: key_by_distinct dwf_def comp_def)

lemma list_tasks_cong:
  "dget (ts_tasks a) = dget (ts_tasks b) \<Longrightarrow> dwf (ts_tasks a) \<Longrightarrow> dwf (ts_tasks b) \<Longrightarrow> list_tasks a = list_tasks b"
  using sorted_keys_cong [of "ts_tasks a" "ts_tasks b"] by (simp add: list_tasks_def)

lemma list_bindings_cong:
  "dget (es_bindings a) = dget (es_bindings b) \<Longrightarrow> dwf (es_bindings a) \<Longrightarrow> dwf (es_bindings b) \<Longrightarrow>
     list_bindings a = list_bindings b"
  using sorted_keys_cong [of "es_bindings a" "es_bindings b"] by (simp add: list_bindings_def)

lemma key_by_bindings:
  assumes "events_ok es"
  shows "dget (key_by b_name (list_bindings es)) = dget (es_bindings es)" and "dwf (key_by b_name (list_bindings es))"
  using bindings_rebuilt [OF assms] by (simp_all add: key_by_def)

lemma shift_timer_fields [simp]:
  "tm_key (shift_timer x t) = tm_key t" "tm_period (shift_timer x t) = tm_period t"
  "tm_enabled (shift_timer x t) = tm_enabled t" "timer_ok (shift_timer x t) = timer_ok t"
  by (auto simp: shift_timer_def timer_ok_def)

lemma shift_shift [simp]: "shift_timer x (shift_timer y t) = shift_timer (y + x) t"
  by (simp add: shift_timer_def option.map_comp comp_def add.assoc)

lemma shift_zero [simp]: "shift_timer 0 t = t"
  by (simp add: shift_timer_def option.map_ident)

lemma key_by_timers:
  assumes "timers_ok d"
  shows "key_by tm_key (map (shift_timer x) (dvals d)) = dmap (shift_timer x) d"
proof -
  have "tm_key t = k" if "(k, t) \<in> set d" for k t
    using assms that by (auto simp: timers_ok_def dget_iff)
  then have keys: "map (\<lambda>p. tm_key (snd p)) d = map fst d" by auto
  then have "distinct (map tm_key (map (shift_timer x) (dvals d)))"
    using assms by (simp add: dvals_def comp_def timers_ok_def dwf_def del: map_eq_conv)
  then have "key_by tm_key (map (shift_timer x) (dvals d)) = map (\<lambda>p. (tm_key (snd p), shift_timer x (snd p))) d"
    by (simp add: key_by_distinct dvals_def comp_def)
  also have "\<dots> = dmap (shift_timer x) d"
    using keys by (auto simp: dmap_def)
  finally show ?thesis .
qed

text \<open>Going back to a copy: registries as look-ups, timers shifted by the change of the clock offset.\<close>

lemma restored_fields:
  fixes en' :: engine and x y :: rat
  assumes ok: "engine_ok en"
  defines "b \<equiv> restore_snapshot y (take_snapshot x en) en'"
  shows "en_runs b = en_runs en" "en_results b = en_results en" "en_workers b = en_workers en'"
    "en_disk b = en_disk en'"
    "en_store b = (en_store en')\<lparr>ts_tasks := key_by t_id (list_tasks (en_store en))\<rparr>"
    "sr_store (en_sys b) = Some (en_store b)"
    "sr_task_timers (en_sys b) = dmap (shift_timer (x - y)) (sr_task_timers (en_sys en))"
    "sr_timers (en_sys b) = dmap (shift_timer (x - y)) (sr_timers (en_sys en))"
    "es_bindings (en_events b) = key_by b_name (list_bindings (en_events en))"
  using engine_okD(11,12) [OF ok]
  by (simp_all add: b_def restore_snapshot_def take_snapshot_def en_store_def comp_def key_by_timers)

lemma restored_ok:
  assumes ok: "engine_ok en" and mx: "sys_max (en_sys en') = Some 5"
  shows "engine_ok (restore_snapshot y (take_snapshot x en) en')"
proof -
  let ?b = "restore_snapshot y (take_snapshot x en) en'"
  note f = restored_fields [OF ok, of y x en']
  note e = engine_okD [OF ok]
  have mx': "ts_max (en_store en') = 5" using mx by (auto simp: sys_max_def en_store_def)
  have store: "store_ok (en_store ?b)"
    using e(9,10) key_by_tasks [OF e(9)] mx' by (simp add: f store_ok_def tasks_ok_def)
  have "get_task (en_store ?b) i = get_task (en_store en) i" for i
    using key_by_tasks(1) [OF e(9)] by (simp add: f get_task_def)
  then have "in_sync (en_store ?b) (sr_task_timers (en_sys ?b))"
    using e(13) by (auto simp: f in_sync_def have_timer_def option.map_comp comp_def)
  moreover have "timers_ok (sr_task_timers (en_sys ?b))" "timers_ok (sr_timers (en_sys ?b))"
    using e(11,12) by (auto simp: f timers_ok_def)
  ultimately have "sys_ok (en_sys ?b)" using f(6) store by (intro sys_okI) auto
  moreover have "sys_max (en_sys ?b) = Some 5" using f(5,6) mx' by (simp add: sys_max_def)
  moreover have "events_ok (en_events ?b)"
    using e(3) key_by_bindings [OF e(3)] by (simp add: f events_ok_def)
  ultimately show ?thesis using e f(1,2) by (simp add: engine_ok_def)
qed

lemma snapshot_shifted:
  assumes "list_tasks (en_store a) = list_tasks (en_store b)" "list_bindings (en_events a) = list_bindings (en_events b)"
    and "sr_task_timers (en_sys a) = dmap (shift_timer d) (sr_task_timers (en_sys b))"
    and "sr_timers (en_sys a) = dmap (shift_timer d) (sr_timers (en_sys b))"
    and "en_runs a = en_runs b" "en_results a = en_results b"
  shows "take_snapshot z a = take_snapshot (d + z) b"
  using assms by (simp add: take_snapshot_def)

lemma restored_snapshot:
  assumes ok: "engine_ok en"
  shows "take_snapshot z (restore_snapshot y (take_snapshot x en) en') = take_snapshot (z + x - y) en"
proof -
  let ?b = "restore_snapshot y (take_snapshot x en) en'"
  note f = restored_fields [OF ok, of y x en']
  note e = engine_okD [OF ok]
  have "list_tasks (en_store ?b) = list_tasks (en_store en)"
    using key_by_tasks [OF e(9)] e(9) by (intro list_tasks_cong) (simp_all add: f store_ok_def tasks_ok_def)
  moreover have "list_bindings (en_events ?b) = list_bindings (en_events en)"
    using key_by_bindings [OF e(3)] e(3) by (intro list_bindings_cong) (simp_all add: f events_ok_def)
  ultimately have "take_snapshot z ?b = take_snapshot ((x - y) + z) en"
    by (rule snapshot_shifted) (rule f)+
  then show ?thesis by (simp add: algebra_simps)
qed

section \<open>The transaction around a step\<close>

text \<open>The saved row is a copy of the state, up to the clock offset of the moment it was written.\<close>

definition persisted :: "engine \<Rightarrow> bool" where
  "persisted en \<longleftrightarrow> (\<exists>off. en_disk en = Some (take_snapshot off en))"

lemma snapshot_from_zero:
  "take_snapshot z a = (take_snapshot 0 a)\<lparr>sn_timers := map (shift_timer z) (sn_timers (take_snapshot 0 a)),
     sn_legacy := map (shift_timer z) (sn_legacy (take_snapshot 0 a))\<rparr>"
  by (simp add: take_snapshot_def)

lemma snapshot_zero_eq: "take_snapshot 0 a = take_snapshot 0 b \<Longrightarrow> take_snapshot z a = take_snapshot z b"
  using snapshot_from_zero [of z a] snapshot_from_zero [of z b] by simp

lemma conclude_Inl:
  assumes ok: "engine_ok en" and r: "reaches ks en (snd r)" and fail: "fst (conclude e en r) = Inl err"
  shows "snd (conclude e en r) = restore_snapshot (e_offset_later e) (take_snapshot (e_offset e) en) (snd r)"
  using fail by (auto simp: conclude_def Let_def split: prod.splits sum.splits if_splits)

lemma conclude_Inr:
  assumes "fst (conclude e en r) = Inr v"
  shows "fst r = Inr v \<and> (snd (conclude e en r) = snd r \<and> take_snapshot 0 (snd r) = take_snapshot 0 en
    \<or> snd (conclude e en r) = (snd r)\<lparr>en_disk := Some (take_snapshot (e_offset_later e) (snd r))\<rparr>)"
  using assms by (auto simp: conclude_def Let_def split: prod.splits sum.splits if_splits)

text \<open>A failed step is undone: the durable state and the saved row are what they were.\<close>

lemma conclude_undone:
  assumes ok: "engine_ok en" and r: "reaches ks en (snd r)" and fail: "fst (conclude e en r) = Inl err"
  shows "take_snapshot z (snd (conclude e en r)) = take_snapshot (z + e_offset e - e_offset_later e) en
    \<and> en_disk (snd (conclude e en r)) = en_disk en"
  using restored_snapshot [OF ok, of z "e_offset_later e" "e_offset e" "snd r"] r
    restored_fields(4) [OF ok, of "e_offset_later e" "e_offset e" "snd r"]
  by (simp add: conclude_Inl [OF assms] reaches_def)

lemma disk_update_simps [simp]:
  "engine_ok (en\<lparr>en_disk := d\<rparr>) = engine_ok en" "take_snapshot z (en\<lparr>en_disk := d\<rparr>) = take_snapshot z en"
  by (simp_all add: engine_ok_def take_snapshot_def en_store_def)

lemma conclude_ok:
  assumes ok: "engine_ok en" and r: "reaches ks en (snd r)"
  shows "engine_ok (snd (conclude e en r))" and "follows ks (en_runs en) (en_runs (snd (conclude e en r)))"
    and "persisted en \<Longrightarrow> persisted (snd (conclude e en r))"
proof -
  have "engine_ok (snd (conclude e en r)) \<and> follows ks (en_runs en) (en_runs (snd (conclude e en r)))
    \<and> (persisted en \<longrightarrow> persisted (snd (conclude e en r)))"
  proof (cases "fst (conclude e en r)")
    case (Inl err)
    have "sys_max (en_sys (snd r)) = Some 5" using r by (simp add: reaches_def engine_ok_def)
    note f = restored_ok [OF ok this, of "e_offset_later e" "e_offset e"] restored_fields(1) [OF ok, of "e_offset_later e" "e_offset e" "snd r"]
    have "persisted (snd (conclude e en r))" if "persisted en"
    proof -
      from that obtain off where "en_disk en = Some (take_snapshot off en)" by (auto simp: persisted_def)
      then show ?thesis
        using conclude_undone [OF ok r Inl, of "off - e_offset e + e_offset_later e"]
        unfolding persisted_def by (intro exI [of _ "off - e_offset e + e_offset_later e"]) simp
    qed
    with f conclude_Inl [OF ok r Inl] show ?thesis by simp
  next
    case (Inr v)
    from conclude_Inr [OF Inr] show ?thesis
    proof (elim conjE disjE)
      assume same: "snd (conclude e en r) = snd r" and z: "take_snapshot 0 (snd r) = take_snapshot 0 en"
      show ?thesis
        using r snapshot_zero_eq [OF z] by (auto simp: same reaches_def persisted_def)
    next
      assume "snd (conclude e en r) = (snd r)\<lparr>en_disk := Some (take_snapshot (e_offset_later e) (snd r))\<rparr>"
      then show ?thesis using r by (auto simp: reaches_def persisted_def)
    qed
  qed
  then show "engine_ok (snd (conclude e en r))" "follows ks (en_runs en) (en_runs (snd (conclude e en r)))"
    "persisted en \<Longrightarrow> persisted (snd (conclude e en r))" by simp_all
qed

lemma call_ok:
  assumes "engine_ok en" and "request_ok req"
  shows "engine_ok (snd (engine_call e req en))"
    and "follows {e_uuid e} (en_runs en) (en_runs (snd (engine_call e req en)))"
    and "persisted en \<Longrightarrow> persisted (snd (engine_call e req en))"
  using conclude_ok [OF assms(1) dispatch_reaches [OF assms, of e "{e_uuid e}"], of e]
  by (simp_all add: engine_call_def)

section \<open>Clock ticks\<close>

lemma queue_all_reaches [reaching]: "engine_ok en \<Longrightarrow> reaches (range us) en (snd (queue_all us evs en))"
proof (induction us evs en rule: queue_all.induct)
  case (1 us en)
  then show ?case by (simp add: reaches_refl)
next
  case (2 us ev evs en)
  have "reaches (range us) en (snd (queue_event (us 0) ev en))" using 2 by (intro reaching) auto
  moreover have "reaches (range us) en' (snd (queue_all (\<lambda>n. us (Suc n)) evs en'))" if "engine_ok en'" for en'
    using 2(1) [OF that] by (rule reaches_mono) auto
  ultimately show ?case by (simp add: reaches_then)
qed

lemma tick_body_reaches: "engine_ok en \<Longrightarrow> reaches (range us) en (snd (tick_body e us now en))"
proof -
  assume ok: "engine_ok en"
  have r: "reaches (range us) en (reconcile e en)" using ok by (rule reaching)
  then have "engine_ok (reconcile e en)" by (simp add: reaches_def)
  then have "reaches (range us) (reconcile e en) (snd (on_sys (poll_due now False) (reconcile e en)))"
    using on_sys_reaches [of "reconcile e en" "poll_due now False", OF _ keeps_poll] by blast
  with r have "reaches (range us) en (snd (on_sys (poll_due now False) (reconcile e en)))" by (rule reaches_trans)
  then show ?thesis
    unfolding tick_body_def by (rule reaches_then) (rule queue_all_reaches)
qed

lemma tick_ok:
  assumes "engine_ok en"
  shows "engine_ok (snd (tick e us now en))" and "follows (range us) (en_runs en) (en_runs (snd (tick e us now en)))"
    and "persisted en \<Longrightarrow> persisted (snd (tick e us now en))"
  using conclude_ok [OF assms tick_body_reaches [OF assms, of us e now], of e] by (simp_all add: tick_def)

text \<open>Every due activation of a current task ends up with a live run.\<close>

lemma queue_event_keeps: "dget (en_runs en) k = Some r \<Longrightarrow> k \<noteq> ident \<Longrightarrow>
    dget (en_runs (snd (queue_event ident ev en))) k = Some r"
  by (auto simp: queue_event_def split: option.split)

lemma queue_all_keeps:
  "dget (en_runs en) k = Some r \<Longrightarrow> k \<notin> range us \<Longrightarrow> dget (en_runs (snd (queue_all us evs en))) k = Some r"
proof (induction us evs en rule: queue_all.induct)
  case (2 us ev evs en)
  then have k: "dget (en_runs (snd (queue_event (us 0) ev en))) k = Some r" by (intro queue_event_keeps) auto
  obtain v en1 where q: "queue_event (us 0) ev en = (v, en1)" by fastforce
  have "k \<notin> range (\<lambda>n. us (Suc n))" using 2(3) by auto
  then have "dget (en_runs (snd (queue_all (\<lambda>n. us (Suc n)) evs en1))) k = Some r"
    using 2(1) [of en1] k q by simp
  then show ?case using k q by (cases v) simp_all
qed simp

definition has_live :: "engine \<Rightarrow> sys_event \<Rightarrow> bool" where
  "has_live en ev \<longleftrightarrow> (\<exists>k r. dget (en_runs en) k = Some r \<and> live r \<and> activation_of r = (ev_task_id ev, ev_generation ev))"

lemma dvals_lookup: "dwf d \<Longrightarrow> v \<in> set (dvals d) \<Longrightarrow> \<exists>k. dget d k = Some v"
  by (auto simp: dvals_def dget_iff)

lemma queue_event_has_live:
  assumes "engine_ok en" and "ev_task_id ev = Some i" and "get_task (en_store en) i = Some t"
    and "t_enabled t" and "t_generation t = ev_generation ev" and "queue_event ident ev en = (Inr v, en')"
  shows "has_live en' ev"
proof (cases v)
  case (Some k)
  then show ?thesis
    using assms(6) by (auto simp: queue_event_Inr has_live_def live_def new_run_def activation_of_def run_task_id_def)
next
  case None
  have "t_id t = i" using assms(3) engine_okD(9) [OF assms(1)] by (auto simp: get_task_def store_ok_def dest: tasks_okD)
  moreover have "list_ex (same_activation t) (dvals (en_runs en))" and "en' = en"
    using assms None by (auto simp: queue_event_def split: if_splits)
  ultimately show ?thesis
    using dvals_lookup [OF engine_okD(6) [OF assms(1)]] assms(2,5)
    by (fastforce simp: list_ex_iff has_live_def same_activation_def live_def activation_of_def)
qed

lemma queue_all_has_live:
  assumes "engine_ok en" and "inj us" and "\<And>n. us n \<notin> set (dkeys (en_runs en))" and "ev \<in> set evs"
    and "ev_task_id ev = Some i" and "get_task (en_store en) i = Some t" and "t_enabled t"
    and "t_generation t = ev_generation ev" and "queue_all us evs en = (Inr (), en')"
  shows "has_live en' ev"
  using assms
proof (induction us evs en rule: queue_all.induct)
  case (2 us x evs en)
  from 2(10) obtain v en1 where q: "queue_event (us 0) x en = (Inr v, en1)"
    and rest: "queue_all (\<lambda>n. us (Suc n)) evs en1 = (Inr (), en')"
    by (auto simp: then_do_def split: prod.splits sum.splits)
  have en1: "en1 = snd (queue_event (us 0) x en)" using q by simp
  have store: "en_store en1 = en_store en" using queue_event_frame [of "us 0" x en] by (simp add: en1 en_store_def)
  have keys: "dget (en_runs en1) k = None" if "dget (en_runs en) k = None" "k \<noteq> us 0" for k
    using queue_event_follows [of "us 0" "{us 0}" en x] that by (cases "dget (en_runs en1) k") (auto simp: follows_def en1)
  have fresh: "us (Suc n) \<notin> set (dkeys (en_runs en1))" for n
    using keys [of "us (Suc n)"] 2(3,4) by (auto simp: dget_None_iff [symmetric] inj_def)
  have ok1: "engine_ok en1" using queue_reaches [OF 2(2), of "us 0" "{us 0}" x] by (simp add: en1 reaches_def)
  show ?case
  proof (cases "ev = x")
    case True
    then have "has_live en1 ev" using queue_event_has_live [OF 2(2) _ _ _ _ q, of i t] 2 by simp
    then obtain k r where k: "dget (en_runs en1) k = Some r" "live r" "activation_of r = (ev_task_id ev, ev_generation ev)"
      by (auto simp: has_live_def)
    have "k \<notin> range (\<lambda>n. us (Suc n))" using k(1) fresh by (auto simp: dget_None_iff [symmetric])
    from queue_all_keeps [OF k(1) this, of evs] rest k(2,3) show ?thesis by (auto simp: has_live_def)
  next
    case False
    have "inj (\<lambda>n. us (Suc n))" using 2(3) by (auto simp: inj_def)
    from ok1 this fresh show ?thesis
      by (rule 2(1)) (use 2(5-9) False store rest in simp_all)
  qed
qed simp

section \<open>Sequences of calls and ticks\<close>

text \<open>
  The service driven by its clients. The identifiers are drawn from a supply: the call or tick
  number \<open>n\<close> uses \<open>gen n 0\<close>, \<open>gen n 1\<close>, ...; \<open>uuid4\<close> is taken never to repeat one.
\<close>

record drive =
  d_gen :: "nat \<Rightarrow> nat \<Rightarrow> str"
  d_count :: nat
  d_engine :: engine

datatype drive_op = DCall env request | DTick env rat

fun drive_step :: "drive \<Rightarrow> drive_op \<Rightarrow> drive" where
  "drive_step d (DCall e req) = d\<lparr>d_count := Suc (d_count d),
     d_engine := snd (engine_call (e\<lparr>e_uuid := d_gen d (d_count d) 0\<rparr>) req (d_engine d))\<rparr>"
| "drive_step d (DTick e now) = d\<lparr>d_count := Suc (d_count d),
     d_engine := snd (tick e (d_gen d (d_count d)) now (d_engine d))\<rparr>"

definition op_ok :: "drive \<Rightarrow> drive_op \<Rightarrow> bool" where
  "op_ok d op = (case op of DCall e req \<Rightarrow> request_ok req | DTick e now \<Rightarrow> True)"

definition never_repeats :: "(nat \<Rightarrow> nat \<Rightarrow> str) \<Rightarrow> bool" where
  "never_repeats gen \<longleftrightarrow> inj (\<lambda>(n, i). gen n i)"

definition drawn_from :: "drive \<Rightarrow> nat \<Rightarrow> str set" where
  "drawn_from d n = {k. \<exists>m i. n \<le> m \<and> k = d_gen d m i}"

definition drive_ok :: "drive \<Rightarrow> bool" where
  "drive_ok d \<longleftrightarrow> engine_ok (d_engine d) \<and> persisted (d_engine d) \<and> never_repeats (d_gen d)
     \<and> (\<forall>k r. dget (en_runs (d_engine d)) k = Some r \<longrightarrow> (\<exists>n i. n < d_count d \<and> k = d_gen d n i))"

definition drive_rel :: "drive \<Rightarrow> drive \<Rightarrow> bool" where
  "drive_rel d d' \<longleftrightarrow> d_gen d' = d_gen d \<and> d_count d \<le> d_count d'
     \<and> follows (drawn_from d (d_count d)) (en_runs (d_engine d)) (en_runs (d_engine d'))"

lemma drive_step_facts:
  assumes "drive_ok d" and "op_ok d op"
  shows "d_gen (drive_step d op) = d_gen d" and "d_count (drive_step d op) = Suc (d_count d)"
    and "engine_ok (d_engine (drive_step d op))" and "persisted (d_engine (drive_step d op))"
    and "follows (range (d_gen d (d_count d))) (en_runs (d_engine d)) (en_runs (d_engine (drive_step d op)))"
proof -
  show "d_gen (drive_step d op) = d_gen d" "d_count (drive_step d op) = Suc (d_count d)"
    by (cases op; simp)+
  have ok: "engine_ok (d_engine d)" "persisted (d_engine d)" using assms(1) by (simp_all add: drive_ok_def)
  have "engine_ok (d_engine (drive_step d op)) \<and> persisted (d_engine (drive_step d op))
    \<and> follows (range (d_gen d (d_count d))) (en_runs (d_engine d)) (en_runs (d_engine (drive_step d op)))"
  proof (cases op)
    case (DCall e req)
    then have req: "request_ok req" using assms(2) by (simp add: op_ok_def)
    show ?thesis
      using call_ok [OF ok(1) req, of "e\<lparr>e_uuid := d_gen d (d_count d) 0\<rparr>"] ok(2)
      by (auto simp: DCall elim!: follows_mono)
  next
    case (DTick e now)
    show ?thesis
      using tick_ok [OF ok(1), where us = "d_gen d (d_count d)" and e = e and now = now] ok(2) by (simp add: DTick)
  qed
  then show "engine_ok (d_engine (drive_step d op))" "persisted (d_engine (drive_step d op))"
    "follows (range (d_gen d (d_count d))) (en_runs (d_engine d)) (en_runs (d_engine (drive_step d op)))" by simp_all
qed

lemma drive_step_rel: "drive_ok d \<Longrightarrow> op_ok d op \<Longrightarrow> drive_rel d (drive_step d op)"
  using drive_step_facts [of d op] by (auto simp: drive_rel_def drawn_from_def elim!: follows_mono)

lemma drive_step_ok: "drive_ok d \<Longrightarrow> op_ok d op \<Longrightarrow> drive_ok (drive_step d op)"
proof -
  assume a: "drive_ok d" "op_ok d op"
  note f = drive_step_facts [OF a]
  have "\<exists>n i. n < Suc (d_count d) \<and> k = d_gen d n i" if k: "dget (en_runs (d_engine (drive_step d op))) k = Some r" for k r
  proof (cases "k \<in> range (d_gen d (d_count d))")
    case True
    then show ?thesis by auto
  next
    case False
    then obtain r0 where "dget (en_runs (d_engine d)) k = Some r0"
      using f(5) k unfolding follows_def by blast
    then show ?thesis using a(1) less_SucI unfolding drive_ok_def by blast
  qed
  then show ?thesis using f a(1) by (simp add: drive_ok_def)
qed

interpretation drive_runs: stepper_rel drive_step op_ok drive_ok drive_rel
proof
  show "drive_ok s \<Longrightarrow> op_ok s i \<Longrightarrow> drive_ok (drive_step s i)" for s i by (rule drive_step_ok)
  show "drive_rel s s" for s by (auto simp: drive_rel_def)
  show "drive_ok s \<Longrightarrow> op_ok s i \<Longrightarrow> drive_rel s (drive_step s i)" for s i by (rule drive_step_rel)
  show "drive_rel s r" if "drive_rel s t" "drive_rel t r" for s t r
  proof -
    have "drawn_from t (d_count t) \<subseteq> drawn_from s (d_count s)"
    proof
      fix k
      assume "k \<in> drawn_from t (d_count t)"
      then obtain m i where m: "d_count t \<le> m" "k = d_gen t m i" by (auto simp: drawn_from_def)
      moreover have "d_gen t = d_gen s" "d_count s \<le> m" using that(1) m(1) by (simp_all add: drive_rel_def)
      ultimately have "d_count s \<le> m \<and> k = d_gen s m i" by simp
      then show "k \<in> drawn_from s (d_count s)" unfolding drawn_from_def by blast
    qed
    then have "follows (drawn_from s (d_count s)) (en_runs (d_engine t)) (en_runs (d_engine r))"
      using that(2) by (auto simp: drive_rel_def intro: follows_mono)
    then show ?thesis using that by (auto simp: drive_rel_def intro: follows_trans)
  qed
qed

lemma not_drawn_again:
  assumes "drive_ok d" and "dget (en_runs (d_engine d)) k = Some r"
  shows "k \<notin> drawn_from d (d_count d)"
proof
  assume "k \<in> drawn_from d (d_count d)"
  then obtain m i where m: "d_count d \<le> m" "k = d_gen d m i" by (auto simp: drawn_from_def)
  obtain n j where n: "n < d_count d" "k = d_gen d n j" using assms by (auto simp: drive_ok_def)
  have "(n, j) = (m, i)" using assms(1) m(2) n(2) injD [of "\<lambda>(n, i). d_gen d n i" "(n, j)" "(m, i)"]
    by (simp add: drive_ok_def never_repeats_def)
  then show False using m(1) n(1) by simp
qed

lemma run_followed:
  assumes "drive_ok d" and "all_ok op_ok drive_step d ops" and "dget (en_runs (d_engine d)) k = Some r"
    and "dget (en_runs (d_engine (foldl drive_step d ops))) k = Some r'"
  shows "run_moves r r'"
  using drive_runs.rel_run [OF assms(1,2)] not_drawn_again [OF assms(1,3)] assms(3,4)
  by (auto simp: drive_rel_def follows_def)

end
