(* ===== verification/RuntimeProps.thy ===== *)
theory RuntimeProps
  imports SysRuntime Registries
begin

text \<open>
  Properties of the system runtime: polling, deadlines, the registry and the timers in step over
  every sequence of operations, and what starting and stopping a task does to its timer.
\<close>

section \<open>A concrete runtime\<close>

definition sample_runtime :: "rat option \<Rightarrow> sys_runtime" where
  "sample_runtime nxt = \<lparr>sr_timers = [], sr_task_timers = [(1, new_timer 1 60 [] True nxt)],
     sr_store = Some sample_store\<rparr>"

lemma list_sample [simp]: "list_tasks sample_store = [sample_task (u ''g'')]"
  by (simp add: list_tasks_def sample_store_def dkeys_def)

lemma get_sample [simp]: "get_task sample_store i = (if i = 1 then Some (sample_task (u ''g'')) else None)"
  by (simp add: get_task_def sample_store_def)

lemma sample_task_simps [simp]:
  "t_period (sample_task g) = Some 60" "t_enabled (sample_task g)" "t_generation (sample_task g) = g"
  by (simp_all add: sample_task_def)

lemma sample_runtime_ok: "sys_ok (sample_runtime (Some d))"
  by (rule sys_okI [of _ sample_store])
    (auto simp: sample_runtime_def sample_store_ok timers_ok_def dwf_def in_sync_def new_timer_def timer_ok_def)

section \<open>Polling\<close>

text \<open>Polling an idle runtime cannot fail; it reports one event for every timer that is due, the
  named timers first, each in the order of creation and the task events with the current generation,
  and moves exactly these timers on.\<close>

theorem poll_reports_due_timers:
  assumes "sys_ok s" and "sr_store s = Some st"
  shows "poll_due now False s =
    (Inr (map (named_event now) (filter (timer_due now) (dvals (sr_timers s)))
        @ map (\<lambda>t. task_event now t (t_generation (the (get_task st (tm_key t)))))
            (filter (timer_due now) (dvals (sr_task_timers s)))),
     s\<lparr>sr_timers := dmap (polled now False) (sr_timers s),
       sr_task_timers := dmap (polled now False) (sr_task_timers s)\<rparr>)"
  using poll_due_eq [OF assms, of now False] by simp

theorem poll_reports_due_timers_witness:
  "fst (poll_due 130 False (sample_runtime (Some 60))) =
     Inr [task_event 130 (new_timer 1 60 [] True (Some 60)) (u ''g'')]"
  using poll_reports_due_timers [OF sample_runtime_ok [of 60], of sample_store 130]
  by (simp add: sample_runtime_def new_timer_def timer_due_def)

lemma polled_quiet: "timers_ok d \<Longrightarrow> filter (timer_due now) (dvals (dmap (polled now busy) d)) = []"
  by (auto simp: filter_empty_conv dvals_def dmap_def timers_ok_def dget_iff polled_not_due)

lemma polled_idle:
  assumes "timers_ok d"
  shows "dmap (polled now busy') (dmap (polled now busy) d) = dmap (polled now busy) d"
proof -
  have "polled now busy' (polled now busy t) = polled now busy t" if "(k, t) \<in> set d" for k t
  proof -
    have "timer_ok t" using assms that by (auto simp: timers_ok_def dget_iff)
    then show ?thesis using polled_not_due [of t now busy] by (simp add: polled_def [of now busy'])
  qed
  then show ?thesis by (auto simp: dmap_def)
qed

text \<open>A timer that was just polled, whether it fired or was skipped because the assistant was
  busy, is not due again at the same time, so a second poll reports nothing and changes nothing.\<close>

theorem poll_twice_fires_once:
  assumes "sys_ok s"
  shows "poll_due now busy' (snd (poll_due now busy s)) = (Inr [], snd (poll_due now busy s))"
proof -
  obtain st where st: "sr_store s = Some st" and ok: "timers_ok (sr_timers s)" "timers_ok (sr_task_timers s)"
    using assms by (rule sys_okE)
  let ?s = "snd (poll_due now busy s)"
  have s': "?s = s\<lparr>sr_timers := dmap (polled now busy) (sr_timers s),
      sr_task_timers := dmap (polled now busy) (sr_task_timers s)\<rparr>"
    by (simp add: poll_due_eq [OF assms st])
  have store: "sr_store ?s = Some st" using st by (simp add: s')
  have fields: "sr_timers ?s = dmap (polled now busy) (sr_timers s)"
    "sr_task_timers ?s = dmap (polled now busy) (sr_task_timers s)" by (simp_all add: s')
  then show ?thesis
    unfolding poll_due_eq [OF poll_due_ok [OF assms] store] fields
      polled_quiet [OF ok(1)] polled_quiet [OF ok(2)] polled_idle [OF ok(1)] polled_idle [OF ok(2)]
    by (simp add: s')
qed

theorem poll_twice_fires_once_witness:
  "fst (poll_due 130 False (snd (poll_due 130 False (sample_runtime (Some 60))))) = Inr []"
  using poll_twice_fires_once [OF sample_runtime_ok [of 60], of 130 False False] by simp

text \<open>The next deadline after a late poll lies after the poll, at most one period later, and a
  whole number of periods after the old one: late polls neither shift the rhythm nor build a backlog.\<close>

theorem next_fire_keeps_rhythm:
  assumes "0 < p" and "n \<le> now"
  shows "now < next_fire now p n \<and> next_fire now p n \<le> now + p \<and> (\<exists>k::nat. 0 < k \<and> next_fire now p n = n + of_nat k * p)"
proof -
  let ?k = "\<lfloor>(now - n) / p\<rfloor> + 1"
  have "0 \<le> \<lfloor>(now - n) / p\<rfloor>" using assms by simp
  then have "next_fire now p n = n + of_nat (nat ?k) * p" and "0 < nat ?k"
    by (simp_all add: next_fire_def)
  then show ?thesis using next_fire_after [OF assms] by blast
qed

theorem next_fire_keeps_rhythm_witness:
  "(130::rat) < next_fire 130 60 0 \<and> next_fire 130 60 0 = 180"
proof -
  have "(130::rat) < next_fire 130 60 0" using next_fire_keeps_rhythm [of 60 0 130] by simp
  moreover have "next_fire 130 60 0 = 180" by (simp add: next_fire_def floor_eq_iff)
  ultimately show ?thesis by simp
qed

section \<open>Registry and timers\<close>

text \<open>C24: from a well-formed registry, after any sequence of creations, starts, stops, period changes,
  deletions, polls and timer commands, with saves that fail or succeed, the task timers are exactly
  the periodic tasks, with their period and state, and each counts its ticks as fired or skipped.\<close>

theorem registry_and_timers_in_step:
  assumes "store_ok st"
  defines "s \<equiv> \<lambda>ops. foldl sys_step (new_runtime (Some st)) ops"
  shows "\<exists>st'. sr_store (s ops) = Some st' \<and> store_ok st'
    \<and> (\<forall>i. map_option (\<lambda>t. (tm_period t, tm_enabled t)) (dget (sr_task_timers (s ops)) i)
         = (case get_task st' i of None \<Rightarrow> None | Some t \<Rightarrow> map_option (\<lambda>p. (p, t_enabled t)) (t_period t)))
    \<and> (\<forall>i tm. dget (sr_task_timers (s ops)) i = Some tm \<longrightarrow> tm_sequence tm = tm_fired tm + tm_skipped tm)"
proof -
  have "sys_ok (s ops)"
    unfolding s_def by (rule sys_runs.inv_run) (simp_all add: new_runtime_ok assms(1))
  then show ?thesis
    by (auto elim!: sys_okE simp: in_sync_def want_timer_def have_timer_def timers_ok_def timer_ok_def)
qed

theorem registry_and_timers_in_step_witness:
  "\<exists>st'. sr_store (foldl sys_step (new_runtime (Some sample_store))
      [SysStop (Disk True) (u ''h'') 1 False, SysStart (Disk False) 10 (u ''k'') 1 False, SysPoll 100 False]) = Some st'
    \<and> store_ok st'"
  using registry_and_timers_in_step [OF sample_store_ok,
      of "[SysStop (Disk True) (u ''h'') 1 False, SysStart (Disk False) 10 (u ''k'') 1 False, SysPoll 100 False]"]
  by blast

text \<open>Starting a task enables it under a new generation (unless it is preserved) and arms its timer
  one full period ahead.\<close>

theorem start_arms_timer:
  assumes "sys_ok s" and "start_task m now gen i preserve s = (Inr t, s')"
  shows "\<exists>st st' cur. sr_store s = Some st \<and> get_task st i = Some cur
    \<and> sr_store s' = Some st' \<and> get_task st' = (get_task st)(i \<mapsto> t)
    \<and> t = cur\<lparr>t_enabled := True, t_generation := (if preserve then t_generation cur else gen)\<rparr>
    \<and> (\<forall>p. t_period t = Some p \<longrightarrow>
         (\<exists>tm. dget (sr_task_timers s') i = Some tm \<and> tm_enabled tm \<and> tm_period tm = p \<and> tm_next tm = Some (now + p)))"
proof -
  obtain st where st: "sr_store s = Some st" and ok: "store_ok st" using assms(1) by (rule sys_okE)
  obtain r st' where r: "set_enabled m gen i True preserve st = (r, st')" by fastforce
  note w = with_store_Some [OF st, of "set_enabled m gen i True preserve", OF r]
  have t: "r = Inr t" and s': "s' = (case t_period t of None \<Rightarrow> s\<lparr>sr_store := Some st'\<rparr>
      | Some p \<Rightarrow> put_timer i p True (Some (now + p)) (s\<lparr>sr_store := Some st'\<rparr>))"
    using assms(2) by (auto simp: start_task_def w split: sum.splits)
  obtain cur where c: "get_task st i = Some cur"
    "t = cur\<lparr>t_enabled := True, t_generation := (if preserve then t_generation cur else gen)\<rparr>"
    and sv: "save_tasks m (st\<lparr>ts_tasks := dput i t (ts_tasks st)\<rparr>) = Some st'"
    using set_enabled_Inr [of m gen i True preserve st t st'] r t ok by blast
  have "get_task st' = (get_task st)(i \<mapsto> t)" using get_task_put [OF sv] by (auto simp: fun_eq_iff)
  moreover have "sr_store s' = Some st'" by (simp add: s' split: option.split)
  moreover have "\<exists>tm. dget (sr_task_timers s') i = Some tm \<and> tm_enabled tm \<and> tm_period tm = p \<and> tm_next tm = Some (now + p)"
    if "t_period t = Some p" for p
    using that by (simp add: s' put_timer_def new_timer_def split: option.split)
  ultimately show ?thesis using st c by blast
qed

lemma sample_start:
  "start_task Owned 10 (u ''h'') 1 False (sample_runtime (Some 60)) =
     (Inr (sample_task (u ''h'')), \<lparr>sr_timers = [],
        sr_task_timers = [(1, new_timer 1 60 [] True (Some 70))],
        sr_store = Some (empty_store\<lparr>ts_tasks := [(1, sample_task (u ''h''))]\<rparr>)\<rparr>)"
  by (simp add: start_task_def with_store_def sample_runtime_def set_enabled_def require_task_def return_updated_def
      replace_task_def save_tasks_def Let_def put_timer_def new_timer_def)
    (simp add: sample_task_def sample_store_def)

theorem start_arms_timer_witness:
  "\<exists>tm. dget [(1::int, new_timer (1::int) 60 [] True (Some 70))] 1 = Some tm \<and> tm_next tm = Some (10 + 60)"
  using start_arms_timer [OF sample_runtime_ok sample_start] by auto

text \<open>After a task is stopped no poll, however late, fails or reports it.\<close>

theorem stopped_task_never_fires:
  assumes "sys_ok s" and "stop_task m gen i preserve s = (Inr t, s')"
  shows "case fst (poll_due later busy s') of Inl e \<Rightarrow> False | Inr evs \<Rightarrow> list_all (\<lambda>ev. ev_task_id ev \<noteq> Some i) evs"
proof -
  have ok: "sys_ok s'" using stop_task_ok [OF assms(1), of m gen i preserve] assms(2) by simp
  then obtain st' where st': "sr_store s' = Some st'" "timers_ok (sr_task_timers s')" "in_sync st' (sr_task_timers s')"
    by (rule sys_okE)
  have off: "get_task st' i = Some t \<and> \<not> t_enabled t"
  proof -
    obtain st where st: "sr_store s = Some st" and ok: "store_ok st" using assms(1) by (rule sys_okE)
    obtain r st1 where r: "set_enabled m gen i False preserve st = (r, st1)" by fastforce
    note w = with_store_Some [OF st, of "set_enabled m gen i False preserve", OF r]
    have t: "r = Inr t" and "sr_store s' = Some st1"
      using assms(2) by (auto simp: stop_task_def w split: sum.splits option.splits)
    moreover obtain cur where "t = cur\<lparr>t_enabled := False, t_generation := (if preserve then t_generation cur else gen)\<rparr>"
      "save_tasks m (st\<lparr>ts_tasks := dput i t (ts_tasks st)\<rparr>) = Some st1"
      using set_enabled_Inr [of m gen i False preserve st t st1] r t ok by blast
    ultimately show ?thesis using st'(1) get_task_put [of m i t st st1] by simp
  qed
  have "tm_key tm \<noteq> i" if "tm \<in> set (dvals (sr_task_timers s'))" "timer_due later tm" for tm
  proof
    assume k: "tm_key tm = i"
    then have "dget (sr_task_timers s') i = Some tm"
      using that(1) st'(2) by (auto simp: dvals_def timers_ok_def dget_iff)
    then show False using in_sync_timer [OF st'(3), of i tm] off that(2) by (auto simp: timer_due_def)
  qed
  then show ?thesis
    using poll_due_eq [OF ok st'(1), of later busy]
    by (auto simp: list_all_iff named_event_def task_event_def split: if_splits)
qed

lemma sample_stop:
  "stop_task Owned (u ''h'') 1 False (sample_runtime (Some 60)) =
     (Inr (sample_task (u ''h'')\<lparr>t_enabled := False\<rparr>), \<lparr>sr_timers = [],
        sr_task_timers = [(1, new_timer 1 60 [] False None)],
        sr_store = Some (empty_store\<lparr>ts_tasks := [(1, sample_task (u ''h'')\<lparr>t_enabled := False\<rparr>)]\<rparr>)\<rparr>)"
  by (simp add: stop_task_def with_store_def sample_runtime_def set_enabled_def require_task_def return_updated_def
      replace_task_def save_tasks_def Let_def new_timer_def)
    (simp add: sample_task_def sample_store_def)

theorem stopped_task_never_fires_witness:
  "case fst (poll_due 1000 False (snd (stop_task Owned (u ''h'') 1 False (sample_runtime (Some 60))))) of
     Inl e \<Rightarrow> False | Inr evs \<Rightarrow> list_all (\<lambda>ev. ev_task_id ev \<noteq> Some 1) evs"
  using stopped_task_never_fires [OF sample_runtime_ok sample_stop, of 1000 False] by (simp add: sample_stop)

end
