(* ===== verification/EngineProps.thy ===== *)
theory EngineProps
  imports EngineTx RuntimeProps
begin

text \<open>
  Properties of the shared task service, stated from a freshly opened service over every sequence
  of calls and clock ticks, or for one call in any well-formed state.
\<close>

section \<open>Opening\<close>

lemma opened_ok:
  assumes "open_engine e rp fresh tf ef None = Inr en"
  shows "engine_ok en \<and> persisted en \<and> en_runs en = [] \<and> en_results en = []"
proof -
  obtain st es where st: "reload_tasks rp fresh \<lparr>ts_max = 5, ts_tasks = [], ts_file = tf\<rparr> = (Inr (), st)"
    and es: "reload_events rp \<lparr>es_bindings = [], es_file = ef\<rparr> = (Inr (), es)"
    and en: "en = \<lparr>en_sys = arm_task_timers (e_now e) (new_runtime (Some st)), en_events = es,
        en_runs = [], en_results = [], en_workers = [], en_disk = Some (take_snapshot (e_offset e)
          \<lparr>en_sys = arm_task_timers (e_now e) (new_runtime (Some st)), en_events = es,
           en_runs = [], en_results = [], en_workers = [], en_disk = None\<rparr>)\<rparr>"
    using assms by (auto simp: open_engine_def Let_def split: prod.splits sum.splits if_splits)
  have "store_ok st" using ops_ok(6) [of "\<lparr>ts_max = 5, ts_tasks = [], ts_file = tf\<rparr>" rp fresh] st
    by (simp add: store_ok_def)
  moreover have "ts_max st = 5"
    using task_step_max [of rp "\<lparr>ts_max = 5, ts_tasks = [], ts_file = tf\<rparr>" "OpReload fresh"] st by simp
  moreover have "events_ok es" using reload_events_ok [of "\<lparr>es_bindings = [], es_file = ef\<rparr>" rp] es by simp
  ultimately have "engine_ok en"
    by (simp add: en engine_ok_def arm_task_timers_ok new_runtime_ok sys_max_def results_ok_def count_vals_def)
      (simp add: arm_task_timers_def new_runtime_def)
  moreover have "persisted en"
    by (auto simp: en persisted_def take_snapshot_def en_store_def)
  ultimately show ?thesis by (simp add: en)
qed

lemma drive_start:
  "open_engine e rp fresh tf ef None = Inr en \<Longrightarrow> never_repeats gen \<Longrightarrow>
     drive_ok \<lparr>d_gen = gen, d_count = 0, d_engine = en\<rparr>"
  using opened_ok [of e rp fresh tf ef en] by (simp add: drive_ok_def)

section \<open>Concrete services\<close>

definition unary :: "nat \<Rightarrow> nat \<Rightarrow> str" where
  "unary n i = replicate n 49 @ 48 # replicate i 49"

lemma unary_never_repeats: "never_repeats unary"
proof -
  have "n = m \<and> i = j" if "unary n i = unary m j" for n i m j
  proof -
    have pre: "takeWhile (\<lambda>c. c = 49) (unary a b) = replicate a 49" for a b
      by (simp add: unary_def takeWhile_append)
    have len: "length (unary a b) = a + 1 + b" for a b by (simp add: unary_def)
    from arg_cong [OF that, of "takeWhile (\<lambda>c. c = 49)"] have "n = m"
      by (simp add: pre)
    then show ?thesis using arg_cong [OF that, of length] by (simp add: len)
  qed
  then show ?thesis by (auto simp: never_repeats_def inj_def)
qed

definition sample_env :: "rat \<Rightarrow> env" where
  "sample_env now = \<lparr>e_now = now, e_alive = (\<lambda>p. p \<noteq> []), e_uuid = u ''id'', e_offset = 100,
     e_offset_later = 100, e_commit = True\<rparr>"

definition sample_event :: "sys_event" where
  "sample_event = \<lparr>ev_source = u ''manual'', ev_name = u ''task:1'', ev_task = [], ev_created = 0,
     ev_task_id = Some 1, ev_generation = u ''g'', ev_run_id = u ''r'', ev_offer_id = []\<rparr>"

definition sample_run :: "run_state \<Rightarrow> run" where
  "sample_run s = \<lparr>r_event = sample_event\<lparr>ev_offer_id := (if s = Pending then [] else u ''o'')\<rparr>,
     r_policy = Some (u ''auto''), r_executor = (if s = Pending then None else Some (u ''openai'')),
     r_state = s, r_owner = (if s = Pending then [] else u ''w''), r_peer = (if s = Pending then [] else u ''p''),
     r_outcome = [], r_status = None\<rparr>"

definition sample_worker :: "rat \<Rightarrow> worker" where
  "sample_worker seen = \<lparr>w_owner = u ''w'', w_peer = u ''p'', w_executor = u ''openai'', w_ready = True,
     w_reason = [], w_last_seen = seen\<rparr>"

definition sample_engine :: "run_state \<Rightarrow> engine" where
  "sample_engine s = \<lparr>en_sys = sample_runtime (Some 60), en_events = empty_events,
     en_runs = [(u ''r'', sample_run s)], en_results = [],
     en_workers = [((u ''w'', u ''p''), sample_worker 0)], en_disk = None\<rparr>"

lemma sample_max: "ts_max sample_store = 5"
  by (simp add: sample_store_def empty_store_def)

lemma sample_engine_ok: "engine_ok (sample_engine s)"
proof -
  have "run_ok (u ''r'') (sample_run s)"
    by (simp add: run_ok_def sample_run_def sample_event_def run_task_id_def policy_def occupies_def worker_executors_def)
  then have "runs_ok (en_runs (sample_engine s))"
    by (simp add: sample_engine_def runs_ok_def dwf_def unique_by_def count_vals_def max_live_runs_def)
  then show ?thesis
    using sample_runtime_ok [of 60]
    by (simp add: engine_ok_def sample_engine_def empty_events_def results_ok_def count_vals_def)
      (simp add: sys_max_def sample_runtime_def sample_max)
qed

lemma sample_engine_fields [simp]:
  "en_runs (sample_engine s) = [(u ''r'', sample_run s)]" "en_results (sample_engine s) = []"
  "en_sys (sample_engine s) = sample_runtime (Some 60)"
  by (simp_all add: sample_engine_def)

lemma sample_engine_store [simp]: "en_store (sample_engine s) = sample_store"
  by (simp add: en_store_def sample_engine_def sample_runtime_def)

section \<open>Along every history\<close>

text \<open>C2: from opening on, whatever the clients call and however often the clock ticks, at most one run of
  a task is offered or running, at most one live run stands for the timer of a task and generation, and
  the queue and the undelivered results stay within their limits.\<close>

theorem service_invariant:
  assumes "open_engine e rp fresh tf ef None = Inr en" and "never_repeats gen"
    and "all_ok op_ok drive_step \<lparr>d_gen = gen, d_count = 0, d_engine = en\<rparr> ops"
  defines "en' \<equiv> d_engine (foldl drive_step \<lparr>d_gen = gen, d_count = 0, d_engine = en\<rparr> ops)"
  shows "(\<forall>k r k' r'. dget (en_runs en') k = Some r \<longrightarrow> dget (en_runs en') k' = Some r' \<longrightarrow> occupies r \<longrightarrow> occupies r'
        \<longrightarrow> run_task_id r = run_task_id r' \<longrightarrow> k = k')
    \<and> (\<forall>k r k' r'. dget (en_runs en') k = Some r \<longrightarrow> dget (en_runs en') k' = Some r' \<longrightarrow> from_timer r \<longrightarrow> from_timer r'
        \<longrightarrow> activation_of r = activation_of r' \<longrightarrow> k = k')
    \<and> live_count en' \<le> 1024 \<and> unacked_count en' \<le> 1024"
proof -
  have "drive_ok (foldl drive_step \<lparr>d_gen = gen, d_count = 0, d_engine = en\<rparr> ops)"
    using drive_start [OF assms(1,2)] assms(3) by (rule drive_runs.inv_run)
  then have ok: "runs_ok (en_runs en')" "results_ok (en_results en')"
    by (simp_all add: en'_def drive_ok_def engine_ok_def)
  then show ?thesis
    by (simp add: runs_ok_def results_ok_def unique_by_def live_count_eq unacked_count_eq
        max_live_runs_def max_pending_results_def)
qed

definition opened :: engine where
  "opened = (case open_engine (sample_env 0) no_repr (\<lambda>n. []) NoFile NoEventFile None of Inr en \<Rightarrow> en
     | Inl _ \<Rightarrow> sample_engine Pending)"

lemma opened_eq: "open_engine (sample_env 0) no_repr (\<lambda>n. []) NoFile NoEventFile None = Inr opened"
  by (simp add: opened_def open_engine_def reload_tasks_def reload_events_def Let_def sample_env_def)

definition sample_ops :: "drive_op list" where
  "sample_ops = [DCall (sample_env 1) (TasksCreate sample_args), DCall (sample_env 2) (RunTask 1), DTick (sample_env 61) 61]"

theorem service_invariant_witness:
  "live_count (d_engine (foldl drive_step \<lparr>d_gen = unary, d_count = 0, d_engine = opened\<rparr> sample_ops)) \<le> 1024"
proof -
  have "all_ok op_ok drive_step \<lparr>d_gen = unary, d_count = 0, d_engine = opened\<rparr> sample_ops"
    by (simp add: sample_ops_def op_ok_def request_ok_def)
  from service_invariant [OF opened_eq unary_never_repeats this] show ?thesis by blast
qed

text \<open>C1: a run that was begun is never offered again, by any later calls or ticks: as long as it is kept
  it stays the same activation on the same executor, and once it is finished it does not change.\<close>

theorem begun_run_is_never_replayed:
  assumes "drive_ok d" and "all_ok op_ok drive_step d ops" and "dget (en_runs (d_engine d)) k = Some r"
    and "r_state r \<noteq> Pending" and "r_state r \<noteq> Offered"
    and "dget (en_runs (d_engine (foldl drive_step d ops))) k = Some r'"
  shows "r_state r' \<noteq> Pending \<and> r_state r' \<noteq> Offered \<and> r_event r' = r_event r \<and> r_executor r' = r_executor r
    \<and> (terminal (r_state r) \<longrightarrow> r' = r)"
  using run_moves_kept [OF run_followed [OF assms(1,2,3,6)]] assms(4,5) by (simp add: settled_def kept_def)

definition sample_drive :: "run_state \<Rightarrow> drive" where
  "sample_drive s = \<lparr>d_gen = (\<lambda>n i. if n = 0 \<and> i = 0 then u ''r'' else 48 # unary n i), d_count = 1,
     d_engine = (sample_engine s)\<lparr>en_disk := Some (take_snapshot 0 (sample_engine s))\<rparr>\<rparr>"

lemma sample_drive_ok: "drive_ok (sample_drive s)"
proof -
  have "inj (\<lambda>(n, i). unary n i)" using unary_never_repeats by (simp add: never_repeats_def)
  then have "never_repeats (d_gen (sample_drive s))"
    by (auto simp: never_repeats_def sample_drive_def inj_def text_eval)
  then show ?thesis
    using sample_engine_ok [of s] by (simp add: drive_ok_def sample_drive_def persisted_def) blast
qed

theorem begun_run_is_never_replayed_witness:
  "\<exists>r'. dget (en_runs (d_engine (foldl drive_step (sample_drive Running) [DCall (sample_env 500) Ping]))) (u ''r'') = Some r'
     \<and> r_state r' \<noteq> Pending"
proof -
  let ?d = "foldl drive_step (sample_drive Running) [DCall (sample_env 500) Ping]"
  have "dget (en_runs (d_engine ?d)) (u ''r'') = Some (sample_run Running)"
    by (simp add: engine_call_def dispatch_def conclude_def Let_def sample_drive_def sample_engine_def)
  moreover from begun_run_is_never_replayed [OF sample_drive_ok _ _ _ _ this, of "sample_run Running"]
  have "r_state (sample_run Running) \<noteq> Pending"
    by (simp add: sample_drive_def sample_engine_def sample_run_def op_ok_def request_ok_def)
  ultimately show ?thesis by blast
qed

section \<open>Failure and restart\<close>

text \<open>C6: a call that fails, in the operation or in the commit, leaves no trace: tasks, bindings, timers,
  runs and results are those before the call (timers up to the change of the clock offset), and the saved
  row is untouched.\<close>

theorem failed_call_is_undone:
  assumes "engine_ok en" and "request_ok req" and "fst (engine_call e req en) = Inl err"
  shows "take_snapshot z (snd (engine_call e req en)) = take_snapshot (z + e_offset e - e_offset_later e) en
    \<and> en_disk (snd (engine_call e req en)) = en_disk en"
  using conclude_undone [OF assms(1) dispatch_reaches [OF assms(1,2), of e "{e_uuid e}"]] assms(3)
  by (simp add: engine_call_def)

theorem failed_call_is_undone_witness:
  "take_snapshot 0 (snd (engine_call ((sample_env 7)\<lparr>e_commit := False\<rparr>) (RunTask 1) (sample_engine Running)))
     = take_snapshot 0 (sample_engine Running)"
proof -
  let ?e = "(sample_env 7)\<lparr>e_commit := False\<rparr>"
  have "fst (engine_call ?e (RunTask 1) (sample_engine Running)) = Inl CommitFailed"
    by (simp add: engine_call_def dispatch_def conclude_def Let_def engine_require_def on_sys_def with_store_def
        sample_runtime_def require_task_def replying_def queue_event_def plain_event_def live_count_def max_live_runs_def
        take_snapshot_def en_store_def sample_env_def text_eval)
  from failed_call_is_undone [OF sample_engine_ok _ this, of 0] show ?thesis
    by (simp add: request_ok_def sample_env_def)
qed

text \<open>C7: at every moment of a history the saved row is enough to restart: a service opened on it is well
  formed and holds the same tasks, bindings, timers, runs and results; only the workers must register anew.\<close>

theorem restart_recovers_state:
  assumes "drive_ok d" and "all_ok op_ok drive_step d ops"
  shows "\<exists>en shift. open_engine e rp fresh tf ef (en_disk (d_engine (foldl drive_step d ops))) = Inr en
    \<and> engine_ok en \<and> en_workers en = []
    \<and> take_snapshot z en = take_snapshot (z + shift) (d_engine (foldl drive_step d ops))"
proof -
  let ?en = "d_engine (foldl drive_step d ops)"
  have "drive_ok (foldl drive_step d ops)" using assms by (rule drive_runs.inv_run)
  then have ok: "engine_ok ?en" and "persisted ?en" by (simp_all add: drive_ok_def)
  then obtain off where disk: "en_disk ?en = Some (take_snapshot off ?en)" by (auto simp: persisted_def)
  let ?blank = "\<lparr>en_sys = new_runtime (Some \<lparr>ts_max = 5, ts_tasks = [], ts_file = tf\<rparr>),
      en_events = \<lparr>es_bindings = [], es_file = ef\<rparr>, en_runs = [], en_results = [], en_workers = [],
      en_disk = en_disk ?en\<rparr>"
  let ?new = "restore_snapshot (e_offset e) (take_snapshot off ?en) ?blank"
  have "sys_max (en_sys ?blank) = Some 5" by (simp add: sys_max_def new_runtime_def)
  then have "engine_ok ?new" by (rule restored_ok [OF ok])
  moreover have "en_workers ?new = []" using restored_fields(3) [OF ok, of "e_offset e" off ?blank] by simp
  moreover have "take_snapshot z ?new = take_snapshot (z + (off - e_offset e)) ?en"
    using restored_snapshot [OF ok, of z "e_offset e" off ?blank] by (simp add: algebra_simps)
  ultimately show ?thesis using disk by (auto simp: open_engine_def)
qed

theorem restart_recovers_state_witness:
  "\<exists>en. open_engine (sample_env 5) no_repr (\<lambda>n. []) NoFile NoEventFile (en_disk (d_engine (sample_drive Offered))) = Inr en
     \<and> engine_ok en"
  using restart_recovers_state [OF sample_drive_ok [of Offered], of "[]" "sample_env 5" no_repr "\<lambda>n. []" NoFile NoEventFile 0]
  by auto

section \<open>Offers, pauses and clock ticks\<close>

text \<open>C20: a pull either repeats an offer the worker already holds, or offers the first pending run it may
  have: no other run of the task is offered or running, an explicit policy names the worker's executor,
  and an automatic run goes to the preferred ready executor through a worker with a live lease.\<close>

theorem pull_offers_first_admissible:
  assumes "dwf (en_runs en)" and "pull e owner peer x seen skip en = (Inr (REvent ev), en')"
  shows "(\<exists>k r. en' = en \<and> dget (en_runs en) k = Some r \<and> r_state r = Offered \<and> r_owner r = owner \<and> r_peer r = peer
      \<and> ev = r_event r)
    \<or> (\<exists>before k r after. en_runs en = before @ (k, r) # after
      \<and> list_all (\<lambda>p. \<not> offerable e en owner peer x skip (snd p)) before
      \<and> r_state r = Pending \<and> run_task_id r \<notin> set (occupied en)
      \<and> (if policy r = Some (u ''auto'') then best_ready e en = Some x \<and> worker_ready e en owner peer else policy r = Some x)
      \<and> en' = en\<lparr>en_runs := dput k (offer (e_uuid e) owner peer x r) (en_runs en)\<rparr>
      \<and> ev = (r_event r)\<lparr>ev_offer_id := e_uuid e\<rparr>)"
proof (cases "find (\<lambda>p. resend owner peer seen skip (snd p)) (en_runs en)")
  case (Some p)
  then obtain k r where f: "find (\<lambda>p. resend owner peer seen skip (snd p)) (en_runs en) = Some (k, r)" by (cases p) auto
  from find_dget [OF assms(1) f] f assms(2) show ?thesis
    by (auto simp: pull_def resend_def split: if_splits)
next
  case None
  then obtain k r where f: "find (\<lambda>p. offerable e en owner peer x skip (snd p)) (en_runs en) = Some (k, r)"
    and out: "en' = en\<lparr>en_runs := dput k (offer (e_uuid e) owner peer x r) (en_runs en)\<rparr>"
      "ev = r_event (offer (e_uuid e) owner peer x r)"
    using assms(2) by (auto simp: pull_def Let_def split: if_splits option.splits prod.splits)
  from f obtain i where i: "i < length (en_runs en)" "en_runs en ! i = (k, r)"
    and here: "offerable e en owner peer x skip r"
    and earlier: "\<forall>j<i. \<not> offerable e en owner peer x skip (snd (en_runs en ! j))"
    by (auto simp: find_Some_iff) (metis snd_conv)
  have split: "en_runs en = take i (en_runs en) @ (k, r) # drop (Suc i) (en_runs en)"
    using i id_take_nth_drop by metis
  have "list_all (\<lambda>p. \<not> offerable e en owner peer x skip (snd p)) (take i (en_runs en))"
    using earlier by (auto simp: list_all_length)
  moreover have "ev = (r_event r)\<lparr>ev_offer_id := e_uuid e\<rparr>" using out(2) by (simp add: offer_def)
  moreover have "r_state r = Pending" "run_task_id r \<notin> set (occupied en)"
    "if policy r = Some (u ''auto'') then best_ready e en = Some x \<and> worker_ready e en owner peer else policy r = Some x"
    using here by (auto simp: offerable_def Let_def split: if_splits)
  moreover note split out(1)
  ultimately show ?thesis
    by (intro disjI2 exI [of _ "take i (en_runs en)"] exI [of _ k] exI [of _ r] exI [of _ "drop (Suc i) (en_runs en)"] conjI)
qed

lemma sample_pull:
  "pull (sample_env 3) (u ''w'') (u ''p'') (u ''openai'') [] [] (sample_engine Pending) =
     (Inr (REvent (sample_event\<lparr>ev_offer_id := u ''id''\<rparr>)),
      (sample_engine Pending)\<lparr>en_runs := [(u ''r'', offer (u ''id'') (u ''w'') (u ''p'') (u ''openai'') (sample_run Pending))]\<rparr>)"
  by (simp add: pull_def worker_executors_def resend_def sample_run_def offerable_def occupied_def occupies_def policy_def
      best_ready_def executor_ready_def worker_ready_def Let_def offer_def)
    (simp add: sample_engine_def sample_worker_def sample_event_def sample_env_def lease_live_def lease_seconds_def)

theorem pull_offers_first_admissible_witness:
  "\<exists>k r. dget (en_runs (sample_engine Pending)) k = Some r \<and> (r_state r = Pending \<or> r_state r = Offered)"
proof -
  have "dwf (en_runs (sample_engine Pending))" by (simp add: dwf_def)
  from pull_offers_first_admissible [OF this sample_pull] show ?thesis by (auto simp: sample_run_def)
qed

text \<open>C23: once a task is paused none of its runs is pending or offered any more, so resuming it under the
  same generation cannot revive an offer made before the pause.\<close>

theorem pause_revokes_unstarted_runs:
  assumes "engine_ok en" and "engine_call e (PauseTask i) en = (Inr v, en')"
    and "dget (en_runs en') k = Some r" and "run_task_id r = Some i"
  shows "r_state r \<noteq> Pending \<and> r_state r \<noteq> Offered"
proof -
  have "fst (conclude e en (dispatch e (PauseTask i) en)) = Inr v" using assms(2) by (simp add: engine_call_def)
  from conclude_Inr [OF this] assms(2) obtain en1 where d: "dispatch e (PauseTask i) en = (Inr v, en1)"
    and runs: "en_runs en' = en_runs en1"
    by (cases "dispatch e (PauseTask i) en") (auto simp: engine_call_def)
  from d obtain en0 where stop: "engine_stop e i True en = (Inr v, en0)" and en1: "en1 = reconcile e en0"
    by (auto simp: dispatch_def then_do_def split: prod.splits sum.splits)
  have ok0: "engine_ok en0" using stop_reaches [OF assms(1), of "{}" e i True] stop by (simp add: reaches_def)
  obtain t s where t: "stop_task Owned (e_uuid e) i True (en_sys en) = (Inr t, s)" and en0: "en0 = en\<lparr>en_sys := s\<rparr>"
    using stop by (auto simp: engine_stop_def replying_def then_do_def on_sys_def split: prod.splits sum.splits)
  have "get_task (en_store en0) i = Some t \<and> \<not> t_enabled t"
  proof -
    obtain st where st: "sr_store (en_sys en) = Some st" and sok: "store_ok st"
      using engine_okD(8,9) [OF assms(1)] by blast
    obtain q st1 where q: "set_enabled Owned (e_uuid e) i False True st = (q, st1)" by fastforce
    note w = with_store_Some [OF st, of "set_enabled Owned (e_uuid e) i False True", OF q]
    have "q = Inr t" and "sr_store s = Some st1"
      using t by (auto simp: stop_task_def w split: sum.splits option.splits)
    moreover obtain cur where "t = cur\<lparr>t_enabled := False, t_generation := t_generation cur\<rparr>"
      "save_tasks Owned (st\<lparr>ts_tasks := dput i t (ts_tasks st)\<rparr>) = Some st1"
      using set_enabled_Inr [of Owned "e_uuid e" i False True st t st1] q \<open>q = Inr t\<close> sok by auto
    ultimately show ?thesis
      using get_task_put [of Owned i t st st1] by (simp add: en0 en_store_def)
  qed
  then have stale: "\<not> current en0 r0" if "run_task_id r0 = Some i" for r0
    using that by (simp add: current_def)
  obtain r0 where r0: "dget (en_runs en0) k = Some r0" "r = reconcile_run e en0 r0"
    using dget_reconcile [OF engine_okD(6) [OF ok0]] assms(3) runs en1 by metis
  have "run_task_id r0 = Some i"
    using assms(4) reconcile_run_weaker [of r0 e en0] by (simp add: r0(2) weaker_def activation_of_def)
  with stale show ?thesis by (auto simp: r0(2) reconcile_run_def)
qed

lemma conclude_commit:
  "e_commit e \<Longrightarrow> \<exists>en'. conclude e en (Inr v, en1) = (Inr v, en') \<and> en_runs en' = en_runs en1 \<and> en_results en' = en_results en1"
  by (simp add: conclude_def Let_def)

lemma sample_env_commits [simp]: "e_commit (sample_env now)"
  by (simp add: sample_env_def)

theorem pause_revokes_unstarted_runs_witness:
  "\<exists>en'. engine_call (sample_env 4) (PauseTask 1) (sample_engine Offered) = (Inr (RTask (sample_task (u ''g'')\<lparr>t_enabled := False\<rparr>)), en')
     \<and> dget (en_runs en') (u ''r'') = Some (sample_run Offered\<lparr>r_state := Cancelled\<rparr>) \<and> Cancelled \<noteq> Offered"
proof -
  let ?c = "engine_call (sample_env 4) (PauseTask 1) (sample_engine Offered)"
  let ?r = "sample_run Offered\<lparr>r_state := Cancelled\<rparr>"
  have stop: "stop_task Owned (u ''id'') 1 True (sample_runtime (Some 60)) =
     (Inr (sample_task (u ''g'')\<lparr>t_enabled := False\<rparr>), \<lparr>sr_timers = [],
        sr_task_timers = [(1, new_timer 1 60 [] False None)],
        sr_store = Some (empty_store\<lparr>ts_tasks := [(1, sample_task (u ''g'')\<lparr>t_enabled := False\<rparr>)]\<rparr>)\<rparr>)"
    by (simp add: stop_task_def with_store_def sample_runtime_def set_enabled_def require_task_def return_updated_def
        replace_task_def save_tasks_def Let_def new_timer_def)
      (simp add: sample_task_def sample_store_def)
  have d: "dispatch (sample_env 4) (PauseTask 1) (sample_engine Offered) = (Inr (RTask (sample_task (u ''g'')\<lparr>t_enabled := False\<rparr>)),
      (sample_engine Offered)\<lparr>en_sys := \<lparr>sr_timers = [], sr_task_timers = [(1, new_timer 1 60 [] False None)],
        sr_store = Some (empty_store\<lparr>ts_tasks := [(1, sample_task (u ''g'')\<lparr>t_enabled := False\<rparr>)]\<rparr>)\<rparr>,
        en_runs := [(u ''r'', ?r)]\<rparr>)"
    by (simp add: dispatch_def engine_stop_def replying_def on_sys_def stop sample_env_def reconcile_def dmap_def
        reconcile_run_def current_def sample_run_def sample_event_def run_task_id_def en_store_def get_task_def
        drop_oldest_def kept_finished_runs_def)
  then obtain en1 where en1: "dispatch (sample_env 4) (PauseTask 1) (sample_engine Offered)
      = (Inr (RTask (sample_task (u ''g'')\<lparr>t_enabled := False\<rparr>)), en1)" "en_runs en1 = [(u ''r'', ?r)]" by simp
  obtain en' where c: "?c = (Inr (RTask (sample_task (u ''g'')\<lparr>t_enabled := False\<rparr>)), en')" "en_runs en' = [(u ''r'', ?r)]"
    using conclude_commit [OF sample_env_commits] en1 unfolding engine_call_def en1(1) by metis
  have "r_state ?r \<noteq> Offered"
    using pause_revokes_unstarted_runs [OF sample_engine_ok c(1), of "u ''r''" ?r] c(2)
    by (simp add: sample_run_def sample_event_def run_task_id_def)
  with c show ?thesis by auto
qed

lemma queue_all_sys: "en_sys (snd (queue_all us evs en)) = en_sys en"
proof (induction us evs en rule: queue_all.induct)
  case (2 us ev evs en)
  obtain v en1 where q: "queue_event (us 0) ev en = (v, en1)" by fastforce
  have "en_sys en1 = en_sys en" using queue_event_frame [of "us 0" ev en] q by simp
  then show ?case using 2 q by (cases v) simp_all
qed simp

text \<open>C21: a clock tick that succeeds leaves a live run of the current generation for every enabled task
  whose timer was due, and every timer it polled is due again only later.\<close>

theorem tick_activates_due_tasks:
  assumes ok: "engine_ok en" and named: "sr_timers (en_sys en) = []"
    and fresh: "inj us" "\<And>n. us n \<notin> set (dkeys (en_runs en))"
    and tick: "tick e us now en = (Inr (), en')"
    and due: "dget (sr_task_timers (en_sys en)) i = Some tm" "timer_due now tm"
  shows "\<exists>t k r tm'. get_task (en_store en) i = Some t \<and> dget (en_runs en') k = Some r \<and> live r
    \<and> run_task_id r = Some i \<and> ev_generation (r_event r) = t_generation t
    \<and> dget (sr_task_timers (en_sys en')) i = Some tm' \<and> (\<forall>d. tm_next tm' = Some d \<longrightarrow> now < d)"
proof -
  have "fst (conclude e en (tick_body e us now en)) = Inr ()" using tick by (simp add: tick_def)
  from conclude_Inr [OF this] tick obtain en1 where body: "tick_body e us now en = (Inr (), en1)"
    and same: "en_runs en' = en_runs en1" "en_sys en' = en_sys en1"
    by (cases "tick_body e us now en") (auto simp: tick_def)
  let ?rec = "reconcile e en"
  have okr: "engine_ok ?rec" using reconcile_reaches [OF ok] by (simp add: reaches_def)
  note poll = poll_due_eq [OF engine_okD(1,8) [OF ok], of now False]
  let ?sys = "(en_sys en)\<lparr>sr_timers := [], sr_task_timers := dmap (polled now False) (sr_task_timers (en_sys en))\<rparr>"
  let ?evs = "map (\<lambda>t. task_event now t (t_generation (the (get_task (en_store en) (tm_key t)))))
      (filter (timer_due now) (dvals (sr_task_timers (en_sys en))))"
  have p: "poll_due now False (en_sys en) = (Inr ?evs, ?sys)"
    unfolding poll by (simp add: named dmap_def)
  let ?mid = "?rec\<lparr>en_sys := ?sys\<rparr>"
  have "on_sys (poll_due now False) ?rec = (Inr ?evs, ?mid)" by (simp add: on_sys_def p)
  then have q: "queue_all us ?evs ?mid = (Inr (), en1)" using body by (simp add: tick_body_def)
  have okm: "engine_ok ?mid"
    using on_sys_reaches [OF okr keeps_poll, of "{}" now False] \<open>on_sys (poll_due now False) ?rec = (Inr ?evs, ?mid)\<close>
    by (simp add: reaches_def)
  have keys: "us n \<notin> set (dkeys (en_runs ?mid))" for n
  proof -
    have "dget (en_runs en) (us n) = None" using fresh(2) by (simp add: dget_None_iff)
    then have "dget (en_runs ?rec) (us n) = None"
      using dget_reconcile [OF engine_okD(6) [OF ok], of e "us n"] by (cases "dget (en_runs ?rec) (us n)") auto
    then show ?thesis by (simp add: dget_None_iff)
  qed
  have tmk: "tm_key tm = i" using engine_okD(12) [OF ok] due(1) by (simp add: timers_ok_def)
  obtain t where t: "get_task (en_store en) i = Some t" "t_enabled t"
    using in_sync_timer [OF engine_okD(13) [OF ok] due(1)] due(2) by (auto simp: timer_due_def)
  let ?ev = "task_event now tm (t_generation t)"
  have ev: "?ev \<in> set ?evs" using due t(1) tmk dvals_dget by (force simp: image_iff)
  have store: "en_store ?mid = en_store en" by (simp add: en_store_def)
  have "has_live en1 ?ev"
    by (rule queue_all_has_live [OF okm fresh(1) keys ev _ _ _ _ q, of i t])
      (simp_all add: task_event_def tmk t store)
  then obtain k r where r: "dget (en_runs en') k = Some r" "live r" "activation_of r = (Some i, t_generation t)"
    by (auto simp: has_live_def task_event_def tmk same)
  have sys1: "en_sys en1 = ?sys" using queue_all_sys [of us ?evs ?mid] q by simp
  have "dget (sr_task_timers (en_sys en')) i = Some (polled now False tm)"
    using due(1) by (simp add: same sys1)
  moreover have "now < d" if "tm_next (polled now False tm) = Some d" for d
  proof -
    have "timer_ok tm" using engine_okD(12) [OF ok] due(1) by (simp add: timers_ok_def)
    moreover have "tm_enabled (polled now False tm)" using due(2) by (simp add: timer_due_def)
    ultimately show ?thesis using polled_not_due [of tm now False] that by (simp add: timer_due_def)
  qed
  ultimately show ?thesis using t(1) r by (auto simp: activation_of_def)
qed

lemma sample_runtime_fields [simp]:
  "sr_timers (sample_runtime nxt) = []" "sr_task_timers (sample_runtime nxt) = [(1, new_timer 1 60 [] True nxt)]"
  "sr_store (sample_runtime nxt) = Some sample_store"
  by (simp_all add: sample_runtime_def)

lemma sample_reconcile: "reconcile (sample_env now) (sample_engine Running) = sample_engine Running"
  by (simp add: reconcile_def dmap_def reconcile_run_def drop_oldest_def kept_finished_runs_def)
    (simp add: sample_run_def sample_env_def sample_engine_def)

lemma sample_tick: "fst (tick (sample_env 61) (unary 0) 61 (sample_engine Running)) = Inr ()"
proof -
  note e = poll_due_eq [OF sample_runtime_ok sample_runtime_fields(3), of 61 False 60]
  have p: "poll_due 61 False (sample_runtime (Some 60)) =
      (Inr [task_event 61 (new_timer 1 60 [] True (Some 60)) (u ''g'')], snd (poll_due 61 False (sample_runtime (Some 60))))"
    by (rule prod_eqI) (simp_all add: e, simp add: new_timer_def timer_due_def)
  have s: "sr_store (snd (poll_due 61 False (sample_runtime (Some 60)))) = Some sample_store"
    by (simp add: e)
  obtain sys where sys: "poll_due 61 False (sample_runtime (Some 60)) =
      (Inr [task_event 61 (new_timer 1 60 [] True (Some 60)) (u ''g'')], sys)" "sr_store sys = Some sample_store"
    using p s by metis
  have "queue_event (unary 0 0) (task_event 61 (new_timer 1 60 [] True (Some 60)) (u ''g'')) ((sample_engine Running)\<lparr>en_sys := sys\<rparr>)
      = (Inr None, (sample_engine Running)\<lparr>en_sys := sys\<rparr>)"
    by (simp add: queue_event_def task_event_def new_timer_def en_store_def sys(2))
      (simp add: sample_engine_def same_activation_def sample_run_def sample_event_def run_task_id_def)
  then have "tick_body (sample_env 61) (unary 0) 61 (sample_engine Running) = (Inr (), (sample_engine Running)\<lparr>en_sys := sys\<rparr>)"
    by (simp add: tick_body_def sample_reconcile on_sys_def sys(1))
  then show ?thesis
    using conclude_commit [OF sample_env_commits, of 61 "sample_engine Running" "()"] unfolding tick_def by (metis fst_conv)
qed

theorem tick_activates_due_tasks_witness:
  "\<exists>k r. dget (en_runs (snd (tick (sample_env 61) (unary 0) 61 (sample_engine Running)))) k = Some r \<and> live r
     \<and> run_task_id r = Some 1"
proof -
  have t: "tick (sample_env 61) (unary 0) 61 (sample_engine Running) =
      (Inr (), snd (tick (sample_env 61) (unary 0) 61 (sample_engine Running)))"
    using sample_tick by (metis prod.collapse)
  have d: "dget (sr_task_timers (en_sys (sample_engine Running))) 1 = Some (new_timer 1 60 [] True (Some 60))"
    by (simp add: sample_runtime_def)
  have u: "inj (unary 0)" by (auto simp: inj_def unary_def dest: arg_cong [of _ _ length])
  have f: "unary 0 n \<notin> set (dkeys (en_runs (sample_engine Running)))" for n
    by (simp add: dkeys_def unary_def text_eval)
  have "timer_due 61 (new_timer (1::int) 60 [] True (Some 60))" by (simp add: timer_due_def new_timer_def)
  from tick_activates_due_tasks [OF sample_engine_ok _ u f t d this] show ?thesis
    by (auto simp: sample_runtime_def)
qed

section \<open>Results\<close>

lemma then_do_same: "f (snd r) = c \<Longrightarrow> (\<And>v s. f (snd (k v s)) = f s) \<Longrightarrow> f (snd (then_do r k)) = c"
  by (auto simp: then_do_def split: prod.split sum.split)

lemma results_frame [simp]:
  "en_results (snd (on_sys f en)) = en_results en" "en_results (snd (on_events g en)) = en_results en"
  "en_results (snd (queue_event ident ev en)) = en_results en"
  "en_results (snd (engine_require i en)) = en_results en" "en_results (snd (create_with_timer e a en)) = en_results en"
  "en_results (snd (engine_start e i pr en)) = en_results en" "en_results (snd (engine_stop e i pr en)) = en_results en"
  by (simp_all add: on_sys_def on_events_def queue_event_frame engine_require_def create_with_timer_def engine_start_def
      engine_stop_def split: prod.split sum.split)

lemma results_frame2 [simp]:
  "en_results (snd (engine_delete i en)) = en_results en" "en_results (snd (external_event e s n v en)) = en_results en"
  "en_results (snd (create_external e a ba en)) = en_results en"
  by (auto simp: engine_delete_def external_event_def create_external_def intro!: then_do_same [of en_results]
      split: option.split)

lemma worker_results:
  assumes "dget (en_results en) k = Some q"
  shows "dget (en_results (snd (worker_call e owner peer req en))) k = Some q"
proof -
  have pub: "dget (en_results (snd (publish_result owner peer run off result en'))) k = Some q"
    if "en_results en' = en_results en" for run off result en'
    using publish_effect [of owner peer run off result en'] that assms by auto
  have pull: "en_results (snd (pull e owner peer x seen skip en')) = en_results en'" for x seen skip en'
    by (simp add: pull_def Let_def split: option.split prod.split)
  have beg: "en_results (snd (begin_run j r en')) = en_results en'" for j r en'
    by (simp add: begin_run_def)
  have fin: "en_results (snd (finish_run j r out given en')) = en_results en'" for j r out given en'
    by (simp add: finish_run_def split: sum.split)
  have hb: "en_results (snd (heartbeat e owner peer x ready reason en')) = en_results en'" for x ready reason en'
    by (simp add: heartbeat_def Let_def split: json.split)
  have off: "en_results (offline e owner peer en') = en_results en'" for en'
    by (simp add: offline_def split: option.split)
  show ?thesis
  proof (cases req)
    case (PublishResult run offer result)
    then show ?thesis using assms pub [of "reconcile e en"] by (simp add: worker_call_def Let_def)
  next
    case (Begin j r)
    then show ?thesis
      using assms beg by (simp add: worker_call_def Let_def split: option.split prod.split) (metis reconcile_other(3) snd_conv)
  qed (use assms pull fin hb off in \<open>simp_all add: worker_call_def Let_def split: option.split\<close>)
qed

lemma ack_results:
  assumes "dwf (en_results en)" and "dget (en_results en) k = Some q" and "\<not> q_acked q" and "arg \<noteq> JStr k"
  shows "dget (en_results (snd (ack_notification arg en))) k = Some q"
proof (cases "\<exists>j q0. arg = JStr j \<and> dget (en_results en) j = Some q0")
  case False
  then have "snd (ack_notification arg en) = en"
    by (auto simp: ack_notification_def split: json.splits option.splits)
  then show ?thesis using assms by simp
next
  case True
  then obtain j q0 where j: "arg = JStr j" "dget (en_results en) j = Some q0" by blast
  let ?d = "dput j (q0\<lparr>q_acked := True\<rparr>) (en_results en)"
  have "en_results (snd (ack_notification arg en)) = drop_oldest max_acked_results q_acked ?d"
    by (simp add: ack_notification_def j prune_results_def)
  moreover have "dwf ?d" using assms(1) by simp
  ultimately show ?thesis
    using dget_drop_oldest(2) [of ?d k q q_acked max_acked_results] assms j by simp
qed

lemma dispatch_results:
  assumes "engine_ok en" and "dget (en_results en) k = Some q" and "\<not> q_acked q" and "req \<noteq> NotificationsAck (JStr k)"
  shows "dget (en_results (snd (dispatch e req en))) k = Some q"
proof (cases req)
  case (WorkerCall owner peer wr)
  then show ?thesis using worker_results [OF assms(2)] by (simp add: dispatch_def)
next
  case (NotificationsAck arg)
  then show ?thesis using ack_results [OF engine_okD(7) [OF assms(1)] assms(2,3)] assms(4) by (simp add: dispatch_def)
next
  case (EventsRegister i d ba)
  have "en_results (snd (dispatch e req en)) = en_results en"
    unfolding EventsRegister dispatch_def request.case by (rule then_do_same [of en_results]) simp_all
  then show ?thesis using assms(2) by simp
next
  case (PauseTask i)
  have "en_results (snd (dispatch e req en)) = en_results en"
    unfolding PauseTask dispatch_def request.case by (rule then_do_same [of en_results]) simp_all
  then show ?thesis using assms(2) by simp
next
  case (RunTask i)
  have "en_results (snd (dispatch e req en)) = en_results en"
    unfolding RunTask dispatch_def request.case by (rule then_do_same [of en_results]) simp_all
  then show ?thesis using assms(2) by simp
qed (use assms(2) in \<open>simp_all add: dispatch_def\<close>)

text \<open>C22: a published query result is never lost, altered or replaced before a client acknowledges it by its
  run: whatever the call, it is still there unchanged unless the call is that acknowledgement.\<close>

theorem unacknowledged_result_survives:
  assumes "engine_ok en" and "dget (en_results en) k = Some q" and "\<not> q_acked q"
    and "req \<noteq> NotificationsAck (JStr k)"
  shows "dget (en_results (snd (engine_call e req en))) k = Some q"
proof -
  have d: "dget (en_results (snd (dispatch e req en))) k = Some q"
    by (rule dispatch_results [OF assms])
  show ?thesis
  proof (cases "fst (conclude e en (dispatch e req en))")
    case (Inl err)
    then have "en_results (snd (engine_call e req en)) = en_results en"
      using restored_fields(2) [OF assms(1)]
      by (auto simp: engine_call_def conclude_def Let_def split: prod.splits sum.splits if_splits)
    then show ?thesis using assms(2) by simp
  next
    case (Inr v)
    then show ?thesis using conclude_Inr [OF Inr] d by (auto simp: engine_call_def)
  qed
qed

definition sample_result :: query_result where
  "sample_result = \<lparr>q_owner = u ''w'', q_peer = u ''p'', q_offer = u ''o'', q_payload = \<lparr>p_run_id = u ''r'',
     p_task_id = 1, p_source = u ''manual'', p_agent_id = u ''agent_1'', p_agent_ok = True, p_text = u ''done''\<rparr>,
     q_acked = False\<rparr>"

theorem unacknowledged_result_survives_witness:
  "dget (en_results (snd (engine_call (sample_env 9) (TasksDelete 1)
     ((sample_engine Running)\<lparr>en_results := [(u ''r'', sample_result)]\<rparr>)))) (u ''r'') = Some sample_result"
proof (rule unacknowledged_result_survives)
  have "result_ok (u ''r'') sample_result"
    by (simp add: result_ok_def sample_result_def max_query_text_def has_surrogate_def text_eval)
  then have "results_ok [(u ''r'', sample_result)]"
    by (simp add: results_ok_def dwf_def count_vals_def max_pending_results_def)
  then show "engine_ok ((sample_engine Running)\<lparr>en_results := [(u ''r'', sample_result)]\<rparr>)"
    using sample_engine_ok [of Running] by (simp add: engine_ok_def)
qed (simp_all add: sample_result_def)

end
