(* ===== verification/Contexts.thy ===== *)
theory Contexts
  imports Text
begin

text \<open>
  The resident model contexts of CORE (agent_core/core_scheduler.py): the dialogues with their
  contexts, the two warm manager slots KV1 and KV2 and the list of free ones. A context is an
  object the sources compare with \<open>is\<close>; here it is a number, 0 for the manager runtime of the
  bundle, every fork the next unused one. Forking, resetting and rebuilding a context is the work
  of the runtime: whether it succeeds is an argument. \<open>cx_closed\<close> records the contexts whose
  client was closed. The warm-up job runs atomically, so its second look at the ready flag finds
  what the first one saw.
\<close>

section \<open>State\<close>

datatype kv2_state = Kv2_not_ready | Kv2_queued | Kv2_warming | Kv2_ready

datatype warm_future = No_warm | Warm_running | Warm_done bool

record contexts =
  cx_contexts :: "(str, nat) dict"
  cx_enabled :: bool
  cx_fork :: bool
  cx_slot0 :: "nat option"
  cx_slot1 :: "nat option"
  cx_ready0 :: bool
  cx_ready1 :: bool
  cx_available :: "nat list"
  cx_kv2 :: kv2_state
  cx_requested :: bool
  cx_future :: warm_future
  cx_next :: nat
  cx_closed :: "nat list"

text \<open>The pool is enabled only where the runtime can fork and reset contexts.\<close>

definition new_contexts :: "bool \<Rightarrow> bool \<Rightarrow> contexts" where
  "new_contexts supported fork =
     (let on = supported \<and> fork
      in \<lparr>cx_contexts = [], cx_enabled = on, cx_fork = fork,
         cx_slot0 = (if on then Some 0 else None), cx_slot1 = None,
         cx_ready0 = on, cx_ready1 = False, cx_available = (if on then [0] else []),
         cx_kv2 = Kv2_not_ready, cx_requested = False, cx_future = No_warm,
         cx_next = 1, cx_closed = []\<rparr>)"

section \<open>Slots\<close>

definition slot_index :: "contexts \<Rightarrow> nat \<Rightarrow> nat option" where
  "slot_index s c = (if cx_slot0 s = Some c then Some 0 else if cx_slot1 s = Some c then Some 1 else None)"

definition slot_key :: "contexts \<Rightarrow> nat \<Rightarrow> nat" where
  "slot_key s c = (case slot_index s c of None \<Rightarrow> 99 | Some i \<Rightarrow> i)"

definition sort_available :: "contexts \<Rightarrow> contexts" where
  "sort_available s = s\<lparr>cx_available := sort_key (slot_key s) (cx_available s)\<rparr>"

text \<open>The two places that return a context to the free list add it only when it is not there.\<close>

definition add_available :: "nat \<Rightarrow> contexts \<Rightarrow> contexts" where
  "add_available c s =
     (if c \<in> set (cx_available s) then s
      else sort_available (s\<lparr>cx_available := cx_available s @ [c]\<rparr>))"

definition take_context :: "contexts \<Rightarrow> contexts \<times> nat option" where
  "take_context s =
     (case cx_available s of [] \<Rightarrow> (s, None) | c # cs \<Rightarrow> (s\<lparr>cx_available := cs\<rparr>, Some c))"

text \<open>Where a warm-up failed, the slot is empty again.\<close>

definition forget_kv2 :: "contexts \<Rightarrow> contexts" where
  "forget_kv2 s = s\<lparr>cx_kv2 := Kv2_not_ready, cx_ready1 := False, cx_slot1 := None\<rparr>"

definition warm_kv2 :: "bool \<Rightarrow> contexts \<Rightarrow> contexts \<times> bool" where
  "warm_kv2 fork_ok s =
     (if cx_ready1 s then (s\<lparr>cx_kv2 := Kv2_ready\<rparr>, True)
      else if \<not> fork_ok then (s, False)
      else
        (let c = cx_next s;
             s1 = s\<lparr>cx_next := Suc c, cx_slot1 := Some c, cx_ready1 := True,
                    cx_available := cx_available s @ [c]\<rparr>
         in ((sort_available s1)\<lparr>cx_kv2 := Kv2_ready\<rparr>, True)))"

definition request_warm :: "contexts \<Rightarrow> contexts \<times> kv2_state option" where
  "request_warm s =
     (if \<not> cx_enabled s then (s, None)
      else if cx_ready1 s then (s, Some Kv2_ready)
      else if cx_kv2 s = Kv2_queued \<or> cx_kv2 s = Kv2_warming then (s, Some (cx_kv2 s))
      else (s\<lparr>cx_kv2 := Kv2_queued, cx_requested := True\<rparr>, Some Kv2_queued))"

text \<open>
  The second component tells whether a warm-up job is handed to the executor; \<open>idle\<close> says that
  no request is in progress.
\<close>

definition poll_warm :: "bool \<Rightarrow> contexts \<Rightarrow> contexts \<times> bool" where
  "poll_warm idle s =
     (case cx_future s of
        Warm_running \<Rightarrow> (s, False)
      | Warm_done ok \<Rightarrow> ((if ok then s else forget_kv2 s)\<lparr>cx_future := No_warm\<rparr>, False)
      | No_warm \<Rightarrow>
          if cx_requested s \<and> idle
          then (s\<lparr>cx_requested := False, cx_kv2 := Kv2_warming, cx_future := Warm_running\<rparr>, True)
          else (s, False))"

definition warm_job :: "bool \<Rightarrow> contexts \<Rightarrow> contexts" where
  "warm_job fork_ok s = (let (s', ok) = warm_kv2 fork_ok s in s'\<lparr>cx_future := Warm_done ok\<rparr>)"

definition recover_kv1 :: "bool \<Rightarrow> contexts \<Rightarrow> contexts" where
  "recover_kv1 prepare_ok s =
     (case cx_slot0 s of
        None \<Rightarrow> s
      | Some c \<Rightarrow> if prepare_ok then add_available c (s\<lparr>cx_ready0 := True\<rparr>) else s)"

definition ensure_kv2 :: "bool \<Rightarrow> contexts \<Rightarrow> contexts \<times> bool" where
  "ensure_kv2 fork_ok s =
     (if cx_ready1 s then (s, True)
      else
        (let (s', ok) = warm_kv2 fork_ok (s\<lparr>cx_kv2 := Kv2_warming, cx_requested := False\<rparr>)
         in (if ok then s' else forget_kv2 s', ok)))"

datatype slot_state = Slot_not_ready | Slot_queued | Slot_warming | Slot_ready | Slot_busy

definition slot_view :: "bool \<Rightarrow> bool \<Rightarrow> nat option \<Rightarrow> contexts \<Rightarrow> bool \<times> slot_state" where
  "slot_view second ready slot s =
     (case (if ready then slot else None) of
        Some c \<Rightarrow> (True, if c \<in> set (cx_available s) then Slot_ready else Slot_busy)
      | None \<Rightarrow> (False, if second \<and> cx_kv2 s = Kv2_queued then Slot_queued
                         else if second \<and> cx_kv2 s = Kv2_warming then Slot_warming else Slot_not_ready))"

definition kv_snapshot :: "contexts \<Rightarrow> bool \<times> (bool \<times> slot_state) \<times> (bool \<times> slot_state)" where
  "kv_snapshot s = (cx_enabled s, slot_view False (cx_ready0 s) (cx_slot0 s) s,
                    slot_view True (cx_ready1 s) (cx_slot1 s) s)"

section \<open>Dialogues\<close>

text \<open>
  \<open>_context\<close>: the context of a dialogue, made on first use; \<open>None\<close> is the raised error. Only the
  requests of people take a warm manager slot.
\<close>

definition take_manager :: "bool \<Rightarrow> bool \<Rightarrow> contexts \<Rightarrow> contexts \<times> nat option" where
  "take_manager prepare_ok fork_ok s =
     (let s1 = (if cx_ready0 s then s else recover_kv1 prepare_ok s);
          (s2, c) = take_context s1
      in if c = None \<and> \<not> cx_ready1 s2
         then (let (s3, ok) = ensure_kv2 fork_ok s2
               in if ok then take_context s3 else (s3, None))
         else (s2, c))"

definition context_for :: "bool \<Rightarrow> bool \<Rightarrow> bool \<Rightarrow> str \<Rightarrow> contexts \<Rightarrow> contexts \<times> nat option" where
  "context_for prepare_ok fork_ok user key s =
     (case dget (cx_contexts s) key of
        Some c \<Rightarrow> (s, Some c)
      | None \<Rightarrow>
          if user \<and> cx_enabled s then
            (case take_manager prepare_ok fork_ok s of
               (s', None) \<Rightarrow> (s', None)
             | (s', Some c) \<Rightarrow> (s'\<lparr>cx_contexts := dput key c (cx_contexts s')\<rparr>, Some c))
          else if cx_fork s then
            (if fork_ok
             then (s\<lparr>cx_contexts := dput key (cx_next s) (cx_contexts s), cx_next := Suc (cx_next s)\<rparr>,
                   Some (cx_next s))
             else (s, None))
          else (s\<lparr>cx_contexts := dput key 0 (cx_contexts s)\<rparr>, Some 0))"

definition close_context :: "bool \<Rightarrow> bool \<Rightarrow> str \<Rightarrow> contexts \<Rightarrow> contexts" where
  "close_context stopped reset_ok key s =
     (case dget (cx_contexts s) key of
        None \<Rightarrow> s
      | Some c \<Rightarrow>
          (let s1 = s\<lparr>cx_contexts := ddel key (cx_contexts s)\<rparr>
           in case slot_index s1 c of
                None \<Rightarrow> if c \<noteq> 0 then s1\<lparr>cx_closed := c # cx_closed s1\<rparr> else s1
              | Some i \<Rightarrow>
                  if stopped then s1
                  else if \<not> reset_ok then
                    (let rest = filter (\<lambda>d. d \<noteq> c) (cx_available s1)
                     in if i = 0 then s1\<lparr>cx_ready0 := False, cx_available := rest\<rparr>
                        else s1\<lparr>cx_ready1 := False, cx_available := rest, cx_slot1 := None,
                                cx_kv2 := Kv2_not_ready, cx_closed := c # cx_closed s1\<rparr>)
                  else
                    (let s2 = add_available c s1
                     in if i = 0 then s2\<lparr>cx_ready0 := True\<rparr>
                        else s2\<lparr>cx_ready1 := True, cx_kv2 := Kv2_ready\<rparr>)))"

definition opt_list :: "'a option \<Rightarrow> 'a list" where
  "opt_list x = (case x of None \<Rightarrow> [] | Some y \<Rightarrow> [y])"

definition close_all :: "contexts \<Rightarrow> contexts" where
  "close_all s =
     (let held = dvals (cx_contexts s) @ opt_list (cx_slot0 s) @ opt_list (cx_slot1 s)
      in s\<lparr>cx_contexts := [], cx_available := [],
           cx_slot0 := (if cx_enabled s then Some 0 else None), cx_slot1 := None,
           cx_ready0 := False, cx_ready1 := False, cx_kv2 := Kv2_not_ready,
           cx_closed := remdups (filter (\<lambda>c. c \<noteq> 0) held) @ cx_closed s\<rparr>)"

section \<open>Invariant\<close>

text \<open>
  \<open>slots_ok\<close> ties the flags to the slots, \<open>free_ok\<close> says that the free list holds warm, unheld
  contexts, \<open>held_ok\<close> that no two dialogues share one and none is closed. While CORE is not
  stopping every warm context is free or held by a dialogue.
\<close>

definition warm :: "contexts \<Rightarrow> nat set" where
  "warm s = (if cx_ready0 s then set_option (cx_slot0 s) else {}) \<union> set_option (cx_slot1 s)"

definition held :: "contexts \<Rightarrow> nat set" where
  "held s = ran (dget (cx_contexts s))"

definition unshared :: "(str, nat) dict \<Rightarrow> bool" where
  "unshared d \<longleftrightarrow> (\<forall>k j c. dget d k = Some c \<longrightarrow> dget d j = Some c \<longrightarrow> k = j)"

definition slots_ok :: "contexts \<Rightarrow> bool" where
  "slots_ok s \<longleftrightarrow> (cx_enabled s \<longrightarrow> cx_fork s) \<and> cx_slot0 s = (if cx_enabled s then Some 0 else None)
     \<and> (cx_ready0 s \<longrightarrow> cx_enabled s) \<and> (cx_slot1 s = None \<longleftrightarrow> \<not> cx_ready1 s)
     \<and> (cx_ready1 s \<longrightarrow> cx_enabled s) \<and> (cx_requested s \<longrightarrow> cx_enabled s)
     \<and> (cx_future s \<noteq> No_warm \<longrightarrow> cx_enabled s)
     \<and> (cx_future s = Warm_done False \<longrightarrow> \<not> cx_ready1 s)"

definition closed_ok :: "contexts \<Rightarrow> bool" where
  "closed_ok s \<longleftrightarrow> 0 < cx_next s \<and> (\<forall>c\<in>set (cx_closed s). 0 < c \<and> c < cx_next s)
     \<and> (\<forall>c\<in>set_option (cx_slot1 s). 0 < c) \<and> (\<forall>c\<in>set_option (cx_slot1 s) \<union> held s. c < cx_next s)
     \<and> (set_option (cx_slot1 s) \<union> held s) \<inter> set (cx_closed s) = {}"

definition free_ok :: "contexts \<Rightarrow> bool" where
  "free_ok s \<longleftrightarrow> distinct (cx_available s) \<and> set (cx_available s) \<subseteq> warm s
     \<and> set (cx_available s) \<inter> held s = {}"

definition held_ok :: "contexts \<Rightarrow> bool" where
  "held_ok s \<longleftrightarrow> dwf (cx_contexts s) \<and> (cx_fork s \<longrightarrow> unshared (cx_contexts s))
     \<and> (cx_fork s \<longrightarrow> 0 \<in> held s \<longrightarrow> 0 \<in> warm s) \<and> (\<not> cx_fork s \<longrightarrow> held s \<subseteq> {0})"

definition kv_ok :: "bool \<Rightarrow> contexts \<Rightarrow> bool" where
  "kv_ok stopped s \<longleftrightarrow> slots_ok s \<and> closed_ok s \<and> free_ok s \<and> held_ok s
     \<and> (\<not> stopped \<longrightarrow> warm s \<subseteq> set (cx_available s) \<union> held s)"

lemmas kv_defs = kv_ok_def slots_ok_def closed_ok_def free_ok_def held_ok_def

lemma held_update [simp]:
  "held (s\<lparr>cx_slot0 := x\<rparr>) = held s" "held (s\<lparr>cx_slot1 := x\<rparr>) = held s"
  "held (s\<lparr>cx_ready0 := b\<rparr>) = held s" "held (s\<lparr>cx_ready1 := b\<rparr>) = held s"
  "held (s\<lparr>cx_available := l\<rparr>) = held s" "held (s\<lparr>cx_kv2 := k\<rparr>) = held s"
  "held (s\<lparr>cx_requested := b\<rparr>) = held s" "held (s\<lparr>cx_future := f\<rparr>) = held s"
  "held (s\<lparr>cx_next := n\<rparr>) = held s" "held (s\<lparr>cx_closed := l\<rparr>) = held s"
  "held (s\<lparr>cx_contexts := d\<rparr>) = ran (dget d)"
  by (simp_all add: held_def)

lemma warm_update [simp]:
  "warm (s\<lparr>cx_available := l\<rparr>) = warm s" "warm (s\<lparr>cx_kv2 := k\<rparr>) = warm s"
  "warm (s\<lparr>cx_requested := b\<rparr>) = warm s" "warm (s\<lparr>cx_future := f\<rparr>) = warm s"
  "warm (s\<lparr>cx_next := n\<rparr>) = warm s" "warm (s\<lparr>cx_closed := l\<rparr>) = warm s"
  "warm (s\<lparr>cx_contexts := d\<rparr>) = warm s"
  "warm (s\<lparr>cx_ready1 := b\<rparr>) = warm s"
  "warm (s\<lparr>cx_slot1 := x\<rparr>) = (if cx_ready0 s then set_option (cx_slot0 s) else {}) \<union> set_option x"
  "warm (s\<lparr>cx_ready0 := b\<rparr>) = (if b then set_option (cx_slot0 s) else {}) \<union> set_option (cx_slot1 s)"
  by (simp_all add: warm_def)

lemma kv_ok_new: "kv_ok False (new_contexts supported fork)"
  by (simp add: kv_defs new_contexts_def Let_def warm_def held_def unshared_def ran_def)

lemma add_available_as:
  "\<exists>l. add_available c s = s\<lparr>cx_available := l\<rparr> \<and> set l = insert c (set (cx_available s))
     \<and> (distinct (cx_available s) \<longrightarrow> distinct l)"
proof (cases "c \<in> set (cx_available s)")
  case True
  then have "add_available c s = s\<lparr>cx_available := cx_available s\<rparr>"
    by (simp add: add_available_def)
  with True show ?thesis by (metis insert_absorb)
next
  case False
  then show ?thesis
    unfolding add_available_def sort_available_def
    by (intro exI [where x = "sort_key (slot_key (s\<lparr>cx_available := cx_available s @ [c]\<rparr>)) (cx_available s @ [c])"])
      simp
qed

lemma take_context_as:
  assumes "take_context s = (s', r)"
  shows "r = None \<and> s' = s \<and> cx_available s = []
       \<or> (\<exists>c cs. r = Some c \<and> cx_available s = c # cs \<and> s' = s\<lparr>cx_available := cs\<rparr>)"
  using assms unfolding take_context_def by (cases "cx_available s") simp_all

lemma kv_ok_kv2 [simp]: "kv_ok st (s\<lparr>cx_kv2 := k\<rparr>) = kv_ok st s"
  by (simp add: kv_defs)

lemma kv_ok_requested: "kv_ok st s \<Longrightarrow> (b \<Longrightarrow> cx_enabled s) \<Longrightarrow> kv_ok st (s\<lparr>cx_requested := b\<rparr>)"
  by (simp add: kv_ok_def slots_ok_def closed_ok_def free_ok_def held_ok_def)

lemma kv_ok_future:
  "kv_ok st s \<Longrightarrow> (f \<noteq> No_warm \<Longrightarrow> cx_enabled s) \<Longrightarrow> (f = Warm_done False \<Longrightarrow> \<not> cx_ready1 s) \<Longrightarrow>
   kv_ok st (s\<lparr>cx_future := f\<rparr>)"
  by (simp add: kv_ok_def slots_ok_def closed_ok_def free_ok_def held_ok_def)

lemma kv_ok_enabled:
  "kv_ok st s \<Longrightarrow> cx_requested s \<Longrightarrow> cx_enabled s"
  "kv_ok st s \<Longrightarrow> cx_future s \<noteq> No_warm \<Longrightarrow> cx_enabled s"
  "kv_ok st s \<Longrightarrow> cx_enabled s \<Longrightarrow> cx_fork s"
  "kv_ok st s \<Longrightarrow> cx_future s = Warm_done False \<Longrightarrow> \<not> cx_ready1 s"
  by (simp_all add: kv_ok_def slots_ok_def)

lemma kv_ok_request_warm: "kv_ok st s \<Longrightarrow> kv_ok st (fst (request_warm s))"
  unfolding request_warm_def by (auto intro: kv_ok_requested)

lemma forget_not_ready: "slots_ok s \<Longrightarrow> \<not> cx_ready1 s \<Longrightarrow> forget_kv2 s = s\<lparr>cx_kv2 := Kv2_not_ready\<rparr>"
  unfolding forget_kv2_def slots_ok_def by (cases s) simp

lemma kv_ok_poll_warm:
  assumes "kv_ok st s"
  shows "kv_ok st (fst (poll_warm idle s))"
proof (cases "cx_future s")
  case No_warm
  then show ?thesis
    using assms kv_ok_enabled(1) [OF assms]
    by (auto simp: poll_warm_def intro!: kv_ok_future kv_ok_requested)
next
  case Warm_running
  with assms show ?thesis by (simp add: poll_warm_def)
next
  case (Warm_done ok)
  then have "\<not> ok \<Longrightarrow> forget_kv2 s = s\<lparr>cx_kv2 := Kv2_not_ready\<rparr>"
    using assms by (intro forget_not_ready) (auto simp: kv_ok_def slots_ok_def)
  with assms Warm_done show ?thesis
    by (auto simp: poll_warm_def intro!: kv_ok_future)
qed

lemma warm_kv2_as:
  assumes "warm_kv2 fork_ok s = (s', ok)"
  shows "(cx_ready1 s \<and> ok \<and> s' = s\<lparr>cx_kv2 := Kv2_ready\<rparr>) \<or> (\<not> cx_ready1 s \<and> \<not> ok \<and> s' = s)
       \<or> (\<not> cx_ready1 s \<and> ok \<and> (\<exists>l. s' = s\<lparr>cx_next := Suc (cx_next s), cx_slot1 := Some (cx_next s),
            cx_ready1 := True, cx_available := l, cx_kv2 := Kv2_ready\<rparr>
            \<and> set l = insert (cx_next s) (set (cx_available s))
            \<and> (distinct (cx_available s) \<and> cx_next s \<notin> set (cx_available s) \<longrightarrow> distinct l)))"
proof (cases "cx_ready1 s \<or> \<not> fork_ok")
  case True
  with assms show ?thesis by (auto simp: warm_kv2_def split: if_splits)
next
  case False
  define s1 where "s1 = s\<lparr>cx_next := Suc (cx_next s), cx_slot1 := Some (cx_next s), cx_ready1 := True,
    cx_available := cx_available s @ [cx_next s]\<rparr>"
  have "s' = s\<lparr>cx_next := Suc (cx_next s), cx_slot1 := Some (cx_next s), cx_ready1 := True,
      cx_available := sort_key (slot_key s1) (cx_available s @ [cx_next s]), cx_kv2 := Kv2_ready\<rparr>" "ok"
    using assms False by (auto simp: warm_kv2_def Let_def sort_available_def s1_def)
  with False show ?thesis
    by (intro disjI2 conjI exI [where x = "sort_key (slot_key s1) (cx_available s @ [cx_next s])"]) simp_all
qed

lemma next_fresh:
  assumes "kv_ok st s"
  shows "cx_next s \<notin> held s" "cx_next s \<notin> warm s" "cx_next s \<notin> set (cx_available s)"
    "cx_next s \<notin> set (cx_closed s)" "0 < cx_next s"
proof -
  from assms have c: "closed_ok s" and f: "set (cx_available s) \<subseteq> warm s" and
    slot: "set_option (cx_slot0 s) \<subseteq> {0}"
    by (simp_all add: kv_ok_def free_ok_def slots_ok_def)
  show "cx_next s \<notin> held s" "cx_next s \<notin> set (cx_closed s)" and pos: "0 < cx_next s"
    using c by (auto simp: closed_ok_def)
  show "cx_next s \<notin> warm s"
    using c slot pos by (auto simp: closed_ok_def warm_def split: if_splits)
  with f show "cx_next s \<notin> set (cx_available s)" by blast
qed

lemma kv_ok_warm_kv2:
  assumes ok: "kv_ok st s" and en: "cx_enabled s" and w: "warm_kv2 fork_ok s = (s', r)"
    and fu: "cx_future s \<noteq> Warm_done False"
  shows "kv_ok st s'" "cx_enabled s'" "cx_contexts s' = cx_contexts s" "cx_future s' = cx_future s"
    "cx_ready1 s' = r"
proof -
  note n = next_fresh [OF ok]
  from warm_kv2_as [OF w]
  have "kv_ok st s' \<and> cx_enabled s' \<and> cx_contexts s' = cx_contexts s \<and> cx_future s' = cx_future s
    \<and> cx_ready1 s' = r"
  proof (elim disjE conjE exE)
    fix l
    assume new: "\<not> cx_ready1 s" r "s' = s\<lparr>cx_next := Suc (cx_next s), cx_slot1 := Some (cx_next s),
            cx_ready1 := True, cx_available := l, cx_kv2 := Kv2_ready\<rparr>"
      and l: "set l = insert (cx_next s) (set (cx_available s))"
        "distinct (cx_available s) \<and> cx_next s \<notin> set (cx_available s) \<longrightarrow> distinct l"
    from ok l(2) n(3) have d: "distinct l" by (simp add: kv_ok_def free_ok_def)
    from ok new(1) have slot: "cx_slot1 s = None" by (simp add: kv_ok_def slots_ok_def)
    have w: "warm s' = insert (cx_next s) (warm s)" using slot new(3) by (simp add: warm_def)
    have h: "held s' = held s" using new(3) by simp
    have "slots_ok s'" using ok en new fu by (simp add: kv_ok_def slots_ok_def)
    moreover have "closed_ok s'"
      using ok n slot new(3) by (auto simp: kv_ok_def closed_ok_def)
    moreover have "free_ok s'"
      using ok n d l(1) unfolding free_ok_def w h by (simp add: kv_ok_def free_ok_def new(3)) blast
    moreover have "held_ok s'"
      using ok unfolding held_ok_def w h by (simp add: kv_ok_def held_ok_def new(3))
    moreover have "\<not> st \<longrightarrow> warm s' \<subseteq> set (cx_available s') \<union> held s'"
      using ok unfolding w h by (simp add: kv_ok_def new(3) l(1)) blast
    ultimately show ?thesis using new en by (simp add: kv_ok_def)
  qed (use ok en in simp_all)
  then show "kv_ok st s'" "cx_enabled s'" "cx_contexts s' = cx_contexts s" "cx_future s' = cx_future s"
    "cx_ready1 s' = r" by simp_all
qed

lemma kv_ok_warm_job:
  assumes "kv_ok st s" "cx_future s = Warm_running"
  shows "kv_ok st (warm_job fork_ok s)"
proof -
  obtain s' r where w: "warm_kv2 fork_ok s = (s', r)" by force
  have en: "cx_enabled s" using assms by (simp add: kv_ok_def slots_ok_def)
  note k = kv_ok_warm_kv2 [OF assms(1) en w]
  have "kv_ok st s'" "cx_enabled s'" "cx_ready1 s' = r"
    using k assms(2) by simp_all
  then show ?thesis by (auto simp: warm_job_def w intro!: kv_ok_future)
qed

lemma kv_ok_ensure:
  assumes "kv_ok st s" "cx_enabled s" "ensure_kv2 fork_ok s = (s', r)" "cx_future s \<noteq> Warm_done False"
  shows "kv_ok st s' \<and> cx_enabled s' \<and> cx_contexts s' = cx_contexts s \<and> cx_future s' = cx_future s"
proof (cases "cx_ready1 s")
  case True
  with assms show ?thesis by (simp add: ensure_kv2_def)
next
  case False
  let ?t = "s\<lparr>cx_kv2 := Kv2_warming, cx_requested := False\<rparr>"
  obtain t' q where w: "warm_kv2 fork_ok ?t = (t', q)" by force
  have t: "kv_ok st ?t" "cx_enabled ?t" "cx_future ?t \<noteq> Warm_done False"
    using assms by (auto intro!: kv_ok_requested)
  note k = kv_ok_warm_kv2 [OF t(1,2) w t(3)]
  show ?thesis
  proof (cases q)
    case True
    then show ?thesis using assms(3) False w k by (simp add: ensure_kv2_def)
  next
    case q: False
    then have "forget_kv2 t' = t'\<lparr>cx_kv2 := Kv2_not_ready\<rparr>"
      using k by (intro forget_not_ready) (simp_all add: kv_ok_def)
    then have "s' = t'\<lparr>cx_kv2 := Kv2_not_ready\<rparr>"
      using assms(3) False w q by (simp add: ensure_kv2_def)
    then show ?thesis using k by simp
  qed
qed

lemma dget_fun: "dget (dput k v d) = (dget d)(k \<mapsto> v)" "dget (ddel k d) = (dget d)(k := None)"
  by (rule ext; simp)+

lemma unshared_put: "unshared d \<Longrightarrow> c \<notin> ran (dget d) \<Longrightarrow> unshared (dput k c d)"
  unfolding unshared_def by (auto simp: ran_def)

lemma unshared_del: "unshared d \<Longrightarrow> unshared (ddel k d)"
  unfolding unshared_def by simp

lemma ran_del:
  assumes "unshared d" "dget d k = Some c"
  shows "ran (dget (ddel k d)) = ran (dget d) - {c}"
proof (intro set_eqI iffI)
  fix x
  assume "x \<in> ran (dget (ddel k d))"
  then obtain j where "dget d j = Some x" "j \<noteq> k" by (auto simp: ran_def split: if_splits)
  with assms show "x \<in> ran (dget d) - {c}" by (auto simp: unshared_def ran_def)
next
  fix x
  assume "x \<in> ran (dget d) - {c}"
  then obtain j where "dget d j = Some x" "x \<noteq> c" by (auto simp: ran_def)
  with assms have "dget (ddel k d) j = Some x" by auto
  then show "x \<in> ran (dget (ddel k d))" by (rule ranI)
qed

lemma ran_put: "dget d k = None \<Longrightarrow> ran (dget (dput k c d)) = insert c (ran (dget d))"
  by (simp add: dget_fun)

lemma kv_ok_hand_out:
  assumes ok: "kv_ok st s" and av: "cx_available s = c # cs" and new: "dget (cx_contexts s) key = None"
  shows "kv_ok st (s\<lparr>cx_available := cs, cx_contexts := dput key c (cx_contexts s)\<rparr>)" (is "kv_ok st ?s")
proof -
  from ok av have c: "c \<notin> set cs" "c \<in> warm s" "c \<notin> held s" "set cs \<subseteq> warm s" "set cs \<inter> held s = {}"
    by (auto simp: kv_ok_def free_ok_def slots_ok_def)
  have f: "cx_fork s" using ok c(2) by (auto simp: kv_ok_def slots_ok_def warm_def split: if_splits)
  have h: "held ?s = insert c (held s)" using new by (simp add: ran_put) (simp add: held_def)
  have "slots_ok ?s" using ok by (simp add: kv_ok_def slots_ok_def)
  moreover have "closed_ok ?s"
    using ok c(2) unfolding closed_ok_def h
    by (auto simp: kv_ok_def closed_ok_def slots_ok_def warm_def split: if_splits)
  moreover have "free_ok ?s"
    using ok c unfolding free_ok_def h by (auto simp: kv_ok_def free_ok_def av)
  moreover have "held_ok ?s"
    using ok c f unfolding held_ok_def h
    by (auto simp: kv_ok_def held_ok_def held_def intro: unshared_put)
  moreover have "\<not> st \<longrightarrow> warm ?s \<subseteq> set (cx_available ?s) \<union> held ?s"
    using ok unfolding h by (auto simp: kv_ok_def av)
  ultimately show ?thesis by (simp add: kv_ok_def)
qed

lemma kv_ok_recover:
  assumes ok: "kv_ok st s" and en: "cx_enabled s" and "\<not> cx_ready0 s"
  shows "kv_ok st (recover_kv1 prepare_ok s)"
proof -
  let ?t = "s\<lparr>cx_ready0 := True\<rparr>"
  obtain l where l: "add_available 0 ?t = ?t\<lparr>cx_available := l\<rparr>" "set l = insert 0 (set (cx_available s))"
      "distinct (cx_available s) \<longrightarrow> distinct l"
    using add_available_as [of 0 ?t] by auto
  have s0: "cx_slot0 s = Some 0" and f: "cx_fork s" using ok en by (simp_all add: kv_ok_def slots_ok_def)
  have zero: "0 \<notin> warm s" using ok assms(3) by (auto simp: kv_ok_def closed_ok_def warm_def)
  then have "0 \<notin> held s" using ok f by (auto simp: kv_ok_def held_ok_def)
  let ?u = "?t\<lparr>cx_available := l\<rparr>"
  have w: "warm ?u = insert 0 (warm s)" using s0 assms(3) by (simp add: warm_def)
  have "slots_ok ?u" "closed_ok ?u" "held_ok ?u" "free_ok ?u"
    using ok en w l \<open>0 \<notin> held s\<close> unfolding kv_ok_def
    by (simp_all add: slots_ok_def closed_ok_def held_ok_def free_ok_def) blast
  moreover have "\<not> st \<longrightarrow> warm ?u \<subseteq> set (cx_available ?u) \<union> held ?u"
    using ok unfolding w by (auto simp: kv_ok_def l)
  ultimately have "kv_ok st ?u" by (simp add: kv_ok_def)
  with ok s0 l show ?thesis by (simp add: recover_kv1_def)
qed

lemma recover_keeps [simp]:
  "cx_contexts (recover_kv1 p s) = cx_contexts s" "cx_enabled (recover_kv1 p s) = cx_enabled s"
  "cx_future (recover_kv1 p s) = cx_future s"
  by (auto simp: recover_kv1_def add_available_def sort_available_def split: option.splits)

lemma kv_ok_take_manager:
  assumes "kv_ok st s" "cx_enabled s" "cx_future s \<noteq> Warm_done False" "dget (cx_contexts s) key = None"
    "take_manager prepare_ok fork_ok s = (s', r)"
  shows "(case r of None \<Rightarrow> kv_ok st s' \<and> cx_contexts s' = cx_contexts s
          | Some c \<Rightarrow> kv_ok st (s'\<lparr>cx_contexts := dput key c (cx_contexts s')\<rparr>) \<and> cx_contexts s' = cx_contexts s)
         \<and> cx_future s' = cx_future s"
proof -
  define s1 where "s1 = (if cx_ready0 s then s else recover_kv1 prepare_ok s)"
  have s1: "kv_ok st s1" "cx_enabled s1" "cx_contexts s1 = cx_contexts s" "cx_future s1 = cx_future s"
    using assms kv_ok_recover by (auto simp: s1_def)
  have hand: "kv_ok st t \<Longrightarrow> cx_contexts t = cx_contexts s \<Longrightarrow> cx_available t = c # cs \<Longrightarrow>
      kv_ok st (t\<lparr>cx_available := cs, cx_contexts := dput key c (cx_contexts t)\<rparr>)" for t c cs
    using assms(4) by (intro kv_ok_hand_out) simp_all
  obtain s2 r2 where t2: "take_context s1 = (s2, r2)" by force
  show ?thesis
  proof (cases "r2 = None \<and> \<not> cx_ready1 s2")
    case False
    then have "s' = s2" "r = r2"
      using assms(5) t2 by (auto simp: take_manager_def Let_def simp flip: s1_def)
    with take_context_as [OF t2] s1 hand [of s1] show ?thesis by auto
  next
    case True
    with take_context_as [OF t2] have "s2 = s1" by auto
    obtain s3 ok where e: "ensure_kv2 fork_ok s1 = (s3, ok)" by force
    have s3: "kv_ok st s3" "cx_contexts s3 = cx_contexts s" "cx_future s3 = cx_future s"
      using kv_ok_ensure [OF s1(1,2) e] s1 assms(3) by simp_all
    have res: "(s', r) = (if ok then take_context s3 else (s3, None))"
      using assms(5) t2 e True \<open>s2 = s1\<close> by (simp add: take_manager_def Let_def flip: s1_def)
    show ?thesis
    proof (cases ok)
      case True
      with res have "take_context s3 = (s', r)" by simp
      with take_context_as [OF this] s3 hand [of s3] show ?thesis by auto
    qed (use res s3 in auto)
  qed
qed

lemma kv_ok_fresh:
  assumes ok: "kv_ok st s" and new: "dget (cx_contexts s) key = None" and "cx_fork s"
  shows "kv_ok st (s\<lparr>cx_contexts := dput key (cx_next s) (cx_contexts s), cx_next := Suc (cx_next s)\<rparr>)"
    (is "kv_ok st ?s")
proof -
  note n = next_fresh [OF ok]
  have h: "held ?s = insert (cx_next s) (held s)" using new by (simp add: ran_put) (simp add: held_def)
  have "slots_ok ?s" using ok by (simp add: kv_ok_def slots_ok_def)
  moreover have "closed_ok ?s"
    using ok n new unfolding closed_ok_def h
    by (auto simp: kv_ok_def closed_ok_def intro: less_SucI)
  moreover have "free_ok ?s" using ok n unfolding free_ok_def h by (auto simp: kv_ok_def free_ok_def)
  moreover have "held_ok ?s"
    using ok n assms(3) unfolding held_ok_def h
    by (auto simp: kv_ok_def held_ok_def held_def intro: unshared_put)
  moreover have "\<not> st \<longrightarrow> warm ?s \<subseteq> set (cx_available ?s) \<union> held ?s"
    using ok unfolding h by (auto simp: kv_ok_def)
  ultimately show ?thesis by (simp add: kv_ok_def)
qed

lemma kv_ok_no_fork:
  assumes ok: "kv_ok st s" and new: "dget (cx_contexts s) key = None" and "\<not> cx_fork s"
  shows "kv_ok st (s\<lparr>cx_contexts := dput key 0 (cx_contexts s)\<rparr>)" (is "kv_ok st ?s")
proof -
  have h: "held ?s = insert 0 (held s)" using new by (simp add: ran_put) (simp add: held_def)
  have w: "warm s = {}" using ok assms(3) by (auto simp: kv_ok_def slots_ok_def warm_def)
  show ?thesis
    using ok assms(3) w unfolding kv_defs h by (auto simp: kv_defs)
qed

lemma kv_ok_context_for:
  assumes "kv_ok st s" "cx_future s \<noteq> Warm_done False" "context_for prepare_ok fork_ok user key s = (s', r)"
  shows "kv_ok st s' \<and> cx_future s' = cx_future s
       \<and> (\<forall>k. k \<noteq> key \<longrightarrow> dget (cx_contexts s') k = dget (cx_contexts s) k)
       \<and> dget (cx_contexts s') key = r"
proof (cases "dget (cx_contexts s) key")
  case (Some c)
  with assms show ?thesis by (simp add: context_for_def)
next
  case None
  note new = this
  show ?thesis
  proof (cases "user \<and> cx_enabled s")
    case True
    obtain t q where t: "take_manager prepare_ok fork_ok s = (t, q)" by force
    with True new assms(3) have "s' = (case q of None \<Rightarrow> t | Some c \<Rightarrow> t\<lparr>cx_contexts := dput key c (cx_contexts t)\<rparr>)" "r = q"
      by (auto simp: context_for_def split: option.splits)
    with kv_ok_take_manager [OF assms(1) _ assms(2) new t] True new show ?thesis
      by (auto split: option.splits)
  next
    case False
    with new assms kv_ok_fresh [OF assms(1) new] kv_ok_no_fork [OF assms(1) new] show ?thesis
      by (auto simp: context_for_def split: if_splits)
  qed
qed

text \<open>The state after a dialogue gave its context back, in any of the ways it can.\<close>

lemma kv_ok_closing:
  assumes ok: "kv_ok st s" and f: "cx_fork s" and key: "dget (cx_contexts s) key = Some c"
    and same: "cx_contexts t = ddel key (cx_contexts s)" "cx_enabled t = cx_enabled s" "cx_fork t = cx_fork s"
      "cx_slot0 t = cx_slot0 s" "cx_next t = cx_next s" "cx_requested t = cx_requested s" "cx_future t = cx_future s"
    and slot: "cx_slot1 t = cx_slot1 s \<or> cx_slot1 t = None" "cx_slot1 t = None \<longleftrightarrow> \<not> cx_ready1 t"
      "cx_ready0 t \<longrightarrow> cx_ready0 s"
    and closed: "cx_closed t = cx_closed s \<or> cx_closed t = c # cx_closed s \<and> 0 < c \<and> cx_slot1 t \<noteq> Some c"
    and free: "distinct (cx_available t)" "set (cx_available t) \<subseteq> warm t" "set (cx_available t) \<subseteq> insert c (set (cx_available s))"
    and zero: "0 \<in> held s - {c} \<longrightarrow> cx_ready0 t"
    and leak: "\<not> st \<longrightarrow> warm t \<subseteq> set (cx_available t) \<union> (held s - {c})"
  shows "kv_ok st t"
proof -
  from ok have o1: "slots_ok s" and o2: "closed_ok s" and o3: "free_ok s" and o4: "held_ok s"
    by (simp_all add: kv_ok_def)
  have h: "held t = held s - {c}"
    using o4 f key by (simp add: held_def same(1) ran_del held_ok_def)
  have c: "c \<in> held s" using key by (auto simp: held_def intro: ranI)
  have "slots_ok t"
    using o1 slot unfolding slots_ok_def same by (cases "cx_ready1 s"; cases "cx_ready1 t") simp_all
  moreover have "closed_ok t"
    using closed
  proof
    assume "cx_closed t = cx_closed s"
    with o2 slot(1) show ?thesis unfolding closed_ok_def same h by (elim disjE) auto
  next
    assume "cx_closed t = c # cx_closed s \<and> 0 < c \<and> cx_slot1 t \<noteq> Some c"
    with o2 c slot(1) show ?thesis unfolding closed_ok_def same h by (elim disjE) auto
  qed
  moreover have "free_ok t"
    using o3 free unfolding free_ok_def h by blast
  moreover have "held_ok t"
  proof -
    have "0 \<in> held t \<longrightarrow> 0 \<in> warm t"
      using o4 f zero c slot(3) o2 unfolding h held_ok_def warm_def same closed_ok_def
      by (auto split: if_splits)
    with o4 f show ?thesis unfolding held_ok_def same by (auto intro: unshared_del)
  qed
  ultimately show ?thesis using leak by (simp add: kv_ok_def h)
qed

lemma kv_ok_close_context:
  assumes ok: "kv_ok st s"
  shows "kv_ok st (close_context st reset_ok key s)"
proof (cases "dget (cx_contexts s) key")
  case None
  with ok show ?thesis by (simp add: close_context_def)
next
  case (Some c)
  define s1 where "s1 = s\<lparr>cx_contexts := ddel key (cx_contexts s)\<rparr>"
  have c: "c \<in> held s" using Some by (auto simp: held_def intro: ranI)
  show ?thesis
  proof (cases "cx_fork s")
    case False
    have h: "held s1 \<subseteq> held s" by (auto simp: s1_def held_def ran_def split: if_splits)
    from ok False c have "c = 0" "warm s = {}" "slot_index s1 c = None"
      by (auto simp: kv_ok_def held_ok_def slots_ok_def warm_def slot_index_def s1_def)
    then have "close_context st reset_ok key s = s1"
      using Some by (simp add: close_context_def flip: s1_def)
    moreover have "kv_ok st s1"
      using ok False h \<open>warm s = {}\<close> by (auto simp: kv_defs s1_def)
    ultimately show ?thesis by simp
  next
    case f: True
    note closing = kv_ok_closing [OF ok f Some]
    have av: "c \<notin> set (cx_available s)" using ok c by (auto simp: kv_ok_def free_ok_def)
    have basics: "cx_slot1 s = None \<longleftrightarrow> \<not> cx_ready1 s" "distinct (cx_available s)"
        "set (cx_available s) \<subseteq> warm s" "\<not> st \<longrightarrow> warm s \<subseteq> set (cx_available s) \<union> held s"
      using ok by (simp_all add: kv_ok_def slots_ok_def free_ok_def)
    have zero: "0 \<in> held s \<longrightarrow> cx_slot0 s = Some 0 \<and> cx_ready0 s"
      using ok f by (auto simp: kv_ok_def held_ok_def warm_def closed_ok_def slots_ok_def split: if_splits)
    consider (none) "slot_index s1 c = None" | (i0) "slot_index s1 c = Some 0" "cx_slot0 s = Some c"
      | (i1) "slot_index s1 c = Some 1" "cx_slot1 s = Some c" "cx_slot0 s \<noteq> Some c"
      by (cases "cx_slot0 s = Some c"; cases "cx_slot1 s = Some c") (simp_all add: slot_index_def s1_def)
    then show ?thesis
    proof cases
      case none
      then have "cx_slot0 s \<noteq> Some c" "cx_slot1 s \<noteq> Some c" by (auto simp: slot_index_def s1_def split: if_splits)
      then have "c \<notin> warm s" "c \<noteq> 0" using zero c by (cases "c = 0"; auto simp: warm_def split: if_splits)+
      have e: "close_context st reset_ok key s = s1\<lparr>cx_closed := c # cx_closed s1\<rparr>"
        using Some none \<open>c \<noteq> 0\<close> by (simp add: close_context_def flip: s1_def)
      show ?thesis unfolding e
        by (rule closing)
          (use basics zero \<open>c \<notin> warm s\<close> \<open>c \<noteq> 0\<close> \<open>cx_slot1 s \<noteq> Some c\<close> in \<open>auto simp: s1_def\<close>)
    next
      case i0
      then have c0: "c = 0" using ok by (auto simp: kv_ok_def slots_ok_def split: if_splits)
      have slot1: "cx_slot1 s \<noteq> Some 0" using ok by (auto simp: kv_ok_def closed_ok_def)
      consider (stopped) st | (broken) "\<not> st" "\<not> reset_ok" | (reset) "\<not> st" reset_ok by blast
      then show ?thesis
      proof cases
        case stopped
        then have e: "close_context st reset_ok key s = s1"
          using Some i0 by (simp add: close_context_def flip: s1_def)
        show ?thesis unfolding e
          by (rule closing) (use basics zero stopped in \<open>auto simp: s1_def\<close>)
      next
        case broken
        then have e: "close_context st reset_ok key s
            = s1\<lparr>cx_ready0 := False, cx_available := filter (\<lambda>d. d \<noteq> c) (cx_available s1)\<rparr>"
          using Some i0 by (simp add: close_context_def Let_def flip: s1_def)
        show ?thesis unfolding e
          by (rule closing)
            (use basics zero broken i0 c0 slot1 av in \<open>auto simp: s1_def warm_def split: if_splits\<close>)
      next
        case reset
        obtain l where l: "add_available c s1 = s1\<lparr>cx_available := l\<rparr>" "set l = insert c (set (cx_available s1))"
            "distinct (cx_available s1) \<longrightarrow> distinct l"
          using add_available_as [of c s1] by blast
        have e: "close_context st reset_ok key s = s1\<lparr>cx_available := l, cx_ready0 := True\<rparr>"
          using Some i0 reset l(1) by (simp add: close_context_def Let_def flip: s1_def)
        have r: "cx_ready0 s" using zero c c0 by simp
        show ?thesis unfolding e
          by (rule closing)
            (use basics zero reset i0 c0 slot1 l r in \<open>auto simp: s1_def warm_def split: if_splits\<close>)
      qed
    next
      case i1
      have c0: "0 < c" using ok i1 by (auto simp: kv_ok_def closed_ok_def)
      consider (stopped) st | (broken) "\<not> st" "\<not> reset_ok" | (reset) "\<not> st" reset_ok by blast
      then show ?thesis
      proof cases
        case stopped
        then have e: "close_context st reset_ok key s = s1"
          using Some i1 by (simp add: close_context_def flip: s1_def)
        show ?thesis unfolding e
          by (rule closing) (use basics zero stopped in \<open>auto simp: s1_def\<close>)
      next
        case broken
        then have e: "close_context st reset_ok key s
            = s1\<lparr>cx_ready1 := False, cx_available := filter (\<lambda>d. d \<noteq> c) (cx_available s1),
                 cx_slot1 := None, cx_kv2 := Kv2_not_ready, cx_closed := c # cx_closed s1\<rparr>"
          using Some i1 by (simp add: close_context_def Let_def flip: s1_def)
        show ?thesis unfolding e
          by (rule closing)
            (use basics zero broken i1 c0 av in \<open>auto simp: s1_def warm_def split: if_splits\<close>)
      next
        case reset
        obtain l where l: "add_available c s1 = s1\<lparr>cx_available := l\<rparr>" "set l = insert c (set (cx_available s1))"
            "distinct (cx_available s1) \<longrightarrow> distinct l"
          using add_available_as [of c s1] by blast
        have e: "close_context st reset_ok key s = s1\<lparr>cx_available := l, cx_ready1 := True, cx_kv2 := Kv2_ready\<rparr>"
          using Some i1 reset l(1) by (simp add: close_context_def Let_def flip: s1_def)
        show ?thesis unfolding e
          by (rule closing)
            (use basics zero reset i1 c0 l in \<open>auto simp: s1_def warm_def split: if_splits\<close>)
      qed
    qed
  qed
qed

lemma add_available_keeps [simp]:
  "cx_future (add_available c s) = cx_future s" "cx_contexts (add_available c s) = cx_contexts s"
  by (simp_all add: add_available_def sort_available_def)

lemma set_opt_list [simp]: "set (opt_list x) = set_option x"
  by (cases x) (simp_all add: opt_list_def)

lemma close_context_keeps:
  "cx_future (close_context st reset_ok key s) = cx_future s"
  "dget (cx_contexts (close_context st reset_ok key s)) k = (if k = key then None else dget (cx_contexts s) k)"
  by (cases "dget (cx_contexts s) key"; simp add: close_context_def Let_def split: option.split)+

lemma kv_ok_stop: "kv_ok st s \<Longrightarrow> kv_ok True s"
  by (simp add: kv_ok_def)

text \<open>Shutting down closes every fork still held, and nothing is held or free afterwards.\<close>

lemma close_all_closes:
  assumes "kv_ok st s"
  shows "cx_contexts (close_all s) = []" "cx_available (close_all s) = []"
    "held s \<union> set_option (cx_slot1 s) - {0} \<subseteq> set (cx_closed (close_all s))"
    "distinct (cx_closed s) \<Longrightarrow> distinct (cx_closed (close_all s))"
proof -
  have h: "set (dvals (cx_contexts s)) = held s"
  proof (intro set_eqI)
    fix c
    have "dwf (cx_contexts s)" using assms by (simp add: kv_ok_def held_ok_def)
    then have "c \<in> held s \<longleftrightarrow> (\<exists>k. (k, c) \<in> set (cx_contexts s))"
      by (simp add: held_def ran_def dget_iff)
    then show "c \<in> set (dvals (cx_contexts s)) \<longleftrightarrow> c \<in> held s"
      by (simp add: dvals_def image_iff Bex_def)
  qed
  show "cx_contexts (close_all s) = []" "cx_available (close_all s) = []"
    by (simp_all add: close_all_def Let_def)
  show "held s \<union> set_option (cx_slot1 s) - {0} \<subseteq> set (cx_closed (close_all s))"
  proof -
    have "set (cx_closed (close_all s))
        = {c \<in> held s. 0 < c} \<union> ({c. cx_slot0 s = Some c \<and> 0 < c}
          \<union> ({c. cx_slot1 s = Some c \<and> 0 < c} \<union> set (cx_closed s)))"
      by (simp add: close_all_def Let_def h Un_assoc)
    then show ?thesis by (simp only:) (auto simp del: Un_iff simp: Un_def)
  qed
  assume d: "distinct (cx_closed s)"
  have "set (filter (\<lambda>c. c \<noteq> 0) (dvals (cx_contexts s) @ opt_list (cx_slot0 s) @ opt_list (cx_slot1 s)))
      \<inter> set (cx_closed s) = {}"
  proof -
    have "set_option (cx_slot0 s) \<subseteq> {0}" using assms by (simp add: kv_ok_def slots_ok_def)
    moreover have "(set_option (cx_slot1 s) \<union> held s) \<inter> set (cx_closed s) = {}"
      using assms by (simp add: kv_ok_def closed_ok_def)
    ultimately show ?thesis using h by (simp only: set_filter set_append set_opt_list) blast
  qed
  then show "distinct (cx_closed (close_all s))"
    using d by (simp add: close_all_def Let_def)
qed

end
