(* ===== verification/Scheduler.thy ===== *)
theory Scheduler
  imports Contexts SysRuntime "HOL-Library.Product_Lexorder" "HOL-Library.Multiset"
begin

text \<open>
  The request scheduler of CORE (agent_core/core_scheduler.py, voice_scheduler.py) over the pool
  of workers (orchestration/pool.py): admission with places reserved for people, coalescing,
  the choice of the next request, its cooperative steps on the single executor, suspension,
  completion and shutdown. The executor is a queue of jobs; a job runs atomically. What the
  environment decides is an argument: the clock, fresh identifiers, the worker states, the
  answer of the task service to \<open>begin\<close> and \<open>valid\<close>, what the next step of a request's generator
  does, and whether contexts can be forked, rebuilt and reset. Callbacks are notes of the step;
  metrics and log lines are left out. \<open>Admitted\<close>, \<open>Stepped\<close> and \<open>Completed\<close> mark the points where
  a request enters the queue, performs a step and is completed.
\<close>

section \<open>Workers\<close>

datatype agent_state = Free | Running | Waiting

record agent_pool =
  ap_workers :: "(str, agent_state) dict"
  ap_event_worker :: "str option"

definition new_pool :: "(str \<times> agent_state) list \<Rightarrow> str option \<Rightarrow> agent_pool option" where
  "new_pool ws event =
     (let d = foldl (\<lambda>d w. dput (fst w) (snd w) d) [] ws
      in if event \<noteq> None \<and> dget d (the event) = None then None
         else Some \<lparr>ap_workers = d, ap_event_worker = event\<rparr>)"

definition acquire :: "agent_pool \<Rightarrow> str option" where
  "acquire p = map_option fst
     (List.find (\<lambda>w. Some (fst w) \<noteq> ap_event_worker p \<and> snd w = Free) (ap_workers p))"

definition acquire_event :: "agent_pool \<Rightarrow> str option" where
  "acquire_event p =
     (case ap_event_worker p of
        None \<Rightarrow> acquire p
      | Some w \<Rightarrow> if dget (ap_workers p) w = Some Free then Some w else None)"

section \<open>Requests\<close>

datatype req_kind = User | System | Manager

datatype req_payload = User_text str | Event_payload sys_event | Query_payload int str

record turn =
  tu_kind :: str
  tu_text :: str

record request =
  rq_kind :: req_kind
  rq_label :: str
  rq_payload :: req_payload
  rq_queued_at :: rat
  rq_priority :: int
  rq_coalesce :: "str option"
  rq_id :: str
  rq_session :: str
  rq_suspended :: bool
  rq_context :: "nat option"
  rq_started_at :: "rat option"
  rq_cancelled :: bool
  rq_busy :: rat
  rq_run :: "sys_event option"
  rq_task_started :: bool

definition new_request :: "req_kind \<Rightarrow> str \<Rightarrow> req_payload \<Rightarrow> rat \<Rightarrow> int \<Rightarrow> str option \<Rightarrow> str \<Rightarrow> str \<Rightarrow> request" where
  "new_request k label p queued prio key rid sid =
     \<lparr>rq_kind = k, rq_label = label, rq_payload = p, rq_queued_at = queued, rq_priority = prio,
      rq_coalesce = key, rq_id = rid, rq_session = sid, rq_suspended = False, rq_context = None,
      rq_started_at = None, rq_cancelled = False, rq_busy = 0, rq_run = None, rq_task_started = False\<rparr>"

definition make_turn :: "string \<Rightarrow> str \<Rightarrow> turn" where
  "make_turn k t = \<lparr>tu_kind = u k, tu_text = t\<rparr>"

definition silent :: turn where
  "silent = make_turn ''silent'' []"

text \<open>\<open>AutonomousTaskCompletion\<close> carries a turn or the result of a query for the manager.\<close>

datatype answer = Suspended | Answer turn | Finished "turn option" "(int \<times> str) option"

datatype adv_future = Fut_none | Fut_submitted | Fut_done answer

datatype job = J_advance | J_release str | J_warm

datatype sched_note =
    Admitted request
  | Stepped request
  | Completed request turn
  | Finish_run sys_event str
  | To_client request turn
  | To_human turn
  | To_notification turn
  | Accept_run sys_event
  | Forward_event sys_event
  | Abort_context nat

datatype sched_error = Empty_text | Queue_full | Bad_priority | Kv_unsupported | Warm_failed

record sched =
  sc_max :: int
  sc_pending :: "request list"
  sc_active :: "request option"
  sc_started :: "rat option"
  sc_future :: adv_future
  sc_jobs :: "job list"
  sc_kv :: contexts
  sc_released :: "str list"
  sc_stopped :: bool
  sc_closed :: bool
  sc_rejected :: nat
  sc_last_seconds :: "rat option"
  sc_remote :: bool
  sc_on_completed :: bool
  sc_on_human :: bool
  sc_on_notification :: bool

definition manager_priority :: int where "manager_priority = 0"
definition hardware_event_priority :: int where "hardware_event_priority = 10"
definition default_event_priority :: int where "default_event_priority = 100"
definition voice_priority :: int where "voice_priority = manager_priority - 10"

definition new_sched :: "int \<Rightarrow> bool \<Rightarrow> bool \<Rightarrow> bool \<Rightarrow> bool \<Rightarrow> bool \<Rightarrow> bool \<Rightarrow> sched option" where
  "new_sched limit supported fork remote completed human notification =
     (if limit < 2 then None
      else Some \<lparr>sc_max = limit, sc_pending = [], sc_active = None, sc_started = None,
             sc_future = Fut_none, sc_jobs = [], sc_kv = new_contexts supported fork,
             sc_released = [], sc_stopped = False, sc_closed = False, sc_rejected = 0,
             sc_last_seconds = None, sc_remote = remote, sc_on_completed = completed,
             sc_on_human = human, sc_on_notification = notification\<rparr>)"

section \<open>Admission\<close>

text \<open>Everything that holds a place: the queue and the request in progress.\<close>

definition requests :: "sched \<Rightarrow> request list" where
  "requests s = sc_pending s @ opt_list (sc_active s)"

definition admission_limit :: "sched \<Rightarrow> req_kind \<Rightarrow> int" where
  "admission_limit s k = (if k = User then sc_max s else max 1 (sc_max s - 8))"

definition append_locked :: "request \<Rightarrow> sched \<Rightarrow> bool \<times> sched \<times> sched_note list" where
  "append_locked it s =
     (if int (length (sc_pending s)) + (if sc_active s \<noteq> None then 1 else 0) \<ge> admission_limit s (rq_kind it)
      then (False, s\<lparr>sc_rejected := Suc (sc_rejected s)\<rparr>, [])
      else (True, s\<lparr>sc_pending := sc_pending s @ [it]\<rparr>, [Admitted it]))"

definition submit_input ::
  "str \<Rightarrow> str \<Rightarrow> int \<Rightarrow> str \<Rightarrow> str \<Rightarrow> rat \<Rightarrow> sched \<Rightarrow> (sched_error + str) \<times> sched \<times> sched_note list" where
  "submit_input txt label prio sid rid now s =
     (if strip txt = [] then (Inl Empty_text, s, [])
      else (case append_locked (new_request User label (User_text (strip txt)) now prio None rid sid) s of
              (True, s', ns) \<Rightarrow> (Inr rid, s', ns)
            | (False, s', ns) \<Rightarrow> (Inl Queue_full, s', ns)))"

definition submit_user ::
  "str \<Rightarrow> str \<Rightarrow> str \<Rightarrow> rat \<Rightarrow> sched \<Rightarrow> (sched_error + str) \<times> sched \<times> sched_note list" where
  "submit_user txt sid rid now s = submit_input txt (u ''user'') manager_priority sid rid now s"

definition submit_voice ::
  "str \<Rightarrow> str \<Rightarrow> str \<Rightarrow> rat \<Rightarrow> sched \<Rightarrow> (sched_error + str) \<times> sched \<times> sched_note list" where
  "submit_voice txt sid rid now s = submit_input txt (u ''voice'') voice_priority sid rid now s"

definition release_human_session :: "str \<Rightarrow> sched \<Rightarrow> sched" where
  "release_human_session sid s =
     (let cancel = (\<lambda>it. if rq_kind it = User \<and> rq_label it \<noteq> u ''voice'' \<and> rq_session it = sid
                         then it\<lparr>rq_cancelled := True\<rparr> else it)
      in s\<lparr>sc_pending := map cancel (sc_pending s), sc_active := map_option cancel (sc_active s),
           sc_released := List.insert sid (sc_released s), sc_jobs := sc_jobs s @ [J_release sid]\<rparr>)"

definition human_key :: "str \<Rightarrow> str" where
  "human_key sid = u ''human:'' @ sid"

definition release_context :: "bool \<Rightarrow> str \<Rightarrow> sched \<Rightarrow> sched" where
  "release_context reset_ok sid s =
     (if list_ex (\<lambda>it. rq_session it = sid) (requests s) then s
      else s\<lparr>sc_kv := close_context (sc_stopped s) reset_ok (human_key sid) (sc_kv s),
             sc_released := filter (\<lambda>x. x \<noteq> sid) (sc_released s)\<rparr>)"

definition event_label :: "sys_event \<Rightarrow> str" where
  "event_label e = ev_source e @ 58 # ev_name e"

definition has_coalesced_event :: "str \<Rightarrow> sched \<Rightarrow> bool" where
  "has_coalesced_event key s \<longleftrightarrow> list_ex (\<lambda>it. rq_coalesce it = Some key) (requests s)"

definition run_of :: "request \<Rightarrow> (str \<times> str) option" where
  "run_of it = map_option (\<lambda>e. (ev_run_id e, ev_offer_id e)) (rq_run it)"

definition has_run :: "sys_event \<Rightarrow> sched \<Rightarrow> bool" where
  "has_run e s \<longleftrightarrow> list_ex (\<lambda>it. run_of it = Some (ev_run_id e, ev_offer_id e)) (requests s)"

definition event_request :: "sys_event \<Rightarrow> int \<Rightarrow> str option \<Rightarrow> str \<Rightarrow> request" where
  "event_request e prio key rid =
     (let it = new_request System (event_label e) (Event_payload e) (ev_created e) prio key rid []
      in if ev_run_id e \<noteq> [] then it\<lparr>rq_run := Some e\<rparr> else it)"

definition enqueue_event ::
  "sys_event \<Rightarrow> int \<Rightarrow> str option \<Rightarrow> str \<Rightarrow> sched \<Rightarrow> bool \<times> sched \<times> sched_note list" where
  "enqueue_event e prio key rid s =
     (if (case key of None \<Rightarrow> False | Some k \<Rightarrow> has_coalesced_event k s) then (True, s, [])
      else if ev_run_id e \<noteq> [] \<and> has_run e s then (True, s, [])
      else (case append_locked (event_request e prio key rid) s of
              (False, s', ns) \<Rightarrow> (False, s', ns)
            | (True, s', ns) \<Rightarrow> (True, s', ns @ (if ev_run_id e \<noteq> [] then [Accept_run e] else []))))"

definition enqueue_external_event ::
  "sys_event \<Rightarrow> int \<Rightarrow> bool \<Rightarrow> str \<Rightarrow> sched \<Rightarrow> (sched_error + unit) \<times> sched \<times> sched_note list" where
  "enqueue_external_event e prio coalesce rid s =
     (if prio \<le> manager_priority then (Inl Bad_priority, s, [])
      else if sc_remote s then (Inr (), s, [Forward_event e])
      else (case enqueue_event e prio (if coalesce then Some (event_label e) else None) rid s of
              (ok, s', ns) \<Rightarrow> (if ok then Inr () else Inl Queue_full, s', ns)))"

text \<open>Events the system runtime reports, each with a fresh identifier; a full queue drops one.\<close>

primrec poll_system_events :: "(sys_event \<times> str) list \<Rightarrow> sched \<Rightarrow> sched \<times> sched_note list" where
  "poll_system_events [] s = (s, [])"
| "poll_system_events (x # xs) s =
     (let e = fst x;
          prio = (if ev_source e = u ''mqtt'' then hardware_event_priority else default_event_priority);
          key = (if ev_source e = u ''timer'' then Some (event_label e) else None);
          (ok, s1, ns) = enqueue_event e prio key (snd x) s;
          (s2, ms) = poll_system_events xs s1
      in (s2, ns @ ms))"

section \<open>Choosing the next request\<close>

record world =
  w_pool :: agent_pool
  w_waiting :: "nat \<Rightarrow> bool"
  w_can_begin :: "sys_event \<Rightarrow> bool"

definition context_key :: "request \<Rightarrow> str" where
  "context_key it =
     (if rq_label it = u ''voice'' then u ''voice''
      else if rq_kind it = User then human_key (rq_session it)
      else u ''notifications'')"

definition activation_of :: "request \<Rightarrow> sys_event option" where
  "activation_of it =
     (case rq_payload it of
        Event_payload e \<Rightarrow> if rq_kind it = System \<and> ev_task_id e \<noteq> None then Some e else None
      | _ \<Rightarrow> None)"

definition is_turn :: "request \<Rightarrow> bool" where
  "is_turn it \<longleftrightarrow> rq_kind it = User \<or> rq_kind it = Manager"

definition in_progress :: "str \<Rightarrow> request \<Rightarrow> bool" where
  "in_progress key it \<longleftrightarrow> is_turn it \<and> context_key it = key \<and> rq_suspended it"

text \<open>\<open>others\<close> is the rest of the queue: a request never waits for itself.\<close>

definition runnable :: "world \<Rightarrow> request list \<Rightarrow> request \<Rightarrow> bool" where
  "runnable w others it =
     (if \<not> rq_cancelled it \<and> (case rq_context it of None \<Rightarrow> False | Some c \<Rightarrow> w_waiting w c)
         \<and> acquire (w_pool w) = None then False
      else if rq_cancelled it \<or> rq_suspended it then True
      else (case activation_of it of
              Some e \<Rightarrow>
                if rq_run it \<noteq> None
                then (if ev_source e = u ''mqtt'' then acquire_event (w_pool w) else acquire (w_pool w)) \<noteq> None
                else w_can_begin w e
            | None \<Rightarrow> if is_turn it then \<not> list_ex (in_progress (context_key it)) others else True))"

definition queue_key :: "request list \<Rightarrow> nat \<Rightarrow> int \<times> rat \<times> nat" where
  "queue_key q i = (rq_priority (q ! i), rq_queued_at (q ! i), i)"

definition candidates :: "world \<Rightarrow> request list \<Rightarrow> nat list" where
  "candidates w q = filter (\<lambda>i. runnable w (remove_nth i q) (q ! i)) [0..<length q]"

definition next_index :: "world \<Rightarrow> request list \<Rightarrow> nat option" where
  "next_index w q =
     (let cs = candidates w q in map_option (\<lambda>j. cs ! j) (min_pos (queue_key q) cs))"

definition start_next :: "world \<Rightarrow> rat \<Rightarrow> sched \<Rightarrow> sched" where
  "start_next w now s =
     (if sc_future s \<noteq> Fut_none \<or> cx_future (sc_kv s) \<noteq> No_warm then s
      else (case next_index w (sc_pending s) of
              None \<Rightarrow> s
            | Some i \<Rightarrow>
                (let it0 = sc_pending s ! i;
                     it = (if rq_started_at it0 = None then it0\<lparr>rq_started_at := Some now\<rparr> else it0)
                 in s\<lparr>sc_pending := remove_nth i (sc_pending s), sc_active := Some it,
                      sc_started := Some now, sc_future := Fut_submitted,
                      sc_jobs := sc_jobs s @ [J_advance]\<rparr>)))"

section \<open>A step of the request in progress\<close>

datatype grant = Granted | Denied | Unreachable | Grant_error str

datatype progress = Yields | Returns "turn option" | Finishes "turn option" "(int \<times> str) option" | Raises str

record job_env =
  je_grant :: grant
  je_progress :: progress
  je_prepare :: bool
  je_fork :: bool
  je_reset :: bool

definition discard :: "request \<Rightarrow> sched_note list" where
  "discard it = (case rq_context it of None \<Rightarrow> [] | Some c \<Rightarrow> [Abort_context c])"

definition fail_request :: "str \<Rightarrow> request \<Rightarrow> contexts \<Rightarrow> answer \<times> request \<times> contexts \<times> sched_note list" where
  "fail_request msg it kv = (Answer (make_turn ''error'' msg), it, kv, discard it)"

definition next_step :: "job_env \<Rightarrow> request \<Rightarrow> contexts \<Rightarrow> answer \<times> request \<times> contexts \<times> sched_note list" where
  "next_step env it kv =
     (case je_progress env of
        Yields \<Rightarrow> (Suspended, it, kv, [Stepped it])
      | Returns t \<Rightarrow> (Answer (case t of None \<Rightarrow> silent | Some x \<Rightarrow> x), it, kv, [Stepped it])
      | Finishes t q \<Rightarrow> (Finished t q, it, kv, [Stepped it])
      | Raises msg \<Rightarrow> (case fail_request msg it kv of (a, it', kv', ns) \<Rightarrow> (a, it', kv', Stepped it # ns)))"

text \<open>\<open>_steps\<close> looks the dialogue's context up before its first step; a task activation has none.\<close>

definition step_request :: "job_env \<Rightarrow> request \<Rightarrow> contexts \<Rightarrow> answer \<times> request \<times> contexts \<times> sched_note list" where
  "step_request env it kv =
     (if rq_cancelled it then (Answer (make_turn ''cancelled'' []), it, kv, discard it)
      else
        (let it1 = it\<lparr>rq_suspended := True\<rparr>
         in if rq_suspended it \<or> activation_of it \<noteq> None then next_step env it1 kv
            else (case context_for (je_prepare env) (je_fork env) (rq_kind it = User) (context_key it) kv of
                    (kv', None) \<Rightarrow> fail_request (u ''all manager KV contexts are occupied'') it1 kv'
                  | (kv', Some c) \<Rightarrow> next_step env (it1\<lparr>rq_context := Some c\<rparr>) kv')))"

definition advance :: "job_env \<Rightarrow> request \<Rightarrow> contexts \<Rightarrow> answer \<times> request \<times> contexts \<times> sched_note list" where
  "advance env it kv =
     (if rq_run it \<noteq> None \<and> \<not> rq_cancelled it then
        (case je_grant env of
           Unreachable \<Rightarrow> (Suspended, it, kv, [])
         | Grant_error msg \<Rightarrow> fail_request msg it kv
         | Denied \<Rightarrow> step_request env (it\<lparr>rq_cancelled := True\<rparr>) kv
         | Granted \<Rightarrow> step_request env (it\<lparr>rq_task_started := True\<rparr>) kv)
      else step_request env it kv)"

definition run_job :: "job_env \<Rightarrow> sched \<Rightarrow> sched \<times> sched_note list" where
  "run_job env s =
     (case sc_jobs s of
        [] \<Rightarrow> (s, [])
      | J_release sid # js \<Rightarrow> (release_context (je_reset env) sid (s\<lparr>sc_jobs := js\<rparr>), [])
      | J_warm # js \<Rightarrow> (s\<lparr>sc_jobs := js, sc_kv := warm_job (je_fork env) (sc_kv s)\<rparr>, [])
      | J_advance # js \<Rightarrow>
          (case sc_active s of
             None \<Rightarrow> (s\<lparr>sc_jobs := js\<rparr>, [])
           | Some it \<Rightarrow>
               (case advance env it (sc_kv s) of
                  (a, it', kv', ns) \<Rightarrow>
                    (s\<lparr>sc_jobs := js, sc_active := Some it', sc_kv := kv', sc_future := Fut_done a\<rparr>, ns))))"

section \<open>Completion\<close>

record finish_env =
  fe_now :: rat
  fe_chat :: "nat \<Rightarrow> bool"
  fe_direct :: "nat \<Rightarrow> bool"
  fe_reset :: bool

definition deliver :: "request \<Rightarrow> turn \<Rightarrow> sched \<Rightarrow> sched_note list" where
  "deliver it t s =
     (if rq_kind it = User then
        (if sc_on_completed s then [To_client it t]
         else if tu_kind t \<noteq> u ''silent'' \<and> sc_on_human s then [To_human t] else [])
      else if tu_kind t = u ''reply'' \<and> tu_text t \<noteq> [] \<and> sc_on_notification s then [To_notification t] else [])"

definition complete_request :: "request \<Rightarrow> turn \<Rightarrow> rat \<Rightarrow> sched \<Rightarrow> sched \<times> sched_note list" where
  "complete_request it t now s =
     (s\<lparr>sc_last_seconds := Some (now - rq_queued_at it)\<rparr>,
      (case rq_run it of None \<Rightarrow> [] | Some e \<Rightarrow> [Finish_run e (tu_kind t)]) @ Completed it t # deliver it t s)"

definition recycle :: "finish_env \<Rightarrow> request \<Rightarrow> turn \<Rightarrow> sched \<Rightarrow> sched" where
  "recycle env it t s =
     (case rq_context it of
        None \<Rightarrow> s
      | Some c \<Rightarrow>
          if rq_kind it \<noteq> User \<or> tu_kind t \<notin> {u ''reply'', u ''silent''} \<or> fe_chat env c \<or> fe_direct env c then s
          else if dget (cx_contexts (sc_kv s)) (context_key it) = Some c
               then s\<lparr>sc_kv := close_context (sc_stopped s) (fe_reset env) (context_key it) (sc_kv s)\<rparr>
               else s)"

definition conclude_request :: "finish_env \<Rightarrow> request \<Rightarrow> turn \<Rightarrow> sched \<Rightarrow> sched \<times> sched_note list" where
  "conclude_request env it t s =
     (case complete_request it t (fe_now env) s of (s1, ns) \<Rightarrow> (recycle env it t s1, ns))"

definition query_label :: "int \<Rightarrow> str" where
  "query_label q = u ''query-result:task:'' @ show_int q"

text \<open>A query result takes the place of the activation that produced it.\<close>

definition as_manager :: "int \<Rightarrow> str \<Rightarrow> request \<Rightarrow> request" where
  "as_manager q r it = it\<lparr>rq_kind := Manager, rq_label := query_label q, rq_payload := Query_payload q r,
     rq_priority := manager_priority, rq_suspended := False\<rparr>"

definition elapsed :: "rat \<Rightarrow> rat option \<Rightarrow> rat" where
  "elapsed now started = (case started of None \<Rightarrow> 0 | Some t \<Rightarrow> if t = 0 then 0 else now - t)"

definition finish_request :: "finish_env \<Rightarrow> answer \<Rightarrow> sched \<Rightarrow> sched \<times> sched_note list" where
  "finish_request env a s =
     (case sc_active s of
        None \<Rightarrow> (s, [])
      | Some it0 \<Rightarrow>
          (let it = it0\<lparr>rq_busy := rq_busy it0 + elapsed (fe_now env) (sc_started s)\<rparr>;
               (s1, ns) =
                 (case a of
                    Suspended \<Rightarrow> (s\<lparr>sc_pending := sc_pending s @ [it]\<rparr>, [])
                  | Finished t (Some (q, r)) \<Rightarrow> (s\<lparr>sc_pending := sc_pending s @ [as_manager q r it]\<rparr>, [])
                  | Finished t None \<Rightarrow> conclude_request env it (case t of None \<Rightarrow> silent | Some x \<Rightarrow> x) s
                  | Answer t \<Rightarrow> conclude_request env it t s);
               s2 = s1\<lparr>sc_active := None, sc_future := Fut_none, sc_started := None\<rparr>
           in (if rq_session it \<in> set (sc_released s2)
               then s2\<lparr>sc_jobs := sc_jobs s2 @ [J_release (rq_session it)]\<rparr> else s2, ns)))"

definition poll_future :: "finish_env \<Rightarrow> sched \<Rightarrow> sched \<times> sched_note list" where
  "poll_future env s = (case sc_future s of Fut_done a \<Rightarrow> finish_request env a s | _ \<Rightarrow> (s, []))"

definition poll_kv2 :: "sched \<Rightarrow> sched" where
  "poll_kv2 s =
     (case poll_warm (sc_future s = Fut_none) (sc_kv s) of
        (kv, job) \<Rightarrow> s\<lparr>sc_kv := kv, sc_jobs := sc_jobs s @ (if job then [J_warm] else [])\<rparr>)"

section \<open>Shutdown\<close>

text \<open>
  \<open>close\<close> sets the stop flag, waits for the jobs in progress, and then runs \<open>close_rest\<close>: it
  reads the last result, lets a failed warm-up job raise, discards and completes every pending
  request and closes the contexts. Jobs still queued on the executor run before these.
\<close>

fun drain_jobs :: "bool \<Rightarrow> job list \<Rightarrow> sched \<Rightarrow> sched" where
  "drain_jobs reset_ok [] s = s"
| "drain_jobs reset_ok (J_release sid # js) s = drain_jobs reset_ok js (release_context reset_ok sid s)"
| "drain_jobs reset_ok (_ # js) s = drain_jobs reset_ok js s"

definition closing_turn :: turn where
  "closing_turn = make_turn ''cancelled'' (u ''CORE '' @ [0x43E, 0x441, 0x442, 0x430, 0x43D, 0x43E, 0x432, 0x43B, 0x435, 0x43D])"

primrec cancel_rest :: "rat \<Rightarrow> request list \<Rightarrow> sched \<Rightarrow> sched \<times> sched_note list" where
  "cancel_rest now [] s = (s, [])"
| "cancel_rest now (it # q) s =
     (let (s1, ns) = complete_request it closing_turn now s; (s2, ms) = cancel_rest now q s1
      in (s2, discard it @ ns @ ms))"

definition close_rest :: "finish_env \<Rightarrow> sched \<Rightarrow> (sched_error + unit) \<times> sched \<times> sched_note list" where
  "close_rest env s =
     (let (s1, ns) = poll_future env s
      in if cx_future (sc_kv s1) = Warm_done False then (Inl Warm_failed, s1, ns)
         else
           (let s2 = s1\<lparr>sc_kv := (sc_kv s1)\<lparr>cx_future := No_warm\<rparr>\<rparr>;
                s3 = drain_jobs (fe_reset env) (sc_jobs s2) (s2\<lparr>sc_pending := [], sc_jobs := []\<rparr>);
                (s4, ms) = cancel_rest (fe_now env) (sc_pending s2) s3
            in (Inr (), s4\<lparr>sc_kv := close_all (sc_kv s4), sc_closed := True\<rparr>, ns @ ms)))"

section \<open>Status\<close>

record sched_status =
  st_busy :: bool
  st_label :: str
  st_priority :: "int option"
  st_request_id :: "str option"
  st_started :: "rat option"
  st_last_seconds :: "rat option"
  st_pending :: nat
  st_background :: bool
  st_rejected :: nat
  st_waiting_priority :: "int option"
  st_manager_kv :: "bool \<times> (bool \<times> slot_state) \<times> (bool \<times> slot_state)"

definition status_snapshot :: "sched \<Rightarrow> sched_status" where
  "status_snapshot s =
     \<lparr>st_busy = (sc_active s \<noteq> None),
      st_label = (case sc_active s of None \<Rightarrow> [] | Some it \<Rightarrow> rq_label it),
      st_priority = map_option rq_priority (sc_active s),
      st_request_id = map_option rq_id (sc_active s),
      st_started = sc_started s, st_last_seconds = sc_last_seconds s,
      st_pending = length (sc_pending s), st_background = list_ex rq_suspended (sc_pending s),
      st_rejected = sc_rejected s,
      st_waiting_priority = (if sc_pending s = [] then None else Some (Min (set (map rq_priority (sc_pending s))))),
      st_manager_kv = kv_snapshot (sc_kv s)\<rparr>"

section \<open>Histories\<close>

datatype sinput =
    In_user str str str rat
  | In_voice str str str rat
  | In_release str
  | In_external sys_event int bool str
  | In_kv2
  | In_poll "(sys_event \<times> str) list"
  | In_future finish_env
  | In_warm
  | In_start world rat
  | In_job job_env
  | In_stop
  | In_close finish_env

fun sched_step :: "sinput \<Rightarrow> sched \<Rightarrow> sched \<times> sched_note list" where
  "sched_step (In_user txt sid rid now) s = snd (submit_user txt sid rid now s)"
| "sched_step (In_voice txt sid rid now) s = snd (submit_voice txt sid rid now s)"
| "sched_step (In_release sid) s = (release_human_session sid s, [])"
| "sched_step (In_external e prio c rid) s = snd (enqueue_external_event e prio c rid s)"
| "sched_step In_kv2 s = (s\<lparr>sc_kv := fst (request_warm (sc_kv s))\<rparr>, [])"
| "sched_step (In_poll evs) s = poll_system_events evs s"
| "sched_step (In_future env) s = poll_future env s"
| "sched_step In_warm s = (poll_kv2 s, [])"
| "sched_step (In_start w now) s = (start_next w now s, [])"
| "sched_step (In_job env) s = run_job env s"
| "sched_step In_stop s = (s\<lparr>sc_stopped := True\<rparr>, [])"
| "sched_step (In_close env) s = snd (close_rest env s)"

text \<open>
  The loop thread runs until the stop flag is set; \<open>close\<close> goes on when the jobs it waits for are
  done; nothing happens after it has returned. Only the generator of a task activation returns
  an \<open>AutonomousTaskCompletion\<close>; those of a dialogue return a turn.
\<close>

fun input_ok :: "sched \<Rightarrow> sinput \<Rightarrow> bool" where
  "input_ok s (In_poll _) \<longleftrightarrow> \<not> sc_stopped s"
| "input_ok s (In_future _) \<longleftrightarrow> \<not> sc_stopped s"
| "input_ok s In_warm \<longleftrightarrow> \<not> sc_stopped s"
| "input_ok s (In_start _ _) \<longleftrightarrow> \<not> sc_stopped s"
| "input_ok s (In_close _) \<longleftrightarrow> sc_stopped s \<and> \<not> sc_closed s \<and> sc_future s \<noteq> Fut_submitted
     \<and> cx_future (sc_kv s) \<noteq> Warm_running"
| "input_ok s (In_job env) \<longleftrightarrow> \<not> sc_closed s
     \<and> (case je_progress env of
            Finishes _ _ \<Rightarrow> (case sc_active s of None \<Rightarrow> True | Some it \<Rightarrow> activation_of it \<noteq> None)
          | _ \<Rightarrow> True)"
| "input_ok s _ \<longleftrightarrow> \<not> sc_closed s"

end
