(* ===== verification/SchedInv.thy ===== *)
theory SchedInv
  imports Scheduler
begin

text \<open>
  What every step of the request scheduler keeps. A ticket is what identifies a request from
  admission to completion; the tickets in the scheduler change only by admission and completion.
  \<open>tickets_ok\<close> bounds the queue and forbids duplicates, \<open>core_ok\<close> ties the executor, the contexts
  and the suspended turns of a dialogue together.
\<close>

section \<open>Tickets\<close>

type_synonym ticket = "str \<times> bool \<times> str option \<times> (str \<times> str) option"

definition ticket :: "request \<Rightarrow> ticket" where
  "ticket it = (rq_id it, rq_kind it = User, rq_coalesce it, run_of it)"

definition tickets :: "sched \<Rightarrow> ticket multiset" where
  "tickets s = image_mset ticket (mset (requests s))"

fun admitted :: "sched_note list \<Rightarrow> ticket multiset" where
  "admitted [] = {#}"
| "admitted (Admitted it # ns) = add_mset (ticket it) (admitted ns)"
| "admitted (_ # ns) = admitted ns"

fun completed :: "sched_note list \<Rightarrow> ticket multiset" where
  "completed [] = {#}"
| "completed (Completed it t # ns) = add_mset (ticket it) (completed ns)"
| "completed (_ # ns) = completed ns"

lemma admitted_append [simp]: "admitted (a @ b) = admitted a + admitted b"
  by (induction a rule: admitted.induct) simp_all

lemma completed_append [simp]: "completed (a @ b) = completed a + completed b"
  by (induction a rule: completed.induct) simp_all

definition ticket_shift :: "sched \<Rightarrow> sched \<times> sched_note list \<Rightarrow> bool" where
  "ticket_shift s r \<longleftrightarrow> tickets (fst r) + completed (snd r) = tickets s + admitted (snd r)"

lemma tickets_alt: "tickets s = image_mset ticket (mset (sc_pending s)) + image_mset ticket (mset (opt_list (sc_active s)))"
  by (simp add: tickets_def requests_def)

lemma opt_list_simps [simp]: "opt_list None = []" "opt_list (Some x) = [x]"
  by (simp_all add: opt_list_def)

lemma ticket_simps [simp]:
  "ticket (it\<lparr>rq_cancelled := a\<rparr>) = ticket it" "ticket (it\<lparr>rq_suspended := b\<rparr>) = ticket it"
  "ticket (it\<lparr>rq_context := c\<rparr>) = ticket it" "ticket (it\<lparr>rq_started_at := d\<rparr>) = ticket it"
  "ticket (it\<lparr>rq_busy := e\<rparr>) = ticket it" "ticket (it\<lparr>rq_task_started := f\<rparr>) = ticket it"
  by (simp_all add: ticket_def run_of_def)

lemma append_locked_shift:
  "append_locked it s = (ok, s', ns) \<Longrightarrow> ticket_shift s (s', ns)"
  by (auto simp: append_locked_def ticket_shift_def tickets_alt split: if_splits)

lemma submit_shift: "ticket_shift s (snd (submit_input txt label prio sid rid now s))"
  unfolding submit_input_def
  by (auto simp: append_locked_shift ticket_shift_def tickets_alt append_locked_def)

lemma release_session_shift: "ticket_shift s (release_human_session sid s, [])"
proof -
  have "image_mset ticket (mset (map (\<lambda>it. if rq_kind it = User \<and> rq_label it \<noteq> u ''voice'' \<and> rq_session it = sid
      then it\<lparr>rq_cancelled := True\<rparr> else it) q)) = image_mset ticket (mset q)" for q
    by (induction q) auto
  then show ?thesis
    by (cases "sc_active s") (auto simp: ticket_shift_def tickets_alt release_human_session_def Let_def)
qed

lemma enqueue_shift: "enqueue_event e prio key rid s = (ok, s', ns) \<Longrightarrow> ticket_shift s (s', ns)"
  unfolding enqueue_event_def
  by (auto simp: ticket_shift_def tickets_alt append_locked_def Let_def split: if_splits option.splits)

lemma external_shift: "ticket_shift s (snd (enqueue_external_event e prio c rid s))"
proof -
  obtain ok s' ns where e: "enqueue_event e prio (if c then Some (event_label e) else None) rid s = (ok, s', ns)"
    using prod_cases3 by blast
  with enqueue_shift [OF e] show ?thesis
    by (simp add: enqueue_external_event_def ticket_shift_def)
qed

lemma poll_events_shift: "ticket_shift s (poll_system_events evs s)"
proof (induction evs arbitrary: s)
  case Nil
  then show ?case by (simp add: ticket_shift_def)
next
  case (Cons x xs)
  define prio where "prio = (if ev_source (fst x) = u ''mqtt'' then hardware_event_priority else default_event_priority)"
  define key where "key = (if ev_source (fst x) = u ''timer'' then Some (event_label (fst x)) else None)"
  obtain ok s1 ns where e: "enqueue_event (fst x) prio key (snd x) s = (ok, s1, ns)" using prod_cases3 by blast
  obtain s2 ms where p: "poll_system_events xs s1 = (s2, ms)" by force
  have "poll_system_events (x # xs) s = (s2, ns @ ms)"
    using e p by (simp add: Let_def flip: prio_def key_def)
  with enqueue_shift [OF e] Cons.IH [of s1] p show ?case
    by (simp add: ticket_shift_def) (metis (no_types, lifting) union_assoc union_commute)
qed

lemma remove_nth_shift: "i < length q \<Longrightarrow> add_mset (q ! i) (mset (remove_nth i q)) = mset q"
  by (subst id_take_nth_drop [of i q]) (simp_all add: remove_nth_def)

lemma next_index_in: "next_index w q = Some i \<Longrightarrow> i \<in> set (candidates w q)"
  by (auto simp: next_index_def Let_def dest: min_pos_bound)

lemma next_index_bound: "next_index w q = Some i \<Longrightarrow> i < length q"
  using next_index_in by (fastforce simp: candidates_def)

lemma start_next_shift:
  assumes "sc_future s = Fut_none \<Longrightarrow> sc_active s = None"
  shows "ticket_shift s (start_next w now s, [])"
proof (cases "next_index w (sc_pending s)")
  case (Some i)
  then have "add_mset (sc_pending s ! i) (mset (remove_nth i (sc_pending s))) = mset (sc_pending s)"
    by (intro remove_nth_shift next_index_bound)
  then have "add_mset (ticket (sc_pending s ! i)) (image_mset ticket (mset (remove_nth i (sc_pending s))))
      = image_mset ticket (mset (sc_pending s))"
    by (metis image_mset_add_mset)
  with Some assms show ?thesis
    by (simp add: start_next_def ticket_shift_def tickets_alt Let_def)
qed (simp add: start_next_def ticket_shift_def)

text \<open>A step keeps the ticket of its request and completes and admits nothing.\<close>

lemma advance_keeps:
  assumes "advance env it kv = (a, it', kv', ns)"
  shows "ticket it' = ticket it" "admitted ns = {#}" "completed ns = {#}"
    "rq_session it' = rq_session it" "rq_kind it' = rq_kind it" "rq_label it' = rq_label it"
proof -
  have discard: "admitted (discard r) = {#}" "completed (discard r) = {#}" for r
    by (cases "rq_context r"; simp add: discard_def)+
  have fail: "fail_request m r k = (a', r', k', ns') \<Longrightarrow> ticket r' = ticket r \<and> admitted ns' = {#} \<and> completed ns' = {#}
      \<and> rq_session r' = rq_session r \<and> rq_kind r' = rq_kind r \<and> rq_label r' = rq_label r" for m r k a' r' k' ns'
    by (auto simp: fail_request_def discard)
  have step1: "next_step env r k = (a', r', k', ns') \<Longrightarrow> ticket r' = ticket r \<and> admitted ns' = {#} \<and> completed ns' = {#}
      \<and> rq_session r' = rq_session r \<and> rq_kind r' = rq_kind r \<and> rq_label r' = rq_label r" for r k a' r' k' ns'
    by (cases "je_progress env") (auto simp: next_step_def fail_request_def discard)
  have step: "step_request env r k = (a', r', k', ns') \<Longrightarrow> ticket r' = ticket r \<and> admitted ns' = {#} \<and> completed ns' = {#}
      \<and> rq_session r' = rq_session r \<and> rq_kind r' = rq_kind r \<and> rq_label r' = rq_label r" for r k a' r' k' ns'
    unfolding step_request_def Let_def
    by (auto simp: discard split: if_splits prod.splits option.splits dest!: step1 fail)
  show "ticket it' = ticket it" "admitted ns = {#}" "completed ns = {#}"
    "rq_session it' = rq_session it" "rq_kind it' = rq_kind it" "rq_label it' = rq_label it"
    using assms unfolding advance_def
    by (auto split: if_splits grant.splits dest!: step fail)
qed

lemma release_context_keeps [simp]:
  "sc_pending (release_context r sid s) = sc_pending s" "sc_active (release_context r sid s) = sc_active s"
  "sc_max (release_context r sid s) = sc_max s" "sc_stopped (release_context r sid s) = sc_stopped s"
  "sc_future (release_context r sid s) = sc_future s" "sc_jobs (release_context r sid s) = sc_jobs s"
  "sc_closed (release_context r sid s) = sc_closed s"
  by (simp_all add: release_context_def)

lemma run_job_shift: "ticket_shift s (run_job env s)"
proof (cases "sc_jobs s")
  case (Cons j js)
  show ?thesis
  proof (cases j)
    case J_advance
    show ?thesis
    proof (cases "sc_active s")
      case (Some it)
      obtain a it' kv' ns where a: "advance env it (sc_kv s) = (a, it', kv', ns)"
        using prod_cases4 by blast
      with Some Cons J_advance advance_keeps(1-3) [OF a] show ?thesis
        by (simp add: run_job_def ticket_shift_def tickets_alt)
    qed (use Cons J_advance in \<open>simp add: run_job_def ticket_shift_def tickets_alt\<close>)
  qed (use Cons in \<open>simp_all add: run_job_def ticket_shift_def tickets_alt\<close>)
qed (simp add: run_job_def ticket_shift_def)

lemma complete_as:
  assumes "complete_request it t now s = (s', ns)"
  shows "s' = s\<lparr>sc_last_seconds := Some (now - rq_queued_at it)\<rparr>" "admitted ns = {#}" "completed ns = {#ticket it#}"
proof -
  have "admitted (deliver it t s) = {#} \<and> completed (deliver it t s) = {#}"
    by (simp add: deliver_def)
  with assms show "s' = s\<lparr>sc_last_seconds := Some (now - rq_queued_at it)\<rparr>" "admitted ns = {#}" "completed ns = {#ticket it#}"
    by (auto simp: complete_request_def split: option.splits)
qed

lemma recycle_keeps [simp]:
  "sc_pending (recycle env it t s) = sc_pending s" "sc_active (recycle env it t s) = sc_active s"
  "sc_max (recycle env it t s) = sc_max s" "sc_stopped (recycle env it t s) = sc_stopped s"
  "sc_future (recycle env it t s) = sc_future s" "sc_jobs (recycle env it t s) = sc_jobs s"
  "sc_closed (recycle env it t s) = sc_closed s" "sc_released (recycle env it t s) = sc_released s"
  by (simp_all add: recycle_def split: option.split)

lemma conclude_as:
  assumes "conclude_request env it t s = (s', ns)"
  shows "s' = recycle env it t (s\<lparr>sc_last_seconds := Some (fe_now env - rq_queued_at it)\<rparr>)"
    "admitted ns = {#}" "completed ns = {#ticket it#}"
proof -
  obtain s1 ms where c: "complete_request it t (fe_now env) s = (s1, ms)" by force
  with assms complete_as [OF c]
  show "s' = recycle env it t (s\<lparr>sc_last_seconds := Some (fe_now env - rq_queued_at it)\<rparr>)"
    "admitted ns = {#}" "completed ns = {#ticket it#}"
    by (simp_all add: conclude_request_def)
qed

text \<open>The two ways a finished step leaves the executor: back in the queue, or completed.\<close>

lemma finish_as:
  assumes "finish_request env a s = (s', ns)" and act: "sc_active s = Some it0"
  obtains it rel where "it = it0\<lparr>rq_busy := rq_busy it0 + elapsed (fe_now env) (sc_started s)\<rparr>"
    and "rel = [] \<or> rel = [J_release (rq_session it)]"
    and "(a = Suspended \<or> (\<exists>t q r. a = Finished t (Some (q, r)))) \<and> ns = []
        \<and> s' = s\<lparr>sc_pending := sc_pending s @ [case a of Finished t (Some (q, r)) \<Rightarrow> as_manager q r it | _ \<Rightarrow> it],
                sc_active := None, sc_future := Fut_none, sc_started := None, sc_jobs := sc_jobs s @ rel\<rparr>
      \<or> (\<exists>t. (a = Answer t \<or> (\<exists>x. a = Finished x None)) \<and> admitted ns = {#} \<and> completed ns = {#ticket it0#}
        \<and> s' = (recycle env it t (s\<lparr>sc_last_seconds := Some (fe_now env - rq_queued_at it)\<rparr>))
             \<lparr>sc_active := None, sc_future := Fut_none, sc_started := None, sc_jobs := sc_jobs s @ rel\<rparr>)"
proof -
  define it where "it = it0\<lparr>rq_busy := rq_busy it0 + elapsed (fe_now env) (sc_started s)\<rparr>"
  define rel where "rel = (if rq_session it \<in> set (sc_released s) then [J_release (rq_session it)] else [])"
  have same: "u1 = u1\<lparr>sc_jobs := sc_jobs u1\<rparr>" for u1 by simp
  have concl: "(a = Answer t \<or> (\<exists>x. a = Finished x None)) \<and> admitted ns = {#} \<and> completed ns = {#ticket it0#}
        \<and> s' = (recycle env it t (s\<lparr>sc_last_seconds := Some (fe_now env - rq_queued_at it)\<rparr>))
             \<lparr>sc_active := None, sc_future := Fut_none, sc_started := None, sc_jobs := sc_jobs s @ rel\<rparr>"
    if a: "a = Answer t \<or> (\<exists>x. a = Finished x None \<and> t = (case x of None \<Rightarrow> silent | Some y \<Rightarrow> y))" for t
  proof -
    obtain s1 ms where c: "conclude_request env it t s = (s1, ms)" by force
    have "ms = ns \<and> s' = s1\<lparr>sc_active := None, sc_future := Fut_none, sc_started := None, sc_jobs := sc_jobs s @ rel\<rparr>"
      using assms a c conclude_as(1) [OF c]
      by (elim disjE exE conjE) (auto simp: finish_request_def Let_def rel_def simp flip: it_def)
    with conclude_as [OF c] a show ?thesis by (auto simp: it_def)
  qed
  show thesis
  proof (rule that [OF it_def])
    show "rel = [] \<or> rel = [J_release (rq_session it)]" by (simp add: rel_def)
    show "(a = Suspended \<or> (\<exists>t q r. a = Finished t (Some (q, r)))) \<and> ns = []
        \<and> s' = s\<lparr>sc_pending := sc_pending s @ [case a of Finished t (Some (q, r)) \<Rightarrow> as_manager q r it | _ \<Rightarrow> it],
                sc_active := None, sc_future := Fut_none, sc_started := None, sc_jobs := sc_jobs s @ rel\<rparr>
      \<or> (\<exists>t. (a = Answer t \<or> (\<exists>x. a = Finished x None)) \<and> admitted ns = {#} \<and> completed ns = {#ticket it0#}
        \<and> s' = (recycle env it t (s\<lparr>sc_last_seconds := Some (fe_now env - rq_queued_at it)\<rparr>))
             \<lparr>sc_active := None, sc_future := Fut_none, sc_started := None, sc_jobs := sc_jobs s @ rel\<rparr>)"
    proof (cases a)
      case Suspended
      with assms show ?thesis
        by (auto simp: finish_request_def Let_def rel_def simp flip: it_def)
    next
      case (Answer t)
      with concl [of t] show ?thesis by blast
    next
      case (Finished x q)
      show ?thesis
      proof (cases q)
        case None
        with concl Finished show ?thesis by blast
      next
        case (Some qr)
        obtain i r where "qr = (i, r)" by force
        with assms Finished Some show ?thesis
          by (auto simp: finish_request_def Let_def rel_def as_manager_def simp flip: it_def)
      qed
    qed
  qed
qed

lemma as_manager_ticket: "rq_kind it \<noteq> User \<Longrightarrow> ticket (as_manager q r it) = ticket it"
  by (simp add: as_manager_def ticket_def run_of_def)

definition query_ok :: "sched \<Rightarrow> bool" where
  "query_ok s \<longleftrightarrow> (\<forall>t q. sc_future s = Fut_done (Finished t q) \<longrightarrow>
     (\<forall>it\<in>set_option (sc_active s). activation_of it \<noteq> None))"

lemma activation_system: "activation_of it \<noteq> None \<Longrightarrow> rq_kind it = System"
  by (auto simp: activation_of_def split: req_payload.splits if_splits)

lemma poll_future_shift:
  assumes "query_ok s"
  shows "ticket_shift s (poll_future env s)"
proof (cases "sc_future s")
  case (Fut_done a)
  show ?thesis
  proof (cases "sc_active s")
    case None
    with Fut_done show ?thesis by (simp add: poll_future_def finish_request_def ticket_shift_def)
  next
    case (Some it0)
    obtain s' ns where f: "finish_request env a s = (s', ns)" by force
    have k: "\<And>t q. a = Finished t q \<Longrightarrow> rq_kind it0 \<noteq> User"
      using assms Fut_done Some activation_system by (auto simp: query_ok_def)
    from f Some show ?thesis
    proof (cases rule: finish_as)
      case (1 it rel)
      from 1(3) have "ticket_shift s (s', ns)"
      proof (elim disjE conjE exE)
        fix t q r
        assume "a = Finished t (Some (q, r))" "ns = []" "s' = s\<lparr>sc_pending := sc_pending s @ [case a of Finished t (Some (q, r)) \<Rightarrow> as_manager q r it | _ \<Rightarrow> it],
                sc_active := None, sc_future := Fut_none, sc_started := None, sc_jobs := sc_jobs s @ rel\<rparr>"
        then show ?thesis using 1(1) k Some by (simp add: ticket_shift_def tickets_alt as_manager_ticket)
      qed (use 1(1) Some in \<open>auto simp: ticket_shift_def tickets_alt\<close>)
      then show ?thesis using Fut_done f by (simp add: poll_future_def)
    qed
  qed
qed (simp_all add: poll_future_def ticket_shift_def)

lemma drain_keeps [simp]:
  "sc_pending (drain_jobs r js s) = sc_pending s" "sc_active (drain_jobs r js s) = sc_active s"
  "sc_max (drain_jobs r js s) = sc_max s" "sc_stopped (drain_jobs r js s) = sc_stopped s"
  "sc_future (drain_jobs r js s) = sc_future s" "sc_jobs (drain_jobs r js s) = sc_jobs s"
  by (induction r js s rule: drain_jobs.induct) simp_all

lemma cancel_rest_as:
  assumes "cancel_rest now q s = (s', ns)"
  shows "\<exists>l. s' = s\<lparr>sc_last_seconds := l\<rparr>" "admitted ns = {#}" "completed ns = image_mset ticket (mset q)"
proof -
  have d: "admitted (discard r) = {#}" "completed (discard r) = {#}" for r
    by (cases "rq_context r"; simp add: discard_def)+
  have "(\<exists>l. s' = s\<lparr>sc_last_seconds := l\<rparr>) \<and> admitted ns = {#} \<and> completed ns = image_mset ticket (mset q)"
    using assms
  proof (induction q arbitrary: s s' ns)
    case Nil
    then have "s' = s\<lparr>sc_last_seconds := sc_last_seconds s\<rparr>" "ns = []" by simp_all
    then show ?case by (metis admitted.simps(1) completed.simps(1) image_mset_empty mset_zero_iff)
  next
    case (Cons it q)
    obtain s1 ms where c: "complete_request it closing_turn now s = (s1, ms)" by force
    obtain s2 ks where r: "cancel_rest now q s1 = (s2, ks)" by force
    from Cons.prems c r have e: "s' = s2" "ns = discard it @ ms @ ks" by simp_all
    from Cons.IH [OF r] complete_as [OF c] e d show ?case by auto
  qed
  then show "\<exists>l. s' = s\<lparr>sc_last_seconds := l\<rparr>" "admitted ns = {#}" "completed ns = image_mset ticket (mset q)"
    by simp_all
qed

section \<open>Bounds and duplicates\<close>

definition tickets_fit :: "int \<Rightarrow> ticket multiset \<Rightarrow> bool" where
  "tickets_fit m ts \<longleftrightarrow> int (size ts) \<le> m
     \<and> int (size (filter_mset (\<lambda>(_, user, _, _). \<not> user) ts)) \<le> max 1 (m - 8)
     \<and> (\<forall>k. size (filter_mset (\<lambda>(_, _, key, _). key = Some k) ts) \<le> 1)
     \<and> (\<forall>k. size (filter_mset (\<lambda>(_, _, _, run). run = Some k) ts) \<le> 1)"

definition tickets_ok :: "sched \<Rightarrow> bool" where
  "tickets_ok s \<longleftrightarrow> 2 \<le> sc_max s \<and> tickets_fit (sc_max s) (tickets s)"

lemma tickets_fit_sub:
  assumes "tickets_fit m ts" "us \<subseteq># ts"
  shows "tickets_fit m us"
proof -
  have "size us \<le> size ts" "size (filter_mset P us) \<le> size (filter_mset P ts)" for P
    using assms(2) by (auto intro: size_mset_mono multiset_filter_mono)
  then show ?thesis
    using assms(1) unfolding tickets_fit_def by (meson dual_order.trans of_nat_mono)
qed

lemma tickets_size: "int (size (tickets s)) = int (length (sc_pending s)) + (if sc_active s \<noteq> None then 1 else 0)"
  by (cases "sc_active s") (simp_all add: tickets_alt)

lemma no_match: "\<not> list_ex P q \<Longrightarrow> (\<And>it. f (ticket it) = P it) \<Longrightarrow>
    filter_mset f (image_mset ticket (mset q)) = {#}"
  by (induction q) (auto split: if_splits)

text \<open>Admission under the limit of its kind keeps the tickets in bounds.\<close>

lemma append_fits:
  assumes ok: "tickets_ok s" and a: "append_locked it s = (b, s', ns)"
    and key: "\<And>k. rq_coalesce it = Some k \<Longrightarrow> \<not> has_coalesced_event k s"
    and run: "\<And>e. rq_run it = Some e \<Longrightarrow> \<not> has_run e s"
  shows "tickets_ok s'"
proof (cases b)
  case False
  with a have "s' = s\<lparr>sc_rejected := Suc (sc_rejected s)\<rparr>" by (auto simp: append_locked_def split: if_splits)
  with ok show ?thesis by (simp add: tickets_ok_def tickets_def requests_def)
next
  case True
  with a have s': "s' = s\<lparr>sc_pending := sc_pending s @ [it]\<rparr>"
    and lim: "int (size (tickets s)) < admission_limit s (rq_kind it)"
    unfolding tickets_size by (auto simp: append_locked_def split: if_splits)
  have t: "tickets s' = add_mset (ticket it) (tickets s)" by (simp add: s' tickets_alt)
  have two: "2 \<le> sc_max s" and fit: "tickets_fit (sc_max s) (tickets s)"
    using ok by (simp_all add: tickets_ok_def)
  have size: "int (size (tickets s')) \<le> sc_max s"
    using lim two by (cases "rq_kind it = User") (simp_all add: t admission_limit_def)
  have people: "int (size (filter_mset (\<lambda>(_, user, _, _). \<not> user) (tickets s'))) \<le> max 1 (sc_max s - 8)"
  proof (cases "rq_kind it = User")
    case True
    with fit show ?thesis by (simp add: t tickets_fit_def ticket_def)
  next
    case False
    have "size (filter_mset (\<lambda>(_, user, _, _). \<not> user) (tickets s)) \<le> size (tickets s)"
      by (rule size_filter_mset_lesseq)
    moreover have "int (size (tickets s)) < max 1 (sc_max s - 8)"
      using lim False by (simp add: admission_limit_def)
    ultimately have "int (size (filter_mset (\<lambda>(_, user, _, _). \<not> user) (tickets s))) < max 1 (sc_max s - 8)"
      by linarith
    with False show ?thesis by (simp add: t ticket_def)
  qed
  have keys: "size (filter_mset (\<lambda>(_, _, c, _). c = Some k) (tickets s')) \<le> 1" for k
  proof (cases "rq_coalesce it = Some k")
    case True
    then have "filter_mset (\<lambda>(_, _, c, _). c = Some k) (tickets s) = {#}"
      unfolding tickets_def using key
      by (intro no_match [where P = "\<lambda>it. rq_coalesce it = Some k"]) (auto simp: has_coalesced_event_def ticket_def)
    with True show ?thesis by (simp add: t ticket_def)
  next
    case False
    with fit show ?thesis by (simp add: t tickets_fit_def ticket_def)
  qed
  have runs: "size (filter_mset (\<lambda>(_, _, _, r). r = Some k) (tickets s')) \<le> 1" for k
  proof (cases "run_of it = Some k")
    case True
    then obtain e where e: "rq_run it = Some e" "k = (ev_run_id e, ev_offer_id e)" by (auto simp: run_of_def)
    then have "filter_mset (\<lambda>(_, _, _, r). r = Some k) (tickets s) = {#}"
      unfolding tickets_def using run [OF e(1)]
      by (intro no_match [where P = "\<lambda>it. run_of it = Some k"]) (auto simp: has_run_def ticket_def)
    with True show ?thesis by (simp add: t ticket_def)
  next
    case False
    with fit show ?thesis by (cases k) (simp add: t tickets_fit_def ticket_def)
  qed
  show ?thesis
    using two size people keys runs by (simp add: tickets_ok_def tickets_fit_def s')
qed

text \<open>A step that admits nothing keeps the bounds, whatever it completes.\<close>

lemma shift_fits:
  assumes "tickets_ok s" "ticket_shift s r" "admitted (snd r) = {#}" "sc_max (fst r) = sc_max s"
  shows "tickets_ok (fst r)"
proof -
  have "tickets (fst r) \<subseteq># tickets s"
    using assms(2,3) by (metis add.right_neutral mset_subset_eq_add_left ticket_shift_def)
  with assms(1,4) show ?thesis
    by (auto simp: tickets_ok_def intro: tickets_fit_sub)
qed

lemma submit_fits: "tickets_ok s \<Longrightarrow> tickets_ok (fst (snd (submit_input txt label prio sid rid now s)))"
proof -
  assume ok: "tickets_ok s"
  obtain b s' ns where a: "append_locked (new_request User label (User_text (strip txt)) now prio None rid sid) s = (b, s', ns)"
    using prod_cases3 by blast
  have "tickets_ok s'" by (rule append_fits [OF ok a]) (simp_all add: new_request_def)
  with ok a show ?thesis by (cases b) (simp_all add: submit_input_def)
qed

lemma enqueue_fits:
  assumes ok: "tickets_ok s"
  shows "tickets_ok (fst (snd (enqueue_event e prio key rid s)))"
proof (cases "(case key of None \<Rightarrow> False | Some k \<Rightarrow> has_coalesced_event k s) \<or> ev_run_id e \<noteq> [] \<and> has_run e s")
  case True
  with ok show ?thesis by (auto simp: enqueue_event_def)
next
  case False
  obtain b s' ns where a: "append_locked (event_request e prio key rid) s = (b, s', ns)"
    using prod_cases3 by blast
  have "tickets_ok s'"
    by (rule append_fits [OF ok a]) (use False in \<open>auto simp: event_request_def new_request_def Let_def split: if_splits\<close>)
  then show ?thesis using ok a by (cases b) (simp_all add: enqueue_event_def)
qed

lemma external_fits: "tickets_ok s \<Longrightarrow> tickets_ok (fst (snd (enqueue_external_event e prio c rid s)))"
  using enqueue_fits [of s e prio "if c then Some (event_label e) else None" rid]
  by (auto simp: enqueue_external_event_def split: prod.splits)

lemma poll_events_fits: "tickets_ok s \<Longrightarrow> tickets_ok (fst (poll_system_events evs s))"
proof (induction evs arbitrary: s)
  case (Cons x xs)
  define prio where "prio = (if ev_source (fst x) = u ''mqtt'' then hardware_event_priority else default_event_priority)"
  define key where "key = (if ev_source (fst x) = u ''timer'' then Some (event_label (fst x)) else None)"
  obtain ok s1 ns where e: "enqueue_event (fst x) prio key (snd x) s = (ok, s1, ns)" using prod_cases3 by blast
  obtain s2 ms where p: "poll_system_events xs s1 = (s2, ms)" by force
  have "poll_system_events (x # xs) s = (s2, ns @ ms)"
    using e p by (simp add: Let_def flip: prio_def key_def)
  moreover have "tickets_ok s1" using enqueue_fits [OF Cons.prems, of "fst x" prio key "snd x"] e by simp
  ultimately show ?case using Cons.IH [of s1] p by simp
qed simp

end
