(* ===== verification/SchedCore.thy ===== *)
theory SchedCore
  imports SchedInv
begin

text \<open>
  The invariant of the executor, the warm contexts and the suspended turns of the request
  scheduler, kept by every input; with the bounds of the queue it is the invariant of every
  history, which the interpretation \<open>sched_runs\<close> states.
\<close>

section \<open>Invariant\<close>

definition exec_ok :: "sched \<Rightarrow> bool" where
  "exec_ok s \<longleftrightarrow> (sc_future s = Fut_none \<longleftrightarrow> sc_active s = None)
     \<and> count_list (sc_jobs s) J_advance = (if sc_future s = Fut_submitted then 1 else 0)
     \<and> count_list (sc_jobs s) J_warm = (if cx_future (sc_kv s) = Warm_running then 1 else 0)
     \<and> (sc_active s \<noteq> None \<longrightarrow> cx_future (sc_kv s) = No_warm)
     \<and> query_ok s \<and> (sc_closed s \<longrightarrow> sc_stopped s)"

definition suspended_turn :: "request \<Rightarrow> bool" where
  "suspended_turn it \<longleftrightarrow> is_turn it \<and> rq_suspended it"

text \<open>A request on its way to be discarded, or discarded, need not wait for the turn in progress.\<close>

definition discarded :: "sched \<Rightarrow> request \<Rightarrow> bool" where
  "discarded s it \<longleftrightarrow> (sc_future s = Fut_submitted \<and> rq_cancelled it)
     \<or> (\<exists>t. sc_future s = Fut_done (Answer t) \<and> tu_kind t = u ''cancelled'')"

definition dialogue_ok :: "sched \<Rightarrow> bool" where
  "dialogue_ok s \<longleftrightarrow> distinct (map context_key (filter suspended_turn (sc_pending s)))
     \<and> (\<forall>it\<in>set_option (sc_active s). is_turn it \<and> \<not> discarded s it \<longrightarrow>
          (\<forall>p\<in>set (sc_pending s). \<not> in_progress (context_key it) p))"

definition item_ok :: "(str, nat) dict \<Rightarrow> request \<Rightarrow> bool" where
  "item_ok d it \<longleftrightarrow> (\<not> rq_suspended it \<or> activation_of it \<noteq> None \<longrightarrow> rq_context it = None)
     \<and> (suspended_turn it \<longrightarrow> (\<forall>c. rq_context it = Some c \<longrightarrow> dget d (context_key it) = Some c))"

definition hold_ok :: "sched \<Rightarrow> bool" where
  "hold_ok s \<longleftrightarrow> (\<forall>it\<in>set (sc_pending s) \<union> set_option (sc_active s). item_ok (cx_contexts (sc_kv s)) it)"

definition core_ok :: "sched \<Rightarrow> bool" where
  "core_ok s \<longleftrightarrow> exec_ok s \<and> kv_ok (sc_stopped s) (sc_kv s) \<and> dialogue_ok s \<and> hold_ok s"

lemma core_ok_new:
  assumes "new_sched limit supported fork r a b c = Some s"
  shows "core_ok s"
proof -
  have s: "sc_pending s = []" "sc_active s = None" "sc_future s = Fut_none" "sc_jobs s = []"
    "sc_kv s = new_contexts supported fork" "sc_stopped s = False" "sc_closed s = False"
    using assms by (auto simp: new_sched_def split: if_splits)
  have "cx_future (new_contexts supported fork) = No_warm" by (simp add: new_contexts_def Let_def)
  then show ?thesis
    by (simp add: core_ok_def exec_ok_def query_ok_def dialogue_ok_def hold_ok_def kv_ok_new s)
qed

lemma activation_same [simp]:
  "activation_of (it\<lparr>rq_suspended := b\<rparr>) = activation_of it" "activation_of (it\<lparr>rq_context := c\<rparr>) = activation_of it"
  "activation_of (it\<lparr>rq_cancelled := b\<rparr>) = activation_of it" "activation_of (it\<lparr>rq_task_started := b\<rparr>) = activation_of it"
  "activation_of (it\<lparr>rq_busy := x\<rparr>) = activation_of it" "activation_of (it\<lparr>rq_started_at := y\<rparr>) = activation_of it"
  by (cases "rq_payload it"; simp add: activation_of_def)+

section \<open>Admission and cancellation\<close>

lemma core_fields:
  assumes "core_ok s" "sc_pending t = sc_pending s" "sc_active t = sc_active s" "sc_future t = sc_future s"
    "sc_jobs t = sc_jobs s" "sc_stopped t = sc_stopped s" "sc_closed t = sc_closed s"
    "kv_ok (sc_stopped s) (sc_kv t)" "cx_contexts (sc_kv t) = cx_contexts (sc_kv s)"
    "cx_future (sc_kv t) = cx_future (sc_kv s)"
  shows "core_ok t"
  using assms unfolding core_ok_def exec_ok_def query_ok_def dialogue_ok_def discarded_def hold_ok_def by simp

lemma append_core:
  assumes ok: "core_ok s" and fresh: "\<not> rq_suspended it" "rq_context it = None"
    and a: "append_locked it s = (b, s', ns)"
  shows "core_ok s'"
proof (cases b)
  case False
  with a have "s' = s\<lparr>sc_rejected := Suc (sc_rejected s)\<rparr>" by (auto simp: append_locked_def split: if_splits)
  with ok show ?thesis by (intro core_fields [OF ok]) (simp_all add: core_ok_def)
next
  case True
  with a have s': "s' = s\<lparr>sc_pending := sc_pending s @ [it]\<rparr>"
    by (auto simp: append_locked_def split: if_splits)
  have "\<not> suspended_turn it" "\<not> in_progress k it" "item_ok d it" for k d
    using fresh by (simp_all add: suspended_turn_def in_progress_def item_ok_def)
  then have "dialogue_ok s'" "hold_ok s'"
    using ok unfolding s' core_ok_def dialogue_ok_def hold_ok_def discarded_def by auto
  with ok show ?thesis unfolding s' core_ok_def exec_ok_def query_ok_def by simp
qed

lemma submit_core: "core_ok s \<Longrightarrow> core_ok (fst (snd (submit_input txt label prio sid rid now s)))"
proof -
  assume ok: "core_ok s"
  define it where "it = new_request User label (User_text (strip txt)) now prio None rid sid"
  obtain b s' ns where a: "append_locked it s = (b, s', ns)" using prod_cases3 by blast
  have "core_ok s'" by (rule append_core [OF ok _ _ a]) (simp_all add: it_def new_request_def)
  with ok a show ?thesis by (cases b) (simp_all add: submit_input_def flip: it_def)
qed

lemma enqueue_core: "core_ok s \<Longrightarrow> core_ok (fst (snd (enqueue_event e prio key rid s)))"
proof -
  assume ok: "core_ok s"
  obtain b s' ns where a: "append_locked (event_request e prio key rid) s = (b, s', ns)"
    using prod_cases3 by blast
  have "core_ok s'"
    by (rule append_core [OF ok _ _ a]) (simp_all add: event_request_def new_request_def Let_def)
  with ok a show ?thesis by (cases b) (simp_all add: enqueue_event_def)
qed

lemma external_core: "core_ok s \<Longrightarrow> core_ok (fst (snd (enqueue_external_event e prio c rid s)))"
  using enqueue_core [of s e prio "if c then Some (event_label e) else None" rid]
  by (auto simp: enqueue_external_event_def split: prod.splits)

lemma poll_events_core: "core_ok s \<Longrightarrow> core_ok (fst (poll_system_events evs s))"
proof (induction evs arbitrary: s)
  case (Cons x xs)
  define prio where "prio = (if ev_source (fst x) = u ''mqtt'' then hardware_event_priority else default_event_priority)"
  define key where "key = (if ev_source (fst x) = u ''timer'' then Some (event_label (fst x)) else None)"
  obtain ok s1 ns where e: "enqueue_event (fst x) prio key (snd x) s = (ok, s1, ns)" using prod_cases3 by blast
  obtain s2 ms where p: "poll_system_events xs s1 = (s2, ms)" by force
  have "poll_system_events (x # xs) s = (s2, ns @ ms)"
    using e p by (simp add: Let_def flip: prio_def key_def)
  moreover have "core_ok s1" using enqueue_core [OF Cons.prems, of "fst x" prio key "snd x"] e by simp
  ultimately show ?case using Cons.IH [of s1] p by simp
qed simp

lemma release_session_core:
  assumes ok: "core_ok s"
  shows "core_ok (release_human_session sid s)"
proof -
  define f :: "request \<Rightarrow> request" where "f it = (if rq_kind it = User \<and> rq_label it \<noteq> u ''voice'' \<and> rq_session it = sid
      then it\<lparr>rq_cancelled := True\<rparr> else it)" for it
  have same: "is_turn (f it) = is_turn it" "context_key (f it) = context_key it" "suspended_turn (f it) = suspended_turn it"
      "in_progress k (f it) = in_progress k it" "item_ok d (f it) = item_ok d it" "activation_of (f it) = activation_of it"
      "rq_cancelled it \<Longrightarrow> rq_cancelled (f it)" for it k d
    by (simp_all add: f_def is_turn_def context_key_def suspended_turn_def in_progress_def item_ok_def)
  let ?t = "release_human_session sid s"
  have t: "sc_pending ?t = map f (sc_pending s)" "sc_active ?t = map_option f (sc_active s)"
    "sc_jobs ?t = sc_jobs s @ [J_release sid]" "sc_future ?t = sc_future s" "sc_kv ?t = sc_kv s"
    "sc_stopped ?t = sc_stopped s" "sc_closed ?t = sc_closed s"
    by (simp_all add: release_human_session_def f_def [abs_def] Let_def)
  have "filter suspended_turn (map f q) = map f (filter suspended_turn q)" for q
    by (induction q) (simp_all add: same)
  then have keys: "map context_key (filter suspended_turn (map f q)) = map context_key (filter suspended_turn q)" for q
    by (simp add: same comp_def)
  have d: "discarded s it \<Longrightarrow> discarded ?t (f it)" for it
    by (auto simp: discarded_def t same)
  have "exec_ok ?t" using ok by (cases "sc_active s") (auto simp: core_ok_def exec_ok_def query_ok_def t same)
  moreover have "dialogue_ok ?t"
    using ok d by (cases "sc_active s") (auto simp: core_ok_def dialogue_ok_def t keys same)
  moreover have "hold_ok ?t" using ok by (auto simp: core_ok_def hold_ok_def t same option.set_map)
  ultimately show ?thesis using ok by (simp add: core_ok_def t)
qed

section \<open>The warm contexts\<close>

lemma request_warm_keeps:
  "cx_contexts (fst (request_warm k)) = cx_contexts k" "cx_future (fst (request_warm k)) = cx_future k"
  by (simp_all add: request_warm_def)

lemma request_warm_core: "core_ok s \<Longrightarrow> core_ok (s\<lparr>sc_kv := fst (request_warm (sc_kv s))\<rparr>)"
  by (rule core_fields) (simp_all add: request_warm_keeps kv_ok_request_warm core_ok_def)

lemma poll_warm_keeps: "cx_contexts (fst (poll_warm idle k)) = cx_contexts k"
  by (cases "cx_future k") (simp_all add: poll_warm_def forget_kv2_def)

lemma poll_kv2_core:
  assumes ok: "core_ok s"
  shows "core_ok (poll_kv2 s)"
proof -
  obtain kv job where p: "poll_warm (sc_future s = Fut_none) (sc_kv s) = (kv, job)" by force
  have kv: "kv_ok (sc_stopped s) kv" "cx_contexts kv = cx_contexts (sc_kv s)"
    using kv_ok_poll_warm [of "sc_stopped s" "sc_kv s" "sc_future s = Fut_none"]
      poll_warm_keeps [of "sc_future s = Fut_none" "sc_kv s"] ok p by (simp_all add: core_ok_def)
  have "exec_ok (poll_kv2 s)"
  proof (cases "cx_future (sc_kv s)")
    case No_warm
    then have "kv = (if job then (sc_kv s)\<lparr>cx_requested := False, cx_kv2 := Kv2_warming, cx_future := Warm_running\<rparr>
        else sc_kv s)" "job \<longrightarrow> sc_future s = Fut_none"
      using p by (auto simp: poll_warm_def split: if_splits)
    with ok p No_warm show ?thesis
      by (cases job) (auto simp: core_ok_def exec_ok_def poll_kv2_def query_ok_def)
  next
    case Warm_running
    with ok p show ?thesis by (auto simp: core_ok_def exec_ok_def poll_kv2_def query_ok_def poll_warm_def)
  next
    case (Warm_done r)
    with p have "cx_future kv = No_warm" "\<not> job" by (auto simp: poll_warm_def)
    with ok p Warm_done show ?thesis by (auto simp: core_ok_def exec_ok_def poll_kv2_def query_ok_def)
  qed
  then show ?thesis
    using ok kv p by (auto simp: core_ok_def dialogue_ok_def hold_ok_def discarded_def poll_kv2_def)
qed

section \<open>Starting a request\<close>

lemma distinct_without:
  assumes "i < length q" "distinct (map g (filter P q))" "P (q ! i)"
  shows "\<forall>p\<in>set (remove_nth i q). P p \<longrightarrow> g p \<noteq> g (q ! i)"
proof -
  have "q = take i q @ q ! i # drop (Suc i) q" using assms(1) by (rule id_take_nth_drop)
  then have "distinct (map g (filter P (take i q @ q ! i # drop (Suc i) q)))" using assms(2) by simp
  then have "g (q ! i) \<notin> g ` {p \<in> set (remove_nth i q). P p}"
    using assms(3) by (auto simp: remove_nth_def)
  then show ?thesis by (metis (mono_tags, lifting) imageI mem_Collect_eq)
qed

lemma distinct_remove_nth:
  assumes "distinct (map g (filter P q))"
  shows "distinct (map g (filter P (remove_nth i q)))"
proof (cases "i < length q")
  case True
  then have "q = take i q @ q ! i # drop (Suc i) q" by (rule id_take_nth_drop)
  then have "distinct (map g (filter P (take i q @ q ! i # drop (Suc i) q)))" using assms by simp
  then show ?thesis by (auto simp: remove_nth_def split: if_splits)
next
  case False
  with assms show ?thesis by (simp add: remove_nth_def)
qed

lemma start_next_core:
  assumes ok: "core_ok s"
  shows "core_ok (start_next w now s)"
proof (cases "sc_future s \<noteq> Fut_none \<or> cx_future (sc_kv s) \<noteq> No_warm \<or> next_index w (sc_pending s) = None")
  case True
  then have "start_next w now s = s" by (auto simp: start_next_def)
  with ok show ?thesis by simp
next
  case False
  then obtain i where i: "next_index w (sc_pending s) = Some i" and idle: "sc_future s = Fut_none" "cx_future (sc_kv s) = No_warm"
    by auto
  define it0 where "it0 = sc_pending s ! i"
  define it where "it = (if rq_started_at it0 = None then it0\<lparr>rq_started_at := Some now\<rparr> else it0)"
  define q where "q = remove_nth i (sc_pending s)"
  have t: "start_next w now s = s\<lparr>sc_pending := q, sc_active := Some it, sc_started := Some now,
      sc_future := Fut_submitted, sc_jobs := sc_jobs s @ [J_advance]\<rparr>"
    using i idle by (simp add: start_next_def Let_def it_def it0_def q_def)
  have same: "is_turn it = is_turn it0" "context_key it = context_key it0" "item_ok d it = item_ok d it0"
      "rq_cancelled it = rq_cancelled it0" for d
    by (simp_all add: it_def is_turn_def context_key_def item_ok_def suspended_turn_def)
  have bound: "i < length (sc_pending s)" and run: "runnable w q it0"
    using next_index_bound [OF i] next_index_in [OF i] by (simp_all add: candidates_def q_def it0_def)
  have inq: "set q \<subseteq> set (sc_pending s)" "it0 \<in> set (sc_pending s)"
    using bound set_remove_nth_subset [of i "sc_pending s"] by (simp_all add: q_def it0_def)
  have dist: "distinct (map context_key (filter suspended_turn (sc_pending s)))"
    using ok by (simp add: core_ok_def dialogue_ok_def)
  have free: "\<forall>p\<in>set q. \<not> in_progress (context_key it0) p" if "is_turn it0" "\<not> rq_cancelled it0"
  proof (cases "rq_suspended it0")
    case True
    with that(1) have "suspended_turn (sc_pending s ! i)" by (simp add: suspended_turn_def it0_def)
    from distinct_without [OF bound dist this] show ?thesis
      by (auto simp: q_def in_progress_def suspended_turn_def it0_def)
  next
    case False
    have "activation_of it0 = None"
      using that(1) activation_system by (fastforce simp: is_turn_def)
    with run that False show ?thesis
      by (auto simp: runnable_def list_ex_iff split: if_splits)
  qed
  have "exec_ok (start_next w now s)"
    using ok idle unfolding t core_ok_def exec_ok_def query_ok_def by simp
  moreover have "dialogue_ok (start_next w now s)"
    unfolding t dialogue_ok_def discarded_def using distinct_remove_nth [OF dist] free by (simp add: same q_def)
  moreover have "hold_ok (start_next w now s)"
    using ok inq unfolding t core_ok_def hold_ok_def by (auto simp: same)
  ultimately show ?thesis using ok by (simp add: core_ok_def t)
qed

section \<open>Jobs\<close>

lemma warm_job_keeps:
  assumes "kv_ok st k" "cx_future k = Warm_running"
  shows "cx_contexts (warm_job f k) = cx_contexts k" "\<exists>r. cx_future (warm_job f k) = Warm_done r"
proof -
  obtain k' r where w: "warm_kv2 f k = (k', r)" by force
  have "cx_enabled k" using assms kv_ok_enabled(2) by force
  from kv_ok_warm_kv2(3) [OF assms(1) this w] assms(2) w
  show "cx_contexts (warm_job f k) = cx_contexts k" "\<exists>r. cx_future (warm_job f k) = Warm_done r"
    by (simp_all add: warm_job_def)
qed

lemma human_key_inj: "human_key a = human_key b \<longleftrightarrow> a = b"
  by (simp add: human_key_def)

lemma human_key_other: "human_key a \<noteq> u ''voice''" "human_key a \<noteq> u ''notifications''"
  by (simp_all add: human_key_def u_def)

lemma context_key_human: "context_key it = human_key sid \<Longrightarrow> rq_session it = sid"
  using human_key_other [of sid] by (auto simp: context_key_def human_key_inj split: if_splits)

lemma release_context_core:
  assumes ok: "core_ok s"
  shows "core_ok (release_context r sid s)"
proof (cases "list_ex (\<lambda>it. rq_session it = sid) (requests s)")
  case True
  with ok show ?thesis by (simp add: release_context_def)
next
  case False
  let ?k = "close_context (sc_stopped s) r (human_key sid) (sc_kv s)"
  have t: "release_context r sid s = s\<lparr>sc_kv := ?k, sc_released := filter (\<lambda>x. x \<noteq> sid) (sc_released s)\<rparr>"
    using False by (simp add: release_context_def)
  have other: "context_key it \<noteq> human_key sid" if "it \<in> set (sc_pending s) \<union> set_option (sc_active s)" for it
  proof -
    have "it \<in> set (requests s)" using that by (auto simp: requests_def)
    with False have "rq_session it \<noteq> sid" by (auto simp: list_ex_iff)
    then show ?thesis using context_key_human by blast
  qed
  have "hold_ok (release_context r sid s)"
    using ok other unfolding t core_ok_def hold_ok_def item_ok_def
    by (simp add: close_context_keeps)
  moreover have "kv_ok (sc_stopped s) ?k" using ok by (simp add: core_ok_def kv_ok_close_context)
  ultimately show ?thesis
    using ok unfolding core_ok_def exec_ok_def query_ok_def dialogue_ok_def discarded_def
    by (simp add: t close_context_keeps)
qed

text \<open>A step hands its request the dialogue's context and leaves every other dialogue alone.\<close>

definition step_ok :: "job_env \<Rightarrow> request \<Rightarrow> contexts \<Rightarrow> bool \<Rightarrow> answer \<times> request \<times> contexts \<times> sched_note list \<Rightarrow> bool" where
  "step_ok env it kv st r = (case r of (a, it', kv', _) \<Rightarrow>
     kv_ok st kv' \<and> cx_future kv' = cx_future kv
     \<and> (\<forall>k c. dget (cx_contexts kv) k = Some c \<longrightarrow> dget (cx_contexts kv') k = Some c)
     \<and> item_ok (cx_contexts kv') it' \<and> activation_of it' = activation_of it
     \<and> (rq_cancelled it \<longrightarrow> a = Answer (make_turn ''cancelled'' []))
     \<and> (\<forall>t q. a = Finished t q \<longrightarrow> je_progress env = Finishes t q))"

lemma step_ok_from:
  assumes "step_ok env it' kv' st r" "cx_future kv' = cx_future kv" "activation_of it' = activation_of it"
    "rq_cancelled it \<Longrightarrow> rq_cancelled it'"
    "\<And>k c. dget (cx_contexts kv) k = Some c \<Longrightarrow> dget (cx_contexts kv') k = Some c"
  shows "step_ok env it kv st r"
  using assms by (cases r) (simp add: step_ok_def)

lemma fail_ok: "kv_ok st kv \<Longrightarrow> item_ok (cx_contexts kv) it \<Longrightarrow> \<not> rq_cancelled it \<Longrightarrow>
    step_ok env it kv st (fail_request m it kv)"
  by (simp add: step_ok_def fail_request_def)

lemma next_step_ok: "kv_ok st kv \<Longrightarrow> item_ok (cx_contexts kv) it \<Longrightarrow> \<not> rq_cancelled it \<Longrightarrow>
    step_ok env it kv st (next_step env it kv)"
  by (cases "je_progress env") (simp_all add: step_ok_def next_step_def fail_request_def)

lemma step_request_ok:
  assumes kv: "kv_ok st kv" and fut: "cx_future kv = No_warm" and item: "item_ok (cx_contexts kv) it"
  shows "step_ok env it kv st (step_request env it kv)"
proof (cases "rq_cancelled it")
  case True
  with kv item show ?thesis by (simp add: step_ok_def step_request_def)
next
  case nc: False
  define it1 where "it1 = it\<lparr>rq_suspended := True\<rparr>"
  have key: "context_key it1 = context_key it" by (simp add: it1_def context_key_def)
  show ?thesis
  proof (cases "rq_suspended it \<or> activation_of it \<noteq> None")
    case True
    have "item_ok (cx_contexts kv) it1"
      using item True
      by (auto simp: item_ok_def it1_def suspended_turn_def is_turn_def context_key_def dest: activation_system)
    moreover have "step_request env it kv = next_step env it1 kv"
      using nc True by (simp add: step_request_def it1_def)
    ultimately show ?thesis
      using next_step_ok [of st kv it1 env] kv nc
      by (auto intro: step_ok_from [of env it1 kv] simp: it1_def)
  next
    case False
    obtain kv' r where c: "context_for (je_prepare env) (je_fork env) (rq_kind it = User) (context_key it) kv = (kv', r)"
      by force
    have k: "kv_ok st kv'" "cx_future kv' = cx_future kv" "dget (cx_contexts kv') (context_key it) = r"
        "\<And>j. j \<noteq> context_key it \<Longrightarrow> dget (cx_contexts kv') j = dget (cx_contexts kv) j"
      using kv_ok_context_for [OF kv _ c] fut by simp_all
    have grow: "dget (cx_contexts kv) j = Some x \<Longrightarrow> dget (cx_contexts kv') j = Some x" for j x
      using k(3,4) c by (cases "j = context_key it") (auto simp: context_for_def)
    have none: "rq_context it = None" using False item by (simp add: item_ok_def)
    show ?thesis
    proof (cases r)
      case None
      have "item_ok (cx_contexts kv') it1" using none by (simp add: item_ok_def it1_def)
      moreover have "step_request env it kv = fail_request (u ''all manager KV contexts are occupied'') it1 kv'"
        using nc False c None by (simp add: step_request_def it1_def Let_def)
      ultimately show ?thesis
        using fail_ok [of st kv' it1 env] k(1,2) nc grow
        by (auto intro: step_ok_from [of env it1 kv'] simp: it1_def)
    next
      case (Some x)
      define it2 where "it2 = it1\<lparr>rq_context := Some x\<rparr>"
      have "context_key it2 = context_key it" by (simp add: it2_def it1_def context_key_def)
      then have "item_ok (cx_contexts kv') it2" using k(3) Some False
        by (simp add: item_ok_def it2_def it1_def)
      moreover have "step_request env it kv = next_step env it2 kv'"
        using nc False c Some by (simp add: step_request_def it1_def it2_def Let_def)
      ultimately show ?thesis
        using next_step_ok [of st kv' it2 env] k(1,2) nc grow
        by (auto intro: step_ok_from [of env it2 kv'] simp: it2_def it1_def)
    qed
  qed
qed

lemma advance_ok:
  assumes kv: "kv_ok st kv" and fut: "cx_future kv = No_warm" and item: "item_ok (cx_contexts kv) it"
  shows "step_ok env it kv st (advance env it kv)"
proof -
  have same: "item_ok d (it\<lparr>rq_cancelled := b\<rparr>) = item_ok d it" "item_ok d (it\<lparr>rq_task_started := b\<rparr>) = item_ok d it" for d b
    by (simp_all add: item_ok_def suspended_turn_def is_turn_def context_key_def)
  show ?thesis
  proof (cases "rq_run it \<noteq> None \<and> \<not> rq_cancelled it")
    case False
    then have "advance env it kv = step_request env it kv" by (auto simp: advance_def)
    with step_request_ok [OF assms] show ?thesis by simp
  next
    case True
    show ?thesis
    proof (cases "je_grant env")
      case Granted
      with True have "advance env it kv = step_request env (it\<lparr>rq_task_started := True\<rparr>) kv" by (simp add: advance_def)
      with step_request_ok [OF kv fut, of "it\<lparr>rq_task_started := True\<rparr>" env] item True show ?thesis
        by (auto intro: step_ok_from [of env "it\<lparr>rq_task_started := True\<rparr>" kv] simp: same)
    next
      case Denied
      with True have "advance env it kv = step_request env (it\<lparr>rq_cancelled := True\<rparr>) kv" by (simp add: advance_def)
      with step_request_ok [OF kv fut, of "it\<lparr>rq_cancelled := True\<rparr>" env] item True show ?thesis
        by (auto intro: step_ok_from [of env "it\<lparr>rq_cancelled := True\<rparr>" kv] simp: same)
    next
      case Unreachable
      with True kv item show ?thesis by (simp add: advance_def step_ok_def)
    next
      case (Grant_error m)
      with True fail_ok [OF kv item, of env m] show ?thesis by (simp add: advance_def)
    qed
  qed
qed

lemma run_job_core:
  assumes ok: "core_ok s" and input: "input_ok s (In_job env)"
  shows "core_ok (fst (run_job env s))"
proof (cases "sc_jobs s")
  case Nil
  with ok show ?thesis by (simp add: run_job_def)
next
  case (Cons j js)
  show ?thesis
  proof (cases j)
    case (J_release sid)
    have "core_ok (s\<lparr>sc_jobs := js\<rparr>)"
      using ok Cons J_release by (simp add: core_ok_def exec_ok_def query_ok_def dialogue_ok_def discarded_def hold_ok_def)
    then show ?thesis using Cons J_release release_context_core by (simp add: run_job_def)
  next
    case J_warm
    have run: "cx_future (sc_kv s) = Warm_running"
      using ok Cons J_warm by (simp add: core_ok_def exec_ok_def split: if_splits)
    have kv: "kv_ok (sc_stopped s) (sc_kv s)" using ok by (simp add: core_ok_def)
    note k = warm_job_keeps [OF kv run, of "je_fork env"] kv_ok_warm_job [OF kv run, of "je_fork env"]
    have "sc_active s = None"
      using ok run by (cases "sc_active s") (auto simp: core_ok_def exec_ok_def)
    with ok Cons J_warm k run show ?thesis
      by (auto simp: run_job_def core_ok_def exec_ok_def query_ok_def dialogue_ok_def hold_ok_def)
  next
    case J_advance
    have sub: "sc_future s = Fut_submitted"
      using ok Cons J_advance by (simp add: core_ok_def exec_ok_def split: if_splits)
    then obtain it where it: "sc_active s = Some it"
      using ok by (auto simp: core_ok_def exec_ok_def)
    have fut: "cx_future (sc_kv s) = No_warm" and kv: "kv_ok (sc_stopped s) (sc_kv s)"
      and item: "item_ok (cx_contexts (sc_kv s)) it"
      using ok it by (auto simp: core_ok_def exec_ok_def hold_ok_def)
    obtain a it' kv' ns where a: "advance env it (sc_kv s) = (a, it', kv', ns)" using prod_cases4 by blast
    from advance_ok [OF kv fut item, of env]
    have step: "kv_ok (sc_stopped s) kv'" "cx_future kv' = No_warm"
        "\<forall>k c. dget (cx_contexts (sc_kv s)) k = Some c \<longrightarrow> dget (cx_contexts kv') k = Some c"
        "item_ok (cx_contexts kv') it'" "activation_of it' = activation_of it"
        "rq_cancelled it \<longrightarrow> a = Answer (make_turn ''cancelled'' [])"
        "\<forall>t q. a = Finished t q \<longrightarrow> je_progress env = Finishes t q"
      using a fut by (simp_all add: step_ok_def)
    let ?t = "s\<lparr>sc_jobs := js, sc_active := Some it', sc_kv := kv', sc_future := Fut_done a\<rparr>"
    have t: "fst (run_job env s) = ?t" using Cons J_advance it a by (simp add: run_job_def)
    have key: "context_key it' = context_key it" "is_turn it' = is_turn it"
      using advance_keeps [OF a] by (simp_all add: context_key_def is_turn_def)
    have "exec_ok ?t"
      using ok Cons J_advance sub fut step(2,5,7) input it
      by (auto simp: core_ok_def exec_ok_def query_ok_def)
    moreover have "dialogue_ok ?t"
    proof -
      have "discarded s it \<longrightarrow> discarded ?t it'"
        using step(6) sub by (auto simp: discarded_def make_turn_def)
      with ok it show ?thesis by (auto simp: core_ok_def dialogue_ok_def key)
    qed
    moreover have "hold_ok ?t"
      using ok step(3,4) by (auto simp: core_ok_def hold_ok_def item_ok_def)
    ultimately show ?thesis using step(1) by (simp add: core_ok_def t)
  qed
qed

section \<open>Completion\<close>

lemma busy_same [simp]:
  "is_turn (it\<lparr>rq_busy := x\<rparr>) = is_turn it" "context_key (it\<lparr>rq_busy := x\<rparr>) = context_key it"
  "suspended_turn (it\<lparr>rq_busy := x\<rparr>) = suspended_turn it" "item_ok d (it\<lparr>rq_busy := x\<rparr>) = item_ok d it"
  by (simp_all add: is_turn_def context_key_def suspended_turn_def item_ok_def)

lemma recycle_core_kv:
  assumes "kv_ok (sc_stopped s) (sc_kv s)"
  shows "kv_ok (sc_stopped s) (sc_kv (recycle env it t s))" "cx_future (sc_kv (recycle env it t s)) = cx_future (sc_kv s)"
    "k \<noteq> context_key it \<or> rq_kind it \<noteq> User \<or> tu_kind t = u ''cancelled'' \<Longrightarrow>
     dget (cx_contexts (sc_kv (recycle env it t s))) k = dget (cx_contexts (sc_kv s)) k"
  using assms
  by (auto simp: recycle_def close_context_keeps kv_ok_close_context split: option.split)

lemma in_progress_turn: "in_progress (context_key it) it = suspended_turn it"
  by (auto simp: in_progress_def suspended_turn_def)

lemma poll_future_core:
  assumes ok: "core_ok s"
  shows "core_ok (fst (poll_future env s))"
proof (cases "sc_future s")
  case (Fut_done a)
  then obtain it0 where act: "sc_active s = Some it0"
    using ok by (auto simp: core_ok_def exec_ok_def)
  obtain s' ns where f: "finish_request env a s = (s', ns)" by force
  have fin: "\<And>t q. a = Finished t q \<Longrightarrow> activation_of it0 \<noteq> None"
    using ok Fut_done act by (simp add: core_ok_def exec_ok_def query_ok_def)
  have busy: "is_turn it0 \<Longrightarrow> \<not> discarded s it0 \<Longrightarrow> \<forall>p\<in>set (sc_pending s). \<not> in_progress (context_key it0) p"
    using ok act by (simp add: core_ok_def dialogue_ok_def)
  have holds: "item_ok (cx_contexts (sc_kv s)) it0" "\<forall>p\<in>set (sc_pending s). item_ok (cx_contexts (sc_kv s)) p"
    using ok act by (simp_all add: core_ok_def hold_ok_def)
  have jobs: "count_list (sc_jobs s) J_advance = 0"
      "count_list (sc_jobs s) J_warm = (if cx_future (sc_kv s) = Warm_running then 1 else 0)"
    using ok Fut_done by (simp_all add: core_ok_def exec_ok_def)
  from f act have "core_ok s'"
  proof (cases rule: finish_as)
    case (1 it rel)
    have rel: "count_list rel J_advance = 0" "count_list rel J_warm = 0" using 1(2) by auto
    from 1(3) show ?thesis
    proof
      assume "(a = Suspended \<or> (\<exists>t q r. a = Finished t (Some (q, r)))) \<and> ns = []
        \<and> s' = s\<lparr>sc_pending := sc_pending s @ [case a of Finished t (Some (q, r)) \<Rightarrow> as_manager q r it | _ \<Rightarrow> it],
                sc_active := None, sc_future := Fut_none, sc_started := None, sc_jobs := sc_jobs s @ rel\<rparr>"
      then show ?thesis
      proof (elim disjE conjE exE)
      assume a: "a = Suspended" and s': "s' = s\<lparr>sc_pending := sc_pending s @ [case a of Finished t (Some (q, r)) \<Rightarrow> as_manager q r it | _ \<Rightarrow> it],
                sc_active := None, sc_future := Fut_none, sc_started := None, sc_jobs := sc_jobs s @ rel\<rparr>"
      have "\<not> discarded s it0" using Fut_done a by (simp add: discarded_def)
      then have "suspended_turn it0 \<Longrightarrow> context_key it0 \<notin> context_key ` set (filter suspended_turn (sc_pending s))"
        using busy by (auto simp: suspended_turn_def in_progress_def)
      with ok have "dialogue_ok s'" by (auto simp: s' a 1(1) core_ok_def dialogue_ok_def)
      moreover have "hold_ok s'" using holds by (simp add: s' a 1(1) hold_ok_def)
      ultimately show ?thesis using ok jobs rel by (auto simp: s' core_ok_def exec_ok_def query_ok_def)
    next
      fix t q r
      assume a: "a = Finished t (Some (q, r))" and s': "s' = s\<lparr>sc_pending := sc_pending s @ [case a of Finished t (Some (q, r)) \<Rightarrow> as_manager q r it | _ \<Rightarrow> it],
                sc_active := None, sc_future := Fut_none, sc_started := None, sc_jobs := sc_jobs s @ rel\<rparr>"
      have "rq_context it0 = None" using fin [OF a] holds(1) by (simp add: item_ok_def)
      then have m: "\<not> suspended_turn (as_manager q r it)" "item_ok d (as_manager q r it)" for d
        by (simp_all add: as_manager_def suspended_turn_def item_ok_def 1(1))
      have "dialogue_ok s'" using ok m by (simp add: s' a core_ok_def dialogue_ok_def)
      moreover have "hold_ok s'" using holds m by (simp add: s' a hold_ok_def)
      ultimately show ?thesis using ok jobs rel by (auto simp: s' core_ok_def exec_ok_def query_ok_def)
      qed
    next
      assume "\<exists>t. (a = Answer t \<or> (\<exists>x. a = Finished x None)) \<and> admitted ns = {#} \<and> completed ns = {#ticket it0#}
        \<and> s' = (recycle env it t (s\<lparr>sc_last_seconds := Some (fe_now env - rq_queued_at it)\<rparr>))
             \<lparr>sc_active := None, sc_future := Fut_none, sc_started := None, sc_jobs := sc_jobs s @ rel\<rparr>"
      then obtain t where a: "a = Answer t \<or> (\<exists>x. a = Finished x None)"
        and s': "s' = (recycle env it t (s\<lparr>sc_last_seconds := Some (fe_now env - rq_queued_at it)\<rparr>))
             \<lparr>sc_active := None, sc_future := Fut_none, sc_started := None, sc_jobs := sc_jobs s @ rel\<rparr>"
        by blast
      let ?s = "s\<lparr>sc_last_seconds := Some (fe_now env - rq_queued_at it)\<rparr>"
      have kv: "kv_ok (sc_stopped ?s) (sc_kv ?s)" using ok by (simp add: core_ok_def)
      note r = recycle_core_kv [OF kv, where env = env and it = it and t = t]
      have "item_ok (cx_contexts (sc_kv s')) p" if p: "p \<in> set (sc_pending s)" for p
      proof (cases "suspended_turn p \<and> context_key p = context_key it \<and> rq_kind it = User \<and> tu_kind t \<noteq> u ''cancelled''")
        case True
        have "\<not> discarded s it0" "is_turn it0"
          using a True Fut_done fin activation_system [of it0] 1(1) by (auto simp: discarded_def is_turn_def)
        with busy p True have "\<not> in_progress (context_key it0) p" by simp
        with True show ?thesis by (simp add: 1(1) in_progress_def suspended_turn_def)
      next
        case False
        with holds(2) p r(3) show ?thesis by (auto simp: item_ok_def s')
      qed
      then have "hold_ok s'" by (simp add: hold_ok_def s')
      moreover have "dialogue_ok s'" using ok by (simp add: s' core_ok_def dialogue_ok_def)
      ultimately show ?thesis using ok jobs rel r(1,2) by (simp add: s' core_ok_def exec_ok_def query_ok_def)
    qed
  qed
  then show ?thesis using Fut_done f by (simp add: poll_future_def)
qed (use ok in \<open>simp_all add: poll_future_def\<close>)

section \<open>Shutdown\<close>

lemma poll_future_idle:
  assumes "core_ok s" "sc_future s \<noteq> Fut_submitted"
  shows "sc_active (fst (poll_future env s)) = None" "sc_stopped (fst (poll_future env s)) = sc_stopped s"
    "sc_max (fst (poll_future env s)) = sc_max s"
    "cx_future (sc_kv (fst (poll_future env s))) = cx_future (sc_kv s)"
    "admitted (snd (poll_future env s)) = {#}"
proof -
  have "sc_active (fst (poll_future env s)) = None \<and> sc_stopped (fst (poll_future env s)) = sc_stopped s
    \<and> sc_max (fst (poll_future env s)) = sc_max s \<and> cx_future (sc_kv (fst (poll_future env s))) = cx_future (sc_kv s)
    \<and> admitted (snd (poll_future env s)) = {#}"
  proof (cases "sc_future s")
    case Fut_none
    with assms show ?thesis by (simp add: poll_future_def core_ok_def exec_ok_def)
  next
    case (Fut_done a)
    then obtain it0 where act: "sc_active s = Some it0" using assms by (auto simp: core_ok_def exec_ok_def)
    obtain s' ns where f: "finish_request env a s = (s', ns)" by force
    have kv: "cx_future (sc_kv (recycle env it t (s\<lparr>sc_last_seconds := l\<rparr>))) = cx_future (sc_kv s)" for it t l
      using recycle_core_kv(2) [where s = "s\<lparr>sc_last_seconds := l\<rparr>"] assms(1) by (simp add: core_ok_def)
    from f act show ?thesis
      by (cases rule: finish_as) (use Fut_done f kv in \<open>auto simp: poll_future_def\<close>)
  qed (use assms in simp)
  then show "sc_active (fst (poll_future env s)) = None" "sc_stopped (fst (poll_future env s)) = sc_stopped s"
    "sc_max (fst (poll_future env s)) = sc_max s"
    "cx_future (sc_kv (fst (poll_future env s))) = cx_future (sc_kv s)"
    "admitted (snd (poll_future env s)) = {#}" by simp_all
qed

lemma drain_core: "core_ok s \<Longrightarrow> core_ok (drain_jobs r js s)"
  by (induction r js s rule: drain_jobs.induct) (auto intro: release_context_core)

lemma kv_ok_close_all:
  assumes "kv_ok st k" "cx_future k = No_warm"
  shows "kv_ok True (close_all k)"
proof -
  have "closed_ok k" and s: "slots_ok k" using assms by (simp_all add: kv_ok_def)
  have h: "set (dvals (cx_contexts k)) \<subseteq> held k"
  proof
    fix c
    assume "c \<in> set (dvals (cx_contexts k))"
    then obtain j where "(j, c) \<in> set (cx_contexts k)" by (auto simp: dvals_def)
    moreover have "dwf (cx_contexts k)" using assms by (simp add: kv_ok_def held_ok_def)
    ultimately show "c \<in> held k" by (auto simp: held_def ran_def dget_iff)
  qed
  have slot0: "set_option (cx_slot0 k) \<subseteq> {0}" using s by (simp add: slots_ok_def)
  have lt: "\<forall>c\<in>held k \<union> set_option (cx_slot1 k). c < cx_next k" and pos: "0 < cx_next k"
      "\<forall>c\<in>set (cx_closed k). 0 < c \<and> c < cx_next k"
    using \<open>closed_ok k\<close> by (auto simp: closed_ok_def)
  have f: "cx_contexts (close_all k) = []" "cx_slot1 (close_all k) = None" "cx_next (close_all k) = cx_next k"
      "cx_available (close_all k) = []" "cx_enabled (close_all k) = cx_enabled k" "cx_fork (close_all k) = cx_fork k"
      "cx_slot0 (close_all k) = (if cx_enabled k then Some 0 else None)" "\<not> cx_ready0 (close_all k)" "\<not> cx_ready1 (close_all k)"
      "cx_requested (close_all k) = cx_requested k" "cx_future (close_all k) = cx_future k"
    by (simp_all add: close_all_def Let_def)
  have he: "held (close_all k) = {}" by (simp add: held_def f ran_def)
  have "c \<in> set (cx_closed (close_all k)) \<Longrightarrow> 0 < c \<and> c < cx_next k" for c
    using h slot0 lt pos by (auto simp: close_all_def Let_def)
  then have "closed_ok (close_all k)" using pos(1) by (simp add: closed_ok_def he f)
  moreover have "slots_ok (close_all k)" using s assms(2) by (simp add: slots_ok_def f)
  ultimately show ?thesis by (simp add: kv_ok_def free_ok_def held_ok_def he f unshared_def)
qed

lemma close_rest_core:
  assumes ok: "core_ok s" and input: "input_ok s (In_close env)"
  shows "core_ok (fst (snd (close_rest env s)))"
    and "ticket_shift s (snd (close_rest env s))"
    and "sc_max (fst (snd (close_rest env s))) = sc_max s"
    and "admitted (snd (snd (close_rest env s))) = {#}"
proof -
  obtain s1 ns where p: "poll_future env s = (s1, ns)" by force
  have s1: "core_ok s1" "sc_active s1 = None" "sc_stopped s1" "cx_future (sc_kv s1) \<noteq> Warm_running"
      "sc_max s1 = sc_max s" "admitted ns = {#}"
    using poll_future_core [OF ok, of env] poll_future_idle [OF ok, of env] input p by simp_all
  have shift: "ticket_shift s (s1, ns)"
    using poll_future_shift [of s env] ok p by (simp add: core_ok_def exec_ok_def)
  have "core_ok (fst (snd (close_rest env s))) \<and> ticket_shift s (snd (close_rest env s))
    \<and> sc_max (fst (snd (close_rest env s))) = sc_max s \<and> admitted (snd (snd (close_rest env s))) = {#}"
  proof (cases "cx_future (sc_kv s1) = Warm_done False")
    case True
    with p s1 shift show ?thesis by (simp add: close_rest_def)
  next
    case False
    define s2 where "s2 = s1\<lparr>sc_kv := (sc_kv s1)\<lparr>cx_future := No_warm\<rparr>, sc_pending := [], sc_jobs := []\<rparr>"
    have "sc_future s1 = Fut_none" using s1 by (simp add: core_ok_def exec_ok_def)
    moreover have "kv_ok True ((sc_kv s1)\<lparr>cx_future := No_warm\<rparr>)"
      using s1(1,3) by (intro kv_ok_future) (simp_all add: core_ok_def)
    ultimately have "core_ok s2"
      using s1 by (simp add: s2_def core_ok_def exec_ok_def query_ok_def dialogue_ok_def hold_ok_def)
    then have s3: "core_ok (drain_jobs r (sc_jobs s1) s2)" (is "core_ok ?s3") for r
      by (rule drain_core)
    define s3 where "s3 = drain_jobs (fe_reset env) (sc_jobs s1) s2"
    obtain s4 ms where c: "cancel_rest (fe_now env) (sc_pending s1) s3 = (s4, ms)" by force
    have fields: "sc_pending s3 = []" "sc_active s3 = None" "sc_jobs s3 = []" "sc_future s3 = Fut_none" "sc_stopped s3"
        "sc_max s3 = sc_max s1"
      using s1 \<open>sc_future s1 = Fut_none\<close> by (simp_all add: s3_def s2_def)
    have ok3: "core_ok s3" unfolding s3_def by (rule s3)
    obtain l where s4: "s4 = s3\<lparr>sc_last_seconds := l\<rparr>" and ms: "admitted ms = {#}"
        "completed ms = image_mset ticket (mset (sc_pending s1))"
      using cancel_rest_as [OF c] by blast
    have res: "close_rest env s = (Inr (), s4\<lparr>sc_kv := close_all (sc_kv s4), sc_closed := True\<rparr>, ns @ ms)"
      using p False c by (simp add: close_rest_def s3_def s2_def)
    have nw: "cx_future (sc_kv s3) = No_warm"
    proof -
      have "cx_future (sc_kv (drain_jobs r js t)) = cx_future (sc_kv t)" for r js t
        by (induction r js t rule: drain_jobs.induct) (simp_all add: release_context_def close_context_keeps)
      then show ?thesis by (simp add: s3_def s2_def)
    qed
    have "kv_ok True (close_all (sc_kv s3))"
      using ok3 nw by (intro kv_ok_close_all [of "sc_stopped s3"]) (simp_all add: core_ok_def)
    moreover have "cx_future (close_all (sc_kv s3)) = No_warm" using nw by (simp add: close_all_def Let_def)
    ultimately have "core_ok (s4\<lparr>sc_kv := close_all (sc_kv s4), sc_closed := True\<rparr>)"
      using fields by (simp add: s4 core_ok_def exec_ok_def query_ok_def dialogue_ok_def hold_ok_def)
    moreover have "ticket_shift s (s4\<lparr>sc_kv := close_all (sc_kv s4), sc_closed := True\<rparr>, ns @ ms)"
      using shift s1(2,6) fields ms by (simp add: ticket_shift_def tickets_alt s4 ac_simps)
    ultimately show ?thesis using fields ms s1 by (simp add: res s4)
  qed
  then show "core_ok (fst (snd (close_rest env s)))" "ticket_shift s (snd (close_rest env s))"
    "sc_max (fst (snd (close_rest env s))) = sc_max s" "admitted (snd (snd (close_rest env s))) = {#}" by simp_all
qed

section \<open>Every history\<close>

definition sched_ok :: "sched \<Rightarrow> bool" where
  "sched_ok s \<longleftrightarrow> tickets_ok s \<and> core_ok s"

lemma sched_step_shift:
  assumes "sched_ok s" "input_ok s i"
  shows "ticket_shift s (sched_step i s)"
proof (cases i)
  case (In_future env)
  with assms show ?thesis by (simp add: sched_ok_def core_ok_def exec_ok_def poll_future_shift)
next
  case (In_close env)
  with assms close_rest_core(2) show ?thesis by (simp add: sched_ok_def)
next
  case (In_start w now)
  with assms show ?thesis by (auto simp: sched_ok_def core_ok_def exec_ok_def intro: start_next_shift)
qed (use assms in \<open>simp_all add: submit_user_def submit_voice_def submit_shift release_session_shift external_shift
  poll_events_shift run_job_shift, simp_all add: ticket_shift_def tickets_alt poll_kv2_def split: prod.split\<close>)

lemma sched_step_quiet:
  assumes "sched_ok s" "input_ok s i" "admitted (snd (sched_step i s)) = {#}" "sc_max (fst (sched_step i s)) = sc_max s"
  shows "tickets_ok (fst (sched_step i s))"
  using shift_fits [OF _ sched_step_shift [OF assms(1,2)] assms(3,4)] assms(1) by (simp add: sched_ok_def)

lemma run_job_quiet: "admitted (snd (run_job env s)) = {#}" "sc_max (fst (run_job env s)) = sc_max s"
proof -
  have "admitted (snd (run_job env s)) = {#} \<and> sc_max (fst (run_job env s)) = sc_max s"
  proof (cases "sc_jobs s")
    case (Cons j js)
    show ?thesis
    proof (cases j)
      case J_advance
      show ?thesis
      proof (cases "sc_active s")
        case (Some it)
        obtain a it' kv' ns where a: "advance env it (sc_kv s) = (a, it', kv', ns)" using prod_cases4 by blast
        with Some Cons J_advance advance_keeps(2) [OF a] show ?thesis by (simp add: run_job_def)
      qed (use Cons J_advance in \<open>simp add: run_job_def\<close>)
    qed (use Cons in \<open>simp_all add: run_job_def\<close>)
  qed (simp add: run_job_def)
  then show "admitted (snd (run_job env s)) = {#}" "sc_max (fst (run_job env s)) = sc_max s" by simp_all
qed

lemma poll_future_quiet:
  "admitted (snd (poll_future env s)) = {#}" "sc_max (fst (poll_future env s)) = sc_max s"
proof -
  have "admitted (snd (poll_future env s)) = {#} \<and> sc_max (fst (poll_future env s)) = sc_max s"
  proof (cases "sc_future s")
    case (Fut_done a)
    show ?thesis
    proof (cases "sc_active s")
      case None
      with Fut_done show ?thesis by (simp add: poll_future_def finish_request_def)
    next
      case (Some it0)
      obtain s' ns where f: "finish_request env a s = (s', ns)" by force
      from f Some show ?thesis by (cases rule: finish_as) (use Fut_done f in \<open>auto simp: poll_future_def\<close>)
    qed
  qed (simp_all add: poll_future_def)
  then show "admitted (snd (poll_future env s)) = {#}" "sc_max (fst (poll_future env s)) = sc_max s" by simp_all
qed

lemma start_next_max [simp]: "sc_max (start_next w now s) = sc_max s"
  by (auto simp: start_next_def Let_def split: option.split)

lemma sched_step_ok:
  assumes ok: "sched_ok s" and input: "input_ok s i"
  shows "sched_ok (fst (sched_step i s))"
proof -
  have t: "tickets_ok s" and c: "core_ok s" using ok by (simp_all add: sched_ok_def)
  note quiet = sched_step_quiet [OF ok input]
  show ?thesis
  proof (cases i)
    case (In_release sid)
    with quiet c show ?thesis
      by (simp add: sched_ok_def release_session_core) (simp add: release_human_session_def Let_def)
  next
    case In_kv2
    with quiet c show ?thesis by (simp add: sched_ok_def request_warm_core)
  next
    case (In_future env)
    with quiet c show ?thesis by (simp add: sched_ok_def poll_future_core poll_future_quiet)
  next
    case In_warm
    with quiet c show ?thesis
      by (simp add: sched_ok_def poll_kv2_core) (simp add: poll_kv2_def split: prod.split)
  next
    case (In_start w now)
    with quiet c show ?thesis by (simp add: sched_ok_def start_next_core)
  next
    case (In_job env)
    with quiet c input show ?thesis by (simp add: sched_ok_def run_job_core run_job_quiet)
  next
    case In_stop
    have "core_ok (s\<lparr>sc_stopped := True\<rparr>)"
      using c by (auto simp: core_ok_def exec_ok_def query_ok_def dialogue_ok_def discarded_def hold_ok_def
          intro: kv_ok_stop)
    with quiet In_stop show ?thesis by (simp add: sched_ok_def)
  next
    case (In_close env)
    have "input_ok s (In_close env)" using input In_close by simp
    note close = close_rest_core [OF c this]
    with quiet In_close show ?thesis by (simp add: sched_ok_def)
  qed (use t c in \<open>simp_all add: sched_ok_def submit_user_def submit_voice_def submit_fits submit_core external_fits
    external_core poll_events_fits poll_events_core\<close>)
qed

interpretation sched_runs: stepper "\<lambda>s i. fst (sched_step i s)" input_ok sched_ok
  by unfold_locales (rule sched_step_ok)

primrec sched_run :: "sinput list \<Rightarrow> sched \<Rightarrow> sched \<times> sched_note list" where
  "sched_run [] s = (s, [])"
| "sched_run (i # is) s =
     (let (s1, ns) = sched_step i s; (s2, ms) = sched_run is s1 in (s2, ns @ ms))"

lemma sched_run_state: "fst (sched_run is s) = foldl (\<lambda>s i. fst (sched_step i s)) s is"
  by (induction "is" arbitrary: s) (simp_all add: split_beta)

lemma sched_run_shift:
  "sched_ok s \<Longrightarrow> all_ok input_ok (\<lambda>s i. fst (sched_step i s)) s is \<Longrightarrow> ticket_shift s (sched_run is s)"
proof (induction "is" arbitrary: s)
  case (Cons i "is")
  obtain s1 ns where st: "sched_step i s = (s1, ns)" by force
  obtain s2 ms where r: "sched_run is s1 = (s2, ms)" by force
  have "ticket_shift s (s1, ns)" using sched_step_shift [of s i] Cons.prems st by simp
  moreover have "sched_ok s1" using sched_step_ok [of s i] Cons.prems st by simp
  then have "ticket_shift s1 (s2, ms)" using Cons.IH [of s1] Cons.prems st r by simp
  ultimately show ?case
    by (simp add: st r ticket_shift_def) (metis (no_types, lifting) union_assoc union_commute)
qed (simp add: ticket_shift_def)

lemma sched_ok_new:
  assumes "new_sched limit supported fork r a b c = Some s"
  shows "sched_ok s" "tickets s = {#}"
proof -
  have s: "sc_pending s = []" "sc_active s = None" "2 \<le> sc_max s"
    using assms by (auto simp: new_sched_def split: if_splits)
  then show "tickets s = {#}" by (simp add: tickets_alt)
  with s show "sched_ok s" using core_ok_new [OF assms]
    by (simp add: sched_ok_def tickets_ok_def tickets_fit_def)
qed

end
