(* ===== verification/SchedProps.thy ===== *)
theory SchedProps
  imports SchedCore
begin

text \<open>
  Properties of the request scheduler over its histories, each applied to a short concrete history:
  a message of a person and the event of a task run arrive, a request is chosen, performs its first
  step, is suspended, and CORE shuts down.
\<close>

section \<open>A concrete history\<close>

definition sample_sched :: sched where
  "sample_sched = the (new_sched 10 True True False True False False)"

definition sample_task_event :: sys_event where
  "sample_task_event = \<lparr>ev_source = u ''timer'', ev_name = u ''t'', ev_task = [], ev_created = 1,
     ev_task_id = Some 1, ev_generation = u ''g'', ev_run_id = u ''r'', ev_offer_id = u ''o''\<rparr>"

definition sample_world :: world where
  "sample_world = \<lparr>w_pool = \<lparr>ap_workers = [(u ''a'', Free)], ap_event_worker = None\<rparr>,
     w_waiting = (\<lambda>_. False), w_can_begin = (\<lambda>_. True)\<rparr>"

definition sample_step :: "grant \<Rightarrow> job_env" where
  "sample_step g = \<lparr>je_grant = g, je_progress = Yields, je_prepare = True, je_fork = True, je_reset = True\<rparr>"

definition sample_finish :: finish_env where
  "sample_finish = \<lparr>fe_now = 5, fe_chat = (\<lambda>_. False), fe_direct = (\<lambda>_. False), fe_reset = True\<rparr>"

definition sample_inputs :: "sinput list" where
  "sample_inputs = [In_user (u ''hi'') (u ''s'') (u ''1'') 2, In_poll [(sample_task_event, u ''2'')],
     In_start sample_world 3, In_job (sample_step Granted), In_future sample_finish]"

lemma sample_sched_new: "new_sched 10 True True False True False False = Some sample_sched"
  by (simp add: sample_sched_def new_sched_def)

lemmas sched_eval = new_request_def event_request_def make_turn_def append_locked_def admission_limit_def
  submit_user_def submit_input_def enqueue_event_def event_label_def has_coalesced_event_def has_run_def requests_def
  manager_priority_def hardware_event_priority_def default_event_priority_def context_key_def human_key_def
  activation_of_def is_turn_def in_progress_def runnable_def candidates_def next_index_def queue_key_def
  start_next_def remove_nth_def acquire_def acquire_event_def discard_def next_step_def step_request_def
  advance_def run_job_def context_for_def take_manager_def take_context_def poll_future_def finish_request_def
  elapsed_def complete_request_def conclude_request_def deliver_def recycle_def run_of_def opt_list_def Let_def

lemmas sample_defs = sample_sched_def new_sched_def new_contexts_def sample_task_event_def sample_world_def
  sample_step_def sample_finish_def

lemma sample_inputs_ok: "all_ok input_ok (\<lambda>s i. fst (sched_step i s)) sample_sched sample_inputs"
  by (simp add: sample_inputs_def sample_defs sched_eval text_eval upt_rec)

definition sample_item :: request where
  "sample_item = \<lparr>rq_kind = User, rq_label = u ''user'', rq_payload = User_text (u ''hi''), rq_queued_at = 2,
     rq_priority = 0, rq_coalesce = None, rq_id = u ''1'', rq_session = u ''s'', rq_suspended = True,
     rq_context = Some 0, rq_started_at = Some 3, rq_cancelled = False, rq_busy = 2, rq_run = None,
     rq_task_started = False\<rparr>"

definition sample_event_item :: request where
  "sample_event_item = event_request sample_task_event 100 (Some (event_label sample_task_event)) (u ''2'')"

definition sample_state :: sched where
  "sample_state = sample_sched\<lparr>sc_pending := [sample_event_item, sample_item],
     sc_kv := (sc_kv sample_sched)\<lparr>cx_contexts := [(human_key (u ''s''), 0)], cx_available := []\<rparr>\<rparr>"

lemma sample_run: "fst (sched_run sample_inputs sample_sched) = sample_state"
  by (simp add: sample_state_def sample_item_def sample_event_item_def sample_inputs_def sample_defs sched_eval
      text_eval upt_rec)

section \<open>Admission\<close>

lemma distinct_by_count:
  "(\<And>k. length (filter (\<lambda>x. f x = Some k) q) \<le> 1) \<Longrightarrow> distinct (List.map_filter f q)"
proof (induction q)
  case Nil
  then show ?case by (simp add: List.map_filter_def)
next
  case (Cons x q)
  have "length (filter (\<lambda>x. f x = Some k) q) \<le> 1" for k
    using Cons.prems [of k] by (simp split: if_splits)
  then have d: "distinct (List.map_filter f q)" by (rule Cons.IH)
  show ?case
  proof (cases "f x")
    case None
    with d show ?thesis by (simp add: List.map_filter_def)
  next
    case (Some k)
    with Cons.prems [of k] have "filter (\<lambda>x. f x = Some k) q = []" by simp
    then have "k \<notin> set (List.map_filter f q)"
      by (auto simp: List.map_filter_def filter_empty_conv)
    with d Some show ?thesis by (simp add: List.map_filter_def)
  qed
qed

lemma count_tickets: "size (filter_mset P (tickets s)) = length (filter (\<lambda>it. P (ticket it)) (requests s))"
proof -
  have "size (filter_mset P (image_mset ticket (mset q))) = length (filter (\<lambda>it. P (ticket it)) q)" for q
    by (induction q) auto
  then show ?thesis by (simp add: tickets_def)
qed

lemma sched_step_max: "sched_ok s \<Longrightarrow> input_ok s i \<Longrightarrow> sc_max (fst (sched_step i s)) = sc_max s"
proof (cases i)
  case (In_poll evs)
  have "sc_max (fst (poll_system_events evs s)) = sc_max s" for s
    by (induction evs arbitrary: s)
      (auto simp: Let_def enqueue_event_def append_locked_def split_beta split: if_splits option.splits)
  with In_poll show ?thesis by simp
next
  case (In_close env)
  assume "sched_ok s" "input_ok s i"
  with In_close show ?thesis using close_rest_core(3) [of s env] by (simp add: sched_ok_def)
qed (auto simp: submit_user_def submit_voice_def submit_input_def append_locked_def enqueue_external_event_def
    enqueue_event_def release_human_session_def run_job_quiet poll_future_quiet poll_kv2_def Let_def
    split: prod.split if_splits option.splits)

lemma sched_run_max:
  "sched_ok s \<Longrightarrow> all_ok input_ok (\<lambda>s i. fst (sched_step i s)) s is \<Longrightarrow> sc_max (fst (sched_run is s)) = sc_max s"
proof (induction "is" arbitrary: s)
  case (Cons i "is")
  then show ?case
    using sched_step_max [of s i] sched_step_ok [of s i] by (simp add: split_beta)
qed simp

text \<open>Every history of a new scheduler ends in a state with the invariant.\<close>

lemma history_ok:
  assumes "new_sched limit supported fork r a b c = Some s0"
    and "all_ok input_ok (\<lambda>s i. fst (sched_step i s)) s0 is"
  shows "sched_ok (fst (sched_run is s0))" "sc_max (fst (sched_run is s0)) = limit"
proof -
  show "sched_ok (fst (sched_run is s0))"
    unfolding sched_run_state by (rule sched_runs.inv_run [OF sched_ok_new(1) [OF assms(1)] assms(2)])
  have "sc_max s0 = limit" using assms(1) by (auto simp: new_sched_def split: if_splits)
  then show "sc_max (fst (sched_run is s0)) = limit"
    using sched_run_max [OF sched_ok_new(1) [OF assms(1)] assms(2)] by simp
qed

text \<open>C26: over every history of a new scheduler the requests waiting and in progress never exceed the
  configured limit, those that are not of people leave eight places free (where the limit allows it),
  no two requests coalesce under the same key, and no offer of a task run is held twice.\<close>

theorem admission_is_bounded:
  assumes "new_sched limit supported fork r a b c = Some s0"
    and "all_ok input_ok (\<lambda>s i. fst (sched_step i s)) s0 is"
    and "sched_run is s0 = (s, ns)"
  shows "int (length (requests s)) \<le> limit
    \<and> int (length (filter (\<lambda>it. rq_kind it \<noteq> User) (requests s))) \<le> max 1 (limit - 8)
    \<and> distinct (List.map_filter rq_coalesce (requests s)) \<and> distinct (List.map_filter run_of (requests s))"
proof -
  have "sched_ok s" and m: "sc_max s = limit" using history_ok [OF assms(1,2)] assms(3) by simp_all
  then have fit: "tickets_fit limit (tickets s)" by (simp add: sched_ok_def tickets_ok_def)
  have "int (length (requests s)) \<le> limit" using fit by (simp add: tickets_fit_def tickets_def)
  moreover have "int (length (filter (\<lambda>it. rq_kind it \<noteq> User) (requests s))) \<le> max 1 (limit - 8)"
    using fit by (simp add: tickets_fit_def count_tickets ticket_def)
  moreover have "distinct (List.map_filter rq_coalesce (requests s))"
    using fit by (intro distinct_by_count) (simp add: tickets_fit_def count_tickets ticket_def)
  moreover have "distinct (List.map_filter run_of (requests s))"
  proof (rule distinct_by_count)
    fix k
    show "length (filter (\<lambda>it. run_of it = Some k) (requests s)) \<le> 1"
      using fit by (cases k) (simp add: tickets_fit_def count_tickets ticket_def)
  qed
  ultimately show ?thesis by blast
qed

theorem admission_is_bounded_witness:
  "int (length (requests sample_state)) \<le> 10
    \<and> int (length (filter (\<lambda>it. rq_kind it \<noteq> User) (requests sample_state))) \<le> 2"
proof -
  obtain ns where r: "sched_run sample_inputs sample_sched = (sample_state, ns)"
    using sample_run by (metis prod.collapse)
  show ?thesis using admission_is_bounded [OF sample_sched_new sample_inputs_ok r] by simp
qed

text \<open>C5: no admitted request is lost and none is completed twice: over every history the admitted
  requests are, as a multiset of identifiers with their kind, coalescing key and run, those still in
  the scheduler together with those completed.\<close>

theorem requests_are_conserved:
  assumes "new_sched limit supported fork r a b c = Some s0"
    and "all_ok input_ok (\<lambda>s i. fst (sched_step i s)) s0 is"
    and "sched_run is s0 = (s, ns)"
  shows "image_mset ticket (mset (requests s)) + completed ns = admitted ns"
  using sched_run_shift [OF sched_ok_new(1) [OF assms(1)] assms(2)] sched_ok_new(2) [OF assms(1)] assms(3)
  by (simp add: ticket_shift_def flip: tickets_def)

theorem requests_are_conserved_witness:
  "image_mset ticket (mset (requests sample_state)) + completed (snd (sched_run sample_inputs sample_sched))
     = admitted (snd (sched_run sample_inputs sample_sched))"
proof -
  obtain ns where r: "sched_run sample_inputs sample_sched = (sample_state, ns)"
    using sample_run by (metis prod.collapse)
  show ?thesis using requests_are_conserved [OF sample_sched_new sample_inputs_ok r] r by simp
qed

section \<open>Dialogues\<close>

text \<open>Over every history at most one turn of a dialogue is suspended, and the request in progress,
  unless it is being discarded, is not of a dialogue with a suspended turn: a later input never
  overtakes the turn that is under way.\<close>

theorem one_turn_per_dialogue:
  assumes "new_sched limit supported fork r a b c = Some s0"
    and "all_ok input_ok (\<lambda>s i. fst (sched_step i s)) s0 is"
    and "sched_run is s0 = (s, ns)"
  shows "distinct (map context_key (filter suspended_turn (sc_pending s)))
    \<and> (\<forall>it p. sc_active s = Some it \<longrightarrow> is_turn it \<longrightarrow> \<not> discarded s it \<longrightarrow>
         p \<in> set (sc_pending s) \<longrightarrow> suspended_turn p \<longrightarrow> context_key p \<noteq> context_key it)"
proof -
  have "dialogue_ok s" using history_ok(1) [OF assms(1,2)] assms(3) by (simp add: sched_ok_def core_ok_def)
  then have "distinct (map context_key (filter suspended_turn (sc_pending s)))"
    and free: "\<forall>it\<in>set_option (sc_active s). is_turn it \<and> \<not> discarded s it \<longrightarrow>
          (\<forall>p\<in>set (sc_pending s). \<not> in_progress (context_key it) p)"
    by (simp_all add: dialogue_ok_def)
  moreover have "\<not> in_progress k p \<Longrightarrow> suspended_turn p \<Longrightarrow> context_key p \<noteq> k" for k p
    by (simp add: in_progress_def suspended_turn_def)
  ultimately show ?thesis by (metis option.set_intros)
qed

theorem one_turn_per_dialogue_witness:
  "distinct (map context_key (filter suspended_turn (sc_pending sample_state)))"
proof -
  obtain ns where r: "sched_run sample_inputs sample_sched = (sample_state, ns)"
    using sample_run by (metis prod.collapse)
  show ?thesis using one_turn_per_dialogue [OF sample_sched_new sample_inputs_ok r] by simp
qed

text \<open>C11: over every history, where contexts can be forked, no two dialogues have the same model context;
  a context of a dialogue is never closed and never on the list of free warm contexts; and the
  context a suspended turn works in is still the one of its dialogue.\<close>

theorem dialogues_own_their_contexts:
  assumes "new_sched limit supported fork r a b c = Some s0"
    and "all_ok input_ok (\<lambda>s i. fst (sched_step i s)) s0 is"
    and "sched_run is s0 = (s, ns)"
  shows "(cx_fork (sc_kv s) \<longrightarrow> (\<forall>k j x. dget (cx_contexts (sc_kv s)) k = Some x \<longrightarrow>
            dget (cx_contexts (sc_kv s)) j = Some x \<longrightarrow> k = j))
    \<and> (\<forall>k x. dget (cx_contexts (sc_kv s)) k = Some x \<longrightarrow>
         x \<notin> set (cx_closed (sc_kv s)) \<and> x \<notin> set (cx_available (sc_kv s)))
    \<and> (\<forall>it x. it \<in> set (requests s) \<longrightarrow> suspended_turn it \<longrightarrow> rq_context it = Some x \<longrightarrow>
         dget (cx_contexts (sc_kv s)) (context_key it) = Some x)"
proof -
  have core: "core_ok s" using history_ok(1) [OF assms(1,2)] assms(3) by (simp add: sched_ok_def)
  then have kv: "held_ok (sc_kv s)" "closed_ok (sc_kv s)" "free_ok (sc_kv s)" and hold: "hold_ok s"
    by (simp_all add: core_ok_def kv_ok_def)
  have in_held: "dget (cx_contexts (sc_kv s)) k = Some x \<Longrightarrow> x \<in> held (sc_kv s)" for k x
    by (auto simp: held_def intro: ranI)
  have "\<forall>k x. dget (cx_contexts (sc_kv s)) k = Some x \<longrightarrow>
         x \<notin> set (cx_closed (sc_kv s)) \<and> x \<notin> set (cx_available (sc_kv s))"
    using kv(2,3) in_held unfolding closed_ok_def free_ok_def by blast
  moreover have "\<forall>it x. it \<in> set (requests s) \<longrightarrow> suspended_turn it \<longrightarrow> rq_context it = Some x \<longrightarrow>
         dget (cx_contexts (sc_kv s)) (context_key it) = Some x"
    using hold by (auto simp: hold_ok_def item_ok_def requests_def)
  ultimately show ?thesis using kv(1) unfolding held_ok_def unshared_def by blast
qed

theorem dialogues_own_their_contexts_witness:
  "dget (cx_contexts (sc_kv sample_state)) (context_key sample_item) = Some 0
    \<and> 0 \<notin> set (cx_closed (sc_kv sample_state)) \<and> 0 \<notin> set (cx_available (sc_kv sample_state))"
proof -
  obtain ns where r: "sched_run sample_inputs sample_sched = (sample_state, ns)"
    using sample_run by (metis prod.collapse)
  note own = dialogues_own_their_contexts [OF sample_sched_new sample_inputs_ok r]
  have "sample_item \<in> set (requests sample_state)" by (simp add: sample_state_def requests_def)
  moreover have "suspended_turn sample_item" "rq_context sample_item = Some 0"
    by (simp_all add: sample_item_def suspended_turn_def is_turn_def)
  ultimately show ?thesis using own by blast
qed

section \<open>The next request\<close>

lemma next_index_least:
  assumes "next_index w q = Some i" "j < length q" "runnable w (remove_nth j q) (q ! j)"
  shows "queue_key q i \<le> queue_key q j"
proof -
  obtain k where k: "min_pos (queue_key q) (candidates w q) = Some k" "i = candidates w q ! k"
    using assms(1) by (auto simp: next_index_def Let_def)
  have "j \<in> set (candidates w q)" using assms(2,3) by (simp add: candidates_def)
  then obtain m where "m < length (candidates w q)" "candidates w q ! m = j" by (auto simp: in_set_conv_nth)
  with min_pos_least [OF k(1)] k(2) show ?thesis by fastforce
qed

text \<open>C27: when no job is in progress the scheduler starts the runnable request that comes first by
  priority, then by the time it was queued, then by its place in the queue, and leaves the others in
  their order; when none is runnable nothing changes.\<close>

theorem start_takes_first_runnable:
  assumes "sc_future s = Fut_none" and "cx_future (sc_kv s) = No_warm"
    and "q = sc_pending s" and "\<And>i. ready i \<longleftrightarrow> i < length q \<and> runnable w (remove_nth i q) (q ! i)"
  shows "(\<exists>i. ready i
      \<and> (\<forall>j. ready j \<and> j \<noteq> i \<longrightarrow>
           (rq_priority (q ! i), rq_queued_at (q ! i), i) < (rq_priority (q ! j), rq_queued_at (q ! j), j))
      \<and> map_option rq_id (sc_active (start_next w now s)) = Some (rq_id (q ! i))
      \<and> sc_pending (start_next w now s) = take i q @ drop (Suc i) q)
    \<or> ((\<forall>i. \<not> ready i) \<and> start_next w now s = s)"
proof (cases "next_index w q")
  case None
  then have "candidates w q = []" by (simp add: next_index_def Let_def)
  then have "\<forall>i. \<not> ready i" using assms(4) by (auto simp: candidates_def filter_empty_conv)
  moreover have "start_next w now s = s" using assms(1-3) None by (simp add: start_next_def)
  ultimately show ?thesis by blast
next
  case (Some i)
  have "ready i" using next_index_in [OF Some] assms(4) by (simp add: candidates_def)
  moreover have "(rq_priority (q ! i), rq_queued_at (q ! i), i) < (rq_priority (q ! j), rq_queued_at (q ! j), j)"
    if "ready j" "j \<noteq> i" for j
  proof -
    have "queue_key q i \<le> queue_key q j" using next_index_least [OF Some] that(1) assms(4) by blast
    moreover have "queue_key q i \<noteq> queue_key q j" using that(2) by (simp add: queue_key_def)
    ultimately show ?thesis unfolding queue_key_def by (rule le_neq_trans)
  qed
  moreover have "map_option rq_id (sc_active (start_next w now s)) = Some (rq_id (q ! i))"
      "sc_pending (start_next w now s) = take i q @ drop (Suc i) q"
    using assms(1-3) Some by (simp_all add: start_next_def Let_def remove_nth_def)
  ultimately show ?thesis by blast
qed

theorem start_takes_first_runnable_witness:
  "map_option rq_id (sc_active (start_next sample_world 6 sample_state)) = Some (u ''1'')"
proof -
  let ?ready = "\<lambda>i. i < length (sc_pending sample_state)
    \<and> runnable sample_world (remove_nth i (sc_pending sample_state)) (sc_pending sample_state ! i)"
  have f: "sc_future sample_state = Fut_none" "cx_future (sc_kv sample_state) = No_warm"
    by (simp_all add: sample_state_def sample_defs)
  have pend: "sc_pending sample_state = [sample_event_item, sample_item]" by (simp add: sample_state_def)
  have ready1: "?ready 1"
    by (simp add: pend runnable_def sample_item_def sample_world_def)
  note start = start_takes_first_runnable [OF f refl, of ?ready sample_world 6, OF refl]
  have prio: "rq_priority sample_item = 0" "rq_priority sample_event_item = 100"
    by (simp_all add: sample_item_def sample_event_item_def event_request_def new_request_def Let_def)
  have "rq_id sample_item = u ''1''" by (simp add: sample_item_def)
  moreover from start ready1 obtain i where i: "?ready i"
      "?ready 1 \<and> 1 \<noteq> i \<longrightarrow> (rq_priority (sc_pending sample_state ! i), rq_queued_at (sc_pending sample_state ! i), i)
        < (rq_priority (sc_pending sample_state ! 1), rq_queued_at (sc_pending sample_state ! 1), 1)"
      "map_option rq_id (sc_active (start_next sample_world 6 sample_state)) = Some (rq_id (sc_pending sample_state ! i))"
    by blast
  moreover have "i = 1"
  proof (rule ccontr)
    assume "i \<noteq> 1"
    with i(1) have "i = 0" by (simp add: pend)
    with i(2) ready1 show False by (simp add: pend prio)
  qed
  ultimately show ?thesis by (simp add: pend)
qed

section \<open>Steps and shutdown\<close>

text \<open>C28: a request that stands for a run of a saved task performs a step only when the task service
  granted it in the same job and it was not cancelled; refused, it is completed as cancelled and its
  context is aborted; while the service cannot be reached it goes back to the queue as it was.\<close>

theorem task_run_steps_only_when_granted:
  assumes "sc_jobs s = J_advance # js" and "sc_active s = Some it" and "rq_run it = Some e"
    and "run_job env s = (s', ns)"
  shows "((\<exists>x. Stepped x \<in> set ns) \<longrightarrow> je_grant env = Granted \<and> \<not> rq_cancelled it)
    \<and> (je_grant env = Denied \<longrightarrow> \<not> rq_cancelled it \<longrightarrow>
         sc_future s' = Fut_done (Answer (make_turn ''cancelled'' [])) \<and> ns = discard it \<and> sc_kv s' = sc_kv s)
    \<and> (je_grant env = Unreachable \<longrightarrow> \<not> rq_cancelled it \<longrightarrow>
         sc_future s' = Fut_done Suspended \<and> sc_active s' = Some it \<and> ns = [] \<and> sc_kv s' = sc_kv s)"
proof -
  obtain a it' kv' ms where a: "advance env it (sc_kv s) = (a, it', kv', ms)" using prod_cases4 by blast
  then have r: "ns = ms" "sc_future s' = Fut_done a" "sc_active s' = Some it'" "sc_kv s' = kv'"
    using assms by (auto simp: run_job_def)
  have quiet: "Stepped x \<notin> set (discard y)" for x y
    by (cases "rq_context y") (simp_all add: discard_def)
  show ?thesis
    using a assms(3) quiet r
    by (cases "rq_cancelled it"; cases "je_grant env")
      (auto simp: advance_def step_request_def fail_request_def discard_def)
qed

definition sample_run_sched :: sched where
  "sample_run_sched = sample_sched\<lparr>sc_jobs := [J_advance], sc_future := Fut_submitted,
     sc_active := Some sample_event_item\<rparr>"

theorem task_run_steps_only_when_granted_witness:
  "sc_future (fst (run_job (sample_step Denied) sample_run_sched)) = Fut_done (Answer (make_turn ''cancelled'' []))"
proof -
  have s: "sc_jobs sample_run_sched = [J_advance]" "sc_active sample_run_sched = Some sample_event_item"
      "rq_run sample_event_item = Some sample_task_event" "\<not> rq_cancelled sample_event_item"
    by (simp_all add: sample_run_sched_def sample_event_item_def event_request_def new_request_def Let_def
        sample_task_event_def)
  have "je_grant (sample_step Denied) = Denied" by (simp add: sample_step_def)
  with task_run_steps_only_when_granted [OF s(1-3) surjective_pairing, of "sample_step Denied"] s(4)
  show ?thesis by blast
qed

text \<open>C29: closing a stopped scheduler whose jobs are done completes every request it still has, each
  exactly once, and leaves no context held or free; unless a warm-up of the second manager context
  has just failed: then it stops with that error, and the pending requests are not completed.\<close>

theorem close_completes_all_or_stops:
  assumes "sched_ok s" and "input_ok s (In_close env)" and "close_rest env s = (res, s', ns)"
  shows "if cx_future (sc_kv s) = Warm_done False
         then res = Inl Warm_failed \<and> set (sc_pending s) \<subseteq> set (sc_pending s')
         else res = Inr () \<and> requests s' = [] \<and> completed ns = tickets s
            \<and> cx_contexts (sc_kv s') = [] \<and> cx_available (sc_kv s') = []"
proof -
  have core: "core_ok s" and sub: "sc_future s \<noteq> Fut_submitted" using assms(1,2) by (simp_all add: sched_ok_def)
  obtain s1 ks where p: "poll_future env s = (s1, ks)" by force
  note idle = poll_future_idle [OF core sub, of env]
  have fut: "cx_future (sc_kv s1) = cx_future (sc_kv s)" and act: "sc_active s1 = None" using idle p by simp_all
  show ?thesis
  proof (cases "cx_future (sc_kv s) = Warm_done False")
    case True
    have "sc_active s = None"
      using core True by (cases "sc_active s") (auto simp: core_ok_def exec_ok_def)
    then have "sc_future s = Fut_none" using core by (simp add: core_ok_def exec_ok_def)
    with p have "s1 = s" by (simp add: poll_future_def)
    with True p fut assms(3) show ?thesis by (simp add: close_rest_def)
  next
    case False
    define s2 where "s2 = s1\<lparr>sc_kv := (sc_kv s1)\<lparr>cx_future := No_warm\<rparr>, sc_pending := [], sc_jobs := []\<rparr>"
    define s3 where "s3 = drain_jobs (fe_reset env) (sc_jobs s1) s2"
    obtain s4 ms where c: "cancel_rest (fe_now env) (sc_pending s1) s3 = (s4, ms)" by force
    have r: "res = Inr ()" "s' = s4\<lparr>sc_kv := close_all (sc_kv s4), sc_closed := True\<rparr>"
      using assms(3) p False fut c by (simp_all add: close_rest_def s3_def s2_def)
    obtain l where "s4 = s3\<lparr>sc_last_seconds := l\<rparr>" using cancel_rest_as [OF c] by blast
    then have req: "requests s' = []" by (simp add: r requests_def s3_def s2_def act)
    have "ticket_shift s (s', ns)" "admitted ns = {#}"
      using close_rest_core(2,4) [OF core assms(2)] assms(3) by simp_all
    then have "completed ns = tickets s" using req by (simp add: ticket_shift_def tickets_def)
    with False r(1) req show ?thesis by (simp add: r(2) close_all_def Let_def)
  qed
qed

theorem close_completes_all_or_stops_witness:
  "fst (close_rest sample_finish (sample_state\<lparr>sc_stopped := True\<rparr>)) = Inr ()
    \<and> requests (fst (snd (close_rest sample_finish (sample_state\<lparr>sc_stopped := True\<rparr>)))) = []"
proof -
  obtain ns where r: "sched_run sample_inputs sample_sched = (sample_state, ns)"
    using sample_run by (metis prod.collapse)
  have "sched_ok sample_state" using history_ok(1) [OF sample_sched_new sample_inputs_ok] r by simp
  moreover have "input_ok sample_state In_stop" by (simp add: sample_state_def sample_defs)
  ultimately have ok: "sched_ok (sample_state\<lparr>sc_stopped := True\<rparr>)" (is "sched_ok ?s")
    using sched_step_ok [of sample_state In_stop] by simp
  have k: "cx_future (sc_kv ?s) = No_warm" by (simp add: sample_state_def sample_defs)
  have "input_ok ?s (In_close sample_finish)" by (simp add: sample_state_def sample_defs)
  from close_completes_all_or_stops [OF ok this, of _ _ "snd (snd (close_rest sample_finish ?s))"] k
  show ?thesis by (metis prod.collapse warm_future.distinct(3))
qed

end
