(* ===== verification/Protocol.thy ===== *)
theory Protocol
  imports Shlex SysRuntime
begin

text \<open>
  The line protocol between the models and CORE (orchestration/protocol.py): what a manager's or
  an agent's answer is read as. Regular expressions are full matches and are written as functions
  on the text. Error texts are constructors. \<open>json.loads\<close> enters at the level of its outcome, a value
  or a decoding error, given by the parameter \<open>loads\<close>; \<open>ext\<close> says which characters above ASCII other
  than the basic Cyrillic letters are word characters of a regular expression.
\<close>

section \<open>Directives\<close>

datatype manager_action =
  Act_delegate | Act_continue | Act_self | Act_command | Act_system | Act_ask | Act_wait | Act_reply

record manager_directive =
  md_action :: manager_action
  md_body :: str
  md_skills :: "str list"
  md_agent :: "str option"
  md_command :: "str option"
  md_system :: "str option"
  md_description :: "str option"
  md_method :: "str option"

definition directive :: "manager_action \<Rightarrow> str \<Rightarrow> manager_directive" where
  "directive a body = \<lparr>md_action = a, md_body = body, md_skills = [], md_agent = None, md_command = None,
     md_system = None, md_description = None, md_method = None\<rparr>"

definition system_directive :: "str \<Rightarrow> str \<Rightarrow> manager_directive" where
  "system_directive command body = (directive Act_system body)\<lparr>md_system := Some command\<rparr>"

datatype proto_error =
    Pe_empty
  | Pe_too_long
  | Pe_fence
  | Pe_timer_syntax sh_error
  | Pe_timer_usage
  | Pe_embedded_control
  | Pe_returned_value
  | Pe_ask_body
  | Pe_reply_body
  | Pe_wait_body
  | Pe_self_body
  | Pe_self_skills
  | Pe_system_command
  | Pe_delegate_none
  | Pe_delegate_skills
  | Pe_delegate_duplicate
  | Pe_delegate_body
  | Pe_delegate_control
  | Pe_continue_agent
  | Pe_continue_body
  | Pe_one_line
  | Pe_first_line

section \<open>Words of the protocol\<close>

definition skill_char :: "nat \<Rightarrow> bool" where
  "skill_char c \<longleftrightarrow> is_lower c \<or> is_digit c \<or> c = 95 \<or> c = 45"

definition name_char :: "nat \<Rightarrow> bool" where
  "name_char c \<longleftrightarrow> is_alnum c \<or> c = 95 \<or> c = 46 \<or> c = 45"

definition skill_word :: "str \<Rightarrow> bool" where
  "skill_word s \<longleftrightarrow> (case s of [] \<Rightarrow> False | c # cs \<Rightarrow> is_lower c \<and> list_all skill_char cs)"

definition skill_ok :: "str \<Rightarrow> bool" where
  "skill_ok s \<longleftrightarrow> skill_word s
     \<or> (startswith s (u ''mcp:'')
        \<and> (case partition_on 58 (drop 4 s) of (server, sep, tool) \<Rightarrow>
             skill_word server \<and> sep \<and> tool \<noteq> [] \<and> list_all name_char tool))"

definition agent_ok :: "str \<Rightarrow> bool" where
  "agent_ok s \<longleftrightarrow> startswith s (u ''agent'')
     \<and> (case drop 5 s of [] \<Rightarrow> False | c # cs \<Rightarrow> 49 \<le> c \<and> c \<le> 57 \<and> list_all is_digit cs)"

definition timer_name :: "str \<Rightarrow> bool" where
  "timer_name s \<longleftrightarrow> (case s of [] \<Rightarrow> False | c # cs \<Rightarrow> is_alnum c \<and> list_all name_char cs)"

definition control_words :: "str list" where
  "control_words = [u ''ASK'', u ''WAIT'', u ''REPLY'']"

definition control_prefixes :: "str list" where
  "control_prefixes = [u ''DELEGATE '', u ''CONTINUE '', u ''SELF '', u ''SYSTEM '', u ''timer.sh '',
     u ''task_timer.sh '', u ''query_timer.sh '']"

definition control_line :: "str \<Rightarrow> bool" where
  "control_line line \<longleftrightarrow> strip line \<in> set control_words \<or> list_ex (startswith (strip line)) control_prefixes"

definition positive_number :: "str \<Rightarrow> bool" where
  "positive_number raw \<longleftrightarrow> (case parse_float raw of None \<Rightarrow> False | Some x \<Rightarrow> fpos x)"

definition positive_int :: "str \<Rightarrow> int option" where
  "positive_int raw = (case parse_int raw of None \<Rightarrow> None | Some i \<Rightarrow> if i > 0 then Some i else None)"

definition skill_items :: "str \<Rightarrow> str list" where
  "skill_items raw = filter (\<lambda>s. s \<noteq> []) (map strip (split_on 44 raw))"

definition skill_list :: "str \<Rightarrow> str list option" where
  "skill_list raw =
     (let skills = skill_items raw
      in if skills = [] \<or> \<not> list_all skill_ok skills then None
         else if \<not> distinct skills then None else Some skills)"

text \<open>
  \<open>re.search(r"\b...\b", body, re.IGNORECASE)\<close> for the Russian infinitive of \<^emph>\<open>to return\<close>. Besides the
  capital letters the regular expression engine takes three old letter forms for the same letter.
\<close>

definition return_word :: str where
  "return_word = [0x432, 0x435, 0x440, 0x43D, 0x443, 0x442, 0x44C]"

definition same_letter :: "nat \<Rightarrow> nat \<Rightarrow> bool" where
  "same_letter p c \<longleftrightarrow> c = p \<or> c + 32 = p \<or> (p = 0x432 \<and> c = 0x1C80)
     \<or> (p = 0x442 \<and> (c = 0x1C84 \<or> c = 0x1C85))"

definition word_char :: "(nat \<Rightarrow> bool) \<Rightarrow> nat \<Rightarrow> bool" where
  "word_char ext c \<longleftrightarrow> is_alnum c \<or> c = 95 \<or> (0x410 \<le> c \<and> c \<le> 0x44F) \<or> (127 < c \<and> ext c)"

definition at_word :: "(nat \<Rightarrow> bool) \<Rightarrow> str \<Rightarrow> bool" where
  "at_word ext s \<longleftrightarrow> (case s of [] \<Rightarrow> False | c # _ \<Rightarrow> word_char ext c)"

fun asks_to_return :: "(nat \<Rightarrow> bool) \<Rightarrow> bool \<Rightarrow> str \<Rightarrow> bool" where
  "asks_to_return ext before [] = False"
| "asks_to_return ext before (c # cs) =
     ((list_all2 same_letter return_word (take 7 (c # cs)) \<and> before \<noteq> word_char ext c
        \<and> word_char ext ((c # cs) ! 6) \<noteq> at_word ext (drop 7 (c # cs)))
      \<or> asks_to_return ext (word_char ext c) cs)"

section \<open>Timer commands\<close>

definition parse_typed_timer :: "(nat \<Rightarrow> bool) \<Rightarrow> str \<Rightarrow> str \<Rightarrow> proto_error + manager_directive" where
  "parse_typed_timer ext first body =
     (case shlex_split first of
        Inl e \<Rightarrow> Inl (Pe_timer_syntax e)
      | Inr [script, period, raw_skills, raw_description] \<Rightarrow>
          if script \<noteq> u ''task_timer.sh'' \<and> script \<noteq> u ''query_timer.sh'' then Inl Pe_timer_usage
          else if \<not> positive_number period then Inl Pe_timer_usage
          else if list_ex control_line (splitlines body) then Inl Pe_embedded_control
          else (case skill_list raw_skills of
                  None \<Rightarrow> Inl Pe_timer_usage
                | Some skills \<Rightarrow>
                    if strip raw_description = [] \<or> body = [] then Inl Pe_timer_usage
                    else if script = u ''task_timer.sh'' \<and> asks_to_return ext False body
                    then Inl Pe_returned_value
                    else Inr ((system_directive (u ''TASK TIMER SET '' @ period) body)
                      \<lparr>md_skills := skills, md_description := Some (strip raw_description),
                       md_method := Some (if script = u ''task_timer.sh'' then u ''task'' else u ''query'')\<rparr>))
      | Inr _ \<Rightarrow> Inl Pe_timer_usage)"

definition timer_set :: "str \<Rightarrow> str list \<Rightarrow> str \<Rightarrow> proto_error + manager_directive" where
  "timer_set arg rest body =
     (if list_ex control_line (splitlines body) then Inl Pe_embedded_control
      else (case rest of
              [raw_skills, raw_description] \<Rightarrow>
                (case skill_list raw_skills of
                   None \<Rightarrow> Inl Pe_timer_usage
                 | Some skills \<Rightarrow>
                     if strip raw_description = [] \<or> body = [] then Inl Pe_timer_usage
                     else Inr ((system_directive (u ''TASK TIMER SET '' @ arg) body)
                       \<lparr>md_skills := skills, md_description := Some (strip raw_description),
                        md_method := Some (u ''task'')\<rparr>))
            | _ \<Rightarrow>
                if length rest \<notin> {0, 1} then Inl Pe_timer_usage
                else (let name = (if rest = [] then u ''default'' else hd rest)
                      in if \<not> timer_name name \<or> body = [] then Inl Pe_timer_usage
                         else Inr (system_directive (u ''TIMER SET '' @ name @ 32 # arg) body))))"

definition timer_control :: "str \<Rightarrow> str list \<Rightarrow> str \<Rightarrow> proto_error + manager_directive" where
  "timer_control op rest body =
     (if length rest \<notin> {0, 1} \<or> body \<noteq> [] then Inl Pe_timer_usage
      else (case (case rest of [] \<Rightarrow> None | raw # _ \<Rightarrow> positive_int raw) of
              Some i \<Rightarrow> Inr (system_directive (u ''TASK TIMER '' @ upper op @ 32 # show_int i) [])
            | None \<Rightarrow>
                (let name = (if rest = [] then u ''default'' else hd rest)
                 in if \<not> timer_name name then Inl Pe_timer_usage
                    else Inr (system_directive (u ''TIMER '' @ upper op @ 32 # name) []))))"

definition timer_period :: "str list \<Rightarrow> str \<Rightarrow> proto_error + manager_directive" where
  "timer_period rest body =
     (if body \<noteq> [] \<or> length rest \<notin> {1, 2} then Inl Pe_timer_usage
      else (case (case rest of [raw, ident] \<Rightarrow> if positive_number raw then positive_int ident else None | _ \<Rightarrow> None) of
              Some i \<Rightarrow> Inr (system_directive (u ''TASK TIMER PERIOD '' @ show_int i @ 32 # hd rest) [])
            | None \<Rightarrow>
                (case (case rest of
                         [raw] \<Rightarrow> if positive_number raw then Some (raw, u ''default'') else None
                       | [a, b] \<Rightarrow> if positive_number a then Some (a, b)
                                  else if positive_number b then Some (b, a) else None
                       | _ \<Rightarrow> None) of
                   None \<Rightarrow> Inl Pe_timer_usage
                 | Some (period, name) \<Rightarrow>
                     if \<not> timer_name name then Inl Pe_timer_usage
                     else Inr (system_directive (u ''TIMER PERIOD '' @ name @ 32 # period) []))))"

definition parse_timer :: "str \<Rightarrow> str \<Rightarrow> proto_error + manager_directive" where
  "parse_timer first body =
     (case shlex_split first of
        Inl e \<Rightarrow> Inl (Pe_timer_syntax e)
      | Inr (script # arg # rest) \<Rightarrow>
          if script \<noteq> u ''timer.sh'' then Inl Pe_timer_usage
          else if positive_number arg then timer_set arg rest body
          else if lower arg \<in> {u ''start'', u ''stop'', u ''delete''} then timer_control (lower arg) rest body
          else if lower arg = u ''period'' then timer_period rest body
          else if lower arg = u ''list'' then
            (if rest \<noteq> [] \<or> body \<noteq> [] then Inl Pe_timer_usage
             else Inr (system_directive (u ''TASK TIMER LIST'') []))
          else Inl Pe_timer_usage
      | Inr _ \<Rightarrow> Inl Pe_timer_usage)"

section \<open>The manager's answer\<close>

definition calls :: "str \<Rightarrow> string \<Rightarrow> bool" where
  "calls first script \<longleftrightarrow> first = u script \<or> startswith first (u script @ [32])"

definition after :: "string \<Rightarrow> str \<Rightarrow> str" where
  "after prefix first = strip (drop (length prefix) first)"

definition first_line_of :: "str \<Rightarrow> str" where
  "first_line_of body =
     (case filter (\<lambda>l. l \<noteq> []) (map strip (splitlines body)) of [] \<Rightarrow> [] | l # _ \<Rightarrow> l)"

definition parse_delegate :: "str \<Rightarrow> str \<Rightarrow> proto_error + manager_directive" where
  "parse_delegate raw body =
     (if raw = [] then Inl Pe_delegate_none
      else
        (let skills = skill_items raw
         in if skills = [] \<or> \<not> list_all skill_ok skills then Inl Pe_delegate_skills
            else if \<not> distinct skills then Inl Pe_delegate_duplicate
            else if body = [] then Inl Pe_delegate_body
            else if control_line (first_line_of body) then Inl Pe_delegate_control
            else Inr ((directive Act_delegate body)\<lparr>md_skills := skills\<rparr>)))"

definition parse_directive :: "(nat \<Rightarrow> bool) \<Rightarrow> bool \<Rightarrow> str \<Rightarrow> str \<Rightarrow> str \<Rightarrow> proto_error + manager_directive" where
  "parse_directive ext allow_command txt first body =
     (if first = u ''ASK'' then (if body = [] then Inl Pe_ask_body else Inr (directive Act_ask body))
      else if first = u ''REPLY'' then (if body = [] then Inl Pe_reply_body else Inr (directive Act_reply body))
      else if first = u ''WAIT'' then (if body \<noteq> [] then Inl Pe_wait_body else Inr (directive Act_wait []))
      else if startswith first (u ''SELF '') then
        (if body \<noteq> [] then Inl Pe_self_body
         else (case skill_list (after ''SELF '' first) of
                 None \<Rightarrow> Inl Pe_self_skills
               | Some skills \<Rightarrow> Inr ((directive Act_self [])\<lparr>md_skills := skills\<rparr>)))
      else if calls first ''task_timer.sh'' then parse_typed_timer ext first body
      else if calls first ''query_timer.sh'' then parse_typed_timer ext first body
      else if calls first ''timer.sh'' then parse_timer first body
      else if startswith first (u ''SYSTEM '') then
        (if after ''SYSTEM '' first = [] then Inl Pe_system_command
         else Inr (system_directive (after ''SYSTEM '' first) body))
      else if startswith first (u ''DELEGATE '') then parse_delegate (after ''DELEGATE '' first) body
      else if startswith first (u ''CONTINUE '') then
        (if \<not> agent_ok (after ''CONTINUE '' first) then Inl Pe_continue_agent
         else if body = [] then Inl Pe_continue_body
         else Inr ((directive Act_continue body)\<lparr>md_agent := Some (after ''CONTINUE '' first)\<rparr>))
      else if allow_command then
        (if 10 \<in> set txt \<or> 13 \<in> set txt then Inl Pe_one_line
         else Inr ((directive Act_command [])\<lparr>md_command := Some txt\<rparr>))
      else Inl Pe_first_line)"

definition parse_manager :: "(nat \<Rightarrow> bool) \<Rightarrow> int \<Rightarrow> bool \<Rightarrow> str \<Rightarrow> proto_error + manager_directive" where
  "parse_manager ext max_chars allow_command content =
     (let txt = strip content
      in if txt = [] then Inl Pe_empty
         else if int (length txt) > max_chars then Inl Pe_too_long
         else if startswith txt (u ''```'') then Inl Pe_fence
         else (case partition_on 10 txt of (first, sep, rest) \<Rightarrow>
                 parse_directive ext allow_command txt (strip first) (if sep then strip rest else [])))"

section \<open>The agent's answer\<close>

datatype agent_directive = Agent_command str | Agent_done str | Agent_need str

datatype agent_error =
    Ae_empty
  | Ae_too_long
  | Ae_fence
  | Ae_json str
  | Ae_not_object
  | Ae_result_type
  | Ae_done_value
  | Ae_need_value
  | Ae_keys
  | Ae_one_line

definition read_object :: "(str \<times> json) list \<Rightarrow> agent_error + agent_directive" where
  "read_object ps =
     (let keys = set (dkeys ps)
      in if keys = {u ''result''} then
           (case dget ps (u ''result'') of Some (JStr s) \<Rightarrow> Inr (Agent_done (strip s)) | _ \<Rightarrow> Inl Ae_result_type)
         else if keys = {u ''done''} then
           (if dget ps (u ''done'') = Some (JBool True) then Inr (Agent_done []) else Inl Ae_done_value)
         else if keys = {u ''need''} then
           (case dget ps (u ''need'') of
              Some (JStr s) \<Rightarrow> if strip s = [] then Inl Ae_need_value else Inr (Agent_need (strip s))
            | _ \<Rightarrow> Inl Ae_need_value)
         else Inl Ae_keys)"

definition parse_agent :: "(str \<Rightarrow> str + json) \<Rightarrow> int \<Rightarrow> str \<Rightarrow> agent_error + agent_directive" where
  "parse_agent loads max_chars content =
     (let txt = strip content
      in if txt = [] then Inl Ae_empty
         else if int (length txt) > max_chars then Inl Ae_too_long
         else if startswith txt (u ''```'') \<or> endswith txt (u ''```'') then Inl Ae_fence
         else (case loads txt of
                 Inr (JObj ps) \<Rightarrow> read_object ps
               | Inr _ \<Rightarrow> Inl Ae_not_object
               | Inl msg \<Rightarrow>
                   if startswith txt (u ''{'') \<or> startswith txt (u ''['') then Inl (Ae_json msg)
                   else if 10 \<in> set txt \<or> 13 \<in> set txt then Inl Ae_one_line
                   else Inr (Agent_command txt)))"

end
