(* ===== verification/ProtocolProps.thy ===== *)
theory ProtocolProps
  imports Protocol
begin

text \<open>
  What an accepted directive looks like, that the directives of the protocol can be written and read
  back, and what a timer control line of the manager does once the system runtime executes it.
\<close>

section \<open>Well-formed directives\<close>

definition skills_ok :: "str list \<Rightarrow> bool" where
  "skills_ok skills \<longleftrightarrow> skills \<noteq> [] \<and> list_all skill_ok skills \<and> distinct skills"

definition one_line :: "str \<Rightarrow> bool" where
  "one_line s \<longleftrightarrow> s \<noteq> [] \<and> 10 \<notin> set s \<and> 13 \<notin> set s"

definition directive_ok :: "bool \<Rightarrow> manager_directive \<Rightarrow> bool" where
  "directive_ok allow_command d =
     (case md_action d of
        Act_ask \<Rightarrow> md_body d \<noteq> []
      | Act_reply \<Rightarrow> md_body d \<noteq> []
      | Act_wait \<Rightarrow> md_body d = []
      | Act_self \<Rightarrow> md_body d = [] \<and> skills_ok (md_skills d)
      | Act_delegate \<Rightarrow> md_body d \<noteq> [] \<and> skills_ok (md_skills d) \<and> \<not> control_line (first_line_of (md_body d))
      | Act_continue \<Rightarrow> md_body d \<noteq> [] \<and> (case md_agent d of None \<Rightarrow> False | Some a \<Rightarrow> agent_ok a)
      | Act_command \<Rightarrow> allow_command \<and> (case md_command d of None \<Rightarrow> False | Some c \<Rightarrow> one_line c)
      | Act_system \<Rightarrow> (case md_system d of None \<Rightarrow> False | Some c \<Rightarrow> c \<noteq> [])
          \<and> (case md_method d of None \<Rightarrow> True
             | Some _ \<Rightarrow> md_body d \<noteq> [] \<and> skills_ok (md_skills d)
                 \<and> \<not> list_ex control_line (splitlines (md_body d))
                 \<and> (case md_description d of None \<Rightarrow> False | Some t \<Rightarrow> t \<noteq> [])))"

lemma directive_fields [simp]:
  "md_action (directive a b) = a" "md_body (directive a b) = b" "md_method (directive a b) = None"
  "md_system (directive a b) = None" "md_skills (directive a b) = []"
  "md_action (system_directive c b) = Act_system" "md_body (system_directive c b) = b"
  "md_system (system_directive c b) = Some c" "md_method (system_directive c b) = None"
  by (simp_all add: directive_def system_directive_def)

lemma skill_list_ok: "skill_list raw = Some skills \<Longrightarrow> skills_ok skills"
  by (auto simp: skill_list_def skills_ok_def Let_def split: if_splits)

lemma typed_timer_ok: "parse_typed_timer ext first body = Inr d \<Longrightarrow> directive_ok a d"
  unfolding parse_typed_timer_def
  by (auto simp: directive_ok_def skill_list_ok split: sum.splits list.splits if_splits option.splits)

lemma timer_set_ok: "timer_set arg rest body = Inr d \<Longrightarrow> directive_ok a d"
  unfolding timer_set_def Let_def
  by (auto simp: directive_ok_def skill_list_ok split: list.splits if_splits option.splits)

lemma timer_control_ok: "timer_control op rest body = Inr d \<Longrightarrow> directive_ok a d"
  unfolding timer_control_def Let_def
  by (auto simp: directive_ok_def split: list.splits if_splits option.splits)

lemma timer_period_ok: "timer_period rest body = Inr d \<Longrightarrow> directive_ok a d"
  unfolding timer_period_def Let_def
  by (auto simp: directive_ok_def split: list.splits if_splits option.splits)

lemma timer_ok_directive: "parse_timer first body = Inr d \<Longrightarrow> directive_ok a d"
  unfolding parse_timer_def
  by (auto simp: timer_set_ok timer_control_ok timer_period_ok split: sum.splits list.splits if_splits)
    (simp_all add: directive_ok_def)

lemma delegate_ok: "parse_delegate raw body = Inr d \<Longrightarrow> directive_ok a d"
  unfolding parse_delegate_def Let_def
  by (auto simp: directive_ok_def skills_ok_def split: if_splits)

lemma parse_directive_ok:
  assumes "txt \<noteq> []" "parse_directive ext allow txt first body = Inr d"
  shows "directive_ok allow d"
  using assms unfolding parse_directive_def
  by (auto simp: typed_timer_ok timer_ok_directive delegate_ok split: if_splits option.splits)
    (simp_all add: directive_ok_def skill_list_ok one_line_def)

text \<open>C30: whatever a manager answers, a directive it is read as is well formed: questions, replies and
  delegated tasks have a body, skill lists are non-empty, valid and without repetition, an agent id has
  its form, a tool command is one line and only where it is allowed, a saved task has a description and
  no control line in its text, and a delegated task does not begin with one; the answer was within the
  length limit and no code fence.\<close>

theorem accepted_directive_is_well_formed:
  assumes "parse_manager ext max_chars allow_command content = Inr d"
  shows "directive_ok allow_command d \<and> strip content \<noteq> [] \<and> int (length (strip content)) \<le> max_chars
    \<and> \<not> startswith (strip content) (u ''```'')"
proof -
  obtain first sep rest where p: "partition_on 10 (strip content) = (first, sep, rest)" by (cases "partition_on 10 (strip content)")
  from assms p have c: "strip content \<noteq> []" "int (length (strip content)) \<le> max_chars"
      "\<not> startswith (strip content) (u ''```'')"
      "parse_directive ext allow_command (strip content) (strip first) (if sep then strip rest else []) = Inr d"
    unfolding parse_manager_def Let_def by (auto split: if_splits)
  from parse_directive_ok [OF c(1) c(4)] c(1-3) show ?thesis by blast
qed

definition sample_answer :: str where
  "sample_answer = u ''DELEGATE files, web'' @ 10 # u ''look''"

lemma sample_answer_accepted:
  "parse_manager (\<lambda>_. False) 100 False sample_answer =
     Inr ((directive Act_delegate (u ''look''))\<lparr>md_skills := [u ''files'', u ''web'']\<rparr>)"
  by (simp add: sample_answer_def parse_manager_def partition_on_def parse_directive_def calls_def after_def
      parse_delegate_def skill_items_def skill_ok_def skill_word_def skill_char_def control_line_def control_words_def
      control_prefixes_def first_line_of_def splitlines_def is_line_break_def Let_def text_eval)

theorem accepted_directive_is_well_formed_witness:
  "directive_ok False ((directive Act_delegate (u ''look''))\<lparr>md_skills := [u ''files'', u ''web'']\<rparr>)"
  using accepted_directive_is_well_formed [OF sample_answer_accepted] by simp

section \<open>Writing and reading directives\<close>

definition head_of :: "manager_directive \<Rightarrow> str" where
  "head_of d =
     (case md_action d of
        Act_ask \<Rightarrow> u ''ASK''
      | Act_reply \<Rightarrow> u ''REPLY''
      | Act_wait \<Rightarrow> u ''WAIT''
      | Act_self \<Rightarrow> u ''SELF '' @ join_on 44 (md_skills d)
      | Act_delegate \<Rightarrow> u ''DELEGATE '' @ join_on 44 (md_skills d)
      | Act_continue \<Rightarrow> u ''CONTINUE '' @ the (md_agent d)
      | Act_system \<Rightarrow> u ''SYSTEM '' @ the (md_system d)
      | Act_command \<Rightarrow> the (md_command d))"

definition render_directive :: "manager_directive \<Rightarrow> str" where
  "render_directive d = (if md_body d = [] then head_of d else head_of d @ 10 # md_body d)"

text \<open>The directives of the protocol that consist of a head line and a body.\<close>

definition canonical :: "manager_directive \<Rightarrow> bool" where
  "canonical d \<longleftrightarrow> directive_ok False d \<and> strip (md_body d) = md_body d
     \<and> (case md_action d of
          Act_self \<Rightarrow> d = (directive Act_self [])\<lparr>md_skills := md_skills d\<rparr>
        | Act_delegate \<Rightarrow> d = (directive Act_delegate (md_body d))\<lparr>md_skills := md_skills d\<rparr>
        | Act_continue \<Rightarrow> d = (directive Act_continue (md_body d))\<lparr>md_agent := md_agent d\<rparr>
        | Act_system \<Rightarrow> d = system_directive (the (md_system d)) (md_body d)
            \<and> strip (the (md_system d)) = the (md_system d) \<and> 10 \<notin> set (the (md_system d))
        | a \<Rightarrow> d = directive a (md_body d))"

text \<open>A word without white space, commas and line feeds.\<close>

definition clean :: "str \<Rightarrow> bool" where
  "clean s \<longleftrightarrow> s \<noteq> [] \<and> list_all (\<lambda>c. \<not> is_space c \<and> c \<noteq> 44) s"

lemma char_not_space:
  "skill_char c \<Longrightarrow> \<not> is_space c \<and> c \<noteq> 44" "name_char c \<Longrightarrow> \<not> is_space c \<and> c \<noteq> 44"
  "is_lower c \<Longrightarrow> \<not> is_space c \<and> c \<noteq> 44" "is_digit c \<Longrightarrow> \<not> is_space c \<and> c \<noteq> 44"
  by (auto simp: skill_char_def name_char_def is_lower_def is_upper_def is_digit_def is_alnum_def is_space_def)

lemma skill_word_clean: "skill_word s \<Longrightarrow> clean s"
  by (cases s) (auto simp: skill_word_def clean_def list_all_iff char_not_space)

lemma clean_append: "clean a \<Longrightarrow> clean b \<Longrightarrow> clean (a @ b)"
  by (simp add: clean_def)

lemma partition_on_join:
  assumes "partition_on c s = (a, True, t)"
  shows "s = a @ c # t"
proof -
  obtain x where d: "dropWhile (\<lambda>x. x \<noteq> c) s = x # t" and a: "a = takeWhile (\<lambda>x. x \<noteq> c) s"
    using assms by (auto simp: partition_on_def Let_def split: list.splits)
  have "x = c" using hd_dropWhile [of "\<lambda>x. x \<noteq> c" s] d by simp
  with takeWhile_dropWhile_id [of "\<lambda>x. x \<noteq> c" s] d a show ?thesis by simp
qed

lemma startswith_split: "startswith s p \<Longrightarrow> s = p @ drop (length p) s"
  by (metis append_take_drop_id startswith_def)

lemma skill_ok_clean:
  assumes "skill_ok s"
  shows "clean s"
proof (cases "skill_word s")
  case False
  obtain server sep tool where p: "partition_on 58 (drop 4 s) = (server, sep, tool)"
    by (cases "partition_on 58 (drop 4 s)")
  with assms False have h: "startswith s (u ''mcp:'')" "skill_word server" "sep" "tool \<noteq> []" "list_all name_char tool"
    by (auto simp: skill_ok_def)
  have "length (u ''mcp:'') = 4" by simp
  with startswith_split [OF h(1)] have "s = u ''mcp:'' @ drop 4 s" by metis
  moreover have "drop 4 s = server @ 58 # tool" using p h(3) by (intro partition_on_join) simp
  ultimately have "s = u ''mcp:'' @ server @ [58] @ tool" by simp
  moreover have "clean (u ''mcp:'')" "clean [58]" "clean tool"
    using h(4,5) char_not_space(2) by (auto simp: clean_def is_space_def u_def list_all_iff)
  ultimately show ?thesis
    using skill_word_clean [OF h(2)] by (simp add: clean_append del: append_Cons)
qed (rule skill_word_clean)

lemma agent_ok_clean:
  assumes "agent_ok s"
  shows "clean s"
proof -
  have "startswith s (u ''agent'')" using assms by (simp add: agent_ok_def)
  moreover have "length (u ''agent'') = 5" by simp
  ultimately have "s = u ''agent'' @ drop 5 s" using startswith_split by metis
  moreover have "clean (u ''agent'')" by (simp add: clean_def is_space_def u_def)
  moreover have "clean (drop 5 s)"
    using assms char_not_space(4) unfolding agent_ok_def clean_def
    by (cases "drop 5 s") (auto simp: list_all_iff is_digit_def)
  ultimately show ?thesis using clean_append by metis
qed

lemma clean_strip: "clean s \<Longrightarrow> strip s = s"
  by (auto simp: clean_def list_all_iff intro!: strip_no_space)

lemma clean_no_break: "clean s \<Longrightarrow> 10 \<notin> set s \<and> 44 \<notin> set s"
proof -
  have "is_space 10" by (simp add: is_space_def)
  then show "clean s \<Longrightarrow> 10 \<notin> set s \<and> 44 \<notin> set s" unfolding clean_def list_all_iff by blast
qed

lemma set_join_on: "set (join_on c ws) \<subseteq> insert c (\<Union>w\<in>set ws. set w)"
  by (induction c ws rule: join_on.induct) auto

lemma join_on_ne: "ws \<noteq> [] \<Longrightarrow> list_all (\<lambda>w. w \<noteq> []) ws \<Longrightarrow>
    join_on c ws \<noteq> [] \<and> hd (join_on c ws) = hd (hd ws) \<and> last (join_on c ws) = last (last ws)"
proof (induction c ws rule: join_on.induct)
  case (3 c w v ws)
  then have "join_on c (v # ws) \<noteq> []" "last (join_on c (v # ws)) = last (last (v # ws))" "w \<noteq> []" by simp_all
  then show ?case by (simp add: hd_append)
qed simp_all

lemma skills_join:
  assumes "skills_ok skills"
  shows "skill_items (join_on 44 skills) = skills" "join_on 44 skills \<noteq> []"
    "strip (join_on 44 skills) = join_on 44 skills" "10 \<notin> set (join_on 44 skills)"
proof -
  have c: "\<And>w. w \<in> set skills \<Longrightarrow> clean w"
    using assms skill_ok_clean by (auto simp: skills_ok_def list_all_iff)
  have ne: "skills \<noteq> []" "\<And>w. w \<in> set skills \<Longrightarrow> w \<noteq> []"
    using assms c by (auto simp: skills_ok_def clean_def)
  have "split_on 44 (join_on 44 skills) = skills"
    using c clean_no_break ne(1) by (intro split_join) blast+
  moreover have "map strip skills = skills" using c by (simp add: map_idI clean_strip)
  ultimately show "skill_items (join_on 44 skills) = skills"
    using ne(2) by (auto simp: skill_items_def filter_id_conv)
  have "list_all (\<lambda>w. w \<noteq> []) skills" using ne(2) by (simp add: list_all_iff)
  note j = join_on_ne [OF ne(1) this, of 44]
  then show "join_on 44 skills \<noteq> []" by simp
  have "hd skills \<in> set skills" "last skills \<in> set skills" using ne(1) by simp_all
  then have "\<not> is_space (hd (hd skills))" "\<not> is_space (last (last skills))"
    using c by (metis (no_types, lifting) clean_def hd_in_set last_in_set list_all_iff)+
  with j show "strip (join_on 44 skills) = join_on 44 skills" by (intro strip_id) simp
  show "10 \<notin> set (join_on 44 skills)"
    using set_join_on [of 44 skills] c clean_no_break by fastforce
qed

lemma parse_with_body:
  assumes head: "head \<noteq> []" "strip head = head" "10 \<notin> set head" "hd head \<noteq> 96"
    and body: "strip body = body"
    and msg: "msg = (if body = [] then head else head @ 10 # body)" "int (length msg) \<le> m"
  shows "parse_manager ext m allow msg = parse_directive ext allow msg head body"
proof -
  have edges: "\<not> is_space (hd head)" "\<not> is_space (last head)"
    using strip_edges [of head] head(1,2) by simp_all
  have last: "body \<noteq> [] \<Longrightarrow> \<not> is_space (last body)"
    using strip_edges [of body] body by simp
  have s: "strip msg = msg" using edges last head(1) by (intro strip_id) (simp add: msg(1))
  have ne: "msg \<noteq> []" using head(1) by (simp add: msg(1))
  have "hd msg \<noteq> 96" using head(1,4) by (simp add: msg(1))
  then have fence: "\<not> startswith msg (u ''```'')"
    using ne by (cases msg) (simp_all add: startswith_def u_def)
  have "partition_on 10 msg = (head, body \<noteq> [], body)"
  proof (cases "body = []")
    case True
    have "takeWhile (\<lambda>x. x \<noteq> 10) head = head" "dropWhile (\<lambda>x. x \<noteq> 10) head = []"
      using head(3) by (auto simp: takeWhile_eq_all_conv dropWhile_eq_Nil_conv)
    then have "partition_on 10 head = (head, False, [])"
      unfolding partition_on_def Let_def by (simp only: list.case)
    with True show ?thesis by (simp add: msg(1))
  next
    case False
    with partition_on_sep [OF head(3)] show ?thesis by (simp add: msg(1))
  qed
  with s ne msg(2) fence head(2) body show ?thesis by (auto simp: parse_manager_def)
qed

text \<open>A head is a keyword and an argument.\<close>

lemma keyword_head:
  assumes "k \<noteq> []" "\<not> is_space (hd (u k))" "10 \<notin> set (u k)" "hd (u k) \<noteq> 96"
    and "x \<noteq> []" "strip x = x" "10 \<notin> set x"
  shows "u k @ x \<noteq> []" "strip (u k @ x) = u k @ x" "10 \<notin> set (u k @ x)" "hd (u k @ x) \<noteq> 96"
proof -
  have "\<not> is_space (last x)" using strip_edges [of x] assms(5,6) by simp
  then show "strip (u k @ x) = u k @ x" using assms(1,2,5) by (intro strip_id) (simp add: hd_append)
  show "u k @ x \<noteq> []" "10 \<notin> set (u k @ x)" "hd (u k @ x) \<noteq> 96" using assms by (simp_all add: hd_append)
qed

lemma after_keyword: "strip x = x \<Longrightarrow> after k (u k @ x) = x"
  by (simp add: after_def)

lemma not_keyword:
  assumes "a \<noteq> []" "b \<noteq> []" "hd a \<noteq> hd b"
  shows "u a @ x \<noteq> u b" "\<not> startswith (u a @ x) (u b)" "\<not> startswith (u a @ x) (u b @ y)"
proof -
  obtain c d a' b' where "a = c # a'" "b = d # b'" "c \<noteq> d" using assms by (cases a; cases b) auto
  then show "u a @ x \<noteq> u b" "\<not> startswith (u a @ x) (u b)" "\<not> startswith (u a @ x) (u b @ y)"
    by (simp_all add: u_def startswith_def)
qed

lemma keyword_prefix: "length b \<le> length a \<Longrightarrow> startswith (u a @ x) (u b) \<longleftrightarrow> take (length b) a = b"
  by (simp add: startswith_def u_def take_map inj_map_eq_map inj_on_def)

lemmas keyword_eval = parse_directive_def calls_def not_keyword keyword_prefix

lemma read_self:
  assumes "skills_ok skills"
  shows "parse_directive ext allow txt (u ''SELF '' @ join_on 44 skills) [] = Inr ((directive Act_self [])\<lparr>md_skills := skills\<rparr>)"
proof -
  have "skill_list (join_on 44 skills) = Some skills"
    using assms skills_join(1) [OF assms] by (simp add: skill_list_def skills_ok_def Let_def)
  with after_keyword [OF skills_join(3) [OF assms], of "''SELF ''"] show ?thesis
    by (simp add: keyword_eval)
qed

lemma read_delegate:
  assumes "skills_ok skills" "body \<noteq> []" "\<not> control_line (first_line_of body)"
  shows "parse_directive ext allow txt (u ''DELEGATE '' @ join_on 44 skills) body
    = Inr ((directive Act_delegate body)\<lparr>md_skills := skills\<rparr>)"
proof -
  have "parse_delegate (join_on 44 skills) body = Inr ((directive Act_delegate body)\<lparr>md_skills := skills\<rparr>)"
    using assms skills_join(1,2) [OF assms(1)] by (simp add: parse_delegate_def skills_ok_def Let_def)
  with after_keyword [OF skills_join(3) [OF assms(1)], of "''DELEGATE ''"] assms(2) show ?thesis
    by (simp add: keyword_eval)
qed

lemma read_continue:
  assumes "agent_ok a" "body \<noteq> []"
  shows "parse_directive ext allow txt (u ''CONTINUE '' @ a) body = Inr ((directive Act_continue body)\<lparr>md_agent := Some a\<rparr>)"
  using assms after_keyword [OF clean_strip [OF agent_ok_clean [OF assms(1)]], of "''CONTINUE ''"]
  by (simp add: keyword_eval)

lemma read_system:
  assumes "c \<noteq> []" "strip c = c"
  shows "parse_directive ext allow txt (u ''SYSTEM '' @ c) body = Inr (system_directive c body)"
  using assms after_keyword [OF assms(2), of "''SYSTEM ''"]
  by (simp add: keyword_eval)

text \<open>C31: questions, replies, waiting, own work, delegation, continuation and system commands can be
  written as the protocol prescribes, and whatever was written, within the length limit, is read back
  as exactly the directive that was meant.\<close>

theorem directive_round_trip:
  assumes "canonical d" and "int (length (render_directive d)) \<le> max_chars"
  shows "parse_manager ext max_chars allow_command (render_directive d) = Inr d"
proof -
  have ok: "directive_ok False d" and b: "strip (md_body d) = md_body d" using assms(1) by (simp_all add: canonical_def)
  have read: "parse_manager ext max_chars allow_command (render_directive d)
      = parse_directive ext allow_command (render_directive d) (head_of d) (md_body d)"
    if "head_of d \<noteq> []" "strip (head_of d) = head_of d" "10 \<notin> set (head_of d)" "hd (head_of d) \<noteq> 96"
    by (rule parse_with_body [OF that b]) (use assms(2) in \<open>simp_all add: render_directive_def\<close>)
  show ?thesis
  proof (cases "md_action d")
    case Act_self
    with ok have s: "skills_ok (md_skills d)" "md_body d = []" by (simp_all add: directive_ok_def)
    note j = skills_join [OF s(1)]
    have h: "head_of d = u ''SELF '' @ join_on 44 (md_skills d)" using Act_self by (simp add: head_of_def)
    have "d = (directive Act_self [])\<lparr>md_skills := md_skills d\<rparr>" using assms(1) Act_self by (simp add: canonical_def)
    moreover have "head_of d \<noteq> []" "strip (head_of d) = head_of d" "10 \<notin> set (head_of d)" "hd (head_of d) \<noteq> 96"
      unfolding h by (rule keyword_head; use j in \<open>simp add: u_def is_space_def\<close>)+
    ultimately show ?thesis using read read_self [OF s(1)] s(2) h by metis
  next
    case Act_delegate
    with ok have s: "skills_ok (md_skills d)" "md_body d \<noteq> []" "\<not> control_line (first_line_of (md_body d))"
      by (simp_all add: directive_ok_def)
    note j = skills_join [OF s(1)]
    have h: "head_of d = u ''DELEGATE '' @ join_on 44 (md_skills d)" using Act_delegate by (simp add: head_of_def)
    have "d = (directive Act_delegate (md_body d))\<lparr>md_skills := md_skills d\<rparr>" using assms(1) Act_delegate by (simp add: canonical_def)
    moreover have "head_of d \<noteq> []" "strip (head_of d) = head_of d" "10 \<notin> set (head_of d)" "hd (head_of d) \<noteq> 96"
      unfolding h by (rule keyword_head; use j in \<open>simp add: u_def is_space_def\<close>)+
    ultimately show ?thesis using read read_delegate [OF s] h by metis
  next
    case Act_continue
    with ok obtain a where s: "md_agent d = Some a" "agent_ok a" "md_body d \<noteq> []"
      by (auto simp: directive_ok_def split: option.splits)
    have c: "clean a" using s(2) by (rule agent_ok_clean)
    have j: "a \<noteq> []" "strip a = a" "10 \<notin> set a" using c clean_strip clean_no_break by (auto simp: clean_def)
    have h: "head_of d = u ''CONTINUE '' @ a" using Act_continue s(1) by (simp add: head_of_def)
    have "d = (directive Act_continue (md_body d))\<lparr>md_agent := Some a\<rparr>" using assms(1) Act_continue s(1) by (simp add: canonical_def)
    moreover have "head_of d \<noteq> []" "strip (head_of d) = head_of d" "10 \<notin> set (head_of d)" "hd (head_of d) \<noteq> 96"
      unfolding h by (rule keyword_head; use j in \<open>simp add: u_def is_space_def\<close>)+
    ultimately show ?thesis using read read_continue [OF s(2,3)] h by metis
  next
    case Act_system
    with ok obtain c where s: "md_system d = Some c" "c \<noteq> []"
      by (auto simp: directive_ok_def split: option.splits)
    have k: "d = system_directive c (md_body d)" "strip c = c" "10 \<notin> set c"
      using assms(1) Act_system s(1) by (simp_all add: canonical_def)
    have h: "head_of d = u ''SYSTEM '' @ c" using Act_system s(1) by (simp add: head_of_def)
    have "head_of d \<noteq> []" "strip (head_of d) = head_of d" "10 \<notin> set (head_of d)" "hd (head_of d) \<noteq> 96"
      unfolding h by (rule keyword_head; use k s(2) in \<open>simp add: u_def is_space_def\<close>)+
    then show ?thesis using read read_system [OF s(2) k(2)] h k(1) by metis
  next
    case Act_command
    with ok show ?thesis by (simp add: directive_ok_def)
  next
    case Act_ask
    have "head_of d \<noteq> []" "strip (head_of d) = head_of d" "10 \<notin> set (head_of d)" "hd (head_of d) \<noteq> 96"
      using Act_ask by (simp_all add: head_of_def text_eval)
    moreover have "d = directive Act_ask (md_body d)" using assms(1) Act_ask by (simp add: canonical_def)
    ultimately show ?thesis using read Act_ask ok by (simp add: parse_directive_def head_of_def directive_ok_def)
  next
    case Act_reply
    have "head_of d \<noteq> []" "strip (head_of d) = head_of d" "10 \<notin> set (head_of d)" "hd (head_of d) \<noteq> 96"
      using Act_reply by (simp_all add: head_of_def text_eval)
    moreover have "d = directive Act_reply (md_body d)" using assms(1) Act_reply by (simp add: canonical_def)
    ultimately show ?thesis using read Act_reply ok by (simp add: parse_directive_def head_of_def directive_ok_def)
  next
    case Act_wait
    have "head_of d \<noteq> []" "strip (head_of d) = head_of d" "10 \<notin> set (head_of d)" "hd (head_of d) \<noteq> 96"
      using Act_wait by (simp_all add: head_of_def text_eval)
    moreover have "d = directive Act_wait (md_body d)" using assms(1) Act_wait by (simp add: canonical_def)
    ultimately show ?thesis using read Act_wait ok by (simp add: parse_directive_def head_of_def directive_ok_def)
  qed
qed

definition sample_directive :: manager_directive where
  "sample_directive = (directive Act_continue (u ''go on''))\<lparr>md_agent := Some (u ''agent1'')\<rparr>"

theorem directive_round_trip_witness:
  "parse_manager (\<lambda>_. False) 100 False (render_directive sample_directive) = Inr sample_directive"
proof -
  have "agent_ok (u ''agent1'')" by (simp add: agent_ok_def text_eval)
  then have "canonical sample_directive"
    by (simp add: canonical_def sample_directive_def directive_ok_def directive_def text_eval)
  moreover have "int (length (render_directive sample_directive)) \<le> 100"
    by (simp add: render_directive_def sample_directive_def head_of_def directive_def text_eval)
  ultimately show ?thesis by (rule directive_round_trip)
qed

section \<open>From a control line to the timer\<close>

lemma name_char_plain: "name_char c \<Longrightarrow> sh_plain c"
  by (auto simp: name_char_def is_alnum_def is_digit_def is_lower_def is_upper_def sh_plain_def sh_white_def sh_quote_def)

lemma timer_name_chars: "timer_name s \<Longrightarrow> s \<noteq> [] \<and> list_all name_char s"
  by (cases s) (auto simp: timer_name_def name_char_def list_all_iff)

lemma timer_name_word: "timer_name s \<Longrightarrow> sh_word s"
  using timer_name_chars [of s] name_char_plain by (auto simp: sh_word_def list_all_iff)

lemma timer_name_clean: "timer_name s \<Longrightarrow> clean s"
  using timer_name_chars [of s] char_not_space(2) by (auto simp: clean_def list_all_iff)

definition timer_ops :: "str list" where
  "timer_ops = [u ''start'', u ''stop'', u ''delete'']"

lemma timer_ops_facts:
  assumes "operation \<in> set timer_ops"
  shows "sh_word operation" "\<not> positive_number operation" "lower operation = operation" "sh_word (upper operation)"
    "10 \<notin> set operation"
proof -
  have "operation = u ''start'' \<or> operation = u ''stop'' \<or> operation = u ''delete''" using assms by (simp add: timer_ops_def)
  then show "sh_word operation" "\<not> positive_number operation" "lower operation = operation" "sh_word (upper operation)"
    "10 \<notin> set operation"
    by (elim disjE; simp add: sh_word_def sh_plain_def sh_white_def sh_quote_def positive_number_def parse_float_def
        scan_sign_def scan_exponent_def Let_def text_eval)+
qed

text \<open>What the manager writes as a timer control line is what the system runtime does: starting,
  stopping or deleting a named timer is parsed to a system command which the runtime, splitting it
  again, executes as exactly that operation on exactly that name.\<close>

theorem timer_control_reaches_runtime:
  assumes "operation \<in> set timer_ops" and "timer_name name" and "positive_int name = None"
    and "msg = u ''timer.sh '' @ operation @ 32 # name" and "int (length msg) \<le> max_chars"
  shows "\<exists>d command. parse_manager ext max_chars allow_command msg = Inr d \<and> md_system d = Some command
    \<and> execute now command (md_body d) s = execute_timer now [upper operation, name] [] s"
proof -
  note op = timer_ops_facts [OF assms(1)]
  have name: "sh_word name" "clean name" "name \<noteq> []"
    using timer_name_word timer_name_clean timer_name_chars assms(2) by blast+
  let ?x = "operation @ 32 # name"
  let ?cmd = "u ''TIMER '' @ upper operation @ 32 # name"
  have last: "\<not> is_space (last name)" using strip_edges [of name] clean_strip [OF name(2)] name(3) by simp
  have words: "msg = join_on 32 [u ''timer.sh'', operation, name]"
    by (simp add: assms(4) u_def)
  have "list_all sh_word [u ''timer.sh'', operation, name]"
    using op(1) name(1) by (simp add: sh_word_def sh_plain_def sh_white_def sh_quote_def u_def)
  then have split: "shlex_split msg = Inr [u ''timer.sh'', operation, name]"
    unfolding words by (rule shlex_join)
  have head: "msg \<noteq> []" "strip msg = msg" "10 \<notin> set msg" "hd msg \<noteq> 96"
  proof -
    show "msg \<noteq> []" "hd msg \<noteq> 96" by (simp_all add: assms(4) u_def)
    show "strip msg = msg" using last name(3) by (intro strip_id) (simp add: assms(4) u_def is_space_def)
    show "10 \<notin> set msg" using op(5) clean_no_break [OF name(2)] by (simp add: assms(4) u_def)
  qed
  have "parse_manager ext max_chars allow_command msg = parse_directive ext allow_command msg msg []"
    by (rule parse_with_body [OF head]) (use assms(5) in simp_all)
  also have "\<dots> = parse_timer msg []"
  proof -
    have "calls msg ''timer.sh''" by (simp add: calls_def startswith_def assms(4) u_def)
    moreover have "\<not> calls msg ''task_timer.sh''" "\<not> calls msg ''query_timer.sh''" "\<not> startswith msg (u ''SELF '')"
        "msg \<noteq> u ''ASK''" "msg \<noteq> u ''REPLY''" "msg \<noteq> u ''WAIT''"
      by (simp_all add: calls_def startswith_def assms(4) u_def)
    ultimately show ?thesis by (simp add: parse_directive_def)
  qed
  also have "\<dots> = Inr (system_directive ?cmd [])"
    using split op(2,3) assms(1-3) by (auto simp: parse_timer_def timer_control_def timer_ops_def)
  finally have parsed: "parse_manager ext max_chars allow_command msg = Inr (system_directive ?cmd [])" .
  have "?cmd = join_on 32 [u ''TIMER'', upper operation, name]" by (simp add: u_def)
  moreover have "list_all sh_word [u ''TIMER'', upper operation, name]"
    using op(4) name(1) by (simp add: sh_word_def sh_plain_def sh_white_def sh_quote_def u_def)
  ultimately have "shlex_split ?cmd = Inr [u ''TIMER'', upper operation, name]" by (simp only: shlex_join)
  then have "execute now ?cmd [] s = execute_timer now [upper operation, name] [] s"
    by (simp add: execute_def text_eval)
  with parsed show ?thesis by (intro exI [of _ "system_directive ?cmd []"] exI [of _ ?cmd]) simp
qed

theorem timer_control_reaches_runtime_witness:
  "\<exists>d command. parse_manager (\<lambda>_. False) 100 False (u ''timer.sh stop tea'') = Inr d \<and> md_system d = Some command
    \<and> execute 0 command (md_body d) (new_runtime None) = execute_timer 0 [u ''STOP'', u ''tea''] [] (new_runtime None)"
proof -
  have "u ''stop'' \<in> set timer_ops" by (simp add: timer_ops_def)
  moreover have "timer_name (u ''tea'')" by (simp add: timer_name_def name_char_def text_eval)
  moreover have "positive_int (u ''tea'') = None" by (simp add: positive_int_def parse_int_def scan_sign_def text_eval)
  moreover have "u ''timer.sh stop tea'' = u ''timer.sh '' @ u ''stop'' @ 32 # u ''tea''" by (simp add: u_def)
  moreover have "int (length (u ''timer.sh stop tea'')) \<le> 100" by simp
  moreover have "upper (u ''stop'') = u ''STOP''" by (simp add: text_eval)
  ultimately show ?thesis using timer_control_reaches_runtime by metis
qed

section \<open>The agent's answer\<close>

text \<open>An agent's answer is run as a command only if it is one non-empty line within the length limit,
  without code fences, and is neither a JSON value nor the beginning of a JSON object or list: a
  damaged result is never executed.\<close>

theorem agent_command_is_one_plain_line:
  assumes "parse_agent loads max_chars content = Inr (Agent_command c)"
  shows "c = strip content \<and> one_line c \<and> int (length c) \<le> max_chars \<and> (\<exists>msg. loads c = Inl msg)
    \<and> \<not> startswith c (u ''{'') \<and> \<not> startswith c (u ''['') \<and> \<not> startswith c (u ''```'') \<and> \<not> endswith c (u ''```'')"
proof -
  have "read_object ps \<noteq> Inr (Agent_command c)" for ps
    by (auto simp: read_object_def Let_def split: option.splits json.splits if_splits)
  with assms show ?thesis
    unfolding parse_agent_def Let_def one_line_def by (auto split: if_splits sum.splits json.splits)
qed

theorem agent_command_is_one_plain_line_witness:
  "one_line (u ''ls'')"
proof -
  have "parse_agent (\<lambda>_. Inl []) 10 (u ''ls'') = Inr (Agent_command (u ''ls''))"
    by (simp add: parse_agent_def Let_def text_eval)
  from agent_command_is_one_plain_line [OF this] show ?thesis by blast
qed

end
