(* ===== verification/NativeQueue.thy ===== *)
theory NativeQueue
  imports Text
begin

text \<open>
  The single-thread scheduler of native conversations (agent_core_tools/priority_scheduler.py): a
  heap of operations ordered by priority and sequence number. \<open>heapq\<close> enters by what it promises: a
  pop takes the least operation; the model keeps the operations in the order of admission. The
  abstract specification is one first-in-first-out lane per kind of operation, served in strict
  priority, and the concrete queue refines it. Callbacks are opaque; what a callback does, and the
  thread around the loop, is not modelled.
\<close>

section \<open>Operations\<close>

datatype op_key = Op_key (key_priority: int) (key_sequence: nat)

instantiation op_key :: linorder
begin

definition less_eq_op_key :: "op_key \<Rightarrow> op_key \<Rightarrow> bool" where
  "less_eq_op_key a b \<longleftrightarrow> key_priority a < key_priority b
     \<or> key_priority a = key_priority b \<and> key_sequence a \<le> key_sequence b"

definition less_op_key :: "op_key \<Rightarrow> op_key \<Rightarrow> bool" where
  "less_op_key a b \<longleftrightarrow> key_priority a < key_priority b
     \<or> key_priority a = key_priority b \<and> key_sequence a < key_sequence b"

instance
  by standard (auto simp: less_eq_op_key_def less_op_key_def intro: op_key.expand)

end

record 'c operation =
  op_key :: op_key
  op_kind :: str
  op_callback :: 'c

definition priorities :: "(str, int) dict" where
  "priorities = [(u ''control'', - 10), (u ''human'', 0), (u ''hardware'', 10), (u ''background'', 20)]"

record 'c native =
  nq_queue :: "'c operation list"
  nq_max :: int
  nq_sequence :: nat
  nq_stopping :: bool
  nq_active :: "str option"

datatype native_error = Unknown_kind | Scheduler_stopped | Native_queue_full | Bad_limit

definition new_native :: "int \<Rightarrow> native_error + 'c native" where
  "new_native limit =
     (if limit < 1 then Inl Bad_limit
      else Inr \<lparr>nq_queue = [], nq_max = limit, nq_sequence = 0, nq_stopping = False, nq_active = None\<rparr>)"

definition submit_op :: "str \<Rightarrow> 'c \<Rightarrow> bool \<Rightarrow> 'c native \<Rightarrow> native_error + 'c native" where
  "submit_op kind cb continuation s =
     (case dget priorities kind of
        None \<Rightarrow> Inl Unknown_kind
      | Some p \<Rightarrow>
          if nq_stopping s then Inl Scheduler_stopped
          else if kind \<noteq> u ''control'' \<and> \<not> continuation \<and> int (length (nq_queue s)) \<ge> nq_max s
          then Inl Native_queue_full
          else (let n = Suc (nq_sequence s)
                in Inr (s\<lparr>nq_sequence := n,
                     nq_queue := nq_queue s @ [\<lparr>op_key = Op_key p n, op_kind = kind, op_callback = cb\<rparr>]\<rparr>)))"

text \<open>One turn of \<open>_run\<close>: \<open>None\<close> while there is nothing to do or the scheduler stops.\<close>

definition take_op :: "'c native \<Rightarrow> ('c operation \<times> 'c native) option" where
  "take_op s =
     (if nq_stopping s then None
      else (case min_pos op_key (nq_queue s) of
              None \<Rightarrow> None
            | Some i \<Rightarrow> Some (nq_queue s ! i,
                s\<lparr>nq_queue := remove_nth i (nq_queue s), nq_active := Some (op_kind (nq_queue s ! i))\<rparr>)))"

definition op_done :: "'c native \<Rightarrow> 'c native" where
  "op_done s = s\<lparr>nq_active := None\<rparr>"

definition close_native :: "'c native \<Rightarrow> 'c native" where
  "close_native s = s\<lparr>nq_stopping := True, nq_queue := []\<rparr>"

record native_status =
  ns_busy :: bool
  ns_pending :: nat
  ns_label :: str
  ns_queued :: "(str \<times> nat) list"

definition native_snapshot :: "'c native \<Rightarrow> native_status" where
  "native_snapshot s =
     \<lparr>ns_busy = (nq_active s \<noteq> None), ns_pending = length (nq_queue s),
      ns_label = (case nq_active s of None \<Rightarrow> [] | Some k \<Rightarrow> k),
      ns_queued = map (\<lambda>k. (k, length (filter (\<lambda>x. op_kind x = k) (nq_queue s))))
        [u ''human'', u ''hardware'', u ''background'', u ''control'']\<rparr>"

section \<open>Lanes\<close>

definition lane_kinds :: "str list" where
  "lane_kinds = [u ''control'', u ''human'', u ''hardware'', u ''background'']"

definition lanes :: "'c native \<Rightarrow> str \<Rightarrow> 'c list" where
  "lanes s k = map op_callback (filter (\<lambda>x. op_kind x = k) (nq_queue s))"

definition native_ok :: "'c native \<Rightarrow> bool" where
  "native_ok s \<longleftrightarrow> sorted_wrt (\<lambda>a b. key_sequence (op_key a) < key_sequence (op_key b)) (nq_queue s)
     \<and> (\<forall>x\<in>set (nq_queue s). key_sequence (op_key x) \<le> nq_sequence s
          \<and> dget priorities (op_kind x) = Some (key_priority (op_key x)))"

text \<open>Taking from a queue until it has nothing more, at most \<open>n\<close> times.\<close>

fun drain :: "('s \<Rightarrow> ('c \<times> 's) option) \<Rightarrow> nat \<Rightarrow> 's \<Rightarrow> 'c list" where
  "drain pop 0 s = []"
| "drain pop (Suc n) s = (case pop s of None \<Rightarrow> [] | Some (c, s') \<Rightarrow> c # drain pop n s')"

text \<open>What the client of a queue with lanes relies on, and the order in which it is served.\<close>

locale lanes_queue =
  fixes lane :: "'s \<Rightarrow> 'k \<Rightarrow> 'c list"
    and kinds :: "'k list"
    and pop :: "'s \<Rightarrow> ('c \<times> 's) option"
    and ok :: "'s \<Rightarrow> bool"
  assumes kinds_distinct: "distinct kinds"
    and pop_none: "ok s \<Longrightarrow> pop s = None \<Longrightarrow> k \<in> set kinds \<Longrightarrow> lane s k = []"
    and pop_some: "ok s \<Longrightarrow> pop s = Some (c, s') \<Longrightarrow>
      ok s' \<and> (\<exists>before k later. kinds = before @ k # later \<and> (\<forall>j\<in>set before. lane s j = [])
        \<and> lane s k = c # lane s' k \<and> (\<forall>j. j \<noteq> k \<longrightarrow> lane s' j = lane s j))"
begin

lemma pop_first:
  assumes "ok s" "pop s = Some (c, s')"
  shows "ok s' \<and> concat (map (lane s) kinds) = c # concat (map (lane s') kinds)"
proof -
  obtain before k later where k: "kinds = before @ k # later" "\<forall>j\<in>set before. lane s j = []"
      "lane s k = c # lane s' k" "\<forall>j. j \<noteq> k \<longrightarrow> lane s' j = lane s j" and ok: "ok s'"
    using pop_some [OF assms] by blast
  have "k \<notin> set before" "k \<notin> set later" using kinds_distinct k(1) by auto
  then have same: "map (lane s') later = map (lane s) later" "map (lane s') before = map (lane s) before"
    using k(4) by (metis map_eq_conv)+
  have "concat (map (lane s) before) = []" using k(2) by simp
  then show ?thesis using k(1,3) ok by (simp only: map_append list.map concat_append concat.simps same) simp
qed

lemma drain_order: "ok s \<Longrightarrow> length (concat (map (lane s) kinds)) \<le> n \<Longrightarrow> drain pop n s = concat (map (lane s) kinds)"
proof (induction n arbitrary: s)
  case (Suc n)
  show ?case
  proof (cases "pop s")
    case None
    with Suc.prems(1) have "concat (map (lane s) kinds) = []" by (simp add: pop_none)
    with None show ?thesis by simp
  next
    case (Some p)
    then obtain c s' where p: "pop s = Some (c, s')" by (cases p) simp
    note first = pop_first [OF Suc.prems(1) p]
    with Suc.prems(2) have "length (concat (map (lane s') kinds)) \<le> n" by simp
    with first Suc.IH [of s'] p show ?thesis by simp
  qed
qed simp

end

section \<open>The queue has lanes\<close>

lemma native_ok_new: "new_native limit = Inr s \<Longrightarrow> native_ok s"
  by (auto simp: new_native_def native_ok_def split: if_splits)

lemma submit_as:
  assumes "native_ok s" "submit_op kind cb continuation s = Inr s'"
  shows "native_ok s' \<and> nq_stopping s' = nq_stopping s \<and> lanes s' kind = lanes s kind @ [cb]
    \<and> (\<forall>k. k \<noteq> kind \<longrightarrow> lanes s' k = lanes s k)"
proof -
  obtain p where p: "dget priorities kind = Some p" and s': "s' = s\<lparr>nq_sequence := Suc (nq_sequence s),
      nq_queue := nq_queue s @ [\<lparr>op_key = Op_key p (Suc (nq_sequence s)), op_kind = kind, op_callback = cb\<rparr>]\<rparr>"
    using assms(2) by (auto simp: submit_op_def Let_def split: option.splits if_splits)
  have "native_ok s'"
    using assms(1) p by (auto simp: native_ok_def s' sorted_wrt_append less_Suc_eq_le)
  then show ?thesis by (simp add: s' lanes_def)
qed

lemma lane_kinds_known: "dget priorities k = Some p \<Longrightarrow> k \<in> set lane_kinds"
  by (auto simp: priorities_def lane_kinds_def split: if_splits)

lemma lane_order:
  assumes "lane_kinds = before @ k # later" "j \<in> set before" "dget priorities k = Some p" "dget priorities j = Some q"
  shows "q < p"
proof -
  have "sorted_wrt (\<lambda>a b. the (dget priorities a) < the (dget priorities b)) lane_kinds"
    by (simp add: lane_kinds_def priorities_def)
  then have "sorted_wrt (\<lambda>a b. the (dget priorities a) < the (dget priorities b)) (before @ k # later)"
    by (simp only: assms(1))
  then have "the (dget priorities j) < the (dget priorities k)"
    using assms(2) by (simp only: sorted_wrt_append) simp
  with assms(3,4) show ?thesis by simp
qed

lemma take_first:
  assumes ok: "native_ok s" and t: "take_op s = Some (x, s')"
  shows "native_ok s' \<and> nq_stopping s' = nq_stopping s
    \<and> (\<exists>before later. lane_kinds = before @ op_kind x # later \<and> (\<forall>j\<in>set before. lanes s j = [])
      \<and> lanes s (op_kind x) = op_callback x # lanes s' (op_kind x) \<and> (\<forall>j. j \<noteq> op_kind x \<longrightarrow> lanes s' j = lanes s j))"
proof -
  let ?q = "nq_queue s"
  obtain i where i: "min_pos op_key ?q = Some i" "x = ?q ! i"
      and s': "s' = s\<lparr>nq_queue := remove_nth i ?q, nq_active := Some (op_kind x)\<rparr>"
    using t by (auto simp: take_op_def split: if_splits option.splits)
  note b = min_pos_bound [OF i(1)]
  have least: "op_key x \<le> op_key y" if "y \<in> set ?q" for y
    using min_pos_least [OF i(1)] that i(2) by (auto simp: in_set_conv_nth)
  have split: "?q = take i ?q @ x # drop (Suc i) ?q" using id_take_nth_drop [OF b] i(2) by simp
  have sorted: "sorted_wrt (\<lambda>a b. key_sequence (op_key a) < key_sequence (op_key b)) (take i ?q @ x # drop (Suc i) ?q)"
    using ok split by (simp add: native_ok_def)
  have known: "dget priorities (op_kind y) = Some (key_priority (op_key y))" if "y \<in> set ?q" for y
    using ok that by (simp add: native_ok_def)
  have x: "x \<in> set ?q" using b i(2) by simp
  have earlier: "op_kind y \<noteq> op_kind x" if "y \<in> set (take i ?q)" for y
  proof
    assume same: "op_kind y = op_kind x"
    have y: "y \<in> set ?q" using that by (rule in_set_takeD)
    have "key_priority (op_key y) = key_priority (op_key x)" using known [OF y] known [OF x] same by simp
    moreover have "key_sequence (op_key y) < key_sequence (op_key x)" using sorted that by (simp add: sorted_wrt_append)
    ultimately show False using least [OF y] by (simp add: less_eq_op_key_def)
  qed
  have lane: "lanes s k = map op_callback (filter (\<lambda>y. op_kind y = k) (take i ?q))
      @ (if op_kind x = k then [op_callback x] else []) @ map op_callback (filter (\<lambda>y. op_kind y = k) (drop (Suc i) ?q))" for k
    unfolding lanes_def by (subst split) simp
  have lane': "lanes s' k = map op_callback (filter (\<lambda>y. op_kind y = k) (take i ?q))
      @ map op_callback (filter (\<lambda>y. op_kind y = k) (drop (Suc i) ?q))" for k
    by (simp add: lanes_def s' remove_nth_def)
  have none: "filter (\<lambda>y. op_kind y = op_kind x) (take i ?q) = []" using earlier by (auto simp: filter_empty_conv)
  obtain before later where k: "lane_kinds = before @ op_kind x # later"
    using lane_kinds_known [OF known [OF x]] by (meson split_list)
  have empty: "lanes s j = []" if "j \<in> set before" for j
  proof (rule ccontr)
    assume "lanes s j \<noteq> []"
    then obtain y where y: "y \<in> set ?q" "op_kind y = j" by (auto simp: lanes_def filter_empty_conv)
    have "key_priority (op_key y) < key_priority (op_key x)"
      using lane_order [OF k that known [OF x]] known [OF y(1)] y(2) by simp
    then show False using least [OF y(1)] by (simp add: less_eq_op_key_def)
  qed
  have "native_ok s'"
    using ok sorted set_remove_nth_subset [of i ?q]
    by (auto simp: native_ok_def s') (simp add: remove_nth_def sorted_wrt_append)
  moreover have "lanes s (op_kind x) = op_callback x # lanes s' (op_kind x)" using lane lane' none by simp
  moreover have "\<forall>j. j \<noteq> op_kind x \<longrightarrow> lanes s' j = lanes s j" using lane lane' by simp
  ultimately show ?thesis using k empty by (auto simp: s')
qed

definition serve :: "'c native \<Rightarrow> ('c \<times> 'c native) option" where
  "serve s = map_option (\<lambda>p. (op_callback (fst p), op_done (snd p))) (take_op s)"

lemma op_done_same: "lanes (op_done s) = lanes s" "native_ok (op_done s) = native_ok s" "nq_stopping (op_done s) = nq_stopping s"
  by (rule ext; simp add: op_done_def lanes_def) (simp_all add: op_done_def native_ok_def)

interpretation native: lanes_queue lanes lane_kinds serve "\<lambda>s. native_ok s \<and> \<not> nq_stopping s"
proof
  show "distinct lane_kinds" by (simp add: lane_kinds_def)
next
  fix s k
  assume "native_ok s \<and> \<not> nq_stopping s" "serve s = None"
  then have "nq_queue s = []" by (auto simp: serve_def take_op_def split: option.splits)
  then show "lanes s k = []" by (simp add: lanes_def)
next
  fix s c s'
  assume ok: "native_ok s \<and> \<not> nq_stopping s" and "serve s = Some (c, s')"
  then obtain x t where t: "take_op s = Some (x, t)" "c = op_callback x" "s' = op_done t"
    by (auto simp: serve_def)
  have "native_ok s" using ok by simp
  from take_first [OF this t(1)] ok
  show "(native_ok s' \<and> \<not> nq_stopping s') \<and> (\<exists>before k later. lane_kinds = before @ k # later \<and> (\<forall>j\<in>set before. lanes s j = [])
        \<and> lanes s k = c # lanes s' k \<and> (\<forall>j. j \<noteq> k \<longrightarrow> lanes s' j = lanes s j))"
    unfolding t(2,3) op_done_same by blast
qed

section \<open>Properties\<close>

text \<open>C32: the queue refines one lane per kind of operation: an accepted operation joins the end of the
  lane of its kind and no other lane changes; an operation that is taken is the head of the first
  lane, in the order control, human, hardware, background, that is not empty; nothing is taken
  exactly when the scheduler stops or all lanes are empty.\<close>

theorem native_queue_refines_lanes:
  assumes "native_ok s"
  shows "(\<forall>s'. submit_op kind cb continuation s = Inr s' \<longrightarrow>
      native_ok s' \<and> lanes s' = (lanes s)(kind := lanes s kind @ [cb]))
    \<and> (case take_op s of
         None \<Rightarrow> nq_stopping s \<or> (\<forall>k. lanes s k = [])
       | Some (x, s') \<Rightarrow> native_ok s' \<and> \<not> nq_stopping s
           \<and> find (\<lambda>k. lanes s k \<noteq> []) lane_kinds = Some (op_kind x)
           \<and> lanes s = (lanes s')(op_kind x := op_callback x # lanes s' (op_kind x)))"
proof (intro conjI allI impI)
  fix s'
  assume "submit_op kind cb continuation s = Inr s'"
  from submit_as [OF assms this] show "native_ok s'" "lanes s' = (lanes s)(kind := lanes s kind @ [cb])"
    by auto
next
  show "case take_op s of
         None \<Rightarrow> nq_stopping s \<or> (\<forall>k. lanes s k = [])
       | Some (x, s') \<Rightarrow> native_ok s' \<and> \<not> nq_stopping s
           \<and> find (\<lambda>k. lanes s k \<noteq> []) lane_kinds = Some (op_kind x)
           \<and> lanes s = (lanes s')(op_kind x := op_callback x # lanes s' (op_kind x))"
  proof (cases "take_op s")
    case None
    then have "nq_stopping s \<or> nq_queue s = []" by (auto simp: take_op_def split: if_splits option.splits)
    with None show ?thesis by (auto simp: lanes_def)
  next
    case (Some p)
    obtain x s' where p: "p = (x, s')" by force
    with Some have t: "take_op s = Some (x, s')" by simp
    from take_first [OF assms t] obtain before later where k: "native_ok s'" "lane_kinds = before @ op_kind x # later"
        "\<forall>j\<in>set before. lanes s j = []" "lanes s (op_kind x) = op_callback x # lanes s' (op_kind x)"
        "\<forall>j. j \<noteq> op_kind x \<longrightarrow> lanes s' j = lanes s j" by blast
    have run: "\<not> nq_stopping s" using t by (auto simp: take_op_def)
    have "find (\<lambda>k. lanes s k \<noteq> []) (before @ op_kind x # later) = Some (op_kind x)"
      using k(3,4) by (induction before) simp_all
    then have "find (\<lambda>k. lanes s k \<noteq> []) lane_kinds = Some (op_kind x)" by (simp only: k(2))
    moreover have "lanes s = (lanes s')(op_kind x := op_callback x # lanes s' (op_kind x))"
      using k(4,5) by (intro ext) simp
    ultimately show ?thesis using k(1) t run by simp
  qed
qed

definition sample_native :: "nat native" where
  "sample_native = \<lparr>nq_queue = [\<lparr>op_key = Op_key 20 1, op_kind = u ''background'', op_callback = 7\<rparr>,
     \<lparr>op_key = Op_key 0 2, op_kind = u ''human'', op_callback = 8\<rparr>],
     nq_max = 2, nq_sequence = 2, nq_stopping = False, nq_active = None\<rparr>"

lemma sample_native_ok: "native_ok sample_native"
  by (simp add: native_ok_def sample_native_def priorities_def)

theorem native_queue_refines_lanes_witness:
  "find (\<lambda>k. lanes sample_native k \<noteq> []) lane_kinds = Some (u ''human'')"
proof -
  have "take_op sample_native = Some (\<lparr>op_key = Op_key 0 2, op_kind = u ''human'', op_callback = 8\<rparr>,
      sample_native\<lparr>nq_queue := [\<lparr>op_key = Op_key 20 1, op_kind = u ''background'', op_callback = 7\<rparr>],
        nq_active := Some (u ''human'')\<rparr>)"
    by (simp add: take_op_def sample_native_def less_eq_op_key_def remove_nth_def)
  with native_queue_refines_lanes [OF sample_native_ok] show ?thesis by fastforce
qed

text \<open>Left without new submissions, a scheduler that is not stopped runs every admitted operation:
  first all control operations, then those of people, then hardware, then background work, each
  kind in the order of its admission.\<close>

theorem native_queue_drains_in_order:
  assumes "native_ok s" and "\<not> nq_stopping s" and "length (nq_queue s) \<le> n"
  shows "drain serve n s = concat (map (lanes s) lane_kinds) \<and> length (drain serve n s) = length (nq_queue s)"
proof -
  have count: "length (concat (map (\<lambda>k. map op_callback (filter (\<lambda>x. op_kind x = k) q)) ks))
      = length (filter (\<lambda>x. op_kind x \<in> set ks) q)" if "distinct ks" for ks and q :: "'a operation list"
    using that
  proof (induction ks)
    case (Cons k ks)
    have "length (filter (\<lambda>x. op_kind x \<in> set (k # ks)) q)
        = length (filter (\<lambda>x. op_kind x = k) q) + length (filter (\<lambda>x. op_kind x \<in> set ks) q)"
      using Cons.prems by (induction q) auto
    with Cons show ?case by simp
  qed simp
  have "op_kind x \<in> set lane_kinds" if "x \<in> set (nq_queue s)" for x
    using assms(1) that lane_kinds_known by (auto simp: native_ok_def)
  then have "filter (\<lambda>x. op_kind x \<in> set lane_kinds) (nq_queue s) = nq_queue s" by (simp add: filter_id_conv)
  then have len: "length (concat (map (lanes s) lane_kinds)) = length (nq_queue s)"
    using count [of lane_kinds "nq_queue s"] native.kinds_distinct by (simp add: lanes_def [abs_def])
  with native.drain_order [of s n] assms show ?thesis by simp
qed

theorem native_queue_drains_in_order_witness: "drain serve 2 sample_native = [8, 7]"
proof -
  have "\<not> nq_stopping sample_native" "length (nq_queue sample_native) \<le> 2" by (simp_all add: sample_native_def)
  from native_queue_drains_in_order [OF sample_native_ok this]
  show ?thesis by (simp add: lanes_def lane_kinds_def sample_native_def)
qed

end
