(* ===== verification/ToolGuard.thy ===== *)
theory ToolGuard
  imports Json
begin

text \<open>
  The bounds on the automatic tool loop of native conversations (litert_agent_tools/tool_guard.py):
  the budget of calls and time of a turn, the context left for tool results, the shortening of a
  large result to a preview found by bisection, and the paged reading of stored results.
  \<open>json.dumps\<close> is written out for JSON values; the text of a float is the parameter \<open>fl\<close>. The budget
  that several guards of one turn share is a value of its own, passed to and returned from every
  operation. The clock, the token count of the conversation, whether the turn is still active, and
  the outcome of storing a result are arguments. A file is the list of its characters.
\<close>

section \<open>The size of a JSON text\<close>

definition hex_digit :: "nat \<Rightarrow> nat" where
  "hex_digit n = (if n < 10 then 48 + n else 87 + n)"

definition unicode_escape :: "nat \<Rightarrow> str" where
  "unicode_escape c = [92, 117, hex_digit (c div 4096 mod 16), hex_digit (c div 256 mod 16),
     hex_digit (c div 16 mod 16), hex_digit (c mod 16)]"

definition escape_char :: "bool \<Rightarrow> nat \<Rightarrow> str" where
  "escape_char ascii c =
     (if c = 34 \<or> c = 92 then [92, c]
      else if c = 10 then [92, 110] else if c = 13 then [92, 114] else if c = 9 then [92, 116]
      else if c = 8 then [92, 98] else if c = 12 then [92, 102]
      else if c < 32 then unicode_escape c
      else if ascii \<and> c > 126 then
        (if c < 65536 then unicode_escape c
         else unicode_escape (55296 + (c - 65536) div 1024) @ unicode_escape (56320 + (c - 65536) mod 1024))
      else [c])"

definition dumps_string :: "bool \<Rightarrow> str \<Rightarrow> str" where
  "dumps_string ascii s = 34 # concat (map (escape_char ascii) s) @ [34]"

definition sep_join :: "str \<Rightarrow> str list \<Rightarrow> str" where
  "sep_join sep ws = (case ws of [] \<Rightarrow> [] | w # rest \<Rightarrow> w @ concat (map (\<lambda>x. sep @ x) rest))"

fun dumps :: "(pyfloat \<Rightarrow> str) \<Rightarrow> bool \<Rightarrow> str \<Rightarrow> str \<Rightarrow> json \<Rightarrow> str" where
  "dumps fl ascii is ks JNull = u ''null''"
| "dumps fl ascii is ks (JBool b) = (if b then u ''true'' else u ''false'')"
| "dumps fl ascii is ks (JInt i) = show_int i"
| "dumps fl ascii is ks (JFloat x) = fl x"
| "dumps fl ascii is ks (JStr s) = dumps_string ascii s"
| "dumps fl ascii is ks (JList xs) = 91 # sep_join is (map (dumps fl ascii is ks) xs) @ [93]"
| "dumps fl ascii is ks (JObj ps) =
     123 # sep_join is (map (\<lambda>p. dumps_string ascii (fst p) @ ks @ dumps fl ascii is ks (snd p)) ps) @ [125]"

definition wire_size :: "(pyfloat \<Rightarrow> str) \<Rightarrow> json \<Rightarrow> int" where
  "wire_size fl v = int (length (dumps fl True (u '','') (u '':'') v))"

section \<open>Stored results\<close>

definition hex_id :: "json \<Rightarrow> str option" where
  "hex_id v =
     (case v of
        JStr s \<Rightarrow> if length s = 32 \<and> list_all (\<lambda>c. is_digit c \<or> (97 \<le> c \<and> c \<le> 102)) s then Some s else None
      | _ \<Rightarrow> None)"

datatype read_reply = Invalid_result_id | Invalid_page | Offset_past_end | Os_error | Page str "nat option"

text \<open>Skipping a prefix of a file in reads of at most 4096 characters; \<open>None\<close> at its end.\<close>

function skip_prefix :: "nat \<Rightarrow> str \<Rightarrow> str option" where
  "skip_prefix remaining stream =
     (if remaining = 0 then Some stream
      else
        (let part = take (min remaining 4096) stream
         in if part = [] then None
            else skip_prefix (remaining - length part) (drop (length part) stream)))"
  by pat_completeness auto

termination
  by (relation "measure fst") auto

declare skip_prefix.simps [simp del]

definition read_page :: "str \<Rightarrow> nat \<Rightarrow> nat \<Rightarrow> read_reply" where
  "read_page content offset len =
     (case skip_prefix offset content of
        None \<Rightarrow> Offset_past_end
      | Some stream \<Rightarrow>
          (let text = take len stream; more = take 1 (drop len stream) \<noteq> []
           in Page text (if more then Some (offset + length text) else None)))"

definition read_tool_result :: "(str \<Rightarrow> str option) \<Rightarrow> json \<Rightarrow> json \<Rightarrow> json \<Rightarrow> read_reply" where
  "read_tool_result files result_id offset len =
     (case hex_id result_id of
        None \<Rightarrow> Invalid_result_id
      | Some ident \<Rightarrow>
          (case (offset, len) of
             (JInt i, JInt n) \<Rightarrow>
               if i < 0 \<or> n < 1 \<or> n > 512 then Invalid_page
               else (case files ident of None \<Rightarrow> Os_error | Some content \<Rightarrow> read_page content (nat i) (nat n))
           | _ \<Rightarrow> Invalid_page))"

section \<open>Shortening a result\<close>

datatype store_outcome = No_store | Saved str | Save_failed

definition copied_keys :: "json \<Rightarrow> (str \<times> json) list" where
  "copied_keys result =
     (case result of
        JObj ps \<Rightarrow> concat (map (\<lambda>k. case dget ps k of None \<Rightarrow> [] | Some v \<Rightarrow> [(k, v)])
          [u ''ok'', u ''isError'', u ''exit_code''])
      | _ \<Rightarrow> [])"

definition summary :: "(pyfloat \<Rightarrow> str) \<Rightarrow> str option \<Rightarrow> json \<Rightarrow> str \<Rightarrow> json" where
  "summary fl ident result preview =
     JObj ([(u ''truncated'', JBool True), (u ''original_bytes'', JInt (wire_size fl result))]
       @ copied_keys result
       @ (case ident of
            Some i \<Rightarrow> [(u ''result_id'', JStr i), (u ''read_with'', JStr (u ''read_tool_result''))]
          | None \<Rightarrow> [(u ''full_result_saved'', JBool False)])
       @ [(u ''preview'', JStr preview)])"

text \<open>The loop of the bisection over the length of the preview; \<open>fits\<close> measures the summary.\<close>

function bisect :: "(nat \<Rightarrow> bool) \<Rightarrow> nat \<Rightarrow> nat \<Rightarrow> nat" where
  "bisect fits low high =
     (if low < high then
        (let mid = (low + high + 1) div 2
         in if fits mid then bisect fits mid high else bisect fits low (mid - 1))
      else low)"
  by pat_completeness auto

termination
  by (relation "measure (\<lambda>(_, low, high). high - low)") auto

declare bisect.simps [simp del]

definition shorten :: "(pyfloat \<Rightarrow> str) \<Rightarrow> int \<Rightarrow> str option \<Rightarrow> json \<Rightarrow> json" where
  "shorten fl budget ident result =
     (let preview = dumps fl False (u '', '') (u '': '') result;
          n = bisect (\<lambda>k. wire_size fl (summary fl ident result (take k preview)) \<le> budget) 0
                (min (length preview) (nat (max 0 budget)))
      in summary fl ident result (take n preview))"

section \<open>The guard\<close>

record turn_budget =
  tb_deadline :: "rat option"
  tb_calls :: "nat option"

record guard =
  tg_max_calls :: nat
  tg_timeout :: rat
  tg_context_limit :: int
  tg_output_reserve :: int
  tg_max_result_bytes :: int
  tg_attempts :: nat
  tg_deadline :: rat
  tg_shared :: bool
  tg_batch_kv :: "int option"
  tg_batch_bytes :: int
  tg_ledger_calls :: nat
  tg_calls_before :: nat
  tg_status :: int

datatype guard_stop =
    Bad_limits
  | Turn_cancelled
  | Deadline_reached
  | Call_limit
  | No_context
  | Metadata_too_large
  | Cancelled_after
  | Deadline_after
  | Store_failed

definition reset_guard :: "rat \<Rightarrow> turn_budget option \<Rightarrow> guard \<Rightarrow> guard \<times> turn_budget option" where
  "reset_guard now shared g =
     (let deadline = now + tg_timeout g
      in case shared of
           None \<Rightarrow> (g\<lparr>tg_attempts := 0, tg_deadline := deadline, tg_shared := False,
                        tg_batch_kv := None, tg_batch_bytes := 0\<rparr>, None)
         | Some b \<Rightarrow>
             (let d = (case tb_deadline b of None \<Rightarrow> deadline | Some x \<Rightarrow> x);
                  n = (case tb_calls b of None \<Rightarrow> 0 | Some x \<Rightarrow> x)
              in (g\<lparr>tg_attempts := 0, tg_deadline := d, tg_shared := True,
                     tg_batch_kv := None, tg_batch_bytes := 0\<rparr>,
                  Some \<lparr>tb_deadline = Some d, tb_calls = Some n\<rparr>)))"

text \<open>The constructor; \<open>timeout\<close> is finite because it is a rational.\<close>

definition new_guard ::
  "nat \<Rightarrow> rat \<Rightarrow> int \<Rightarrow> int \<Rightarrow> int \<Rightarrow> rat \<Rightarrow> turn_budget option \<Rightarrow> guard_stop + guard \<times> turn_budget option" where
  "new_guard calls timeout context output bytes now shared =
     (if calls < 1 \<or> timeout \<le> 0 \<or> bytes < 256 \<or> output < 1 \<or> context \<le> output + 256 then Inl Bad_limits
      else Inr (reset_guard now shared
        \<lparr>tg_max_calls = calls, tg_timeout = timeout, tg_context_limit = context, tg_output_reserve = output,
         tg_max_result_bytes = bytes, tg_attempts = 0, tg_deadline = now, tg_shared = False,
         tg_batch_kv = None, tg_batch_bytes = 0, tg_ledger_calls = 0, tg_calls_before = 0, tg_status = 0\<rparr>))"

record guard_env =
  ge_active :: bool
  ge_now :: rat
  ge_kv :: int
  ge_store :: store_outcome

definition stop_guard :: "guard_stop \<Rightarrow> guard \<Rightarrow> (guard_stop + 'a) \<times> guard" where
  "stop_guard why g = (Inl why, g\<lparr>tg_status := 1\<rparr>)"

definition available :: "int \<Rightarrow> guard \<Rightarrow> int \<times> guard" where
  "available kv g =
     (let g' = (if tg_batch_kv g = Some kv then g else g\<lparr>tg_batch_kv := Some kv, tg_batch_bytes := 0\<rparr>)
      in (tg_context_limit g' - kv - tg_output_reserve g' - 256 - tg_batch_bytes g', g'))"

definition calls_so_far :: "guard \<Rightarrow> turn_budget option \<Rightarrow> nat" where
  "calls_so_far g b =
     (case b of Some t \<Rightarrow> if tg_shared g then the (tb_calls t) else tg_attempts g | None \<Rightarrow> tg_attempts g)"

definition count_call :: "turn_budget \<Rightarrow> turn_budget" where
  "count_call b = b\<lparr>tb_calls := map_option Suc (tb_calls b)\<rparr>"

definition approve ::
  "guard_env \<Rightarrow> guard \<Rightarrow> turn_budget option \<Rightarrow> ((guard_stop + unit) \<times> guard) \<times> turn_budget option" where
  "approve env g b =
     (if \<not> ge_active env then (stop_guard Turn_cancelled g, b)
      else if ge_now env \<ge> tg_deadline g then (stop_guard Deadline_reached g, b)
      else if calls_so_far g b \<ge> tg_max_calls g then (stop_guard Call_limit g, b)
      else
        (let (room, g1) = available (ge_kv env) g
         in if room < 256 then (stop_guard No_context g1, b)
            else ((Inr (), g1\<lparr>tg_attempts := Suc (tg_attempts g1), tg_calls_before := tg_ledger_calls g1\<rparr>),
                  if tg_shared g1 then map_option count_call b else b)))"

definition failed_result :: "json \<Rightarrow> bool" where
  "failed_result result =
     (case result of
        JStr s \<Rightarrow> startswith s (u ''Error:'')
      | JObj ps \<Rightarrow> dget ps (u ''ok'') = Some (JBool False) \<or> dget ps (u ''isError'') = Some (JBool True)
      | _ \<Rightarrow> False)"

definition count_unledgered :: "guard \<Rightarrow> guard" where
  "count_unledgered g =
     (if tg_ledger_calls g = tg_calls_before g then g\<lparr>tg_ledger_calls := Suc (tg_ledger_calls g)\<rparr> else g)"

definition process_response ::
  "(pyfloat \<Rightarrow> str) \<Rightarrow> guard_env \<Rightarrow> json \<Rightarrow> guard \<Rightarrow> (guard_stop + json) \<times> guard" where
  "process_response fl env result g =
     (let g1 = count_unledgered g;
          g2 = (if failed_result result then g1\<lparr>tg_status := 1\<rparr> else g1);
          (room, g3) = available (ge_kv env) g2;
          budget = min (tg_max_result_bytes g3) (room - 128);
          large = wire_size fl result > budget
      in if large \<and> ge_store env = Save_failed then (Inl Store_failed, g3)
         else
           (let sent = (if large
                        then shorten fl budget (case ge_store env of Saved i \<Rightarrow> Some i | _ \<Rightarrow> None) result
                        else result)
            in if wire_size fl sent > budget then stop_guard Metadata_too_large g3
               else
                 (let g4 = g3\<lparr>tg_batch_bytes := tg_batch_bytes g3 + wire_size fl sent + 128\<rparr>
                  in if \<not> ge_active env then stop_guard Cancelled_after g4
                     else if ge_now env \<ge> tg_deadline g4 then stop_guard Deadline_after g4
                     else (Inr sent, g4))))"

end
