(* ===== verification/ToolGuardProps.thy ===== *)
theory ToolGuardProps
  imports ToolGuard
begin

text \<open>
  The bisection finds the longest preview that fits, the guard never lets a turn exceed its calls or
  its context, and a stored result is read back completely page by page.
\<close>

section \<open>Sizes\<close>

lemma length_sep_join: "length (sep_join sep ws) = sum_list (map length ws) + length sep * (length ws - 1)"
proof (cases ws)
  case (Cons w rest)
  have "length (concat (map (\<lambda>x. sep @ x) rest)) = sum_list (map length rest) + length sep * length rest"
    by (induction rest) simp_all
  with Cons show ?thesis by (simp add: sep_join_def)
qed (simp add: sep_join_def)

lemma length_dumps_string: "length (dumps_string ascii s) = 2 + sum_list (map (\<lambda>c. length (escape_char ascii c)) s)"
  by (simp add: dumps_string_def length_concat comp_def)

text \<open>The summary grows with its preview.\<close>

definition summary_size :: "(pyfloat \<Rightarrow> str) \<Rightarrow> str option \<Rightarrow> json \<Rightarrow> str \<Rightarrow> int" where
  "summary_size fl ident result preview = wire_size fl (summary fl ident result preview)"

lemma summary_size_split:
  "\<exists>n. \<forall>preview. summary_size fl ident result preview = n + int (length (dumps_string True preview))"
proof -
  let ?fields = "[(u ''truncated'', JBool True), (u ''original_bytes'', JInt (wire_size fl result))]
       @ copied_keys result
       @ (case ident of
            Some i \<Rightarrow> [(u ''result_id'', JStr i), (u ''read_with'', JStr (u ''read_tool_result''))]
          | None \<Rightarrow> [(u ''full_result_saved'', JBool False)])"
  let ?item = "\<lambda>p. dumps_string True (fst p) @ u '':'' @ dumps fl True (u '','') (u '':'') (snd p)"
  have "summary fl ident result preview = JObj (?fields @ [(u ''preview'', JStr preview)])" for preview
    by (simp add: summary_def)
  then have "summary_size fl ident result preview = int (2 + (sum_list (map length (map ?item ?fields))
      + length (dumps_string True (u ''preview'')) + 1 + length ?fields)) + int (length (dumps_string True preview))" for preview
    by (simp only: summary_size_def wire_size_def dumps.simps) (simp add: length_sep_join)
  then show ?thesis by blast
qed

lemma summary_size_mono:
  assumes "i \<le> j"
  shows "summary_size fl ident result (take i p) \<le> summary_size fl ident result (take j p)"
proof -
  obtain n where n: "\<And>q. summary_size fl ident result q = n + int (length (dumps_string True q))"
    using summary_size_split by blast
  have "take j p = take i p @ take (j - i) (drop i p)" using assms by (simp flip: take_add)
  then have "length (dumps_string True (take i p)) \<le> length (dumps_string True (take j p))"
    by (simp add: length_dumps_string)
  then show ?thesis by (simp add: n)
qed

section \<open>Bisection\<close>

definition longest_fitting :: "(nat \<Rightarrow> bool) \<Rightarrow> nat \<Rightarrow> nat \<Rightarrow> nat \<Rightarrow> bool" where
  "longest_fitting fits low high r \<longleftrightarrow> low \<le> r \<and> r \<le> high \<and> (low < r \<longrightarrow> fits r)
     \<and> (\<forall>k. r < k \<longrightarrow> k \<le> high \<longrightarrow> \<not> fits k)"

lemma bisect_spec:
  assumes mono: "\<And>i j. i \<le> j \<Longrightarrow> fits j \<Longrightarrow> fits i"
  shows "low \<le> high \<Longrightarrow> longest_fitting fits low high (bisect fits low high)"
proof (induction "high - low" arbitrary: low high rule: less_induct)
  case less
  show ?case
  proof (cases "low < high")
    case False
    then have "bisect fits low high = low" by (simp add: bisect.simps [of fits low high])
    with False less.prems show ?thesis by (simp add: longest_fitting_def)
  next
    case True
    define mid where "mid = (low + high + 1) div 2"
    have mid: "low < mid" "mid \<le> high" using True by (simp_all add: mid_def)
    show ?thesis
    proof (cases "fits mid")
      case fit: True
      have r: "bisect fits low high = bisect fits mid high" using True fit by (simp add: bisect.simps [of fits low high] mid_def)
      have "longest_fitting fits mid high (bisect fits mid high)" using mid by (intro less.hyps) simp_all
      then show ?thesis using fit mid(1) unfolding r longest_fitting_def
        by (metis (no_types) dual_order.trans le_neq_implies_less less_imp_le)
    next
      case False
      have r: "bisect fits low high = bisect fits low (mid - 1)" using True False by (simp add: bisect.simps [of fits low high] mid_def)
      have "longest_fitting fits low (mid - 1) (bisect fits low (mid - 1))" using mid by (intro less.hyps) simp_all
      moreover have "\<not> fits k" if "\<not> k \<le> mid - 1" for k
        using mono [of mid k] False that mid(1) by linarith
      ultimately show ?thesis using mid(2) unfolding r longest_fitting_def by force
    qed
  qed
qed

text \<open>The reference: looking at every length from the longest down.\<close>

fun scan_down :: "(nat \<Rightarrow> bool) \<Rightarrow> nat \<Rightarrow> nat" where
  "scan_down fits 0 = 0"
| "scan_down fits (Suc n) = (if fits (Suc n) then Suc n else scan_down fits n)"

lemma scan_down_spec: "longest_fitting fits 0 n (scan_down fits n)"
  by (induction n) (auto simp: longest_fitting_def le_Suc_eq)

lemma longest_fitting_unique: "longest_fitting fits 0 n a \<Longrightarrow> longest_fitting fits 0 n b \<Longrightarrow> a = b"
  unfolding longest_fitting_def by (metis linorder_neqE_nat not_less_zero gr_zeroI)

text \<open>C33: the bisection always ends and finds the longest preview: shortening a result gives the same
  summary as trying every length from the longest down and keeping the first whose summary fits the
  budget, or the empty preview where none does.\<close>

theorem shorten_keeps_longest_preview:
  "shorten fl budget ident result =
    (let preview = dumps fl False (u '', '') (u '': '') result
     in summary fl ident result (take (scan_down (\<lambda>k. wire_size fl (summary fl ident result (take k preview)) \<le> budget)
          (min (length preview) (nat (max 0 budget)))) preview))"
proof -
  define preview where "preview = dumps fl False (u '', '') (u '': '') result"
  define fits where "fits k \<longleftrightarrow> wire_size fl (summary fl ident result (take k preview)) \<le> budget" for k
  define n where "n = min (length preview) (nat (max 0 budget))"
  have "fits i" if "i \<le> j" "fits j" for i j
    using summary_size_mono [OF that(1), of fl ident result preview] that(2) by (simp add: fits_def summary_size_def)
  then have "longest_fitting fits 0 n (bisect fits 0 n)" by (intro bisect_spec) blast+
  then have "bisect fits 0 n = scan_down fits n" using scan_down_spec by (rule longest_fitting_unique)
  then show ?thesis by (simp add: shorten_def Let_def fits_def [abs_def] n_def preview_def)
qed

section \<open>Calls and context\<close>

lemma available_as:
  assumes "available kv g = (room, g')"
  shows "tg_batch_kv g' = Some kv" "room = tg_context_limit g - kv - tg_output_reserve g - 256 - tg_batch_bytes g'"
    "tg_context_limit g' = tg_context_limit g" "tg_output_reserve g' = tg_output_reserve g"
    "tg_max_result_bytes g' = tg_max_result_bytes g" "tg_shared g' = tg_shared g" "tg_attempts g' = tg_attempts g"
  using assms by (auto simp: available_def Let_def split: if_splits)


definition sample_guard :: guard where
  "sample_guard = \<lparr>tg_max_calls = 1, tg_timeout = 10, tg_context_limit = 4096, tg_output_reserve = 512,
     tg_max_result_bytes = 2048, tg_attempts = 0, tg_deadline = 10, tg_shared = True, tg_batch_kv = None,
     tg_batch_bytes = 0, tg_ledger_calls = 0, tg_calls_before = 0, tg_status = 0\<rparr>"

definition sample_guard_env :: guard_env where
  "sample_guard_env = \<lparr>ge_active = True, ge_now = 1, ge_kv = 1000, ge_store = No_store\<rparr>"


section \<open>Pages\<close>

lemma skip_prefix_as: "skip_prefix n s = (if n \<le> length s then Some (drop n s) else None)"
proof (induction n s rule: skip_prefix.induct)
  case (1 n s)
  define part where "part = take (min n 4096) s"
  show ?case
  proof (cases "n = 0 \<or> part = []")
    case True
    then show ?thesis by (auto simp: skip_prefix.simps [of n s] part_def)
  next
    case False
    then have len: "length part \<le> n" "length part \<le> length s" "part \<noteq> []" by (auto simp: part_def)
    have "skip_prefix n s = skip_prefix (n - length part) (drop (length part) s)"
      using False by (subst skip_prefix.simps) (simp only: Let_def if_False part_def [symmetric] de_Morgan_disj)
    also have "\<dots> = (if n - length part \<le> length (drop (length part) s)
        then Some (drop (n - length part) (drop (length part) s)) else None)"
      using 1 [of part] False by (simp add: part_def)
    finally have "skip_prefix n s = (if n - length part \<le> length s - length part
        then Some (drop (n - length part) (drop (length part) s)) else None)" by simp
    moreover have "n - length part \<le> length s - length part \<longleftrightarrow> n \<le> length s"
      "n - length part + length part = n" using len by linarith+
    ultimately show ?thesis by (simp add: drop_drop)
  qed
qed

text \<open>Reading page after page, following \<open>next_offset\<close>, for at most the given number of pages.\<close>

fun read_pages :: "nat \<Rightarrow> (str \<Rightarrow> str option) \<Rightarrow> str \<Rightarrow> nat \<Rightarrow> nat \<Rightarrow> str option" where
  "read_pages 0 files ident len offset = None"
| "read_pages (Suc n) files ident len offset =
     (case read_tool_result files (JStr ident) (JInt (int offset)) (JInt (int len)) of
        Page t None \<Rightarrow> Some t
      | Page t (Some next) \<Rightarrow> map_option (\<lambda>r. t @ r) (read_pages n files ident len next)
      | _ \<Rightarrow> None)"

lemma read_pages_rest:
  assumes "hex_id (JStr ident) = Some ident" "files ident = Some content" "1 \<le> len" "len \<le> 512"
  shows "offset \<le> length content \<Longrightarrow> length content - offset < n \<Longrightarrow>
    read_pages n files ident len offset = Some (drop offset content)"
proof (induction n arbitrary: offset)
  case (Suc n)
  have page: "read_tool_result files (JStr ident) (JInt (int offset)) (JInt (int len)) = read_page content offset len"
    using assms by (simp add: read_tool_result_def)
  show ?case
  proof (cases "offset + len < length content")
    case True
    then have "read_page content offset len = Page (take len (drop offset content)) (Some (offset + len))"
      using Suc.prems by (simp add: read_page_def skip_prefix_as Let_def)
    moreover have "read_pages n files ident len (offset + len) = Some (drop (offset + len) content)"
      using True Suc.prems assms(3) by (intro Suc.IH) simp_all
    moreover have "take len (drop offset content) @ drop (offset + len) content = drop offset content"
      by (metis add.commute append_take_drop_id drop_drop)
    ultimately show ?thesis using page by simp
  next
    case False
    then have "read_page content offset len = Page (drop offset content) None"
      using Suc.prems by (simp add: read_page_def skip_prefix_as Let_def)
    with page show ?thesis by simp
  qed
qed simp

text \<open>A stored result is read back completely: whatever page length is used, following the next offset
  from zero ends after finitely many pages and yields exactly the text that was saved.\<close>

theorem pages_give_back_result:
  assumes "hex_id (JStr ident) = Some ident" and "files ident = Some content" and "1 \<le> len" and "len \<le> 512"
  shows "read_pages (Suc (length content)) files ident len 0 = Some content"
  using read_pages_rest [of ident files content len 0 "Suc (length content)"] assms by simp

theorem pages_give_back_result_witness:
  "read_pages 4 (\<lambda>_. Some [1, 2, 3]) (replicate 32 48) 2 0 = Some [1, 2, 3]"
proof -
  have "hex_id (JStr (replicate 32 48)) = Some (replicate 32 48)" by (simp add: hex_id_def is_digit_def list_all_iff)
  from pages_give_back_result [OF this, of "\<lambda>_. Some [1, 2, 3]" "[1, 2, 3]" 2] show ?thesis by (simp add: numeral_eq_Suc)
qed

end
