(* ===== verification/Outbox.thy ===== *)
theory Outbox
  imports Text
begin

text \<open>
  The outbox of notifications that all COREs share (agent_core/outbox.py): the SQLite tables as a
  list of rows in \<open>rowid\<close> order and a dictionary of dispatchers, one record per
  \<open>NotificationOutbox\<close>, and its operations. A transaction commits or leaves the tables as they were
  and raises; \<open>tx\<close> says which, for the migration of the first connection and for the transaction
  itself. A file without tables is the empty database, and a row written before the scope column
  existed has the empty scope. The text of every update is its row function; \<open>pump\<close> is split where
  the code gives up the lock to call the sender, so that other operations may come in between.
\<close>

section \<open>Tables and clients\<close>

record notification =
  nt_id :: str
  nt_text :: str
  nt_attempts :: nat
  nt_due :: rat
  nt_delivered :: "rat option"
  nt_error :: str
  nt_scope :: str

record outbox_db =
  db_rows :: "notification list"
  db_dispatchers :: "(str, bool \<times> rat) dict"

record core_outbox =
  ox_scope :: str
  ox_ready :: bool
  ox_offer :: "(notification \<times> rat) option"

definition new_outbox :: "str option \<Rightarrow> str option \<Rightarrow> core_outbox" where
  "new_outbox scope owner_path =
     (let raw = (case scope of Some s \<Rightarrow> s | None \<Rightarrow> (case owner_path of Some p \<Rightarrow> p | None \<Rightarrow> u ''default''))
      in \<lparr>ox_scope = (if strip raw = [] then u ''default'' else strip raw), ox_ready = False, ox_offer = None\<rparr>)"

definition update_rows :: "(notification \<Rightarrow> bool) \<Rightarrow> (notification \<Rightarrow> notification) \<Rightarrow> outbox_db \<Rightarrow> outbox_db" where
  "update_rows P f db = db\<lparr>db_rows := map (\<lambda>r. if P r then f r else r) (db_rows db)\<rparr>"

section \<open>Transactions\<close>

record tx =
  tx_migrates :: bool
  tx_commits :: bool
  tx_error :: str

definition adopt :: "str \<Rightarrow> outbox_db \<Rightarrow> outbox_db" where
  "adopt scope = update_rows (\<lambda>r. nt_scope r = [] \<and> nt_delivered r = None) (\<lambda>r. r\<lparr>nt_scope := scope\<rparr>)"

definition transact ::
  "tx \<Rightarrow> (outbox_db \<Rightarrow> 'a \<times> outbox_db) \<Rightarrow> core_outbox \<Rightarrow> outbox_db \<Rightarrow> 'a option \<times> core_outbox \<times> outbox_db"
where
  "transact t body c db =
     (if \<not> ox_ready c \<and> \<not> tx_migrates t then (None, c, db)
      else
        (let db1 = (if ox_ready c then db else adopt (ox_scope c) db); c1 = c\<lparr>ox_ready := True\<rparr>
         in if tx_commits t then (case body db1 of (r, db2) \<Rightarrow> (Some r, c1, db2)) else (None, c1, db1)))"

definition beat :: "str \<Rightarrow> bool \<Rightarrow> rat \<Rightarrow> outbox_db \<Rightarrow> outbox_db" where
  "beat scope human now db = db\<lparr>db_dispatchers := dput scope (human, now) (db_dispatchers db)\<rparr>"

section \<open>Queueing and acknowledgement\<close>

definition insert_row :: "str \<Rightarrow> str \<Rightarrow> str \<Rightarrow> outbox_db \<Rightarrow> outbox_db" where
  "insert_row ident txt scope db =
     (if ident \<in> set (map nt_id (db_rows db)) then db
      else db\<lparr>db_rows := db_rows db @ [\<lparr>nt_id = ident, nt_text = txt, nt_attempts = 0, nt_due = 0,
        nt_delivered = None, nt_error = [], nt_scope = scope\<rparr>]\<rparr>)"

definition chosen_id :: "str option \<Rightarrow> str \<Rightarrow> str" where
  "chosen_id given fresh = (case given of Some i \<Rightarrow> if i = [] then fresh else i | None \<Rightarrow> fresh)"

definition enqueue_note ::
  "tx \<Rightarrow> rat \<Rightarrow> bool \<Rightarrow> str option \<Rightarrow> str \<Rightarrow> str \<Rightarrow> core_outbox \<Rightarrow> outbox_db \<Rightarrow> str option \<times> core_outbox \<times> outbox_db"
where
  "enqueue_note t now human given fresh txt c =
     transact t (\<lambda>db. (chosen_id given fresh,
       insert_row (chosen_id given fresh) txt (ox_scope c) (beat (ox_scope c) human now db))) c"

definition ack_row :: "rat \<Rightarrow> str \<Rightarrow> outbox_db \<Rightarrow> outbox_db" where
  "ack_row now ident = update_rows (\<lambda>r. nt_id r = ident \<and> nt_delivered r = None)
     (\<lambda>r. r\<lparr>nt_delivered := Some now, nt_error := []\<rparr>)"

definition acknowledge :: "tx \<Rightarrow> rat \<Rightarrow> str \<Rightarrow> core_outbox \<Rightarrow> outbox_db \<Rightarrow> unit option \<times> core_outbox \<times> outbox_db" where
  "acknowledge t now ident = transact t (\<lambda>db. ((), ack_row now ident db))"

section \<open>Dispatch\<close>

definition dispatcher_lease :: rat where
  "dispatcher_lease = 1"

definition live_scopes :: "bool \<Rightarrow> rat \<Rightarrow> outbox_db \<Rightarrow> str list" where
  "live_scopes humans live_after db =
     map fst (filter (\<lambda>p. (humans \<longrightarrow> fst (snd p)) \<and> live_after \<le> snd (snd p)) (db_dispatchers db))"

definition least_scope :: "str list \<Rightarrow> str option" where
  "least_scope xs = map_option ((!) xs) (min_pos (\<lambda>s. s) xs)"

definition elect :: "rat \<Rightarrow> outbox_db \<Rightarrow> str option" where
  "elect live_after db =
     (case least_scope (live_scopes True live_after db) of
        Some s \<Rightarrow> Some s
      | None \<Rightarrow> least_scope (live_scopes False live_after db))"

definition due_now :: "rat \<Rightarrow> notification \<Rightarrow> bool" where
  "due_now now r \<longleftrightarrow> nt_delivered r = None \<and> nt_due r \<le> now"

definition select_row :: "str \<Rightarrow> bool \<Rightarrow> rat \<Rightarrow> outbox_db \<Rightarrow> notification option \<times> outbox_db" where
  "select_row scope human now db =
     (let db1 = beat scope human now db
      in (if elect (now - dispatcher_lease) db1 = Some scope then find (due_now now) (db_rows db1) else None, db1))"

definition pump_select ::
  "tx \<Rightarrow> rat \<Rightarrow> bool \<Rightarrow> core_outbox \<Rightarrow> outbox_db \<Rightarrow> notification option option \<times> core_outbox \<times> outbox_db"
where
  "pump_select t now human c db =
     (case transact t (select_row (ox_scope c) human now) c db of
        (None, c1, db1) \<Rightarrow> (None, c1, db1)
      | (Some r, c1, db1) \<Rightarrow> (Some r, c1\<lparr>ox_offer := map_option (\<lambda>x. (x, now)) r\<rparr>, db1))"

datatype send_outcome = Sent_accepted | Sent_refused | Send_raised str

definition retry_delay :: "nat \<Rightarrow> rat" where
  "retry_delay attempts = min 300 (10 * 2 ^ min attempts 5)"

definition retry_row :: "notification \<Rightarrow> rat \<Rightarrow> str \<Rightarrow> outbox_db \<Rightarrow> outbox_db" where
  "retry_row n now err = update_rows (\<lambda>r. nt_id r = nt_id n \<and> nt_delivered r = None)
     (\<lambda>r. r\<lparr>nt_attempts := Suc (nt_attempts r), nt_due := now + retry_delay (nt_attempts n), nt_error := err\<rparr>)"

definition send_error ::
  "send_outcome \<Rightarrow> rat \<Rightarrow> tx \<Rightarrow> notification \<Rightarrow> core_outbox \<Rightarrow> outbox_db \<Rightarrow> str option \<times> core_outbox \<times> outbox_db"
where
  "send_error outcome now_ack t n c db =
     (case outcome of
        Sent_accepted \<Rightarrow>
          (case acknowledge t now_ack (nt_id n) c db of
             (Some _, c1, db1) \<Rightarrow> (None, c1, db1)
           | (None, c1, db1) \<Rightarrow> (Some (tx_error t), c1, db1))
      | Sent_refused \<Rightarrow> (Some (u ''awaiting interface acknowledgement''), c, db)
      | Send_raised e \<Rightarrow> (Some e, c, db))"

definition pump_finish ::
  "send_outcome \<Rightarrow> rat \<Rightarrow> tx \<Rightarrow> tx \<Rightarrow> core_outbox \<Rightarrow> outbox_db \<Rightarrow> core_outbox \<times> outbox_db"
where
  "pump_finish outcome now_ack t_ack t_retry c db =
     (case ox_offer c of
        None \<Rightarrow> (c, db)
      | Some (n, now) \<Rightarrow>
          (case send_error outcome now_ack t_ack n (c\<lparr>ox_offer := None\<rparr>) db of
             (None, c1, db1) \<Rightarrow> (c1, db1)
           | (Some err, c1, db1) \<Rightarrow> snd (transact t_retry (\<lambda>db. ((), retry_row n now err db)) c1 db1)))"

text \<open>One undisturbed \<open>pump\<close>; its first result is the row it offered, the code's \<open>True\<close>.\<close>

definition pump ::
  "(notification \<Rightarrow> send_outcome) \<Rightarrow> rat \<Rightarrow> tx \<Rightarrow> rat \<Rightarrow> bool \<Rightarrow> core_outbox \<Rightarrow> outbox_db
     \<Rightarrow> notification option option \<times> core_outbox \<times> outbox_db"
where
  "pump sender now_ack t now human c db =
     (case pump_select t now human c db of
        (Some (Some n), c1, db1) \<Rightarrow> (Some (Some n), pump_finish (sender n) now_ack t t c1 db1)
      | (r, c1, db1) \<Rightarrow> (r, c1, db1))"

section \<open>Start and shutdown\<close>

definition start_outbox :: "tx \<Rightarrow> rat \<Rightarrow> bool \<Rightarrow> core_outbox \<Rightarrow> outbox_db \<Rightarrow> unit option \<times> core_outbox \<times> outbox_db" where
  "start_outbox t now human c = transact t (\<lambda>db. ((), beat (ox_scope c) human now db)) c"

definition close_outbox :: "tx \<Rightarrow> core_outbox \<Rightarrow> outbox_db \<Rightarrow> core_outbox \<times> outbox_db" where
  "close_outbox t c db =
     (if ox_ready c then
        snd (transact t (\<lambda>db. ((), db\<lparr>db_dispatchers := ddel (ox_scope c) (db_dispatchers db)\<rparr>)) c db)
      else (c, db))"

section \<open>Histories of all COREs\<close>

record outbox_world =
  ow_db :: outbox_db
  ow_cores :: "nat \<Rightarrow> core_outbox"

datatype outbox_op =
    Ob_open "str option" "str option"
  | Ob_enqueue tx rat bool "str option" str str
  | Ob_acknowledge tx rat str
  | Ob_select tx rat bool
  | Ob_finish send_outcome rat tx tx
  | Ob_start tx rat bool
  | Ob_close tx

definition core_step :: "outbox_op \<Rightarrow> core_outbox \<Rightarrow> outbox_db \<Rightarrow> core_outbox \<times> outbox_db" where
  "core_step x c db =
     (case x of
        Ob_open scope owner \<Rightarrow> (new_outbox scope owner, db)
      | Ob_enqueue t now human given fresh txt \<Rightarrow> snd (enqueue_note t now human given fresh txt c db)
      | Ob_acknowledge t now ident \<Rightarrow> snd (acknowledge t now ident c db)
      | Ob_select t now human \<Rightarrow> snd (pump_select t now human c db)
      | Ob_finish outcome now_ack t_ack t_retry \<Rightarrow> pump_finish outcome now_ack t_ack t_retry c db
      | Ob_start t now human \<Rightarrow> snd (start_outbox t now human c db)
      | Ob_close t \<Rightarrow> close_outbox t c db)"

definition outbox_step :: "outbox_world \<Rightarrow> nat \<times> outbox_op \<Rightarrow> outbox_world" where
  "outbox_step s i =
     (case core_step (snd i) (ow_cores s (fst i)) (ow_db s) of
        (c, db) \<Rightarrow> \<lparr>ow_db = db, ow_cores = (ow_cores s)(fst i := c)\<rparr>)"

text \<open>The step tells the table that the notification was accepted.\<close>

definition accepts :: "str \<Rightarrow> outbox_world \<Rightarrow> nat \<times> outbox_op \<Rightarrow> bool" where
  "accepts ident s i =
     (case snd i of
        Ob_acknowledge t now x \<Rightarrow> x = ident \<and> tx_commits t
      | Ob_finish Sent_accepted _ t_ack _ \<Rightarrow>
          (case ox_offer (ow_cores s (fst i)) of Some (n, _) \<Rightarrow> nt_id n = ident \<and> tx_commits t_ack | None \<Rightarrow> False)
      | _ \<Rightarrow> False)"

fun accepted_in :: "str \<Rightarrow> outbox_world \<Rightarrow> (nat \<times> outbox_op) list \<Rightarrow> bool" where
  "accepted_in ident s [] = False"
| "accepted_in ident s (i # is) = (accepts ident s i \<or> accepted_in ident (outbox_step s i) is)"

end
