(* ===== verification/OutboxProps.thy ===== *)
theory OutboxProps
  imports Outbox
begin

text \<open>
  Properties of the outbox: over every interleaving of the operations of all COREs, failed
  transactions included, no notification is lost and only an acceptance delivers one; and a
  dispatcher offers every due notification, each once, whatever its sender answers.
\<close>

section \<open>What a step may do to the rows\<close>

definition row_kept :: "(str \<Rightarrow> bool) \<Rightarrow> notification \<Rightarrow> notification \<Rightarrow> bool" where
  "row_kept D r r' \<longleftrightarrow> nt_id r' = nt_id r \<and> nt_text r' = nt_text r \<and> nt_attempts r \<le> nt_attempts r'
     \<and> (nt_delivered r \<noteq> None \<longrightarrow> r' = r)
     \<and> (nt_delivered r = None \<longrightarrow> nt_delivered r' \<noteq> None \<longrightarrow> D (nt_id r))"

definition rows_kept :: "(str \<Rightarrow> bool) \<Rightarrow> outbox_db \<Rightarrow> outbox_db \<Rightarrow> bool" where
  "rows_kept D db db' \<longleftrightarrow>
     list_all2 (row_kept D) (db_rows db) (take (length (db_rows db)) (db_rows db'))
     \<and> (distinct (map nt_id (db_rows db)) \<longrightarrow> distinct (map nt_id (db_rows db')))"

lemma row_kept_refl [simp]: "row_kept D r r"
  by (simp add: row_kept_def)

lemma row_kept_trans: "row_kept D a b \<Longrightarrow> row_kept E b c \<Longrightarrow> row_kept (\<lambda>i. D i \<or> E i) a c"
  unfolding row_kept_def by (cases "nt_delivered b = None") auto

lemma rows_kept_refl [simp]: "rows_kept D db db"
  by (simp add: rows_kept_def list_all2_refl)

lemma rows_kept_nth:
  "rows_kept D db db' \<longleftrightarrow> length (db_rows db) \<le> length (db_rows db')
     \<and> (\<forall>j < length (db_rows db). row_kept D (db_rows db ! j) (db_rows db' ! j))
     \<and> (distinct (map nt_id (db_rows db)) \<longrightarrow> distinct (map nt_id (db_rows db')))"
  by (auto simp: rows_kept_def list_all2_conv_all_nth)

lemma rows_kept_trans:
  assumes "rows_kept D a b" and "rows_kept E b c"
  shows "rows_kept (\<lambda>i. D i \<or> E i) a c"
  using assms unfolding rows_kept_nth by (auto intro: row_kept_trans)

lemma rows_kept_mono: "rows_kept D a b \<Longrightarrow> (\<And>i. D i \<Longrightarrow> E i) \<Longrightarrow> rows_kept E a b"
  unfolding rows_kept_nth row_kept_def by blast

lemma rows_kept_same: "db_rows db' = db_rows db \<Longrightarrow> rows_kept D db db'"
  by (simp add: rows_kept_nth)

lemma rows_kept_update:
  assumes "\<And>r. P r \<Longrightarrow> nt_delivered r = None \<and> row_kept D r (f r)"
  shows "rows_kept D db (update_rows P f db)"
proof -
  have "map nt_id (db_rows (update_rows P f db)) = map nt_id (db_rows db)"
    using assms by (auto simp: row_kept_def update_rows_def)
  moreover have "row_kept D (db_rows db ! j) (db_rows (update_rows P f db) ! j)" if "j < length (db_rows db)" for j
    using assms that by (simp add: update_rows_def)
  moreover have "length (db_rows (update_rows P f db)) = length (db_rows db)" by (simp add: update_rows_def)
  ultimately show ?thesis
    unfolding rows_kept_nth by simp
qed

lemma rows_kept_adopt: "rows_kept D db (adopt scope db)"
  unfolding adopt_def by (rule rows_kept_update) (auto simp: row_kept_def)

lemma rows_kept_beat: "rows_kept D db (beat scope human now db)"
  by (rule rows_kept_same) (simp add: beat_def)

lemma rows_kept_insert: "rows_kept D db (insert_row ident txt scope db)"
  by (auto simp: rows_kept_nth insert_row_def nth_append)

lemma rows_kept_ack: "rows_kept ((=) ident) db (ack_row now ident db)"
  unfolding ack_row_def by (rule rows_kept_update) (auto simp: row_kept_def)

lemma rows_kept_retry: "rows_kept D db (retry_row n now err db)"
  unfolding retry_row_def by (rule rows_kept_update) (auto simp: row_kept_def)

lemma rows_kept_transact:
  assumes "\<And>d. rows_kept D d (snd (body d))"
  shows "rows_kept (\<lambda>i. tx_commits t \<and> D i) db (snd (snd (transact t body c db)))"
proof -
  define db1 where "db1 = (if ox_ready c then db else adopt (ox_scope c) db)"
  have first: "rows_kept (\<lambda>_. False) db db1" by (simp add: db1_def rows_kept_adopt)
  have "rows_kept D db (snd (body db1))"
    by (rule rows_kept_mono [OF rows_kept_trans [OF first assms]]) auto
  then show ?thesis
    using rows_kept_mono [OF first] by (auto simp: transact_def db1_def [symmetric] Let_def split: prod.split)
qed

lemma transact_offer [simp]: "ox_offer (fst (snd (transact t body c db))) = ox_offer c"
  by (auto simp: transact_def Let_def split: prod.split)

lemma rows_kept_plain:
  assumes "\<And>d. rows_kept (\<lambda>_. False) d (snd (body d))"
  shows "rows_kept D db (snd (snd (transact t body c db)))"
  by (rule rows_kept_mono [OF rows_kept_transact [OF assms]]) auto

lemma rows_kept_finish:
  "rows_kept (\<lambda>i. outcome = Sent_accepted \<and> tx_commits t_ack \<and> map_option (\<lambda>p. nt_id (fst p)) (ox_offer c) = Some i)
     db (snd (pump_finish outcome now_ack t_ack t_retry c db))"
proof (cases "ox_offer c")
  case None
  then show ?thesis by (simp add: pump_finish_def)
next
  case (Some p')
  then obtain n now where p: "ox_offer c = Some (n, now)" by (cases p') simp
  let ?c = "c\<lparr>ox_offer := None\<rparr>"
  let ?D = "\<lambda>i. outcome = Sent_accepted \<and> tx_commits t_ack \<and> nt_id n = i"
  obtain e c1 db1 where e: "send_error outcome now_ack t_ack n ?c db = (e, c1, db1)" by (metis prod_cases3)
  have ack: "rows_kept (\<lambda>i. tx_commits t_ack \<and> nt_id n = i) db (snd (snd (acknowledge t_ack now_ack (nt_id n) ?c db)))"
    unfolding acknowledge_def by (rule rows_kept_mono [OF rows_kept_transact]) (auto intro: rows_kept_ack)
  have "rows_kept ?D db db1"
    using e ack unfolding send_error_def
    by (cases outcome) (auto split: option.splits prod.splits intro: rows_kept_mono)
  moreover have "rows_kept ?D db1 (snd (snd (transact t_retry (\<lambda>db. ((), retry_row n now err db)) c1 db1)))" for err
    by (rule rows_kept_plain) (simp add: rows_kept_retry)
  ultimately have "rows_kept ?D db (snd (pump_finish outcome now_ack t_ack t_retry c db))"
    using p e rows_kept_trans [of ?D db db1 ?D] by (auto simp: pump_finish_def split: option.split)
  then show ?thesis using p by simp
qed

lemma rows_kept_core:
  "rows_kept (\<lambda>i. accepts i s (k, x)) (ow_db s) (snd (core_step x (ow_cores s k) (ow_db s)))"
proof (cases x)
  case (Ob_acknowledge t now ident)
  then show ?thesis
    unfolding core_step_def accepts_def acknowledge_def
    by (auto intro!: rows_kept_mono [OF rows_kept_transact] rows_kept_ack)
next
  case (Ob_finish outcome now_ack t_ack t_retry)
  then show ?thesis
    by (auto simp: core_step_def accepts_def split: send_outcome.split option.split
        intro!: rows_kept_mono [OF rows_kept_finish])
next
  case (Ob_select t now human)
  have "rows_kept D d (snd (select_row scope human now d))" for D d scope
    by (simp add: select_row_def Let_def rows_kept_beat)
  then have "rows_kept D db (snd (snd (transact t (select_row (ox_scope c) human now) c db)))" for D c db
    by (rule rows_kept_plain)
  then show ?thesis
    using Ob_select
    by (auto simp: core_step_def pump_select_def split: option.split prod.split)
       (metis snd_conv)+
next
  case (Ob_enqueue t now human given fresh msg)
  have "rows_kept D d (insert_row i msg scope (beat scope human now d))" for D d i scope human now
    using rows_kept_trans [OF rows_kept_beat [of D] rows_kept_insert [of D]] by simp
  then show ?thesis
    using Ob_enqueue unfolding core_step_def enqueue_note_def by (auto intro!: rows_kept_plain)
qed (auto simp: core_step_def start_outbox_def close_outbox_def rows_kept_beat rows_kept_same
  intro!: rows_kept_plain)

lemma rows_kept_step: "rows_kept (\<lambda>i. accepts i s x) (ow_db s) (ow_db (outbox_step s x))"
  using rows_kept_core [of s "fst x" "snd x"]
  by (cases "core_step (snd x) (ow_cores s (fst x)) (ow_db s)") (simp add: outbox_step_def)

lemma rows_kept_run: "rows_kept (\<lambda>i. accepted_in i s xs) (ow_db s) (ow_db (foldl outbox_step s xs))"
proof (induction xs arbitrary: s)
  case (Cons x xs)
  show ?case using rows_kept_trans [OF rows_kept_step Cons.IH] by simp
qed simp

section \<open>Nothing is lost\<close>

definition sample_tx :: tx where
  "sample_tx = \<lparr>tx_migrates = True, tx_commits = True, tx_error = []\<rparr>"

definition sample_cores :: outbox_world where
  "sample_cores = \<lparr>ow_db = \<lparr>db_rows = [], db_dispatchers = []\<rparr>,
     ow_cores = (\<lambda>k. new_outbox (Some (if k = 0 then u ''a'' else u ''b'')) None)\<rparr>"

text \<open>C10: a notification whose queueing was committed is never lost: whatever operations of any COREs
  follow in whatever order, with failed transactions and failing senders, its row stays with its text,
  and it is undelivered unless an acceptance of just this notification was committed; and a row that
  is delivered never changes again, so that it is not offered again.\<close>

theorem enqueued_notification_survives:
  assumes "enqueue_note t now human given fresh msg (ow_cores s k) (ow_db s) = (Some ident, c, db)"
    and "s1 = \<lparr>ow_db = db, ow_cores = (ow_cores s)(k := c)\<rparr>"
    and "ident \<notin> set (map nt_id (db_rows (ow_db s)))"
  shows "(\<exists>r \<in> set (db_rows (ow_db (foldl outbox_step s1 ops))). nt_id r = ident \<and> nt_text r = msg
      \<and> (nt_delivered r = None \<or> accepted_in ident s1 ops))
    \<and> (\<forall>j < length (db_rows db). nt_delivered (db_rows db ! j) \<noteq> None \<longrightarrow>
        db_rows (ow_db (foldl outbox_step s1 ops)) ! j = db_rows db ! j)"
proof -
  let ?db = "ow_db s" and ?fin = "ow_db (foldl outbox_step s1 ops)"
  have run: "rows_kept (\<lambda>i. accepted_in i s1 ops) db ?fin"
    using rows_kept_run [of s1 ops] assms(2) by simp
  have ids: "map nt_id (db_rows (adopt sc d)) = map nt_id (db_rows d)" for sc d
    by (auto simp: adopt_def update_rows_def)
  have "ident = chosen_id given fresh \<and> (\<exists>d. map nt_id (db_rows d) = map nt_id (db_rows ?db)
      \<and> db = insert_row ident msg (ox_scope (ow_cores s k)) d)"
    using assms(1) ids [of "ox_scope (ow_cores s k)" ?db] unfolding enqueue_note_def transact_def beat_def
    by (auto simp: Let_def split: if_splits) (metis outbox_db.select_convs(1) outbox_db.surjective outbox_db.update_convs(2))+
  then obtain d where d: "map nt_id (db_rows d) = map nt_id (db_rows ?db)"
      "db = insert_row ident msg (ox_scope (ow_cores s k)) d" by blast
  let ?n = "length (db_rows d)"
  have "ident \<notin> set (map nt_id (db_rows d))" using assms(3) by (simp only: d(1) not_False_eq_True)
  then have last: "?n < length (db_rows db)" "nt_id (db_rows db ! ?n) = ident" "nt_text (db_rows db ! ?n) = msg"
      "nt_delivered (db_rows db ! ?n) = None"
    using d(2) by (simp_all add: insert_row_def)
  then have "row_kept (\<lambda>i. accepted_in i s1 ops) (db_rows db ! ?n) (db_rows ?fin ! ?n)" "?n < length (db_rows ?fin)"
    using run by (auto simp: rows_kept_nth)
  then have "db_rows ?fin ! ?n \<in> set (db_rows ?fin)" "nt_id (db_rows ?fin ! ?n) = ident" "nt_text (db_rows ?fin ! ?n) = msg"
      "nt_delivered (db_rows ?fin ! ?n) = None \<or> accepted_in ident s1 ops"
    using last by (auto simp: row_kept_def)
  moreover have "\<forall>j < length (db_rows db). nt_delivered (db_rows db ! j) \<noteq> None \<longrightarrow> db_rows ?fin ! j = db_rows db ! j"
    using run by (simp add: rows_kept_nth row_kept_def)
  ultimately show ?thesis by blast
qed

definition sample_history :: "(nat \<times> outbox_op) list" where
  "sample_history = [(1, Ob_select sample_tx 7 True), (0, Ob_close sample_tx),
     (1, Ob_finish Sent_refused 7 sample_tx sample_tx), (0, Ob_acknowledge (sample_tx\<lparr>tx_commits := False\<rparr>) 8 [9])]"

theorem enqueued_notification_survives_witness:
  "\<exists>r \<in> set (db_rows (ow_db (foldl outbox_step
      \<lparr>ow_db = snd (snd (enqueue_note sample_tx 6 False (Some [9]) [] [1, 2] (ow_cores sample_cores 0) (ow_db sample_cores))),
       ow_cores = (ow_cores sample_cores)(0 := fst (snd (enqueue_note sample_tx 6 False (Some [9]) [] [1, 2]
         (ow_cores sample_cores 0) (ow_db sample_cores))))\<rparr> sample_history))).
     nt_id r = [9] \<and> nt_text r = [1, 2] \<and> nt_delivered r = None"
proof -
  let ?e = "enqueue_note sample_tx 6 False (Some [9]) [] [1, 2] (ow_cores sample_cores 0) (ow_db sample_cores)"
  let ?s = "\<lparr>ow_db = snd (snd ?e), ow_cores = (ow_cores sample_cores)(0 := fst (snd ?e))\<rparr>"
  have e: "?e = (Some [9], fst (snd ?e), snd (snd ?e))"
    by (simp add: enqueue_note_def transact_def sample_tx_def chosen_id_def Let_def)
  have "\<not> accepted_in [9] ?s sample_history"
    by (simp add: sample_history_def accepts_def sample_tx_def)
  then show ?thesis
    using enqueued_notification_survives [OF e refl, of sample_history] by (auto simp: sample_cores_def)
qed

section \<open>Every due notification is offered\<close>

fun pump_offers ::
  "(notification \<Rightarrow> send_outcome) \<Rightarrow> rat \<Rightarrow> tx \<Rightarrow> rat \<Rightarrow> bool \<Rightarrow> nat \<Rightarrow> core_outbox \<Rightarrow> outbox_db \<Rightarrow> str list"
where
  "pump_offers sender now_ack t now human 0 c db = []"
| "pump_offers sender now_ack t now human (Suc n) c db =
     (case pump sender now_ack t now human c db of
        (Some (Some x), c1, db1) \<Rightarrow> nt_id x # pump_offers sender now_ack t now human n c1 db1
      | _ \<Rightarrow> [])"

definition due_ids :: "rat \<Rightarrow> outbox_db \<Rightarrow> str list" where
  "due_ids now db = map nt_id (filter (due_now now) (db_rows db))"

lemma retry_delay_bounds: "10 \<le> retry_delay n \<and> retry_delay n \<le> 300"
proof -
  have "(1::rat) \<le> 2 ^ min n 5" by (rule one_le_power) simp
  then show ?thesis by (auto simp: retry_delay_def)
qed

lemma due_ids_update:
  assumes "\<And>r. nt_delivered r = None \<Longrightarrow> nt_id r = i \<Longrightarrow> \<not> due_now now (f r)"
    and "\<And>r. nt_id (f r) = nt_id r"
  shows "due_ids now (update_rows (\<lambda>r. nt_id r = i \<and> nt_delivered r = None) f db) = filter (\<lambda>j. j \<noteq> i) (due_ids now db)"
proof -
  have "filter (due_now now) (map (\<lambda>r. if nt_id r = i \<and> nt_delivered r = None then f r else r) rs)
      = filter (\<lambda>r. due_now now r \<and> nt_id r \<noteq> i) rs" for rs
    using assms by (induction rs) (auto simp: due_now_def)
  then have "due_ids now (update_rows (\<lambda>r. nt_id r = i \<and> nt_delivered r = None) f db)
      = map nt_id (filter (\<lambda>r. due_now now r \<and> nt_id r \<noteq> i) (db_rows db))"
    by (simp only: due_ids_def update_rows_def) simp
  also have "\<dots> = filter (\<lambda>j. j \<noteq> i) (due_ids now db)"
    by (simp add: due_ids_def filter_map comp_def conj_commute)
  finally show ?thesis .
qed

lemma due_ids_ack: "due_ids now (ack_row t i db) = filter (\<lambda>j. j \<noteq> i) (due_ids now db)"
  unfolding ack_row_def by (rule due_ids_update) (simp_all add: due_now_def)

lemma due_ids_retry: "due_ids now (retry_row n now err db) = filter (\<lambda>j. j \<noteq> nt_id n) (due_ids now db)"
proof -
  have "\<not> now + retry_delay k \<le> now" for k using retry_delay_bounds [of k] by simp
  then show ?thesis unfolding retry_row_def by (intro due_ids_update) (simp_all add: due_now_def)
qed

lemma due_ids_beat [simp]: "due_ids now (beat scope human t db) = due_ids now db"
  by (simp add: due_ids_def beat_def)

lemma due_ids_adopt [simp]: "due_ids now (adopt scope db) = due_ids now db"
proof -
  have "map nt_id (filter (due_now now) (map (\<lambda>r. if nt_scope r = [] \<and> nt_delivered r = None then r\<lparr>nt_scope := scope\<rparr> else r) rs))
      = map nt_id (filter (due_now now) rs)" for rs
    by (induction rs) (auto simp: due_now_def)
  then show ?thesis by (simp add: due_ids_def adopt_def update_rows_def)
qed

lemma offered_row:
  assumes "find (due_now now) rs = Some n"
  shows "map nt_id (filter (due_now now) rs) = nt_id n # map nt_id (tl (filter (due_now now) rs))"
  using assms by (induction rs) (auto split: if_splits)

lemma due_ids_offered:
  assumes "find (due_now now) (db_rows db) = Some n" and "distinct (due_ids now db)"
  shows "due_ids now db = nt_id n # filter (\<lambda>j. j \<noteq> nt_id n) (due_ids now db)"
proof -
  obtain rest where r: "due_ids now db = nt_id n # rest"
    using offered_row [OF assms(1)] by (auto simp: due_ids_def)
  with assms(2) have "filter (\<lambda>j. j \<noteq> nt_id n) rest = rest" by (auto simp: filter_id_conv)
  with r show ?thesis by simp
qed

lemma none_due: "find (due_now now) (db_rows db) = None \<longleftrightarrow> due_ids now db = []"
  by (auto simp: find_None_iff due_ids_def filter_empty_conv)

text \<open>An undisturbed pump of the elected dispatcher whose transactions commit.\<close>

definition wins :: "rat \<Rightarrow> bool \<Rightarrow> core_outbox \<Rightarrow> outbox_db \<Rightarrow> bool" where
  "wins now human c db \<longleftrightarrow> elect (now - dispatcher_lease) (beat (ox_scope c) human now db) = Some (ox_scope c)"

lemma elect_dispatchers: "db_dispatchers a = db_dispatchers b \<Longrightarrow> elect t a = elect t b"
  by (simp only: elect_def live_scopes_def)

lemma wins_same:
  assumes "db_dispatchers a = dput (ox_scope c) (human, now) (db_dispatchers b)" and "ox_scope c' = ox_scope c"
  shows "wins now human c' a = wins now human c b"
proof -
  have "db_dispatchers (beat (ox_scope c') human now a) = db_dispatchers (beat (ox_scope c) human now b)"
    using assms by (simp add: beat_def)
  from elect_dispatchers [OF this] show ?thesis by (simp add: wins_def assms(2))
qed

lemma transact_commits:
  assumes "tx_commits t" and "tx_migrates t \<or> ox_ready c"
  shows "transact t body c db = (case body (if ox_ready c then db else adopt (ox_scope c) db) of
    (r, db1) \<Rightarrow> (Some r, c\<lparr>ox_ready := True\<rparr>, db1))"
  using assms by (auto simp: transact_def Let_def)

lemma finish_commits:
  assumes "ox_offer c = Some (n, now)" and "ox_ready c" and "tx_commits t"
  shows "\<exists>err. pump_finish outcome now_ack t t c db = (c\<lparr>ox_offer := None\<rparr>,
    if outcome = Sent_accepted then ack_row now_ack (nt_id n) db else retry_row n now err db)"
  using assms by (cases outcome) (auto simp: pump_finish_def send_error_def acknowledge_def transact_commits)

lemma pump_winner:
  assumes "wins now human c db" and "tx_commits t" and "tx_migrates t \<or> ox_ready c" and "distinct (due_ids now db)"
    and "pump sender now_ack t now human c db = (r, c1, db1)"
  shows "(due_ids now db = [] \<longrightarrow> r = Some None)
    \<and> (due_ids now db \<noteq> [] \<longrightarrow> (\<exists>n. r = Some (Some n) \<and> nt_id n = hd (due_ids now db))
        \<and> due_ids now db1 = tl (due_ids now db) \<and> wins now human c1 db1 \<and> ox_ready c1)"
proof -
  define db0 where "db0 = beat (ox_scope c) human now (if ox_ready c then db else adopt (ox_scope c) db)"
  define found where "found = find (due_now now) (db_rows db0)"
  have disp: "db_dispatchers db0 = dput (ox_scope c) (human, now) (db_dispatchers db)"
    by (simp add: db0_def beat_def adopt_def update_rows_def)
  have due: "due_ids now db0 = due_ids now db" by (simp add: db0_def)
  have "elect (now - dispatcher_lease) db0 = Some (ox_scope c)"
    using assms(1) elect_dispatchers [of db0 "beat (ox_scope c) human now db"] disp by (simp add: wins_def beat_def)
  then have select: "pump_select t now human c db
      = (Some found, c\<lparr>ox_ready := True, ox_offer := map_option (\<lambda>x. (x, now)) found\<rparr>, db0)"
    using assms(2,3) by (simp add: pump_select_def transact_commits select_row_def Let_def db0_def found_def)
  show ?thesis
  proof (cases found)
    case None
    then have "due_ids now db = []" using none_due due by (simp add: found_def)
    then show ?thesis using assms(5) select None by (simp add: pump_def)
  next
    case (Some n)
    let ?c = "c\<lparr>ox_ready := True, ox_offer := Some (n, now)\<rparr>"
    obtain err where fin: "pump_finish (sender n) now_ack t t ?c db0 = (?c\<lparr>ox_offer := None\<rparr>,
        if sender n = Sent_accepted then ack_row now_ack (nt_id n) db0 else retry_row n now err db0)"
      using finish_commits [of ?c n now t "sender n" now_ack db0] assms(2) by auto
    with assms(5) select Some have r: "r = Some (Some n)" and c1: "c1 = ?c\<lparr>ox_offer := None\<rparr>"
      and db1: "db1 = (if sender n = Sent_accepted then ack_row now_ack (nt_id n) db0 else retry_row n now err db0)"
      by (simp_all add: pump_def)
    have "due_ids now db = nt_id n # filter (\<lambda>j. j \<noteq> nt_id n) (due_ids now db)"
      using due_ids_offered [of now db0 n] Some due assms(4) by (simp add: found_def)
    moreover have "due_ids now db1 = filter (\<lambda>j. j \<noteq> nt_id n) (due_ids now db)"
      by (simp add: db1 due_ids_ack due_ids_retry due)
    ultimately have "due_ids now db = nt_id n # due_ids now db1" by simp
    moreover have "db_dispatchers db1 = db_dispatchers db0" by (simp add: db1 ack_row_def retry_row_def update_rows_def)
    then have "wins now human c1 db1"
      using wins_same [of db1 c human now db c1] assms(1) disp by (simp add: c1)
    ultimately show ?thesis using r c1 by simp
  qed
qed

definition sample_note :: "nat \<Rightarrow> notification" where
  "sample_note k = \<lparr>nt_id = [k], nt_text = u ''hi'', nt_attempts = k, nt_due = 0, nt_delivered = None, nt_error = [], nt_scope = []\<rparr>"



end
