(* ===== verification/RemoteClient.thy ===== *)
theory RemoteClient
  imports EngineCalls
begin

text \<open>
  The side of the COREs of the shared task service (task_system/client.py): the socket protocol of
  \<open>TaskRPC\<close>, the proxies of the stores and of the runtime, and the worker state of
  \<open>RemoteSystemRuntime\<close> (accepted offers, completions kept until acknowledged, polling). The
  service is reached through the parameter \<open>rpc\<close>, a state transformer on the state \<open>'s\<close> behind the
  socket; \<open>wire_call\<close> instantiates it with the model of the service, over a socket that may lose the
  request or the reply. A set of tokens is a list; the monotonic clock is an argument. The process
  identity the service reads off the socket is the field \<open>rc_peer\<close>.
\<close>

section \<open>The socket protocol\<close>

datatype client_error =
    Service_unavailable
  | Task_failure
  | Event_failure
  | No_result
  | Not_an_object

definition max_response :: nat where
  "max_response = 1048576"

text \<open>The answer of one call: \<open>raw\<close> is what \<open>readline\<close> returned, \<open>None\<close> any failure of the socket.\<close>

definition rpc_answer :: "(nat list \<Rightarrow> json option) \<Rightarrow> nat list option \<Rightarrow> client_error + json" where
  "rpc_answer loads raw =
     (case raw of
        None \<Rightarrow> Inl Service_unavailable
      | Some line \<Rightarrow>
          if line = [] \<or> last line \<noteq> 10 \<or> length line > max_response then Inl Service_unavailable
          else (case loads line of
                  None \<Rightarrow> Inl Service_unavailable
                | Some (JObj ps) \<Rightarrow>
                    if \<not> (case dget ps (u ''ok'') of None \<Rightarrow> False | Some v \<Rightarrow> truthy v) then
                      Inl (if dget ps (u ''type'') = Some (JStr (u ''EventStoreError'')) then Event_failure else Task_failure)
                    else (case dget ps (u ''result'') of None \<Rightarrow> Inl No_result | Some v \<Rightarrow> Inr v)
                | Some _ \<Rightarrow> Inl Not_an_object))"

section \<open>The proxies\<close>

type_synonym 's rpc = "request \<Rightarrow> 's \<Rightarrow> (client_error + reply) \<times> 's"

text \<open>A reply of the wrong type cannot be read as a record: \<open>Not_an_object\<close> stands for the exception.\<close>

definition reading :: "(reply \<Rightarrow> 'a option) \<Rightarrow> (client_error + reply) \<times> 's \<Rightarrow> (client_error + 'a) \<times> 's" where
  "reading f r =
     (case r of
        (Inl e, s) \<Rightarrow> (Inl e, s)
      | (Inr v, s) \<Rightarrow> (case f v of None \<Rightarrow> (Inl Not_an_object, s) | Some x \<Rightarrow> (Inr x, s)))"

definition task_record :: "reply \<Rightarrow> task option option" where
  "task_record v = (case v of RNone \<Rightarrow> Some None | RTask t \<Rightarrow> Some (Some t) | _ \<Rightarrow> None)"

definition event_record :: "reply \<Rightarrow> binding option option" where
  "event_record v = (case v of RNone \<Rightarrow> Some None | RBinding b \<Rightarrow> Some (Some b) | _ \<Rightarrow> None)"

definition task_list :: "reply \<Rightarrow> task list option" where
  "task_list v = (case v of RTasks ts \<Rightarrow> Some ts | _ \<Rightarrow> None)"

definition remote_get :: "'s rpc \<Rightarrow> int \<Rightarrow> 's \<Rightarrow> (client_error + task option) \<times> 's" where
  "remote_get rpc i s = reading task_record (rpc (TasksGet i) s)"

definition remote_require :: "'s rpc \<Rightarrow> int \<Rightarrow> 's \<Rightarrow> (client_error + task option) \<times> 's" where
  "remote_require rpc i s = reading task_record (rpc (TasksRequire i) s)"

definition remote_list :: "'s rpc \<Rightarrow> 's \<Rightarrow> (client_error + task list) \<times> 's" where
  "remote_list rpc s = reading task_list (rpc TasksList s)"

definition remote_create :: "'s rpc \<Rightarrow> task_args \<Rightarrow> 's \<Rightarrow> (client_error + task option) \<times> 's" where
  "remote_create rpc a s = reading task_record (rpc (TasksCreate a) s)"

definition remote_delete :: "'s rpc \<Rightarrow> int \<Rightarrow> 's \<Rightarrow> (client_error + reply) \<times> 's" where
  "remote_delete rpc i s = rpc (TasksDelete i) s"

definition remote_set_enabled :: "'s rpc \<Rightarrow> int \<Rightarrow> bool \<Rightarrow> 's \<Rightarrow> (client_error + task option) \<times> 's" where
  "remote_set_enabled rpc i on s = reading task_record (rpc (TasksSetEnabled i on) s)"

definition remote_set_period :: "'s rpc \<Rightarrow> int \<Rightarrow> pyfloat \<Rightarrow> 's \<Rightarrow> (client_error + task option) \<times> 's" where
  "remote_set_period rpc i p s = reading task_record (rpc (TasksSetPeriod i p) s)"

definition remote_set_executor :: "'s rpc \<Rightarrow> int \<Rightarrow> str \<Rightarrow> 's \<Rightarrow> (client_error + task option) \<times> 's" where
  "remote_set_executor rpc i x s = reading task_record (rpc (TasksSetExecutor i x) s)"

definition remote_status_text :: "'s rpc \<Rightarrow> 's \<Rightarrow> (client_error + reply) \<times> 's" where
  "remote_status_text rpc s = rpc StatusText s"

definition remote_resolve :: "'s rpc \<Rightarrow> str \<Rightarrow> str \<Rightarrow> 's \<Rightarrow> (client_error + binding option) \<times> 's" where
  "remote_resolve rpc source name s = reading event_record (rpc (EventsResolve source name) s)"

definition remote_register :: "'s rpc \<Rightarrow> int \<Rightarrow> str \<Rightarrow> binding_args \<Rightarrow> 's \<Rightarrow> (client_error + binding option) \<times> 's" where
  "remote_register rpc i description ba s = reading event_record (rpc (EventsRegister i description ba) s)"

definition remote_unregister :: "'s rpc \<Rightarrow> int \<Rightarrow> 's \<Rightarrow> (client_error + reply) \<times> 's" where
  "remote_unregister rpc i s = rpc (EventsUnregister i) s"

definition remote_bindings :: "'s rpc \<Rightarrow> 's \<Rightarrow> (client_error + binding list) \<times> 's" where
  "remote_bindings rpc s = reading (\<lambda>v. case v of RBindings bs \<Rightarrow> Some bs | _ \<Rightarrow> None) (rpc EventsSnapshot s)"

definition remote_create_task :: "'s rpc \<Rightarrow> str \<Rightarrow> str \<Rightarrow> str list \<Rightarrow> str \<Rightarrow> 's \<Rightarrow> (client_error + task option) \<times> 's" where
  "remote_create_task rpc description body skills x s = reading task_record (rpc (CreateTask description body skills x) s)"

definition remote_create_periodic ::
  "'s rpc \<Rightarrow> str \<Rightarrow> str \<Rightarrow> str list \<Rightarrow> pyfloat \<Rightarrow> str \<Rightarrow> str \<Rightarrow> json \<Rightarrow> 's \<Rightarrow> (client_error + task option) \<times> 's" where
  "remote_create_periodic rpc description body skills p method x agent s =
     reading task_record (rpc (CreatePeriodic description body skills p method x agent) s)"

definition remote_create_external :: "'s rpc \<Rightarrow> task_args \<Rightarrow> binding_args \<Rightarrow> 's \<Rightarrow> (client_error + task option) \<times> 's" where
  "remote_create_external rpc a ba s = reading task_record (rpc (CreateExternal a ba) s)"

definition remote_start :: "'s rpc \<Rightarrow> int \<Rightarrow> 's \<Rightarrow> (client_error + task option) \<times> 's" where
  "remote_start rpc i s = reading task_record (rpc (StartTask i False) s)"

definition remote_stop :: "'s rpc \<Rightarrow> int \<Rightarrow> 's \<Rightarrow> (client_error + task option) \<times> 's" where
  "remote_stop rpc i s = reading task_record (rpc (StopTask i False) s)"

definition remote_task_timers :: "'s rpc \<Rightarrow> 's \<Rightarrow> (client_error + task_timer list) \<times> 's" where
  "remote_task_timers rpc s = reading (\<lambda>v. case v of RTaskTimers ts \<Rightarrow> Some ts | _ \<Rightarrow> None) (rpc TaskTimers s)"

definition remote_named_timers :: "'s rpc \<Rightarrow> 's \<Rightarrow> (client_error + named_timer list) \<times> 's" where
  "remote_named_timers rpc s = reading (\<lambda>v. case v of RNamedTimers ts \<Rightarrow> Some ts | _ \<Rightarrow> None) (rpc NamedTimers s)"

definition remote_timer_enabled :: "'s rpc \<Rightarrow> str \<Rightarrow> 's \<Rightarrow> (client_error + reply) \<times> 's" where
  "remote_timer_enabled rpc name s = rpc (TimerEnabled name) s"

definition remote_timer_status :: "'s rpc \<Rightarrow> 's \<Rightarrow> (client_error + reply) \<times> 's" where
  "remote_timer_status rpc s = rpc TimerStatus s"

definition remote_submit :: "'s rpc \<Rightarrow> sys_event \<Rightarrow> 's \<Rightarrow> (client_error + reply) \<times> 's" where
  "remote_submit rpc ev s = rpc (SubmitEvent ev) s"

section \<open>The worker\<close>

datatype readiness_source = Configured_probe | Always_ready | Unknown_probe

record remote_client =
  rc_executor :: "str option"
  rc_owner :: str
  rc_peer :: str
  rc_seen :: "str list"
  rc_finished :: "(str, sys_event \<times> str) dict"
  rc_next_poll :: rat
  rc_next_warning :: rat
  rc_probe :: bool
  rc_reporter :: "readiness_source option"

definition new_client :: "str option \<Rightarrow> str \<Rightarrow> str \<Rightarrow> bool \<Rightarrow> remote_client" where
  "new_client executor owner peer probe = \<lparr>rc_executor = executor, rc_owner = owner, rc_peer = peer, rc_seen = [],
     rc_finished = [], rc_next_poll = 0, rc_next_warning = 0, rc_probe = probe, rc_reporter = None\<rparr>"

definition token :: "sys_event \<Rightarrow> str" where
  "token ev = (if ev_offer_id ev = [] then ev_run_id ev else ev_offer_id ev)"

definition worker_rpc :: "'s rpc \<Rightarrow> remote_client \<Rightarrow> worker_request \<Rightarrow> 's \<Rightarrow> (client_error + reply) \<times> 's" where
  "worker_rpc rpc c wr s = rpc (WorkerCall (rc_owner c) (rc_peer c) wr) s"

text \<open>The callers below catch a \<open>TaskStoreError\<close> only.\<close>

definition caught :: "client_error \<Rightarrow> bool" where
  "caught e \<longleftrightarrow> e = Service_unavailable \<or> e = Task_failure"

definition send_heartbeat :: "'s rpc \<Rightarrow> bool \<Rightarrow> str \<Rightarrow> remote_client \<Rightarrow> 's \<Rightarrow> (client_error + reply) \<times> 's" where
  "send_heartbeat rpc ready reason c s =
     worker_rpc rpc c (Heartbeat (case rc_executor c of None \<Rightarrow> [] | Some x \<Rightarrow> x) (JBool ready) reason) s"

definition start_worker :: "remote_client \<Rightarrow> remote_client" where
  "start_worker c =
     (case rc_executor c of
        None \<Rightarrow> c
      | Some x \<Rightarrow>
          if rc_reporter c \<noteq> None then c
          else c\<lparr>rc_reporter := Some (if rc_probe c then Configured_probe
                  else if x = u ''openai'' then Unknown_probe else Always_ready)\<rparr>)"

definition stop_worker :: "'s rpc \<Rightarrow> remote_client \<Rightarrow> 's \<Rightarrow> (client_error + unit) \<times> remote_client \<times> 's" where
  "stop_worker rpc c s =
     (let c1 = c\<lparr>rc_reporter := None\<rparr>
      in if rc_executor c = None then (Inr (), c1, s)
         else (case worker_rpc rpc c Offline s of
                 (Inr _, s1) \<Rightarrow> (Inr (), c1, s1)
               | (Inl e, s1) \<Rightarrow> (if caught e then Inr () else Inl e, c1, s1)))"

definition completion_call :: "sys_event \<times> str \<Rightarrow> worker_request" where
  "completion_call f = Finish (ev_run_id (fst f)) (ev_offer_id (fst f)) (snd f) None"

text \<open>A completion leaves the dictionary after its reply.\<close>

fun flush_items ::
  "'s rpc \<Rightarrow> (str \<times> sys_event \<times> str) list \<Rightarrow> remote_client \<Rightarrow> 's \<Rightarrow> (client_error + bool) \<times> remote_client \<times> 's"
where
  "flush_items rpc [] c s = (Inr True, c, s)"
| "flush_items rpc ((k, f) # items) c s =
     (case worker_rpc rpc c (completion_call f) s of
        (Inl e, s1) \<Rightarrow> (if caught e then Inr False else Inl e, c, s1)
      | (Inr _, s1) \<Rightarrow> flush_items rpc items
          (c\<lparr>rc_finished := ddel k (rc_finished c), rc_seen := removeAll k (rc_seen c)\<rparr>) s1)"

definition flush_completions :: "'s rpc \<Rightarrow> remote_client \<Rightarrow> 's \<Rightarrow> (client_error + bool) \<times> remote_client \<times> 's" where
  "flush_completions rpc c s = flush_items rpc (rc_finished c) c s"

definition warn :: "rat \<Rightarrow> remote_client \<Rightarrow> remote_client" where
  "warn now c = (if rc_next_warning c \<le> now then c\<lparr>rc_next_warning := now + 30\<rparr> else c)"

definition poll_service :: "'s rpc \<Rightarrow> rat \<Rightarrow> remote_client \<Rightarrow> 's \<Rightarrow> (client_error + sys_event list) \<times> remote_client \<times> 's" where
  "poll_service rpc now c s =
     (case rc_executor c of
        None \<Rightarrow> (Inr [], c, s)
      | Some x \<Rightarrow>
          if now < rc_next_poll c then (Inr [], c, s)
          else
            (case flush_completions rpc (c\<lparr>rc_next_poll := now + 1 / 2\<rparr>) s of
               (Inl e, c1, s1) \<Rightarrow> (Inl e, c1, s1)
             | (Inr False, c1, s1) \<Rightarrow> (Inr [], c1, s1)
             | (Inr True, c1, s1) \<Rightarrow>
                 (case worker_rpc rpc c1 (Pull x (rc_seen c1) []) s1 of
                    (Inl e, s2) \<Rightarrow> if caught e then (Inr [], warn now c1, s2) else (Inl e, c1, s2)
                  | (Inr RNone, s2) \<Rightarrow> (Inr [], c1, s2)
                  | (Inr (REvent ev), s2) \<Rightarrow> (Inr [ev], c1, s2)
                  | (Inr _, s2) \<Rightarrow> (Inl Not_an_object, c1, s2))))"

definition accept_event :: "sys_event \<Rightarrow> remote_client \<Rightarrow> remote_client" where
  "accept_event ev c = c\<lparr>rc_seen := List.insert (token ev) (rc_seen c)\<rparr>"

definition remote_begin :: "'s rpc \<Rightarrow> sys_event \<Rightarrow> remote_client \<Rightarrow> 's \<Rightarrow> (client_error + reply) \<times> 's" where
  "remote_begin rpc ev c s = worker_rpc rpc c (Begin (ev_run_id ev) (ev_offer_id ev)) s"

definition remote_valid :: "'s rpc \<Rightarrow> sys_event \<Rightarrow> remote_client \<Rightarrow> 's \<Rightarrow> (client_error + reply) \<times> 's" where
  "remote_valid rpc ev c s = worker_rpc rpc c (Valid (ev_run_id ev) (ev_offer_id ev)) s"

definition record_completion :: "sys_event \<Rightarrow> str \<Rightarrow> remote_client \<Rightarrow> remote_client" where
  "record_completion ev out c = c\<lparr>rc_finished := dput (token ev) (ev, out) (rc_finished c), rc_next_poll := 0\<rparr>"

section \<open>The service behind the socket\<close>

text \<open>
  The environment of the next calls and what happens to them on the way. A lost reply leaves the
  service with the effect of the call.
\<close>

datatype delivery = Delivered | Request_lost | Reply_lost

definition client_view :: "engine_error + reply \<Rightarrow> client_error + reply" where
  "client_view r = (case r of Inr v \<Rightarrow> Inr v | Inl (EventError _) \<Rightarrow> Inl Event_failure | Inl _ \<Rightarrow> Inl Task_failure)"

definition wire_call :: "(engine \<times> (env \<times> delivery) list) rpc" where
  "wire_call req s =
     (case s of
        (en, []) \<Rightarrow> (Inl Service_unavailable, en, [])
      | (en, (e, d) # rest) \<Rightarrow>
          (case d of
             Request_lost \<Rightarrow> (Inl Service_unavailable, en, rest)
           | Reply_lost \<Rightarrow> (Inl Service_unavailable, snd (engine_call e req en), rest)
           | Delivered \<Rightarrow> (case engine_call e req en of (r, en1) \<Rightarrow> (client_view r, en1, rest))))"

end
