(* ===== verification/RemoteClientProps.thy ===== *)
theory RemoteClientProps
  imports RemoteClient EngineProps
begin

text \<open>
  Properties of the client side of the task service: completions are acknowledged in order and kept
  until then, and an offer the CORE has accepted is not handed out to it a second time.
\<close>

section \<open>Completions\<close>

text \<open>The replies to a list of completions sent one after the other, and the service after them.\<close>

fun replies :: "'s rpc \<Rightarrow> remote_client \<Rightarrow> (str \<times> sys_event \<times> str) list \<Rightarrow> 's \<Rightarrow> (client_error + reply) list" where
  "replies rpc c [] s = []"
| "replies rpc c (x # xs) s =
     fst (worker_rpc rpc c (completion_call (snd x)) s) # replies rpc c xs (snd (worker_rpc rpc c (completion_call (snd x)) s))"

definition sent :: "'s rpc \<Rightarrow> remote_client \<Rightarrow> (str \<times> sys_event \<times> str) list \<Rightarrow> 's \<Rightarrow> 's" where
  "sent rpc c xs s = foldl (\<lambda>s x. snd (worker_rpc rpc c (completion_call (snd x)) s)) s xs"

lemma worker_rpc_cong: "rc_owner c' = rc_owner c \<Longrightarrow> rc_peer c' = rc_peer c \<Longrightarrow> worker_rpc rpc c' = worker_rpc rpc c"
  by (intro ext) (simp add: worker_rpc_def)

lemma replies_cong: "rc_owner c' = rc_owner c \<Longrightarrow> rc_peer c' = rc_peer c \<Longrightarrow> replies rpc c' xs s = replies rpc c xs s"
  by (induction xs arbitrary: s) (simp_all add: worker_rpc_cong [of c' c])

lemma sent_cong: "rc_owner c' = rc_owner c \<Longrightarrow> rc_peer c' = rc_peer c \<Longrightarrow> sent rpc c' xs s = sent rpc c xs s"
  by (simp add: sent_def worker_rpc_cong [of c' c])

lemma flush_items_prefix:
  assumes "dwf (rc_finished c)" and "rc_finished c = items" and "flush_items rpc items c s = (r, c', s')"
  shows "\<exists>acked rest. items = acked @ rest
    \<and> c' = c\<lparr>rc_finished := rest, rc_seen := filter (\<lambda>k. k \<notin> set (map fst acked)) (rc_seen c)\<rparr>
    \<and> s' = sent rpc c (acked @ take 1 rest) s
    \<and> list_all (\<lambda>v. \<not> isl v) (replies rpc c acked s)
    \<and> (r = Inr True \<longleftrightarrow> rest = []) \<and> (rest \<noteq> [] \<longrightarrow> isl (last (replies rpc c (acked @ take 1 rest) s)))"
  using assms
proof (induction items arbitrary: c s)
  case Nil
  then show ?case by (intro exI [of _ "[]"]) (simp add: sent_def)
next
  case (Cons x items)
  obtain k f where x: "x = (k, f)" by (cases x)
  obtain v s1 where v: "worker_rpc rpc c (completion_call f) s = (v, s1)" by (cases "worker_rpc rpc c (completion_call f) s")
  show ?case
  proof (cases v)
    case (Inl e)
    then have "c' = c" "s' = s1" "r \<noteq> Inr True" using Cons.prems(3) x v by (auto split: if_splits)
    then show ?thesis
      using Cons.prems(2) x v Inl by (intro exI [of _ "[]"] exI [of _ "x # items"]) (simp add: sent_def)
  next
    case (Inr y)
    let ?c = "c\<lparr>rc_finished := items, rc_seen := removeAll k (rc_seen c)\<rparr>"
    have k: "k \<notin> set (map fst items)" "dwf items" using Cons.prems(1,2) x by (auto simp: dwf_def)
    then have "ddel k (rc_finished c) = items"
      using Cons.prems(2) x by (auto simp: ddel_def filter_id_conv rev_image_eqI)
    then have "flush_items rpc items ?c s1 = (r, c', s')" using Cons.prems(3) x v Inr by simp
    from Cons.IH [OF _ _ this] k obtain acked rest where ih: "items = acked @ rest"
      "c' = ?c\<lparr>rc_finished := rest, rc_seen := filter (\<lambda>k. k \<notin> set (map fst acked)) (rc_seen ?c)\<rparr>"
      "s' = sent rpc ?c (acked @ take 1 rest) s1" "list_all (\<lambda>v. \<not> isl v) (replies rpc ?c acked s1)"
      "r = Inr True \<longleftrightarrow> rest = []" "rest \<noteq> [] \<longrightarrow> isl (last (replies rpc ?c (acked @ take 1 rest) s1))"
      by auto
    have "filter (\<lambda>k. k \<notin> set (map fst acked)) (removeAll k (rc_seen c)) = filter (\<lambda>j. j \<notin> set (map fst (x # acked))) (rc_seen c)"
      by (simp add: x removeAll_filter_not_eq) (rule filter_cong, auto)
    moreover have "sent rpc c (x # ys) s = sent rpc ?c ys s1" for ys
    proof -
      have "sent rpc ?c ys s1 = sent rpc c ys s1" by (rule sent_cong) simp_all
      then show ?thesis using v x by (simp only: sent_def foldl_Cons snd_conv)
    qed
    moreover have "replies rpc c (x # ys) s = Inr y # replies rpc ?c ys s1" for ys
    proof -
      have "replies rpc ?c ys s1 = replies rpc c ys s1" by (rule replies_cong) simp_all
      then show ?thesis using v x Inr by simp
    qed
    moreover have "rest \<noteq> [] \<longrightarrow> replies rpc ?c (acked @ take 1 rest) s1 \<noteq> []"
      by (cases rest; cases acked) simp_all
    ultimately show ?thesis
      using ih by (intro exI [of _ "x # acked"] exI [of _ rest]) simp
  qed
qed

text \<open>Completions are sent in the order they were recorded, and exactly those that were answered
  are forgotten, with their marks as accepted: if a call fails, because the service refuses it, cannot
  be reached, or its answer is lost, that completion and all later ones are kept for the next time;
  the flush reports success exactly when nothing is left.\<close>

theorem flush_keeps_unanswered_completions:
  assumes "dwf (rc_finished c)" and "flush_completions rpc c s = (r, c', s')"
  shows "\<exists>acked rest. rc_finished c = acked @ rest
    \<and> c' = c\<lparr>rc_finished := rest, rc_seen := filter (\<lambda>k. k \<notin> set (map fst acked)) (rc_seen c)\<rparr>
    \<and> s' = sent rpc c (acked @ take 1 rest) s
    \<and> list_all (\<lambda>v. \<not> isl v) (replies rpc c acked s)
    \<and> (r = Inr True \<longleftrightarrow> rest = []) \<and> (rest \<noteq> [] \<longrightarrow> isl (last (replies rpc c (acked @ take 1 rest) s)))"
  using flush_items_prefix [OF assms(1) refl] assms(2) by (simp add: flush_completions_def)

definition sample_client :: remote_client where
  "sample_client = (new_client (Some (u ''openai'')) (u ''w'') (u ''p'') False)\<lparr>rc_seen := [u ''old'']\<rparr>"

theorem flush_keeps_unanswered_completions_witness:
  "\<exists>acked rest. [([1], sample_event, u ''done''), ([2], sample_event, u ''done'')] = acked @ rest
    \<and> list_all (\<lambda>v. \<not> isl v) (replies (\<lambda>req n. (if n = 0 then Inr (RBool True) else Inl Service_unavailable, Suc n))
        (sample_client\<lparr>rc_finished := [([1], sample_event, u ''done''), ([2], sample_event, u ''done'')]\<rparr>) acked (0::nat))
    \<and> rest \<noteq> []"
proof -
  let ?rpc = "\<lambda>req n. (if n = 0 then Inr (RBool True) else Inl Service_unavailable, Suc n)"
  let ?c = "sample_client\<lparr>rc_finished := [([1], sample_event, u ''done''), ([2], sample_event, u ''done'')]\<rparr>"
  have "flush_completions ?rpc ?c (0::nat) = (Inr False, snd (flush_completions ?rpc ?c 0))"
    by (simp add: flush_completions_def worker_rpc_def caught_def)
  then obtain c' s' where f: "flush_completions ?rpc ?c (0::nat) = (Inr False, c', s')" by (cases "snd (flush_completions ?rpc ?c (0::nat))") simp
  have "dwf (rc_finished ?c)" by (simp add: dwf_def)
  from flush_keeps_unanswered_completions [OF this f] show ?thesis by auto
qed

section \<open>Polling\<close>

lemma pull_gives_new:
  assumes "pull e owner peer x seen skip en = (Inr (REvent ev), en')" and "runs_ok (en_runs en)"
    and "e_uuid e \<noteq> []" and "e_uuid e \<notin> set seen"
  shows "token ev \<notin> set seen \<and> (\<exists>r. dget (en_runs en') (ev_run_id ev) = Some r \<and> r_event r = ev
    \<and> r_state r = Offered \<and> r_owner r = owner \<and> r_peer r = peer)"
proof -
  have key: "dget (en_runs en) k = Some r \<and> k = ev_run_id (r_event r)" if "(k, r) \<in> set (en_runs en)" for k r
    using that assms(2) by (auto simp: runs_ok_def run_ok_def dget_iff)
  show ?thesis
  proof (cases "find (\<lambda>p. resend owner peer seen skip (snd p)) (en_runs en)")
    case (Some p)
    then have "p \<in> set (en_runs en)" "resend owner peer seen skip (snd p)" by (auto simp: find_Some_iff)
    moreover have "ev = r_event (snd p)" "en' = en"
      using assms(1) Some by (auto simp: pull_def split: if_splits prod.splits)
    ultimately show ?thesis using key [of "fst p" "snd p"] by (auto simp: resend_def token_def)
  next
    case None
    then obtain k r where f: "find (\<lambda>p. offerable e en owner peer x skip (snd p)) (en_runs en) = Some (k, r)"
      and ev: "ev = r_event (offer (e_uuid e) owner peer x r)"
      and en': "en' = en\<lparr>en_runs := dput k (offer (e_uuid e) owner peer x r) (en_runs en)\<rparr>"
      using assms(1) by (auto simp: pull_def Let_def split: if_splits option.splits prod.splits)
    have "(k, r) \<in> set (en_runs en)" using f by (metis find_Some_iff nth_mem)
    then have "k = ev_run_id (r_event r)" using key by blast
    then show ?thesis using ev en' assms(3,4) by (simp add: offer_def token_def)
  qed
qed

lemma wire_engine_ok:
  assumes "engine_ok (fst s)" and "request_ok req"
  shows "engine_ok (fst (snd (wire_call req s))) \<and> set (snd (snd (wire_call req s))) \<subseteq> set (snd s)"
proof -
  obtain en ws where s: "s = (en, ws)" by (cases s)
  show ?thesis
  proof (cases ws)
    case (Cons p rest)
    obtain e d where p: "p = (e, d)" by (cases p)
    obtain r en1 where c: "engine_call e req en = (r, en1)" by (cases "engine_call e req en")
    then have "engine_ok en1" using call_ok(1) [of en req e] assms s by simp
    then show ?thesis using assms s Cons p c by (cases d) (auto simp: wire_call_def)
  qed (use assms s in \<open>simp add: wire_call_def\<close>)
qed

lemma sent_engine_ok:
  "engine_ok (fst s) \<Longrightarrow> engine_ok (fst (sent wire_call c xs s)) \<and> set (snd (sent wire_call c xs s)) \<subseteq> set (snd s)"
proof (induction xs arbitrary: s)
  case (Cons x xs)
  let ?s = "snd (worker_rpc wire_call c (completion_call (snd x)) s)"
  have "engine_ok (fst ?s)" "set (snd ?s) \<subseteq> set (snd s)"
    using wire_engine_ok Cons.prems by (auto simp: worker_rpc_def request_ok_def)
  with Cons.IH [of ?s] show ?case by (auto simp: sent_def)
qed (simp add: sent_def)

lemma call_effect:
  assumes "fst (engine_call e req en) = Inr v"
  shows "fst (dispatch e req en) = Inr v \<and> en_runs (snd (engine_call e req en)) = en_runs (snd (dispatch e req en))"
  using conclude_Inr [of e en "dispatch e req en" v] assms by (auto simp: engine_call_def)

text \<open>C36: a poll hands out at most an offer that is new to this CORE: while a run is accepted and its
  completion not acknowledged, it is not handed out again, even if the service sends the offer once
  more or a reply was lost; and what is handed out is recorded at the service as offered to this
  process under just this offer.\<close>

theorem polled_offer_is_new_and_recorded:
  assumes "poll_service wire_call now c (en, ws) = (Inr [ev], c', en', ws')"
    and "engine_ok en" and "dwf (rc_finished c)"
    and "\<forall>p \<in> set ws. e_uuid (fst p) \<noteq> [] \<and> e_uuid (fst p) \<notin> set (rc_seen c)"
  shows "rc_finished c' = [] \<and> set (rc_seen c') = set (rc_seen c) - set (dkeys (rc_finished c)) \<and> token ev \<notin> set (rc_seen c')
    \<and> (\<exists>r. dget (en_runs en') (ev_run_id ev) = Some r \<and> r_event r = ev \<and> r_state r = Offered
        \<and> r_owner r = rc_owner c \<and> r_peer r = rc_peer c)"
proof -
  let ?c = "c\<lparr>rc_next_poll := now + 1 / 2\<rparr>"
  obtain x where x: "rc_executor c = Some x" and due: "\<not> now < rc_next_poll c"
    using assms(1) by (auto simp: poll_service_def split: option.splits if_splits)
  obtain r c1 s1 where f: "flush_completions wire_call ?c (en, ws) = (r, c1, s1)" by (metis prod_cases3)
  have rT: "r = Inr True" using assms(1) f x due by (auto simp: poll_service_def split: sum.splits bool.splits)
  obtain acked rest where fl: "rc_finished ?c = acked @ rest"
    "c1 = ?c\<lparr>rc_finished := rest, rc_seen := filter (\<lambda>k. k \<notin> set (map fst acked)) (rc_seen ?c)\<rparr>"
    "s1 = sent wire_call ?c (acked @ take 1 rest) (en, ws)" "r = Inr True \<longleftrightarrow> rest = []"
    using flush_items_prefix [OF _ refl, of ?c wire_call "(en, ws)" r c1 s1] f assms(3)
    by (auto simp: flush_completions_def)
  then have s1: "engine_ok (fst s1)" "set (snd s1) \<subseteq> set ws"
    using sent_engine_ok [of "(en, ws)" ?c "acked @ take 1 rest"] assms(2) by auto
  let ?q = "WorkerCall (rc_owner c) (rc_peer c) (Pull x (rc_seen c1) [])"
  have q: "wire_call ?q s1 = (Inr (REvent ev), en', ws')" and c': "c' = c1"
    using assms(1) f rT x due fl(2)
    by (auto simp: poll_service_def worker_rpc_def split: sum.splits reply.splits prod.splits if_splits)
  obtain en1 e d more where w: "s1 = (en1, (e, d) # more)"
    using q by (cases s1; cases "snd s1"; cases "hd (snd s1)") (auto simp: wire_call_def)
  have call: "fst (engine_call e ?q en1) = Inr (REvent ev)" "en' = snd (engine_call e ?q en1)"
    using q w by (auto simp: wire_call_def client_view_def split: delivery.splits prod.splits sum.splits engine_error.splits)
  have "fst (dispatch e ?q en1) = Inr (REvent ev)" and runs: "en_runs en' = en_runs (snd (dispatch e ?q en1))"
    using call_effect [OF call(1)] call(2) by simp_all
  then have "fst (pull e (rc_owner c) (rc_peer c) x (rc_seen c1) [] (reconcile e en1)) = Inr (REvent ev)"
    and runs: "en_runs en' = en_runs (snd (pull e (rc_owner c) (rc_peer c) x (rc_seen c1) [] (reconcile e en1)))"
    by (auto simp: dispatch_def worker_call_def Let_def split: if_splits)
  moreover have "engine_ok (reconcile e en1)" using reconcile_reaches s1(1) w by (auto simp: reaches_def)
  moreover have seen: "rc_seen c1 = filter (\<lambda>k. k \<notin> set (map fst acked)) (rc_seen c)" using fl(2) by simp
  moreover have "e_uuid e \<noteq> [] \<and> e_uuid e \<notin> set (rc_seen c)" using assms(4) s1(2) w by auto
  ultimately have "token ev \<notin> set (rc_seen c1) \<and> (\<exists>r. dget (en_runs en') (ev_run_id ev) = Some r \<and> r_event r = ev
      \<and> r_state r = Offered \<and> r_owner r = rc_owner c \<and> r_peer r = rc_peer c)"
    using pull_gives_new [of e "rc_owner c" "rc_peer c" x "rc_seen c1" "[]" "reconcile e en1" ev
      "snd (pull e (rc_owner c) (rc_peer c) x (rc_seen c1) [] (reconcile e en1))"]
    by (auto simp: prod_eq_iff engine_ok_def)
  then show ?thesis using c' fl rT seen by (auto simp: dkeys_def)
qed

lemma sample_reconcile_pending: "reconcile (sample_env 3) (sample_engine Pending) = sample_engine Pending"
proof -
  have "current (sample_engine Pending) (sample_run Pending)"
    by (simp add: current_def run_task_id_def sample_run_def sample_event_def)
  then have "dmap (reconcile_run (sample_env 3) (sample_engine Pending)) (en_runs (sample_engine Pending)) = en_runs (sample_engine Pending)"
    by (simp add: dmap_def reconcile_run_def sample_run_def)
  then show ?thesis by (simp add: reconcile_def drop_oldest_def kept_finished_runs_def)
qed

lemma sample_pull_call:
  "\<exists>en'. engine_call (sample_env 3) (WorkerCall (u ''w'') (u ''p'') (Pull (u ''openai'') [u ''old''] [])) (sample_engine Pending)
     = (Inr (REvent (sample_event\<lparr>ev_offer_id := u ''id''\<rparr>)), en')"
proof -
  have "pull (sample_env 3) (u ''w'') (u ''p'') (u ''openai'') [u ''old''] [] (sample_engine Pending)
      = pull (sample_env 3) (u ''w'') (u ''p'') (u ''openai'') [] [] (sample_engine Pending)"
    by (simp add: pull_def resend_def sample_run_def)
  then have "\<exists>en1. dispatch (sample_env 3) (WorkerCall (u ''w'') (u ''p'') (Pull (u ''openai'') [u ''old''] [])) (sample_engine Pending)
      = (Inr (REvent (sample_event\<lparr>ev_offer_id := u ''id''\<rparr>)), en1)"
    by (simp add: dispatch_def worker_call_def sample_reconcile_pending sample_pull)
  then show ?thesis
    using conclude_commit [OF sample_env_commits] unfolding engine_call_def by metis
qed

theorem polled_offer_is_new_and_recorded_witness:
  "\<exists>c' en' ws'. poll_service wire_call 3 sample_client (sample_engine Pending, [(sample_env 3, Delivered)])
      = (Inr [sample_event\<lparr>ev_offer_id := u ''id''\<rparr>], c', en', ws')
    \<and> (\<exists>r. dget (en_runs en') (u ''r'') = Some r \<and> r_state r = Offered \<and> r_owner r = u ''w'' \<and> r_peer r = u ''p'')"
proof -
  let ?c = "sample_client" and ?s = "(sample_engine Pending, [(sample_env 3, Delivered)])"
  obtain en' where "engine_call (sample_env 3) (WorkerCall (u ''w'') (u ''p'') (Pull (u ''openai'') [u ''old''] [])) (sample_engine Pending)
     = (Inr (REvent (sample_event\<lparr>ev_offer_id := u ''id''\<rparr>)), en')" using sample_pull_call by blast
  then have p: "poll_service wire_call 3 ?c ?s
      = (Inr [sample_event\<lparr>ev_offer_id := u ''id''\<rparr>], ?c\<lparr>rc_next_poll := 3 + 1 / 2\<rparr>, en', [])"
    by (simp add: poll_service_def sample_client_def new_client_def flush_completions_def worker_rpc_def wire_call_def client_view_def)
  moreover have "dwf (rc_finished ?c)" by (simp add: sample_client_def new_client_def)
  moreover have "\<forall>p \<in> set [(sample_env 3, Delivered)]. e_uuid (fst p) \<noteq> [] \<and> e_uuid (fst p) \<notin> set (rc_seen ?c)"
    by (simp add: sample_env_def sample_client_def)
  ultimately show ?thesis
    using polled_offer_is_new_and_recorded [OF p sample_engine_ok]
    by (auto simp: sample_client_def new_client_def sample_event_def)
qed

end
