(* ===== verification/Readiness.thy ===== *)
theory Readiness
  imports RemoteClient
begin

text \<open>
  Whether a CORE may take work: the usage limits of the account (task_system/ollama_usage.py), the
  check of the model service and the reporter of the worker (task_system/readiness.py). What the HTTP
  client returns or raises is an argument: a JSON value, an HTTP status, an undecodable body or any
  other exception. The probe of a reporter is a state transformer on the state \<open>'s\<close> behind it; clock
  and liveness of the runtime are arguments. The two spellings of \<open>/v1\<close> and the slashes at the end of
  the address are handled as the code does.
\<close>

section \<open>Results and answers\<close>

record check_result =
  ck_ready :: bool
  ck_reason :: str

definition ready_now :: check_result where
  "ready_now = \<lparr>ck_ready = True, ck_reason = []\<rparr>"

definition not_ready :: "string \<Rightarrow> check_result" where
  "not_ready reason = \<lparr>ck_ready = False, ck_reason = u reason\<rparr>"

datatype fetched = Body json | Http_error int | Bad_body | Fetch_failed

section \<open>The usage limits\<close>

definition usage_windows :: "(str \<times> json) list \<Rightarrow> str list option" where
  "usage_windows limits =
     (let monthly = (if u ''monthly'' \<in> set (dkeys limits) then [u ''monthly''] else []);
          session = u ''session'' \<in> set (dkeys limits); weekly = u ''weekly'' \<in> set (dkeys limits)
      in if (session \<or> weekly) \<and> \<not> (session \<and> weekly) then None
         else (let ws = monthly @ (if session then [u ''session'', u ''weekly''] else [])
               in if ws = [] then None else Some ws))"

text \<open>\<open>math.isfinite\<close> raises from this integer on, which no \<open>float\<close> can hold.\<close>

definition float_limit :: int where
  "float_limit = 2 ^ 1024 - 2 ^ 970"

text \<open>A usage that is a number, finite and not negative; \<open>None\<close> is any of the caught exceptions.\<close>

definition usage_value :: "(str \<times> json) list \<Rightarrow> str \<Rightarrow> rat option" where
  "usage_value limits window =
     (case dget limits window of
        Some (JObj ps) \<Rightarrow>
          (case dget ps (u ''usage'') of
             Some (JInt i) \<Rightarrow> if i < 0 \<or> float_limit \<le> i then None else Some (of_int i)
           | Some (JFloat (Fin x)) \<Rightarrow> if x < 0 then None else Some x
           | _ \<Rightarrow> None)
      | _ \<Rightarrow> None)"

fun all_some :: "'a option list \<Rightarrow> 'a list option" where
  "all_some [] = Some []"
| "all_some (None # xs) = None"
| "all_some (Some x # xs) = map_option ((#) x) (all_some xs)"

definition usages :: "json \<Rightarrow> rat list option" where
  "usages data =
     (case data of
        JObj ps \<Rightarrow>
          (case dget ps (u ''limits'') of
             Some (JObj limits) \<Rightarrow>
               (case usage_windows limits of
                  None \<Rightarrow> None
                | Some ws \<Rightarrow> all_some (map (usage_value limits) ws))
           | _ \<Rightarrow> None)
      | _ \<Rightarrow> None)"

definition usage_check :: "str \<Rightarrow> fetched \<Rightarrow> check_result" where
  "usage_check key answer =
     (if strip key = [] then not_ready ''missing_api_key''
      else
        (case answer of
           Http_error code \<Rightarrow> not_ready (if code = 401 \<or> code = 403 then ''credentials_invalid'' else ''usage_api_error'')
         | Bad_body \<Rightarrow> not_ready ''usage_invalid_response''
         | Fetch_failed \<Rightarrow> not_ready ''usage_network_error''
         | Body data \<Rightarrow>
             (case usages data of
                None \<Rightarrow> not_ready ''usage_invalid_response''
              | Some us \<Rightarrow> if list_ex (\<lambda>x. 1 \<le> x) us then not_ready ''quota_exhausted'' else ready_now)))"

section \<open>The model service\<close>

definition rstrip_slash :: "str \<Rightarrow> str" where
  "rstrip_slash s = rev (dropWhile (\<lambda>c. c = 47) (rev s))"

record openai_readiness =
  or_mode :: str
  or_model :: str
  or_url :: str

definition new_readiness :: "str \<Rightarrow> str \<Rightarrow> str \<Rightarrow> openai_readiness option" where
  "new_readiness base_url mode model =
     (let base = rstrip_slash base_url
      in if mode = u ''ollama'' then
           Some \<lparr>or_mode = mode, or_model = model,
             or_url = (if endswith base (u ''/v1'') then take (length base - 3) base else base) @ u ''/api/tags''\<rparr>
         else if mode = u ''openai'' then Some \<lparr>or_mode = mode, or_model = model, or_url = base @ u ''/models''\<rparr>
         else None)"

definition listed :: "string \<Rightarrow> fetched \<Rightarrow> json list option" where
  "listed key answer =
     (case answer of
        Body (JObj ps) \<Rightarrow> (case dget ps (u key) of Some (JList xs) \<Rightarrow> Some xs | _ \<Rightarrow> None)
      | _ \<Rightarrow> None)"

definition names_model :: "str \<Rightarrow> string list \<Rightarrow> json \<Rightarrow> bool" where
  "names_model model keys item =
     (case item of JObj ps \<Rightarrow> list_ex (\<lambda>k. dget ps (u k) = Some (JStr model)) keys | _ \<Rightarrow> False)"

definition service_check :: "openai_readiness \<Rightarrow> fetched \<Rightarrow> check_result \<Rightarrow> check_result" where
  "service_check r answer usage =
     (if or_mode r = u ''ollama'' then
        (case answer of
           Body _ \<Rightarrow>
             (case listed ''models'' answer of
                None \<Rightarrow> not_ready ''ollama_invalid_response''
              | Some models \<Rightarrow>
                  if or_model r \<noteq> [] \<and> \<not> list_ex (names_model (or_model r) [''name'', ''model'']) models
                  then not_ready ''openai_model_unavailable'' else usage)
         | _ \<Rightarrow> not_ready ''ollama_unavailable'')
      else
        (case answer of
           Body _ \<Rightarrow>
             (case listed ''data'' answer of
                None \<Rightarrow> not_ready ''openai_invalid_response''
              | Some models \<Rightarrow>
                  if or_model r \<noteq> [] \<and> \<not> list_ex (names_model (or_model r) [''id'']) models
                  then not_ready ''openai_model_unavailable'' else ready_now)
         | _ \<Rightarrow> not_ready ''openai_unavailable''))"

section \<open>The reporter\<close>

definition heartbeat_seconds :: rat where
  "heartbeat_seconds = 5"

definition probe_seconds :: rat where
  "probe_seconds = 30"

record reporter =
  hr_result :: check_result
  hr_next_probe :: rat
  hr_stop :: bool

definition new_reporter :: reporter where
  "new_reporter = \<lparr>hr_result = not_ready ''initializing'', hr_next_probe = 0, hr_stop = False\<rparr>"

text \<open>
  What one round reads: whether the runtime is alive or its question failed (\<open>None\<close>), the answer of the
  probe or its failure, the clock before and after the probe, and whether publishing raised.
\<close>

record round =
  rd_alive :: "bool option"
  rd_probe :: "check_result option"
  rd_now :: rat
  rd_after :: rat
  rd_published :: bool

definition evidence :: "bool \<Rightarrow> round \<Rightarrow> reporter \<Rightarrow> reporter option" where
  "evidence probed rd h =
     (case rd_alive rd of
        None \<Rightarrow> None
      | Some False \<Rightarrow> Some (h\<lparr>hr_result := not_ready ''runtime_unavailable'', hr_next_probe := 0\<rparr>)
      | Some True \<Rightarrow>
          if \<not> probed then Some (h\<lparr>hr_result := ready_now\<rparr>)
          else if rd_now rd < hr_next_probe h then Some h
          else (case rd_probe rd of
                  None \<Rightarrow> None
                | Some r \<Rightarrow> Some (h\<lparr>hr_result := r, hr_next_probe := rd_after rd + probe_seconds\<rparr>)))"

text \<open>One round of \<open>_run\<close>: the new state and what was handed to \<open>publish\<close>.\<close>

definition report_round :: "bool \<Rightarrow> round \<Rightarrow> reporter \<Rightarrow> reporter \<times> check_result option" where
  "report_round probed rd h =
     (let failed = h\<lparr>hr_result := not_ready ''readiness_unknown'', hr_next_probe := 0\<rparr>
      in case evidence probed rd h of
           None \<Rightarrow> (failed, None)
         | Some h1 \<Rightarrow>
             if hr_stop h1 then (h1, None)
             else if rd_published rd then (h1, Some (hr_result h1))
             else (h1\<lparr>hr_result := not_ready ''readiness_unknown'', hr_next_probe := 0\<rparr>, Some (hr_result h1)))"

definition stop_reporter :: "reporter \<Rightarrow> reporter" where
  "stop_reporter h = h\<lparr>hr_stop := True\<rparr>"

text \<open>All rounds of a reporter, with what each of them published.\<close>

fun report_rounds :: "bool \<Rightarrow> round list \<Rightarrow> reporter \<Rightarrow> check_result option list" where
  "report_rounds probed [] h = []"
| "report_rounds probed (rd # rds) h =
     snd (report_round probed rd h) # report_rounds probed rds (fst (report_round probed rd h))"

end
