(* ===== verification/ReadinessProps.thy ===== *)
theory ReadinessProps
  imports Readiness
begin

text \<open>
  A CORE reports itself ready only on evidence: the usage check never passes a reached or unreadable
  limit, and a published readiness is not older than the probe interval and not carried over a failure.
\<close>

lemma all_some_iff: "all_some xs = Some ys \<longleftrightarrow> xs = map Some ys"
proof (induction xs arbitrary: ys rule: all_some.induct)
  case (3 x xs)
  then show ?case by (cases ys) auto
qed auto

text \<open>The usage check never fails open: it reports ready only if there is a key, the service answered
  with a JSON object of limits that names at least one window, and for each window the check has to
  look at, both of session and weekly where either is given, the usage is a number from 0 to below 1.\<close>

theorem usage_check_never_fails_open:
  assumes "ck_ready (usage_check key answer)"
  shows "strip key \<noteq> [] \<and> (\<exists>ps limits ws. answer = Body (JObj ps) \<and> dget ps (u ''limits'') = Some (JObj limits)
    \<and> ws \<noteq> [] \<and> set ws = {w \<in> {u ''monthly'', u ''session'', u ''weekly''}. dget limits w \<noteq> None}
    \<and> (\<forall>w \<in> set ws. \<exists>x. usage_value limits w = Some x \<and> 0 \<le> x \<and> x < 1)
    \<and> (u ''session'' \<in> set ws \<longleftrightarrow> u ''weekly'' \<in> set ws))"
proof -
  from assms obtain data us where c: "strip key \<noteq> []" "answer = Body data" "usages data = Some us" "\<not> list_ex (\<lambda>x. 1 \<le> x) us"
    by (auto simp: usage_check_def not_ready_def split: if_splits fetched.splits option.splits)
  then obtain ps limits ws where d: "data = JObj ps" "dget ps (u ''limits'') = Some (JObj limits)"
    "usage_windows limits = Some ws" "map (usage_value limits) ws = map Some us"
    by (auto simp: usages_def all_some_iff split: json.splits option.splits)
  have ws: "ws \<noteq> []" "set ws = {w \<in> {u ''monthly'', u ''session'', u ''weekly''}. w \<in> set (dkeys limits)}"
    "u ''session'' \<in> set ws \<longleftrightarrow> u ''weekly'' \<in> set ws"
    using d(3) by (auto simp: usage_windows_def Let_def split: if_splits)
  have keys: "w \<in> set (dkeys limits) \<longleftrightarrow> dget limits w \<noteq> None" for w
    using dget_None_iff by metis
  have "\<exists>x. usage_value limits w = Some x \<and> 0 \<le> x \<and> x < 1" if "w \<in> set ws" for w
  proof -
    from that d(4) obtain x where x: "usage_value limits w = Some x" "x \<in> set us"
      by (metis (no_types, lifting) image_iff list.set_map)
    moreover have "0 \<le> x"
      using x(1) by (auto simp: usage_value_def split: option.splits json.splits pyfloat.splits if_splits)
    moreover have "x < 1" using c(4) x(2) by (auto simp: list_ex_iff)
    ultimately show ?thesis by blast
  qed
  then show ?thesis using c(1,2) d(1,2) ws by (auto simp: keys)
qed

theorem usage_check_never_fails_open_witness:
  "ck_ready (usage_check (u ''key'') (Body (JObj [(u ''limits'', JObj [(u ''monthly'', JObj [(u ''usage'', JFloat (Fin (1 / 2)))])])])))
   \<and> strip (u ''key'') \<noteq> []"
proof -
  have r: "ck_ready (usage_check (u ''key'') (Body (JObj [(u ''limits'', JObj [(u ''monthly'', JObj [(u ''usage'', JFloat (Fin (1 / 2)))])])])))"
    by (simp add: usage_check_def usages_def usage_windows_def usage_value_def dkeys_def ready_now_def text_eval)
  with usage_check_never_fails_open [OF r] show ?thesis by blast
qed

section \<open>The reporter\<close>

definition reporter_after :: "bool \<Rightarrow> round list \<Rightarrow> nat \<Rightarrow> reporter" where
  "reporter_after probed rds n = foldl (\<lambda>h rd. fst (report_round probed rd h)) new_reporter (take n rds)"

lemma report_rounds_nth:
  "i < length rds \<Longrightarrow> report_rounds probed rds h ! i
     = snd (report_round probed (rds ! i) (foldl (\<lambda>h rd. fst (report_round probed rd h)) h (take i rds)))"
proof (induction rds arbitrary: h i)
  case (Cons rd rds)
  then show ?case by (cases i) simp_all
qed simp

lemma reporter_after_Suc:
  "i < length rds \<Longrightarrow> reporter_after probed rds (Suc i) = fst (report_round probed (rds ! i) (reporter_after probed rds i))"
  by (simp add: reporter_after_def take_Suc_conv_app_nth)

definition backed :: "round list \<Rightarrow> nat \<Rightarrow> reporter \<Rightarrow> bool" where
  "backed rds n h \<longleftrightarrow> (\<exists>j < n. rd_probe (rds ! j) = Some (hr_result h) \<and> hr_next_probe h = rd_after (rds ! j) + probe_seconds
     \<and> (\<forall>k. j \<le> k \<longrightarrow> k < n \<longrightarrow> rd_alive (rds ! k) = Some True \<and> rd_published (rds ! k)))"

lemma evidence_ready:
  assumes "evidence True (rds ! i) h = Some h1" and "ck_ready (hr_result h1)" and "ck_ready (hr_result h) \<Longrightarrow> backed rds i h"
  shows "rd_alive (rds ! i) = Some True
    \<and> (\<exists>j \<le> i. rd_probe (rds ! j) = Some (hr_result h1) \<and> hr_next_probe h1 = rd_after (rds ! j) + probe_seconds
        \<and> (\<forall>k. j \<le> k \<longrightarrow> k < i \<longrightarrow> rd_alive (rds ! k) = Some True \<and> rd_published (rds ! k))
        \<and> (j < i \<longrightarrow> rd_now (rds ! i) < hr_next_probe h1))"
proof -
  have alive: "rd_alive (rds ! i) = Some True"
    using assms(1,2) by (auto simp: evidence_def not_ready_def split: option.splits bool.splits)
  show ?thesis
  proof (cases "rd_now (rds ! i) < hr_next_probe h")
    case True
    then have "h1 = h" using assms(1) alive by (simp add: evidence_def)
    then obtain j where "j < i" "rd_probe (rds ! j) = Some (hr_result h1)" "hr_next_probe h1 = rd_after (rds ! j) + probe_seconds"
      "\<forall>k. j \<le> k \<longrightarrow> k < i \<longrightarrow> rd_alive (rds ! k) = Some True \<and> rd_published (rds ! k)"
      using assms(2,3) by (auto simp: backed_def)
    then show ?thesis using alive True \<open>h1 = h\<close> by (intro conjI exI [of _ j]) auto
  next
    case False
    then have "rd_probe (rds ! i) = Some (hr_result h1)" "hr_next_probe h1 = rd_after (rds ! i) + probe_seconds"
      using assms(1) alive by (auto simp: evidence_def split: option.splits)
    then show ?thesis using alive by (intro conjI exI [of _ i]) auto
  qed
qed

lemma reporter_backed:
  "n \<le> length rds \<Longrightarrow> \<not> hr_stop (reporter_after True rds n)
     \<and> (ck_ready (hr_result (reporter_after True rds n)) \<longrightarrow> backed rds n (reporter_after True rds n))"
proof (induction n)
  case 0
  then show ?case by (simp add: reporter_after_def new_reporter_def not_ready_def)
next
  case (Suc n)
  let ?h = "reporter_after True rds n" and ?rd = "rds ! n"
  have ih: "\<not> hr_stop ?h" "ck_ready (hr_result ?h) \<Longrightarrow> backed rds n ?h" using Suc by auto
  have step: "reporter_after True rds (Suc n) = fst (report_round True ?rd ?h)" using Suc.prems by (simp add: reporter_after_Suc)
  show ?case
  proof (cases "evidence True ?rd ?h")
    case None
    then show ?thesis using ih step by (simp add: report_round_def Let_def not_ready_def)
  next
    case (Some h1)
    have stop: "\<not> hr_stop h1" using Some ih(1) by (auto simp: evidence_def split: option.splits bool.splits if_splits)
    show ?thesis
    proof (cases "rd_published ?rd")
      case True
      then have h1: "reporter_after True rds (Suc n) = h1" using Some stop step by (simp add: report_round_def Let_def)
      have "backed rds (Suc n) h1" if r: "ck_ready (hr_result h1)"
        using evidence_ready [OF Some r ih(2)] True unfolding backed_def by (metis le_imp_less_Suc less_Suc_eq_le le_neq_implies_less)
      then show ?thesis using h1 stop by simp
    next
      case False
      then show ?thesis using Some stop step by (simp add: report_round_def Let_def not_ready_def)
    qed
  qed
qed

definition sample_round :: "rat \<Rightarrow> check_result option \<Rightarrow> round" where
  "sample_round now answer = \<lparr>rd_alive = Some True, rd_probe = answer, rd_now = now, rd_after = now + 1, rd_published = True\<rparr>"

text \<open>Readiness is published only on evidence: in the round that publishes it the runtime is alive,
  and, where there is a probe, an answer of the probe said so in this round or less than thirty seconds
  before, with the runtime alive and every report delivered in all rounds since then.\<close>

theorem published_readiness_is_backed:
  assumes "i < length rds" and "report_rounds probed rds new_reporter ! i = Some r" and "ck_ready r"
  shows "rd_alive (rds ! i) = Some True \<and> (probed \<longrightarrow> (\<exists>j \<le> i. rd_probe (rds ! j) = Some r
    \<and> (j < i \<longrightarrow> rd_now (rds ! i) < rd_after (rds ! j) + 30)
    \<and> (\<forall>k. j \<le> k \<longrightarrow> k < i \<longrightarrow> rd_alive (rds ! k) = Some True \<and> rd_published (rds ! k))))"
proof -
  let ?h = "reporter_after probed rds i"
  have "snd (report_round probed (rds ! i) ?h) = Some r"
    using assms(1,2) by (simp add: report_rounds_nth reporter_after_def)
  then obtain h1 where h1: "evidence probed (rds ! i) ?h = Some h1" "hr_result h1 = r"
    by (auto simp: report_round_def Let_def split: option.splits if_splits)
  show ?thesis
  proof (cases probed)
    case False
    then show ?thesis using h1 assms(3) by (auto simp: evidence_def not_ready_def split: option.splits bool.splits)
  next
    case True
    have "backed rds i ?h" if "ck_ready (hr_result ?h)"
      using reporter_backed [of i rds] assms(1) that True by simp
    then show ?thesis
      using evidence_ready [of rds i ?h h1] h1 assms(3) True by (auto simp: probe_seconds_def)
  qed
qed

theorem published_readiness_is_backed_witness:
  "report_rounds True [sample_round 0 (Some ready_now), sample_round 6 None] new_reporter ! 1 = Some ready_now
   \<and> rd_alive ([sample_round 0 (Some ready_now), sample_round 6 None] ! 1) = Some True"
proof -
  let ?rds = "[sample_round 0 (Some ready_now), sample_round 6 None]"
  have r: "report_rounds True ?rds new_reporter ! 1 = Some ready_now"
    by (simp add: report_round_def evidence_def sample_round_def new_reporter_def probe_seconds_def Let_def)
  from published_readiness_is_backed [OF _ r] show ?thesis using r by (simp add: ready_now_def)
qed

end
