(* ===== verification/MqttCache.thy ===== *)
theory MqttCache
  imports Text
begin

text \<open>
  The cache of subscribed MQTT topics (litert_agent_tools/mqtt_cache.py). The callbacks of the MQTT
  client and the operations of other threads are events; a reader that waits gives the lock up, so a
  read takes the list of its wake-ups, each with the events that came before it and the clock at it,
  and has no result (\<open>None\<close>) while it still waits. The MQTT client is a library: that it was started,
  or could not be, is an argument.
\<close>

record mcache =
  mc_topics :: "str list"
  mc_max_age :: rat
  mc_client :: bool
  mc_connected :: bool
  mc_closed :: bool
  mc_values :: "(str, nat list \<times> rat \<times> bool) dict"

definition unique_topics :: "str list \<Rightarrow> str list" where
  "unique_topics ts = rev (remdups (rev ts))"

definition new_cache :: "str list \<Rightarrow> rat \<Rightarrow> mcache" where
  "new_cache topics max_age = \<lparr>mc_topics = unique_topics topics, mc_max_age = max_age, mc_client = False,
     mc_connected = False, mc_closed = False, mc_values = []\<rparr>"

definition start_cache :: "mcache \<Rightarrow> mcache" where
  "start_cache c = c\<lparr>mc_client := True\<rparr>"

definition on_connect :: "int \<Rightarrow> mcache \<Rightarrow> mcache" where
  "on_connect reason_code c =
     (if mc_closed c then c else c\<lparr>mc_values := [], mc_connected := (reason_code = 0)\<rparr>)"

text \<open>What is subscribed on a connection; quality of service 0 for every topic.\<close>

definition subscriptions :: "int \<Rightarrow> mcache \<Rightarrow> (str \<times> nat) list" where
  "subscriptions reason_code c =
     (if mc_closed c \<or> reason_code \<noteq> 0 then [] else map (\<lambda>t. (t, 0)) (mc_topics c))"

definition on_disconnect :: "mcache \<Rightarrow> mcache" where
  "on_disconnect c = c\<lparr>mc_connected := False, mc_values := []\<rparr>"

definition max_payload :: nat where
  "max_payload = 65536"

definition on_message :: "str \<Rightarrow> nat list \<Rightarrow> rat \<Rightarrow> bool \<Rightarrow> mcache \<Rightarrow> mcache" where
  "on_message topic payload now retained c =
     (if mc_closed c \<or> \<not> mc_connected c \<or> topic \<notin> set (mc_topics c) then c
      else if length payload > max_payload then c\<lparr>mc_values := ddel topic (mc_values c)\<rparr>
      else c\<lparr>mc_values := dput topic (payload, now, retained) (mc_values c)\<rparr>)"

definition close_cache :: "mcache \<Rightarrow> mcache" where
  "close_cache c = c\<lparr>mc_closed := True, mc_connected := False, mc_values := [], mc_client := False\<rparr>"

datatype cache_event =
    Ce_start
  | Ce_connect int
  | Ce_disconnect
  | Ce_message str "nat list" rat bool
  | Ce_close

definition cache_step :: "mcache \<Rightarrow> cache_event \<Rightarrow> mcache" where
  "cache_step c e =
     (case e of
        Ce_start \<Rightarrow> if mc_closed c then c else start_cache c
      | Ce_connect rc \<Rightarrow> on_connect rc c
      | Ce_disconnect \<Rightarrow> on_disconnect c
      | Ce_message topic payload now retained \<Rightarrow> on_message topic payload now retained c
      | Ce_close \<Rightarrow> close_cache c)"

datatype cache_read =
    Got "nat list" rat bool
  | Cache_closed
  | Start_failed
  | Message_expired
  | No_fresh_message

fun await_topic ::
  "str \<Rightarrow> rat \<Rightarrow> rat \<Rightarrow> (cache_event list \<times> rat) list \<Rightarrow> mcache \<Rightarrow> cache_read option \<times> mcache"
where
  "await_topic topic deadline now waits c =
     (if mc_closed c then (Some Cache_closed, c)
      else
        (case (if mc_connected c then dget (mc_values c) topic else None) of
           Some (payload, received, retained) \<Rightarrow>
             (Some (if now - received \<le> mc_max_age c then Got payload (now - received) retained else Message_expired), c)
         | None \<Rightarrow>
             if deadline - now \<le> 0 then (Some No_fresh_message, c)
             else (case waits of
                     [] \<Rightarrow> (None, c)
                   | (events, later) # rest \<Rightarrow> await_topic topic deadline later rest (foldl cache_step c events))))"

declare await_topic.simps [simp del]

definition read_topic ::
  "str \<Rightarrow> rat \<Rightarrow> bool \<Rightarrow> rat \<Rightarrow> rat \<Rightarrow> (cache_event list \<times> rat) list \<Rightarrow> mcache \<Rightarrow> cache_read option \<times> mcache"
where
  "read_topic topic timeout starts now0 now waits c =
     (if mc_closed c then (Some Cache_closed, c)
      else if \<not> mc_client c \<and> \<not> starts then (Some Start_failed, c)
      else await_topic topic (now0 + timeout) now waits (start_cache c))"

section \<open>What the cache holds\<close>

text \<open>An event that ends the validity of what was received on a topic.\<close>

definition ends_topic :: "str \<Rightarrow> cache_event \<Rightarrow> bool" where
  "ends_topic topic e \<longleftrightarrow>
     (case e of Ce_connect _ \<Rightarrow> True | Ce_disconnect \<Rightarrow> True | Ce_close \<Rightarrow> True
      | Ce_message t _ _ _ \<Rightarrow> t = topic | Ce_start \<Rightarrow> False)"

definition received :: "str \<Rightarrow> cache_event list \<Rightarrow> nat list \<Rightarrow> rat \<Rightarrow> bool \<Rightarrow> bool" where
  "received topic evs payload t retained \<longleftrightarrow>
     (\<exists>before since. evs = before @ Ce_message topic payload t retained # since
        \<and> list_all (\<lambda>e. \<not> ends_topic topic e) since)"

definition cache_ok :: "str list \<Rightarrow> cache_event list \<Rightarrow> mcache \<Rightarrow> bool" where
  "cache_ok topics evs c \<longleftrightarrow> set (mc_topics c) = set topics \<and> (mc_closed c \<longrightarrow> \<not> mc_connected c)
     \<and> (\<forall>topic payload t retained. dget (mc_values c) topic = Some (payload, t, retained) \<longrightarrow>
          mc_connected c \<and> topic \<in> set topics \<and> received topic evs payload t retained)"

lemma received_snoc:
  "received topic (evs @ [Ce_message topic payload t retained]) payload t retained"
  "received topic evs payload t retained \<Longrightarrow> \<not> ends_topic topic e \<Longrightarrow> received topic (evs @ [e]) payload t retained"
proof -
  show "received topic (evs @ [Ce_message topic payload t retained]) payload t retained"
    unfolding received_def by (intro exI [of _ evs] exI [of _ "[]"]) simp
  assume "received topic evs payload t retained" "\<not> ends_topic topic e"
  then obtain before since where "evs = before @ Ce_message topic payload t retained # since"
    "list_all (\<lambda>e. \<not> ends_topic topic e) (since @ [e])" by (auto simp: received_def)
  then show "received topic (evs @ [e]) payload t retained"
    unfolding received_def by (intro exI [of _ before] exI [of _ "since @ [e]"]) simp
qed

lemma cache_okI:
  assumes "set (mc_topics c) = set topics" and "mc_closed c \<Longrightarrow> \<not> mc_connected c"
    and "\<And>topic payload t retained. dget (mc_values c) topic = Some (payload, t, retained) \<Longrightarrow>
      mc_connected c \<and> topic \<in> set topics \<and> received topic evs payload t retained"
  shows "cache_ok topics evs c"
  using assms by (auto simp: cache_ok_def)

lemma cache_ok_step:
  assumes "cache_ok topics evs c"
  shows "cache_ok topics (evs @ [e]) (cache_step c e)"
proof (rule cache_okI)
  show "set (mc_topics (cache_step c e)) = set topics" "mc_closed (cache_step c e) \<Longrightarrow> \<not> mc_connected (cache_step c e)"
    using assms by (auto simp: cache_ok_def cache_step_def start_cache_def on_connect_def on_disconnect_def on_message_def
        close_cache_def split: cache_event.splits if_splits)
next
  fix topic payload t retained
  assume "dget (mc_values (cache_step c e)) topic = Some (payload, t, retained)"
  moreover have "\<And>p a r. dget (mc_values c) topic = Some (p, a, r) \<Longrightarrow>
      mc_connected c \<and> \<not> mc_closed c \<and> topic \<in> set topics \<and> received topic evs p a r"
    using assms by (auto simp: cache_ok_def)
  moreover have "set (mc_topics c) = set topics" using assms by (simp add: cache_ok_def)
  ultimately show "mc_connected (cache_step c e) \<and> topic \<in> set topics \<and> received topic (evs @ [e]) payload t retained"
    by (cases e) (auto simp: cache_step_def start_cache_def on_connect_def on_disconnect_def on_message_def
        close_cache_def ends_topic_def intro: received_snoc split: if_splits)
qed

lemma cache_ok_run: "cache_ok topics evs c \<Longrightarrow> cache_ok topics (evs @ es) (foldl cache_step c es)"
proof (induction es arbitrary: c evs)
  case (Cons e es)
  show ?case using Cons.IH [OF cache_ok_step [OF Cons.prems, of e]] by simp
qed simp

lemma cache_ok_new: "cache_ok topics [] (new_cache topics max_age)"
  by (simp add: cache_ok_def new_cache_def unique_topics_def)

text \<open>The events before the \<open>n\<close>-th wake-up, and the clock at it.\<close>

definition woken :: "(cache_event list \<times> rat) list \<Rightarrow> nat \<Rightarrow> cache_event list" where
  "woken waits n = concat (map fst (take n waits))"

definition wake_time :: "rat \<Rightarrow> (cache_event list \<times> rat) list \<Rightarrow> nat \<Rightarrow> rat" where
  "wake_time now waits n = (if n = 0 then now else snd (waits ! (n - 1)))"

lemma await_here: "snd (await_topic topic deadline now [] c) = c"
  by (auto simp: await_topic.simps [of topic deadline now] split: option.split)

lemma await_more:
  "await_topic topic deadline now (w # waits) c =
    (if fst (await_topic topic deadline now [] c) = None then await_topic topic deadline (snd w) waits (foldl cache_step c (fst w))
     else await_topic topic deadline now [] c)"
proof -
  obtain events later where w: "w = (events, later)" by (cases w)
  show ?thesis
    unfolding w await_topic.simps [of topic deadline now _ c] by (simp split: option.split)
qed

lemma await_result:
  "await_topic topic deadline now waits c = (Some r, c') \<Longrightarrow>
     \<exists>n \<le> length waits. c' = foldl cache_step c (woken waits n) \<and> await_topic topic deadline (wake_time now waits n) [] c' = (Some r, c')"
proof (induction waits arbitrary: now c)
  case Nil
  then show ?case using await_here [of topic deadline now c] by (simp add: woken_def wake_time_def)
next
  case (Cons w waits)
  show ?case
  proof (cases "fst (await_topic topic deadline now [] c) = None")
    case True
    with Cons.prems have "await_topic topic deadline (snd w) waits (foldl cache_step c (fst w)) = (Some r, c')"
      by (simp add: await_more)
    from Cons.IH [OF this] obtain n where n: "n \<le> length waits"
      "c' = foldl cache_step (foldl cache_step c (fst w)) (woken waits n)"
      "await_topic topic deadline (wake_time (snd w) waits n) [] c' = (Some r, c')" by blast
    moreover have "wake_time now (w # waits) (Suc n) = wake_time (snd w) waits n" by (cases n) (simp_all add: wake_time_def)
    ultimately show ?thesis by (intro exI [of _ "Suc n"]) (simp add: woken_def)
  next
    case False
    then have "await_topic topic deadline now [] c = (Some r, c')" using Cons.prems by (auto simp: await_more)
    then show ?thesis
      using await_here [of topic deadline now c] by (intro exI [of _ 0]) (simp add: woken_def wake_time_def)
  qed
qed

lemma await_due: "deadline \<le> now \<Longrightarrow> fst (await_topic topic deadline now waits c) \<noteq> None"
  by (auto simp: await_topic.simps [of topic deadline now] split: option.split)

lemma await_ends: "w \<in> set waits \<Longrightarrow> deadline \<le> snd w \<Longrightarrow> fst (await_topic topic deadline now waits c) \<noteq> None"
proof (induction waits arbitrary: now c)
  case (Cons w' waits)
  then have "fst (await_topic topic deadline (snd w') waits (foldl cache_step c (fst w'))) \<noteq> None"
    using await_due by auto
  then show ?case by (simp add: await_more)
qed simp

text \<open>A read never serves stale data and never waits beyond its deadline: what it returns is the last
  message received on the topic before it returns, without any connection event or close since, not
  older than the maximum age at that moment; and once it is woken at or after the deadline it has
  returned.\<close>

theorem cached_message_is_current:
  assumes "c = foldl cache_step (new_cache topics max_age) evs"
  shows "(\<forall>payload age retained c'. read_topic topic timeout starts now0 now waits c = (Some (Got payload age retained), c') \<longrightarrow>
      (\<exists>n \<le> length waits. \<exists>t. received topic (evs @ Ce_start # woken waits n) payload t retained
        \<and> age = wake_time now waits n - t \<and> age \<le> max_age \<and> topic \<in> set topics \<and> mc_connected c'))
    \<and> ((\<exists>w \<in> set waits. now0 + timeout \<le> snd w) \<longrightarrow> fst (read_topic topic timeout starts now0 now waits c) \<noteq> None)"
proof (intro conjI allI impI)
  have age: "mc_max_age (foldl cache_step d es) = mc_max_age d" for d es
    by (induction es arbitrary: d) (auto simp: cache_step_def start_cache_def on_connect_def on_disconnect_def on_message_def
        close_cache_def split: cache_event.split)
  fix payload age retained c'
  assume "read_topic topic timeout starts now0 now waits c = (Some (Got payload age retained), c')"
  then have a: "await_topic topic (now0 + timeout) now waits (start_cache c) = (Some (Got payload age retained), c')"
    and is_open: "\<not> mc_closed c" by (auto simp: read_topic_def split: if_splits)
  have start: "start_cache c = cache_step c Ce_start" using is_open by (simp add: cache_step_def)
  from await_result [OF a] obtain n where n: "n \<le> length waits" "c' = foldl cache_step (start_cache c) (woken waits n)"
    "await_topic topic (now0 + timeout) (wake_time now waits n) [] c' = (Some (Got payload age retained), c')" by blast
  have c': "c' = foldl cache_step (new_cache topics max_age) (evs @ Ce_start # woken waits n)"
    using n(2) start assms by simp
  have ok: "cache_ok topics (evs @ Ce_start # woken waits n) c'"
    using cache_ok_run [OF cache_ok_new [of topics max_age], of "evs @ Ce_start # woken waits n"] c' by simp
  from n(3) obtain t where t: "mc_connected c'" "dget (mc_values c') topic = Some (payload, t, retained)"
    "age = wake_time now waits n - t" "age \<le> mc_max_age c'"
    by (auto simp: await_topic.simps [of topic] split: if_splits option.splits)
  moreover have "mc_max_age c' = max_age" unfolding c' by (simp only: age) (simp add: new_cache_def)
  ultimately have "age \<le> max_age" by simp
  with t show "\<exists>n \<le> length waits. \<exists>t. received topic (evs @ Ce_start # woken waits n) payload t retained
      \<and> age = wake_time now waits n - t \<and> age \<le> max_age \<and> topic \<in> set topics \<and> mc_connected c'"
    using ok n(1) by (auto simp: cache_ok_def)
next
  assume "\<exists>w \<in> set waits. now0 + timeout \<le> snd w"
  then show "fst (read_topic topic timeout starts now0 now waits c) \<noteq> None"
    using await_ends by (fastforce simp: read_topic_def)
qed

theorem cached_message_is_current_witness:
  "\<exists>c'. read_topic [1] 5 True 10 10 [([Ce_connect 0, Ce_message [1] [7] 11 False], 12)]
     (foldl cache_step (new_cache [[1]] 60) [Ce_connect 0, Ce_disconnect]) = (Some (Got [7] 1 False), c') \<and> mc_connected c'"
proof -
  let ?c = "foldl cache_step (new_cache [[1]] 60) [Ce_connect 0, Ce_disconnect]"
  let ?r = "read_topic [1] 5 True 10 10 [([Ce_connect 0, Ce_message [1] [7] 11 False], 12)] ?c"
  have "fst ?r = Some (Got [7] 1 False)"
    by (simp add: read_topic_def await_topic.simps cache_step_def start_cache_def on_connect_def on_disconnect_def
        on_message_def new_cache_def unique_topics_def max_payload_def)
  then obtain c' where "?r = (Some (Got [7] 1 False), c')" by (cases ?r) simp
  with cached_message_is_current [OF refl, of "[1]" 5 True 10 10 "[([Ce_connect 0, Ce_message [1] [7] 11 False], 12)]"
      "[[1]]" 60 "[Ce_connect 0, Ce_disconnect]"] show ?thesis by blast
qed

end
