(* ===== verification/PyText.thy ===== *)
theory PyText
  imports Text
begin

text \<open>
  More of Python's text: UTF-8 (\<open>str.encode\<close>, and \<open>bytes.decode\<close> with \<open>errors="replace"\<close>),
  \<open>repr\<close> of a string, \<open>casefold\<close>, \<open>split(maxsplit=1)\<close>, \<open>rstrip\<close> and \<open>str.count\<close>. \<open>repr\<close> takes every
  character above Latin-1 as printable that is not white space or a surrogate.
\<close>

section \<open>UTF-8\<close>

text \<open>A code point that is not a surrogate.\<close>

definition scalar :: "nat \<Rightarrow> bool" where
  "scalar c \<longleftrightarrow> c < 0xD800 \<or> (0xDFFF < c \<and> c < 0x110000)"

definition utf8_char :: "nat \<Rightarrow> nat list" where
  "utf8_char c =
     (if c < 0x80 then [c]
      else if c < 0x800 then [0xC0 + c div 64, 0x80 + c mod 64]
      else if c < 0x10000 then [0xE0 + c div 4096, 0x80 + c div 64 mod 64, 0x80 + c mod 64]
      else [0xF0 + c div 262144, 0x80 + c div 4096 mod 64, 0x80 + c div 64 mod 64, 0x80 + c mod 64])"

text \<open>\<open>s.encode("utf-8")\<close>; \<open>None\<close> is the UnicodeEncodeError of a surrogate.\<close>

definition utf8_encode :: "str \<Rightarrow> nat list option" where
  "utf8_encode s = (if list_all scalar s then Some (concat (map utf8_char s)) else None)"

definition continuation :: "nat \<Rightarrow> bool" where
  "continuation b \<longleftrightarrow> 0x80 \<le> b \<and> b < 0xC0"

text \<open>The bounds of the second byte after the lead byte, and the number of bytes that follow.\<close>

definition second_ok :: "nat \<Rightarrow> nat \<Rightarrow> bool" where
  "second_ok a b \<longleftrightarrow> continuation b \<and> (a = 0xE0 \<longrightarrow> 0xA0 \<le> b) \<and> (a = 0xED \<longrightarrow> b < 0xA0)
     \<and> (a = 0xF0 \<longrightarrow> 0x90 \<le> b) \<and> (a = 0xF4 \<longrightarrow> b < 0x90)"

definition followers :: "nat \<Rightarrow> nat" where
  "followers a = (if 0xC2 \<le> a \<and> a < 0xE0 then 1 else if 0xE0 \<le> a \<and> a < 0xF0 then 2
     else if 0xF0 \<le> a \<and> a < 0xF5 then 3 else 0)"

text \<open>
  How many of the next bytes continue the sequence of lead byte \<open>a\<close>: a malformed sequence is
  replaced by one U+FFFD for its longest well-formed beginning.
\<close>

fun good_tail :: "nat \<Rightarrow> nat list \<Rightarrow> nat" where
  "good_tail 0 bs = 0"
| "good_tail (Suc n) [] = 0"
| "good_tail (Suc n) (b # bs) = (if continuation b then Suc (good_tail n bs) else 0)"

definition sequence_tail :: "nat \<Rightarrow> nat list \<Rightarrow> nat" where
  "sequence_tail a bs =
     (case bs of [] \<Rightarrow> 0 | b # r \<Rightarrow> if followers a > 0 \<and> second_ok a b then Suc (good_tail (followers a - 1) r) else 0)"

definition sequence_value :: "nat \<Rightarrow> nat list \<Rightarrow> nat" where
  "sequence_value a bs =
     foldl (\<lambda>v b. 64 * v + (b - 0x80))
       (if a < 0xE0 then a - 0xC0 else if a < 0xF0 then a - 0xE0 else a - 0xF0) bs"

function utf8_replace :: "nat list \<Rightarrow> str" where
  "utf8_replace [] = []"
| "utf8_replace (a # bs) =
     (if a < 0x80 then a # utf8_replace bs
      else
        (let k = sequence_tail a bs
         in (if 0 < followers a \<and> k = followers a then sequence_value a (take k bs) else 0xFFFD)
            # utf8_replace (drop k bs)))"
  by pat_completeness auto

termination
  by (relation "measure length") (auto simp: less_Suc_eq_le)

declare utf8_replace.simps(2) [simp del]

lemma utf8_replace_ascii: "a < 0x80 \<Longrightarrow> utf8_replace (a # bs) = a # utf8_replace bs"
  by (simp add: utf8_replace.simps)

lemma utf8_replace_seq:
  assumes "\<not> a < 0x80" "followers a = length t" "t \<noteq> []" "second_ok a (hd t)" "list_all continuation (tl t)"
  shows "utf8_replace (a # t @ r) = sequence_value a t # utf8_replace r"
proof -
  have tail: "good_tail (length s) (s @ r) = length s" if "list_all continuation s" for s
    using that by (induction s) auto
  obtain b s where t: "t = b # s" using assms(3) by (cases t) auto
  then have "sequence_tail a (t @ r) = length t"
    using assms tail [of s] by (simp add: sequence_tail_def)
  then show ?thesis
    using assms by (simp add: utf8_replace.simps(2) Let_def)
qed

lemma mod_from_div: "(x::nat) div k = q \<Longrightarrow> x mod k = x - k * q"
  by (simp add: modulo_nat_def mult.commute)

lemma utf8_replace_char:
  assumes "scalar c"
  shows "utf8_replace (utf8_char c @ r) = c # utf8_replace r"
proof -
  consider (one) "c < 0x80" | (two) "0x80 \<le> c" "c < 0x800" | (three) "0x800 \<le> c" "c < 0x10000"
    | (four) "0x10000 \<le> c" "c < 0x110000"
    using assms unfolding scalar_def by linarith
  then show ?thesis
  proof cases
    case one
    then show ?thesis by (simp add: utf8_char_def utf8_replace_ascii)
  next
    case two
    then have d: "2 \<le> c div 64" "c div 64 < 32" by simp_all
    have v: "64 * (c div 64) + c mod 64 = c" by simp
    have "utf8_replace ((0xC0 + c div 64) # [0x80 + c mod 64] @ r)
        = sequence_value (0xC0 + c div 64) [0x80 + c mod 64] # utf8_replace r"
      using d by (intro utf8_replace_seq) (auto simp: followers_def second_ok_def continuation_def)
    then show ?thesis using two d v by (auto simp: utf8_char_def sequence_value_def)
  next
    case three
    then have d: "c div 4096 < 16" "c div 64 mod 64 < 64" by simp_all
    have low: "c div 4096 = 0 \<Longrightarrow> 32 \<le> c div 64 mod 64"
      using three by (simp add: div_eq_0_iff)
    have sur: "c div 64 mod 64 < 32" if "c div 4096 = 13"
    proof -
      have "c < 0xD800 \<or> 0xDFFF < c" using assms three by (auto simp: scalar_def)
      moreover have "13 * 4096 \<le> c" "c < 14 * 4096"
        using that by (simp_all add: div_eq_dividend_iff)
      ultimately have c: "13 * 4096 \<le> c" "c < 0xD800" by auto
      then have "c div 64 < 0x360" by simp
      moreover have "c div 64 div 64 = 13" using that by (simp flip: div_mult2_eq)
      ultimately show ?thesis using mod_from_div [of "c div 64" 64 13] by simp
    qed
    have "c div 64 div 64 = c div 4096"
      by (simp flip: div_mult2_eq)
    then have "64 * (c div 4096) + c div 64 mod 64 = c div 64"
      using mult_div_mod_eq [of 64 "c div 64"] by simp
    then have v: "64 * (64 * (c div 4096) + c div 64 mod 64) + c mod 64 = c"
      using mult_div_mod_eq [of 64 c] by simp
    have "utf8_replace ((0xE0 + c div 4096) # [0x80 + c div 64 mod 64, 0x80 + c mod 64] @ r)
        = sequence_value (0xE0 + c div 4096) [0x80 + c div 64 mod 64, 0x80 + c mod 64] # utf8_replace r"
      using d low sur by (intro utf8_replace_seq) (auto simp: followers_def second_ok_def continuation_def)
    then show ?thesis using three d v by (simp add: utf8_char_def sequence_value_def)
  next
    case four
    then have d: "c div 262144 < 5" "c div 4096 mod 64 < 64" by simp_all
    have low: "16 \<le> c div 4096 mod 64" if "c div 262144 = 0"
    proof -
      have "c < 262144" using that by (simp add: div_eq_0_iff)
      then have "16 \<le> c div 4096" "c div 4096 < 64" using four by simp_all
      then show ?thesis by simp
    qed
    have high: "c div 4096 mod 64 < 16" if "c div 262144 = 4"
    proof -
      have "c div 4096 div 64 = 4" "c div 4096 < 0x110" using that four by (simp_all flip: div_mult2_eq)
      then show ?thesis using mod_from_div [of "c div 4096" 64 4] by simp
    qed
    have "c div 64 div 64 = c div 4096" "c div 4096 div 64 = c div 262144"
      by (simp_all flip: div_mult2_eq)
    then have "64 * (c div 262144) + c div 4096 mod 64 = c div 4096"
      "64 * (c div 4096) + c div 64 mod 64 = c div 64"
      using mult_div_mod_eq [of 64 "c div 4096"] mult_div_mod_eq [of 64 "c div 64"] by simp_all
    then have v: "64 * (64 * (64 * (c div 262144) + c div 4096 mod 64) + c div 64 mod 64) + c mod 64 = c"
      using mult_div_mod_eq [of 64 c] by simp
    have "utf8_replace ((0xF0 + c div 262144) # [0x80 + c div 4096 mod 64, 0x80 + c div 64 mod 64, 0x80 + c mod 64] @ r)
        = sequence_value (0xF0 + c div 262144) [0x80 + c div 4096 mod 64, 0x80 + c div 64 mod 64, 0x80 + c mod 64]
          # utf8_replace r"
      using d low high by (intro utf8_replace_seq) (auto simp: followers_def second_ok_def continuation_def)
    then show ?thesis using four d v by (simp add: utf8_char_def sequence_value_def)
  qed
qed

text \<open>Decoding what was encoded gives the text back.\<close>

lemma utf8_round_trip: "utf8_encode s = Some bs \<Longrightarrow> utf8_replace (bs @ r) = s @ utf8_replace r"
  unfolding utf8_encode_def
  by (induction s arbitrary: bs) (auto simp: utf8_replace_char split: if_splits)

lemma utf8_decode_encode [simp]: "utf8_encode s = Some bs \<Longrightarrow> utf8_replace bs = s"
  using utf8_round_trip [of s bs "[]"] by simp

lemma utf8_encode_append:
  "utf8_encode (a @ b) = Some bs \<longleftrightarrow> (\<exists>x y. utf8_encode a = Some x \<and> utf8_encode b = Some y \<and> bs = x @ y)"
  by (auto simp: utf8_encode_def)

section \<open>Text\<close>

definition hex_char :: "nat \<Rightarrow> nat" where
  "hex_char d = (if d < 10 then 48 + d else 87 + d)"

definition repr_char :: "nat \<Rightarrow> nat \<Rightarrow> str" where
  "repr_char q c =
     (if c = q \<or> c = 92 then [92, c]
      else if c = 10 then [92, 110] else if c = 13 then [92, 114] else if c = 9 then [92, 116]
      else if c < 32 \<or> (127 \<le> c \<and> c \<le> 160) \<or> c = 173 then [92, 120, hex_char (c div 16), hex_char (c mod 16)]
      else if is_space c \<and> c \<noteq> 32 \<or> (0xD800 \<le> c \<and> c \<le> 0xDFFF)
      then [92, 117, hex_char (c div 4096), hex_char (c div 256 mod 16), hex_char (c div 16 mod 16), hex_char (c mod 16)]
      else [c])"

definition py_repr :: "str \<Rightarrow> str" where
  "py_repr s =
     (let q = (if 39 \<in> set s \<and> 34 \<notin> set s then 34 else 39) in q # concat (map (repr_char q) s) @ [q])"

definition casefold :: "str \<Rightarrow> str" where
  "casefold s = concat (map (\<lambda>c. if c = 0xDF then [115, 115] else if c = 0xB5 then [0x3BC] else lower_char c) s)"

text \<open>\<open>s.rstrip()\<close> and \<open>s.rstrip(chars)\<close>.\<close>

definition rstrip :: "str \<Rightarrow> str" where
  "rstrip s = rev (lstrip (rev s))"

definition rstrip_of :: "nat list \<Rightarrow> str \<Rightarrow> str" where
  "rstrip_of cs s = rev (dropWhile (\<lambda>c. c \<in> set cs) (rev s))"

text \<open>\<open>s.split(maxsplit=1)\<close>: the first word and, when there is one, the rest from its first character that is no space.\<close>

definition split_once :: "str \<Rightarrow> str list" where
  "split_once s =
     (let t = lstrip s; w = takeWhile (\<lambda>c. \<not> is_space c) t; r = lstrip (dropWhile (\<lambda>c. \<not> is_space c) t)
      in if t = [] then [] else if r = [] then [w] else [w, r])"

definition first_word :: "str \<Rightarrow> str" where
  "first_word s = takeWhile (\<lambda>c. \<not> is_space c) (lstrip s)"

text \<open>\<open>s.count(m)\<close> of a non-empty \<open>m\<close>, and \<open>s.split(m, 1)\<close>.\<close>

function count_of :: "str \<Rightarrow> str \<Rightarrow> nat" where
  "count_of m s =
     (if s = [] \<or> m = [] then 0
      else if startswith s m then Suc (count_of m (drop (length m) s))
      else count_of m (tl s))"
  by pat_completeness auto

termination
  by (relation "measure (\<lambda>(m, s). length s)") auto

declare count_of.simps [simp del]

fun split_at :: "str \<Rightarrow> str \<Rightarrow> str \<Rightarrow> str \<times> str" where
  "split_at m acc [] = (rev acc, [])"
| "split_at m acc (c # cs) =
     (if startswith (c # cs) m then (rev acc, drop (length m) (c # cs)) else split_at m (c # acc) cs)"

text \<open>\<open>sep.join(parts)\<close> for any separator.\<close>

fun join_with :: "str \<Rightarrow> str list \<Rightarrow> str" where
  "join_with sep [] = []"
| "join_with sep [w] = w"
| "join_with sep (w # v # ws) = w @ sep @ join_with sep (v # ws)"

lemma split_at_append:
  "startswith (drop k s) m \<Longrightarrow> k < length s \<Longrightarrow> \<exists>a b. split_at m acc s = (a, b) \<and> rev acc @ s = a @ m @ b"
proof (induction s arbitrary: k acc)
  case Nil
  then show ?case by simp
next
  case (Cons c cs)
  show ?case
  proof (cases "startswith (c # cs) m")
    case True
    then obtain r where r: "c # cs = m @ r" by (auto simp: startswith_iff)
    have "split_at m acc (c # cs) = (rev acc, drop (length m) (c # cs))"
      using True by simp
    also have "drop (length m) (c # cs) = r" unfolding r by simp
    finally show ?thesis using r by auto
  next
    case False
    then obtain j where "k = Suc j" using Cons.prems by (cases k) auto
    then show ?thesis using Cons.IH [of j "c # acc"] Cons.prems False by auto
  qed
qed

end
