(* ===== verification/FileTree.thy ===== *)
theory FileTree
  imports PyText Json
begin

text \<open>
  The file system as \<open>pathlib\<close>, \<open>os\<close> and \<open>shutil\<close> show it to the sources: a tree of directories,
  regular files and symbolic links, keyed by absolute paths. Path resolution follows links, at
  most forty of them, as the kernel does; \<open>realpath\<close> also passes through names that do not exist.
  The owner of the process may do everything: permissions, full devices and special files are
  left out, and so are times and modes.
\<close>

section \<open>Paths\<close>

type_synonym path = "str list"

datatype anchor = Relative | Anchored | Double_slash

definition dotdot :: str where
  "dotdot = u ''..''"

definition path_parts :: "str \<Rightarrow> str list" where
  "path_parts s = filter (\<lambda>c. c \<noteq> [] \<and> c \<noteq> u ''.'') (split_on 47 s)"

definition parse_path :: "str \<Rightarrow> anchor \<times> str list" where
  "parse_path s =
     (if startswith s (u ''//'') \<and> \<not> startswith s (u ''///'') then Double_slash
      else if startswith s (u ''/'') then Anchored else Relative, path_parts s)"

definition show_path :: "path \<Rightarrow> str" where
  "show_path p = 47 # join_on 47 p"

text \<open>\<open>p.relative_to(base)\<close> succeeds: a comparison of the names, whatever they stand for.\<close>

definition inside :: "path \<Rightarrow> path \<Rightarrow> bool" where
  "inside base p \<longleftrightarrow> take (length base) p = base"

lemma inside_iff: "inside base p \<longleftrightarrow> (\<exists>r. p = base @ r)"
  unfolding inside_def by (metis append_eq_conv_conj append_take_drop_id)

lemma inside_append [simp, intro]: "inside base p \<Longrightarrow> inside base (p @ q)"
  by (auto simp: inside_iff)

lemma inside_self [simp]: "inside base base" "inside [] p"
  by (simp_all add: inside_def)

lemma inside_trans: "inside a b \<Longrightarrow> inside b c \<Longrightarrow> inside a c"
  by (auto simp: inside_iff)

lemma inside_butlast: "inside base p \<Longrightarrow> p \<noteq> base \<Longrightarrow> inside base (butlast p)"
  by (auto simp: inside_iff butlast_append)

lemma inside_antisym: "inside a b \<Longrightarrow> inside b a \<Longrightarrow> a = b"
  by (auto simp: inside_iff)

section \<open>The tree\<close>

datatype node = Dir | Regular "nat list" | Symlink bool "str list"

text \<open>A link holds whether its target is absolute, and the names of the target.\<close>

type_synonym fs = "(path, node) dict"

definition node_at :: "fs \<Rightarrow> path \<Rightarrow> node option" where
  "node_at fs p = (if p = [] then Some Dir else dget fs p)"

definition max_links :: nat where
  "max_links = 40"

datatype errno = ENOENT | EEXIST | ENOTDIR | EISDIR | EINVAL | ENOTEMPTY | ELOOP | EBUSY

text \<open>
  The kernel's walk: \<open>walk create fs n done todo\<close> follows \<open>todo\<close> from the directory \<open>done\<close>; with
  \<open>create\<close> the last name need not exist.
\<close>

fun walk :: "bool \<Rightarrow> fs \<Rightarrow> nat \<Rightarrow> path \<Rightarrow> str list \<Rightarrow> errno + path" where
  "walk create fs n done [] = Inr done"
| "walk create fs n done (c # cs) =
     (if node_at fs done \<noteq> Some Dir then Inl ENOTDIR
      else if c = dotdot then walk create fs n (butlast done) cs
      else case node_at fs (done @ [c]) of
        None \<Rightarrow> if create \<and> cs = [] then Inr (done @ [c]) else Inl ENOENT
      | Some (Symlink absolute target) \<Rightarrow>
          (case n of 0 \<Rightarrow> Inl ELOOP
           | Suc m \<Rightarrow> walk create fs m (if absolute then [] else done) (target @ cs))
      | Some _ \<Rightarrow> walk create fs n (done @ [c]) cs)"

text \<open>\<open>os.path.realpath\<close>; \<open>None\<close> is a loop of links.\<close>

fun realpath :: "fs \<Rightarrow> nat \<Rightarrow> path \<Rightarrow> str list \<Rightarrow> path option" where
  "realpath fs n done [] = Some done"
| "realpath fs n done (c # cs) =
     (if c = dotdot then realpath fs n (butlast done) cs
      else case node_at fs (done @ [c]) of
        Some (Symlink absolute target) \<Rightarrow>
          (case n of 0 \<Rightarrow> None | Suc m \<Rightarrow> realpath fs m (if absolute then [] else done) (target @ cs))
      | _ \<Rightarrow> realpath fs n (done @ [c]) cs)"

definition at_path :: "fs \<Rightarrow> path \<Rightarrow> errno + path" where
  "at_path fs p = walk False fs max_links [] p"

definition stat :: "fs \<Rightarrow> path \<Rightarrow> (path \<times> node) option" where
  "stat fs p =
     (case at_path fs p of Inl e \<Rightarrow> None
      | Inr q \<Rightarrow> (case node_at fs q of None \<Rightarrow> None | Some nd \<Rightarrow> Some (q, nd)))"

definition path_exists :: "fs \<Rightarrow> path \<Rightarrow> bool" where
  "path_exists fs p \<longleftrightarrow> stat fs p \<noteq> None"

definition is_dir :: "fs \<Rightarrow> path \<Rightarrow> bool" where
  "is_dir fs p \<longleftrightarrow> (case stat fs p of Some (_, Dir) \<Rightarrow> True | _ \<Rightarrow> False)"

definition is_file :: "fs \<Rightarrow> path \<Rightarrow> bool" where
  "is_file fs p \<longleftrightarrow> (case stat fs p of Some (_, Regular _) \<Rightarrow> True | _ \<Rightarrow> False)"

definition read_bytes :: "fs \<Rightarrow> path \<Rightarrow> nat list" where
  "read_bytes fs p = (case stat fs p of Some (_, Regular bs) \<Rightarrow> bs | _ \<Rightarrow> [])"

text \<open>The directory entry of a path: its parent is followed, the last name is not.\<close>

definition entry_of :: "fs \<Rightarrow> path \<Rightarrow> errno + path" where
  "entry_of fs p =
     try_bind (at_path fs (butlast p))
       (\<lambda>d. if node_at fs d \<noteq> Some Dir then Inl ENOTDIR else Inr (d @ [last p]))"

definition is_symlink :: "fs \<Rightarrow> path \<Rightarrow> bool" where
  "is_symlink fs p \<longleftrightarrow> p \<noteq> [] \<and> last p \<noteq> dotdot
     \<and> (case entry_of fs p of Inl e \<Rightarrow> False
        | Inr q \<Rightarrow> (case node_at fs q of Some (Symlink _ _) \<Rightarrow> True | _ \<Rightarrow> False))"

definition dir_entries :: "fs \<Rightarrow> path \<Rightarrow> str list" where
  "dir_entries fs d = map last (filter (\<lambda>p. p \<noteq> [] \<and> butlast p = d) (map fst fs))"

section \<open>System calls\<close>

definition os_mkdir :: "fs \<Rightarrow> path \<Rightarrow> errno + fs" where
  "os_mkdir fs p =
     (if p = [] \<or> last p = dotdot then try_bind (at_path fs p) (\<lambda>_. Inl EEXIST)
      else try_bind (entry_of fs p) (\<lambda>q. if node_at fs q \<noteq> None then Inl EEXIST else Inr (dput q Dir fs)))"

text \<open>Opening for writing: a last link is followed, a missing file is created.\<close>

definition os_write :: "fs \<Rightarrow> path \<Rightarrow> (nat list \<Rightarrow> nat list) \<Rightarrow> errno + fs" where
  "os_write fs p f =
     try_bind (walk True fs max_links [] p) (\<lambda>q.
       case node_at fs q of
         Some Dir \<Rightarrow> Inl EISDIR
       | Some (Regular old) \<Rightarrow> Inr (dput q (Regular (f old)) fs)
       | _ \<Rightarrow> Inr (dput q (Regular (f [])) fs))"

definition os_unlink :: "fs \<Rightarrow> path \<Rightarrow> errno + fs" where
  "os_unlink fs p =
     (if p = [] \<or> last p = dotdot then Inl EISDIR
      else try_bind (entry_of fs p) (\<lambda>q.
        case node_at fs q of None \<Rightarrow> Inl ENOENT | Some Dir \<Rightarrow> Inl EISDIR | Some _ \<Rightarrow> Inr (ddel q fs)))"

text \<open>The subtree at \<open>s\<close> takes the place of what is at \<open>t\<close>.\<close>

definition move_tree :: "path \<Rightarrow> path \<Rightarrow> fs \<Rightarrow> fs" where
  "move_tree s t fs =
     map (\<lambda>(p, nd). (if inside s p then t @ drop (length s) p else p, nd)) (filter (\<lambda>(p, nd). \<not> inside t p) fs)"

definition os_rename :: "fs \<Rightarrow> path \<Rightarrow> path \<Rightarrow> errno + fs" where
  "os_rename fs src dst =
     (if src = [] \<or> dst = [] \<or> last src = dotdot \<or> last dst = dotdot then Inl EBUSY
      else try_bind (entry_of fs src) (\<lambda>s. try_bind (entry_of fs dst) (\<lambda>t.
        case node_at fs s of
          None \<Rightarrow> Inl ENOENT
        | Some nd \<Rightarrow>
            if s = t then Inr fs
            else if inside s t then Inl EINVAL
            else (case node_at fs t of
                    None \<Rightarrow> Inr (move_tree s t fs)
                  | Some Dir \<Rightarrow> if nd \<noteq> Dir then Inl EISDIR
                      else if dir_entries fs t \<noteq> [] then Inl ENOTEMPTY else Inr (move_tree s t fs)
                  | Some _ \<Rightarrow> if nd = Dir then Inl ENOTDIR else Inr (move_tree s t fs)))))"

section \<open>Exceptions\<close>

text \<open>
  A raised exception: an OSError with its class and text, a ValueError, or the RuntimeError of
  \<open>Path.resolve\<close> on a loop of links.
\<close>

datatype fs_exc = Os_exc str str | Value_exc str | Loop_exc str

definition errno_class :: "errno \<Rightarrow> str" where
  "errno_class e = (case e of ENOENT \<Rightarrow> u ''FileNotFoundError'' | EEXIST \<Rightarrow> u ''FileExistsError''
     | ENOTDIR \<Rightarrow> u ''NotADirectoryError'' | EISDIR \<Rightarrow> u ''IsADirectoryError'' | _ \<Rightarrow> u ''OSError'')"

definition errno_text :: "errno \<Rightarrow> str" where
  "errno_text e = (case e of
       ENOENT \<Rightarrow> u ''[Errno 2] No such file or directory'' | EEXIST \<Rightarrow> u ''[Errno 17] File exists''
     | ENOTDIR \<Rightarrow> u ''[Errno 20] Not a directory'' | EISDIR \<Rightarrow> u ''[Errno 21] Is a directory''
     | EINVAL \<Rightarrow> u ''[Errno 22] Invalid argument'' | ENOTEMPTY \<Rightarrow> u ''[Errno 39] Directory not empty''
     | ELOOP \<Rightarrow> u ''[Errno 40] Too many levels of symbolic links''
     | EBUSY \<Rightarrow> u ''[Errno 16] Device or resource busy'')"

definition os_exc :: "errno \<Rightarrow> path \<Rightarrow> fs_exc" where
  "os_exc e p = Os_exc (errno_class e) (errno_text e @ u '': '' @ py_repr (show_path p))"

section \<open>Library operations\<close>

text \<open>A system call on the tree: an error leaves it as it is.\<close>

definition on_tree :: "(errno + fs) \<Rightarrow> path \<Rightarrow> fs \<Rightarrow> (fs_exc + unit) \<times> fs" where
  "on_tree r p fs = (case r of Inl e \<Rightarrow> (Inl (os_exc e p), fs) | Inr fs' \<Rightarrow> (Inr (), fs'))"

text \<open>\<open>Path.mkdir(parents, exist_ok)\<close>.\<close>

definition mkdir_once :: "bool \<Rightarrow> path \<Rightarrow> fs \<Rightarrow> (fs_exc + unit) \<times> fs" where
  "mkdir_once exist_ok p fs =
     (case os_mkdir fs p of
        Inr fs' \<Rightarrow> (Inr (), fs')
      | Inl e \<Rightarrow> if e \<noteq> ENOENT \<and> exist_ok \<and> is_dir fs p then (Inr (), fs) else (Inl (os_exc e p), fs))"

function mkdir_parents :: "bool \<Rightarrow> path \<Rightarrow> fs \<Rightarrow> (fs_exc + unit) \<times> fs" where
  "mkdir_parents exist_ok p fs =
     (if os_mkdir fs p = Inl ENOENT \<and> p \<noteq> [] then
        then_do (mkdir_parents True (butlast p) fs) (\<lambda>_. mkdir_once exist_ok p)
      else mkdir_once exist_ok p fs)"
  by pat_completeness auto

termination
  by (relation "measure (\<lambda>(ok, p, fs). length p)") auto

declare mkdir_parents.simps [simp del]

definition path_mkdir :: "bool \<Rightarrow> bool \<Rightarrow> path \<Rightarrow> fs \<Rightarrow> (fs_exc + unit) \<times> fs" where
  "path_mkdir parents exist_ok p fs =
     (if parents then mkdir_parents exist_ok p fs else mkdir_once exist_ok p fs)"

definition touch :: "path \<Rightarrow> fs \<Rightarrow> (fs_exc + unit) \<times> fs" where
  "touch p fs = (if path_exists fs p then (Inr (), fs) else on_tree (os_write fs p (\<lambda>old. old)) p fs)"

text \<open>\<open>os.makedirs\<close>, as \<open>shutil.copytree\<close> calls it.\<close>

function makedirs :: "path \<Rightarrow> fs \<Rightarrow> (fs_exc + unit) \<times> fs" where
  "makedirs p fs =
     (if p \<noteq> [] \<and> butlast p \<noteq> [] \<and> \<not> path_exists fs (butlast p) then
        (case makedirs (butlast p) fs of
           (Inl (Os_exc cls txt), fs') \<Rightarrow>
             if cls = u ''FileExistsError'' then on_tree (os_mkdir fs' p) p fs' else (Inl (Os_exc cls txt), fs')
         | (Inl x, fs') \<Rightarrow> (Inl x, fs')
         | (Inr _, fs') \<Rightarrow> on_tree (os_mkdir fs' p) p fs')
      else on_tree (os_mkdir fs p) p fs)"
  by pat_completeness auto

termination
  by (relation "measure (\<lambda>(p, fs). length p)") auto

declare makedirs.simps [simp del]

definition same_file :: "fs \<Rightarrow> path \<Rightarrow> path \<Rightarrow> bool" where
  "same_file fs a b \<longleftrightarrow> stat fs a \<noteq> None \<and> stat fs a = stat fs b"

definition into_dir :: "fs \<Rightarrow> path \<Rightarrow> path \<Rightarrow> path" where
  "into_dir fs src dst = (if is_dir fs dst then dst @ [last src] else dst)"

text \<open>\<open>shutil.copy2\<close> of a regular file.\<close>

definition copy2 :: "path \<Rightarrow> path \<Rightarrow> fs \<Rightarrow> (fs_exc + unit) \<times> fs" where
  "copy2 src dst fs =
     (let t = into_dir fs src dst
      in if same_file fs src t
         then (Inl (Os_exc (u ''SameFileError'')
                 (py_repr (show_path src) @ u '' and '' @ py_repr (show_path t) @ u '' are the same file'')), fs)
         else on_tree (os_write fs t (\<lambda>_. read_bytes fs src)) t fs)"

definition quoted :: "path \<Rightarrow> str" where
  "quoted p = 39 # show_path p @ [39]"

text \<open>\<open>_destinsrc\<close> compares absolute paths with \<open>..\<close> removed.\<close>

definition normalised :: "path \<Rightarrow> path" where
  "normalised p = (if p \<noteq> [] \<and> last p = dotdot then butlast (butlast p) else p)"

text \<open>
  \<open>shutil.move\<close> of an existing path that is not a link, when \<open>os.rename\<close> has failed: a directory is
  copied with its parents made, which on the tree is the same as moving it (\<open>move_tree\<close> takes the
  place of the new empty directory), and a file is copied.
\<close>

definition copy_and_remove :: "path \<Rightarrow> path \<Rightarrow> path \<Rightarrow> fs \<Rightarrow> (fs_exc + unit) \<times> fs" where
  "copy_and_remove src dst target fs =
     (if is_dir fs src then
        (if inside src (normalised dst)
         then (Inl (Os_exc (u ''Error'') (u ''Cannot move a directory '' @ quoted src @ u '' into itself '' @ quoted dst @ u ''.'')), fs)
         else then_do (makedirs target fs) (\<lambda>_ fs'. (Inr (), move_tree src target fs')))
      else then_do (copy2 src target fs) (\<lambda>_ fs'. on_tree (os_unlink fs' src) src fs'))"

definition move :: "path \<Rightarrow> path \<Rightarrow> fs \<Rightarrow> (fs_exc + unit) \<times> fs" where
  "move src dst fs =
     (if is_dir fs dst \<and> same_file fs src dst then on_tree (os_rename fs src dst) src fs
      else if is_dir fs dst \<and> path_exists fs (dst @ [last src])
      then (Inl (Os_exc (u ''Error'') (u ''Destination path '' @ quoted (dst @ [last src]) @ u '' already exists'')), fs)
      else
        (let target = into_dir fs src dst
         in case os_rename fs src target of
              Inr fs' \<Rightarrow> (Inr (), fs')
            | Inl e \<Rightarrow> copy_and_remove src dst target fs))"

end
