(* ===== verification/FileProps.thy ===== *)
theory FileProps
  imports FileTree
begin

text \<open>
  What the operations on the tree keep: it stays a tree, and an operation on a path of a workspace
  without links changes nothing outside that workspace.
\<close>

section \<open>Trees\<close>

definition tree_ok :: "fs \<Rightarrow> bool" where
  "tree_ok fs \<longleftrightarrow> dwf fs \<and> (\<forall>p nd. dget fs p = Some nd \<longrightarrow>
     p \<noteq> [] \<and> dotdot \<notin> set p \<and> node_at fs (butlast p) = Some Dir)"

text \<open>A path on which there is no link.\<close>

definition linkless :: "node option \<Rightarrow> bool" where
  "linkless x \<longleftrightarrow> (case x of Some (Symlink _ _) \<Rightarrow> False | _ \<Rightarrow> True)"

definition canon :: "fs \<Rightarrow> path \<Rightarrow> bool" where
  "canon fs p \<longleftrightarrow> dotdot \<notin> set p \<and> (\<forall>k. linkless (node_at fs (take k p)))"

text \<open>The workspace at \<open>base\<close> is a directory that no link leads to or leaves.\<close>

definition workspace_ok :: "path \<Rightarrow> fs \<Rightarrow> bool" where
  "workspace_ok base fs \<longleftrightarrow> tree_ok fs \<and> base \<noteq> [] \<and> node_at fs base = Some Dir \<and> canon fs base
     \<and> (\<forall>p. inside base p \<longrightarrow> linkless (node_at fs p))"

definition confined :: "path \<Rightarrow> fs \<Rightarrow> fs \<Rightarrow> bool" where
  "confined base fs fs' \<longleftrightarrow> (\<forall>p. \<not> inside base p \<longrightarrow> node_at fs' p = node_at fs p)"

definition safe_step :: "path \<Rightarrow> fs \<Rightarrow> fs \<Rightarrow> bool" where
  "safe_step base fs fs' \<longleftrightarrow> workspace_ok base fs' \<and> confined base fs fs'"

lemma confined_refl [simp]: "confined base fs fs"
  by (simp add: confined_def)

lemma confined_trans: "confined base a b \<Longrightarrow> confined base b c \<Longrightarrow> confined base a c"
  by (simp add: confined_def)

lemma safe_refl [simp]: "safe_step base fs fs \<longleftrightarrow> workspace_ok base fs"
  by (simp add: safe_step_def)

lemma safe_trans: "safe_step base a b \<Longrightarrow> safe_step base b c \<Longrightarrow> safe_step base a c"
  by (auto simp: safe_step_def intro: confined_trans)

lemma safe_ok: "safe_step base a b \<Longrightarrow> workspace_ok base b"
  by (simp add: safe_step_def)

lemma node_at_Nil [simp]: "node_at fs [] = Some Dir"
  by (simp add: node_at_def)

lemma node_at_dput: "p \<noteq> [] \<Longrightarrow> node_at (dput p nd fs) q = (if q = p then Some nd else node_at fs q)"
  by (simp add: node_at_def)

lemma node_at_ddel: "p \<noteq> [] \<Longrightarrow> node_at (ddel p fs) q = (if q = p then None else node_at fs q)"
  by (simp add: node_at_def)

lemma linkless_simps [simp]: "linkless None" "linkless (Some Dir)" "linkless (Some (Regular b))"
  "\<not> linkless (Some (Symlink a t))"
  by (simp_all add: linkless_def)

lemma tree_parent:
  assumes "tree_ok fs" "node_at fs p \<noteq> None" "p \<noteq> []"
  shows "node_at fs (butlast p) = Some Dir" "dotdot \<notin> set p"
  using assms unfolding tree_ok_def node_at_def [of fs p] by auto

lemma tree_prefix:
  assumes "tree_ok fs" "node_at fs (p @ q) \<noteq> None" "q \<noteq> []"
  shows "node_at fs p = Some Dir"
  using assms(2,3)
proof (induction q rule: rev_induct)
  case Nil
  then show ?case by simp
next
  case (snoc x q)
  then have "node_at fs (p @ q) = Some Dir"
    using tree_parent(1) [OF assms(1), of "p @ q @ [x]"] by (simp add: butlast_append)
  then show ?case using snoc by (cases "q = []") auto
qed

lemma tree_below:
  assumes "tree_ok fs" "node_at fs p \<noteq> Some Dir" "inside p q" "q \<noteq> p"
  shows "node_at fs q = None"
  using assms tree_prefix [OF assms(1)] by (auto simp: inside_iff)

section \<open>Walks along canonical paths\<close>

lemma canonD: "canon fs p \<Longrightarrow> linkless (node_at fs (take k p))" "canon fs p \<Longrightarrow> dotdot \<notin> set p"
  by (simp_all add: canon_def)

lemma canon_prefix: "canon fs (p @ q) \<Longrightarrow> canon fs p"
proof -
  assume c: "canon fs (p @ q)"
  have "linkless (node_at fs (take k p))" for k
    using canonD(1) [OF c, of "min k (length p)"] by (simp add: min_def split: if_splits)
  then show ?thesis using c by (simp add: canon_def)
qed

lemma canon_self: "canon fs p \<Longrightarrow> linkless (node_at fs p)"
  using canonD(1) [of fs p "length p"] by simp

lemma walk_canon:
  "walk create fs n d cs = Inr q \<Longrightarrow> canon fs (d @ cs) \<Longrightarrow> q = d @ cs"
proof (induction create fs n d cs rule: walk.induct)
  case (1 create fs n d)
  then show ?case by simp
next
  case (2 create fs n d c cs)
  have "canon fs (d @ [c])" using 2(6) canon_prefix [of fs "d @ [c]" cs] by simp
  then have "linkless (node_at fs (d @ [c]))" "c \<noteq> dotdot"
    by (auto dest: canon_self canonD(2))
  then show ?case
    using 2 by (auto split: if_splits option.splits node.splits)
qed

lemma walk_reaches:
  assumes "tree_ok fs"
  shows "canon fs (d @ cs) \<Longrightarrow> node_at fs (d @ cs) \<noteq> None \<Longrightarrow> walk create fs n d cs = Inr (d @ cs)"
proof (induction cs arbitrary: d)
  case Nil
  then show ?case by simp
next
  case (Cons c cs)
  have c: "canon fs (d @ [c])" using Cons.prems(1) canon_prefix [of fs "d @ [c]" cs] by simp
  then have nl: "linkless (node_at fs (d @ [c]))" "c \<noteq> dotdot"
    by (auto dest: canon_self canonD(2))
  have d: "node_at fs d = Some Dir"
    using tree_prefix [OF assms, of d "c # cs"] Cons.prems(2) by simp
  have ex: "node_at fs (d @ [c]) \<noteq> None"
    using tree_prefix [OF assms, of "d @ [c]" cs] Cons.prems(2) by (cases "cs = []") auto
  show ?case
    using Cons.IH [of "d @ [c]"] Cons.prems nl d ex by (auto split: option.splits node.splits)
qed

lemma walk_exists:
  "walk create fs n d cs = Inr q \<Longrightarrow> node_at fs d \<noteq> None \<Longrightarrow> tree_ok fs \<Longrightarrow>
   node_at fs q \<noteq> None \<or> (create \<and> q \<noteq> [] \<and> node_at fs (butlast q) = Some Dir)"
proof (induction create fs n d cs rule: walk.induct)
  case (1 create fs n d)
  then show ?case by simp
next
  case (2 create fs n d c cs)
  have up: "node_at fs (butlast d) \<noteq> None"
    using 2(6-7) tree_parent(1) [OF 2(7), of d] by (cases "d = []") auto
  show ?case
    using 2(1-5) up 2(6-7) by (auto split: if_splits option.splits node.splits nat.splits)
qed

lemma walk_no_dotdot:
  "walk create fs n d cs = Inr q \<Longrightarrow> dotdot \<notin> set d \<Longrightarrow> dotdot \<notin> set q"
  by (induction create fs n d cs rule: walk.induct)
    (auto split: if_splits option.splits node.splits nat.splits dest: in_set_butlastD)

lemma realpath_no_dotdot:
  "realpath fs n d cs = Some q \<Longrightarrow> dotdot \<notin> set d \<Longrightarrow> dotdot \<notin> set q"
  by (induction fs n d cs rule: realpath.induct)
    (auto split: if_splits option.splits node.splits nat.splits dest: in_set_butlastD)

lemma at_path_canon: "canon fs p \<Longrightarrow> at_path fs p = Inr q \<Longrightarrow> q = p"
  unfolding at_path_def using walk_canon [of False fs max_links "[]" p q] by simp

lemma at_path_reaches: "tree_ok fs \<Longrightarrow> canon fs p \<Longrightarrow> node_at fs p \<noteq> None \<Longrightarrow> at_path fs p = Inr p"
  unfolding at_path_def using walk_reaches [of fs "[]" p] by simp

lemma at_path_exists: "at_path fs p = Inr q \<Longrightarrow> tree_ok fs \<Longrightarrow> node_at fs q \<noteq> None"
  unfolding at_path_def using walk_exists [of False fs max_links "[]" p q] by simp

lemma at_path_no_dotdot: "at_path fs p = Inr q \<Longrightarrow> dotdot \<notin> set q"
  unfolding at_path_def using walk_no_dotdot [of False fs max_links "[]" p q] by simp

lemma stat_SomeD: "stat fs p = Some (q, nd) \<Longrightarrow> at_path fs p = Inr q \<and> node_at fs q = Some nd"
  by (auto simp: stat_def split: sum.splits option.splits)

lemma stat_canon: "tree_ok fs \<Longrightarrow> canon fs p \<Longrightarrow> stat fs p = map_option (Pair p) (node_at fs p)"
  using at_path_reaches [of fs p] at_path_canon [of fs p] at_path_exists [of fs p]
  by (cases "node_at fs p"; cases "at_path fs p") (auto simp: stat_def)

section \<open>Inside a workspace\<close>

lemma workspaceD:
  assumes "workspace_ok base fs"
  shows "tree_ok fs" "base \<noteq> []" "node_at fs base = Some Dir" "canon fs base"
    "\<And>p. inside base p \<Longrightarrow> linkless (node_at fs p)"
  using assms by (simp_all add: workspace_ok_def)

lemma inside_canon:
  assumes "workspace_ok base fs" "inside base p" "dotdot \<notin> set p"
  shows "canon fs p"
proof -
  obtain r where r: "p = base @ r" using assms(2) by (auto simp: inside_iff)
  have "linkless (node_at fs (take k p))" for k
  proof (cases "k \<le> length base")
    case True
    then show ?thesis using workspaceD(4) [OF assms(1)] by (simp add: r canon_def)
  next
    case False
    then show ?thesis using workspaceD(5) [OF assms(1)] by (simp add: r inside_iff)
  qed
  then show ?thesis using assms(3) by (simp add: canon_def)
qed

lemma not_inside_butlast: "base \<noteq> [] \<Longrightarrow> \<not> inside base (butlast base)"
proof
  assume "base \<noteq> []" "inside base (butlast base)"
  then have "length (take (length base) (butlast base)) = length base" "0 < length base"
    by (simp_all add: inside_def)
  then show False by (simp only: length_take length_butlast)
qed

lemma safe_dput:
  assumes ws: "workspace_ok base fs" and q: "inside base q" "q \<noteq> base" "dotdot \<notin> set q"
    and par: "node_at fs (butlast q) = Some Dir" and nd: "linkless (Some nd)"
    and old: "node_at fs q = Some Dir \<Longrightarrow> nd = Dir"
  shows "safe_step base fs (dput q nd fs)"
proof -
  note w = workspaceD [OF ws]
  have ne: "q \<noteq> []" using q w(2) by (auto simp: inside_iff)
  note n = node_at_dput [OF ne]
  have t: "tree_ok (dput q nd fs)"
    unfolding tree_ok_def
  proof (intro conjI allI impI)
    show "dwf (dput q nd fs)" using w(1) by (simp add: tree_ok_def)
    fix p x
    assume p: "dget (dput q nd fs) p = Some x"
    show "p \<noteq> []" "dotdot \<notin> set p"
      using p ne q w(1) by (auto simp: tree_ok_def split: if_splits)
    show "node_at (dput q nd fs) (butlast p) = Some Dir"
    proof (cases "p = q")
      case True
      have "butlast q \<noteq> q" using ne not_inside_butlast [OF ne] by (metis inside_self(1))
      then show ?thesis using par True by (simp add: n)
    next
      case False
      then have "node_at fs (butlast p) = Some Dir"
        using p w(1) by (auto simp: tree_ok_def)
      then show ?thesis using old by (auto simp: n)
    qed
  qed
  have c: "canon (dput q nd fs) base"
    using w(4) nd by (auto simp: canon_def n)
  show ?thesis
    using t c w q nd by (auto simp: safe_step_def workspace_ok_def confined_def n)
qed

lemma safe_ddel:
  assumes ws: "workspace_ok base fs" and q: "inside base q" and nodir: "node_at fs q \<noteq> Some Dir"
  shows "safe_step base fs (ddel q fs)"
proof -
  note w = workspaceD [OF ws]
  have ne: "q \<noteq> []" "q \<noteq> base" using nodir w(3) by auto
  note n = node_at_ddel [OF ne(1)]
  have t: "tree_ok (ddel q fs)"
    using w(1) nodir by (auto simp: tree_ok_def n split: if_splits)
  have c: "canon (ddel q fs) base"
    using w(4) by (auto simp: canon_def n)
  show ?thesis
    using t c w q ne by (auto simp: safe_step_def workspace_ok_def confined_def n)
qed

section \<open>System calls inside a workspace\<close>

lemma canon_butlast: "canon fs p \<Longrightarrow> canon fs (butlast p)"
  by (cases p rule: rev_cases) (auto dest: canon_prefix)

lemma entry_canon:
  assumes "canon fs p" "p \<noteq> []" "entry_of fs p = Inr q"
  shows "q = p" "node_at fs (butlast p) = Some Dir"
  using assms at_path_canon [OF canon_butlast [OF assms(1)]] unfolding entry_of_def
  by (auto split: if_splits)

lemma inside_nonempty: "workspace_ok base fs \<Longrightarrow> inside base p \<Longrightarrow> p \<noteq> []"
  by (auto simp: workspace_ok_def inside_iff)

lemma entry_inside:
  assumes "workspace_ok base fs" "inside base p" "dotdot \<notin> set p" "entry_of fs p = Inr q"
  shows "q = p" "node_at fs (butlast p) = Some Dir"
  using entry_canon [OF inside_canon [OF assms(1-3)] inside_nonempty [OF assms(1,2)] assms(4)] by simp_all

lemma at_path_inside:
  assumes "workspace_ok base fs" "inside base p" "dotdot \<notin> set p"
  shows "at_path fs p = Inr q \<Longrightarrow> q = p" "node_at fs p \<noteq> None \<Longrightarrow> at_path fs p = Inr p"
  using at_path_canon [OF inside_canon [OF assms]] at_path_reaches [OF workspaceD(1) inside_canon] assms
  by blast+

lemma stat_inside:
  assumes "workspace_ok base fs" "inside base p" "dotdot \<notin> set p"
  shows "stat fs p = map_option (Pair p) (node_at fs p)"
  using stat_canon [OF workspaceD(1) inside_canon] assms by blast

lemma safe_os_mkdir:
  assumes ws: "workspace_ok base fs" and p: "inside base p" "dotdot \<notin> set p" and r: "os_mkdir fs p = Inr fs'"
  shows "safe_step base fs fs'"
proof -
  have ne: "p \<noteq> []" "last p \<noteq> dotdot"
    using inside_nonempty [OF ws p(1)] p(2) by (auto dest: last_in_set)
  then obtain q where q: "entry_of fs p = Inr q" "node_at fs q = None" "fs' = dput q Dir fs"
    using r by (auto simp: os_mkdir_def split: if_splits)
  note e = entry_inside [OF ws p q(1)]
  have "p \<noteq> base" using q(2) e(1) workspaceD(3) [OF ws] by auto
  then show ?thesis using q e p by (auto intro: safe_dput [OF ws])
qed

lemma safe_os_write:
  assumes ws: "workspace_ok base fs" and p: "inside base p" "dotdot \<notin> set p" and r: "os_write fs p f = Inr fs'"
  shows "safe_step base fs fs'"
proof -
  obtain q where q0: "walk True fs max_links [] p = Inr q"
    using r by (auto simp: os_write_def)
  then have q: "walk True fs max_links [] p = Inr q" "node_at fs q \<noteq> Some Dir"
    and fs': "\<exists>bs. fs' = dput q (Regular bs) fs"
    using r by (auto simp: os_write_def split: option.splits node.splits)
  have qp: "q = p" using walk_canon [OF q(1)] inside_canon [OF ws p] by simp
  have "p \<noteq> base" using q(2) qp workspaceD(3) [OF ws] by auto
  moreover have "node_at fs (butlast p) = Some Dir"
    using walk_exists [OF q(1)] tree_parent(1) [OF workspaceD(1) [OF ws], of p] workspaceD(1) [OF ws]
      inside_nonempty [OF ws p(1)] qp by auto
  ultimately show ?thesis using fs' q(2) p qp by (auto intro: safe_dput [OF ws])
qed

lemma safe_os_unlink:
  assumes ws: "workspace_ok base fs" and p: "inside base p" "dotdot \<notin> set p" and r: "os_unlink fs p = Inr fs'"
  shows "safe_step base fs fs'"
proof -
  obtain q where q0: "entry_of fs p = Inr q"
    using r by (auto simp: os_unlink_def split: if_splits)
  then have q: "entry_of fs p = Inr q" "node_at fs q \<noteq> Some Dir" "fs' = ddel q fs"
    using r by (auto simp: os_unlink_def split: if_splits option.splits node.splits)
  show ?thesis using q entry_inside(1) [OF ws p q(1)] p by (auto intro: safe_ddel [OF ws])
qed

section \<open>Moving a subtree\<close>

definition moved :: "path \<Rightarrow> path \<Rightarrow> path \<Rightarrow> path" where
  "moved s t p = (if inside s p then t @ drop (length s) p else p)"

lemma move_tree_alt: "move_tree s t fs = map (\<lambda>x. (moved s t (fst x), snd x)) (filter (\<lambda>x. \<not> inside t (fst x)) fs)"
  by (simp add: move_tree_def moved_def case_prod_unfold)

lemma moved_inj: "inj_on (moved s t) {p. \<not> inside t p}"
proof (rule inj_onI)
  fix p q
  assume pq: "p \<in> {p. \<not> inside t p}" "q \<in> {p. \<not> inside t p}" "moved s t p = moved s t q"
  then have "inside s p \<longleftrightarrow> inside s q"
    by (auto simp: moved_def split: if_splits)
  then show "p = q"
    using pq(3) by (auto simp: moved_def inside_iff split: if_splits)
qed

lemma dwf_move_tree: "dwf fs \<Longrightarrow> dwf (move_tree s t fs)"
proof -
  assume "dwf fs"
  then have "distinct (map fst (filter (\<lambda>x. \<not> inside t (fst x)) fs))"
    by (simp add: dwf_def distinct_map_filter)
  moreover have "inj_on (moved s t) (set (map fst (filter (\<lambda>x. \<not> inside t (fst x)) fs)))"
    by (rule inj_on_subset [OF moved_inj]) auto
  ultimately have "distinct (map (moved s t) (map fst (filter (\<lambda>x. \<not> inside t (fst x)) fs)))"
    by (simp only: distinct_map)
  then show ?thesis
    by (simp add: dwf_def move_tree_alt comp_def)
qed

lemma dget_move_tree:
  assumes "dwf fs"
  shows "dget (move_tree s t fs) p =
    (if inside t p \<and> \<not> inside t (s @ drop (length t) p) then dget fs (s @ drop (length t) p)
     else if inside t p \<or> inside s p then None else dget fs p)"
proof -
  have mem: "dget (move_tree s t fs) p = Some nd \<longleftrightarrow>
      (\<exists>q. dget fs q = Some nd \<and> \<not> inside t q \<and> p = moved s t q)" for nd
    unfolding dget_iff [OF dwf_move_tree [OF assms]] dget_iff [OF assms]
    by (force simp: move_tree_alt)
  have "dget (move_tree s t fs) p = Some nd \<longleftrightarrow>
    (if inside t p \<and> \<not> inside t (s @ drop (length t) p) then dget fs (s @ drop (length t) p)
     else if inside t p \<or> inside s p then None else dget fs p) = Some nd" for nd
  proof
    assume "dget (move_tree s t fs) p = Some nd"
    then obtain q where "dget fs q = Some nd" "\<not> inside t q" "p = moved s t q"
      unfolding mem by blast
    then show "(if inside t p \<and> \<not> inside t (s @ drop (length t) p) then dget fs (s @ drop (length t) p)
       else if inside t p \<or> inside s p then None else dget fs p) = Some nd"
      by (auto simp: moved_def inside_iff split: if_splits)
  next
    assume r: "(if inside t p \<and> \<not> inside t (s @ drop (length t) p) then dget fs (s @ drop (length t) p)
       else if inside t p \<or> inside s p then None else dget fs p) = Some nd"
    show "dget (move_tree s t fs) p = Some nd"
    proof (cases "inside t p")
      case True
      then have "p = moved s t (s @ drop (length t) p)"
        by (auto simp: moved_def inside_iff)
      then show ?thesis unfolding mem using r True by (auto split: if_splits)
    next
      case False
      then have "p = moved s t p" using r by (auto simp: moved_def split: if_splits)
      then show ?thesis unfolding mem using r False by (auto split: if_splits)
    qed
  qed
  then show ?thesis by (metis not_None_eq)
qed

lemma inside_comparable: "inside t (s @ r) \<Longrightarrow> inside t s \<or> inside s t"
  by (auto simp: inside_iff append_eq_append_conv2)

lemma node_at_move_tree:
  assumes "dwf fs" "s \<noteq> []" "t \<noteq> []" "\<not> inside s t" "\<not> inside t s"
  shows "node_at (move_tree s t fs) p =
    (if inside t p then node_at fs (s @ drop (length t) p) else if inside s p then None else node_at fs p)"
  using assms inside_comparable [of t s "drop (length t) p"]
  by (auto simp: node_at_def dget_move_tree inside_def)

lemma safe_move_tree:
  assumes ws: "workspace_ok base fs" and s: "inside base s" "s \<noteq> base" "node_at fs s \<noteq> None"
    and t: "inside base t" "t \<noteq> base" "dotdot \<notin> set t" "node_at fs (butlast t) = Some Dir"
    and apart: "\<not> inside s t" and below: "\<And>q. inside t q \<Longrightarrow> q \<noteq> t \<Longrightarrow> node_at fs q = None"
  shows "safe_step base fs (move_tree s t fs)"
proof -
  note w = workspaceD [OF ws]
  have ne: "s \<noteq> []" "t \<noteq> []" using inside_nonempty [OF ws] s t by auto
  have apart': "\<not> inside t s" using below [of s] s(3) apart by auto
  have dwf: "dwf fs" using w(1) by (simp add: tree_ok_def)
  note n = node_at_move_tree [OF dwf ne apart apart']
  have tree: "tree_ok (move_tree s t fs)"
    unfolding tree_ok_def
  proof (intro conjI allI impI)
    show "dwf (move_tree s t fs)" using dwf by (rule dwf_move_tree)
    fix p nd
    assume d: "dget (move_tree s t fs) p = Some nd"
    show p: "p \<noteq> []"
    proof
      assume "p = []"
      then show False using d ne w(1) by (auto simp: dget_move_tree [OF dwf] inside_def tree_ok_def split: if_splits)
    qed
    then have "node_at (move_tree s t fs) p = Some nd" using d by (simp add: node_at_def)
    then have cases: "inside t p \<and> node_at fs (s @ drop (length t) p) = Some nd
        \<or> \<not> inside t p \<and> \<not> inside s p \<and> node_at fs p = Some nd"
      by (auto simp: n split: if_splits)
    then show "dotdot \<notin> set p"
    proof (elim disjE conjE)
      assume a: "inside t p" "node_at fs (s @ drop (length t) p) = Some nd"
      then have "dotdot \<notin> set (s @ drop (length t) p)"
        using tree_parent(2) [OF w(1), of "s @ drop (length t) p"] ne by auto
      then show ?thesis using a(1) t(3) by (auto simp: inside_iff)
    next
      assume "node_at fs p = Some nd"
      then show ?thesis using tree_parent(2) [OF w(1), of p] p by auto
    qed
    from cases show "node_at (move_tree s t fs) (butlast p) = Some Dir"
    proof (elim disjE conjE)
      assume a: "inside t p" "node_at fs (s @ drop (length t) p) = Some nd"
      then obtain r where r: "p = t @ r" by (auto simp: inside_iff)
      show ?thesis
      proof (cases "r = []")
        case True
        have "\<not> inside t (butlast t)" "\<not> inside s (butlast t)"
          using not_inside_butlast [OF ne(2)] apart inside_append [of s "butlast t" "[last t]"] ne(2) by auto
        then show ?thesis using r True t(4) by (simp add: n)
      next
        case False
        then have "node_at fs (s @ butlast r) = Some Dir"
          using tree_parent(1) [OF w(1), of "s @ r"] a(2) r ne by (simp add: butlast_append)
        then show ?thesis using r False by (simp add: n butlast_append)
      qed
    next
      assume a: "\<not> inside t p" "\<not> inside s p" "node_at fs p = Some nd"
      then have "\<not> inside t (butlast p)" "\<not> inside s (butlast p)"
        using p inside_append [of _ "butlast p" "[last p]"] by auto
      then show ?thesis using tree_parent(1) [OF w(1), of p] a(3) p by (simp add: n)
    qed
  qed
  have out: "node_at (move_tree s t fs) p = node_at fs p" if "\<not> inside base p" for p
    using that s(1) t(1) by (auto simp: n dest: inside_trans)
  have base: "\<not> inside t base" "\<not> inside s base"
    using s(1,2) t(1,2) inside_antisym by auto
  have up: "\<not> inside t (take k base)" "\<not> inside s (take k base)" for k
    using base inside_append [of _ "take k base" "drop k base"] by auto
  have "canon (move_tree s t fs) base"
    using w(4) up by (simp add: canon_def n)
  moreover have "linkless (node_at (move_tree s t fs) p)" if "inside base p" for p
    using w(5) that s(1) by (auto simp: n)
  ultimately show ?thesis
    using tree w out base by (auto simp: safe_step_def workspace_ok_def confined_def n)
qed

lemma safe_os_rename:
  assumes ws: "workspace_ok base fs"
    and s: "inside base src" "dotdot \<notin> set src" and t: "inside base dst" "dotdot \<notin> set dst"
    and r: "os_rename fs src dst = Inr fs'"
  shows "safe_step base fs fs'"
proof -
  note w = workspaceD [OF ws]
  obtain a where a: "entry_of fs src = Inr a"
    using r by (auto simp: os_rename_def split: if_splits)
  obtain b where b: "entry_of fs dst = Inr b"
    using r by (auto simp: os_rename_def split: if_splits)
  note ea = entry_inside [OF ws s a] and eb = entry_inside [OF ws t b]
  obtain nd where nd: "node_at fs src = Some nd"
    using r a b ea by (auto simp: os_rename_def split: if_splits option.splits)
  show ?thesis
  proof (cases "src = dst")
    case True
    then show ?thesis using r a b ea eb nd ws by (auto simp: os_rename_def split: if_splits)
  next
    case False
    have r': "\<not> inside src dst" "fs' = move_tree src dst fs"
      and free: "node_at fs dst = Some Dir \<Longrightarrow> nd = Dir \<and> dir_entries fs dst = []"
      using r a b ea eb nd False by (auto simp: os_rename_def split: if_splits option.splits node.splits)
    have below: "node_at fs q = None" if q: "inside dst q" "q \<noteq> dst" for q
    proof (cases "node_at fs dst = Some Dir")
      case False
      then show ?thesis using tree_below [OF w(1)] q by blast
    next
      case True
      show ?thesis
      proof (rule ccontr)
        assume ex: "node_at fs q \<noteq> None"
        obtain r where qr: "q = dst @ r" using q(1) by (auto simp: inside_iff)
        then obtain c e where q': "q = dst @ c # e" using q(2) by (cases r) auto
        have "node_at fs (dst @ [c]) \<noteq> None"
          using ex tree_prefix [OF w(1), of "dst @ [c]" e] q' by (cases "e = []") auto
        then have "(dst @ [c]) \<in> set (map fst fs)"
          by (auto simp: node_at_def dest: dget_Some_in intro: rev_image_eqI)
        then have "dir_entries fs dst \<noteq> []"
          by (force simp: dir_entries_def filter_empty_conv)
        then show False using free True by blast
      qed
    qed
    have "src \<noteq> base" using r'(1) t(1) by auto
    moreover have "dst \<noteq> base"
    proof
      assume "dst = base"
      then have "node_at fs src = None" using below [of src] below s(1) False w(3) free nd by auto
      then show False using nd by simp
    qed
    ultimately show ?thesis
      unfolding r'(2) using s t nd eb r'(1) below by (intro safe_move_tree [OF ws]) auto
  qed
qed

section \<open>Library operations inside a workspace\<close>

lemma safe_on_tree:
  assumes "workspace_ok base fs" "\<And>fs'. r = Inr fs' \<Longrightarrow> safe_step base fs fs'"
  shows "safe_step base fs (snd (on_tree r p fs))"
  using assms by (auto simp: on_tree_def split: sum.split)

lemma safe_then_do:
  assumes "safe_step base fs (snd r)" "\<And>v fs'. fst r = Inr v \<Longrightarrow> workspace_ok base fs' \<Longrightarrow> safe_step base fs' (snd (k v fs'))"
  shows "safe_step base fs (snd (then_do r k))"
  using assms safe_trans [OF assms(1)] safe_ok [OF assms(1)]
  by (cases r) (auto simp: then_do_def split: sum.split)

lemma safe_mkdir_once:
  assumes "workspace_ok base fs" "inside base p" "dotdot \<notin> set p"
  shows "safe_step base fs (snd (mkdir_once ok p fs))"
  using assms safe_os_mkdir [OF assms] by (auto simp: mkdir_once_def split: sum.split)

lemma mkdir_base: "workspace_ok base fs \<Longrightarrow> os_mkdir fs base \<noteq> Inl ENOENT"
proof -
  assume ws: "workspace_ok base fs"
  note w = workspaceD [OF ws]
  have "at_path fs (butlast base) = Inr (butlast base)" "node_at fs (butlast base) = Some Dir"
    using at_path_reaches [OF w(1) canon_butlast [OF w(4)]] tree_parent(1) [OF w(1)] w by auto
  moreover have "last base \<noteq> dotdot"
    using w(2,4) by (auto simp: canon_def dest: last_in_set)
  ultimately show ?thesis
    using w by (simp add: os_mkdir_def entry_of_def)
qed

lemma safe_mkdir_parents:
  assumes "workspace_ok base fs" "inside base p" "dotdot \<notin> set p"
  shows "safe_step base fs (snd (mkdir_parents ok p fs))"
  using assms
proof (induction ok p fs rule: mkdir_parents.induct)
  case (1 ok p fs)
  show ?case
  proof (cases "os_mkdir fs p = Inl ENOENT \<and> p \<noteq> []")
    case True
    then have "p \<noteq> base" using mkdir_base 1 by auto
    then have "inside base (butlast p)" "dotdot \<notin> set (butlast p)"
      using 1 inside_butlast by (auto dest: in_set_butlastD)
    then have "safe_step base fs (snd (mkdir_parents True (butlast p) fs))"
      using 1 True by simp
    then show ?thesis
      using True 1 by (subst mkdir_parents.simps) (auto intro!: safe_then_do safe_mkdir_once)
  next
    case False
    then show ?thesis using safe_mkdir_once [OF 1(2-4)] by (subst mkdir_parents.simps) auto
  qed
qed

lemma safe_path_mkdir:
  assumes "workspace_ok base fs" "inside base p" "dotdot \<notin> set p"
  shows "safe_step base fs (snd (path_mkdir parents ok p fs))"
  using safe_mkdir_parents [OF assms] safe_mkdir_once [OF assms] by (simp add: path_mkdir_def)

lemma safe_touch:
  assumes "workspace_ok base fs" "inside base p" "dotdot \<notin> set p"
  shows "safe_step base fs (snd (touch p fs))"
  using assms safe_os_write [OF assms] by (auto simp: touch_def intro: safe_on_tree)

lemma base_exists: "workspace_ok base fs \<Longrightarrow> path_exists fs base \<and> path_exists fs (butlast base)"
proof -
  assume ws: "workspace_ok base fs"
  note w = workspaceD [OF ws]
  show ?thesis
    using stat_canon [OF w(1) w(4)] stat_canon [OF w(1) canon_butlast [OF w(4)]] tree_parent(1) [OF w(1)] w
    by (auto simp: path_exists_def)
qed

lemma safe_makedirs:
  assumes "workspace_ok base fs" "inside base p" "dotdot \<notin> set p"
  shows "safe_step base fs (snd (makedirs p fs))"
  using assms
proof (induction p fs rule: makedirs.induct)
  case (1 p fs)
  have mk: "safe_step base fs' (snd (on_tree (os_mkdir fs' p) p fs'))" if "workspace_ok base fs'" for fs'
    using that 1(3,4) by (intro safe_on_tree) (auto intro: safe_os_mkdir)
  show ?case
  proof (cases "p \<noteq> [] \<and> butlast p \<noteq> [] \<and> \<not> path_exists fs (butlast p)")
    case True
    then have "p \<noteq> base" using base_exists 1 by auto
    then have "inside base (butlast p)" "dotdot \<notin> set (butlast p)"
      using 1 inside_butlast by (auto dest: in_set_butlastD)
    then have s: "safe_step base fs (snd (makedirs (butlast p) fs))"
      using 1 True by simp
    then have "safe_step base fs (snd (on_tree (os_mkdir (snd (makedirs (butlast p) fs)) p) p (snd (makedirs (butlast p) fs))))"
      using safe_trans mk safe_ok by blast
    then show ?thesis
      using True s by (subst makedirs.simps) (auto split: prod.split sum.split fs_exc.split)
  next
    case False
    then show ?thesis using mk [OF 1(2)] by (subst makedirs.simps) auto
  qed
qed

lemma into_dir_inside:
  assumes "inside base dst" "dotdot \<notin> set dst" "dotdot \<notin> set src" "src \<noteq> []"
  shows "inside base (into_dir fs src dst)" "dotdot \<notin> set (into_dir fs src dst)"
proof -
  have "last src \<noteq> dotdot" using assms last_in_set by metis
  then have "dotdot \<noteq> last src" by simp
  then show "inside base (into_dir fs src dst)" "dotdot \<notin> set (into_dir fs src dst)"
    using assms by (simp_all add: into_dir_def)
qed

lemma safe_copy2:
  assumes "workspace_ok base fs" "inside base dst" "dotdot \<notin> set dst" "inside base src" "dotdot \<notin> set src"
  shows "safe_step base fs (snd (copy2 src dst fs))"
proof -
  note i = into_dir_inside [OF assms(2,3,5) inside_nonempty [OF assms(1,4)], of fs]
  show ?thesis
    using assms(1) i by (auto simp: copy2_def Let_def intro!: safe_on_tree intro: safe_os_write)
qed

lemma os_mkdir_makes:
  assumes ws: "workspace_ok base fs" and p: "inside base p" "dotdot \<notin> set p" and r: "os_mkdir fs p = Inr fs'"
  shows "node_at fs p = None" "fs' = dput p Dir fs" "node_at fs (butlast p) = Some Dir"
proof -
  have ne: "p \<noteq> []" "last p \<noteq> dotdot"
    using inside_nonempty [OF ws p(1)] p(2) by (auto dest: last_in_set)
  then obtain q where q: "entry_of fs p = Inr q" "node_at fs q = None" "fs' = dput q Dir fs"
    using r by (auto simp: os_mkdir_def split: if_splits)
  show "node_at fs p = None" "fs' = dput p Dir fs" "node_at fs (butlast p) = Some Dir"
    using q entry_inside [OF ws p q(1)] by auto
qed

lemma makedirs_keeps:
  assumes "workspace_ok base fs" "inside base p" "dotdot \<notin> set p" "node_at fs q \<noteq> None"
  shows "node_at (snd (makedirs p fs)) q = node_at fs q"
  using assms
proof (induction p fs rule: makedirs.induct)
  case (1 p fs)
  have mk: "node_at (snd (on_tree (os_mkdir fs' p) p fs')) q = node_at fs' q"
    if "workspace_ok base fs'" "node_at fs' q \<noteq> None" for fs'
    using that os_mkdir_makes [OF that(1) 1(3,4)] inside_nonempty [OF 1(2,3)]
    by (auto simp: on_tree_def node_at_dput split: sum.split)
  show ?case
  proof (cases "p \<noteq> [] \<and> butlast p \<noteq> [] \<and> \<not> path_exists fs (butlast p)")
    case True
    then have "p \<noteq> base" using base_exists 1 by auto
    then have i: "inside base (butlast p)" "dotdot \<notin> set (butlast p)"
      using 1 inside_butlast by (auto dest: in_set_butlastD)
    then have s: "node_at (snd (makedirs (butlast p) fs)) q = node_at fs q"
      using 1 True by simp
    have ws: "workspace_ok base (snd (makedirs (butlast p) fs))"
      using safe_makedirs [OF 1(2) i] by (rule safe_ok)
    show ?thesis
      using True s mk [OF ws] 1(5) by (subst makedirs.simps) (auto split: prod.split sum.split fs_exc.split)
  next
    case False
    then show ?thesis using mk [OF 1(2,5)] by (subst makedirs.simps) auto
  qed
qed

lemma makedirs_makes:
  assumes "workspace_ok base fs" "inside base p" "dotdot \<notin> set p" "makedirs p fs = (Inr v, fs')"
  obtains f1 where "workspace_ok base f1" "os_mkdir f1 p = Inr fs'"
    "\<And>q. node_at fs q \<noteq> None \<Longrightarrow> node_at f1 q = node_at fs q"
proof (cases "p \<noteq> [] \<and> butlast p \<noteq> [] \<and> \<not> path_exists fs (butlast p)")
  case True
  then have "p \<noteq> base" using base_exists assms by auto
  then have i: "inside base (butlast p)" "dotdot \<notin> set (butlast p)"
    using assms inside_butlast by (auto dest: in_set_butlastD)
  have ws: "workspace_ok base (snd (makedirs (butlast p) fs))"
    using safe_makedirs [OF assms(1) i] by (rule safe_ok)
  have "os_mkdir (snd (makedirs (butlast p) fs)) p = Inr fs'"
    using assms(4) True
    by (subst (asm) makedirs.simps) (auto simp: on_tree_def split: prod.splits sum.splits fs_exc.splits if_splits)
  then show ?thesis using that ws makedirs_keeps [OF assms(1) i] by blast
next
  case False
  then have "os_mkdir fs p = Inr fs'"
    using assms(4) by (subst (asm) makedirs.simps) (auto simp: on_tree_def split: sum.splits)
  then show ?thesis using that assms(1) by blast
qed

lemma safe_move_dir:
  assumes ws: "workspace_ok base fs" and s: "inside base src" "dotdot \<notin> set src" "node_at fs src \<noteq> None"
    and d: "inside base dst" "dotdot \<notin> set dst" and apart: "\<not> inside src dst"
    and t: "inside base target" "dotdot \<notin> set target" "target = into_dir fs src dst"
    and mk: "makedirs target fs = (Inr v, fs')"
  shows "safe_step base fs (move_tree src target fs')"
proof -
  have ws': "safe_step base fs fs'" using safe_makedirs [OF ws t(1,2)] mk by simp
  obtain f1 where f1: "workspace_ok base f1" "os_mkdir f1 target = Inr fs'"
    and kept: "\<And>q. node_at fs q \<noteq> None \<Longrightarrow> node_at f1 q = node_at fs q"
    using makedirs_makes [OF ws t(1,2) mk] by blast
  note m = os_mkdir_makes [OF f1(1) t(1,2) f1(2)]
  have tne: "target \<noteq> []" using inside_nonempty [OF ws t(1)] .
  note w1 = workspaceD [OF f1(1)]
  note n = node_at_dput [OF tne, of Dir f1, folded m(2)]
  have src1: "node_at f1 src \<noteq> None" using kept s(3) by simp
  have st: "src \<noteq> target" using src1 m(1) by auto
  have "\<not> inside src target"
  proof
    assume i: "inside src target"
    then have "target = dst @ [last src]" using apart t(3) by (auto simp: into_dir_def split: if_splits)
    then have "inside src dst"
      using inside_butlast [OF i] st by simp
    then show False using apart by simp
  qed
  moreover have "node_at fs' q = None" if "inside target q" "q \<noteq> target" for q
    using tree_below [OF w1(1) _ that] m(1) that(2) by (simp add: n)
  moreover have "target \<noteq> base" using m(1) w1(3) by auto
  moreover have "src \<noteq> base" using calculation(1) t(1) by auto
  moreover have "node_at fs' src \<noteq> None" using src1 by (simp add: n)
  moreover have "node_at fs' (butlast target) = Some Dir" using m(3) by (simp add: n)
  ultimately have "safe_step base fs' (move_tree src target fs')"
    using t s by (intro safe_move_tree [OF safe_ok [OF ws']]) auto
  then show ?thesis using ws' safe_trans by blast
qed

lemma safe_move:
  assumes ws: "workspace_ok base fs" and s: "inside base src" "dotdot \<notin> set src" "node_at fs src \<noteq> None"
    and d: "inside base dst" "dotdot \<notin> set dst"
  shows "safe_step base fs (snd (move src dst fs))"
proof -
  have ne: "src \<noteq> []" using inside_nonempty [OF ws s(1)] .
  define target where "target = into_dir fs src dst"
  have t: "inside base target" "dotdot \<notin> set target"
    using into_dir_inside [OF d s(2) ne] by (simp_all add: target_def)
  have norm: "normalised dst = dst"
    using d(2) by (auto simp: normalised_def dest: last_in_set)
  have copy: "safe_step base fs (snd (copy_and_remove src dst target fs))"
  proof (cases "is_dir fs src")
    case True
    then show ?thesis
      using safe_makedirs [OF ws t] safe_move_dir [OF ws s d _ t target_def] ws
      by (cases "makedirs target fs"; cases "fst (makedirs target fs)")
        (auto simp: copy_and_remove_def norm then_do_def)
  next
    case False
    have "safe_step base fs (snd (copy2 src target fs))"
      using safe_copy2 [OF ws t s(1,2)] .
    then show ?thesis
      using False s by (auto simp: copy_and_remove_def intro!: safe_then_do safe_on_tree intro: safe_os_unlink)
  qed
  show ?thesis
    using ws copy safe_os_rename [OF ws s(1,2) d] safe_os_rename [OF ws s(1,2) t]
    by (auto simp: move_def Let_def target_def split: sum.split intro!: safe_on_tree)
qed

end
