(* ===== verification/Restricted.thy ===== *)
theory Restricted
  imports FileProps Shlex
begin

text \<open>
  The restricted command runtime (orchestration/command_runtime.py) and the paths of the data
  directory (orchestration/data_paths.py). A command is split into words and carried out by one of
  a dozen internal commands on the workspace, or by an allow-listed program. What the program does,
  the digest function, the mode string and the size \<open>stat\<close> gives a directory are the environment.
  A raised exception is a value; those that \<open>execute\<close> does not catch leave it.
\<close>

section \<open>Results\<close>

record command_result =
  re_command :: str
  re_exit :: int
  re_stdout :: str
  re_stderr :: str
  re_cwd :: path
  re_operation :: str
  re_meta :: "(str \<times> json) list"

definition result_ok :: "command_result \<Rightarrow> bool" where
  "result_ok r \<longleftrightarrow> re_exit r = 0"

record cmd_runtime =
  cr_root :: path
  cr_data :: path
  cr_cwd :: path
  cr_skills :: "str list"
  cr_max :: int
  cr_timeout :: int
  cr_snapshots :: "(path, str) dict"
  cr_appends :: "(path \<times> path \<times> str) list"
  cr_uncertain :: "str list"

text \<open>
  \<open>run_process\<close>: the program could not be started, or it ended with an exit code and its output;
  the exit code is 124 when its time ran out.
\<close>

datatype process_end = Not_started fs_exc | Ended int str str

record cmd_env =
  ce_sha :: "nat list \<Rightarrow> str"
  ce_mode :: "path \<Rightarrow> str"
  ce_size :: "path \<Rightarrow> int"
  ce_process :: "path \<Rightarrow> str list \<Rightarrow> fs \<Rightarrow> process_end \<times> fs"

type_synonym cmd_state = "cmd_runtime \<times> fs"

section \<open>Construction\<close>

definition resolve_strict :: "fs \<Rightarrow> path \<Rightarrow> fs_exc + path" where
  "resolve_strict fs p =
     (case at_path fs p of Inr q \<Rightarrow> Inr q
      | Inl e \<Rightarrow> Inl (if e = ELOOP then Loop_exc (u ''Symlink loop from '' @ py_repr (show_path p)) else os_exc e p))"

definition new_cmd_runtime :: "path \<Rightarrow> str list \<Rightarrow> int \<Rightarrow> int \<Rightarrow> fs \<Rightarrow> (fs_exc + cmd_runtime) \<times> fs" where
  "new_cmd_runtime workspace skills max_bytes timeout fs =
     then_do (path_mkdir True True workspace fs) (\<lambda>_ fs1.
       case resolve_strict fs1 workspace of
         Inl e \<Rightarrow> (Inl e, fs1)
       | Inr base \<Rightarrow>
           (let data = base @ [u ''data'']
            in if is_symlink fs1 data
               then (Inl (Value_exc (u ''data directory must not be a symlink: '' @ show_path data)), fs1)
               else then_do (path_mkdir True True data fs1) (\<lambda>_ fs2.
                 case resolve_strict fs2 data of
                   Inl e \<Rightarrow> (Inl e, fs2)
                 | Inr d \<Rightarrow>
                     if \<not> inside base d
                     then (Inl (Value_exc (u ''data directory escapes workspace: '' @ show_path data)), fs2)
                     else if \<not> is_dir fs2 d
                     then (Inl (Value_exc (u ''data path is not a directory: '' @ show_path data)), fs2)
                     else (Inr \<lparr>cr_root = base, cr_data = d, cr_cwd = d, cr_skills = skills, cr_max = max_bytes,
                       cr_timeout = timeout, cr_snapshots = [], cr_appends = [], cr_uncertain = []\<rparr>, fs2))))"

section \<open>Texts\<close>

definition cmd_prompt :: "cmd_runtime \<Rightarrow> str" where
  "cmd_prompt rt = u ''root@agent:'' @ show_path (cr_cwd rt) @ u ''#''"

definition stream_lines :: "string \<Rightarrow> str \<Rightarrow> str list" where
  "stream_lines name s =
     (if s = [] then []
      else [u (''--- '' @ name @ '' begin ---''), rstrip_of [10] s, u (''--- '' @ name @ '' end ---'')])"

definition format_result :: "cmd_runtime \<Rightarrow> command_result \<Rightarrow> str" where
  "format_result rt r = join_on 10
     ([u ''root@agent:'' @ show_path (re_cwd r) @ u ''# '' @ re_command r]
      @ stream_lines ''stdout'' (re_stdout r) @ stream_lines ''stderr'' (re_stderr r)
      @ [u ''[exit_code='' @ show_int (re_exit r) @ u '']'', cmd_prompt rt])"

definition format_protocol_error :: "cmd_runtime \<Rightarrow> str \<Rightarrow> str" where
  "format_protocol_error rt message = u ''protocol error: '' @ message @ 10 # cmd_prompt rt"

definition cmd_ok :: "cmd_runtime \<Rightarrow> str \<Rightarrow> string \<Rightarrow> str \<Rightarrow> (str \<times> json) list \<Rightarrow> command_result" where
  "cmd_ok rt command operation out meta = \<lparr>re_command = command, re_exit = 0, re_stdout = out, re_stderr = [],
     re_cwd = cr_cwd rt, re_operation = u operation, re_meta = meta\<rparr>"

definition cmd_error :: "cmd_runtime \<Rightarrow> str \<Rightarrow> str \<Rightarrow> int \<Rightarrow> str \<Rightarrow> string \<Rightarrow> command_result" where
  "cmd_error rt command operation code err tag = \<lparr>re_command = command, re_exit = code, re_stdout = [], re_stderr = err,
     re_cwd = cr_cwd rt, re_operation = operation, re_meta = [(u ''error_code'', JStr (u tag))]\<rparr>"

section \<open>Words of a command\<close>

definition sh_error_text :: "sh_error \<Rightarrow> str" where
  "sh_error_text e = (case e of NoClosingQuotation \<Rightarrow> u ''No closing quotation'' | NoEscapedCharacter \<Rightarrow> u ''No escaped character'')"

definition no_control :: str where
  "no_control = u ''shell control operators are not permitted''"

definition tokenize :: "str \<Rightarrow> str + str list" where
  "tokenize command =
     (if list_ex (\<lambda>c. c = 0 \<or> c = 96 \<or> c = 36) command
      then Inl (u ''command substitution and variable expansion are not permitted'')
      else case shlex_split command of
        Inl e \<Rightarrow> Inl (sh_error_text e)
      | Inr tokens \<Rightarrow>
          if length tokens = 4 \<and> tokens ! 0 = u ''cat'' \<and> tokens ! 2 = u ''>>'' then
            (case split_at (u ''>>'') [] command of (a, b) \<Rightarrow>
               if list_ex (\<lambda>c. c \<in> set (u '';|&<()>'')) (a @ b) then Inl no_control else Inr tokens)
          else if list_ex (\<lambda>c. c \<in> set (u '';|&<()'')) command then Inl no_control
          else if 62 \<in> set command \<and> (tokens = [] \<or> hd tokens \<noteq> u ''echo'')
          then Inl (u ''redirection is permitted only for echo > FILE, echo >> FILE, or cat SOURCE >> DEST'')
          else Inr tokens)"

section \<open>Paths of a command\<close>

definition permission :: "str \<Rightarrow> fs_exc" where
  "permission txt = Os_exc (u ''PermissionError'') txt"

definition not_found :: "fs_exc \<Rightarrow> bool" where
  "not_found e \<longleftrightarrow> (case e of Os_exc cls _ \<Rightarrow> cls = u ''FileNotFoundError'' | _ \<Rightarrow> False)"

definition full_path :: "cmd_runtime \<Rightarrow> str \<Rightarrow> path" where
  "full_path rt value =
     (case parse_path value of (anchor, parts) \<Rightarrow> if anchor = Anchored then parts else cr_cwd rt @ parts)"

definition candidate :: "cmd_runtime \<Rightarrow> fs \<Rightarrow> str \<Rightarrow> fs_exc + path" where
  "candidate rt fs value =
     (if fst (parse_path value) = Double_slash then Inl (permission (u ''path outside workspace: '' @ value))
      else
        (let p = full_path rt value
         in case realpath fs max_links [] (butlast p) of
              None \<Rightarrow> Inl (Loop_exc (u ''Symlink loop from '' @ py_repr (show_path (butlast p))))
            | Some parent \<Rightarrow>
                (let c = (if p = [] then [] else parent @ [last p])
                 in if \<not> inside (cr_root rt) c then Inl (permission (u ''path outside workspace: '' @ value))
                    else if is_symlink fs c then Inl (permission (u ''symlink is not permitted: '' @ value))
                    else Inr c)))"

definition existing :: "cmd_runtime \<Rightarrow> fs \<Rightarrow> str \<Rightarrow> fs_exc + path" where
  "existing rt fs value =
     try_bind (candidate rt fs value) (\<lambda>c.
       if \<not> path_exists fs c then Inl (Os_exc (u ''FileNotFoundError'') value)
       else try_bind (resolve_strict fs c) (\<lambda>q.
         if \<not> inside (cr_root rt) q then Inl (permission (u ''path outside workspace: '' @ value)) else Inr q))"

section \<open>Commands that read\<close>

type_synonym 'a cmd = "cmd_state \<Rightarrow> (fs_exc + 'a) \<times> cmd_state"

definition arity :: "str list \<Rightarrow> nat \<Rightarrow> string \<Rightarrow> command_result cmd \<Rightarrow> command_result cmd" where
  "arity tokens n usage k s =
     (if length tokens \<noteq> n then (Inl (Value_exc (u (''usage: '' @ usage))), s) else k s)"

definition cmd_pwd :: "str \<Rightarrow> str list \<Rightarrow> command_result cmd" where
  "cmd_pwd command tokens = arity tokens 1 ''pwd''
     (\<lambda>(rt, fs). (Inr (cmd_ok rt command ''pwd'' (show_path (cr_cwd rt) @ [10]) []), (rt, fs)))"

definition cmd_cd :: "str \<Rightarrow> str list \<Rightarrow> command_result cmd" where
  "cmd_cd command tokens = arity tokens 2 ''cd PATH'' (\<lambda>(rt, fs).
     case existing rt fs (tokens ! 1) of
       Inl e \<Rightarrow> (Inl e, (rt, fs))
     | Inr target \<Rightarrow>
         if \<not> is_dir fs target
         then (Inr (cmd_error rt command (u ''cd'') 1 (u ''cd: '' @ tokens ! 1 @ u '': Not a directory'') ''not_directory''), (rt, fs))
         else (let rt' = rt\<lparr>cr_cwd := target\<rparr>
               in (Inr (cmd_ok rt' command ''cd'' []
                     [(u ''command_cwd'', JStr (show_path (cr_cwd rt))), (u ''path'', JStr (show_path target))]), (rt', fs))))"

fun ls_args :: "str list \<Rightarrow> bool \<Rightarrow> bool \<Rightarrow> str list \<Rightarrow> str + bool \<times> bool \<times> str list" where
  "ls_args [] long hidden ops = Inr (long, hidden, ops)"
| "ls_args (t # ts) long hidden ops =
     (if startswith t (u ''-'') \<and> t \<noteq> u ''-'' then
        (if \<not> list_all (\<lambda>c. c \<in> set (u ''la'')) (tl t) then Inl t
         else ls_args ts (long \<or> 108 \<in> set t) (hidden \<or> 97 \<in> set t) ops)
      else ls_args ts long hidden (ops @ [t]))"

definition ls_line :: "cmd_env \<Rightarrow> fs \<Rightarrow> path \<Rightarrow> str \<Rightarrow> bool \<Rightarrow> fs_exc + str" where
  "ls_line env fs p display long =
     (if \<not> long then Inr display
      else case stat fs p of
        None \<Rightarrow> Inl (case at_path fs p of Inl e \<Rightarrow> os_exc e p | Inr _ \<Rightarrow> os_exc ENOENT p)
      | Some (q, nd) \<Rightarrow>
          (let size = show_int (case nd of Regular bs \<Rightarrow> int (length bs) | _ \<Rightarrow> ce_size env q)
           in Inr (ce_mode env q @ 32 # replicate (10 - length size) 32 @ size @ 32 # display)))"

fun ls_lines :: "cmd_env \<Rightarrow> fs \<Rightarrow> path \<Rightarrow> bool \<Rightarrow> str list \<Rightarrow> fs_exc + str list" where
  "ls_lines env fs d long [] = Inr []"
| "ls_lines env fs d long (n # ns) =
     try_bind (ls_line env fs (d @ [n]) n long) (\<lambda>l. try_bind (ls_lines env fs d long ns) (\<lambda>ls. Inr (l # ls)))"

definition cmd_ls :: "cmd_env \<Rightarrow> str \<Rightarrow> str list \<Rightarrow> command_result cmd" where
  "cmd_ls env command tokens = (\<lambda>(rt, fs).
     case ls_args (tl tokens) False False [] of
       Inl t \<Rightarrow> (Inr (cmd_error rt command (u ''ls'') 2 (u ''ls: invalid option '' @ t) ''invalid_option''), (rt, fs))
     | Inr (long, hidden, ops) \<Rightarrow>
         if length ops > 1
         then (Inr (cmd_error rt command (u ''ls'') 2 (u ''ls: only one path is supported'') ''too_many_operands''), (rt, fs))
         else
           (let display = (if ops = [] then u ''.'' else hd ops)
            in case existing rt fs display of
                 Inl e \<Rightarrow>
                   if not_found e
                   then (Inr (cmd_error rt command (u ''ls'') 2
                      (u ''ls: cannot access '' @ 39 # display @ 39 # u '': No such file or directory'') ''not_found''), (rt, fs))
                   else (Inl e, (rt, fs))
               | Inr target \<Rightarrow>
                   if is_file fs target
                   then (map_sum id (\<lambda>l. cmd_ok rt command ''ls'' (l @ [10]) []) (ls_line env fs target display long), (rt, fs))
                   else
                     (let names = sort_key casefold (dir_entries fs target);
                          shown = (if hidden then names else filter (\<lambda>n. \<not> startswith n (u ''.'')) names)
                      in (map_sum id (\<lambda>ls. let out = join_on 10 ls
                            in cmd_ok rt command ''ls'' (if out = [] then [] else out @ [10]) []) (ls_lines env fs target long shown), (rt, fs)))))"

definition too_large :: "str \<Rightarrow> nat \<Rightarrow> int \<Rightarrow> str" where
  "too_large prefix n limit = prefix @ show_int (int n) @ u '' bytes; limit is '' @ show_int limit"

definition cat_file :: "cmd_env \<Rightarrow> str \<Rightarrow> str list \<Rightarrow> command_result cmd" where
  "cat_file env command tokens = arity tokens 2 ''cat FILE'' (\<lambda>(rt, fs).
     case existing rt fs (tokens ! 1) of
       Inl e \<Rightarrow>
         if not_found e
         then (Inr (cmd_error rt command (u ''cat'') 1 (u ''cat: '' @ tokens ! 1 @ u '': No such file'') ''not_found''), (rt, fs))
         else (Inl e, (rt, fs))
     | Inr p \<Rightarrow>
         if \<not> is_file fs p
         then (Inr (cmd_error rt command (u ''cat'') 1 (u ''cat: '' @ tokens ! 1 @ u '': Not a regular file'') ''not_file''), (rt, fs))
         else
           (let bs = read_bytes fs p
            in if int (length bs) > cr_max rt
               then (Inr (cmd_error rt command (u ''cat'') 1 (too_large (u ''cat: file is '') (length bs) (cr_max rt)) ''file_too_large''), (rt, fs))
               else
                 (let digest = ce_sha env bs; rt' = rt\<lparr>cr_snapshots := dput p digest (cr_snapshots rt)\<rparr>
                  in (Inr (cmd_ok rt' command ''cat'' (utf8_replace bs)
                        [(u ''path'', JStr (show_path p)), (u ''size'', JInt (int (length bs))),
                         (u ''sha256'', JStr digest), (u ''read'', JBool True)]), (rt', fs)))))"

definition cmd_sha :: "cmd_env \<Rightarrow> str \<Rightarrow> str list \<Rightarrow> command_result cmd" where
  "cmd_sha env command tokens = arity tokens 2 ''sha256sum FILE'' (\<lambda>(rt, fs).
     case existing rt fs (tokens ! 1) of
       Inl e \<Rightarrow>
         if not_found e
         then (Inr (cmd_error rt command (u ''sha256sum'') 1 (u ''sha256sum: file not found'') ''not_found''), (rt, fs))
         else (Inl e, (rt, fs))
     | Inr p \<Rightarrow>
         if \<not> is_file fs p
         then (Inr (cmd_error rt command (u ''sha256sum'') 1 (u ''sha256sum: not a regular file'') ''not_file''), (rt, fs))
         else (Inr (cmd_ok rt command ''sha256sum'' (ce_sha env (read_bytes fs p) @ u ''  '' @ tokens ! 1 @ [10]) []), (rt, fs)))"

definition cmd_test :: "str \<Rightarrow> str list \<Rightarrow> command_result cmd" where
  "cmd_test command tokens = (\<lambda>(rt, fs).
     if tokens \<noteq> [] \<and> hd tokens = u ''['' \<and> last tokens \<noteq> u '']''
     then (Inr (cmd_error rt command (u ''test'') 2 (u ''[: missing ]'') ''parse_error''), (rt, fs))
     else
       (let words = (if tokens \<noteq> [] \<and> hd tokens = u ''['' then u ''test'' # butlast (tl tokens) else tokens)
        in if length words \<noteq> 3 \<or> words ! 1 \<notin> {u ''-e'', u ''-f'', u ''-d''}
           then (Inr (cmd_error rt command (u ''test'') 2 (u ''supported: test -e|-f|-d PATH'') ''invalid_test''), (rt, fs))
           else case candidate rt fs (words ! 2) of
             Inl (Os_exc cls txt) \<Rightarrow>
               if cls = u ''PermissionError''
               then (Inr (cmd_error rt command (u ''test'') 126 txt ''path_outside_workspace''), (rt, fs))
               else (Inl (Os_exc cls txt), (rt, fs))
           | Inl e \<Rightarrow> (Inl e, (rt, fs))
           | Inr p \<Rightarrow>
               (let ex = (path_exists fs p \<and> (words ! 1 = u ''-e'' \<or> (words ! 1 = u ''-f'' \<and> is_file fs p)
                            \<or> (words ! 1 = u ''-d'' \<and> is_dir fs p)))
                in (Inr \<lparr>re_command = command, re_exit = (if ex then 0 else 1), re_stdout = [], re_stderr = [],
                      re_cwd = cr_cwd rt, re_operation = u ''test'', re_meta = [(u ''exists'', JBool ex)]\<rparr>, (rt, fs)))))"

section \<open>Commands that write\<close>

text \<open>Continue on the tree of the workspace; an exception leaves what was done before it.\<close>

definition tree_do :: "(fs \<Rightarrow> (fs_exc + 'a) \<times> fs) \<Rightarrow> ('a \<Rightarrow> 'b cmd) \<Rightarrow> 'b cmd" where
  "tree_do f k = (\<lambda>(rt, fs). case f fs of (Inl e, fs') \<Rightarrow> (Inl e, (rt, fs')) | (Inr v, fs') \<Rightarrow> k v (rt, fs'))"

definition done_ok :: "str \<Rightarrow> string \<Rightarrow> (str \<times> json) list \<Rightarrow> command_result cmd" where
  "done_ok command operation meta = (\<lambda>(rt, fs). (Inr (cmd_ok rt command operation [] meta), (rt, fs)))"

definition lookup_path :: "(cmd_runtime \<Rightarrow> fs \<Rightarrow> str \<Rightarrow> fs_exc + path) \<Rightarrow> str \<Rightarrow> (path \<Rightarrow> 'a cmd) \<Rightarrow> 'a cmd" where
  "lookup_path look value k = (\<lambda>(rt, fs). case look rt fs value of Inl e \<Rightarrow> (Inl e, (rt, fs)) | Inr p \<Rightarrow> k p (rt, fs))"

definition append_checks :: "cmd_env \<Rightarrow> str \<Rightarrow> str \<Rightarrow> str \<Rightarrow> path \<Rightarrow> cmd_state \<Rightarrow> (fs_exc + command_result) + path \<times> str" where
  "append_checks env command source_value dest_value source = (\<lambda>(rt, fs).
     let bad = (\<lambda>err tag. Inl (Inr (cmd_error rt command (u ''append'') 1 err tag)));
         bs = read_bytes fs source; digest = ce_sha env bs
     in if \<not> is_file fs source then bad (u ''cat: '' @ source_value @ u '': Not a regular file'') ''not_file''
        else if int (length bs) > cr_max rt
        then bad (too_large (u ''cat: source file is '') (length bs) (cr_max rt)) ''file_too_large''
        else case dget (cr_snapshots rt) source of
          None \<Rightarrow> bad (u ''cat: source file must be read successfully before appending'') ''source_not_read''
        | Some expected \<Rightarrow>
            if expected \<noteq> digest
            then bad (u ''cat: source file changed after it was read; read it again'') ''source_changed''
            else case candidate rt fs dest_value of
              Inl e \<Rightarrow> Inl (Inl e)
            | Inr dest \<Rightarrow>
                if \<not> is_dir fs (butlast dest)
                then bad (u ''cat: '' @ dest_value @ u '': destination directory does not exist'') ''destination_parent_missing''
                else if path_exists fs dest \<and> \<not> is_file fs dest
                then bad (u ''cat: '' @ dest_value @ u '': destination is not a regular file'') ''destination_not_file''
                else if source = dest then bad (u ''cat: input file is output file'') ''same_file''
                else if (source, dest, digest) \<in> set (cr_appends rt)
                then bad (u ''cat: this source snapshot was already appended in this activation'') ''duplicate_append''
                else Inr (dest, digest))"

text \<open>The new content is written to a fresh file of the same directory that then takes the name.\<close>

definition append_file :: "cmd_env \<Rightarrow> str \<Rightarrow> str \<Rightarrow> str \<Rightarrow> command_result cmd" where
  "append_file env command source_value dest_value = (\<lambda>(rt, fs).
     case existing rt fs source_value of
       Inl e \<Rightarrow>
         if not_found e
         then (Inr (cmd_error rt command (u ''append'') 1 (u ''cat: '' @ source_value @ u '': No such file'') ''not_found''), (rt, fs))
         else (Inl e, (rt, fs))
     | Inr source \<Rightarrow>
         (case append_checks env command source_value dest_value source (rt, fs) of
            Inl r \<Rightarrow> (r, (rt, fs))
          | Inr (dest, digest) \<Rightarrow>
              (let bs = read_bytes fs source; combined = read_bytes fs dest @ bs;
                   rt' = rt\<lparr>cr_appends := (source, dest, digest) # cr_appends rt\<rparr>
               in (Inr (cmd_ok rt' command ''append'' []
                     [(u ''source'', JStr (show_path source)), (u ''destination'', JStr (show_path dest)),
                      (u ''source_sha256'', JStr digest), (u ''bytes_appended'', JInt (int (length bs))),
                      (u ''new_size'', JInt (int (length combined)))]), (rt', dput dest (Regular combined) fs)))))"

definition cmd_cat :: "cmd_env \<Rightarrow> str \<Rightarrow> str list \<Rightarrow> command_result cmd" where
  "cmd_cat env command tokens =
     (if length tokens = 4 \<and> tokens ! 2 = u ''>>'' then append_file env command (tokens ! 1) (tokens ! 3)
      else cat_file env command tokens)"

fun mkdir_args :: "str list \<Rightarrow> bool \<Rightarrow> str list \<Rightarrow> str + bool \<times> str list" where
  "mkdir_args [] parents paths = Inr (parents, paths)"
| "mkdir_args (t # ts) parents paths =
     (if t = u ''-p'' then mkdir_args ts True paths
      else if startswith t (u ''-'') then Inl t
      else mkdir_args ts parents (paths @ [t]))"

definition cmd_mkdir :: "str \<Rightarrow> str list \<Rightarrow> command_result cmd" where
  "cmd_mkdir command tokens = (\<lambda>(rt, fs).
     case mkdir_args (tl tokens) False [] of
       Inl t \<Rightarrow> (Inr (cmd_error rt command (u ''mkdir'') 2 (u ''mkdir: unsupported option '' @ t) ''invalid_option''), (rt, fs))
     | Inr (parents, paths) \<Rightarrow>
         if length paths \<noteq> 1
         then (Inr (cmd_error rt command (u ''mkdir'') 2 (u ''mkdir supports one PATH'') ''invalid_arity''), (rt, fs))
         else lookup_path candidate (hd paths)
           (\<lambda>p. tree_do (path_mkdir parents parents p) (\<lambda>_. done_ok command ''mkdir'' [])) (rt, fs))"

definition cmd_touch :: "str \<Rightarrow> str list \<Rightarrow> command_result cmd" where
  "cmd_touch command tokens = arity tokens 2 ''touch FILE'' (lookup_path candidate (tokens ! 1) (\<lambda>p.
     tree_do (path_mkdir True True (butlast p)) (\<lambda>_. tree_do (touch p) (\<lambda>_. done_ok command ''touch'' []))))"

definition cmd_cp :: "str \<Rightarrow> str list \<Rightarrow> command_result cmd" where
  "cmd_cp command tokens = arity tokens 3 ''cp SOURCE DEST'' (lookup_path existing (tokens ! 1) (\<lambda>source.
     lookup_path candidate (tokens ! 2) (\<lambda>dest (rt, fs).
       if \<not> is_file fs source
       then (Inr (cmd_error rt command (u ''cp'') 1 (u ''cp: source must be a regular file'') ''not_file''), (rt, fs))
       else tree_do (copy2 source dest) (\<lambda>_. done_ok command ''cp'' []) (rt, fs))))"

definition cmd_mv :: "str \<Rightarrow> str list \<Rightarrow> command_result cmd" where
  "cmd_mv command tokens = arity tokens 3 ''mv SOURCE DEST'' (lookup_path existing (tokens ! 1) (\<lambda>source.
     lookup_path candidate (tokens ! 2) (\<lambda>dest. tree_do (move source dest) (\<lambda>_. done_ok command ''mv'' []))))"

definition cmd_rm :: "str \<Rightarrow> str list \<Rightarrow> command_result cmd" where
  "cmd_rm command tokens = arity tokens 2 ''rm FILE'' (lookup_path existing (tokens ! 1) (\<lambda>p (rt, fs).
     if \<not> is_file fs p
     then (Inr (cmd_error rt command (u ''rm'') 1 (u ''rm: only regular files are supported'') ''not_file''), (rt, fs))
     else tree_do (\<lambda>fs. on_tree (os_unlink fs p) p fs) (\<lambda>_. done_ok command ''rm'' []) (rt, fs)))"

text \<open>
  Writing a text: the file is opened, and emptied unless the text is appended, before the text is
  encoded; a lone surrogate then raises UnicodeEncodeError, a ValueError whose text is cut short here.
\<close>

definition write_text :: "bool \<Rightarrow> path \<Rightarrow> str \<Rightarrow> fs \<Rightarrow> (fs_exc + nat) \<times> fs" where
  "write_text keep p txt fs =
     (let bs = (case utf8_encode txt of None \<Rightarrow> [] | Some b \<Rightarrow> b)
      in then_do (on_tree (os_write fs p (\<lambda>old. (if keep then old else []) @ bs)) p fs)
           (\<lambda>_ fs'. (if utf8_encode txt = None then Inl (Value_exc (u ''surrogates not allowed'')) else Inr (length bs), fs')))"

definition echo_marker :: "str list \<Rightarrow> str" where
  "echo_marker tokens = (if u ''>>'' \<in> set tokens then u ''>>'' else u ''>'')"

definition marker_index :: "str list \<Rightarrow> nat" where
  "marker_index tokens = length (takeWhile (\<lambda>t. t \<noteq> echo_marker tokens) tokens)"

definition cmd_echo :: "str \<Rightarrow> str list \<Rightarrow> command_result cmd" where
  "cmd_echo command tokens = (\<lambda>(rt, fs).
     if u ''>'' \<notin> set tokens \<and> u ''>>'' \<notin> set tokens
     then (Inr (cmd_ok rt command ''echo'' (join_on 32 (tl tokens) @ [10]) []), (rt, fs))
     else if count_list tokens (echo_marker tokens) \<noteq> 1
     then (Inr (cmd_error rt command (u ''echo'') 2 (u ''echo: invalid redirection'') ''parse_error''), (rt, fs))
     else
       (let index = marker_index tokens
        in if index < 1 \<or> int index \<noteq> int (length tokens) - 2
           then (Inr (cmd_error rt command (u ''echo'') 2 (u ''echo: use echo TEXT > FILE'') ''parse_error''), (rt, fs))
           else lookup_path candidate (last tokens) (\<lambda>p.
             tree_do (path_mkdir True True (butlast p)) (\<lambda>_.
               tree_do (write_text (echo_marker tokens = u ''>>'') p (join_on 32 (tl (take index tokens)) @ [10]))
                 (\<lambda>n. done_ok command ''echo_write'' [(u ''path'', JStr (show_path p)), (u ''bytes'', JInt (int n))]))) (rt, fs)))"

section \<open>Programs\<close>

definition external :: "cmd_env \<Rightarrow> str \<Rightarrow> str list \<Rightarrow> command_result cmd" where
  "external env command tokens = (\<lambda>(rt, fs).
     case ce_process env (cr_cwd rt) tokens fs of
       (Not_started e, fs') \<Rightarrow>
         if not_found e
         then (Inr (cmd_error rt command (hd tokens) 127 (u ''bash: '' @ hd tokens @ u '': command not found'') ''command_not_found''), (rt, fs'))
         else (Inl e, (rt, fs'))
     | (Ended code out err, fs') \<Rightarrow>
         (Inr \<lparr>re_command = command, re_exit = code, re_stdout = out, re_stderr = err, re_cwd = cr_cwd rt,
            re_operation = hd tokens, re_meta = []\<rparr>, (rt, fs')))"

definition system_commands :: "str list" where
  "system_commands = map u [''date'', ''df'', ''free'', ''id'', ''nproc'', ''ps'', ''uname'', ''uptime'', ''whoami'']"

definition mqtt_commands :: "str list" where
  "mqtt_commands = map u [''mosquitto_pub'', ''mosquitto_sub'']"

definition internal_command :: "cmd_env \<Rightarrow> str \<Rightarrow> str list \<Rightarrow> command_result cmd option" where
  "internal_command env command tokens =
     (let name = hd tokens in
      if name = u ''pwd'' then Some (cmd_pwd command tokens)
      else if name = u ''cd'' then Some (cmd_cd command tokens)
      else if name = u ''ls'' then Some (cmd_ls env command tokens)
      else if name = u ''cat'' then Some (cmd_cat env command tokens)
      else if name = u ''sha256sum'' then Some (cmd_sha env command tokens)
      else if name = u ''test'' \<or> name = u ''['' then Some (cmd_test command tokens)
      else if name = u ''mkdir'' then Some (cmd_mkdir command tokens)
      else if name = u ''touch'' then Some (cmd_touch command tokens)
      else if name = u ''cp'' then Some (cmd_cp command tokens)
      else if name = u ''mv'' then Some (cmd_mv command tokens)
      else if name = u ''rm'' then Some (cmd_rm command tokens)
      else if name = u ''echo'' then Some (cmd_echo command tokens)
      else None)"

definition run_tokens :: "cmd_env \<Rightarrow> str \<Rightarrow> str list \<Rightarrow> command_result cmd" where
  "run_tokens env command tokens = (\<lambda>(rt, fs).
     if tokens = []
     then (Inr (cmd_error rt command (u ''unknown'') 2 (u ''bash: empty command'') ''empty_command''), (rt, fs))
     else
       (let name = hd tokens; shell = (u ''shell'' \<in> set (cr_skills rt)); mqtt = (u ''mqtt'' \<in> set (cr_skills rt))
        in case (if shell then internal_command env command tokens else None) of
             Some f \<Rightarrow> f (rt, fs)
           | None \<Rightarrow>
               if shell \<and> name \<in> set system_commands \<or> mqtt \<and> name \<in> set mqtt_commands
               then external env command tokens (rt, fs)
               else (Inr (cmd_error rt command name 126
                  (u ''bash: '' @ name @ u '': command is not permitted by assigned skills'') ''command_not_permitted''), (rt, fs))))"

text \<open>\<open>execute\<close>: a ValueError or an OSError becomes a result; \<open>Inl\<close> is the exception that leaves it.\<close>

definition restricted_execute :: "cmd_env \<Rightarrow> str \<Rightarrow> command_result cmd" where
  "restricted_execute env command = (\<lambda>(rt, fs).
     case (case tokenize command of
             Inl txt \<Rightarrow> (Inl (Value_exc txt), (rt, fs))
           | Inr tokens \<Rightarrow> run_tokens env command tokens (rt, fs)) of
       (Inr r, s) \<Rightarrow> (Inr r, s)
     | (Inl (Value_exc txt), s) \<Rightarrow>
         (Inr (cmd_error (fst s) command (u ''parse'') 2 (u ''bash: parse error: '' @ txt) ''parse_error''), s)
     | (Inl (Os_exc cls txt), s) \<Rightarrow> (Inr (cmd_error (fst s) command (u ''os'') 1 (cls @ u '': '' @ txt) ''os_error''), s)
     | (Inl e, s) \<Rightarrow> (Inl e, s))"

section \<open>Paths of the data directory\<close>

definition data_root :: "path \<Rightarrow> fs \<Rightarrow> fs_exc + path" where
  "data_root base fs =
     (let d = base @ [u ''data'']
      in case resolve_strict fs d of
           Inl e \<Rightarrow> Inl (if not_found e then Value_exc (u ''data directory does not exist: '' @ show_path d) else e)
         | Inr q \<Rightarrow> if is_dir fs q then Inr q else Inl (Value_exc (u ''data path is not a directory: '' @ show_path d)))"

definition resolve_data_path :: "path \<Rightarrow> fs \<Rightarrow> str \<Rightarrow> bool \<Rightarrow> fs_exc + path" where
  "resolve_data_path base fs value must_exist =
     (let logical = (if startswith value (u ''/'') then tl value else value); (anchor, parts) = parse_path logical
      in guard_not (logical = []) (Value_exc (u ''data path must name a file''))
        (guard_not (anchor \<noteq> Relative \<or> dotdot \<in> set parts) (Value_exc (u ''invalid data path: '' @ value))
          (try_bind (data_root base fs) (\<lambda>d.
            case realpath fs max_links [] (butlast (d @ parts)) of
              None \<Rightarrow> Inl (Loop_exc (u ''Symlink loop from '' @ py_repr (show_path (butlast (d @ parts)))))
            | Some parent \<Rightarrow>
                (let c = (if d @ parts = [] then [] else parent @ [last (d @ parts)])
                 in guard_not (\<not> inside d c) (Value_exc (u ''data path escapes data directory: '' @ value))
                   (guard_not (is_symlink fs c) (Value_exc (u ''symlink is not permitted: '' @ value))
                     (if \<not> must_exist then Inr c
                      else case resolve_strict fs c of
                        Inl e \<Rightarrow> Inl (if not_found e then Value_exc (u ''data file does not exist: '' @ value) else e)
                      | Inr q \<Rightarrow>
                          if \<not> inside d q then Inl (Value_exc (u ''data path escapes data directory: '' @ value))
                          else if \<not> is_file fs q then Inl (Value_exc (u ''data path is not a regular file: '' @ value))
                          else Inr q)))))))"

end
