(* ===== verification/WorkRuntime.thy ===== *)
theory WorkRuntime
  imports Restricted ToolGuard
begin

text \<open>
  The command runtime of the agents (orchestration/workspace_command_runtime.py), the bounded output
  of a program (orchestration/process_runner.py) and the dispatcher of MCP tools
  (orchestration/tool_dispatcher.py). A runtime with the shell skill hands the command to bash, one
  without it uses the restricted commands; both know the two MQTT pseudo-commands, and both remember
  the commands whose outcome is unknown. Environment variables, \<open>json.loads\<close> of the standard library
  and the MCP session are arguments; \<open>json.loads\<close> for MCP arguments gives objects as the list of their
  pairs and has already refused NaN and infinities.
\<close>

section \<open>Bounded output\<close>

text \<open>The chunks read from a pipe; what exceeds the limit is dropped and noted.\<close>

fun collect :: "nat \<Rightarrow> nat list \<times> bool \<Rightarrow> nat list list \<Rightarrow> nat list \<times> bool" where
  "collect limit s [] = s"
| "collect limit (buf, over) (chunk # chunks) =
     (let room = limit - length buf
      in collect limit (buf @ take room chunk, over \<or> length chunk > room) chunks)"

definition stream_text :: "nat \<Rightarrow> nat list list \<Rightarrow> str" where
  "stream_text limit chunks =
     (case collect limit ([], False) chunks of (buf, over) \<Rightarrow>
        utf8_replace buf @ (if over then 10 # u ''[output truncated]'' else []))"

definition timeout_text :: str where
  "timeout_text = 10 # u ''command timed out; process group terminated; side effects may be partial, do not retry automatically''"

text \<open>What \<open>run_process\<close> returns for the output read, whether the time ran out, and the exit code.\<close>

definition process_result :: "nat \<Rightarrow> nat list list \<Rightarrow> nat list list \<Rightarrow> bool \<Rightarrow> int \<Rightarrow> process_end" where
  "process_result limit out err expired code =
     Ended (if expired then 124 else code) (stream_text limit out)
       (stream_text limit err @ (if expired then timeout_text else []))"

section \<open>Model commands\<close>

definition work_prefix :: str where
  "work_prefix = u ''/work#''"

definition unwrap_work_command :: "str \<Rightarrow> str + str option" where
  "unwrap_work_command txt =
     (let s = strip txt
      in if \<not> startswith s work_prefix then Inr None
         else (let c = strip (drop (length work_prefix) s)
               in if c = [] \<or> 10 \<in> set c \<or> 13 \<in> set c
                  then Inl (u ''command must be one non-empty line after /work#'') else Inr (Some c)))"

section \<open>Environment\<close>

record work_env = cmd_env +
  we_enabled :: "str option"
  we_allow_shell :: "str option"
  we_host :: str
  we_port :: int
  we_loads :: "str \<Rightarrow> json option"
  we_float :: "pyfloat \<Rightarrow> str"

definition getenv :: "str option \<Rightarrow> string \<Rightarrow> str" where
  "getenv v d = (case v of None \<Rightarrow> u d | Some s \<Rightarrow> s)"

definition enabled_skills :: "('a) work_env_scheme \<Rightarrow> str list" where
  "enabled_skills env = map strip (split_on 44 (getenv (we_enabled env) ''shell,mqtt''))"

definition shell_allowed :: "('a) work_env_scheme \<Rightarrow> bool" where
  "shell_allowed env \<longleftrightarrow> lower (getenv (we_allow_shell env) ''1'') \<in> set (map u [''1'', ''true'', ''yes'', ''on''])"

section \<open>MQTT pseudo-commands\<close>

definition name_start :: "nat \<Rightarrow> bool" where
  "name_start c \<longleftrightarrow> is_lower c \<or> is_upper c \<or> c = 95"

definition field_name :: "str \<Rightarrow> bool" where
  "field_name s \<longleftrightarrow> (case s of [] \<Rightarrow> False | c # cs \<Rightarrow> name_start c \<and> list_all (\<lambda>c. name_start c \<or> is_digit c) cs)"

text \<open>\<open>shlex.quote\<close>.\<close>

definition safe_char :: "nat \<Rightarrow> bool" where
  "safe_char c \<longleftrightarrow> is_alnum c \<or> c \<in> set (u ''@%+=:,./-_'')"

definition shlex_quote :: "str \<Rightarrow> str" where
  "shlex_quote s =
     (if s = [] then [39, 39]
      else if list_all safe_char s then s
      else 39 # concat (map (\<lambda>c. if c = 39 then [39, 34, 39, 34, 39] else [c]) s) @ [39])"

definition sub_pipeline :: "('a) work_env_scheme \<Rightarrow> str \<Rightarrow> str \<Rightarrow> str" where
  "sub_pipeline env topic field =
     u ''mosquitto_sub -h '' @ we_host env @ u '' -p '' @ show_int (we_port env) @ u '' -t '' @ shlex_quote topic
       @ u '' -C 1 -W 5 | jq -r '' @ 39 # 46 # field @ [39]"

definition topic_meta :: "str \<Rightarrow> str \<Rightarrow> (str \<times> json) list" where
  "topic_meta topic field = [(u ''topic'', JStr topic), (u ''field'', JStr field)]"

text \<open>A started program, with the result's operation and metadata; a start that fails with an OSError is a result.\<close>

definition run_program ::
  "('a) work_env_scheme \<Rightarrow> str \<Rightarrow> string \<Rightarrow> string \<Rightarrow> str list \<Rightarrow> (str \<times> json) list \<Rightarrow> (int \<Rightarrow> (str \<times> json) list) \<Rightarrow> command_result cmd" where
  "run_program env command operation label argv failed meta = (\<lambda>(rt, fs).
     case ce_process env (cr_cwd rt) argv fs of
       (Not_started (Os_exc cls txt), fs') \<Rightarrow>
         (Inr \<lparr>re_command = command, re_exit = 126, re_stdout = [], re_stderr = u label @ u '': '' @ txt, re_cwd = cr_cwd rt,
            re_operation = u operation, re_meta = (u ''error_code'', JStr (u ''exec_error'')) # failed\<rparr>, (rt, fs'))
     | (Not_started e, fs') \<Rightarrow> (Inl e, (rt, fs'))
     | (Ended code out err, fs') \<Rightarrow>
         (Inr \<lparr>re_command = command, re_exit = code, re_stdout = out, re_stderr = err, re_cwd = cr_cwd rt,
            re_operation = u operation, re_meta = meta code\<rparr>, (rt, fs')))"

definition mqtt_sub_value :: "('a) work_env_scheme \<Rightarrow> str \<Rightarrow> command_result cmd" where
  "mqtt_sub_value env command = (\<lambda>(rt, fs).
     let bad = (\<lambda>err tag. (Inr (cmd_error rt command (u ''mqtt_sub'') 2 (u ''mqtt_sub.sh: '' @ err) tag), (rt, fs)))
     in case shlex_split command of
          Inl e \<Rightarrow> bad (sh_error_text e) ''parse_error''
        | Inr tokens \<Rightarrow>
            if length tokens \<noteq> 3 \<or> tokens ! 0 \<noteq> u ''mqtt_sub.sh''
            then bad (u ''usage: mqtt_sub.sh TOPIC FIELD'') ''invalid_arguments''
            else if \<not> field_name (tokens ! 2) then bad (u ''FIELD must be a simple JSON field name'') ''invalid_field''
            else run_program env command ''mqtt_sub'' ''mqtt_sub.sh''
              [u ''/bin/bash'', u ''-o'', u ''pipefail'', u ''-c'', sub_pipeline env (tokens ! 1) (tokens ! 2)]
              (topic_meta (tokens ! 1) (tokens ! 2)) (\<lambda>_. topic_meta (tokens ! 1) (tokens ! 2)) (rt, fs))"

definition publish_topic :: "str \<Rightarrow> str" where
  "publish_topic topic = (if endswith topic (u ''/set'') then topic else rstrip_of [47] topic @ u ''/set'')"

definition mqtt_pub_value :: "('a) work_env_scheme \<Rightarrow> str \<Rightarrow> command_result cmd" where
  "mqtt_pub_value env command = (\<lambda>(rt, fs).
     let bad = (\<lambda>err tag. (Inr (cmd_error rt command (u ''mqtt_pub'') 2 (u ''mqtt_pub.sh: '' @ err) tag), (rt, fs)))
     in case shlex_split command of
          Inl e \<Rightarrow> bad (sh_error_text e) ''parse_error''
        | Inr tokens \<Rightarrow>
            if length tokens \<noteq> 3 \<or> tokens ! 0 \<noteq> u ''mqtt_pub.sh''
            then bad (u ''usage: mqtt_pub.sh TOPIC FIELD=VALUE'') ''invalid_arguments''
            else
              (let topic = tokens ! 1
               in if topic = [] \<or> 43 \<in> set topic \<or> 35 \<in> set topic
                  then bad (u ''TOPIC must be a concrete MQTT topic'') ''invalid_topic''
                  else case partition_on 61 (tokens ! 2) of (field, sep, raw) \<Rightarrow>
                    if \<not> sep then bad (u ''FIELD=VALUE is required'') ''invalid_assignment''
                    else if \<not> field_name field then bad (u ''FIELD must be a simple JSON field name'') ''invalid_field''
                    else
                      (let v = (case we_loads env raw of None \<Rightarrow> JStr raw | Some j \<Rightarrow> j);
                           payload = dumps (we_float env) False (u '','') (u '':'') (JObj [(field, v)]);
                           meta = [(u ''topic'', JStr topic), (u ''publish_topic'', JStr (publish_topic topic)),
                                   (u ''field'', JStr field), (u ''value'', v)]
                       in run_program env command ''mqtt_pub'' ''mqtt_pub.sh''
                            [u ''mosquitto_pub'', u ''-h'', we_host env, u ''-p'', show_int (we_port env),
                             u ''-t'', publish_topic topic, u ''-m'', payload]
                            meta (\<lambda>_. meta) (rt, fs))))"

section \<open>The runtime\<close>

definition policy_error :: "cmd_runtime \<Rightarrow> str \<Rightarrow> string \<Rightarrow> string \<Rightarrow> command_result" where
  "policy_error rt command err tag = cmd_error rt command (u ''policy'') 126 (u err) tag"

definition effective_command :: "str \<Rightarrow> str option \<Rightarrow> str" where
  "effective_command command input =
     (case (shlex_split (strip command), input) of
        (Inr [_], Some txt) \<Rightarrow> if strip txt = [] then command else first_word (strip command) @ 32 # strip txt
      | _ \<Rightarrow> command)"

text \<open>\<open>execute_internal_command\<close>; \<open>None\<close> for an ordinary command.\<close>

definition internal_exec ::
  "('a) work_env_scheme \<Rightarrow> str \<Rightarrow> bool \<Rightarrow> str option \<Rightarrow> cmd_state \<Rightarrow> ((fs_exc + command_result) \<times> cmd_state) option" where
  "internal_exec env command require_assignment input s =
     (let name = first_word (strip command)
      in if name \<noteq> u ''mqtt_sub.sh'' \<and> name \<noteq> u ''mqtt_pub.sh'' then None
         else if u ''mqtt'' \<notin> set (enabled_skills env)
         then Some (Inr (policy_error (fst s) command ''mqtt disabled by runtime policy'' ''skill_disabled''), s)
         else if require_assignment \<and> u ''mqtt'' \<notin> set (cr_skills (fst s)) then None
         else if name = u ''mqtt_sub.sh'' then Some (mqtt_sub_value env (effective_command command input) s)
         else Some (mqtt_pub_value env (effective_command command input) s))"

definition bash_meta :: "int \<Rightarrow> (str \<times> json) list" where
  "bash_meta code = (u ''shell'', JStr (u ''/bin/bash''))
     # (if code = 124 then [(u ''error_code'', JStr (u ''timeout'')), (u ''outcome'', JStr (u ''uncertain''))] else [])"

definition bash :: "('a) work_env_scheme \<Rightarrow> str \<Rightarrow> command_result cmd" where
  "bash env command = run_program env command ''bash'' ''bash'' [u ''/bin/bash'', u ''-c'', command] [] bash_meta"

definition execute_once :: "('a) work_env_scheme \<Rightarrow> str \<Rightarrow> command_result cmd" where
  "execute_once env command s =
     (case internal_exec env command True None s of
        Some r \<Rightarrow> r
      | None \<Rightarrow>
          (let name = first_word (strip command); enabled = set (enabled_skills env)
           in if (name = u ''mosquitto_sub'' \<or> name = u ''mosquitto_pub'') \<and> u ''mqtt'' \<notin> enabled
              then (Inr (policy_error (fst s) command ''mqtt disabled by runtime policy'' ''skill_disabled''), s)
              else if u ''shell'' \<in> set (cr_skills (fst s)) then
                (if u ''shell'' \<notin> enabled \<or> \<not> shell_allowed env
                 then (Inr (policy_error (fst s) command ''shell disabled by runtime policy'' ''shell_disabled''), s)
                 else bash env command s)
              else restricted_execute (cmd_env.truncate env) command s))"

definition add_uncertain :: "str \<Rightarrow> cmd_runtime \<Rightarrow> cmd_runtime" where
  "add_uncertain key rt = rt\<lparr>cr_uncertain := List.insert key (cr_uncertain rt)\<rparr>"

definition retry_refused :: "cmd_runtime \<Rightarrow> str \<Rightarrow> command_result" where
  "retry_refused rt command =
     policy_error rt command ''previous attempt timed out with uncertain side effects; automatic retry refused'' ''uncertain_retry''"

definition work_execute :: "('a) work_env_scheme \<Rightarrow> str \<Rightarrow> command_result cmd" where
  "work_execute env command = (\<lambda>(rt, fs).
     if command \<in> set (cr_uncertain rt) then (Inr (retry_refused rt command), (rt, fs))
     else case execute_once env command (rt, fs) of
       (Inl e, s) \<Rightarrow> (Inl e, s)
     | (Inr r, (rt', fs')) \<Rightarrow> (Inr r, ((if re_exit r = 124 then add_uncertain command rt' else rt'), fs')))"

definition work_format_result :: "cmd_runtime \<Rightarrow> command_result \<Rightarrow> str" where
  "work_format_result rt r =
     (if re_operation r = u ''mqtt_sub'' \<and> result_ok r \<and> strip (re_stdout r) \<noteq> [] then strip (re_stdout r)
      else if re_operation r = u ''mqtt_pub'' \<and> result_ok r then u ''OK''
      else format_result rt r)"

section \<open>MCP tools\<close>

definition is_mcp :: "str \<Rightarrow> bool" where
  "is_mcp command \<longleftrightarrow> startswith (lstrip command) (u ''mcp:'')"

text \<open>\<open>object_pairs_hook\<close>: an object with a repeated key is refused.\<close>

fun unique_keys :: "json \<Rightarrow> bool" where
  "unique_keys (JObj ps) \<longleftrightarrow> distinct (map fst ps) \<and> list_all (\<lambda>p. unique_keys (snd p)) ps"
| "unique_keys (JList xs) \<longleftrightarrow> list_all unique_keys xs"
| "unique_keys _ \<longleftrightarrow> True"

fun sort_keys :: "json \<Rightarrow> json" where
  "sort_keys (JObj ps) = JObj (sort_key fst (map (\<lambda>p. (fst p, sort_keys (snd p))) ps))"
| "sort_keys (JList xs) = JList (map sort_keys xs)"
| "sort_keys v = v"

definition assigned :: "str \<Rightarrow> str list \<Rightarrow> bool" where
  "assigned name skills \<longleftrightarrow>
     name \<in> set skills
     \<or> (case partition_on 58 name of (a, s1, r1) \<Rightarrow>
          case partition_on 58 r1 of (server, s2, _) \<Rightarrow>
            s1 \<and> s2 \<and> a = u ''mcp'' \<and> u ''mcp:'' @ server \<in> set skills)"

record 'w mcp_env =
  me_loads :: "str \<Rightarrow> str + json"
  me_float :: "pyfloat \<Rightarrow> str"
  me_call :: "(str \<Rightarrow> (str \<times> json) list \<Rightarrow> 'w \<Rightarrow> str \<times> 'w) option"

definition system_error :: "str \<Rightarrow> str" where
  "system_error txt = u ''SYSTEM_ERROR'' @ 10 # txt"

definition mcp_parse :: "'w mcp_env \<Rightarrow> str list \<Rightarrow> str \<Rightarrow> str + str \<times> (str \<times> json) list" where
  "mcp_parse env skills command =
     (case split_once (strip command) of
        [name, raw] \<Rightarrow>
          (case me_loads env raw of
             Inl e \<Rightarrow> Inl e
           | Inr v \<Rightarrow>
               if \<not> unique_keys v then Inl (u ''JSON contains duplicate keys'')
               else case v of
                 JObj ps \<Rightarrow>
                   if \<not> assigned name skills then Inl (u ''MCP tool is unknown or not assigned to this runtime'')
                   else if me_call env = None then Inl (u ''MCP is not configured'')
                   else Inr (name, ps)
               | _ \<Rightarrow> Inl (u ''MCP arguments must be a JSON object''))
      | _ \<Rightarrow> Inl (u ''not enough values to unpack (expected 2, got 1)''))"

definition mcp_key :: "'w mcp_env \<Rightarrow> str \<Rightarrow> (str \<times> json) list \<Rightarrow> str" where
  "mcp_key env name ps = name @ 32 # dumps (me_float env) False (u '', '') (u '': '') (sort_keys (JObj ps))"

definition outcome_unknown :: str where
  "outcome_unknown = system_error (u ''MCP outcome_unknown:'')"

definition dispatch_mcp :: "'w mcp_env \<Rightarrow> str \<Rightarrow> cmd_runtime \<times> 'w \<Rightarrow> str option \<times> (cmd_runtime \<times> 'w)" where
  "dispatch_mcp env command = (\<lambda>(rt, w).
     if \<not> is_mcp command then (None, (rt, w))
     else case mcp_parse env (cr_skills rt) command of
       Inl e \<Rightarrow> (Some (system_error (u ''MCP invalid_call: '' @ e)), (rt, w))
     | Inr (name, ps) \<Rightarrow>
         (let key = mcp_key env name ps
          in if key \<in> set (cr_uncertain rt)
             then (Some (outcome_unknown @ u '' previous attempt may have executed; automatic replay refused''), (rt, w))
             else case the (me_call env) name ps w of (result, w') \<Rightarrow>
               (Some result, ((if startswith result outcome_unknown then add_uncertain key rt else rt), w'))))"

end
