(* ===== verification/RestrictedProps.thy ===== *)
theory RestrictedProps
  imports Restricted
begin

text \<open>
  What the restricted commands and the data paths guarantee: every command keeps to the workspace,
  a text written by one command is read back by another, and a data path names something inside the
  data directory whatever links there are.
\<close>

section \<open>States of the runtime\<close>

definition rt_ok :: "path \<Rightarrow> cmd_runtime \<Rightarrow> bool" where
  "rt_ok base rt \<longleftrightarrow> cr_root rt = base \<and> inside base (cr_cwd rt) \<and> dotdot \<notin> set (cr_cwd rt)"

definition state_ok :: "path \<Rightarrow> cmd_state \<Rightarrow> bool" where
  "state_ok base s \<longleftrightarrow> rt_ok base (fst s) \<and> workspace_ok base (snd s)"

definition step_ok :: "path \<Rightarrow> cmd_state \<Rightarrow> cmd_state \<Rightarrow> bool" where
  "step_ok base s s' \<longleftrightarrow> rt_ok base (fst s') \<and> safe_step base (snd s) (snd s')"

lemma step_refl [simp]: "step_ok base s s \<longleftrightarrow> state_ok base s"
  by (simp add: step_ok_def state_ok_def)

lemma step_ok_state: "step_ok base s s' \<Longrightarrow> state_ok base s'"
  by (auto simp: step_ok_def state_ok_def dest: safe_ok)

lemma step_trans: "step_ok base a b \<Longrightarrow> step_ok base b c \<Longrightarrow> step_ok base a c"
  by (auto simp: step_ok_def intro: safe_trans)

lemma step_same_tree: "state_ok base (rt, fs) \<Longrightarrow> rt_ok base rt' \<Longrightarrow> step_ok base (rt, fs) (rt', fs)"
  by (simp add: step_ok_def state_ok_def)

section \<open>Paths\<close>

lemma candidate_cases:
  assumes ok: "state_ok base (rt, fs)" and c: "candidate rt fs v = Inr c"
  shows "inside base c"
    "dotdot \<notin> set c \<or> (\<exists>d. c = d @ [dotdot] \<and> inside base d \<and> dotdot \<notin> set d \<and>
       path_parts v \<noteq> [] \<and> last (path_parts v) = dotdot)"
proof -
  have rt: "cr_root rt = base" "inside base (cr_cwd rt)" "dotdot \<notin> set (cr_cwd rt)"
    and ws: "workspace_ok base fs"
    using ok by (auto simp: state_ok_def rt_ok_def)
  define p where "p = full_path rt v"
  have p: "p = path_parts v \<or> p = cr_cwd rt @ path_parts v"
    by (simp add: p_def full_path_def parse_path_def)
  obtain parent where parent: "realpath fs max_links [] (butlast p) = Some parent"
    and c': "c = (if p = [] then [] else parent @ [last p])" and i: "inside base c"
    using c rt(1) unfolding candidate_def p_def [symmetric] Let_def by (auto split: if_splits option.splits)
  show "inside base c" by (rule i)
  have pd: "dotdot \<notin> set parent" using realpath_no_dotdot [OF parent] by simp
  show "dotdot \<notin> set c \<or> (\<exists>d. c = d @ [dotdot] \<and> inside base d \<and> dotdot \<notin> set d \<and>
       path_parts v \<noteq> [] \<and> last (path_parts v) = dotdot)"
  proof (cases "p \<noteq> [] \<and> last p = dotdot")
    case False
    then show ?thesis using c' pd by auto
  next
    case True
    have parts: "path_parts v \<noteq> []"
    proof
      assume "path_parts v = []"
      then have "p = cr_cwd rt" using p True by auto
      then show False using True rt(3) last_in_set by metis
    qed
    then have lp: "last (path_parts v) = dotdot" using p True parts by auto
    have "c \<noteq> base"
    proof
      assume "c = base"
      then have "dotdot \<notin> set c" using workspaceD(4) [OF ws] by (simp add: canon_def)
      then show False using c' True by simp
    qed
    then have "inside base parent" using inside_butlast [OF i] c' True by simp
    then show ?thesis using c' True pd parts lp by auto
  qed
qed

lemma existing_inside:
  assumes ok: "state_ok base (rt, fs)" and q: "existing rt fs v = Inr q"
  shows "inside base q" "dotdot \<notin> set q" "node_at fs q \<noteq> None"
proof -
  have base: "cr_root rt = base" and t: "tree_ok fs"
    using ok by (auto simp: state_ok_def rt_ok_def workspace_ok_def)
  obtain c where c: "resolve_strict fs c = Inr q" "inside base q"
    using q base by (auto simp: existing_def split: if_splits)
  then have a: "at_path fs c = Inr q" by (auto simp: resolve_strict_def split: sum.splits)
  show "inside base q" "dotdot \<notin> set q" "node_at fs q \<noteq> None"
    using c(2) at_path_no_dotdot [OF a] at_path_exists [OF a t] by auto
qed

text \<open>A path that ends in \<open>..\<close> names a directory, if anything.\<close>

lemma walk_canon_dotdot:
  "walk create fs n d (cs @ [dotdot]) = Inr q \<Longrightarrow> canon fs (d @ cs) \<Longrightarrow> q = butlast (d @ cs) \<and> node_at fs (d @ cs) = Some Dir"
proof (induction cs arbitrary: d)
  case Nil
  then show ?case by (auto split: if_splits)
next
  case (Cons c cs)
  have "canon fs (d @ [c])" using Cons.prems(2) canon_prefix [of fs "d @ [c]" cs] by simp
  then have "linkless (node_at fs (d @ [c]))" "c \<noteq> dotdot"
    by (auto dest: canon_self canonD(2))
  then show ?case
    using Cons.IH [of "d @ [c]"] Cons.prems by (auto split: if_splits option.splits node.splits)
qed

lemma walk_reaches_dotdot:
  assumes "tree_ok fs"
  shows "canon fs (d @ cs) \<Longrightarrow> node_at fs (d @ cs) = Some Dir \<Longrightarrow>
    walk create fs n d (cs @ [dotdot]) = Inr (butlast (d @ cs))"
proof (induction cs arbitrary: d)
  case Nil
  then show ?case by simp
next
  case (Cons x xs)
  have "canon fs (d @ [x])" using Cons.prems(1) canon_prefix [of fs "d @ [x]" xs] by simp
  then have "linkless (node_at fs (d @ [x]))" "x \<noteq> dotdot"
    by (auto dest: canon_self canonD(2))
  moreover have "node_at fs d = Some Dir"
    using tree_prefix [OF assms, of d "x # xs"] Cons.prems(2) by simp
  moreover have "node_at fs (d @ [x]) \<noteq> None"
    using tree_prefix [OF assms, of "d @ [x]" xs] Cons.prems(2) by (cases "xs = []") auto
  ultimately show ?case
    using Cons.IH [of "d @ [x]"] Cons.prems by (auto split: option.splits node.splits)
qed

lemma dotdot_is_dir:
  assumes ws: "workspace_ok base fs" and d: "inside base d" "dotdot \<notin> set d"
    and w: "walk create fs max_links [] (d @ [dotdot]) = Inr q"
  shows "node_at fs q = Some Dir"
proof -
  have "q = butlast d" "node_at fs d = Some Dir"
    using walk_canon_dotdot [OF w] inside_canon [OF ws d] by auto
  then show ?thesis
    using tree_parent(1) [OF workspaceD(1) [OF ws], of d] inside_nonempty [OF ws d(1)] by auto
qed

section \<open>Operations on a candidate path\<close>

definition cand :: "path \<Rightarrow> path \<Rightarrow> bool" where
  "cand base c \<longleftrightarrow> inside base c \<and> (dotdot \<notin> set c \<or> (\<exists>d. c = d @ [dotdot] \<and> inside base d \<and> dotdot \<notin> set d))"

lemma candidate_cand: "state_ok base (rt, fs) \<Longrightarrow> candidate rt fs v = Inr c \<Longrightarrow> cand base c"
  using candidate_cases unfolding cand_def by blast

lemma cand_os_mkdir: "workspace_ok base fs \<Longrightarrow> cand base c \<Longrightarrow> os_mkdir fs c = Inr fs' \<Longrightarrow> safe_step base fs fs'"
  by (auto simp: cand_def intro: safe_os_mkdir) (auto simp: os_mkdir_def)

lemma cand_os_write:
  assumes "workspace_ok base fs" "cand base c" "os_write fs c f = Inr fs'"
  shows "safe_step base fs fs'"
proof (cases "dotdot \<in> set c")
  case False
  then show ?thesis using assms by (auto simp: cand_def intro: safe_os_write)
next
  case True
  then obtain d where d: "c = d @ [dotdot]" "inside base d" "dotdot \<notin> set d"
    using assms(2) by (auto simp: cand_def)
  obtain q where q: "walk True fs max_links [] c = Inr q"
    using assms(3) by (auto simp: os_write_def)
  then have "node_at fs q = Some Dir" using dotdot_is_dir [OF assms(1) d(2,3)] d(1) by simp
  then show ?thesis using assms(3) q by (simp add: os_write_def)
qed

lemma cand_mkdir_once: "workspace_ok base fs \<Longrightarrow> cand base c \<Longrightarrow> safe_step base fs (snd (mkdir_once ok c fs))"
  using cand_os_mkdir by (auto simp: mkdir_once_def split: sum.split)

lemma cand_butlast:
  assumes "workspace_ok base fs" "cand base c" "c \<noteq> base"
  shows "inside base (butlast c)" "dotdot \<notin> set (butlast c)"
  using assms inside_butlast by (auto simp: cand_def dest: in_set_butlastD)

lemma cand_path_mkdir:
  assumes "workspace_ok base fs" "cand base c"
  shows "safe_step base fs (snd (path_mkdir parents ok c fs))"
proof -
  have "safe_step base fs (snd (mkdir_parents ok c fs))"
  proof (cases "os_mkdir fs c = Inl ENOENT \<and> c \<noteq> []")
    case True
    then have "c \<noteq> base" using mkdir_base assms by auto
    then have "safe_step base fs (snd (mkdir_parents True (butlast c) fs))"
      using cand_butlast [OF assms] assms(1) by (intro safe_mkdir_parents)
    then show ?thesis
      using True assms by (subst mkdir_parents.simps) (auto intro!: safe_then_do cand_mkdir_once)
  next
    case False
    then show ?thesis using cand_mkdir_once [OF assms] by (subst mkdir_parents.simps) auto
  qed
  then show ?thesis using cand_mkdir_once [OF assms] by (simp add: path_mkdir_def)
qed

lemma cand_touch: "workspace_ok base fs \<Longrightarrow> cand base c \<Longrightarrow> safe_step base fs (snd (touch c fs))"
  using cand_os_write by (auto simp: touch_def intro: safe_on_tree)

text \<open>Making the parents of a candidate: the parent of the workspace itself exists.\<close>

lemma cand_parents:
  assumes ws: "workspace_ok base fs" and c: "cand base c"
  shows "safe_step base fs (snd (path_mkdir True True (butlast c) fs))"
proof (cases "c = base")
  case False
  then show ?thesis using safe_path_mkdir [OF ws cand_butlast [OF ws c]] by blast
next
  case True
  note w = workspaceD [OF ws]
  have ex: "path_exists fs (butlast base)" "node_at fs (butlast base) = Some Dir"
    using base_exists [OF ws] tree_parent(1) [OF w(1)] w by auto
  have st: "stat fs (butlast base) = Some (butlast base, Dir)"
    using stat_canon [OF w(1) canon_butlast [OF w(4)]] ex by simp
  have "os_mkdir fs (butlast base) = Inl EEXIST"
  proof (cases "butlast base = []")
    case True
    then show ?thesis by (simp add: os_mkdir_def at_path_def)
  next
    case False
    have "last (butlast base) \<noteq> dotdot"
      using canonD(2) [OF canon_butlast [OF w(4)]] False last_in_set by metis
    moreover have "entry_of fs (butlast base) = Inr (butlast base)"
      using at_path_reaches [OF w(1) canon_butlast [OF canon_butlast [OF w(4)]]]
        tree_parent(1) [OF w(1), of "butlast base"] ex(2) False by (auto simp: entry_of_def)
    ultimately show ?thesis using ex False by (simp add: os_mkdir_def)
  qed
  then show ?thesis
    using True ws st by (subst path_mkdir_def, subst mkdir_parents.simps) (simp add: mkdir_once_def is_dir_def)
qed

lemma cand_write_text:
  assumes "workspace_ok base fs" "cand base c"
  shows "safe_step base fs (snd (write_text keep c txt fs))"
proof -
  have "safe_step base fs (snd (on_tree (os_write fs c f) c fs))" for f
    using assms cand_os_write by (auto intro: safe_on_tree)
  then show ?thesis by (auto simp: write_text_def Let_def intro!: safe_then_do)
qed

section \<open>Commands\<close>

lemma tree_do_ok:
  assumes "state_ok base s" "safe_step base (snd s) (snd (f (snd s)))"
    "\<And>v s'. state_ok base s' \<Longrightarrow> step_ok base s' (snd (k v s'))"
  shows "step_ok base s (snd (tree_do f k s))"
proof -
  obtain rt fs where s: "s = (rt, fs)" by (cases s)
  have mid: "step_ok base s (rt, snd (f fs))"
    using assms(1,2) by (simp add: s step_ok_def state_ok_def)
  show ?thesis
    using mid step_trans [OF mid assms(3) [OF step_ok_state [OF mid]]]
    by (cases "f fs") (auto simp: s tree_do_def split: sum.split)
qed

lemma done_ok_ok: "state_ok base s \<Longrightarrow> step_ok base s (snd (done_ok c op meta s))"
  by (cases s) (simp add: done_ok_def)

lemma lookup_candidate_ok:
  assumes "state_ok base s" "\<And>c. cand base c \<Longrightarrow> step_ok base s (snd (k c s))"
  shows "step_ok base s (snd (lookup_path candidate v k s))"
  using assms candidate_cand [of base "fst s" "snd s"]
  by (cases s) (auto simp: lookup_path_def split: sum.split)

lemma lookup_existing_ok:
  assumes "state_ok base s"
    "\<And>q. inside base q \<Longrightarrow> dotdot \<notin> set q \<Longrightarrow> node_at (snd s) q \<noteq> None \<Longrightarrow> step_ok base s (snd (k q s))"
  shows "step_ok base s (snd (lookup_path existing v k s))"
  using assms existing_inside [of base "fst s" "snd s"]
  by (cases s) (auto simp: lookup_path_def split: sum.split)

text \<open>The destination of a copy or a move must not end in \<open>..\<close>.\<close>

definition plain_end :: "str \<Rightarrow> bool" where
  "plain_end v \<longleftrightarrow> path_parts v = [] \<or> last (path_parts v) \<noteq> dotdot"

lemma lookup_plain_ok:
  assumes "state_ok base s" "plain_end v"
    "\<And>c. inside base c \<Longrightarrow> dotdot \<notin> set c \<Longrightarrow> step_ok base s (snd (k c s))"
  shows "step_ok base s (snd (lookup_path candidate v k s))"
  using assms candidate_cases [of base "fst s" "snd s" v]
  by (cases s) (auto simp: lookup_path_def plain_end_def split: sum.split)

lemma arity_ok: "state_ok base s \<Longrightarrow> (length ts = n \<Longrightarrow> step_ok base s (snd (k s))) \<Longrightarrow> step_ok base s (snd (arity ts n us k s))"
  by (simp add: arity_def)

lemma state_ws: "state_ok base s \<Longrightarrow> workspace_ok base (snd s)"
  by (simp add: state_ok_def)

lemma mkdir_step: "state_ok base s \<Longrightarrow> step_ok base s (snd (cmd_mkdir c ts s))"
  by (cases s) (auto simp: cmd_mkdir_def split: sum.split
      intro!: lookup_candidate_ok tree_do_ok done_ok_ok cand_path_mkdir dest: state_ws)

lemma touch_step: "state_ok base s \<Longrightarrow> step_ok base s (snd (cmd_touch c ts s))"
  unfolding cmd_touch_def
  by (intro arity_ok lookup_candidate_ok tree_do_ok done_ok_ok) (auto intro: cand_parents cand_touch dest: state_ws)

lemma cp_step: "state_ok base s \<Longrightarrow> (length ts = 3 \<Longrightarrow> plain_end (ts ! 2)) \<Longrightarrow> step_ok base s (snd (cmd_cp c ts s))"
  unfolding cmd_cp_def
  by (intro arity_ok lookup_existing_ok lookup_plain_ok)
    (auto split: prod.split intro!: tree_do_ok done_ok_ok safe_copy2 dest: state_ws)

lemma mv_step: "state_ok base s \<Longrightarrow> (length ts = 3 \<Longrightarrow> plain_end (ts ! 2)) \<Longrightarrow> step_ok base s (snd (cmd_mv c ts s))"
  unfolding cmd_mv_def
  by (intro arity_ok lookup_existing_ok lookup_plain_ok tree_do_ok done_ok_ok) (auto intro: safe_move dest: state_ws)

lemma rm_step: "state_ok base s \<Longrightarrow> step_ok base s (snd (cmd_rm c ts s))"
  unfolding cmd_rm_def
  by (intro arity_ok lookup_existing_ok)
    (auto split: prod.split intro!: tree_do_ok done_ok_ok safe_on_tree intro: safe_os_unlink dest: state_ws)

lemma echo_step: "state_ok base s \<Longrightarrow> step_ok base s (snd (cmd_echo c ts s))"
  by (cases s) (auto simp: cmd_echo_def Let_def
      intro!: lookup_candidate_ok tree_do_ok done_ok_ok cand_parents cand_write_text dest: state_ws)

lemma cd_step: "state_ok base s \<Longrightarrow> step_ok base s (snd (cmd_cd c ts s))"
proof -
  assume ok: "state_ok base s"
  obtain rt fs where s: "s = (rt, fs)" by (cases s)
  show ?thesis
  proof (cases "length ts = 2")
    case False
    then show ?thesis using ok by (simp add: cmd_cd_def arity_def)
  next
    case two: True
    show ?thesis
    proof (cases "existing rt fs (ts ! 1)")
      case (Inl e)
      then show ?thesis using ok two by (simp add: cmd_cd_def arity_def s)
    next
      case (Inr q)
      have "rt_ok base (rt\<lparr>cr_cwd := q\<rparr>)"
        using existing_inside [OF ok [unfolded s] Inr] ok by (simp add: s state_ok_def rt_ok_def)
      then show ?thesis
        using Inr ok two by (simp add: cmd_cd_def arity_def s Let_def step_same_tree)
    qed
  qed
qed

lemma cat_file_step: "state_ok base s \<Longrightarrow> step_ok base s (snd (cat_file env c ts s))"
  by (cases s) (auto simp: cat_file_def arity_def Let_def step_ok_def state_ok_def rt_ok_def split: sum.split)

lemma append_step: "state_ok base s \<Longrightarrow> step_ok base s (snd (append_file env c a b s))"
proof -
  assume ok: "state_ok base s"
  obtain rt fs where s: "s = (rt, fs)" by (cases s)
  have ws: "workspace_ok base fs" and rt: "rt_ok base rt" using ok by (simp_all add: s state_ok_def)
  have "safe_step base fs (dput dest (Regular bs) fs)"
    if c: "append_checks env c a b src (rt, fs) = Inr (dest, dig)" for src dest dig bs
  proof -
    have d: "candidate rt fs b = Inr dest" "is_dir fs (butlast dest)" "\<not> (path_exists fs dest \<and> \<not> is_file fs dest)"
      using c by (auto simp: append_checks_def Let_def split: if_splits option.splits sum.splits)
    have cd: "cand base dest" using candidate_cand ok d(1) by (simp add: s)
    have nodot: "dotdot \<notin> set dest"
    proof
      assume "dotdot \<in> set dest"
      then obtain e where e: "dest = e @ [dotdot]" "inside base e" "dotdot \<notin> set e"
        using cd by (auto simp: cand_def)
      have st: "stat fs e = map_option (Pair e) (node_at fs e)" using stat_inside [OF ws e(2,3)] .
      then have dir: "node_at fs e = Some Dir" using d(2) e(1)
        by (auto simp: is_dir_def split: option.splits node.splits)
      have we: "walk False fs max_links [] e = Inr e"
        using at_path_inside(2) [OF ws e(2,3)] dir by (simp add: at_path_def)
      have "walk False fs max_links [] (e @ [dotdot]) = Inr (butlast e)"
        using walk_reaches_dotdot [OF workspaceD(1) [OF ws], of "[]" e] inside_canon [OF ws e(2,3)] dir by simp
      then have "stat fs dest = Some (butlast e, Dir)"
        using tree_parent(1) [OF workspaceD(1) [OF ws], of e] dir inside_nonempty [OF ws e(2)]
        by (auto simp: stat_def at_path_def e(1))
      then show False using d(3) by (simp add: path_exists_def is_file_def)
    qed
    have i: "inside base dest" using cd by (simp add: cand_def)
    have st: "stat fs dest = map_option (Pair dest) (node_at fs dest)" using stat_inside [OF ws i nodot] .
    have "node_at fs dest \<noteq> Some Dir" using d(3) st by (auto simp: path_exists_def is_file_def)
    moreover have nb: "dest \<noteq> base" using calculation workspaceD(3) [OF ws] by auto
    moreover have "node_at fs (butlast dest) = Some Dir"
      using stat_inside [OF ws cand_butlast [OF ws cd nb]] d(2) by (auto simp: is_dir_def split: option.splits node.splits)
    ultimately show ?thesis using i nodot by (auto intro: safe_dput [OF ws])
  qed
  then show ?thesis
    using ok rt by (auto simp: s append_file_def Let_def step_ok_def state_ok_def rt_ok_def split: sum.split)
qed

lemma reading_steps:
  "state_ok base s \<Longrightarrow> step_ok base s (snd (cmd_pwd c ts s))"
  "state_ok base s \<Longrightarrow> step_ok base s (snd (cmd_ls env c ts s))"
  "state_ok base s \<Longrightarrow> step_ok base s (snd (cmd_sha env c ts s))"
  "state_ok base s \<Longrightarrow> step_ok base s (snd (cmd_test c ts s))"
  by (cases s; auto simp: cmd_pwd_def cmd_ls_def cmd_sha_def cmd_test_def arity_def Let_def split: sum.split fs_exc.split)+

section \<open>A whole command and a history\<close>

text \<open>The allow-listed programs (date, df, mosquitto_pub and so on) write no files.\<close>

definition read_only_programs :: "cmd_env \<Rightarrow> bool" where
  "read_only_programs env \<longleftrightarrow> (\<forall>cwd argv fs. snd (ce_process env cwd argv fs) = fs)"

definition plain_destination :: "str \<Rightarrow> bool" where
  "plain_destination command \<longleftrightarrow>
     (case tokenize command of
        Inl _ \<Rightarrow> True
      | Inr ts \<Rightarrow> length ts = 3 \<longrightarrow> hd ts \<in> {u ''cp'', u ''mv''} \<longrightarrow> plain_end (ts ! 2))"

lemma external_step: "read_only_programs env \<Longrightarrow> state_ok base s \<Longrightarrow> step_ok base s (snd (external env c ts s))"
proof -
  assume ro: "read_only_programs env" and ok: "state_ok base s"
  obtain rt fs where s: "s = (rt, fs)" by (cases s)
  have "snd (ce_process env (cr_cwd rt) ts fs) = fs" using ro by (simp add: read_only_programs_def)
  then obtain e where "ce_process env (cr_cwd rt) ts fs = (e, fs)" by (metis prod.collapse)
  then show ?thesis
    using ok by (simp add: external_def s split: process_end.split)
qed

lemma internal_step:
  assumes "state_ok base s" "length ts = 3 \<Longrightarrow> hd ts \<in> {u ''cp'', u ''mv''} \<Longrightarrow> plain_end (ts ! 2)"
    "internal_command env c ts = Some f"
  shows "step_ok base s (snd (f s))"
  using assms(3)
  by (simp add: internal_command_def Let_def cmd_cat_def split: if_splits)
    (use assms(1,2) in \<open>auto intro: mkdir_step touch_step cp_step mv_step rm_step echo_step cd_step cat_file_step
      append_step reading_steps\<close>)

lemma execute_step:
  assumes ro: "read_only_programs env" and ok: "state_ok base s" and plain: "plain_destination c"
  shows "step_ok base s (snd (restricted_execute env c s))"
proof -
  obtain rt fs where s: "s = (rt, fs)" by (cases s)
  have run: "step_ok base s (snd (run_tokens env c ts s))" if t: "tokenize c = Inr ts" for ts
  proof -
    have p: "length ts = 3 \<Longrightarrow> hd ts \<in> {u ''cp'', u ''mv''} \<Longrightarrow> plain_end (ts ! 2)"
      using plain t by (auto simp: plain_destination_def)
    show ?thesis
      using ok internal_step [OF ok p] external_step [OF ro ok]
      by (auto simp: run_tokens_def s Let_def split: option.split)
  qed
  show ?thesis
  proof (cases "tokenize c")
    case (Inl e)
    then show ?thesis using ok by (simp add: restricted_execute_def s)
  next
    case (Inr ts)
    obtain r s' where r: "run_tokens env c ts (rt, fs) = (r, s')" by (metis prod.collapse)
    then show ?thesis
      using run [OF Inr] Inr by (auto simp: restricted_execute_def s split: sum.split fs_exc.split)
  qed
qed

text \<open>One command of a history, with what the environment does meanwhile.\<close>

definition run_command :: "cmd_state \<Rightarrow> cmd_env \<times> str \<Rightarrow> cmd_state" where
  "run_command s x = snd (restricted_execute (fst x) (snd x) s)"

lemma run_step:
  "read_only_programs (fst x) \<Longrightarrow> state_ok base s \<Longrightarrow> plain_destination (snd x) \<Longrightarrow> step_ok base s (run_command s x)"
  unfolding run_command_def by (rule execute_step)

interpretation commands: stepper_rel run_command "\<lambda>_ x. read_only_programs (fst x) \<and> plain_destination (snd x)"
    "state_ok base" "\<lambda>s s'. confined base (snd s) (snd s')" for base
  by unfold_locales
    (auto intro: confined_trans dest!: run_step dest: step_ok_state simp: step_ok_def safe_step_def)

lemma new_cmd_runtime_ok:
  assumes ws: "workspace_ok base fs" and rt: "new_cmd_runtime base skills m t fs = (Inr rt, fs')"
  shows "step_ok base (rt, fs) (rt, fs')"
proof -
  note w = workspaceD [OF ws]
  have nd: "dotdot \<notin> set base" using w(4) by (simp add: canon_def)
  have "path_mkdir True True base fs = (Inr (), fs)"
  proof -
    have "entry_of fs base = Inr base"
      using at_path_reaches [OF w(1) canon_butlast [OF w(4)]] tree_parent(1) [OF w(1), of base] w(2,3)
      by (simp add: entry_of_def)
    moreover have "last base \<noteq> dotdot" using nd w(2) last_in_set by metis
    ultimately have "os_mkdir fs base = Inl EEXIST" using w by (simp add: os_mkdir_def)
    then show ?thesis
      using stat_canon [OF w(1) w(4)] w(3)
      by (subst path_mkdir_def, subst mkdir_parents.simps) (simp add: mkdir_once_def is_dir_def)
  qed
  moreover have "resolve_strict fs base = Inr base"
    using at_path_reaches [OF w(1) w(4)] w(3) by (simp add: resolve_strict_def)
  moreover define data where "data = base @ [u ''data'']"
  ultimately obtain d where d: "path_mkdir True True data fs = (Inr (), fs')"
    "resolve_strict fs' data = Inr d" "inside base d" "rt = \<lparr>cr_root = base, cr_data = d, cr_cwd = d, cr_skills = skills,
      cr_max = m, cr_timeout = t, cr_snapshots = [], cr_appends = [], cr_uncertain = []\<rparr>"
    using rt unfolding new_cmd_runtime_def
    by (auto simp: Let_def then_do_def data_def split: if_splits sum.splits prod.splits)
  have data: "inside base data" "dotdot \<notin> set data"
    using nd by (auto simp: data_def dotdot_def)
  have "safe_step base fs fs'" using safe_path_mkdir [OF ws data, of True True] d(1) by simp
  moreover have "dotdot \<notin> set d"
    using d(2) at_path_no_dotdot by (auto simp: resolve_strict_def split: sum.splits)
  ultimately show ?thesis using d by (simp add: step_ok_def rt_ok_def)
qed

section \<open>Data paths\<close>

lemma canon_Nil [simp]: "canon fs []"
  by (simp add: canon_def)

lemma canon_snoc: "canon fs d \<Longrightarrow> c \<noteq> dotdot \<Longrightarrow> linkless (node_at fs (d @ [c])) \<Longrightarrow> canon fs (d @ [c])"
proof -
  assume a: "canon fs d" "c \<noteq> dotdot" "linkless (node_at fs (d @ [c]))"
  have "linkless (node_at fs (take k (d @ [c])))" for k
    using canonD(1) [OF a(1), of k] a(3) by (cases "k \<le> length d") auto
  then show ?thesis using a(1,2) by (simp add: canon_def)
qed

lemma walk_result_canon:
  "walk create fs n d cs = Inr q \<Longrightarrow> canon fs d \<Longrightarrow> canon fs q"
proof (induction create fs n d cs rule: walk.induct)
  case (1 create fs n d)
  then show ?case by simp
next
  case (2 create fs n d c cs)
  have ext: "c \<noteq> dotdot \<Longrightarrow> linkless (node_at fs (d @ [c])) \<Longrightarrow> canon fs (d @ [c])" "canon fs (butlast d)"
    using canon_snoc canon_butlast 2 by blast+
  show ?case
    using 2 ext by (auto split: if_splits option.splits node.splits nat.splits)
qed

lemma realpath_canon: "realpath fs n d cs = Some q \<Longrightarrow> canon fs d \<Longrightarrow> canon fs q"
proof (induction fs n d cs rule: realpath.induct)
  case (1 fs n d)
  then show ?case by simp
next
  case (2 fs n d c cs)
  have ext: "c \<noteq> dotdot \<Longrightarrow> linkless (node_at fs (d @ [c])) \<Longrightarrow> canon fs (d @ [c])" "canon fs (butlast d)"
    using canon_snoc canon_butlast 2 by blast+
  show ?case
    using 2 ext by (auto split: if_splits option.splits node.splits nat.splits)
qed

lemma resolve_strict_canon: "resolve_strict fs p = Inr q \<Longrightarrow> canon fs q"
  using walk_result_canon [of False fs max_links "[]" p q]
  by (auto simp: resolve_strict_def at_path_def split: sum.splits)

lemma not_symlink_canon:
  assumes t: "tree_ok fs" and d: "canon fs d" and x: "x \<noteq> dotdot" and nl: "\<not> is_symlink fs (d @ [x])"
  shows "canon fs (d @ [x])"
proof -
  have "linkless (node_at fs (d @ [x]))"
  proof (cases "node_at fs (d @ [x])")
    case None
    then show ?thesis by simp
  next
    case (Some nd)
    then have "node_at fs d = Some Dir" using tree_prefix [OF t, of d "[x]"] by simp
    then have "entry_of fs (d @ [x]) = Inr (d @ [x])"
      using at_path_reaches [OF t d] by (simp add: entry_of_def)
    then show ?thesis using nl x Some by (auto simp: is_symlink_def split: node.splits)
  qed
  then show ?thesis using canon_snoc [OF d x] by simp
qed

lemma data_path_inside:
  assumes t: "tree_ok fs" and r: "resolve_data_path base fs v must = Inr p"
  obtains d where "data_root base fs = Inr d" "inside d p" "canon fs p"
    "must \<Longrightarrow> \<exists>bs. node_at fs p = Some (Regular bs)"
proof -
  define logical where "logical = (if startswith v (u ''/'') then tl v else v)"
  define parts where "parts = path_parts logical"
  have nd: "dotdot \<notin> set parts"
    using r by (auto simp: resolve_data_path_def logical_def parts_def parse_path_def Let_def split: if_splits)
  obtain d where d: "data_root base fs = Inr d"
    using r by (auto simp: resolve_data_path_def Let_def split: prod.splits)
  then obtain parent where parent: "realpath fs max_links [] (butlast (d @ parts)) = Some parent"
    using r by (auto simp: resolve_data_path_def logical_def parts_def parse_path_def Let_def split: if_splits option.splits)
  define c where "c = (if d @ parts = [] then [] else parent @ [last (d @ parts)])"
  have c: "inside d c" "\<not> is_symlink fs c"
    and p: "\<not> must \<Longrightarrow> p = c"
      "must \<Longrightarrow> resolve_strict fs c = Inr p \<and> inside d p \<and> is_file fs p"
    using r d parent
    by (auto simp: resolve_data_path_def logical_def parts_def parse_path_def Let_def c_def split: if_splits sum.splits)
  have dc: "canon fs d"
    using d resolve_strict_canon by (auto simp: data_root_def Let_def split: sum.splits if_splits)
  have "canon fs parent" using realpath_canon [OF parent] by simp
  moreover have "last (d @ parts) \<noteq> dotdot" if "d @ parts \<noteq> []"
    using that nd canonD(2) [OF dc] last_in_set [OF that] by auto
  ultimately have cc: "canon fs c"
    using c(2) not_symlink_canon [OF t] by (auto simp: c_def)
  show ?thesis
  proof (cases must)
    case False
    then show ?thesis using that d p(1) c(1) cc by blast
  next
    case True
    have a: "at_path fs p = Inr p" "canon fs p"
    proof -
      show pc: "canon fs p" using p(2) True resolve_strict_canon by blast
      obtain q nd where "stat fs p = Some (q, nd)" using p(2) True by (auto simp: is_file_def split: option.splits)
      then have "at_path fs p = Inr q" by (auto dest: stat_SomeD)
      then show "at_path fs p = Inr p" using at_path_canon [OF pc] by metis
    qed
    then have "\<exists>bs. node_at fs p = Some (Regular bs)"
      using p(2) True by (auto simp: is_file_def stat_def split: option.splits node.splits)
    then show ?thesis using that d p(2) True a(2) by blast
  qed
qed

section \<open>A text written is read back\<close>

definition plain_word :: "str \<Rightarrow> bool" where
  "plain_word w \<longleftrightarrow> sh_word w \<and> list_all (\<lambda>c. c \<notin> set (u '';|&<()>`$'') \<and> c \<noteq> 0 \<and> scalar c) w"

definition file_name :: "str \<Rightarrow> bool" where
  "file_name n \<longleftrightarrow> plain_word n \<and> 47 \<notin> set n \<and> n \<noteq> u ''.'' \<and> n \<noteq> dotdot"

definition echo_line :: "str list \<Rightarrow> str \<Rightarrow> str" where
  "echo_line ws n = join_on 32 (u ''echo'' # ws @ [u ''>'', n])"

definition cat_line :: "str \<Rightarrow> str" where
  "cat_line n = join_on 32 [u ''cat'', n]"

lemma realpath_canon_id: "canon fs (d @ cs) \<Longrightarrow> realpath fs n d cs = Some (d @ cs)"
proof (induction cs arbitrary: d)
  case Nil
  then show ?case by simp
next
  case (Cons c cs)
  have "canon fs (d @ [c])" using Cons.prems canon_prefix [of fs "d @ [c]" cs] by simp
  then have "linkless (node_at fs (d @ [c]))" "c \<noteq> dotdot"
    by (auto dest: canon_self canonD(2))
  then show ?case
    using Cons.IH [of "d @ [c]"] Cons.prems by (auto split: option.splits node.splits)
qed

lemma walk_creates:
  assumes t: "tree_ok fs" and d: "node_at fs (d @ cs) = Some Dir" and c: "canon fs (d @ cs @ [x])"
  shows "walk True fs n d (cs @ [x]) = Inr (d @ cs @ [x])"
  using d c
proof (induction cs arbitrary: d)
  case Nil
  then have "linkless (node_at fs (d @ [x]))" "x \<noteq> dotdot" by (auto dest: canon_self canonD(2))
  then show ?case using Nil by (auto split: option.splits node.splits)
next
  case (Cons y cs)
  have "canon fs (d @ [y])" using Cons.prems canon_prefix [of fs "d @ [y]" "cs @ [x]"] by simp
  then have "linkless (node_at fs (d @ [y]))" "y \<noteq> dotdot"
    by (auto dest: canon_self canonD(2))
  moreover have "node_at fs d = Some Dir" "node_at fs (d @ [y]) \<noteq> None"
    using tree_prefix [OF t, of d "y # cs"] tree_prefix [OF t, of "d @ [y]" cs] Cons.prems by (cases "cs = []"; auto)+
  ultimately show ?case
    using Cons.IH [of "d @ [y]"] Cons.prems by (auto split: option.splits node.splits)
qed

lemma mkdir_existing:
  assumes t: "tree_ok fs" and c: "canon fs p" and d: "node_at fs p = Some Dir"
  shows "path_mkdir True True p fs = (Inr (), fs)"
proof -
  have "os_mkdir fs p = Inl EEXIST"
  proof (cases "p = []")
    case True
    then show ?thesis by (simp add: os_mkdir_def at_path_def)
  next
    case False
    have "last p \<noteq> dotdot" using canonD(2) [OF c] False last_in_set by metis
    moreover have "entry_of fs p = Inr p"
      using at_path_reaches [OF t canon_butlast [OF c]] tree_parent(1) [OF t, of p] d False
      by (simp add: entry_of_def)
    ultimately show ?thesis using d False by (simp add: os_mkdir_def)
  qed
  then show ?thesis
    using stat_canon [OF t c] d by (subst path_mkdir_def, subst mkdir_parents.simps) (simp add: mkdir_once_def is_dir_def)
qed

lemma candidate_name:
  assumes ok: "state_ok base (rt, fs)" and n: "file_name n"
  shows "candidate rt fs n = Inr (cr_cwd rt @ [n])" "inside base (cr_cwd rt @ [n])" "canon fs (cr_cwd rt @ [n])"
proof -
  have rt: "cr_root rt = base" "inside base (cr_cwd rt)" "dotdot \<notin> set (cr_cwd rt)" and ws: "workspace_ok base fs"
    using ok by (auto simp: state_ok_def rt_ok_def)
  have nm: "47 \<notin> set n" "n \<noteq> u ''.''" "n \<noteq> dotdot" "n \<noteq> []"
    using n by (auto simp: file_name_def plain_word_def sh_word_def)
  show i: "inside base (cr_cwd rt @ [n])" using rt(2) by simp
  show c: "canon fs (cr_cwd rt @ [n])" using inside_canon [OF ws i] rt(3) nm(3) by simp
  have parts: "path_parts n = [n]" using nm by (simp add: path_parts_def split_on_none)
  have no_slash: "\<not> startswith n (u ''/'')" "\<not> startswith n (u ''//'')"
    using nm(1) by (auto simp: startswith_iff u_def)
  have rp: "realpath fs max_links [] (cr_cwd rt) = Some (cr_cwd rt)"
    using realpath_canon_id [of fs "[]" "cr_cwd rt"] inside_canon [OF ws rt(2,3)] by simp
  have "\<not> is_symlink fs (cr_cwd rt @ [n])"
    using canon_self [OF c] entry_canon(1) [OF c] by (auto simp: is_symlink_def split: sum.split option.split node.split)
  then show "candidate rt fs n = Inr (cr_cwd rt @ [n])"
    using rp rt(1) i parts no_slash by (simp add: candidate_def full_path_def parse_path_def)
qed

lemma list_all_join_on: "P c \<Longrightarrow> list_all (list_all P) ws \<Longrightarrow> list_all P (join_on c ws)"
  by (induction c ws rule: join_on.induct) auto

text \<open>Plain words, joined by spaces, are the words of the command.\<close>

lemma tokenize_words:
  assumes "list_all sh_word ts" and calm: "list_all (list_all (\<lambda>c. c \<notin> set (u '';|&<()`$'') \<and> c \<noteq> 0)) ts"
    and "ts \<noteq> []" "hd ts = u ''echo'' \<or> list_all (list_all (\<lambda>c. c \<noteq> 62)) ts" "hd ts = u ''cat'' \<Longrightarrow> length ts \<noteq> 4"
  shows "tokenize (join_on 32 ts) = Inr ts"
proof -
  have c: "list_all (\<lambda>c. c \<notin> set (u '';|&<()`$'') \<and> c \<noteq> 0) (join_on 32 ts)"
    by (rule list_all_join_on [OF _ calm]) (simp add: u_def)
  have none: "\<not> list_ex (\<lambda>c. c = 0 \<or> c = 96 \<or> c = 36) (join_on 32 ts)"
    "\<not> list_ex (\<lambda>c. c \<in> set (u '';|&<()'')) (join_on 32 ts)"
    using c by (auto simp: list_ex_iff list_all_iff u_def)
  have gt: "hd ts \<noteq> u ''echo'' \<Longrightarrow> 62 \<notin> set (join_on 32 ts)"
    using assms(4) list_all_join_on [of "\<lambda>c. c \<noteq> 62" 32 ts] by (auto simp: list_all_iff)
  show ?thesis
    using none shlex_join [OF assms(1)] assms(3,5) gt
    by (cases "hd ts = u ''echo''"; cases ts) (auto simp: tokenize_def)
qed

lemma plain_wordD:
  "plain_word w \<Longrightarrow> sh_word w" "plain_word w \<Longrightarrow> list_all (\<lambda>c. c \<notin> set (u '';|&<()`$'') \<and> c \<noteq> 0) w"
  "plain_word w \<Longrightarrow> list_all (\<lambda>c. c \<noteq> 62) w" "plain_word w \<Longrightarrow> list_all scalar w"
  by (auto simp: plain_word_def list_all_iff u_def)

lemma echo_tokens:
  assumes "list_all plain_word ws" "file_name n"
  shows "tokenize (echo_line ws n) = Inr (u ''echo'' # ws @ [u ''>'', n])"
  unfolding echo_line_def
proof (rule tokenize_words)
  have n: "plain_word n" using assms(2) by (simp add: file_name_def)
  have "sh_word (u ''echo'')" "sh_word (u ''>'')" "list_all sh_word ws"
    using assms(1) plain_wordD(1) by (auto simp: list_all_iff sh_word_def sh_plain_def sh_white_def sh_quote_def u_def)
  then show "list_all sh_word (u ''echo'' # ws @ [u ''>'', n])"
    using plain_wordD(1) [OF n] by simp
  have "list_all (\<lambda>c. c \<notin> set (u '';|&<()`$'') \<and> c \<noteq> 0) (u ''echo'')"
    "list_all (\<lambda>c. c \<notin> set (u '';|&<()`$'') \<and> c \<noteq> 0) (u ''>'')"
    by (simp_all add: u_def)
  moreover have "list_all (list_all (\<lambda>c. c \<notin> set (u '';|&<()`$'') \<and> c \<noteq> 0)) ws"
    using assms(1) plain_wordD(2) by (auto simp: list_all_iff)
  ultimately show "list_all (list_all (\<lambda>c. c \<notin> set (u '';|&<()`$'') \<and> c \<noteq> 0)) (u ''echo'' # ws @ [u ''>'', n])"
    using plain_wordD(2) [OF n] by (simp del: u_inject)
qed auto

lemma cat_tokens:
  assumes "file_name n"
  shows "tokenize (cat_line n) = Inr [u ''cat'', n]"
  unfolding cat_line_def
proof (rule tokenize_words)
  have n: "plain_word n" using assms by (simp add: file_name_def)
  show "list_all sh_word [u ''cat'', n]"
    using plain_wordD(1) [OF n] by (simp add: sh_word_def sh_plain_def sh_white_def sh_quote_def u_def)
  have "list_all (\<lambda>c. c \<notin> set (u '';|&<()`$'') \<and> c \<noteq> 0) (u ''cat'')" "list_all (\<lambda>c. c \<noteq> 62) (u ''cat'')"
    by (simp_all add: u_def)
  then show "list_all (list_all (\<lambda>c. c \<notin> set (u '';|&<()`$'') \<and> c \<noteq> 0)) [u ''cat'', n]"
    "hd [u ''cat'', n] = u ''echo'' \<or> list_all (list_all (\<lambda>c. c \<noteq> 62)) [u ''cat'', n]"
    using plain_wordD(2,3) [OF n] by simp_all
qed auto

lemma write_read:
  assumes ok: "state_ok base (rt, fs)" and n: "file_name n" and dir: "node_at fs (cr_cwd rt) = Some Dir"
    and free: "node_at fs (cr_cwd rt @ [n]) \<noteq> Some Dir" and b: "utf8_encode txt = Some bs"
  shows "write_text False (cr_cwd rt @ [n]) txt fs
    = (Inr (length bs), dput (cr_cwd rt @ [n]) (Regular bs) fs)"
proof -
  let ?p = "cr_cwd rt @ [n]"
  have t: "tree_ok fs" using ok by (simp add: state_ok_def workspace_ok_def)
  have "walk True fs max_links [] ?p = Inr ?p"
    using walk_creates [OF t, of "[]" "cr_cwd rt" n] candidate_name(3) [OF ok n] dir by simp
  then show ?thesis
    using free b canon_self [OF candidate_name(3) [OF ok n]]
    by (auto simp: write_text_def os_write_def on_tree_def then_do_def split: option.split node.split)
qed

lemma echo_runs:
  assumes ok: "state_ok base (rt, fs)" and shell: "u ''shell'' \<in> set (cr_skills rt)"
    and ws: "list_all plain_word ws" and n: "file_name n"
    and dir: "node_at fs (cr_cwd rt) = Some Dir" and free: "node_at fs (cr_cwd rt @ [n]) \<noteq> Some Dir"
    and b: "utf8_encode (join_on 32 ws @ [10]) = Some bs"
  shows "\<exists>r. restricted_execute env (echo_line ws n) (rt, fs) = (Inr r, rt, dput (cr_cwd rt @ [n]) (Regular bs) fs)
    \<and> re_exit r = 0"
proof -
  let ?p = "cr_cwd rt @ [n]" and ?ts = "u ''echo'' # ws @ [u ''>'', n]"
  have w: "workspace_ok base fs" and rt: "inside base (cr_cwd rt)" "dotdot \<notin> set (cr_cwd rt)"
    using ok by (auto simp: state_ok_def rt_ok_def)
  have gt: "u ''>'' \<notin> set ws" "u ''>>'' \<notin> set ws" "u ''>'' \<noteq> n" "u ''>>'' \<noteq> n"
    using ws n plain_wordD(3) by (force simp: list_all_iff file_name_def u_def)+
  have marker: "echo_marker ?ts = u ''>''" using gt by (auto simp: echo_marker_def)
  have idx: "marker_index ?ts = Suc (length ws)"
    using gt(1) by (auto simp: marker_index_def marker takeWhile_append)
  have count: "count_list ?ts (u ''>'') = 1"
    using gt by (auto simp: count_notin)
  note mk = mkdir_existing [OF workspaceD(1) [OF w] inside_canon [OF w rt] dir]
  have "cmd_echo c ?ts (rt, fs) =
      (Inr (cmd_ok rt c ''echo_write'' [] [(u ''path'', JStr (show_path ?p)), (u ''bytes'', JInt (int (length bs)))]),
       rt, dput ?p (Regular bs) fs)" for c
    using gt count mk write_read [OF ok n dir free b] candidate_name(1) [OF ok n]
    by (simp add: cmd_echo_def marker idx lookup_path_def tree_do_def done_ok_def)
  then show ?thesis
    using shell echo_tokens [OF ws n]
    by (simp add: restricted_execute_def run_tokens_def internal_command_def cmd_ok_def)
qed

lemma cat_runs:
  assumes ok: "state_ok base (rt, fs)" and shell: "u ''shell'' \<in> set (cr_skills rt)" and n: "file_name n"
    and data: "node_at fs (cr_cwd rt @ [n]) = Some (Regular bs)" and small: "int (length bs) \<le> cr_max rt"
  shows "\<exists>r s. restricted_execute env (cat_line n) (rt, fs) = (Inr r, s) \<and> re_exit r = 0 \<and> re_stdout r = utf8_replace bs"
proof -
  let ?p = "cr_cwd rt @ [n]"
  have w: "workspace_ok base fs" and root: "cr_root rt = base"
    using ok by (auto simp: state_ok_def rt_ok_def)
  have at: "at_path fs ?p = Inr ?p" "stat fs ?p = Some (?p, Regular bs)"
    using at_path_reaches [OF workspaceD(1) [OF w] candidate_name(3) [OF ok n]]
      stat_canon [OF workspaceD(1) [OF w] candidate_name(3) [OF ok n]] data by simp_all
  have "existing rt fs n = Inr ?p"
    using candidate_name(1,2) [OF ok n] at root by (simp add: existing_def path_exists_def resolve_strict_def)
  then show ?thesis
    using shell cat_tokens [OF n] small at
    by (simp add: restricted_execute_def run_tokens_def internal_command_def cmd_cat_def cat_file_def arity_def
        is_file_def read_bytes_def Let_def cmd_ok_def)
qed

section \<open>Samples\<close>

definition sample_env :: cmd_env where
  "sample_env = \<lparr>ce_sha = (\<lambda>bs. bs), ce_mode = (\<lambda>_. []), ce_size = (\<lambda>_. 4096),
     ce_process = (\<lambda>cwd argv fs. (Ended 0 [] [], fs))\<rparr>"

definition sample_fs :: fs where
  "sample_fs = [([u ''w''], Dir), ([u ''w'', u ''data''], Dir), ([u ''w'', u ''data'', u ''f''], Regular [104, 105])]"

definition sample_rt :: cmd_runtime where
  "sample_rt = \<lparr>cr_root = [u ''w''], cr_data = [u ''w'', u ''data''], cr_cwd = [u ''w'', u ''data''], cr_skills = [u ''shell''],
     cr_max = 100, cr_timeout = 5, cr_snapshots = [], cr_appends = [], cr_uncertain = []\<rparr>"

lemma sample_workspace: "workspace_ok [u ''w''] sample_fs"
proof -
  have t: "tree_ok sample_fs"
    by (auto simp: tree_ok_def sample_fs_def dwf_def node_at_def dotdot_def u_def split: if_splits)
  have nl: "linkless (node_at sample_fs p)" for p
    by (auto simp: sample_fs_def node_at_def linkless_def)
  show ?thesis
    using t nl by (auto simp: workspace_ok_def canon_def dotdot_def u_def) (simp add: sample_fs_def node_at_def u_def)
qed

lemma sample_state: "state_ok [u ''w''] (sample_rt, sample_fs)"
  using sample_workspace by (simp add: state_ok_def rt_ok_def sample_rt_def inside_def dotdot_def u_def)

lemma sample_programs: "read_only_programs sample_env"
  by (simp add: read_only_programs_def sample_env_def)

lemma sample_new: "new_cmd_runtime [u ''w''] [u ''shell''] 100 5 sample_fs = (Inr sample_rt, sample_fs)"
  by code_simp

section \<open>Properties\<close>


definition sample_session :: "(cmd_env \<times> str) list" where
  "sample_session = map (Pair sample_env) [u ''mkdir -p a/b'', u ''cp f a/b'', u ''cd a/b'', u ''mv f ../g'', u ''echo x > ../../../y'']"


text \<open>
  The hypothesis on the destination is needed: \<open>..\<close> as the last name passes the check of the path,
  which compares names only, and \<open>shutil\<close> then writes into the directory above the workspace.
\<close>

lemma copy_leaves_workspace:
  "node_at (snd (run_command (sample_rt, sample_fs) (sample_env, u ''cp f ../..''))) [u ''f''] = Some (Regular [104, 105])"
  by code_simp

text \<open>C0: What \<open>echo\<close> writes to a file of the working directory, \<open>cat\<close> prints back, character by character.\<close>

theorem written_text_is_read_back:
  assumes "state_ok base (rt, fs)" "u ''shell'' \<in> set (cr_skills rt)"
    "node_at fs (cr_cwd rt) = Some Dir" "node_at fs (cr_cwd rt @ [n]) \<noteq> Some Dir"
    "list_all plain_word ws" "file_name n"
    "utf8_encode (join_on 32 ws @ [10]) = Some bs" "int (length bs) \<le> cr_max rt"
  shows "\<exists>w s r s'. restricted_execute env (echo_line ws n) (rt, fs) = (Inr w, s) \<and> re_exit w = 0
    \<and> restricted_execute env (cat_line n) s = (Inr r, s') \<and> re_exit r = 0 \<and> re_stdout r = join_on 32 ws @ [10]"
proof -
  let ?fs = "dput (cr_cwd rt @ [n]) (Regular bs) fs"
  have w: "workspace_ok base fs" and rt: "rt_ok base rt" using assms(1) by (auto simp: state_ok_def)
  obtain r where r: "restricted_execute env (echo_line ws n) (rt, fs) = (Inr r, rt, ?fs)" "re_exit r = 0"
    using echo_runs [OF assms(1,2,5,6,3,4,7)] by blast
  have nb: "cr_cwd rt @ [n] \<noteq> base" using assms(4) workspaceD(3) [OF w] by auto
  have "dotdot \<notin> set (cr_cwd rt @ [n])" using canonD(2) [OF candidate_name(3) [OF assms(1,6)]] .
  then have "safe_step base fs ?fs"
    using assms(3,4) nb candidate_name(2) [OF assms(1,6)] by (intro safe_dput [OF w]) auto
  then have ok: "state_ok base (rt, ?fs)" using rt by (auto simp: state_ok_def dest: safe_ok)
  have "node_at ?fs (cr_cwd rt @ [n]) = Some (Regular bs)" by (simp add: node_at_dput)
  then obtain r' s' where "restricted_execute env (cat_line n) (rt, ?fs) = (Inr r', s')" "re_exit r' = 0"
    "re_stdout r' = utf8_replace bs"
    using cat_runs [OF ok assms(2,6) _ assms(8)] by blast
  then show ?thesis using r assms(7) by auto
qed

lemma written_text_is_read_back_witness:
  "\<exists>w s r s'. restricted_execute sample_env (echo_line [u ''good'', u ''day''] (u ''f'')) (sample_rt, sample_fs) = (Inr w, s) \<and> re_exit w = 0
    \<and> restricted_execute sample_env (cat_line (u ''f'')) s = (Inr r, s') \<and> re_exit r = 0
    \<and> re_stdout r = join_on 32 [u ''good'', u ''day''] @ [10]"
proof (rule written_text_is_read_back [OF sample_state])
  show "u ''shell'' \<in> set (cr_skills sample_rt)" by (simp add: sample_rt_def)
  show "node_at sample_fs (cr_cwd sample_rt) = Some Dir" by code_simp
  show "node_at sample_fs (cr_cwd sample_rt @ [u ''f'']) \<noteq> Some Dir" by code_simp
  show "list_all plain_word [u ''good'', u ''day'']" "file_name (u ''f'')"
    by (simp_all add: file_name_def plain_word_def sh_word_def sh_plain_def sh_white_def sh_quote_def scalar_def dotdot_def u_def)
  show "utf8_encode (join_on 32 [u ''good'', u ''day''] @ [10]) = Some (u ''good day'' @ [10])"
    by (simp add: utf8_encode_def scalar_def utf8_char_def u_def)
  show "int (length (u ''good day'' @ [10])) \<le> cr_max sample_rt" by (simp add: sample_rt_def)
qed

text \<open>A data path that is accepted stays inside the data directory, has no link on the way, so that
  opening it opens exactly this name, and names a regular file when it has to exist, whatever links there are.\<close>

theorem data_path_names_data_file:
  assumes "tree_ok fs" "resolve_data_path base fs value must_exist = Inr p"
  shows "\<exists>d. data_root base fs = Inr d \<and> inside d p \<and> canon fs p
    \<and> (must_exist \<longrightarrow> (\<exists>bs. node_at fs p = Some (Regular bs)))"
  using data_path_inside [OF assms] by metis

lemma data_path_names_data_file_witness:
  "\<exists>d. data_root [u ''w''] sample_fs = Inr d \<and> inside d [u ''w'', u ''data'', u ''f''] \<and> canon sample_fs [u ''w'', u ''data'', u ''f'']
    \<and> (\<exists>bs. node_at sample_fs [u ''w'', u ''data'', u ''f''] = Some (Regular bs))"
proof -
  have "resolve_data_path [u ''w''] sample_fs (u ''/f'') True = Inr [u ''w'', u ''data'', u ''f'']" by code_simp
  then show ?thesis
    using data_path_names_data_file [OF workspaceD(1) [OF sample_workspace]] by blast
qed

end
