(* ===== verification/WorkProps.thy ===== *)
theory WorkProps
  imports WorkRuntime RestrictedProps
begin

text \<open>
  What the command runtime of an agent guarantees: a call whose outcome is unknown is never repeated,
  the words of the MQTT pipeline are the intended ones whatever the topic is, and the output of a
  program is the beginning of what it wrote.
\<close>

section \<open>The output of a program\<close>

lemma collect_take:
  "length buf \<le> limit \<Longrightarrow> collect limit (buf, over) chunks
     = (take limit (buf @ concat chunks), over \<or> limit < length (buf @ concat chunks))"
proof (induction chunks arbitrary: buf over)
  case Nil
  then show ?case by simp
next
  case (Cons chunk chunks)
  have "length (buf @ take (limit - length buf) chunk) \<le> limit" using Cons.prems by simp
  note IH = Cons.IH [OF this, of "over \<or> length chunk > limit - length buf"]
  show ?case
  proof (cases "length chunk \<le> limit - length buf")
    case True
    then show ?thesis using IH Cons.prems by auto
  next
    case False
    then show ?thesis using IH Cons.prems by (simp add: min_def) auto
  qed
qed

section \<open>Quoting\<close>

definition reads_as :: "str \<Rightarrow> str \<Rightarrow> bool" where
  "reads_as t w \<longleftrightarrow> (\<exists>q. (w \<noteq> [] \<or> q) \<and> (\<forall>r. sh_scan ShSpace False [] (t @ r) = sh_scan ShWord q w r))"

lemma word_reads_as: "sh_word w \<Longrightarrow> reads_as w w"
  using sh_scan_word [of w False "[]"] by (auto simp: reads_as_def sh_word_def intro: exI [of _ False])

lemma reads_as_join:
  "list_all2 reads_as ts ws \<Longrightarrow> sh_scan ShSpace False [] (join_on 32 ts) = Inr ws"
proof (induction "32::nat" ts arbitrary: ws rule: join_on.induct)
  case 1
  then show ?case by simp
next
  case (2 t)
  then obtain w q where "ws = [w]" "w \<noteq> [] \<or> q" "\<forall>r. sh_scan ShSpace False [] (t @ r) = sh_scan ShWord q w r"
    by (auto simp: list_all2_Cons1 reads_as_def)
  moreover from this(3) have "sh_scan ShSpace False [] (t @ []) = sh_scan ShWord q w []" by blast
  ultimately show ?case by auto
next
  case (3 t t' ts)
  then obtain w ws' where ws0: "ws = w # ws'" "reads_as t w" and rest: "list_all2 reads_as (t' # ts) ws'"
    by (cases ws) simp_all
  obtain q where ws: "ws = w # ws'" "w \<noteq> [] \<or> q" "\<And>r. sh_scan ShSpace False [] (t @ r) = sh_scan ShWord q w r"
    using ws0 unfolding reads_as_def by blast
  show ?case
    using 3(1) [OF rest] ws(1,2) ws(3) [of "32 # join_on 32 (t' # ts)"] by (simp add: sh_white_def)
qed

lemma sh_scan_single_quoted:
  "sh_scan (ShQuote 39) q tok (concat (map (\<lambda>c. if c = 39 then [39, 34, 39, 34, 39] else [c]) s) @ 39 # r)
     = sh_scan ShWord True (tok @ s) r"
proof (induction s arbitrary: tok q)
  case Nil
  then show ?case by simp
next
  case (Cons c s)
  then show ?case
    using Cons.IH [of True "tok @ [c]"] Cons.IH [of q "tok @ [c]"] by (auto simp: sh_white_def sh_quote_def)
qed

lemma safe_char_plain: "safe_char c \<Longrightarrow> sh_plain c"
  by (auto simp: safe_char_def sh_plain_def sh_white_def sh_quote_def is_alnum_def is_digit_def is_lower_def is_upper_def u_def)

lemma quote_reads_as: "reads_as (shlex_quote s) s"
proof (cases "list_all safe_char s \<and> s \<noteq> []")
  case True
  then have "sh_word s" by (auto simp: sh_word_def list_all_iff safe_char_plain)
  then show ?thesis using True by (simp add: shlex_quote_def word_reads_as)
next
  case False
  then have "shlex_quote s = 39 # concat (map (\<lambda>c. if c = 39 then [39, 34, 39, 34, 39] else [c]) s) @ [39]"
    by (auto simp: shlex_quote_def)
  then show ?thesis
    using sh_scan_single_quoted [of False "[]" s]
    by (auto simp: reads_as_def sh_white_def sh_quote_def intro!: exI [of _ True])
qed

lemma show_int_word: "sh_word (show_int i)"
proof -
  have "sh_plain c" if "c \<in> set (show_int i)" for c
    using that show_nat_digits [of c]
    by (auto simp: show_int_def sh_plain_def sh_white_def sh_quote_def is_digit_def split: if_splits)
  then show ?thesis by (simp add: sh_word_def list_all_iff)
qed

lemma literal_words:
  "list_all sh_word (map u [''mosquitto_sub'', ''-h'', ''-p'', ''-t'', ''-C'', ''1'', ''-W'', ''5'', ''|'', ''jq'', ''-r''])"
  by (simp add: sh_word_def sh_plain_def sh_white_def sh_quote_def u_def)

lemma field_reads_as: "field_name f \<Longrightarrow> reads_as (39 # 46 # f @ [39]) (46 # f)"
proof -
  assume "field_name f"
  then have "list_all (\<lambda>c. c \<noteq> 39) f"
    by (auto simp: field_name_def list_all_iff name_start_def is_digit_def is_lower_def is_upper_def split: list.splits)
  then have "concat (map (\<lambda>c. if c = 39 then [39, 34, 39, 34, 39] else [c]) (46 # f)) = 46 # f"
    by (induction f) auto
  then show ?thesis
    using sh_scan_single_quoted [of False "[]" "46 # f"]
    by (auto simp: reads_as_def sh_white_def sh_quote_def intro!: exI [of _ True])
qed

lemma sub_pipeline_words:
  "sub_pipeline env topic field = join_on 32 [u ''mosquitto_sub'', u ''-h'', we_host env, u ''-p'', show_int (we_port env), u ''-t'',
     shlex_quote topic, u ''-C'', u ''1'', u ''-W'', u ''5'', u ''|'', u ''jq'', u ''-r'', 39 # 46 # field @ [39]]"
  by (simp add: sub_pipeline_def u_def)

section \<open>Remembered calls\<close>

definition same_memory :: "cmd_state \<Rightarrow> cmd_state \<Rightarrow> bool" where
  "same_memory s s' \<longleftrightarrow> cr_uncertain (fst s') = cr_uncertain (fst s)"

lemma same_memory_refl [simp]: "same_memory s s"
  by (simp add: same_memory_def)

lemma same_memory_trans: "same_memory a b \<Longrightarrow> same_memory b c \<Longrightarrow> same_memory a c"
  by (simp add: same_memory_def)

lemma tree_do_memory:
  assumes "\<And>v s'. same_memory s' (snd (k v s'))"
  shows "same_memory s (snd (tree_do f k s))"
proof -
  obtain rt fs where s: "s = (rt, fs)" by (cases s)
  show ?thesis
    using assms [of "(rt, snd (f fs))"] by (cases "f fs") (auto simp: s tree_do_def same_memory_def split: sum.split)
qed

lemma lookup_memory: "(\<And>p. same_memory s (snd (k p s))) \<Longrightarrow> same_memory s (snd (lookup_path look v k s))"
  by (cases s) (auto simp: lookup_path_def split: sum.split)

lemma done_memory: "same_memory s (snd (done_ok c op m s))"
  by (cases s) (simp add: done_ok_def)

lemma arity_memory: "same_memory s (snd (k s)) \<Longrightarrow> same_memory s (snd (arity ts n us k s))"
  by (simp add: arity_def)

lemmas memory_intros = tree_do_memory lookup_memory done_memory arity_memory

lemma writing_memory:
  "same_memory s (snd (cmd_mkdir c ts s))" "same_memory s (snd (cmd_touch c ts s))" "same_memory s (snd (cmd_cp c ts s))"
  "same_memory s (snd (cmd_mv c ts s))" "same_memory s (snd (cmd_rm c ts s))" "same_memory s (snd (cmd_echo c ts s))"
  by (cases s; auto simp: cmd_mkdir_def cmd_touch_def cmd_cp_def cmd_mv_def cmd_rm_def cmd_echo_def Let_def
      split: sum.split prod.split intro!: memory_intros)+

lemma reading_memory:
  "same_memory s (snd (cmd_pwd c ts s))" "same_memory s (snd (cmd_ls env c ts s))" "same_memory s (snd (cmd_sha env c ts s))"
  "same_memory s (snd (cmd_test c ts s))" "same_memory s (snd (cmd_cd c ts s))" "same_memory s (snd (cat_file env c ts s))"
  by (cases s; auto simp: cmd_pwd_def cmd_ls_def cmd_sha_def cmd_test_def cmd_cd_def cat_file_def arity_def Let_def same_memory_def
      split: sum.split fs_exc.split)+

lemma append_memory: "same_memory s (snd (append_file env c a b s))"
  by (cases s) (auto simp: append_file_def Let_def same_memory_def split: sum.split)

lemma external_memory: "same_memory s (snd (external env c ts s))"
  by (cases s) (auto simp: external_def same_memory_def split: prod.split process_end.split)

lemma restricted_memory: "same_memory s (snd (restricted_execute env c s))"
proof -
  obtain rt fs where s: "s = (rt, fs)" by (cases s)
  have int: "same_memory s (snd (f s))" if "internal_command env c ts = Some f" for ts f
    using that by (simp add: internal_command_def Let_def cmd_cat_def split: if_splits)
      (auto intro: writing_memory reading_memory append_memory)
  have run: "same_memory s (snd (run_tokens env c ts s))" for ts
    using int external_memory [of s env c ts] by (auto simp: run_tokens_def s Let_def split: option.split)
  show ?thesis
  proof (cases "tokenize c")
    case (Inl e)
    then show ?thesis by (simp add: restricted_execute_def s)
  next
    case (Inr ts)
    obtain r s' where "run_tokens env c ts (rt, fs) = (r, s')" by (metis prod.collapse)
    then show ?thesis using run [of ts] Inr by (auto simp: restricted_execute_def s split: sum.split fs_exc.split)
  qed
qed

lemma run_program_memory: "same_memory s (snd (run_program env c op lb argv m1 m2 s))"
  by (cases s) (auto simp: run_program_def same_memory_def split: prod.split process_end.split fs_exc.split)

lemma internal_exec_memory: "internal_exec env c ra input s = Some r \<Longrightarrow> same_memory s (snd r)"
proof -
  have "same_memory s (snd (mqtt_sub_value env d s))" "same_memory s (snd (mqtt_pub_value env d s))" for d
    by (cases s; auto simp: mqtt_sub_value_def mqtt_pub_value_def Let_def split: sum.split prod.split intro: run_program_memory)+
  then show "internal_exec env c ra input s = Some r \<Longrightarrow> same_memory s (snd r)"
    by (auto simp: internal_exec_def Let_def split: if_splits)
qed

lemma execute_once_memory: "same_memory s (snd (execute_once env c s))"
  by (auto simp: execute_once_def Let_def bash_def restricted_memory run_program_memory
      dest: internal_exec_memory split: option.split)

definition remembers :: "cmd_state \<Rightarrow> cmd_state \<Rightarrow> bool" where
  "remembers s s' \<longleftrightarrow> set (cr_uncertain (fst s)) \<subseteq> set (cr_uncertain (fst s'))"

text \<open>A tool call of an agent: a command or an MCP tool, with the environment at that moment.\<close>

datatype tool_call = Command_call work_env str | Mcp_call "fs mcp_env" str

definition make_call :: "cmd_state \<Rightarrow> tool_call \<Rightarrow> cmd_state" where
  "make_call s c = (case c of Command_call env command \<Rightarrow> snd (work_execute env command s)
     | Mcp_call env command \<Rightarrow> snd (dispatch_mcp env command s))"

lemma add_uncertain_set [simp]: "set (cr_uncertain (add_uncertain k rt)) = insert k (set (cr_uncertain rt))"
  by (simp add: add_uncertain_def)

lemma work_execute_remembers: "remembers s (snd (work_execute env c s))"
proof -
  obtain rt fs where s: "s = (rt, fs)" by (cases s)
  obtain r rt' fs' where e: "execute_once env c (rt, fs) = (r, rt', fs')" by (metis prod.collapse)
  then have "cr_uncertain rt' = cr_uncertain rt"
    using execute_once_memory [of "(rt, fs)" env c] by (simp add: same_memory_def)
  then show ?thesis using e by (auto simp: s work_execute_def remembers_def split: sum.split)
qed

lemma dispatch_remembers: "remembers s (snd (dispatch_mcp env c s))"
  by (cases s) (auto simp: dispatch_mcp_def remembers_def Let_def split: sum.split prod.split)

interpretation calls: stepper_rel make_call "\<lambda>_ _. True" "\<lambda>_. True" remembers
  by unfold_locales
    (auto simp: make_call_def work_execute_remembers dispatch_remembers split: tool_call.split, auto simp: remembers_def)

lemma calls_remember: "set (cr_uncertain (fst s)) \<subseteq> set (cr_uncertain (fst (foldl make_call s cs)))"
  using calls.rel_run [of s cs] by (simp add: remembers_def)

section \<open>Samples\<close>

definition sample_work_env :: work_env where
  "sample_work_env = \<lparr>ce_sha = (\<lambda>bs. bs), ce_mode = (\<lambda>_. []), ce_size = (\<lambda>_. 4096),
     ce_process = (\<lambda>cwd argv fs. (Ended 124 [] [], fs)), we_enabled = None, we_allow_shell = None, we_host = u ''localhost'',
     we_port = 1883, we_loads = (\<lambda>_. None), we_float = (\<lambda>_. [])\<rparr>"

definition sample_mcp_env :: "fs mcp_env" where
  "sample_mcp_env = \<lparr>me_loads = (\<lambda>_. Inr (JObj [(u ''a'', JInt 1)])), me_float = (\<lambda>_. []),
     me_call = Some (\<lambda>name args fs. (outcome_unknown, fs))\<rparr>"

definition sample_mcp_rt :: cmd_runtime where
  "sample_mcp_rt = sample_rt\<lparr>cr_skills := [u ''shell'', u ''mcp:s'']\<rparr>"

lemma dispatch_mcp_skills: "cr_skills (fst (snd (dispatch_mcp env c s))) = cr_skills (fst s)"
  by (cases s) (auto simp: dispatch_mcp_def add_uncertain_def Let_def split: sum.split prod.split)

lemma sample_mcp_skills: "cr_skills sample_mcp_rt = [u ''shell'', u ''mcp:s'']"
  by (simp add: sample_mcp_rt_def)

lemma sample_mcp_parse:
  "mcp_parse sample_mcp_env (cr_skills sample_mcp_rt) (u ''mcp:s:t {}'') = Inr (u ''mcp:s:t'', [(u ''a'', JInt 1)])"
  "mcp_parse sample_mcp_env (cr_skills sample_mcp_rt) (u ''mcp:s:t  {}'') = Inr (u ''mcp:s:t'', [(u ''a'', JInt 1)])"
  unfolding sample_mcp_skills
  by (simp_all add: mcp_parse_def split_once_def sample_mcp_env_def assigned_def partition_on_def text_eval)

lemma sample_is_mcp: "is_mcp (u ''mcp:s:t {}'')" "is_mcp (u ''mcp:s:t  {}'')"
  by (simp_all add: is_mcp_def text_eval)

lemma sample_mcp_outcome:
  "fst (dispatch_mcp sample_mcp_env (u ''mcp:s:t {}'') (sample_mcp_rt, sample_fs)) = Some outcome_unknown"
proof -
  have "cr_uncertain sample_mcp_rt = []" by (simp add: sample_mcp_rt_def sample_rt_def)
  moreover have "the (me_call sample_mcp_env) n a w = (outcome_unknown, w)" for n a w by (simp add: sample_mcp_env_def)
  ultimately show ?thesis by (simp add: dispatch_mcp_def sample_is_mcp sample_mcp_parse)
qed

section \<open>Properties\<close>



text \<open>An MCP call whose outcome is unknown is not replayed: after any further calls of the runtime a call with
  the same name and arguments, however they are written, is refused without reaching the MCP session.\<close>

theorem unknown_mcp_call_is_refused:
  assumes "mcp_parse env (cr_skills (fst s)) c = Inr (name, args)" "is_mcp c"
    "dispatch_mcp env c s = (Some result, s1)" "startswith result outcome_unknown"
    "is_mcp c'" "mcp_parse env' (cr_skills (fst (foldl make_call s1 cs))) c' = Inr (name', args')"
    "mcp_key env' name' args' = mcp_key env name args"
  shows "dispatch_mcp env' c' (foldl make_call s1 cs)
    = (Some (outcome_unknown @ u '' previous attempt may have executed; automatic replay refused''), foldl make_call s1 cs)"
proof -
  obtain rt fs where s: "s = (rt, fs)" by (cases s)
  have "mcp_key env name args \<in> set (cr_uncertain (fst s1))"
    using assms(1-4) by (auto simp: s dispatch_mcp_def Let_def split: if_splits prod.splits)
  then have "mcp_key env' name' args' \<in> set (cr_uncertain (fst (foldl make_call s1 cs)))"
    using calls_remember [of s1 cs] assms(7) by auto
  then show ?thesis using assms(5,6) by (simp add: dispatch_mcp_def split_beta)
qed

lemma unknown_mcp_call_is_refused_witness:
  "dispatch_mcp sample_mcp_env (u ''mcp:s:t  {}'') (foldl make_call (snd (dispatch_mcp sample_mcp_env (u ''mcp:s:t {}'') (sample_mcp_rt, sample_fs)))
      [Mcp_call sample_mcp_env (u ''mcp:s:x {}'')])
   = (Some (outcome_unknown @ u '' previous attempt may have executed; automatic replay refused''),
      foldl make_call (snd (dispatch_mcp sample_mcp_env (u ''mcp:s:t {}'') (sample_mcp_rt, sample_fs)))
      [Mcp_call sample_mcp_env (u ''mcp:s:x {}'')])"
proof (rule unknown_mcp_call_is_refused)
  show parsed: "mcp_parse sample_mcp_env (cr_skills (fst (sample_mcp_rt, sample_fs))) (u ''mcp:s:t {}'') = Inr (u ''mcp:s:t'', [(u ''a'', JInt 1)])"
    by (simp add: sample_mcp_parse)
  show mcp: "is_mcp (u ''mcp:s:t {}'')" "is_mcp (u ''mcp:s:t  {}'')" by (simp_all add: sample_is_mcp)
  have "fst (dispatch_mcp sample_mcp_env (u ''mcp:s:t {}'') (sample_mcp_rt, sample_fs)) = Some outcome_unknown"
    by (rule sample_mcp_outcome)
  then show "dispatch_mcp sample_mcp_env (u ''mcp:s:t {}'') (sample_mcp_rt, sample_fs)
    = (Some outcome_unknown, snd (dispatch_mcp sample_mcp_env (u ''mcp:s:t {}'') (sample_mcp_rt, sample_fs)))"
    by (metis prod.collapse)
  show "startswith outcome_unknown outcome_unknown" by (simp add: startswith_def)
  show "mcp_parse sample_mcp_env (cr_skills (fst (foldl make_call (snd (dispatch_mcp sample_mcp_env (u ''mcp:s:t {}'') (sample_mcp_rt, sample_fs)))
      [Mcp_call sample_mcp_env (u ''mcp:s:x {}'')]))) (u ''mcp:s:t  {}'') = Inr (u ''mcp:s:t'', [(u ''a'', JInt 1)])"
    by (simp add: make_call_def dispatch_mcp_skills sample_mcp_parse)
qed simp

text \<open>Whatever topic a model sends, the shell pipeline of mqtt_sub.sh consists of exactly the intended words: the
  topic stays one argument and cannot add a command, an option or another field.\<close>

theorem mqtt_topic_is_one_word:
  assumes "sh_word (we_host env)" "field_name field"
  shows "shlex_split (sub_pipeline env topic field)
    = Inr [u ''mosquitto_sub'', u ''-h'', we_host env, u ''-p'', show_int (we_port env), u ''-t'', topic,
           u ''-C'', u ''1'', u ''-W'', u ''5'', u ''|'', u ''jq'', u ''-r'', 46 # field]"
proof -
  have "list_all2 reads_as [u ''mosquitto_sub'', u ''-h'', we_host env, u ''-p'', show_int (we_port env), u ''-t'',
     shlex_quote topic, u ''-C'', u ''1'', u ''-W'', u ''5'', u ''|'', u ''jq'', u ''-r'', 39 # 46 # field @ [39]]
   [u ''mosquitto_sub'', u ''-h'', we_host env, u ''-p'', show_int (we_port env), u ''-t'', topic,
    u ''-C'', u ''1'', u ''-W'', u ''5'', u ''|'', u ''jq'', u ''-r'', 46 # field]"
    using literal_words by (simp add: word_reads_as assms show_int_word quote_reads_as field_reads_as)
  then show ?thesis unfolding shlex_split_def sub_pipeline_words by (rule reads_as_join)
qed

lemma mqtt_topic_is_one_word_witness:
  "shlex_split (sub_pipeline sample_work_env (u ''a; rm -rf /'' @ [39]) (u ''state''))
    = Inr [u ''mosquitto_sub'', u ''-h'', we_host sample_work_env, u ''-p'', show_int (we_port sample_work_env), u ''-t'',
           u ''a; rm -rf /'' @ [39], u ''-C'', u ''1'', u ''-W'', u ''5'', u ''|'', u ''jq'', u ''-r'', 46 # u ''state'']"
proof (rule mqtt_topic_is_one_word)
  show "sh_word (we_host sample_work_env)" by code_simp
  show "field_name (u ''state'')" by code_simp
qed

text \<open>However the output of a program arrives, what is kept of it is exactly its first bytes up to the limit,
  and it is marked as cut off if and only if there was more.\<close>

theorem program_output_is_bounded:
  "stream_text limit chunks = utf8_replace (take limit (concat chunks))
     @ (if limit < length (concat chunks) then 10 # u ''[output truncated]'' else [])"
  by (simp add: stream_text_def collect_take)

end
