(* ===== verification/Fragments.thy ===== *)
theory Fragments
  imports WorkRuntime
begin

text \<open>
  The tools that hand pieces of a file to the model: partial reading (orchestration/read_partly.py),
  the cyclic process (cyclic_process.py), the boundaries between fragments (fragment_processing.py),
  and pictures (image_tool.py). A fragment is one question to a child of the model client and ends
  with a yield to the scheduler; a suspended tool is the record of what is left to do, and the file
  system may have changed when it goes on. What the child answers, whether it can be forked, the
  random part of a temporary name and the texts of decoding errors are the environment. The constant
  system prompt of a child is named by its tool.
\<close>

section \<open>Decoding\<close>

definition utf8_strict :: "nat list \<Rightarrow> str option" where
  "utf8_strict bs = (let s = utf8_replace bs in if utf8_encode s = Some bs then Some s else None)"

fun utf16_units :: "bool \<Rightarrow> nat list \<Rightarrow> nat list option" where
  "utf16_units big [] = Some []"
| "utf16_units big [a] = None"
| "utf16_units big (a # b # bs) = map_option (Cons (if big then 256 * a + b else a + 256 * b)) (utf16_units big bs)"

fun utf16_chars :: "nat list \<Rightarrow> str option" where
  "utf16_chars [] = Some []"
| "utf16_chars (c # cs) =
     (if c < 0xD800 \<or> 0xDFFF < c then map_option (Cons c) (utf16_chars cs)
      else if 0xDBFF < c then None
      else (case cs of
              d # ds \<Rightarrow> if 0xDC00 \<le> d \<and> d \<le> 0xDFFF
                then map_option (Cons (0x10000 + (c - 0xD800) * 0x400 + (d - 0xDC00))) (utf16_chars ds) else None
            | [] \<Rightarrow> None))"

fun utf32_chars :: "bool \<Rightarrow> nat list \<Rightarrow> str option" where
  "utf32_chars big [] = Some []"
| "utf32_chars big (a # b # c # d # bs) =
     (let v = (if big then ((a * 256 + b) * 256 + c) * 256 + d else ((d * 256 + c) * 256 + b) * 256 + a)
      in if scalar v then map_option (Cons v) (utf32_chars big bs) else None)"
| "utf32_chars big _ = None"

text \<open>The upper half of Windows-1251; the one undefined byte is 0.\<close>

definition cp1251_high :: "nat list" where
  "cp1251_high =
    [0x402, 0x403, 0x201A, 0x453, 0x201E, 0x2026, 0x2020, 0x2021, 0x20AC, 0x2030, 0x409, 0x2039, 0x40A, 0x40C, 0x40B, 0x40F,
     0x452, 0x2018, 0x2019, 0x201C, 0x201D, 0x2022, 0x2013, 0x2014, 0, 0x2122, 0x459, 0x203A, 0x45A, 0x45C, 0x45B, 0x45F,
     0xA0, 0x40E, 0x45E, 0x408, 0xA4, 0x490, 0xA6, 0xA7, 0x401, 0xA9, 0x404, 0xAB, 0xAC, 0xAD, 0xAE, 0x407,
     0xB0, 0xB1, 0x406, 0x456, 0x491, 0xB5, 0xB6, 0xB7, 0x451, 0x2116, 0x454, 0xBB, 0x458, 0x405, 0x455, 0x457]"

definition cp1251_char :: "nat \<Rightarrow> nat" where
  "cp1251_char b = (if b < 128 then b else if b < 192 then cp1251_high ! (b - 128) else 0x410 + (b - 192))"

definition cp1251 :: "nat list \<Rightarrow> str option" where
  "cp1251 bs = (if 0x98 \<in> set bs then None else Some (map cp1251_char bs))"

definition begins :: "nat list \<Rightarrow> nat list \<Rightarrow> bool" where
  "begins bs p \<longleftrightarrow> take (length p) bs = p"

text \<open>
  \<open>_read_text\<close>: the text, or the name of the encoding whose decoder failed; \<open>cp1251\<close> stands for the
  message that the encoding is not supported.
\<close>

definition read_text :: "nat list \<Rightarrow> string + str" where
  "read_text bs =
     (let decoded = (\<lambda>name r. case r of None \<Rightarrow> Inl name | Some s \<Rightarrow> Inr s)
      in if begins bs [0xFF, 0xFE, 0, 0] then decoded ''utf-32'' (utf32_chars False (drop 4 bs))
         else if begins bs [0, 0, 0xFE, 0xFF] then decoded ''utf-32'' (utf32_chars True (drop 4 bs))
         else if begins bs [0xFF, 0xFE] then decoded ''utf-16'' (Option.bind (utf16_units False (drop 2 bs)) utf16_chars)
         else if begins bs [0xFE, 0xFF] then decoded ''utf-16'' (Option.bind (utf16_units True (drop 2 bs)) utf16_chars)
         else if begins bs [0xEF, 0xBB, 0xBF] then decoded ''utf-8-sig'' (utf8_strict (drop 3 bs))
         else case utf8_strict bs of Some s \<Rightarrow> Inr s | None \<Rightarrow> decoded ''cp1251'' (cp1251 bs))"

text \<open>Universal newlines, as \<open>Path.read_text\<close> reads.\<close>

fun universal :: "str \<Rightarrow> str" where
  "universal [] = []"
| "universal [c] = [if c = 13 then 10 else c]"
| "universal (c # d # cs) =
     (if c \<noteq> 13 then c # universal (d # cs) else if d = 10 then 10 # universal cs else 10 # universal (d # cs))"

section \<open>Parts of a text\<close>

text \<open>\<open>splitlines(keepends=True)\<close>.\<close>

fun keep_lines :: "str \<Rightarrow> str \<Rightarrow> str list" where
  "keep_lines acc [] = (if acc = [] then [] else [rev acc])"
| "keep_lines acc (c # cs) =
     (if c = 13 \<and> cs \<noteq> [] \<and> hd cs = 10 then rev (10 # 13 # acc) # keep_lines [] (tl cs)
      else if is_line_break c then rev (c # acc) # keep_lines [] cs
      else keep_lines (c # acc) cs)"

text \<open>Decoded text has no surrogates, so that it can always be encoded.\<close>

definition byte_size :: "str \<Rightarrow> nat" where
  "byte_size s = length (concat (map utf8_char s))"

definition share :: "nat \<Rightarrow> nat \<Rightarrow> nat" where
  "share bytes parts = (bytes + parts - 1) div parts"

fun part_loop :: "nat \<Rightarrow> nat \<Rightarrow> nat \<Rightarrow> str list \<Rightarrow> nat \<Rightarrow> str list \<Rightarrow> str list" where
  "part_loop bytes parts target current filled [] = (if current = [] then [] else [concat current])"
| "part_loop bytes parts target current filled (line # lines) =
     (let current' = current @ [line]; filled' = filled + byte_size line
      in if parts > 1 \<and> filled' \<ge> target
         then concat current' # part_loop (bytes - filled') (parts - 1) (share (bytes - filled') (parts - 1)) [] 0 lines
         else part_loop bytes parts target current' filled' lines)"

definition split_lines :: "str \<Rightarrow> nat \<Rightarrow> str list" where
  "split_lines s count =
     (let lines = keep_lines [] s; parts = min count (length lines); bytes = sum_list (map byte_size lines)
      in if lines = [] then [s] else part_loop bytes parts (share bytes parts) [] 0 lines)"

section \<open>Asking about a fragment\<close>

text \<open>An exception: an OSError, RuntimeError or ValueError, or any other, with its text.\<close>

datatype raised = Common str | Uncommon str

definition raised_text :: "raised \<Rightarrow> str" where
  "raised_text e = (case e of Common s \<Rightarrow> s | Uncommon s \<Rightarrow> s)"

definition fs_text :: "fs_exc \<Rightarrow> str" where
  "fs_text e = (case e of Os_exc _ s \<Rightarrow> s | Value_exc s \<Rightarrow> s | Loop_exc s \<Rightarrow> s)"

datatype fork_outcome = No_fork | Fork_raises raised | Forked

record frag_env = work_env +
  fr_fork :: fork_outcome
  fr_ask :: "string \<Rightarrow> str \<Rightarrow> raised + str"
  fr_images :: bool
  fr_image_limit :: "str option"
  fr_random :: str
  fr_codec :: "string \<Rightarrow> nat list \<Rightarrow> str"
  fr_executable :: "path \<Rightarrow> bool"
  fr_input :: "path \<Rightarrow> str list \<Rightarrow> str \<Rightarrow> fs \<Rightarrow> process_end \<times> fs"

text \<open>The words \<open>TASK\<close> and \<open>FRAGMENT\<close> of the prompt are Russian.\<close>

definition fragment_prompt :: "str \<Rightarrow> nat \<Rightarrow> nat \<Rightarrow> str \<Rightarrow> str \<Rightarrow> str" where
  "fragment_prompt task i n name fragment = join_on 10
     [[0x417, 0x410, 0x414, 0x410, 0x41D, 0x418, 0x415, 58], task, [],
      [0x424, 0x420, 0x410, 0x413, 0x41C, 0x415, 0x41D, 0x422, 32] @ show_nat i @ 47 # show_nat n @ u '': '' @ name,
      u ''----- BEGIN FRAGMENT -----'', fragment, u ''----- END FRAGMENT -----'']"

text \<open>One inference and the reset of the child; the answer is stripped.\<close>

definition fragment_step :: "('a) frag_env_scheme \<Rightarrow> string \<Rightarrow> str \<Rightarrow> raised + str" where
  "fragment_step env tool prompt = map_sum id strip (fr_ask env tool prompt)"

text \<open>A tool that runs over several scheduler steps: it is over, or it waits with its state.\<close>

datatype ('r, 's) tool_progress = Over 'r | Yielded 's

section \<open>Partial reading\<close>

record partly_run =
  pr_task :: str
  pr_name :: str
  pr_total :: nat
  pr_left :: "(nat \<times> str) list"
  pr_results :: "str list"

definition partly_error :: "str \<Rightarrow> str" where
  "partly_error txt = system_error (u ''read_partly.sh: '' @ txt)"

text \<open>What happens up to the next yield.\<close>

definition partly_next :: "('a) frag_env_scheme \<Rightarrow> partly_run \<Rightarrow> (raised + str, partly_run) tool_progress" where
  "partly_next env r =
     (case pr_left r of
        [] \<Rightarrow> Over (Inr (join_on 10 (pr_results r)))
      | (i, fragment) # rest \<Rightarrow>
          (case fragment_step env ''read_partly'' (fragment_prompt (pr_task r) i (pr_total r) (pr_name r) fragment) of
             Inl (Common txt) \<Rightarrow> Over (Inr (partly_error txt))
           | Inl e \<Rightarrow> Over (Inl e)
           | Inr a \<Rightarrow> Yielded (r\<lparr>pr_left := rest, pr_results := pr_results r @ (if a = [] then [] else [a])\<rparr>)))"

definition partly_args :: "str \<Rightarrow> str + str \<times> nat" where
  "partly_args command =
     (case shlex_split command of
        Inl e \<Rightarrow> Inl (sh_error_text e)
      | Inr argv \<Rightarrow>
          if length argv \<noteq> 4 \<or> argv ! 0 \<noteq> u ''read_partly.sh'' \<or> argv ! 2 \<noteq> u ''-n''
          then Inl (u ''usage: read_partly.sh FILE -n COUNT'')
          else (case parse_int (argv ! 3) of
                  Some n \<Rightarrow> if n > 0 then Inr (argv ! 1, nat n) else Inl (u ''COUNT must be a positive integer'')
                | None \<Rightarrow> Inl (u ''COUNT must be a positive integer'')))"

definition partly_text :: "('a) frag_env_scheme \<Rightarrow> nat list \<Rightarrow> str + str" where
  "partly_text env bs =
     (case read_text bs of
        Inr s \<Rightarrow> Inr s
      | Inl name \<Rightarrow> Inl (if name = ''cp1251'' then u ''unsupported text encoding; expected UTF-8, UTF-16 or Windows-1251''
                          else fr_codec env name bs))"

text \<open>The fragments of the file, once the call has been checked; an empty file has none.\<close>

definition partly_open ::
  "('a) frag_env_scheme \<Rightarrow> str \<Rightarrow> bool \<Rightarrow> str \<Rightarrow> cmd_runtime \<Rightarrow> fs \<Rightarrow> str + (str option \<times> partly_run)" where
  "partly_open env command require_assignment task_text rt fs =
     try_bind (partly_args command) (\<lambda>(file_arg, count).
       guard_not (require_assignment \<and> u ''read_partly'' \<notin> set (cr_skills rt)) (u ''read_partly is not assigned to this agent'')
       (guard_not (strip task_text = []) (u ''current task text is unavailable'')
       (try_bind (map_sum fs_text id (resolve_data_path (cr_root rt) fs file_arg True)) (\<lambda>p.
       try_bind (partly_text env (read_bytes fs p)) (\<lambda>s.
         let parts = split_lines s count;
             r = \<lparr>pr_task = strip task_text, pr_name = last p, pr_total = length parts,
                  pr_left = zip [1..<Suc (length parts)] parts, pr_results = []\<rparr>
         in Inr (if s = [] then Some [] else None, r))))))"

definition fork_child :: "('a) frag_env_scheme \<Rightarrow> raised + unit" where
  "fork_child env = (case fr_fork env of
       No_fork \<Rightarrow> Inl (Common (u ''model client does not support isolated contexts''))
     | Fork_raises e \<Rightarrow> Inl e | Forked \<Rightarrow> Inr ())"

text \<open>\<open>read_partly_steps\<close> up to its first yield; \<open>None\<close> when the command is another one.\<close>

definition read_partly ::
  "('a) frag_env_scheme \<Rightarrow> str \<Rightarrow> bool \<Rightarrow> str \<Rightarrow> cmd_runtime \<Rightarrow> fs \<Rightarrow> (raised + str, partly_run) tool_progress option" where
  "read_partly env command require_assignment task_text rt fs =
     (if first_word command \<noteq> u ''read_partly.sh'' then None
      else Some (case partly_open env command require_assignment task_text rt fs of
        Inl txt \<Rightarrow> Over (Inr (partly_error txt))
      | Inr (Some s, r) \<Rightarrow> Over (Inr s)
      | Inr (None, r) \<Rightarrow>
          (case fork_child env of
             Inl (Common txt) \<Rightarrow> Over (Inr (partly_error txt))
           | Inl e \<Rightarrow> Over (Inl e)
           | Inr _ \<Rightarrow> partly_next env r)))"

section \<open>The cyclic process\<close>

record cyclic_run =
  cy_command :: str
  cy_task :: str
  cy_file :: str
  cy_total :: nat
  cy_left :: "(nat \<times> str \<times> path) list"
  cy_output :: str
  cy_target :: path
  cy_temp :: path
  cy_text :: str

definition cyclic_fail :: "cmd_runtime \<Rightarrow> str \<Rightarrow> str \<Rightarrow> string \<Rightarrow> command_result" where
  "cyclic_fail rt command message code = \<lparr>re_command = command, re_exit = 2, re_stdout = [],
     re_stderr = u ''cyclic_process: '' @ message, re_cwd = cr_root rt, re_operation = u ''cyclic_process'',
     re_meta = [(u ''error_code'', JStr (u code))]\<rparr>"

text \<open>\<open>Path(...).as_posix()\<close> and \<open>stem\<close>.\<close>

definition posix :: "anchor \<Rightarrow> str list \<Rightarrow> str" where
  "posix anchor parts =
     (case anchor of Relative \<Rightarrow> (if parts = [] then u ''.'' else join_on 47 parts)
      | Anchored \<Rightarrow> 47 # join_on 47 parts | Double_slash \<Rightarrow> 47 # 47 # join_on 47 parts)"

definition split_suffix :: "str \<Rightarrow> str \<times> str" where
  "split_suffix name =
     (let tail = takeWhile (\<lambda>c. c \<noteq> 46) (rev name); i = length name - length tail - 1
      in if 46 \<in> set name \<and> 0 < i \<and> tail \<noteq> [] then (take i name, drop i name) else (name, []))"

definition stem :: "str \<Rightarrow> str" where "stem name = fst (split_suffix name)"

definition suffix :: "str \<Rightarrow> str" where "suffix name = snd (split_suffix name)"

definition final_name :: "str list \<Rightarrow> str" where
  "final_name parts = (if parts = [] then [] else last parts)"

definition part_names :: "str \<Rightarrow> nat \<Rightarrow> str list" where
  "part_names logical n = (case parse_path logical of (anchor, parts) \<Rightarrow>
     map (\<lambda>i. posix anchor (butlast parts @ [show_nat i @ final_name parts])) [1..<Suc n])"

definition output_name :: "str \<Rightarrow> str" where
  "output_name logical = (case parse_path logical of (anchor, parts) \<Rightarrow>
     posix anchor (butlast parts @ [stem (final_name parts) @ u ''_out.txt'']))"

fun resolve_all :: "path \<Rightarrow> fs \<Rightarrow> str list \<Rightarrow> fs_exc + path list" where
  "resolve_all base fs [] = Inr []"
| "resolve_all base fs (n # ns) =
     try_bind (resolve_data_path base fs n True) (\<lambda>p. try_bind (resolve_all base fs ns) (\<lambda>ps. Inr (p # ps)))"

text \<open>
  The checks before anything is written. The left value is the result of a failed call; the error of a
  loop of links is not caught.
\<close>

definition cyclic_args :: "cmd_runtime \<Rightarrow> str \<Rightarrow> str \<Rightarrow> command_result + str \<times> nat" where
  "cyclic_args rt command task_text =
     (case shlex_split command of
        Inl e \<Rightarrow> Inl (cyclic_fail rt command (sh_error_text e) ''parse_error'')
      | Inr tokens \<Rightarrow>
          if length tokens \<noteq> 4 \<or> tokens ! 0 \<noteq> u ''cyclic_process'' \<or> tokens ! 2 \<noteq> u ''-n''
          then Inl (cyclic_fail rt command (u ''usage: cyclic_process FILE -n COUNT'') ''invalid_arguments'')
          else (case (case parse_int (tokens ! 3) of Some n \<Rightarrow> if n > 0 then Some (nat n) else None | None \<Rightarrow> None) of
                  None \<Rightarrow> Inl (cyclic_fail rt command (u ''COUNT must be a positive integer'') ''invalid_arguments'')
                | Some n \<Rightarrow>
                    if strip task_text = []
                    then Inl (cyclic_fail rt command (u ''current task text is unavailable'') ''missing_task'')
                    else Inr (tokens ! 1, n)))"

definition cyclic_paths :: "cmd_runtime \<Rightarrow> fs \<Rightarrow> str \<Rightarrow> nat \<Rightarrow> fs_exc + path list \<times> path" where
  "cyclic_paths rt fs logical n =
     try_bind (resolve_all (cr_root rt) fs (part_names logical n)) (\<lambda>ps.
       try_bind (resolve_data_path (cr_root rt) fs (output_name logical) False) (\<lambda>out. Inr (ps, out)))"

definition temp_path :: "path \<Rightarrow> str \<Rightarrow> path" where
  "temp_path target random = butlast target @ [46 # last target @ 46 # random @ u ''.tmp'']"

text \<open>The \<open>finally\<close> block: a temporary file that is still there is removed, whatever that says.\<close>

definition drop_temp :: "path \<Rightarrow> fs \<Rightarrow> fs" where
  "drop_temp p fs = (case os_unlink fs p of Inl _ \<Rightarrow> fs | Inr fs' \<Rightarrow> fs')"

definition cyclic_stop :: "cmd_runtime \<Rightarrow> cyclic_run \<Rightarrow> str \<Rightarrow> fs \<Rightarrow> command_result \<times> fs" where
  "cyclic_stop rt r txt fs = (cyclic_fail rt (cy_command r) txt ''iteration_failed'', drop_temp (cy_temp r) fs)"

definition read_fragment :: "fs \<Rightarrow> path \<Rightarrow> fs_exc + str" where
  "read_fragment fs p =
     (case stat fs p of
        Some (_, Regular bs) \<Rightarrow> Inr (universal (utf8_replace bs))
      | Some _ \<Rightarrow> Inl (os_exc EISDIR p)
      | None \<Rightarrow> Inl (case at_path fs p of Inl e \<Rightarrow> os_exc e p | Inr _ \<Rightarrow> os_exc ENOENT p))"

text \<open>The written file takes its place; a temporary file that was removed meanwhile cannot.\<close>

definition cyclic_finish :: "cmd_runtime \<Rightarrow> cyclic_run \<Rightarrow> fs \<Rightarrow> command_result \<times> fs" where
  "cyclic_finish rt r fs =
     (let bs = concat (map utf8_char (cy_text r));
          fs1 = (if is_file fs (cy_temp r) then dput (cy_temp r) (Regular bs) fs else fs)
      in case os_rename fs1 (cy_temp r) (cy_target r) of
           Inl e \<Rightarrow> cyclic_stop rt r (fs_text (os_exc e (cy_temp r))) fs1
         | Inr fs2 \<Rightarrow>
             (\<lparr>re_command = cy_command r, re_exit = 0, re_stdout = cy_output r @ [10], re_stderr = [], re_cwd = cr_root rt,
                re_operation = u ''cyclic_process'',
                re_meta = [(u ''file'', JStr (cy_file r)), (u ''count'', JInt (int (cy_total r))),
                           (u ''output'', JStr (cy_output r))]\<rparr>, drop_temp (cy_temp r) fs2))"

definition cyclic_next :: "('a) frag_env_scheme \<Rightarrow> cmd_runtime \<Rightarrow> cyclic_run \<Rightarrow> fs \<Rightarrow> (command_result, cyclic_run) tool_progress \<times> fs" where
  "cyclic_next env rt r fs =
     (case cy_left r of
        [] \<Rightarrow> (case cyclic_finish rt r fs of (result, fs') \<Rightarrow> (Over result, fs'))
      | (i, name, p) # rest \<Rightarrow>
          (let stop = (\<lambda>txt. case cyclic_stop rt r txt fs of (result, fs') \<Rightarrow> (Over result, fs'))
           in case read_fragment fs p of
                Inl e \<Rightarrow> stop (fs_text e)
              | Inr fragment \<Rightarrow>
                  (case fragment_step env ''cyclic_process'' (fragment_prompt (cy_task r) i (cy_total r) name fragment) of
                     Inl e \<Rightarrow> stop (raised_text e)
                   | Inr a \<Rightarrow> (Yielded (r\<lparr>cy_left := rest, cy_text := cy_text r @ (if a = [] then [] else a @ [10])\<rparr>), fs))))"

text \<open>A surrogate in an answer cannot be written; it is found when the generator goes on.\<close>

definition cyclic_resume :: "('a) frag_env_scheme \<Rightarrow> cmd_runtime \<Rightarrow> cyclic_run \<Rightarrow> fs \<Rightarrow> (command_result, cyclic_run) tool_progress \<times> fs" where
  "cyclic_resume env rt r fs =
     (if list_all scalar (cy_text r) then cyclic_next env rt r fs
      else (case cyclic_stop rt r (fr_codec env ''utf-8'' (cy_text r)) fs of (result, fs') \<Rightarrow> (Over result, fs')))"

definition cyclic_start ::
  "('a) frag_env_scheme \<Rightarrow> str \<Rightarrow> str \<Rightarrow> cmd_runtime \<Rightarrow> fs \<Rightarrow> (raised + command_result, cyclic_run) tool_progress \<times> fs" where
  "cyclic_start env command task_text rt fs =
     (let over = (\<lambda>r. (Over (Inr r), fs))
      in case cyclic_args rt command task_text of
           Inl r \<Rightarrow> over r
         | Inr (file_arg, n) \<Rightarrow>
             (let logical = (if startswith file_arg (u ''/'') then tl file_arg else file_arg); out = output_name logical
              in if logical = [] then over (cyclic_fail rt command (u ''FILE must not be empty'') ''invalid_arguments'')
                 else case cyclic_paths rt fs logical n of
                   Inl (Loop_exc txt) \<Rightarrow> (Over (Inl (Common txt)), fs)
                 | Inl e \<Rightarrow> over (cyclic_fail rt command (fs_text e) ''invalid_data_path'')
                 | Inr (ps, target) \<Rightarrow>
                     if path_exists fs target \<and> \<not> is_file fs target
                     then over (cyclic_fail rt command (u ''output is not a regular file: '' @ out) ''invalid_output'')
                     else if fr_fork env = No_fork
                     then over (cyclic_fail rt command (u ''model client does not support isolated contexts'') ''unsupported_client'')
                     else case fork_child env of
                       Inl e \<Rightarrow> over (cyclic_fail rt command (u ''cannot create isolated model context: '' @ raised_text e) ''fork_failed'')
                     | Inr _ \<Rightarrow>
                         (let r = \<lparr>cy_command = command, cy_task = strip task_text, cy_file = file_arg, cy_total = n,
                                   cy_left = zip [1..<Suc n] (zip (part_names logical n) ps), cy_output = out,
                                   cy_target = target, cy_temp = temp_path target (fr_random env), cy_text = []\<rparr>
                          in case os_write fs (cy_temp r) (\<lambda>_. []) of
                               Inl e \<Rightarrow> over (cyclic_fail rt command (fs_text (os_exc e (cy_temp r))) ''iteration_failed'')
                             | Inr fs1 \<Rightarrow>
                                 (case cyclic_next env rt r fs1 of
                                    (Over result, fs2) \<Rightarrow> (Over (Inr result), fs2)
                                  | (Yielded r', fs2) \<Rightarrow> (Yielded r', fs2)))))"

text \<open>Closing the generator of a suspended call removes the temporary file.\<close>

definition cyclic_close :: "cyclic_run \<Rightarrow> fs \<Rightarrow> fs" where
  "cyclic_close r fs = drop_temp (cy_temp r) fs"

section \<open>Pictures\<close>

text \<open>The content of a message: a text, or parts that are texts and images.\<close>

datatype part = Text_part str | Image_part str

datatype content = Words str | Parts "part list"

definition base64_digit :: "nat \<Rightarrow> nat" where
  "base64_digit d = (if d < 26 then 65 + d else if d < 52 then 71 + d else if d < 62 then d - 4 else if d = 62 then 43 else 47)"

fun base64 :: "nat list \<Rightarrow> str" where
  "base64 [] = []"
| "base64 [a] = [base64_digit (a div 4), base64_digit (a mod 4 * 16), 61, 61]"
| "base64 [a, b] = [base64_digit (a div 4), base64_digit (a mod 4 * 16 + b div 16), base64_digit (b mod 16 * 4), 61]"
| "base64 (a # b # c # bs) =
     base64_digit (a div 4) # base64_digit (a mod 4 * 16 + b div 16) # base64_digit (b mod 16 * 4 + c div 64)
       # base64_digit (c mod 64) # base64 bs"

definition image_limit :: "('a) frag_env_scheme \<Rightarrow> str + nat" where
  "image_limit env =
     (case fr_image_limit env of
        None \<Rightarrow> Inr (20 * 1024 * 1024)
      | Some raw \<Rightarrow>
          (case parse_int raw of
             None \<Rightarrow> Inl (u ''invalid literal for int() with base 10: '' @ py_repr raw)
           | Some n \<Rightarrow> if n \<le> 0 then Inl (u ''CAT_AGENT_MAX_IMAGE_BYTES must be positive'') else Inr (nat n)))"

definition is_png :: "nat list \<Rightarrow> bool" where
  "is_png bs \<longleftrightarrow> begins bs [0x89, 0x50, 0x4E, 0x47, 13, 10, 26, 10]"

definition is_jpeg :: "nat list \<Rightarrow> bool" where
  "is_jpeg bs \<longleftrightarrow> begins bs [0xFF, 0xD8, 0xFF]"

definition picture_file :: "('a) frag_env_scheme \<Rightarrow> cmd_runtime \<Rightarrow> fs \<Rightarrow> str \<Rightarrow> str + path" where
  "picture_file env rt fs logical =
     try_bind (map_sum fs_text id (resolve_data_path (cr_root rt) fs logical True)) (\<lambda>p.
     guard_not (lower (suffix (last p)) \<notin> set (map u [''.png'', ''.jpg'', ''.jpeg''])) (u ''only PNG and JPEG images are supported'')
     (try_bind (image_limit env) (\<lambda>limit.
     guard_not (length (read_bytes fs p) > limit) (u ''image exceeds '' @ show_nat limit @ u '' bytes'')
     (guard_not (\<not> is_png (read_bytes fs p) \<and> \<not> is_jpeg (read_bytes fs p)) (u ''file does not contain a PNG or JPEG image'')
       (Inr p)))))"

definition picture_argument :: "str list \<Rightarrow> str option \<Rightarrow> str + str" where
  "picture_argument argv input =
     (case (argv, input) of
        ([_, logical], _) \<Rightarrow> Inr logical
      | ([_], Some txt) \<Rightarrow>
          if strip txt = [] then Inl (u ''usage: read_pic.sh PATH/NAME.png|jpg'')
          else (case shlex_split txt of
                  Inl e \<Rightarrow> Inl (sh_error_text e)
                | Inr [logical] \<Rightarrow> Inr logical
                | Inr _ \<Rightarrow> Inl (u ''pipeline input for read_pic.sh must contain exactly one path''))
      | _ \<Rightarrow> Inl (u ''usage: read_pic.sh PATH/NAME.png|jpg''))"

definition image_skills :: "('a) frag_env_scheme \<Rightarrow> str list" where
  "image_skills env = map strip (split_on 44 (getenv (we_enabled env) ''shell,mqtt,read_pic''))"

definition load_picture :: "('a) frag_env_scheme \<Rightarrow> str \<Rightarrow> cmd_runtime \<Rightarrow> fs \<Rightarrow> bool \<Rightarrow> str option \<Rightarrow> str + content" where
  "load_picture env command rt fs require_assignment input =
     try_bind (map_sum sh_error_text id (shlex_split command)) (\<lambda>argv.
     try_bind (picture_argument argv input) (\<lambda>logical.
     guard_not (\<not> fr_images env) (u ''read_pic is supported only by LiteRT-LM and OpenAI backends'')
     (guard_not (require_assignment \<and> u ''read_pic'' \<notin> set (cr_skills rt)) (u ''read_pic is not assigned to this agent'')
     (guard_not (u ''read_pic'' \<notin> set (image_skills env)) (u ''read_pic disabled by runtime policy'')
     (try_bind (picture_file env rt fs logical) (\<lambda>p.
       let bs = read_bytes fs p
       in Inr (Parts [Text_part (u ''read_pic.sh: '' @ last p @ 10 # u ''Image attached. Continue the current task using this image.''),
            Image_part (u ''data:'' @ (if is_png bs then u ''image/png'' else u ''image/jpeg'') @ u '';base64,'' @ base64 bs)])))))))"

definition read_picture :: "('a) frag_env_scheme \<Rightarrow> str \<Rightarrow> cmd_runtime \<Rightarrow> fs \<Rightarrow> bool \<Rightarrow> str option \<Rightarrow> content option" where
  "read_picture env command rt fs require_assignment input =
     (if first_word command \<noteq> u ''read_pic.sh'' then None
      else Some (case load_picture env command rt fs require_assignment input of
        Inl txt \<Rightarrow> Words (system_error (u ''read_pic.sh: '' @ txt)) | Inr c \<Rightarrow> c))"

end
