(* ===== verification/Scripts.thy ===== *)
theory Scripts
  imports Fragments
begin

text \<open>
  Skill scripts (orchestration/skill_script.py): a file \<open>skill.sh\<close> in the workspace root, each line a
  step that gets the text the step before produced. A step is the cyclic process, a picture, one of
  the MQTT pseudo-commands or an executable file of the workspace root. A script is suspended when
  its cyclic process is.
\<close>

datatype script_end = Silent | Said content

record script_run =
  sc_command :: str
  sc_name :: str
  sc_task :: str
  sc_line :: nat
  sc_cyclic :: cyclic_run
  sc_left :: "(nat \<times> str) list"

datatype line_end = Next str | Stop "raised + script_end" | Wait cyclic_run

definition script_says :: "str \<Rightarrow> raised + script_end" where
  "script_says txt = Inr (Said (Words (system_error txt)))"

definition at_line :: "str \<Rightarrow> nat \<Rightarrow> str" where
  "at_line name n = name @ 58 # show_nat n"

section \<open>Executables\<close>

definition script_error :: "cmd_runtime \<Rightarrow> str \<Rightarrow> str \<Rightarrow> int \<Rightarrow> str \<Rightarrow> string \<Rightarrow> command_result" where
  "script_error rt command operation code err tag = \<lparr>re_command = command, re_exit = code, re_stdout = [], re_stderr = err,
     re_cwd = cr_root rt, re_operation = operation, re_meta = [(u ''error_code'', JStr (u tag))]\<rparr>"

fun resolve_args :: "path \<Rightarrow> fs \<Rightarrow> str list \<Rightarrow> fs_exc + str list" where
  "resolve_args base fs [] = Inr []"
| "resolve_args base fs (t # ts) =
     try_bind (if startswith t (u ''-'') then Inr t else map_sum id show_path (resolve_data_path base fs t False))
       (\<lambda>a. try_bind (resolve_args base fs ts) (\<lambda>as. Inr (a # as)))"

text \<open>What stands in the way of running the file.\<close>

definition not_runnable :: "('a) frag_env_scheme \<Rightarrow> cmd_runtime \<Rightarrow> fs \<Rightarrow> str \<Rightarrow> (int \<times> str \<times> string) option" where
  "not_runnable env rt fs name =
     (let p = cr_root rt @ path_parts name
      in if 47 \<in> set name \<or> name = u ''.''
         then Some (126, u ''command name must be a file in workspace root'', ''invalid_command'')
         else if is_symlink fs p then Some (126, name @ u '': symlink is not permitted'', ''symlink'')
         else if \<not> path_exists fs p then Some (127, name @ u '': command not found'', ''command_not_found'')
         else if \<not> is_file fs p then Some (126, name @ u '': not a regular file'', ''not_file'')
         else if \<not> fr_executable env p then Some (126, name @ u '': file is not executable'', ''not_executable'')
         else None)"

definition execute_external ::
  "('a) frag_env_scheme \<Rightarrow> str \<Rightarrow> str list \<Rightarrow> str \<Rightarrow> cmd_state \<Rightarrow> (fs_exc + command_result) \<times> cmd_state" where
  "execute_external env command tokens input = (\<lambda>(rt, fs).
     let name = hd tokens; p = cr_root rt @ path_parts name;
         fail = (\<lambda>code err tag fs'. (Inr (script_error rt command name code err tag), (rt, fs')))
     in case not_runnable env rt fs name of
          Some (code, err, tag) \<Rightarrow> fail code err tag fs
        | None \<Rightarrow>
            (case resolve_args (cr_root rt) fs (tl tokens) of
               Inl (Value_exc txt) \<Rightarrow> fail 126 txt ''invalid_data_path'' fs
             | Inl e \<Rightarrow> (Inl e, (rt, fs))
             | Inr args \<Rightarrow>
                 (case fr_input env (cr_root rt) (show_path p # args) input fs of
                    (Not_started (Os_exc cls txt), fs') \<Rightarrow>
                      if cls = u ''FileNotFoundError'' then fail 127 (name @ u '': command not found'') ''command_not_found'' fs'
                      else fail 126 (name @ u '': '' @ txt) ''exec_error'' fs'
                  | (Not_started e, fs') \<Rightarrow> (Inl e, (rt, fs'))
                  | (Ended code out err, fs') \<Rightarrow>
                      (Inr \<lparr>re_command = command, re_exit = code, re_stdout = out, re_stderr = err, re_cwd = cr_root rt,
                         re_operation = name,
                         re_meta = (u ''executable'', JStr (show_path p))
                           # (if code = 124 then [(u ''error_code'', JStr (u ''timeout'')), (u ''outcome'', JStr (u ''uncertain''))] else [])\<rparr>,
                       (rt, fs')))))"

section \<open>One line\<close>

definition failed_line :: "cmd_runtime \<Rightarrow> str \<Rightarrow> nat \<Rightarrow> command_result \<Rightarrow> line_end" where
  "failed_line rt name n r = Stop (script_says (at_line name n @ u '' failed'' @ 10 # work_format_result rt r))"

definition after_cyclic :: "cmd_runtime \<Rightarrow> str \<Rightarrow> nat \<Rightarrow> command_result \<Rightarrow> line_end" where
  "after_cyclic rt name n r = (if result_ok r then Next (re_stdout r) else failed_line rt name n r)"

definition picture_line :: "('a) frag_env_scheme \<Rightarrow> str \<Rightarrow> nat \<Rightarrow> str \<Rightarrow> bool \<Rightarrow> str \<Rightarrow> cmd_state \<Rightarrow> line_end" where
  "picture_line env name n l final stream = (\<lambda>(rt, fs).
     case read_picture env l rt fs False (Some stream) of
       None \<Rightarrow> Stop (script_says (at_line name n @ u '': invalid read_pic.sh command''))
     | Some (Words txt) \<Rightarrow> Stop (script_says (at_line name n @ u '': '' @ last (splitlines txt)))
     | Some c \<Rightarrow>
         if \<not> final
         then Stop (script_says (at_line name n @ u '': read_pic.sh produces a non-text result and must be the final step''))
         else Stop (Inr (Said c)))"

text \<open>A failed step of a command whose time ran out marks the whole script as uncertain.\<close>

definition step_failed :: "str \<Rightarrow> str \<Rightarrow> nat \<Rightarrow> command_result \<Rightarrow> cmd_state \<Rightarrow> line_end \<times> cmd_state" where
  "step_failed command name n r = (\<lambda>(rt, fs).
     let rt' = (if re_exit r = 124 then add_uncertain command rt else rt) in (failed_line rt' name n r, (rt', fs)))"

definition script_line ::
  "('a) frag_env_scheme \<Rightarrow> str \<Rightarrow> str \<Rightarrow> str \<Rightarrow> nat \<Rightarrow> str \<Rightarrow> bool \<Rightarrow> str \<Rightarrow> cmd_state \<Rightarrow> line_end \<times> cmd_state" where
  "script_line env command name task n l final stream s =
     (case shlex_split l of
        Inl e \<Rightarrow> (Stop (script_says (at_line name n @ u '': parse error: '' @ sh_error_text e)), s)
      | Inr [] \<Rightarrow> (Next stream, s)
      | Inr (t # ts) \<Rightarrow>
          if t = u ''cyclic_process'' then
            (let effective = (if ts = [] \<and> strip stream \<noteq> [] then l @ 32 # strip stream else l)
             in case cyclic_start env effective task (fst s) (snd s) of
                  (Over (Inl e), fs') \<Rightarrow> (Stop (Inl e), (fst s, fs'))
                | (Over (Inr r), fs') \<Rightarrow> (after_cyclic (fst s) name n r, (fst s, fs'))
                | (Yielded c, fs') \<Rightarrow> (Wait c, (fst s, fs')))
          else if t = u ''read_pic.sh'' then (picture_line env name n l final stream s, s)
          else case internal_exec env l False (Some stream) s of
            Some (Inl e, s') \<Rightarrow> (Stop (Inl (Common (fs_text e))), s')
          | Some (Inr r, s') \<Rightarrow>
              if result_ok r then (Next (work_format_result (fst s') r), s') else step_failed command name n r s'
          | None \<Rightarrow>
              (case execute_external env l (t # ts) stream s of
                 (Inl e, s') \<Rightarrow> (Stop (Inl (Common (fs_text e))), s')
               | (Inr r, s') \<Rightarrow> if result_ok r then (Next (re_stdout r), s') else step_failed command name n r s'))"

section \<open>The script\<close>

fun script_lines ::
  "('a) frag_env_scheme \<Rightarrow> str \<Rightarrow> str \<Rightarrow> str \<Rightarrow> (nat \<times> str) list \<Rightarrow> str \<Rightarrow> cmd_state
   \<Rightarrow> (raised + script_end, script_run) tool_progress \<times> cmd_state" where
  "script_lines env command name task [] stream s =
     (Over (Inr (if strip stream = [] then Silent else Said (Words (strip stream)))), s)"
| "script_lines env command name task ((n, l) # left) stream s =
     (case script_line env command name task n l (left = []) stream s of
        (Next out, s') \<Rightarrow> script_lines env command name task left out s'
      | (Stop r, s') \<Rightarrow> (Over r, s')
      | (Wait c, s') \<Rightarrow>
          (Yielded \<lparr>sc_command = command, sc_name = name, sc_task = task, sc_line = n, sc_cyclic = c, sc_left = left\<rparr>, s'))"

definition script_steps :: "str \<Rightarrow> (nat \<times> str) list" where
  "script_steps txt =
     filter (\<lambda>(n, l). l \<noteq> [] \<and> \<not> startswith l (u ''#''))
       (zip [1..<Suc (length (splitlines txt))] (map strip (splitlines txt)))"

definition script_name :: "str list \<Rightarrow> str \<Rightarrow> str option" where
  "script_name skills command =
     (let name = first_word command
      in if name \<noteq> [] \<and> 47 \<notin> set name \<and> name \<noteq> u ''.'' \<and> suffix name = u ''.sh'' \<and> stem name \<in> set skills
         then Some name else None)"

definition script_input :: "str \<Rightarrow> str" where
  "script_input command = (case split_once (strip command) of [_, rest] \<Rightarrow> rest | _ \<Rightarrow> [])"

text \<open>What keeps the script file from being read.\<close>

definition script_text :: "('a) frag_env_scheme \<Rightarrow> cmd_runtime \<Rightarrow> fs \<Rightarrow> str \<Rightarrow> str + str" where
  "script_text env rt fs name =
     (let p = cr_root rt @ [name]; bs = read_bytes fs p
      in guard_not (is_symlink fs p) (u ''symlink is not permitted'')
        (guard_not (\<not> path_exists fs p) (u ''skill script not found'')
        (guard_not (\<not> is_file fs p) (u ''skill script is not a regular file'')
        (guard_not (int (length bs) > cr_max rt) (u ''skill script exceeds '' @ show_int (cr_max rt) @ u '' bytes'')
        (case utf8_strict bs of
           None \<Rightarrow> Inl (u ''cannot read skill script: '' @ fr_codec env ''utf-8'' bs)
         | Some txt \<Rightarrow> Inr (universal txt))))))"

text \<open>\<open>skill_script_steps\<close> up to its first yield; \<open>None\<close> when the command is no assigned script.\<close>

definition skill_script ::
  "('a) frag_env_scheme \<Rightarrow> str \<Rightarrow> str \<Rightarrow> cmd_state \<Rightarrow> ((raised + script_end, script_run) tool_progress \<times> cmd_state) option" where
  "skill_script env command task = (\<lambda>(rt, fs).
     case script_name (cr_skills rt) command of
       None \<Rightarrow> None
     | Some name \<Rightarrow>
         let says = (\<lambda>txt. Some (Over (script_says (name @ u '': '' @ txt)), (rt, fs)))
         in if command \<in> set (cr_uncertain rt)
            then says (u ''previous attempt timed out with uncertain side effects; automatic retry refused'')
            else case script_text env rt fs name of
              Inl txt \<Rightarrow> says txt
            | Inr txt \<Rightarrow>
                if script_steps txt = [] then says (u ''skill script is empty'')
                else Some (script_lines env command name task (script_steps txt) (script_input command) (rt, fs)))"

definition script_resume ::
  "('a) frag_env_scheme \<Rightarrow> script_run \<Rightarrow> cmd_state \<Rightarrow> (raised + script_end, script_run) tool_progress \<times> cmd_state" where
  "script_resume env r = (\<lambda>(rt, fs).
     case cyclic_resume env rt (sc_cyclic r) fs of
       (Yielded c, fs') \<Rightarrow> (Yielded (r\<lparr>sc_cyclic := c\<rparr>), (rt, fs'))
     | (Over result, fs') \<Rightarrow>
         (case after_cyclic rt (sc_name r) (sc_line r) result of
            Next out \<Rightarrow> script_lines env (sc_command r) (sc_name r) (sc_task r) (sc_left r) out (rt, fs')
          | Stop e \<Rightarrow> (Over e, (rt, fs'))
          | Wait c \<Rightarrow> (Yielded (r\<lparr>sc_cyclic := c\<rparr>), (rt, fs'))))"

end
