(* ===== verification/Prompts.thy ===== *)
theory Prompts
  imports Protocol PyText ToolGuard FileTree
begin

text \<open>
  Skills (orchestration/skills.py) and the texts given to the models (orchestration/prompt_store.py).
  A skill file is its text; the prompt directory is a dictionary from file names to texts, so that
  encodings and newline translation are left out, and a missing file is the FileNotFoundError.
\<close>

section \<open>Skill files\<close>

record skill =
  sk_name :: str
  sk_description :: str
  sk_prompt :: str

type_synonym skills = "(str, skill) dict"

datatype skill_error = Skill_error str

datatype skill_section = Description | Prompt

record skill_block =
  sb_name :: "str option"
  sb_current :: "skill_section option"
  sb_description :: "str list"
  sb_prompt :: "str list"

definition tagged :: "string \<Rightarrow> str \<Rightarrow> str option" where
  "tagged tag line =
     (let opening = 91 # u tag @ [32]; name = butlast (drop (length opening) line)
      in if startswith line opening \<and> endswith line [93] \<and> skill_word name then Some name else None)"

text \<open>\<open>_HEADER_RE\<close>: the kind of the block and its name.\<close>

definition skill_header :: "str \<Rightarrow> (string \<times> str) option" where
  "skill_header line =
     (case tagged ''SKILL'' line of
        Some name \<Rightarrow> Some (''SKILL'', name)
      | None \<Rightarrow> map_option (Pair ''TOOL'') (tagged ''TOOL'' line))"

definition read_line :: "str \<Rightarrow> str \<Rightarrow> skill_block \<Rightarrow> skill_error + skill_block" where
  "read_line header raw b =
     (let s = strip raw
      in if startswith s (u ''name:'') then
           (if sb_current b \<noteq> None then Inl (Skill_error (u ''name must precede text in skill '' @ header))
            else Inr (b\<lparr>sb_name := Some (strip (drop 5 s))\<rparr>))
         else if s = u ''description:'' then Inr (b\<lparr>sb_current := Some Description\<rparr>)
         else if s = u ''prompt:'' then Inr (b\<lparr>sb_current := Some Prompt\<rparr>)
         else case sb_current b of
           Some Description \<Rightarrow> Inr (b\<lparr>sb_description := sb_description b @ [raw]\<rparr>)
         | Some Prompt \<Rightarrow> Inr (b\<lparr>sb_prompt := sb_prompt b @ [raw]\<rparr>)
         | None \<Rightarrow>
             if s = [] then Inr b
             else Inl (Skill_error (u ''Unexpected line in skill '' @ header @ u '': '' @ py_repr raw)))"

fun read_lines :: "str \<Rightarrow> str list \<Rightarrow> skill_block \<Rightarrow> skill_error + skill_block" where
  "read_lines header [] b = Inr b"
| "read_lines header (raw # raws) b = try_bind (read_line header raw b) (read_lines header raws)"

definition parse_block :: "str \<Rightarrow> str list \<Rightarrow> skill_error + skill" where
  "parse_block header raws =
     try_bind (read_lines header raws \<lparr>sb_name = None, sb_current = None, sb_description = [], sb_prompt = []\<rparr>)
       (\<lambda>b. let description = strip (join_on 10 (sb_description b)); prompt = strip (join_on 10 (sb_prompt b));
                shown = (case sb_name b of None \<Rightarrow> u ''None'' | Some n \<Rightarrow> py_repr n)
            in guard_not (sb_name b \<noteq> Some header)
                 (Skill_error (u ''Skill header/name mismatch: header='' @ py_repr header @ u '', name='' @ shown))
               (guard_not (description = []) (Skill_error (u ''Skill '' @ shown @ u '' has empty description''))
               (guard_not (prompt = []) (Skill_error (u ''Skill '' @ shown @ u '' has empty prompt''))
                 (Inr \<lparr>sk_name = header, sk_description = description, sk_prompt = prompt\<rparr>))))"

text \<open>The lines up to the closing tag, and those after it.\<close>

fun until :: "str \<Rightarrow> str list \<Rightarrow> (str list \<times> str list) option" where
  "until closing [] = None"
| "until closing (raw # raws) =
     (if strip raw = closing then Some ([], raws)
      else map_option (\<lambda>(b, r). (raw # b, r)) (until closing raws))"

lemma until_length: "until closing raws = Some (b, r) \<Longrightarrow> length r < length raws"
  by (induction raws arbitrary: b r) (fastforce split: if_splits)+

definition closing_tag :: "string \<Rightarrow> str" where
  "closing_tag tag = u ''[/'' @ u tag @ [93]"

function parse_skills :: "str list \<Rightarrow> skills \<Rightarrow> skill_error + skills" where
  "parse_skills [] acc = Inr acc"
| "parse_skills (raw # raws) acc =
     (let line = strip raw
      in if line = [] \<or> startswith line (u ''#'') then parse_skills raws acc
         else case skill_header line of
           None \<Rightarrow> Inl (Skill_error (u ''Expected [SKILL name], got: '' @ py_repr line))
         | Some (tag, name) \<Rightarrow>
             (case until (closing_tag tag) raws of
                None \<Rightarrow> Inl (Skill_error (u ''Skill '' @ py_repr name @ u '' has no '' @ closing_tag tag))
              | Some (block, rest) \<Rightarrow>
                  (case parse_block name block of
                     Inl e \<Rightarrow> Inl e
                   | Inr sk \<Rightarrow>
                       if dget acc (sk_name sk) \<noteq> None then Inl (Skill_error (u ''Duplicate skill: '' @ sk_name sk))
                       else parse_skills rest (dput (sk_name sk) sk acc))))"
  by pat_completeness auto

termination
  by (relation "measure (\<lambda>(raws, acc). length raws)") (auto dest: until_length)

text \<open>\<open>SkillBase.reload\<close>: a file without skills empties the base and is an error.\<close>

definition reload_skills :: "str \<Rightarrow> str \<Rightarrow> skills \<Rightarrow> (skill_error + unit) \<times> skills" where
  "reload_skills file txt base =
     (case parse_skills (splitlines txt) [] of
        Inl e \<Rightarrow> (Inl e, base)
      | Inr sks \<Rightarrow> (if sks = [] then Inl (Skill_error (u ''No skills found in '' @ file)) else Inr (), sks))"

definition get_skill :: "skills \<Rightarrow> str \<Rightarrow> skill_error + skill" where
  "get_skill base name = (case dget base name of None \<Rightarrow> Inl (Skill_error (u ''Unknown skill: '' @ name)) | Some sk \<Rightarrow> Inr sk)"

fun require_skills :: "skills \<Rightarrow> str list \<Rightarrow> skill_error + skill list" where
  "require_skills base [] = Inr []"
| "require_skills base (n # ns) =
     try_bind (get_skill base n) (\<lambda>sk. try_bind (require_skills base ns) (\<lambda>sks. Inr (sk # sks)))"

definition catalog_text :: "skills \<Rightarrow> str" where
  "catalog_text base = join_on 10 (map (\<lambda>sk. sk_name sk @ [32, 0x2014, 32] @ sk_description sk) (dvals base))"

section \<open>The prompt directory\<close>

record prompt_store =
  ps_files :: "(str, str) dict"
  ps_agents :: nat

definition tools_marker :: str where
  "tools_marker = u ''**'' @ [0x421, 0x41F, 0x418, 0x421, 0x41E, 0x41A] @ u '' TOOLS:**''"

definition mqtt_marker :: str where
  "mqtt_marker = u ''**'' @ [0x421, 0x43F, 0x438, 0x441, 0x43E, 0x43A, 32, 0x442, 0x43E, 0x43F, 0x438, 0x43A, 0x43E, 0x432,
     32, 0x438, 32, 0x43F, 0x43E, 0x43B, 0x435, 0x439] @ u '' mqtt:**''"

definition manager_file :: str where "manager_file = u ''sys_prompt_manager.md''"

definition agent_file :: "nat \<Rightarrow> str" where
  "agent_file i = u ''sys_prompt_agent_'' @ show_nat i @ u ''.md''"

definition read_prompt :: "prompt_store \<Rightarrow> str \<Rightarrow> fs_exc + str" where
  "read_prompt ps name =
     (case dget (ps_files ps) name of
        None \<Rightarrow> Inl (Os_exc (u ''FileNotFoundError'') (u ''[Errno 2] No such file or directory: '' @ py_repr name))
      | Some s \<Rightarrow> Inr (strip s))"

definition require_marker :: "str \<Rightarrow> str \<Rightarrow> fs_exc + unit" where
  "require_marker txt marker =
     guard_not (count_of marker txt \<noteq> 1)
       (Value_exc (u ''Prompt marker '' @ py_repr marker @ u '' must appear exactly once, found '' @ show_nat (count_of marker txt)))
       (Inr ())"

definition insert_after_marker :: "str \<Rightarrow> str \<Rightarrow> str \<Rightarrow> fs_exc + str" where
  "insert_after_marker txt marker payload =
     try_bind (require_marker txt marker) (\<lambda>_.
       case split_at marker [] txt of (before, rest) \<Rightarrow>
         Inr (before @ marker @ (if strip payload = [] then [] else 10 # 10 # strip payload) @ rest))"

definition tool_text :: "skill list \<Rightarrow> str" where
  "tool_text tools = join_with [10, 10] (filter (\<lambda>s. s \<noteq> []) (map (\<lambda>t. strip (sk_prompt t)) tools))"

definition required_files :: "prompt_store \<Rightarrow> str list" where
  "required_files ps = [manager_file, u ''mqtt.md''] @ map agent_file [1..<Suc (ps_agents ps)]"

definition validate_prompts :: "prompt_store \<Rightarrow> fs_exc + unit" where
  "validate_prompts ps =
     (let missing = filter (\<lambda>f. dget (ps_files ps) f = None) (required_files ps)
      in guard_not (missing \<noteq> [])
           (Os_exc (u ''FileNotFoundError'') (u ''Missing prompt files: '' @ join_with (u '', '') missing))
         (try_bind (read_prompt ps manager_file) (\<lambda>txt.
            try_bind (require_marker txt tools_marker) (\<lambda>_. require_marker txt mqtt_marker))))"

definition manager_system_prompt :: "prompt_store \<Rightarrow> skill list \<Rightarrow> fs_exc + str" where
  "manager_system_prompt ps tools =
     try_bind (read_prompt ps manager_file) (\<lambda>txt.
     try_bind (insert_after_marker txt tools_marker (tool_text tools)) (\<lambda>txt1.
     try_bind (read_prompt ps (u ''mqtt.md'')) (\<lambda>mqtt.
     try_bind (insert_after_marker txt1 mqtt_marker mqtt) (\<lambda>txt2. Inr (strip txt2)))))"

text \<open>\<open>_agent_index\<close>: the digits after \<open>agent\<close>.\<close>

definition agent_index :: "str \<Rightarrow> fs_exc + nat" where
  "agent_index ident =
     (let digits = drop 5 ident
      in guard_not (\<not> startswith ident (u ''agent'') \<or> digits = [] \<or> \<not> list_all is_digit digits)
           (Value_exc (u ''Invalid agent id: '' @ py_repr ident))
           (Inr (fst (scan_digits 0 0 digits))))"

definition agent_system_prompt :: "prompt_store \<Rightarrow> str \<Rightarrow> fs_exc + str" where
  "agent_system_prompt ps ident = try_bind (agent_index ident) (\<lambda>i. read_prompt ps (agent_file i))"

definition joined_sections :: "str list \<Rightarrow> str" where
  "joined_sections sections = strip (join_with [10, 10] (filter (\<lambda>s. s \<noteq> []) sections)) @ [10]"

definition agent_bootstrap :: "prompt_store \<Rightarrow> skill list \<Rightarrow> path \<Rightarrow> fs_exc + str" where
  "agent_bootstrap ps tools workspace =
     (let front = [u ''**WORKSPACE:** '' @ show_path workspace, tools_marker, tool_text tools]
      in if u ''mqtt'' \<in> set (map sk_name tools)
         then try_bind (read_prompt ps (u ''mqtt.md'')) (\<lambda>mqtt. Inr (joined_sections (front @ [mqtt_marker, mqtt])))
         else Inr (joined_sections front))"

definition agent_system_context :: "prompt_store \<Rightarrow> str \<Rightarrow> skill list \<Rightarrow> path \<Rightarrow> fs_exc + str" where
  "agent_system_context ps ident tools workspace =
     try_bind (agent_system_prompt ps ident) (\<lambda>system.
     try_bind (agent_bootstrap ps tools workspace) (\<lambda>bootstrap.
       Inr (strip system @ 10 # 10 # strip bootstrap)))"

text \<open>\<open>json.dumps(payload, ensure_ascii=False, indent=2)\<close> of texts, and a line end.\<close>

definition dumps_lines :: "(string \<times> str) list \<Rightarrow> str" where
  "dumps_lines ps = 123 # 10 # join_with [44, 10] (map (\<lambda>(k, v). 32 # 32 # dumps_string False (u k) @ u '': '' @ dumps_string False v) ps)
     @ [10, 125, 10]"

definition agent_task :: "str \<Rightarrow> str option \<Rightarrow> str" where
  "agent_task task method =
     dumps_lines ((case method of None \<Rightarrow> [] | Some m \<Rightarrow> [(''method'', m)]) @ [(''task'', strip task)])"

definition agent_context :: "str \<Rightarrow> str" where
  "agent_context context = dumps_lines [(''context'', strip context)]"

definition put_prompt :: "str \<Rightarrow> str \<Rightarrow> prompt_store \<Rightarrow> prompt_store" where
  "put_prompt name txt ps = ps\<lparr>ps_files := dput name txt (ps_files ps)\<rparr>"

definition write_manager_prompt :: "str \<Rightarrow> prompt_store \<Rightarrow> prompt_store" where
  "write_manager_prompt txt = put_prompt (u ''prompt_manager.md'') (rstrip txt @ [10])"

definition write_agent_prompt :: "str \<Rightarrow> str \<Rightarrow> prompt_store \<Rightarrow> fs_exc + prompt_store" where
  "write_agent_prompt ident txt ps =
     try_bind (agent_index ident) (\<lambda>i.
       let name = u ''prompt_agent_'' @ show_nat i @ u ''.md''; desired = rstrip txt @ [10]
       in if dget (ps_files ps) name = Some desired then Inr ps else Inr (put_prompt name desired ps))"

definition build_agent_prompt :: "str \<Rightarrow> str \<Rightarrow> skill list \<Rightarrow> path \<Rightarrow> str option \<Rightarrow> prompt_store \<Rightarrow> (fs_exc + str) \<times> prompt_store" where
  "build_agent_prompt ident task tools workspace method ps =
     (case agent_system_context ps ident tools workspace of
        Inl e \<Rightarrow> (Inl e, ps)
      | Inr system \<Rightarrow>
          (let txt = rstrip system @ 10 # 10 # agent_task task method
           in case write_agent_prompt ident txt ps of Inl e \<Rightarrow> (Inl e, ps) | Inr ps' \<Rightarrow> (Inr txt, ps')))"

section \<open>Lemmas\<close>

definition skill_ok_record :: "str \<times> skill \<Rightarrow> bool" where
  "skill_ok_record = (\<lambda>(name, sk). name = sk_name sk \<and> skill_word name \<and> sk_description sk \<noteq> [] \<and> sk_prompt sk \<noteq> []
     \<and> strip (sk_description sk) = sk_description sk \<and> strip (sk_prompt sk) = sk_prompt sk)"

definition skills_ok :: "skills \<Rightarrow> bool" where
  "skills_ok sks \<longleftrightarrow> dwf sks \<and> list_all skill_ok_record sks"

lemma tagged_word: "tagged t line = Some name \<Longrightarrow> skill_word name"
  by (auto simp: tagged_def Let_def split: if_splits)

lemma skill_header_word: "skill_header line = Some (tag, name) \<Longrightarrow> skill_word name"
  by (auto simp: skill_header_def dest: tagged_word split: option.splits)

lemma parse_block_ok:
  "parse_block header raws = Inr sk \<Longrightarrow> skill_word header \<Longrightarrow> skill_ok_record (sk_name sk, sk) \<and> sk_name sk = header"
  by (auto simp: parse_block_def skill_ok_record_def Let_def)

lemma parse_skills_ok: "parse_skills raws acc = Inr sks \<Longrightarrow> skills_ok acc \<Longrightarrow> skills_ok sks"
proof (induction raws acc rule: parse_skills.induct)
  case (2 raw raws acc)
  show ?case
  proof (cases "strip raw = [] \<or> startswith (strip raw) (u ''#'')")
    case True
    then show ?thesis using 2 by auto
  next
    case False
    then obtain tag name block rest sk where p: "skill_header (strip raw) = Some (tag, name)"
      "until (closing_tag tag) raws = Some (block, rest)" "parse_block name block = Inr sk"
      "dget acc (sk_name sk) = None" "parse_skills rest (dput (sk_name sk) sk acc) = Inr sks"
      using 2(3) by (auto simp: Let_def split: option.splits sum.splits if_splits)
    have "skill_ok_record (sk_name sk, sk)" using parse_block_ok [OF p(3)] skill_header_word [OF p(1)] by blast
    then have "skills_ok (dput (sk_name sk) sk acc)"
      using 2(4) p(4) set_dput_subset [of "sk_name sk" sk acc] by (auto simp: skills_ok_def list_all_iff)
    then show ?thesis using 2(2) [OF refl _ p(1) refl p(2) refl p(3)] False p(4,5) by simp
  qed
qed simp

lemma require_skills_all:
  "require_skills base ns = Inr sks \<longleftrightarrow> list_all2 (\<lambda>n sk. dget base n = Some sk) ns sks"
proof (induction ns arbitrary: sks)
  case (Cons n ns)
  then show ?case
    by (cases sks) (auto simp: get_skill_def split: option.splits)
qed auto

lemma count_pos_occurs: "count_of m s \<noteq> 0 \<Longrightarrow> \<exists>k < length s. startswith (drop k s) m"
proof (induction m s rule: count_of.induct)
  case (1 m s)
  have ne: "s \<noteq> [] \<and> m \<noteq> []"
    using 1(3) by (metis count_of.simps)
  then obtain c cs where s: "s = c # cs" "m \<noteq> []" by (cases s) auto
  show ?case
  proof (cases "startswith s m")
    case True
    then show ?thesis using s by (intro exI [of _ 0]) auto
  next
    case False
    then have "count_of m (tl s) \<noteq> 0" using 1(3) s by (simp add: count_of.simps [of m "c # cs"])
    then obtain k where "k < length cs" "startswith (drop k cs) m" using 1(2) s False by auto
    then show ?thesis using s by (intro exI [of _ "Suc k"]) auto
  qed
qed

text \<open>What is inserted stands directly after the marker; nothing of the template is lost.\<close>

lemma insert_after_marker_text:
  assumes "insert_after_marker txt marker payload = Inr r"
  shows "\<exists>a b. txt = a @ marker @ b
    \<and> r = a @ marker @ (if strip payload = [] then [] else 10 # 10 # strip payload) @ b"
proof -
  obtain a b where s: "split_at marker [] txt = (a, b)" by fastforce
  have c: "count_of marker txt = 1" using assms by (auto simp: insert_after_marker_def require_marker_def)
  then obtain k where "k < length txt" "startswith (drop k txt) marker" using count_pos_occurs [of marker "txt"] by auto
  then have "txt = a @ marker @ b" using split_at_append [of k "txt" marker "[]"] s by auto
  then show ?thesis using assms s
    by (intro exI [of _ a] exI [of _ b]) (auto simp: insert_after_marker_def)
qed

text \<open>A text occurs in another.\<close>

definition occurs :: "str \<Rightarrow> str \<Rightarrow> bool" where
  "occurs p s \<longleftrightarrow> (\<exists>a b. s = a @ p @ b)"

definition trimmed :: "str \<Rightarrow> bool" where
  "trimmed p \<longleftrightarrow> p \<noteq> [] \<and> \<not> is_space (hd p) \<and> \<not> is_space (last p)"

lemma trimmed_strip: "strip p = p \<Longrightarrow> p \<noteq> [] \<Longrightarrow> trimmed p"
  using strip_edges [of p] by (simp add: trimmed_def)

lemma occurs_self [simp]: "occurs p p"
  unfolding occurs_def by (metis append_Nil append_Nil2)

lemma occurs_append [intro]: "occurs p s \<Longrightarrow> occurs p (s @ t)" "occurs p t \<Longrightarrow> occurs p (s @ t)"
  unfolding occurs_def by (metis append_assoc)+

lemma occurs_Cons [intro]: "occurs p s \<Longrightarrow> occurs p (c # s)"
  unfolding occurs_def by (metis append_Cons)

lemma occurs_trans: "occurs p s \<Longrightarrow> occurs s t \<Longrightarrow> occurs p t"
  unfolding occurs_def by (metis append_assoc)

lemma lstrip_keeps: "p \<noteq> [] \<Longrightarrow> \<not> is_space (hd p) \<Longrightarrow> lstrip (a @ p @ b) = lstrip a @ p @ b"
  unfolding lstrip_def by (induction a) (auto simp: neq_Nil_conv)

lemma occurs_strip: "trimmed p \<Longrightarrow> occurs p s \<Longrightarrow> occurs p (strip s)"
proof -
  assume p: "trimmed p" and "occurs p s"
  then obtain a b where s: "s = a @ p @ b" by (auto simp: occurs_def)
  have "lstrip s = lstrip a @ p @ b" using p by (simp add: s trimmed_def lstrip_keeps)
  moreover have "lstrip (rev b @ rev p @ rev (lstrip a)) = lstrip (rev b) @ rev p @ rev (lstrip a)"
    using p by (intro lstrip_keeps) (auto simp: trimmed_def hd_rev)
  ultimately have "strip s = lstrip a @ p @ rev (lstrip (rev b))" by (simp add: strip_def)
  then show ?thesis by (auto simp: occurs_def)
qed

lemma occurs_join: "s \<in> set ss \<Longrightarrow> occurs s (join_with sep ss)"
  by (induction sep ss rule: join_with.induct) auto

lemma tool_text_has: "sk \<in> set tools \<Longrightarrow> skill_ok_record (n, sk) \<Longrightarrow> occurs (sk_prompt sk) (tool_text tools)"
  unfolding tool_text_def by (rule occurs_join) (auto simp: skill_ok_record_def intro!: image_eqI [of _ _ sk])

lemma tool_text_ne: "sk \<in> set tools \<Longrightarrow> skill_ok_record (n, sk) \<Longrightarrow> tool_text tools \<noteq> []"
  using tool_text_has [of sk tools n] by (auto simp: occurs_def skill_ok_record_def)

lemma bootstrap_has:
  assumes "agent_bootstrap ps tools workspace = Inr b" "sk \<in> set tools" "skill_ok_record (n, sk)"
  shows "occurs (sk_prompt sk) (strip b)"
proof -
  have t: "trimmed (sk_prompt sk)" using assms(3) by (auto simp: skill_ok_record_def intro: trimmed_strip)
  have "\<exists>ss. tool_text tools \<in> set ss \<and> b = joined_sections ss"
    using assms(1) by (auto simp: agent_bootstrap_def Let_def split: if_splits)
      (rule exI, rule conjI [rotated], rule refl, simp)+
  then obtain ss where ss: "tool_text tools \<in> set ss" "b = joined_sections ss" by blast
  have "occurs (tool_text tools) (join_with [10, 10] (filter (\<lambda>s. s \<noteq> []) ss))"
    using ss(1) tool_text_ne [OF assms(2,3)] by (intro occurs_join) simp
  then have "occurs (sk_prompt sk) (strip (join_with [10, 10] (filter (\<lambda>s. s \<noteq> []) ss)))"
    using occurs_trans [OF tool_text_has [OF assms(2,3)]] t by (blast intro: occurs_strip)
  then show ?thesis unfolding ss(2) joined_sections_def using t by (blast intro: occurs_strip)
qed

lemma required_ok:
  assumes "skills_ok base" "require_skills base ns = Inr tools"
  shows "map sk_name tools = ns" and "\<forall>sk \<in> set tools. skill_ok_record (sk_name sk, sk)"
proof -
  have "skill_ok_record (n, sk)" if "dget base n = Some sk" for n sk
    using dget_Some_in [OF that] assms(1) by (auto simp: skills_ok_def list_all_iff)
  then have "list_all2 (\<lambda>n sk. skill_ok_record (n, sk)) ns tools"
    using assms(2) by (auto simp: require_skills_all elim!: list.rel_mono_strong)
  then show "map sk_name tools = ns" "\<forall>sk \<in> set tools. skill_ok_record (sk_name sk, sk)"
    by (induction rule: list_all2_induct) (auto simp: skill_ok_record_def)
qed

section \<open>Properties\<close>

definition sample_skill_text :: str where
  "sample_skill_text = join_on 10 (map u [''# base'', ''[SKILL shell]'', ''name: shell'', ''description:'', ''Bash'', ''prompt:'', ''Run it'', ''[/SKILL]''])"

definition sample_skills :: skills where
  "sample_skills = [(u ''shell'', \<lparr>sk_name = u ''shell'', sk_description = u ''Bash'', sk_prompt = u ''Run it''\<rparr>)]"

definition sample_prompts :: prompt_store where
  "sample_prompts = \<lparr>ps_files = [(agent_file 1, u ''You act'')], ps_agents = 1\<rparr>"

lemma sample_skill_lines: "splitlines sample_skill_text
    = map u [''# base'', ''[SKILL shell]'', ''name: shell'', ''description:'', ''Bash'', ''prompt:'', ''Run it'', ''[/SKILL]'']"
  by (simp add: sample_skill_text_def splitlines_def is_line_break_def text_eval)

lemma sample_skill_header: "skill_header (u ''[SKILL shell]'') = Some (''SKILL'', u ''shell'')"
  by (simp add: skill_header_def tagged_def skill_word_def skill_char_def text_eval)

lemma sample_skill_block: "parse_block (u ''shell'') (map u [''name: shell'', ''description:'', ''Bash'', ''prompt:'', ''Run it''])
    = Inr \<lparr>sk_name = u ''shell'', sk_description = u ''Bash'', sk_prompt = u ''Run it''\<rparr>"
  by (simp add: parse_block_def read_line_def text_eval)

lemma sample_skill_until: "until (closing_tag ''SKILL'') (map u [''name: shell'', ''description:'', ''Bash'', ''prompt:'', ''Run it'', ''[/SKILL]''])
    = Some (map u [''name: shell'', ''description:'', ''Bash'', ''prompt:'', ''Run it''], [])"
  by (simp add: closing_tag_def text_eval)

lemma sample_skill_strip: "strip (u ''[SKILL shell]'') = u ''[SKILL shell]''" "strip (u ''# base'') = u ''# base''"
  "\<not> startswith (u ''[SKILL shell]'') (u ''#'')" "startswith (u ''# base'') (u ''#'')"
  by (simp_all add: text_eval)

lemma sample_skills_parsed: "parse_skills (splitlines sample_skill_text) [] = Inr sample_skills"
  using sample_skill_block sample_skill_until
  by (simp add: sample_skill_lines sample_skill_strip sample_skill_header sample_skills_def)

text \<open>The prompt of every skill given to an agent stands in its system context, whole: a loaded skill file has
  only skills with a valid, unique name and a non-empty prompt, the skills required are exactly the named ones in
  their order, and composing and stripping the context cuts nothing of them off.\<close>

theorem skills_reach_the_agent:
  assumes "reload_skills f skill_text base = (Inr (), sks)" "require_skills sks ns = Inr tools"
    "agent_system_context ps ident tools workspace = Inr ctx"
  shows "skills_ok sks \<and> map sk_name tools = ns
    \<and> (\<forall>sk \<in> set tools. sk_prompt sk \<noteq> [] \<and> occurs (sk_prompt sk) ctx)"
proof -
  have ok: "skills_ok sks"
    using assms(1) parse_skills_ok [of "splitlines skill_text" "[]" sks]
    by (auto simp: reload_skills_def skills_ok_def split: sum.splits if_splits)
  obtain system b where b: "agent_bootstrap ps tools workspace = Inr b" "ctx = strip system @ 10 # 10 # strip b"
    using assms(3) by (auto simp: agent_system_context_def)
  have "occurs (sk_prompt sk) ctx" if "sk \<in> set tools" for sk
    unfolding b(2) using bootstrap_has [OF b(1) that] required_ok(2) [OF ok assms(2)] that by blast
  then show ?thesis using ok required_ok [OF ok assms(2)] by (auto simp: skill_ok_record_def)
qed

lemma skills_reach_the_agent_witness:
  "skills_ok sample_skills \<and> map sk_name (dvals sample_skills) = [u ''shell'']
    \<and> (\<forall>sk \<in> set (dvals sample_skills). sk_prompt sk \<noteq> [] \<and> occurs (sk_prompt sk)
         (case agent_system_context sample_prompts (u ''agent1'') (dvals sample_skills) [u ''w''] of Inr c \<Rightarrow> c | Inl _ \<Rightarrow> []))"
proof (rule skills_reach_the_agent)
  show "reload_skills (u ''f'') sample_skill_text [] = (Inr (), sample_skills)"
    by (simp add: reload_skills_def sample_skills_parsed) (simp add: sample_skills_def)
  show "require_skills sample_skills [u ''shell''] = Inr (dvals sample_skills)"
    by (simp add: get_skill_def sample_skills_def)
  have "agent_index (u ''agent1'') = Inr 1" by (simp add: agent_index_def text_eval)
  moreover have "read_prompt sample_prompts (agent_file 1) = Inr (strip (u ''You act''))"
    by (simp add: read_prompt_def sample_prompts_def)
  moreover have "agent_bootstrap sample_prompts (dvals sample_skills) [u ''w'']
    = Inr (joined_sections [u ''**WORKSPACE:** '' @ show_path [u ''w''], tools_marker, tool_text (dvals sample_skills)])"
    by (simp add: agent_bootstrap_def sample_skills_def)
  ultimately show "agent_system_context sample_prompts (u ''agent1'') (dvals sample_skills) [u ''w'']
    = Inr (case agent_system_context sample_prompts (u ''agent1'') (dvals sample_skills) [u ''w''] of Inr c \<Rightarrow> c | Inl _ \<Rightarrow> [])"
    by (simp add: agent_system_context_def agent_system_prompt_def)
qed

end
