(* ===== verification/AgentLoop.thy ===== *)
theory AgentLoop
  imports Scripts Prompts Scheduler
begin

text \<open>
  One agent (orchestration/agent.py): a worker takes a task, asks the model, runs the command of its
  answer and gives it the result, until the answer is a result, the agent needs something, or the
  steps are used up. What the model answers, whether the client can be reset, the MCP session and
  everything the tools depend on are the environment of the single step; the file system and the
  prompt directory are the world the workers share.
\<close>

section \<open>Messages and outcomes\<close>

datatype role = System | User | Assistant

record message =
  ms_role :: role
  ms_content :: content

definition says :: "role \<Rightarrow> str \<Rightarrow> message" where
  "says r txt = \<lparr>ms_role = r, ms_content = Words txt\<rparr>"

datatype chat_end = Answer str | Model_error str | Chat_raises str

record step_env = frag_env +
  se_chat :: "message list \<Rightarrow> chat_end"
  se_reset :: "message list \<Rightarrow> bool"
  se_mcp :: "fs mcp_env"
  se_json :: "str \<Rightarrow> str + json"

datatype outcome_status = Ok | Failed | Need

record agent_outcome =
  ao_agent :: str
  ao_status :: outcome_status
  ao_text :: str
  ao_steps :: int

text \<open>An exception that leaves an operation, with its text.\<close>

datatype agent_exc = Runtime_exc str | Value_error str | Other_exc str

definition exc_message :: "agent_exc \<Rightarrow> str" where
  "exc_message e = (case e of Runtime_exc s \<Rightarrow> s | Value_error s \<Rightarrow> s | Other_exc s \<Rightarrow> s)"

definition of_fs :: "fs_exc \<Rightarrow> agent_exc" where
  "of_fs e = (case e of Value_exc s \<Rightarrow> Value_error s | Loop_exc s \<Rightarrow> Runtime_exc s | Os_exc _ s \<Rightarrow> Other_exc s)"

section \<open>The worker\<close>

datatype pending = In_partly partly_run | In_script script_run

record worker =
  aw_id :: str
  aw_workspace :: path
  aw_max_steps :: int
  aw_max_bytes :: int
  aw_timeout :: int
  aw_state :: agent_state
  aw_messages :: "message list option"
  aw_bootstrap :: "str option"
  aw_runtime :: "cmd_runtime option"
  aw_skills :: "skill list"
  aw_method :: "str option"
  aw_steps :: int
  aw_repeated :: "(str \<times> int \<times> str \<times> str, nat) dict"
  aw_deferred :: "(str \<times> str) option"
  aw_task :: "str option"
  aw_pending :: "pending option"

definition new_worker :: "str \<Rightarrow> path \<Rightarrow> int \<Rightarrow> int \<Rightarrow> int \<Rightarrow> worker" where
  "new_worker ident workspace max_steps max_bytes timeout = \<lparr>aw_id = ident, aw_workspace = workspace,
     aw_max_steps = max_steps, aw_max_bytes = max_bytes, aw_timeout = timeout, aw_state = Free, aw_messages = None,
     aw_bootstrap = None, aw_runtime = None, aw_skills = [], aw_method = None, aw_steps = 0, aw_repeated = [],
     aw_deferred = None, aw_task = None, aw_pending = None\<rparr>"

record world =
  wo_fs :: fs
  wo_prompts :: prompt_store

definition put_fs :: "fs \<Rightarrow> world \<Rightarrow> world" where
  "put_fs fs wo = wo\<lparr>wo_fs := fs\<rparr>"

type_synonym agent_session = "worker \<times> world"

definition state_name :: "agent_state \<Rightarrow> str" where
  "state_name st = (case st of Free \<Rightarrow> u ''FREE'' | Running \<Rightarrow> u ''RUNNING'' | Waiting \<Rightarrow> u ''WAITING'')"

section \<open>Release\<close>

definition cleared :: "worker \<Rightarrow> worker" where
  "cleared w = w\<lparr>aw_state := Free, aw_runtime := None, aw_skills := [], aw_method := None, aw_steps := 0,
     aw_repeated := [], aw_deferred := None, aw_task := None, aw_pending := None\<rparr>"

text \<open>
  \<open>_release\<close>: only the first message of the dialogue is kept, and nothing when the client cannot be
  reset to it. A step that is running clears its own iterator when it returns.
\<close>

definition release :: "('a) step_env_scheme \<Rightarrow> bool \<Rightarrow> worker \<Rightarrow> worker" where
  "release env preserve w =
     (case (preserve, aw_messages w) of
        (True, Some ms) \<Rightarrow>
          if se_reset env (take 1 ms) then cleared (w\<lparr>aw_messages := Some (take 1 ms)\<rparr>)
          else cleared (w\<lparr>aw_messages := None, aw_bootstrap := None\<rparr>)
      | _ \<Rightarrow> cleared (w\<lparr>aw_messages := None, aw_bootstrap := None\<rparr>))"

text \<open>Closing the suspended generator of a step runs the clean-up of its tool.\<close>

definition close_pending :: "agent_session \<Rightarrow> agent_session" where
  "close_pending = (\<lambda>(w, wo).
     (w\<lparr>aw_pending := None\<rparr>,
      (case aw_pending w of Some (In_script r) \<Rightarrow> put_fs (cyclic_close (sc_cyclic r) (wo_fs wo)) wo | _ \<Rightarrow> wo)))"

definition sleep_to_base :: "('a) step_env_scheme \<Rightarrow> agent_session \<Rightarrow> agent_session" where
  "sleep_to_base env s = (case close_pending s of (w, wo) \<Rightarrow> (release env True w, wo))"

section \<open>Starting\<close>

definition method_ok :: "str option \<Rightarrow> bool" where
  "method_ok m \<longleftrightarrow> m = None \<or> m = Some (u ''task'') \<or> m = Some (u ''query'')"

definition begin_dialogue :: "str \<Rightarrow> str \<Rightarrow> worker \<Rightarrow> worker" where
  "begin_dialogue system prompt w =
     (case aw_messages w of
        Some ms \<Rightarrow>
          if aw_bootstrap w = Some system then w\<lparr>aw_messages := Some (ms @ [says User prompt])\<rparr>
          else w\<lparr>aw_messages := Some [says System system, says User prompt], aw_bootstrap := Some system\<rparr>
      | None \<Rightarrow> w\<lparr>aw_messages := Some [says System system, says User prompt], aw_bootstrap := Some system\<rparr>)"

definition begin_task :: "str \<Rightarrow> skill list \<Rightarrow> str option \<Rightarrow> agent_session \<Rightarrow> (agent_exc + unit) \<times> agent_session" where
  "begin_task task skills method = (\<lambda>(w, wo).
     if aw_state w \<noteq> Free then (Inl (Runtime_exc (aw_id w @ u '' is AgentState.'' @ state_name (aw_state w))), (w, wo))
     else if \<not> method_ok method
     then (Inl (Value_error (u ''invalid task method: '' @ py_repr (the method))), (w, wo))
     else
       (let w1 = w\<lparr>aw_skills := skills, aw_method := method, aw_task := Some (strip task), aw_deferred := None\<rparr>
        in case new_cmd_runtime (aw_workspace w) (map sk_name skills) (aw_max_bytes w) (aw_timeout w) (wo_fs wo) of
             (Inl e, fs) \<Rightarrow> (Inl (of_fs e), (w1, put_fs fs wo))
           | (Inr rt, fs) \<Rightarrow>
               (let w2 = w1\<lparr>aw_runtime := Some rt\<rparr>; wo2 = put_fs fs wo
                in case agent_system_context (wo_prompts wo) (aw_id w) skills (cr_cwd rt) of
                     Inl e \<Rightarrow> (Inl (of_fs e), (w2, wo2))
                   | Inr system \<Rightarrow>
                       (let prompt = agent_task task method
                        in case write_agent_prompt (aw_id w) (rstrip system @ 10 # 10 # prompt) (wo_prompts wo) of
                             Inl e \<Rightarrow> (Inl (of_fs e), (w2, wo2))
                           | Inr ps \<Rightarrow>
                               (Inr (), ((begin_dialogue system prompt w2)\<lparr>aw_steps := 0, aw_repeated := [], aw_state := Running\<rparr>,
                                         wo2\<lparr>wo_prompts := ps\<rparr>))))))"

definition begin_with_tool_result ::
  "str \<Rightarrow> skill list \<Rightarrow> str \<Rightarrow> str \<Rightarrow> str option \<Rightarrow> agent_session \<Rightarrow> (agent_exc + unit) \<times> agent_session" where
  "begin_with_tool_result task skills command result method s =
     (if strip command = [] then (Inl (Value_error (u ''deferred command must be non-empty'')), s)
      else if strip result = [] then (Inl (Value_error (u ''deferred result must be non-empty'')), s)
      else then_do (begin_task task skills method s) (\<lambda>_ (w, wo).
        (Inr (), (w\<lparr>aw_deferred := Some (strip command, strip result)\<rparr>, wo))))"

section \<open>Reading an answer\<close>

definition agent_error_text :: "int \<Rightarrow> agent_error \<Rightarrow> str" where
  "agent_error_text max_chars e = (case e of
       Ae_empty \<Rightarrow> u ''empty response''
     | Ae_too_long \<Rightarrow> u ''response is longer than '' @ show_int max_chars @ u '' characters''
     | Ae_fence \<Rightarrow> u ''Markdown code fences are not accepted''
     | Ae_json msg \<Rightarrow> u ''invalid JSON response: '' @ msg
     | Ae_not_object \<Rightarrow> u ''JSON response must be an object''
     | Ae_result_type \<Rightarrow> u ''JSON field \"result\" must be a string''
     | Ae_done_value \<Rightarrow> u ''JSON completion must be {\"done\": true}''
     | Ae_need_value \<Rightarrow> u ''JSON field \"need\" must be a non-empty string''
     | Ae_keys \<Rightarrow> u ''JSON response must be exactly one of: {\"result\":\"...\"}, {\"done\":true}, or {\"need\":\"...\"}''
     | Ae_one_line \<Rightarrow> u ''previous response was rejected completely and no command was executed; reply with exactly one Linux command on one line or one JSON result object'')"

definition response_limit :: int where "response_limit = 8192"

text \<open>A command must come with its prefix.\<close>

definition read_answer :: "(str \<Rightarrow> str + json) \<Rightarrow> str \<Rightarrow> str + agent_directive" where
  "read_answer loads content =
     (case unwrap_work_command (strip content) of
        Inl txt \<Rightarrow> Inl txt
      | Inr (Some c) \<Rightarrow> Inr (Agent_command c)
      | Inr None \<Rightarrow>
          (case parse_agent loads response_limit content of
             Inl e \<Rightarrow> Inl (agent_error_text response_limit e)
           | Inr (Agent_command _) \<Rightarrow> Inl (u ''tool command must start with /work#'')
           | Inr d \<Rightarrow> Inr d))"

text \<open>What the method of the task says about a completion.\<close>

definition completion_error :: "str option \<Rightarrow> str \<Rightarrow> str option" where
  "completion_error method body =
     (if method = Some (u ''task'') \<and> body \<noteq> [] then Some (u ''task completion must be {\"done\":true}'')
      else if method = None \<and> body = []
      then Some (u ''ordinary task completion requires a non-empty string in {\"result\":\"...\"}'')
      else None)"

section \<open>Ending a step\<close>

type_synonym step_end = "(agent_exc + agent_outcome option) \<times> agent_session"

definition outcome :: "worker \<Rightarrow> outcome_status \<Rightarrow> str \<Rightarrow> agent_outcome" where
  "outcome w status txt = \<lparr>ao_agent = aw_id w, ao_status = status, ao_text = txt, ao_steps = aw_steps w\<rparr>"

definition finish :: "('a) step_env_scheme \<Rightarrow> bool \<Rightarrow> outcome_status \<Rightarrow> str \<Rightarrow> agent_session \<Rightarrow> step_end" where
  "finish env preserve status txt = (\<lambda>(w, wo). (Inr (Some (outcome w status txt)), (release env preserve w, wo)))"

definition continue_or_limit :: "('a) step_env_scheme \<Rightarrow> agent_session \<Rightarrow> step_end" where
  "continue_or_limit env = (\<lambda>(w, wo).
     if aw_steps w < aw_max_steps w then (Inr None, (w, wo))
     else finish env False Failed (u ''agent exceeded maximum of '' @ show_int (aw_max_steps w) @ u '' model steps'') (w, wo))"

definition add_message :: "message \<Rightarrow> worker \<Rightarrow> worker" where
  "add_message m w = w\<lparr>aw_messages := map_option (\<lambda>ms. ms @ [m]) (aw_messages w)\<rparr>"

text \<open>A message to the model, and the next step if there is one left.\<close>

definition tell :: "('a) step_env_scheme \<Rightarrow> content \<Rightarrow> agent_session \<Rightarrow> step_end" where
  "tell env c = (\<lambda>(w, wo). continue_or_limit env (add_message \<lparr>ms_role = User, ms_content = c\<rparr> w, wo))"

definition of_raised :: "raised \<Rightarrow> agent_exc" where
  "of_raised e = (case e of Common s \<Rightarrow> Runtime_exc s | Uncommon s \<Rightarrow> Other_exc s)"

section \<open>Tools\<close>

definition partly_end :: "('a) step_env_scheme \<Rightarrow> (raised + str, partly_run) tool_progress \<Rightarrow> agent_session \<Rightarrow> step_end" where
  "partly_end env p = (\<lambda>(w, wo). case p of
       Over (Inl e) \<Rightarrow> (Inl (of_raised e), (w\<lparr>aw_pending := None\<rparr>, wo))
     | Over (Inr txt) \<Rightarrow> tell env (Words txt) (w\<lparr>aw_pending := None\<rparr>, wo)
     | Yielded r \<Rightarrow> (Inr None, (w\<lparr>aw_pending := Some (In_partly r)\<rparr>, wo)))"

definition script_done :: "('a) step_env_scheme \<Rightarrow> (raised + script_end, script_run) tool_progress \<Rightarrow> agent_session \<Rightarrow> step_end" where
  "script_done env p = (\<lambda>(w, wo). case p of
       Over (Inl e) \<Rightarrow> (Inl (of_raised e), (w\<lparr>aw_pending := None\<rparr>, wo))
     | Over (Inr Silent) \<Rightarrow> finish env True Ok [] (w\<lparr>aw_pending := None\<rparr>, wo)
     | Over (Inr (Said c)) \<Rightarrow> tell env c (w\<lparr>aw_pending := None\<rparr>, wo)
     | Yielded r \<Rightarrow> (Inr None, (w\<lparr>aw_pending := Some (In_script r)\<rparr>, wo)))"

definition at_state :: "cmd_state \<Rightarrow> agent_session \<Rightarrow> agent_session" where
  "at_state cs = (\<lambda>(w, wo). (w\<lparr>aw_runtime := Some (fst cs)\<rparr>, put_fs (snd cs) wo))"

definition count_result :: "str \<Rightarrow> command_result \<Rightarrow> worker \<Rightarrow> nat \<times> worker" where
  "count_result command r w =
     (let key = (command, re_exit r, re_stdout r, re_stderr r);
          n = Suc (case dget (aw_repeated w) key of None \<Rightarrow> 0 | Some n \<Rightarrow> n)
      in (n, w\<lparr>aw_repeated := dput key n (aw_repeated w)\<rparr>))"

definition repeated_text :: str where
  "repeated_text = u ''same command with the same result repeated more than twice''"

definition carry_out :: "('a) step_env_scheme \<Rightarrow> str \<Rightarrow> cmd_state \<Rightarrow> agent_session \<Rightarrow> step_end" where
  "carry_out env command cs s =
     (case work_execute env command cs of
        (Inl e, cs') \<Rightarrow> (Inl (of_fs e), at_state cs' s)
      | (Inr r, cs') \<Rightarrow>
          (case at_state cs' s of (w, wo) \<Rightarrow>
             (case count_result command r w of (n, w') \<Rightarrow>
                if n > 2 then finish env False Failed repeated_text (w', wo)
                else tell env (Words (work_format_result (fst cs') r)) (w', wo))))"

text \<open>The tools in the order in which they are asked whether the command is theirs.\<close>

definition run_tool :: "('a) step_env_scheme \<Rightarrow> str \<Rightarrow> cmd_runtime \<Rightarrow> agent_session \<Rightarrow> step_end" where
  "run_tool env command rt = (\<lambda>(w, wo).
     let cs = (rt, wo_fs wo); task = (case aw_task w of None \<Rightarrow> [] | Some t \<Rightarrow> t)
     in case dispatch_mcp (se_mcp env) command cs of
          (Some txt, cs') \<Rightarrow> tell env (Words txt) (at_state cs' (w, wo))
        | (None, _) \<Rightarrow>
            (case read_picture env command rt (wo_fs wo) True None of
               Some c \<Rightarrow> tell env c (w, wo)
             | None \<Rightarrow>
                 (case read_partly env command True task rt (wo_fs wo) of
                    Some p \<Rightarrow> partly_end env p (w, wo)
                  | None \<Rightarrow>
                      (case skill_script env command task cs of
                         Some (p, cs') \<Rightarrow> script_done env p (at_state cs' (w, wo))
                       | None \<Rightarrow> carry_out env command cs (w, wo)))))"

definition run_directive :: "('a) step_env_scheme \<Rightarrow> agent_directive \<Rightarrow> cmd_runtime \<Rightarrow> agent_session \<Rightarrow> step_end" where
  "run_directive env d rt = (\<lambda>(w, wo). case d of
       Agent_done body \<Rightarrow>
         (case completion_error (aw_method w) body of
            Some txt \<Rightarrow> tell env (Words (format_protocol_error rt txt)) (w, wo)
          | None \<Rightarrow> finish env True Ok (if aw_method w = Some (u ''task'') then [] else body) (w, wo))
     | Agent_need body \<Rightarrow> (Inr (Some (outcome w Need body)), (w\<lparr>aw_state := Waiting\<rparr>, wo))
     | Agent_command command \<Rightarrow>
         (case aw_deferred w of
            None \<Rightarrow> run_tool env command rt (w, wo)
          | Some (expected, result) \<Rightarrow>
              if command \<noteq> expected
              then finish env False Failed (u ''deferred MQTT command changed: expected '' @ py_repr expected
                     @ u '', got '' @ py_repr command) (w, wo)
              else tell env (Words result) (w\<lparr>aw_deferred := None\<rparr>, wo)))"

section \<open>Steps\<close>

definition fresh_user_tick :: "worker \<Rightarrow> bool" where
  "fresh_user_tick w \<longleftrightarrow> (case aw_messages w of Some ms \<Rightarrow> ms \<noteq> [] \<and> ms_role (last ms) = User | None \<Rightarrow> False)"

definition model_step :: "('a) step_env_scheme \<Rightarrow> agent_session \<Rightarrow> step_end" where
  "model_step env = (\<lambda>(w, wo).
     if aw_state w \<noteq> Running then (Inl (Runtime_exc (aw_id w @ u '' is not RUNNING'')), (w, wo))
     else if \<not> fresh_user_tick w
     then (Inl (Runtime_exc (u ''TT violation: '' @ aw_id w @ u '' model call requires a fresh user tick'')), (w, wo))
     else case (aw_messages w, aw_runtime w) of
       (Some ms, Some rt) \<Rightarrow>
         (let w1 = w\<lparr>aw_steps := aw_steps w + 1\<rparr>
          in case se_chat env ms of
               Model_error txt \<Rightarrow> finish env False Failed txt (w1, wo)
             | Chat_raises txt \<Rightarrow> (Inl (Other_exc txt), (w1, wo))
             | Answer content \<Rightarrow>
                 (let w2 = add_message (says Assistant content) w1
                  in case read_answer (se_json env) content of
                       Inl txt \<Rightarrow> tell env (Words (format_protocol_error rt txt)) (w2, wo)
                     | Inr d \<Rightarrow> run_directive env d rt (w2, wo)))
     | _ \<Rightarrow> (Inl (Other_exc []), (w, wo)))"

text \<open>\<open>step\<close>: a new model step, or the suspended tool of the last one goes on.\<close>

definition agent_step :: "('a) step_env_scheme \<Rightarrow> agent_session \<Rightarrow> step_end" where
  "agent_step env = (\<lambda>(w, wo).
     case (aw_pending w, aw_runtime w) of
       (None, _) \<Rightarrow> model_step env (w, wo)
     | (Some (In_partly r), _) \<Rightarrow> partly_end env (partly_next env r) (w, wo)
     | (Some (In_script r), Some rt) \<Rightarrow>
         (case script_resume env r (rt, wo_fs wo) of (p, cs) \<Rightarrow> script_done env p (at_state cs (w, wo)))
     | (Some (In_script r), None) \<Rightarrow> (Inl (Other_exc []), (w\<lparr>aw_pending := None\<rparr>, wo)))"

text \<open>\<open>_drive\<close>, with the environment of each step; \<open>None\<close> while more steps are needed.\<close>

fun drive_agent :: "('a) step_env_scheme list \<Rightarrow> agent_session \<Rightarrow> (agent_exc + agent_outcome) option \<times> agent_session" where
  "drive_agent [] s = (None, s)"
| "drive_agent (env # envs) s =
     (case agent_step env s of
        (Inl e, s') \<Rightarrow> (Some (Inl e), s')
      | (Inr (Some out), s') \<Rightarrow> (Some (Inr out), s')
      | (Inr None, s') \<Rightarrow> drive_agent envs s')"

definition start_agent ::
  "('a) step_env_scheme list \<Rightarrow> str \<Rightarrow> skill list \<Rightarrow> str option \<Rightarrow> agent_session \<Rightarrow> (agent_exc + agent_outcome) option \<times> agent_session" where
  "start_agent envs task skills method s =
     (case begin_task task skills method s of
        (Inl e, s') \<Rightarrow> (Some (Inl e), s')
      | (Inr _, s') \<Rightarrow> drive_agent envs s')"

definition resume_agent :: "str \<Rightarrow> agent_session \<Rightarrow> (agent_exc + unit) \<times> agent_session" where
  "resume_agent context = (\<lambda>(w, wo).
     if aw_state w \<noteq> Waiting \<or> aw_messages w = None
     then (Inl (Runtime_exc (aw_id w @ u '' is not waiting for context'')), (w, wo))
     else (Inr (), ((add_message (says User (agent_context context)) w)\<lparr>aw_state := Running\<rparr>, wo)))"

definition continue_agent ::
  "('a) step_env_scheme list \<Rightarrow> str \<Rightarrow> agent_session \<Rightarrow> (agent_exc + agent_outcome) option \<times> agent_session" where
  "continue_agent envs context s =
     (case resume_agent context s of
        (Inl e, s') \<Rightarrow> (Some (Inl e), s')
      | (Inr _, s') \<Rightarrow> drive_agent envs s')"

text \<open>\<open>plan_first_command\<close>: one question, whose answer must be a command; it is not run.\<close>

definition plan_first_command ::
  "('a) step_env_scheme \<Rightarrow> str \<Rightarrow> skill list \<Rightarrow> str option \<Rightarrow> agent_session \<Rightarrow> (agent_exc + str) \<times> agent_session" where
  "plan_first_command env task skills method s =
     then_do (begin_task task skills method s) (\<lambda>_ (w, wo).
       let w1 = w\<lparr>aw_steps := 1\<rparr>
       in case se_chat env (the (aw_messages w)) of
            Model_error txt \<Rightarrow> (Inl (Runtime_exc (u ''model request failed: '' @ txt)), (release env False w1, wo))
          | Chat_raises txt \<Rightarrow> (Inl (Other_exc txt), (w1, wo))
          | Answer content \<Rightarrow>
              (let w2 = add_message (says Assistant content) w1
               in case unwrap_work_command (strip content) of
                    Inl txt \<Rightarrow> (Inl (Runtime_exc (u ''invalid external event command: '' @ txt)), (release env False w2, wo))
                  | Inr None \<Rightarrow> (Inl (Runtime_exc (u ''external event setup requires one /work# command'')), (release env False w2, wo))
                  | Inr (Some c) \<Rightarrow> (Inr c, (release env True w2, wo))))"

end
