(* ===== verification/AgentProps.thy ===== *)
theory AgentProps
  imports AgentLoop RestrictedProps
begin

text \<open>
  What the loop of an agent guarantees: the dialogue it shows the model alternates between user and
  assistant and the model is asked only when a new user message is there, whatever happens; a
  finished activation leaves nothing but the system message; every run ends; a result handed over
  from an earlier activation replaces exactly its command.
\<close>

section \<open>Well-formed workers\<close>

fun alternates :: "bool \<Rightarrow> message list \<Rightarrow> bool" where
  "alternates user [] \<longleftrightarrow> True"
| "alternates user (m # ms) \<longleftrightarrow> ms_role m = (if user then User else Assistant) \<and> alternates (\<not> user) ms"

lemma alternates_append [simp]:
  "alternates b (ms @ [m]) \<longleftrightarrow> alternates b ms \<and> ms_role m = (if even (length ms) = b then User else Assistant)"
  by (induction ms arbitrary: b) auto

lemma alternates_last: "alternates True ms \<Longrightarrow> ms \<noteq> [] \<Longrightarrow> ms_role (last ms) = User \<longleftrightarrow> odd (length ms)"
  by (induction ms rule: rev_induct) auto

definition dialogue :: "str \<Rightarrow> message list \<Rightarrow> bool" where
  "dialogue sys ms \<longleftrightarrow> (\<exists>rest. ms = says System sys # rest \<and> alternates True rest)"

definition started :: "message list option \<Rightarrow> str option \<Rightarrow> bool" where
  "started messages bootstrap \<longleftrightarrow> (case messages of
     None \<Rightarrow> bootstrap = None
   | Some ms \<Rightarrow> (case bootstrap of None \<Rightarrow> False | Some sys \<Rightarrow> dialogue sys ms))"

text \<open>The last message is not the user's.\<close>

definition odd_messages :: "message list option \<Rightarrow> bool" where
  "odd_messages messages \<longleftrightarrow> (case messages of None \<Rightarrow> False | Some ms \<Rightarrow> odd (length ms))"

definition messages_ok :: "worker \<Rightarrow> bool" where
  "messages_ok w \<longleftrightarrow> started (aw_messages w) (aw_bootstrap w)"

definition answered :: "worker \<Rightarrow> bool" where
  "answered w \<longleftrightarrow> odd_messages (aw_messages w)"

lemmas message_defs = messages_ok_def started_def answered_def odd_messages_def dialogue_def

definition worker_ok :: "worker \<Rightarrow> bool" where
  "worker_ok w \<longleftrightarrow> messages_ok w
     \<and> (case aw_state w of
          Free \<Rightarrow> aw_pending w = None \<and> (case aw_messages w of None \<Rightarrow> True | Some ms \<Rightarrow> length ms = 1)
        | Running \<Rightarrow> aw_messages w \<noteq> None \<and> aw_runtime w \<noteq> None \<and> (aw_pending w \<noteq> None \<longrightarrow> answered w)
        | Waiting \<Rightarrow> aw_runtime w \<noteq> None \<and> aw_pending w = None \<and> answered w)"

text \<open>Nothing of an activation is left, except the system message.\<close>

definition at_rest :: "worker \<Rightarrow> bool" where
  "at_rest w \<longleftrightarrow> aw_state w = Free \<and> aw_runtime w = None \<and> aw_skills w = [] \<and> aw_method w = None \<and> aw_repeated w = []
     \<and> aw_deferred w = None \<and> aw_task w = None \<and> aw_pending w = None
     \<and> (case aw_bootstrap w of None \<Rightarrow> aw_messages w = None | Some sys \<Rightarrow> aw_messages w = Some [says System sys])"

lemma at_rest_ok: "at_rest w \<Longrightarrow> worker_ok w"
  by (auto simp: at_rest_def worker_ok_def message_defs split: option.splits)

text \<open>In the middle of a step, after the model's answer.\<close>

definition mid_step :: "worker \<Rightarrow> bool" where
  "mid_step w \<longleftrightarrow> messages_ok w \<and> aw_state w = Running \<and> aw_runtime w \<noteq> None \<and> answered w"

lemma mid_step_ok: "mid_step w \<Longrightarrow> worker_ok w"
  by (auto simp: mid_step_def worker_ok_def message_defs split: option.splits)

lemma release_rest: "messages_ok w \<Longrightarrow> at_rest (release env preserve w)"
proof (cases "preserve \<and> aw_messages w \<noteq> None")
  case False
  then have "release env preserve w = cleared (w\<lparr>aw_messages := None, aw_bootstrap := None\<rparr>)"
    by (cases preserve) (auto simp: release_def)
  then show ?thesis by (simp add: cleared_def at_rest_def)
next
  case True
  assume ok: "messages_ok w"
  obtain ms sys where m: "aw_messages w = Some ms" "aw_bootstrap w = Some sys" "take 1 ms = [says System sys]"
    using True ok by (auto simp: message_defs split: option.splits)
  then have "release env preserve w = cleared (w\<lparr>aw_messages := Some [says System sys]\<rparr>)
      \<or> release env preserve w = cleared (w\<lparr>aw_messages := None, aw_bootstrap := None\<rparr>)"
    using True by (simp add: release_def)
  then show ?thesis using m by (auto simp: cleared_def at_rest_def)
qed

definition step_ok :: "step_end \<Rightarrow> bool" where
  "step_ok r \<longleftrightarrow> worker_ok (fst (snd r))
     \<and> (\<forall>out. fst r = Inr (Some out) \<longrightarrow> ao_status out \<noteq> Need \<longrightarrow> at_rest (fst (snd r)))"

named_theorems mid_intros \<open>updates of a worker in the middle of a step\<close>

lemma mid_pending [mid_intros]: "mid_step w \<Longrightarrow> mid_step (w\<lparr>aw_pending := p\<rparr>)"
  by (simp add: mid_step_def messages_ok_def answered_def)

lemma mid_deferred [mid_intros]: "mid_step w \<Longrightarrow> mid_step (w\<lparr>aw_deferred := d\<rparr>)"
  by (simp add: mid_step_def messages_ok_def answered_def)

lemma mid_runtime [mid_intros]: "mid_step w \<Longrightarrow> mid_step (w\<lparr>aw_runtime := Some rt\<rparr>)"
  by (simp add: mid_step_def messages_ok_def answered_def)

lemma mid_repeated [mid_intros]: "mid_step w \<Longrightarrow> mid_step (w\<lparr>aw_repeated := d\<rparr>)"
  by (simp add: mid_step_def messages_ok_def answered_def)

lemma finish_ok: "messages_ok w \<Longrightarrow> step_ok (finish env preserve status txt (w, wo))"
  by (simp add: finish_def step_ok_def release_rest at_rest_ok)

lemma none_ok [simp]: "step_ok (Inr None, (w, wo)) \<longleftrightarrow> worker_ok w" "step_ok (Inl e, (w, wo)) \<longleftrightarrow> worker_ok w"
  by (simp_all add: step_ok_def)

lemma tell_ok: "mid_step w \<Longrightarrow> aw_pending w = None \<Longrightarrow> step_ok (tell env c (w, wo))"
proof -
  assume m: "mid_step w" "aw_pending w = None"
  let ?w = "add_message \<lparr>ms_role = User, ms_content = c\<rparr> w"
  have ok: "messages_ok ?w"
    using m by (auto simp: add_message_def mid_step_def message_defs split: option.splits)
  moreover have "worker_ok ?w"
    using m ok by (auto simp: worker_ok_def mid_step_def add_message_def message_defs split: option.splits)
  ultimately show ?thesis using m by (auto simp: tell_def continue_or_limit_def finish_ok)
qed

lemma partly_end_ok: "mid_step w \<Longrightarrow> step_ok (partly_end env p (w, wo))"
  by (auto simp: partly_end_def intro!: tell_ok mid_step_ok mid_intros split: tool_progress.split sum.split)

lemma script_done_ok: "mid_step w \<Longrightarrow> step_ok (script_done env p (w, wo))"
  by (auto simp: script_done_def mid_step_def [of w] intro!: tell_ok mid_step_ok mid_intros finish_ok
      split: tool_progress.split sum.split script_end.split) (auto simp: mid_step_def messages_ok_def)

lemma at_state_eq: "at_state cs (w, wo) = (w\<lparr>aw_runtime := Some (fst cs)\<rparr>, put_fs (snd cs) wo)"
  by (simp add: at_state_def)

lemma mid_messages: "mid_step w \<Longrightarrow> messages_ok w"
  by (simp add: mid_step_def)

lemma carry_out_ok: "mid_step w \<Longrightarrow> aw_pending w = None \<Longrightarrow> step_ok (carry_out env command cs (w, wo))"
  by (auto simp: carry_out_def at_state_eq count_result_def Let_def
      intro!: tell_ok mid_step_ok finish_ok mid_messages mid_intros split: sum.split prod.split)

lemma run_tool_ok: "mid_step w \<Longrightarrow> aw_pending w = None \<Longrightarrow> step_ok (run_tool env command rt (w, wo))"
  by (auto simp: run_tool_def at_state_eq Let_def
      intro!: tell_ok partly_end_ok script_done_ok carry_out_ok mid_intros split: option.split prod.split)

lemma run_directive_ok: "mid_step w \<Longrightarrow> aw_pending w = None \<Longrightarrow> step_ok (run_directive env d rt (w, wo))"
proof (cases d)
  case (Agent_need body)
  assume m: "mid_step w" "aw_pending w = None"
  then have "worker_ok (w\<lparr>aw_state := Waiting\<rparr>)"
    by (simp add: mid_step_def worker_ok_def messages_ok_def answered_def)
  then show ?thesis using Agent_need by (simp add: run_directive_def step_ok_def outcome_def)
qed (auto simp: run_directive_def intro!: tell_ok finish_ok mid_messages run_tool_ok mid_intros split: option.split)

lemma model_step_ok: "worker_ok w \<Longrightarrow> aw_pending w = None \<Longrightarrow> step_ok (model_step env (w, wo))"
proof (cases "aw_state w = Running \<and> fresh_user_tick w")
  case False
  assume "worker_ok w" "aw_pending w = None"
  then show ?thesis using False by (auto simp: model_step_def)
next
  case True
  assume w: "worker_ok w" "aw_pending w = None"
  then obtain ms rt where m: "aw_messages w = Some ms" "aw_runtime w = Some rt"
    using True by (auto simp: worker_ok_def)
  let ?w1 = "w\<lparr>aw_steps := aw_steps w + 1\<rparr>"
  have ok: "messages_ok ?w1" "worker_ok ?w1" using w True by (simp_all add: worker_ok_def messages_ok_def answered_def)
  obtain sys rest where d: "aw_bootstrap w = Some sys" "ms = says System sys # rest" "alternates True rest"
    using ok m by (auto simp: message_defs split: option.splits)
  have "ms_role (last ms) = User" using True m by (simp add: fresh_user_tick_def)
  then have "odd (length rest)"
    using d alternates_last [of rest] by (cases rest) (auto simp: says_def)
  then have "mid_step (add_message (says Assistant content) ?w1)" for content
    using True m d by (simp add: mid_step_def message_defs add_message_def says_def)
  moreover have "aw_pending (add_message (says Assistant content) ?w1) = None" for content
    using w by (simp add: add_message_def)
  ultimately show ?thesis using True m ok
    by (auto simp: model_step_def Let_def intro!: finish_ok tell_ok run_directive_ok split: chat_end.split sum.split)
qed

theorem agent_step_ok: "worker_ok w \<Longrightarrow> step_ok (agent_step env (w, wo))"
proof (cases "aw_pending w")
  case None
  assume "worker_ok w"
  then show ?thesis using None by (simp add: agent_step_def model_step_ok)
next
  case (Some p)
  assume "worker_ok w"
  then have m: "mid_step w" using Some by (cases "aw_state w") (auto simp: worker_ok_def mid_step_def)
  then obtain rt where "aw_runtime w = Some rt" by (auto simp: mid_step_def)
  then show ?thesis using Some m
    by (cases p) (auto simp: agent_step_def at_state_eq intro!: partly_end_ok script_done_ok mid_intros split: prod.split)
qed

section \<open>Histories\<close>

text \<open>Everything that is done with a worker, with the environment at that moment, and what others do to the world.\<close>

datatype agent_op =
    Begin str "skill list" "str option"
  | Begin_with_result str "skill list" str str "str option"
  | Step step_env
  | Resume str
  | Sleep step_env
  | Plan step_env str "skill list" "str option"
  | Outside "world \<Rightarrow> world"

definition agent_do :: "agent_session \<Rightarrow> agent_op \<Rightarrow> agent_session" where
  "agent_do s op = (case op of
       Begin task skills method \<Rightarrow> snd (begin_task task skills method s)
     | Begin_with_result task skills command result method \<Rightarrow> snd (begin_with_tool_result task skills command result method s)
     | Step env \<Rightarrow> snd (agent_step env s)
     | Resume context \<Rightarrow> snd (resume_agent context s)
     | Sleep env \<Rightarrow> sleep_to_base env s
     | Plan env task skills method \<Rightarrow> snd (plan_first_command env task skills method s)
     | Outside f \<Rightarrow> (fst s, f (snd s)))"

text \<open>A worker that has just begun: it waits for its first step.\<close>

definition begun :: "worker \<Rightarrow> bool" where
  "begun w \<longleftrightarrow> worker_ok w \<and> aw_state w = Running \<and> aw_pending w = None \<and> \<not> answered w"

lemma begin_dialogue_ok:
  assumes "worker_ok w" "aw_state w = Free"
  shows "started (aw_messages (begin_dialogue sys prompt w)) (aw_bootstrap (begin_dialogue sys prompt w))
    \<and> \<not> odd_messages (aw_messages (begin_dialogue sys prompt w)) \<and> aw_messages (begin_dialogue sys prompt w) \<noteq> None"
proof (cases "aw_messages w")
  case None
  then show ?thesis by (simp add: begin_dialogue_def message_defs says_def)
next
  case (Some ms)
  then obtain sys' where "ms = [says System sys']" "aw_bootstrap w = Some sys'"
    using assms by (auto simp: worker_ok_def message_defs split: option.splits)
  then show ?thesis using Some by (simp add: begin_dialogue_def message_defs says_def)
qed

lemma begin_frame: "aw_pending (begin_dialogue sys prompt w) = aw_pending w" "aw_runtime (begin_dialogue sys prompt w) = aw_runtime w"
  by (auto simp: begin_dialogue_def split: option.split)

lemma worker_ok_free:
  "worker_ok w \<Longrightarrow> aw_state w = Free \<Longrightarrow> aw_state v = Free \<Longrightarrow> aw_messages v = aw_messages w \<Longrightarrow> aw_bootstrap v = aw_bootstrap w
   \<Longrightarrow> aw_pending v = aw_pending w \<Longrightarrow> worker_ok v"
  by (simp add: worker_ok_def messages_ok_def)

lemma begin_task_cases:
  assumes "worker_ok w" "begin_task task skills method (w, wo) = (r, (w', wo'))"
  shows "worker_ok w' \<and> (\<forall>v. r = Inr v \<longrightarrow> begun w')"
proof (cases "aw_state w = Free \<and> method_ok method")
  case False
  then show ?thesis using assms by (cases "aw_state w = Free") (auto simp: begin_task_def)
next
  case True
  let ?w1 = "w\<lparr>aw_skills := skills, aw_method := method, aw_task := Some (strip task), aw_deferred := None\<rparr>"
  have w1: "worker_ok ?w1" "worker_ok (?w1\<lparr>aw_runtime := rt\<rparr>)" for rt
    using True assms(1) by (auto intro: worker_ok_free [of w])
  have "begun ((begin_dialogue sys prompt (?w1\<lparr>aw_runtime := Some rt\<rparr>))\<lparr>aw_steps := 0, aw_repeated := [], aw_state := Running\<rparr>)"
    for sys prompt rt
    using begin_dialogue_ok [of "?w1\<lparr>aw_runtime := Some rt\<rparr>" sys prompt] w1(2) [of "Some rt"] True assms(1)
    by (simp add: begun_def worker_ok_def messages_ok_def answered_def begin_frame)
  then show ?thesis using assms(2) w1 True
    by (auto simp: begin_task_def Let_def begun_def split: prod.splits sum.splits)
qed

lemma begin_task_ok: "worker_ok (fst s) \<Longrightarrow> worker_ok (fst (snd (begin_task task skills mth s)))"
  using begin_task_cases [of "fst s" task skills mth "snd s"] by (metis prod.collapse)

lemma worker_ok_deferred [simp]: "worker_ok (w\<lparr>aw_deferred := d\<rparr>) = worker_ok w"
  by (cases "aw_state w") (simp_all add: worker_ok_def messages_ok_def answered_def)

lemma begin_with_result_ok:
  "worker_ok (fst s) \<Longrightarrow> worker_ok (fst (snd (begin_with_tool_result task skills command result mth s)))"
  using begin_task_ok [of s task skills mth]
  by (auto simp: begin_with_tool_result_def then_do_def split: prod.split sum.split)

lemma resume_ok: "worker_ok (fst s) \<Longrightarrow> worker_ok (fst (snd (resume_agent context s)))"
proof (cases s)
  case (Pair w wo)
  assume ok: "worker_ok (fst s)"
  show ?thesis
  proof (cases "aw_state w \<noteq> Waiting \<or> aw_messages w = None")
    case True
    then show ?thesis using Pair ok by (simp add: resume_agent_def)
  next
    case False
    then obtain sys rest where m: "aw_messages w = Some (says System sys # rest)" "aw_bootstrap w = Some sys"
      "alternates True rest" "even (length rest)" "aw_pending w = None" "aw_runtime w \<noteq> None"
      using Pair ok by (auto simp: worker_ok_def message_defs split: option.splits)
    then show ?thesis using Pair False
      by (simp add: resume_agent_def worker_ok_def message_defs add_message_def says_def)
  qed
qed

lemma sleep_rest: "worker_ok (fst s) \<Longrightarrow> at_rest (fst (sleep_to_base env s))"
  by (cases s) (auto simp: sleep_to_base_def close_pending_def worker_ok_def messages_ok_def intro!: release_rest split: prod.split)

lemma plan_ok: "worker_ok (fst s) \<Longrightarrow> worker_ok (fst (snd (plan_first_command env task skills mth s)))"
proof -
  assume ok: "worker_ok (fst s)"
  obtain r w' wo' where b: "begin_task task skills mth s = (r, (w', wo'))" by (metis prod.collapse)
  have "worker_ok w'" and begun: "begun w'" if "r = Inr v" for v
    using begin_task_cases [of "fst s" task skills mth "snd s"] ok b that by auto
  have m: "messages_ok (w'\<lparr>aw_steps := 1\<rparr>)" "messages_ok (add_message (says Assistant c) (w'\<lparr>aw_steps := 1\<rparr>))"
    "worker_ok (w'\<lparr>aw_steps := 1\<rparr>)" if "r = Inr v" for v c
    using begun [OF that]
    by (auto simp: begun_def worker_ok_def message_defs add_message_def says_def split: option.splits)
  then show ?thesis
    using b begin_task_ok [OF ok, of task skills mth]
    by (cases r) (auto simp: plan_first_command_def Let_def intro!: at_rest_ok release_rest split: chat_end.split sum.split option.split)
qed

interpretation agents: stepper agent_do "\<lambda>_ _. True" "\<lambda>s :: agent_session. worker_ok (fst s)"
proof
  fix s :: agent_session and op
  assume ok: "worker_ok (fst s)"
  have "worker_ok (fst (snd (agent_step env s)))" for env
    using agent_step_ok [of "fst s" env "snd s"] ok by (simp add: step_ok_def)
  then show "worker_ok (fst (agent_do s op))"
    using ok begin_task_ok [OF ok] begin_with_result_ok [OF ok] resume_ok [OF ok]
    by (auto simp: agent_do_def intro: at_rest_ok [OF sleep_rest [OF ok]] plan_ok [OF ok] split: agent_op.split)
qed

section \<open>Every run ends\<close>

text \<open>
  A measure of what is left: the model steps, with a place for a suspended tool, the lines of a
  script, the fragments of a file.
\<close>

definition steps_left :: "worker \<Rightarrow> nat" where
  "steps_left w =
     (let k = nat (aw_max_steps w - aw_steps w)
      in case aw_pending w of None \<Rightarrow> 2 * k + 1 | Some _ \<Rightarrow> if k = 0 then 0 else 2 * k + 2)"

definition tool_left :: "worker \<Rightarrow> nat \<times> nat" where
  "tool_left w = (case aw_pending w of
       None \<Rightarrow> (0, 0)
     | Some (In_partly r) \<Rightarrow> (0, length (pr_left r))
     | Some (In_script r) \<Rightarrow> (length (sc_left r), length (cy_left (sc_cyclic r))))"

definition closer :: "(worker \<times> worker) set" where
  "closer = inv_image (less_than <*lex*> (less_than <*lex*> less_than)) (\<lambda>w. (steps_left w, tool_left w))"

lemma wf_closer: "wf closer"
  unfolding closer_def by (intro wf_inv_image wf_lex_prod wf_less_than)

lemma closer_steps: "steps_left v < steps_left w \<Longrightarrow> (v, w) \<in> closer"
  by (simp add: closer_def)

lemma closer_tool: "steps_left v = steps_left w \<Longrightarrow> (tool_left v, tool_left w) \<in> less_than <*lex*> less_than \<Longrightarrow> (v, w) \<in> closer"
  by (simp add: closer_def)

text \<open>A step that goes on after a message to the model has a model step left.\<close>

lemma tell_goes_on:
  "tell env c (w, wo) = (Inr None, (v, wo')) \<Longrightarrow>
   aw_pending v = aw_pending w \<and> aw_state v = aw_state w \<and> aw_steps v = aw_steps w \<and> aw_max_steps v = aw_max_steps w
   \<and> aw_steps w < aw_max_steps w"
  by (auto simp: tell_def continue_or_limit_def finish_def add_message_def split: if_splits)

definition after_model :: "worker \<Rightarrow> worker \<Rightarrow> bool" where
  "after_model w v \<longleftrightarrow> aw_state v = aw_state w \<and> aw_steps v = aw_steps w \<and> aw_max_steps v = aw_max_steps w
     \<and> (aw_pending v = None \<longrightarrow> aw_steps w < aw_max_steps w)"

lemma tell_after: "tell env c (w, wo) = (Inr None, (v, wo')) \<Longrightarrow> after_model w v"
  using tell_goes_on [of env c w wo v wo'] by (simp add: after_model_def)

lemma after_update [simp]:
  "after_model (w\<lparr>aw_runtime := r\<rparr>) v = after_model w v" "after_model (w\<lparr>aw_pending := p\<rparr>) v = after_model w v"
  "after_model (w\<lparr>aw_repeated := d\<rparr>) v = after_model w v" "after_model (w\<lparr>aw_deferred := e\<rparr>) v = after_model w v"
  "after_model w (w\<lparr>aw_pending := Some q\<rparr>)"
  by (simp_all add: after_model_def)

lemma finish_goes_on [simp]: "finish env preserve status txt s \<noteq> (Inr None, s')"
  by (cases s) (simp add: finish_def)

lemma partly_end_after: "partly_end env p (w, wo) = (Inr None, (v, wo')) \<Longrightarrow> after_model w v"
  by (auto simp: partly_end_def dest!: tell_after split: tool_progress.splits sum.splits)

lemma script_done_after: "script_done env p (w, wo) = (Inr None, (v, wo')) \<Longrightarrow> after_model w v"
  by (auto simp: script_done_def dest!: tell_after split: tool_progress.splits sum.splits script_end.splits)

lemma carry_out_after: "carry_out env command cs (w, wo) = (Inr None, (v, wo')) \<Longrightarrow> after_model w v"
  by (auto simp: carry_out_def at_state_eq count_result_def Let_def dest!: tell_after split: sum.splits prod.splits if_splits)

lemma run_tool_after: "run_tool env command rt (w, wo) = (Inr None, (v, wo')) \<Longrightarrow> after_model w v"
  by (auto simp: run_tool_def at_state_eq Let_def dest!: tell_after partly_end_after script_done_after carry_out_after
      split: option.splits prod.splits)

lemma run_directive_after: "run_directive env d rt (w, wo) = (Inr None, (v, wo')) \<Longrightarrow> after_model w v"
  by (auto simp: run_directive_def dest!: tell_after run_tool_after split: agent_directive.splits option.splits if_splits)

lemma add_message_steps [simp]:
  "aw_steps (add_message m w) = aw_steps w" "aw_max_steps (add_message m w) = aw_max_steps w"
  "aw_state (add_message m w) = aw_state w"
  by (simp_all add: add_message_def)

lemma model_step_after:
  assumes "model_step env (w, wo) = (Inr None, (v, wo'))"
  shows "after_model (w\<lparr>aw_steps := aw_steps w + 1\<rparr>) v"
  using assms
  by (auto simp: model_step_def Let_def after_model_def dest!: tell_after run_directive_after
      split: if_splits option.splits chat_end.splits sum.splits)

lemma model_step_closer:
  assumes "model_step env (w, wo) = (Inr None, (v, wo'))" "aw_pending w = None"
  shows "(v, w) \<in> closer"
proof -
  have "after_model (w\<lparr>aw_steps := aw_steps w + 1\<rparr>) v"
    by (rule model_step_after [OF assms(1)])
  then have "steps_left v < steps_left w"
    using assms(2) by (auto simp: steps_left_def after_model_def Let_def split: option.split)
  then show ?thesis by (rule closer_steps)
qed

lemma partly_next_shrinks: "partly_next env r = Yielded r' \<Longrightarrow> length (pr_left r') < length (pr_left r)"
  by (auto simp: partly_next_def split: list.splits sum.splits raised.splits)

lemma cyclic_resume_shrinks: "cyclic_resume env rt r fs = (Yielded r', fs') \<Longrightarrow> length (cy_left r') < length (cy_left r)"
  by (auto simp: cyclic_resume_def cyclic_next_def cyclic_finish_def cyclic_stop_def Let_def
      split: if_splits list.splits sum.splits prod.splits)

lemma script_lines_left:
  "script_lines env command name task left out s = (Yielded r, s') \<Longrightarrow> length (sc_left r) < length left"
proof (induction left arbitrary: out s)
  case (Cons l left)
  obtain n t where l: "l = (n, t)" by (cases l)
  show ?case
    using Cons.prems by (auto simp: l less_Suc_eq split: prod.splits line_end.splits dest: Cons.IH)
qed simp

lemma script_resume_shrinks:
  assumes "script_resume env r s = (Yielded r', s')"
  shows "((length (sc_left r'), length (cy_left (sc_cyclic r'))), (length (sc_left r), length (cy_left (sc_cyclic r))))
    \<in> less_than <*lex*> less_than"
  using assms
  by (cases s) (auto simp: script_resume_def after_cyclic_def failed_line_def dest: cyclic_resume_shrinks script_lines_left
      split: prod.splits tool_progress.splits line_end.splits if_splits)

lemma resumed_closer:
  assumes "after_model w v" "aw_pending w = Some p" "aw_pending v = None \<or> (tool_left v, tool_left w) \<in> less_than <*lex*> less_than"
  shows "(v, w) \<in> closer"
proof (cases "aw_pending v")
  case None
  then have "steps_left v < steps_left w"
    using assms(1,2) by (auto simp: steps_left_def after_model_def Let_def)
  then show ?thesis by (rule closer_steps)
next
  case (Some q)
  then have "steps_left v = steps_left w"
    using assms(1,2) by (simp add: steps_left_def after_model_def)
  then show ?thesis using assms(3) Some by (intro closer_tool) auto
qed

lemma tell_pending: "tell env c (w, wo) = (Inr None, (v, wo')) \<Longrightarrow> aw_pending v = aw_pending w"
  using tell_goes_on by blast

lemma agent_step_closer:
  assumes "agent_step env (w, wo) = (Inr None, (v, wo'))"
  shows "(v, w) \<in> closer"
proof (cases "aw_pending w")
  case None
  then show ?thesis using assms model_step_closer [of env w wo v wo'] by (simp add: agent_step_def)
next
  case (Some p)
  show ?thesis
  proof (cases p)
    case (In_partly r)
    then have e: "partly_end env (partly_next env r) (w, wo) = (Inr None, (v, wo'))"
      using assms Some by (simp add: agent_step_def)
    have "aw_pending v = None \<or> (tool_left v, tool_left w) \<in> less_than <*lex*> less_than"
      using e Some In_partly
      by (auto simp: partly_end_def tool_left_def dest!: tell_pending partly_next_shrinks split: tool_progress.splits sum.splits)
    then show ?thesis using partly_end_after [OF e] Some resumed_closer by blast
  next
    case (In_script r)
    then obtain rt q cs where q: "aw_runtime w = Some rt" "script_resume env r (rt, wo_fs wo) = (q, cs)"
      "script_done env q (at_state cs (w, wo)) = (Inr None, (v, wo'))"
      using assms Some by (auto simp: agent_step_def split: option.splits prod.splits)
    have "aw_pending v = None \<or> (tool_left v, tool_left w) \<in> less_than <*lex*> less_than"
    proof (cases q)
      case (Over e)
      then show ?thesis using q(3)
        by (auto simp: script_done_def at_state_eq dest!: tell_pending split: sum.splits script_end.splits)
    next
      case (Yielded r')
      then have "aw_pending v = Some (In_script r')" using q(3) by (auto simp: script_done_def at_state_eq)
      then show ?thesis using script_resume_shrinks q(2) Yielded Some In_script by (simp add: tool_left_def)
    qed
    moreover have "after_model w v" using script_done_after q(3) by (fastforce simp: at_state_eq)
    ultimately show ?thesis using Some resumed_closer by blast
  qed
qed

text \<open>A step that goes on leaves the state as it is.\<close>

lemma agent_step_state: "agent_step env (w, wo) = (Inr None, (v, wo')) \<Longrightarrow> aw_state v = aw_state w"
proof (cases "aw_pending w")
  case None
  assume "agent_step env (w, wo) = (Inr None, (v, wo'))"
  then have "after_model (w\<lparr>aw_steps := aw_steps w + 1\<rparr>) v"
    using None by (intro model_step_after) (simp add: agent_step_def)
  then show ?thesis by (simp add: after_model_def)
next
  case (Some p)
  assume "agent_step env (w, wo) = (Inr None, (v, wo'))"
  then have "after_model w v" using Some
    by (auto simp: agent_step_def at_state_eq dest!: partly_end_after script_done_after
        split: pending.splits option.splits prod.splits)
  then show ?thesis by (simp add: after_model_def)
qed

section \<open>Samples\<close>

definition sample_step_env :: "chat_end \<Rightarrow> step_env" where
  "sample_step_env answer = \<lparr>ce_sha = (\<lambda>bs. bs), ce_mode = (\<lambda>_. []), ce_size = (\<lambda>_. 4096),
     ce_process = (\<lambda>cwd argv fs. (Ended 0 [] [], fs)), we_enabled = None, we_allow_shell = None, we_host = u ''localhost'',
     we_port = 1883, we_loads = (\<lambda>_. None), we_float = (\<lambda>_. []), fr_fork = Forked, fr_ask = (\<lambda>_ _. Inr []),
     fr_images = False, fr_image_limit = None, fr_random = u ''x'', fr_codec = (\<lambda>_ _. []), fr_executable = (\<lambda>_. False),
     fr_input = (\<lambda>_ _ _ fs. (Ended 0 [] [], fs)), se_chat = (\<lambda>_. answer), se_reset = (\<lambda>_. True),
     se_mcp = \<lparr>me_loads = (\<lambda>_. Inl []), me_float = (\<lambda>_. []), me_call = None\<rparr>,
     se_json = (\<lambda>_. Inr (JObj [(u ''done'', JBool True)]))\<rparr>"

definition sample_world :: world where
  "sample_world = \<lparr>wo_fs = sample_fs, wo_prompts = sample_prompts\<rparr>"

definition sample_worker :: "(str \<times> str) option \<Rightarrow> worker" where
  "sample_worker deferred = (new_worker (u ''agent1'') [u ''w''] 3 1000 5)\<lparr>aw_state := Running,
     aw_messages := Some [says System (u ''You act''), says User (u ''do'')], aw_bootstrap := Some (u ''You act''),
     aw_runtime := Some sample_rt, aw_method := Some (u ''task''), aw_task := Some (u ''do''), aw_deferred := deferred\<rparr>"

lemma sample_worker_ok: "worker_ok (sample_worker d)"
  by (simp add: sample_worker_def new_worker_def worker_ok_def message_defs says_def)

lemma sample_done: "read_answer (se_json (sample_step_env a)) (u ''{}'') = Inr (Agent_done [])"
  by (simp add: read_answer_def unwrap_work_command_def work_prefix_def parse_agent_def response_limit_def read_object_def
      dkeys_def sample_step_env_def text_eval)

lemma sample_command: "read_answer loads (u ''/work#date'') = Inr (Agent_command (u ''date''))"
  by (simp add: read_answer_def unwrap_work_command_def work_prefix_def text_eval)

lemma sample_asked: "aw_pending (sample_worker d) = None" "aw_state (sample_worker d) = Running" "fresh_user_tick (sample_worker d)"
  by (simp_all add: sample_worker_def new_worker_def fresh_user_tick_def says_def)

section \<open>Properties\<close>

text \<open>C37: Whatever is done with a worker, in any order and with any answers, errors and changes of the world: its
  dialogue is the system message it was started with and then user and assistant in turn, a suspended tool or a waiting
  worker has answered, and a free worker holds at most the system message.\<close>

theorem dialogue_alternates:
  "worker_ok (fst (foldl agent_do (new_worker ident workspace max_steps max_bytes timeout, wo) ops))"
  by (rule agents.inv_run) (simp_all add: new_worker_def worker_ok_def message_defs)

text \<open>C38: An activation that ends, with a result or a failure, leaves nothing in its worker for the next one but
  the system message: no task, method, skills, command runtime, repetition counts, deferred result or suspended tool.\<close>

theorem finished_activation_is_forgotten:
  assumes "worker_ok (fst s)" "agent_step env s = (Inr (Some out), s')" "ao_status out \<noteq> Need"
  shows "at_rest (fst s')"
  using agent_step_ok [OF assms(1), of env "snd s"] assms(2,3) by (simp add: step_ok_def)

lemma finished_activation_is_forgotten_witness:
  "at_rest (fst (release (sample_step_env (Answer (u ''{}''))) True
     (add_message (says Assistant (u ''{}'')) ((sample_worker None)\<lparr>aw_steps := 1\<rparr>)), sample_world))"
proof (rule finished_activation_is_forgotten)
  show "worker_ok (fst (sample_worker None, sample_world))" by (simp add: sample_worker_ok)
  let ?w = "add_message (says Assistant (u ''{}'')) ((sample_worker None)\<lparr>aw_steps := 1\<rparr>)"
  have "aw_method ?w = Some (u ''task'')" "aw_runtime (sample_worker None) = Some sample_rt" "aw_steps (sample_worker None) = 0"
    "se_chat (sample_step_env (Answer (u ''{}''))) ms = Answer (u ''{}'')" for ms
    by (simp_all add: add_message_def sample_worker_def new_worker_def sample_step_env_def)
  moreover obtain ms where "aw_messages (sample_worker None) = Some ms" by (simp add: sample_worker_def)
  ultimately show "agent_step (sample_step_env (Answer (u ''{}''))) (sample_worker None, sample_world)
    = (Inr (Some (outcome ?w Ok [])),
       (release (sample_step_env (Answer (u ''{}''))) True ?w, sample_world))"
    by (simp add: agent_step_def model_step_def sample_asked sample_done run_directive_def completion_error_def finish_def Let_def)
qed (simp add: outcome_def)

text \<open>C14: Every run of an agent ends: whatever the model answers, however often it breaks the protocol and however many
  fragments its tools hand out, from any state and for every sequence of environments some number of steps is enough to
  reach an outcome or an exception.\<close>

theorem agent_run_ends:
  "\<exists>n. fst (drive_agent (map envs [0..<n]) s) \<noteq> None"
proof (induction "fst s" arbitrary: s envs rule: wf_induct_rule [OF wf_closer])
  case (1 s)
  obtain r w' wo' where r: "agent_step (envs 0) s = (r, (w', wo'))" by (metis prod.collapse)
  show ?case
  proof (cases "r = Inr None")
    case False
    then have "fst (drive_agent (map envs [0..<1]) s) \<noteq> None"
      using r by (auto split: sum.split option.split)
    then show ?thesis by blast
  next
    case True
    then have "(w', fst s) \<in> closer"
      using r agent_step_closer [of "envs 0" "fst s" "snd s" w' wo'] by simp
    then obtain n where n: "fst (drive_agent (map (\<lambda>i. envs (Suc i)) [0..<n]) (w', wo')) \<noteq> None"
      using 1 [of "(w', wo')" "\<lambda>i. envs (Suc i)"] by auto
    have "map envs [0..<Suc n] = envs 0 # map (\<lambda>i. envs (Suc i)) [0..<n]"
      by (simp add: upt_conv_Cons map_Suc_upt [symmetric] comp_def del: upt_Suc)
    then have "fst (drive_agent (map envs [0..<Suc n]) s) \<noteq> None" using n r True by simp
    then show ?thesis by blast
  qed
qed

text \<open>A result handed over from an earlier activation stands in for its command exactly once: if the model repeats
  the command it gets the stored result, and if it asks for any other command the activation fails; no tool runs and
  the world stays as it is.\<close>

theorem deferred_result_replaces_command:
  assumes "aw_state w = Running" "aw_pending w = None" "fresh_user_tick w" "aw_messages w = Some ms" "aw_runtime w = Some rt"
    "aw_deferred w = Some (expected, result)" "se_chat env ms = Answer content" "read_answer (se_json env) content = Inr (Agent_command c)"
  shows "snd (snd (agent_step env (w, wo))) = wo
    \<and> (if c = expected
       then agent_step env (w, wo) = tell env (Words result)
              ((add_message (says Assistant content) (w\<lparr>aw_steps := aw_steps w + 1\<rparr>))\<lparr>aw_deferred := None\<rparr>, wo)
       else \<exists>out. fst (agent_step env (w, wo)) = Inr (Some out) \<and> ao_status out = Failed)"
proof -
  have d: "aw_deferred (add_message m (w\<lparr>aw_steps := n\<rparr>)) = Some (expected, result)" for m n
    using assms(6) by (simp add: add_message_def)
  have "snd (snd (tell env x (v, wo))) = wo" for x v
    by (simp add: tell_def continue_or_limit_def finish_def)
  then show ?thesis using assms d
    by (simp add: agent_step_def model_step_def run_directive_def finish_def outcome_def Let_def)
qed

lemma deferred_result_replaces_command_witness:
  "snd (snd (agent_step (sample_step_env (Answer (u ''/work#date''))) (sample_worker (Some (u ''date'', u ''noon'')), sample_world))) = sample_world
    \<and> (if u ''date'' = u ''date''
       then agent_step (sample_step_env (Answer (u ''/work#date''))) (sample_worker (Some (u ''date'', u ''noon'')), sample_world)
         = tell (sample_step_env (Answer (u ''/work#date''))) (Words (u ''noon''))
              ((add_message (says Assistant (u ''/work#date'')) ((sample_worker (Some (u ''date'', u ''noon'')))
                \<lparr>aw_steps := aw_steps (sample_worker (Some (u ''date'', u ''noon''))) + 1\<rparr>))\<lparr>aw_deferred := None\<rparr>, sample_world)
       else \<exists>out. fst (agent_step (sample_step_env (Answer (u ''/work#date''))) (sample_worker (Some (u ''date'', u ''noon'')), sample_world))
          = Inr (Some out) \<and> ao_status out = Failed)"
  by (rule deferred_result_replaces_command [where ms = "[says System (u ''You act''), says User (u ''do'')]" and rt = sample_rt])
    (simp_all add: sample_asked sample_command, simp_all add: sample_worker_def sample_step_env_def)

end
