(* ===== verification/Catalog.thy ===== *)
theory Catalog
  imports Prompts Fragments
begin

text \<open>
  The catalogue of tools (orchestration/tool_catalog.py): the tool files of a directory and the tools
  of the MCP servers, frozen when CORE starts, with what the manager may call and what it must know.
  The MCP runtime is its list of tools and its list of server configurations.
\<close>

section \<open>Tool files\<close>

record local_tool =
  lt_name :: str
  lt_manager :: bool
  lt_text :: str
  lt_description :: str

definition as_skill :: "local_tool \<Rightarrow> skill" where
  "as_skill t = \<lparr>sk_name = lt_name t, sk_description = lt_description t, sk_prompt = lt_text t\<rparr>"

fun without_stars :: "str \<Rightarrow> str" where
  "without_stars (c # d # cs) = (if c = 42 \<and> d = 42 then without_stars cs else c # without_stars (d # cs))"
| "without_stars cs = cs"

definition plain_markdown :: "str \<Rightarrow> str" where
  "plain_markdown line = strip (without_stars (strip line))"

definition has_field :: "str \<Rightarrow> str \<Rightarrow> bool" where
  "has_field name line \<longleftrightarrow> startswith (casefold (plain_markdown line)) (casefold name @ [58])"

definition tool_field :: "str \<Rightarrow> str \<Rightarrow> str option" where
  "tool_field txt name =
     map_option (\<lambda>line. strip (drop (length (casefold name) + 1) (plain_markdown line)))
       (List.find (has_field name) (splitlines txt))"

definition label_char :: "nat \<Rightarrow> bool" where
  "label_char c \<longleftrightarrow> is_lower c \<or> is_upper c \<or> (0x410 \<le> c \<and> c \<le> 0x44F) \<or> c = 95 \<or> c = 32 \<or> c = 45"

text \<open>A line that begins with a label and a colon.\<close>

definition labelled :: "str \<Rightarrow> bool" where
  "labelled s \<longleftrightarrow> (case dropWhile label_char s of c # _ \<Rightarrow> c = 58 \<and> takeWhile label_char s \<noteq> [] | [] \<Rightarrow> False)"

fun lstrip_of :: "nat list \<Rightarrow> str \<Rightarrow> str" where
  "lstrip_of cs [] = []"
| "lstrip_of cs (c # s) = (if c \<in> set cs then lstrip_of cs s else c # s)"

fun following_text :: "str \<Rightarrow> str list \<Rightarrow> str" where
  "following_text fallback [] = fallback"
| "following_text fallback (raw # raws) =
     (let plain = plain_markdown raw; found = strip (lstrip_of [42, 32] plain)
      in if plain = [] \<or> startswith plain (u ''['') \<or> startswith plain (u ''```'') then following_text fallback raws
         else if labelled plain then fallback
         else if found = [] then fallback else found)"

definition description_field :: str where "description_field = u ''description''"

definition tool_description :: "str \<Rightarrow> str \<Rightarrow> str" where
  "tool_description txt fallback =
     (case dropWhile (\<lambda>l. \<not> has_field description_field l) (splitlines txt) of
        [] \<Rightarrow> fallback
      | raw # rest \<Rightarrow>
          (case partition_on 58 (plain_markdown raw) of (_, _, v) \<Rightarrow>
             if strip v \<noteq> [] then strip v else following_text fallback rest))"

text \<open>One tool file: its name without the suffix, and its text.\<close>

definition read_tool :: "str \<Rightarrow> str \<Rightarrow> str list \<Rightarrow> skill_error + local_tool" where
  "read_tool name content names =
     (let txt = strip content; lines = filter (\<lambda>l. strip l \<noteq> []) (splitlines txt);
          opening = plain_markdown (hd lines); expected = u ''[TOOL '' @ name @ [93];
          declared = tool_field txt (u ''name''); manager = tool_field txt (u ''manager'');
          fail = (\<lambda>s. Skill_error s)
      in guard_not (length lines < 2) (fail (u ''Tool definition is incomplete: '' @ name @ u ''.md''))
        (guard_not (opening \<noteq> expected)
          (fail (u ''Tool header mismatch in '' @ name @ u ''.md: expected '' @ py_repr expected @ u '', got '' @ py_repr opening))
        (guard_not (plain_markdown (last lines) \<noteq> u ''[/TOOL]'')
          (fail (u ''Tool '' @ py_repr name @ u '' has no [/TOOL] closing tag''))
        (guard_not (declared \<noteq> Some name)
          (fail (u ''Tool filename/name mismatch: filename='' @ py_repr name @ u '', name=''
             @ (case declared of None \<Rightarrow> u ''None'' | Some d \<Rightarrow> py_repr d)))
        (case map_option casefold manager of
           None \<Rightarrow> Inl (fail (u ''Tool '' @ py_repr name @ u '' manager must be true or false''))
         | Some m \<Rightarrow>
             guard_not (m \<noteq> u ''true'' \<and> m \<noteq> u ''false'') (fail (u ''Tool '' @ py_repr name @ u '' manager must be true or false''))
             (guard_not (name \<in> set names) (fail (u ''Duplicate tool: '' @ name))
               (Inr \<lparr>lt_name = name, lt_manager = (m = u ''true''), lt_text = txt, lt_description = tool_description txt name\<rparr>)))))))"

text \<open>The file name is checked before the file is read; a file that is not UTF-8 raises its decoding error.\<close>

definition open_tool :: "fs \<Rightarrow> path \<Rightarrow> str \<Rightarrow> str list \<Rightarrow> skill_error + local_tool" where
  "open_tool fs directory file names =
     (let p = directory @ [file]; name = stem file
      in guard_not (is_symlink fs p \<or> \<not> is_file fs p) (Skill_error (u ''Tool definition must be a regular file: '' @ show_path p))
        (guard_not (\<not> skill_word name) (Skill_error (u ''Invalid tool filename: '' @ py_repr file))
        (case utf8_strict (read_bytes fs p) of
           None \<Rightarrow> Inl (Skill_error [])
         | Some content \<Rightarrow> read_tool name (universal content) names)))"

fun open_tools :: "fs \<Rightarrow> path \<Rightarrow> str list \<Rightarrow> local_tool list \<Rightarrow> skill_error + local_tool list" where
  "open_tools fs directory [] acc = Inr acc"
| "open_tools fs directory (f # files) acc =
     try_bind (open_tool fs directory f (map lt_name acc)) (\<lambda>t. open_tools fs directory files (acc @ [t]))"

definition load_tool_files :: "fs \<Rightarrow> path \<Rightarrow> skill_error + local_tool list" where
  "load_tool_files fs directory =
     guard_not (\<not> path_exists fs directory) (Skill_error (u ''Tools directory does not exist: '' @ show_path directory))
     (guard_not (\<not> is_dir fs directory) (Skill_error (u ''Tools path is not a directory: '' @ show_path directory))
     (try_bind (open_tools fs directory (sort_key casefold (filter (\<lambda>f. endswith f (u ''.md'')) (dir_entries fs directory))) [])
       (\<lambda>ts. guard_not (ts = []) (Skill_error (u ''No TOOL definitions found in '' @ show_path directory)) (Inr ts))))"

section \<open>The catalogue\<close>

record mcp_server =
  mc_name :: str
  mc_description :: str
  mc_manager :: bool

record catalog =
  cg_tools :: skills
  cg_server_tools :: "(str, skill list) dict"
  cg_servers :: "mcp_server list"
  cg_manager_names :: "str list"
  cg_manager_prompt_tools :: "skill list"

definition unknown_tool :: "str \<Rightarrow> skill_error" where
  "unknown_tool name = Skill_error (u ''Unknown tool: '' @ name)"

definition get_tool :: "catalog \<Rightarrow> str \<Rightarrow> skill_error + skill" where
  "get_tool cg name = (case dget (cg_tools cg) name of None \<Rightarrow> Inl (unknown_tool name) | Some t \<Rightarrow> Inr t)"

fun require_tools :: "catalog \<Rightarrow> str list \<Rightarrow> skill_error + skill list" where
  "require_tools cg [] = Inr []"
| "require_tools cg (n # ns) = try_bind (get_tool cg n) (\<lambda>t. try_bind (require_tools cg ns) (\<lambda>ts. Inr (t # ts)))"

text \<open>The server in \<open>mcp:server:tool\<close>.\<close>

definition mcp_server_of :: "str \<Rightarrow> str option" where
  "mcp_server_of name =
     (case partition_on 58 name of (a, s1, r) \<Rightarrow>
        case partition_on 58 r of (server, s2, _) \<Rightarrow> if s1 \<and> s2 \<and> a = u ''mcp'' then Some server else None)"

definition duplicate_tool :: "str \<Rightarrow> skill_error" where
  "duplicate_tool name = Skill_error (u ''Duplicate tool: '' @ name)"

fun add_leaf_tools ::
  "skill list \<Rightarrow> skills \<times> (str, skill list) dict \<Rightarrow> skill_error + skills \<times> (str, skill list) dict" where
  "add_leaf_tools [] acc = Inr acc"
| "add_leaf_tools (t # ts) (tools, grouped) =
     (if dget tools (sk_name t) \<noteq> None then Inl (duplicate_tool (sk_name t))
      else case mcp_server_of (sk_name t) of
        None \<Rightarrow> Inl (Skill_error (u ''Invalid MCP tool name: '' @ sk_name t))
      | Some server \<Rightarrow>
          add_leaf_tools ts (dput (sk_name t) t tools,
            dput server ((case dget grouped server of None \<Rightarrow> [] | Some l \<Rightarrow> l) @ [t]) grouped))"

definition server_tools :: "(str, skill list) dict \<Rightarrow> mcp_server \<Rightarrow> skill list" where
  "server_tools grouped c = (case dget grouped (mc_name c) of None \<Rightarrow> [] | Some l \<Rightarrow> l)"

definition capability_name :: "mcp_server \<Rightarrow> str" where
  "capability_name c = u ''mcp:'' @ mc_name c"

definition server_description :: "mcp_server \<Rightarrow> str" where
  "server_description c = (if strip (mc_description c) = [] then u ''MCP server '' @ mc_name c else strip (mc_description c))"

text \<open>The whole capability of a server, for agents: its prompt is the prompts of its tools.\<close>

definition agent_capability :: "mcp_server \<Rightarrow> skill list \<Rightarrow> skill" where
  "agent_capability c tools = \<lparr>sk_name = capability_name c, sk_description = server_description c,
     sk_prompt = join_with [10, 10] (map sk_prompt tools)\<rparr>"

definition capability_line :: "skill \<Rightarrow> str" where
  "capability_line t = u ''- '' @ sk_name t @ (if strip (sk_description t) = [] then [] else [32, 0x2014, 32] @ strip (sk_description t))"

definition capability_prompt :: "str \<Rightarrow> str \<Rightarrow> skill list \<Rightarrow> str" where
  "capability_prompt name description tools = join_on 10
     ([u ''**[TOOL '' @ name @ u '']**'', [], u ''**name:** '' @ name, [], u ''**description:** '' @ description, [], u ''**tools:**'']
      @ map capability_line tools @ [[], u ''**[/TOOL]**''])"

definition manager_capability :: "mcp_server \<Rightarrow> skill list \<Rightarrow> skill" where
  "manager_capability c tools = \<lparr>sk_name = capability_name c, sk_description = server_description c,
     sk_prompt = capability_prompt (capability_name c) (server_description c) tools\<rparr>"

fun add_capabilities :: "(str, skill list) dict \<Rightarrow> mcp_server list \<Rightarrow> skills \<Rightarrow> skill_error + skills" where
  "add_capabilities grouped [] tools = Inr tools"
| "add_capabilities grouped (c # cs) tools =
     (let leaf = server_tools grouped c
      in if leaf = [] then add_capabilities grouped cs tools
         else if dget tools (capability_name c) \<noteq> None then Inl (duplicate_tool (capability_name c))
         else add_capabilities grouped cs (dput (capability_name c) (agent_capability c leaf) tools))"

definition manager_leaf_tools :: "(str, skill list) dict \<Rightarrow> mcp_server \<Rightarrow> skill list" where
  "manager_leaf_tools grouped c = (if mc_manager c then server_tools grouped c else [])"

definition manager_view :: "(str, skill list) dict \<Rightarrow> mcp_server \<Rightarrow> skill list" where
  "manager_view grouped c =
     (if server_tools grouped c = [] then [] else [manager_capability c (server_tools grouped c)]) @ manager_leaf_tools grouped c"

definition new_catalog :: "local_tool list \<Rightarrow> skill list \<Rightarrow> mcp_server list \<Rightarrow> skill_error + catalog" where
  "new_catalog locals leaf servers =
     (let tools = foldl (\<lambda>d t. dput (lt_name t) (as_skill t) d) [] locals; own = filter lt_manager locals
      in try_bind (add_leaf_tools leaf (tools, [])) (\<lambda>(tools1, grouped).
         try_bind (add_capabilities grouped servers tools1) (\<lambda>tools2.
           Inr \<lparr>cg_tools = tools2, cg_server_tools = grouped, cg_servers = servers,
             cg_manager_names = map lt_name own @ map sk_name (concat (map (manager_leaf_tools grouped) servers)),
             cg_manager_prompt_tools = map as_skill own @ concat (map (manager_view grouped) servers)\<rparr>)))"

definition tool_names :: "catalog \<Rightarrow> str list" where
  "tool_names cg = dkeys (cg_tools cg)"

definition tools_text :: "catalog \<Rightarrow> str" where
  "tools_text cg = join_on 10 (map (\<lambda>(n, t). n @ [32, 0x2014, 32] @ sk_description t) (cg_tools cg))"

section \<open>Snapshots\<close>

definition snapshot_text :: "catalog \<Rightarrow> mcp_server \<Rightarrow> str" where
  "snapshot_text cg c =
     (let tools = server_tools (cg_server_tools cg) c
      in rstrip (join_on 10 ([u ''# Generated from MCP tools/list at CORE startup. Do not edit.'', u ''server: '' @ mc_name c,
           u ''manager: '' @ (if mc_manager c then u ''true'' else u ''false''), u ''description: '' @ server_description c,
           u ''tools: '' @ show_nat (length tools), []] @ map sk_prompt tools)) @ [10])"

definition snapshots :: "catalog \<Rightarrow> (str, str) dict" where
  "snapshots cg = foldl (\<lambda>d c. dput (mc_name c @ u ''.md'') (snapshot_text cg c) d) [] (cg_servers cg)"

fun remove_files :: "path \<Rightarrow> str list \<Rightarrow> fs \<Rightarrow> (fs_exc + unit) \<times> fs" where
  "remove_files directory [] fs = (Inr (), fs)"
| "remove_files directory (f # files) fs =
     then_do (on_tree (os_unlink fs (directory @ [f])) (directory @ [f]) fs) (\<lambda>_ fs'. remove_files directory files fs')"

fun write_files :: "path \<Rightarrow> (str \<times> str) list \<Rightarrow> fs \<Rightarrow> (fs_exc + unit) \<times> fs" where
  "write_files directory [] fs = (Inr (), fs)"
| "write_files directory ((f, txt) # files) fs =
     (let p = directory @ [f]; bs = concat (map utf8_char txt)
      in if is_file fs p \<and> map_option universal (utf8_strict (read_bytes fs p)) = Some txt then write_files directory files fs
         else then_do (on_tree (os_write fs p (\<lambda>_. bs)) p fs) (\<lambda>_ fs'. write_files directory files fs'))"

definition stale_files :: "fs \<Rightarrow> path \<Rightarrow> (str, str) dict \<Rightarrow> str list" where
  "stale_files fs directory expected =
     (let stale = filter (\<lambda>f. dget expected f = None) (dir_entries fs directory)
      in filter (\<lambda>f. endswith f (u ''.md'')) stale @ filter (\<lambda>f. endswith f (u ''.txt'')) stale)"

definition sync_snapshots :: "path \<Rightarrow> (str, str) dict \<Rightarrow> fs \<Rightarrow> (fs_exc + unit) \<times> fs" where
  "sync_snapshots directory expected fs =
     then_do (path_mkdir True True directory fs) (\<lambda>_ fs1.
     then_do (remove_files directory (stale_files fs1 directory expected) fs1) (\<lambda>_ fs2. write_files directory expected fs2))"

section \<open>Properties\<close>

text \<open>What the manager may call is in the catalogue, and so is every tool of a capability an agent is given.\<close>

lemma add_leaf_keeps:
  "add_leaf_tools ts (tools, grouped) = Inr (tools', grouped') \<Longrightarrow> dget tools n = Some s \<Longrightarrow> dget tools' n = Some s"
proof (induction ts arbitrary: tools grouped)
  case (Cons t ts)
  have "n \<noteq> sk_name t" using Cons.prems by (auto split: if_splits)
  then show ?case
    using Cons.prems Cons.IH [of "dput (sk_name t) t tools"] by (auto split: if_splits option.splits)
qed simp

lemma add_leaf_grouped:
  "add_leaf_tools ts (tools, grouped) = Inr (tools', grouped') \<Longrightarrow>
   (\<forall>server l t. dget grouped server = Some l \<longrightarrow> t \<in> set l \<longrightarrow> dget tools (sk_name t) = Some t) \<Longrightarrow>
   dget grouped' server = Some l \<Longrightarrow> t \<in> set l \<Longrightarrow> dget tools' (sk_name t) = Some t"
proof (induction ts arbitrary: tools grouped)
  case (Cons a ts)
  obtain sv where sv: "mcp_server_of (sk_name a) = Some sv" "dget tools (sk_name a) = None"
    using Cons.prems(1) by (auto split: if_splits option.splits)
  let ?g = "dput sv ((case dget grouped sv of None \<Rightarrow> [] | Some l \<Rightarrow> l) @ [a]) grouped"
  have "dget (dput (sk_name a) a tools) (sk_name t) = Some t" if "dget ?g server = Some l" "t \<in> set l" for server l t
  proof (cases "t = a")
    case False
    then have "\<exists>server l. dget grouped server = Some l \<and> t \<in> set l"
      using that by (force split: if_splits option.splits)
    then have "dget tools (sk_name t) = Some t" using Cons.prems(2) by blast
    then show ?thesis using sv(2) by auto
  qed simp
  then show ?case using Cons sv by (auto split: if_splits)
qed auto

lemma add_capabilities_keeps:
  "add_capabilities grouped cs tools = Inr tools' \<Longrightarrow> dget tools n = Some s \<Longrightarrow> dget tools' n = Some s"
proof (induction cs arbitrary: tools)
  case (Cons c cs)
  show ?case
  proof (cases "n = capability_name c")
    case True
    then show ?thesis using Cons by (auto simp: Let_def split: if_splits)
  next
    case False
    then show ?thesis
      using Cons.prems Cons.IH [of tools] Cons.IH [of "dput (capability_name c) (agent_capability c (server_tools grouped c)) tools"]
      by (auto simp: Let_def split: if_splits)
  qed
qed simp

lemma add_capabilities_has:
  "add_capabilities grouped cs tools = Inr tools' \<Longrightarrow> c \<in> set cs \<Longrightarrow> server_tools grouped c \<noteq> [] \<Longrightarrow>
   \<exists>d. d \<in> set cs \<and> capability_name d = capability_name c \<and>
     dget tools' (capability_name c) = Some (agent_capability d (server_tools grouped d))"
proof (induction cs arbitrary: tools)
  case (Cons a cs)
  show ?case
  proof (cases "c = a")
    case True
    then show ?thesis using Cons.prems add_capabilities_keeps by (fastforce simp: Let_def split: if_splits)
  next
    case False
    then show ?thesis using Cons by (fastforce simp: Let_def split: if_splits)
  qed
qed simp

lemma local_tools_known:
  "dget d n \<noteq> None \<or> n \<in> set (map lt_name locals) \<Longrightarrow> dget (foldl (\<lambda>d t. dput (lt_name t) (as_skill t) d) d locals) n \<noteq> None"
proof (induction locals arbitrary: d)
  case (Cons t locals)
  then show ?case by (cases "n = lt_name t") auto
qed auto

lemma require_tools_known: "(\<And>n. n \<in> set ns \<Longrightarrow> dget (cg_tools cg) n \<noteq> None) \<Longrightarrow> \<exists>ts. require_tools cg ns = Inr ts"
  by (induction ns) (force simp: get_tool_def)+

text \<open>The catalogue is closed: every tool the manager may call directly is one of its tools, and the capability of
  every server with tools is there for the agents, with the prompt of each of its tools, which are themselves in it.\<close>

theorem catalog_is_closed:
  assumes "new_catalog locals leaf servers = Inr cg"
  shows "(\<exists>ts. require_tools cg (cg_manager_names cg) = Inr ts)
    \<and> (\<forall>c \<in> set servers. \<forall>t \<in> set (server_tools (cg_server_tools cg) c).
         get_tool cg (sk_name t) = Inr t
         \<and> (\<exists>k. get_tool cg (capability_name c) = Inr k \<and> occurs (sk_prompt t) (sk_prompt k)))"
proof -
  let ?tools = "foldl (\<lambda>d t. dput (lt_name t) (as_skill t) d) [] locals"
  obtain tools1 grouped where l: "add_leaf_tools leaf (?tools, []) = Inr (tools1, grouped)"
    and c: "add_capabilities grouped servers tools1 = Inr (cg_tools cg)"
    and g: "cg_server_tools cg = grouped"
    and n: "cg_manager_names cg = map lt_name (filter lt_manager locals) @ map sk_name (concat (map (manager_leaf_tools grouped) servers))"
    using assms by (auto simp: new_catalog_def Let_def)
  have leaf: "dget (cg_tools cg) (sk_name t) = Some t" if t: "t \<in> set (server_tools grouped s)" for t s
  proof -
    obtain l where "dget grouped (mc_name s) = Some l" "t \<in> set l"
      using t by (cases "dget grouped (mc_name s)") (auto simp: server_tools_def)
    then have "dget tools1 (sk_name t) = Some t"
      using add_leaf_grouped [OF l, of "mc_name s" l t] by simp
    then show ?thesis by (rule add_capabilities_keeps [OF c])
  qed
  have "dget (cg_tools cg) m \<noteq> None" if "m \<in> set (cg_manager_names cg)" for m
  proof -
    have "m \<in> set (map lt_name locals) \<or> (\<exists>s. m \<in> sk_name ` set (manager_leaf_tools grouped s))"
      using that by (auto simp: n)
    moreover have "set (manager_leaf_tools grouped s) \<subseteq> set (server_tools grouped s)" for s
      by (auto simp: manager_leaf_tools_def)
    ultimately consider "m \<in> set (map lt_name locals)" | t s where "t \<in> set (server_tools grouped s)" "m = sk_name t"
      by blast
    then show ?thesis
    proof cases
      case 1
      then obtain x where "dget ?tools m = Some x" using local_tools_known [of "[]" m locals] by auto
      then show ?thesis using add_leaf_keeps [OF l] add_capabilities_keeps [OF c] by fastforce
    qed (use leaf in simp)
  qed
  then have known: "\<exists>ts. require_tools cg (cg_manager_names cg) = Inr ts" by (rule require_tools_known)
  have cap: "\<exists>k. get_tool cg (capability_name s) = Inr k \<and> occurs (sk_prompt t) (sk_prompt k)"
    if s: "s \<in> set servers" and t: "t \<in> set (server_tools grouped s)" for s t
  proof -
    obtain d where d: "capability_name d = capability_name s"
      "dget (cg_tools cg) (capability_name s) = Some (agent_capability d (server_tools grouped d))"
      using add_capabilities_has [OF c s] t by fastforce
    have "server_tools grouped d = server_tools grouped s"
      using d(1) by (simp add: capability_name_def server_tools_def)
    then have "occurs (sk_prompt t) (sk_prompt (agent_capability d (server_tools grouped d)))"
      using t by (auto simp: agent_capability_def intro!: occurs_join)
    then show ?thesis using d(2) by (simp add: get_tool_def)
  qed
  show ?thesis using known leaf cap by (auto simp: g get_tool_def [of cg "sk_name _"])
qed

definition sample_leaf :: skill where
  "sample_leaf = \<lparr>sk_name = u ''mcp:s:t'', sk_description = u ''d'', sk_prompt = u ''p''\<rparr>"

definition sample_server :: mcp_server where
  "sample_server = \<lparr>mc_name = u ''s'', mc_description = [], mc_manager = True\<rparr>"

definition sample_catalog :: catalog where
  "sample_catalog = \<lparr>cg_tools = [(u ''mcp:s:t'', sample_leaf), (u ''mcp:s'', agent_capability sample_server [sample_leaf])],
     cg_server_tools = [(u ''s'', [sample_leaf])], cg_servers = [sample_server], cg_manager_names = [u ''mcp:s:t''],
     cg_manager_prompt_tools = [manager_capability sample_server [sample_leaf], sample_leaf]\<rparr>"

lemma catalog_is_closed_witness:
  "(\<exists>ts. require_tools sample_catalog (cg_manager_names sample_catalog) = Inr ts)
    \<and> (\<forall>c \<in> set [sample_server]. \<forall>t \<in> set (server_tools (cg_server_tools sample_catalog) c).
         get_tool sample_catalog (sk_name t) = Inr t
         \<and> (\<exists>k. get_tool sample_catalog (capability_name c) = Inr k \<and> occurs (sk_prompt t) (sk_prompt k)))"
proof (rule catalog_is_closed)
  have "mcp_server_of (u ''mcp:s:t'') = Some (u ''s'')" by (simp add: mcp_server_of_def partition_on_def text_eval)
  then show "new_catalog [] [sample_leaf] [sample_server] = Inr sample_catalog"
    by (simp add: new_catalog_def sample_catalog_def sample_leaf_def sample_server_def server_tools_def
        capability_name_def manager_leaf_tools_def manager_view_def text_eval)
qed

end
