(* ===== verification/AgentRun.thy ===== *)
theory AgentRun
  imports AgentProps Catalog
begin

text \<open>
  Running an agent to its outcome. The loop \<open>while True\<close> of \<open>_drive\<close> is a total function: its
  termination is the measure of AgentProps. On top of it, what the managers do with the pool of
  workers they share (the office): take a free worker, start it, let it go on, put it to sleep.
\<close>

section \<open>The loop of an agent\<close>

function run_agent :: "(nat \<Rightarrow> step_env) \<Rightarrow> agent_session \<Rightarrow> (agent_exc + agent_outcome) \<times> agent_session" where
  "run_agent envs s =
     (case agent_step (envs 0) s of
        (Inl e, s') \<Rightarrow> (Inl e, s')
      | (Inr (Some out), s') \<Rightarrow> (Inr out, s')
      | (Inr None, s') \<Rightarrow> run_agent (\<lambda>i. envs (Suc i)) s')"
  by pat_completeness auto

termination
proof (relation "inv_image closer (\<lambda>(envs, s). fst s)", goal_cases)
  case 1
  show ?case by (intro wf_inv_image wf_closer)
next
  case (2 envs s r s' out)
  then show ?case using agent_step_closer [of "envs 0" "fst s" "snd s" "fst s'" "snd s'"] by simp
qed

declare run_agent.simps [simp del]

text \<open>The loop is \<open>drive_agent\<close> with enough environments.\<close>

lemma run_agent_drives:
  "\<exists>n. drive_agent (map envs [0..<n]) s = (Some (fst (run_agent envs s)), snd (run_agent envs s))"
proof (induction envs s rule: run_agent.induct)
  case (1 envs s)
  obtain r s' where r: "agent_step (envs 0) s = (r, s')" by (cases "agent_step (envs 0) s")
  show ?case
  proof (cases "r = Inr None")
    case True
    obtain n where "drive_agent (map (\<lambda>i. envs (Suc i)) [0..<n]) s'
        = (Some (fst (run_agent (\<lambda>i. envs (Suc i)) s')), snd (run_agent (\<lambda>i. envs (Suc i)) s'))"
      using 1 r True by (cases s') fastforce
    then have "drive_agent (envs 0 # map (\<lambda>i. envs (Suc i)) [0..<n]) s = (Some (fst (run_agent envs s)), snd (run_agent envs s))"
      using r True by (simp add: run_agent.simps [of envs s])
    moreover have "map envs [0..<Suc n] = envs 0 # map (\<lambda>i. envs (Suc i)) [0..<n]"
      by (simp add: upt_conv_Cons map_Suc_upt [symmetric] comp_def del: upt_Suc)
    ultimately show ?thesis by metis
  next
    case False
    then have "drive_agent (map envs [0..<1]) s = (Some (fst (run_agent envs s)), snd (run_agent envs s))"
      using r by (auto simp: run_agent.simps [of envs s] split: sum.split option.split)
    then show ?thesis by blast
  qed
qed

text \<open>A run keeps the worker well-formed, and leaves it at rest unless it needs something or raised.\<close>

lemma run_agent_ok:
  "worker_ok (fst s) \<Longrightarrow> worker_ok (fst (snd (run_agent envs s)))
    \<and> (\<forall>out. fst (run_agent envs s) = Inr out \<longrightarrow> ao_status out \<noteq> Need \<longrightarrow> at_rest (fst (snd (run_agent envs s))))"
proof (induction envs s rule: run_agent.induct)
  case (1 envs s)
  obtain r s' where r: "agent_step (envs 0) s = (r, s')" by (cases "agent_step (envs 0) s")
  have ok: "step_ok (r, s')" using agent_step_ok [of "fst s" "envs 0" "snd s"] 1(2) r by simp
  then have w: "worker_ok (fst s')" by (simp add: step_ok_def)
  show ?case
  proof (cases "r = Inr None")
    case True
    then show ?thesis using 1(1) [OF r [symmetric]] w r by (simp add: run_agent.simps [of envs s])
  next
    case False
    then show ?thesis using ok w r
      by (auto simp: run_agent.simps [of envs s] step_ok_def split: sum.split option.split)
  qed
qed

section \<open>The office\<close>

record office =
  of_workers :: "(str, worker) dict"
  of_event_worker :: "str option"
  of_world :: world
  of_catalog :: catalog

definition pool :: "('a) office_scheme \<Rightarrow> agent_pool" where
  "pool off = \<lparr>ap_workers = dmap aw_state (of_workers off), ap_event_worker = of_event_worker off\<rparr>"

definition free_worker :: "('a) office_scheme \<Rightarrow> str option" where
  "free_worker off = acquire (pool off)"

definition free_event_worker :: "('a) office_scheme \<Rightarrow> str option" where
  "free_event_worker off = acquire_event (pool off)"

text \<open>Do something with a worker of the office.\<close>

definition with_worker :: "str \<Rightarrow> (agent_session \<Rightarrow> 'r \<times> agent_session) \<Rightarrow> 'r \<Rightarrow> ('a) office_scheme \<Rightarrow> 'r \<times> ('a) office_scheme" where
  "with_worker ident f missing off =
     (case dget (of_workers off) ident of
        None \<Rightarrow> (missing, off)
      | Some w \<Rightarrow>
          (case f (w, of_world off) of (r, (w', wo)) \<Rightarrow>
             (r, off\<lparr>of_workers := dput ident w' (of_workers off), of_world := wo\<rparr>)))"

definition no_worker :: agent_exc where "no_worker = Other_exc []"

definition start_worker ::
  "(nat \<Rightarrow> step_env) \<Rightarrow> str \<Rightarrow> str \<Rightarrow> skill list \<Rightarrow> str option \<Rightarrow> ('a) office_scheme \<Rightarrow> (agent_exc + agent_outcome) \<times> ('a) office_scheme" where
  "start_worker envs ident task skills method =
     with_worker ident (\<lambda>s. then_do (begin_task task skills method s) (\<lambda>_. run_agent envs)) (Inl no_worker)"

definition continue_worker ::
  "(nat \<Rightarrow> step_env) \<Rightarrow> str \<Rightarrow> str \<Rightarrow> ('a) office_scheme \<Rightarrow> (agent_exc + agent_outcome) \<times> ('a) office_scheme" where
  "continue_worker envs ident context =
     with_worker ident (\<lambda>s. then_do (resume_agent context s) (\<lambda>_. run_agent envs)) (Inl no_worker)"

definition step_worker :: "step_env \<Rightarrow> str \<Rightarrow> ('a) office_scheme \<Rightarrow> (agent_exc + agent_outcome option) \<times> ('a) office_scheme" where
  "step_worker env ident = with_worker ident (agent_step env) (Inl no_worker)"

definition begin_worker ::
  "str \<Rightarrow> str \<Rightarrow> skill list \<Rightarrow> str option \<Rightarrow> ('a) office_scheme \<Rightarrow> (agent_exc + unit) \<times> ('a) office_scheme" where
  "begin_worker ident task skills method = with_worker ident (begin_task task skills method) (Inl no_worker)"

definition worker_state :: "('a) office_scheme \<Rightarrow> str \<Rightarrow> agent_state option" where
  "worker_state off ident = map_option aw_state (dget (of_workers off) ident)"

text \<open>\<open>sleep_to_base\<close>, and its use in an exception handler: only when the worker is not free.\<close>

definition sleep_worker :: "step_env \<Rightarrow> str \<Rightarrow> ('a) office_scheme \<Rightarrow> ('a) office_scheme" where
  "sleep_worker env ident off = snd (with_worker ident (\<lambda>s. ((), sleep_to_base env s)) () off)"

definition settle_worker :: "step_env \<Rightarrow> str \<Rightarrow> ('a) office_scheme \<Rightarrow> ('a) office_scheme" where
  "settle_worker env ident off = (if worker_state off ident = Some Free then off else sleep_worker env ident off)"

section \<open>The office stays in order\<close>

definition office_ok :: "('a) office_scheme \<Rightarrow> bool" where
  "office_ok off \<longleftrightarrow> dwf (of_workers off) \<and> (\<forall>i w. dget (of_workers off) i = Some w \<longrightarrow> worker_ok w)"

lemma with_worker_ok:
  assumes "office_ok off" "\<And>w wo. worker_ok w \<Longrightarrow> worker_ok (fst (snd (f (w, wo))))"
  shows "office_ok (snd (with_worker ident f missing off))"
  using assms unfolding with_worker_def office_ok_def
  by (auto split: option.split prod.split) (metis fst_conv snd_conv)

lemma run_worker_ok: "worker_ok w \<Longrightarrow> worker_ok (fst (snd (run_agent envs (w, wo))))"
  using run_agent_ok [of "(w, wo)" envs] by simp

lemma then_run_ok:
  "worker_ok (fst (snd r)) \<Longrightarrow> worker_ok (fst (snd (then_do r (\<lambda>_. run_agent envs))))"
  by (cases r; cases "fst r") (auto simp: then_do_def run_agent_ok)

lemma start_worker_ok: "office_ok off \<Longrightarrow> office_ok (snd (start_worker envs ident task skills method off))"
  unfolding start_worker_def by (rule with_worker_ok) (simp_all add: then_run_ok begin_task_ok)

lemma continue_worker_ok: "office_ok off \<Longrightarrow> office_ok (snd (continue_worker envs ident context off))"
  unfolding continue_worker_def by (rule with_worker_ok) (simp_all add: then_run_ok resume_ok)

lemma step_worker_ok: "office_ok off \<Longrightarrow> office_ok (snd (step_worker env ident off))"
  unfolding step_worker_def by (rule with_worker_ok) (use agent_step_ok in \<open>auto simp: step_ok_def\<close>)

lemma begin_worker_ok: "office_ok off \<Longrightarrow> office_ok (snd (begin_worker ident task skills method off))"
  unfolding begin_worker_def by (rule with_worker_ok) (simp_all add: begin_task_ok)

lemma sleep_worker_ok: "office_ok off \<Longrightarrow> office_ok (sleep_worker env ident off)"
  unfolding sleep_worker_def by (rule with_worker_ok) (simp_all add: at_rest_ok sleep_rest)

lemma settle_worker_ok: "office_ok off \<Longrightarrow> office_ok (settle_worker env ident off)"
  by (simp add: settle_worker_def sleep_worker_ok)

text \<open>A worker that was put to sleep can be taken again.\<close>

lemma sleep_worker_free:
  "office_ok off \<Longrightarrow> worker_state off ident \<noteq> None \<Longrightarrow> worker_state (sleep_worker env ident off) ident = Some Free"
proof -
  assume off: "office_ok off" "worker_state off ident \<noteq> None"
  then obtain w where w: "dget (of_workers off) ident = Some w" by (auto simp: worker_state_def)
  have "at_rest (fst (sleep_to_base env (w, of_world off)))"
    using off w by (intro sleep_rest) (simp add: office_ok_def)
  then show ?thesis using w
    by (auto simp: sleep_worker_def with_worker_def worker_state_def at_rest_def split: prod.split)
qed

lemma settle_worker_free:
  "office_ok off \<Longrightarrow> worker_state off ident \<noteq> None \<Longrightarrow> worker_state (settle_worker env ident off) ident = Some Free"
  by (simp add: settle_worker_def sleep_worker_free)

lemma with_worker_known [simp]:
  "worker_state (snd (with_worker ident f missing off)) j = None \<longleftrightarrow> worker_state off j = None"
  by (auto simp: with_worker_def worker_state_def split: option.split prod.split)

end
