(* ===== verification/MqttEvents.thy ===== *)
theory MqttEvents
  imports WorkRuntime Events
begin

text \<open>
  External events from MQTT (orchestration/mqtt_events.py): the rules for discrete fields in the MQTT
  catalogue, and the monitor that turns the messages of the broker into changes of the watched
  fields. The monitor reads lines of \<open>mosquitto_sub\<close>; its process and thread are left out, and what
  the callback does with an event is not its concern. \<open>json.loads\<close> is the parameter \<open>loads\<close>.
\<close>

section \<open>Rules of the catalogue\<close>

record field_rule =
  fu_topic :: str
  fu_field :: str
  fu_type :: str
  fu_values :: "str list"

type_synonym rules = "((str \<times> str), field_rule) dict"

text \<open>An identifier up to a colon or another end, the rest of the text after it.\<close>

definition take_name :: "str \<Rightarrow> (str \<times> str) option" where
  "take_name s =
     (let n = takeWhile (\<lambda>c. name_start c \<or> is_digit c) s
      in if field_name n then Some (n, drop (length n) s) else None)"

text \<open>The part of \<open>_FIELD_RULE_RE\<close> after the description: field, type and the values in parentheses.\<close>

definition rule_tail :: "str \<Rightarrow> (str \<times> str \<times> str) option" where
  "rule_tail s =
     Option.bind (take_name (lstrip s)) (\<lambda>(field, r1).
       case r1 of [] \<Rightarrow> None
       | c # r2 \<Rightarrow>
           if c \<noteq> 58 then None
           else Option.bind (take_name (lstrip r2)) (\<lambda>(value_type, r3).
             case lstrip r3 of [] \<Rightarrow> None
             | d # r4 \<Rightarrow>
                 (let body = rstrip (lstrip r4)
                  in if d = 59 \<and> 2 < length body \<and> hd body = 40 \<and> last body = 41
                     then Some (field, value_type, butlast (tl body)) else None)))"

text \<open>The description is greedy: the last semicolon counts after which the rest fits.\<close>

fun last_rule :: "str \<Rightarrow> (str \<times> str \<times> str) option" where
  "last_rule [] = None"
| "last_rule (c # cs) =
     (case last_rule cs of Some r \<Rightarrow> Some r | None \<Rightarrow> if c = 59 then rule_tail cs else None)"

definition rule_line :: "str \<Rightarrow> (str \<times> str \<times> str \<times> str) option" where
  "rule_line line =
     (case partition_on 58 line of (topic, sep, rest) \<Rightarrow>
        if sep \<and> topic \<noteq> [] \<and> \<not> list_ex is_space topic then map_option (Pair topic) (last_rule rest) else None)"

text \<open>A rule with a wrong value is an error, with the number of its line.\<close>

datatype rule_error = No_meaning nat | Not_boolean nat | Empty_value nat | Bad_values nat | No_rule str str

fun rule_values :: "nat \<Rightarrow> str \<Rightarrow> str list \<Rightarrow> rule_error + str list" where
  "rule_values n value_type [] = Inr []"
| "rule_values n value_type (item # items) =
     (case partition_on 58 item of (token, sep, _) \<Rightarrow>
        let boolean = (value_type = u ''boolean''); v = (if boolean then lower (strip token) else strip token)
        in guard_not (\<not> sep) (No_meaning n)
          (guard_not (boolean \<and> v \<noteq> u ''true'' \<and> v \<noteq> u ''false'') (Not_boolean n)
          (guard_not (v = []) (Empty_value n)
            (try_bind (rule_values n value_type items) (\<lambda>vs. Inr (v # vs))))))"

definition skipped_line :: "str \<Rightarrow> bool" where
  "skipped_line line \<longleftrightarrow> line = [] \<or> line = u ''topics:'' \<or> line = u ''**topics:**'' \<or> startswith line (u ''```'')"

fun read_rules :: "nat \<Rightarrow> str list \<Rightarrow> rules \<Rightarrow> rule_error + rules" where
  "read_rules n [] acc = Inr acc"
| "read_rules n (raw # raws) acc =
     (let line = strip raw
      in case (if skipped_line line then None else rule_line line) of
           None \<Rightarrow> read_rules (Suc n) raws acc
         | Some (topic, field, type0, body) \<Rightarrow>
             (let value_type = lower (strip type0)
              in try_bind (rule_values n value_type (split_on 44 body)) (\<lambda>vs.
                   guard_not (vs = [] \<or> \<not> distinct vs) (Bad_values n)
                   (read_rules (Suc n) raws (dput (strip topic, strip field)
                      \<lparr>fu_topic = strip topic, fu_field = strip field, fu_type = value_type, fu_values = vs\<rparr> acc)))))"

definition load_rules :: "str \<Rightarrow> rule_error + rules" where
  "load_rules txt = read_rules 1 (splitlines txt) []"

definition require_rule :: "rules \<Rightarrow> str \<Rightarrow> str \<Rightarrow> rule_error + field_rule" where
  "require_rule rules topic field =
     (case dget rules (strip topic, strip field) of
        None \<Rightarrow> Inl (No_rule (strip topic) (strip field)) | Some r \<Rightarrow> Inr r)"

section \<open>The monitor\<close>

record monitor =
  mo_active :: "((str \<times> str), str) dict"
  mo_last :: "(str, (str \<times> json) list) dict"

datatype config_error = Not_object | Empty_topic | Bad_fields str | Empty_field str | Not_scalar

definition config_value :: "(pyfloat \<Rightarrow> str) \<Rightarrow> json \<Rightarrow> config_error + str" where
  "config_value fl v = (case v of
       JBool b \<Rightarrow> Inr (if b then u ''true'' else u ''false'') | JStr s \<Rightarrow> Inr s | JNull \<Rightarrow> Inr (u ''null'')
     | JInt i \<Rightarrow> Inr (show_int i) | JFloat x \<Rightarrow> Inr (fl x) | _ \<Rightarrow> Inl Not_scalar)"

fun active_fields ::
  "(pyfloat \<Rightarrow> str) \<Rightarrow> str \<Rightarrow> (str \<times> json) list \<Rightarrow> ((str \<times> str), str) dict \<Rightarrow> config_error + ((str \<times> str), str) dict" where
  "active_fields fl topic [] acc = Inr acc"
| "active_fields fl topic ((field, v) # fs) acc =
     guard_not (strip field = []) (Empty_field topic)
       (try_bind (config_value fl v) (\<lambda>s. active_fields fl topic fs (dput (strip topic, strip field) s acc)))"

fun active_topics ::
  "(pyfloat \<Rightarrow> str) \<Rightarrow> (str \<times> json) list \<Rightarrow> ((str \<times> str), str) dict \<Rightarrow> config_error + ((str \<times> str), str) dict" where
  "active_topics fl [] acc = Inr acc"
| "active_topics fl ((topic, v) # ts) acc =
     guard_not (strip topic = []) Empty_topic
       (case v of
          JObj fs \<Rightarrow> guard_not (fs = []) (Bad_fields topic)
            (try_bind (active_fields fl topic fs acc) (\<lambda>acc'. active_topics fl ts acc'))
        | _ \<Rightarrow> Inl (Bad_fields topic))"

definition load_active :: "(pyfloat \<Rightarrow> str) \<Rightarrow> json \<Rightarrow> config_error + ((str \<times> str), str) dict" where
  "load_active fl v = (case v of JObj ps \<Rightarrow> active_topics fl ps [] | _ \<Rightarrow> Inl Not_object)"

definition canonical_value :: "(pyfloat \<Rightarrow> str) \<Rightarrow> json \<Rightarrow> str \<Rightarrow> str option" where
  "canonical_value fl v value_type =
     (if value_type = u ''boolean'' then (case v of JBool b \<Rightarrow> Some (if b then u ''true'' else u ''false'') | _ \<Rightarrow> None)
      else (case v of JStr s \<Rightarrow> Some s | JNull \<Rightarrow> Some (u ''null'') | JBool b \<Rightarrow> Some (if b then u ''true'' else u ''false'')
              | JInt i \<Rightarrow> Some (show_int i) | JFloat x \<Rightarrow> Some (fl x) | _ \<Rightarrow> None))"

text \<open>The topic and the object of a line; other lines are ignored.\<close>

definition message_of :: "(str \<Rightarrow> json option) \<Rightarrow> str \<Rightarrow> (str \<times> (str \<times> json) list) option" where
  "message_of loads raw =
     (case partition_on 32 (strip raw) of (topic, sep, payload) \<Rightarrow>
        if \<not> sep \<or> topic = [] \<or> payload = [] then None
        else (case loads payload of Some (JObj ps) \<Rightarrow> Some (topic, ps) | _ \<Rightarrow> None))"

text \<open>What a message means for a binding: the value to emit.\<close>

definition change_of ::
  "(pyfloat \<Rightarrow> str) \<Rightarrow> monitor \<Rightarrow> str \<Rightarrow> (str \<times> json) list \<Rightarrow> binding \<Rightarrow> str option" where
  "change_of fl mo topic payload b =
     (if b_source b \<noteq> u ''mqtt'' \<or> b_topic b \<noteq> topic then None
      else case Option.bind (dget payload (b_field b)) (\<lambda>v. canonical_value fl v (b_value_type b)) of
        None \<Rightarrow> None
      | Some current \<Rightarrow>
          (case Option.bind (dget (mo_last mo) topic) (\<lambda>p. dget p (b_field b)) of
             None \<Rightarrow> if dget (mo_active mo) (b_topic b, b_field b) = Some current then Some current else None
           | Some old \<Rightarrow>
               (case canonical_value fl old (b_value_type b) of
                  None \<Rightarrow> None
                | Some previous \<Rightarrow> if previous = current then None else Some current)))"

definition consume_line ::
  "(str \<Rightarrow> json option) \<Rightarrow> (pyfloat \<Rightarrow> str) \<Rightarrow> event_store \<Rightarrow> monitor \<Rightarrow> str \<Rightarrow> monitor \<times> (binding \<times> str) list" where
  "consume_line loads fl store mo raw =
     (case message_of loads raw of
        None \<Rightarrow> (mo, [])
      | Some (topic, payload) \<Rightarrow>
          (mo\<lparr>mo_last := dput topic payload (mo_last mo)\<rparr>,
           List.map_filter (\<lambda>b. map_option (Pair b) (change_of fl mo topic payload b)) (list_bindings store)))"

fun consume ::
  "(str \<Rightarrow> json option) \<Rightarrow> (pyfloat \<Rightarrow> str) \<Rightarrow> event_store \<Rightarrow> monitor \<Rightarrow> str list \<Rightarrow> (binding \<times> str) list" where
  "consume loads fl store mo [] = []"
| "consume loads fl store mo (raw # raws) =
     (case consume_line loads fl store mo raw of (mo', es) \<Rightarrow> es @ consume loads fl store mo' raws)"

section \<open>Every change once\<close>

text \<open>The successive readings of the field a binding watches; \<open>None\<close> where a message has no such value.\<close>

definition readings :: "(str \<Rightarrow> json option) \<Rightarrow> (pyfloat \<Rightarrow> str) \<Rightarrow> binding \<Rightarrow> str list \<Rightarrow> str option list" where
  "readings loads fl b raws =
     List.map_filter (\<lambda>raw. case message_of loads raw of
        Some (topic, payload) \<Rightarrow>
          if topic = b_topic b
          then Some (Option.bind (dget payload (b_field b)) (\<lambda>v. canonical_value fl v (b_value_type b))) else None
      | None \<Rightarrow> None) raws"

definition emitted :: "binding \<Rightarrow> (binding \<times> str) list \<Rightarrow> str list" where
  "emitted b es = map snd (filter (\<lambda>e. fst e = b) es)"

text \<open>The last reading the monitor knows.\<close>

definition known_value :: "(pyfloat \<Rightarrow> str) \<Rightarrow> monitor \<Rightarrow> binding \<Rightarrow> str option" where
  "known_value fl mo b =
     Option.bind (dget (mo_last mo) (b_topic b)) (\<lambda>p. Option.bind (dget p (b_field b)) (\<lambda>v. canonical_value fl v (b_value_type b)))"

lemma emitted_append [simp]: "emitted b (xs @ ys) = emitted b xs @ emitted b ys"
  by (simp add: emitted_def)

lemma emitted_once:
  "distinct bs \<Longrightarrow> emitted b (List.map_filter (\<lambda>x. map_option (Pair x) (f x)) bs)
     = (if b \<in> set bs then (case f b of None \<Rightarrow> [] | Some v \<Rightarrow> [v]) else [])"
  by (induction bs) (auto simp: emitted_def List.map_filter_simps split: option.split)

lemma list_bindings_distinct: "events_ok st \<Longrightarrow> distinct (list_bindings st)"
proof -
  assume ok: "events_ok st"
  have "inj_on (\<lambda>k. the (dget (es_bindings st) k)) (set (dkeys (es_bindings st)))"
    using ok by (intro inj_onI) (metis dget_None_iff events_ok_def option.collapse)
  then show ?thesis using ok by (simp add: list_bindings_def distinct_map events_ok_def dwf_def dkeys_def)
qed

lemma readings_Cons:
  "readings loads fl b (raw # raws) =
     (case message_of loads raw of
        Some (topic, payload) \<Rightarrow>
          (if topic = b_topic b
           then [Option.bind (dget payload (b_field b)) (\<lambda>v. canonical_value fl v (b_value_type b))] else [])
      | None \<Rightarrow> []) @ readings loads fl b raws"
  by (auto simp: readings_def List.map_filter_simps split: option.split)

text \<open>From a known reading on, the events are the readings with repetitions removed.\<close>

lemma consume_known:
  assumes "distinct (list_bindings store)" "b \<in> set (list_bindings store)" "b_source b = u ''mqtt''"
    "readings loads fl b raws = map Some vs" "known_value fl mo b = Some v"
  shows "v # emitted b (consume loads fl store mo raws) = remdups_adj (v # vs)"
  using assms(4,5)
proof (induction raws arbitrary: mo vs v)
  case Nil
  then show ?case by (simp add: readings_def List.map_filter_simps emitted_def)
next
  case (Cons raw raws)
  show ?case
  proof (cases "message_of loads raw")
    case None
    then show ?thesis using Cons by (simp add: readings_Cons consume_line_def emitted_def)
  next
    case (Some m)
    obtain topic payload where m: "m = (topic, payload)" by fastforce
    let ?mo = "mo\<lparr>mo_last := dput topic payload (mo_last mo)\<rparr>"
    let ?es = "List.map_filter (\<lambda>b. map_option (Pair b) (change_of fl mo topic payload b)) (list_bindings store)"
    have c: "consume loads fl store mo (raw # raws) = ?es @ consume loads fl store ?mo raws"
      using Some m by (simp add: consume_line_def)
    have e: "emitted b ?es = (case change_of fl mo topic payload b of None \<Rightarrow> [] | Some v \<Rightarrow> [v])"
      using emitted_once [OF assms(1)] assms(2) by simp
    show ?thesis
    proof (cases "topic = b_topic b")
      case False
      have "known_value fl ?mo b = Some v" using Cons.prems(2) False by (simp add: known_value_def)
      then show ?thesis
        using Cons.IH [of vs ?mo v] Cons.prems(1) Some m False c e by (simp add: readings_Cons change_of_def)
    next
      case True
      then obtain w ws where w: "vs = w # ws" "readings loads fl b raws = map Some ws"
        "Option.bind (dget payload (b_field b)) (\<lambda>v. canonical_value fl v (b_value_type b)) = Some w"
        using Cons.prems(1) Some m by (auto simp: readings_Cons)
      have "known_value fl ?mo b = Some w" using w(3) True by (simp add: known_value_def)
      then have IH: "w # emitted b (consume loads fl store ?mo raws) = remdups_adj (w # ws)"
        using Cons.IH w(2) by blast
      obtain old where old: "Option.bind (dget (mo_last mo) topic) (\<lambda>p. dget p (b_field b)) = Some old"
        "canonical_value fl old (b_value_type b) = Some v"
        using Cons.prems(2) True by (auto simp: known_value_def bind_eq_Some_conv)
      have "change_of fl mo topic payload b = (if v = w then None else Some w)"
        using True w(3) old assms(3) by (simp add: change_of_def)
      then show ?thesis using c e IH w(1) by (cases "v = w") auto
    qed
  qed
qed


definition sample_binding :: binding where
  "sample_binding = \<lparr>b_name = u ''m'', b_source = u ''mqtt'', b_task = 1, b_description = u ''d'', b_topic = u ''t'',
     b_field = u ''f'', b_value_type = u ''text'', b_values = [u ''1''], b_command = u ''c''\<rparr>"

definition sample_loads :: "str \<Rightarrow> json option" where
  "sample_loads s = Some (JObj [(u ''f'', JStr s)])"


end
