(* ===== verification/ManagerLoop.thy ===== *)
theory ManagerLoop
  imports AgentRun Events MqttEvents
begin

text \<open>
  The manager (orchestration/manager.py): a dialogue with the user or the system in which the model
  answers with control lines. It answers, asks, waits, runs system commands, delegates to the agents
  of the office and goes on with them; in direct mode it runs commands itself. Saved tasks run in
  agents without the manager's dialogue. The texts of errors and replies of the system runtime and
  the printing of a period are functions of the environment; so are the answers of the model, the
  clock, fresh identifiers and whether a file can be saved.
\<close>

section \<open>State\<close>

record manager =
  mg_max_steps :: nat
  mg_forced :: "str list option"
  mg_base :: "message list"
  mg_messages :: "message list"
  mg_chat :: bool
  mg_close :: bool
  mg_direct :: bool
  mg_direct_waiting :: bool
  mg_repeated :: "(str \<times> int \<times> str \<times> str, nat) dict"
  mg_runtime :: cmd_runtime
  mg_request :: str
  mg_waiting :: bool

text \<open>The office with the system runtime, the registry of events and the rules of the MQTT catalogue.\<close>

record bureau = office +
  of_system :: sys_runtime
  of_events :: event_store
  of_rules :: rules

record manager_env =
  mv_chat :: "message list \<Rightarrow> chat_end"
  mv_now :: rat
  mv_save :: save_mode
  mv_save_events :: save_mode
  mv_generation :: str
  mv_letter :: "nat \<Rightarrow> bool"
  mv_tool :: step_env
  mv_agent :: "nat \<Rightarrow> step_env"
  mv_sys_text :: "sys_error \<Rightarrow> str"
  mv_event_text :: "event_error \<Rightarrow> str"
  mv_rule_text :: "rule_error \<Rightarrow> str"
  mv_reply_text :: "sys_reply \<Rightarrow> str"
  mv_period :: "rat \<Rightarrow> str"

type_synonym manager_session = "manager \<times> bureau"

definition a_turn :: "string \<Rightarrow> str \<Rightarrow> turn" where
  "a_turn kind txt = \<lparr>tu_kind = u kind, tu_text = txt\<rparr>"

section \<open>The dialogue\<close>

definition parts_of :: "content \<Rightarrow> part list" where
  "parts_of c = (case c of Words t \<Rightarrow> [Text_part t] | Parts ps \<Rightarrow> ps)"

definition merge_content :: "content \<Rightarrow> content \<Rightarrow> content" where
  "merge_content previous c =
     (case (previous, c) of
        (Words a, Words b) \<Rightarrow> Words (if rstrip a = [] then b else rstrip a @ 10 # 10 # b)
      | _ \<Rightarrow> Parts (parts_of previous @ parts_of c))"

text \<open>\<open>_append_user\<close>: a second user message in a row is joined to the first.\<close>

definition append_user :: "content \<Rightarrow> manager \<Rightarrow> manager" where
  "append_user c m =
     (let c' = (case c of Words t \<Rightarrow> Words (strip t) | Parts ps \<Rightarrow> Parts ps); ms = mg_messages m
      in if ms \<noteq> [] \<and> ms_role (last ms) = User
         then m\<lparr>mg_messages := butlast ms @ [(last ms)\<lparr>ms_content := merge_content (ms_content (last ms)) c'\<rparr>]\<rparr>
         else m\<lparr>mg_messages := ms @ [\<lparr>ms_role = User, ms_content = c'\<rparr>]\<rparr>)"

definition tell_manager :: "str \<Rightarrow> manager \<Rightarrow> manager" where
  "tell_manager txt = append_user (Words txt)"

definition manager_says :: "str \<Rightarrow> manager \<Rightarrow> manager" where
  "manager_says txt m = m\<lparr>mg_messages := mg_messages m @ [says Assistant txt]\<rparr>"

text \<open>A failed reset of the client is only logged.\<close>

definition reset_manager :: "manager \<Rightarrow> manager" where
  "reset_manager m = m\<lparr>mg_messages := mg_base m\<rparr>"

definition abort_context :: "manager \<Rightarrow> manager" where
  "abort_context m = reset_manager (m\<lparr>mg_chat := False, mg_close := False, mg_direct := False, mg_direct_waiting := False,
     mg_repeated := []\<rparr>)"

definition fresh_input :: "manager \<Rightarrow> bool" where
  "fresh_input m \<longleftrightarrow> mg_messages m \<noteq> [] \<and> ms_role (last (mg_messages m)) = User"

datatype manager_end = Done "agent_exc + turn" | Again

definition error_turn :: "str \<Rightarrow> manager_session \<Rightarrow> manager_end \<times> manager_session" where
  "error_turn txt = (\<lambda>(m, b). (Done (Inr (a_turn ''error'' txt)), (abort_context m, b)))"

definition hear :: "str \<Rightarrow> manager_session \<Rightarrow> manager_end \<times> manager_session" where
  "hear txt = (\<lambda>(m, b). (Again, (tell_manager txt m, b)))"

text \<open>A reply ends the dialogue, unless it is a chat that goes on.\<close>

definition reply_turn :: "str \<Rightarrow> manager \<Rightarrow> turn \<times> manager" where
  "reply_turn txt m =
     (a_turn ''reply'' txt,
      (if mg_close m then reset_manager (m\<lparr>mg_chat := False, mg_close := False\<rparr>)
       else if mg_chat m then m else reset_manager m))"

section \<open>Protocol errors as text\<close>

definition timer_usage_text :: str where
  "timer_usage_text = join_on 10 (map u
     [''invalid timer syntax; use one of:'',
      ''task_timer.sh <period_seconds> <skill1,skill2> \"description\"'',
      ''<persistent task on following lines>'',
      ''query_timer.sh <period_seconds> <skill1,skill2> \"description\"'',
      ''<persistent query on following lines>'',
      ''timer.sh start <task_number>'', ''timer.sh stop <task_number>'',
      ''timer.sh period <period_seconds> <task_number>'', ''timer.sh delete <task_number>'', ''timer.sh list'',
      ''period_seconds and task_number must be positive''])"

definition proto_error_text :: "bool \<Rightarrow> proto_error \<Rightarrow> str" where
  "proto_error_text plain e = (case e of
       Pe_empty \<Rightarrow> u ''empty response''
     | Pe_too_long \<Rightarrow> u ''response is longer than '' @ show_int response_limit @ u '' characters''
     | Pe_fence \<Rightarrow> u ''Markdown code fences are not accepted''
     | Pe_timer_syntax x \<Rightarrow> u (if plain then ''invalid timer.sh syntax: '' else ''invalid timer syntax: '') @ sh_error_text x
     | Pe_timer_usage \<Rightarrow> timer_usage_text
     | Pe_embedded_control \<Rightarrow> u (if plain then ''timer.sh'' else ''timer'')
         @ u '' task must contain only the future task; do not embed another control command''
     | Pe_returned_value \<Rightarrow> u ''task_timer.sh cannot request a returned value; use query_timer.sh when the periodic work must return a result''
     | Pe_ask_body \<Rightarrow> u ''ASK requires a question on following lines''
     | Pe_reply_body \<Rightarrow> u ''REPLY requires text on following lines''
     | Pe_wait_body \<Rightarrow> u ''WAIT must not contain additional text''
     | Pe_self_body \<Rightarrow> u ''SELF must not contain additional text''
     | Pe_self_skills \<Rightarrow> u ''SELF requires a valid unique skill list''
     | Pe_system_command \<Rightarrow> u ''SYSTEM requires a command''
     | Pe_delegate_none \<Rightarrow> u ''DELEGATE requires at least one skill''
     | Pe_delegate_skills \<Rightarrow> u ''invalid DELEGATE skill list''
     | Pe_delegate_duplicate \<Rightarrow> u ''DELEGATE contains duplicate skills''
     | Pe_delegate_body \<Rightarrow> u ''DELEGATE requires a task on following lines''
     | Pe_delegate_control \<Rightarrow> u ''DELEGATE body must be an agent task; do not delegate manager control commands''
     | Pe_continue_agent \<Rightarrow> u ''CONTINUE requires an agent id such as agent1''
     | Pe_continue_body \<Rightarrow> u ''CONTINUE requires additional context''
     | Pe_one_line \<Rightarrow> u ''SELF tool command must be exactly one line''
     | Pe_first_line \<Rightarrow> u ''first line must be DELEGATE, CONTINUE, SELF, task_timer.sh, query_timer.sh, timer.sh, ASK, WAIT, or REPLY'')"

definition read_manager :: "manager_env \<Rightarrow> str \<Rightarrow> str + manager_directive" where
  "read_manager env content =
     map_sum (proto_error_text (calls (strip (fst (partition_on 10 (strip content)))) ''timer.sh'')) id
       (parse_manager (mv_letter env) response_limit False content)"

section \<open>Delegation\<close>

definition status_text :: "outcome_status \<Rightarrow> str" where
  "status_text st = (case st of Ok \<Rightarrow> u ''OK'' | Failed \<Rightarrow> u ''FAILED'' | Need \<Rightarrow> u ''NEED'')"

definition outcome_event :: "agent_outcome \<Rightarrow> str" where
  "outcome_event out =
     (if ao_status out = Need then u ''EVENT NEED '' @ ao_agent out @ 10 # ao_text out
      else u ''EVENT RESULT '' @ ao_agent out @ 32 # status_text (ao_status out) @ 10 # ao_text out)"

definition report_outcome :: "(agent_exc + agent_outcome) \<times> bureau \<Rightarrow> manager \<Rightarrow> manager_end \<times> manager_session" where
  "report_outcome r m = (case r of
       (Inl e, b) \<Rightarrow> (Done (Inl e), (m, b))
     | (Inr out, b) \<Rightarrow> hear (outcome_event out) (m, b))"

definition skill_message :: "skill_error \<Rightarrow> str" where
  "skill_message e = (case e of Skill_error s \<Rightarrow> s)"

definition delegate :: "manager_env \<Rightarrow> str list \<Rightarrow> str \<Rightarrow> manager_session \<Rightarrow> manager_end \<times> manager_session" where
  "delegate env names task = (\<lambda>(m, b).
     case require_tools (of_catalog b) names of
       Inl e \<Rightarrow> hear (u ''EVENT DELEGATE_FAILED'' @ 10 # skill_message e) (m, b)
     | Inr skills \<Rightarrow>
         (case free_worker b of
            None \<Rightarrow> hear (u ''EVENT DELEGATE_FAILED'' @ 10 # u ''No FREE agent container is available.'') (m, b)
          | Some ident \<Rightarrow>
              report_outcome (start_worker (mv_agent env) ident task skills None b)
                (tell_manager (u ''EVENT STARTED '' @ ident @ 10 # u ''tools: '' @ join_on 44 names) m)))"

definition continue_delegated :: "manager_env \<Rightarrow> str \<Rightarrow> str \<Rightarrow> manager_session \<Rightarrow> manager_end \<times> manager_session" where
  "continue_delegated env ident context = (\<lambda>(m, b).
     case worker_state b ident of
       None \<Rightarrow> hear (u ''EVENT CONTINUE_FAILED '' @ ident @ 10 # u ''Unknown agent id.'') (m, b)
     | Some st \<Rightarrow>
         if st \<noteq> Waiting
         then hear (u ''EVENT CONTINUE_FAILED '' @ ident @ 10 # u ''Agent is '' @ state_name st @ u '', not WAITING.'') (m, b)
         else report_outcome (continue_worker (mv_agent env) ident context b) m)"

section \<open>System commands\<close>

definition float_error :: "str \<Rightarrow> str" where
  "float_error raw = u ''could not convert string to float: '' @ py_repr raw"

definition int_error :: "str \<Rightarrow> str" where
  "int_error raw = u ''invalid literal for int() with base 10: '' @ py_repr raw"

definition read_float :: "str \<Rightarrow> str + pyfloat" where
  "read_float raw = (case parse_float raw of None \<Rightarrow> Inl (float_error raw) | Some x \<Rightarrow> Inr x)"

definition read_int :: "str \<Rightarrow> str + int" where
  "read_int raw = (case parse_int raw of None \<Rightarrow> Inl (int_error raw) | Some i \<Rightarrow> Inr i)"

text \<open>\<open>s.split()\<close>.\<close>

fun white_words :: "str \<Rightarrow> str \<Rightarrow> str list" where
  "white_words acc [] = (if acc = [] then [] else [rev acc])"
| "white_words acc (c # cs) =
     (if is_space c then (if acc = [] then [] else [rev acc]) @ white_words [] cs else white_words (c # acc) cs)"

text \<open>An operation of the system runtime; the text of its error.\<close>

definition on_system ::
  "manager_env \<Rightarrow> (sys_runtime \<Rightarrow> (sys_error + 'a) \<times> sys_runtime) \<Rightarrow> bureau \<Rightarrow> (str + 'a) \<times> bureau" where
  "on_system env f b = (case f (of_system b) of (r, s) \<Rightarrow> (map_sum (mv_sys_text env) id r, b\<lparr>of_system := s\<rparr>))"

definition raises :: "str \<Rightarrow> bureau \<Rightarrow> (str + 'a) \<times> bureau" where
  "raises txt b = (Inl txt, b)"

definition try_then :: "str + 'a \<Rightarrow> ('a \<Rightarrow> bureau \<Rightarrow> (str + 'b) \<times> bureau) \<Rightarrow> bureau \<Rightarrow> (str + 'b) \<times> bureau" where
  "try_then r f b = (case r of Inl e \<Rightarrow> (Inl e, b) | Inr v \<Rightarrow> f v b)"

definition system_ok :: "str \<Rightarrow> str" where
  "system_ok txt = u ''SYSTEM_OK'' @ 10 # txt"

definition task_started :: "string \<Rightarrow> int \<Rightarrow> str" where
  "task_started what i = system_ok (u ''TASK '' @ show_int i @ 32 # u what)"

definition show_period :: "manager_env \<Rightarrow> pyfloat \<Rightarrow> str" where
  "show_period env x = (case x of Fin r \<Rightarrow> mv_period env r | PosInf \<Rightarrow> u ''inf'' | NegInf \<Rightarrow> u ''-inf'' | NaN \<Rightarrow> u ''nan'')"

definition timer_set_task :: "manager_env \<Rightarrow> manager_directive \<Rightarrow> pyfloat \<Rightarrow> bureau \<Rightarrow> (str + str) \<times> bureau" where
  "timer_set_task env d period b =
     (case md_description d of
        None \<Rightarrow> raises (u ''persistent task description is missing'') b
      | Some description \<Rightarrow>
          (case md_method d of
             None \<Rightarrow> raises (u ''persistent task method is missing'') b
           | Some method \<Rightarrow>
               if method \<noteq> u ''task'' \<and> method \<noteq> u ''query'' then raises (u ''persistent task method is missing'') b
               else if md_skills d = [] then raises (u ''persistent task tools are missing'') b
               else try_then (map_sum skill_message id (require_tools (of_catalog b) (md_skills d))) (\<lambda>_ b1.
                 then_do (on_system env (create_periodic_task (mv_save env) (mv_now env) (mv_generation env) description
                     (md_body d) (md_skills d) period method (u ''auto'') JNull) b1)
                   (\<lambda>t b2. (Inr (system_ok (u ''TASK '' @ show_int (t_id t) @ u '' created and started; method='' @ t_method t
                       @ u '' period='' @ show_period env period @ u ''s description='' @ t_description t)), b2))) b))"

definition timer_switch :: "manager_env \<Rightarrow> str \<Rightarrow> int \<Rightarrow> bureau \<Rightarrow> (str + str) \<times> bureau" where
  "timer_switch env op i b =
     (if op = u ''START'' then
        then_do (on_system env (start_task (mv_save env) (mv_now env) (mv_generation env) i False) b)
          (\<lambda>_ b'. (Inr (task_started ''started'' i), b'))
      else if op = u ''STOP'' then
        then_do (on_system env (stop_task (mv_save env) (mv_generation env) i False) b)
          (\<lambda>_ b'. (Inr (task_started ''stopped'' i), b'))
      else
        then_do (on_system env (sys_delete_task (mv_save env) i) b)
          (\<lambda>known b'. (Inr (if known then task_started ''deleted'' i else system_error (u ''unknown task: '' @ show_int i)), b')))"

definition task_status :: "manager_env \<Rightarrow> bureau \<Rightarrow> (str + str) \<times> bureau" where
  "task_status env b = then_do (on_system env (\<lambda>s. with_store s (\<lambda>st. (Inr (tasks_text st), st))) b)
     (\<lambda>txt b'. (Inr (system_ok txt), b'))"

definition task_timer_body :: "manager_env \<Rightarrow> manager_directive \<Rightarrow> str list \<Rightarrow> bureau \<Rightarrow> (str + str) \<times> bureau" where
  "task_timer_body env d parts b =
     (let op = parts ! 2 in
      if op = u ''SET'' then
        (if length parts \<noteq> 4 then raises (u ''invalid TASK TIMER SET command'') b
         else try_then (read_float (parts ! 3)) (timer_set_task env d) b)
      else if op = u ''START'' \<or> op = u ''STOP'' \<or> op = u ''DELETE'' then
        (if length parts \<noteq> 4 then raises (u ''invalid TASK TIMER '' @ op @ u '' command'') b
         else try_then (read_int (parts ! 3)) (timer_switch env op) b)
      else if op = u ''PERIOD'' then
        (if length parts \<noteq> 5 then raises (u ''invalid TASK TIMER PERIOD command'') b
         else try_then (read_int (parts ! 3)) (\<lambda>i. try_then (read_float (parts ! 4)) (\<lambda>period b1.
           then_do (on_system env (set_task_period (mv_save env) (mv_now env) (mv_generation env) i period) b1)
             (\<lambda>_ b2. (Inr (system_ok (u ''TASK '' @ show_int i @ u '' period changed to '' @ show_period env period @ u ''s'')), b2)))) b)
      else if op = u ''LIST'' then task_status env b
      else (Inr (system_error (u ''unknown TASK TIMER operation: '' @ op)), b))"

definition execute_task_timer :: "manager_env \<Rightarrow> manager_directive \<Rightarrow> str \<Rightarrow> bureau \<Rightarrow> str \<times> bureau" where
  "execute_task_timer env d command b =
     (case task_timer_body env d (white_words [] command) b of
        (Inl txt, b') \<Rightarrow> (system_error txt, b') | (Inr txt, b') \<Rightarrow> (txt, b'))"

definition system_command :: "manager_env \<Rightarrow> manager_directive \<Rightarrow> str \<Rightarrow> bureau \<Rightarrow> str \<times> bureau" where
  "system_command env d command b =
     (if startswith command (u ''TASK TIMER '') then execute_task_timer env d command b
      else (case execute (mv_now env) command (md_body d) (of_system b) of
              (reply, s) \<Rightarrow> (mv_reply_text env reply, b\<lparr>of_system := s\<rparr>)))"

section \<open>The manager's loop\<close>

definition carry_out_directive :: "manager_env \<Rightarrow> manager_directive \<Rightarrow> manager_session \<Rightarrow> manager_end \<times> manager_session" where
  "carry_out_directive env d = (\<lambda>(m, b). case md_action d of
       Act_reply \<Rightarrow> (case reply_turn (md_body d) m of (t, m') \<Rightarrow> (Done (Inr t), (m', b)))
     | Act_ask \<Rightarrow> (Done (Inr (a_turn ''ask'' (md_body d))), (m, b))
     | Act_wait \<Rightarrow> (Done (Inr (a_turn ''wait'' (u ''Manager is waiting for an external event.''))), (m, b))
     | Act_system \<Rightarrow>
         (case system_command env d (case md_system d of None \<Rightarrow> [] | Some c \<Rightarrow> c) b of
            (result, b') \<Rightarrow> hear result (m, b'))
     | Act_delegate \<Rightarrow> delegate env (case mg_forced m of None \<Rightarrow> md_skills d | Some ns \<Rightarrow> ns) (md_body d) (m, b)
     | Act_continue \<Rightarrow> continue_delegated env (case md_agent d of None \<Rightarrow> [] | Some a \<Rightarrow> a) (md_body d) (m, b)
     | _ \<Rightarrow> (Again, (m, b)))"

text \<open>The last protocol error with its answer, and how often it came in a row.\<close>

type_synonym complaint = "((str \<times> str) \<times> nat) option"

definition complain :: "str \<Rightarrow> str \<Rightarrow> complaint \<Rightarrow> nat" where
  "complain content err prior =
     (case prior of Some (sig, n) \<Rightarrow> if sig = (strip content, err) then Suc n else 1 | None \<Rightarrow> 1)"

definition manager_directive_of :: "manager_env \<Rightarrow> str \<Rightarrow> str + manager_directive" where
  "manager_directive_of env content =
     (case read_manager env content of
        Inl e \<Rightarrow> Inl e
      | Inr d \<Rightarrow> if md_action d \<in> {Act_self, Act_command} then Inl (u ''unsupported manager control response'') else Inr d)"

definition manager_step :: "manager_env \<Rightarrow> complaint \<Rightarrow> manager_session \<Rightarrow> (manager_end \<times> manager_session) \<times> complaint" where
  "manager_step env prior = (\<lambda>(m, b). case mv_chat env (mg_messages m) of
       Model_error txt \<Rightarrow> (error_turn (u ''Model request failed: '' @ txt) (m, b), None)
     | Chat_raises txt \<Rightarrow> ((Done (Inl (Other_exc txt)), (m, b)), None)
     | Answer content \<Rightarrow>
         (let m1 = manager_says content m
          in case manager_directive_of env content of
               Inl err \<Rightarrow>
                 (let n = complain content err prior; m2 = tell_manager (u ''PROTOCOL_ERROR'' @ 10 # err) m1
                  in (if n \<ge> 3
                      then error_turn (u ''Manager repeated the same invalid control response 3 times; current request aborted'') (m2, b)
                      else (Again, (m2, b)), Some ((strip content, err), n)))
             | Inr d \<Rightarrow> (carry_out_directive env d (m1, b), None)))"

definition steps_exceeded :: "string \<Rightarrow> manager_session \<Rightarrow> (agent_exc + turn) \<times> manager_session" where
  "steps_exceeded who = (\<lambda>(m, b).
     (Inr (a_turn ''error'' (u who @ u '' exceeded maximum of '' @ show_nat (mg_max_steps m) @ u '' steps'')), (abort_context m, b)))"

fun drive_manager :: "nat \<Rightarrow> (nat \<Rightarrow> manager_env) \<Rightarrow> complaint \<Rightarrow> manager_session \<Rightarrow> (agent_exc + turn) \<times> manager_session" where
  "drive_manager 0 envs prior s = steps_exceeded ''Manager'' s"
| "drive_manager (Suc n) envs prior s =
     (case manager_step (envs 0) prior s of
        ((Done r, s'), _) \<Rightarrow> (r, s')
      | ((Again, s'), prior') \<Rightarrow> drive_manager n (\<lambda>i. envs (Suc i)) prior' s')"

section \<open>Direct mode\<close>

definition leave_direct :: "manager \<Rightarrow> manager" where
  "leave_direct m = m\<lparr>mg_direct := False, mg_direct_waiting := False, mg_repeated := []\<rparr>"

definition put_world :: "cmd_state \<Rightarrow> manager_session \<Rightarrow> manager_session" where
  "put_world cs = (\<lambda>(m, b). (m\<lparr>mg_runtime := fst cs\<rparr>, b\<lparr>of_world := put_fs (snd cs) (of_world b)\<rparr>))"

definition direct_command :: "manager_env \<Rightarrow> str \<Rightarrow> manager_session \<Rightarrow> manager_end \<times> manager_session" where
  "direct_command env command = (\<lambda>(m, b).
     let cs = (mg_runtime m, wo_fs (of_world b))
     in case dispatch_mcp (se_mcp (mv_tool env)) command cs of
          (Some txt, cs') \<Rightarrow> hear txt (put_world cs' (m, b))
        | (None, _) \<Rightarrow>
            (case work_execute (mv_tool env) command cs of
               (Inl e, cs') \<Rightarrow> (Done (Inl (of_fs e)), put_world cs' (m, b))
             | (Inr r, cs') \<Rightarrow>
                 (case put_world cs' (m, b) of (m1, b1) \<Rightarrow>
                    let key = (command, re_exit r, re_stdout r, re_stderr r);
                        n = Suc (case dget (mg_repeated m1) key of None \<Rightarrow> 0 | Some n \<Rightarrow> n);
                        m2 = m1\<lparr>mg_repeated := dput key n (mg_repeated m1)\<rparr>
                    in if n > 2 then error_turn repeated_text (m2, b1)
                       else hear (work_format_result (fst cs') r) (m2, b1))))"

definition direct_step :: "manager_env \<Rightarrow> manager_session \<Rightarrow> manager_end \<times> manager_session" where
  "direct_step env = (\<lambda>(m, b).
     if \<not> fresh_input m then error_turn (u ''TT violation: manager direct model call requires a fresh user tick'') (m, b)
     else case mv_chat env (mg_messages m) of
       Model_error txt \<Rightarrow> error_turn (u ''Model request failed: '' @ txt) (m, b)
     | Chat_raises txt \<Rightarrow> (Done (Inl (Other_exc txt)), (m, b))
     | Answer content \<Rightarrow>
         (let m1 = manager_says content m
          in case parse_agent (se_json (mv_tool env)) response_limit content of
               Inl e \<Rightarrow> hear (format_protocol_error (mg_runtime m) (agent_error_text response_limit e)) (m1, b)
             | Inr (Agent_done body) \<Rightarrow>
                 (case completion_error None body of
                    Some txt \<Rightarrow> hear (format_protocol_error (mg_runtime m) txt) (m1, b)
                  | None \<Rightarrow> (Done (Inr (a_turn ''reply'' body)),
                      (let m2 = leave_direct m1 in if mg_chat m2 then m2 else reset_manager m2, b)))
             | Inr (Agent_need body) \<Rightarrow> (Done (Inr (a_turn ''ask'' body)), (m1\<lparr>mg_direct_waiting := True\<rparr>, b))
             | Inr (Agent_command command) \<Rightarrow> direct_command env command (m1, b)))"

fun drive_direct :: "nat \<Rightarrow> (nat \<Rightarrow> manager_env) \<Rightarrow> manager_session \<Rightarrow> (agent_exc + turn) \<times> manager_session" where
  "drive_direct 0 envs s = steps_exceeded ''Manager direct execution'' s"
| "drive_direct (Suc n) envs s =
     (case direct_step (envs 0) s of
        (Done r, s') \<Rightarrow> (r, s')
      | (Again, s') \<Rightarrow> drive_direct n (\<lambda>i. envs (Suc i)) s')"

section \<open>Messages of the user\<close>

definition chat_word :: str where "chat_word = [0x447, 0x430, 0x442]"

definition end_chat_word :: str where "end_chat_word = [0x43A, 0x43E, 0x43D, 0x435, 0x446, 32, 0x447, 0x430, 0x442, 0x430]"

definition self_word :: str where "self_word = [0x441, 0x430, 0x43C]"

definition manager_turn :: "(nat \<Rightarrow> manager_env) \<Rightarrow> manager_session \<Rightarrow> (agent_exc + turn) \<times> manager_session" where
  "manager_turn envs s = drive_manager (mg_max_steps (fst s)) envs None s"

definition direct_turn :: "(nat \<Rightarrow> manager_env) \<Rightarrow> manager_session \<Rightarrow> (agent_exc + turn) \<times> manager_session" where
  "direct_turn envs s = drive_direct (mg_max_steps (fst s)) envs s"

definition rest_of :: "str \<Rightarrow> str" where
  "rest_of txt = (case split_once txt of [_, rest] \<Rightarrow> strip rest | _ \<Rightarrow> [])"

definition user_message :: "(nat \<Rightarrow> manager_env) \<Rightarrow> str \<Rightarrow> manager_session \<Rightarrow> (agent_exc + turn) \<times> manager_session" where
  "user_message envs raw = (\<lambda>(m, b).
     let txt = strip raw; folded = casefold txt
     in if folded = chat_word then
          manager_turn envs (tell_manager txt (m\<lparr>mg_chat := True, mg_close := False\<rparr>), b)
        else if folded = end_chat_word then
          manager_turn envs (tell_manager txt (leave_direct (m\<lparr>mg_close := True\<rparr>)), b)
        else if mg_direct_waiting m then
          direct_turn envs (tell_manager (strip (agent_context txt)) (m\<lparr>mg_direct_waiting := False\<rparr>), b)
        else if txt \<noteq> [] \<and> casefold (first_word txt) = self_word then
          direct_turn envs (tell_manager (strip (agent_task (rest_of txt) None))
            (m\<lparr>mg_direct := True, mg_direct_waiting := False, mg_repeated := []\<rparr>), b)
        else manager_turn envs (tell_manager txt m, b))"

definition query_result_text :: "int \<Rightarrow> str \<Rightarrow> str" where
  "query_result_text i result = u ''SYSTEM_QUERY_RESULT TASK '' @ show_int i @ 10 # strip result"

definition autonomous_query_result :: "(nat \<Rightarrow> manager_env) \<Rightarrow> int \<Rightarrow> str \<Rightarrow> manager_session \<Rightarrow> (agent_exc + turn) \<times> manager_session" where
  "autonomous_query_result envs i result = (\<lambda>(m, b). manager_turn envs (tell_manager (query_result_text i result) m, b))"

section \<open>Saved tasks\<close>

record execution =
  ex_activation :: activation
  ex_worker :: str

record completion =
  co_turn :: "turn option"
  co_query :: "int option"
  co_result :: str

datatype beginning = Running_task execution | Completed completion

definition with_turn :: "string \<Rightarrow> str \<Rightarrow> completion" where
  "with_turn kind txt = \<lparr>co_turn = Some (a_turn kind txt), co_query = None, co_result = []\<rparr>"

definition query_error_text :: "int \<Rightarrow> str \<Rightarrow> str" where
  "query_error_text i txt = [0x41E, 0x448, 0x438, 0x431, 0x43A, 0x430, 32, 0x437, 0x430, 0x43F, 0x440, 0x43E, 0x441, 0x430, 32, 84, 65, 83, 75, 32] @ show_int i @ u '': '' @ txt"

definition error_completion :: "task \<Rightarrow> str \<Rightarrow> completion" where
  "error_completion t txt =
     (if t_method t \<noteq> u ''query'' then with_turn ''silent'' []
      else \<lparr>co_turn = None, co_query = Some (t_id t), co_result = query_error_text (t_id t) txt\<rparr>)"

definition no_tools_text :: str where "no_tools_text = [0x43D, 0x435, 0x442, 32, 0x441, 0x43E, 0x445, 0x440, 0x430, 0x43D, 0x451, 0x43D, 0x43D, 0x44B, 0x445, 32, 116, 111, 111, 108, 115]"

definition no_agent_text :: str where "no_agent_text = [0x43D, 0x435, 0x442, 32, 0x441, 0x432, 0x43E, 0x431, 0x43E, 0x434, 0x43D, 0x43E, 0x433, 0x43E, 32, 0x430, 0x433, 0x435, 0x43D, 0x442, 0x430]"

definition stale :: "sys_event \<Rightarrow> task \<Rightarrow> bool" where
  "stale e t \<longleftrightarrow> \<not> t_enabled t \<or> (ev_generation e \<noteq> [] \<and> ev_generation e \<noteq> t_generation t)"

definition activation_of :: "sys_event \<Rightarrow> task \<Rightarrow> activation" where
  "activation_of e t = \<lparr>ac_source = (if strip (ev_source e) = [] then u ''system'' else strip (ev_source e)),
     ac_name = strip (ev_name e), ac_task = t, ac_created = ev_created e\<rparr>"

text \<open>The saved task of an event, when it may start.\<close>

definition task_of_event :: "sys_event \<Rightarrow> bureau \<Rightarrow> completion + task" where
  "task_of_event e b =
     (case sr_store (of_system b) of
        None \<Rightarrow> Inl (with_turn ''error'' (u ''Task store is not configured''))
      | Some st \<Rightarrow>
          (case require_task st (case ev_task_id e of None \<Rightarrow> 0 | Some i \<Rightarrow> i) of
             Inl _ \<Rightarrow> Inl (with_turn ''silent'' [])
           | Inr t \<Rightarrow> if stale e t then Inl (with_turn ''cancelled'' []) else Inr t))"

text \<open>What a failed start leaves: the worker is put to sleep unless it is free, and the error is the completion.\<close>

definition failed_start :: "step_env \<Rightarrow> task \<Rightarrow> str \<Rightarrow> agent_exc \<Rightarrow> bureau \<Rightarrow> completion \<times> bureau" where
  "failed_start env t ident e b = (error_completion t (exc_message e), settle_worker env ident b)"

definition begin_autonomous_task :: "manager_env \<Rightarrow> sys_event \<Rightarrow> bureau \<Rightarrow> (agent_exc + beginning) \<times> bureau" where
  "begin_autonomous_task env e b =
     (if ev_task_id e = None then (Inl (Value_error (u ''autonomous task event requires task_id'')), b)
      else case task_of_event e b of
        Inl c \<Rightarrow> (Inr (Completed c), b)
      | Inr t \<Rightarrow>
          if t_skills t = [] then (Inr (Completed (error_completion t no_tools_text)), b)
          else case require_tools (of_catalog b) (t_skills t) of
            Inl x \<Rightarrow> (Inr (Completed (error_completion t (skill_message x))), b)
          | Inr skills \<Rightarrow>
              (case free_worker b of
                 None \<Rightarrow> (Inr (Completed (error_completion t no_agent_text)), b)
               | Some ident \<Rightarrow>
                   (case begin_worker ident (t_text t) skills (Some (t_method t)) b of
                      (Inr _, b') \<Rightarrow> (Inr (Running_task \<lparr>ex_activation = activation_of e t, ex_worker = ident\<rparr>), b')
                    | (Inl x, b') \<Rightarrow> (case failed_start (mv_tool env) t ident x b' of (c, b2) \<Rightarrow> (Inr (Completed c), b2)))))"

text \<open>What the outcome of an agent means for a saved task; an agent that needs something is put to sleep.\<close>

definition task_outcome :: "step_env \<Rightarrow> task \<Rightarrow> str \<Rightarrow> agent_outcome \<Rightarrow> bureau \<Rightarrow> completion \<times> bureau" where
  "task_outcome env t ident out b =
     (if ao_status out = Need then (error_completion t (ao_text out), sleep_worker env ident b)
      else if t_method t = u ''task'' then (with_turn ''silent'' [], b)
      else if ao_status out \<noteq> Ok
      then (error_completion t (if ao_text out = [] then status_text (ao_status out) else ao_text out), b)
      else if strip (ao_text out) = [] then (with_turn ''silent'' [], b)
      else (\<lparr>co_turn = None, co_query = Some (t_id t), co_result = ao_text out\<rparr>, b))"

definition still_current :: "task \<Rightarrow> bureau \<Rightarrow> bool" where
  "still_current t b \<longleftrightarrow> (case sr_store (of_system b) of None \<Rightarrow> False | Some st \<Rightarrow>
     (case get_task st (t_id t) of None \<Rightarrow> False | Some c \<Rightarrow> t_enabled c \<and> t_generation c = t_generation t))"

text \<open>\<open>step_autonomous_task\<close>; \<open>None\<close> when the activation goes on later.\<close>

definition step_autonomous_task :: "manager_env \<Rightarrow> execution \<Rightarrow> bureau \<Rightarrow> completion option \<times> bureau" where
  "step_autonomous_task env ex b =
     (let t = ac_task (ex_activation ex); ident = ex_worker ex
      in if \<not> still_current t b then (Some (with_turn ''cancelled'' []), sleep_worker (mv_tool env) ident b)
         else case step_worker (mv_tool env) ident b of
           (Inl x, b') \<Rightarrow> (case failed_start (mv_tool env) t ident x b' of (c, b2) \<Rightarrow> (Some c, b2))
         | (Inr None, b') \<Rightarrow> (None, b')
         | (Inr (Some out), b') \<Rightarrow> (case task_outcome (mv_tool env) t ident out b' of (c, b2) \<Rightarrow> (Some c, b2)))"

text \<open>\<open>_run_task_activation\<close>, the handler of the system runtime: the text for the manager, if any.\<close>

definition run_task_activation :: "manager_env \<Rightarrow> task \<Rightarrow> bureau \<Rightarrow> str option \<times> bureau" where
  "run_task_activation env t b =
     (let query_error = (\<lambda>txt. if t_method t \<noteq> u ''query'' then None else Some (query_error_text (t_id t) txt))
      in if t_skills t = [] then (query_error no_tools_text, b)
         else case require_tools (of_catalog b) (t_skills t) of
           Inl x \<Rightarrow> (query_error (skill_message x), b)
         | Inr skills \<Rightarrow>
             (case free_worker b of
                None \<Rightarrow> (query_error no_agent_text, b)
              | Some ident \<Rightarrow>
                  (case start_worker (mv_agent env) ident (t_text t) skills (Some (t_method t)) b of
                     (Inl x, b') \<Rightarrow> (query_error (exc_message x), settle_worker (mv_tool env) ident b')
                   | (Inr out, b') \<Rightarrow>
                       if ao_status out = Need then (query_error (ao_text out), sleep_worker (mv_tool env) ident b')
                       else if t_method t = u ''task'' then (None, b')
                       else if ao_status out \<noteq> Ok
                       then (query_error (if ao_text out = [] then status_text (ao_status out) else ao_text out), b')
                       else if strip (ao_text out) = [] then (None, b')
                       else (Some (ao_text out), b'))))"

definition system_event :: "(nat \<Rightarrow> manager_env) \<Rightarrow> sys_event \<Rightarrow> manager_session \<Rightarrow> (agent_exc + turn) \<times> manager_session" where
  "system_event envs e = (\<lambda>(m, b). case ev_task_id e of
       None \<Rightarrow> manager_turn envs (tell_manager (manager_text e) m, b)
     | Some i \<Rightarrow>
         (case activate_task (Some (\<lambda>_. Some [])) (ev_created e) i (ev_source e) (ev_name e) (of_system b) of
            Inl x \<Rightarrow> (Inl (Runtime_exc (mv_sys_text (envs 0) x)), (m, b))
          | Inr None \<Rightarrow> (Inr (a_turn ''silent'' []), (m, b))
          | Inr (Some _) \<Rightarrow>
              (case Option.bind (sr_store (of_system b)) (\<lambda>st. get_task st i) of
                 None \<Rightarrow> (Inr (a_turn ''silent'' []), (m, b))
               | Some t \<Rightarrow>
                   (case run_task_activation (envs 0) t b of
                      (None, b') \<Rightarrow> (Inr (a_turn ''silent'' []), (m, b'))
                    | (Some result, b') \<Rightarrow> autonomous_query_result (\<lambda>n. envs (Suc n)) i result (m, b')))))"

end
