(* ===== verification/AssistantLoop.thy ===== *)
theory AssistantLoop
  imports ManagerLoop
begin

text \<open>
  The manager of the assistant (orchestration/assistant_manager.py): one dialogue with the user in
  which the model answers, asks, or runs commands with \<open>/work#\<close>; commands include the creation of
  tasks, one-shot agents and the tools that work on fragments. A turn is a generator: it is suspended
  after every answer and every result, while it waits for a free agent, between the steps of an
  agent and between fragments. The suspended turn is a value of \<open>turn_at\<close>, and \<open>advance\<close> takes it to
  its next suspension. The system runtime is the local one; the service behind a remote one is the
  subject of RemoteClient.
\<close>

section \<open>The suspended turn\<close>

datatype work_at =
    In_part partly_run
  | In_skill_script script_run
  | Waiting_for_worker str "skill list"
  | In_agent str

text \<open>How many model steps are left, and what comes next.\<close>

datatype turn_at = Ask_next nat | Answered_with nat str | Working nat work_at

datatype work_end = Result content | No_result | Raised agent_exc | Suspended work_at

datatype turn_step = Turn_over "agent_exc + turn" | Turn_at turn_at

type_synonym work_step = "work_end \<times> manager_session"

definition said :: "str \<Rightarrow> work_end" where
  "said txt = Result (Words txt)"

definition refused :: "str \<Rightarrow> work_end" where
  "refused txt = said (system_error txt)"

section \<open>Commands on tasks\<close>

definition task_executors :: "str list" where
  "task_executors = map u [''auto'', ''litert'', ''openai'']"

definition no_event_agent_text :: str where "no_event_agent_text = [0x43D, 0x435, 0x442, 32, 0x441, 0x432, 0x43E, 0x431, 0x43E, 0x434, 0x43D, 0x43E, 0x433, 0x43E, 32, 0x441, 0x43E, 0x431, 0x44B, 0x442, 0x438, 0x439, 0x43D, 0x43E, 0x433, 0x43E, 32, 0x430, 0x433, 0x435, 0x43D, 0x442, 0x430]"

definition external_usage :: str where
  "external_usage = u ''external MQTT event requires agent command mqtt_sub.sh TOPIC FIELD''"

text \<open>A task and its binding: the task is deleted again when the binding cannot be registered.\<close>

definition save_external ::
  "manager_env \<Rightarrow> str \<Rightarrow> str \<Rightarrow> str list \<Rightarrow> str \<Rightarrow> field_rule \<Rightarrow> str \<Rightarrow> str \<Rightarrow> str \<Rightarrow> bureau \<Rightarrow> str \<times> bureau" where
  "save_external env method txt names executor rule topic field command b =
     (let err = (\<lambda>e. system_error (mv_sys_text env e));
          args = \<lparr>a_description = txt, a_text = txt, a_method = method, a_skills = names, a_period = None,
                  a_enabled = True, a_executor = executor, a_agent = JNull\<rparr>
      in case with_store (of_system b) (create_task (mv_save env) (mv_generation env) args) of
           (Inl e, s) \<Rightarrow> (err e, b\<lparr>of_system := s\<rparr>)
         | (Inr t, s) \<Rightarrow>
             (case register (mv_save_events env) (t_id t) txt
                  \<lparr>ba_source = u ''mqtt'', ba_name = None, ba_topic = topic, ba_field = field, ba_value_type = fu_type rule,
                   ba_values = fu_values rule, ba_command = command\<rparr> (of_events b) of
                (Inr _, ev) \<Rightarrow>
                  (task_started ''created and started'' (t_id t), b\<lparr>of_system := s, of_events := ev\<rparr>)
              | (Inl e, ev) \<Rightarrow>
                  (case with_store s (delete_task (mv_save env) (t_id t)) of
                     (Inl e2, s2) \<Rightarrow> (err e2, b\<lparr>of_system := s2, of_events := ev\<rparr>)
                   | (Inr _, s2) \<Rightarrow> (system_error (mv_event_text env e), b\<lparr>of_system := s2, of_events := ev\<rparr>))))"

definition bind_external ::
  "manager_env \<Rightarrow> str \<Rightarrow> str \<Rightarrow> str list \<Rightarrow> str \<Rightarrow> str \<Rightarrow> bureau \<Rightarrow> str \<times> bureau" where
  "bind_external env method txt names executor command b =
     (case shlex_split command of
        Inl e \<Rightarrow> (system_error (u ''invalid agent mqtt command: '' @ sh_error_text e), b)
      | Inr [script, topic, field] \<Rightarrow>
          if script \<noteq> u ''mqtt_sub.sh'' then (system_error external_usage, b)
          else (case require_rule (of_rules b) topic field of
                  Inl e \<Rightarrow> (system_error (mv_rule_text env e), b)
                | Inr rule \<Rightarrow> save_external env method txt names executor rule topic field command b)
      | Inr _ \<Rightarrow> (system_error external_usage, b))"

definition plan_worker ::
  "step_env \<Rightarrow> str \<Rightarrow> str \<Rightarrow> skill list \<Rightarrow> str option \<Rightarrow> bureau \<Rightarrow> (agent_exc + str) \<times> bureau" where
  "plan_worker env ident task skills method = with_worker ident (plan_first_command env task skills method) (Inl no_worker)"

definition create_external_task ::
  "manager_env \<Rightarrow> str \<Rightarrow> str \<Rightarrow> str list \<Rightarrow> skill list \<Rightarrow> str \<Rightarrow> bureau \<Rightarrow> str \<times> bureau" where
  "create_external_task env method txt names skills executor b =
     (if u ''mqtt'' \<notin> set names then (system_error (u ''external event currently requires mqtt tool''), b)
      else if sr_store (of_system b) = None then (system_error (u ''task store is not configured''), b)
      else case free_event_worker b of
        None \<Rightarrow> (system_error no_event_agent_text, b)
      | Some ident \<Rightarrow>
          (case plan_worker (mv_agent env 0) ident txt skills (Some method) b of
             (Inl e, b') \<Rightarrow> (system_error (exc_message e), settle_worker (mv_tool env) ident b')
           | (Inr command, b') \<Rightarrow> bind_external env method txt names executor command b'))"

definition one_shot_result :: "str \<Rightarrow> agent_outcome \<Rightarrow> str option" where
  "one_shot_result method out =
     (if ao_status out \<noteq> Ok
      then Some (system_error (if ao_text out = [] then status_text (ao_status out) else ao_text out))
      else if method = u ''query'' then (if strip (ao_text out) = [] then None else Some (strip (ao_text out)))
      else Some (system_ok [0x417, 0x410, 0x414, 0x410, 0x41D, 0x418, 0x415, 32, 0x432, 0x44B, 0x43F, 0x43E, 0x43B, 0x43D, 0x435, 0x43D, 0x43E]))"

definition run_one_shot_agent :: "manager_env \<Rightarrow> str \<Rightarrow> str \<Rightarrow> skill list \<Rightarrow> bureau \<Rightarrow> str option \<times> bureau" where
  "run_one_shot_agent env method txt skills b =
     (case free_worker b of
        None \<Rightarrow> (Some (system_error no_agent_text), b)
      | Some ident \<Rightarrow>
          (case start_worker (mv_agent env) ident txt skills (Some method) b of
             (Inl e, b') \<Rightarrow> (Some (system_error (exc_message e)), settle_worker (mv_tool env) ident b')
           | (Inr out, b') \<Rightarrow>
               if ao_status out = Need
               then (Some (system_error ([0x430, 0x433, 0x435, 0x43D, 0x442, 0x443, 32, 0x43D, 0x435, 32, 0x445, 0x432, 0x430, 0x442, 0x430, 0x435, 0x442, 32, 0x434, 0x430, 0x43D, 0x43D, 0x44B, 0x445, 58, 32] @ ao_text out)), sleep_worker (mv_tool env) ident b')
               else (one_shot_result method out, b')))"

definition period_text :: str where
  "period_text = u ''period_seconds must be -1, 0 or > 0''"

definition task_period :: "str \<Rightarrow> rat option" where
  "task_period raw = (case parse_float raw of
       Some (Fin r) \<Rightarrow> if r < -1 \<or> (-1 < r \<and> r < 0) then None else Some r | _ \<Rightarrow> None)"

text \<open>\<open>_execute_task_command\<close>: script, period, tools and text.\<close>

definition execute_task_command :: "manager_env \<Rightarrow> str list \<Rightarrow> str \<Rightarrow> bureau \<Rightarrow> str option \<times> bureau" where
  "execute_task_command env argv executor b =
     (let refuse = (\<lambda>txt. (Some (system_error txt), b)); names = filter (\<lambda>s. s \<noteq> []) (map strip (butlast (drop 2 argv)));
          txt = strip (last argv); method = u ''query''
      in if executor \<notin> set task_executors then refuse (u ''executor must be auto, litert or openai'')
         else if length argv < 4 then refuse (u ''usage: task_timer.sh|query_timer.sh PERIOD TOOLS TEXT'')
         else case task_period (argv ! 1) of
           None \<Rightarrow> refuse period_text
         | Some p \<Rightarrow>
             if names = [] \<or> \<not> distinct names then refuse (u ''invalid tool list'')
             else if txt = [] then refuse (u ''task text must be non-empty'')
             else case require_tools (of_catalog b) names of
               Inl e \<Rightarrow> refuse (skill_message e)
             | Inr skills \<Rightarrow>
                 if p = 0 then run_one_shot_agent env method txt skills b
                 else if p = -1 then (case create_external_task env method txt names skills executor b of (r, b') \<Rightarrow> (Some r, b'))
                 else (case on_system env (create_periodic_task (mv_save env) (mv_now env) (mv_generation env) txt txt names
                          (Fin p) method executor JNull) b of
                         (Inl e, b') \<Rightarrow> (Some (system_error e), b')
                       | (Inr t, b') \<Rightarrow> (Some (task_started ''created and started'' (t_id t)), b')))"

text \<open>The position of the separator in \<open>argv\<close>, not before the third word.\<close>

definition separator :: "str list \<Rightarrow> nat option" where
  "separator argv =
     (let before = takeWhile (\<lambda>a. a \<noteq> u ''--'') (drop 2 argv)
      in if 2 + length before < length argv then Some (2 + length before) else None)"

definition timer_usage :: str where
  "timer_usage = u ''usage: task_timer.sh|query_timer.sh PERIOD TOOLS -- TEXT''"

text \<open>The first \<open>--executor\<close> and its argument are taken out.\<close>

definition take_executor :: "str list \<Rightarrow> (str \<times> str list) option" where
  "take_executor words =
     (if u ''--executor'' \<notin> set (butlast (drop 2 words)) then Some (u ''auto'', words)
      else (let i = 2 + length (takeWhile (\<lambda>a. a \<noteq> u ''--executor'') (drop 2 words))
            in if i + 1 \<ge> length words - 1 then None else Some (words ! (i + 1), take i words @ drop (i + 2) words)))"

definition timed_task_command :: "manager_env \<Rightarrow> str list \<Rightarrow> bureau \<Rightarrow> str option \<times> bureau" where
  "timed_task_command env argv b =
     (case separator argv of
        None \<Rightarrow> (Some (system_error timer_usage), b)
      | Some i \<Rightarrow>
          if i < 3 \<or> i \<noteq> length argv - 2 then (Some (system_error timer_usage), b)
          else (case take_executor (take i argv @ [argv ! (i + 1)]) of
                  None \<Rightarrow> (Some (system_error timer_usage), b)
                | Some (executor, words) \<Rightarrow> execute_task_command env words executor b))"

definition positive_id :: "str \<Rightarrow> str + int" where
  "positive_id raw = try_bind (read_int raw) (\<lambda>i. if i \<le> 0 then Inl (u ''task_number must be > 0'') else Inr i)"

definition forget_bindings :: "manager_env \<Rightarrow> int \<Rightarrow> bureau \<Rightarrow> (str + unit) \<times> bureau" where
  "forget_bindings env i b =
     (case unregister_task (mv_save_events env) i (of_events b) of
        (r, ev) \<Rightarrow> (map_sum (mv_event_text env) id r, b\<lparr>of_events := ev\<rparr>))"

definition switch_task :: "manager_env \<Rightarrow> str \<Rightarrow> int \<Rightarrow> bureau \<Rightarrow> (str + str) \<times> bureau" where
  "switch_task env op i b =
     (if op \<noteq> u ''delete'' then timer_switch env (upper op) i b
      else then_do (on_system env (sys_delete_task (mv_save env) i) b) (\<lambda>known b1.
        if \<not> known then (Inr (system_error (u ''unknown task: '' @ show_int i)), b1)
        else then_do (forget_bindings env i b1) (\<lambda>_ b2. (Inr (task_started ''deleted'' i), b2))))"

definition change_period :: "manager_env \<Rightarrow> str \<Rightarrow> str \<Rightarrow> bureau \<Rightarrow> (str + str) \<times> bureau" where
  "change_period env raw ident b =
     try_then (read_float raw) (\<lambda>period. try_then (read_int ident) (\<lambda>i b1.
       if \<not> (case period of NaN \<Rightarrow> True | _ \<Rightarrow> fpos period) \<or> i \<le> 0
       then raises (u ''period_seconds and task_number must be > 0'') b1
       else then_do (on_system env (set_task_period (mv_save env) (mv_now env) (mv_generation env) i period) b1)
         (\<lambda>_ b2. (Inr (system_ok (u ''TASK '' @ show_int i @ u '' period changed to '' @ show_period env period @ u ''s'')), b2)))) b"

definition choose_executor :: "manager_env \<Rightarrow> str \<Rightarrow> str \<Rightarrow> bureau \<Rightarrow> (str + str) \<times> bureau" where
  "choose_executor env executor ident b =
     try_then (read_int ident) (\<lambda>i b1.
       then_do (on_system env (\<lambda>s. with_store s (set_executor (mv_save env) (mv_generation env) i executor)) b1)
         (\<lambda>t b2. (Inr (system_ok (u ''TASK '' @ show_int (t_id t) @ u '' executor='' @ t_executor t)), b2))) b"

definition execute_timer_command :: "manager_env \<Rightarrow> str list \<Rightarrow> bureau \<Rightarrow> str \<times> bureau" where
  "execute_timer_command env argv b =
     (let op = lower (argv ! 1); n = length argv
      in if n < 2 then (system_error (u ''usage: timer.sh start|stop|period|delete|list ...''), b)
         else case (if op = u ''list'' \<and> n = 2 then task_status env b
                    else if op \<in> {u ''start'', u ''stop'', u ''delete''} \<and> n = 3
                    then try_then (positive_id (argv ! 2)) (switch_task env op) b
                    else if op = u ''executor'' \<and> n = 4 then choose_executor env (argv ! 2) (argv ! 3) b
                    else if op = u ''period'' \<and> n = 4 then change_period env (argv ! 2) (argv ! 3) b
                    else raises (u ''invalid timer.sh syntax'') b) of
           (Inl e, b') \<Rightarrow> (system_error e, b') | (Inr r, b') \<Rightarrow> (r, b'))"

section \<open>A command of the model\<close>

definition from_bureau :: "manager \<Rightarrow> str option \<times> bureau \<Rightarrow> work_step" where
  "from_bureau m r = (case r of (None, b) \<Rightarrow> (No_result, (m, b)) | (Some txt, b) \<Rightarrow> (said txt, (m, b)))"

text \<open>The commands that are no tool of their own.\<close>

definition plain_command :: "manager_env \<Rightarrow> str \<Rightarrow> manager_session \<Rightarrow> work_step" where
  "plain_command env command = (\<lambda>(m, b). case shlex_split command of
       Inl e \<Rightarrow> (refused (u ''invalid command syntax: '' @ sh_error_text e), (m, b))
     | Inr argv \<Rightarrow>
         if argv = [] then (refused (u ''empty command''), (m, b))
         else if hd argv = u ''task_timer.sh'' \<or> hd argv = u ''query_timer.sh'' then from_bureau m (timed_task_command env argv b)
         else if hd argv = u ''timer.sh'' then
           (case execute_timer_command env argv b of (txt, b') \<Rightarrow> (said txt, (m, b')))
         else case work_execute (mv_tool env) command (mg_runtime m, wo_fs (of_world b)) of
           (Inl e, cs) \<Rightarrow> (Raised (of_fs e), put_world cs (m, b))
         | (Inr r, cs) \<Rightarrow> (said (work_format_result (fst cs) r), put_world cs (m, b)))"

definition part_end :: "(raised + str, partly_run) tool_progress \<Rightarrow> work_end" where
  "part_end p = (case p of
       Over (Inl e) \<Rightarrow> Raised (of_raised e) | Over (Inr txt) \<Rightarrow> said txt | Yielded r \<Rightarrow> Suspended (In_part r))"

definition skill_end :: "(raised + script_end, script_run) tool_progress \<Rightarrow> work_end" where
  "skill_end p = (case p of
       Over (Inl e) \<Rightarrow> Raised (of_raised e) | Over (Inr Silent) \<Rightarrow> No_result | Over (Inr (Said c)) \<Rightarrow> Result c
     | Yielded r \<Rightarrow> Suspended (In_skill_script r))"

definition work_command :: "manager_env \<Rightarrow> str \<Rightarrow> manager_session \<Rightarrow> work_step" where
  "work_command env command = (\<lambda>(m, b).
     let rt = mg_runtime m; fs = wo_fs (of_world b); tool = mv_tool env
     in case dispatch_mcp (se_mcp tool) command (rt, fs) of
          (Some txt, cs) \<Rightarrow> (said txt, put_world cs (m, b))
        | (None, _) \<Rightarrow>
            (case read_picture tool command rt fs True None of
               Some c \<Rightarrow> (Result c, (m, b))
             | None \<Rightarrow>
                 (case read_partly tool command True (mg_request m) rt fs of
                    Some p \<Rightarrow> (part_end p, (m, b))
                  | None \<Rightarrow>
                      (case skill_script tool command (mg_request m) (rt, fs) of
                         Some (p, cs) \<Rightarrow> (skill_end p, put_world cs (m, b))
                       | None \<Rightarrow> plain_command env command (m, b)))))"

text \<open>A one-shot agent: \<open>task_timer.sh 0 TOOLS -- TEXT\<close>.\<close>

definition one_shot_args :: "catalog \<Rightarrow> str list \<Rightarrow> str + str \<times> skill list" where
  "one_shot_args cg argv =
     (case separator argv of
        None \<Rightarrow> Inl (39 # u ''--'' @ 39 # u '' is not in list'')
      | Some i \<Rightarrow>
          if i < 3 \<or> i \<noteq> length argv - 2 then Inl (u ''usage: task_timer.sh 0 TOOLS -- TEXT'')
          else (let names = drop 2 (take i argv)
                in if \<not> distinct names \<or> strip (last argv) = [] then Inl (u ''invalid task or tool list'')
                   else try_bind (map_sum skill_message id (require_tools cg names)) (\<lambda>skills. Inr (last argv, skills))))"

text \<open>Whether a command is a one-shot agent, or an error of the check.\<close>

definition one_shot_command :: "str \<Rightarrow> str + str list option" where
  "one_shot_command command =
     (case shlex_split command of
        Inl e \<Rightarrow> Inl (sh_error_text e)
      | Inr argv \<Rightarrow>
          if argv \<noteq> [] \<and> (hd argv = u ''task_timer.sh'' \<or> hd argv = u ''query_timer.sh'') then
            (if length argv < 2 then Inl (u ''list index out of range'')
             else try_bind (read_float (argv ! 1)) (\<lambda>x. Inr (if x = Fin 0 then Some argv else None)))
          else Inr None)"

definition agent_answer :: "agent_outcome \<Rightarrow> work_end" where
  "agent_answer out =
     (if ao_status out \<noteq> Ok then refused (if ao_text out = [] then status_text (ao_status out) else ao_text out)
      else if strip (ao_text out) = [] then No_result else said (strip (ao_text out)))"

text \<open>A ValueError of an agent is a result, any other exception leaves the turn.\<close>

definition agent_raised :: "agent_exc \<Rightarrow> work_end" where
  "agent_raised e = (case e of Value_error txt \<Rightarrow> refused txt | _ \<Rightarrow> Raised e)"

text \<open>The steps of a one-shot agent; whatever ends them, the worker is free afterwards.\<close>

definition agent_turn :: "manager_env \<Rightarrow> str \<Rightarrow> manager_session \<Rightarrow> work_step" where
  "agent_turn env ident = (\<lambda>(m, b). case step_worker (mv_agent env 0) ident b of
       (Inr None, b') \<Rightarrow> (Suspended (In_agent ident), (m, b'))
     | (Inr (Some out), b') \<Rightarrow> (agent_answer out, (m, settle_worker (mv_tool env) ident b'))
     | (Inl e, b') \<Rightarrow> (agent_raised e, (m, settle_worker (mv_tool env) ident b')))"

text \<open>Waiting for a worker that is not busy with saved tasks.\<close>

definition await_worker :: "manager_env \<Rightarrow> str \<Rightarrow> skill list \<Rightarrow> manager_session \<Rightarrow> work_step" where
  "await_worker env txt skills = (\<lambda>(m, b). case free_worker b of
       None \<Rightarrow> (Suspended (Waiting_for_worker txt skills), (m\<lparr>mg_waiting := True\<rparr>, b))
     | Some ident \<Rightarrow>
         (case begin_worker ident txt skills (Some (u ''query'')) b of
            (Inl e, b') \<Rightarrow> (agent_raised e, (m\<lparr>mg_waiting := False\<rparr>, b'))
          | (Inr _, b') \<Rightarrow> agent_turn env ident (m\<lparr>mg_waiting := False\<rparr>, b')))"

definition work_steps :: "manager_env \<Rightarrow> str \<Rightarrow> manager_session \<Rightarrow> work_step" where
  "work_steps env command s =
     (if is_mcp command then work_command env command s
      else case one_shot_command command of
        Inl txt \<Rightarrow> (refused txt, s)
      | Inr None \<Rightarrow> work_command env command s
      | Inr (Some argv) \<Rightarrow>
          (case one_shot_args (of_catalog (snd s)) argv of
             Inl txt \<Rightarrow> (refused txt, s)
           | Inr (txt, skills) \<Rightarrow> await_worker env txt skills s))"

text \<open>A suspended command goes on.\<close>

definition work_resume :: "manager_env \<Rightarrow> work_at \<Rightarrow> manager_session \<Rightarrow> work_step" where
  "work_resume env pt = (\<lambda>(m, b). case pt of
       In_part r \<Rightarrow> (part_end (partly_next (mv_tool env) r), (m, b))
     | In_skill_script r \<Rightarrow>
         (case script_resume (mv_tool env) r (mg_runtime m, wo_fs (of_world b)) of (p, cs) \<Rightarrow> (skill_end p, put_world cs (m, b)))
     | Waiting_for_worker txt skills \<Rightarrow> await_worker env txt skills (m, b)
     | In_agent ident \<Rightarrow> agent_turn env ident (m, b))"

section \<open>The turn\<close>

definition over :: "(agent_exc + turn) \<times> manager_session \<Rightarrow> turn_step \<times> manager_session" where
  "over r = (Turn_over (fst r), snd r)"

definition error_over :: "str \<Rightarrow> manager_session \<Rightarrow> turn_step \<times> manager_session" where
  "error_over txt = (\<lambda>(m, b). (Turn_over (Inr (a_turn ''error'' txt)), (abort_context m, b)))"

text \<open>One question to the model; the turn is suspended with its answer.\<close>

definition ask_model :: "manager_env \<Rightarrow> nat \<Rightarrow> manager_session \<Rightarrow> turn_step \<times> manager_session" where
  "ask_model env left = (\<lambda>(m, b). case left of
       0 \<Rightarrow> over (steps_exceeded ''Manager'' (m, b))
     | Suc n \<Rightarrow>
         if \<not> fresh_input m then error_over (u ''TT violation: manager model call requires a fresh input'') (m, b)
         else (case mv_chat env (mg_messages m) of
                 Model_error txt \<Rightarrow> error_over (u ''Model request failed: '' @ txt) (m, b)
               | Chat_raises txt \<Rightarrow> (Turn_over (Inl (Other_exc txt)), (m, b))
               | Answer content \<Rightarrow> (Turn_at (Answered_with n content), (manager_says content m, b))))"

definition protocol_error :: "str \<Rightarrow> manager \<Rightarrow> manager" where
  "protocol_error txt m = tell_manager (format_protocol_error (mg_runtime m) txt) m"

definition after_work :: "nat \<Rightarrow> work_step \<Rightarrow> turn_step \<times> manager_session" where
  "after_work n w = (case w of
       (Result c, (m, b)) \<Rightarrow> (Turn_at (Ask_next n), (append_user c m, b))
     | (No_result, (m, b)) \<Rightarrow> (Turn_over (Inr (a_turn ''silent'' [])), (if mg_chat m then m else reset_manager m, b))
     | (Raised e, s) \<Rightarrow> (Turn_over (Inl e), s)
     | (Suspended pt, s) \<Rightarrow> (Turn_at (Working n pt), s))"

definition take_answer :: "manager_env \<Rightarrow> nat \<Rightarrow> str \<Rightarrow> manager_session \<Rightarrow> turn_step \<times> manager_session" where
  "take_answer env n content = (\<lambda>(m, b). case unwrap_work_command (strip content) of
       Inl txt \<Rightarrow> (Turn_at (Ask_next n), (protocol_error txt m, b))
     | Inr (Some command) \<Rightarrow> after_work n (work_steps env command (m, b))
     | Inr None \<Rightarrow>
         (case read_manager env content of
            Inl txt \<Rightarrow> (Turn_at (Ask_next n), (protocol_error txt m, b))
          | Inr d \<Rightarrow>
              if md_action d = Act_ask then (Turn_over (Inr (a_turn ''ask'' (md_body d))), (m, b))
              else if md_action d = Act_reply
              then (case reply_turn (md_body d) m of (t, m') \<Rightarrow> (Turn_over (Inr t), (m', b)))
              else ask_model env n (protocol_error (u ''manager response must be ASK, REPLY or /work#<command>'') m, b)))"

text \<open>From one suspension of the turn to the next.\<close>

definition advance :: "manager_env \<Rightarrow> turn_at \<Rightarrow> manager_session \<Rightarrow> turn_step \<times> manager_session" where
  "advance env pt s = (case pt of
       Ask_next n \<Rightarrow> ask_model env n s
     | Answered_with n content \<Rightarrow> take_answer env n content s
     | Working n w \<Rightarrow> after_work n (work_resume env w s))"

definition closing_marks :: "nat list" where "closing_marks = [46, 33, 63, 0x2026]"

definition start_chat_words :: "str list" where "start_chat_words = [chat_word, [0x43D, 0x430, 0x447, 0x430, 0x43B, 0x43E, 32, 0x447, 0x430, 0x442, 0x430]]"

text \<open>\<open>user_message_steps\<close> up to the first question.\<close>

definition hear_user :: "str \<Rightarrow> manager \<Rightarrow> manager" where
  "hear_user raw m =
     (let txt = strip raw; folded = rstrip_of closing_marks (casefold txt);
          m1 = m\<lparr>mg_runtime := (mg_runtime m)\<lparr>cr_uncertain := []\<rparr>, mg_request := txt\<rparr>;
          m2 = (if folded \<in> set start_chat_words then m1\<lparr>mg_chat := True, mg_close := False\<rparr>
                else if folded = end_chat_word then m1\<lparr>mg_close := True\<rparr> else m1)
      in tell_manager txt m2)"

definition begin_turn :: "str \<Rightarrow> manager_session \<Rightarrow> turn_at \<times> manager_session" where
  "begin_turn raw = (\<lambda>(m, b). (Ask_next (mg_max_steps m), (hear_user raw m, b)))"

definition begin_query_turn :: "int \<Rightarrow> str \<Rightarrow> manager_session \<Rightarrow> turn_at \<times> manager_session" where
  "begin_query_turn i result = (\<lambda>(m, b). (Ask_next (mg_max_steps m), (tell_manager (query_result_text i result) m, b)))"

text \<open>Closing the generator of a suspended turn: temporary files go, and a one-shot agent is put to sleep.\<close>

definition close_turn :: "manager_env \<Rightarrow> turn_at \<Rightarrow> manager_session \<Rightarrow> manager_session" where
  "close_turn env pt = (\<lambda>(m, b). case pt of
       Working _ (In_skill_script r) \<Rightarrow> (m, b\<lparr>of_world := put_fs (cyclic_close (sc_cyclic r) (wo_fs (of_world b))) (of_world b)\<rparr>)
     | Working _ (In_agent ident) \<Rightarrow> (m, settle_worker (mv_tool env) ident b)
     | _ \<Rightarrow> (m, b))"

section \<open>Sessions and contexts\<close>

definition human_session_released :: "manager \<Rightarrow> manager" where
  "human_session_released m = (if mg_chat m then m else abort_context m)"

text \<open>\<open>reset_for_new_session\<close>: an error of the client's reset leaves everything as it is.\<close>

definition reset_for_new_session :: "bool \<Rightarrow> manager \<Rightarrow> manager option" where
  "reset_for_new_session reset_ok m =
     (if \<not> reset_ok then None
      else Some ((leave_direct m)\<lparr>mg_messages := mg_base m, mg_chat := False, mg_close := False, mg_waiting := False,
        mg_runtime := (mg_runtime m)\<lparr>cr_uncertain := []\<rparr>\<rparr>))"

definition fork_context :: "manager \<Rightarrow> fs \<Rightarrow> (fs_exc + manager) \<times> fs" where
  "fork_context m fs =
     then_do (new_cmd_runtime (cr_root (mg_runtime m)) (cr_skills (mg_runtime m)) (cr_max (mg_runtime m)) (cr_timeout (mg_runtime m)) fs)
       (\<lambda>rt fs'. (Inr (m\<lparr>mg_messages := mg_base m, mg_chat := False, mg_close := False, mg_request := [], mg_runtime := rt\<rparr>), fs'))"

section \<open>External events\<close>

definition external_event :: "rat \<Rightarrow> str \<Rightarrow> str \<Rightarrow> str option \<Rightarrow> bureau \<Rightarrow> sys_event option" where
  "external_event now source0 name0 value b =
     (let source = lower (strip source0); name = strip name0
      in case resolve source name (of_events b) of
           None \<Rightarrow> None
         | Some bd \<Rightarrow>
             (case Option.bind (sr_store (of_system b)) (\<lambda>st. get_task st (b_task bd)) of
                None \<Rightarrow> None
              | Some t \<Rightarrow>
                  if \<not> t_enabled t then None
                  else Some \<lparr>ev_source = source, ev_name = name, ev_task = (case value of None \<Rightarrow> [] | Some v \<Rightarrow> strip v),
                         ev_created = now, ev_task_id = Some (t_id t), ev_generation = t_generation t, ev_run_id = [],
                         ev_offer_id = []\<rparr>))"

definition no_binding_text :: str where "no_binding_text = [77, 81, 84, 84, 32, 98, 105, 110, 100, 105, 110, 103, 32, 0x43D, 0x435, 32, 0x43D, 0x430, 0x439, 0x434, 0x435, 0x43D]"

text \<open>The worker gets the task together with the value its deferred command stands for.\<close>

definition resume_worker ::
  "str \<Rightarrow> str \<Rightarrow> skill list \<Rightarrow> str \<Rightarrow> str \<Rightarrow> str option \<Rightarrow> bureau \<Rightarrow> (agent_exc + unit) \<times> bureau" where
  "resume_worker ident task skills command result method =
     with_worker ident (begin_with_tool_result task skills command result method) (Inl no_worker)"

definition mqtt_activation :: "sys_event \<Rightarrow> task \<Rightarrow> activation" where
  "mqtt_activation e t = \<lparr>ac_source = u ''mqtt'', ac_name = strip (ev_name e), ac_task = t, ac_created = ev_created e\<rparr>"

definition begin_mqtt_task :: "manager_env \<Rightarrow> sys_event \<Rightarrow> bureau \<Rightarrow> beginning \<times> bureau" where
  "begin_mqtt_task env e b =
     (case task_of_event e b of
        Inl c \<Rightarrow> (Completed c, b)
      | Inr t \<Rightarrow>
          (let refuse = (\<lambda>txt. (Completed (error_completion t txt), b))
           in if t_skills t = [] then refuse no_tools_text
              else case require_tools (of_catalog b) (t_skills t) of
                Inl x \<Rightarrow> refuse (skill_message x)
              | Inr skills \<Rightarrow>
                  (case resolve (u ''mqtt'') (strip (ev_name e)) (of_events b) of
                     None \<Rightarrow> refuse no_binding_text
                   | Some bd \<Rightarrow>
                       (case free_event_worker b of
                          None \<Rightarrow> refuse no_event_agent_text
                        | Some ident \<Rightarrow>
                            (case resume_worker ident (t_text t) skills (b_command bd) (ev_task e) (Some (t_method t)) b of
                               (Inr _, b') \<Rightarrow> (Running_task \<lparr>ex_activation = mqtt_activation e t, ex_worker = ident\<rparr>, b')
                             | (Inl x, b') \<Rightarrow> (case failed_start (mv_tool env) t ident x b' of (c, b2) \<Rightarrow> (Completed c, b2)))))))"

definition begin_task_event :: "manager_env \<Rightarrow> sys_event \<Rightarrow> bureau \<Rightarrow> (agent_exc + beginning) \<times> bureau" where
  "begin_task_event env e b =
     (if lower (strip (ev_source e)) \<noteq> u ''mqtt'' \<or> ev_task_id e = None \<or> strip (ev_task e) = []
      then begin_autonomous_task env e b
      else (case begin_mqtt_task env e b of (r, b') \<Rightarrow> (Inr r, b')))"

text \<open>\<open>can_begin_autonomous_task\<close>: stale work is admitted, so that beginning can cancel it without a worker.\<close>

definition can_begin :: "sys_event \<Rightarrow> bureau \<Rightarrow> bool" where
  "can_begin e b =
     (case Option.bind (sr_store (of_system b)) (\<lambda>st. Option.bind (ev_task_id e) (get_task st)) of
        None \<Rightarrow> True
      | Some t \<Rightarrow> stale e t \<or> (if ev_source e = u ''mqtt'' then free_event_worker b else free_worker b) \<noteq> None)"

end
