(* ===== verification/Desk.thy ===== *)
theory Desk
  imports AssistantLoop
begin

text \<open>
  The assistant at work: several dialogues, each with its suspended turn, and the saved tasks that are
  running share one office of workers, as the scheduler of a CORE runs them in any interleaving. The
  invariant of this composition: each busy worker belongs to exactly one of them and comes back when
  its owner is done, and every dialogue alternates and agrees with the place where its turn is
  suspended.
\<close>

section \<open>The desk: dialogues and running tasks over one office\<close>

type_synonym talk = "manager \<times> turn_at option"

record desk =
  dk_talks :: "talk list"
  dk_runs :: "execution list"
  dk_bureau :: bureau

datatype desk_op =
    Hear nat str
  | Hear_result nat int str
  | Go_on nat manager_env
  | Give_up nat manager_env
  | Leave nat
  | New_session nat bool
  | Fork nat
  | Begin_run manager_env sys_event
  | Go_on_run nat manager_env
  | Stop_run nat manager_env
  | Around "world \<Rightarrow> world"

definition drop_at :: "nat \<Rightarrow> 'a list \<Rightarrow> 'a list" where
  "drop_at i xs = take i xs @ drop (Suc i) xs"

text \<open>A turn begins when none is suspended, and goes on when one is.\<close>

definition open_turn :: "(manager_session \<Rightarrow> turn_at \<times> manager_session) \<Rightarrow> nat \<Rightarrow> desk \<Rightarrow> desk" where
  "open_turn f i d =
     (if i < length (dk_talks d) \<and> snd (dk_talks d ! i) = None
      then (case f (fst (dk_talks d ! i), dk_bureau d) of (pt, (m, b)) \<Rightarrow> d\<lparr>dk_talks := (dk_talks d)[i := (m, Some pt)], dk_bureau := b\<rparr>)
      else d)"

definition next_place :: "turn_step \<Rightarrow> turn_at option" where
  "next_place r = (case r of Turn_over _ \<Rightarrow> None | Turn_at pt \<Rightarrow> Some pt)"

definition move_turn :: "manager_env \<Rightarrow> nat \<Rightarrow> desk \<Rightarrow> desk" where
  "move_turn env i d =
     (if i < length (dk_talks d) then
        (case snd (dk_talks d ! i) of
           None \<Rightarrow> d
         | Some pt \<Rightarrow>
             (case advance env pt (fst (dk_talks d ! i), dk_bureau d) of
                (r, (m, b)) \<Rightarrow> d\<lparr>dk_talks := (dk_talks d)[i := (m, next_place r)], dk_bureau := b\<rparr>))
      else d)"

text \<open>A cancelled turn: its generator is closed and its context goes back to the base.\<close>

definition drop_turn :: "manager_env \<Rightarrow> nat \<Rightarrow> desk \<Rightarrow> desk" where
  "drop_turn env i d =
     (if i < length (dk_talks d) then
        (case snd (dk_talks d ! i) of
           None \<Rightarrow> d
         | Some pt \<Rightarrow>
             (case close_turn env pt (fst (dk_talks d ! i), dk_bureau d) of
                (m, b) \<Rightarrow> d\<lparr>dk_talks := (dk_talks d)[i := (abort_context m, None)], dk_bureau := b\<rparr>))
      else d)"

definition at_talk :: "(manager \<Rightarrow> manager) \<Rightarrow> nat \<Rightarrow> desk \<Rightarrow> desk" where
  "at_talk f i d =
     (if i < length (dk_talks d) \<and> snd (dk_talks d ! i) = None
      then d\<lparr>dk_talks := (dk_talks d)[i := (f (fst (dk_talks d ! i)), None)]\<rparr> else d)"

definition fork_talk :: "nat \<Rightarrow> desk \<Rightarrow> desk" where
  "fork_talk i d =
     (if i < length (dk_talks d) then
        (case fork_context (fst (dk_talks d ! i)) (wo_fs (of_world (dk_bureau d))) of
           (r, fs) \<Rightarrow>
             (let d' = d\<lparr>dk_bureau := (dk_bureau d)\<lparr>of_world := put_fs fs (of_world (dk_bureau d))\<rparr>\<rparr>
              in case r of Inl _ \<Rightarrow> d' | Inr m \<Rightarrow> d'\<lparr>dk_talks := dk_talks d @ [(m, None)]\<rparr>))
      else d)"

definition begin_run :: "manager_env \<Rightarrow> sys_event \<Rightarrow> desk \<Rightarrow> desk" where
  "begin_run env e d =
     (case begin_task_event env e (dk_bureau d) of
        (Inr (Running_task ex), b) \<Rightarrow> d\<lparr>dk_runs := dk_runs d @ [ex], dk_bureau := b\<rparr>
      | (_, b) \<Rightarrow> d\<lparr>dk_bureau := b\<rparr>)"

definition move_run :: "manager_env \<Rightarrow> nat \<Rightarrow> desk \<Rightarrow> desk" where
  "move_run env i d =
     (if i < length (dk_runs d) then
        (case step_autonomous_task env (dk_runs d ! i) (dk_bureau d) of
           (None, b) \<Rightarrow> d\<lparr>dk_bureau := b\<rparr>
         | (Some _, b) \<Rightarrow> d\<lparr>dk_runs := drop_at i (dk_runs d), dk_bureau := b\<rparr>)
      else d)"

definition stop_run :: "manager_env \<Rightarrow> nat \<Rightarrow> desk \<Rightarrow> desk" where
  "stop_run env i d =
     (if i < length (dk_runs d)
      then d\<lparr>dk_runs := drop_at i (dk_runs d), dk_bureau := settle_worker (mv_tool env) (ex_worker (dk_runs d ! i)) (dk_bureau d)\<rparr>
      else d)"

definition desk_do :: "desk \<Rightarrow> desk_op \<Rightarrow> desk" where
  "desk_do d op = (case op of
       Hear i txt \<Rightarrow> open_turn (begin_turn txt) i d
     | Hear_result i n txt \<Rightarrow> open_turn (begin_query_turn n txt) i d
     | Go_on i env \<Rightarrow> move_turn env i d
     | Give_up i env \<Rightarrow> drop_turn env i d
     | Leave i \<Rightarrow> at_talk human_session_released i d
     | New_session i ok \<Rightarrow> at_talk (\<lambda>m. case reset_for_new_session ok m of None \<Rightarrow> m | Some m' \<Rightarrow> m') i d
     | Fork i \<Rightarrow> fork_talk i d
     | Begin_run env e \<Rightarrow> begin_run env e d
     | Go_on_run i env \<Rightarrow> move_run env i d
     | Stop_run i env \<Rightarrow> stop_run env i d
     | Around f \<Rightarrow> d\<lparr>dk_bureau := (dk_bureau d)\<lparr>of_world := f (of_world (dk_bureau d))\<rparr>\<rparr>)"

section \<open>Who owns which worker\<close>

definition owner :: "turn_at option \<Rightarrow> str list" where
  "owner pt = (case pt of Some (Working _ (In_agent ident)) \<Rightarrow> [ident] | _ \<Rightarrow> [])"

definition owners :: "desk \<Rightarrow> str list" where
  "owners d = concat (map (\<lambda>t. owner (snd t)) (dk_talks d)) @ map ex_worker (dk_runs d)"

text \<open>The workers that are busy are those of the list, each once.\<close>

definition staffed :: "str list \<Rightarrow> bureau \<Rightarrow> bool" where
  "staffed is b \<longleftrightarrow> office_ok b
     \<and> (\<forall>i. count_list is i = (if worker_state b i = Some Running then 1 else 0) \<and> worker_state b i \<noteq> Some Waiting)"

text \<open>An operation takes the workers \<open>js\<close> and leaves the workers \<open>ks\<close> busy instead.\<close>

definition trades :: "bureau \<Rightarrow> str list \<Rightarrow> str list \<Rightarrow> bureau \<Rightarrow> bool" where
  "trades b js ks b' \<longleftrightarrow> (\<forall>is. staffed (js @ is) b \<longrightarrow> staffed (ks @ is) b')"

definition calm :: "bureau \<Rightarrow> bureau \<Rightarrow> bool" where
  "calm b b' \<longleftrightarrow> (office_ok b \<longrightarrow> office_ok b' \<and> worker_state b' = worker_state b)"

lemma calm_refl [simp, intro]: "calm b b" by (simp add: calm_def)

lemma calm_trans [trans]: "calm b c \<Longrightarrow> calm c d \<Longrightarrow> calm b d" by (simp add: calm_def)

lemma calm_workers: "of_workers b' = of_workers b \<Longrightarrow> calm b b'"
  by (auto simp: calm_def office_ok_def worker_state_def)

lemma calm_trades: "calm b b' \<Longrightarrow> trades b js js b'"
  by (auto simp: calm_def trades_def staffed_def)

lemma trades_trans [trans]: "trades b is js c \<Longrightarrow> trades c js ks d \<Longrightarrow> trades b is ks d"
  by (simp add: trades_def)

lemma trades_calm: "trades b is js c \<Longrightarrow> calm c d \<Longrightarrow> trades b is js d"
  using calm_trades trades_trans by blast

lemma calm_trades_trans: "calm b c \<Longrightarrow> trades c is js d \<Longrightarrow> trades b is js d"
  using calm_trades trades_trans by blast

lemma staffed_cong: "(\<And>i. count_list is i = count_list js i) \<Longrightarrow> staffed is b = staffed js b"
  by (simp add: staffed_def)

lemma counts_distinct: "(\<And>a. count_list xs a \<le> 1) \<Longrightarrow> distinct xs"
proof (induction xs)
  case (Cons x xs)
  have "x \<notin> set xs" using Cons.prems [of x] by (simp add: count_list_0_iff)
  moreover have "count_list xs a \<le> 1" for a
    using Cons.prems [of a] by (cases "x = a") simp_all
  ultimately show ?case using Cons.IH by simp
qed simp

lemma staffed_distinct: "staffed is b \<Longrightarrow> distinct is"
  by (rule counts_distinct) (simp add: staffed_def)

lemma staffed_states: "staffed is b \<Longrightarrow> worker_state b i \<in> (if i \<in> set is then {Some Running} else {None, Some Free})"
proof -
  assume s: "staffed is b"
  then have c: "count_list is i = (if worker_state b i = Some Running then 1 else 0)" "worker_state b i \<noteq> Some Waiting"
    by (auto simp: staffed_def)
  show ?thesis
  proof (cases "i \<in> set is")
    case True
    then show ?thesis using c count_list_0_iff [of "is" i] by (auto split: if_splits)
  next
    case False
    then have "worker_state b i \<noteq> Some Running" using c count_list_0_iff [of "is" i] by auto
    moreover have "st = Free \<or> st = Running \<or> st = Waiting" for st by (cases st) auto
    ultimately show ?thesis using False c(2) by (cases "worker_state b i") auto
  qed
qed

text \<open>A free worker is taken, a busy one is given back, or it goes on.\<close>

lemma take_worker:
  assumes "office_ok b \<Longrightarrow> worker_state b ident = Some Free"
    "office_ok b \<Longrightarrow> office_ok b' \<and> worker_state b' ident = Some Running"
    "\<And>j. j \<noteq> ident \<Longrightarrow> worker_state b' j = worker_state b j"
  shows "trades b [] [ident] b'"
  using assms by (auto simp: trades_def staffed_def)

lemma give_worker:
  assumes "office_ok b \<Longrightarrow> worker_state b ident \<noteq> None \<Longrightarrow> office_ok b' \<and> worker_state b' ident = Some Free"
    "\<And>j. j \<noteq> ident \<Longrightarrow> worker_state b' j = worker_state b j"
  shows "trades b [ident] [] b'"
proof -
  have "staffed is b'" if s: "staffed (ident # is) b" for "is"
  proof -
    have "count_list (ident # is) ident = (if worker_state b ident = Some Running then 1 else 0)" and ok: "office_ok b"
      using s unfolding staffed_def by blast+
    then have i: "worker_state b ident = Some Running" "count_list is ident = 0" by (simp_all split: if_splits)
    have "count_list is j = (if worker_state b' j = Some Running then 1 else 0) \<and> worker_state b' j \<noteq> Some Waiting" for j
    proof (cases "j = ident")
      case True
      then show ?thesis using assms(1) ok i by simp
    next
      case False
      then show ?thesis using s assms(2) [OF False] by (auto simp: staffed_def dest: spec [of _ j])
    qed
    then show ?thesis using assms(1) ok i by (simp add: staffed_def)
  qed
  then show ?thesis by (simp add: trades_def)
qed

lemma keep_worker:
  assumes "office_ok b \<Longrightarrow> office_ok b'" "office_ok b \<Longrightarrow> worker_state b' = worker_state b"
  shows "trades b js js b'"
  using assms by (auto simp: trades_def staffed_def)

section \<open>Workers in the office\<close>

lemma free_worker_state: "office_ok b \<Longrightarrow> free_worker b = Some ident \<Longrightarrow> worker_state b ident = Some Free"
proof -
  assume ok: "office_ok b" "free_worker b = Some ident"
  then obtain k where k: "k < length (of_workers b)" "aw_state (snd (of_workers b ! k)) = Free" "ident = fst (of_workers b ! k)"
    by (auto simp: free_worker_def acquire_def pool_def dmap_def find_Some_iff)
  then have "(ident, snd (of_workers b ! k)) \<in> set (of_workers b)" by (metis nth_mem prod.collapse)
  then have "dget (of_workers b) ident = Some (snd (of_workers b ! k))" using ok(1) by (simp add: office_ok_def dget_iff)
  then show ?thesis using k by (simp add: worker_state_def)
qed

lemma free_event_worker_state: "office_ok b \<Longrightarrow> free_event_worker b = Some ident \<Longrightarrow> worker_state b ident = Some Free"
  using free_worker_state [of b ident]
  by (auto simp: free_event_worker_def acquire_event_def free_worker_def [symmetric] pool_def worker_state_def
      split: option.splits if_splits) (simp add: free_worker_def pool_def)

text \<open>Only the worker a thing is done with changes.\<close>

lemma with_worker_other: "j \<noteq> ident \<Longrightarrow> worker_state (snd (with_worker ident f missing b)) j = worker_state b j"
  by (auto simp: with_worker_def worker_state_def split: option.split prod.split)

lemma with_worker_state:
  assumes "with_worker ident f missing b = (r, b')" "dget (of_workers b) ident = Some w"
  obtains w' wo where "f (w, of_world b) = (r, (w', wo))" "worker_state b' ident = Some (aw_state w')"
  using assms by (auto simp: with_worker_def worker_state_def split: prod.splits)

lemma sleep_worker_other: "j \<noteq> ident \<Longrightarrow> worker_state (sleep_worker env ident b) j = worker_state b j"
  by (simp add: sleep_worker_def with_worker_other)

lemma settle_worker_other: "j \<noteq> ident \<Longrightarrow> worker_state (settle_worker env ident b) j = worker_state b j"
  by (simp add: settle_worker_def sleep_worker_other)

lemma calm_back:
  assumes "office_ok b \<Longrightarrow> worker_state b ident = Some Free" "office_ok b \<Longrightarrow> office_ok b' \<and> worker_state b' ident = Some Free"
    "\<And>j. j \<noteq> ident \<Longrightarrow> worker_state b' j = worker_state b j"
  shows "calm b b'"
  unfolding calm_def using assms by (auto intro!: ext) metis

lemma settled_calm:
  assumes "office_ok b \<Longrightarrow> worker_state b ident = Some Free" "office_ok b \<Longrightarrow> office_ok b'"
    "\<And>j. j \<noteq> ident \<Longrightarrow> worker_state b' j = worker_state b j" "worker_state b' ident = None \<longleftrightarrow> worker_state b ident = None"
  shows "calm b (settle_worker env ident b')" "calm b (sleep_worker env ident b')"
  using assms by (auto intro!: calm_back [of b ident] simp: settle_worker_free settle_worker_ok sleep_worker_free sleep_worker_ok
      settle_worker_other sleep_worker_other)

text \<open>Beginning: a failure leaves the worker free, a success makes it busy.\<close>

lemma begin_task_failed: "begin_task task skills mth s = (Inl e, s') \<Longrightarrow> aw_state (fst s') = aw_state (fst s)"
  by (cases s) (auto simp: begin_task_def Let_def split: if_splits prod.splits sum.splits)

lemma begin_worker_running:
  assumes "office_ok b" "begin_worker ident task skills mth b = (Inr v, b')"
  shows "worker_state b' ident = Some Running"
proof (cases "dget (of_workers b) ident")
  case None
  then show ?thesis using assms by (simp add: begin_worker_def with_worker_def)
next
  case (Some w)
  then have "worker_ok w" using assms(1) by (simp add: office_ok_def)
  then show ?thesis using assms(2) Some begin_task_cases [of w task skills mth "of_world b"]
    by (auto simp: begin_worker_def with_worker_def worker_state_def begun_def split: prod.splits)
qed

lemma begin_worker_failed: "begin_worker ident task skills mth b = (Inl e, b') \<Longrightarrow> worker_state b' j = worker_state b j"
  using begin_task_failed [of task skills mth]
  by (fastforce simp: begin_worker_def with_worker_def worker_state_def split: option.splits prod.splits)

lemma begin_worker_trades:
  assumes "office_ok b \<Longrightarrow> worker_state b ident = Some Free" "begin_worker ident task skills mth b = (r, b')"
  shows "trades b [] (case r of Inl _ \<Rightarrow> [] | Inr _ \<Rightarrow> [ident]) b'"
proof (cases r)
  case (Inl e)
  then have "calm b b'" using assms(2) begin_worker_failed [of ident task skills mth b] begin_worker_ok [of b ident task skills mth]
    by (auto simp: calm_def intro!: ext)
  then show ?thesis using Inl by (simp add: calm_trades)
next
  case (Inr v)
  have "trades b [] [ident] b'"
  proof (rule take_worker)
    show "worker_state b' j = worker_state b j" if "j \<noteq> ident" for j
      using that assms(2) with_worker_other [of j ident _ _ b] by (metis begin_worker_def snd_conv)
    show "office_ok b' \<and> worker_state b' ident = Some Running" if "office_ok b"
      using that Inr assms(2) begin_worker_running [of b] begin_worker_ok [OF that, of ident task skills mth] by auto
  qed (use assms in simp)
  then show ?thesis using Inr by simp
qed

lemma resume_worker_running:
  assumes "office_ok b" "resume_worker ident task skills command result mth b = (Inr v, b')"
  shows "worker_state b' ident = Some Running"
proof (cases "dget (of_workers b) ident")
  case None
  then show ?thesis using assms by (simp add: resume_worker_def with_worker_def)
next
  case (Some w)
  then have "worker_ok w" using assms(1) by (simp add: office_ok_def)
  then show ?thesis using assms(2) Some begin_task_cases [of w task skills mth "of_world b"]
    by (auto simp: resume_worker_def with_worker_def worker_state_def begun_def begin_with_tool_result_def then_do_def
        split: prod.splits sum.splits if_splits)
qed

lemma resume_worker_ok: "office_ok b \<Longrightarrow> office_ok (snd (resume_worker ident task skills command result mth b))"
  unfolding resume_worker_def by (rule with_worker_ok) (simp_all add: begin_with_result_ok)

lemma resume_worker_other: "j \<noteq> ident \<Longrightarrow> worker_state (snd (resume_worker ident task skills command result mth b)) j = worker_state b j"
  by (simp add: resume_worker_def with_worker_other)

text \<open>A step that goes on keeps the state of its worker.\<close>

lemma step_worker_calm: "step_worker env ident b = (Inr None, b') \<Longrightarrow> calm b b'"
proof -
  assume step: "step_worker env ident b = (Inr None, b')"
  have "worker_state b' j = worker_state b j" for j
  proof (cases "j = ident")
    case False
    then show ?thesis using step with_worker_other [of j ident _ _ b] by (metis snd_conv step_worker_def)
  next
    case True
    then show ?thesis using step agent_step_state [of env]
      by (fastforce simp: step_worker_def with_worker_def worker_state_def split: option.splits prod.splits)
  qed
  then show ?thesis using step step_worker_ok [of b env ident] by (auto simp: calm_def intro!: ext)
qed

lemma finished_worker_free:
  assumes "office_ok b" "step_worker env ident b = (Inr (Some out), b')"
  shows "worker_state b' ident = Some Free \<or> ao_status out = Need"
proof (cases "dget (of_workers b) ident")
  case None
  then show ?thesis using assms by (simp add: step_worker_def with_worker_def)
next
  case (Some w)
  then have "AgentProps.step_ok (agent_step env (w, of_world b))" using assms(1) by (simp add: office_ok_def agent_step_ok)
  then show ?thesis using assms(2) Some
    by (auto simp: step_worker_def with_worker_def worker_state_def AgentProps.step_ok_def at_rest_def split: prod.splits)
qed

lemma step_worker_settles: "trades b [ident] [] (settle_worker env' ident (snd (step_worker env ident b)))"
proof (rule give_worker)
  show "worker_state (settle_worker env' ident (snd (step_worker env ident b))) j = worker_state b j" if "j \<noteq> ident" for j
    using that by (simp add: settle_worker_other step_worker_def with_worker_other)
  show "office_ok (settle_worker env' ident (snd (step_worker env ident b)))
      \<and> worker_state (settle_worker env' ident (snd (step_worker env ident b))) ident = Some Free"
    if "office_ok b" "worker_state b ident \<noteq> None"
  proof -
    have "office_ok (snd (step_worker env ident b))" "worker_state (snd (step_worker env ident b)) ident \<noteq> None"
      using that by (simp add: step_worker_ok, simp add: step_worker_def del: not_None_eq)
    then show ?thesis by (simp add: settle_worker_free settle_worker_ok)
  qed
qed

section \<open>Commands that leave the workers as they are\<close>

named_theorems same_workers \<open>operations that do not touch the workers\<close>

lemma on_system_workers [same_workers]: "of_workers (snd (on_system env f b)) = of_workers b"
  by (simp add: on_system_def split: prod.split)

lemma then_do_workers:
  "of_workers (snd r) = of_workers b \<Longrightarrow> (\<And>v b'. of_workers b' = of_workers b \<Longrightarrow> of_workers (snd (f v b')) = of_workers b)
   \<Longrightarrow> of_workers (snd (then_do r f)) = of_workers b"
  by (auto simp: then_do_def split: prod.split sum.split)

lemma try_then_workers:
  "(\<And>v. of_workers (snd (f v b)) = of_workers b) \<Longrightarrow> of_workers (snd (try_then r f b)) = of_workers b"
  by (auto simp: try_then_def split: sum.split)

lemma raises_workers [same_workers]: "of_workers (snd (raises txt b)) = of_workers b"
  by (simp add: raises_def)

lemma forget_bindings_workers [same_workers]: "of_workers (snd (forget_bindings env i b)) = of_workers b"
  by (simp add: forget_bindings_def split: prod.split)

lemma timer_switch_workers [same_workers]: "of_workers (snd (timer_switch env op i b)) = of_workers b"
  by (auto simp: timer_switch_def intro!: then_do_workers simp: same_workers)

lemma task_status_workers [same_workers]: "of_workers (snd (task_status env b)) = of_workers b"
  by (auto simp: task_status_def intro!: then_do_workers simp: same_workers)

lemma switch_task_workers [same_workers]: "of_workers (snd (switch_task env op i b)) = of_workers b"
  by (auto simp: switch_task_def intro!: then_do_workers simp: same_workers)

lemma change_period_workers [same_workers]: "of_workers (snd (change_period env raw ident b)) = of_workers b"
  by (auto simp: change_period_def intro!: then_do_workers try_then_workers simp: same_workers)

lemma choose_executor_workers [same_workers]: "of_workers (snd (choose_executor env executor ident b)) = of_workers b"
  by (auto simp: choose_executor_def intro!: then_do_workers try_then_workers simp: same_workers)

lemma timer_command_workers [same_workers]: "of_workers (snd (execute_timer_command env argv b)) = of_workers b"
proof -
  have shown: "of_workers (snd (case r of (Inl e, b') \<Rightarrow> (system_error e, b') | (Inr x, b') \<Rightarrow> (x, b'))) = of_workers (snd r)"
    for r :: "(str + str) \<times> bureau"
    by (auto split: prod.split sum.split)
  then show ?thesis
    by (simp add: execute_timer_command_def Let_def shown try_then_workers same_workers)
qed

lemma save_external_workers [same_workers]:
  "of_workers (snd (save_external env mth txt names executor rule topic field command b)) = of_workers b"
  by (auto simp: save_external_def Let_def split: prod.split sum.split)

lemma bind_external_workers [same_workers]:
  "of_workers (snd (bind_external env mth txt names executor command b)) = of_workers b"
  by (auto simp: bind_external_def same_workers split: sum.split list.split)

section \<open>Commands that use a worker and give it back\<close>

lemma plan_free: "plan_first_command env task skills mth s = (Inr c, s') \<Longrightarrow> aw_state (fst s') = Free"
  by (auto simp: plan_first_command_def then_do_def Let_def release_def cleared_def
      split: prod.splits sum.splits chat_end.splits option.splits bool.splits)

lemma plan_worker_calm:
  assumes "office_ok b \<Longrightarrow> worker_state b ident = Some Free" "plan_worker env ident task skills mth b = (r, b')"
  shows "calm b (case r of Inl _ \<Rightarrow> settle_worker env' ident b' | Inr _ \<Rightarrow> b')"
proof -
  have b': "b' = snd (plan_worker env ident task skills mth b)" using assms(2) by simp
  have ok: "office_ok b \<Longrightarrow> office_ok b'" unfolding b' plan_worker_def by (rule with_worker_ok) (simp_all add: plan_ok)
  have other: "worker_state b' j = worker_state b j" if "j \<noteq> ident" for j
    using that by (simp add: b' plan_worker_def with_worker_other)
  have known: "worker_state b' ident = None \<longleftrightarrow> worker_state b ident = None" by (simp add: b' plan_worker_def)
  show ?thesis
  proof (cases r)
    case (Inl e)
    then show ?thesis using settled_calm(1) [OF assms(1) ok other known] by simp
  next
    case (Inr c)
    have "worker_state b' ident = Some Free"
      using assms(2) Inr by (auto simp: plan_worker_def with_worker_def worker_state_def no_worker_def dest: plan_free
          split: option.splits prod.splits)
    then show ?thesis using Inr calm_back [OF assms(1) _ other] ok by simp
  qed
qed

lemma create_external_calm: "calm b (snd (create_external_task env mth txt names skills executor b))"
proof (cases "free_event_worker b")
  case None
  then show ?thesis by (simp add: create_external_task_def)
next
  case (Some ident)
  obtain r b' where p: "plan_worker (mv_agent env 0) ident txt skills (Some mth) b = (r, b')" by (metis prod.collapse)
  have "calm b (case r of Inl _ \<Rightarrow> settle_worker (mv_tool env) ident b' | Inr _ \<Rightarrow> b')"
    using Some by (intro plan_worker_calm [OF _ p]) (simp add: free_event_worker_state)
  moreover have "calm b' (snd (bind_external env mth txt names executor command b'))" for command
    by (rule calm_workers) (rule bind_external_workers)
  ultimately show ?thesis using Some p
    by (auto simp: create_external_task_def intro: calm_trans split: sum.splits)
qed

lemma start_worker_frame:
  "office_ok b \<Longrightarrow> office_ok (snd (AgentRun.start_worker envs ident task skills mth b))"
  "j \<noteq> ident \<Longrightarrow> worker_state (snd (AgentRun.start_worker envs ident task skills mth b)) j = worker_state b j"
  "worker_state (snd (AgentRun.start_worker envs ident task skills mth b)) j = None \<longleftrightarrow> worker_state b j = None"
  by (simp add: start_worker_ok, simp add: AgentRun.start_worker_def with_worker_other, simp add: AgentRun.start_worker_def)

lemma start_worker_done:
  assumes "office_ok b" "AgentRun.start_worker envs ident task skills mth b = (Inr out, b')" "ao_status out \<noteq> Need"
  shows "worker_state b' ident = Some Free"
proof (cases "dget (of_workers b) ident")
  case None
  then show ?thesis using assms by (simp add: AgentRun.start_worker_def with_worker_def)
next
  case (Some w)
  then have w: "worker_ok w" using assms(1) by (simp add: office_ok_def)
  obtain r w1 wo1 where b: "begin_task task skills mth (w, of_world b) = (r, (w1, wo1))" by (metis prod.collapse)
  then obtain u where "r = Inr u" using assms(2) Some
    by (cases r) (auto simp: AgentRun.start_worker_def with_worker_def then_do_def)
  moreover have "worker_ok w1" using begin_task_cases [OF w b] by simp
  ultimately show ?thesis using assms(2,3) Some b run_agent_ok [of "(w1, wo1)" envs]
    by (auto simp: AgentRun.start_worker_def with_worker_def then_do_def worker_state_def at_rest_def split: prod.splits)
qed

lemma one_shot_calm: "calm b (snd (run_one_shot_agent env mth txt skills b))"
proof (cases "free_worker b")
  case None
  then show ?thesis by (simp add: run_one_shot_agent_def)
next
  case (Some ident)
  have free: "office_ok b \<Longrightarrow> worker_state b ident = Some Free" using Some by (simp add: free_worker_state)
  obtain r b' where p: "AgentRun.start_worker (mv_agent env) ident txt skills (Some mth) b = (r, b')" by (metis prod.collapse)
  note frame = start_worker_frame [where b = b and envs = "mv_agent env" and ident = ident and task = "txt" and skills = skills and mth = "Some mth",
      unfolded p snd_conv]
  note known = frame(3) [of ident]
  note settled = settled_calm [OF free frame(1,2) known]
  show ?thesis
  proof (cases "\<exists>out. r = Inr out \<and> ao_status out \<noteq> Need")
    case False
    then show ?thesis using Some p settled by (auto simp: run_one_shot_agent_def split: sum.splits)
  next
    case True
    then have "calm b b'" using start_worker_done p by (intro calm_back [OF free _ frame(2)]) (auto simp: frame(1))
    then show ?thesis using True Some p by (auto simp: run_one_shot_agent_def)
  qed
qed

lemma reported_calm:
  "calm b (snd r) \<Longrightarrow> calm b (snd (case r of (Inl e, b') \<Rightarrow> (f e, b') | (Inr v, b') \<Rightarrow> (g v, b')))"
  by (auto split: prod.split sum.split)

lemma result_calm: "calm b (snd r) \<Longrightarrow> calm b (snd (case r of (x, b') \<Rightarrow> (f x, b')))"
  by (auto split: prod.split)

lemma on_system_calm: "calm b (snd (on_system env f b))"
  by (rule calm_workers) (rule on_system_workers)

lemma execute_task_calm: "calm b (snd (execute_task_command env argv executor b))"
  unfolding execute_task_command_def Let_def
  by (simp add: one_shot_calm result_calm create_external_calm reported_calm on_system_calm split: option.split sum.split)

lemma timed_task_calm: "calm b (snd (timed_task_command env argv b))"
  by (auto simp: timed_task_command_def execute_task_calm split: option.split prod.split)

text \<open>The worker a command is suspended in.\<close>

definition work_owner :: "work_at \<Rightarrow> str list" where
  "work_owner w = (case w of In_agent ident \<Rightarrow> [ident] | _ \<Rightarrow> [])"

definition end_owner :: "work_end \<Rightarrow> str list" where
  "end_owner e = (case e of Suspended w \<Rightarrow> work_owner w | _ \<Rightarrow> [])"

definition work_trades :: "bureau \<Rightarrow> str list \<Rightarrow> work_step \<Rightarrow> bool" where
  "work_trades b js w \<longleftrightarrow> trades b js (end_owner (fst w)) (snd (snd w))"

lemma ends_unowned [simp]:
  "end_owner (said txt) = []" "end_owner (refused txt) = []" "end_owner (Result c) = []" "end_owner No_result = []"
  "end_owner (Raised e) = []" "end_owner (part_end p) = []" "end_owner (skill_end q) = []"
  "end_owner (agent_answer out) = []" "end_owner (agent_raised x) = []" "end_owner (Suspended (In_agent ident)) = [ident]"
  "end_owner (Suspended (Waiting_for_worker t sks)) = []"
  by (auto simp: said_def refused_def end_owner_def work_owner_def part_end_def skill_end_def agent_answer_def agent_raised_def
      split: tool_progress.split sum.split script_end.split agent_exc.split)

lemma still_trades: "end_owner r = [] \<Longrightarrow> calm b b' \<Longrightarrow> work_trades b [] (r, (m, b'))"
  by (simp add: work_trades_def calm_trades)

lemma world_calm [simp]: "calm b (b\<lparr>of_world := wo\<rparr>)"
  by (rule calm_workers) simp

lemma put_world_eq: "put_world cs (m, b) = (m\<lparr>mg_runtime := fst cs\<rparr>, b\<lparr>of_world := put_fs (snd cs) (of_world b)\<rparr>)"
  by (simp add: put_world_def)

lemma timer_command_calm: "execute_timer_command env argv b = (txt, b') \<Longrightarrow> calm b b'"
  using timer_command_workers [of env argv b] by (auto intro: calm_workers)

lemma plain_trades: "work_trades b [] (plain_command env command (m, b))"
  using timed_task_calm [of b env]
  by (auto simp: plain_command_def put_world_eq from_bureau_def intro!: still_trades dest: timer_command_calm
      split: sum.split prod.split option.split) (metis snd_conv)+

lemma command_trades: "work_trades b [] (work_command env command (m, b))"
  by (auto simp: work_command_def Let_def put_world_eq plain_trades intro!: still_trades split: prod.split option.split)

lemma agent_turn_trades: "work_trades b [ident] (agent_turn env ident (m, b))"
proof -
  obtain r b' where s: "step_worker (mv_agent env 0) ident b = (r, b')" by (metis prod.collapse)
  show ?thesis
  proof (cases "r = Inr None")
    case True
    then show ?thesis using s step_worker_calm by (simp add: agent_turn_def work_trades_def calm_trades)
  next
    case False
    have "trades b [ident] [] (settle_worker (mv_tool env) ident b')"
      using step_worker_settles [of b ident "mv_tool env" "mv_agent env 0"] s by simp
    then show ?thesis using s False
      by (auto simp: agent_turn_def work_trades_def split: sum.split option.split)
  qed
qed

lemma await_trades: "work_trades b [] (await_worker env txt skills (m, b))"
proof (cases "free_worker b")
  case None
  then show ?thesis by (simp add: await_worker_def still_trades)
next
  case (Some ident)
  obtain r b' where s: "begin_worker ident txt skills (Some (u ''query'')) b = (r, b')" by (metis prod.collapse)
  have "trades b [] (case r of Inl _ \<Rightarrow> [] | Inr _ \<Rightarrow> [ident]) b'"
    by (rule begin_worker_trades [OF _ s]) (use Some in \<open>simp add: free_worker_state\<close>)
  then show ?thesis using Some s agent_turn_trades [of b' ident env "m\<lparr>mg_waiting := False\<rparr>"]
    by (cases r) (auto simp: await_worker_def work_trades_def intro: trades_trans)
qed

lemma work_steps_trades: "work_trades b [] (work_steps env command (m, b))"
  by (auto simp: work_steps_def command_trades await_trades still_trades split: sum.split option.split)

lemma work_resume_trades: "work_trades b (work_owner w) (work_resume env w (m, b))"
  by (cases w) (auto simp: work_resume_def work_owner_def put_world_eq await_trades agent_turn_trades intro!: still_trades split: prod.split)

text \<open>A step of a turn.\<close>

lemma ask_model_owner:
  "ask_model env n (m, b) = (r, (m', b')) \<Longrightarrow> b' = b \<and> owner (next_place r) = []"
  by (auto simp: ask_model_def over_def error_over_def steps_exceeded_def next_place_def owner_def
      split: nat.splits if_splits chat_end.splits)

lemma after_work_trades:
  "work_trades b js w \<Longrightarrow> after_work n w = (r, (m', b')) \<Longrightarrow> trades b js (owner (next_place r)) b'"
  by (cases w) (auto simp: after_work_def work_trades_def end_owner_def work_owner_def next_place_def owner_def
      split: work_end.splits work_at.splits)

lemma advance_trades:
  assumes "AssistantLoop.advance env pt (m, b) = (r, (m', b'))"
  shows "trades b (owner (Some pt)) (owner (next_place r)) b'"
proof (cases pt)
  case (Ask_next n)
  then show ?thesis using assms ask_model_owner [of env n m b] by (simp add: AssistantLoop.advance_def owner_def calm_trades)
next
  case (Answered_with n content)
  then have t: "take_answer env n content (m, b) = (r, (m', b'))" using assms by (simp add: AssistantLoop.advance_def)
  have "trades b [] (owner (next_place r)) b'"
  proof (cases "\<exists>command. unwrap_work_command (strip content) = Inr (Some command)")
    case True
    then obtain command where "after_work n (work_steps env command (m, b)) = (r, (m', b'))"
      using t by (auto simp: take_answer_def)
    then show ?thesis using after_work_trades [OF work_steps_trades] by blast
  next
    case False
    then have "b' = b \<and> owner (next_place r) = []" using t
      by (auto simp: take_answer_def next_place_def owner_def reply_turn_def dest: ask_model_owner
          split: sum.splits option.splits if_splits)
    then show ?thesis by (simp add: calm_trades)
  qed
  then show ?thesis using Answered_with by (simp add: owner_def)
next
  case (Working n w)
  then have "after_work n (work_resume env w (m, b)) = (r, (m', b'))" using assms by (simp add: AssistantLoop.advance_def)
  then have "trades b (work_owner w) (owner (next_place r)) b'" by (rule after_work_trades [OF work_resume_trades])
  then show ?thesis using Working by (simp add: owner_def work_owner_def)
qed

section \<open>Running tasks\<close>

lemma task_outcome_state:
  assumes "worker_state b ident = Some Free \<or> ao_status out = Need"
  shows "snd (task_outcome env t ident out b) = b \<and> worker_state b ident = Some Free
    \<or> snd (task_outcome env t ident out b) = sleep_worker env ident b"
  using assms by (auto simp: task_outcome_def)

definition run_owner :: "beginning \<Rightarrow> str list" where
  "run_owner r = (case r of Running_task ex \<Rightarrow> [ex_worker ex] | Completed _ \<Rightarrow> [])"

text \<open>What happens after a worker was asked to begin.\<close>

lemma begin_ends:
  assumes "office_ok b \<Longrightarrow> worker_state b ident = Some Free" "begin_worker ident task skills mth b = (v, b1)"
  shows "case v of Inr _ \<Rightarrow> trades b [] [ident] b1 | Inl _ \<Rightarrow> trades b [] [] (settle_worker env ident b1)"
proof (cases v)
  case (Inr x)
  then show ?thesis using begin_worker_trades [OF assms] by simp
next
  case (Inl x)
  have "calm b (settle_worker env ident b1)"
  proof (rule settled_calm(1) [OF assms(1)])
    show "office_ok b \<Longrightarrow> office_ok b1" using begin_worker_ok [of b ident task skills mth] assms(2) by simp
  qed (use assms(2) Inl begin_worker_failed [of ident task skills mth b] in auto)
  then show ?thesis using Inl by (simp add: calm_trades)
qed

lemma resume_ends:
  assumes "office_ok b \<Longrightarrow> worker_state b ident = Some Free" "resume_worker ident task skills command result mth b = (v, b1)"
  shows "case v of Inr _ \<Rightarrow> trades b [] [ident] b1 | Inl _ \<Rightarrow> trades b [] [] (settle_worker env ident b1)"
proof (cases v)
  case (Inr x)
  have "trades b [] [ident] b1"
    using resume_worker_running [of b ident task skills command result mth x b1] resume_worker_ok [of b ident task skills command result mth]
      resume_worker_other [of _ ident task skills command result mth b] assms(2) Inr
    by (intro take_worker [OF assms(1)]) auto
  then show ?thesis using Inr by simp
next
  case (Inl x)
  have b1: "b1 = snd (resume_worker ident task skills command result mth b)" using assms(2) by simp
  have "calm b (settle_worker env ident b1)"
    by (rule settled_calm(1) [OF assms(1)]) (auto simp: b1 resume_worker_ok resume_worker_other, simp_all add: resume_worker_def)
  then show ?thesis using Inl by (simp add: calm_trades)
qed

lemma begin_autonomous_trades:
  assumes "begin_autonomous_task env e b = (Inr r, b')"
  shows "trades b [] (run_owner r) b'"
proof (cases "\<exists>t skills ident. task_of_event e b = Inr t \<and> t_skills t \<noteq> [] \<and> require_tools (of_catalog b) (t_skills t) = Inr skills
     \<and> free_worker b = Some ident")
  case False
  then have "b' = b \<and> run_owner r = []" using assms
    by (auto simp: begin_autonomous_task_def run_owner_def split: if_splits sum.splits option.splits)
  then show ?thesis by (simp add: calm_trades)
next
  case True
  then obtain t skills ident where t: "task_of_event e b = Inr t" "t_skills t \<noteq> []"
    "require_tools (of_catalog b) (t_skills t) = Inr skills" "free_worker b = Some ident" by blast
  obtain v b1 where v: "begin_worker ident (t_text t) skills (Some (t_method t)) b = (v, b1)" by (metis prod.collapse)
  have "case v of Inr _ \<Rightarrow> trades b [] [ident] b1 | Inl _ \<Rightarrow> trades b [] [] (settle_worker (mv_tool env) ident b1)"
    by (rule begin_ends [OF _ v]) (use t(4) in \<open>simp add: free_worker_state\<close>)
  then show ?thesis using assms t v
    by (auto simp: begin_autonomous_task_def failed_start_def run_owner_def split: if_splits sum.splits)
qed

lemma begin_mqtt_trades:
  assumes "begin_mqtt_task env e b = (r, b')"
  shows "trades b [] (run_owner r) b'"
proof (cases "\<exists>t skills bd ident. task_of_event e b = Inr t \<and> t_skills t \<noteq> [] \<and> require_tools (of_catalog b) (t_skills t) = Inr skills
     \<and> resolve (u ''mqtt'') (strip (ev_name e)) (of_events b) = Some bd \<and> free_event_worker b = Some ident")
  case False
  then have "b' = b \<and> run_owner r = []" using assms
    by (auto simp: begin_mqtt_task_def Let_def run_owner_def split: if_splits sum.splits option.splits)
  then show ?thesis by (simp add: calm_trades)
next
  case True
  then obtain t skills bd ident where t: "task_of_event e b = Inr t" "t_skills t \<noteq> []"
    "require_tools (of_catalog b) (t_skills t) = Inr skills" "resolve (u ''mqtt'') (strip (ev_name e)) (of_events b) = Some bd"
    "free_event_worker b = Some ident" by blast
  obtain v b1 where v: "resume_worker ident (t_text t) skills (b_command bd) (ev_task e) (Some (t_method t)) b = (v, b1)"
    by (metis prod.collapse)
  have "case v of Inr _ \<Rightarrow> trades b [] [ident] b1 | Inl _ \<Rightarrow> trades b [] [] (settle_worker (mv_tool env) ident b1)"
    by (rule resume_ends [OF _ v]) (use t(5) in \<open>simp add: free_event_worker_state\<close>)
  then show ?thesis using assms t v
    by (auto simp: begin_mqtt_task_def Let_def failed_start_def run_owner_def split: if_splits sum.splits)
qed

lemma begin_event_trades: "begin_task_event env e b = (Inr r, b') \<Longrightarrow> trades b [] (run_owner r) b'"
  by (auto simp: begin_task_event_def dest: begin_autonomous_trades begin_mqtt_trades split: if_splits prod.splits)

lemma begin_event_error: "begin_task_event env e b = (Inl x, b') \<Longrightarrow> b' = b"
  by (auto simp: begin_task_event_def begin_autonomous_task_def
      split: if_splits prod.splits option.splits sum.splits)

lemma sleep_trades: "trades b [ident] [] (sleep_worker env ident b)"
  by (rule give_worker) (auto simp: sleep_worker_free sleep_worker_ok sleep_worker_other)

lemma settle_trades: "trades b [ident] [] (settle_worker env ident b)"
  by (rule give_worker) (auto simp: settle_worker_free settle_worker_ok settle_worker_other)

lemma step_task_trades:
  assumes "step_autonomous_task env ex b = (r, b')"
  shows "trades b [ex_worker ex] (if r = None then [ex_worker ex] else []) b'"
proof -
  define ident where "ident = ex_worker ex"
  obtain v b1 where s: "step_worker (mv_tool env) ident b = (v, b1)" by (metis prod.collapse)
  consider (stale) "r \<noteq> None" "b' = sleep_worker (mv_tool env) ident b"
    | (failed) "r \<noteq> None" "b' = settle_worker (mv_tool env) ident b1"
    | (goes_on) "r = None" "v = Inr None" "b' = b1"
    | (ends) out where "r \<noteq> None" "v = Inr (Some out)" "b' = snd (task_outcome (mv_tool env) (ac_task (ex_activation ex)) ident out b1)"
    using assms s
    by (auto simp: step_autonomous_task_def Let_def ident_def failed_start_def split: if_splits sum.splits option.splits prod.splits)
  then show ?thesis
  proof cases
    case stale
    then show ?thesis by (auto simp: ident_def sleep_trades)
  next
    case failed
    then show ?thesis using step_worker_settles [of b ident "mv_tool env" "mv_tool env"] s by (auto simp: ident_def)
  next
    case goes_on
    then show ?thesis using step_worker_calm s by (simp add: calm_trades ident_def)
  next
    case ends
    have other: "worker_state b1 j = worker_state b j" if "j \<noteq> ident" for j
      using that s with_worker_other [of j ident _ _ b] by (metis snd_conv step_worker_def)
    have known: "worker_state b1 ident = None \<longleftrightarrow> worker_state b ident = None"
      using s with_worker_known [of ident _ _ b ident] by (metis snd_conv step_worker_def)
    have ok: "office_ok b \<Longrightarrow> office_ok b1" using step_worker_ok [of b "mv_tool env" ident] s by simp
    have rest: "worker_state b1 ident = Some Free \<or> ao_status out = Need" if "office_ok b"
      using that s ends(2) finished_worker_free by blast
    have "trades b [ident] [] b'"
    proof (rule give_worker)
      show "worker_state b' j = worker_state b j" if "j \<noteq> ident" for j
        using that other by (auto simp: ends(3) task_outcome_def sleep_worker_other)
      show "office_ok b' \<and> worker_state b' ident = Some Free" if "office_ok b" "worker_state b ident \<noteq> None"
        using task_outcome_state [OF rest [OF that(1)], of "mv_tool env" "ac_task (ex_activation ex)"] that known ok
        by (auto simp: ends(3) sleep_worker_free sleep_worker_ok)
    qed
    then show ?thesis using ends(1) by (auto simp: ident_def)
  qed
qed

section \<open>The dialogue of a manager\<close>

definition seated :: "manager \<Rightarrow> bool" where
  "seated m \<longleftrightarrow> (\<exists>sys rest. mg_base m = [says System sys] \<and> mg_messages m = says System sys # rest \<and> alternates True rest)"

text \<open>The last message fits the place where the turn is suspended.\<close>

definition agrees :: "turn_at option \<Rightarrow> message list \<Rightarrow> bool" where
  "agrees pt ms \<longleftrightarrow> (case pt of
       Some (Ask_next _) \<Rightarrow> ms \<noteq> [] \<and> ms_role (last ms) = User
     | Some (Answered_with _ content) \<Rightarrow> ms \<noteq> [] \<and> last ms = says Assistant content
     | Some (Working _ _) \<Rightarrow> ms \<noteq> [] \<and> ms_role (last ms) = Assistant
     | None \<Rightarrow> True)"

definition talk_ok :: "talk \<Rightarrow> bool" where
  "talk_ok t \<longleftrightarrow> seated (fst t) \<and> agrees (snd t) (mg_messages (fst t))"

lemma alternates_roles: "alternates b ms \<Longrightarrow> map ms_role ns = map ms_role ms \<Longrightarrow> alternates b ns"
proof (induction ms arbitrary: b ns)
  case (Cons m ms)
  then show ?case by (cases ns) auto
qed simp

lemma seated_frame: "seated m \<Longrightarrow> mg_base m' = mg_base m \<Longrightarrow> mg_messages m' = mg_messages m \<Longrightarrow> seated m'"
  by (simp add: seated_def)

lemma seated_base: "seated m \<Longrightarrow> mg_base m' = mg_base m \<Longrightarrow> mg_messages m' = mg_base m \<Longrightarrow> seated m'"
  by (auto simp: seated_def)

lemma seatedI: "mg_base m = [says System sys] \<Longrightarrow> mg_messages m = says System sys # rest \<Longrightarrow> alternates True rest \<Longrightarrow> seated m"
  by (auto simp: seated_def)

lemma append_user_base: "mg_base (append_user c m) = mg_base m"
  by (simp add: append_user_def Let_def)

lemma append_user_seated:
  assumes "seated m"
  shows "seated (append_user c m) \<and> fresh_input (append_user c m)"
proof -
  obtain sys rest where m: "mg_base m = [says System sys]" "mg_messages m = says System sys # rest" "alternates True rest"
    using assms by (auto simp: seated_def)
  define c' where "c' = (case c of Words t \<Rightarrow> Words (strip t) | Parts ps \<Rightarrow> Parts ps)"
  show ?thesis
  proof (cases "ms_role (last (mg_messages m)) = User")
    case True
    define l where "l = (last rest)\<lparr>ms_content := merge_content (ms_content (last rest)) c'\<rparr>"
    have rest: "rest \<noteq> []" using True m by (auto simp: says_def)
    then have "mg_messages (append_user c m) = says System sys # butlast rest @ [l]" "ms_role l = User"
      using True m by (auto simp: append_user_def Let_def c'_def l_def)
    moreover have alt: "alternates True (butlast rest @ [l])"
    proof (rule alternates_roles [OF m(3)])
      have "ms_role l = ms_role (last rest)" by (simp add: l_def)
      then show "map ms_role (butlast rest @ [l]) = map ms_role rest"
        using rest by (metis append_butlast_last_id list.simps(8,9) map_append)
    qed
    ultimately show ?thesis using m(1) by (intro conjI seatedI [OF _ _ alt, of _ sys]) (simp_all add: append_user_base fresh_input_def)
  next
    case False
    then have e: "mg_messages (append_user c m) = says System sys # rest @ [\<lparr>ms_role = User, ms_content = c'\<rparr>]"
      using m by (simp add: append_user_def Let_def c'_def)
    have "even (length rest)"
      using False m alternates_last [of rest] by (cases "rest = []") auto
    then have alt: "alternates True (rest @ [\<lparr>ms_role = User, ms_content = c'\<rparr>])" using m(3) by simp
    show ?thesis using e m(1) by (intro conjI seatedI [OF _ _ alt, of _ sys]) (simp_all add: append_user_base fresh_input_def)
  qed
qed

lemma tell_manager_seated: "seated m \<Longrightarrow> seated (tell_manager txt m) \<and> fresh_input (tell_manager txt m)"
  by (simp add: tell_manager_def append_user_seated)

lemma manager_says_seated:
  assumes "seated m" "fresh_input m"
  shows "seated (manager_says txt m) \<and> mg_messages (manager_says txt m) \<noteq> []
    \<and> last (mg_messages (manager_says txt m)) = says Assistant txt"
proof -
  obtain sys rest where m: "mg_base m = [says System sys]" "mg_messages m = says System sys # rest" "alternates True rest"
    using assms by (auto simp: seated_def)
  then have "odd (length rest)"
    using assms(2) alternates_last [of rest] by (cases "rest = []") (auto simp: fresh_input_def says_def)
  then have "alternates True (rest @ [says Assistant txt])" using m(3) by (simp add: says_def)
  then show ?thesis using m by (intro conjI seatedI [of _ sys "rest @ [says Assistant txt]"]) (simp_all add: manager_says_def)
qed

lemma reset_seated: "seated m \<Longrightarrow> seated (reset_manager m)"
  by (auto simp: reset_manager_def intro: seated_base)

lemma abort_seated: "seated m \<Longrightarrow> seated (abort_context m)"
  by (auto simp: abort_context_def reset_manager_def intro: seated_base)

lemma reply_seated: "seated m \<Longrightarrow> seated (snd (reply_turn txt m))"
  by (auto simp: reply_turn_def reset_manager_def intro: seated_base)

text \<open>Commands do not touch the dialogue.\<close>

definition same_talk :: "manager \<Rightarrow> work_step \<Rightarrow> bool" where
  "same_talk m w \<longleftrightarrow> mg_base (fst (snd w)) = mg_base m \<and> mg_messages (fst (snd w)) = mg_messages m"

lemma same_talk_pair [simp]: "same_talk m (r, (m', b)) \<longleftrightarrow> mg_base m' = mg_base m \<and> mg_messages m' = mg_messages m"
  by (simp add: same_talk_def)

lemma plain_talk: "same_talk m (plain_command env command (m, b))"
  by (auto simp: plain_command_def put_world_eq from_bureau_def split: sum.split prod.split option.split)

lemma command_talk: "same_talk m (work_command env command (m, b))"
  by (auto simp: work_command_def Let_def put_world_eq plain_talk split: prod.split option.split)

lemma agent_turn_talk: "same_talk m (agent_turn env ident (m', b)) \<longleftrightarrow> mg_base m' = mg_base m \<and> mg_messages m' = mg_messages m"
  by (auto simp: agent_turn_def split: prod.split sum.split option.split)

lemma await_talk: "same_talk m (await_worker env txt skills (m, b))"
  by (auto simp: await_worker_def agent_turn_talk split: prod.split sum.split option.split)

lemma work_steps_talk: "same_talk m (work_steps env command (m, b))"
  by (auto simp: work_steps_def command_talk await_talk split: sum.split option.split)

lemma work_resume_talk: "same_talk m (work_resume env w (m, b))"
  by (cases w) (auto simp: work_resume_def put_world_eq await_talk agent_turn_talk split: prod.split)

lemma ask_model_talk:
  assumes "seated m" "ask_model env n (m, b) = (r, (m', b'))"
  shows "seated m' \<and> agrees (next_place r) (mg_messages m')"
proof (cases "n = 0 \<or> \<not> fresh_input m")
  case True
  then have "m' = abort_context m \<and> next_place r = None" using assms(2)
    by (auto simp: ask_model_def over_def error_over_def steps_exceeded_def next_place_def split: nat.splits)
  then show ?thesis using assms(1) by (simp add: abort_seated agrees_def)
next
  case False
  then have "seated (manager_says content m) \<and> mg_messages (manager_says content m) \<noteq> []
      \<and> last (mg_messages (manager_says content m)) = says Assistant content" for content
    using manager_says_seated assms(1) by simp
  then show ?thesis using False assms
    by (auto simp: ask_model_def error_over_def next_place_def agrees_def abort_seated split: nat.splits chat_end.splits)
qed

lemma protocol_error_seated: "seated m \<Longrightarrow> seated (protocol_error txt m) \<and> fresh_input (protocol_error txt m)"
  by (simp add: protocol_error_def tell_manager_seated)

lemma fresh_agrees: "fresh_input m \<Longrightarrow> agrees (Some (Ask_next n)) (mg_messages m)"
  by (simp add: fresh_input_def agrees_def)

lemma after_work_talk:
  assumes "seated m" "ms_role (last (mg_messages m)) = Assistant" "same_talk m w" "after_work n w = (r, (m', b'))"
  shows "seated m' \<and> agrees (next_place r) (mg_messages m')"
proof -
  obtain e m1 b1 where w: "w = (e, (m1, b1))" by (metis prod.collapse)
  then have m1: "seated m1" "mg_messages m1 = mg_messages m" using assms(1,3) seated_frame by auto
  show ?thesis
  proof (cases e)
    case (Result c)
    then show ?thesis using assms(4) w append_user_seated [OF m1(1)] fresh_agrees
      by (auto simp: after_work_def next_place_def)
  next
    case (Suspended p)
    then have "m' = m1" "next_place r = Some (Working n p)" using assms(4) w by (auto simp: after_work_def next_place_def)
    moreover have "mg_messages m \<noteq> []" using assms(1) by (auto simp: seated_def)
    ultimately show ?thesis using m1 assms(2) by (simp add: agrees_def)
  qed (use assms(4) w m1 in \<open>auto simp: after_work_def next_place_def agrees_def reset_seated split: if_splits\<close>)
qed

lemma advance_talk:
  assumes "talk_ok (m, Some pt)" "AssistantLoop.advance env pt (m, b) = (r, (m', b'))"
  shows "talk_ok (m', next_place r)"
proof -
  have m: "seated m" "agrees (Some pt) (mg_messages m)" using assms(1) by (simp_all add: talk_ok_def)
  have "seated m' \<and> agrees (next_place r) (mg_messages m')"
  proof (cases pt)
    case (Ask_next n)
    then show ?thesis using assms(2) ask_model_talk m(1) by (auto simp: AssistantLoop.advance_def)
  next
    case (Working n w)
    then have "after_work n (work_resume env w (m, b)) = (r, (m', b'))" "ms_role (last (mg_messages m)) = Assistant"
      using assms(2) m(2) by (simp_all add: AssistantLoop.advance_def agrees_def)
    then show ?thesis using after_work_talk [OF m(1) _ work_resume_talk] by blast
  next
    case (Answered_with n content)
    then have t: "take_answer env n content (m, b) = (r, (m', b'))" and l: "ms_role (last (mg_messages m)) = Assistant"
      using assms(2) m(2) by (simp_all add: AssistantLoop.advance_def agrees_def says_def)
    note told = protocol_error_seated [OF m(1)]
    show ?thesis
    proof (cases "unwrap_work_command (strip content)")
      case (Inl e)
      then have "m' = protocol_error e m" "next_place r = Some (Ask_next n)" using t by (auto simp: take_answer_def next_place_def)
      then show ?thesis using told fresh_agrees by simp
    next
      case (Inr c)
      show ?thesis
      proof (cases c)
        case (Some command)
        then have "after_work n (work_steps env command (m, b)) = (r, (m', b'))" using t Inr by (simp add: take_answer_def)
        then show ?thesis using after_work_talk [OF m(1) l work_steps_talk] by blast
      next
        case None
        note t' = t [unfolded take_answer_def, simplified, unfolded Inr None, simplified]
        show ?thesis
        proof (cases "read_manager env content")
          case (Inl e)
          then have "m' = protocol_error e m" "next_place r = Some (Ask_next n)" using t' by (auto simp: next_place_def)
          then show ?thesis using told fresh_agrees by simp
        next
          case (Inr d)
          consider "md_action d = Act_ask" | "md_action d = Act_reply"
            | (other) "md_action d \<noteq> Act_ask" "md_action d \<noteq> Act_reply" by blast
          then show ?thesis
          proof cases
            case other
            then show ?thesis using t' Inr ask_model_talk told by simp blast
          qed (use t' Inr m(1) reply_seated [OF m(1), of "md_body d"] in \<open>auto simp: next_place_def agrees_def split: prod.splits\<close>)
        qed
      qed
    qed
  qed
  then show ?thesis by (simp add: talk_ok_def)
qed

section \<open>The invariant of the desk\<close>

definition desk_ok :: "desk \<Rightarrow> bool" where
  "desk_ok d \<longleftrightarrow> staffed (owners d) (dk_bureau d) \<and> list_all talk_ok (dk_talks d)"

lemma count_split: "i < length xs \<Longrightarrow> count_list (concat (map f xs)) a = count_list (f (xs ! i) @ concat (map f (drop_at i xs))) a"
  by (subst id_take_nth_drop [of i xs]) (simp_all add: drop_at_def)

lemma drop_at_update [simp]: "drop_at i (xs[i := x]) = drop_at i xs"
  by (simp add: drop_at_def)

lemma list_all_drop: "list_all P xs \<Longrightarrow> list_all P (drop_at i xs)"
  by (auto simp: drop_at_def list_all_iff dest: in_set_takeD in_set_dropD)

text \<open>A step of the turn at a place.\<close>

lemma talk_step:
  assumes "desk_ok d" "i < length (dk_talks d)" "dk_talks d ! i = (m, pt)"
    "trades (dk_bureau d) (owner pt) (owner pt') b" "talk_ok (m', pt')"
  shows "desk_ok (d\<lparr>dk_talks := (dk_talks d)[i := (m', pt')], dk_bureau := b\<rparr>)"
proof -
  define rest where "rest = concat (map (\<lambda>t. owner (snd t)) (drop_at i (dk_talks d))) @ map ex_worker (dk_runs d)"
  have "staffed (owner pt @ rest) (dk_bureau d)"
    using assms(1-3) count_split [of i "dk_talks d" "\<lambda>t. owner (snd t)"] staffed_cong [of "owners d" "owner pt @ rest" "dk_bureau d"]
    by (simp add: desk_ok_def owners_def rest_def)
  then have "staffed (owner pt' @ rest) b" using assms(4) by (simp add: trades_def)
  then have "staffed (owners (d\<lparr>dk_talks := (dk_talks d)[i := (m', pt')], dk_bureau := b\<rparr>)) b"
    using assms(2) count_split [of i "(dk_talks d)[i := (m', pt')]" "\<lambda>t. owner (snd t)"]
      staffed_cong [of "owners (d\<lparr>dk_talks := (dk_talks d)[i := (m', pt')], dk_bureau := b\<rparr>)" "owner pt' @ rest" b]
    by (simp add: owners_def rest_def)
  moreover have "list_all talk_ok ((dk_talks d)[i := (m', pt')])"
    using assms(1,5) set_update_subset_insert [of "dk_talks d" i "(m', pt')"] by (auto simp: desk_ok_def list_all_iff)
  ultimately show ?thesis by (simp add: desk_ok_def)
qed

lemma talk_at: "desk_ok d \<Longrightarrow> i < length (dk_talks d) \<Longrightarrow> talk_ok (dk_talks d ! i)"
  by (simp add: desk_ok_def list_all_length)

lemma open_turn_ok:
  assumes "desk_ok d" "\<And>m b. seated m \<Longrightarrow> \<exists>m' pt. f (m, b) = (pt, (m', b)) \<and> owner (Some pt) = [] \<and> talk_ok (m', Some pt)"
  shows "desk_ok (open_turn f i d)"
proof (cases "i < length (dk_talks d) \<and> snd (dk_talks d ! i) = None")
  case False
  then show ?thesis using assms(1) by (simp only: open_turn_def if_False)
next
  case True
  then obtain m where m: "dk_talks d ! i = (m, None)" by (metis prod.collapse)
  then have "seated m" using talk_at [OF assms(1), of i] True by (simp add: talk_ok_def)
  then obtain m' pt where "f (m, dk_bureau d) = (pt, (m', dk_bureau d))" "owner (Some pt) = []" "talk_ok (m', Some pt)"
    using assms(2) by blast
  then show ?thesis using talk_step [OF assms(1) _ m, of "Some pt" "dk_bureau d" m'] True m
    by (simp add: open_turn_def owner_def calm_trades)
qed

lemma move_turn_ok: "desk_ok d \<Longrightarrow> desk_ok (move_turn env i d)"
proof (cases "i < length (dk_talks d) \<and> snd (dk_talks d ! i) \<noteq> None")
  case False
  assume "desk_ok d"
  then show ?thesis using False by (auto simp: move_turn_def)
next
  case True
  assume ok: "desk_ok d"
  from True obtain m pt where m: "dk_talks d ! i = (m, Some pt)" by (metis option.exhaust prod.collapse)
  obtain r m' b' where a: "AssistantLoop.advance env pt (m, dk_bureau d) = (r, (m', b'))" by (metis prod.collapse)
  have "talk_ok (m', next_place r)" using advance_talk [OF _ a] talk_at [OF ok, of i] True m by simp
  then show ?thesis using talk_step [OF ok _ m advance_trades [OF a]] True m a by (simp add: move_turn_def)
qed

lemma close_turn_trades:
  assumes "close_turn env pt (m, b) = (m', b')"
  shows "m' = m \<and> trades b (owner (Some pt)) [] b'"
proof (cases "\<exists>n ident. pt = Working n (In_agent ident)")
  case True
  then show ?thesis using assms by (auto simp: close_turn_def owner_def settle_trades)
next
  case False
  then have "m' = m" "calm b b'" "owner (Some pt) = []"
    using assms by (auto simp: close_turn_def owner_def split: turn_at.splits work_at.splits)
  then show ?thesis by (simp add: calm_trades)
qed

lemma drop_turn_ok: "desk_ok d \<Longrightarrow> desk_ok (drop_turn env i d)"
proof (cases "i < length (dk_talks d) \<and> snd (dk_talks d ! i) \<noteq> None")
  case False
  assume "desk_ok d"
  then show ?thesis using False by (auto simp: drop_turn_def)
next
  case True
  assume ok: "desk_ok d"
  from True obtain m pt where m: "dk_talks d ! i = (m, Some pt)" by (metis option.exhaust prod.collapse)
  obtain m' b' where c: "close_turn env pt (m, dk_bureau d) = (m', b')" by (metis prod.collapse)
  have "talk_ok (abort_context m, None)" using talk_at [OF ok, of i] True m by (simp add: talk_ok_def abort_seated agrees_def)
  moreover have "owner None = []" by (simp add: owner_def)
  ultimately show ?thesis using talk_step [OF ok _ m, of None b' "abort_context m"] close_turn_trades [OF c] True m c
    by (simp add: drop_turn_def)
qed

lemma at_talk_ok:
  assumes "desk_ok d" "\<And>m. seated m \<Longrightarrow> seated (f m)"
  shows "desk_ok (at_talk f i d)"
proof (cases "i < length (dk_talks d) \<and> snd (dk_talks d ! i) = None")
  case False
  then show ?thesis using assms(1) by (simp only: at_talk_def if_False)
next
  case True
  then obtain m where m: "dk_talks d ! i = (m, None)" by (metis prod.collapse)
  then have "talk_ok (f m, None)" using talk_at [OF assms(1), of i] True assms(2) by (simp add: talk_ok_def agrees_def)
  then show ?thesis using talk_step [OF assms(1) _ m calm_trades [OF calm_refl]] True m by (simp add: at_talk_def)
qed

lemma bureau_ok: "desk_ok d \<Longrightarrow> calm (dk_bureau d) b \<Longrightarrow> desk_ok (d\<lparr>dk_bureau := b\<rparr>)"
  using calm_trades [of "dk_bureau d" b "[]"] by (simp add: desk_ok_def owners_def trades_def)

lemma fork_talk_ok: "desk_ok d \<Longrightarrow> desk_ok (fork_talk i d)"
proof (cases "i < length (dk_talks d)")
  case False
  assume "desk_ok d"
  then show ?thesis using False by (simp add: fork_talk_def)
next
  case True
  assume ok: "desk_ok d"
  obtain r fs where f: "fork_context (fst (dk_talks d ! i)) (wo_fs (of_world (dk_bureau d))) = (r, fs)" by (metis prod.collapse)
  let ?d = "d\<lparr>dk_bureau := (dk_bureau d)\<lparr>of_world := put_fs fs (of_world (dk_bureau d))\<rparr>\<rparr>"
  have d: "desk_ok ?d" using ok by (rule bureau_ok) simp
  show ?thesis
  proof (cases r)
    case (Inl e)
    then show ?thesis using True f d by (simp add: fork_talk_def)
  next
    case (Inr m)
    have "seated (fst (dk_talks d ! i))" using talk_at [OF ok True] by (simp add: talk_ok_def)
    then have "talk_ok (m, None)" using f Inr
      by (auto simp: fork_context_def then_do_def talk_ok_def agrees_def split: prod.splits sum.splits intro: seated_base)
    then show ?thesis using True f d Inr by (simp add: fork_talk_def desk_ok_def owners_def owner_def)
  qed
qed

lemma count_drop: "i < length xs \<Longrightarrow> count_list (map f xs) a = count_list (f (xs ! i) # map f (drop_at i xs)) a"
  by (subst id_take_nth_drop [of i xs]) (simp_all add: drop_at_def)

lemma begin_run_ok: "desk_ok d \<Longrightarrow> desk_ok (begin_run env e d)"
proof -
  assume ok: "desk_ok d"
  obtain r b where b: "begin_task_event env e (dk_bureau d) = (r, b)" by (metis prod.collapse)
  show ?thesis
  proof (cases "\<exists>ex. r = Inr (Running_task ex)")
    case True
    then obtain ex where r: "r = Inr (Running_task ex)" by blast
    then have "trades (dk_bureau d) [] [ex_worker ex] b" using begin_event_trades b by (fastforce simp: run_owner_def)
    then have "staffed (ex_worker ex # owners d) b" using ok by (simp add: desk_ok_def trades_def)
    then have "staffed (owners (d\<lparr>dk_runs := dk_runs d @ [ex], dk_bureau := b\<rparr>)) b"
      by (subst staffed_cong [of _ "ex_worker ex # owners d"]) (simp_all add: owners_def)
    then show ?thesis using ok b r by (simp add: begin_run_def desk_ok_def)
  next
    case False
    then have "trades (dk_bureau d) [] [] b"
      using b begin_event_error [of env e "dk_bureau d"] begin_event_trades [of env e "dk_bureau d"]
      by (cases r) (auto simp: run_owner_def calm_trades split: beginning.splits)
    then have "desk_ok (d\<lparr>dk_bureau := b\<rparr>)" using ok by (simp add: desk_ok_def trades_def owners_def)
    then show ?thesis using b False by (auto simp: begin_run_def split: sum.split beginning.split)
  qed
qed

lemma step_run_trades_ok:
  assumes "desk_ok d" "i < length (dk_runs d)" "trades (dk_bureau d) [ex_worker (dk_runs d ! i)] [] b"
  shows "desk_ok (d\<lparr>dk_runs := drop_at i (dk_runs d), dk_bureau := b\<rparr>)"
proof -
  let ?d = "d\<lparr>dk_runs := drop_at i (dk_runs d), dk_bureau := b\<rparr>"
  have "staffed (ex_worker (dk_runs d ! i) # owners ?d) (dk_bureau d)"
    using assms(1) staffed_cong [of "owners d" "ex_worker (dk_runs d ! i) # owners ?d"] count_drop [OF assms(2), of ex_worker]
    by (simp add: desk_ok_def owners_def)
  then show ?thesis using assms(1,3) by (simp add: desk_ok_def trades_def)
qed

lemma same_run:
  assumes "desk_ok d" "i < length (dk_runs d)" "trades (dk_bureau d) [ex_worker (dk_runs d ! i)] [ex_worker (dk_runs d ! i)] b"
  shows "desk_ok (d\<lparr>dk_bureau := b\<rparr>)"
proof -
  define rest where "rest = concat (map (\<lambda>t. owner (snd t)) (dk_talks d)) @ map ex_worker (drop_at i (dk_runs d))"
  have c: "staffed (owners d) x = staffed (ex_worker (dk_runs d ! i) # rest) x" for x
    using staffed_cong [of "owners d" "ex_worker (dk_runs d ! i) # rest"] count_drop [OF assms(2), of ex_worker]
    by (simp add: owners_def rest_def)
  then have "staffed (owners d) b" using assms(1,3) by (simp add: desk_ok_def trades_def)
  then show ?thesis using assms(1) by (simp add: desk_ok_def owners_def)
qed

lemma move_run_ok: "desk_ok d \<Longrightarrow> desk_ok (move_run env i d)"
proof (cases "i < length (dk_runs d)")
  case False
  assume "desk_ok d"
  then show ?thesis using False by (simp add: move_run_def)
next
  case True
  assume ok: "desk_ok d"
  obtain r b where r: "step_autonomous_task env (dk_runs d ! i) (dk_bureau d) = (r, b)" by (metis prod.collapse)
  show ?thesis using step_task_trades [OF r] step_run_trades_ok [OF ok True] same_run [OF ok True] True r
    by (cases r) (simp_all add: move_run_def)
qed

lemma stop_run_ok: "desk_ok d \<Longrightarrow> desk_ok (stop_run env i d)"
  by (simp add: stop_run_def step_run_trades_ok settle_trades)

lemma begin_turn_ok: "seated m \<Longrightarrow> \<exists>m' pt. begin_turn txt (m, b) = (pt, (m', b)) \<and> owner (Some pt) = [] \<and> talk_ok (m', Some pt)"
proof -
  assume "seated m"
  then have "seated (hear_user txt m) \<and> fresh_input (hear_user txt m)"
    by (auto simp: hear_user_def Let_def intro!: tell_manager_seated intro: seated_frame)
  then show ?thesis by (simp add: begin_turn_def owner_def talk_ok_def fresh_agrees)
qed

lemma begin_query_ok: "seated m \<Longrightarrow> \<exists>m' pt. begin_query_turn n txt (m, b) = (pt, (m', b)) \<and> owner (Some pt) = [] \<and> talk_ok (m', Some pt)"
  by (simp add: begin_query_turn_def owner_def talk_ok_def fresh_agrees tell_manager_seated)

lemma released_seated: "seated m \<Longrightarrow> seated (human_session_released m)"
  by (simp add: human_session_released_def abort_seated)

lemma new_session_seated: "seated m \<Longrightarrow> seated (case reset_for_new_session ok m of None \<Rightarrow> m | Some m' \<Rightarrow> m')"
  by (auto simp: reset_for_new_session_def leave_direct_def intro: seated_base)

interpretation desks: stepper desk_do "\<lambda>_ _. True" desk_ok
proof
  fix d op
  assume ok: "desk_ok d"
  show "desk_ok (desk_do d op)"
    by (cases op) (simp_all add: desk_do_def ok open_turn_ok begin_turn_ok begin_query_ok move_turn_ok drop_turn_ok at_talk_ok released_seated
        new_session_seated fork_talk_ok begin_run_ok move_run_ok stop_run_ok bureau_ok)
qed

end
