(* ===== verification/ManagerProps.thy ===== *)
theory ManagerProps
  imports Desk
begin

text \<open>
  What the managers guarantee: the invariants of the desk as properties, what a failed turn leaves of
  its dialogue, and that every turn of the assistant ends or waits for a worker.
\<close>

section \<open>A failed turn\<close>

text \<open>Only the base of the dialogue is left, and no mode is on.\<close>

definition at_base :: "manager \<Rightarrow> bool" where
  "at_base m \<longleftrightarrow> mg_messages m = mg_base m \<and> \<not> mg_chat m \<and> \<not> mg_close m \<and> \<not> mg_direct m \<and> \<not> mg_direct_waiting m
     \<and> mg_repeated m = []"

definition fails_to_base :: "(agent_exc + turn) \<times> manager_session \<Rightarrow> bool" where
  "fails_to_base r \<longleftrightarrow> (\<forall>t. fst r = Inr t \<longrightarrow> tu_kind t = u ''error'' \<longrightarrow> at_base (fst (snd r)))"

definition end_fails :: "manager_end \<times> manager_session \<Rightarrow> bool" where
  "end_fails r \<longleftrightarrow> (\<forall>e. fst r = Done e \<longrightarrow> fails_to_base (e, snd r))"

lemma abort_at_base [simp]: "at_base (abort_context m)"
  by (simp add: at_base_def abort_context_def reset_manager_def)

lemma kinds [simp]: "u ''reply'' \<noteq> u ''error''" "u ''ask'' \<noteq> u ''error''" "u ''wait'' \<noteq> u ''error''" "u ''silent'' \<noteq> u ''error''"
  by code_simp+

lemma ends_fail [simp]:
  "end_fails (error_turn txt (m, b))" "end_fails (hear txt (m, b))" "end_fails (Done (Inl e), s)" "end_fails (Again, s)"
  "end_fails (report_outcome r m)" "fails_to_base (steps_exceeded who (m, b))"
  by (auto simp: end_fails_def fails_to_base_def error_turn_def hear_def report_outcome_def steps_exceeded_def split: prod.split sum.split)

lemma done_fails: "kind \<in> {''reply'', ''ask'', ''wait'', ''silent''} \<Longrightarrow> end_fails (Done (Inr (a_turn kind txt)), s)"
  by (auto simp: end_fails_def fails_to_base_def a_turn_def)

lemma directive_fails: "end_fails (carry_out_directive env d (m, b))"
  by (auto simp: carry_out_directive_def reply_turn_def delegate_def continue_delegated_def done_fails
      split: manager_action.split prod.split sum.split option.split)

lemma manager_step_fails: "end_fails (fst (manager_step env prior (m, b)))"
  by (auto simp: manager_step_def Let_def directive_fails split: chat_end.split sum.split)

lemma drive_manager_fails: "fails_to_base (drive_manager n envs prior s)"
proof (induction n envs prior s rule: drive_manager.induct)
  case (1 envs prior s)
  then show ?case by (cases s) simp
next
  case (2 n envs prior s)
  obtain e s' prior' where r: "manager_step (envs 0) prior s = ((e, s'), prior')" by (metis prod.collapse)
  then have "end_fails (e, s')" using manager_step_fails [of "envs 0" prior "fst s" "snd s"] by simp
  then show ?case using 2 r by (cases e) (auto simp: end_fails_def)
qed

lemma direct_command_fails: "end_fails (direct_command env command (m, b))"
  by (auto simp: direct_command_def Let_def put_world_eq split: prod.split option.split sum.split)

lemma direct_step_fails: "end_fails (direct_step env (m, b))"
  by (auto simp: direct_step_def Let_def direct_command_fails done_fails split: chat_end.split sum.split agent_directive.split option.split)

lemma drive_direct_fails: "fails_to_base (drive_direct n envs s)"
proof (induction n envs s rule: drive_direct.induct)
  case (1 envs s)
  then show ?case by (cases s) simp
next
  case (2 n envs s)
  obtain e s' where r: "direct_step (envs 0) s = (e, s')" by (metis prod.collapse)
  then have "end_fails (e, s')" using direct_step_fails [of "envs 0" "fst s" "snd s"] by simp
  then show ?case using 2 r by (cases e) (auto simp: end_fails_def)
qed

lemma user_message_fails: "fails_to_base (user_message envs raw (m, b))"
  by (simp add: user_message_def Let_def manager_turn_def direct_turn_def drive_manager_fails drive_direct_fails)

text \<open>The same for a turn of the assistant.\<close>

lemma ask_model_fails:
  "ask_model env n (m, b) = (Turn_over e, s) \<Longrightarrow> fails_to_base (e, s)"
  by (auto simp: ask_model_def over_def error_over_def steps_exceeded_def fails_to_base_def split: nat.splits if_splits chat_end.splits)

lemma after_work_fails: "after_work n w = (Turn_over e, s) \<Longrightarrow> fails_to_base (e, s)"
  by (cases w) (auto simp: after_work_def fails_to_base_def a_turn_def split: work_end.splits)

lemma take_answer_fails:
  "take_answer env n content (m, b) = (Turn_over e, s) \<Longrightarrow> fails_to_base (e, s)"
  by (auto simp: take_answer_def reply_turn_def dest: ask_model_fails after_work_fails
      split: sum.splits option.splits if_splits) (auto simp: fails_to_base_def a_turn_def)

lemma advance_fails: "AssistantLoop.advance env pt s = (Turn_over e, s') \<Longrightarrow> fails_to_base (e, s')"
  by (cases s; cases pt) (auto simp: AssistantLoop.advance_def dest: ask_model_fails take_answer_fails after_work_fails)

section \<open>Every turn ends\<close>

text \<open>A turn driven on, until it is over or waits for a worker.\<close>

definition waits :: "turn_at \<Rightarrow> bool" where
  "waits pt \<longleftrightarrow> (case pt of Working _ (Waiting_for_worker _ _) \<Rightarrow> True | _ \<Rightarrow> False)"

fun drive_turn :: "manager_env list \<Rightarrow> turn_at \<Rightarrow> manager_session \<Rightarrow> turn_step \<times> manager_session" where
  "drive_turn [] pt s = (Turn_at pt, s)"
| "drive_turn (env # envs) pt s =
     (case AssistantLoop.advance env pt s of
        (Turn_at pt', s') \<Rightarrow> if waits pt' then (Turn_at pt', s') else drive_turn envs pt' s'
      | (Turn_over e, s') \<Rightarrow> (Turn_over e, s'))"

definition settled :: "turn_step \<Rightarrow> bool" where
  "settled r \<longleftrightarrow> (case r of Turn_over _ \<Rightarrow> True | Turn_at pt \<Rightarrow> waits pt)"

text \<open>What is left of a turn: questions, then what is left of the tool or of the agent.\<close>

definition questions_left :: "turn_at \<Rightarrow> nat" where
  "questions_left pt = (case pt of Ask_next n \<Rightarrow> 3 * n | Answered_with n _ \<Rightarrow> 3 * n + 2 | Working n _ \<Rightarrow> 3 * n + 1)"

definition work_left :: "turn_at \<Rightarrow> nat \<times> nat" where
  "work_left pt = (case pt of
       Working _ (In_part r) \<Rightarrow> (0, length (pr_left r))
     | Working _ (In_skill_script r) \<Rightarrow> (length (sc_left r), length (cy_left (sc_cyclic r)))
     | Working _ (Waiting_for_worker _ _) \<Rightarrow> (1, 0)
     | _ \<Rightarrow> (0, 0))"

definition acting :: "turn_at \<times> bureau \<Rightarrow> worker option" where
  "acting x = (case fst x of Working _ (In_agent ident) \<Rightarrow> dget (of_workers (snd x)) ident | _ \<Rightarrow> None)"

definition nearer :: "((turn_at \<times> bureau) \<times> (turn_at \<times> bureau)) set" where
  "nearer = inv_image (less_than <*lex*> ((less_than <*lex*> less_than) <*lex*> closer))
     (\<lambda>x. (questions_left (fst x), (work_left (fst x), the (acting x))))"

lemma wf_nearer: "wf nearer"
  unfolding nearer_def by (intro wf_inv_image wf_lex_prod wf_less_than wf_closer)

lemma nearer_question: "questions_left pt' < questions_left pt \<Longrightarrow> ((pt', b'), (pt, b)) \<in> nearer"
  by (simp add: nearer_def)

lemma ask_model_nearer: "ask_model env n (m, b) = (Turn_at pt', s') \<Longrightarrow> questions_left pt' < 3 * n"
  by (auto simp: ask_model_def over_def error_over_def questions_left_def split: nat.splits if_splits chat_end.splits)

lemma after_work_at: "after_work n w = (Turn_at pt', s') \<Longrightarrow> pt' = Ask_next n \<or> (\<exists>p. pt' = Working n p \<and> fst w = Suspended p)"
  by (cases w) (auto simp: after_work_def split: work_end.splits)

lemma take_answer_nearer:
  "take_answer env n content (m, b) = (Turn_at pt', s') \<Longrightarrow> questions_left pt' < 3 * n + 2"
  by (auto simp: take_answer_def questions_left_def dest: after_work_at dest!: ask_model_nearer
      split: sum.splits option.splits if_splits prod.splits)

lemma resumed_nearer:
  assumes "work_resume env w (m, b) = (Suspended p, (m', b'))" "\<not> waits (Working n p)"
  shows "((Working n p, b'), (Working n w, b)) \<in> nearer"
proof (cases w)
  case (In_part r)
  then obtain r' where "p = In_part r'" "partly_next (mv_tool env) r = Yielded r'"
    using assms(1) by (auto simp: work_resume_def part_end_def said_def split: tool_progress.splits sum.splits)
  then show ?thesis using In_part partly_next_shrinks by (auto simp: nearer_def questions_left_def work_left_def)
next
  case (In_skill_script r)
  then obtain r' cs where "p = In_skill_script r'" "script_resume (mv_tool env) r (mg_runtime m, wo_fs (of_world b)) = (Yielded r', cs)"
    using assms(1) by (auto simp: work_resume_def skill_end_def put_world_eq split: prod.splits tool_progress.splits sum.splits script_end.splits)
  then show ?thesis using In_skill_script script_resume_shrinks [of "mv_tool env" r "(mg_runtime m, wo_fs (of_world b))" r' cs]
    by (simp add: nearer_def questions_left_def work_left_def)
next
  case (Waiting_for_worker t sks)
  then have "p = Waiting_for_worker t sks \<or> (\<exists>ident. p = In_agent ident)"
    using assms(1) by (auto simp: work_resume_def await_worker_def agent_turn_def agent_raised_def agent_answer_def said_def refused_def
        split: option.splits prod.splits sum.splits if_splits agent_exc.splits)
  then show ?thesis using assms(2) Waiting_for_worker by (auto simp: waits_def nearer_def questions_left_def work_left_def)
next
  case (In_agent ident)
  then have step: "p = In_agent ident" "step_worker (mv_agent env 0) ident b = (Inr None, b')"
    using assms(1) by (auto simp: work_resume_def agent_turn_def agent_raised_def agent_answer_def said_def refused_def
        split: prod.splits sum.splits option.splits if_splits agent_exc.splits)
  then obtain v w' where "dget (of_workers b) ident = Some v" "dget (of_workers b') ident = Some w'" "(w', v) \<in> closer"
    using agent_step_closer [of "mv_agent env 0"]
    by (fastforce simp: step_worker_def with_worker_def split: option.splits prod.splits)
  then show ?thesis using In_agent step(1) by (simp add: nearer_def questions_left_def work_left_def acting_def)
qed

lemma advance_nearer:
  assumes "AssistantLoop.advance env pt (m, b) = (Turn_at pt', (m', b'))" "\<not> waits pt'"
  shows "((pt', b'), (pt, b)) \<in> nearer"
proof (cases pt)
  case (Ask_next n)
  then have "questions_left pt' < questions_left pt" using assms(1) ask_model_nearer
    by (auto simp: AssistantLoop.advance_def questions_left_def)
  then show ?thesis by (rule nearer_question)
next
  case (Answered_with n content)
  then have "questions_left pt' < questions_left pt" using assms(1) take_answer_nearer
    by (auto simp: AssistantLoop.advance_def questions_left_def)
  then show ?thesis by (rule nearer_question)
next
  case (Working n w)
  obtain e m1 b1 where w: "work_resume env w (m, b) = (e, (m1, b1))" by (metis prod.collapse)
  then have a: "after_work n (e, (m1, b1)) = (Turn_at pt', (m', b'))" using assms(1) Working by (simp add: AssistantLoop.advance_def)
  show ?thesis
  proof (cases "pt' = Ask_next n")
    case True
    then show ?thesis using Working by (intro nearer_question) (simp add: questions_left_def)
  next
    case False
    then obtain p where p: "pt' = Working n p" "e = Suspended p" using after_work_at [OF a] by auto
    then have "b' = b1" using a by (simp add: after_work_def)
    then show ?thesis using resumed_nearer w p assms(2) Working by simp
  qed
qed

section \<open>Samples\<close>

definition new_desk :: "manager \<Rightarrow> bureau \<Rightarrow> desk" where
  "new_desk m b = \<lparr>dk_talks = [(m, None)], dk_runs = [], dk_bureau = b\<rparr>"

lemma new_desk_ok:
  "seated m \<Longrightarrow> office_ok b \<Longrightarrow> (\<And>i. worker_state b i = None \<or> worker_state b i = Some Free) \<Longrightarrow> desk_ok (new_desk m b)"
  by (auto simp: new_desk_def desk_ok_def owners_def owner_def staffed_def talk_ok_def agrees_def)
    (metis agent_state.distinct option.distinct(1) option.inject)+

definition sample_manager :: manager where
  "sample_manager = \<lparr>mg_max_steps = 5, mg_forced = None, mg_base = [says System (u ''You lead'')],
     mg_messages = [says System (u ''You lead''), says User (u ''hi'')], mg_chat = True, mg_close = False, mg_direct = False,
     mg_direct_waiting = False, mg_repeated = [], mg_runtime = sample_rt, mg_request = [], mg_waiting = False\<rparr>"

definition sample_bureau :: bureau where
  "sample_bureau = \<lparr>of_workers = [(u ''agent1'', new_worker (u ''agent1'') [u ''w''] 3 1000 5)], of_event_worker = None,
     of_world = sample_world, of_catalog = sample_catalog, of_system = new_runtime None,
     of_events = \<lparr>es_bindings = [], es_file = NoEventFile\<rparr>, of_rules = []\<rparr>"

definition sample_manager_env :: manager_env where
  "sample_manager_env = \<lparr>mv_chat = (\<lambda>_. Answer (u ''REPLY'')), mv_now = 0, mv_save = Owned, mv_save_events = Owned, mv_generation = u ''g'',
     mv_letter = (\<lambda>_. False), mv_tool = sample_step_env (Answer []), mv_agent = (\<lambda>_. sample_step_env (Answer [])),
     mv_sys_text = (\<lambda>_. []), mv_event_text = (\<lambda>_. []), mv_rule_text = (\<lambda>_. []), mv_reply_text = (\<lambda>_. []), mv_period = (\<lambda>_. [])\<rparr>"

lemma sample_seated: "seated sample_manager"
  by (rule seatedI [of _ "u ''You lead''" "[says User (u ''hi'')]"]) (simp_all add: sample_manager_def says_def)

lemma sample_office_ok: "office_ok sample_bureau"
  by (simp add: office_ok_def sample_bureau_def dwf_def dget_def new_worker_def worker_ok_def message_defs)

lemma sample_free: "worker_state sample_bureau i = None \<or> worker_state sample_bureau i = Some Free"
  by (simp add: worker_state_def sample_bureau_def dget_def new_worker_def)

section \<open>Properties\<close>

text \<open>C4: Dialogues of users and saved tasks share the workers of an office in any interleaving of their steps, with any
  answers, errors, cancellations and closed sessions: every busy worker belongs to exactly one suspended turn or running
  task, no two of them share a worker, and a worker nobody owns is free to be taken again; none is lost.\<close>

theorem busy_workers_have_one_owner:
  assumes "seated m" "office_ok b" "\<forall>i. worker_state b i = None \<or> worker_state b i = Some Free"
  shows "distinct (owners (foldl desk_do (new_desk m b) ops))
    \<and> (\<forall>i. worker_state (dk_bureau (foldl desk_do (new_desk m b) ops)) i
         \<in> (if i \<in> set (owners (foldl desk_do (new_desk m b) ops)) then {Some Running} else {None, Some Free}))"
proof -
  have "desk_ok (foldl desk_do (new_desk m b) ops)"
    using assms by (intro desks.inv_run new_desk_ok) auto
  then have s: "staffed (owners (foldl desk_do (new_desk m b) ops)) (dk_bureau (foldl desk_do (new_desk m b) ops))"
    by (simp add: desk_ok_def)
  show ?thesis using staffed_distinct [OF s] staffed_states [OF s] by blast
qed

lemma busy_workers_have_one_owner_witness:
  "distinct (owners (foldl desk_do (new_desk sample_manager sample_bureau) [Hear 0 (u ''hi''), Go_on 0 sample_manager_env]))
    \<and> (\<forall>i. worker_state (dk_bureau (foldl desk_do (new_desk sample_manager sample_bureau) [Hear 0 (u ''hi''), Go_on 0 sample_manager_env])) i
         \<in> (if i \<in> set (owners (foldl desk_do (new_desk sample_manager sample_bureau) [Hear 0 (u ''hi''), Go_on 0 sample_manager_env]))
            then {Some Running} else {None, Some Free}))"
  by (rule busy_workers_have_one_owner) (simp_all add: sample_seated sample_office_ok sample_free)

text \<open>C9: In every dialogue of the assistant, over the same histories, the messages are the system message and then user and
  assistant in turn, and they fit the place where its turn is suspended: before a question to the model the last message is
  the user's, after it the model's answer, and while a command runs still that answer. The model is never asked
  without new input.\<close>

theorem dialogues_fit_their_turns:
  assumes "seated m" "office_ok b" "\<forall>i. worker_state b i = None \<or> worker_state b i = Some Free"
  shows "list_all talk_ok (dk_talks (foldl desk_do (new_desk m b) ops))"
proof -
  have "desk_ok (foldl desk_do (new_desk m b) ops)"
    using assms by (intro desks.inv_run new_desk_ok) auto
  then show ?thesis by (simp add: desk_ok_def)
qed

lemma dialogues_fit_their_turns_witness:
  "list_all talk_ok (dk_talks (foldl desk_do (new_desk sample_manager sample_bureau) [Hear 0 (u ''hi''), Go_on 0 sample_manager_env, Fork 0]))"
  by (rule dialogues_fit_their_turns) (simp_all add: sample_seated sample_office_ok sample_free)

text \<open>C40: A turn that ends in an error, of a manager or of the assistant, after whatever answers, delegations and commands,
  leaves nothing of its dialogue: only the base context, no chat, no direct mode, no counts of repeated results.\<close>

theorem failed_turn_leaves_base:
  assumes "user_message envs raw s = (Inr t, (m', b')) \<or> AssistantLoop.advance env pt s = (Turn_over (Inr t), (m', b'))"
    "tu_kind t = u ''error''"
  shows "mg_messages m' = mg_base m' \<and> \<not> mg_chat m' \<and> \<not> mg_close m' \<and> \<not> mg_direct m' \<and> \<not> mg_direct_waiting m' \<and> mg_repeated m' = []"
proof -
  have "fails_to_base (Inr t, (m', b'))"
    using assms(1) user_message_fails [of envs raw "fst s" "snd s"] advance_fails [of env pt s "Inr t" "(m', b')"] by auto
  then show ?thesis using assms(2) by (simp add: fails_to_base_def at_base_def)
qed

lemma failed_turn_leaves_base_witness:
  "mg_messages (abort_context sample_manager) = mg_base (abort_context sample_manager) \<and> \<not> mg_chat (abort_context sample_manager)
    \<and> \<not> mg_close (abort_context sample_manager) \<and> \<not> mg_direct (abort_context sample_manager)
    \<and> \<not> mg_direct_waiting (abort_context sample_manager) \<and> mg_repeated (abort_context sample_manager) = []"
proof -
  have "AssistantLoop.advance sample_manager_env (Ask_next 0) (sample_manager, sample_bureau)
    = (Turn_over (Inr (a_turn ''error'' (u ''Manager'' @ u '' exceeded maximum of '' @ show_nat 5 @ u '' steps''))),
       (abort_context sample_manager, sample_bureau))"
    by (simp add: AssistantLoop.advance_def ask_model_def over_def steps_exceeded_def) (simp add: sample_manager_def)
  then show ?thesis by (rule failed_turn_leaves_base [OF disjI2]) (simp add: a_turn_def)
qed

text \<open>C15: Every turn of the assistant ends or comes to wait for a free worker: whatever the model and the agents answer and
  however many fragments and script lines there are, from any place some number of steps is enough.\<close>

theorem assistant_turn_ends:
  "\<exists>n. settled (fst (drive_turn (map envs [0..<n]) pt s))"
proof (induction "(pt, snd s)" arbitrary: pt s envs rule: wf_induct_rule [OF wf_nearer])
  case (1 pt s)
  obtain r m' b' where r: "AssistantLoop.advance (envs 0) pt s = (r, (m', b'))" by (metis prod.collapse)
  show ?case
  proof (cases "settled r")
    case True
    then have "settled (fst (drive_turn (map envs [0..<1]) pt s))"
      using r by (cases r) (auto simp: settled_def)
    then show ?thesis by blast
  next
    case False
    then obtain pt' where p: "r = Turn_at pt'" "\<not> waits pt'" by (cases r) (auto simp: settled_def)
    then have "((pt', b'), (pt, snd s)) \<in> nearer"
      using advance_nearer [of "envs 0" pt "fst s" "snd s" pt' m' b'] r by simp
    then obtain n where n: "settled (fst (drive_turn (map (\<lambda>i. envs (Suc i)) [0..<n]) pt' (m', b')))"
      using 1 [of pt' "(m', b')" "\<lambda>i. envs (Suc i)"] by auto
    have "map envs [0..<Suc n] = envs 0 # map (\<lambda>i. envs (Suc i)) [0..<n]"
      by (simp add: upt_conv_Cons map_Suc_upt [symmetric] comp_def del: upt_Suc)
    then have "settled (fst (drive_turn (map envs [0..<Suc n]) pt s))" using n r p by simp
    then show ?thesis by blast
  qed
qed

end
