(* ===== verification/NativeAgents.thy ===== *)
theory NativeAgents
  imports PyText Json
begin

text \<open>
  The native conversations and the agents that own one each (litert_agent_tools/conversation.py,
  clone.py, orchestration_tools/agents.py): a BASE conversation warmed once, a working clone that is
  thrown away after a task, the ledger of tool results, and the pool of agents. The model library
  enters through what it answers: the tool results of a turn, the answer, the number of tokens kept
  and whether a clone succeeds are arguments. A native conversation is the list of the messages it
  was sent and its token count; closing one drops it.
\<close>

section \<open>Conversations\<close>

record conv =
  cv_said :: "(str \<times> str option) list"
  cv_tokens :: "nat option"

datatype chat_error =
    Chat_closed
  | Empty_prompt
  | Empty_warm
  | Empty_question
  | Bad_unicode nat
  | Picture_refused
  | Engine_failed str
  | Bad_content
  | Warm_reply_empty
  | Cold_base
  | Warm_did_not_grow
  | Clone_failed
  | Clone_mismatch "nat option" "nat option"
  | Tools_failed

text \<open>What the library and the tools do in one turn.\<close>

record model_env =
  me_picture :: "str \<Rightarrow> str option option"
  me_tools :: "(unit + json) list"
  me_answer :: "str + json"
  me_tokens :: "nat option"
  me_clone :: "nat option option"
  me_words :: "chat_error \<Rightarrow> str"

section \<open>Text of an answer, ledger of the tools\<close>

definition content_item :: "json \<Rightarrow> str" where
  "content_item x =
     (case x of
        JStr s \<Rightarrow> s
      | JObj ps \<Rightarrow> if dget ps (u ''type'') = Some (JStr (u ''text'')) then
                     (case dget ps (u ''text'') of Some (JStr s) \<Rightarrow> s | _ \<Rightarrow> [])
                   else []
      | _ \<Rightarrow> [])"

definition response_text :: "json \<Rightarrow> chat_error + str" where
  "response_text content =
     (case content of
        JStr s \<Rightarrow> Inr s
      | JList xs \<Rightarrow> Inr (concat (map content_item xs))
      | JNull \<Rightarrow> Inr []
      | _ \<Rightarrow> Inl Bad_content)"

record ledger =
  lg_active :: bool
  lg_calls :: nat
  lg_status :: int

definition tool_bad :: "json \<Rightarrow> bool" where
  "tool_bad result =
     (case result of
        JObj ps \<Rightarrow> dget ps (u ''ok'') = Some (JBool False)
                   \<or> (case dget ps (u ''exit_code'') of Some (JInt c) \<Rightarrow> c \<noteq> 0 | _ \<Rightarrow> False)
      | _ \<Rightarrow> False)"

definition measure_tool :: "ledger \<Rightarrow> unit + json \<Rightarrow> ledger" where
  "measure_tool g result =
     (if \<not> lg_active g then g
      else (let g1 = g\<lparr>lg_calls := Suc (lg_calls g)\<rparr>
            in case result of
                 Inl _ \<Rightarrow> g1\<lparr>lg_status := 1\<rparr>
               | Inr v \<Rightarrow> if tool_bad v then g1\<lparr>lg_status := 1\<rparr> else g1))"

section \<open>A chat\<close>

record chat =
  ch_base :: "conv option"
  ch_working :: "conv option"
  ch_closed :: bool
  ch_base_tokens :: "nat option"
  ch_prefilled :: bool
  ch_warm_reply :: "str option"
  ch_ledger :: ledger

definition working_tokens :: "chat \<Rightarrow> nat option" where
  "working_tokens c = (case ch_working c of None \<Rightarrow> None | Some w \<Rightarrow> cv_tokens w)"

definition close_chat :: "chat \<Rightarrow> chat" where
  "close_chat c = (if ch_closed c then c else c\<lparr>ch_closed := True, ch_working := None, ch_base := None\<rparr>)"

definition clone_base :: "model_env \<Rightarrow> conv \<Rightarrow> chat \<Rightarrow> chat_error + conv" where
  "clone_base e b c =
     (case me_clone e of
        None \<Rightarrow> Inl Clone_failed
      | Some kv \<Rightarrow>
          if kv \<noteq> ch_base_tokens c then Inl (Clone_mismatch kv (ch_base_tokens c))
          else Inr (b\<lparr>cv_tokens := kv\<rparr>))"

text \<open>
  The constructor: one service exchange fills the BASE; \<open>initial\<close> is the token count of the new
  conversation, \<open>e\<close> what the warm message and the clone give.
\<close>

definition bare_chat :: chat where
  "bare_chat = \<lparr>ch_base = None, ch_working = None, ch_closed = False, ch_base_tokens = None,
     ch_prefilled = False, ch_warm_reply = None, ch_ledger = \<lparr>lg_active = False, lg_calls = 0, lg_status = 0\<rparr>\<rparr>"

definition new_chat :: "model_env \<Rightarrow> nat option option \<Rightarrow> str \<Rightarrow> str \<Rightarrow> chat_error + chat" where
  "new_chat e initial prompt warm =
     guard_not (strip prompt = []) Empty_prompt (
     guard_not (strip warm = []) Empty_warm (
     (case initial of
        None \<Rightarrow> Inl (Engine_failed [])
      | Some kv0 \<Rightarrow>
          (case me_answer e of
             Inl x \<Rightarrow> Inl (Engine_failed x)
           | Inr content \<Rightarrow>
               try_bind (response_text content) (\<lambda>reply.
               guard_not (strip reply = []) Warm_reply_empty (
               (case me_tokens e of
                  None \<Rightarrow> Inl Cold_base
                | Some kv \<Rightarrow>
                    guard_not (kv = 0) Cold_base (
                    guard_not (case kv0 of None \<Rightarrow> False | Some k \<Rightarrow> kv \<le> k) Warm_did_not_grow (
                    let b = \<lparr>cv_said = [(warm, None)], cv_tokens = Some kv\<rparr>;
                        c = bare_chat\<lparr>ch_base := Some b, ch_base_tokens := Some kv, ch_prefilled := True,
                          ch_warm_reply := Some reply\<rparr>
                    in try_bind (clone_base e b c) (\<lambda>w. Inr (c\<lparr>ch_working := Some w\<rparr>)))))))))))"

definition first_surrogate :: "str \<Rightarrow> nat option" where
  "first_surrogate s = find (\<lambda>c. \<not> scalar c) s"

text \<open>\<open>ask\<close>: the ledger counts only while the library runs; the conversation keeps the message also
  when the library fails.\<close>

definition ask :: "model_env \<Rightarrow> str \<Rightarrow> chat \<Rightarrow> (chat_error + str) \<times> chat" where
  "ask e question c =
     (case (ch_closed c, ch_working c) of
        (False, Some w) \<Rightarrow>
          if strip question = [] then (Inl Empty_question, c)
          else (case first_surrogate question of
                  Some x \<Rightarrow> (Inl (Bad_unicode x), c)
                | None \<Rightarrow>
                    (let g = \<lparr>lg_active = True, lg_calls = 0, lg_status = 0\<rparr>
                     in case me_picture e question of
                          None \<Rightarrow> (Inl Picture_refused, c\<lparr>ch_ledger := g\<lparr>lg_active := False\<rparr>\<rparr>)
                        | Some pic \<Rightarrow>
                            (let g1 = foldl measure_tool g (me_tools e);
                                 c1 = c\<lparr>ch_ledger := g1\<lparr>lg_active := False\<rparr>,
                                   ch_working := Some \<lparr>cv_said = cv_said w @ [(question, pic)], cv_tokens = me_tokens e\<rparr>\<rparr>
                             in case me_answer e of
                                  Inl x \<Rightarrow> (Inl (Engine_failed x), c1)
                                | Inr content \<Rightarrow> (response_text content, c1))))
      | _ \<Rightarrow> (Inl Chat_closed, c))"

definition fork_dialogue :: "model_env \<Rightarrow> chat \<Rightarrow> chat_error + conv" where
  "fork_dialogue e c =
     (case (ch_closed c, ch_base c) of
        (False, Some b) \<Rightarrow> clone_base e b c
      | _ \<Rightarrow> Inl Chat_closed)"

definition new_dialogue :: "model_env \<Rightarrow> chat \<Rightarrow> (chat_error + unit) \<times> chat" where
  "new_dialogue e c =
     (case (ch_closed c, ch_base c) of
        (False, Some b) \<Rightarrow>
          (case clone_base e b c of
             Inl x \<Rightarrow> (Inl x, c)
           | Inr w \<Rightarrow> (Inr (), c\<lparr>ch_working := Some w\<rparr>))
      | _ \<Rightarrow> (Inl Chat_closed, c))"

section \<open>An agent\<close>

datatype native_state = Nat_free | Nat_running | Nat_waiting | Nat_failed

definition state_word :: "native_state \<Rightarrow> str" where
  "state_word s = (case s of Nat_free \<Rightarrow> u ''FREE'' | Nat_running \<Rightarrow> u ''RUNNING'' | Nat_waiting \<Rightarrow> u ''WAITING''
     | Nat_failed \<Rightarrow> u ''FAILED'')"

record native_agent =
  na_id :: str
  na_chat :: chat
  na_state :: native_state
  na_closed :: bool

record native_outcome =
  no_agent :: str
  no_state :: native_state
  no_text :: str
  no_tokens :: "nat option"
  no_status :: int

datatype agent_failure =
    Empty_agent_id
  | Not_available native_state
  | Empty_task
  | Reset_failed chat_error
  | Still_running
  | Pool_closed
  | Unknown_agent str
  | Duplicate_agent str

definition new_agent :: "str \<Rightarrow> chat \<Rightarrow> agent_failure + native_agent" where
  "new_agent ident c =
     guard_not (strip ident = []) Empty_agent_id
       (Inr \<lparr>na_id = ident, na_chat = c, na_state = Nat_free, na_closed = False\<rparr>)"

text \<open>One call of the model: its text or the failure, and the tokens it left.\<close>

definition try_ask :: "model_env \<Rightarrow> str \<Rightarrow> native_agent \<Rightarrow> (chat_error + str) \<times> nat option \<times> native_agent" where
  "try_ask e task a =
     (case ask e task (na_chat a) of
        (r, c) \<Rightarrow>
          ((case r of Inl x \<Rightarrow> Inl x | Inr s \<Rightarrow> if lg_status (ch_ledger c) \<noteq> 0 then Inl Tools_failed else Inr s),
           working_tokens c, a\<lparr>na_state := Nat_running, na_chat := c\<rparr>))"

definition failed_outcome :: "model_env \<Rightarrow> native_agent \<Rightarrow> chat_error \<Rightarrow> nat option \<Rightarrow> native_outcome" where
  "failed_outcome e a x kv = \<lparr>no_agent = na_id a, no_state = Nat_failed, no_text = me_words e x, no_tokens = kv, no_status = 1\<rparr>"

definition good_outcome :: "native_agent \<Rightarrow> native_state \<Rightarrow> str \<Rightarrow> nat option \<Rightarrow> native_outcome" where
  "good_outcome a st s kv = \<lparr>no_agent = na_id a, no_state = st, no_text = s, no_tokens = kv, no_status = 0\<rparr>"

text \<open>A new clone of the BASE; when it fails the agent is out of use.\<close>

definition reset_agent :: "model_env \<Rightarrow> native_agent \<Rightarrow> (agent_failure + unit) \<times> native_agent" where
  "reset_agent e a =
     (case new_dialogue e (na_chat a) of
        (Inl x, c) \<Rightarrow> (Inl (Reset_failed x), a\<lparr>na_chat := c, na_state := Nat_failed\<rparr>)
      | (Inr _, c) \<Rightarrow> (Inr (), a\<lparr>na_chat := c, na_state := (if na_closed a then na_state a else Nat_free)\<rparr>))"

definition run_agent_task :: "model_env \<Rightarrow> str \<Rightarrow> native_agent \<Rightarrow> (agent_failure + native_outcome) \<times> native_agent" where
  "run_agent_task e task a =
     (if na_closed a \<or> na_state a \<noteq> Nat_free then (Inl (Not_available (na_state a)), a)
      else if strip task = [] then (Inl Empty_task, a)
      else (case try_ask e task a of
              (r, kv, a1) \<Rightarrow>
                then_do (reset_agent e a1) (\<lambda>_ a2.
                  (Inr (case r of Inl x \<Rightarrow> failed_outcome e a x kv | Inr s \<Rightarrow> good_outcome a Nat_free s kv), a2))))"

text \<open>One slice of a background job; between slices the agent waits with its conversation.\<close>

definition run_agent_slice ::
  "model_env \<Rightarrow> str \<Rightarrow> bool \<Rightarrow> native_agent \<Rightarrow> (agent_failure + native_outcome) \<times> native_agent" where
  "run_agent_slice e instruction final a =
     (if na_closed a \<or> (na_state a \<noteq> Nat_free \<and> na_state a \<noteq> Nat_waiting) then (Inl (Not_available (na_state a)), a)
      else if strip instruction = [] then (Inl Empty_task, a)
      else (case try_ask e instruction a of
              (Inl x, kv, a1) \<Rightarrow> then_do (reset_agent e a1) (\<lambda>_ a2. (Inr (failed_outcome e a x kv), a2))
            | (Inr s, kv, a1) \<Rightarrow>
                if final then then_do (reset_agent e a1) (\<lambda>_ a2. (Inr (good_outcome a Nat_free s kv), a2))
                else (Inr (good_outcome a Nat_waiting s kv), a1\<lparr>na_state := Nat_waiting\<rparr>)))"

definition abort_agent_slices :: "model_env \<Rightarrow> native_agent \<Rightarrow> (agent_failure + unit) \<times> native_agent" where
  "abort_agent_slices e a =
     (if na_closed a then (Inr (), a)
      else if na_state a = Nat_running then (Inl Still_running, a)
      else if na_state a = Nat_waiting then reset_agent e a
      else (Inr (), a))"

definition close_agent :: "native_agent \<Rightarrow> native_agent" where
  "close_agent a = (if na_closed a then a else a\<lparr>na_closed := True, na_chat := close_chat (na_chat a)\<rparr>)"

section \<open>The pool\<close>

record native_pool =
  np_agents :: "(str, native_agent) dict"
  np_closed :: bool

fun add_agents :: "native_agent list \<Rightarrow> (str, native_agent) dict \<Rightarrow> agent_failure + (str, native_agent) dict" where
  "add_agents [] d = Inr d"
| "add_agents (a # as) d =
     (if dget d (na_id a) \<noteq> None then Inl (Duplicate_agent (na_id a)) else add_agents as (dput (na_id a) a d))"

definition new_agent_pool :: "native_agent list \<Rightarrow> agent_failure + native_pool" where
  "new_agent_pool as = try_bind (add_agents as []) (\<lambda>d. Inr \<lparr>np_agents = d, np_closed = False\<rparr>)"

definition pool_status :: "native_pool \<Rightarrow> (str \<times> native_state \<times> nat option) list" where
  "pool_status p = map (\<lambda>a. (na_id a, na_state a, ch_base_tokens (na_chat a))) (dvals (np_agents p))"

definition state_of :: "native_pool \<Rightarrow> str \<Rightarrow> native_state option" where
  "state_of p ident = map_of (map (\<lambda>(i, s, k). (i, s)) (rev (pool_status p))) ident"

definition on_agent ::
  "str \<Rightarrow> (native_agent \<Rightarrow> (agent_failure + 'a) \<times> native_agent) \<Rightarrow> native_pool \<Rightarrow> (agent_failure + 'a) \<times> native_pool" where
  "on_agent ident f p =
     (case dget (np_agents p) ident of
        None \<Rightarrow> (Inl (Unknown_agent ident), p)
      | Some a \<Rightarrow> (case f a of (r, a1) \<Rightarrow> (r, p\<lparr>np_agents := dput ident a1 (np_agents p)\<rparr>)))"

definition pool_run :: "model_env \<Rightarrow> str \<Rightarrow> str \<Rightarrow> native_pool \<Rightarrow> (agent_failure + native_outcome) \<times> native_pool" where
  "pool_run e task ident p =
     (if np_closed p then (Inl Pool_closed, p) else on_agent ident (run_agent_task e task) p)"

definition pool_slice ::
  "model_env \<Rightarrow> str \<Rightarrow> str \<Rightarrow> bool \<Rightarrow> native_pool \<Rightarrow> (agent_failure + native_outcome) \<times> native_pool" where
  "pool_slice e ident instruction final p =
     (if np_closed p then (Inl Pool_closed, p) else on_agent ident (run_agent_slice e instruction final) p)"

definition pool_abort :: "model_env \<Rightarrow> str \<Rightarrow> native_pool \<Rightarrow> (agent_failure + unit) \<times> native_pool" where
  "pool_abort e ident p =
     (if np_closed p then (Inr (), p) else on_agent ident (abort_agent_slices e) p)"

definition close_pool :: "native_pool \<Rightarrow> native_pool" where
  "close_pool p =
     (if np_closed p then p else p\<lparr>np_closed := True, np_agents := dmap close_agent (np_agents p)\<rparr>)"

datatype pool_op =
    Pool_run model_env str str
  | Pool_slice model_env str str bool
  | Pool_abort model_env str
  | Pool_close

definition pool_step :: "native_pool \<Rightarrow> pool_op \<Rightarrow> native_pool" where
  "pool_step p op =
     (case op of
        Pool_run e task ident \<Rightarrow> snd (pool_run e task ident p)
      | Pool_slice e ident instruction final \<Rightarrow> snd (pool_slice e ident instruction final p)
      | Pool_abort e ident \<Rightarrow> snd (pool_abort e ident p)
      | Pool_close \<Rightarrow> close_pool p)"

section \<open>A free agent holds nothing but its BASE\<close>

text \<open>
  \<open>chat_of b c\<close>: an open chat whose BASE is \<open>b\<close>, or a closed one. \<open>agent_of b a\<close> adds that a free
  agent works on an untouched clone, and that nobody sees an agent running between two operations.
\<close>

definition chat_of :: "conv \<Rightarrow> chat \<Rightarrow> bool" where
  "chat_of b c \<longleftrightarrow>
     (if ch_closed c then ch_base c = None \<and> ch_working c = None
      else ch_base c = Some b \<and> cv_tokens b = ch_base_tokens c \<and> ch_working c \<noteq> None)"

definition agent_of :: "conv \<Rightarrow> native_agent \<Rightarrow> bool" where
  "agent_of b a \<longleftrightarrow> chat_of b (na_chat a) \<and> na_closed a = ch_closed (na_chat a) \<and> na_state a \<noteq> Nat_running
     \<and> (na_state a = Nat_free \<longrightarrow> \<not> na_closed a \<longrightarrow> ch_working (na_chat a) = Some b)"

lemma clone_is_base: "cv_tokens b = ch_base_tokens c \<Longrightarrow> clone_base e b c = Inr w \<Longrightarrow> w = b"
  by (auto simp: clone_base_def split: option.splits if_splits)

lemma new_chat_of:
  assumes "new_chat e initial prompt warm = Inr c"
  shows "\<exists>b. chat_of b c \<and> \<not> ch_closed c \<and> ch_base c = Some b \<and> ch_working c = Some b"
proof -
  obtain kv0 content where 1: "initial = Some kv0" "me_answer e = Inr content"
    using assms by (auto simp: new_chat_def split: option.splits sum.splits)
  obtain reply kv where 2: "response_text content = Inr reply" "me_tokens e = Some kv"
    using assms by (auto simp: new_chat_def 1 split: option.splits)
  let ?b = "\<lparr>cv_said = [(warm, None)], cv_tokens = Some kv\<rparr>"
  let ?c = "bare_chat\<lparr>ch_base := Some ?b, ch_base_tokens := Some kv, ch_prefilled := True, ch_warm_reply := Some reply\<rparr>"
  obtain w where w: "clone_base e ?b ?c = Inr w" "c = ?c\<lparr>ch_working := Some w\<rparr>"
    using assms by (auto simp: new_chat_def 1 2 Let_def)
  have "w = ?b" by (rule clone_is_base [OF _ w(1)]) simp
  then show ?thesis by (auto simp: w(2) chat_of_def bare_chat_def)
qed

lemma ask_chat_of:
  assumes "chat_of b c" "ask e q c = (r, c')"
  shows "chat_of b c' \<and> ch_closed c' = ch_closed c"
  using assms by (auto simp: ask_def chat_of_def Let_def split: option.splits sum.splits if_splits bool.splits)

lemma new_dialogue_of:
  assumes "chat_of b c" "new_dialogue e c = (r, c')"
  shows "chat_of b c' \<and> ch_closed c' = ch_closed c \<and> (r = Inr () \<longrightarrow> \<not> ch_closed c' \<and> ch_working c' = Some b)"
  using assms
  by (auto simp: new_dialogue_def chat_of_def dest!: clone_is_base [rotated] split: option.splits sum.splits if_splits bool.splits)

lemma try_ask_of:
  assumes "chat_of b (na_chat a)" "try_ask e q a = (r, kv, a1)"
  shows "chat_of b (na_chat a1) \<and> ch_closed (na_chat a1) = ch_closed (na_chat a) \<and> na_closed a1 = na_closed a \<and> na_id a1 = na_id a"
  using assms ask_chat_of [OF assms(1)] by (auto simp: try_ask_def split: prod.splits)

lemma reset_of:
  assumes "chat_of b (na_chat a)" "\<not> na_closed a" "\<not> ch_closed (na_chat a)" "reset_agent e a = (r, a')"
  shows "agent_of b a' \<and> na_id a' = na_id a"
  using assms new_dialogue_of [OF assms(1)]
  by (auto simp: reset_agent_def agent_of_def split: prod.splits sum.splits)

lemma run_task_of: "agent_of b a \<Longrightarrow> agent_of b (snd (run_agent_task e q a)) \<and> na_id (snd (run_agent_task e q a)) = na_id a"
proof (cases "na_closed a \<or> na_state a \<noteq> Nat_free \<or> strip q = []")
  case True
  assume "agent_of b a"
  then show ?thesis using True by (auto simp: run_agent_task_def)
next
  case False
  assume ok: "agent_of b a"
  obtain r kv a1 where t: "try_ask e q a = (r, kv, a1)" by (metis prod.collapse)
  obtain z a2 where x: "reset_agent e a1 = (z, a2)" by (metis prod.collapse)
  have 1: "chat_of b (na_chat a1)" "\<not> na_closed a1" "\<not> ch_closed (na_chat a1)" "na_id a1 = na_id a"
    using try_ask_of [OF _ t, of b] ok False by (auto simp: agent_of_def)
  show ?thesis using reset_of [OF 1(1-3) x] 1(4) False by (cases z) (auto simp: run_agent_task_def t x)
qed

lemma run_slice_of:
  "agent_of b a \<Longrightarrow> agent_of b (snd (run_agent_slice e q final a)) \<and> na_id (snd (run_agent_slice e q final a)) = na_id a"
proof (cases "na_closed a \<or> (na_state a \<noteq> Nat_free \<and> na_state a \<noteq> Nat_waiting) \<or> strip q = []")
  case True
  assume "agent_of b a"
  then show ?thesis using True by (auto simp: run_agent_slice_def)
next
  case False
  assume ok: "agent_of b a"
  obtain r kv a1 where t: "try_ask e q a = (r, kv, a1)" by (metis prod.collapse)
  obtain z a2 where x: "reset_agent e a1 = (z, a2)" by (metis prod.collapse)
  have 1: "chat_of b (na_chat a1)" "\<not> na_closed a1" "\<not> ch_closed (na_chat a1)" "na_id a1 = na_id a"
    using try_ask_of [OF _ t, of b] ok False by (auto simp: agent_of_def)
  show ?thesis using reset_of [OF 1(1-3) x] 1 False
    by (cases r; cases z; cases final) (auto simp: run_agent_slice_def t x agent_of_def)
qed

lemma abort_of: "agent_of b a \<Longrightarrow> agent_of b (snd (abort_agent_slices e a)) \<and> na_id (snd (abort_agent_slices e a)) = na_id a"
  using reset_of [of b a e] by (cases "reset_agent e a") (auto simp: abort_agent_slices_def agent_of_def)

lemma close_of: "agent_of b a \<Longrightarrow> agent_of b (close_agent a) \<and> na_id (close_agent a) = na_id a"
  by (auto simp: close_agent_def close_chat_def agent_of_def chat_of_def)

text \<open>\<open>bases\<close> gives every agent of the pool its BASE.\<close>

definition pool_ok :: "(str \<Rightarrow> conv option) \<Rightarrow> native_pool \<Rightarrow> bool" where
  "pool_ok bases p \<longleftrightarrow> dwf (np_agents p)
     \<and> (\<forall>i a. dget (np_agents p) i = Some a \<longrightarrow> na_id a = i \<and> (\<exists>b. bases i = Some b \<and> agent_of b a))"

lemma on_agent_ok:
  assumes "pool_ok bases p" and "\<And>a b. agent_of b a \<Longrightarrow> agent_of b (snd (f a)) \<and> na_id (snd (f a)) = na_id a"
  shows "pool_ok bases (snd (on_agent i f p))"
  using assms by (auto simp: on_agent_def pool_ok_def split: option.splits prod.splits) (metis snd_conv)+

lemma pool_step_ok: "pool_ok bases p \<Longrightarrow> pool_ok bases (pool_step p op)"
proof (cases op)
  case Pool_close
  assume "pool_ok bases p"
  then show ?thesis by (auto simp: Pool_close pool_step_def close_pool_def pool_ok_def) (metis close_of)+
qed (simp_all add: pool_step_def pool_run_def pool_slice_def pool_abort_def on_agent_ok run_task_of run_slice_of abort_of)

interpretation pools: stepper pool_step "\<lambda>p op. True" "pool_ok bases" for bases
  by unfold_locales (rule pool_step_ok)

definition opened_agent :: "native_agent \<Rightarrow> bool" where
  "opened_agent a \<longleftrightarrow> (\<exists>e initial prompt warm c. new_chat e initial prompt warm = Inr c \<and> new_agent (na_id a) c = Inr a)"

lemma opened_of: "opened_agent a \<Longrightarrow> \<exists>b. agent_of b a \<and> ch_base (na_chat a) = Some b"
proof -
  assume "opened_agent a"
  then obtain e initial prompt warm c where c: "new_chat e initial prompt warm = Inr c" "new_agent (na_id a) c = Inr a"
    unfolding opened_agent_def by blast
  obtain b where b: "chat_of b c" "\<not> ch_closed c" "ch_base c = Some b" "ch_working c = Some b"
    using new_chat_of [OF c(1)] by blast
  have "na_chat a = c" "na_state a = Nat_free" "\<not> na_closed a"
    using c(2) by (cases a; auto simp: new_agent_def)+
  then show ?thesis using b by (auto simp: agent_of_def)
qed

lemma add_agents_get:
  "add_agents as d = Inr d' \<Longrightarrow> dwf d \<Longrightarrow>
     dwf d' \<and> (\<forall>i a. dget d' i = Some a \<longrightarrow> dget d i = Some a \<or> (a \<in> set as \<and> na_id a = i))"
proof (induction as arbitrary: d)
  case (Cons a as)
  then have r: "add_agents as (dput (na_id a) a d) = Inr d'" and n: "dget d (na_id a) = None" by (auto split: if_splits)
  show ?case using Cons.IH [OF r] Cons.prems(2) by (auto split: if_splits)
qed simp

lemma new_pool_ok:
  assumes "new_agent_pool as = Inr p" and "\<forall>a\<in>set as. opened_agent a"
  shows "\<exists>bases. pool_ok bases p \<and> (\<forall>i b. bases i = Some b \<longrightarrow> (\<exists>a\<in>set as. na_id a = i \<and> ch_base (na_chat a) = Some b))"
proof -
  have d: "add_agents as [] = Inr (np_agents p)" using assms(1) by (auto simp: new_agent_pool_def)
  have g: "dwf (np_agents p)" "\<And>i a. dget (np_agents p) i = Some a \<Longrightarrow> a \<in> set as \<and> na_id a = i"
    using add_agents_get [OF d] by auto
  define bases where "bases i = Option.bind (dget (np_agents p) i) (\<lambda>a. ch_base (na_chat a))" for i
  have "\<exists>b. bases i = Some b \<and> agent_of b a" if "dget (np_agents p) i = Some a" for i a
    using opened_of [of a] g(2) [OF that] assms(2) that by (auto simp: bases_def)
  moreover have "\<exists>a\<in>set as. na_id a = i \<and> ch_base (na_chat a) = Some b" if "bases i = Some b" for i b
    using that g(2) by (auto simp: bases_def bind_eq_Some_conv)
  ultimately show ?thesis using g by (intro exI [of _ bases]) (simp add: pool_ok_def)
qed

text \<open>C18: whatever tasks, slices, aborts and failures come, an agent that is free answers its next task from
  the BASE it was warmed with: its working conversation is the BASE, with no message and no token of any
  earlier task.\<close>

theorem idle_native_agent_is_base:
  assumes "new_agent_pool as = Inr p" and "\<forall>a\<in>set as. opened_agent a"
    and "dget (np_agents (foldl pool_step p ops)) i = Some a'" and "na_state a' = Nat_free" and "\<not> na_closed a'"
  shows "\<exists>a\<in>set as. na_id a = i \<and> ch_base (na_chat a) \<noteq> None \<and> ch_working (na_chat a') = ch_base (na_chat a)"
proof -
  obtain bases where b: "pool_ok bases p"
      "\<And>i b. bases i = Some b \<Longrightarrow> \<exists>a\<in>set as. na_id a = i \<and> ch_base (na_chat a) = Some b"
    using new_pool_ok [OF assms(1,2)] by blast
  have "pool_ok bases (foldl pool_step p ops)" by (rule pools.inv_run [OF b(1)]) simp
  then obtain c where "bases i = Some c" "ch_working (na_chat a') = Some c"
    using assms(3-5) by (auto simp: pool_ok_def agent_of_def)
  then show ?thesis using b(2) [of i c] by force
qed

definition sample_model :: model_env where
  "sample_model = \<lparr>me_picture = (\<lambda>q. Some None), me_tools = [], me_answer = Inr (JStr (u ''ok'')), me_tokens = Some 7,
     me_clone = Some (Some 7), me_words = (\<lambda>x. u ''error'')\<rparr>"

definition sample_chat :: chat where
  "sample_chat = (let b = \<lparr>cv_said = [(u ''warm'', None)], cv_tokens = Some 7\<rparr>
     in bare_chat\<lparr>ch_base := Some b, ch_working := Some b, ch_base_tokens := Some 7, ch_prefilled := True,
          ch_warm_reply := Some (u ''ok'')\<rparr>)"

definition sample_agent :: native_agent where
  "sample_agent = \<lparr>na_id = u ''agent_1'', na_chat = sample_chat, na_state = Nat_free, na_closed = False\<rparr>"

lemma sample_chat_new: "new_chat sample_model (Some (Some 3)) (u ''system'') (u ''warm'') = Inr sample_chat"
  by (simp add: new_chat_def sample_model_def response_text_def clone_base_def sample_chat_def Let_def text_eval)

lemma sample_agent_opened: "opened_agent sample_agent"
  unfolding opened_agent_def
  by (rule exI [of _ sample_model], rule exI [of _ "Some (Some 3)"], rule exI [of _ "u ''system''"],
      rule exI [of _ "u ''warm''"], rule exI [of _ sample_chat])
    (simp add: sample_chat_new, simp add: new_agent_def sample_agent_def text_eval)

definition sample_pool :: native_pool where
  "sample_pool = \<lparr>np_agents = [(u ''agent_1'', sample_agent)], np_closed = False\<rparr>"

theorem idle_native_agent_is_base_witness:
  "ch_working (na_chat (the (dget (np_agents (foldl pool_step sample_pool
     [Pool_run (sample_model\<lparr>me_answer := Inl (u ''x''), me_tokens := Some 90\<rparr>) (u ''secret'') (u ''agent_1'')])) (u ''agent_1''))))
   = ch_base sample_chat"
proof -
  let ?e = "sample_model\<lparr>me_answer := Inl (u ''x''), me_tokens := Some 90\<rparr>"
  let ?p = "foldl pool_step sample_pool [Pool_run ?e (u ''secret'') (u ''agent_1'')]"
  have "\<exists>a. dget (np_agents ?p) (u ''agent_1'') = Some a \<and> na_state a = Nat_free \<and> \<not> na_closed a"
    by (simp add: pool_step_def pool_run_def on_agent_def sample_pool_def sample_agent_def run_agent_task_def try_ask_def ask_def
        sample_chat_def Let_def bare_chat_def sample_model_def first_surrogate_def scalar_def reset_agent_def new_dialogue_def
        clone_base_def text_eval)
  then obtain a where a: "dget (np_agents ?p) (u ''agent_1'') = Some a" "na_state a = Nat_free" "\<not> na_closed a" by blast
  have "new_agent_pool [sample_agent] = Inr sample_pool" by (simp add: new_agent_pool_def sample_pool_def sample_agent_def)
  from idle_native_agent_is_base [OF this _ a] sample_agent_opened show ?thesis
    by (simp only: a(1) option.sel) (simp add: sample_agent_def)
qed

end
