(* ===== verification/Delegation.thy ===== *)
theory Delegation
  imports RemoteClient NativeAgents
begin

text \<open>
  The tools a native manager gives its model (orchestration_tools/delegation.py, task_tools.py): the
  broker that queues tasks for agents during a turn, and the controller of the saved tasks, which
  reaches the task service through the parameter \<open>rpc\<close> of RemoteClient. Arguments of a tool are the JSON
  values the model sent. A tool that raises gives \<open>Inl\<close>; the texts of the errors are constructors.
\<close>

section \<open>Numbers a model sends\<close>

definition max_period_seconds :: int where "max_period_seconds = 604800"
definition max_instruction_chars :: nat where "max_instruction_chars = 4096"
definition max_delegations :: nat where "max_delegations = 3"
definition query_prefix :: str where "query_prefix = u ''LiteRT QUERY: ''"
definition event_prefix :: str where "event_prefix = u ''LiteRT MQTT: ''"

text \<open>A decimal of one to sixteen characters whose fraction, if any, is zero.\<close>

definition whole_text :: "str \<Rightarrow> int option" where
  "whole_text s =
     (let raw = strip s
      in if \<not> (1 \<le> length raw \<and> length raw \<le> 16) then None
         else (case partition_on 46 raw of
                 (whole, dot, fraction) \<Rightarrow>
                   if whole = [] \<or> \<not> list_all is_digit whole then None
                   else if dot \<and> (fraction = [] \<or> list_ex (\<lambda>c. c \<noteq> 48) fraction) then None
                   else parse_int whole))"

definition integral :: "rat \<Rightarrow> bool" where
  "integral r \<longleftrightarrow> of_int \<lfloor>r\<rfloor> = r"

definition period_seconds :: "json \<Rightarrow> int option" where
  "period_seconds v =
     (let n = (case v of
                 JInt i \<Rightarrow> Some i
               | JFloat (Fin r) \<Rightarrow> if 10 \<le> r \<and> r \<le> of_int max_period_seconds \<and> integral r then Some \<lfloor>r\<rfloor> else None
               | JStr s \<Rightarrow> whole_text s
               | _ \<Rightarrow> None)
      in case n of None \<Rightarrow> None | Some i \<Rightarrow> if 10 \<le> i \<and> i \<le> max_period_seconds then Some i else None)"

definition task_number :: "json \<Rightarrow> int option" where
  "task_number v =
     (let n = (case v of
                 JInt i \<Rightarrow> Some i
               | JFloat (Fin r) \<Rightarrow> if integral r \<and> 1 \<le> r \<and> r \<le> 10 ^ 15 then Some \<lfloor>r\<rfloor> else None
               | JStr s \<Rightarrow> whole_text s
               | _ \<Rightarrow> None)
      in case n of None \<Rightarrow> None | Some i \<Rightarrow> if 1 \<le> i \<and> i \<le> 10 ^ 15 then Some i else None)"

text \<open>The regular expressions for a whole part followed by a zero fraction, as full matches.\<close>

definition zero_fraction :: "str \<Rightarrow> bool" where
  "zero_fraction s \<longleftrightarrow> s = [] \<or> (hd s = 46 \<and> tl s \<noteq> [] \<and> list_all (\<lambda>c. c = 48) (tl s))"

definition minus_one :: "json \<Rightarrow> bool" where
  "minus_one v =
     (case v of
        JInt i \<Rightarrow> i = - 1
      | JFloat x \<Rightarrow> x = Fin (- 1)
      | JStr s \<Rightarrow> take 2 (strip s) = u ''-1'' \<and> zero_fraction (drop 2 (strip s))
      | _ \<Rightarrow> False)"

definition zero_period :: "json \<Rightarrow> bool" where
  "zero_period v =
     (case v of
        JInt i \<Rightarrow> i = 0
      | JFloat x \<Rightarrow> x = Fin 0
      | JStr s \<Rightarrow> (let w = strip s
                     in w \<noteq> [] \<and> hd w = 48 \<and> zero_fraction (dropWhile (\<lambda>c. c = 48) w))
      | _ \<Rightarrow> False)"

section \<open>Replies\<close>

datatype refusal =
    Disabled_during_warm
  | No_active_turn
  | Not_an_agent
  | Invalid_task
  | Invalid_unicode
  | No_task_system
  | Only_with_minus_one
  | Bad_period
  | Limit_reached
  | Not_in_active_turn
  | Already_attempted
  | Event_strings
  | Unknown_source
  | Tool_not_granted
  | Foreign_broker
  | Bad_task_id
  | Query_not_found

record listed_query =
  lq_id :: int
  lq_description :: str
  lq_period :: rat
  lq_enabled :: bool
  lq_skills :: "str list"
  lq_agent :: "str option"

datatype tool_reply =
    Refused refusal
  | Unknown_outcome
  | Rejected_by_service
  | Queued_task str str
  | Scheduled_task int str int
  | Subscribed_task int str str str
  | Query_list "listed_query list"
  | Stopped_query int bool
  | Started_query int bool bool rat
  | Deleted_query int

definition tool_ok :: "tool_reply \<Rightarrow> bool" where
  "tool_ok r = (case r of Refused _ \<Rightarrow> False | Unknown_outcome \<Rightarrow> False | Rejected_by_service \<Rightarrow> False | _ \<Rightarrow> True)"

text \<open>What the ledger of the conversation reads of a reply.\<close>

definition reply_json :: "tool_reply \<Rightarrow> json" where
  "reply_json r = JObj [(u ''ok'', JBool (tool_ok r))]"

section \<open>The controller of saved tasks\<close>

record event_spec =
  es_host :: str
  es_port :: int
  es_topic :: str
  es_field :: str
  es_value_type :: str
  es_values :: "str list"

record controller =
  ct_permissions :: "(str, str list) dict"
  ct_catalog :: "(str \<times> str, event_spec) dict"
  ct_broker :: "str \<times> int"
  ct_enabled :: bool
  ct_in_turn :: bool
  ct_attempted :: bool

definition new_controller :: "(str, str list) dict \<Rightarrow> (str \<times> str, event_spec) dict \<Rightarrow> str \<times> int \<Rightarrow> controller" where
  "new_controller perms catalog br = \<lparr>ct_permissions = perms, ct_catalog = catalog, ct_broker = br,
     ct_enabled = False, ct_in_turn = False, ct_attempted = False\<rparr>"

definition begin_control :: "controller \<Rightarrow> unit + controller" where
  "begin_control c = (if ct_in_turn c then Inl () else Inr (c\<lparr>ct_in_turn := True, ct_attempted := False\<rparr>))"

definition finish_control :: "controller \<Rightarrow> controller" where
  "finish_control c = c\<lparr>ct_in_turn := False\<rparr>"

definition allowed :: "controller \<Rightarrow> bool" where
  "allowed c \<longleftrightarrow> ct_enabled c \<and> ct_in_turn c"

definition ours :: "task \<Rightarrow> bool" where
  "ours t \<longleftrightarrow>
     (startswith (t_description t) query_prefix \<and> t_period t \<noteq> None
      \<or> startswith (t_description t) event_prefix \<and> t_period t = None)
     \<and> t_method t = u ''query'' \<and> t_executor t = u ''litert''"

text \<open>The controller catches a \<open>TaskStoreError\<close>; another exception leaves the tool.\<close>

definition rpc_error :: "client_error \<Rightarrow> unit + tool_reply" where
  "rpc_error e =
     (if caught e then Inr (if e = Service_unavailable then Unknown_outcome else Rejected_by_service) else Inl ())"

text \<open>An instruction that may be handed to an agent.\<close>

definition check_instruction :: "json \<Rightarrow> refusal + str" where
  "check_instruction v =
     (case v of
        JStr s \<Rightarrow> if strip s = [] \<or> max_instruction_chars < length s then Inl Invalid_task
                  else if \<not> list_all scalar s then Inl Invalid_unicode else Inr s
      | _ \<Rightarrow> Inl Invalid_task)"

definition known_agent :: "str list \<Rightarrow> json \<Rightarrow> str option" where
  "known_agent agents v = (case v of JStr s \<Rightarrow> if s \<in> set agents then Some s else None | _ \<Rightarrow> None)"

type_synonym 's tool_result = "(unit + tool_reply) \<times> controller \<times> 's"

definition refuse :: "refusal \<Rightarrow> controller \<Rightarrow> 's \<Rightarrow> 's tool_result" where
  "refuse r c s = (Inr (Refused r), c, s)"

definition create_query :: "'s rpc \<Rightarrow> json \<Rightarrow> json \<Rightarrow> json \<Rightarrow> controller \<Rightarrow> 's \<Rightarrow> 's tool_result" where
  "create_query rpc period agent instruction c s =
     (if \<not> allowed c then refuse Not_in_active_turn c s
      else (case period_seconds period of
        None \<Rightarrow> refuse Bad_period c s
      | Some p \<Rightarrow>
       (case known_agent (dkeys (ct_permissions c)) agent of
          None \<Rightarrow> refuse Not_an_agent c s
        | Some a \<Rightarrow>
         (case check_instruction instruction of
            Inl r \<Rightarrow> refuse r c s
          | Inr txt \<Rightarrow>
              if ct_attempted c then refuse Already_attempted c s
              else (let w = strip txt; c1 = c\<lparr>ct_attempted := True\<rparr>
                    in case rpc (CreatePeriodic (query_prefix @ take 100 w) w [] (Fin (of_int p)) (u ''query'') (u ''litert'') (JStr a)) s of
                         (Inl e, s1) \<Rightarrow> (rpc_error e, c1, s1)
                       | (Inr (RTask t), s1) \<Rightarrow> (Inr (Scheduled_task (t_id t) a p), c1, s1)
                       | (Inr _, s1) \<Rightarrow> (Inl (), c1, s1))))))"

definition matching_specs :: "str \<Rightarrow> str \<Rightarrow> controller \<Rightarrow> event_spec list" where
  "matching_specs tool field c =
     map snd (filter (\<lambda>((n, f), sp). n = tool \<and> (field = [] \<or> f = field)) (ct_catalog c))"

definition create_external_query ::
  "'s rpc \<Rightarrow> json \<Rightarrow> json \<Rightarrow> json \<Rightarrow> json \<Rightarrow> controller \<Rightarrow> 's \<Rightarrow> 's tool_result" where
  "create_external_query rpc agent instruction event_tool event_field c s =
     (if \<not> allowed c then refuse Not_in_active_turn c s
      else (case known_agent (dkeys (ct_permissions c)) agent of
        None \<Rightarrow> refuse Not_an_agent c s
      | Some a \<Rightarrow>
       (case check_instruction instruction of
          Inl r \<Rightarrow> refuse r c s
        | Inr txt \<Rightarrow>
         (case (event_tool, event_field) of
            (JStr tool, JStr field) \<Rightarrow>
             (case matching_specs tool field c of
                [sp] \<Rightarrow>
                  if tool \<notin> set (case dget (ct_permissions c) a of None \<Rightarrow> [] | Some ts \<Rightarrow> ts) then refuse Tool_not_granted c s
                  else if (es_host sp, es_port sp) \<noteq> ct_broker c then refuse Foreign_broker c s
                  else if ct_attempted c then refuse Already_attempted c s
                  else (let w = strip txt; c1 = c\<lparr>ct_attempted := True\<rparr>
                        in case rpc (CreateExternal
                               \<lparr>a_description = event_prefix @ take 100 w, a_text = w, a_method = u ''query'', a_skills = [tool],
                                a_period = None, a_enabled = True, a_executor = u ''litert'', a_agent = JStr a\<rparr>
                               \<lparr>ba_source = u ''mqtt'', ba_name = None, ba_topic = es_topic sp, ba_field = es_field sp,
                                ba_value_type = es_value_type sp, ba_values = es_values sp, ba_command = tool\<rparr>) s of
                             (Inl e, s1) \<Rightarrow> (rpc_error e, c1, s1)
                           | (Inr (RTask t), s1) \<Rightarrow> (Inr (Subscribed_task (t_id t) a (es_topic sp) (es_field sp)), c1, s1)
                           | (Inr _, s1) \<Rightarrow> (Inl (), c1, s1))
              | _ \<Rightarrow> refuse Unknown_source c s)
          | _ \<Rightarrow> refuse Event_strings c s))))"

definition period_or_event :: "task \<Rightarrow> rat" where
  "period_or_event t = (case t_period t of None \<Rightarrow> - 1 | Some p \<Rightarrow> p)"

definition listed_as :: "task \<Rightarrow> listed_query" where
  "listed_as t = \<lparr>lq_id = t_id t, lq_description = snd (split_at (u '': '') [] (t_description t)),
     lq_period = period_or_event t, lq_enabled = t_enabled t, lq_skills = t_skills t, lq_agent = t_agent t\<rparr>"

definition list_queries :: "'s rpc \<Rightarrow> controller \<Rightarrow> 's \<Rightarrow> 's tool_result" where
  "list_queries rpc c s =
     (if \<not> allowed c then refuse Not_in_active_turn c s
      else (case rpc TasksList s of
              (Inl e, s1) \<Rightarrow> (rpc_error e, c, s1)
            | (Inr (RTasks ts), s1) \<Rightarrow> (Inr (Query_list (map listed_as (filter ours ts))), c, s1)
            | (Inr _, s1) \<Rightarrow> (Inl (), c, s1)))"

text \<open>The common beginning of stop, start and delete: the saved record must be one of ours.\<close>

definition with_ours ::
  "'s rpc \<Rightarrow> json \<Rightarrow> (int \<Rightarrow> task \<Rightarrow> 's \<Rightarrow> 's tool_result) \<Rightarrow> controller \<Rightarrow> 's \<Rightarrow> 's tool_result" where
  "with_ours rpc ident f c s =
     (if \<not> allowed c then refuse Not_in_active_turn c s
      else (case task_number ident of
        None \<Rightarrow> refuse Bad_task_id c s
      | Some i \<Rightarrow>
         (case rpc (TasksGet i) s of
            (Inl e, s1) \<Rightarrow> (rpc_error e, c, s1)
          | (Inr (RTask t), s1) \<Rightarrow> if ours t then f i t s1 else refuse Query_not_found c s1
          | (Inr _, s1) \<Rightarrow> refuse Query_not_found c s1)))"

definition stop_query :: "'s rpc \<Rightarrow> json \<Rightarrow> controller \<Rightarrow> 's \<Rightarrow> 's tool_result" where
  "stop_query rpc ident c =
     with_ours rpc ident (\<lambda>i t s.
       (case rpc (PauseTask i) s of
          (Inl e, s1) \<Rightarrow> (rpc_error e, c, s1)
        | (Inr (RTask t1), s1) \<Rightarrow> (Inr (Stopped_query i (t_enabled t1)), c, s1)
        | (Inr _, s1) \<Rightarrow> (Inl (), c, s1))) c"

definition start_query :: "'s rpc \<Rightarrow> json \<Rightarrow> controller \<Rightarrow> 's \<Rightarrow> 's tool_result" where
  "start_query rpc ident c =
     with_ours rpc ident (\<lambda>i t s.
       if t_enabled t then (Inr (Started_query i True True (period_or_event t)), c, s)
       else (case rpc (ResumeTask i) s of
               (Inl e, s1) \<Rightarrow> (rpc_error e, c, s1)
             | (Inr (RTask t1), s1) \<Rightarrow> (Inr (Started_query i (t_enabled t1) False (period_or_event t1)), c, s1)
             | (Inr _, s1) \<Rightarrow> (Inl (), c, s1))) c"

definition delete_query :: "'s rpc \<Rightarrow> json \<Rightarrow> controller \<Rightarrow> 's \<Rightarrow> 's tool_result" where
  "delete_query rpc ident c =
     with_ours rpc ident (\<lambda>i t s.
       (case rpc (TasksDelete i) s of
          (Inl e, s1) \<Rightarrow> (rpc_error e, c, s1)
        | (Inr v, s1) \<Rightarrow> if v = RBool True then (Inr (Deleted_query i), c, s1) else refuse Query_not_found c s1)) c"

section \<open>The broker of delegations\<close>

record pending_task =
  pd_call :: str
  pd_agent :: str
  pd_task :: str

record broker =
  br_agents :: "str list"
  br_enabled :: bool
  br_active :: bool
  br_count :: nat
  br_pending :: "pending_task list"

definition new_broker :: "str list \<Rightarrow> unit + broker" where
  "new_broker agents =
     (if distinct agents then Inr \<lparr>br_agents = agents, br_enabled = False, br_active = False, br_count = 0, br_pending = []\<rparr>
      else Inl ())"

definition begin_delegations :: "broker \<Rightarrow> unit + broker" where
  "begin_delegations b = (if br_active b then Inl () else Inr (b\<lparr>br_active := True, br_pending := [], br_count := 0\<rparr>))"

definition finish_delegations :: "broker \<Rightarrow> broker" where
  "finish_delegations b = b\<lparr>br_active := False, br_pending := []\<rparr>"

definition take_pending :: "broker \<Rightarrow> pending_task list \<times> broker" where
  "take_pending b = (br_pending b, b\<lparr>br_pending := []\<rparr>)"

definition call_name :: "nat \<Rightarrow> str" where
  "call_name n = u ''delegation_'' @ show_nat n"

definition queue_item :: "str \<Rightarrow> str \<Rightarrow> broker \<Rightarrow> broker" where
  "queue_item a txt b = b\<lparr>br_count := Suc (br_count b), br_pending := br_pending b @
     [\<lparr>pd_call = call_name (Suc (br_count b)), pd_agent = a, pd_task = strip txt\<rparr>]\<rparr>"

text \<open>The state the tools of one manager share: its broker, its controller and the service.\<close>

record toolbox =
  tb_broker :: "broker option"
  tb_control :: "controller option"

definition put_control :: "toolbox \<Rightarrow> (unit + tool_reply) \<times> controller \<times> 's \<Rightarrow> (unit + tool_reply) \<times> toolbox \<times> 's" where
  "put_control tb r = (case r of (v, c, s) \<Rightarrow> (v, tb\<lparr>tb_control := Some c\<rparr>, s))"

definition enqueue ::
  "'s rpc \<Rightarrow> broker \<Rightarrow> json \<Rightarrow> json \<Rightarrow> json \<Rightarrow> json \<Rightarrow> json \<Rightarrow> toolbox \<Rightarrow> 's \<Rightarrow> (unit + tool_reply) \<times> toolbox \<times> 's" where
  "enqueue rpc b agent task period event_tool event_field tb s =
     (let no = (\<lambda>r. (Inr (Refused r), tb, s))
      in if \<not> br_enabled b then no Disabled_during_warm
         else if \<not> br_active b then no No_active_turn
         else (case known_agent (br_agents b) agent of
           None \<Rightarrow> no Not_an_agent
         | Some a \<Rightarrow>
          (case check_instruction task of
             Inl r \<Rightarrow> no r
           | Inr txt \<Rightarrow>
               if minus_one period then
                 (case tb_control tb of
                    None \<Rightarrow> no No_task_system
                  | Some c \<Rightarrow> put_control tb (create_external_query rpc agent task event_tool event_field c s))
               else if truthy event_tool \<or> truthy event_field then no Only_with_minus_one
               else if \<not> zero_period period then
                 (case period_seconds period of
                    None \<Rightarrow> no Bad_period
                  | Some p \<Rightarrow>
                     (case tb_control tb of
                        None \<Rightarrow> no No_task_system
                      | Some c \<Rightarrow> put_control tb (create_query rpc (JInt p) agent task c s)))
               else if max_delegations \<le> br_count b then no Limit_reached
               else (Inr (Queued_task (call_name (Suc (br_count b))) a),
                     tb\<lparr>tb_broker := Some (queue_item a txt b)\<rparr>, s))))"

section \<open>The tools\<close>

datatype native_tool =
    Delegate_task json json json json json
  | List_queries
  | Start_query json
  | Stop_query json
  | Delete_query json
  | Other_tool "unit + json"

text \<open>A tool the manager was not given cannot be called. The result is what the ledger sees.\<close>

definition with_control ::
  "(controller \<Rightarrow> 's \<Rightarrow> 's tool_result) \<Rightarrow> toolbox \<Rightarrow> 's \<Rightarrow> (unit + tool_reply) option \<times> toolbox \<times> 's" where
  "with_control f tb s =
     (case tb_control tb of None \<Rightarrow> (None, tb, s)
      | Some c \<Rightarrow> (case put_control tb (f c s) of (v, r) \<Rightarrow> (Some v, r)))"

definition call_tool :: "'s rpc \<Rightarrow> native_tool \<Rightarrow> toolbox \<Rightarrow> 's \<Rightarrow> (unit + tool_reply) option \<times> toolbox \<times> 's" where
  "call_tool rpc call tb s =
     (case call of
        Delegate_task agent task period event_tool event_field \<Rightarrow>
          (case tb_broker tb of None \<Rightarrow> (None, tb, s)
           | Some b \<Rightarrow> (case enqueue rpc b agent task period event_tool event_field tb s of (v, r) \<Rightarrow> (Some v, r)))
      | List_queries \<Rightarrow> with_control (list_queries rpc) tb s
      | Start_query i \<Rightarrow> with_control (start_query rpc i) tb s
      | Stop_query i \<Rightarrow> with_control (stop_query rpc i) tb s
      | Delete_query i \<Rightarrow> with_control (delete_query rpc i) tb s
      | Other_tool v \<Rightarrow> (None, tb, s))"

definition tool_outcome :: "native_tool \<Rightarrow> (unit + tool_reply) option \<Rightarrow> (unit + json) list" where
  "tool_outcome call r =
     (case r of
        Some (Inl _) \<Rightarrow> [Inl ()]
      | Some (Inr v) \<Rightarrow> [Inr (reply_json v)]
      | None \<Rightarrow> (case call of Other_tool v \<Rightarrow> [v] | _ \<Rightarrow> []))"

primrec call_tools :: "'s rpc \<Rightarrow> native_tool list \<Rightarrow> toolbox \<Rightarrow> 's \<Rightarrow> (unit + json) list \<times> toolbox \<times> 's" where
  "call_tools rpc [] tb s = ([], tb, s)"
| "call_tools rpc (c # cs) tb s =
     (case call_tool rpc c tb s of
        (r, tb1, s1) \<Rightarrow> (case call_tools rpc cs tb1 s1 of (os, z) \<Rightarrow> (tool_outcome c r @ os, z)))"

end
