(* ===== verification/NativeManager.thy ===== *)
theory NativeManager
  imports Delegation ToolGuard
begin

text \<open>
  The native manager (orchestration_tools/manager.py): one conversation, a pool of agents, and tools
  that only queue work, so that agents run after the model has answered. What the models do and whether
  the session is still active are arguments, one record for every round of a turn. The operations
  also return the delegations they started, in order.
\<close>

section \<open>Asking the manager's model\<close>

record ask_env =
  ak_model :: model_env
  ak_calls :: "native_tool list"

record native_manager =
  nm_chat :: chat
  nm_pool :: native_pool
  nm_tools :: toolbox
  nm_closed :: bool
  nm_tokens :: "nat option"

datatype manager_failure = Manager_closed | Nested_turn | Chat_failed chat_error

text \<open>\<open>Native_reset\<close> is the fixed reply to the command \<open>/new\<close>.\<close>

datatype native_turn = Native_reply str | Native_reset | Native_silent

definition answer_turn :: "str \<Rightarrow> native_turn" where
  "answer_turn s = (if strip s = [] then Native_silent else Native_reply s)"

text \<open>The library calls the tools only when the question reaches it.\<close>

definition reaches_model :: "model_env \<Rightarrow> str \<Rightarrow> chat \<Rightarrow> bool" where
  "reaches_model e q c \<longleftrightarrow> \<not> ch_closed c \<and> ch_working c \<noteq> None \<and> strip q \<noteq> [] \<and> first_surrogate q = None
     \<and> me_picture e q \<noteq> None"

definition manager_ask ::
  "'s rpc \<Rightarrow> ask_env \<Rightarrow> str \<Rightarrow> native_manager \<Rightarrow> 's \<Rightarrow> (chat_error + str) \<times> native_manager \<times> 's" where
  "manager_ask rpc ae q m s =
     (if reaches_model (ak_model ae) q (nm_chat m) then
        (case call_tools rpc (ak_calls ae) (nm_tools m) s of
           (os, tb, s1) \<Rightarrow>
             (case ask ((ak_model ae)\<lparr>me_tools := os\<rparr>) q (nm_chat m) of
                (r, c) \<Rightarrow> (r, m\<lparr>nm_chat := c, nm_tools := tb\<rparr>, s1)))
      else (case ask (ak_model ae) q (nm_chat m) of (r, c) \<Rightarrow> (r, m\<lparr>nm_chat := c\<rparr>, s)))"

section \<open>Delegated tasks\<close>

record item_env =
  it_active :: bool
  it_model :: model_env
  it_words :: "agent_failure \<Rightarrow> str"

record round_env =
  rd_active :: bool
  rd_items :: "nat \<Rightarrow> item_env"
  rd_after :: bool
  rd_ask :: ask_env

text \<open>The result of one delegation: whether it succeeded, its text and its status.\<close>

definition delegation_result :: "(agent_failure \<Rightarrow> str) \<Rightarrow> agent_failure + native_outcome \<Rightarrow> bool \<times> str \<times> int" where
  "delegation_result words r =
     (case r of
        Inl x \<Rightarrow> (False, words x, 1)
      | Inr o' \<Rightarrow>
          (let code = (if no_state o' = Nat_free then no_status o' else if no_status o' \<noteq> 0 then no_status o' else 1)
           in (code = 0, no_text o', code)))"

definition result_json :: "pending_task \<Rightarrow> bool \<times> str \<times> int \<Rightarrow> json" where
  "result_json item r =
     (case r of (good, txt, code) \<Rightarrow>
        JObj [(u ''call_id'', JStr (pd_call item)), (u ''agent_id'', JStr (pd_agent item)), (u ''ok'', JBool good),
              (u ''status_code'', JInt code), (u ''result'', JStr (take 4096 txt))])"

text \<open>The delegations of one round; \<open>None\<close> when the session ended on the way.\<close>

fun run_items ::
  "(nat \<Rightarrow> item_env) \<Rightarrow> pending_task list \<Rightarrow> native_pool \<Rightarrow> json list option \<times> pending_task list \<times> native_pool" where
  "run_items ie [] p = (Some [], [], p)"
| "run_items ie (item # items) p =
     (if \<not> it_active (ie 0) then (None, [], p)
      else (case pool_run (it_model (ie 0)) (pd_task item) (pd_agent item) p of
              (r, p1) \<Rightarrow>
                (case run_items (\<lambda>n. ie (Suc n)) items p1 of
                   (rest, begun, p2) \<Rightarrow>
                     (case delegation_result (it_words (ie 0)) r of
                        (good, txt, code) \<Rightarrow>
                          (map_option (\<lambda>js. if good \<and> strip txt = [] then js
                                             else result_json item (good, txt, code) # js) rest,
                           item # begun, p2)))))"

text \<open>The control message of the system about the results.\<close>

definition agent_results :: "json list \<Rightarrow> str" where
  "agent_results js =
     dumps (\<lambda>x. []) False (u '','') (u '':'') (JObj [(u ''kind'', JStr (u ''agent_results'')), (u ''results'', JList js)])"

definition put_broker :: "broker \<Rightarrow> native_manager \<Rightarrow> native_manager" where
  "put_broker b m = m\<lparr>nm_tools := (nm_tools m)\<lparr>tb_broker := Some b\<rparr>\<rparr>"

type_synonym 's round_result = "(chat_error + native_turn) \<times> pending_task list \<times> native_manager \<times> 's"
type_synonym 's turn_result = "(manager_failure + native_turn) \<times> pending_task list \<times> native_manager \<times> 's"

text \<open>What is left of a turn: the delegations it may still queue and those queued.\<close>

definition delegations_left :: "native_manager \<Rightarrow> nat" where
  "delegations_left m =
     (case tb_broker (nm_tools m) of None \<Rightarrow> 0 | Some b \<Rightarrow> (max_delegations - br_count b) + length (br_pending b))"


text \<open>\<open>b1\<close> is \<open>b\<close> after some more delegations of the same turn, numbered one after the other.\<close>

definition adds :: "broker \<Rightarrow> broker \<Rightarrow> bool" where
  "adds b b1 \<longleftrightarrow> br_agents b1 = br_agents b \<and> br_enabled b1 = br_enabled b \<and> br_active b1 = br_active b
     \<and> (\<exists>new. br_pending b1 = br_pending b @ new \<and> br_count b1 = br_count b + length new
          \<and> (new = [] \<or> br_count b1 \<le> max_delegations)
          \<and> map pd_call new = map call_name [Suc (br_count b)..<Suc (br_count b1)]
          \<and> (\<forall>x\<in>set new. pd_agent x \<in> set (br_agents b)))"

lemma adds_refl [simp]: "adds b b"
  by (simp add: adds_def)

lemma adds_trans: "adds a b \<Longrightarrow> adds b c \<Longrightarrow> adds a c"
proof -
  assume a: "adds a b" "adds b c"
  obtain n1 where 1: "br_pending b = br_pending a @ n1" "br_count b = br_count a + length n1"
      "n1 = [] \<or> br_count b \<le> max_delegations" "map pd_call n1 = map call_name [Suc (br_count a)..<Suc (br_count b)]"
      "\<forall>x\<in>set n1. pd_agent x \<in> set (br_agents a)" using a(1) by (auto simp: adds_def)
  obtain n2 where 2: "br_pending c = br_pending b @ n2" "br_count c = br_count b + length n2"
      "n2 = [] \<or> br_count c \<le> max_delegations" "map pd_call n2 = map call_name [Suc (br_count b)..<Suc (br_count c)]"
      "\<forall>x\<in>set n2. pd_agent x \<in> set (br_agents b)" using a(2) by (auto simp: adds_def)
  have "map pd_call (n1 @ n2) = map call_name [Suc (br_count a)..<Suc (br_count c)]"
    using 1(2,4) 2(2,4) upt_add_eq_append [of "Suc (br_count a)" "Suc (br_count b)" "length n2"] by (simp del: upt_Suc)
  then show ?thesis using 1 2 a unfolding adds_def by (intro conjI exI [of _ "n1 @ n2"]) auto
qed

lemma adds_left:
  "adds b b1 \<Longrightarrow> (max_delegations - br_count b1) + length (br_pending b1) = (max_delegations - br_count b) + length (br_pending b)"
  by (auto simp: adds_def)

text \<open>The broker of a manager is the same one, or has more delegations.\<close>

definition tools_add :: "toolbox \<Rightarrow> toolbox \<Rightarrow> bool" where
  "tools_add tb tb1 \<longleftrightarrow>
     (case tb_broker tb of None \<Rightarrow> tb_broker tb1 = None | Some b \<Rightarrow> (\<exists>b1. tb_broker tb1 = Some b1 \<and> adds b b1))"

lemma known_agent_in: "known_agent as v = Some a \<Longrightarrow> a \<in> set as"
  by (auto simp: known_agent_def split: json.splits if_splits)

lemma enqueue_cases:
  assumes "enqueue rpc b agent task period tool field tb s = (v, tb1, s1)" "tb_broker tb = Some b"
  shows "tb_broker tb1 = Some b \<or> (\<exists>a txt. br_count b < max_delegations \<and> a \<in> set (br_agents b)
     \<and> tb_broker tb1 = Some (queue_item a txt b))"
  using assms
  by (auto simp: enqueue_def Let_def put_control_def not_le
      split: option.splits sum.splits if_splits prod.splits dest!: known_agent_in) blast+

lemma adds_one: "br_count b < max_delegations \<Longrightarrow> a \<in> set (br_agents b) \<Longrightarrow> adds b (queue_item a txt b)"
  by (simp add: adds_def queue_item_def)

lemma enqueue_adds:
  assumes "enqueue rpc b agent task period tool field tb s = (v, tb1, s1)" "tb_broker tb = Some b"
  shows "\<exists>b1. tb_broker tb1 = Some b1 \<and> adds b b1"
  using enqueue_cases [OF assms] adds_one by (metis adds_refl)

lemma call_tool_adds: "call_tool rpc c tb s = (v, tb1, s1) \<Longrightarrow> tools_add tb tb1"
  by (auto simp: call_tool_def tools_add_def with_control_def put_control_def
      split: native_tool.splits option.splits prod.splits dest: enqueue_adds)

lemma call_tools_add: "call_tools rpc cs tb s = (os, tb1, s1) \<Longrightarrow> tools_add tb tb1"
proof (induction cs arbitrary: tb s os)
  case Nil
  then show ?case by (simp add: tools_add_def split: option.splits)
next
  case (Cons c cs)
  obtain v tb2 s2 where c: "call_tool rpc c tb s = (v, tb2, s2)" by (metis prod_cases3)
  obtain os2 where r: "call_tools rpc cs tb2 s2 = (os2, tb1, s1)" using Cons.prems by (auto simp: c split: prod.splits)
  show ?case using call_tool_adds [OF c] Cons.IH [OF r]
    by (auto simp: tools_add_def split: option.splits) (blast intro: adds_trans)
qed

lemma manager_ask_adds:
  "manager_ask rpc ae q m s = (r, m1, s1) \<Longrightarrow>
     tools_add (nm_tools m) (nm_tools m1) \<and> nm_pool m1 = nm_pool m \<and> nm_closed m1 = nm_closed m"
  by (auto simp: manager_ask_def split: if_splits prod.splits dest: call_tools_add)
    (simp add: tools_add_def split: option.splits)

lemma manager_ask_left:
  assumes "manager_ask rpc ae q m s = (r, m1, s1)"
  shows "delegations_left m1 = delegations_left m"
proof -
  have "tools_add (nm_tools m) (nm_tools m1)" using manager_ask_adds [OF assms] by simp
  then show ?thesis by (auto simp: tools_add_def delegations_left_def dest: adds_left split: option.splits)
qed

section \<open>A turn\<close>

text \<open>
  The loop of a turn: the queued delegations run one after the other, their results are reported to the
  model, which may queue more. It ends because a turn queues a bounded number of delegations.
\<close>

lemma round_closer:
  assumes "tb_broker (nm_tools m) = Some b" "fst (take_pending b) \<noteq> []"
    and "(r, m2, s1) = manager_ask rpc ae q (put_broker (snd (take_pending b)) m\<lparr>nm_pool := p\<rparr>) s"
  shows "delegations_left m2 < delegations_left m"
proof -
  have "delegations_left (put_broker (snd (take_pending b)) m\<lparr>nm_pool := p\<rparr>) < delegations_left m"
    using assms(1,2) by (simp add: delegations_left_def put_broker_def take_pending_def)
  then show ?thesis using manager_ask_left [OF assms(3) [symmetric]] by simp
qed

function delegation_rounds :: "'s rpc \<Rightarrow> (nat \<Rightarrow> round_env) \<Rightarrow> str \<Rightarrow> native_manager \<Rightarrow> 's \<Rightarrow> 's round_result" where
  "delegation_rounds rpc env ans m s =
     (case tb_broker (nm_tools m) of
        None \<Rightarrow> (Inr (answer_turn ans), [], m, s)
      | Some b \<Rightarrow>
          if fst (take_pending b) = [] then (Inr (answer_turn ans), [], m, s)
          else
            (let items = fst (take_pending b); m1 = put_broker (snd (take_pending b)) m; r = env 0
             in if \<not> rd_active r then (Inr Native_silent, [], m1, s)
                else (case run_items (rd_items r) items (nm_pool m1) of
                        (None, begun, p) \<Rightarrow> (Inr Native_silent, begun, m1\<lparr>nm_pool := p\<rparr>, s)
                      | (Some results, begun, p) \<Rightarrow>
                          if \<not> rd_after r \<or> results = [] then (Inr Native_silent, begun, m1\<lparr>nm_pool := p\<rparr>, s)
                          else (case manager_ask rpc (rd_ask r) (agent_results results) (m1\<lparr>nm_pool := p\<rparr>) s of
                                  (Inl x, m2, s1) \<Rightarrow> (Inl x, begun, m2, s1)
                                | (Inr next_ans, m2, s1) \<Rightarrow>
                                    (case delegation_rounds rpc (\<lambda>n. env (Suc n)) next_ans m2 s1 of
                                       (v, begun1, z) \<Rightarrow> (v, begun @ begun1, z))))))"
  by pat_completeness auto

termination
  by (relation "measure (\<lambda>(rpc, env, ans, m, s). delegations_left m)") (auto intro: round_closer)

declare delegation_rounds.simps [simp del]


text \<open>A turn outside of the rounds: the command \<open>/new\<close>, a manager without tools, and the brackets.\<close>

record turn_env =
  tn_ask :: ask_env
  tn_rounds :: "nat \<Rightarrow> round_env"

text \<open>The broker begins its turn before the controller; a nested turn is an error.\<close>

definition open_native_turn :: "native_manager \<Rightarrow> (manager_failure + unit) \<times> native_manager" where
  "open_native_turn m =
     (case (case tb_broker (nm_tools m) of None \<Rightarrow> Inr None | Some b \<Rightarrow> map_sum id Some (begin_delegations b)) of
        Inl _ \<Rightarrow> (Inl Nested_turn, m)
      | Inr br \<Rightarrow>
          (let m1 = m\<lparr>nm_tools := (nm_tools m)\<lparr>tb_broker := br\<rparr>\<rparr>
           in case (case tb_control (nm_tools m) of None \<Rightarrow> Inr None | Some c \<Rightarrow> map_sum id Some (begin_control c)) of
                Inl _ \<Rightarrow> (Inl Nested_turn, m1)
              | Inr ct \<Rightarrow> (Inr (), m1\<lparr>nm_tools := (nm_tools m1)\<lparr>tb_control := ct\<rparr>\<rparr>)))"

definition close_native_turn :: "native_manager \<Rightarrow> native_manager" where
  "close_native_turn m = m\<lparr>nm_tools := \<lparr>tb_broker = map_option finish_delegations (tb_broker (nm_tools m)),
     tb_control = map_option finish_control (tb_control (nm_tools m))\<rparr>\<rparr>"

definition tool_turn :: "'s rpc \<Rightarrow> turn_env \<Rightarrow> str \<Rightarrow> native_manager \<Rightarrow> 's \<Rightarrow> 's round_result" where
  "tool_turn rpc te q m s =
     (case manager_ask rpc (tn_ask te) q m s of
        (Inl x, m1, s1) \<Rightarrow> (Inl x, [], m1, s1)
      | (Inr ans, m1, s1) \<Rightarrow> delegation_rounds rpc (tn_rounds te) ans m1 s1)"

definition respond_turn :: "'s rpc \<Rightarrow> turn_env \<Rightarrow> str \<Rightarrow> native_manager \<Rightarrow> 's \<Rightarrow> 's turn_result" where
  "respond_turn rpc te q m s =
     (if nm_closed m then (Inl Manager_closed, [], m, s)
      else if strip q = u ''/new'' then
        (case new_dialogue (ak_model (tn_ask te)) (nm_chat m) of
           (Inl x, c) \<Rightarrow> (Inl (Chat_failed x), [], m\<lparr>nm_chat := c\<rparr>, s)
         | (Inr _, c) \<Rightarrow> (Inr Native_reset, [], m\<lparr>nm_chat := c\<rparr>, s))
      else if tb_broker (nm_tools m) = None \<and> tb_control (nm_tools m) = None then
        (case manager_ask rpc (tn_ask te) q m s of
           (Inl x, m1, s1) \<Rightarrow> (Inl (Chat_failed x), [], m1, s1)
         | (Inr ans, m1, s1) \<Rightarrow> (Inr (answer_turn ans), [], m1, s1))
      else (case open_native_turn m of
              (Inl x, m1) \<Rightarrow> (Inl x, [], m1, s)
            | (Inr _, m1) \<Rightarrow> (case tool_turn rpc te q m1 s of (v, begun, m2, s2) \<Rightarrow> (map_sum Chat_failed id v, begun, close_native_turn m2, s2))))"

definition respond :: "'s rpc \<Rightarrow> turn_env \<Rightarrow> str \<Rightarrow> native_manager \<Rightarrow> 's \<Rightarrow> 's turn_result" where
  "respond rpc te q m s =
     (case respond_turn rpc te q m s of
        (v, begun, m1, s1) \<Rightarrow> (v, begun, m1\<lparr>nm_tokens := working_tokens (nm_chat m1)\<rparr>, s1))"

section \<open>The other operations\<close>

definition new_manager :: "chat \<Rightarrow> native_pool \<Rightarrow> toolbox \<Rightarrow> native_manager" where
  "new_manager c p tb = \<lparr>nm_chat = c, nm_pool = p, nm_tools = tb, nm_closed = False, nm_tokens = working_tokens c\<rparr>"

definition manager_run_agent ::
  "model_env \<Rightarrow> str \<Rightarrow> str \<Rightarrow> native_manager \<Rightarrow> (manager_failure + (agent_failure + native_outcome)) \<times> native_manager" where
  "manager_run_agent e ident task m =
     (if nm_closed m then (Inl Manager_closed, m)
      else (case pool_run e task ident (nm_pool m) of (r, p) \<Rightarrow> (Inr r, m\<lparr>nm_pool := p\<rparr>)))"

definition manager_run_slice ::
  "model_env \<Rightarrow> str \<Rightarrow> str \<Rightarrow> bool \<Rightarrow> native_manager \<Rightarrow> (manager_failure + (agent_failure + native_outcome)) \<times> native_manager" where
  "manager_run_slice e ident txt final m =
     (if nm_closed m then (Inl Manager_closed, m)
      else (case pool_slice e ident txt final (nm_pool m) of (r, p) \<Rightarrow> (Inr r, m\<lparr>nm_pool := p\<rparr>)))"

definition manager_abort_slices :: "model_env \<Rightarrow> str \<Rightarrow> native_manager \<Rightarrow> (agent_failure + unit) \<times> native_manager" where
  "manager_abort_slices e ident m =
     (if nm_closed m then (Inr (), m)
      else (case pool_abort e ident (nm_pool m) of (r, p) \<Rightarrow> (r, m\<lparr>nm_pool := p\<rparr>)))"

definition release_session :: "model_env \<Rightarrow> native_manager \<Rightarrow> (chat_error + unit) \<times> native_manager" where
  "release_session e m =
     (if nm_closed m then (Inr (), m)
      else (case new_dialogue e (nm_chat m) of
              (Inl x, c) \<Rightarrow> (Inl x, m\<lparr>nm_chat := c\<rparr>)
            | (Inr _, c) \<Rightarrow> (Inr (), m\<lparr>nm_chat := c, nm_tokens := working_tokens c\<rparr>)))"

definition close_manager :: "native_manager \<Rightarrow> native_manager" where
  "close_manager m =
     (if nm_closed m then m
      else m\<lparr>nm_closed := True, nm_pool := close_pool (nm_pool m), nm_chat := close_chat (nm_chat m)\<rparr>)"

section \<open>Turns are bounded\<close>

lemma run_items_begun: "run_items ie items p = (r, begun, p1) \<Longrightarrow> \<exists>rest. items = begun @ rest \<and> (r \<noteq> None \<longrightarrow> rest = [])"
proof (induction ie items p arbitrary: r begun p1 rule: run_items.induct)
  case (2 ie item items p)
  show ?case
  proof (cases "it_active (ie 0)")
    case True
    obtain x p2 where x: "pool_run (it_model (ie 0)) (pd_task item) (pd_agent item) p = (x, p2)" by (metis prod.collapse)
    obtain r2 begun2 p3 where y: "run_items (\<lambda>n. ie (Suc n)) items p2 = (r2, begun2, p3)" by (metis prod_cases3)
    have "begun = item # begun2" "r = None \<longleftrightarrow> r2 = None" using 2(2) True x y by (auto split: prod.splits)
    moreover obtain rest where "items = begun2 @ rest" "r2 \<noteq> None \<longrightarrow> rest = []"
      using 2(1) [OF _ x [symmetric] y] True by blast
    ultimately show ?thesis by auto
  qed (use 2(2) in auto)
qed simp

text \<open>The delegations a turn starts carry on the numbering of the broker.\<close>

definition numbered :: "broker \<Rightarrow> bool" where
  "numbered b \<longleftrightarrow> length (br_pending b) \<le> br_count b \<and> br_count b \<le> max_delegations
     \<and> map pd_call (br_pending b) = map call_name [Suc (br_count b - length (br_pending b))..<Suc (br_count b)]
     \<and> (\<forall>x\<in>set (br_pending b). pd_agent x \<in> set (br_agents b))"

lemma numbered_adds: "numbered b \<Longrightarrow> adds b b1 \<Longrightarrow> numbered b1"
proof -
  assume n: "numbered b" and a: "adds b b1"
  obtain new where x: "br_pending b1 = br_pending b @ new" "br_count b1 = br_count b + length new"
      "new = [] \<or> br_count b1 \<le> max_delegations" "map pd_call new = map call_name [Suc (br_count b)..<Suc (br_count b1)]"
      "\<forall>y\<in>set new. pd_agent y \<in> set (br_agents b)" "br_agents b1 = br_agents b" using a by (auto simp: adds_def)
  have k: "br_count b1 - length (br_pending b1) = br_count b - length (br_pending b)" using x(1,2) by simp
  have "[Suc (br_count b - length (br_pending b))..<Suc (br_count b1)] =
      [Suc (br_count b - length (br_pending b))..<Suc (br_count b)] @ [Suc (br_count b)..<Suc (br_count b1)]"
    using upt_add_eq_append [of "Suc (br_count b - length (br_pending b))" "Suc (br_count b)" "length new"] x(2)
    by (simp del: upt_Suc)
  then have "map pd_call (br_pending b1) = map call_name [Suc (br_count b - length (br_pending b))..<Suc (br_count b1)]"
    using n x(1,4) by (simp add: numbered_def del: upt_Suc)
  then show ?thesis using n x k by (auto simp: numbered_def)
qed


definition emptied :: "broker \<Rightarrow> broker" where
  "emptied b = snd (take_pending b)"

lemma cleared_numbered: "numbered b \<Longrightarrow> numbered (emptied b)"
  by (simp add: numbered_def emptied_def take_pending_def)

lemma upt_part: "i + length xs \<le> j \<Longrightarrow> map f xs @ ys = map g [i..<j] \<Longrightarrow> map f xs = map g [i..<i + length xs]"
proof -
  assume a: "i + length xs \<le> j" "map f xs @ ys = map g [i..<j]"
  have "map f xs = take (length xs) (map g [i..<j])" by (metis a(2) append_eq_conv_conj length_map)
  then show ?thesis using a(1) by (simp add: take_map)
qed

lemma rounds_cases:
  assumes "delegation_rounds rpc env ans m s = (v, begun, m', s')" and "tb_broker (nm_tools m) = Some b"
  obtains (idle) "begun = []" "m' = m"
  | (last) rest b' where "br_pending b = begun @ rest" "tb_broker (nm_tools m') = Some b'" "adds (emptied b) b'"
  | (more) m2 s1 b2 next_ans begun1 where "br_pending b \<noteq> []" "delegations_left m2 < delegations_left m" "tb_broker (nm_tools m2) = Some b2"
      "adds (emptied b) b2" "delegation_rounds rpc (\<lambda>n. env (Suc n)) next_ans m2 s1 = (v, begun1, m', s')" "begun = br_pending b @ begun1"
proof (cases "br_pending b = [] \<or> \<not> rd_active (env 0)")
  case True
  let ?m1 = "put_broker (emptied b) m"
  have "begun = []" "m' = m \<or> m' = ?m1" using assms True
    by (auto simp: delegation_rounds.simps [of rpc env] take_pending_def Let_def emptied_def split: if_splits)
  then show thesis using idle last [of "br_pending b" "emptied b"] by (auto simp: put_broker_def)
next
  case act: False
  let ?m1 = "put_broker (emptied b) m"
  obtain r begun0 p where i: "run_items (rd_items (env 0)) (br_pending b) (nm_pool ?m1) = (r, begun0, p)" by (metis prod_cases3)
  obtain rest where rest: "br_pending b = begun0 @ rest" "r \<noteq> None \<longrightarrow> rest = []" using run_items_begun [OF i] by blast
  note step = assms(1) [unfolded delegation_rounds.simps [of rpc env] assms(2)]
  show thesis
  proof (cases "r = None \<or> \<not> rd_after (env 0) \<or> r = Some []")
    case True
    then have "m' = ?m1\<lparr>nm_pool := p\<rparr>" "begun = begun0"
      using step act i by (auto simp: take_pending_def Let_def emptied_def split: option.splits if_splits)
    then show thesis using last [OF _ _ adds_refl] rest(1) by (simp add: put_broker_def)
  next
    case False
    then obtain results where res: "r = Some results" "results \<noteq> []" "rd_after (env 0)" by auto
    obtain a m2 s1 where q: "manager_ask rpc (rd_ask (env 0)) (agent_results results) (?m1\<lparr>nm_pool := p\<rparr>) s = (a, m2, s1)"
      by (metis prod_cases3)
    have less: "delegations_left m2 < delegations_left m"
      by (rule round_closer [OF assms(2) _ q [symmetric, unfolded emptied_def]]) (use act in \<open>simp add: take_pending_def\<close>)
    obtain b2 where b2: "tb_broker (nm_tools m2) = Some b2" "adds (emptied b) b2"
      using manager_ask_adds [OF q] by (auto simp: tools_add_def put_broker_def)
    show thesis
    proof (cases a)
      case (Inl x)
      then have "m' = m2" "begun = begun0" using step act i res q by (auto simp: take_pending_def Let_def emptied_def)
      then show thesis using last [OF _ _ b2(2)] rest(1) b2(1) by simp
    next
      case (Inr next_ans)
      then show thesis
        using step act i res q rest more [OF _ less b2, of next_ans s1]
        by (auto simp: take_pending_def Let_def emptied_def split: prod.splits)
    qed
  qed
qed

lemma begun_part:
  assumes n: "numbered b" and "br_pending b = begun @ rest"
  shows "br_count b - length (br_pending b) + length begun \<le> br_count b \<and> pd_agent ` set begun \<subseteq> set (br_agents b)
    \<and> map pd_call begun = map call_name [Suc (br_count b - length (br_pending b))..<Suc (br_count b - length (br_pending b) + length begun)]"
proof -
  let ?k = "br_count b - length (br_pending b)"
  have l: "?k + length begun \<le> br_count b" using n assms(2) by (simp add: numbered_def)
  moreover have "map pd_call begun = map call_name [Suc ?k..<Suc ?k + length begun]"
    by (rule upt_part [where j = "Suc (br_count b)" and ys = "map pd_call rest"])
      (use n assms(2) l in \<open>simp_all add: numbered_def del: upt_Suc\<close>)
  ultimately show ?thesis using n assms(2) by (auto simp: numbered_def)
qed

lemma rounds_begun:
  "delegation_rounds rpc env ans m s = (v, begun, m', s') \<Longrightarrow> tb_broker (nm_tools m) = Some b \<Longrightarrow> numbered b \<Longrightarrow>
     \<exists>b'. tb_broker (nm_tools m') = Some b' \<and> numbered b' \<and> br_agents b' = br_agents b
       \<and> (br_count b - length (br_pending b)) + length begun \<le> br_count b'
       \<and> map pd_call begun = map call_name [Suc (br_count b - length (br_pending b))..<Suc (br_count b - length (br_pending b) + length begun)]
       \<and> pd_agent ` set begun \<subseteq> set (br_agents b)"
proof (induction "delegations_left m" arbitrary: env ans m s begun b rule: less_induct)
  case less
  have c: "numbered (emptied b)" "br_count (emptied b) = br_count b" "br_pending (emptied b) = []" "br_agents (emptied b) = br_agents b"
    using cleared_numbered [OF less.prems(3)] by (simp_all add: emptied_def take_pending_def)
  have adds: "br_count b' - length (br_pending b') = br_count b \<and> br_count b \<le> br_count b' \<and> br_agents b' = br_agents b \<and> numbered b'"
    if "adds (emptied b) b'" for b'
    using that numbered_adds [OF c(1) that] c by (auto simp: adds_def)
  show ?case
  proof (cases rule: rounds_cases [OF less.prems(1,2), case_names idle last more])
    case idle
    then show ?thesis using less.prems by (simp add: numbered_def)
  next
    case (last rest b')
    then show ?thesis using begun_part [OF less.prems(3) last(1)] adds [OF last(3)] by auto
  next
    case (more m2 s1 b2 next_ans begun1)
    note a = adds [OF more(4)]
    obtain b3 where b3: "tb_broker (nm_tools m') = Some b3" "numbered b3" "br_agents b3 = br_agents b" "br_count b + length begun1 \<le> br_count b3"
        "map pd_call begun1 = map call_name [Suc (br_count b)..<Suc (br_count b + length begun1)]" "pd_agent ` set begun1 \<subseteq> set (br_agents b)"
      using less.hyps [OF more(2,5,3)] a by auto
    let ?k = "br_count b - length (br_pending b)"
    have k: "?k + length (br_pending b) = br_count b" using less.prems(3) by (simp add: numbered_def)
    note part = begun_part [OF less.prems(3), of "br_pending b" "[]"]
    have "map pd_call begun = map call_name [Suc ?k..<Suc (?k + length begun)]"
      using part b3(5) k more(6) upt_add_eq_append [of "Suc ?k" "Suc (br_count b)" "length begun1"]
      by (simp add: add.assoc [symmetric] del: upt_Suc)
    then show ?thesis using b3 part more(6) k by auto
  qed
qed


text \<open>A turn reads no further rounds than it may still start.\<close>

lemma rounds_cong:
  "\<forall>n<delegations_left m. env n = env' n \<Longrightarrow> delegation_rounds rpc env ans m s = delegation_rounds rpc env' ans m s"
proof (induction "delegations_left m" arbitrary: env env' ans m s rule: less_induct)
  case less
  show ?case
  proof (cases "tb_broker (nm_tools m)")
    case None
    then show ?thesis by (simp add: delegation_rounds.simps [of rpc env] delegation_rounds.simps [of rpc env'])
  next
    case (Some b)
    show ?thesis
    proof (cases "br_pending b = []")
      case True
      then show ?thesis using Some
        by (simp add: delegation_rounds.simps [of rpc env] delegation_rounds.simps [of rpc env'] take_pending_def)
    next
      case False
      then have first: "env 0 = env' 0" using less.prems Some by (cases "br_pending b") (auto simp: delegations_left_def)
      have later: "delegation_rounds rpc (\<lambda>n. env (Suc n)) a m2 s1 = delegation_rounds rpc (\<lambda>n. env' (Suc n)) a m2 s1"
        if "(r, m2, s1) = manager_ask rpc ae q (put_broker (snd (take_pending b)) m\<lparr>nm_pool := p\<rparr>) s" for r m2 s1 ae q p a
      proof (rule less.hyps)
        show l: "delegations_left m2 < delegations_left m"
          by (rule round_closer [OF Some _ that]) (use False in \<open>simp add: take_pending_def\<close>)
        show "\<forall>n<delegations_left m2. env (Suc n) = env' (Suc n)" using less.prems l by auto
      qed
      show ?thesis
        by (simp add: delegation_rounds.simps [of rpc env] delegation_rounds.simps [of rpc env'] Some first Let_def
            later [OF sym] split: option.splits sum.splits prod.splits)
    qed
  qed
qed

definition idle_tools :: "toolbox \<Rightarrow> bool" where
  "idle_tools tb \<longleftrightarrow> (\<forall>b. tb_broker tb = Some b \<longrightarrow> \<not> br_active b \<and> br_pending b = [])
     \<and> (\<forall>c. tb_control tb = Some c \<longrightarrow> \<not> ct_in_turn c)"

definition fresh_turn :: "broker \<Rightarrow> broker" where
  "fresh_turn b = b\<lparr>br_active := True, br_pending := [], br_count := 0\<rparr>"

lemma open_turn_idle:
  "idle_tools (nm_tools m) \<Longrightarrow> open_native_turn m = (Inr (), m\<lparr>nm_tools := \<lparr>tb_broker = map_option fresh_turn (tb_broker (nm_tools m)),
     tb_control = map_option (\<lambda>c. c\<lparr>ct_in_turn := True, ct_attempted := False\<rparr>) (tb_control (nm_tools m))\<rparr>\<rparr>)"
  by (cases m; cases "nm_tools m"; cases "tb_broker (nm_tools m)"; cases "tb_control (nm_tools m)")
    (auto simp: open_native_turn_def idle_tools_def begin_delegations_def begin_control_def fresh_turn_def)

lemma close_turn_idle: "idle_tools (nm_tools (close_native_turn m))"
  by (auto simp: close_native_turn_def idle_tools_def finish_delegations_def finish_control_def)

lemma no_broker_rounds: "tb_broker (nm_tools m) = None \<Longrightarrow> delegation_rounds rpc env ans m s = (Inr (answer_turn ans), [], m, s)"
  by (simp add: delegation_rounds.simps)

lemma tool_turn_begun:
  assumes "tool_turn rpc te q m s = (v, begun, m', s')"
    and "tb_broker (nm_tools m) = None \<or> tb_broker (nm_tools m) = Some (fresh_turn b)"
  shows "length begun \<le> 3 \<and> map pd_call begun = map call_name [1..<Suc (length begun)]
    \<and> (tb_broker (nm_tools m) = None \<longrightarrow> begun = []) \<and> pd_agent ` set begun \<subseteq> set (br_agents b)"
proof -
  obtain r m1 s1 where q: "manager_ask rpc (tn_ask te) q m s = (r, m1, s1)" by (metis prod_cases3)
  note a = manager_ask_adds [OF q, THEN conjunct1]
  show ?thesis
  proof (cases r)
    case (Inl x)
    then show ?thesis using assms(1) q by (simp add: tool_turn_def)
  next
    case (Inr ans)
    then have d: "delegation_rounds rpc (tn_rounds te) ans m1 s1 = (v, begun, m', s')" using assms(1) q by (simp add: tool_turn_def)
    show ?thesis
    proof (cases "tb_broker (nm_tools m)")
      case None
      then have "begun = []" using a d by (simp add: tools_add_def no_broker_rounds)
      then show ?thesis by simp
    next
      case (Some b0)
      then obtain b1 where b1: "tb_broker (nm_tools m1) = Some b1" "adds (fresh_turn b) b1"
        using a assms(2) by (auto simp: tools_add_def)
      have n: "numbered b1" by (rule numbered_adds [OF _ b1(2)]) (simp add: numbered_def fresh_turn_def)
      have k: "br_count b1 - length (br_pending b1) = 0" "br_agents b1 = br_agents b"
        using b1(2) by (auto simp: adds_def fresh_turn_def)
      show ?thesis using rounds_begun [OF d b1(1) n] k Some by (auto simp: numbered_def max_delegations_def)
    qed
  qed
qed

lemma tool_turn_cong:
  assumes "tn_ask te' = tn_ask te" "\<forall>n<3. tn_rounds te' n = tn_rounds te n"
    and "tb_broker (nm_tools m) = None \<or> tb_broker (nm_tools m) = Some (fresh_turn b)"
  shows "tool_turn rpc te' q m s = tool_turn rpc te q m s"
proof -
  obtain r m1 s1 where q: "manager_ask rpc (tn_ask te) q m s = (r, m1, s1)" by (metis prod_cases3)
  have "delegations_left m \<le> 3" using assms(3) by (auto simp: delegations_left_def fresh_turn_def max_delegations_def)
  then have "delegations_left m1 \<le> 3" using manager_ask_left [OF q] by simp
  then have "delegation_rounds rpc (tn_rounds te') ans m1 s1 = delegation_rounds rpc (tn_rounds te) ans m1 s1" for ans
    using assms(2) by (intro rounds_cong) auto
  then show ?thesis by (simp add: tool_turn_def assms(1) q split: sum.split)
qed

lemma no_tools: "tb_broker tb = None \<Longrightarrow> tb_control tb = None \<Longrightarrow> call_tools rpc cs tb s = (os, tb1, s1) \<Longrightarrow> tb1 = tb"
  by (induction cs arbitrary: os)
    (auto simp: call_tool_def with_control_def split: native_tool.splits prod.splits)

lemma untouched_turn:
  assumes "respond_turn rpc te q m s = (v, begun, m1, s1)" "idle_tools (nm_tools m)"
    and "nm_closed m \<or> strip q = u ''/new'' \<or> (tb_broker (nm_tools m) = None \<and> tb_control (nm_tools m) = None)"
  shows "begun = [] \<and> v \<noteq> Inl Nested_turn \<and> idle_tools (nm_tools m1)"
proof (cases "nm_closed m \<or> strip q = u ''/new''")
  case True
  then show ?thesis using assms(1,2) by (auto simp: respond_turn_def split: if_splits prod.splits sum.splits)
next
  case False
  then have none: "tb_broker (nm_tools m) = None" "tb_control (nm_tools m) = None" using assms(3) by simp_all
  obtain r m2 s2 where q: "manager_ask rpc (tn_ask te) q m s = (r, m2, s2)" by (metis prod_cases3)
  then have "nm_tools m2 = nm_tools m" using no_tools [OF none]
    by (auto simp: manager_ask_def split: if_splits prod.splits)
  then show ?thesis using assms(1,2) False none q by (auto simp: respond_turn_def split: sum.splits)
qed

text \<open>C12: a turn of the native manager starts at most three delegations, numbered from one and given to
  configured agents, and needs at most three rounds after the first answer: what the models would say
  in a fourth does not enter. After the turn, whatever happened in it, no delegation is left and a turn
  can begin.\<close>

theorem native_turn_is_bounded:
  assumes "idle_tools (nm_tools m)" and "respond rpc te q m s = (v, begun, m', s')"
  shows "length begun \<le> 3 \<and> map pd_call begun = map call_name [1..<Suc (length begun)]
    \<and> (\<forall>b. tb_broker (nm_tools m) = Some b \<longrightarrow> pd_agent ` set begun \<subseteq> set (br_agents b))
    \<and> v \<noteq> Inl Nested_turn \<and> idle_tools (nm_tools m')
    \<and> (\<forall>te'. tn_ask te' = tn_ask te \<and> (\<forall>n<3. tn_rounds te' n = tn_rounds te n) \<longrightarrow> respond rpc te' q m s = (v, begun, m', s'))"
proof -
  obtain m1 where t: "respond_turn rpc te q m s = (v, begun, m1, s')" and m': "m' = m1\<lparr>nm_tokens := working_tokens (nm_chat m1)\<rparr>"
    using assms(2) by (auto simp: respond_def split: prod.splits)
  obtain m0 b where o: "open_native_turn m = (Inr (), m0)"
      and b: "tb_broker (nm_tools m0) = None \<or> tb_broker (nm_tools m0) = Some (fresh_turn b)"
      "tb_broker (nm_tools m) = None \<or> tb_broker (nm_tools m) = Some b"
    using open_turn_idle [OF assms(1)] by (cases "tb_broker (nm_tools m)") auto
  have "respond rpc te' q m s = respond rpc te q m s"
    if "tn_ask te' = tn_ask te" "\<forall>n<3. tn_rounds te' n = tn_rounds te n" for te'
    by (simp add: respond_def respond_turn_def o tool_turn_cong [OF that b(1)] that(1))
  then have cong: "\<forall>te'. tn_ask te' = tn_ask te \<and> (\<forall>n<3. tn_rounds te' n = tn_rounds te n) \<longrightarrow> respond rpc te' q m s = (v, begun, m', s')"
    using assms(2) by metis
  have "length begun \<le> 3 \<and> map pd_call begun = map call_name [1..<Suc (length begun)]
    \<and> (\<forall>b. tb_broker (nm_tools m) = Some b \<longrightarrow> pd_agent ` set begun \<subseteq> set (br_agents b))
    \<and> v \<noteq> Inl Nested_turn \<and> idle_tools (nm_tools m1)"
  proof (cases "nm_closed m \<or> strip q = u ''/new'' \<or> (tb_broker (nm_tools m) = None \<and> tb_control (nm_tools m) = None)")
    case True
    then show ?thesis using t assms(1) untouched_turn [OF t] by auto
  next
    case False
    obtain w begun2 m2 s2 where u: "tool_turn rpc te q m0 s = (w, begun2, m2, s2)" by (metis prod_cases4)
    then have e: "v = map_sum Chat_failed id w" "begun2 = begun" "m1 = close_native_turn m2" using t False
      by (auto simp: respond_turn_def o)
    have "v \<noteq> Inl Nested_turn" using e(1) by (cases w) simp_all
    then show ?thesis using close_turn_idle [of m2] tool_turn_begun [OF u b(1)] b(2) e(2,3) by auto
  qed
  then show ?thesis using cong m' by simp
qed

end
