(* ===== verification/NativeProps.thy ===== *)
theory NativeProps
  imports NativeManager
begin

text \<open>
  What a turn of the native manager sends to the task service, by recording every call, and concrete
  managers for the witnesses.
\<close>

section \<open>A recorded service\<close>

type_synonym exchange_log = "(request \<times> (client_error + reply)) list"

definition logged :: "'s rpc \<Rightarrow> ('s \<times> exchange_log) rpc" where
  "logged rpc q st = (case rpc q (fst st) of (r, s1) \<Rightarrow> (r, s1, snd st @ [(q, r)]))"

definition creates :: "request \<Rightarrow> bool" where
  "creates q = (case q of CreatePeriodic _ _ _ _ _ _ _ \<Rightarrow> True | CreateExternal _ _ \<Rightarrow> True | _ \<Rightarrow> False)"

text \<open>One exchange of a tool: a question, a creation, or a change of a task that was read just before and
  is one of the controller's own.\<close>

definition exchange :: "exchange_log \<Rightarrow> bool" where
  "exchange p \<longleftrightarrow>
     (\<exists>q r. p = [(q, r)] \<and> (q = TasksList \<or> (\<exists>i. q = TasksGet i) \<or> creates q))
     \<or> (\<exists>i t q r. p = [(TasksGet i, Inr (RTask t)), (q, r)] \<and> ours t \<and> (q = PauseTask i \<or> q = ResumeTask i \<or> q = TasksDelete i))"

definition creations :: "exchange_log \<Rightarrow> nat" where
  "creations tr = length (filter (\<lambda>e. creates (fst e)) tr)"

lemma creations_simps [simp]: "creations [] = 0" "creations (tr @ p) = creations tr + creations p"
  by (simp_all add: creations_def)

definition exchanged :: "controller \<Rightarrow> exchange_log \<Rightarrow> controller \<Rightarrow> exchange_log \<Rightarrow> bool" where
  "exchanged c tr c1 tr1 \<longleftrightarrow>
     (c1 = c \<and> tr1 = tr)
     \<or> allowed c \<and> (\<exists>p. exchange p \<and> tr1 = tr @ p
          \<and> (creations p = 0 \<and> c1 = c \<or> creations p = 1 \<and> \<not> ct_attempted c \<and> c1 = c\<lparr>ct_attempted := True\<rparr>))"

lemma exchange_single: "q = TasksList \<or> (\<exists>i. q = TasksGet i) \<or> creates q \<Longrightarrow> exchange [(q, r)]"
  by (simp add: exchange_def)

lemma exchange_ours:
  "ours t \<Longrightarrow> q = PauseTask i \<or> q = ResumeTask i \<or> q = TasksDelete i \<Longrightarrow> exchange [(TasksGet i, Inr (RTask t)), (q, r)]"
  unfolding exchange_def by blast

lemma create_query_moved: "create_query (logged rpc) p a txt c (s, tr) = (v, c1, s1, tr1) \<Longrightarrow> exchanged c tr c1 tr1"
  by (auto simp: create_query_def refuse_def logged_def exchanged_def Let_def creations_def creates_def intro!: exchange_single
      split: if_splits option.splits sum.splits prod.splits reply.splits)

lemma create_external_moved:
  "create_external_query (logged rpc) a txt tool field c (s, tr) = (v, c1, s1, tr1) \<Longrightarrow> exchanged c tr c1 tr1"
  by (auto simp: create_external_query_def refuse_def logged_def exchanged_def Let_def creations_def creates_def intro!: exchange_single
      split: if_splits option.splits sum.splits prod.splits reply.splits json.splits list.splits)

lemma list_queries_moved: "list_queries (logged rpc) c (s, tr) = (v, c1, s1, tr1) \<Longrightarrow> exchanged c tr c1 tr1"
  by (auto simp: list_queries_def refuse_def logged_def exchanged_def creations_def creates_def intro!: exchange_single
      split: if_splits sum.splits prod.splits reply.splits)

lemma with_ours_moved:
  assumes "with_ours (logged rpc) ident f c (s, tr) = (v, c1, s1, tr1)"
    and "\<And>i t s' tr' v1 c2 s2 tr2. f i t (s', tr') = (v1, c2, s2, tr2) \<Longrightarrow> ours t \<Longrightarrow>
       c2 = c \<and> (tr2 = tr' \<or> (\<exists>q r. tr2 = tr' @ [(q, r)] \<and> (q = PauseTask i \<or> q = ResumeTask i \<or> q = TasksDelete i)))"
  shows "exchanged c tr c1 tr1"
proof (cases "allowed c")
  case False
  then show ?thesis using assms(1) by (simp add: with_ours_def refuse_def exchanged_def)
next
  case ok: True
  show ?thesis
  proof (cases "task_number ident")
    case None
    then show ?thesis using assms(1) ok by (simp add: with_ours_def refuse_def exchanged_def)
  next
    case (Some i)
    obtain r s2 where g: "rpc (TasksGet i) s = (r, s2)" by (metis prod.collapse)
    have one: "exchanged c tr c (tr @ [(TasksGet i, r)])"
      using ok by (auto simp: exchanged_def creations_def creates_def intro: exchange_single)
    show ?thesis
    proof (cases "\<exists>t. r = Inr (RTask t) \<and> ours t")
      case False
      then have "c1 = c" "tr1 = tr @ [(TasksGet i, r)]"
        using assms(1) ok Some g by (auto simp: with_ours_def refuse_def logged_def split: sum.splits reply.splits if_splits)
      then show ?thesis using one by simp
    next
      case True
      then obtain t where t: "r = Inr (RTask t)" "ours t" by blast
      then have f: "f i t (s2, tr @ [(TasksGet i, r)]) = (v, c1, s1, tr1)"
        using assms(1) ok Some g by (simp add: with_ours_def logged_def)
      then have "c1 = c" by (rule assms(2) [THEN conjunct1, OF _ t(2)])
      consider "tr1 = tr @ [(TasksGet i, r)]"
        | q x where "tr1 = tr @ [(TasksGet i, r), (q, x)]" "q = PauseTask i \<or> q = ResumeTask i \<or> q = TasksDelete i"
        using assms(2) [OF f t(2)] by auto
      then show ?thesis
      proof cases
        case 1
        then show ?thesis using one \<open>c1 = c\<close> by simp
      next
        case (2 q x)
        then show ?thesis using ok t \<open>c1 = c\<close> exchange_ours [OF t(2) 2(2), of x]
          by (auto simp: exchanged_def creations_def creates_def)
      qed
    qed
  qed
qed

lemma stop_moved: "stop_query (logged rpc) ident c (s, tr) = (v, c1, s1, tr1) \<Longrightarrow> exchanged c tr c1 tr1"
  unfolding stop_query_def
  by (erule with_ours_moved) (auto simp: logged_def split: sum.splits prod.splits reply.splits)

lemma start_moved: "start_query (logged rpc) ident c (s, tr) = (v, c1, s1, tr1) \<Longrightarrow> exchanged c tr c1 tr1"
  unfolding start_query_def
  by (erule with_ours_moved) (auto simp: logged_def split: sum.splits prod.splits reply.splits if_splits)

lemma delete_moved: "delete_query (logged rpc) ident c (s, tr) = (v, c1, s1, tr1) \<Longrightarrow> exchanged c tr c1 tr1"
  unfolding delete_query_def
  by (erule with_ours_moved) (auto simp: logged_def refuse_def split: sum.splits prod.splits if_splits)

text \<open>One call of a tool, seen from the controller.\<close>

definition control_moved :: "controller option \<Rightarrow> exchange_log \<Rightarrow> controller option \<Rightarrow> exchange_log \<Rightarrow> bool" where
  "control_moved c tr c1 tr1 \<longleftrightarrow>
     (c1 = c \<and> tr1 = tr) \<or> (\<exists>k k1. c = Some k \<and> c1 = Some k1 \<and> exchanged k tr k1 tr1)"

lemma with_control_moved:
  assumes "with_control f tb (s, tr) = (v, tb1, s1, tr1)"
    and "\<And>c c1 s1 tr1 v. f c (s, tr) = (v, c1, s1, tr1) \<Longrightarrow> exchanged c tr c1 tr1"
  shows "control_moved (tb_control tb) tr (tb_control tb1) tr1"
  using assms by (auto simp: with_control_def put_control_def control_moved_def split: option.splits prod.splits)

lemma enqueue_moved:
  "enqueue (logged rpc) b agent task period tool field tb (s, tr) = (v, tb1, s1, tr1) \<Longrightarrow>
     control_moved (tb_control tb) tr (tb_control tb1) tr1"
  by (auto simp: enqueue_def Let_def put_control_def control_moved_def
      split: option.splits sum.splits if_splits prod.splits dest!: create_query_moved create_external_moved)

lemma control_moved_refl [simp]: "control_moved c tr c tr"
  by (simp add: control_moved_def)

lemma call_tool_moved:
  assumes "call_tool (logged rpc) c tb (s, tr) = (v, tb1, s1, tr1)"
  shows "control_moved (tb_control tb) tr (tb_control tb1) tr1"
proof (cases c)
  case (Delegate_task x1 x2 x3 x4 x5)
  then show ?thesis using assms
    by (auto simp: call_tool_def split: option.splits prod.splits dest: enqueue_moved)
qed (use assms in \<open>auto simp: call_tool_def dest!: with_control_moved list_queries_moved stop_moved start_moved delete_moved\<close>)

section \<open>Invariants of the tools hold over a turn\<close>

text \<open>
  What every tool call keeps, of the controller and the service, a whole turn keeps: the tools of the
  manager are the only way to the service.
\<close>

locale tool_invariant =
  fixes rpc :: "request \<Rightarrow> 's \<Rightarrow> (client_error + reply) \<times> 's"
    and keeps :: "controller option \<Rightarrow> 's \<Rightarrow> bool"
  assumes call_keeps: "keeps (tb_control tb) s \<Longrightarrow> call_tool rpc c tb s = (v, tb1, s1) \<Longrightarrow> keeps (tb_control tb1) s1"
begin

lemma calls_keep: "keeps (tb_control tb) s \<Longrightarrow> call_tools rpc cs tb s = (os, tb1, s1) \<Longrightarrow> keeps (tb_control tb1) s1"
  by (induction cs arbitrary: tb s os) (auto split: prod.splits dest: call_keeps)

lemma ask_keeps:
  "keeps (tb_control (nm_tools m)) s \<Longrightarrow> manager_ask rpc ae q m s = (r, m1, s1) \<Longrightarrow> keeps (tb_control (nm_tools m1)) s1"
  by (auto simp: manager_ask_def split: if_splits prod.splits dest: calls_keep)

lemma rounds_keep:
  "keeps (tb_control (nm_tools m)) s \<Longrightarrow> delegation_rounds rpc env ans m s = (v, begun, m', s') \<Longrightarrow> keeps (tb_control (nm_tools m')) s'"
proof (induction "delegations_left m" arbitrary: env ans m s begun rule: less_induct)
  case less
  show ?case
  proof (cases "tb_broker (nm_tools m)")
    case None
    then show ?thesis using less.prems by (simp add: no_broker_rounds)
  next
    case (Some b)
    let ?m1 = "put_broker (emptied b) m"
    have c: "tb_control (nm_tools (?m1\<lparr>nm_pool := p\<rparr>)) = tb_control (nm_tools m)" "tb_control (nm_tools ?m1) = tb_control (nm_tools m)"
      for p by (simp_all add: put_broker_def)
    note step = less.prems(2) [unfolded delegation_rounds.simps [of rpc env] Some]
    show ?thesis
    proof (cases "br_pending b = [] \<or> \<not> rd_active (env 0)")
      case True
      then have "s' = s" "m' = m \<or> m' = ?m1" using step by (auto simp: take_pending_def Let_def emptied_def split: if_splits)
      then show ?thesis using less.prems(1) c(2) by auto
    next
      case False
      obtain r begun0 p where i: "run_items (rd_items (env 0)) (br_pending b) (nm_pool ?m1) = (r, begun0, p)" by (metis prod_cases3)
      show ?thesis
      proof (cases "r = None \<or> \<not> rd_after (env 0) \<or> r = Some []")
        case True
        then have "m' = ?m1\<lparr>nm_pool := p\<rparr>" "s' = s"
          using step False i by (auto simp: take_pending_def Let_def emptied_def split: option.splits if_splits)
        then show ?thesis using less.prems(1) c(1) by simp
      next
        case on: False
        then obtain results where res: "r = Some results" "results \<noteq> []" "rd_after (env 0)" by auto
        obtain a m2 s1 where q: "manager_ask rpc (rd_ask (env 0)) (agent_results results) (?m1\<lparr>nm_pool := p\<rparr>) s = (a, m2, s1)"
          by (metis prod_cases3)
        have k: "keeps (tb_control (nm_tools m2)) s1" by (rule ask_keeps [OF _ q]) (use less.prems(1) c(1) in simp)
        have l: "delegations_left m2 < delegations_left m"
          by (rule round_closer [OF Some _ q [symmetric, unfolded emptied_def]]) (use False in \<open>simp add: take_pending_def\<close>)
        show ?thesis using step False i res q k less.hyps [OF l k]
          by (auto simp: take_pending_def Let_def emptied_def split: sum.splits prod.splits)
      qed
    qed
  qed
qed

lemma turn_keeps:
  "keeps (tb_control (nm_tools m)) s \<Longrightarrow> tool_turn rpc te q m s = (v, begun, m', s') \<Longrightarrow> keeps (tb_control (nm_tools m')) s'"
  by (auto simp: tool_turn_def split: prod.splits sum.splits dest: ask_keeps rounds_keep)

end

definition switched_on :: "controller option \<Rightarrow> bool" where
  "switched_on c = (case c of None \<Rightarrow> False | Some k \<Rightarrow> ct_enabled k)"

definition exchanges :: "exchange_log \<Rightarrow> bool" where
  "exchanges tr \<longleftrightarrow> (\<exists>ps. tr = concat ps \<and> (\<forall>p\<in>set ps. exchange p))"

lemma exchanges_Nil [simp]: "exchanges []"
  unfolding exchanges_def by (rule exI [of _ "[]"]) simp

lemma exchanges_append: "exchanges tr \<Longrightarrow> exchange p \<Longrightarrow> exchanges (tr @ p)"
  unfolding exchanges_def by (elim exE, rule_tac x = "ps @ [p]" in exI) auto

definition attempts :: "controller option \<Rightarrow> nat" where
  "attempts c = (case c of None \<Rightarrow> 0 | Some k \<Rightarrow> if ct_attempted k then 1 else 0)"

lemma attempts_le: "attempts c \<le> 1"
  by (simp add: attempts_def split: option.split)

definition careful :: "bool \<Rightarrow> controller option \<Rightarrow> exchange_log \<Rightarrow> bool" where
  "careful on c tr \<longleftrightarrow> on = switched_on c \<and> exchanges tr \<and> creations tr \<le> attempts c \<and> (\<not> on \<longrightarrow> tr = [])"

lemma careful_Nil [simp]: "careful on c [] \<longleftrightarrow> on = switched_on c"
  by (auto simp: careful_def)

lemma moved_careful: "exchanged k tr k1 tr1 \<Longrightarrow> careful on (Some k) tr \<Longrightarrow> careful on (Some k1) tr1"
  by (auto simp: exchanged_def careful_def allowed_def switched_on_def attempts_def intro: exchanges_append)

lemma recorded_call:
  assumes "careful on (tb_control tb) (snd st)" and "call_tool (logged rpc) c tb st = (v, tb1, st1)"
  shows "careful on (tb_control tb1) (snd st1)"
proof -
  have "control_moved (tb_control tb) (snd st) (tb_control tb1) (snd st1)"
    using call_tool_moved [of rpc c tb "fst st" "snd st" v tb1 "fst st1" "snd st1"] assms(2) by simp
  then show ?thesis using assms(1) moved_careful by (auto simp: control_moved_def)
qed

interpretation recorded: tool_invariant "logged rpc" "\<lambda>c st. careful on c (snd st)" for rpc on
  by unfold_locales (rule recorded_call)

text \<open>C13: whatever a model makes of the tools in a turn of the native manager, the calls that reach the task
  service are a sequence of questions, creations, and changes of a task that was read just before and
  found to be a native query; at most one creation is attempted, and nothing is sent at all while the
  controller is switched off.\<close>

theorem native_turn_is_careful:
  assumes "idle_tools (nm_tools m)" and "respond (logged rpc) te q m (s, []) = (v, begun, m', s', tr)"
  shows "exchanges tr \<and> creations tr \<le> 1
    \<and> (\<not> switched_on (tb_control (nm_tools m)) \<longrightarrow> tr = [])"
proof -
  obtain m0 where o: "open_native_turn m = (Inr (), m0)" and c0: "switched_on (tb_control (nm_tools m0)) = switched_on (tb_control (nm_tools m))"
    using open_turn_idle [OF assms(1)] by (cases "tb_control (nm_tools m)") (simp_all add: switched_on_def)
  obtain m1 where t: "respond_turn (logged rpc) te q m (s, []) = (v, begun, m1, s', tr)"
    using assms(2) by (auto simp: respond_def split: prod.splits)
  have "\<exists>c. careful (switched_on (tb_control (nm_tools m))) c tr"
  proof (cases "nm_closed m \<or> strip q = u ''/new''")
    case True
    then have "tr = []" using t by (auto simp: respond_turn_def split: if_splits prod.splits sum.splits)
    then show ?thesis by auto
  next
    case False
    obtain w begun2 m2 s2 where u: "tool_turn (logged rpc) te q m0 (s, []) = (w, begun2, m2, s2)" by (metis prod_cases4)
    obtain r m3 s3 where a: "manager_ask (logged rpc) (tn_ask te) q m (s, []) = (r, m3, s3)" by (metis prod_cases3)
    have "(s', tr) = s2 \<or> (s', tr) = s3"
      using t False u a by (auto simp: respond_turn_def o split: if_splits sum.splits)
    then show ?thesis
      using recorded.turn_keeps [of "switched_on (tb_control (nm_tools m))", OF _ u] c0
        recorded.ask_keeps [of "switched_on (tb_control (nm_tools m))", OF _ a] by auto
  qed
  then show ?thesis using attempts_le by (auto simp: careful_def intro: order_trans)
qed

section \<open>A concrete manager\<close>

definition sample_broker :: broker where
  "sample_broker = \<lparr>br_agents = [u ''agent_1''], br_enabled = True, br_active = False, br_count = 0, br_pending = []\<rparr>"

definition sample_controller :: controller where
  "sample_controller = \<lparr>ct_permissions = [(u ''agent_1'', [])], ct_catalog = [], ct_broker = (u ''localhost'', 1883),
     ct_enabled = True, ct_in_turn = False, ct_attempted = False\<rparr>"

definition sample_tooled :: native_manager where
  "sample_tooled = new_manager sample_chat sample_pool \<lparr>tb_broker = Some sample_broker, tb_control = Some sample_controller\<rparr>"

definition sample_turn :: turn_env where
  "sample_turn =
     (let go = \<lparr>ak_model = sample_model,
            ak_calls = [Delegate_task (JStr (u ''agent_1'')) (JStr (u ''look'')) (JInt 0) (JStr []) (JStr []), Stop_query (JInt 1)]\<rparr>
      in \<lparr>tn_ask = go, tn_rounds = (\<lambda>n. \<lparr>rd_active = True, rd_items = (\<lambda>i. \<lparr>it_active = True, it_model = sample_model, it_words = (\<lambda>x. [])\<rparr>),
             rd_after = True, rd_ask = go\<rparr>)\<rparr>)"

definition lost_rpc :: "unit rpc" where
  "lost_rpc q s = (Inl Service_unavailable, s)"

lemma sample_tooled_idle: "idle_tools (nm_tools sample_tooled)"
  by (simp add: idle_tools_def sample_tooled_def new_manager_def sample_broker_def sample_controller_def)

theorem native_turn_is_bounded_witness:
  "idle_tools (nm_tools (fst (snd (snd (respond lost_rpc sample_turn (u ''hi'') sample_tooled ())))))
   \<and> length (fst (snd (respond lost_rpc sample_turn (u ''hi'') sample_tooled ()))) \<le> 3"
proof -
  obtain v begun m' s' where r: "respond lost_rpc sample_turn (u ''hi'') sample_tooled () = (v, begun, m', s')" by (metis prod_cases4)
  show ?thesis using native_turn_is_bounded [OF sample_tooled_idle r] by (simp add: r)
qed

theorem native_turn_is_careful_witness:
  "creations (snd (snd (snd (snd (respond (logged lost_rpc) sample_turn (u ''hi'') sample_tooled ((), [])))))) \<le> 1"
proof -
  obtain v begun m' s' tr where r: "respond (logged lost_rpc) sample_turn (u ''hi'') sample_tooled ((), []) = (v, begun, m', s', tr)"
    by (metis prod_cases5)
  show ?thesis using native_turn_is_careful [OF sample_tooled_idle r] by (simp add: r)
qed

end
