(* ===== verification/TaskWorker.thy ===== *)
theory TaskWorker
  imports RemoteClient NativeQueue NativeManager
begin

text \<open>
  The worker of a native CORE (agent_core_tools/task_worker.py): it holds a lease at the task service,
  takes offered runs, puts each on the single queue of model operations, runs the agent once and
  reports the end. The service is the parameter \<open>rpc\<close>; the callbacks of the server around it (the live
  notification of a result, the hand-over of the inbox, whether an agent is kept by a background job)
  are arguments. A round of the polling thread is one step; a run on the model thread is two, up to the
  call of the agent and from there on, because other steps go on while the model works. One operation
  reads the clock once. The set of tokens and of reserved agents are lists.
\<close>

section \<open>What waits for the model thread\<close>

text \<open>The callbacks the worker and the server around it submit, with the values they close over.\<close>

datatype native_call =
    Run_saved sys_event task str
  | Human_turn nat nat str str "str option"
  | Release_session nat
  | Background_step str
  | Clear_background str str
  | Clear_timed_out str str
  | Abort_slices str
  | Hardware_turn nat nat str str str str str

section \<open>State\<close>

record display_row =
  dr_id :: int
  dr_description :: str
  dr_method :: str
  dr_executor :: str
  dr_enabled :: bool
  dr_timer :: "task_timer option"

record last_run =
  lr_task :: "int option"
  lr_outcome :: str
  lr_status :: int
  lr_at :: rat

record task_worker =
  tw_owner :: str
  tw_peer :: str
  tw_permissions :: "(str, str list) dict"
  tw_active :: "((str \<times> str), str) dict"
  tw_next_inbox :: rat
  tw_next_heartbeat :: rat
  tw_next_display :: rat
  tw_display :: "display_row list"
  tw_display_error :: "client_error option"
  tw_last_runs :: "(str, last_run) dict"
  tw_seen :: "str list"
  tw_reserved :: "str list"
  tw_finishes :: "(str, sys_event \<times> str \<times> int) dict"
  tw_results :: "(str, json) dict"
  tw_deferred :: "(str, rat) dict"
  tw_defers :: "(str, sys_event) dict"
  tw_ready :: bool
  tw_stop :: bool
  tw_started :: bool

text \<open>What the server passes to the constructor; a callback that raises leaves the state it reached.\<close>

record 's hooks =
  hk_notify :: "(json \<Rightarrow> 's \<Rightarrow> 's) option"
  hk_inbox :: "('s \<Rightarrow> 's) option"
  hk_blocked :: "str \<Rightarrow> bool"
  hk_stop :: bool

definition beat_seconds :: rat where "beat_seconds = 5"
definition display_seconds :: rat where "display_seconds = 2"
definition max_unacknowledged :: nat where "max_unacknowledged = 32"

definition new_task_worker ::
  "str \<Rightarrow> str \<Rightarrow> (str, str list) dict \<Rightarrow> ((str \<times> str), str) dict \<Rightarrow> rat \<Rightarrow> unit + task_worker" where
  "new_task_worker owner peer perms active poll =
     (if poll \<le> 0 \<or> perms = [] then Inl ()
      else Inr \<lparr>tw_owner = owner, tw_peer = peer, tw_permissions = perms, tw_active = active,
        tw_next_inbox = 0, tw_next_heartbeat = 0, tw_next_display = 0, tw_display = [], tw_display_error = None,
        tw_last_runs = [], tw_seen = [], tw_reserved = [], tw_finishes = [], tw_results = [], tw_deferred = [],
        tw_defers = [], tw_ready = False, tw_stop = False, tw_started = False\<rparr>)"

definition ask_service :: "'s rpc \<Rightarrow> task_worker \<Rightarrow> worker_request \<Rightarrow> 's \<Rightarrow> (client_error + reply) \<times> 's" where
  "ask_service rpc w q s = rpc (WorkerCall (tw_owner w) (tw_peer w) q) s"

definition can_run :: "bool \<Rightarrow> task_worker \<Rightarrow> bool" where
  "can_run stop w \<longleftrightarrow> \<not> tw_stop w \<and> \<not> stop"

text \<open>The truth value of an answer.\<close>

definition granted :: "reply \<Rightarrow> bool" where
  "granted v = (case v of RBool b \<Rightarrow> b | RNone \<Rightarrow> False | _ \<Rightarrow> True)"

type_synonym ('a, 's) worker_result = "(client_error + 'a) \<times> task_worker \<times> 's"

section \<open>Starting, lease, display\<close>

definition start_native :: "'s rpc \<Rightarrow> rat \<Rightarrow> task_worker \<Rightarrow> 's \<Rightarrow> (unit, 's) worker_result" where
  "start_native rpc now w s =
     (if tw_started w then (Inr (), w, s)
      else (case ask_service rpc w (Heartbeat (u ''litert'') (JBool True) []) s of
              (Inl e, s1) \<Rightarrow> (Inl e, w, s1)
            | (Inr _, s1) \<Rightarrow>
                (Inr (), w\<lparr>tw_ready := True, tw_next_heartbeat := now + beat_seconds, tw_started := True\<rparr>, s1)))"

definition display_rows :: "task list \<Rightarrow> task_timer list \<Rightarrow> display_row list" where
  "display_rows ts timers =
     map (\<lambda>t. \<lparr>dr_id = t_id t, dr_description = t_description t, dr_method = t_method t, dr_executor = t_executor t,
            dr_enabled = t_enabled t, dr_timer = map_of (rev (map (\<lambda>m. (tm_key m, m)) timers)) (t_id t)\<rparr>)
       (filter (\<lambda>t. t_executor t = u ''litert'' \<or> t_executor t = u ''auto'') ts)"

text \<open>A reply of another shape is a \<open>ValueError\<close>, caught like the errors of the client except an
  \<open>EventStoreError\<close> and a response that is no object.\<close>

definition display_failed :: "client_error \<Rightarrow> task_worker \<Rightarrow> 's \<Rightarrow> (unit, 's) worker_result" where
  "display_failed e w s =
     (if e = Event_failure \<or> e = Not_an_object then (Inl e, w, s)
      else (Inr (), w\<lparr>tw_display := [], tw_display_error := Some e\<rparr>, s))"

definition refresh_display :: "'s rpc \<Rightarrow> rat \<Rightarrow> task_worker \<Rightarrow> 's \<Rightarrow> (unit, 's) worker_result" where
  "refresh_display rpc now w s =
     (if now < tw_next_display w then (Inr (), w, s)
      else (let w1 = w\<lparr>tw_next_display := now + display_seconds\<rparr>
            in case rpc TasksList s of
                 (Inl e, s1) \<Rightarrow> display_failed e w1 s1
               | (Inr a, s1) \<Rightarrow>
                   (case rpc TaskTimers s1 of
                      (Inl e, s2) \<Rightarrow> display_failed e w1 s2
                    | (Inr b, s2) \<Rightarrow>
                        (case (a, b) of
                           (RTasks ts, RTaskTimers ms) \<Rightarrow>
                             (Inr (), w1\<lparr>tw_display := display_rows ts ms, tw_display_error := None\<rparr>, s2)
                         | _ \<Rightarrow> display_failed No_result w1 s2))))"

definition keep_lease :: "'s rpc \<Rightarrow> rat \<Rightarrow> task_worker \<Rightarrow> 's \<Rightarrow> (bool, 's) worker_result" where
  "keep_lease rpc now w s =
     (if now < tw_next_heartbeat w \<and> tw_ready w then (Inr True, w, s)
      else (case ask_service rpc w (Heartbeat (u ''litert'') (JBool True) []) s of
              (Inl e, s1) \<Rightarrow> if caught e then (Inr False, w\<lparr>tw_ready := False\<rparr>, s1) else (Inl e, w, s1)
            | (Inr _, s1) \<Rightarrow> (Inr True, w\<lparr>tw_ready := True, tw_next_heartbeat := now + beat_seconds\<rparr>, s1)))"

section \<open>Reporting ends\<close>

text \<open>
  The result of a query is stored before its run is finished; a result the service refuses turns the
  run into a cancelled one.
\<close>

definition store_result ::
  "'s rpc \<Rightarrow> 's hooks \<Rightarrow> str \<Rightarrow> sys_event \<Rightarrow> str \<times> int \<Rightarrow> task_worker \<Rightarrow> 's \<Rightarrow> (str \<times> int, 's) worker_result" where
  "store_result rpc h tok ev out w s =
     (case dget (tw_results w) tok of
        None \<Rightarrow> (Inr out, w, s)
      | Some result \<Rightarrow>
          (case ask_service rpc w (PublishResult (JStr (ev_run_id ev)) (JStr (ev_offer_id ev)) result) s of
             (Inl e, s1) \<Rightarrow> (Inl e, w, s1)
           | (Inr v, s1) \<Rightarrow>
               (let out1 = (if granted v then out else (u ''cancelled'', 1));
                    s2 = (if granted v then (case hk_notify h of None \<Rightarrow> s1 | Some f \<Rightarrow> f result s1) else s1)
                in (Inr out1, w\<lparr>tw_results := ddel tok (tw_results w),
                      tw_finishes := dput tok (ev, out1) (tw_finishes w)\<rparr>, s2))))"

definition forget :: "str \<Rightarrow> task_worker \<Rightarrow> task_worker" where
  "forget tok w = w\<lparr>tw_finishes := ddel tok (tw_finishes w), tw_seen := removeAll tok (tw_seen w)\<rparr>"

fun finish_items ::
  "'s rpc \<Rightarrow> 's hooks \<Rightarrow> (str \<times> sys_event \<times> str \<times> int) list \<Rightarrow> task_worker \<Rightarrow> 's \<Rightarrow> (bool, 's) worker_result" where
  "finish_items rpc h [] w s = (Inr True, w, s)"
| "finish_items rpc h ((tok, ev, out) # items) w s =
     (case store_result rpc h tok ev out w s of
        (Inl e, w1, s1) \<Rightarrow> (if caught e then Inr False else Inl e, w1, s1)
      | (Inr (outcome, code), w1, s1) \<Rightarrow>
          (case ask_service rpc w1 (Finish (ev_run_id ev) (ev_offer_id ev) outcome (Some (JInt code))) s1 of
             (Inl e, s2) \<Rightarrow> (if caught e then Inr False else Inl e, w1, s2)
           | (Inr _, s2) \<Rightarrow> finish_items rpc h items (forget tok w1) s2))"

definition finish_pending :: "'s rpc \<Rightarrow> 's hooks \<Rightarrow> task_worker \<Rightarrow> 's \<Rightarrow> (bool, 's) worker_result" where
  "finish_pending rpc h w s = finish_items rpc h (tw_finishes w) w s"

section \<open>Giving offers back\<close>

fun defer_items :: "'s rpc \<Rightarrow> (str \<times> sys_event) list \<Rightarrow> task_worker \<Rightarrow> 's \<Rightarrow> (bool, 's) worker_result" where
  "defer_items rpc [] w s = (Inr True, w, s)"
| "defer_items rpc ((tok, ev) # items) w s =
     (case ask_service rpc w (Finish (ev_run_id ev) tok (u ''cancelled'') None) s of
        (Inl e, s1) \<Rightarrow> (if caught e then Inr False else Inl e, w, s1)
      | (Inr _, s1) \<Rightarrow> defer_items rpc items (w\<lparr>tw_defers := ddel tok (tw_defers w)\<rparr>) s1)"

definition flush_defers :: "'s rpc \<Rightarrow> task_worker \<Rightarrow> 's \<Rightarrow> (bool, 's) worker_result" where
  "flush_defers rpc w s = defer_items rpc (tw_defers w) w s"

definition defer_offer :: "'s rpc \<Rightarrow> rat \<Rightarrow> sys_event \<Rightarrow> rat \<Rightarrow> task_worker \<Rightarrow> 's \<Rightarrow> (bool, 's) worker_result" where
  "defer_offer rpc now ev seconds w s =
     flush_defers rpc (w\<lparr>tw_deferred := dput (ev_run_id ev) (now + seconds) (tw_deferred w),
       tw_defers := dput (ev_offer_id ev) ev (tw_defers w)\<rparr>) s"

section \<open>Choosing an agent\<close>

definition agent_fits :: "native_pool \<Rightarrow> (str \<Rightarrow> bool) \<Rightarrow> task \<Rightarrow> task_worker \<Rightarrow> str \<Rightarrow> bool" where
  "agent_fits p blocked t w a \<longleftrightarrow>
     (case dget (tw_permissions w) a of None \<Rightarrow> False | Some tools \<Rightarrow> set (t_skills t) \<subseteq> set tools)
     \<and> state_of p a = Some Nat_free \<and> \<not> blocked a \<and> a \<notin> set (tw_reserved w)"

definition select_agent :: "native_pool \<Rightarrow> (str \<Rightarrow> bool) \<Rightarrow> task \<Rightarrow> task_worker \<Rightarrow> str option" where
  "select_agent p blocked t w =
     (case t_agent t of
        Some a \<Rightarrow> if agent_fits p blocked t w a then Some a else None
      | None \<Rightarrow> find (agent_fits p blocked t w) (dkeys (tw_permissions w)))"

section \<open>A round of the polling thread\<close>

definition call_inbox :: "'s hooks \<Rightarrow> rat \<Rightarrow> task_worker \<Rightarrow> 's \<Rightarrow> task_worker \<times> 's" where
  "call_inbox h now w s =
     (case hk_inbox h of
        None \<Rightarrow> (w, s)
      | Some f \<Rightarrow> if tw_next_inbox w \<le> now then (w\<lparr>tw_next_inbox := now + display_seconds\<rparr>, f s) else (w, s))"

type_synonym 's poll_result = "(client_error + bool) \<times> native_call native \<times> task_worker \<times> 's"

definition given_back :: "native_call native \<Rightarrow> (bool, 's) worker_result \<Rightarrow> 's poll_result" where
  "given_back q r = (case r of (Inl e, w, s) \<Rightarrow> (Inl e, q, w, s) | (Inr _, w, s) \<Rightarrow> (Inr False, q, w, s))"

text \<open>An offer with a saved task: stale, of an unknown kind, without a free agent, or admitted.\<close>

definition admit_offer ::
  "'s rpc \<Rightarrow> 's hooks \<Rightarrow> rat \<Rightarrow> native_pool \<Rightarrow> sys_event \<Rightarrow> task option \<Rightarrow> native_call native \<Rightarrow> task_worker \<Rightarrow> 's \<Rightarrow> 's poll_result" where
  "admit_offer rpc h now p ev found q w s =
     (case found of
        None \<Rightarrow> given_back q (defer_offer rpc now ev 30 w s)
      | Some t \<Rightarrow>
          if \<not> t_enabled t \<or> t_generation t \<noteq> ev_generation ev then given_back q (defer_offer rpc now ev 30 w s)
          else if t_method t \<noteq> u ''task'' \<and> t_method t \<noteq> u ''query'' then given_back q (defer_offer rpc now ev 60 w s)
          else (case select_agent p (hk_blocked h) t w of
                  None \<Rightarrow> given_back q (defer_offer rpc now ev 2 w s)
                | Some a \<Rightarrow>
                    if a \<in> set (tw_reserved w) \<or> ev_offer_id ev \<in> set (tw_seen w) then (Inr False, q, w, s)
                    else (case submit_op (if ev_source ev = u ''mqtt'' then u ''hardware'' else u ''background'')
                                  (Run_saved ev t a) False q of
                            Inl _ \<Rightarrow> (Inr False, q, w, s)
                          | Inr q1 \<Rightarrow> (Inr True, q1, w\<lparr>tw_reserved := a # tw_reserved w,
                                tw_seen := ev_offer_id ev # tw_seen w\<rparr>, s))))"

text \<open>The saved task is read again; an offer always carries the number of one.\<close>

definition read_task :: "'s rpc \<Rightarrow> sys_event \<Rightarrow> 's \<Rightarrow> (client_error + task option) \<times> 's" where
  "read_task rpc ev s =
     (case ev_task_id ev of
        None \<Rightarrow> (Inr None, s)
      | Some i \<Rightarrow> (case rpc (TasksGet i) s of
                      (Inl e, s1) \<Rightarrow> (Inl e, s1)
                    | (Inr v, s1) \<Rightarrow> (Inr (case v of RTask t \<Rightarrow> Some t | _ \<Rightarrow> None), s1)))"

definition take_offer ::
  "'s rpc \<Rightarrow> 's hooks \<Rightarrow> rat \<Rightarrow> native_pool \<Rightarrow> native_call native \<Rightarrow> task_worker \<Rightarrow> 's \<Rightarrow> 's poll_result" where
  "take_offer rpc h now p q w s =
     (if max_unacknowledged \<le> length (tw_seen w) then (Inr False, q, w, s)
      else
        (let w1 = w\<lparr>tw_deferred := filter (\<lambda>(k, till). now < till) (tw_deferred w)\<rparr>
         in case ask_service rpc w1 (Pull (u ''litert'') (tw_seen w1) (dkeys (tw_deferred w1))) s of
              (Inl e, s1) \<Rightarrow> (if caught e then Inr False else Inl e, q, w1, s1)
            | (Inr (REvent ev), s1) \<Rightarrow>
                if ev_run_id ev = [] \<or> ev_offer_id ev = [] \<or> ev_offer_id ev \<in> set (tw_seen w1) then (Inr False, q, w1, s1)
                else (case read_task rpc ev s1 of
                        (Inl e, s2) \<Rightarrow> (if caught e then Inr False else Inl e, q, w1, s2)
                      | (Inr found, s2) \<Rightarrow> admit_offer rpc h now p ev found q w1 s2)
            | (Inr _, s1) \<Rightarrow> (Inr False, q, w1, s1)))"

definition poll_once ::
  "'s rpc \<Rightarrow> 's hooks \<Rightarrow> rat \<Rightarrow> native_pool \<Rightarrow> native_call native \<Rightarrow> task_worker \<Rightarrow> 's \<Rightarrow> 's poll_result" where
  "poll_once rpc h now p q w s =
     (case keep_lease rpc now w s of
        (Inl e, w1, s1) \<Rightarrow> (Inl e, q, w1, s1)
      | (Inr False, w1, s1) \<Rightarrow> (Inr False, q, w1, s1)
      | (Inr True, w1, s1) \<Rightarrow>
          if \<not> can_run (hk_stop h) w1 then (Inr False, q, w1, s1)
          else (case call_inbox h now w1 s1 of
                  (w2, s2) \<Rightarrow>
                    (case finish_pending rpc h w2 s2 of
                       (Inl e, w3, s3) \<Rightarrow> (Inl e, q, w3, s3)
                     | (Inr False, w3, s3) \<Rightarrow> (Inr False, q, w3, s3)
                     | (Inr True, w3, s3) \<Rightarrow>
                         (case flush_defers rpc w3 s3 of
                            (Inl e, w4, s4) \<Rightarrow> (Inl e, q, w4, s4)
                          | (Inr False, w4, s4) \<Rightarrow> (Inr False, q, w4, s4)
                          | (Inr True, w4, s4) \<Rightarrow> take_offer rpc h now p q w4 s4))))"

text \<open>One pass of the loop: an exception ends it and is logged.\<close>

definition worker_round ::
  "'s rpc \<Rightarrow> 's hooks \<Rightarrow> rat \<Rightarrow> native_pool \<Rightarrow> native_call native \<Rightarrow> task_worker \<Rightarrow> 's \<Rightarrow> native_call native \<times> task_worker \<times> 's" where
  "worker_round rpc h now p q w s =
     (case refresh_display rpc now w s of
        (Inl _, w1, s1) \<Rightarrow> (q, w1, s1)
      | (Inr _, w1, s1) \<Rightarrow> snd (poll_once rpc h now p q w1 s1))"

section \<open>A run on the model thread\<close>

text \<open>
  How a run stands before the model is called: it never began, it is over with an outcome and a status
  (and whether the agent's last run is noted), or the agent is to be given this instruction.
\<close>

datatype run_stage =
    Not_begun
  | Over_without str int bool
  | To_agent str

definition event_note :: str where
  "event_note = [1047, 1085, 1072, 1095, 1077, 1085, 1080, 1077, 32, 1074, 32, 1084, 1086, 1084, 1077, 1085, 1090, 32,
     1089, 1086, 1073, 1099, 1090, 1080, 1103, 59, 32, 1085, 1077, 32, 1079, 1072, 1084, 1077, 1085, 1103,
     1081, 32, 1077, 1075, 1086, 32, 1087, 1086, 1074, 1090, 1086, 1088, 1085, 1099, 1084, 32, 1095, 1090,
     1077, 1085, 1080, 1077, 1084, 32, 1076, 1072, 1090, 1095, 1080, 1082, 1072, 46]"

text \<open>The value of an event and the instruction with it; \<open>Inl\<close> is the \<open>ValueError\<close>.\<close>

definition event_value :: "binding \<Rightarrow> sys_event \<Rightarrow> unit + json" where
  "event_value b ev =
     (if b_value_type b = u ''boolean'' then
        (if ev_task ev = u ''true'' then Inr (JBool True) else if ev_task ev = u ''false'' then Inr (JBool False) else Inl ())
      else Inr (JStr (ev_task ev)))"

definition event_instruction :: "task \<Rightarrow> binding \<Rightarrow> sys_event \<Rightarrow> json \<Rightarrow> str" where
  "event_instruction t b ev v =
     t_text t @ [10, 10] @ u ''[SYSTEM_MQTT_EVENT]'' @ [10]
       @ dumps (\<lambda>x. []) False (u '', '') (u '': '') (JObj [(u ''topic'', JStr (b_topic b)), (u ''field'', JStr (b_field b)),
           (u ''value'', v), (u ''event_name'', JStr (ev_name ev)), (u ''note'', JStr event_note)])
       @ [10] @ u ''[/SYSTEM_MQTT_EVENT]''"

definition prepare_event :: "'s rpc \<Rightarrow> sys_event \<Rightarrow> task \<Rightarrow> task_worker \<Rightarrow> 's \<Rightarrow> run_stage \<times> 's" where
  "prepare_event rpc ev t w s =
     (case rpc (EventsResolve (u ''mqtt'') (ev_name ev)) s of
        (Inr (RBinding b), s1) \<Rightarrow>
          (if b_task b \<noteq> t_id t then (Over_without (u ''error'') 1 False, s1)
           else (case event_value b ev of
                   Inl _ \<Rightarrow> (Over_without (u ''error'') 1 False, s1)
                 | Inr v \<Rightarrow>
                     (case dget (tw_active w) (b_topic b, b_field b) of
                        None \<Rightarrow> (To_agent (event_instruction t b ev v), s1)
                      | Some active \<Rightarrow>
                          if ev_task ev \<noteq> active then (Over_without (u ''done'') 0 True, s1)
                          else (To_agent (event_instruction t b ev v), s1))))
      | (_, s1) \<Rightarrow> (Over_without (u ''error'') 1 False, s1))"

text \<open>Up to the call of the agent: it must still be free, and the service must grant and confirm the run.\<close>

definition prepare_run ::
  "'s rpc \<Rightarrow> 's hooks \<Rightarrow> rat \<Rightarrow> native_pool \<Rightarrow> sys_event \<Rightarrow> task \<Rightarrow> str \<Rightarrow> task_worker \<Rightarrow> 's \<Rightarrow> run_stage \<times> task_worker \<times> 's" where
  "prepare_run rpc h now p ev t a w s =
     (if \<not> can_run (hk_stop h) w \<or> state_of p a \<noteq> Some Nat_free \<or> hk_blocked h a then (Not_begun, w, s)
      else
        (case ask_service rpc w (Begin (ev_run_id ev) (ev_offer_id ev)) s of
           (Inl e, s1) \<Rightarrow>
             if caught e then
               (Over_without (u ''interrupted'') 1 False, w\<lparr>tw_deferred := dput (ev_run_id ev) (now + 2) (tw_deferred w)\<rparr>, s1)
             else (Over_without (u ''error'') 1 False, w, s1)
         | (Inr v, s1) \<Rightarrow>
             if \<not> granted v then (Over_without (u ''cancelled'') 1 False, w, s1)
             else
               (case ask_service rpc w (Valid (ev_run_id ev) (ev_offer_id ev)) s1 of
                  (Inl e, s2) \<Rightarrow> (Over_without (if caught e then u ''interrupted'' else u ''error'') 1 False, w, s2)
                | (Inr v1, s2) \<Rightarrow>
                    if \<not> granted v1 then (Over_without (u ''cancelled'') 1 False, w, s2)
                    else if ev_source ev = u ''mqtt'' then (case prepare_event rpc ev t w s2 of (r, s3) \<Rightarrow> (r, w, s3))
                    else (To_agent (t_text t), w, s2))))"

text \<open>The end of a run: the agent is free for other work, the end waits for the service.\<close>

definition conclude_run :: "sys_event \<Rightarrow> str \<Rightarrow> str \<times> int \<Rightarrow> task_worker \<Rightarrow> task_worker" where
  "conclude_run ev a out w =
     w\<lparr>tw_reserved := removeAll a (tw_reserved w), tw_finishes := dput (ev_offer_id ev) (ev, out) (tw_finishes w)\<rparr>"

definition note_run :: "rat \<Rightarrow> sys_event \<Rightarrow> str \<Rightarrow> str \<times> int \<Rightarrow> task_worker \<Rightarrow> task_worker" where
  "note_run wall ev a out w =
     w\<lparr>tw_last_runs := dput a \<lparr>lr_task = ev_task_id ev, lr_outcome = fst out, lr_status = snd out, lr_at = wall\<rparr> (tw_last_runs w)\<rparr>"

definition stop_before ::
  "rat \<Rightarrow> sys_event \<Rightarrow> str \<Rightarrow> run_stage \<Rightarrow> task_worker \<Rightarrow> task_worker" where
  "stop_before wall ev a stage w =
     (case stage of
        Not_begun \<Rightarrow> w\<lparr>tw_reserved := removeAll a (tw_reserved w), tw_seen := removeAll (ev_offer_id ev) (tw_seen w)\<rparr>
      | Over_without outcome code noted \<Rightarrow>
          conclude_run ev a (outcome, code) (if noted then note_run wall ev a (outcome, code) w else w)
      | To_agent _ \<Rightarrow> w)"

definition query_payload :: "sys_event \<Rightarrow> str \<Rightarrow> str \<Rightarrow> json" where
  "query_payload ev a txt =
     JObj [(u ''type'', JStr (u ''task_query_result'')), (u ''task_id'', jopt JInt (ev_task_id ev)),
           (u ''run_id'', JStr (ev_run_id ev)), (u ''source'', JStr (ev_source ev)), (u ''agent_id'', JStr a),
           (u ''agent_ok'', JBool True), (u ''text'', JStr (take 4096 txt))]"

text \<open>After the agent: an exception is an error; the text of a successful query waits to be stored.\<close>

definition after_agent ::
  "rat \<Rightarrow> sys_event \<Rightarrow> task \<Rightarrow> str \<Rightarrow> manager_failure + (agent_failure + native_outcome) \<Rightarrow> task_worker \<Rightarrow> task_worker" where
  "after_agent wall ev t a r w =
     (case r of
        Inr (Inr o') \<Rightarrow>
          (let code = (if no_state o' = Nat_free then no_status o' else if no_status o' \<noteq> 0 then no_status o' else 1);
               out = (if code \<noteq> 0 then u ''error'' else u ''done'', code);
               w1 = note_run wall ev a out w;
               w2 = (if t_method t = u ''query'' \<and> code = 0 \<and> strip (no_text o') \<noteq> []
                     then w1\<lparr>tw_results := dput (ev_offer_id ev) (query_payload ev a (no_text o')) (tw_results w1)\<rparr> else w1)
           in conclude_run ev a out w2)
      | _ \<Rightarrow> conclude_run ev a (u ''error'', 1) w)"

section \<open>The other operations\<close>

definition close_worker :: "'s rpc \<Rightarrow> 's hooks \<Rightarrow> task_worker \<Rightarrow> 's \<Rightarrow> (unit, 's) worker_result" where
  "close_worker rpc h w s =
     (case finish_pending rpc h (w\<lparr>tw_stop := True, tw_started := False\<rparr>) s of
        (Inl e, w1, s1) \<Rightarrow> (Inl e, w1, s1)
      | (Inr _, w1, s1) \<Rightarrow>
          (case flush_defers rpc w1 s1 of
             (Inl e, w2, s2) \<Rightarrow> (Inl e, w2, s2)
           | (Inr _, w2, s2) \<Rightarrow>
               (case ask_service rpc w2 Offline s2 of
                  (Inl e, s3) \<Rightarrow> if caught e then (Inr (), w2\<lparr>tw_ready := False\<rparr>, s3) else (Inl e, w2, s3)
                | (Inr _, s3) \<Rightarrow> (Inr (), w2\<lparr>tw_ready := False\<rparr>, s3))))"

definition list_results :: "'s rpc \<Rightarrow> int \<Rightarrow> 's \<Rightarrow> (client_error + reply) \<times> 's" where
  "list_results rpc limit s = rpc (NotificationsList (JInt limit)) s"

definition ack_result :: "'s rpc \<Rightarrow> str \<Rightarrow> 's \<Rightarrow> (client_error + reply) \<times> 's" where
  "ack_result rpc run s = rpc (NotificationsAck (JStr run)) s"

definition is_reserved :: "str \<Rightarrow> task_worker \<Rightarrow> bool" where
  "is_reserved a w \<longleftrightarrow> a \<in> set (tw_reserved w)"

record worker_view =
  wv_ready :: bool
  wv_reserved :: "str set"
  wv_unacknowledged :: nat
  wv_stores :: nat
  wv_offered :: nat
  wv_deferred :: nat
  wv_defers :: nat
  wv_tasks :: "display_row list"
  wv_error :: "client_error option"
  wv_last :: "(str, last_run) dict"

definition worker_snapshot :: "task_worker \<Rightarrow> worker_view" where
  "worker_snapshot w = \<lparr>wv_ready = tw_ready w, wv_reserved = set (tw_reserved w), wv_unacknowledged = length (tw_finishes w),
     wv_stores = length (tw_results w), wv_offered = length (tw_seen w), wv_deferred = length (tw_deferred w),
     wv_defers = length (tw_defers w), wv_tasks = tw_display w, wv_error = tw_display_error w, wv_last = tw_last_runs w\<rparr>"

end
