(* ===== verification/WorkerSteps.thy ===== *)
theory WorkerSteps
  imports TaskWorker EngineProps RemoteClientProps
begin

text \<open>
  What the operations of a native worker change, over any task service: tokens and reserved agents are
  only added by an admission and only removed by a report, and every relation on the state of the
  service that calls and callbacks respect is respected by the operations (the locale
  \<open>worker_service\<close>).
\<close>

section \<open>A worker over any service\<close>

text \<open>What a worker keeps apart from displays, leases and offers to give back.\<close>

definition core_of :: "task_worker \<Rightarrow> str \<times> str \<times> str list \<times> str list \<times> (str, sys_event \<times> str \<times> int) dict" where
  "core_of w = (tw_owner w, tw_peer w, tw_seen w, tw_reserved w, tw_finishes w)"

lemma refresh_core: "refresh_display rpc now w s = (r, w1, s1) \<Longrightarrow> core_of w1 = core_of w"
  by (auto simp: refresh_display_def display_failed_def Let_def core_of_def split: if_splits prod.splits sum.splits reply.splits)

lemma lease_core: "keep_lease rpc now w s = (r, w1, s1) \<Longrightarrow> core_of w1 = core_of w"
  by (auto simp: keep_lease_def core_of_def split: if_splits prod.splits sum.splits)

lemma inbox_core: "call_inbox h now w s = (w1, s1) \<Longrightarrow> core_of w1 = core_of w"
  by (auto simp: call_inbox_def core_of_def split: if_splits option.splits)

lemma defer_items_core: "defer_items rpc items w s = (r, w1, s1) \<Longrightarrow> core_of w1 = core_of w"
proof (induction rpc items w s arbitrary: r rule: defer_items.induct)
  case (2 rpc tok ev items w s)
  obtain a s2 where a: "ask_service rpc w (Finish (ev_run_id ev) tok (u ''cancelled'') None) s = (a, s2)" by (metis prod.collapse)
  show ?case
  proof (cases a)
    case (Inr v)
    have "defer_items rpc items (w\<lparr>tw_defers := ddel tok (tw_defers w)\<rparr>) s2 = (r, w1, s1)" using 2(2) a Inr by simp
    from 2(1) [OF a [symmetric, unfolded Inr] refl this] show ?thesis by (simp add: core_of_def)
  qed (use 2(2) a in simp)
qed simp

lemma flush_core: "flush_defers rpc w s = (r, w1, s1) \<Longrightarrow> core_of w1 = core_of w"
  unfolding flush_defers_def by (rule defer_items_core)

lemma defer_core: "defer_offer rpc now ev t w s = (r, w1, s1) \<Longrightarrow> core_of w1 = core_of w"
  unfolding defer_offer_def by (drule flush_core) (simp add: core_of_def)

text \<open>Taking an offer leaves the worker as it was, or admits a run that is new to it.\<close>

definition admits :: "native_call native \<Rightarrow> task_worker \<Rightarrow> native_call native \<Rightarrow> task_worker \<Rightarrow> bool" where
  "admits q w q1 w1 \<longleftrightarrow> (\<exists>kind ev t a. submit_op kind (Run_saved ev t a) False q = Inr q1
     \<and> a \<notin> set (tw_reserved w) \<and> ev_offer_id ev \<notin> set (tw_seen w) \<and> length (tw_seen w) < max_unacknowledged
     \<and> core_of w1 = (tw_owner w, tw_peer w, ev_offer_id ev # tw_seen w, a # tw_reserved w, tw_finishes w))"

definition polls :: "native_call native \<Rightarrow> task_worker \<Rightarrow> native_call native \<Rightarrow> task_worker \<Rightarrow> bool" where
  "polls q w q1 w1 \<longleftrightarrow> (q1 = q \<and> core_of w1 = core_of w) \<or> admits q w q1 w1"

lemma polls_core: "core_of w = core_of v \<Longrightarrow> polls q w q1 w1 = polls q v q1 w1"
  by (simp add: polls_def admits_def core_of_def)

lemma polls_refused: "given_back q (defer_offer rpc now ev t w s) = (r, q1, w1, s1) \<Longrightarrow> polls q w q1 w1"
  by (auto simp: given_back_def polls_def split: prod.splits sum.splits dest: defer_core)

lemma admit_polls:
  assumes "admit_offer rpc h now p ev found q w s = (r, q1, w1, s1)" "length (tw_seen w) < max_unacknowledged"
  shows "polls q w q1 w1"
  using assms
  by (auto simp: admit_offer_def split: option.splits if_splits sum.splits dest: polls_refused)
    (auto simp: polls_def admits_def core_of_def)

lemma take_polls: "take_offer rpc h now p q w s = (r, q1, w1, s1) \<Longrightarrow> polls q w q1 w1"
proof -
  assume t: "take_offer rpc h now p q w s = (r, q1, w1, s1)"
  let ?w = "w\<lparr>tw_deferred := filter (\<lambda>(k, till). now < till) (tw_deferred w)\<rparr>"
  have "core_of ?w = core_of w" by (simp add: core_of_def)
  moreover have "polls q ?w q1 w1"
  proof (cases "max_unacknowledged \<le> length (tw_seen w)")
    case True
    then show ?thesis using t by (simp add: take_offer_def polls_def core_of_def)
  next
    case False
    have same: "polls q ?w q ?w" by (simp add: polls_def)
    show ?thesis using t False same
      by (auto simp: take_offer_def Let_def not_le split: prod.splits sum.splits reply.splits if_splits
          intro: admit_polls)
  qed
  ultimately show ?thesis using polls_core by blast
qed


text \<open>Reporting removes some ends, with their tokens, and keeps the events of the others.\<close>

definition reports :: "task_worker \<Rightarrow> task_worker \<Rightarrow> bool" where
  "reports w w1 \<longleftrightarrow> tw_owner w1 = tw_owner w \<and> tw_peer w1 = tw_peer w \<and> tw_reserved w1 = tw_reserved w
     \<and> (dwf (tw_finishes w) \<longrightarrow> dwf (tw_finishes w1))
     \<and> (\<exists>F. F \<subseteq> set (dkeys (tw_finishes w)) \<and> tw_seen w1 = filter (\<lambda>k. k \<notin> F) (tw_seen w)
          \<and> (\<forall>k. map_option fst (dget (tw_finishes w1) k) = (if k \<in> F then None else map_option fst (dget (tw_finishes w) k))))"

lemma reports_refl [simp]: "core_of w1 = core_of w \<Longrightarrow> reports w w1"
  unfolding reports_def by (auto simp: core_of_def intro!: exI [of _ "{}"])

lemma keys_iff: "k \<in> set (dkeys d) \<longleftrightarrow> map_option fst (dget d k) \<noteq> None"
  by (simp add: dget_None_iff)

lemma reports_trans: "reports a b \<Longrightarrow> reports b c \<Longrightarrow> reports a c"
proof -
  assume a: "reports a b" "reports b c"
  obtain F where F: "F \<subseteq> set (dkeys (tw_finishes a))" "tw_seen b = filter (\<lambda>k. k \<notin> F) (tw_seen a)"
      "\<forall>k. map_option fst (dget (tw_finishes b) k) = (if k \<in> F then None else map_option fst (dget (tw_finishes a) k))"
    using a(1) by (auto simp: reports_def)
  obtain G where G: "G \<subseteq> set (dkeys (tw_finishes b))" "tw_seen c = filter (\<lambda>k. k \<notin> G) (tw_seen b)"
      "\<forall>k. map_option fst (dget (tw_finishes c) k) = (if k \<in> G then None else map_option fst (dget (tw_finishes b) k))"
    using a(2) by (auto simp: reports_def)
  have "G \<subseteq> set (dkeys (tw_finishes a))"
  proof
    fix x
    assume "x \<in> G"
    then have "x \<in> set (dkeys (tw_finishes b))" using G(1) by blast
    then have "map_option fst (dget (tw_finishes b) x) \<noteq> None" by (rule keys_iff [THEN iffD1])
    then show "x \<in> set (dkeys (tw_finishes a))" using F(3) [rule_format, of x] by (simp add: keys_iff split: if_splits)
  qed
  then have "F \<union> G \<subseteq> set (dkeys (tw_finishes a))" using F(1) by blast
  moreover have "tw_seen c = filter (\<lambda>k. k \<notin> F \<union> G) (tw_seen a)" by (simp add: F(2) G(2))
  moreover have "map_option fst (dget (tw_finishes c) k)
      = (if k \<in> F \<union> G then None else map_option fst (dget (tw_finishes a) k))" for k
    using G(3) [rule_format, of k] F(3) [rule_format, of k] by simp
  ultimately have "\<exists>H. H \<subseteq> set (dkeys (tw_finishes a)) \<and> tw_seen c = filter (\<lambda>k. k \<notin> H) (tw_seen a)
      \<and> (\<forall>k. map_option fst (dget (tw_finishes c) k) = (if k \<in> H then None else map_option fst (dget (tw_finishes a) k)))"
    by blast
  then show ?thesis using a by (simp add: reports_def)
qed

lemma store_reports:
  assumes "store_result rpc h tok ev out w s = (r, w1, s1)" "map_option fst (dget (tw_finishes w) tok) = Some ev"
  shows "reports w w1"
  using assms
  by (auto simp: store_result_def Let_def reports_def split: option.splits prod.splits sum.splits intro!: exI [of _ "{}"])

lemma forget_reports: "dget (tw_finishes w) tok \<noteq> None \<Longrightarrow> reports w (forget tok w)"
  unfolding reports_def forget_def
  by (intro conjI exI [of _ "{tok}"]) (auto simp: dget_None_iff removeAll_filter_not_eq intro: filter_cong)

definition listed_in :: "(str \<times> sys_event \<times> str \<times> int) list \<Rightarrow> task_worker \<Rightarrow> bool" where
  "listed_in items w \<longleftrightarrow> distinct (map fst items)
     \<and> (\<forall>(k, ev, out) \<in> set items. map_option fst (dget (tw_finishes w) k) = Some ev)"

lemma listed_in_own: "dwf (tw_finishes w) \<Longrightarrow> listed_in (tw_finishes w) w"
  by (auto simp: listed_in_def dwf_def dget_def)

lemma listed_in_next:
  assumes "listed_in ((tok, ev, out) # items) w" "store_result rpc h tok ev out w s = (r, w1, s1)"
  shows "listed_in items (forget tok w1) \<and> reports w (forget tok w1) \<and> reports w w1"
proof -
  have e: "map_option fst (dget (tw_finishes w) tok) = Some ev" using assms(1) by (simp add: listed_in_def)
  note r = store_reports [OF assms(2) e]
  have f: "map_option fst (dget (tw_finishes w1) k) = map_option fst (dget (tw_finishes w) k)" for k
    using assms(2) e by (auto simp: store_result_def Let_def split: option.splits prod.splits sum.splits)
  have "dget (tw_finishes w1) tok \<noteq> None" using f [of tok] e by auto
  then have "reports w (forget tok w1)" using reports_trans [OF r forget_reports] by blast
  moreover have "map_option fst (dget (tw_finishes (forget tok w1)) k) = Some ev'" if "(k, ev', o') \<in> set items" for k ev' o'
  proof -
    have "k \<noteq> tok" "map_option fst (dget (tw_finishes w) k) = Some ev'"
      using assms(1) that by (force simp: listed_in_def)+
    then show ?thesis using f [of k] by (simp add: forget_def)
  qed
  then have "listed_in items (forget tok w1)" using assms(1) by (auto simp: listed_in_def)
  ultimately show ?thesis using r by simp
qed

lemma finish_items_reports:
  "finish_items rpc h items w s = (r, w1, s1) \<Longrightarrow> listed_in items w \<Longrightarrow> reports w w1"
proof (induction rpc h items w s arbitrary: r rule: finish_items.induct)
  case (2 rpc h tok ev out items w s)
  obtain a w2 s2 where st: "store_result rpc h tok ev out w s = (a, w2, s2)" by (metis prod_cases3)
  note n = listed_in_next [OF 2(3) st]
  show ?case
  proof (cases a)
    case (Inl e)
    then show ?thesis using 2(2) st n by simp
  next
    case (Inr oc)
    obtain outcome code where oc: "oc = (outcome, code)" by (cases oc)
    obtain b s3 where b: "ask_service rpc w2 (Finish (ev_run_id ev) (ev_offer_id ev) outcome (Some (JInt code))) s2 = (b, s3)"
      by (metis prod.collapse)
    show ?thesis
    proof (cases b)
      case (Inl e)
      then show ?thesis using 2(2) st Inr oc b n by simp
    next
      case ok: (Inr v)
      have "finish_items rpc h items (forget tok w2) s3 = (r, w1, s1)" using 2(2) st Inr oc b ok by simp
      from 2(1) [OF st [symmetric, unfolded Inr oc] refl refl refl b [symmetric, unfolded ok] refl this] n
      show ?thesis using reports_trans by blast
    qed
  qed
qed simp

lemma finish_pending_reports: "finish_pending rpc h w s = (r, w1, s1) \<Longrightarrow> dwf (tw_finishes w) \<Longrightarrow> reports w w1"
  unfolding finish_pending_def by (erule finish_items_reports) (rule listed_in_own)

text \<open>A round of the polling thread reports, and then perhaps admits.\<close>

definition rounds :: "native_call native \<Rightarrow> task_worker \<Rightarrow> native_call native \<Rightarrow> task_worker \<Rightarrow> bool" where
  "rounds q w q1 w1 \<longleftrightarrow> (\<exists>w2. reports w w2 \<and> polls q w2 q1 w1)"

lemma rounds_same: "reports w w1 \<Longrightarrow> rounds q w q w1"
  unfolding rounds_def polls_def by blast

lemma core_dwf: "core_of w1 = core_of w \<Longrightarrow> dwf (tw_finishes w) \<Longrightarrow> dwf (tw_finishes w1)"
  by (simp add: core_of_def)

lemma poll_rounds:
  assumes "poll_once rpc h now p q w s = (r, q1, w1, s1)" "dwf (tw_finishes w)"
  shows "rounds q w q1 w1"
proof -
  obtain a w2 s2 where k: "keep_lease rpc now w s = (a, w2, s2)" by (metis prod_cases3)
  note c2 = lease_core [OF k]
  obtain w3 s3 where i: "call_inbox h now w2 s2 = (w3, s3)" by (metis prod.collapse)
  note c3 = inbox_core [OF i]
  obtain b w4 s4 where f: "finish_pending rpc h w3 s3 = (b, w4, s4)" by (metis prod_cases3)
  have r4: "reports w w4" using finish_pending_reports [OF f] c2 c3 assms(2) core_dwf reports_trans reports_refl by metis
  obtain c w5 s5 where d: "flush_defers rpc w4 s4 = (c, w5, s5)" by (metis prod_cases3)
  have r5: "reports w w5" using flush_core [OF d] r4 reports_trans reports_refl by metis
  have r2: "reports w w2" using c2 by simp
  consider "q1 = q" "w1 = w2" | "q1 = q" "w1 = w4" | "q1 = q" "w1 = w5" | "take_offer rpc h now p q w5 s5 = (r, q1, w1, s1)"
    using assms(1) k i f d by (auto simp: poll_once_def split: sum.splits bool.splits if_splits)
  then show ?thesis
  proof cases
    case 4
    then show ?thesis using r5 take_polls [OF 4] unfolding rounds_def by blast
  qed (use r2 r4 r5 in \<open>simp_all add: rounds_same\<close>)
qed

lemma round_rounds:
  assumes "worker_round rpc h now p q w s = (q1, w1, s1)" "dwf (tw_finishes w)"
  shows "rounds q w q1 w1"
proof -
  obtain a w2 s2 where k: "refresh_display rpc now w s = (a, w2, s2)" by (metis prod_cases3)
  note c = refresh_core [OF k]
  obtain b q3 w3 s3 where p: "poll_once rpc h now p q w2 s2 = (b, q3, w3, s3)" by (metis prod_cases4)
  have "rounds q w2 q3 w3" by (rule poll_rounds [OF p core_dwf [OF c assms(2)]])
  then have "rounds q w q3 w3" using c reports_trans reports_refl unfolding rounds_def by blast
  then show ?thesis using assms(1) k p c by (cases a) (auto simp: worker_round_def intro: rounds_same)
qed


section \<open>What the service sees of a worker\<close>

text \<open>
  A relation on the state behind the socket that every call of a worker and every callback respects is
  respected by every operation of the worker.
\<close>

locale worker_service =
  fixes rpc :: "request \<Rightarrow> 's \<Rightarrow> (client_error + reply) \<times> 's"
    and moves :: "'s \<Rightarrow> 's \<Rightarrow> bool"
    and h :: "'s hooks"
  assumes stays: "moves s s"
    and goes_on: "moves s t \<Longrightarrow> moves t r \<Longrightarrow> moves s r"
    and call_moves: "request_ok q \<Longrightarrow> moves s (snd (rpc q s))"
    and notify_moves: "hk_notify h = Some f \<Longrightarrow> moves s (f result s)"
    and inbox_moves: "hk_inbox h = Some g \<Longrightarrow> moves s (g s)"
begin

lemma asked: "rpc q s = (r, s1) \<Longrightarrow> request_ok q \<Longrightarrow> moves s s1"
  using call_moves [of q s] by simp

lemma ask_moves: "ask_service rpc w q s = (r, s1) \<Longrightarrow> moves s s1"
  unfolding ask_service_def by (erule asked) (simp add: request_ok_def)

lemma refresh_moves: "refresh_display rpc now w s = (r, w1, s1) \<Longrightarrow> moves s s1"
proof -
  assume d: "refresh_display rpc now w s = (r, w1, s1)"
  obtain a s2 where a: "rpc TasksList s = (a, s2)" by (metis prod.collapse)
  obtain b s3 where b: "rpc TaskTimers s2 = (b, s3)" by (metis prod.collapse)
  have m: "moves s s2" "moves s s3"
    using asked [OF a] goes_on [OF asked [OF a] asked [OF b]] by (simp_all add: request_ok_def)
  have "s1 = s \<or> s1 = s2 \<or> s1 = s3"
    using d a b by (auto simp: refresh_display_def display_failed_def Let_def split: if_splits sum.splits reply.splits)
  then show ?thesis using m stays by blast
qed

lemma lease_moves: "keep_lease rpc now w s = (r, w1, s1) \<Longrightarrow> moves s s1"
  by (auto simp: keep_lease_def intro: stays ask_moves split: if_splits prod.splits sum.splits)

lemma hand_over_moves: "call_inbox h now w s = (w1, s1) \<Longrightarrow> moves s s1"
  by (auto simp: call_inbox_def intro: stays inbox_moves split: if_splits option.splits)

lemma store_moves: "store_result rpc h tok ev out w s = (r, w1, s1) \<Longrightarrow> moves s s1"
  by (auto simp: store_result_def Let_def intro: stays ask_moves goes_on [OF ask_moves notify_moves]
      split: option.splits prod.splits sum.splits if_splits)

lemma defer_items_moves: "defer_items rpc items w s = (r, w1, s1) \<Longrightarrow> moves s s1"
proof (induction items arbitrary: w s)
  case (Cons i items)
  obtain tok ev where i: "i = (tok, ev)" by (cases i)
  obtain a s2 where a: "ask_service rpc w (Finish (ev_run_id ev) tok (u ''cancelled'') None) s = (a, s2)" by (metis prod.collapse)
  note m = ask_moves [OF a]
  show ?case
  proof (cases a)
    case (Inl e)
    then show ?thesis using Cons.prems i a m by simp
  next
    case (Inr v)
    then have "defer_items rpc items (w\<lparr>tw_defers := ddel tok (tw_defers w)\<rparr>) s2 = (r, w1, s1)" using Cons.prems i a by simp
    then show ?thesis by (rule goes_on [OF m Cons.IH])
  qed
qed (simp add: stays)

lemma defer_moves: "defer_offer rpc now ev t w s = (r, w1, s1) \<Longrightarrow> moves s s1"
  unfolding defer_offer_def flush_defers_def by (rule defer_items_moves)

lemma flush_moves: "flush_defers rpc w s = (r, w1, s1) \<Longrightarrow> moves s s1"
  unfolding flush_defers_def by (rule defer_items_moves)

lemma refused_moves: "given_back q (defer_offer rpc now ev t w s) = (r, q1, w1, s1) \<Longrightarrow> moves s s1"
  by (auto simp: given_back_def intro: defer_moves split: prod.splits sum.splits)

lemma admit_moves: "admit_offer rpc h now p ev found q w s = (r, q1, w1, s1) \<Longrightarrow> moves s s1"
  by (auto simp: admit_offer_def intro: stays refused_moves split: option.splits if_splits sum.splits)

lemma read_moves: "read_task rpc ev s = (r, s1) \<Longrightarrow> moves s s1"
  by (auto simp: read_task_def request_ok_def intro: stays asked split: option.splits prod.splits sum.splits)

lemma take_moves: "take_offer rpc h now p q w s = (r, q1, w1, s1) \<Longrightarrow> moves s s1"
  by (auto simp: take_offer_def Let_def intro: stays ask_moves goes_on [OF ask_moves read_moves]
      goes_on [OF goes_on [OF ask_moves read_moves] admit_moves]
      split: if_splits prod.splits sum.splits reply.splits)

lemma value_moves: "prepare_event rpc ev t w s = (r, s1) \<Longrightarrow> moves s s1"
  by (auto simp: prepare_event_def request_ok_def intro: asked
      split: prod.splits sum.splits reply.splits if_splits option.splits)

lemma prepare_moves: "prepare_run rpc h now p ev t a w s = (r, w1, s1) \<Longrightarrow> moves s s1"
  by (auto simp: prepare_run_def intro: stays ask_moves goes_on [OF ask_moves ask_moves]
      goes_on [OF goes_on [OF ask_moves ask_moves] value_moves]
      split: if_splits prod.splits sum.splits)

lemma finish_items_moves: "finish_items rpc h items w s = (r, w1, s1) \<Longrightarrow> moves s s1"
proof (induction items arbitrary: w s)
  case (Cons i items)
  obtain tok ev out where i: "i = (tok, ev, out)" by (cases i)
  obtain a w2 s2 where st: "store_result rpc h tok ev out w s = (a, w2, s2)" by (metis prod_cases3)
  show ?case
  proof (cases a)
    case (Inl e)
    then show ?thesis using Cons.prems i st store_moves [OF st] by simp
  next
    case (Inr oc)
    obtain b s3 where b: "ask_service rpc w2 (Finish (ev_run_id ev) (ev_offer_id ev) (fst oc) (Some (JInt (snd oc)))) s2 = (b, s3)"
      by (metis prod.collapse)
    have m: "moves s s3" by (rule goes_on [OF store_moves [OF st] ask_moves [OF b]])
    then show ?thesis using Cons i st Inr b by (cases oc; cases b) (auto intro: goes_on)
  qed
qed (simp add: stays)

lemma finish_moves: "finish_pending rpc h w s = (r, w1, s1) \<Longrightarrow> moves s s1"
  unfolding finish_pending_def by (rule finish_items_moves)

lemma poll_moves: "poll_once rpc h now p q w s = (r, q1, w1, s1) \<Longrightarrow> moves s s1"
proof -
  assume t: "poll_once rpc h now p q w s = (r, q1, w1, s1)"
  obtain a w2 s2 where k: "keep_lease rpc now w s = (a, w2, s2)" by (metis prod_cases3)
  note m2 = lease_moves [OF k]
  obtain w3 s3 where i: "call_inbox h now w2 s2 = (w3, s3)" by (metis prod.collapse)
  note m3 = goes_on [OF m2 hand_over_moves [OF i]]
  obtain b w4 s4 where f: "finish_pending rpc h w3 s3 = (b, w4, s4)" by (metis prod_cases3)
  note m4 = goes_on [OF m3 finish_moves [OF f]]
  obtain c w5 s5 where d: "flush_defers rpc w4 s4 = (c, w5, s5)" by (metis prod_cases3)
  note m5 = goes_on [OF m4 flush_moves [OF d]]
  have "take_offer rpc h now p q w5 s5 = (r, q1, w1, s1) \<Longrightarrow> moves s s1" using goes_on [OF m5 take_moves] by blast
  then show ?thesis using t k i f d m2 m4 m5 by (auto simp: poll_once_def split: sum.splits bool.splits if_splits)
qed

lemma round_moves: "worker_round rpc h now p q w s = (q1, w1, s1) \<Longrightarrow> moves s s1"
proof -
  assume t: "worker_round rpc h now p q w s = (q1, w1, s1)"
  obtain a w2 s2 where k: "refresh_display rpc now w s = (a, w2, s2)" by (metis prod_cases3)
  note m = refresh_moves [OF k]
  obtain b q3 w3 s3 where p: "poll_once rpc h now p q w2 s2 = (b, q3, w3, s3)" by (metis prod_cases4)
  show ?thesis using t k p m goes_on [OF m poll_moves [OF p]] by (cases a) (auto simp: worker_round_def)
qed

lemma close_moves: "close_worker rpc h w s = (r, w1, s1) \<Longrightarrow> moves s s1"
proof -
  assume t: "close_worker rpc h w s = (r, w1, s1)"
  obtain b w4 s4 where f: "finish_pending rpc h (w\<lparr>tw_stop := True, tw_started := False\<rparr>) s = (b, w4, s4)" by (metis prod_cases3)
  note m4 = finish_moves [OF f]
  obtain c w5 s5 where d: "flush_defers rpc w4 s4 = (c, w5, s5)" by (metis prod_cases3)
  note m5 = goes_on [OF m4 flush_moves [OF d]]
  obtain a s6 where o: "ask_service rpc w5 Offline s5 = (a, s6)" by (metis prod.collapse)
  show ?thesis using t f d o m4 m5 goes_on [OF m5 ask_moves [OF o]]
    by (auto simp: close_worker_def split: sum.splits if_splits)
qed

end

section \<open>Ends are reported once the service answers\<close>

text \<open>A service that answers, with the requests it got.\<close>

definition answering :: "(request \<Rightarrow> reply) \<Rightarrow> request list rpc" where
  "answering ans q asked = (Inr (ans q), asked @ [q])"

text \<open>What is asked for one end: its result is stored first, and a refused result cancels the run.\<close>

definition finish_call :: "task_worker \<Rightarrow> sys_event \<Rightarrow> str \<times> int \<Rightarrow> request" where
  "finish_call w ev out =
     WorkerCall (tw_owner w) (tw_peer w) (Finish (ev_run_id ev) (ev_offer_id ev) (fst out) (Some (JInt (snd out))))"

definition end_requests :: "(request \<Rightarrow> reply) \<Rightarrow> task_worker \<Rightarrow> str \<times> sys_event \<times> str \<times> int \<Rightarrow> request list" where
  "end_requests ans w i =
     (case i of (tok, ev, out) \<Rightarrow>
        (case dget (tw_results w) tok of
           None \<Rightarrow> [finish_call w ev out]
         | Some result \<Rightarrow>
             (let q = WorkerCall (tw_owner w) (tw_peer w) (PublishResult (JStr (ev_run_id ev)) (JStr (ev_offer_id ev)) result)
              in [q, finish_call w ev (if granted (ans q) then out else (u ''cancelled'', 1))])))"

lemma end_requests_same:
  assumes "tw_owner w1 = tw_owner w" "tw_peer w1 = tw_peer w" "\<forall>i\<in>set items. dget (tw_results w1) (fst i) = dget (tw_results w) (fst i)"
  shows "map (end_requests ans w1) items = map (end_requests ans w) items"
  using assms by (auto simp: end_requests_def finish_call_def Let_def split: option.split)

lemma one_end_reported:
  assumes "hk_notify h = None"
  obtains w1 where "finish_items (answering ans) h ((tok, ev, out) # items) w asked
      = finish_items (answering ans) h items w1 (asked @ end_requests ans w (tok, ev, out))"
    "tw_owner w1 = tw_owner w" "tw_peer w1 = tw_peer w" "tw_reserved w1 = tw_reserved w"
    "\<forall>k. k \<noteq> tok \<longrightarrow> dget (tw_results w1) k = dget (tw_results w) k"
    "tw_seen w1 = removeAll tok (tw_seen w)" "set (dkeys (tw_finishes w1)) = set (dkeys (tw_finishes w)) - {tok}"
proof -
  have "\<exists>w1. finish_items (answering ans) h ((tok, ev, out) # items) w asked
      = finish_items (answering ans) h items w1 (asked @ end_requests ans w (tok, ev, out))
    \<and> tw_owner w1 = tw_owner w \<and> tw_peer w1 = tw_peer w \<and> tw_reserved w1 = tw_reserved w
    \<and> (\<forall>k. k \<noteq> tok \<longrightarrow> dget (tw_results w1) k = dget (tw_results w) k)
    \<and> tw_seen w1 = removeAll tok (tw_seen w) \<and> set (dkeys (tw_finishes w1)) = set (dkeys (tw_finishes w)) - {tok}"
  proof (cases "dget (tw_results w) tok")
    case None
    then show ?thesis
      by (intro exI [of _ "forget tok w"])
        (cases out, auto simp: store_result_def ask_service_def answering_def end_requests_def finish_call_def forget_def dkeys_ddel)
  next
    case (Some result)
    let ?q = "WorkerCall (tw_owner w) (tw_peer w) (PublishResult (JStr (ev_run_id ev)) (JStr (ev_offer_id ev)) result)"
    let ?out = "if granted (ans ?q) then out else (u ''cancelled'', 1)"
    show ?thesis using Some
      by (intro exI [of _ "forget tok (w\<lparr>tw_results := ddel tok (tw_results w), tw_finishes := dput tok (ev, ?out) (tw_finishes w)\<rparr>)"])
        (cases out, auto simp: store_result_def ask_service_def answering_def end_requests_def finish_call_def forget_def
          dkeys_ddel dkeys_dput Let_def assms)
  qed
  then show ?thesis using that by blast
qed

lemma ends_reported:
  "hk_notify h = None \<Longrightarrow> distinct (map fst items) \<Longrightarrow>
     \<exists>w1. finish_items (answering ans) h items w asked = (Inr True, w1, asked @ concat (map (end_requests ans w) items))
       \<and> tw_reserved w1 = tw_reserved w \<and> tw_seen w1 = filter (\<lambda>k. k \<notin> set (map fst items)) (tw_seen w)
       \<and> set (dkeys (tw_finishes w1)) = set (dkeys (tw_finishes w)) - set (map fst items)"
proof (induction items arbitrary: w asked)
  case Nil
  then show ?case by simp
next
  case (Cons i items)
  obtain tok ev out where i: "i = (tok, ev, out)" by (cases i)
  obtain w1 where w1: "finish_items (answering ans) h ((tok, ev, out) # items) w asked
      = finish_items (answering ans) h items w1 (asked @ end_requests ans w (tok, ev, out))"
    "tw_owner w1 = tw_owner w" "tw_peer w1 = tw_peer w" "tw_reserved w1 = tw_reserved w"
    "\<forall>k. k \<noteq> tok \<longrightarrow> dget (tw_results w1) k = dget (tw_results w) k"
    "tw_seen w1 = removeAll tok (tw_seen w)" "set (dkeys (tw_finishes w1)) = set (dkeys (tw_finishes w)) - {tok}"
    by (rule one_end_reported [OF Cons.prems(1)])
  have "tok \<notin> fst ` set items" using Cons.prems(2) i by simp
  then have "\<forall>j\<in>set items. dget (tw_results w1) (fst j) = dget (tw_results w) (fst j)" using w1(5) by (metis imageI)
  then have same: "map (end_requests ans w1) items = map (end_requests ans w) items"
    by (rule end_requests_same [OF w1(2,3)])
  have d: "distinct (map fst items)" using Cons.prems(2) by simp
  from Cons.IH [OF Cons.prems(1) d, of w1 "asked @ end_requests ans w (tok, ev, out)"]
  obtain w2 where w2: "finish_items (answering ans) h items w1 (asked @ end_requests ans w (tok, ev, out))
      = (Inr True, w2, (asked @ end_requests ans w (tok, ev, out)) @ concat (map (end_requests ans w1) items))"
    "tw_reserved w2 = tw_reserved w1" "tw_seen w2 = filter (\<lambda>k. k \<notin> set (map fst items)) (tw_seen w1)"
    "set (dkeys (tw_finishes w2)) = set (dkeys (tw_finishes w1)) - set (map fst items)" by blast
  have "finish_items (answering ans) h (i # items) w asked = (Inr True, w2, asked @ concat (map (end_requests ans w) (i # items)))"
    using w1(1) w2(1) by (simp add: i same)
  moreover have "tw_seen w2 = filter (\<lambda>k. k \<notin> set (map fst (i # items))) (tw_seen w)"
    by (simp only: w2(3) w1(6) i removeAll_filter_not_eq filter_filter list.map fst_conv set_simps) (rule filter_cong, auto)
  moreover have "set (dkeys (tw_finishes w2)) = set (dkeys (tw_finishes w)) - set (map fst (i # items))"
    by (auto simp: w2(4) w1(7) i)
  ultimately show ?case using w2(2) w1(4) by auto
qed


definition ended_worker :: task_worker where
  "ended_worker = \<lparr>tw_owner = u ''w'', tw_peer = u ''p'', tw_permissions = [(u ''agent_1'', [])], tw_active = [],
     tw_next_inbox = 0, tw_next_heartbeat = 0, tw_next_display = 0, tw_display = [], tw_display_error = None,
     tw_last_runs = [], tw_seen = [u ''o'', u ''n''], tw_reserved = [],
     tw_finishes = [(u ''o'', sample_event\<lparr>ev_offer_id := u ''o''\<rparr>, u ''done'', 0)],
     tw_results = [(u ''o'', JObj [])], tw_deferred = [], tw_defers = [], tw_ready = True, tw_stop = False, tw_started = True\<rparr>"


end
