(* ===== verification/Fleet.thy ===== *)
theory Fleet
  imports WorkerSteps
begin

text \<open>
  Several native workers and the task service they share, over sockets that may lose a request or a
  reply: each worker with its queue of model operations and its manager, the polling threads and the
  model threads in any order, other clients of the service and its clock in between. The invariant
  links what a worker still has to report with the state of the run at the service; on it rests that an
  activation is carried out at most once.
\<close>

section \<open>The service behind the sockets\<close>

type_synonym wire = "drive \<times> (env \<times> delivery) list"

definition drive_wire :: "wire rpc" where
  "drive_wire q s =
     (case snd s of
        [] \<Rightarrow> (Inl Service_unavailable, s)
      | (e, k) # rest \<Rightarrow>
          (let d = fst s;
               r = fst (engine_call (e\<lparr>e_uuid := d_gen d (d_count d) 0\<rparr>) q (d_engine d));
               d1 = drive_step d (DCall e q)
           in case k of
                Request_lost \<Rightarrow> (Inl Service_unavailable, d, rest)
              | Reply_lost \<Rightarrow> (Inl Service_unavailable, d1, rest)
              | Delivered \<Rightarrow> (client_view r, d1, rest)))"

text \<open>The callbacks of the server list results of queries and acknowledge them.\<close>

datatype inbox_call = Inbox_list env json | Inbox_ack env json

definition inbox_call_on :: "drive \<Rightarrow> inbox_call \<Rightarrow> drive" where
  "inbox_call_on d c = (case c of Inbox_list e j \<Rightarrow> drive_step d (DCall e (NotificationsList j))
     | Inbox_ack e j \<Rightarrow> drive_step d (DCall e (NotificationsAck j)))"

record post_env =
  pe_wire :: "(env \<times> delivery) list"
  pe_notify :: "(json \<Rightarrow> inbox_call list) option"
  pe_inbox :: "inbox_call list option"
  pe_blocked :: "str \<Rightarrow> bool"
  pe_stop :: bool

definition hooks_of :: "post_env \<Rightarrow> wire hooks" where
  "hooks_of pe = \<lparr>hk_notify = map_option (\<lambda>f r s. (foldl inbox_call_on (fst s) (f r), snd s)) (pe_notify pe),
     hk_inbox = map_option (\<lambda>cs s. (foldl inbox_call_on (fst s) cs, snd s)) (pe_inbox pe),
     hk_blocked = pe_blocked pe, hk_stop = pe_stop pe\<rparr>"

section \<open>Workers with their queues and managers\<close>

record post =
  po_worker :: task_worker
  po_queue :: "native_call native"
  po_manager :: native_manager
  po_current :: "(sys_event \<times> task \<times> str \<times> str) option"

record fleet =
  fl_posts :: "post list"
  fl_drive :: drive

datatype fleet_op =
    Service drive_op
  | Poll_round nat post_env rat
  | Start_job nat post_env rat
  | End_job nat model_env rat
  | Stop_post nat post_env
  | Submit_other nat str native_call bool
  | Manage nat "native_manager \<Rightarrow> native_manager"

definition round_post :: "post_env \<Rightarrow> rat \<Rightarrow> post \<Rightarrow> drive \<Rightarrow> post \<times> drive" where
  "round_post pe now p d =
     (case worker_round drive_wire (hooks_of pe) now (nm_pool (po_manager p)) (po_queue p) (po_worker p) (d, pe_wire pe) of
        (q, w, d1, ws) \<Rightarrow> (p\<lparr>po_worker := w, po_queue := q\<rparr>, d1))"

text \<open>
  The model thread takes the next operation. A saved task is followed up to the call of its agent; the
  run is then carried out, and its identifier is put on record. Other operations change the manager
  in steps of their own.
\<close>

definition begin_saved ::
  "post_env \<Rightarrow> rat \<Rightarrow> sys_event \<times> task \<times> str \<Rightarrow> post \<Rightarrow> drive \<Rightarrow> str list \<times> post \<times> drive" where
  "begin_saved pe now todo p d =
     (case todo of (ev, t, a) \<Rightarrow>
       (case prepare_run drive_wire (hooks_of pe) now (nm_pool (po_manager p)) ev t a (po_worker p) (d, pe_wire pe) of
          (To_agent instr, w, d1, ws) \<Rightarrow> ([ev_run_id ev], p\<lparr>po_worker := w, po_current := Some (ev, t, a, instr)\<rparr>, d1)
        | (stage, w, d1, ws) \<Rightarrow>
            ([], p\<lparr>po_worker := stop_before now ev a stage w, po_queue := op_done (po_queue p)\<rparr>, d1)))"

definition start_post :: "post_env \<Rightarrow> rat \<Rightarrow> post \<Rightarrow> drive \<Rightarrow> str list \<times> post \<times> drive" where
  "start_post pe now p d =
     (if po_current p \<noteq> None then ([], p, d)
      else (case take_op (po_queue p) of
              None \<Rightarrow> ([], p, d)
            | Some (op, q) \<Rightarrow>
                (case op_callback op of
                   Run_saved ev t a \<Rightarrow> begin_saved pe now (ev, t, a) (p\<lparr>po_queue := q\<rparr>) d
                 | _ \<Rightarrow> ([], p\<lparr>po_queue := op_done q\<rparr>, d))))"

definition end_post :: "model_env \<Rightarrow> rat \<Rightarrow> post \<Rightarrow> post" where
  "end_post e wall p =
     (case po_current p of
        None \<Rightarrow> p
      | Some (ev, t, a, instr) \<Rightarrow>
          (case manager_run_agent e a instr (po_manager p) of
             (r, m) \<Rightarrow> p\<lparr>po_manager := m, po_worker := after_agent wall ev t a r (po_worker p),
                         po_queue := op_done (po_queue p), po_current := None\<rparr>))"

text \<open>The server closes the queue, waits for the model thread, and closes the worker.\<close>

definition stop_post :: "post_env \<Rightarrow> post \<Rightarrow> drive \<Rightarrow> post \<times> drive" where
  "stop_post pe p d =
     (if po_current p \<noteq> None then (p, d)
      else (case close_worker drive_wire (hooks_of pe) (po_worker p) (d, pe_wire pe) of
              (r, w, d1, ws) \<Rightarrow> (p\<lparr>po_worker := w, po_queue := close_native (po_queue p)\<rparr>, d1)))"

definition submit_post :: "str \<Rightarrow> native_call \<Rightarrow> bool \<Rightarrow> post \<Rightarrow> post" where
  "submit_post kind c goes_on p =
     (case submit_op kind c goes_on (po_queue p) of Inl _ \<Rightarrow> p | Inr q \<Rightarrow> p\<lparr>po_queue := q\<rparr>)"

definition at_post ::
  "nat \<Rightarrow> (post \<Rightarrow> drive \<Rightarrow> str list \<times> post \<times> drive) \<Rightarrow> fleet \<Rightarrow> str list \<times> fleet" where
  "at_post i f fl =
     (if i < length (fl_posts fl) then
        (case f (fl_posts fl ! i) (fl_drive fl) of
           (begun, p, d) \<Rightarrow> (begun, \<lparr>fl_posts = (fl_posts fl)[i := p], fl_drive = d\<rparr>))
      else ([], fl))"

text \<open>One step; the first component names the runs whose agent was called.\<close>

definition fleet_do :: "fleet \<Rightarrow> fleet_op \<Rightarrow> str list \<times> fleet" where
  "fleet_do fl op =
     (case op of
        Service o' \<Rightarrow> ([], fl\<lparr>fl_drive := drive_step (fl_drive fl) o'\<rparr>)
      | Poll_round i pe now \<Rightarrow> at_post i (\<lambda>p d. ([], round_post pe now p d)) fl
      | Start_job i pe now \<Rightarrow> at_post i (start_post pe now) fl
      | End_job i e wall \<Rightarrow> at_post i (\<lambda>p d. ([], end_post e wall p, d)) fl
      | Stop_post i pe \<Rightarrow> at_post i (\<lambda>p d. ([], stop_post pe p d)) fl
      | Submit_other i kind c goes_on \<Rightarrow> at_post i (\<lambda>p d. ([], submit_post kind c goes_on p, d)) fl
      | Manage i f \<Rightarrow> at_post i (\<lambda>p d. ([], p\<lparr>po_manager := f (po_manager p)\<rparr>, d)) fl)"

definition fleet_step :: "fleet \<times> str list \<Rightarrow> fleet_op \<Rightarrow> fleet \<times> str list" where
  "fleet_step st op = (case fleet_do (fst st) op of (begun, fl) \<Rightarrow> (fl, snd st @ begun))"

text \<open>Saved tasks come to the queue only through the worker; the service is asked in its own terms.\<close>

definition fleet_op_ok :: "fleet_op \<Rightarrow> bool" where
  "fleet_op_ok op =
     (case op of
        Service (DCall e q) \<Rightarrow> request_ok q
      | Submit_other i kind c goes_on \<Rightarrow> (\<forall>ev t a. c \<noteq> Run_saved ev t a)
      | _ \<Rightarrow> True)"

section \<open>Calls move the service on\<close>

definition drive_moves :: "wire \<Rightarrow> wire \<Rightarrow> bool" where
  "drive_moves s s1 \<longleftrightarrow> (drive_ok (fst s) \<longrightarrow> drive_ok (fst s1) \<and> drive_rel (fst s) (fst s1))"

lemma drive_rel_trans: "drive_rel a b \<Longrightarrow> drive_rel b c \<Longrightarrow> drive_rel a c"
  by (rule drive_runs.rel_trans)

lemma drive_moves_step: "op_ok d op \<Longrightarrow> drive_ok d \<Longrightarrow> drive_ok (drive_step d op) \<and> drive_rel d (drive_step d op)"
  by (simp add: drive_step_ok drive_step_rel)

lemma inbox_calls_move: "drive_ok d \<Longrightarrow> drive_ok (foldl inbox_call_on d cs) \<and> drive_rel d (foldl inbox_call_on d cs)"
proof (induction cs arbitrary: d)
  case Nil
  then show ?case by (simp add: drive_runs.rel_refl)
next
  case (Cons c cs)
  have "drive_ok (inbox_call_on d c) \<and> drive_rel d (inbox_call_on d c)"
    using Cons.prems by (cases c) (simp_all add: inbox_call_on_def drive_moves_step op_ok_def request_ok_def del: drive_step.simps)
  then show ?case using Cons.IH [of "inbox_call_on d c"] drive_rel_trans by auto
qed

interpretation wired: worker_service drive_wire drive_moves "hooks_of pe" for pe
proof
  show "drive_moves s s" for s by (simp add: drive_moves_def drive_runs.rel_refl)
  show "drive_moves s t \<Longrightarrow> drive_moves t r \<Longrightarrow> drive_moves s r" for s t r
    by (auto simp: drive_moves_def intro: drive_rel_trans)
  show "drive_moves s (snd (drive_wire q s))" if "request_ok q" for q s
    using that drive_moves_step [of "fst s" "DCall e q" for e]
    by (auto simp: drive_moves_def drive_wire_def Let_def op_ok_def drive_runs.rel_refl simp del: drive_step.simps
        split: list.split delivery.split)
  show "drive_moves s (f result s)" if "hk_notify (hooks_of pe) = Some f" for f result s
    using that inbox_calls_move by (auto simp: drive_moves_def hooks_of_def)
  show "drive_moves s (g s)" if "hk_inbox (hooks_of pe) = Some g" for g s
    using that inbox_calls_move by (auto simp: drive_moves_def hooks_of_def)
qed

end
