(* ===== verification/FleetSteps.thy ===== *)
theory FleetSteps
  imports Fleet
begin

text \<open>
  What a native worker still has to report is matched with the state of the run at the service: a call
  that begins or finishes a run, the report of the ends that wait, a round of polling and the closing of
  a worker keep the match, whatever requests and replies are lost.
\<close>

section \<open>Runs at the service\<close>

abbreviation runs_of :: "drive \<Rightarrow> (str, run) dict" where
  "runs_of d \<equiv> en_runs (d_engine d)"

definition known :: "drive \<Rightarrow> str \<Rightarrow> bool" where
  "known d k \<longleftrightarrow> (\<exists>n i. n < d_count d \<and> k = d_gen d n i)"

lemma known_run: "drive_ok d \<Longrightarrow> dget (runs_of d) k = Some r \<Longrightarrow> known d k"
  by (auto simp: drive_ok_def known_def)

lemma known_later: "drive_rel d d1 \<Longrightarrow> known d k \<Longrightarrow> known d1 k"
  unfolding known_def drive_rel_def by (metis less_le_trans)

lemma known_not_drawn: "drive_ok d \<Longrightarrow> known d k \<Longrightarrow> k \<notin> drawn_from d (d_count d)"
proof
  assume ok: "drive_ok d" and k: "known d k" and dr: "k \<in> drawn_from d (d_count d)"
  obtain m i where m: "d_count d \<le> m" "k = d_gen d m i" using dr by (auto simp: drawn_from_def)
  obtain n j where n: "n < d_count d" "k = d_gen d n j" using k by (auto simp: known_def)
  have "(n, j) = (m, i)" using ok m(2) n(2) injD [of "\<lambda>(n, i). d_gen d n i" "(n, j)" "(m, i)"]
    by (simp add: drive_ok_def never_repeats_def)
  then show False using m(1) n(1) by simp
qed

lemma run_before:
  assumes "drive_ok d" "drive_rel d d1" "known d k" "dget (runs_of d1) k = Some r1"
  shows "\<exists>r. dget (runs_of d) k = Some r \<and> run_moves r r1"
  using assms known_not_drawn [OF assms(1,3)] by (auto simp: drive_rel_def follows_def)

definition same_holder :: "run \<Rightarrow> run \<Rightarrow> bool" where
  "same_holder r r1 \<longleftrightarrow> r_state r1 = Running \<and> r_owner r1 = r_owner r \<and> r_peer r1 = r_peer r \<and> r_event r1 = r_event r"

lemma running_moves: "run_moves r r1 \<Longrightarrow> r_state r = Running \<Longrightarrow> terminal (r_state r1) \<or> same_holder r r1"
proof (induction rule: rtranclp_induct)
  case base
  then show ?case by (simp add: same_holder_def)
next
  case (step b c)
  show ?case
  proof (cases "terminal (r_state b)")
    case True
    have "settled b" using terminal_not_occupied [OF True] by (simp add: settled_def)
    then show ?thesis using run_move_kept [OF step(2)] True by (simp add: kept_def)
  next
    case False
    then have "same_holder r b" using step by simp
    with step(2) show ?thesis by (auto simp: same_holder_def elim!: run_moveE)
  qed
qed

lemma terminal_moves: "run_moves r r1 \<Longrightarrow> terminal (r_state r) \<Longrightarrow> r1 = r"
  using run_moves_kept [of r r1] by (auto simp: settled_def kept_def terminal_def)

section \<open>Calls that begin and finish a run\<close>

lemma wire_delivered:
  assumes "drive_wire q (d, ws) = (Inr v, d1, ws1)"
  shows "\<exists>e. fst (dispatch e q (d_engine d)) = Inr v \<and> runs_of d1 = en_runs (snd (dispatch e q (d_engine d)))"
proof -
  obtain e k rest where ws: "ws = (e, k) # rest" using assms by (cases ws) (auto simp: drive_wire_def)
  let ?e = "e\<lparr>e_uuid := d_gen d (d_count d) 0\<rparr>"
  have c: "fst (engine_call ?e q (d_engine d)) = Inr v" "d_engine d1 = snd (engine_call ?e q (d_engine d))"
    using assms by (auto simp: ws drive_wire_def Let_def client_view_def split: delivery.splits sum.splits engine_error.splits)
  then show ?thesis using call_effect [OF c(1)] by auto
qed

lemma reconciled_kept:
  assumes "r_state (reconcile_run e en r) = Offered \<or> r_state (reconcile_run e en r) = Running"
  shows "reconcile_run e en r = r"
  using assms by (auto simp: reconcile_run_def split: if_splits)

lemma begin_grants:
  assumes "drive_wire (WorkerCall owner peer (Begin k tok)) (d, ws) = (Inr v, d1, ws1)" "granted v" "drive_ok d"
  shows "\<exists>r. dget (runs_of d) k = Some r \<and> (r_state r = Offered \<or> r_state r = Running)
    \<and> r_owner r = owner \<and> r_peer r = peer \<and> ev_offer_id (r_event r) = tok
    \<and> dget (runs_of d1) k = Some (r\<lparr>r_state := Running\<rparr>)"
proof -
  obtain e where e: "fst (dispatch e (WorkerCall owner peer (Begin k tok)) (d_engine d)) = Inr v"
      "runs_of d1 = en_runs (snd (dispatch e (WorkerCall owner peer (Begin k tok)) (d_engine d)))"
    using wire_delivered [OF assms(1)] by blast
  let ?en = "reconcile e (d_engine d)"
  have wf: "dwf (runs_of d)" using assms(3) engine_okD(6) by (simp add: drive_ok_def)
  obtain r0 where a: "addressed owner peer k tok ?en = Some r0" and p: "peer \<noteq> []" "owner \<noteq> []"
    using e(1) assms(2) by (auto simp: dispatch_def worker_call_def Let_def granted_def split: if_splits option.splits prod.splits)
  have b: "v = fst (begin_run k r0 ?en)" "runs_of d1 = en_runs (snd (begin_run k r0 ?en))"
    using e a p by (auto simp: dispatch_def worker_call_def Let_def split: prod.splits)
  have g: "dget (en_runs ?en) k = Some r0" "r_owner r0 = owner" "r_peer r0 = peer" "ev_offer_id (r_event r0) = tok"
    using a by (auto simp: addressed_def split: option.splits if_splits)
  have st: "r_state r0 = Offered \<or> r_state r0 = Running" "runs_of d1 = dput k (r0\<lparr>r_state := Running\<rparr>) (en_runs ?en)"
    using b assms(2) by (auto simp: begin_run_def granted_def set_run_def split: if_splits)
  obtain r where r: "dget (runs_of d) k = Some r" "r0 = reconcile_run e (d_engine d) r" using dget_reconcile [OF wf g(1)] by blast
  have "r0 = r" using reconciled_kept [of e "d_engine d" r] st(1) r(2) by simp
  then show ?thesis using r(1) g st by auto
qed

lemma finish_settles:
  assumes "drive_wire (WorkerCall owner peer (Finish k tok out given)) (d, ws) = (Inr v, d1, ws1)" "drive_ok d"
    and "dget (runs_of d) k = Some r" "r_state r = Running" "r_owner r = owner" "r_peer r = peer" "ev_offer_id (r_event r) = tok"
    and "dget (runs_of d1) k = Some r1"
  shows "terminal (r_state r1)"
proof -
  obtain e where e: "fst (dispatch e (WorkerCall owner peer (Finish k tok out given)) (d_engine d)) = Inr v"
      "runs_of d1 = en_runs (snd (dispatch e (WorkerCall owner peer (Finish k tok out given)) (d_engine d)))"
    using wire_delivered [OF assms(1)] by blast
  let ?en = "reconcile e (d_engine d)"
  have wf: "dwf (runs_of d)" using assms(2) engine_okD(6) by (simp add: drive_ok_def)
  have p: "peer \<noteq> []" "owner \<noteq> []" using e(1) by (auto simp: dispatch_def worker_call_def split: if_splits)
  show ?thesis
  proof (cases "addressed owner peer k tok ?en")
    case None
    then have "runs_of d1 = en_runs ?en" using e p by (simp add: dispatch_def worker_call_def Let_def)
    then have "r1 = reconcile_run e (d_engine d) r" using dget_reconcile [OF wf] assms(3,8) by fastforce
    moreover have "r1 \<noteq> r" using None assms(5-8) \<open>runs_of d1 = en_runs ?en\<close> by (auto simp: addressed_def)
    ultimately show ?thesis using assms(4) by (auto simp: reconcile_run_def split: if_splits)
  next
    case (Some r0)
    then have f: "fst (finish_run k r0 out given ?en) = Inr v" "runs_of d1 = en_runs (snd (finish_run k r0 out given ?en))"
      using e p by (simp_all add: dispatch_def worker_call_def Let_def)
    have g: "dget (en_runs ?en) k = Some r0" using Some by (auto simp: addressed_def split: option.splits if_splits)
    have r0: "r0 = reconcile_run e (d_engine d) r" using dget_reconcile [OF wf g] assms(3) by auto
    have "r_state r0 \<noteq> Offered" using assms(4) r0 by (auto simp: reconcile_run_def)
    then show ?thesis using f g assms(8)
      by (auto simp: finish_run_def set_run_def outcome_state_def split: if_splits sum.splits)
  qed
qed

section \<open>Runs a worker has carried out\<close>

text \<open>An end that waits is filed under the token of its event.\<close>

definition finishes_ok :: "task_worker \<Rightarrow> bool" where
  "finishes_ok w \<longleftrightarrow> dwf (tw_finishes w) \<and> (\<forall>k ev out. dget (tw_finishes w) k = Some (ev, out) \<longrightarrow> ev_offer_id ev = k)"

text \<open>
  The service knows the run, and either it is over, or this worker holds it and will report its end.
\<close>

definition to_report :: "task_worker \<Rightarrow> str \<Rightarrow> run \<Rightarrow> bool" where
  "to_report w rid r \<longleftrightarrow> r_owner r = tw_owner w \<and> r_peer r = tw_peer w
     \<and> (\<exists>ev. map_option fst (dget (tw_finishes w) (ev_offer_id (r_event r))) = Some ev \<and> ev_run_id ev = rid)"

definition traced :: "(run \<Rightarrow> bool) \<Rightarrow> drive \<Rightarrow> str \<Rightarrow> bool" where
  "traced T d rid \<longleftrightarrow> known d rid \<and> (\<forall>r. dget (runs_of d) rid = Some r \<longrightarrow> terminal (r_state r) \<or> r_state r = Running \<and> T r)"

abbreviation reported :: "task_worker \<Rightarrow> drive \<Rightarrow> str \<Rightarrow> bool" where
  "reported w d rid \<equiv> traced (to_report w rid) d rid"

lemma finishes_ok_iff:
  "finishes_ok w \<longleftrightarrow> dwf (tw_finishes w)
     \<and> (\<forall>k ev. map_option fst (dget (tw_finishes w) k) = Some ev \<longrightarrow> ev_offer_id ev = k)"
  by (auto simp: finishes_ok_def)

lemma finishes_ok_reports:
  assumes "reports w w1" "finishes_ok w"
  shows "finishes_ok w1"
proof -
  have "ev_offer_id ev = k" if "map_option fst (dget (tw_finishes w1) k) = Some ev" for k ev
  proof -
    obtain F where "map_option fst (dget (tw_finishes w1) k) = (if k \<in> F then None else map_option fst (dget (tw_finishes w) k))"
      using assms(1) by (auto simp: reports_def)
    with that have "map_option fst (dget (tw_finishes w) k) = Some ev" by (simp split: if_splits)
    then show ?thesis using assms(2) by (simp add: finishes_ok_iff)
  qed
  then show ?thesis using assms by (simp add: finishes_ok_iff reports_def)
qed

lemma traced_moves:
  assumes "traced T d rid" "drive_rel d d1" "drive_ok d" "\<And>r r1. T r \<Longrightarrow> same_holder r r1 \<Longrightarrow> T1 r1"
  shows "traced T1 d1 rid"
proof -
  have k: "known d rid" using assms(1) by (simp add: traced_def)
  have "terminal (r_state r1) \<or> r_state r1 = Running \<and> T1 r1" if r1: "dget (runs_of d1) rid = Some r1" for r1
  proof -
    obtain r where r: "dget (runs_of d) rid = Some r" "run_moves r r1"
      using run_before [OF assms(3,2) k r1] by blast
    show ?thesis
    proof (cases "terminal (r_state r)")
      case True
      then show ?thesis using terminal_moves [OF r(2)] by simp
    next
      case False
      then have "r_state r = Running" "T r" using assms(1) r(1) by (auto simp: traced_def)
      then show ?thesis using running_moves [OF r(2)] assms(4) by (auto simp: same_holder_def)
    qed
  qed
  then show ?thesis using known_later [OF assms(2) k] by (simp add: traced_def)
qed

lemma reported_moves:
  assumes "reported w (fst s) rid" "drive_moves s s1" "drive_ok (fst s)"
    and "\<And>r. to_report w rid r \<Longrightarrow> to_report w1 rid r"
  shows "reported w1 (fst s1) rid"
  by (rule traced_moves [OF assms(1) _ assms(3)]) (use assms in \<open>auto simp: drive_moves_def to_report_def same_holder_def\<close>)

lemma reported_core: "reported w (fst s) rid \<Longrightarrow> drive_moves s s1 \<Longrightarrow> drive_ok (fst s) \<Longrightarrow> core_of w1 = core_of w \<Longrightarrow>
    reported w1 (fst s1) rid"
  by (erule reported_moves) (auto simp: core_of_def to_report_def)

lemma store_keeps:
  assumes "store_result rpc h tok ev out w s = (r, w1, s1)" "listed_in ((tok, ev, out) # items) w"
  shows "tw_owner w1 = tw_owner w" "tw_peer w1 = tw_peer w"
    "map_option fst (dget (tw_finishes w1) k) = map_option fst (dget (tw_finishes w) k)"
  using assms
  by (auto simp: store_result_def Let_def listed_in_def split: option.splits prod.splits sum.splits)

lemma finish_one_reported:
  assumes "ask_service drive_wire w (Finish (ev_run_id ev) (ev_offer_id ev) out (Some c)) s = (Inr v, s1)"
    and "reported w (fst s) rid" "drive_ok (fst s)"
    and "map_option fst (dget (tw_finishes w) tok) = Some ev" "ev_offer_id ev = tok"
  shows "reported (forget tok w) (fst s1) rid"
proof -
  have mv: "drive_moves s s1" by (rule wired.ask_moves [OF assms(1)])
  then have m: "drive_rel (fst s) (fst s1)" using assms(3) by (simp add: drive_moves_def)
  have k: "known (fst s) rid" using assms(2) by (simp add: traced_def)
  have "terminal (r_state r1) \<or> r_state r1 = Running \<and> to_report (forget tok w) rid r1" if r1: "dget (runs_of (fst s1)) rid = Some r1" for r1
  proof -
    obtain r where r: "dget (runs_of (fst s)) rid = Some r" "run_moves r r1"
      using run_before [OF assms(3) m k r1] by blast
    show ?thesis
    proof (cases "terminal (r_state r)")
      case True
      then show ?thesis using terminal_moves [OF r(2)] by simp
    next
      case False
      then have t: "to_report w rid r" "r_state r = Running" using assms(2) r(1) by (auto simp: traced_def)
      show ?thesis
      proof (cases "ev_offer_id (r_event r) = tok")
        case True
        then have e: "ev_run_id ev = rid" using t assms(4) by (auto simp: to_report_def)
        have a: "drive_wire (WorkerCall (tw_owner w) (tw_peer w) (Finish rid tok out (Some c))) (fst s, snd s) = (Inr v, fst s1, snd s1)"
          using assms(1,5) e by (simp add: ask_service_def)
        show ?thesis using finish_settles [OF a assms(3) r(1) _ _ _ True r1] t by (simp add: to_report_def)
      next
        case other: False
        consider "terminal (r_state r1)" | "same_holder r r1" using running_moves [OF r(2)] t by (auto simp: to_report_def)
        then show ?thesis using t other by cases (auto simp: to_report_def same_holder_def forget_def)
      qed
    qed
  qed
  then show ?thesis using known_later [OF m k] by (simp add: traced_def)
qed

lemma finish_items_reported:
  "finish_items drive_wire (hooks_of pe) items w s = (r, w1, s1) \<Longrightarrow> listed_in items w \<Longrightarrow> finishes_ok w \<Longrightarrow>
     drive_ok (fst s) \<Longrightarrow> reported w (fst s) rid \<Longrightarrow> reported w1 (fst s1) rid"
proof (induction items arbitrary: w s)
  case Nil
  then show ?case by simp
next
  case (Cons i items)
  obtain tok ev out where i: "i = (tok, ev, out)" by (cases i)
  obtain a w2 s2 where st: "store_result drive_wire (hooks_of pe) tok ev out w s = (a, w2, s2)" by (metis prod_cases3)
  note li = Cons.prems(2) [unfolded i]
  note kept = store_keeps [OF st li] and n = listed_in_next [OF li st]
  have mv: "drive_moves s s2" by (rule wired.store_moves [OF st])
  have ok2: "drive_ok (fst s2)" using mv Cons.prems(4) by (simp add: drive_moves_def)
  have r2: "reported w2 (fst s2) rid"
    by (rule reported_moves [OF Cons.prems(5) mv Cons.prems(4)]) (simp add: to_report_def kept)
  show ?case
  proof (cases a)
    case (Inl e)
    then show ?thesis using Cons.prems(1) i st r2 by (simp split: if_splits)
  next
    case (Inr oc)
    obtain outcome code where oc: "oc = (outcome, code)" by (cases oc)
    obtain b s3 where b: "ask_service drive_wire w2 (Finish (ev_run_id ev) (ev_offer_id ev) outcome (Some (JInt code))) s2 = (b, s3)"
      by (metis prod.collapse)
    have mv3: "drive_moves s2 s3" by (rule wired.ask_moves [OF b])
    show ?thesis
    proof (cases b)
      case (Inl e)
      then show ?thesis using Cons.prems(1) i st Inr oc b reported_core [OF r2 mv3 ok2, of w2] by (simp split: if_splits)
    next
      case ok: (Inr v)
      have fw: "finishes_ok w2" using finishes_ok_reports n Cons.prems(3) by blast
      have e: "map_option fst (dget (tw_finishes w2) tok) = Some ev" using li by (simp add: kept listed_in_def)
      then have tok: "ev_offer_id ev = tok" using fw by (simp add: finishes_ok_iff)
      have r3: "reported (forget tok w2) (fst s3) rid" by (rule finish_one_reported [OF b [unfolded ok] r2 ok2 e tok])
      have "finish_items drive_wire (hooks_of pe) items (forget tok w2) s3 = (r, w1, s1)"
        using Cons.prems(1) i st Inr oc b ok by simp
      moreover have "finishes_ok (forget tok w2)" using n finishes_ok_reports Cons.prems(3) by blast
      moreover have "drive_ok (fst s3)" using mv3 ok2 by (simp add: drive_moves_def)
      ultimately show ?thesis using Cons.IH n r3 by blast
    qed
  qed
qed

text \<open>The same over whole operations of the worker.\<close>

definition matched :: "task_worker \<Rightarrow> wire \<Rightarrow> str \<Rightarrow> bool" where
  "matched w s rid \<longleftrightarrow> drive_ok (fst s) \<and> finishes_ok w \<and> reported w (fst s) rid"

lemma matched_moves:
  assumes "matched w s rid" "drive_moves s s1" "tw_owner w1 = tw_owner w" "tw_peer w1 = tw_peer w" "tw_finishes w1 = tw_finishes w"
  shows "matched w1 s1 rid"
  using assms reported_moves [of w rid s s1 w1]
  by (auto simp: matched_def drive_moves_def finishes_ok_def to_report_def)

lemma matched_core: "matched w s rid \<Longrightarrow> drive_moves s s1 \<Longrightarrow> core_of w1 = core_of w \<Longrightarrow> matched w1 s1 rid"
  by (erule matched_moves) (simp_all add: core_of_def)

lemma matched_pending:
  assumes "matched w s rid" "finish_pending drive_wire (hooks_of pe) w s = (r, w1, s1)"
  shows "matched w1 s1 rid"
proof -
  have dwf: "dwf (tw_finishes w)" using assms(1) by (simp add: matched_def finishes_ok_def)
  have "reported w1 (fst s1) rid"
    using finish_items_reported [OF assms(2) [unfolded finish_pending_def] listed_in_own [OF dwf]] assms(1) by (simp add: matched_def)
  then show ?thesis
    using assms(1) wired.finish_moves [OF assms(2)] finishes_ok_reports [OF finish_pending_reports [OF assms(2) dwf]]
    by (simp add: matched_def drive_moves_def)
qed

lemma polls_finishes: "polls q w q1 w1 \<Longrightarrow> tw_owner w1 = tw_owner w \<and> tw_peer w1 = tw_peer w \<and> tw_finishes w1 = tw_finishes w"
  by (auto simp: polls_def admits_def core_of_def)

lemma matched_poll:
  assumes "poll_once drive_wire (hooks_of pe) now p q w s = (r, q1, w1, s1)" "matched w s rid"
  shows "matched w1 s1 rid"
proof -
  let ?h = "hooks_of pe"
  obtain a w2 s2 where k: "keep_lease drive_wire now w s = (a, w2, s2)" by (metis prod_cases3)
  have m2: "matched w2 s2 rid" by (rule matched_core [OF assms(2) wired.lease_moves [OF k] lease_core [OF k]])
  obtain w3 s3 where i: "call_inbox ?h now w2 s2 = (w3, s3)" by (metis prod.collapse)
  have m3: "matched w3 s3 rid" by (rule matched_core [OF m2 wired.hand_over_moves [OF i] inbox_core [OF i]])
  obtain b w4 s4 where f: "finish_pending drive_wire ?h w3 s3 = (b, w4, s4)" by (metis prod_cases3)
  have m4: "matched w4 s4 rid" by (rule matched_pending [OF m3 f])
  obtain c w5 s5 where d: "flush_defers drive_wire w4 s4 = (c, w5, s5)" by (metis prod_cases3)
  have m5: "matched w5 s5 rid" by (rule matched_core [OF m4 wired.flush_moves [OF d] flush_core [OF d]])
  have m6: "matched w1 s1 rid" if t: "take_offer drive_wire ?h now p q w5 s5 = (r, q1, w1, s1)"
    using matched_moves [OF m5 wired.take_moves [OF t]] polls_finishes [OF take_polls [OF t]] by blast
  show ?thesis using assms(1) k i f d m2 m4 m5 m6 by (auto simp: poll_once_def split: sum.splits bool.splits if_splits)
qed

lemma matched_round:
  assumes "worker_round drive_wire (hooks_of pe) now p q w s = (q1, w1, s1)" "matched w s rid"
  shows "matched w1 s1 rid"
proof -
  obtain a w2 s2 where k: "refresh_display drive_wire now w s = (a, w2, s2)" by (metis prod_cases3)
  have m2: "matched w2 s2 rid" by (rule matched_core [OF assms(2) wired.refresh_moves [OF k] refresh_core [OF k]])
  obtain b q3 w3 s3 where p: "poll_once drive_wire (hooks_of pe) now p q w2 s2 = (b, q3, w3, s3)" by (metis prod_cases4)
  show ?thesis using assms(1) k p m2 matched_poll [OF p m2] by (cases a) (auto simp: worker_round_def)
qed

lemma matched_close:
  assumes "close_worker drive_wire (hooks_of pe) w s = (r, w1, s1)" "matched w s rid"
  shows "matched w1 s1 rid"
proof -
  let ?w = "w\<lparr>tw_stop := True, tw_started := False\<rparr>"
  have m: "matched ?w s rid" by (rule matched_core [OF assms(2) wired.stays]) (simp add: core_of_def)
  obtain b w4 s4 where f: "finish_pending drive_wire (hooks_of pe) ?w s = (b, w4, s4)" by (metis prod_cases3)
  have m4: "matched w4 s4 rid" by (rule matched_pending [OF m f])
  obtain c w5 s5 where d: "flush_defers drive_wire w4 s4 = (c, w5, s5)" by (metis prod_cases3)
  have m5: "matched w5 s5 rid" by (rule matched_core [OF m4 wired.flush_moves [OF d] flush_core [OF d]])
  obtain a s6 where o: "ask_service drive_wire w5 Offline s5 = (a, s6)" by (metis prod.collapse)
  have m6: "matched w6 s6 rid" if "core_of w6 = core_of w5" for w6
    by (rule matched_core [OF m5 wired.ask_moves [OF o] that])
  show ?thesis using assms(1) f d o m4 m5 m6
    by (auto simp: close_worker_def core_of_def split: sum.splits if_splits)
qed

end
