(* ===== verification/FleetProps.thy ===== *)
theory FleetProps
  imports FleetSteps
begin

text \<open>
  A fleet of native workers carries out every activation at most once, over every interleaving of their
  threads, the other clients of the service and its clock, and every loss of requests and replies.
\<close>

section \<open>Jobs of a post\<close>

type_synonym saved_job = "sys_event \<times> task \<times> str"

definition job_of :: "native_call operation \<Rightarrow> saved_job list" where
  "job_of op = (case op_callback op of Run_saved ev t a \<Rightarrow> [(ev, t, a)] | _ \<Rightarrow> [])"

definition queued_jobs :: "native_call native \<Rightarrow> saved_job list" where
  "queued_jobs q = concat (map job_of (nq_queue q))"

definition current_job :: "post \<Rightarrow> saved_job list" where
  "current_job p = (case po_current p of None \<Rightarrow> [] | Some (ev, t, a, instr) \<Rightarrow> [(ev, t, a)])"

definition job_token :: "saved_job \<Rightarrow> str" where "job_token j = ev_offer_id (fst j)"
definition job_agent :: "saved_job \<Rightarrow> str" where "job_agent j = snd (snd j)"

lemma job_simps [simp]: "job_token (ev, t, a) = ev_offer_id ev" "job_agent (ev, t, a) = a"
  by (simp_all add: job_token_def job_agent_def)

lemma queued_done [simp]: "queued_jobs (op_done q) = queued_jobs q" "queued_jobs (close_native q) = []"
  by (simp_all add: queued_jobs_def op_done_def close_native_def)

lemma queued_submit:
  "submit_op kind c goes_on q = Inr q1 \<Longrightarrow>
     queued_jobs q1 = queued_jobs q @ (case c of Run_saved ev t a \<Rightarrow> [(ev, t, a)] | _ \<Rightarrow> [])"
  by (auto simp: submit_op_def queued_jobs_def job_of_def Let_def split: option.splits if_splits)

lemma queued_take:
  assumes "take_op q = Some (op, q1)"
  obtains before later where "queued_jobs q = before @ job_of op @ later" "queued_jobs q1 = before @ later"
proof -
  obtain i where i: "min_pos op_key (nq_queue q) = Some i" "op = nq_queue q ! i" "nq_queue q1 = remove_nth i (nq_queue q)"
    using assms by (auto simp: take_op_def split: if_splits option.splits)
  have "nq_queue q = take i (nq_queue q) @ op # drop (Suc i) (nq_queue q)"
    using id_take_nth_drop [OF min_pos_bound [OF i(1)]] i(2) by simp
  then have "queued_jobs q = concat (map job_of (take i (nq_queue q))) @ job_of op @ concat (map job_of (drop (Suc i) (nq_queue q)))"
    unfolding queued_jobs_def by (metis concat.simps(2) concat_append list.simps(9) map_append)
  moreover have "queued_jobs q1 = concat (map job_of (take i (nq_queue q))) @ concat (map job_of (drop (Suc i) (nq_queue q)))"
    by (simp add: queued_jobs_def i(3) remove_nth_def)
  ultimately show ?thesis by (rule that)
qed

text \<open>
  The worker's account of its jobs: a token and an agent of its own for each, tokens and ends that wait
  are unacknowledged offers, no job has ended yet, and there are at most 32 unacknowledged offers.
\<close>

definition work_ok :: "task_worker \<Rightarrow> saved_job list \<Rightarrow> bool" where
  "work_ok w js \<longleftrightarrow> finishes_ok w \<and> distinct (map job_token js) \<and> distinct (map job_agent js)
     \<and> job_token ` set js \<subseteq> set (tw_seen w) \<and> job_agent ` set js \<subseteq> set (tw_reserved w)
     \<and> set (dkeys (tw_finishes w)) \<subseteq> set (tw_seen w) \<and> job_token ` set js \<inter> set (dkeys (tw_finishes w)) = {}
     \<and> length (tw_seen w) \<le> max_unacknowledged"

definition post_ok :: "post \<Rightarrow> bool" where
  "post_ok p \<longleftrightarrow> work_ok (po_worker p) (current_job p @ queued_jobs (po_queue p))"

lemma work_ok_core: "core_of w1 = core_of w \<Longrightarrow> work_ok w1 js = work_ok w js"
  by (simp add: work_ok_def finishes_ok_def core_of_def)

lemma work_ok_first: "work_ok w (before @ [j] @ later) \<Longrightarrow> work_ok w (j # before @ later)"
  by (auto simp: work_ok_def)

lemma work_ok_reports:
  assumes "reports w w1" "work_ok w js"
  shows "work_ok w1 js"
proof -
  obtain F where F: "F \<subseteq> set (dkeys (tw_finishes w))" "tw_seen w1 = filter (\<lambda>k. k \<notin> F) (tw_seen w)"
      "\<And>k. map_option fst (dget (tw_finishes w1) k) = (if k \<in> F then None else map_option fst (dget (tw_finishes w) k))"
    using assms(1) by (auto simp: reports_def)
  have k: "set (dkeys (tw_finishes w1)) \<subseteq> set (dkeys (tw_finishes w)) - F"
  proof
    fix k
    assume "k \<in> set (dkeys (tw_finishes w1))"
    then have "map_option fst (dget (tw_finishes w1) k) \<noteq> None" by (rule keys_iff [THEN iffD1])
    then have "k \<notin> F" "map_option fst (dget (tw_finishes w) k) \<noteq> None" using F(3) [of k] by (simp_all split: if_splits)
    then show "k \<in> set (dkeys (tw_finishes w)) - F" by (simp add: keys_iff)
  qed
  have old: "job_token ` set js \<inter> set (dkeys (tw_finishes w)) = {}" "job_token ` set js \<subseteq> set (tw_seen w)"
      "set (dkeys (tw_finishes w)) \<subseteq> set (tw_seen w)"
    using assms(2) by (simp_all add: work_ok_def)
  have seen: "set (tw_seen w1) = set (tw_seen w) - F" by (auto simp: F(2))
  have len: "length (tw_seen w1) \<le> length (tw_seen w)" by (simp add: F(2))
  show ?thesis
    unfolding work_ok_def
  proof (intro conjI)
    show "length (tw_seen w1) \<le> max_unacknowledged" using len assms(2) by (simp add: work_ok_def)
    show "job_token ` set js \<inter> set (dkeys (tw_finishes w1)) = {}" using old k by blast
    show "job_token ` set js \<subseteq> set (tw_seen w1)" unfolding seen using old F(1) by blast
    show "set (dkeys (tw_finishes w1)) \<subseteq> set (tw_seen w1)" unfolding seen using old k by blast
    show "finishes_ok w1" using assms finishes_ok_reports by (simp add: work_ok_def)
  qed (use assms in \<open>simp_all add: work_ok_def reports_def\<close>)
qed

lemma work_ok_admits:
  assumes "admits q w q1 w1" "work_ok w (js @ queued_jobs q)"
  shows "work_ok w1 (js @ queued_jobs q1)"
proof -
  obtain kind ev t a where a: "submit_op kind (Run_saved ev t a) False q = Inr q1" "a \<notin> set (tw_reserved w)"
      "ev_offer_id ev \<notin> set (tw_seen w)" "length (tw_seen w) < max_unacknowledged"
      and c: "core_of w1 = (tw_owner w, tw_peer w, ev_offer_id ev # tw_seen w, a # tw_reserved w, tw_finishes w)"
    using assms(1) by (auto simp: admits_def)
  have q: "queued_jobs q1 = queued_jobs q @ [(ev, t, a)]" using queued_submit [OF a(1)] by simp
  have "ev_offer_id ev \<notin> set (dkeys (tw_finishes w))" using assms(2) a(3) by (auto simp: work_ok_def)
  then show ?thesis using assms(2) a c q unfolding work_ok_def
    by (simp add: core_of_def finishes_ok_def Int_insert_left) blast
qed

lemma work_ok_rounds: "rounds q w q1 w1 \<Longrightarrow> work_ok w (js @ queued_jobs q) \<Longrightarrow> work_ok w1 (js @ queued_jobs q1)"
  by (auto simp: rounds_def polls_def dest: work_ok_reports work_ok_core intro: work_ok_admits)

lemma work_ok_conclude:
  assumes "work_ok w ((ev, t, a) # js)"
  shows "work_ok (conclude_run ev a out w) js"
  using assms unfolding work_ok_def
  by (simp add: conclude_run_def finishes_ok_def dkeys_dput) blast

lemma work_ok_release:
  assumes "work_ok w ((ev, t, a) # js)"
  shows "work_ok (w\<lparr>tw_reserved := removeAll a (tw_reserved w), tw_seen := removeAll (ev_offer_id ev) (tw_seen w)\<rparr>) js"
proof -
  let ?k = "ev_offer_id ev"
  have "length (removeAll ?k (tw_seen w)) \<le> max_unacknowledged"
    by (rule order.trans [OF length_removeAll_less_eq]) (use assms in \<open>simp add: work_ok_def\<close>)
  moreover have "?k \<notin> job_token ` set js" "a \<notin> job_agent ` set js" "?k \<notin> set (dkeys (tw_finishes w))"
    using assms by (simp_all add: work_ok_def)
  ultimately show ?thesis using assms by (simp add: work_ok_def finishes_ok_def subset_Diff_insert)
qed

section \<open>Runs a post has carried out\<close>

definition carried_under :: "task_worker \<Rightarrow> str \<Rightarrow> run \<Rightarrow> bool" where
  "carried_under w tok r \<longleftrightarrow> r_owner r = tw_owner w \<and> r_peer r = tw_peer w \<and> ev_offer_id (r_event r) = tok"

definition carrying :: "post \<Rightarrow> drive \<Rightarrow> str \<Rightarrow> bool" where
  "carrying p d rid \<longleftrightarrow> (\<exists>j\<in>set (current_job p). ev_run_id (fst j) = rid \<and> traced (carried_under (po_worker p) (job_token j)) d rid)"

definition accounts :: "post \<Rightarrow> drive \<Rightarrow> str \<Rightarrow> bool" where
  "accounts p d rid \<longleftrightarrow> reported (po_worker p) d rid \<or> carrying p d rid"

abbreviation owner_of :: "post \<Rightarrow> str" where "owner_of p \<equiv> tw_owner (po_worker p)"

lemma carried_moves:
  assumes "traced (carried_under w tok) d rid" "drive_rel d d1" "drive_ok d" "tw_owner w1 = tw_owner w" "tw_peer w1 = tw_peer w"
  shows "traced (carried_under w1 tok) d1 rid"
  by (rule traced_moves [OF assms(1-3)]) (use assms(4,5) in \<open>simp add: carried_under_def same_holder_def\<close>)

lemma carrying_moves:
  "carrying p d rid \<Longrightarrow> drive_rel d d1 \<Longrightarrow> drive_ok d \<Longrightarrow> tw_owner (po_worker p1) = tw_owner (po_worker p) \<Longrightarrow>
     tw_peer (po_worker p1) = tw_peer (po_worker p) \<Longrightarrow> current_job p1 = current_job p \<Longrightarrow> carrying p1 d1 rid"
  unfolding carrying_def using carried_moves by metis

lemma accounts_moves: "accounts p d rid \<Longrightarrow> drive_rel d d1 \<Longrightarrow> drive_ok d \<Longrightarrow> accounts p d1 rid"
  unfolding accounts_def
  using carrying_moves [of p d rid d1 p] traced_moves [of "to_report (po_worker p) rid" d rid d1 "to_report (po_worker p) rid"]
  by (auto simp: to_report_def same_holder_def)

lemma accounts_owner: "accounts p d rid \<Longrightarrow> dget (runs_of d) rid = Some r \<Longrightarrow> \<not> terminal (r_state r) \<Longrightarrow> r_owner r = owner_of p"
  by (auto simp: accounts_def carrying_def traced_def to_report_def carried_under_def)

text \<open>A run a post begins for the first time: the service has granted it to the post, which has no account of it.\<close>

definition first_time :: "post \<Rightarrow> drive \<Rightarrow> str \<Rightarrow> bool" where
  "first_time p d rid \<longleftrightarrow> \<not> accounts p d rid
     \<and> (\<exists>r. dget (runs_of d) rid = Some r \<and> \<not> terminal (r_state r) \<and> r_owner r = owner_of p)"

text \<open>What a step of a post does.\<close>

definition post_moves :: "post \<Rightarrow> drive \<Rightarrow> str list \<times> post \<times> drive \<Rightarrow> bool" where
  "post_moves p d res =
     (case res of (begun, p1, d1) \<Rightarrow> drive_ok d1 \<and> drive_rel d d1 \<and> owner_of p1 = owner_of p \<and> post_ok p1
        \<and> (\<forall>rid. accounts p d rid \<longrightarrow> accounts p1 d1 rid)
        \<and> (begun = [] \<or> (\<exists>rid. begun = [rid] \<and> first_time p d rid \<and> accounts p1 d1 rid)))"

lemma quiet_moves:
  assumes "drive_ok d" "drive_moves (d, ws) (d1, ws1)" "owner_of p1 = owner_of p" "tw_peer (po_worker p1) = tw_peer (po_worker p)"
    and "current_job p1 = current_job p" "post_ok p1" "\<And>rid. reported (po_worker p) d rid \<Longrightarrow> reported (po_worker p1) d1 rid"
  shows "post_moves p d ([], p1, d1)"
proof -
  have "drive_ok d1" "drive_rel d d1" using assms(1,2) by (simp_all add: drive_moves_def)
  then show ?thesis
    using assms(1,3-6) assms(7) carrying_moves [of p d _ d1 p1] by (auto simp: post_moves_def accounts_def)
qed

lemma post_okD: "post_ok p \<Longrightarrow> dwf (tw_finishes (po_worker p)) \<and> finishes_ok (po_worker p)"
  by (simp add: post_ok_def work_ok_def finishes_ok_def)

lemma rounds_owner: "rounds q w q1 w1 \<Longrightarrow> tw_owner w1 = tw_owner w \<and> tw_peer w1 = tw_peer w"
  by (auto simp: rounds_def reports_def dest: polls_finishes)

lemma post_round_moves:
  assumes "drive_ok d" "post_ok p"
  shows "post_moves p d ([], round_post pe now p d)"
proof -
  let ?w = "po_worker p" and ?q = "po_queue p"
  obtain q w d1 ws where r: "worker_round drive_wire (hooks_of pe) now (nm_pool (po_manager p)) ?q ?w (d, pe_wire pe) = (q, w, d1, ws)"
    by (metis prod_cases4)
  let ?p = "p\<lparr>po_worker := w, po_queue := q\<rparr>"
  have ro: "rounds ?q ?w q w" by (rule round_rounds [OF r]) (use post_okD [OF assms(2)] in blast)
  have cur: "current_job ?p = current_job p" by (simp add: current_job_def)
  have ok: "post_ok ?p" using work_ok_rounds [OF ro] assms(2) cur by (simp add: post_ok_def)
  have m: "matched w (d1, ws) rid" if "reported ?w d rid" for rid
    by (rule matched_round [OF r]) (use that assms post_okD in \<open>simp add: matched_def\<close>)
  have dm: "drive_moves (d, pe_wire pe) (d1, ws)" by (rule wired.round_moves [OF r])
  have "post_moves p d ([], ?p, d1)"
    by (rule quiet_moves [OF assms(1) dm]) (use rounds_owner [OF ro] cur ok m in \<open>simp_all add: matched_def\<close>)
  then show ?thesis using r by (simp add: round_post_def)
qed

lemma close_reports:
  assumes "close_worker rpc h w s = (r, w1, s1)" "dwf (tw_finishes w)"
  shows "reports w w1"
proof -
  let ?w = "w\<lparr>tw_stop := True, tw_started := False\<rparr>"
  obtain b w4 s4 where f: "finish_pending rpc h ?w s = (b, w4, s4)" by (metis prod_cases3)
  have "reports w ?w" by (simp add: core_of_def)
  moreover have "reports ?w w4" by (rule finish_pending_reports [OF f]) (use assms(2) in simp)
  ultimately have r4: "reports w w4" by (rule reports_trans)
  obtain c w5 s5 where d: "flush_defers rpc w4 s4 = (c, w5, s5)" by (metis prod_cases3)
  obtain a s6 where o: "ask_service rpc w5 Offline s5 = (a, s6)" by (metis prod.collapse)
  have "w1 = w4 \<or> core_of w1 = core_of w5"
    using assms(1) f d o by (auto simp: close_worker_def core_of_def split: sum.splits if_splits)
  then have "core_of w1 = core_of w4" using flush_core [OF d] by auto
  then show ?thesis using r4 reports_trans reports_refl by blast
qed

lemma work_ok_fewer: "work_ok w (js @ ks) \<Longrightarrow> work_ok w js"
  unfolding work_ok_def by (auto simp: image_Un)

lemma stop_moves:
  assumes "drive_ok d" "post_ok p"
  shows "post_moves p d ([], stop_post pe p d)"
proof (cases "po_current p = None")
  case False
  then have "stop_post pe p d = (p, d)" by (simp add: stop_post_def)
  then show ?thesis using quiet_moves [OF assms(1) wired.stays, of p p] assms(2) by simp
next
  case True
  let ?w = "po_worker p"
  obtain r w d1 ws where c: "close_worker drive_wire (hooks_of pe) ?w (d, pe_wire pe) = (r, w, d1, ws)"
    by (metis prod_cases4)
  let ?p = "p\<lparr>po_worker := w, po_queue := close_native (po_queue p)\<rparr>"
  have re: "reports ?w w" by (rule close_reports [OF c]) (use post_okD [OF assms(2)] in blast)
  have cur: "current_job ?p = current_job p" by (simp add: current_job_def)
  have ok: "post_ok ?p" using work_ok_fewer [OF work_ok_reports [OF re assms(2) [unfolded post_ok_def]]] cur by (simp add: post_ok_def)
  have m: "matched w (d1, ws) rid" if "reported ?w d rid" for rid
    by (rule matched_close [OF c]) (use that assms post_okD in \<open>simp add: matched_def\<close>)
  have dm: "drive_moves (d, pe_wire pe) (d1, ws)" by (rule wired.close_moves [OF c])
  have "post_moves p d ([], ?p, d1)"
    by (rule quiet_moves [OF assms(1) dm]) (use re cur ok m in \<open>simp_all add: matched_def reports_def\<close>)
  then show ?thesis using c True by (simp add: stop_post_def)
qed

lemma submit_moves:
  assumes "drive_ok d" "post_ok p" "\<forall>ev t a. c \<noteq> Run_saved ev t a"
  shows "post_moves p d ([], submit_post kind c goes_on p, d)"
proof (rule quiet_moves [OF assms(1) wired.stays])
  let ?p = "submit_post kind c goes_on p"
  have w: "po_worker ?p = po_worker p" and cur: "current_job ?p = current_job p"
    by (simp_all add: submit_post_def current_job_def split: sum.splits)
  have "queued_jobs (po_queue ?p) = queued_jobs (po_queue p)"
    using queued_submit [of kind c goes_on "po_queue p"] assms(3)
    by (auto simp: submit_post_def split: sum.splits native_call.splits)
  then show "post_ok ?p" using assms(2) w cur by (simp add: post_ok_def)
  show "owner_of ?p = owner_of p" "tw_peer (po_worker ?p) = tw_peer (po_worker p)" "current_job ?p = current_job p"
    "\<And>rid. reported (po_worker p) d rid \<Longrightarrow> reported (po_worker ?p) d rid"
    using w cur by simp_all
qed

lemma manage_moves:
  assumes "drive_ok d" "post_ok p"
  shows "post_moves p d ([], p\<lparr>po_manager := m\<rparr>, d)"
  by (rule quiet_moves [OF assms(1) wired.stays]) (use assms(2) in \<open>simp_all add: post_ok_def current_job_def\<close>)

text \<open>The end of a run: what was being carried out is now to be reported.\<close>

lemma concluded_reports:
  assumes "reported w d rid" "dget (tw_finishes w) (ev_offer_id ev) = None"
  shows "reported (conclude_run ev a out w) d rid"
  using assms by (auto simp: traced_def to_report_def conclude_run_def)

lemma concluded_carried:
  assumes "traced (carried_under w (ev_offer_id ev)) d (ev_run_id ev)"
  shows "reported (conclude_run ev a out w) d (ev_run_id ev)"
  using assms by (auto simp: traced_def to_report_def carried_under_def conclude_run_def)

lemma after_agent_concludes:
  obtains out w1 where "after_agent wall ev t a r w = conclude_run ev a out w1" "core_of w1 = core_of w"
proof (cases "\<exists>o'. r = Inr (Inr o')")
  case True
  then obtain o' where r: "r = Inr (Inr o')" by blast
  show ?thesis
    by (rule that, simp only: after_agent_def r sum.case Let_def) (auto simp: core_of_def note_run_def)
next
  case False
  then show ?thesis by (intro that [of "(u ''error'', 1)" w]) (auto simp: after_agent_def split: sum.splits)
qed

lemma conclude_core: "core_of w1 = core_of w \<Longrightarrow> tw_finishes w1 = tw_finishes w"
  by (simp add: core_of_def)

lemma reported_same: "core_of w1 = core_of w \<Longrightarrow> reported w1 d rid = reported w d rid"
  by (simp add: traced_def to_report_def core_of_def)

lemma carried_same: "core_of w1 = core_of w \<Longrightarrow> carried_under w1 = carried_under w"
  by (rule ext)+ (simp add: carried_under_def core_of_def)

lemma conclude_owner: "tw_owner (conclude_run ev a out w) = tw_owner w" "tw_peer (conclude_run ev a out w) = tw_peer w"
  by (simp_all add: conclude_run_def)

text \<open>Over: the job in hand is concluded, and the others keep their account.\<close>

lemma concluded_moves:
  assumes "drive_ok d" "work_ok w ((ev, t, a) # js)" "drive_moves (d, ws) (d1, ws1)"
    and "core_of w1 = core_of w" "reported w d rid"
  shows "reported (conclude_run ev a out w1) d1 rid"
proof -
  have "reported w1 d1 rid"
    using reported_core [of w rid "(d, ws)" "(d1, ws1)" w1] assms by simp
  moreover have "dget (tw_finishes w1) (ev_offer_id ev) = None"
    using assms(2) conclude_core [OF assms(4)] by (simp add: work_ok_def dget_None_iff)
  ultimately show ?thesis by (rule concluded_reports)
qed

lemma end_moves:
  assumes "drive_ok d" "post_ok p"
  shows "post_moves p d ([], end_post e wall p, d)"
proof (cases "po_current p")
  case None
  then have "end_post e wall p = p" by (simp add: end_post_def)
  then show ?thesis using quiet_moves [OF assms(1) wired.stays, of p p] assms(2) by simp
next
  case (Some c)
  obtain ev t a instr where c: "c = (ev, t, a, instr)" by (metis prod_cases4)
  let ?w = "po_worker p"
  obtain r m where m: "manager_run_agent e a instr (po_manager p) = (r, m)" by (metis prod.collapse)
  obtain out w1 where w1: "after_agent wall ev t a r ?w = conclude_run ev a out w1" "core_of w1 = core_of ?w"
    by (rule after_agent_concludes)
  let ?p = "p\<lparr>po_manager := m, po_worker := conclude_run ev a out w1, po_queue := op_done (po_queue p), po_current := None\<rparr>"
  have p: "end_post e wall p = ?p" by (simp add: end_post_def Some c m w1)
  have ok: "work_ok ?w ((ev, t, a) # queued_jobs (po_queue p))" using assms(2) by (simp add: post_ok_def current_job_def Some c)
  have "post_ok ?p"
    using work_ok_conclude [of w1] ok work_ok_core [OF w1(2)] by (simp add: post_ok_def current_job_def)
  moreover have "accounts ?p d rid" if "accounts p d rid" for rid
  proof -
    from that consider "reported ?w d rid" | "rid = ev_run_id ev" "traced (carried_under ?w (ev_offer_id ev)) d rid"
      by (auto simp: accounts_def carrying_def current_job_def Some c)
    then have "reported (conclude_run ev a out w1) d rid"
    proof cases
      case 1
      then show ?thesis by (rule concluded_moves [OF assms(1) ok wired.stays w1(2)])
    next
      case 2
      then show ?thesis using concluded_carried [of w1 ev d] carried_same [OF w1(2)] by simp
    qed
    then show ?thesis by (simp add: accounts_def)
  qed
  moreover have "owner_of ?p = owner_of p" using w1(2) by (simp add: conclude_owner core_of_def)
  ultimately show ?thesis using assms(1) by (simp add: p post_moves_def drive_runs.rel_refl)
qed

text \<open>The start of a run.\<close>

lemma prepare_core: "prepare_run rpc h now pool ev t a w s = (st, w1, s1) \<Longrightarrow> core_of w1 = core_of w"
  by (auto simp: prepare_run_def core_of_def split: if_splits prod.splits sum.splits)

lemma prepare_grants:
  assumes "prepare_run drive_wire (hooks_of pe) now pool ev t a w (d, ws) = (To_agent instr, w1, d1, ws1)" "drive_ok d"
  shows "(\<exists>r. dget (runs_of d) (ev_run_id ev) = Some r \<and> \<not> terminal (r_state r) \<and> carried_under w (ev_offer_id ev) r)
    \<and> traced (carried_under w (ev_offer_id ev)) d1 (ev_run_id ev)"
proof -
  let ?k = "ev_run_id ev" and ?tok = "ev_offer_id ev"
  obtain b d2 ws2 where b: "ask_service drive_wire w (Begin ?k ?tok) (d, ws) = (b, d2, ws2)" by (metis prod_cases3)
  obtain c d3 ws3 where c: "ask_service drive_wire w (Valid ?k ?tok) (d2, ws2) = (c, d3, ws3)" by (metis prod_cases3)
  obtain st d4 ws4 where e: "prepare_event drive_wire ev t w (d3, ws3) = (st, d4, ws4)" by (metis prod_cases3)
  obtain v where v: "b = Inr v" "granted v"
    using assms(1) b by (auto simp: prepare_run_def split: if_splits sum.splits)
  have "(d1, ws1) = (d3, ws3) \<or> (d1, ws1) = (d4, ws4)"
    using assms(1) b c e v by (auto simp: prepare_run_def split: if_splits sum.splits)
  then have dm: "drive_moves (d2, ws2) (d1, ws1)"
    using wired.ask_moves [OF c] wired.goes_on [OF wired.ask_moves [OF c] wired.value_moves [OF e]] by auto
  have dm0: "drive_moves (d, ws) (d2, ws2)" by (rule wired.ask_moves [OF b])
  have ok: "drive_ok d2" "drive_rel d2 d1" using dm0 dm assms(2) by (simp_all add: drive_moves_def)
  obtain r where r: "dget (runs_of d) ?k = Some r" "r_state r = Offered \<or> r_state r = Running"
      "r_owner r = tw_owner w" "r_peer r = tw_peer w" "ev_offer_id (r_event r) = ?tok"
      "dget (runs_of d2) ?k = Some (r\<lparr>r_state := Running\<rparr>)"
    using begin_grants [OF b [unfolded ask_service_def v(1)] v(2) assms(2)] by blast
  have "traced (carried_under w ?tok) d2 ?k"
    using r known_run [OF ok(1) r(6)] by (simp add: traced_def carried_under_def)
  then have "traced (carried_under w ?tok) d1 ?k" by (rule carried_moves [OF _ ok(2,1)]) simp_all
  then show ?thesis using r by (auto simp: terminal_def carried_under_def)
qed

lemma saved_op: "op_callback op = Run_saved ev t a \<Longrightarrow> job_of op = [(ev, t, a)]"
  by (simp add: job_of_def)

lemma begin_moves:
  assumes "drive_ok d" "work_ok (po_worker p) ((ev, t, a) # queued_jobs (po_queue p))" "po_current p = None"
  shows "post_moves p d (begin_saved pe now (ev, t, a) p d)"
proof -
  let ?w = "po_worker p" and ?k = "ev_run_id ev" and ?tok = "ev_offer_id ev"
  obtain st w1 d1 ws1 where pr: "prepare_run drive_wire (hooks_of pe) now (nm_pool (po_manager p)) ev t a ?w (d, pe_wire pe)
      = (st, w1, d1, ws1)" by (metis prod_cases4)
  note core = prepare_core [OF pr]
  have dm: "drive_moves (d, pe_wire pe) (d1, ws1)" by (rule wired.prepare_moves [OF pr])
  have d1: "drive_ok d1" "drive_rel d d1" using dm assms(1) by (simp_all add: drive_moves_def)
  have ok1: "work_ok w1 ((ev, t, a) # queued_jobs (po_queue p))" using assms(2) work_ok_core [OF core] by simp
  have own: "tw_owner w1 = tw_owner ?w" using core by (simp add: core_of_def)
  have acc: "accounts p d rid \<longleftrightarrow> reported ?w d rid" for rid
    by (simp add: accounts_def carrying_def current_job_def assms(3))
  have rep: "reported ?w d rid \<Longrightarrow> reported w1 d1 rid" for rid
    using reported_core [of ?w rid "(d, pe_wire pe)" "(d1, ws1)" w1] assms(1) dm core by simp
  have kept: "reported ?w d rid \<Longrightarrow> reported (conclude_run ev a out w2) d1 rid" if "core_of w2 = core_of w1" for w2 out rid
    using concluded_moves [OF assms(1,2) dm, of w2] that core by simp
  show ?thesis
  proof (cases st)
    case (To_agent instr)
    note g = prepare_grants [OF pr [unfolded To_agent] assms(1)]
    let ?p = "p\<lparr>po_worker := w1, po_current := Some (ev, t, a, instr)\<rparr>"
    obtain r where r: "dget (runs_of d) ?k = Some r" "\<not> terminal (r_state r)" "carried_under ?w ?tok r" using g by blast
    have "\<not> reported ?w d ?k"
    proof
      assume "reported ?w d ?k"
      then have "to_report ?w ?k r" using r by (auto simp: traced_def)
      then have "dget (tw_finishes ?w) ?tok \<noteq> None" using r(3) by (auto simp: to_report_def carried_under_def)
      then show False using assms(2) by (simp add: work_ok_def dget_None_iff)
    qed
    then have first: "first_time p d ?k" using r by (auto simp: first_time_def acc carried_under_def)
    have "carrying ?p d1 ?k" using g carried_same [OF core] by (simp add: carrying_def current_job_def)
    then have "accounts ?p d1 ?k" by (simp add: accounts_def)
    moreover have "accounts ?p d1 rid" if "accounts p d rid" for rid
      using that rep [of rid] by (simp add: acc) (simp add: accounts_def)
    moreover have "post_ok ?p" using ok1 by (simp add: post_ok_def current_job_def)
    ultimately show ?thesis using pr To_agent d1 own first by (simp add: begin_saved_def post_moves_def)
  next
    case Not_begun
    let ?w1 = "stop_before now ev a st w1"
    let ?p = "p\<lparr>po_worker := ?w1, po_queue := op_done (po_queue p)\<rparr>"
    have "post_ok ?p" using work_ok_release [OF ok1] by (simp add: post_ok_def current_job_def Not_begun stop_before_def assms(3))
    moreover have "accounts ?p d1 rid" if "accounts p d rid" for rid
      using that rep [of rid] by (simp add: acc) (simp add: accounts_def Not_begun stop_before_def traced_def to_report_def)
    ultimately show ?thesis using pr Not_begun d1 own by (simp add: begin_saved_def post_moves_def) (simp add: stop_before_def)
  next
    case (Over_without outcome code noted)
    define w2 where "w2 = (if noted then note_run now ev a (outcome, code) w1 else w1)"
    have w2: "core_of w2 = core_of w1" by (simp add: w2_def note_run_def core_of_def)
    have sb: "stop_before now ev a st w1 = conclude_run ev a (outcome, code) w2" by (simp add: Over_without stop_before_def w2_def)
    let ?p = "p\<lparr>po_worker := conclude_run ev a (outcome, code) w2, po_queue := op_done (po_queue p)\<rparr>"
    have "post_ok ?p" using work_ok_conclude [of w2] ok1 work_ok_core [OF w2] by (simp add: post_ok_def current_job_def assms(3))
    moreover have "accounts ?p d1 rid" if "accounts p d rid" for rid
      using that kept [OF w2] by (simp add: acc) (simp add: accounts_def)
    moreover have "owner_of ?p = owner_of p" using w2 own by (simp add: conclude_owner core_of_def)
    ultimately show ?thesis using pr Over_without d1 sb by (simp add: begin_saved_def post_moves_def)
  qed
qed

lemma start_moves:
  assumes "drive_ok d" "post_ok p"
  shows "post_moves p d (start_post pe now p d)"
proof -
  have same: "post_moves p d ([], p, d)" using quiet_moves [OF assms(1) wired.stays, of p p] assms(2) by simp
  show ?thesis
  proof (cases "po_current p = None \<and> take_op (po_queue p) \<noteq> None")
    case False
    then show ?thesis using same by (cases "take_op (po_queue p)") (auto simp: start_post_def)
  next
    case True
    then obtain op q where t: "take_op (po_queue p) = Some (op, q)" by auto
    obtain before later where q: "queued_jobs (po_queue p) = before @ job_of op @ later" "queued_jobs q = before @ later"
      by (rule queued_take [OF t])
    show ?thesis
    proof (cases "\<exists>ev tk a. op_callback op = Run_saved ev tk a")
      case saved: True
      then obtain ev tk a where c: "op_callback op = Run_saved ev tk a" by blast
      let ?p = "p\<lparr>po_queue := q\<rparr>"
      have "work_ok (po_worker p) (before @ [(ev, tk, a)] @ later)"
        using assms(2) q True by (simp add: post_ok_def current_job_def saved_op [OF c])
      then have "work_ok (po_worker ?p) ((ev, tk, a) # queued_jobs (po_queue ?p))" using work_ok_first q(2) by simp
      then have "post_moves ?p d (begin_saved pe now (ev, tk, a) ?p d)" using begin_moves [OF assms(1)] True by simp
      then have "post_moves p d (begin_saved pe now (ev, tk, a) ?p d)"
        by (simp add: post_moves_def accounts_def carrying_def current_job_def first_time_def)
      then show ?thesis using True t c by (simp add: start_post_def)
    next
      case other: False
      let ?p = "p\<lparr>po_queue := op_done q\<rparr>"
      have "job_of op = []" using other by (auto simp: job_of_def split: native_call.splits)
      then have "post_ok ?p" using assms(2) q by (simp add: post_ok_def current_job_def)
      then have "post_moves p d ([], ?p, d)"
        by (intro quiet_moves [OF assms(1) wired.stays]) (simp_all add: current_job_def)
      then show ?thesis using True t other by (auto simp: start_post_def split: native_call.splits)
    qed
  qed
qed

section \<open>The fleet\<close>

definition fleet_ok :: "fleet \<Rightarrow> bool" where
  "fleet_ok fl \<longleftrightarrow> drive_ok (fl_drive fl) \<and> distinct (map owner_of (fl_posts fl)) \<and> (\<forall>p\<in>set (fl_posts fl). post_ok p)"

definition accounted :: "fleet \<times> str list \<Rightarrow> bool" where
  "accounted st \<longleftrightarrow> fleet_ok (fst st) \<and> distinct (snd st)
     \<and> (\<forall>rid\<in>set (snd st). \<exists>p\<in>set (fl_posts (fst st)). accounts p (fl_drive (fst st)) rid)"

lemma accountedE:
  assumes "accounted (fl, told)" "rid \<in> set told"
  obtains j where "j < length (fl_posts fl)" "accounts (fl_posts fl ! j) (fl_drive fl) rid"
proof -
  obtain p where "p \<in> set (fl_posts fl)" "accounts p (fl_drive fl) rid" using assms by (auto simp: accounted_def)
  then show ?thesis using that by (auto simp: in_set_conv_nth)
qed

lemma post_step_accounted:
  assumes ac: "accounted (fl, told)" and i: "i < length (fl_posts fl)"
    and mv: "post_moves (fl_posts fl ! i) (fl_drive fl) (begun, p1, d1)"
  shows "accounted (\<lparr>fl_posts = (fl_posts fl)[i := p1], fl_drive = d1\<rparr>, told @ begun)"
proof -
  let ?ps = "fl_posts fl" and ?d = "fl_drive fl"
  let ?p = "?ps ! i"
  have d: "drive_ok ?d" and own: "distinct (map owner_of ?ps)" and oks: "\<forall>p\<in>set ?ps. post_ok p"
    using ac by (simp_all add: accounted_def fleet_ok_def)
  have m: "drive_ok d1" "drive_rel ?d d1" "owner_of p1 = owner_of ?p" "post_ok p1" "\<And>rid. accounts ?p ?d rid \<Longrightarrow> accounts p1 d1 rid"
    using mv by (simp_all add: post_moves_def)
  have "map owner_of (?ps[i := p1]) = map owner_of ?ps" using m(3) i by (simp add: map_update list_update_same_conv)
  then have fl: "fleet_ok \<lparr>fl_posts = ?ps[i := p1], fl_drive = d1\<rparr>"
    using own m oks set_update_subset_insert [of ?ps i p1] by (auto simp: fleet_ok_def)
  have kept: "\<exists>p\<in>set (?ps[i := p1]). accounts p d1 rid" if r: "rid \<in> set told" for rid
  proof -
    obtain j where j: "j < length ?ps" "accounts (?ps ! j) ?d rid"
      by (rule accountedE [OF ac r])
    have "accounts (?ps[i := p1] ! j) d1 rid"
      using m(5) accounts_moves [OF j(2) m(2) d] j by (cases "i = j") auto
    then show ?thesis using j(1) by (metis length_list_update nth_mem)
  qed
  show ?thesis
  proof (cases "begun = []")
    case True
    then show ?thesis using ac fl kept by (simp add: accounted_def)
  next
    case False
    then obtain rid where b: "begun = [rid]" "first_time ?p ?d rid" "accounts p1 d1 rid" using mv by (auto simp: post_moves_def)
    obtain r where r: "dget (runs_of ?d) rid = Some r" "\<not> terminal (r_state r)" "r_owner r = owner_of ?p" "\<not> accounts ?p ?d rid"
      using b(2) by (auto simp: first_time_def)
    have "rid \<notin> set told"
    proof
      assume told: "rid \<in> set told"
      obtain j where j: "j < length ?ps" "accounts (?ps ! j) ?d rid" by (rule accountedE [OF ac told])
      have "owner_of (?ps ! j) = owner_of ?p" using accounts_owner [OF j(2) r(1,2)] r(3) by simp
      then have "j = i" using own i j(1) by (simp add: distinct_conv_nth) metis
      then show False using j(2) r(4) by simp
    qed
    moreover have "p1 \<in> set (?ps[i := p1])" using i by (rule set_update_memI)
    ultimately show ?thesis using ac fl kept b by (auto simp: accounted_def)
  qed
qed

lemma at_post_accounted:
  assumes "accounted (fl, told)" "\<And>p d. drive_ok d \<Longrightarrow> post_ok p \<Longrightarrow> post_moves p d (f p d)"
  shows "accounted (snd (at_post i f fl), told @ fst (at_post i f fl))"
proof (cases "i < length (fl_posts fl)")
  case True
  obtain begun p1 d1 where fp: "f (fl_posts fl ! i) (fl_drive fl) = (begun, p1, d1)" by (metis prod_cases3)
  have "post_moves (fl_posts fl ! i) (fl_drive fl) (begun, p1, d1)"
    using assms(2) [of "fl_drive fl" "fl_posts fl ! i"] assms(1) True fp by (simp add: accounted_def fleet_ok_def)
  then show ?thesis using post_step_accounted [OF assms(1) True] True fp by (simp add: at_post_def)
next
  case False
  then show ?thesis using assms(1) by (simp add: at_post_def)
qed

interpretation fleets: stepper fleet_step "\<lambda>_. fleet_op_ok" accounted
proof
  fix st :: "fleet \<times> str list" and op
  assume ac: "accounted st" and ok: "fleet_op_ok op"
  obtain fl told where st: "st = (fl, told)" by (cases st)
  note ac = ac [unfolded st]
  have "accounted (snd (fleet_do fl op), told @ fst (fleet_do fl op))"
  proof (cases op)
    case (Service o')
    have oo: "op_ok (fl_drive fl) o'" using ok by (cases o') (simp_all add: Service fleet_op_ok_def op_ok_def)
    have d: "drive_ok (fl_drive fl)" using ac by (simp add: accounted_def fleet_ok_def)
    have "\<exists>p\<in>set (fl_posts fl). accounts p (drive_step (fl_drive fl) o') rid" if "rid \<in> set told" for rid
      using ac that accounts_moves [OF _ drive_step_rel [OF d oo] d] by (auto simp: accounted_def simp del: drive_step.simps) blast
    then show ?thesis
      using ac drive_step_ok [OF d oo] by (simp add: Service fleet_do_def accounted_def fleet_ok_def del: drive_step.simps)
  next
    case (Submit_other i kind c g)
    then have "\<forall>ev t a. c \<noteq> Run_saved ev t a" using ok by (simp add: fleet_op_ok_def)
    then show ?thesis
      unfolding Submit_other fleet_do_def fleet_op.case by (intro at_post_accounted [OF ac]) (rule submit_moves)
  qed (simp_all add: fleet_do_def at_post_accounted [OF ac] post_round_moves start_moves end_moves stop_moves manage_moves)
  then show "accounted (fleet_step st op)" by (simp add: fleet_step_def st case_prod_beta)
qed

text \<open>C3: an activation is carried out at most once in the whole fleet: over all interleavings of the workers'
  polling rounds, of the starts and ends of runs on their model threads, of shutdowns, of other clients
  and ticks of the service, and whichever requests and replies are lost, no run is handed to an agent twice.\<close>

theorem activation_runs_at_most_once:
  assumes "fleet_ok fl" and "all_ok (\<lambda>_. fleet_op_ok) fleet_step (fl, []) ops"
  shows "distinct (snd (foldl fleet_step (fl, []) ops))"
proof -
  have "accounted (fl, [])" using assms(1) by (simp add: accounted_def)
  then have "accounted (foldl fleet_step (fl, []) ops)" using assms(2) by (rule fleets.inv_run)
  then show ?thesis by (simp add: accounted_def)
qed

text \<open>A worker with one admitted run, which it begins over a socket that delivers.\<close>

definition offered_job :: saved_job where
  "offered_job = (sample_event\<lparr>ev_offer_id := u ''o''\<rparr>, sample_task (u ''g''), u ''agent_1'')"

definition sample_post :: post where
  "sample_post =
     \<lparr>po_worker = \<lparr>tw_owner = u ''w'', tw_peer = u ''p'', tw_permissions = [(u ''agent_1'', [u ''mqtt''])], tw_active = [],
        tw_next_inbox = 0, tw_next_heartbeat = 0, tw_next_display = 0, tw_display = [], tw_display_error = None,
        tw_last_runs = [], tw_seen = [u ''o''], tw_reserved = [u ''agent_1''], tw_finishes = [], tw_results = [],
        tw_deferred = [], tw_defers = [], tw_ready = True, tw_stop = False, tw_started = True\<rparr>,
      po_queue = \<lparr>nq_queue = [\<lparr>op_key = Op_key 20 1, op_kind = u ''background'',
          op_callback = Run_saved (fst offered_job) (fst (snd offered_job)) (snd (snd offered_job))\<rparr>],
        nq_max = 8, nq_sequence = 1, nq_stopping = False, nq_active = None\<rparr>,
      po_manager = new_manager sample_chat sample_pool \<lparr>tb_broker = None, tb_control = None\<rparr>, po_current = None\<rparr>"

text \<open>The service counts the run as begun already: an earlier reply was lost.\<close>

definition sample_fleet :: fleet where
  "sample_fleet = \<lparr>fl_posts = [sample_post], fl_drive = sample_drive Running\<rparr>"

definition sample_begin :: fleet_op where
  "sample_begin = Start_job 0 \<lparr>pe_wire = [(sample_env 1, Delivered), (sample_env 2, Delivered)], pe_notify = None,
     pe_inbox = None, pe_blocked = (\<lambda>_. False), pe_stop = False\<rparr> 1"

lemma sample_fleet_ok: "fleet_ok sample_fleet"
  using sample_drive_ok [of Running]
  by (simp add: fleet_ok_def sample_fleet_def sample_post_def post_ok_def work_ok_def finishes_ok_def current_job_def
      queued_jobs_def job_of_def offered_job_def max_unacknowledged_def dkeys_def)

lemma sample_granted:
  assumes "q = Begin (u ''r'') (u ''o'') \<or> q = Valid (u ''r'') (u ''o'')"
  shows "engine_call ((sample_env now)\<lparr>e_uuid := x\<rparr>) (WorkerCall (u ''w'') (u ''p'') q) (sample_engine Running\<lparr>en_disk := disk\<rparr>)
    = (Inr (RBool True), sample_engine Running\<lparr>en_disk := disk\<rparr>)"
proof -
  let ?en = "sample_engine Running\<lparr>en_disk := disk\<rparr>" and ?e = "(sample_env now)\<lparr>e_uuid := x\<rparr>"
  have r: "reconcile ?e ?en = ?en"
    by (simp add: reconcile_def dmap_def reconcile_run_def drop_oldest_def kept_finished_runs_def)
      (simp add: sample_run_def sample_env_def sample_engine_def)
  have c: "current ?en (sample_run Running)"
    by (simp add: current_def sample_run_def sample_event_def run_task_id_def en_store_def get_task_def)
      (simp add: sample_store_def sample_task_def)
  have "addressed (u ''w'') (u ''p'') (u ''r'') (u ''o'') ?en = Some (sample_run Running)"
    by (simp add: addressed_def sample_run_def)
  then have "dispatch ?e (WorkerCall (u ''w'') (u ''p'') q) ?en = (Inr (RBool True), ?en)"
    using assms c by (auto simp: dispatch_def worker_call_def r begin_run_def valid_run_def set_run_def sample_run_def)
  then show ?thesis by (simp add: engine_call_def conclude_def Let_def)
qed

lemma sample_agent_free: "state_of sample_pool (u ''agent_1'') = Some Nat_free"
  by (simp add: state_of_def pool_status_def sample_pool_def sample_agent_def dvals_def)

lemma sample_wire:
  assumes "q = Begin (u ''r'') (u ''o'') \<or> q = Valid (u ''r'') (u ''o'')" "d_engine d = sample_engine Running\<lparr>en_disk := disk\<rparr>"
  shows "drive_wire (WorkerCall (u ''w'') (u ''p'') q) (d, (sample_env now, Delivered) # ws)
    = (Inr (RBool True), d\<lparr>d_count := Suc (d_count d)\<rparr>, ws)"
proof -
  have "engine_call ((sample_env now)\<lparr>e_uuid := x\<rparr>) (WorkerCall (u ''w'') (u ''p'') q) (d_engine d) = (Inr (RBool True), d_engine d)" for x
    unfolding assms(2) by (rule sample_granted [OF assms(1)])
  then show ?thesis by (cases d) (simp add: drive_wire_def Let_def client_view_def)
qed

lemma sample_begins: "snd (fleet_step (sample_fleet, []) sample_begin) = [u ''r'']"
proof -
  let ?d = "sample_drive Running" and ?h = "hooks_of \<lparr>pe_wire = [(sample_env 1, Delivered), (sample_env 2, Delivered)], pe_notify = None,
     pe_inbox = None, pe_blocked = (\<lambda>_. False), pe_stop = False\<rparr>"
  let ?d1 = "?d\<lparr>d_count := Suc (d_count ?d)\<rparr>" and ?w = "po_worker sample_post"
  obtain disk where e: "d_engine ?d = sample_engine Running\<lparr>en_disk := disk\<rparr>" by (simp add: sample_drive_def)
  note b = sample_wire [OF _ e, of "Begin (u ''r'') (u ''o'')"]
  have "d_engine ?d1 = sample_engine Running\<lparr>en_disk := disk\<rparr>" using e by simp
  note v = sample_wire [OF _ this, of "Valid (u ''r'') (u ''o'')"]
  have ev: "ev_run_id sample_event = u ''r''" "ev_source sample_event = u ''manual''" by (simp_all add: sample_event_def)
  have "\<exists>d2. prepare_run drive_wire ?h 1 sample_pool (fst offered_job) (fst (snd offered_job)) (u ''agent_1'') ?w
      (?d, [(sample_env 1, Delivered), (sample_env 2, Delivered)]) = (To_agent (t_text (fst (snd offered_job))), ?w, d2, [])"
    by (simp add: prepare_run_def can_run_def hooks_of_def sample_post_def sample_agent_free ask_service_def offered_job_def ev b v granted_def)
  then show ?thesis
    by (auto simp: fleet_step_def fleet_do_def sample_begin_def sample_fleet_def at_post_def start_post_def begin_saved_def)
      (auto simp: sample_post_def take_op_def remove_nth_def new_manager_def offered_job_def begin_saved_def ev)
qed

theorem activation_runs_at_most_once_witness:
  "snd (fleet_step (sample_fleet, []) sample_begin) = [u ''r'']
   \<and> distinct (snd (foldl fleet_step (sample_fleet, []) [sample_begin, sample_begin]))"
proof (rule conjI [OF sample_begins])
  show "distinct (snd (foldl fleet_step (sample_fleet, []) [sample_begin, sample_begin]))"
    by (rule activation_runs_at_most_once [OF sample_fleet_ok]) (simp add: sample_begin_def fleet_op_ok_def)
qed

text \<open>C16: over the same histories every worker keeps its account: the runs that wait for its model thread or
  are on it have agents of their own, all reserved, and tokens of their own, all unacknowledged; none of
  them has an end to report yet; and there are never more than 32 unacknowledged offers.\<close>

theorem native_worker_keeps_account:
  assumes "fleet_ok fl" and "all_ok (\<lambda>_. fleet_op_ok) fleet_step (fl, []) ops"
    and "p \<in> set (fl_posts (fst (foldl fleet_step (fl, []) ops)))"
  shows "distinct (map job_agent (current_job p @ queued_jobs (po_queue p)))
    \<and> (\<forall>j\<in>set (current_job p @ queued_jobs (po_queue p)). is_reserved (job_agent j) (po_worker p)
         \<and> job_token j \<in> set (tw_seen (po_worker p)) \<and> dget (tw_finishes (po_worker p)) (job_token j) = None)
    \<and> distinct (map job_token (current_job p @ queued_jobs (po_queue p)))
    \<and> wv_offered (worker_snapshot (po_worker p)) \<le> 32"
proof -
  have "accounted (fl, [])" using assms(1) by (simp add: accounted_def)
  then have "accounted (foldl fleet_step (fl, []) ops)" using assms(2) by (rule fleets.inv_run)
  then have "work_ok (po_worker p) (current_job p @ queued_jobs (po_queue p))"
    using assms(3) by (simp add: accounted_def fleet_ok_def post_ok_def)
  then show ?thesis
    unfolding work_ok_def dget_None_iff is_reserved_def worker_snapshot_def max_unacknowledged_def by simp blast
qed

theorem native_worker_keeps_account_witness:
  "wv_offered (worker_snapshot (po_worker (fl_posts (fst (foldl fleet_step (sample_fleet, []) [sample_begin])) ! 0))) \<le> 32"
proof -
  let ?st = "foldl fleet_step (sample_fleet, []) [sample_begin]"
  have "length (fl_posts (fst ?st)) = 1"
    by (simp add: fleet_step_def fleet_do_def sample_begin_def at_post_def case_prod_beta) (simp add: sample_fleet_def)
  then have "fl_posts (fst ?st) ! 0 \<in> set (fl_posts (fst ?st))" by (intro nth_mem) simp
  moreover have "all_ok (\<lambda>_. fleet_op_ok) fleet_step (sample_fleet, []) [sample_begin]"
    by (simp add: sample_begin_def fleet_op_ok_def)
  ultimately show ?thesis using native_worker_keeps_account [OF sample_fleet_ok] by blast
qed

end
