(* ===== verification/Spec2Isabelle.thy ===== *)
theory Spec2Isabelle
  imports EngineProps SchedProps ProtocolProps NativeQueue ToolGuardProps OutboxProps RemoteClientProps ReadinessProps MqttCache
    WorkProps ManagerProps NativeProps FleetProps
begin

text \<open>
  \<^bold>\<open>A verification development for cat-agent.\<close>

  cat-agent runs conversational agents on local and remote models. People and timers give it work: a
  CORE process answers dialogues with a limited number of model contexts, its managers hand work to
  agents, the agents run commands in a workspace, a shared task service keeps the saved tasks of all
  COREs, arms their timers and grants every activation to exactly one worker, and an outbox delivers
  notifications. This development models the parts that decide what happens and when, and proves what
  makes them correct. The sources are under \<open>src/src\<close>.

  \<^bold>\<open>Parts and theories.\<close>
  \<^item> \<open>Prelude\<close>, \<open>Text\<close>, \<open>PyText\<close>, \<open>Json\<close>, \<open>Shlex\<close>: Python dictionaries as insertion ordered association
    lists (the locale \<open>dictionary\<close>), runs of step functions (the locales \<open>stepper\<close> and \<open>stepper_rel\<close>),
    strings as code points with the library functions the sources call, JSON values, and \<open>shlex.split\<close>.
  \<^item> \<open>Tasks\<close>, \<open>Events\<close>, \<open>Registries\<close>: the saved tasks (orchestration/tasks.py) and event bindings
    (orchestration/event_store.py), their validation, operations with rollback, and their files.
  \<^item> \<open>SysRuntime\<close>, \<open>RuntimeProps\<close>: timers and their polling (orchestration/system_events.py).
  \<^item> \<open>Engine\<close>, \<open>EngineCalls\<close>, \<open>EngineRuns\<close>, \<open>EngineInv\<close>, \<open>EngineTx\<close>, \<open>EngineProps\<close>: the shared task service
    (task_system/engine.py): runs from pending over offered and running to a final state, leases of the
    workers, offers, query results, transactions with rollback, ticks and recovery.
  \<^item> \<open>RemoteClient\<close>, \<open>RemoteClientProps\<close>: the side of the COREs (task_system/client.py), over the service
    as a parameter; \<open>wire_call\<close> instantiates it with the model of the engine behind a socket that may
    lose requests and replies.
  \<^item> \<open>Readiness\<close>, \<open>ReadinessProps\<close>: whether a worker may take work (task_system/readiness.py,
    task_system/ollama_usage.py).
  \<^item> \<open>MqttCache\<close>, \<open>MqttEvents\<close>: the cache of MQTT topics (litert_agent_tools/mqtt_cache.py), and the events
    made of MQTT messages (orchestration/mqtt_events.py).
  \<^item> \<open>Contexts\<close>, \<open>Scheduler\<close>, \<open>SchedInv\<close>, \<open>SchedCore\<close>, \<open>SchedProps\<close>: the request scheduler of a CORE
    (agent_core/core_scheduler.py, agent_core/voice_scheduler.py, orchestration/pool.py): admission,
    coalescing, choice by priority, suspended turns, the warm contexts KV1 and KV2, and shutdown.
  \<^item> \<open>NativeQueue\<close>: the queue of native model operations (agent_core_tools/priority_scheduler.py), with
    the abstract specification of one lane per kind (the locale \<open>lanes_queue\<close>).
  \<^item> \<open>ToolGuard\<close>, \<open>ToolGuardProps\<close>: the limits of an automatic tool turn and the store of large results
    (litert_agent_tools/tool_guard.py), with \<open>json.dumps\<close> written out.
  \<^item> \<open>Protocol\<close>, \<open>ProtocolProps\<close>: the answers of managers and agents (orchestration/protocol.py).
  \<^item> \<open>FileTree\<close>, \<open>FileProps\<close>: what the command runtimes rely on of a file system: a tree with symbolic
    links, the resolution of paths, and the changes an operation makes.
  \<^item> \<open>Restricted\<close>, \<open>RestrictedProps\<close>: the commands an agent may run without a shell
    (orchestration/command_runtime.py, orchestration/data_paths.py), confined to the workspace.
  \<^item> \<open>WorkRuntime\<close>, \<open>WorkProps\<close>: the runtime with bash, MQTT commands and MCP calls
    (orchestration/workspace_command_runtime.py, tool_dispatcher.py, process_runner.py).
  \<^item> \<open>Fragments\<close>, \<open>Scripts\<close>: the tools that suspend their agent (orchestration/read_partly.py,
    cyclic_process.py, fragment_processing.py, image_tool.py, skill_script.py).
  \<^item> \<open>Prompts\<close>, \<open>Catalog\<close>: the skill base and the store of prompts (orchestration/skills.py,
    prompt_store.py), and the catalogue of tools (orchestration/tool_catalog.py).
  \<^item> \<open>AgentLoop\<close>, \<open>AgentProps\<close>, \<open>AgentRun\<close>: one agent from its activation to its outcome
    (orchestration/agent.py), and the pool of agents (orchestration/pool.py).
  \<^item> \<open>ManagerLoop\<close>, \<open>AssistantLoop\<close>: the turns of the two managers, with their dialogue, delegation,
    system commands, waiting for workers and saved tasks (orchestration/manager.py,
    assistant_manager.py).
  \<^item> \<open>Desk\<close>, \<open>ManagerProps\<close>: several dialogues and running tasks over one office of workers, in any
    interleaving of their steps, as the scheduler drives them.
  \<^item> \<open>Outbox\<close>, \<open>OutboxProps\<close>: the persistent notifications shared by all COREs (agent_core/outbox.py).
  \<^item> \<open>NativeAgents\<close>: a native conversation that is warmed once and cloned for every dialogue
    (litert_agent_tools/conversation.py, clone.py), and the agents over it (orchestration_tools/agents.py).
  \<^item> \<open>Delegation\<close>, \<open>NativeManager\<close>, \<open>NativeProps\<close>: the tools of the native manager
    (orchestration_tools/delegation.py, task_tools.py) and its turn of bounded rounds (manager.py), over
    the service as a parameter; \<open>logged\<close> records what the service was asked.
  \<^item> \<open>TaskWorker\<close>, \<open>WorkerSteps\<close>: the worker of a native CORE (agent_core_tools/task_worker.py), with the
    contract of the service it relies on (the locale \<open>worker_service\<close>).
  \<^item> \<open>Fleet\<close>, \<open>FleetSteps\<close>, \<open>FleetProps\<close>: several such workers with their queues and managers and the
    engine of the task service behind sockets that lose requests and replies.

  The parts meet in the code as follows. A manager's answer is read by the protocol, and a timer line of
  it is executed by the system runtime (\<open>timer_control_reaches_runtime\<close>). A manager takes a worker of the
  pool and gives it a task; the agent's loop asks its model, reads the answer by the protocol and runs
  the command in a command runtime, a partial reading or a script, and the outcome goes back into the
  dialogue of the manager. The scheduler steps the suspended turns of the dialogues and the running
  tasks one at a time (\<open>desk_do\<close>). The service owns one registry, one binding registry and one runtime
  and queues what its ticks find due (\<open>tick_activates_due_tasks\<close>). A CORE polls the service through its
  client, puts the granted run into its scheduler, asks the service in the job that steps it
  (\<open>task_run_steps_only_when_granted\<close>), and reports the completion through the client, which keeps it
  until it is answered (\<open>flush_keeps_unanswered_completions\<close>).
  In a native CORE the worker polls the service and submits a run to the queue of native operations;
  the model thread takes it, begins it at the service, lets the manager run an agent, and files the end,
  which the polling thread reports until the service answers. The same manager answers people in turns
  whose tools delegate to its agents and change the saved tasks of the service. \<open>fleet_do\<close> composes the
  worker, the queue, the manager and the engine, and \<open>activation_runs_at_most_once\<close> is about all of them.

  \<^bold>\<open>How the code is written as functions.\<close> An object is a record, an operation takes the record and
  returns it updated; an exception is the left part of a sum; a rendered text that only people read is a
  constructor of a reply or error type or a function of the environment. Identifiers drawn by \<open>uuid4\<close>,
  readings of the clock, which processes are alive, whether a transaction commits, what a program
  prints, what a model answers and what a callback returns are arguments. One operation reads the clock
  once. A lock makes an operation one step; where the code gives a lock up in between (the sender of the
  outbox, a job of the executor) the operation is split into steps and the theorems speak about all
  sequences of steps. A Python generator that a caller resumes is a value of its suspension.

  \<^bold>\<open>What the lemmas show.\<close> Each component has an invariant that every operation keeps, and \<open>stepper\<close>
  interpretations turn this into statements over all histories: the registry and its timers
  (\<open>store_ok\<close>, \<open>events_ok\<close>, \<open>sys_ok\<close>), the service (\<open>engine_ok\<close>, and the relation \<open>follows\<close> of the lives of its
  runs), the contexts (\<open>kv_ok\<close>), the scheduler (\<open>core_ok\<close>, \<open>sched_ok\<close>), the native queue (\<open>native_ok\<close>), the
  rows of the outbox (\<open>rows_kept\<close>), the native agents (\<open>pool_ok\<close>) and the workers of a fleet (\<open>work_ok\<close>), the changes of a command (\<open>confined\<close>), the dialogue of an agent, the
  office of workers (\<open>office_ok\<close>) and the desk of dialogues (\<open>desk_ok\<close>). On them rest the properties: what
  is admitted is not lost and not done twice, what fails is undone, what is saved is read back, who is
  served next, who owns which worker and context, what a command may touch, and the limits.

  \<^bold>\<open>Recursion and bounds.\<close> There is no fuel in the model of the code. Its loops are structural
  recursions or have a measure: the bisection of a preview, the skipped prefix of a file, the scanner of
  \<open>shlex\<close>, the parents of a directory, the run of an agent (\<open>closer\<close>: the steps left to it, then the
  lines of a script and the fragments left to a suspended tool), the turn of the assistant (\<open>nearer\<close>)
  and the rounds of a native turn (\<open>delegations_left\<close>). A path follows at most forty symbolic links, as
  in the kernel. Specification functions that count steps are \<open>drain\<close> with the length of the queue and
  \<open>read_pages\<close> with the length of the text, and their theorems give a number of steps that is enough.

  \<^bold>\<open>Not modelled.\<close> Floating point rounding (a \<open>float\<close> is an exact rational, an infinity or NaN); Unicode
  case mapping beyond Latin and Cyrillic; SQLite, files outside the command runtimes and sockets
  themselves (an operation succeeds or keeps the old state); threads beyond the steps named above; what
  a model computes and the clients that call it over HTTP or a library; terminal, voice and web
  interfaces; start-up, configuration files and logging; the MQTT monitor of the service
  (\<open>consume_mqtt\<close> compares object identities). The remaining components of the repository are listed
  with their status in the manifest.
\<close>

end
